(* ===== verification/Prelude.thy ===== *)
theory Prelude
  imports Main "HOL-Library.Word"
begin

text \<open>
  Shared vocabulary of the development: machine integers at their width, byte buffers with
  little-endian 32-bit loads and stores, and the generic facts on lists and words that every
  component uses. A C buffer is a list of bytes. An access that leaves the buffer is undefined
  behaviour in C, so the checked accessors return \<open>None\<close> for it.
\<close>

unbundle bit_operations_syntax

type_synonym u8 = "8 word"
type_synonym u32 = "32 word"
type_synonym u64 = "64 word"
type_synonym bytes = "8 word list"
type_synonym connection = nat

named_theorems bufs \<open>lengths and reads of updated buffers\<close>

text \<open>The bytes of a C string literal.\<close>

definition ascii :: "string \<Rightarrow> bytes" where
  "ascii s = map of_char s"

lemma length_ascii [bufs, simp]: "length (ascii s) = length s"
  by (simp add: ascii_def)

subsection \<open>Slices of a buffer\<close>

text \<open>\<open>buf_read off len b\<close> is the \<open>len\<close> bytes from \<open>b + off\<close>; \<open>buf_write off d b\<close> is the buffer
  after \<open>memcpy(b + off, d, length d)\<close>.\<close>

definition buf_read :: "nat \<Rightarrow> nat \<Rightarrow> bytes \<Rightarrow> bytes option" where
  "buf_read off len b = (if off + len \<le> length b then Some (take len (drop off b)) else None)"

definition buf_write :: "nat \<Rightarrow> bytes \<Rightarrow> bytes \<Rightarrow> bytes option" where
  "buf_write off d b =
     (if off + length d \<le> length b
      then Some (take off b @ d @ drop (off + length d) b) else None)"

lemma buf_write_length [bufs]: "buf_write off d b = Some b' \<Longrightarrow> length b' = length b"
  by (auto simp: buf_write_def split: if_splits)

lemma buf_write_Some_iff: "(\<exists>b'. buf_write off d b = Some b') \<longleftrightarrow> off + length d \<le> length b"
  by (simp add: buf_write_def)

lemma read_write_same [bufs]:
  "buf_write off d b = Some b' \<Longrightarrow> buf_read off (length d) b' = Some d"
  by (auto simp: buf_write_def buf_read_def split: if_splits)

lemma read_write_before [bufs]:
  "buf_write off d b = Some b' \<Longrightarrow> i + n \<le> off \<Longrightarrow> buf_read i n b' = buf_read i n b"
  by (auto simp: buf_write_def buf_read_def take_drop split: if_splits)

lemma read_write_after [bufs]:
  assumes s: "buf_write off d b = Some b'" and le: "off + length d \<le> i"
  shows "buf_read i n b' = buf_read i n b"
proof -
  from s have b': "b' = take off b @ d @ drop (off + length d) b"
    and fits: "off + length d \<le> length b"
    by (auto simp: buf_write_def split: if_splits)
  have "drop i b' = drop (i - (off + length d)) (drop (off + length d) b)"
    using b' fits le by (simp add: min_def)
  also have "\<dots> = drop i b" using le by simp
  finally show ?thesis using buf_write_length [OF s] by (simp add: buf_read_def)
qed

lemma buf_read_length [bufs]: "buf_read off n b = Some d \<Longrightarrow> length d = n"
  by (auto simp: buf_read_def split: if_splits)

subsection \<open>Little-endian 32-bit loads and stores\<close>

definition enc32 :: "u32 \<Rightarrow> bytes" where
  "enc32 w = [ucast w, ucast (drop_bit 8 w), ucast (drop_bit 16 w), ucast (drop_bit 24 w)]"

definition dec32 :: "bytes \<Rightarrow> u32" where
  "dec32 b = ucast (b ! 0) OR push_bit 8 (ucast (b ! 1))
     OR push_bit 16 (ucast (b ! 2)) OR push_bit 24 (ucast (b ! 3))"

definition ld32 :: "nat \<Rightarrow> bytes \<Rightarrow> u32 option" where
  "ld32 off b = map_option dec32 (buf_read off 4 b)"

definition st32 :: "nat \<Rightarrow> u32 \<Rightarrow> bytes \<Rightarrow> bytes option" where
  "st32 off w b = buf_write off (enc32 w) b"

lemma length_enc32 [bufs, simp]: "length (enc32 w) = 4"
  by (simp add: enc32_def)

lemma dec32_enc32 [simp]: "dec32 (enc32 w) = w"
proof (rule bit_word_eqI)
  fix n assume n: "n < LENGTH(32)"
  consider "n < 8" | "8 \<le> n" "n < 16" | "16 \<le> n" "n < 24" | "24 \<le> n" "n < 32"
    using n by force
  then show "bit (dec32 (enc32 w)) n = bit w n"
    by cases (auto simp: dec32_def enc32_def bit_simps)
qed

lemma st32_length [bufs]: "st32 off w b = Some b' \<Longrightarrow> length b' = length b"
  by (simp add: st32_def buf_write_length)

lemma st32_Some_iff: "(\<exists>b'. st32 off w b = Some b') \<longleftrightarrow> off + 4 \<le> length b"
  by (simp add: st32_def buf_write_Some_iff)

lemma ld32_st32_same [bufs]: "st32 off w b = Some b' \<Longrightarrow> ld32 off b' = Some w"
  using read_write_same [of off "enc32 w" b b'] by (simp add: st32_def ld32_def)

lemma ld32_st32_other [bufs]:
  assumes "st32 off w b = Some b'" and "i + 4 \<le> off \<or> off + 4 \<le> i"
  shows "ld32 i b' = ld32 i b"
  using assms read_write_before [of off "enc32 w" b b' i 4]
    read_write_after [of off "enc32 w" b b' i 4]
  by (auto simp: st32_def ld32_def)

lemma ld32_Some_iff: "(\<exists>w. ld32 off b = Some w) \<longleftrightarrow> off + 4 \<le> length b"
  by (auto simp: ld32_def buf_read_def)

lemma unat_u32_less: "unat (w :: u32) < 4294967296"
  using unsigned_less [where ?'a = nat and w = w] by simp

lemma unat_of_nat_u32: "n < 4294967296 \<Longrightarrow> unat (of_nat n :: u32) = n"
  by (simp add: unsigned_of_nat take_bit_nat_eq_self)

subsection \<open>Bytes bit by bit\<close>

lemma u8_eqI:
  fixes v w :: u8
  assumes "bit v 0 = bit w 0" "bit v 1 = bit w 1" "bit v 2 = bit w 2" "bit v 3 = bit w 3"
    "bit v 4 = bit w 4" "bit v 5 = bit w 5" "bit v 6 = bit w 6" "bit v 7 = bit w 7"
  shows "v = w"
proof (rule bit_word_eqI)
  fix n assume "n < LENGTH(8)"
  then have "n \<in> {0, 1, 2, 3, 4, 5, 6, 7}" by auto
  with assms show "bit v n = bit w n" by auto
qed

lemma six_bits:
  fixes w :: u8
  assumes "w AND 0x3f = w" shows "unat w < 64"
  using word_and_le1 [of w "0x3f"] assms by (simp add: word_le_nat_alt)

end
