(* ===== verification/Base64.thy ===== *)
theory Base64
  imports Prelude
begin

text \<open>
  The base64 codec of the provisioning agent (src/rootpa/Code/Common/base64.c). The encoder
  turns a buffer into a NUL-terminated string without line breaks; the decoder skips every
  character outside the alphabet. Both allocate their result, so each takes the outcome of
  its \<open>malloc\<close> as an argument. A C string is the list of its bytes before the NUL;
  \<open>char\<close> is read as an unsigned byte, and \<open>size_t\<close> arithmetic is not modelled as wrapping.
\<close>

subsection \<open>Encoding\<close>

definition cb64 :: bytes where
  "cb64 = ascii ''ABCDEFGHIJKLMNOPQRSTUVWXYZabcdefghijklmnopqrstuvwxyz0123456789+/''"

definition encodeblock :: "u8 \<Rightarrow> u8 \<Rightarrow> u8 \<Rightarrow> nat \<Rightarrow> bytes" where
  "encodeblock a b c len =
     [cb64 ! unat (drop_bit 2 a),
      cb64 ! unat (push_bit 4 (a AND 0x03) OR drop_bit 4 (b AND 0xf0)),
      (if len > 1 then cb64 ! unat (push_bit 2 (b AND 0x0f) OR drop_bit 6 (c AND 0xc0)) else 61),
      (if len > 2 then cb64 ! unat (c AND 0x3f) else 61)]"

text \<open>One round of the inner loop: the three bytes from \<open>inIndex\<close>, padded with zero.\<close>

definition next_plain :: "bytes \<Rightarrow> nat \<Rightarrow> nat \<Rightarrow> u8" where
  "next_plain inp inIndex i = (if inIndex + i < length inp then inp ! (inIndex + i) else 0)"

function encode_loop :: "bytes \<Rightarrow> nat \<Rightarrow> bytes" where
  "encode_loop inp inIndex =
     (if inIndex < length inp
      then encodeblock (next_plain inp inIndex 0) (next_plain inp inIndex 1)
             (next_plain inp inIndex 2) (min 3 (length inp - inIndex))
           @ encode_loop inp (inIndex + 3)
      else [])"
  by pat_completeness auto
termination
  by (relation "measure (\<lambda>(inp, i). length inp - i)") auto

declare encode_loop.simps [simp del]

definition encode_outSize :: "nat \<Rightarrow> nat" where
  "encode_outSize len = (len div 3 + (if len mod 3 > 0 then 1 else 0)) * 4 + 1"

text \<open>The result is the whole allocated string, terminating zero included.\<close>

definition base64EncodeAddEndZero :: "bool \<Rightarrow> bytes option \<Rightarrow> bytes option" where
  "base64EncodeAddEndZero mallocOk toBeEncoded =
     (case toBeEncoded of None \<Rightarrow> None
      | Some inp \<Rightarrow> if mallocOk then Some (encode_loop inp 0 @ [0]) else None)"

subsection \<open>Decoding\<close>

definition cd64 :: bytes where
  "cd64 = ascii ''|$$$}rstuvwxyz{$$$$$$$>?@ABCDEFGHIJKLMNOPQRSTUVW$$$$$$XYZ['' @ [92]
     @ ascii '']^_`abcdefghijklmnopq''"

definition decodeblock :: "u8 \<Rightarrow> u8 \<Rightarrow> u8 \<Rightarrow> u8 \<Rightarrow> bytes" where
  "decodeblock a b c d =
     [push_bit 2 a OR drop_bit 4 b,
      push_bit 4 b OR drop_bit 2 c,
      (push_bit 6 c AND 0xc0) OR d]"

text \<open>The value \<open>v\<close> of one input character: 0 when it is not of the alphabet.\<close>

definition decode_char :: "u8 \<Rightarrow> nat" where
  "decode_char ch =
     (let v = unat ch;
          v1 = (if v < 43 \<or> 122 < v then 0 else unat (cd64 ! (v - 43)))
      in if v1 \<noteq> 0 then (if v1 = 36 then 0 else v1 - 61) else 0)"

text \<open>The inner \<open>while\<close>: advance to the next character of the alphabet.\<close>

fun next_digit :: "bytes \<Rightarrow> nat \<times> bytes" where
  "next_digit [] = (0, [])"
| "next_digit (ch # s) = (if decode_char ch = 0 then next_digit s else (decode_char ch, s))"

text \<open>The \<open>for\<close> loop over the four positions of \<open>in[]\<close>: the digits read, how many, and the rest.
  The buffer keeps its old contents at the positions that are not written.\<close>

fun fill_block :: "nat \<Rightarrow> nat \<Rightarrow> bytes \<Rightarrow> bytes \<Rightarrow> nat \<times> bytes \<times> bytes" where
  "fill_block 0 len blk s = (len, blk, s)"
| "fill_block (Suc k) len blk s =
     (if s = [] then (len, blk, s)
      else (case next_digit s of (v, s') \<Rightarrow>
        if v \<noteq> 0 then fill_block k (Suc len) (blk[3 - k := of_nat (v - 1)]) s'
        else fill_block k len blk s'))"

lemma next_digit_le: "length (snd (next_digit s)) \<le> length s - 1"
  by (induction s rule: next_digit.induct) auto

lemma fill_block_le: "fill_block k len blk s = (len', blk', s') \<Longrightarrow> length s' \<le> length s"
proof (induction k len blk s rule: fill_block.induct)
  case (2 k len blk s)
  then show ?case
    using next_digit_le [of s] by (fastforce split: if_splits prod.splits)
qed simp

lemma fill_block_less:
  assumes "s \<noteq> []" and "fill_block (Suc k) len blk s = (len', blk', s')"
  shows "length s' < length s"
proof -
  obtain v t where d: "next_digit s = (v, t)" by (cases "next_digit s")
  have "length t < length s"
    using next_digit_le [of s] assms(1) d by (cases s) auto
  moreover have "length s' \<le> length t"
    using assms d by (auto split: if_splits dest: fill_block_le)
  ultimately show ?thesis by simp
qed

lemma fill_block_4_less:
  "fill_block 4 len blk s = (len', blk', s') \<Longrightarrow> s \<noteq> [] \<Longrightarrow> length s' < length s"
  using fill_block_less [of s 3 len blk len' blk' s'] by (simp add: eval_nat_numeral)

function decode_loop :: "bytes \<Rightarrow> bytes \<Rightarrow> bytes" where
  "decode_loop blk s =
     (if s = [] then []
      else (case fill_block 4 0 blk s of (len, blk', s') \<Rightarrow>
        (if len > 0
         then take (len - 1) (decodeblock (blk' ! 0) (blk' ! 1) (blk' ! 2) (blk' ! 3))
         else []) @ decode_loop blk' s'))"
  by pat_completeness auto
termination
  by (relation "measure (\<lambda>(blk, s). length s)") (auto dest: fill_block_4_less [OF sym])

declare decode_loop.simps [simp del]

definition decode_outSize :: "nat \<Rightarrow> nat" where
  "decode_outSize inSize = (inSize * 3) div 4 + (inSize * 3) mod 4"

text \<open>The decoded bytes; \<open>None\<close> stands for the size 0 returned when there is no input or no
  memory. \<open>junk\<close> is what the uninitialised part of \<open>in[]\<close> holds: only \<open>in[0]\<close> is set.\<close>

definition base64DecodeStringRemoveEndZero ::
    "bool \<Rightarrow> bytes \<Rightarrow> bytes option \<Rightarrow> bytes option" where
  "base64DecodeStringRemoveEndZero mallocOk junk toBeDecoded =
     (case toBeDecoded of None \<Rightarrow> None
      | Some s \<Rightarrow> if mallocOk then Some (decode_loop (0 # take 3 (junk @ [0, 0, 0])) s) else None)"

subsection \<open>The tables\<close>

lemma cb64_eq: "cb64 = [65, 66, 67, 68, 69, 70, 71, 72, 73, 74, 75, 76, 77, 78, 79, 80,
    81, 82, 83, 84, 85, 86, 87, 88, 89, 90, 97, 98, 99, 100, 101, 102,
    103, 104, 105, 106, 107, 108, 109, 110, 111, 112, 113, 114, 115, 116, 117, 118,
    119, 120, 121, 122, 48, 49, 50, 51, 52, 53, 54, 55, 56, 57, 43, 47]"
  by (simp add: cb64_def ascii_def)
lemma cd64_eq: "cd64 = [124, 36, 36, 36, 125, 114, 115, 116, 117, 118, 119, 120, 121, 122, 123, 36,
    36, 36, 36, 36, 36, 36, 62, 63, 64, 65, 66, 67, 68, 69, 70, 71,
    72, 73, 74, 75, 76, 77, 78, 79, 80, 81, 82, 83, 84, 85, 86, 87,
    36, 36, 36, 36, 36, 36, 88, 89, 90, 91, 92, 93, 94, 95, 96, 97,
    98, 99, 100, 101, 102, 103, 104, 105, 106, 107, 108, 109, 110, 111, 112, 113]"
  by (simp add: cd64_def ascii_def)
lemma decode_cb64: "map decode_char cb64 = [1..<65]"
  by (simp add: decode_char_def cb64_eq cd64_eq upt_rec)
lemma decode_char_pad: "decode_char 61 = 0" by (simp add: decode_char_def cd64_eq)
lemma decodeblock_sextets:
  "decodeblock (drop_bit 2 a) (push_bit 4 (a AND 0x03) OR drop_bit 4 (b AND 0xf0))
     (push_bit 2 (b AND 0x0f) OR drop_bit 6 (c AND 0xc0)) (c AND 0x3f) = [a, b, c]"
  by (auto simp: decodeblock_def intro!: u8_eqI) (simp_all add: bit_simps bit_numeral_rec)

subsection \<open>What the decoder computes\<close>

text \<open>The digits of a text are the values of its alphabet characters; \<open>decode_spec\<close> decodes
  them four at a time, without the loop's buffers.\<close>

definition digits :: "bytes \<Rightarrow> nat list" where
  "digits s = filter (\<lambda>v. v \<noteq> 0) (map decode_char s)"

lemma digits_simps [simp]:
  "digits [] = []"
  "digits (ch # s) = (if decode_char ch = 0 then digits s else decode_char ch # digits s)"
  "digits (s @ t) = digits s @ digits t"
  by (simp_all add: digits_def)

fun decode_spec :: "nat list \<Rightarrow> bytes" where
  "decode_spec (a # b # c # d # ds) =
     decodeblock (of_nat (a - 1)) (of_nat (b - 1)) (of_nat (c - 1)) (of_nat (d - 1)) @ decode_spec ds"
| "decode_spec [a, b, c] =
     take 2 (decodeblock (of_nat (a - 1)) (of_nat (b - 1)) (of_nat (c - 1)) 0)"
| "decode_spec [a, b] = take 1 (decodeblock (of_nat (a - 1)) (of_nat (b - 1)) 0 0)"
| "decode_spec _ = []"

lemma next_digit_digits:
  "next_digit s = (v, s') \<Longrightarrow>
     (if v = 0 then digits s = [] \<and> s' = [] else digits s = v # digits s')"
  by (induction s rule: next_digit.induct) (auto split: if_splits)

lemma fill_block_digits:
  assumes "fill_block k len blk s = (len', blk', s')" and "k \<le> 4" and "length blk = 4"
  shows "len' = len + min k (length (digits s)) \<and> digits s' = drop k (digits s) \<and>
     length blk' = 4 \<and> (\<forall>i < 4 - k. blk' ! i = blk ! i) \<and>
     (\<forall>i < min k (length (digits s)). blk' ! (4 - k + i) = of_nat (digits s ! i - 1))"
  using assms
proof (induction k arbitrary: len blk s)
  case 0
  then show ?case by simp
next
  case (Suc k)
  obtain v t where d: "next_digit s = (v, t)" by (cases "next_digit s")
  note dd = next_digit_digits [OF d]
  show ?case
  proof (cases "v = 0 \<or> s = []")
    case True
    have "fill_block j len blk [] = (len, blk, [])" for j by (cases j) auto
    with True Suc.prems dd d show ?thesis by (cases "s = []") auto
  next
    case False
    with Suc.prems(1) d
    have "fill_block k (Suc len) (blk[3 - k := of_nat (v - 1)]) t = (len', blk', s')" by simp
    from Suc.IH [OF this] Suc.prems(2,3) False dd show ?thesis
      by (auto simp: nth_Cons' Suc_diff_le less_Suc_eq_0_disj nth_list_update)
  qed
qed

lemma decode_loop_digits: "length blk = 4 \<Longrightarrow> decode_loop blk s = decode_spec (digits s)"
proof (induction blk s rule: decode_loop.induct)
  case (1 blk s)
  show ?case
  proof (cases "s = []")
    case True
    then show ?thesis by (simp add: decode_loop.simps)
  next
    case False
    obtain len blk' s' where f: "fill_block 4 0 blk s = (len, blk', s')"
      by (cases "fill_block 4 0 blk s")
    note F = fill_block_digits [OF f _ 1(2)]
    have IH: "decode_loop blk' s' = decode_spec (drop 4 (digits s))"
      using 1(1) [OF False f [symmetric]] F by auto
    have len: "len = min 4 (length (digits s))" using F by simp
    have at: "blk' ! i = of_nat (digits s ! i - 1)" if "i < len" for i
      using F that len by auto
    have "decode_loop blk s = (if len > 0
         then take (len - 1) (decodeblock (blk' ! 0) (blk' ! 1) (blk' ! 2) (blk' ! 3))
         else []) @ decode_spec (drop 4 (digits s))"
      using False f IH by (subst decode_loop.simps) simp
    also have "\<dots> = decode_spec (digits s)"
      using len at
      by (cases "digits s" rule: decode_spec.cases)
        (simp_all add: eval_nat_numeral decodeblock_def less_Suc_eq all_conj_distrib)
    finally show ?thesis .
  qed
qed

lemma decode_char_cb64: "n < 64 \<Longrightarrow> decode_char (cb64 ! n) = Suc n"
proof -
  assume n: "n < 64"
  have "length cb64 = 64" by (simp add: cb64_eq)
  then have "decode_char (cb64 ! n) = map decode_char cb64 ! n" using n by simp
  with n show ?thesis by (simp add: decode_cb64)
qed


lemma sextet0: "unat (drop_bit 2 (a :: u8)) < 64"
  by (rule six_bits, rule u8_eqI)
    (auto simp: bit_simps bit_numeral_rec dest: bit_imp_le_length)

lemma sextet1: "unat (push_bit 4 (a AND 0x03) OR drop_bit 4 (b AND 0xf0 :: u8)) < 64"
  by (rule six_bits, rule u8_eqI) (simp_all add: bit_simps bit_numeral_rec)

lemma sextet2: "unat (push_bit 2 (b AND 0x0f) OR drop_bit 6 (c AND 0xc0 :: u8)) < 64"
  by (rule six_bits, rule u8_eqI) (simp_all add: bit_simps bit_numeral_rec)

lemma sextet3: "unat (c AND 0x3f :: u8) < 64"
  by (rule six_bits, rule u8_eqI) (simp_all add: bit_simps bit_numeral_rec)

lemmas sextets = sextet0 sextet1 sextet2 sextet3

lemma next_plain_drop:
  "next_plain inp i j = (if j < length (drop i inp) then drop i inp ! j else 0)"
  by (auto simp: next_plain_def)

lemma digits_encodeblock:
  "digits (encodeblock a b c len) =
     map (\<lambda>w. Suc (unat w))
       ([drop_bit 2 a, push_bit 4 (a AND 0x03) OR drop_bit 4 (b AND 0xf0)]
        @ (if len > 1 then [push_bit 2 (b AND 0x0f) OR drop_bit 6 (c AND 0xc0)] else [])
        @ (if len > 2 then [c AND 0x3f] else []))"
  using sextets by (simp add: encodeblock_def decode_char_cb64 decode_char_pad)

lemma decode_encode_loop: "decode_spec (digits (encode_loop inp i)) = drop i inp"
proof (induction inp i rule: encode_loop.induct)
  case (1 inp i)
  show ?case
  proof (cases "i < length inp")
    case False
    then show ?thesis by (simp add: encode_loop.simps)
  next
    case True
    let ?r = "drop i inp"
    have IH: "decode_spec (digits (encode_loop inp (i + 3))) = drop 3 ?r"
      using 1 True by (simp add: add.commute)
    have step: "digits (encode_loop inp i) =
        digits (encodeblock (next_plain inp i 0) (next_plain inp i 1) (next_plain inp i 2)
          (min 3 (length ?r))) @ digits (encode_loop inp (i + 3))"
      using True by (subst encode_loop.simps) simp
    have last: "digits (encode_loop inp (i + 3)) = []" if "length ?r < 3"
      using that by (subst encode_loop.simps) auto
    consider a where "?r = [a]" | a b where "?r = [a, b]"
      | a b c t where "?r = a # b # c # t"
      using True by (metis drop_eq_Nil linorder_not_le neq_Nil_conv)
    then show ?thesis
    proof cases
      case (1 a)
      then show ?thesis
        using decodeblock_sextets [of a 0 0] last step
        by (simp add: next_plain_drop digits_encodeblock decodeblock_def)
    next
      case (2 a b)
      then show ?thesis
        using decodeblock_sextets [of a b 0] last step
        by (simp add: next_plain_drop digits_encodeblock decodeblock_def)
    next
      case (3 a b c t)
      then show ?thesis
        using decodeblock_sextets [of a b c] IH step
        by (simp add: next_plain_drop digits_encodeblock)
    qed
  qed
qed


lemma length_decode_spec: "length (decode_spec ds) = 3 * (length ds div 4) + (length ds mod 4 - 1)"
proof (induction ds rule: decode_spec.induct)
  case (1 a b c d ds)
  moreover have "(4 + length ds) div 4 = Suc (length ds div 4)" by simp
  ultimately show ?case by (simp add: decodeblock_def)
qed (auto simp: decodeblock_def)

lemma encode_outSize_3: "encode_outSize (n + 3) = encode_outSize n + 4"
proof -
  have "(n + 3) div 3 = Suc (n div 3)" by simp
  then show ?thesis by (simp add: encode_outSize_def)
qed

lemma length_encode_loop:
  "i \<le> length inp \<Longrightarrow> length (encode_loop inp i) + 1 = encode_outSize (length inp - i)"
proof (induction inp i rule: encode_loop.induct)
  case (1 inp i)
  show ?case
  proof (cases "i + 3 \<le> length inp")
    case True
    with 1 have "length (encode_loop inp (i + 3)) + 1 = encode_outSize (length inp - (i + 3))"
      by simp
    moreover have "encode_outSize (length inp - i) = encode_outSize (length inp - (i + 3)) + 4"
      using True encode_outSize_3 [of "length inp - (i + 3)"] by simp
    ultimately show ?thesis
      using True by (subst encode_loop.simps) (simp add: encodeblock_def)
  next
    case False
    then have "encode_loop inp (i + 3) = []" by (subst encode_loop.simps) simp
    moreover have "length inp - i = 0 \<or> length inp - i = 1 \<or> length inp - i = 2"
      using False 1(2) by arith
    ultimately show ?thesis
      by (subst encode_loop.simps) (auto simp: encode_outSize_def encodeblock_def)
  qed
qed

lemma decoded_size_bound: "3 * (n div 4) + (n mod 4 - 1) \<le> n * 3 div (4 :: nat)"
  by presburger

lemma length_digits_le: "length (digits s) \<le> length s"
  by (simp add: digits_def)

lemma digits_skip: "digits (filter (\<lambda>ch. decode_char ch \<noteq> 0) s) = digits s"
  by (induction s) auto

lemma cb64_nonzero: "n < 64 \<Longrightarrow> cb64 ! n \<noteq> 0"
proof -
  assume n: "n < 64"
  have "length cb64 = 64" "0 \<notin> set cb64" by (simp_all add: cb64_eq)
  with n show ?thesis by (metis nth_mem)
qed

lemma encode_loop_no_zero: "0 \<notin> set (encode_loop inp i)"
proof (induction inp i rule: encode_loop.induct)
  case (1 inp i)
  then show ?case
    using sextets cb64_nonzero
    by (subst encode_loop.simps) (auto simp: encodeblock_def)
qed

lemma base64_decode_digits:
  "base64DecodeStringRemoveEndZero True junk (Some s) = Some (decode_spec (digits s))"
  by (simp add: base64DecodeStringRemoveEndZero_def decode_loop_digits)

subsection \<open>Properties\<close>

text \<open>C40. Decoding an encoded buffer gives the buffer back, for every buffer and whatever the
  decoder's uninitialised block holds. The encoded text is a C string: its only zero is the
  terminator.\<close>

theorem base64_roundtrip:
  "\<exists>e. base64EncodeAddEndZero True (Some d) = Some (e @ [0]) \<and> 0 \<notin> set e
     \<and> base64DecodeStringRemoveEndZero True junk (Some e) = Some d"
  by (simp add: base64EncodeAddEndZero_def base64_decode_digits decode_encode_loop
      encode_loop_no_zero)

text \<open>Both codecs stay inside the buffers they allocate: the encoder fills its buffer
  exactly, the decoder never writes more bytes than it allocated, on any input text.\<close>

lemma base64_within_buffers:
  "(\<exists>e. base64EncodeAddEndZero True (Some d) = Some e \<and> length e = encode_outSize (length d)) \<and>
   (\<exists>r. base64DecodeStringRemoveEndZero True junk (Some s) = Some r \<and>
      length r \<le> decode_outSize (length s))"
proof -
  have "length (decode_spec (digits s)) \<le> decode_outSize (length s)"
    using decoded_size_bound [of "length (digits s)"] length_digits_le [of s]
      div_le_mono [of "length (digits s) * 3" "length s * 3" 4]
    unfolding length_decode_spec decode_outSize_def by linarith
  then show ?thesis
    using length_encode_loop [of 0 d]
    by (simp add: base64EncodeAddEndZero_def base64_decode_digits)
qed

text \<open>Characters outside the alphabet (line breaks, padding) do not change what is decoded.\<close>

lemma base64_decode_skips:
  "base64DecodeStringRemoveEndZero mallocOk junk (Some s) =
   base64DecodeStringRemoveEndZero mallocOk junk' (Some (filter (\<lambda>ch. decode_char ch \<noteq> 0) s))"
  by (simp add: base64DecodeStringRemoveEndZero_def decode_loop_digits digits_skip del: neq0_conv)

end
