(* ===== verification/FileSystem.thy ===== *)
theory FileSystem
  imports Prelude "HOL-Library.AList"
begin

text \<open>
  The part of the C library's files and directories that the registry uses. A file is named by
  its directory and its name in it, and has its bytes as content; the order of the list is the
  order \<open>readdir\<close> returns the entries in. Every call that can fail takes its outcome from
  \<open>fs_io\<close>, one outcome per call in the order of the calls, so that a statement about all states
  covers every pattern of failures. A failed write says how many bytes had reached the file.
\<close>

type_synonym path = "string \<times> string"

datatype io_out = Done | Fails nat

record fs =
  fs_files :: "(path \<times> bytes) list"
  fs_dirs :: "string list"
  fs_env :: "string option" \<comment> \<open>the environment variable \<open>MC_AUTH_TOKEN_PATH\<close>\<close>
  fs_io :: "nat \<Rightarrow> io_out"
  fs_calls :: nat

definition lookup_file :: "fs \<Rightarrow> path \<Rightarrow> bytes option" where
  "lookup_file fs p = map_of (fs_files fs) p"

definition put_file :: "path \<Rightarrow> bytes \<Rightarrow> fs \<Rightarrow> fs" where
  "put_file p d fs = fs\<lparr>fs_files := AList.update p d (fs_files fs)\<rparr>"

definition drop_file :: "path \<Rightarrow> fs \<Rightarrow> fs" where
  "drop_file p fs = fs\<lparr>fs_files := AList.delete p (fs_files fs)\<rparr>"

text \<open>The outcome of the next call.\<close>

definition io :: "fs \<Rightarrow> io_out \<times> fs" where
  "io fs = (fs_io fs (fs_calls fs), fs\<lparr>fs_calls := Suc (fs_calls fs)\<rparr>)"

text \<open>No call fails from this state on.\<close>

definition reliable :: "fs \<Rightarrow> bool" where
  "reliable fs \<longleftrightarrow> (\<forall>n \<ge> fs_calls fs. fs_io fs n = Done)"

definition doesDirExist :: "fs \<Rightarrow> string option \<Rightarrow> bool" where
  "doesDirExist fs path = (case path of None \<Rightarrow> False | Some d \<Rightarrow> d \<in> set (fs_dirs fs))"

definition stat_file :: "fs \<Rightarrow> path \<Rightarrow> bool" where
  "stat_file fs p = (lookup_file fs p \<noteq> None)"

text \<open>\<open>fopen(p, "wb")\<close> creates or empties the file, in a directory that exists.\<close>

definition fopen_wb :: "path \<Rightarrow> fs \<Rightarrow> bool \<times> fs" where
  "fopen_wb p fs = (case io fs of (r, fs1) \<Rightarrow>
     if r = Done \<and> fst p \<in> set (fs_dirs fs1) then (True, put_file p [] fs1) else (False, fs1))"

text \<open>\<open>fopen(p, "rb")\<close>: the content a later \<open>fread\<close> sees.\<close>

definition fopen_rb :: "path \<Rightarrow> fs \<Rightarrow> bytes option \<times> fs" where
  "fopen_rb p fs = (case io fs of (r, fs1) \<Rightarrow>
     (if r = Done then lookup_file fs1 p else None, fs1))"

definition fseek :: "fs \<Rightarrow> bool \<times> fs" where
  "fseek fs = (case io fs of (r, fs1) \<Rightarrow> (r = Done, fs1))"

text \<open>\<open>fwrite\<close> into the emptied file; the result tells \<open>ferror\<close>. The bytes are in the stream's
  buffer until \<open>fflush\<close>, whose result the registry ignores.\<close>

definition fwrite :: "path \<Rightarrow> bytes \<Rightarrow> fs \<Rightarrow> bool \<times> fs" where
  "fwrite p d fs = (case io fs of
     (Done, fs1) \<Rightarrow> (True, fs1)
   | (Fails k, fs1) \<Rightarrow> (False, put_file p (take k d) fs1))"

definition fflush_fclose :: "path \<Rightarrow> bytes \<Rightarrow> fs \<Rightarrow> fs" where
  "fflush_fclose p d fs = (case io fs of
     (Done, fs1) \<Rightarrow> put_file p d fs1
   | (Fails k, fs1) \<Rightarrow> put_file p (take k d) fs1)"

text \<open>\<open>fread\<close> of at most \<open>n\<close> bytes from the start; \<open>None\<close> is \<open>ferror\<close>.\<close>

definition fread :: "nat \<Rightarrow> bytes \<Rightarrow> fs \<Rightarrow> bytes option \<times> fs" where
  "fread n content fs = (case io fs of (r, fs1) \<Rightarrow>
     (if r = Done then Some (take n content) else None, fs1))"

definition rename_file :: "path \<Rightarrow> path \<Rightarrow> fs \<Rightarrow> bool \<times> fs" where
  "rename_file p q fs = (case io fs of (r, fs1) \<Rightarrow>
     (case lookup_file fs1 p of
        None \<Rightarrow> (False, fs1)
      | Some d \<Rightarrow> if r = Done \<and> fst q \<in> set (fs_dirs fs1)
                  then (True, put_file q d (drop_file p fs1)) else (False, fs1)))"

definition remove_file :: "path \<Rightarrow> fs \<Rightarrow> bool \<times> fs" where
  "remove_file p fs = (case io fs of (r, fs1) \<Rightarrow>
     if r = Done \<and> stat_file fs1 p then (True, drop_file p fs1) else (False, fs1))"

definition mkdir :: "string \<Rightarrow> fs \<Rightarrow> bool \<times> fs" where
  "mkdir d fs = (case io fs of (r, fs1) \<Rightarrow>
     if r = Done \<and> d \<notin> set (fs_dirs fs1)
     then (True, fs1\<lparr>fs_dirs := d # fs_dirs fs1\<rparr>) else (False, fs1))"

definition entries :: "string \<Rightarrow> fs \<Rightarrow> string list" where
  "entries d fs = map snd (filter (\<lambda>p. fst p = d) (map fst (fs_files fs)))"

definition rmdir :: "string \<Rightarrow> fs \<Rightarrow> bool \<times> fs" where
  "rmdir d fs = (case io fs of (r, fs1) \<Rightarrow>
     if r = Done \<and> d \<in> set (fs_dirs fs1) \<and> entries d fs1 = []
     then (True, fs1\<lparr>fs_dirs := removeAll d (fs_dirs fs1)\<rparr>) else (False, fs1))"

text \<open>\<open>opendir\<close> followed by reading all entries; \<open>None\<close> when the directory cannot be opened.\<close>

definition opendir :: "string \<Rightarrow> fs \<Rightarrow> string list option \<times> fs" where
  "opendir d fs = (case io fs of (r, fs1) \<Rightarrow>
     (if r = Done \<and> d \<in> set (fs_dirs fs1) then Some (entries d fs1) else None, fs1))"

subsection \<open>Facts\<close>

named_theorems fs_defs \<open>definitions of the file operations\<close>

lemmas [fs_defs] = io_def fopen_wb_def fopen_rb_def fseek_def fwrite_def fflush_fclose_def
  fread_def rename_file_def remove_file_def mkdir_def rmdir_def opendir_def stat_file_def

lemma lookup_put [simp]: "lookup_file (put_file p d fs) = (lookup_file fs)(p \<mapsto> d)"
  by (rule ext) (simp add: lookup_file_def put_file_def update_conv')

lemma lookup_drop [simp]: "lookup_file (drop_file p fs) = (lookup_file fs)(p := None)"
  by (rule ext) (simp add: lookup_file_def drop_file_def delete_conv')

lemma lookup_calls [simp]: "lookup_file (fs\<lparr>fs_calls := n\<rparr>) = lookup_file fs"
  by (rule ext) (simp add: lookup_file_def)

lemma lookup_dirs [simp]: "lookup_file (fs\<lparr>fs_dirs := n\<rparr>) = lookup_file fs"
  by (rule ext) (simp add: lookup_file_def)

lemma put_fields [simp]:
  "fs_dirs (put_file p d fs) = fs_dirs fs" "fs_env (put_file p d fs) = fs_env fs"
  "fs_io (put_file p d fs) = fs_io fs" "fs_calls (put_file p d fs) = fs_calls fs"
  by (simp_all add: put_file_def)

lemma drop_fields [simp]:
  "fs_dirs (drop_file p fs) = fs_dirs fs" "fs_env (drop_file p fs) = fs_env fs"
  "fs_io (drop_file p fs) = fs_io fs" "fs_calls (drop_file p fs) = fs_calls fs"
  by (simp_all add: drop_file_def)

lemma io_reliable [simp]: "reliable fs \<Longrightarrow> io fs = (Done, fs\<lparr>fs_calls := Suc (fs_calls fs)\<rparr>)"
  by (simp add: io_def reliable_def)

lemma reliable_put [simp]: "reliable (put_file p d fs) = reliable fs"
  by (simp add: reliable_def)

lemma reliable_drop [simp]: "reliable (drop_file p fs) = reliable fs"
  by (simp add: reliable_def)

lemma reliable_dirs [simp]: "reliable (fs\<lparr>fs_dirs := ds\<rparr>) = reliable fs"
  by (simp add: reliable_def)

lemma reliable_tick [simp]: "reliable fs \<Longrightarrow> fs_calls fs \<le> n \<Longrightarrow> reliable (fs\<lparr>fs_calls := n\<rparr>)"
  by (simp add: reliable_def)

lemma entries_lookup: "n \<in> set (entries d fs) \<longleftrightarrow> lookup_file fs (d, n) \<noteq> None"
  by (auto simp: entries_def lookup_file_def map_of_eq_None_iff image_iff)

end
