(* ===== verification/Codes.thy ===== *)
theory Codes
  imports Prelude
begin

text \<open>
  The numeric codes that cross component boundaries, with the values of the headers: driver
  results (MobiCoreDriverApi.h), agent results (rootpaErrors.h), content management command ids
  (tlCmApiCommon.h) and the sizes of the packed containers (mcSo.h, mcContainer.h, cmpMap.h,
  tlCmApi.h) on a target whose \<open>int\<close>, enums and \<open>uint32_t\<close> have four bytes.
\<close>

subsection \<open>Driver results\<close>

abbreviation (input) MC_DRV_OK :: u32 where "MC_DRV_OK \<equiv> 0x00"
abbreviation (input) MC_DRV_ERR_OUT_OF_RESOURCES :: u32 where "MC_DRV_ERR_OUT_OF_RESOURCES \<equiv> 0x04"
abbreviation (input) MC_DRV_ERR_UNKNOWN :: u32 where "MC_DRV_ERR_UNKNOWN \<equiv> 0x06"
abbreviation (input) MC_DRV_ERR_INVALID_OPERATION :: u32 where "MC_DRV_ERR_INVALID_OPERATION \<equiv> 0x09"
abbreviation (input) MC_DRV_ERR_NO_FREE_MEMORY :: u32 where "MC_DRV_ERR_NO_FREE_MEMORY \<equiv> 0x0c"
abbreviation (input) MC_DRV_ERR_DAEMON_SOCKET :: u32 where "MC_DRV_ERR_DAEMON_SOCKET \<equiv> 0x0f"
abbreviation (input) MC_DRV_ERR_INVALID_DEVICE_FILE :: u32 where "MC_DRV_ERR_INVALID_DEVICE_FILE \<equiv> 0x10"
abbreviation (input) MC_DRV_ERR_INVALID_PARAMETER :: u32 where "MC_DRV_ERR_INVALID_PARAMETER \<equiv> 0x11"
abbreviation (input) MC_DRV_ERR_TA_HEADER_ERROR :: u32 where "MC_DRV_ERR_TA_HEADER_ERROR \<equiv> 0x21"
abbreviation (input) MC_DRV_ERR_TA_ATTESTATION_ERROR :: u32 where "MC_DRV_ERR_TA_ATTESTATION_ERROR \<equiv> 0x22"

abbreviation (input) MC_DRV_ERR_NOTIFICATION :: u32 where "MC_DRV_ERR_NOTIFICATION \<equiv> 0x02"
abbreviation (input) MC_DRV_ERR_UNKNOWN_SESSION :: u32 where "MC_DRV_ERR_UNKNOWN_SESSION \<equiv> 0x08"
abbreviation (input) MC_DRV_ERR_TIMEOUT :: u32 where "MC_DRV_ERR_TIMEOUT \<equiv> 0x0b"
abbreviation (input) MC_DRV_ERR_SESSION_PENDING :: u32 where "MC_DRV_ERR_SESSION_PENDING \<equiv> 0x0e"
abbreviation (input) MC_DRV_ERR_DAEMON_UNREACHABLE :: u32 where "MC_DRV_ERR_DAEMON_UNREACHABLE \<equiv> 0x0f"
abbreviation (input) MC_DRV_ERR_KERNEL_MODULE :: u32 where "MC_DRV_ERR_KERNEL_MODULE \<equiv> 0x12"
abbreviation (input) MC_DRV_ERR_BULK_MAPPING :: u32 where "MC_DRV_ERR_BULK_MAPPING \<equiv> 0x13"
abbreviation (input) MC_DRV_ERR_BULK_UNMAPPING :: u32 where "MC_DRV_ERR_BULK_UNMAPPING \<equiv> 0x14"
abbreviation (input) MC_DRV_INFO_NOTIFICATION :: u32 where "MC_DRV_INFO_NOTIFICATION \<equiv> 0x15"
abbreviation (input) MC_DRV_ERR_DAEMON_VERSION :: u32 where "MC_DRV_ERR_DAEMON_VERSION \<equiv> 0x17"
abbreviation (input) MC_DRV_ERR_DAEMON_DEVICE_NOT_OPEN :: u32 where "MC_DRV_ERR_DAEMON_DEVICE_NOT_OPEN \<equiv> 0x21"
abbreviation (input) MC_DRV_ERR_INTERRUPTED_BY_SIGNAL :: u32 where "MC_DRV_ERR_INTERRUPTED_BY_SIGNAL \<equiv> 0x23"

text \<open>Codes with a second name.\<close>

abbreviation (input) MC_DRV_ERR_SOCKET_CONNECT :: u32 where "MC_DRV_ERR_SOCKET_CONNECT \<equiv> 0x0f"
abbreviation (input) MC_DRV_ERR_SOCKET_WRITE :: u32 where "MC_DRV_ERR_SOCKET_WRITE \<equiv> 0x0f"
abbreviation (input) MC_DRV_ERR_SOCKET_READ :: u32 where "MC_DRV_ERR_SOCKET_READ \<equiv> 0x0f"
abbreviation (input) MC_DRV_ERR_SOCKET_LENGTH :: u32 where "MC_DRV_ERR_SOCKET_LENGTH \<equiv> 0x0f"
abbreviation (input) MC_DRV_ERR_MCP_ERROR :: u32 where "MC_DRV_ERR_MCP_ERROR \<equiv> 0x0f"
abbreviation (input) MC_DRV_ERR_NULL_POINTER :: u32 where "MC_DRV_ERR_NULL_POINTER \<equiv> 0x11"
abbreviation (input) MC_DRV_ERR_TCI_TOO_BIG :: u32 where "MC_DRV_ERR_TCI_TOO_BIG \<equiv> 0x11"
abbreviation (input) MC_DRV_ERR_WSM_NOT_FOUND :: u32 where "MC_DRV_ERR_WSM_NOT_FOUND \<equiv> 0x11"
abbreviation (input) MC_DRV_ERR_INVALID_LENGTH :: u32 where "MC_DRV_ERR_INVALID_LENGTH \<equiv> 0x0c"
abbreviation (input) MC_DRV_ERR_KMOD_NOT_OPEN :: u32 where "MC_DRV_ERR_KMOD_NOT_OPEN \<equiv> 0x0c"
abbreviation (input) MC_DRV_ERR_DEVICE_ALREADY_OPEN :: u32 where "MC_DRV_ERR_DEVICE_ALREADY_OPEN \<equiv> 0x09"
abbreviation (input) MC_DRV_ERR_BUFFER_ALREADY_MAPPED :: u32 where "MC_DRV_ERR_BUFFER_ALREADY_MAPPED \<equiv> 0x13"
abbreviation (input) MC_DRV_ERR_BLK_BUFF_NOT_FOUND :: u32 where "MC_DRV_ERR_BLK_BUFF_NOT_FOUND \<equiv> 0x14"
abbreviation (input) MC_DRV_ERR_UNKNOWN_DEVICE :: u32 where "MC_DRV_ERR_UNKNOWN_DEVICE \<equiv> 7"
abbreviation (input) MC_DRV_ERR_DAEMON_UNKNOWN_SESSION :: u32 where "MC_DRV_ERR_DAEMON_UNKNOWN_SESSION \<equiv> 8"
abbreviation (input) MC_DRV_ERR_DAEMON_MCI_ERROR :: u32 where "MC_DRV_ERR_DAEMON_MCI_ERROR \<equiv> 0x0f"
abbreviation (input) MC_DRV_ERR_DAEMON_WSM_HANDLE_NOT_FOUND :: u32 where "MC_DRV_ERR_DAEMON_WSM_HANDLE_NOT_FOUND \<equiv> 0x11"
abbreviation (input) MC_DRV_ERR_TCI_GREATER_THAN_WSM :: u32 where "MC_DRV_ERR_TCI_GREATER_THAN_WSM \<equiv> 0x11"

definition MAKE_MC_DRV_KMOD_WITH_ERRNO :: "u32 \<Rightarrow> u32" where
  "MAKE_MC_DRV_KMOD_WITH_ERRNO e = MC_DRV_ERR_KERNEL_MODULE OR push_bit 16 (e AND 0xFFFF)"

subsection \<open>Agent results\<close>

abbreviation (input) ROOTPA_OK :: u32 where "ROOTPA_OK \<equiv> 0x00"
abbreviation (input) ROOTPA_COMMAND_NOT_SUPPORTED :: u32 where "ROOTPA_COMMAND_NOT_SUPPORTED \<equiv> 0x01"
abbreviation (input) ROOTPA_ERROR_LOCK :: u32 where "ROOTPA_ERROR_LOCK \<equiv> 0x02"
abbreviation (input) ROOTPA_ERROR_COMMAND_EXECUTION :: u32 where "ROOTPA_ERROR_COMMAND_EXECUTION \<equiv> 0x03"
abbreviation (input) ROOTPA_ERROR_REGISTRY :: u32 where "ROOTPA_ERROR_REGISTRY \<equiv> 0x04"
abbreviation (input) ROOTPA_ERROR_MOBICORE_CONNECTION :: u32 where "ROOTPA_ERROR_MOBICORE_CONNECTION \<equiv> 0x05"
abbreviation (input) ROOTPA_ERROR_OUT_OF_MEMORY :: u32 where "ROOTPA_ERROR_OUT_OF_MEMORY \<equiv> 0x06"
abbreviation (input) ROOTPA_ERROR_INTERNAL :: u32 where "ROOTPA_ERROR_INTERNAL \<equiv> 0x07"
abbreviation (input) ROOTPA_ERROR_ILLEGAL_ARGUMENT :: u32 where "ROOTPA_ERROR_ILLEGAL_ARGUMENT \<equiv> 0x08"
abbreviation (input) ROOTPA_ERROR_NETWORK :: u32 where "ROOTPA_ERROR_NETWORK \<equiv> 0x09"
abbreviation (input) ROOTPA_ERROR_XML :: u32 where "ROOTPA_ERROR_XML \<equiv> 0x0a"
abbreviation (input) ROOTPA_ERROR_REGISTRY_OBJECT_NOT_AVAILABLE :: u32 where
  "ROOTPA_ERROR_REGISTRY_OBJECT_NOT_AVAILABLE \<equiv> 0x0b"
abbreviation (input) ROOTPA_ERROR_SE_CMP_VERSION :: u32 where "ROOTPA_ERROR_SE_CMP_VERSION \<equiv> 0x0c"
abbreviation (input) ROOTPA_ERROR_SE_PRECONDITION_NOT_MET :: u32 where
  "ROOTPA_ERROR_SE_PRECONDITION_NOT_MET \<equiv> 0x0d"
abbreviation (input) ROOTPA_ERROR_INTERNAL_NO_CONTAINER :: u32 where
  "ROOTPA_ERROR_INTERNAL_NO_CONTAINER \<equiv> 0x30"

subsection \<open>Content management commands\<close>

abbreviation (input) MC_CMP_CMD_AUTHENTICATE :: u32 where "MC_CMP_CMD_AUTHENTICATE \<equiv> 0"
abbreviation (input) MC_CMP_CMD_BEGIN_ROOT_AUTHENTICATION :: u32 where "MC_CMP_CMD_BEGIN_ROOT_AUTHENTICATION \<equiv> 1"
abbreviation (input) MC_CMP_CMD_BEGIN_SOC_AUTHENTICATION :: u32 where "MC_CMP_CMD_BEGIN_SOC_AUTHENTICATION \<equiv> 2"
abbreviation (input) MC_CMP_CMD_BEGIN_SP_AUTHENTICATION :: u32 where "MC_CMP_CMD_BEGIN_SP_AUTHENTICATION \<equiv> 3"
abbreviation (input) MC_CMP_CMD_GENERATE_AUTH_TOKEN :: u32 where "MC_CMP_CMD_GENERATE_AUTH_TOKEN \<equiv> 4"
abbreviation (input) MC_CMP_CMD_GET_VERSION :: u32 where "MC_CMP_CMD_GET_VERSION \<equiv> 5"
abbreviation (input) MC_CMP_CMD_ROOT_CONT_LOCK_BY_ROOT :: u32 where "MC_CMP_CMD_ROOT_CONT_LOCK_BY_ROOT \<equiv> 7"
abbreviation (input) MC_CMP_CMD_ROOT_CONT_REGISTER_ACTIVATE :: u32 where "MC_CMP_CMD_ROOT_CONT_REGISTER_ACTIVATE \<equiv> 9"
abbreviation (input) MC_CMP_CMD_ROOT_CONT_UNLOCK_BY_ROOT :: u32 where "MC_CMP_CMD_ROOT_CONT_UNLOCK_BY_ROOT \<equiv> 10"
abbreviation (input) MC_CMP_CMD_ROOT_CONT_UNREGISTER :: u32 where "MC_CMP_CMD_ROOT_CONT_UNREGISTER \<equiv> 11"
abbreviation (input) MC_CMP_CMD_SP_CONT_ACTIVATE :: u32 where "MC_CMP_CMD_SP_CONT_ACTIVATE \<equiv> 12"
abbreviation (input) MC_CMP_CMD_SP_CONT_LOCK_BY_ROOT :: u32 where "MC_CMP_CMD_SP_CONT_LOCK_BY_ROOT \<equiv> 13"
abbreviation (input) MC_CMP_CMD_SP_CONT_LOCK_BY_SP :: u32 where "MC_CMP_CMD_SP_CONT_LOCK_BY_SP \<equiv> 14"
abbreviation (input) MC_CMP_CMD_SP_CONT_REGISTER :: u32 where "MC_CMP_CMD_SP_CONT_REGISTER \<equiv> 15"
abbreviation (input) MC_CMP_CMD_SP_CONT_REGISTER_ACTIVATE :: u32 where "MC_CMP_CMD_SP_CONT_REGISTER_ACTIVATE \<equiv> 16"
abbreviation (input) MC_CMP_CMD_SP_CONT_UNLOCK_BY_ROOT :: u32 where "MC_CMP_CMD_SP_CONT_UNLOCK_BY_ROOT \<equiv> 17"
abbreviation (input) MC_CMP_CMD_SP_CONT_UNLOCK_BY_SP :: u32 where "MC_CMP_CMD_SP_CONT_UNLOCK_BY_SP \<equiv> 18"
abbreviation (input) MC_CMP_CMD_SP_CONT_UNREGISTER :: u32 where "MC_CMP_CMD_SP_CONT_UNREGISTER \<equiv> 19"
abbreviation (input) MC_CMP_CMD_TLT_CONT_ACTIVATE :: u32 where "MC_CMP_CMD_TLT_CONT_ACTIVATE \<equiv> 20"
abbreviation (input) MC_CMP_CMD_TLT_CONT_LOCK_BY_SP :: u32 where "MC_CMP_CMD_TLT_CONT_LOCK_BY_SP \<equiv> 21"
abbreviation (input) MC_CMP_CMD_TLT_CONT_PERSONALIZE :: u32 where "MC_CMP_CMD_TLT_CONT_PERSONALIZE \<equiv> 22"
abbreviation (input) MC_CMP_CMD_TLT_CONT_REGISTER :: u32 where "MC_CMP_CMD_TLT_CONT_REGISTER \<equiv> 23"
abbreviation (input) MC_CMP_CMD_TLT_CONT_REGISTER_ACTIVATE :: u32 where "MC_CMP_CMD_TLT_CONT_REGISTER_ACTIVATE \<equiv> 24"
abbreviation (input) MC_CMP_CMD_TLT_CONT_UNLOCK_BY_SP :: u32 where "MC_CMP_CMD_TLT_CONT_UNLOCK_BY_SP \<equiv> 25"
abbreviation (input) MC_CMP_CMD_TLT_CONT_UNREGISTER :: u32 where "MC_CMP_CMD_TLT_CONT_UNREGISTER \<equiv> 26"
abbreviation (input) MC_CMP_CMD_GET_SUID :: u32 where "MC_CMP_CMD_GET_SUID \<equiv> 27"
abbreviation (input) MC_CMP_CMD_AUTHENTICATE_TERMINATE :: u32 where "MC_CMP_CMD_AUTHENTICATE_TERMINATE \<equiv> 28"

text \<open>\<open>SUCCESSFUL\<close> of tlCmError.h.\<close>

abbreviation (input) CMTL_SUCCESSFUL :: u32 where "CMTL_SUCCESSFUL \<equiv> 0"

subsection \<open>Sizes of the secure objects\<close>

text \<open>Header, plain container with its secret, then 32 bytes of hash and 16 random bytes.\<close>

definition sizeof_mcSoHeader :: nat where "sizeof_mcSoHeader = 44"
definition sizeof_hashAndPad :: nat where "sizeof_hashAndPad = 32 + 16"

text \<open>type, version, state and suid before a 32-byte key.\<close>

definition SIZEOFAUTHTOKENCONTAINER :: nat where
  "SIZEOFAUTHTOKENCONTAINER = sizeof_mcSoHeader + (4 + 4 + 4 + 16 + 32) + sizeof_hashAndPad"

text \<open>type, version, state, suid, rootid and 16 service provider ids before the key.\<close>

definition SIZEOFROOTCONTAINER :: nat where
  "SIZEOFROOTCONTAINER = sizeof_mcSoHeader + (4 + 4 + 4 + 16 + 4 + 16 * 4 + 32) + sizeof_hashAndPad"

text \<open>type, version, state, spid and 16 trustlet UUIDs before the key.\<close>

definition SIZEOFSPCONTAINER :: nat where
  "SIZEOFSPCONTAINER = sizeof_mcSoHeader + (4 + 4 + 4 + 4 + 16 * 16 + 32) + sizeof_hashAndPad"

text \<open>The 2.1 trustlet container: the 2.0 one followed by a 32-byte digest and a version.\<close>

definition sizeof_mcSoTltCont_2_0 :: nat where
  "sizeof_mcSoTltCont_2_0 = sizeof_mcSoHeader + (4 + 4 + 4 + 4 + 16 + 32) + sizeof_hashAndPad"

definition SIZEOFTLTCONTAINER :: nat where
  "SIZEOFTLTCONTAINER = sizeof_mcSoTltCont_2_0 + 32 + 4"

lemmas container_sizes = sizeof_mcSoHeader_def sizeof_hashAndPad_def SIZEOFAUTHTOKENCONTAINER_def
  SIZEOFROOTCONTAINER_def SIZEOFSPCONTAINER_def sizeof_mcSoTltCont_2_0_def SIZEOFTLTCONTAINER_def

end
