(* ===== verification/ContainerStore.thy ===== *)
theory ContainerStore
  imports Codes
begin

text \<open>
  The contract of a container store: what its clients rely on when they store and read secure
  objects under keys, \<open>missing\<close> being the result for an object that is not there. The daemon's
  registry provides it on its files, and the client library provides it again on top of the
  daemon's answers; the file storage daemon provides it for the objects of the trusted storage.
\<close>

locale container_store =
  fixes valid :: "'k \<Rightarrow> bool"
    and storable :: "'k \<Rightarrow> bytes \<Rightarrow> bool"
    and asks :: "'n \<Rightarrow> bool"
    and readable :: "'k \<Rightarrow> 'n \<Rightarrow> bytes \<Rightarrow> bool"
    and good :: "'s \<Rightarrow> bool"
    and content :: "'s \<Rightarrow> 'k \<Rightarrow> bytes option"
    and store :: "'k \<Rightarrow> bytes \<Rightarrow> 's \<Rightarrow> u32 \<times> 's"
    and read :: "'k \<Rightarrow> 'n \<Rightarrow> 's \<Rightarrow> (u32 \<times> bytes) \<times> 's"
    and missing :: u32
  assumes store_law: "\<lbrakk>good s; valid k; storable k d\<rbrakk> \<Longrightarrow>
      \<exists>s'. store k d s = (MC_DRV_OK, s') \<and> good s' \<and>
        (\<forall>k'. valid k' \<longrightarrow> content s' k' = (if k' = k then Some d else content s k'))"
    and read_law: "\<lbrakk>good s; valid k; content s k = Some d; readable k n d\<rbrakk> \<Longrightarrow>
      \<exists>s'. read k n s = ((MC_DRV_OK, d), s') \<and> good s' \<and>
        (\<forall>k'. valid k' \<longrightarrow> content s' k' = content s k')"
    and missing_law: "\<lbrakk>good s; valid k; content s k = None; asks n\<rbrakk> \<Longrightarrow>
      \<exists>x s'. read k n s = ((missing, x), s') \<and> good s' \<and>
        (\<forall>k'. valid k' \<longrightarrow> content s' k' = content s k')"
begin

text \<open>The last store under a key is what is read, whatever is stored under other keys.\<close>

lemma stores_content:
  assumes "good s" and "\<forall>(k, d) \<in> set kds. valid k \<and> storable k d"
  shows "good (fold (\<lambda>(k, d) s. snd (store k d s)) kds s) \<and>
    (\<forall>k'. valid k' \<longrightarrow> content (fold (\<lambda>(k, d) s. snd (store k d s)) kds s) k' =
       (case map_of (rev kds) k' of Some d \<Rightarrow> Some d | None \<Rightarrow> content s k'))"
  using assms
proof (induction kds arbitrary: s)
  case Nil
  then show ?case by simp
next
  case (Cons kd kds)
  obtain k d where kd: "kd = (k, d)" by (cases kd)
  obtain s' where s': "store k d s = (MC_DRV_OK, s')" "good s'"
    and c: "\<forall>k'. valid k' \<longrightarrow> content s' k' = (if k' = k then Some d else content s k')"
    using store_law [of s k d] Cons.prems kd by auto
  have "\<forall>(k, d) \<in> set kds. valid k \<and> storable k d" using Cons.prems by simp
  from Cons.IH [OF s'(2) this] show ?case
    using s' c kd by (auto simp: map_add_def split: option.splits)
qed

lemma read_last_store:
  assumes "good s" and "\<forall>(k, d) \<in> set kds. valid k \<and> storable k d"
    and "map_of (rev kds) k = Some d" and "valid k" and "readable k n d"
  shows "fst (read k n (fold (\<lambda>(k, d) s. snd (store k d s)) kds s)) = (MC_DRV_OK, d)"
proof -
  let ?s = "fold (\<lambda>(k, d) s. snd (store k d s)) kds s"
  have "good ?s" "content ?s k = Some d" using stores_content [OF assms(1,2)] assms(3,4) by auto
  then show ?thesis using read_law [of ?s k d n] assms(4,5) by auto
qed

lemma read_never_stored:
  assumes "good s" and "\<forall>(k, d) \<in> set kds. valid k \<and> storable k d"
    and "k \<notin> fst ` set kds" and "valid k" and "content s k = None" and "asks n"
  shows "fst (fst (read k n (fold (\<lambda>(k, d) s. snd (store k d s)) kds s))) =
    missing"
proof -
  let ?s = "fold (\<lambda>(k, d) s. snd (store k d s)) kds s"
  have "map_of (rev kds) k = None" using assms(3) by (simp add: map_of_eq_None_iff image_set [symmetric])
  then have "good ?s" "content ?s k = None" using stores_content [OF assms(1,2)] assms(4,5) by auto
  then show ?thesis using missing_law [of ?s k n] assms(4,6) by auto
qed

text \<open>Reading does not disturb a later read.\<close>

lemma read_twice:
  assumes "good s" "valid k" "valid k'" "content s k = Some d" "readable k n d"
    and "content s k' = Some d'" "readable k' n' d'"
  shows "fst (read k' n' (snd (read k n s))) = (MC_DRV_OK, d')"
proof -
  obtain s' where "read k n s = ((MC_DRV_OK, d), s')" "good s'" "content s' k' = content s k'"
    using read_law [OF assms(1,2,4,5)] assms(3) by auto
  then show ?thesis using read_law [of s' k' d' n'] assms by auto
qed

end

end
