(* ===== verification/PrivateRegistry.thy ===== *)
theory PrivateRegistry
  imports FileSystem ContainerStore
begin

text \<open>
  The daemon's registry of containers and trusted applications
  (src/MobiCoreDriverLib/Registry/PrivateRegistry.cpp): where each object is stored, the store,
  read and delete operations, and the composition of a service blob. Every operation takes and
  returns the file system. A buffer argument that may be NULL is an option; a read outside a
  caller's buffer or a write outside an allocated one makes the whole result \<open>None\<close>. Entries of
  a directory that are directories themselves are not listed.
\<close>

subsection \<open>Names\<close>

definition hexdigits :: string where "hexdigits = ''0123456789abcdef''"
definition HEXDIGITS :: string where "HEXDIGITS = ''0123456789ABCDEF''"

definition byteArrayToString :: "bytes \<Rightarrow> string" where
  "byteArrayToString bs =
     concat (map (\<lambda>b. [hexdigits ! unat (drop_bit 4 b), hexdigits ! unat (b AND 0x0f)]) bs)"

text \<open>\<open>%08X\<close> reversed: the digits from the least significant one.\<close>

definition uint32ToString :: "u32 \<Rightarrow> string" where
  "uint32ToString value =
     rev (map (\<lambda>i. HEXDIGITS ! unat (drop_bit (4 * (7 - i)) value AND 0x0f)) [0..<8])"

definition MC_REGISTRY_SYSTEM_PATH :: string where
  "MC_REGISTRY_SYSTEM_PATH = ''/system/app/mcRegistry''"

definition MC_REGISTRY_DATA_PATH :: string where
  "MC_REGISTRY_DATA_PATH = ''/data/app/mcRegistry''"

definition getTbStoragePath :: string where
  "getTbStoragePath = MC_REGISTRY_DATA_PATH @ ''/TbStorage''"

definition getAuthTokenFilePath :: "fs \<Rightarrow> path" where
  "getAuthTokenFilePath fs =
     (if doesDirExist fs (fs_env fs) then the (fs_env fs) else MC_REGISTRY_DATA_PATH,
      ''00000000.authtokcont'')"

definition getAuthTokenFilePathBackup :: "fs \<Rightarrow> path" where
  "getAuthTokenFilePathBackup fs =
     (fst (getAuthTokenFilePath fs), snd (getAuthTokenFilePath fs) @ ''.backup'')"

definition getRootContFilePath :: path where
  "getRootContFilePath = (MC_REGISTRY_DATA_PATH, ''00000000.rootcont'')"

definition getSpDataPath :: "u32 \<Rightarrow> string" where
  "getSpDataPath spid = MC_REGISTRY_DATA_PATH @ ''/'' @ uint32ToString spid"

definition getSpContFilePath :: "u32 \<Rightarrow> path" where
  "getSpContFilePath spid = (MC_REGISTRY_DATA_PATH, uint32ToString spid @ ''.spcont'')"

definition getTlContFilePath :: "bytes \<Rightarrow> u32 \<Rightarrow> path" where
  "getTlContFilePath uuid spid =
     (MC_REGISTRY_DATA_PATH,
      byteArrayToString uuid @ ''.'' @ uint32ToString spid @ ''.tlcont'')"

definition getTlDataPath :: "bytes \<Rightarrow> string" where
  "getTlDataPath uuid = MC_REGISTRY_DATA_PATH @ ''/'' @ byteArrayToString uuid"

definition getTlDataFilePath :: "bytes \<Rightarrow> u32 \<Rightarrow> path" where
  "getTlDataFilePath uuid pid = (getTlDataPath uuid, uint32ToString pid @ ''.datacont'')"

datatype registry_choice = MC_REGISTRY_ALL | MC_REGISTRY_WRITABLE

text \<open>The three lookups differ in the extension: the read-only registry first, when all of the
  registry is asked for.\<close>

definition registry_path :: "string \<Rightarrow> fs \<Rightarrow> bytes \<Rightarrow> registry_choice \<Rightarrow> path" where
  "registry_path ext fs uuid registry =
     (let ro = (MC_REGISTRY_SYSTEM_PATH, byteArrayToString uuid @ ext);
          rw = (MC_REGISTRY_DATA_PATH, byteArrayToString uuid @ ext)
      in if registry = MC_REGISTRY_ALL \<and> stat_file fs ro then ro else rw)"

definition getTlBinFilePath :: "fs \<Rightarrow> bytes \<Rightarrow> registry_choice \<Rightarrow> path" where
  "getTlBinFilePath = registry_path ''.tlbin''"

definition getTABinFilePath :: "fs \<Rightarrow> bytes \<Rightarrow> registry_choice \<Rightarrow> path" where
  "getTABinFilePath = registry_path ''.tabin''"

definition getTASpidFilePath :: "fs \<Rightarrow> bytes \<Rightarrow> registry_choice \<Rightarrow> path" where
  "getTASpidFilePath = registry_path ''.spid''"

subsection \<open>Storing containers\<close>

definition MAX_SO_CONT_SIZE :: nat where "MAX_SO_CONT_SIZE = 512"

text \<open>Open for writing, seek, write, flush and close, with the results the code gives for each
  failure. The results of \<open>fflush\<close> and \<open>fclose\<close> are not looked at.\<close>

definition store_so :: "path \<Rightarrow> bytes \<Rightarrow> fs \<Rightarrow> u32 \<times> fs" where
  "store_so p so fs =
     (case fopen_wb p fs of (False, fs1) \<Rightarrow> (MC_DRV_ERR_INVALID_DEVICE_FILE, fs1)
      | (True, fs1) \<Rightarrow> (case fseek fs1 of (False, fs2) \<Rightarrow> (MC_DRV_ERR_INVALID_PARAMETER, fs2)
        | (True, fs2) \<Rightarrow> (case fwrite p so fs2 of (False, fs3) \<Rightarrow> (MC_DRV_ERR_OUT_OF_RESOURCES, fs3)
          | (True, fs3) \<Rightarrow> (MC_DRV_OK, fflush_fclose p so fs3))))"

definition mcRegistryStoreAuthToken :: "bytes option \<Rightarrow> fs \<Rightarrow> u32 \<times> fs" where
  "mcRegistryStoreAuthToken so fs =
     (case so of None \<Rightarrow> (MC_DRV_ERR_INVALID_PARAMETER, fs)
      | Some d \<Rightarrow> if length d > 3 * MAX_SO_CONT_SIZE then (MC_DRV_ERR_INVALID_PARAMETER, fs)
                  else store_so (getAuthTokenFilePath fs) d fs)"

definition mcRegistryStoreRoot :: "bytes option \<Rightarrow> fs \<Rightarrow> u32 \<times> fs" where
  "mcRegistryStoreRoot so fs =
     (case so of None \<Rightarrow> (MC_DRV_ERR_INVALID_PARAMETER, fs)
      | Some d \<Rightarrow> if length d > 3 * MAX_SO_CONT_SIZE then (MC_DRV_ERR_INVALID_PARAMETER, fs)
                  else store_so getRootContFilePath d fs)"

definition mcRegistryStoreSp :: "u32 \<Rightarrow> bytes option \<Rightarrow> fs \<Rightarrow> u32 \<times> fs" where
  "mcRegistryStoreSp spid so fs =
     (case so of None \<Rightarrow> (MC_DRV_ERR_INVALID_PARAMETER, fs)
      | Some d \<Rightarrow> if spid = 0 \<or> length d > 3 * MAX_SO_CONT_SIZE
                  then (MC_DRV_ERR_INVALID_PARAMETER, fs)
                  else store_so (getSpContFilePath spid) d fs)"

definition mcRegistryStoreTrustletCon ::
    "bytes option \<Rightarrow> u32 \<Rightarrow> bytes option \<Rightarrow> fs \<Rightarrow> u32 \<times> fs" where
  "mcRegistryStoreTrustletCon uuid spid so fs =
     (case (uuid, so) of (Some u, Some d) \<Rightarrow>
        if length d > 3 * MAX_SO_CONT_SIZE then (MC_DRV_ERR_INVALID_PARAMETER, fs)
        else store_so (getTlContFilePath u spid) d fs
      | _ \<Rightarrow> (MC_DRV_ERR_INVALID_PARAMETER, fs))"

subsection \<open>Reading containers\<close>

text \<open>The result code with the bytes copied to the caller's buffer of \<open>n\<close> bytes. Only the
  trustlet container is read after a seek.\<close>

definition read_so :: "bool \<Rightarrow> path \<Rightarrow> nat \<Rightarrow> fs \<Rightarrow> (u32 \<times> bytes) \<times> fs" where
  "read_so seeks p n fs =
     (case fopen_rb p fs of (None, fs1) \<Rightarrow> ((MC_DRV_ERR_INVALID_DEVICE_FILE, []), fs1)
      | (Some content, fs1) \<Rightarrow>
        (case (if seeks then fseek fs1 else (True, fs1)) of
           (False, fs2) \<Rightarrow> ((MC_DRV_ERR_INVALID_PARAMETER, []), fs2)
         | (True, fs2) \<Rightarrow> (case fread n content fs2 of
             (None, fs3) \<Rightarrow> ((MC_DRV_ERR_INVALID_PARAMETER, []), fs3)
           | (Some d, fs3) \<Rightarrow>
               if length d > 0 then ((MC_DRV_OK, d), fs3)
               else ((MC_DRV_ERR_INVALID_DEVICE_FILE, []), fs3))))"

definition mcRegistryReadRoot :: "nat \<Rightarrow> fs \<Rightarrow> (u32 \<times> bytes) \<times> fs" where
  "mcRegistryReadRoot n fs = read_so False getRootContFilePath n fs"

definition mcRegistryReadSp :: "u32 \<Rightarrow> nat \<Rightarrow> fs \<Rightarrow> (u32 \<times> bytes) \<times> fs" where
  "mcRegistryReadSp spid n fs =
     (if spid = 0 then ((MC_DRV_ERR_INVALID_PARAMETER, []), fs)
      else read_so False (getSpContFilePath spid) n fs)"

definition mcRegistryReadTrustletCon ::
    "bytes option \<Rightarrow> u32 \<Rightarrow> nat \<Rightarrow> fs \<Rightarrow> (u32 \<times> bytes) \<times> fs" where
  "mcRegistryReadTrustletCon uuid spid n fs =
     (case uuid of None \<Rightarrow> ((MC_DRV_ERR_INVALID_PARAMETER, []), fs)
      | Some u \<Rightarrow> read_so True (getTlContFilePath u spid) n fs)"

text \<open>The token and its backup are read by the same steps: the file must have exactly the size of
  the container.\<close>

definition read_token :: "path \<Rightarrow> fs \<Rightarrow> (u32 \<times> bytes) \<times> fs" where
  "read_token p fs =
     (case fopen_rb p fs of (None, fs1) \<Rightarrow> ((MC_DRV_ERR_INVALID_DEVICE_FILE, []), fs1)
      | (Some content, fs1) \<Rightarrow>
        (case fseek fs1 of (False, fs2) \<Rightarrow> ((MC_DRV_ERR_INVALID_PARAMETER, []), fs2)
         | (True, fs2) \<Rightarrow>
           if length content \<noteq> SIZEOFAUTHTOKENCONTAINER
           then ((MC_DRV_ERR_OUT_OF_RESOURCES, []), fs2)
           else (case fseek fs2 of (False, fs3) \<Rightarrow> ((MC_DRV_ERR_INVALID_PARAMETER, []), fs3)
             | (True, fs3) \<Rightarrow>
               (case fread SIZEOFAUTHTOKENCONTAINER content fs3 of
                  (None, fs4) \<Rightarrow> ((MC_DRV_ERR_INVALID_PARAMETER, []), fs4)
                | (Some d, fs4) \<Rightarrow>
                    if length d < SIZEOFAUTHTOKENCONTAINER
                    then ((MC_DRV_ERR_INVALID_PARAMETER, []), fs4)
                    else ((MC_DRV_OK, d), fs4)))))"

definition mcRegistryReadAuthToken :: "fs \<Rightarrow> (u32 \<times> bytes) \<times> fs" where
  "mcRegistryReadAuthToken fs = read_token (getAuthTokenFilePath fs) fs"

definition mcRegistryReadAuthTokenBackup :: "fs \<Rightarrow> (u32 \<times> bytes) \<times> fs" where
  "mcRegistryReadAuthTokenBackup fs = read_token (getAuthTokenFilePathBackup fs) fs"

definition mcRegistryDeleteAuthToken :: "fs \<Rightarrow> u32 \<times> fs" where
  "mcRegistryDeleteAuthToken fs =
     (case rename_file (getAuthTokenFilePath fs) (getAuthTokenFilePathBackup fs) fs of
        (False, fs1) \<Rightarrow> (MC_DRV_ERR_UNKNOWN, fs1) | (True, fs1) \<Rightarrow> (MC_DRV_OK, fs1))"

subsection \<open>Storing a trusted application\<close>

text \<open>Offsets of the load format (mcLoadFormat.h) and of the attestation record
  (uuid_attestation.h).\<close>

definition sizeof_mclfHeaderV24 :: nat where "sizeof_mclfHeaderV24 = 104"
definition MC_VERSION_2_4 :: u32 where "MC_VERSION_2_4 = 0x00020004"
definition MC_SPID_SYSTEM :: u32 where "MC_SPID_SYSTEM = 0xFFFFFFFE"
definition sizeof_uuid_attestation :: nat where "sizeof_uuid_attestation = 40"
definition AT_VERSION :: u32 where "AT_VERSION = 1"
definition MAGIC :: bytes where "MAGIC = ascii ''TAUUID'' @ [0, 0]"

abbreviation (input) SERVICE_TYPE_DRIVER :: u32 where "SERVICE_TYPE_DRIVER \<equiv> 1"
abbreviation (input) SERVICE_TYPE_SP_TRUSTLET :: u32 where "SERVICE_TYPE_SP_TRUSTLET \<equiv> 2"
abbreviation (input) SERVICE_TYPE_SYSTEM_TRUSTLET :: u32 where "SERVICE_TYPE_SYSTEM_TRUSTLET \<equiv> 3"

definition getAsUint32BE :: "nat \<Rightarrow> bytes \<Rightarrow> u32 option" where
  "getAsUint32BE off b = map_option (\<lambda>p. dec32 (rev p)) (buf_read off 4 b)"

text \<open>The UUID the application is stored under, or the error of the header checks; \<open>None\<close> when a
  check reads outside the blob. The attestation is located through an offset of the header.\<close>

definition check_attestation :: "bytes \<Rightarrow> (u32 + bytes) option" where
  "check_attestation blob =
     Option.bind (ld32 100 blob) (\<lambda>off.
     let size = of_nat (length blob); at = unat off in
     Option.bind (if off > size
                  then map_option (\<lambda>n. off + n > size) (getAsUint32BE (at + 8) blob)
                  else Some False) (\<lambda>outside.
     if outside then Some (Inl MC_DRV_ERR_TA_HEADER_ERROR)
     else Option.bind (getAsUint32BE (at + 8) blob) (\<lambda>n.
       if unat n < sizeof_uuid_attestation then Some (Inl MC_DRV_ERR_TA_ATTESTATION_ERROR)
       else Option.bind (buf_read at 8 blob) (\<lambda>magic.
         if magic \<noteq> MAGIC then Some (Inl MC_DRV_ERR_TA_ATTESTATION_ERROR)
         else Option.bind (getAsUint32BE (at + 12) blob) (\<lambda>v.
           if v \<noteq> AT_VERSION then Some (Inl MC_DRV_ERR_TA_ATTESTATION_ERROR)
           else map_option Inr (buf_read (at + 16) 16 blob))))))"

definition check_TABlob :: "u32 \<Rightarrow> bytes \<Rightarrow> (u32 + bytes) option" where
  "check_TABlob spid blob =
     (if length blob < sizeof_mclfHeaderV24 then Some (Inl MC_DRV_ERR_INVALID_PARAMETER)
      else case (ld32 4 blob, ld32 96 blob, ld32 16 blob) of
        (Some version, Some gp_level, Some serviceType) \<Rightarrow>
          if version < MC_VERSION_2_4 then Some (Inl MC_DRV_ERR_TA_HEADER_ERROR)
          else if gp_level \<noteq> 1 then Some (Inl MC_DRV_ERR_TA_HEADER_ERROR)
          else if serviceType = SERVICE_TYPE_SYSTEM_TRUSTLET then
            (if spid \<noteq> MC_SPID_SYSTEM then Some (Inl MC_DRV_ERR_INVALID_PARAMETER)
             else map_option Inr (buf_read 24 16 blob))
          else if serviceType = SERVICE_TYPE_SP_TRUSTLET then
            (if spid \<ge> MC_SPID_SYSTEM then Some (Inl MC_DRV_ERR_INVALID_PARAMETER)
             else check_attestation blob)
          else Some (Inl MC_DRV_ERR_INVALID_PARAMETER)
      | _ \<Rightarrow> None)"

definition mcRegistryStoreTABlob :: "u32 \<Rightarrow> bytes \<Rightarrow> fs \<Rightarrow> (u32 \<times> fs) option" where
  "mcRegistryStoreTABlob spid blob fs =
     (case check_TABlob spid blob of None \<Rightarrow> None
      | Some (Inl e) \<Rightarrow> Some (e, fs)
      | Some (Inr uuid) \<Rightarrow>
          (case store_so (getTABinFilePath fs uuid MC_REGISTRY_WRITABLE) blob fs of (ret, fs1) \<Rightarrow>
             if ret \<noteq> MC_DRV_OK then Some (ret, fs1)
             else if ld32 16 blob = Some SERVICE_TYPE_SP_TRUSTLET
             then Some (store_so (getTASpidFilePath fs1 uuid MC_REGISTRY_WRITABLE) (enc32 spid) fs1)
             else Some (MC_DRV_OK, fs1)))"

subsection \<open>Storing a data container\<close>

definition sizeof_mcSoDataCont :: nat where "sizeof_mcSoDataCont = 2168"
definition CONT_TYPE_TLDATA :: u32 where "CONT_TYPE_TLDATA = 5"

definition MC_SO_SIZE :: "u32 \<Rightarrow> u32 \<Rightarrow> u32" where
  "MC_SO_SIZE plainLen encryptedLen =
     (if plainLen + encryptedLen < encryptedLen \<or> plainLen + encryptedLen > 1000000 then 0
      else 44 + plainLen + encryptedLen + 48)"

text \<open>The number of bytes written comes from the header of the object; \<open>None\<close> when it is more
  than the object has.\<close>

definition mcRegistryStoreData :: "bytes option \<Rightarrow> fs \<Rightarrow> (u32 \<times> fs) option" where
  "mcRegistryStoreData so fs =
     (case so of None \<Rightarrow> Some (MC_DRV_ERR_INVALID_PARAMETER, fs)
      | Some d \<Rightarrow>
        if length d \<noteq> sizeof_mcSoDataCont then Some (MC_DRV_ERR_INVALID_PARAMETER, fs)
        else (case (ld32 44 d, ld32 36 d, ld32 40 d, buf_read 52 16 d, ld32 68 d) of
            (Some type, Some plainLen, Some encryptedLen, Some uuid, Some pid) \<Rightarrow>
              if type \<noteq> CONT_TYPE_TLDATA then Some (MC_DRV_ERR_INVALID_PARAMETER, fs)
              else (case mkdir (getTlDataPath uuid) fs of
                  (False, fs1) \<Rightarrow> Some (MC_DRV_ERR_INVALID_PARAMETER, fs1)
                | (True, fs1) \<Rightarrow>
                    map_option (\<lambda>w. store_so (getTlDataFilePath uuid pid) w fs1)
                      (buf_read 0 (unat (MC_SO_SIZE plainLen encryptedLen)) d))
          | _ \<Rightarrow> None))"

subsection \<open>Removing what belongs to a container\<close>

text \<open>The loop over the entries of an opened directory; entries starting with a dot stay, and
  failures to remove are only logged.\<close>

fun remove_entries :: "string \<Rightarrow> string list \<Rightarrow> fs \<Rightarrow> fs" where
  "remove_entries d [] fs = fs"
| "remove_entries d (n # ns) fs =
     remove_entries d ns (if take 1 n \<noteq> ''.'' then snd (remove_file (d, n) fs) else fs)"

text \<open>Empty and remove a directory, when it can be opened; false when \<open>rmdir\<close> fails.\<close>

definition remove_dir :: "string \<Rightarrow> fs \<Rightarrow> bool \<times> fs" where
  "remove_dir d fs = (case opendir d fs of (None, fs1) \<Rightarrow> (True, fs1)
     | (Some ns, fs1) \<Rightarrow> rmdir d (remove_entries d ns fs1))"

definition CleanupGPTAStorage :: "string \<Rightarrow> fs \<Rightarrow> bool \<times> fs" where
  "CleanupGPTAStorage uuid fs = remove_dir (getTbStoragePath @ ''/'' @ uuid) fs"

text \<open>The whole content of a file that is not empty. The allocation takes its outcome from the
  same sequence as the calls on the file.\<close>

definition getFileContent :: "path \<Rightarrow> fs \<Rightarrow> bytes option \<times> fs" where
  "getFileContent p fs = (case fopen_rb p fs of (None, fs1) \<Rightarrow> (None, fs1)
     | (Some content, fs1) \<Rightarrow> (case fseek fs1 of (False, fs2) \<Rightarrow> (None, fs2)
       | (True, fs2) \<Rightarrow> if content = [] then (None, fs2)
         else (case fseek fs2 of (False, fs3) \<Rightarrow> (None, fs3)
           | (True, fs3) \<Rightarrow> (case io fs3 of (r, fs4) \<Rightarrow>
               if r \<noteq> Done then (None, fs4) else fread (length content) content fs4))))"

definition mcCheckUuid :: "bytes \<Rightarrow> path \<Rightarrow> fs \<Rightarrow> bool \<times> fs" where
  "mcCheckUuid uuid p fs = (case getFileContent p fs of (None, fs1) \<Rightarrow> (False, fs1)
     | (Some d, fs1) \<Rightarrow>
        if length d < sizeof_mclfHeaderV24 then (False, fs1)
        else if the (ld32 4 d) < MC_VERSION_2_4 then (False, fs1)
        else (buf_read 24 16 d = Some uuid, fs1))"

text \<open>A name split at its last dot, the dot going to the extension.\<close>

definition split_ext :: "string \<Rightarrow> (string \<times> string) option" where
  "split_ext n = (if CHR ''.'' \<in> set n
     then let e = takeWhile (\<lambda>c. c \<noteq> CHR ''.'') (rev n)
          in Some (rev (drop (length e + 1) (rev n)), ''.'' @ rev e)
     else None)"

definition read_spid :: "path \<Rightarrow> fs \<Rightarrow> u32 \<times> fs" where
  "read_spid p fs = (case fopen_rb p fs of (None, fs1) \<Rightarrow> (0, fs1)
     | (Some content, fs1) \<Rightarrow> (case fread 4 content fs1 of
         (Some d, fs2) \<Rightarrow> (if length d = 4 then dec32 d else 0, fs2)
       | (None, fs2) \<Rightarrow> (0, fs2)))"

fun deleteSPTA_from :: "bytes \<Rightarrow> u32 \<Rightarrow> string list \<Rightarrow> fs \<Rightarrow> fs" where
  "deleteSPTA_from uuid spid [] fs = fs"
| "deleteSPTA_from uuid spid (n # ns) fs =
     (case split_ext n of None \<Rightarrow> deleteSPTA_from uuid spid ns fs
      | Some (base, ext) \<Rightarrow>
        if ext \<noteq> ''.spid'' then deleteSPTA_from uuid spid ns fs
        else (case read_spid (MC_REGISTRY_DATA_PATH, n) fs of (curSpid, fs1) \<Rightarrow>
          if spid \<noteq> curSpid then deleteSPTA_from uuid spid ns fs1
          else (case mcCheckUuid uuid (MC_REGISTRY_DATA_PATH, base @ ''.tabin'') fs1 of
              (False, fs2) \<Rightarrow> deleteSPTA_from uuid spid ns fs2
            | (True, fs2) \<Rightarrow>
                snd (remove_file (MC_REGISTRY_DATA_PATH, n)
                  (snd (remove_file (MC_REGISTRY_DATA_PATH, base @ ''.tabin'')
                    (snd (CleanupGPTAStorage base fs2))))))))"

definition deleteSPTA :: "bytes \<Rightarrow> u32 \<Rightarrow> fs \<Rightarrow> fs" where
  "deleteSPTA uuid spid fs = (case opendir MC_REGISTRY_DATA_PATH fs of (None, fs1) \<Rightarrow> fs1
     | (Some ns, fs1) \<Rightarrow> deleteSPTA_from uuid spid ns fs1)"

definition mcRegistryCleanupTrustlet :: "bytes option \<Rightarrow> u32 \<Rightarrow> fs \<Rightarrow> u32 \<times> fs" where
  "mcRegistryCleanupTrustlet uuid spid fs =
     (case uuid of None \<Rightarrow> (MC_DRV_ERR_INVALID_PARAMETER, fs)
      | Some u \<Rightarrow> (case remove_dir (getTlDataPath u) fs of (False, fs1) \<Rightarrow> (MC_DRV_ERR_UNKNOWN, fs1)
        | (True, fs1) \<Rightarrow>
          (let bin = getTlBinFilePath fs1 u MC_REGISTRY_WRITABLE;
               fs2 = (if stat_file fs1 bin then snd (remove_file bin fs1) else deleteSPTA u spid fs1)
           in case remove_file (getTlContFilePath u spid) fs2 of
                (False, fs3) \<Rightarrow> (MC_DRV_ERR_UNKNOWN, fs3) | (True, fs3) \<Rightarrow> (MC_DRV_OK, fs3))))"

definition MC_UUID_FREE :: bytes where "MC_UUID_FREE = replicate 16 0xFF"
definition MC_SPID_FREE :: u32 where "MC_SPID_FREE = 0xFFFFFFFF"

text \<open>The children of a container: 16 UUIDs behind a header of 44 and attributes of 16 bytes, or
  16 service provider ids behind a header of 44 and attributes of 32 bytes.\<close>

definition sp_children :: "bytes \<Rightarrow> bytes list" where
  "sp_children so = map (\<lambda>i. take 16 (drop (60 + 16 * i) so)) [0..<16]"

definition root_children :: "bytes \<Rightarrow> u32 list" where
  "root_children so = map (\<lambda>i. dec32 (take 4 (drop (76 + 4 * i) so))) [0..<16]"

fun cleanup_trustlets :: "bytes list \<Rightarrow> u32 \<Rightarrow> fs \<Rightarrow> u32 \<times> fs" where
  "cleanup_trustlets [] spid fs = (MC_DRV_OK, fs)"
| "cleanup_trustlets (u # us) spid fs =
     (if u = MC_UUID_FREE then cleanup_trustlets us spid fs
      else case mcRegistryCleanupTrustlet (Some u) spid fs of (ret, fs1) \<Rightarrow>
        if ret = MC_DRV_OK then cleanup_trustlets us spid fs1 else (ret, fs1))"

definition mcRegistryCleanupSp :: "u32 \<Rightarrow> fs \<Rightarrow> u32 \<times> fs" where
  "mcRegistryCleanupSp spid fs =
     (if spid = 0 then (MC_DRV_ERR_INVALID_PARAMETER, fs)
      else case mcRegistryReadSp spid SIZEOFSPCONTAINER fs of ((ret, data), fs1) \<Rightarrow>
        if ret \<noteq> MC_DRV_OK \<or> length data \<noteq> SIZEOFSPCONTAINER then (ret, fs1)
        else (case cleanup_trustlets (sp_children data) spid fs1 of (ret, fs2) \<Rightarrow>
          if ret \<noteq> MC_DRV_OK then (ret, fs2)
          else (case remove_dir (getSpDataPath spid) fs2 of (False, fs3) \<Rightarrow> (MC_DRV_ERR_UNKNOWN, fs3)
            | (True, fs3) \<Rightarrow> (case remove_file (getSpContFilePath spid) fs3 of
                (False, fs4) \<Rightarrow> (MC_DRV_ERR_UNKNOWN, fs4) | (True, fs4) \<Rightarrow> (MC_DRV_OK, fs4)))))"

fun cleanup_sps :: "u32 list \<Rightarrow> fs \<Rightarrow> u32 \<times> fs" where
  "cleanup_sps [] fs = (MC_DRV_OK, fs)"
| "cleanup_sps (s # ss) fs =
     (if s = MC_SPID_FREE then cleanup_sps ss fs
      else case mcRegistryCleanupSp s fs of (ret, fs1) \<Rightarrow>
        if ret = MC_DRV_OK then cleanup_sps ss fs1 else (ret, fs1))"

definition mcRegistryCleanupRoot :: "fs \<Rightarrow> u32 \<times> fs" where
  "mcRegistryCleanupRoot fs =
     (case mcRegistryReadRoot SIZEOFROOTCONTAINER fs of ((ret, data), fs1) \<Rightarrow>
        if ret \<noteq> MC_DRV_OK \<or> length data \<noteq> SIZEOFROOTCONTAINER then (ret, fs1)
        else (case cleanup_sps (root_children data) fs1 of (ret, fs2) \<Rightarrow>
          if ret \<noteq> MC_DRV_OK then (ret, fs2)
          else (case remove_file getRootContFilePath fs2 of
              (False, fs3) \<Rightarrow> (MC_DRV_ERR_UNKNOWN, fs3) | (True, fs3) \<Rightarrow> (MC_DRV_OK, fs3))))"

subsection \<open>Composing a service blob\<close>

definition MAX_TL_SIZE :: nat where "MAX_TL_SIZE = 1024 * 1024"
definition MC_SERVICE_HEADER_MAGIC :: u32 where "MC_SERVICE_HEADER_MAGIC = 0x464C434D"
definition MC_TLBLOBLEN_MAGIC :: u32 where "MC_TLBLOBLEN_MAGIC = 0x7672746C"
definition sizeof_mcBlobLenInfo :: nat where "sizeof_mcBlobLenInfo = 32"

text \<open>The \<open>value\<close> field of a \<open>regObject_t\<close>, whose \<open>len\<close> is its length.\<close>

record reg_object =
  tlStartOffset :: nat
  blobValue :: bytes

text \<open>One container copied behind what is in the buffer: at most \<open>n\<close> bytes are read to \<open>p\<close> and
  the number read is recorded at \<open>field\<close>. \<open>None\<close> is a write outside the allocation.\<close>

definition append_container ::
    "((u32 \<times> bytes) \<times> fs) \<Rightarrow> nat \<Rightarrow> nat \<Rightarrow> bytes \<Rightarrow> (u32 \<times> nat \<times> bytes \<times> fs) option" where
  "append_container rd field p buf =
     (case rd of ((ret, d), fs1) \<Rightarrow>
        if ret \<noteq> MC_DRV_OK then Some (ret, 0, buf, fs1)
        else Option.bind (buf_write p d buf) (\<lambda>buf1.
          map_option (\<lambda>buf2. (ret, length d, buf2, fs1)) (st32 field (of_nat (length d)) buf1)))"

text \<open>The branch for an SP trustlet; \<open>heap\<close> is what the allocation held.\<close>

definition sp_trustlet_blob ::
    "(nat \<Rightarrow> u8) \<Rightarrow> u32 \<Rightarrow> bytes \<Rightarrow> fs \<Rightarrow> (reg_object option \<times> fs) option" where
  "sp_trustlet_blob heap spid trustlet fs =
     (let tlSize = length trustlet;
          regObjValueSize = tlSize + sizeof_mcBlobLenInfo + 3 * MAX_SO_CONT_SIZE;
          p = sizeof_mcBlobLenInfo + tlSize
      in case io fs of (r, fs0) \<Rightarrow>
      if r \<noteq> Done then Some (None, fs0) else
      Option.bind (st32 0 MC_TLBLOBLEN_MAGIC (map heap [0..<regObjValueSize])) (\<lambda>b0.
      Option.bind (buf_write sizeof_mcBlobLenInfo trustlet b0) (\<lambda>b1.
      Option.bind (append_container (mcRegistryReadRoot SIZEOFROOTCONTAINER fs0) 4 p b1)
        (\<lambda>(ret1, rootLen, b2, fs1).
      if ret1 \<noteq> MC_DRV_OK then Some (None, fs1) else
      Option.bind (append_container (mcRegistryReadSp spid SIZEOFSPCONTAINER fs1) 8 (p + rootLen) b2)
        (\<lambda>(ret2, spLen, b3, fs2).
      if ret2 \<noteq> MC_DRV_OK then Some (None, fs2) else
      Option.bind (append_container
          (mcRegistryReadTrustletCon (buf_read 24 16 trustlet) spid
             (regObjValueSize - tlSize + sizeof_mcBlobLenInfo - spLen - rootLen) fs2)
          12 (p + rootLen + spLen) b3)
        (\<lambda>(ret3, tlLen, b4, fs3).
      if ret3 \<noteq> MC_DRV_OK then Some (None, fs3)
      else Some (Some \<lparr>tlStartOffset = sizeof_mcBlobLenInfo,
                       blobValue = take (p + rootLen + spLen + tlLen) b4\<rparr>, fs3)))))))"

definition mcRegistryMemGetServiceBlob ::
    "(nat \<Rightarrow> u8) \<Rightarrow> u32 \<Rightarrow> bytes option \<Rightarrow> fs \<Rightarrow> (reg_object option \<times> fs) option" where
  "mcRegistryMemGetServiceBlob heap spid trustlet fs =
     (case trustlet of None \<Rightarrow> Some (None, fs)
      | Some t \<Rightarrow>
        if length t > MAX_TL_SIZE then Some (None, fs)
        else Option.bind (ld32 0 t) (\<lambda>magic.
          if magic \<noteq> MC_SERVICE_HEADER_MAGIC then Some (None, fs)
          else Option.bind (ld32 16 t) (\<lambda>serviceType.
            if serviceType = SERVICE_TYPE_DRIVER \<or> serviceType = SERVICE_TYPE_SYSTEM_TRUSTLET then
              (case io fs of (r, fs1) \<Rightarrow>
                 Some (if r = Done then Some \<lparr>tlStartOffset = 0, blobValue = t\<rparr> else None, fs1))
            else if serviceType = SERVICE_TYPE_SP_TRUSTLET then sp_trustlet_blob heap spid t fs
            else Some (None, fs))))"

text \<open>\<open>open\<close>, \<open>fstat\<close> and \<open>mmap\<close> of the file; mapping an empty file fails.\<close>

definition mcRegistryFileGetServiceBlob ::
    "(nat \<Rightarrow> u8) \<Rightarrow> path option \<Rightarrow> u32 \<Rightarrow> fs \<Rightarrow> (reg_object option \<times> fs) option" where
  "mcRegistryFileGetServiceBlob heap trustlet spid fs =
     (case trustlet of None \<Rightarrow> Some (None, fs)
      | Some p \<Rightarrow> (case fopen_rb p fs of (None, fs1) \<Rightarrow> Some (None, fs1)
        | (Some content, fs1) \<Rightarrow> (case fseek fs1 of (False, fs2) \<Rightarrow> Some (None, fs2)
          | (True, fs2) \<Rightarrow> (case io fs2 of (r, fs3) \<Rightarrow>
              if r \<noteq> Done \<or> content = [] then Some (None, fs3)
              else mcRegistryMemGetServiceBlob heap spid (Some content) fs3))))"

definition mcRegistryGetServiceBlob ::
    "(nat \<Rightarrow> u8) \<Rightarrow> bytes option \<Rightarrow> bool \<Rightarrow> fs \<Rightarrow> (reg_object option \<times> fs) option" where
  "mcRegistryGetServiceBlob heap uuid isGpUuid fs =
     (case uuid of None \<Rightarrow> Some (None, fs)
      | Some u \<Rightarrow>
        let bin = (if isGpUuid then getTABinFilePath fs u MC_REGISTRY_ALL
                   else getTlBinFilePath fs u MC_REGISTRY_ALL)
        in if \<not> isGpUuid then mcRegistryFileGetServiceBlob heap (Some bin) 0 fs
           else (case fopen_rb (getTASpidFilePath fs u MC_REGISTRY_ALL) fs of
               (None, fs1) \<Rightarrow> mcRegistryFileGetServiceBlob heap (Some bin) 0 fs1
             | (Some content, fs1) \<Rightarrow> (case fread 4 content fs1 of
                 (None, fs2) \<Rightarrow> Some (None, fs2)
               | (Some d, fs2) \<Rightarrow>
                   if length d \<noteq> 4 then Some (None, fs2)
                   else mcRegistryFileGetServiceBlob heap (Some bin) (dec32 d) fs2)))"

definition mcRegistryGetDriverBlob ::
    "(nat \<Rightarrow> u8) \<Rightarrow> path option \<Rightarrow> fs \<Rightarrow> (reg_object option \<times> fs) option" where
  "mcRegistryGetDriverBlob heap filename fs =
     Option.bind (mcRegistryFileGetServiceBlob heap filename 0 fs) (\<lambda>(obj, fs1).
       case obj of None \<Rightarrow> Some (None, fs1)
       | Some ob \<Rightarrow> map_option (\<lambda>st. (if st = SERVICE_TYPE_DRIVER then Some ob else None, fs1))
                     (ld32 16 (blobValue ob)))"

subsection \<open>Names identify objects\<close>

lemma nibble_bits: "unat ((w :: u8) AND 0x0f) < 16" "unat ((v :: u32) AND 0x0f) < 16"
  using word_and_le1 [of w "0x0f"] word_and_le1 [of v "0x0f"] by (simp_all add: word_le_nat_alt)

lemma digits_inj: "i < 16 \<Longrightarrow> j < 16 \<Longrightarrow> hexdigits ! i = hexdigits ! j \<Longrightarrow> i = j"
  by (rule nth_eq_iff_index_eq [THEN iffD1, of hexdigits]) (simp_all add: hexdigits_def)

lemma DIGITS_inj: "i < 16 \<Longrightarrow> j < 16 \<Longrightarrow> HEXDIGITS ! i = HEXDIGITS ! j \<Longrightarrow> i = j"
  by (rule nth_eq_iff_index_eq [THEN iffD1, of HEXDIGITS]) (simp_all add: HEXDIGITS_def)

lemma uint32ToString_inj: "uint32ToString v = uint32ToString w \<longleftrightarrow> v = w"
proof
  assume "uint32ToString v = uint32ToString w"
  then have e: "HEXDIGITS ! unat (drop_bit (4 * (7 - i)) v AND 0x0f) =
      HEXDIGITS ! unat (drop_bit (4 * (7 - i)) w AND 0x0f)" if "i < 8" for i
    using that by (auto simp: uint32ToString_def)
  have nib: "drop_bit (4 * j) v AND 0x0f = drop_bit (4 * j) w AND 0x0f" if "j < 8" for j
    using DIGITS_inj [OF nibble_bits(2) nibble_bits(2) e [of "7 - j"]] that
    by (simp add: word_unat_eq_iff)
  show "v = w"
  proof (rule bit_word_eqI)
    fix n assume n: "n < LENGTH(32)"
    have "bit (drop_bit (4 * (n div 4)) v AND 0x0f) (n mod 4) =
        bit (drop_bit (4 * (n div 4)) w AND 0x0f) (n mod 4)"
      using nib [of "n div 4"] n by simp
    moreover have "bit (0x0f :: u32) (n mod 4)"
    proof -
      have "n mod 4 \<in> {0, 1, 2, 3}" by auto
      then show ?thesis by auto
    qed
    ultimately show "bit v n = bit w n"
      by (simp add: bit_and_iff bit_drop_bit_eq)
  qed
qed simp

lemma length_uint32ToString [simp]: "length (uint32ToString v) = 8"
  by (simp add: uint32ToString_def)

lemma byte_digits:
  assumes "hexdigits ! unat (drop_bit 4 b) = hexdigits ! unat (drop_bit 4 c)"
    and "hexdigits ! unat ((b :: u8) AND 0x0f) = hexdigits ! unat (c AND 0x0f)"
  shows "b = c"
proof -
  have lt: "unat (drop_bit 4 x) < 16" for x :: u8
  proof -
    have "unat (drop_bit 4 x) = unat x div 16" by (simp add: drop_bit_eq_div unat_div)
    moreover have "unat x < 2 ^ LENGTH(8)" by (rule unsigned_less)
    ultimately show ?thesis by simp
  qed
  have "drop_bit 4 b = drop_bit 4 c" using digits_inj [OF lt lt assms(1)] by (simp add: word_unat_eq_iff)
  moreover have "b AND 0x0f = c AND 0x0f" using digits_inj [OF nibble_bits(1) nibble_bits(1) assms(2)] by (simp add: word_unat_eq_iff)
  moreover have "x = push_bit 4 (drop_bit 4 x) OR (x AND 0x0f)" for x :: u8
    by (rule u8_eqI) (simp_all add: bit_simps)
  ultimately show ?thesis by metis
qed

lemma length_byteArrayToString [simp]: "length (byteArrayToString u) = 2 * length u"
  by (induction u) (simp_all add: byteArrayToString_def)

lemma byteArrayToString_inj: "byteArrayToString u = byteArrayToString v \<longleftrightarrow> u = v"
proof
  show "byteArrayToString u = byteArrayToString v \<Longrightarrow> u = v"
  proof (induction u arbitrary: v)
    case Nil
    then show ?case by (cases v) (simp_all add: byteArrayToString_def)
  next
    case (Cons b u)
    then show ?case by (cases v) (auto simp: byteArrayToString_def intro: byte_digits)
  qed
qed simp

subsection \<open>The registry on a working file system\<close>

datatype reg_key = KAuth | KRoot | KSp u32 | KTlt bytes u32

text \<open>The keys an object can have: a service provider is not 0 and a UUID has 16 bytes.\<close>

fun valid_key :: "reg_key \<Rightarrow> bool" where
  "valid_key (KSp spid) = (spid \<noteq> 0)"
| "valid_key (KTlt uuid spid) = (length uuid = 16)"
| "valid_key _ = True"

fun key_path :: "fs \<Rightarrow> reg_key \<Rightarrow> path" where
  "key_path fs KAuth = getAuthTokenFilePath fs"
| "key_path fs KRoot = getRootContFilePath"
| "key_path fs (KSp spid) = getSpContFilePath spid"
| "key_path fs (KTlt uuid spid) = getTlContFilePath uuid spid"

definition registered :: "fs \<Rightarrow> reg_key \<Rightarrow> bytes option" where
  "registered fs k = lookup_file fs (key_path fs k)"

fun registry_store :: "reg_key \<Rightarrow> bytes \<Rightarrow> fs \<Rightarrow> u32 \<times> fs" where
  "registry_store KAuth d fs = mcRegistryStoreAuthToken (Some d) fs"
| "registry_store KRoot d fs = mcRegistryStoreRoot (Some d) fs"
| "registry_store (KSp spid) d fs = mcRegistryStoreSp spid (Some d) fs"
| "registry_store (KTlt uuid spid) d fs = mcRegistryStoreTrustletCon (Some uuid) spid (Some d) fs"

fun registry_read :: "reg_key \<Rightarrow> nat \<Rightarrow> fs \<Rightarrow> (u32 \<times> bytes) \<times> fs" where
  "registry_read KAuth n fs = mcRegistryReadAuthToken fs"
| "registry_read KRoot n fs = mcRegistryReadRoot n fs"
| "registry_read (KSp spid) n fs = mcRegistryReadSp spid n fs"
| "registry_read (KTlt uuid spid) n fs = mcRegistryReadTrustletCon (Some uuid) spid n fs"

definition registry_good :: "fs \<Rightarrow> bool" where
  "registry_good fs \<longleftrightarrow> reliable fs \<and> MC_REGISTRY_DATA_PATH \<in> set (fs_dirs fs)"

definition registry_storable :: "reg_key \<Rightarrow> bytes \<Rightarrow> bool" where
  "registry_storable k d \<longleftrightarrow> length d \<le> 3 * MAX_SO_CONT_SIZE"

definition registry_readable :: "reg_key \<Rightarrow> nat \<Rightarrow> bytes \<Rightarrow> bool" where
  "registry_readable k n d \<longleftrightarrow>
     (if k = KAuth then length d = SIZEOFAUTHTOKENCONTAINER else 0 < length d \<and> length d \<le> n)"

lemma key_name_length:
  "length (snd (key_path fs k)) = (case k of KAuth \<Rightarrow> 20 | KRoot \<Rightarrow> 17 | KSp _ \<Rightarrow> 15
     | KTlt u _ \<Rightarrow> 2 * length u + 16)"
  by (cases k) (simp_all add: getAuthTokenFilePath_def getRootContFilePath_def getSpContFilePath_def
      getTlContFilePath_def)

lemma key_path_inj:
  assumes "valid_key k" "valid_key k'" "key_path fs k = key_path fs k'" shows "k = k'"
proof -
  have "length (snd (key_path fs k)) = length (snd (key_path fs k'))" using assms(3) by simp
  then have len: "(case k of KAuth \<Rightarrow> 20 | KRoot \<Rightarrow> 17 | KSp _ \<Rightarrow> 15 | KTlt u _ \<Rightarrow> 2 * length u + 16) =
      (case k' of KAuth \<Rightarrow> 20 | KRoot \<Rightarrow> 17 | KSp _ \<Rightarrow> 15 | KTlt u _ \<Rightarrow> 2 * length u + 16)"
    by (simp only: key_name_length)
  show ?thesis
  proof (cases k)
    case (KSp s)
    with len assms obtain s' where "k' = KSp s'" by (cases k') simp_all
    with KSp assms(3) show ?thesis by (simp add: getSpContFilePath_def uint32ToString_inj)
  next
    case (KTlt u s)
    with len assms obtain u' s' where "k' = KTlt u' s'" by (cases k') simp_all
    with KTlt assms show ?thesis
      by (simp add: getTlContFilePath_def uint32ToString_inj byteArrayToString_inj)
  qed (use len assms in \<open>cases k'; simp\<close>)+
qed

lemma key_path_stable: "fs_dirs fs' = fs_dirs fs \<Longrightarrow> fs_env fs' = fs_env fs \<Longrightarrow> key_path fs' k = key_path fs k"
  by (cases k) (simp_all add: getAuthTokenFilePath_def doesDirExist_def split: option.split)

lemma key_dir: "registry_good fs \<Longrightarrow> fst (key_path fs k) \<in> set (fs_dirs fs)"
  by (cases k) (auto simp: registry_good_def getAuthTokenFilePath_def getRootContFilePath_def
      getSpContFilePath_def getTlContFilePath_def doesDirExist_def split: option.splits)

text \<open>The files, directories and the environment are the same; only calls went by.\<close>

definition same_files :: "fs \<Rightarrow> fs \<Rightarrow> bool" where
  "same_files fs fs' \<longleftrightarrow> reliable fs' \<and> fs_dirs fs' = fs_dirs fs \<and> fs_env fs' = fs_env fs \<and>
     lookup_file fs' = lookup_file fs"

lemma same_registered:
  assumes "same_files fs fs'"
  shows "registered fs' = registered fs" and "registry_good fs \<Longrightarrow> registry_good fs'"
proof -
  have "key_path fs' k = key_path fs k" for k
    using assms by (simp add: same_files_def key_path_stable [of fs' fs])
  with assms show "registered fs' = registered fs"
    by (intro ext) (simp add: same_files_def registered_def)
  show "registry_good fs \<Longrightarrow> registry_good fs'"
    using assms by (simp add: same_files_def registry_good_def)
qed

lemma store_so_good:
  assumes "reliable fs" "fst p \<in> set (fs_dirs fs)"
  shows "\<exists>fs'. store_so p d fs = (MC_DRV_OK, fs') \<and> reliable fs' \<and> fs_dirs fs' = fs_dirs fs \<and>
    fs_env fs' = fs_env fs \<and> lookup_file fs' = (lookup_file fs)(p \<mapsto> d)"
  using assms
  by (simp add: store_so_def fopen_wb_def fseek_def fwrite_def fflush_fclose_def)

lemma read_so_good:
  assumes "reliable fs" "lookup_file fs p = Some d" "0 < length d" "length d \<le> n"
  shows "\<exists>fs'. read_so sk p n fs = ((MC_DRV_OK, d), fs') \<and> same_files fs fs'"
  using assms by (cases sk) (simp_all add: same_files_def read_so_def fopen_rb_def fseek_def fread_def)

lemma read_so_missing:
  assumes "reliable fs" "lookup_file fs p = None"
  shows "\<exists>fs'. read_so sk p n fs = ((MC_DRV_ERR_INVALID_DEVICE_FILE, []), fs') \<and> same_files fs fs'"
  using assms by (simp add: same_files_def read_so_def fopen_rb_def)

lemma read_token_good:
  assumes "reliable fs" "lookup_file fs p = Some d" "length d = SIZEOFAUTHTOKENCONTAINER"
  shows "\<exists>fs'. read_token p fs = ((MC_DRV_OK, d), fs') \<and> same_files fs fs'"
  using assms by (simp add: same_files_def read_token_def fopen_rb_def fseek_def fread_def)

lemma read_token_missing:
  assumes "reliable fs" "lookup_file fs p = None"
  shows "\<exists>fs'. read_token p fs = ((MC_DRV_ERR_INVALID_DEVICE_FILE, []), fs') \<and> same_files fs fs'"
  using assms by (simp add: same_files_def read_token_def fopen_rb_def)

lemma registry_store_eq:
  "valid_key k \<Longrightarrow> registry_storable k d \<Longrightarrow> registry_store k d fs = store_so (key_path fs k) d fs"
  by (cases k) (auto simp: registry_storable_def mcRegistryStoreAuthToken_def mcRegistryStoreRoot_def
      mcRegistryStoreSp_def mcRegistryStoreTrustletCon_def)

lemma registry_read_eq:
  "valid_key k \<Longrightarrow> registry_read k n fs =
     (if k = KAuth then read_token (key_path fs k) fs
      else read_so (case k of KTlt _ _ \<Rightarrow> True | _ \<Rightarrow> False) (key_path fs k) n fs)"
  by (cases k) (auto simp: mcRegistryReadAuthToken_def mcRegistryReadRoot_def mcRegistryReadSp_def
      mcRegistryReadTrustletCon_def)

lemma registry_store_works:
  assumes g: "registry_good fs" and v: "valid_key k" and st: "registry_storable k d"
  shows "\<exists>fs'. registry_store k d fs = (MC_DRV_OK, fs') \<and> registry_good fs' \<and>
    (\<forall>k'. valid_key k' \<longrightarrow> registered fs' k' = (if k' = k then Some d else registered fs k'))"
proof -
  obtain fs' where fs': "store_so (key_path fs k) d fs = (MC_DRV_OK, fs')" "reliable fs'"
      "fs_dirs fs' = fs_dirs fs" "fs_env fs' = fs_env fs"
      "lookup_file fs' = (lookup_file fs)(key_path fs k \<mapsto> d)"
    using store_so_good [OF _ key_dir [OF g]] g by (auto simp: registry_good_def)
  have "registered fs' k' = (if k' = k then Some d else registered fs k')" if "valid_key k'" for k'
    unfolding registered_def fs'(5) key_path_stable [OF fs'(3,4), of k']
    using key_path_inj [OF that v, of fs] by auto
  with fs' g show ?thesis by (simp add: registry_store_eq [OF v st] registry_good_def)
qed

lemma registry_read_works:
  assumes g: "registry_good fs" and v: "valid_key k" and c: "registered fs k = Some d"
    and rd: "registry_readable k n d"
  shows "\<exists>fs'. registry_read k n fs = ((MC_DRV_OK, d), fs') \<and> same_files fs fs'"
proof -
  have r: "reliable fs" and l: "lookup_file fs (key_path fs k) = Some d"
    using g c by (simp_all add: registry_good_def registered_def)
  show ?thesis
    unfolding registry_read_eq [OF v]
    using read_token_good [OF r l] read_so_good [OF r l] rd
    by (cases "k = KAuth") (simp_all add: registry_readable_def)
qed

lemma registry_read_missing:
  assumes g: "registry_good fs" and v: "valid_key k" and c: "registered fs k = None"
  shows "\<exists>fs'. registry_read k n fs = ((MC_DRV_ERR_INVALID_DEVICE_FILE, []), fs') \<and> same_files fs fs'"
proof -
  have r: "reliable fs" and l: "lookup_file fs (key_path fs k) = None"
    using g c by (simp_all add: registry_good_def registered_def)
  show ?thesis
    unfolding registry_read_eq [OF v]
    using read_token_missing [OF r l] read_so_missing [OF r l] by (cases "k = KAuth") simp_all
qed

interpretation registry: container_store valid_key registry_storable "\<lambda>_. True" registry_readable
  registry_good registered registry_store registry_read MC_DRV_ERR_INVALID_DEVICE_FILE
proof
  fix fs k d assume "registry_good fs" "valid_key k" "registry_storable k d"
  then show "\<exists>s'. registry_store k d fs = (MC_DRV_OK, s') \<and> registry_good s' \<and>
      (\<forall>k'. valid_key k' \<longrightarrow> registered s' k' = (if k' = k then Some d else registered fs k'))"
    by (rule registry_store_works)
next
  fix fs k d n assume g: "registry_good fs" and a: "valid_key k" "registered fs k = Some d"
    "registry_readable k n d"
  obtain fs' where "registry_read k n fs = ((MC_DRV_OK, d), fs')" "same_files fs fs'"
    using registry_read_works [OF g a] by blast
  then show "\<exists>s'. registry_read k n fs = ((MC_DRV_OK, d), s') \<and> registry_good s' \<and>
      (\<forall>k'. valid_key k' \<longrightarrow> registered s' k' = registered fs k')"
    using same_registered g by metis
next
  fix fs k n assume g: "registry_good fs" and a: "valid_key k" "registered fs k = None"
  obtain fs' where "registry_read k n fs = ((MC_DRV_ERR_INVALID_DEVICE_FILE, []), fs')" "same_files fs fs'"
    using registry_read_missing [OF g a] by blast
  then show "\<exists>x s'. registry_read k n fs = ((MC_DRV_ERR_INVALID_DEVICE_FILE, x), s') \<and>
      registry_good s' \<and> (\<forall>k'. valid_key k' \<longrightarrow> registered s' k' = registered fs k')"
    using same_registered g by metis
qed

subsection \<open>What a removal leaves\<close>

text \<open>Without a directory of its own for the token, all containers are in the registry directory
  under names that end in \<open>t\<close>: \<open>conts\<close> is what a state holds of them. An operation that leaves
  the containers alone is one that does not change it.\<close>

definition is_cont :: "path \<Rightarrow> bool" where
  "is_cont p \<longleftrightarrow> fst p = MC_REGISTRY_DATA_PATH \<and> snd p \<noteq> [] \<and> last (snd p) = CHR ''t''"

definition conts :: "fs \<Rightarrow> string option \<times> (path \<Rightarrow> bytes option)" where
  "conts fs = (fs_env fs, lookup_file fs |` Collect is_cont)"

named_theorems keeps \<open>operations that leave the containers alone\<close>

lemma calls_keep [keeps]: "conts (snd (io fs)) = conts fs" "conts (snd (fopen_rb p fs)) = conts fs"
  "conts (snd (fseek fs)) = conts fs" "conts (snd (fread n c fs)) = conts fs"
  "conts (snd (opendir d fs)) = conts fs" "conts (snd (rmdir d fs)) = conts fs"
  by (simp_all add: conts_def io_def fopen_rb_def fseek_def fread_def opendir_def rmdir_def)

lemma remove_file_keeps [keeps]: "\<not> is_cont p \<Longrightarrow> conts (snd (remove_file p fs)) = conts fs"
  by (auto simp: conts_def io_def remove_file_def fun_eq_iff restrict_map_def)

lemma reads_keep [keeps]: "conts (snd (read_so sk p n fs)) = conts fs"
  "conts (snd (read_token p fs)) = conts fs" "conts (snd (getFileContent p fs)) = conts fs"
  "conts (snd (mcCheckUuid u p fs)) = conts fs" "conts (snd (read_spid p fs)) = conts fs"
proof -
  show *: "conts (snd (getFileContent p fs)) = conts fs"
    by (simp add: getFileContent_def case_prod_unfold keeps split: option.split bool.split)
  show "conts (snd (mcCheckUuid u p fs)) = conts fs"
    by (simp add: mcCheckUuid_def case_prod_unfold * split: option.split)
qed (simp_all add: read_so_def read_token_def read_spid_def case_prod_unfold keeps
    split: option.split bool.split)

lemma remove_entries_keeps [keeps]:
  "d \<noteq> MC_REGISTRY_DATA_PATH \<Longrightarrow> conts (remove_entries d ns fs) = conts fs"
  by (induction ns arbitrary: fs) (simp_all add: keeps is_cont_def)

lemma remove_dir_keeps [keeps]:
  "d \<noteq> MC_REGISTRY_DATA_PATH \<Longrightarrow> conts (snd (remove_dir d fs)) = conts fs"
  by (simp add: remove_dir_def case_prod_unfold keeps split: option.split)

lemma own_dirs: "getTlDataPath u \<noteq> MC_REGISTRY_DATA_PATH" "getSpDataPath s \<noteq> MC_REGISTRY_DATA_PATH"
  "getTbStoragePath @ x \<noteq> MC_REGISTRY_DATA_PATH"
  by (simp_all add: getTlDataPath_def getSpDataPath_def getTbStoragePath_def)

lemma split_ext_append:
  assumes "split_ext n = Some (b, e)" shows "n = b @ e"
proof -
  let ?P = "\<lambda>c. c \<noteq> CHR ''.''" and ?e = "takeWhile (\<lambda>c. c \<noteq> CHR ''.'') (rev n)"
  have dot: "CHR ''.'' \<in> set n" and b: "b = rev (drop (length ?e + 1) (rev n))"
    and e: "e = CHR ''.'' # rev ?e"
    using assms by (auto simp: split_ext_def Let_def split: if_splits)
  have lt: "length ?e < length (rev n)"
  proof (rule ccontr)
    assume "\<not> length ?e < length (rev n)"
    then have "?e = rev n" using takeWhile_eq_take [of ?P "rev n"] by simp
    then show False using dot by (metis set_rev set_takeWhileD)
  qed
  then have "rev n ! length ?e = CHR ''.''" using nth_length_takeWhile [of ?P "rev n"] by simp
  then have "drop (length ?e) (rev n) = CHR ''.'' # drop (length ?e + 1) (rev n)"
    using Cons_nth_drop_Suc [OF lt] by simp
  moreover have "take (length ?e) (rev n) = ?e" by (rule takeWhile_eq_take [symmetric])
  ultimately have "rev n = ?e @ CHR ''.'' # drop (length ?e + 1) (rev n)"
    using append_take_drop_id [of "length ?e" "rev n"] by simp
  from arg_cong [OF this, of rev] show ?thesis using b e by simp
qed

lemma deleteSPTA_from_keeps [keeps]: "conts (deleteSPTA_from u s ns fs) = conts fs"
proof (induction ns arbitrary: s fs)
  case (Cons n ns)
  have "\<not> is_cont (MC_REGISTRY_DATA_PATH, n)" if "split_ext n = Some (b, ''.spid'')" for b
    using split_ext_append [OF that] by (simp add: is_cont_def)
  moreover have "\<not> is_cont (MC_REGISTRY_DATA_PATH, b @ ''.tabin'')" for b by (simp add: is_cont_def)
  ultimately show ?case
    by (auto simp: Cons.IH case_prod_unfold keeps CleanupGPTAStorage_def own_dirs
        split: option.split bool.split)
qed simp

lemma deleteSPTA_keeps [keeps]: "conts (deleteSPTA u s fs) = conts fs"
  by (simp add: deleteSPTA_def case_prod_unfold keeps split: option.split)


lemma key_path_fixed: "fs_env fs' = fs_env fs \<Longrightarrow> fs_env fs = None \<Longrightarrow> key_path fs' k = key_path fs k"
  by (cases k) (simp_all add: getAuthTokenFilePath_def doesDirExist_def)

lemma key_is_cont: "fs_env fs = None \<Longrightarrow> is_cont (key_path fs k)"
  by (cases k) (simp_all add: is_cont_def getAuthTokenFilePath_def doesDirExist_def
      getRootContFilePath_def getSpContFilePath_def getTlContFilePath_def)

lemma conts_registered:
  assumes "conts fs' = conts fs" "fs_env fs = None"
  shows "registered fs' = registered fs" "fs_env fs' = None"
proof -
  have env: "fs_env fs' = fs_env fs" and l: "lookup_file fs' |` Collect is_cont = lookup_file fs |` Collect is_cont"
    using assms(1) by (simp_all add: conts_def)
  show "fs_env fs' = None" using env assms(2) by simp
  show "registered fs' = registered fs"
    using fun_cong [OF l] key_is_cont [OF assms(2)] key_path_fixed [OF env assms(2)]
    by (intro ext) (metis mem_Collect_eq registered_def restrict_map_def)
qed

text \<open>Removing the file of a key.\<close>

lemma remove_key:
  assumes "fs_env fs = None" "valid_key k" "remove_file (key_path fs k) fs = (ok, fs')"
  shows "fs_env fs' = None" and
    "valid_key k' \<Longrightarrow> registered fs' k' = (if ok \<and> k' = k then None else registered fs k')"
    and "registered fs k \<noteq> None \<Longrightarrow> reliable fs \<Longrightarrow> ok"
proof -
  show env: "fs_env fs' = None"
    using assms by (auto simp: remove_file_def io_def split: if_splits)
  have "lookup_file fs' = (if ok then (lookup_file fs)(key_path fs k := None) else lookup_file fs)"
    using assms(3) by (auto simp: remove_file_def io_def split: if_splits)
  then show "valid_key k' \<Longrightarrow> registered fs' k' = (if ok \<and> k' = k then None else registered fs k')"
    using key_path_inj [OF _ assms(2), of k' fs] key_path_fixed [of fs' fs k'] env assms(1)
    by (auto simp: registered_def)
  show "registered fs k \<noteq> None \<Longrightarrow> reliable fs \<Longrightarrow> ok"
    using assms(3) by (auto simp: remove_file_def registered_def stat_file_def split: if_splits)
qed

lemma cleanup_trustlet_steps:
  assumes "fs_env fs = None" "length u = 16"
    and "mcRegistryCleanupTrustlet (Some u) spid fs = (ret, fs')"
  shows "fs_env fs' = None \<and> (\<forall>k. valid_key k \<longrightarrow> registered fs' k =
     (if ret = MC_DRV_OK \<and> k = KTlt u spid then None else registered fs k))"
proof -
  obtain ok1 fs1 where dir: "remove_dir (getTlDataPath u) fs = (ok1, fs1)" by fastforce
  have c1: "conts fs1 = conts fs" using remove_dir_keeps [OF own_dirs(1), of u fs] dir by simp
  define fs2 where "fs2 = (if stat_file fs1 (getTlBinFilePath fs1 u MC_REGISTRY_WRITABLE)
      then snd (remove_file (getTlBinFilePath fs1 u MC_REGISTRY_WRITABLE) fs1) else deleteSPTA u spid fs1)"
  have "\<not> is_cont (getTlBinFilePath fs1 u MC_REGISTRY_WRITABLE)"
    by (simp add: is_cont_def getTlBinFilePath_def registry_path_def)
  then have c2: "conts fs2 = conts fs" using c1 by (simp add: fs2_def keeps)
  show ?thesis
  proof (cases ok1)
    case False
    then have "ret = MC_DRV_ERR_UNKNOWN" "fs' = fs1"
      using assms(3) dir by (simp_all add: mcRegistryCleanupTrustlet_def)
    then show ?thesis using conts_registered [OF c1 assms(1)] by simp
  next
    case True
    obtain ok fs3 where rm: "remove_file (key_path fs2 (KTlt u spid)) fs2 = (ok, fs3)" by fastforce
    have "fs' = fs3" "ok \<longleftrightarrow> ret = MC_DRV_OK"
      using assms(3) dir True rm
      by (auto simp: mcRegistryCleanupTrustlet_def fs2_def [symmetric] Let_def split: bool.splits)
    then show ?thesis
      using remove_key [OF conts_registered(2) [OF c2 assms(1)] _ rm]
        conts_registered(1) [OF c2 assms(1)] assms(2) by simp
  qed
qed


lemma read_so_content:
  assumes "read_so sk p n fs = ((MC_DRV_OK, data), fs')"
  shows "\<exists>d. lookup_file fs p = Some d \<and> data = take n d \<and> data \<noteq> []"
  using assms
  by (cases sk) (auto simp: read_so_def fopen_rb_def fseek_def fread_def io_def
      split: prod.splits option.splits bool.splits if_splits)

definition listed :: "bytes list \<Rightarrow> u32 \<Rightarrow> reg_key \<Rightarrow> bool" where
  "listed us spid k \<longleftrightarrow> (\<exists>u \<in> set us. u \<noteq> MC_UUID_FREE \<and> k = KTlt u spid)"

lemma cleanup_trustlets_effect:
  assumes "fs_env fs = None" "\<forall>u \<in> set us. length u = 16"
    and "cleanup_trustlets us spid fs = (ret, fs')"
  shows "fs_env fs' = None \<and> (\<forall>k. valid_key k \<longrightarrow>
     (ret = MC_DRV_OK \<longrightarrow> registered fs' k = (if listed us spid k then None else registered fs k)) \<and>
     (registered fs' k = registered fs k \<or> listed us spid k \<and> registered fs' k = None))"
  using assms
proof (induction us arbitrary: fs)
  case Nil
  then show ?case by (simp add: listed_def)
next
  case (Cons u us)
  show ?case
  proof (cases "u = MC_UUID_FREE")
    case True
    then show ?thesis using Cons by (auto simp: listed_def)
  next
    case False
    obtain r1 fs1 where c: "mcRegistryCleanupTrustlet (Some u) spid fs = (r1, fs1)" by fastforce
    have st: "fs_env fs1 = None" "\<And>k. valid_key k \<Longrightarrow> registered fs1 k =
        (if r1 = MC_DRV_OK \<and> k = KTlt u spid then None else registered fs k)"
      using cleanup_trustlet_steps [OF Cons.prems(1) _ c] Cons.prems(2) by simp_all
    show ?thesis
    proof (cases "r1 = MC_DRV_OK")
      case ok: True
      then have "cleanup_trustlets us spid fs1 = (ret, fs')" using Cons.prems(3) False c by simp
      with Cons.IH [OF st(1)] Cons.prems(2) have IH: "fs_env fs' = None"
          "\<And>k. valid_key k \<Longrightarrow> ret = MC_DRV_OK \<Longrightarrow>
             registered fs' k = (if listed us spid k then None else registered fs1 k)"
          "\<And>k. valid_key k \<Longrightarrow> registered fs' k = registered fs1 k \<or>
             listed us spid k \<and> registered fs' k = None"
        by auto
      have "listed (u # us) spid k \<longleftrightarrow> k = KTlt u spid \<or> listed us spid k" for k
        using False by (auto simp: listed_def)
      then show ?thesis using IH st(2) ok by (smt (verit))
    next
      case no: False
      then have "ret = r1" "fs' = fs1" using Cons.prems(3) False c by auto
      then show ?thesis using st no by simp
    qed
  qed
qed

lemma sp_children_length: "length d = SIZEOFSPCONTAINER \<Longrightarrow> u \<in> set (sp_children d) \<Longrightarrow> length u = 16"
  by (auto simp: sp_children_def container_sizes)

lemma cleanup_sp_steps:
  assumes "fs_env fs = None" "mcRegistryCleanupSp spid fs = (ret, fs')"
    and "registered fs (KSp spid) = Some d"
  defines "us \<equiv> sp_children (take SIZEOFSPCONTAINER d)"
  shows "fs_env fs' = None \<and> (valid_key k \<longrightarrow>
      (ret = MC_DRV_OK \<and> SIZEOFSPCONTAINER \<le> length d \<longrightarrow>
        registered fs' k = (if k = KSp spid \<or> listed us spid k then None else registered fs k)) \<and>
      (registered fs' k = registered fs k \<or> (k = KSp spid \<or> listed us spid k) \<and> registered fs' k = None))"
proof (cases "spid = 0")
    case True
    then show ?thesis using assms by (simp add: mcRegistryCleanupSp_def)
  next
    case spid: False
    obtain r0 data fs1 where rd: "mcRegistryReadSp spid SIZEOFSPCONTAINER fs = ((r0, data), fs1)"
      by (metis surj_pair)
    then have so: "read_so False (getSpContFilePath spid) SIZEOFSPCONTAINER fs = ((r0, data), fs1)"
      using spid by (simp add: mcRegistryReadSp_def)
    have c1: "conts fs1 = conts fs" using reads_keep(1) [of False _ _ fs] so by (metis snd_conv)
    note k1 = conts_registered [OF c1 assms(1)]
    have got: "data = take SIZEOFSPCONTAINER d" if "r0 = MC_DRV_OK"
      using read_so_content [of False "getSpContFilePath spid" _ fs data fs1] so assms(3) that
      by (auto simp: registered_def)
    show ?thesis
    proof (cases "r0 = MC_DRV_OK \<and> length data = SIZEOFSPCONTAINER")
      case False
      then have f: "fs' = fs1" "ret = r0" using assms(2) spid rd by (auto simp: mcRegistryCleanupSp_def)
      have "\<not> (r0 = MC_DRV_OK \<and> SIZEOFSPCONTAINER \<le> length d)"
      proof
        assume a: "r0 = MC_DRV_OK \<and> SIZEOFSPCONTAINER \<le> length d"
        then have "length data = SIZEOFSPCONTAINER" using got by simp
        with a False show False by simp
      qed
      then show ?thesis using k1 f by auto
    next
      case True
      have data: "data = take SIZEOFSPCONTAINER d"
        using got True by simp
      then have us: "sp_children data = us" by (simp only: us_def)
      obtain r2 fs2 where ct: "cleanup_trustlets us spid fs1 = (r2, fs2)" by fastforce
      have "\<forall>u \<in> set us. length u = 16"
        using sp_children_length [of data] True us by blast
      note eff = cleanup_trustlets_effect [OF k1(2) this ct]
      show ?thesis
      proof (cases "r2 = MC_DRV_OK")
        case False
        then have "fs' = fs2" "ret = r2"
          using assms(2) spid rd True ct by (auto simp: mcRegistryCleanupSp_def us)
        then show ?thesis using eff False k1(1) by auto
      next
        case ok2: True
        obtain ok3 fs3 where dir: "remove_dir (getSpDataPath spid) fs2 = (ok3, fs3)" by fastforce
        have c3: "conts fs3 = conts fs2"
          using remove_dir_keeps [OF own_dirs(2), of spid fs2] dir by simp
        note k3 = conts_registered [OF c3 eff [THEN conjunct1]]
        obtain ok4 fs4 where rm: "remove_file (key_path fs3 (KSp spid)) fs3 = (ok4, fs4)" by fastforce
        have "fs' = (if ok3 then fs4 else fs3)" "ret = MC_DRV_OK \<longleftrightarrow> ok3 \<and> ok4"
          using assms(2) spid rd True ct ok2 dir rm
          by (auto simp: mcRegistryCleanupSp_def us split: bool.splits)
        then show ?thesis
          using eff k3 k1(1) remove_key [OF k3(2) _ rm] ok2 spid by (cases ok3) auto
      qed
    qed
  qed

subsection \<open>The root container goes last\<close>

lemma cleanup_sp_unregistered:
  assumes "fs_env fs = None" "mcRegistryCleanupSp spid fs = (ret, fs')" "registered fs (KSp spid) = None"
  shows "ret \<noteq> MC_DRV_OK \<and> registered fs' = registered fs \<and> fs_env fs' = None"
proof (cases "spid = 0")
  case True
  then show ?thesis using assms by (simp add: mcRegistryCleanupSp_def)
next
  case False
  obtain r0 data fs1 where so: "read_so False (getSpContFilePath spid) SIZEOFSPCONTAINER fs = ((r0, data), fs1)"
    by (metis surj_pair)
  have c1: "conts fs1 = conts fs" using reads_keep(1) [of False _ _ fs] so by (metis snd_conv)
  have "r0 \<noteq> MC_DRV_OK"
    using read_so_content [of False "getSpContFilePath spid" _ fs data fs1] so assms(3)
    by (auto simp: registered_def)
  then show ?thesis
    using assms(2) so False conts_registered [OF c1 assms(1)]
    by (auto simp: mcRegistryCleanupSp_def mcRegistryReadSp_def)
qed

lemma cleanup_sp_shrinks:
  assumes "fs_env fs = None" "mcRegistryCleanupSp spid fs = (ret, fs')" "valid_key k"
  shows "fs_env fs' = None \<and> (registered fs' k = registered fs k \<or>
    registered fs' k = None \<and> k \<noteq> KAuth \<and> k \<noteq> KRoot)"
proof (cases "registered fs (KSp spid)")
  case None
  then show ?thesis using cleanup_sp_unregistered [OF assms(1,2)] by simp
next
  case (Some d)
  then show ?thesis using cleanup_sp_steps [OF assms(1,2) Some, of k] assms(3) by (auto simp: listed_def)
qed

lemma cleanup_sps_shrinks:
  "fs_env fs = None \<Longrightarrow> cleanup_sps ss fs = (ret, fs') \<Longrightarrow> valid_key k \<Longrightarrow>
   fs_env fs' = None \<and> (registered fs' k = registered fs k \<or>
    registered fs' k = None \<and> k \<noteq> KAuth \<and> k \<noteq> KRoot)"
proof (induction ss arbitrary: fs)
  case (Cons s ss)
  obtain r1 fs1 where c: "mcRegistryCleanupSp s fs = (r1, fs1)" by fastforce
  note sh = cleanup_sp_shrinks [OF Cons.prems(1) c Cons.prems(3)]
  show ?case
  proof (cases "s = MC_SPID_FREE \<or> r1 \<noteq> MC_DRV_OK")
    case True
    then show ?thesis using Cons sh c by (auto split: if_splits)
  next
    case False
    then have "cleanup_sps ss fs1 = (ret, fs')" using Cons.prems(2) c by simp
    then show ?thesis using Cons.IH [of fs1] sh Cons.prems(3) by auto
  qed
qed simp

subsection \<open>Containers behind a trustlet\<close>

lemma append_container_fits:
  assumes rd: "rd = ((MC_DRV_OK, d), fs1)" and fits: "p + length d \<le> length buf"
    and f: "field + 4 \<le> 32" "32 \<le> p"
  shows "\<exists>buf'. append_container rd field p buf = Some (MC_DRV_OK, length d, buf', fs1) \<and>
     length buf' = length buf \<and>
     drop 32 (take (p + length d) buf') = drop 32 (take p buf) @ d \<and>
     ld32 field buf' = Some (of_nat (length d)) \<and>
     (\<forall>i. (i + 4 \<le> field \<or> field + 4 \<le> i) \<and> i + 4 \<le> 32 \<longrightarrow> ld32 i buf' = ld32 i buf)"
proof -
  obtain b1 where b1: "buf_write p d buf = Some b1" using fits by (simp add: buf_write_def)
  have l1: "length b1 = length buf" by (rule buf_write_length [OF b1])
  obtain b2 where b2: "st32 field (of_nat (length d)) b1 = Some b2"
    using st32_Some_iff [of field "of_nat (length d)" b1] l1 f fits by auto
  have l2: "length b2 = length buf" using st32_length [OF b2] l1 by simp
  have d1: "drop 32 (take (p + length d) b1) = drop 32 (take p buf) @ d"
    using b1 f fits by (auto simp: buf_write_def split: if_splits)
  have d2: "drop 32 (take n b2) = drop 32 (take n b1)" for n
    using b2 f by (auto simp: st32_def buf_write_def drop_take split: if_splits)
  have other: "ld32 i b2 = ld32 i buf" if "i + 4 \<le> field \<or> field + 4 \<le> i" "i + 4 \<le> 32" for i
    using ld32_st32_other [OF b2, of i] read_write_before [OF b1, of i 4] that f
    by (auto simp: ld32_def)
  show ?thesis
    using rd b1 b2 l2 d1 d2 other ld32_st32_same [OF b2] by (auto simp: append_container_def)
qed

lemma append_container_overflows:
  "rd = ((MC_DRV_OK, d), fs1) \<Longrightarrow> length buf < p + length d \<Longrightarrow> append_container rd field p buf = None"
  by (simp add: append_container_def buf_write_def)

text \<open>What composing a blob starts from.\<close>

definition sp_setup :: "u32 \<Rightarrow> bytes \<Rightarrow> bytes \<Rightarrow> bytes \<Rightarrow> bytes \<Rightarrow> fs \<Rightarrow> bool" where
  "sp_setup spid t r s c fs \<longleftrightarrow> registry_good fs \<and> spid \<noteq> 0 \<and>
     40 \<le> length t \<and> length t \<le> MAX_TL_SIZE \<and> ld32 0 t = Some MC_SERVICE_HEADER_MAGIC \<and>
     ld32 16 t = Some SERVICE_TYPE_SP_TRUSTLET \<and>
     registered fs KRoot = Some r \<and> r \<noteq> [] \<and> length r \<le> SIZEOFROOTCONTAINER \<and>
     registered fs (KSp spid) = Some s \<and> s \<noteq> [] \<and> length s \<le> SIZEOFSPCONTAINER \<and>
     registered fs (KTlt (take 16 (drop 24 t)) spid) = Some c \<and> c \<noteq> []"

lemma same_files_refl_io: "registry_good fs \<Longrightarrow> \<exists>fs0. io fs = (Done, fs0) \<and> same_files fs fs0"
  by (simp add: registry_good_def same_files_def)

lemma mem_blob_sp:
  assumes "sp_setup spid t r s c fs"
  shows "mcRegistryMemGetServiceBlob heap spid (Some t) fs = sp_trustlet_blob heap spid t fs"
  using assms by (simp add: sp_setup_def mcRegistryMemGetServiceBlob_def)

text \<open>The buffer before the last container is read.\<close>

lemma blob_two_containers:
  assumes su: "sp_setup spid t r s c fs"
  shows "\<exists>b3 fs2. sp_trustlet_blob heap spid t fs =
      Option.bind (append_container (mcRegistryReadTrustletCon (Some (take 16 (drop 24 t))) spid
          (1600 - length s - length r) fs2) 12 (32 + length t + length r + length s) b3)
        (\<lambda>(ret3, tlLen, b4, fs3).
           if ret3 \<noteq> MC_DRV_OK then Some (None, fs3)
           else Some (Some \<lparr>tlStartOffset = sizeof_mcBlobLenInfo,
                 blobValue = take (32 + length t + length r + length s + tlLen) b4\<rparr>, fs3)) \<and>
    same_files fs fs2 \<and> length b3 = length t + 1568 \<and>
    drop 32 (take (32 + length t + length r + length s) b3) = t @ r @ s \<and>
    ld32 0 b3 = Some MC_TLBLOBLEN_MAGIC \<and> ld32 4 b3 = Some (of_nat (length r)) \<and>
    ld32 8 b3 = Some (of_nat (length s))"
proof -
  let ?n = "length t + 32 + 1536"
  have g: "registry_good fs" using su by (simp add: sp_setup_def)
  obtain fs0 where io: "io fs = (Done, fs0)" "same_files fs fs0" using same_files_refl_io [OF g] by blast
  note s0 = same_registered [OF io(2)]
  obtain b0 where b0: "st32 0 MC_TLBLOBLEN_MAGIC (map heap [0..<?n]) = Some b0"
    using st32_Some_iff [of 0 MC_TLBLOBLEN_MAGIC "map heap [0..<?n]"] by auto
  have l0: "length b0 = ?n" using st32_length [OF b0] by simp
  obtain b1 where b1: "buf_write 32 t b0 = Some b1" using l0 by (auto simp: buf_write_def)
  have l1: "length b1 = ?n" using buf_write_length [OF b1] l0 by simp
  have t1: "drop 32 (take (32 + length t) b1) = t"
    using b1 l0 by (auto simp: buf_write_def split: if_splits)
  have m1: "ld32 0 b1 = Some MC_TLBLOBLEN_MAGIC"
    using read_write_before [OF b1, of 0 4] ld32_st32_same [OF b0] by (simp add: ld32_def)
  obtain fs1 where r: "mcRegistryReadRoot SIZEOFROOTCONTAINER fs0 = ((MC_DRV_OK, r), fs1)" "same_files fs0 fs1"
    using registry_read_works [OF s0(2) [OF g], of KRoot r SIZEOFROOTCONTAINER] su s0(1)
    by (auto simp: sp_setup_def registry_readable_def)
  note s1 = same_registered [OF r(2)]
  obtain fs2 where sp: "mcRegistryReadSp spid SIZEOFSPCONTAINER fs1 = ((MC_DRV_OK, s), fs2)" "same_files fs1 fs2"
    using registry_read_works [OF s1(2) [OF s0(2) [OF g]], of "KSp spid" s SIZEOFSPCONTAINER] su s0(1) s1(1)
    by (auto simp: sp_setup_def registry_readable_def)
  have lens: "length r \<le> 220" "length s \<le> 396" using su by (simp_all add: sp_setup_def container_sizes)
  obtain b2 where b2: "append_container (mcRegistryReadRoot SIZEOFROOTCONTAINER fs0) 4 (32 + length t) b1 =
      Some (MC_DRV_OK, length r, b2, fs1)" "length b2 = ?n"
      "drop 32 (take (32 + length t + length r) b2) = t @ r" "ld32 4 b2 = Some (of_nat (length r))"
      "ld32 0 b2 = ld32 0 b1"
    using append_container_fits [OF r(1), of "32 + length t" b1 4] l1 lens t1 by auto
  obtain b3 where b3: "append_container (mcRegistryReadSp spid SIZEOFSPCONTAINER fs1) 8
      (32 + length t + length r) b2 = Some (MC_DRV_OK, length s, b3, fs2)" "length b3 = ?n"
      "drop 32 (take (32 + length t + length r + length s) b3) = t @ r @ s"
      "ld32 8 b3 = Some (of_nat (length s))" "ld32 0 b3 = ld32 0 b2" "ld32 4 b3 = ld32 4 b2"
    using append_container_fits [OF sp(1), of "32 + length t + length r" b2 8] b2 lens by auto
  have same: "same_files fs fs2" using io(2) r(2) sp(2) by (simp add: same_files_def)
  have u: "buf_read 24 16 t = Some (take 16 (drop 24 t))" using su by (simp add: sp_setup_def buf_read_def)
  have buf: "map heap [0..<?n] = map heap [0..<length t + sizeof_mcBlobLenInfo + 3 * MAX_SO_CONT_SIZE]"
    by (simp add: sizeof_mcBlobLenInfo_def MAX_SO_CONT_SIZE_def)
  have "sp_trustlet_blob heap spid t fs =
      Option.bind (append_container (mcRegistryReadTrustletCon (Some (take 16 (drop 24 t))) spid
          (1600 - length s - length r) fs2) 12 (32 + length t + length r + length s) b3)
        (\<lambda>(ret3, tlLen, b4, fs3).
           if ret3 \<noteq> MC_DRV_OK then Some (None, fs3)
           else Some (Some \<lparr>tlStartOffset = sizeof_mcBlobLenInfo,
                 blobValue = take (32 + length t + length r + length s + tlLen) b4\<rparr>, fs3))"
    using b0 b1 b2(1) b3(1) io(1)
    by (simp add: sp_trustlet_blob_def Let_def buf [symmetric] sizeof_mcBlobLenInfo_def
        MAX_SO_CONT_SIZE_def u del: map_upt_Suc)
  then show ?thesis using same b3 b2 m1 by (intro exI [of _ b3] exI [of _ fs2]) simp
qed

subsection \<open>Properties\<close>

text \<open>C17. Whatever sequence of objects of at most 1536 bytes is stored on a working file system, reading an
  object gives the bytes that were stored for it last, however many other objects were stored
  before or after, provided that these bytes can be read: exactly 152 for the token, and for all others at least one and no more than the
  caller has room for. (A shorter token is stored but not read.)\<close>

theorem registry_last_store:
  assumes "registry_good fs"
    and "\<forall>(k, d) \<in> set kds. valid_key k \<and> registry_storable k d"
    and "map_of (rev kds) k = Some d" and "valid_key k" and "registry_readable k n d"
  shows "fst (registry_read k n (fold (\<lambda>(k, d) fs. snd (registry_store k d fs)) kds fs)) = (MC_DRV_OK, d)"
  using assms by (rule registry.read_last_store)

definition empty_registry :: fs where
  "empty_registry = \<lparr>fs_files = [], fs_dirs = [MC_REGISTRY_DATA_PATH], fs_env = None,
     fs_io = (\<lambda>_. Done), fs_calls = 0\<rparr>"

lemma empty_registry_good [simp]: "registry_good empty_registry" "fs_env empty_registry = None"
  by (simp_all add: registry_good_def empty_registry_def reliable_def)

lemma registry_last_store_witness:
  "fst (registry_read (KSp 7) 396 (fold (\<lambda>(k, d) fs. snd (registry_store k d fs))
     [(KSp 7, [1, 2]), (KRoot, [9]), (KSp 7, [3, 4, 5]), (KSp 8, [6])] empty_registry)) =
   (MC_DRV_OK, [3, 4, 5])"
  by (rule registry_last_store) (simp_all add: registry_storable_def registry_readable_def MAX_SO_CONT_SIZE_def)

text \<open>A registry with files but no directory that can be opened.\<close>

definition flat_registry :: "(reg_key \<times> bytes) list \<Rightarrow> fs" where
  "flat_registry kds = \<lparr>fs_files = map (\<lambda>(k, d). (key_path empty_registry k, d)) kds, fs_dirs = [],
     fs_env = None, fs_io = (\<lambda>_. Done), fs_calls = 0\<rparr>"

lemma flat_registry_simps [simp]: "fs_env (flat_registry kds) = None" "reliable (flat_registry kds)"
  "fs_dirs (flat_registry kds) = []"
  by (simp_all add: flat_registry_def reliable_def)

lemma registered_flat:
  assumes "\<forall>k \<in> fst ` set kds. valid_key k" "valid_key k"
  shows "registered (flat_registry kds) k = map_of kds k"
proof -
  have "key_path (flat_registry kds) k = key_path empty_registry k"
    by (rule key_path_fixed) (simp_all add: flat_registry_def empty_registry_def)
  moreover have "map_of (map (\<lambda>(k, d). (key_path empty_registry k, d)) kds) (key_path empty_registry k) =
      map_of kds k"
    using assms(1)
  proof (induction kds)
    case (Cons kd kds)
    have "key_path empty_registry k = key_path empty_registry (fst kd) \<longleftrightarrow> k = fst kd"
      using Cons.prems assms(2) key_path_inj [of k "fst kd" empty_registry] by auto
    then show ?case using Cons by (cases kd) simp
  qed simp
  ultimately show ?thesis by (simp add: registered_def lookup_file_def flat_registry_def)
qed

lemma cleanup_trustlet_succeeds:
  assumes "fs_env fs = None" "reliable fs" "fs_dirs fs = []" "length u = 16"
    and "registered fs (KTlt u spid) \<noteq> None"
  shows "\<exists>fs'. mcRegistryCleanupTrustlet (Some u) spid fs = (MC_DRV_OK, fs') \<and> fs_env fs' = None \<and>
    reliable fs' \<and> fs_dirs fs' = []"
proof -
  define fs1 where "fs1 = snd (io fs)"
  have fs1: "reliable fs1" "fs_dirs fs1 = []" "fs_env fs1 = None" "lookup_file fs1 = lookup_file fs"
    "remove_dir (getTlDataPath u) fs = (True, fs1)"
    using assms by (simp_all add: fs1_def remove_dir_def opendir_def)
  define bin where "bin = getTlBinFilePath fs1 u MC_REGISTRY_WRITABLE"
  define fs2 where "fs2 = (if stat_file fs1 bin then snd (remove_file bin fs1) else deleteSPTA u spid fs1)"
  have ne: "bin \<noteq> getTlContFilePath u spid"
    by (simp add: bin_def getTlBinFilePath_def registry_path_def getTlContFilePath_def)
  have fs2: "reliable fs2" "fs_dirs fs2 = []" "fs_env fs2 = None"
      "lookup_file fs2 (getTlContFilePath u spid) = lookup_file fs (getTlContFilePath u spid)"
    using fs1 ne by (simp_all add: fs2_def deleteSPTA_def opendir_def remove_file_def)
  then obtain fs3 where fs3: "remove_file (getTlContFilePath u spid) fs2 = (True, fs3)"
      "fs_env fs3 = None" "reliable fs3" "fs_dirs fs3 = []"
    using assms(5) by (simp add: remove_file_def stat_file_def registered_def)
  have "mcRegistryCleanupTrustlet (Some u) spid fs =
      (case remove_file (getTlContFilePath u spid) fs2 of
         (False, fs3) \<Rightarrow> (MC_DRV_ERR_UNKNOWN, fs3) | (True, fs3) \<Rightarrow> (MC_DRV_OK, fs3))"
    by (simp only: mcRegistryCleanupTrustlet_def option.case fs1(5) prod.case bool.case Let_def fs2_def bin_def)
  with fs3 show ?thesis by simp
qed

text \<open>Cleaning up a trustlet removes exactly its container: when the call succeeds the
  container is gone, when it fails it is still there, and in both cases every other container
  (of the same trustlet for another service provider too) is what it was, however the removal of
  data files, binaries and directories went.\<close>

lemma cleanup_trustlet_effect:
  assumes "fs_env fs = None" and "length u = 16"
    and "mcRegistryCleanupTrustlet (Some u) spid fs = (ret, fs')" and "valid_key k"
  shows "registered fs' k = (if ret = MC_DRV_OK \<and> k = KTlt u spid then None else registered fs k)"
  using cleanup_trustlet_steps [OF assms(1-3)] assms(4) by blast

lemma cleanup_trustlet_effect_witness:
  "let u = replicate 16 1;
       fs' = snd (mcRegistryCleanupTrustlet (Some u) 7 (flat_registry [(KTlt u 7, [1]), (KTlt u 8, [2])]))
   in registered fs' (KTlt u 7) = None \<and> registered fs' (KTlt u 8) = Some [2]"
proof -
  let ?u = "replicate 16 1" let ?fs = "flat_registry [(KTlt ?u 7, [1]), (KTlt ?u 8, [2])]"
  obtain fs' where "mcRegistryCleanupTrustlet (Some ?u) 7 ?fs = (MC_DRV_OK, fs')"
    using cleanup_trustlet_succeeds [of ?fs ?u 7] by (auto simp: registered_flat)
  then show ?thesis
    using cleanup_trustlet_effect [of ?fs ?u 7 MC_DRV_OK fs' "KTlt ?u 7"]
      cleanup_trustlet_effect [of ?fs ?u 7 MC_DRV_OK fs' "KTlt ?u 8"]
    by (simp add: registered_flat Let_def)
qed


lemma cleanup_trustlets_free: "cleanup_trustlets (replicate n MC_UUID_FREE) spid fs = (MC_DRV_OK, fs)"
  by (induction n) simp_all


text \<open>Cleaning up the root, or a service provider, reports success without removing anything
  when the stored container is shorter than its structure, although containers of every size are
  accepted by the store operations.\<close>

lemma cleanup_short_container:
  assumes "registry_good fs" and "d \<noteq> []"
  shows "(registered fs KRoot = Some d \<and> length d < SIZEOFROOTCONTAINER \<longrightarrow>
      fst (mcRegistryCleanupRoot fs) = MC_DRV_OK \<and>
      registered (snd (mcRegistryCleanupRoot fs)) = registered fs) \<and>
    (registered fs (KSp spid) = Some d \<and> spid \<noteq> 0 \<and> length d < SIZEOFSPCONTAINER \<longrightarrow>
      fst (mcRegistryCleanupSp spid fs) = MC_DRV_OK \<and>
      registered (snd (mcRegistryCleanupSp spid fs)) = registered fs)"
proof (intro conjI impI)
  assume a: "registered fs KRoot = Some d \<and> length d < SIZEOFROOTCONTAINER"
  then obtain fs' where "mcRegistryReadRoot SIZEOFROOTCONTAINER fs = ((MC_DRV_OK, d), fs')" "same_files fs fs'"
    using registry_read_works [OF assms(1), of KRoot d SIZEOFROOTCONTAINER] assms(2)
    by (auto simp: registry_readable_def)
  then have "mcRegistryCleanupRoot fs = (MC_DRV_OK, fs')" "registered fs' = registered fs"
    using a same_registered(1) by (auto simp: mcRegistryCleanupRoot_def)
  then show "fst (mcRegistryCleanupRoot fs) = MC_DRV_OK"
    and "registered (snd (mcRegistryCleanupRoot fs)) = registered fs" by simp_all
next
  assume a: "registered fs (KSp spid) = Some d \<and> spid \<noteq> 0 \<and> length d < SIZEOFSPCONTAINER"
  then obtain fs' where "mcRegistryReadSp spid SIZEOFSPCONTAINER fs = ((MC_DRV_OK, d), fs')" "same_files fs fs'"
    using registry_read_works [OF assms(1), of "KSp spid" d SIZEOFSPCONTAINER] assms(2)
    by (auto simp: registry_readable_def)
  then have "mcRegistryCleanupSp spid fs = (MC_DRV_OK, fs')" "registered fs' = registered fs"
    using a same_registered(1) by (auto simp: mcRegistryCleanupSp_def)
  then show "fst (mcRegistryCleanupSp spid fs) = MC_DRV_OK"
    and "registered (snd (mcRegistryCleanupSp spid fs)) = registered fs" by simp_all
qed

definition small_root :: fs where
  "small_root = put_file getRootContFilePath [1, 2, 3] empty_registry"

lemma cleanup_short_container_witness:
  "fst (mcRegistryCleanupRoot small_root) = MC_DRV_OK \<and>
   registered (snd (mcRegistryCleanupRoot small_root)) KRoot = Some [1, 2, 3]"
proof -
  have "registry_good small_root"
    using empty_registry_good(1) by (simp add: small_root_def registry_good_def)
  moreover have "registered small_root KRoot = Some [1, 2, 3]"
    by (simp add: small_root_def registered_def)
  ultimately show ?thesis
    using cleanup_short_container [of small_root "[1, 2, 3]"] by (simp add: container_sizes)
qed

text \<open>A registry with files and its directory, and a trustlet of a service provider.\<close>

definition stocked_registry :: "(reg_key \<times> bytes) list \<Rightarrow> fs" where
  "stocked_registry kds = (flat_registry kds)\<lparr>fs_dirs := [MC_REGISTRY_DATA_PATH]\<rparr>"

lemma stocked_registry_good [simp]: "registry_good (stocked_registry kds)" "fs_env (stocked_registry kds) = None"
  by (simp_all add: registry_good_def stocked_registry_def)

lemma registered_stocked:
  "\<forall>k \<in> fst ` set kds. valid_key k \<Longrightarrow> valid_key k \<Longrightarrow> registered (stocked_registry kds) k = map_of kds k"
  using registered_flat [of kds k] conts_registered(1) [of "stocked_registry kds" "flat_registry kds"]
  by (simp add: stocked_registry_def conts_def)

definition tiny_trustlet :: bytes where
  "tiny_trustlet = enc32 MC_SERVICE_HEADER_MAGIC @ replicate 12 0 @ enc32 SERVICE_TYPE_SP_TRUSTLET @
     replicate 4 0 @ replicate 16 0xAB"

lemma tiny_trustlet_simps [simp]: "length tiny_trustlet = 40"
  "ld32 0 tiny_trustlet = Some MC_SERVICE_HEADER_MAGIC" "ld32 16 tiny_trustlet = Some SERVICE_TYPE_SP_TRUSTLET"
  "take 16 (drop 24 tiny_trustlet) = replicate 16 0xAB"
  by (simp_all add: tiny_trustlet_def ld32_def buf_read_def)

lemma tiny_setup:
  assumes "r \<noteq> []" "s \<noteq> []" "c \<noteq> []" "length r \<le> 220" "length s \<le> 396"
  shows "sp_setup 7 tiny_trustlet r s c
    (stocked_registry [(KRoot, r), (KSp 7, s), (KTlt (replicate 16 0xAB) 7, c)])"
  using assms by (simp add: sp_setup_def registered_stocked MAX_TL_SIZE_def container_sizes)

text \<open>A service blob for a trustlet of a service provider is the blob length structure with its
  magic and the sizes of the three containers, followed by the trustlet, the root container, the
  service provider container and the trustlet container, whenever the three fit the 1536 bytes
  kept for them.\<close>

lemma service_blob_layout:
  assumes "sp_setup spid t r s c fs" and "length r + length s + length c \<le> 3 * MAX_SO_CONT_SIZE"
  shows "\<exists>ob fs'. mcRegistryMemGetServiceBlob heap spid (Some t) fs = Some (Some ob, fs') \<and>
    registered fs' = registered fs \<and> tlStartOffset ob = 32 \<and>
    drop 32 (blobValue ob) = t @ r @ s @ c \<and> ld32 0 (blobValue ob) = Some MC_TLBLOBLEN_MAGIC \<and>
    ld32 4 (blobValue ob) = Some (of_nat (length r)) \<and> ld32 8 (blobValue ob) = Some (of_nat (length s)) \<and>
    ld32 12 (blobValue ob) = Some (of_nat (length c))"
proof -
  let ?p = "32 + length t + length r + length s"
  obtain b3 fs2 where bl: "sp_trustlet_blob heap spid t fs =
      Option.bind (append_container (mcRegistryReadTrustletCon (Some (take 16 (drop 24 t))) spid
          (1600 - length s - length r) fs2) 12 ?p b3)
        (\<lambda>(ret3, tlLen, b4, fs3).
           if ret3 \<noteq> MC_DRV_OK then Some (None, fs3)
           else Some (Some \<lparr>tlStartOffset = sizeof_mcBlobLenInfo, blobValue = take (?p + tlLen) b4\<rparr>, fs3))"
    "same_files fs fs2" "length b3 = length t + 1568" "drop 32 (take ?p b3) = t @ r @ s"
    "ld32 0 b3 = Some MC_TLBLOBLEN_MAGIC" "ld32 4 b3 = Some (of_nat (length r))"
    "ld32 8 b3 = Some (of_nat (length s))"
    using blob_two_containers [OF assms(1)] by blast
  have fit: "length r + length s + length c \<le> 1536" using assms(2) by (simp add: MAX_SO_CONT_SIZE_def)
  have room: "length c \<le> 1600 - (length s + length r)" using fit by arith
  obtain fs3 where rd: "mcRegistryReadTrustletCon (Some (take 16 (drop 24 t))) spid
      (1600 - length s - length r) fs2 = ((MC_DRV_OK, c), fs3)" "same_files fs2 fs3"
    using registry_read_works [OF same_registered(2) [OF bl(2)], of "KTlt (take 16 (drop 24 t)) spid" c
        "1600 - length s - length r"] same_registered(1) [OF bl(2)] assms(1) room
    by (auto simp: sp_setup_def registry_readable_def)
  obtain b4 where b4: "append_container (mcRegistryReadTrustletCon (Some (take 16 (drop 24 t))) spid
      (1600 - length s - length r) fs2) 12 ?p b3 = Some (MC_DRV_OK, length c, b4, fs3)"
      "length b4 = length b3" "drop 32 (take (?p + length c) b4) = t @ r @ s @ c"
      "ld32 12 b4 = Some (of_nat (length c))" "ld32 0 b4 = ld32 0 b3" "ld32 4 b4 = ld32 4 b3"
      "ld32 8 b4 = ld32 8 b3"
    using append_container_fits [OF rd(1), of ?p b3 12] bl(3,4) fit by auto
  have pre: "ld32 i (take (?p + length c) b4) = ld32 i b4" if "i + 4 \<le> 32" for i
    using that b4(2) bl(3) fit by (simp add: ld32_def buf_read_def drop_take min_def)
  show ?thesis
    unfolding mem_blob_sp [OF assms(1)] bl(1) b4(1)
    using b4 bl(5-7) pre same_registered(1) [OF bl(2)] same_registered(1) [OF rd(2)]
    by (simp add: sizeof_mcBlobLenInfo_def)
qed

lemma service_blob_layout_witness:
  "\<exists>ob fs'. mcRegistryMemGetServiceBlob (\<lambda>_. 0) 7 (Some tiny_trustlet)
     (stocked_registry [(KRoot, [1]), (KSp 7, [2]), (KTlt (replicate 16 0xAB) 7, [3])]) = Some (Some ob, fs') \<and>
    drop 32 (blobValue ob) = tiny_trustlet @ [1, 2, 3]"
  using service_blob_layout [OF tiny_setup, of "[1]" "[2]" "[3]" "\<lambda>_. 0"]
  by (auto simp: MAX_SO_CONT_SIZE_def)

text \<open>The space asked for the trustlet container is 64 bytes larger than the space left, so
  that a stored trustlet container that is too large for the buffer is written past its end.\<close>

lemma service_blob_overflow:
  assumes "sp_setup spid t r s c fs" and "3 * MAX_SO_CONT_SIZE < length r + length s + length c"
    and "length c \<le> 3 * MAX_SO_CONT_SIZE + 64 - length r - length s"
  shows "mcRegistryMemGetServiceBlob heap spid (Some t) fs = None"
proof -
  let ?p = "32 + length t + length r + length s"
  obtain b3 fs2 where bl: "sp_trustlet_blob heap spid t fs =
      Option.bind (append_container (mcRegistryReadTrustletCon (Some (take 16 (drop 24 t))) spid
          (1600 - length s - length r) fs2) 12 ?p b3)
        (\<lambda>(ret3, tlLen, b4, fs3).
           if ret3 \<noteq> MC_DRV_OK then Some (None, fs3)
           else Some (Some \<lparr>tlStartOffset = sizeof_mcBlobLenInfo, blobValue = take (?p + tlLen) b4\<rparr>, fs3))"
    "same_files fs fs2" "length b3 = length t + 1568"
    using blob_two_containers [OF assms(1)] by blast
  have room: "length c \<le> 1600 - (length s + length r)"
    using assms(3) by (simp add: MAX_SO_CONT_SIZE_def add.commute)
  obtain fs3 where rd: "mcRegistryReadTrustletCon (Some (take 16 (drop 24 t))) spid
      (1600 - length s - length r) fs2 = ((MC_DRV_OK, c), fs3)"
    using registry_read_works [OF same_registered(2) [OF bl(2)], of "KTlt (take 16 (drop 24 t)) spid" c
        "1600 - length s - length r"] same_registered(1) [OF bl(2)] assms(1) room
    by (auto simp: sp_setup_def registry_readable_def)
  have "length b3 < ?p + length c" using bl(3) assms(2) by (simp add: MAX_SO_CONT_SIZE_def)
  then show ?thesis
    unfolding mem_blob_sp [OF assms(1)] bl(1) using append_container_overflows [OF rd] by simp
qed

lemma service_blob_overflow_witness:
  "mcRegistryMemGetServiceBlob (\<lambda>_. 0) 7 (Some tiny_trustlet)
     (stocked_registry [(KRoot, replicate 220 1), (KSp 7, replicate 396 2),
        (KTlt (replicate 16 0xAB) 7, replicate 960 3)]) = None"
  by (rule service_blob_overflow [OF tiny_setup]) (simp_all add: MAX_SO_CONT_SIZE_def)

text \<open>An attestation that starts behind the end of the blob is never answered with the header
  error meant for it: the check reads its size before it can be rejected, outside the blob.\<close>

lemma attestation_outside_blob:
  assumes "ld32 100 blob = Some off" and "length blob < unat off + 12"
  shows "check_attestation blob = None"
proof -
  have "getAsUint32BE (unat off + 8) blob = None"
    using assms(2) by (simp add: getAsUint32BE_def buf_read_def)
  then show ?thesis using assms(1) by (simp add: check_attestation_def Let_def)
qed

lemma attestation_outside_blob_witness:
  "check_attestation (replicate 100 0 @ enc32 0x1000) = None"
  by (rule attestation_outside_blob [of _ "0x1000"])
    (simp_all add: ld32_def buf_read_def)

end
