(* ===== verification/RegistryRpc.thy ===== *)
theory RegistryRpc
  imports PrivateRegistry
begin

text \<open>
  The registry between processes: the client library (src/MobiCoreDriverLib/Registry/Registry.cpp)
  sends a request over a socket and the daemon (the registry handlers of
  src/MobiCoreDriverLib/Daemon/MobiCoreDriverDaemon.cpp) parses it, calls the registry and writes
  an answer. Requests and answers are byte lists. One state holds both processes: the files, the
  fate of each request, the results of allocations and what uninitialised memory holds.
\<close>

subsection \<open>State\<close>

text \<open>A request reaches the daemon and is answered, does not reach it (no connection, or the
  write fails), or is carried out with its answer lost.\<close>

datatype net_out = Answered | NoConnect | WriteFails | AnswerLost

record world =
  w_fs :: fs
  w_net :: "nat \<Rightarrow> net_out"
  w_reqs :: nat
  w_heap :: "nat \<Rightarrow> (nat \<Rightarrow> u8) option" \<comment> \<open>the nth allocation: NULL, or what the memory holds\<close>
  w_allocs :: nat
  w_stack :: "nat \<Rightarrow> u8" \<comment> \<open>the daemon's uninitialised stack buffer\<close>
  w_permitted :: bool \<comment> \<open>the answer of \<open>checkPermission\<close>\<close>
  w_fault :: bool \<comment> \<open>the secure world has faulted\<close>
  w_loadcheck :: "u32 \<Rightarrow> bytes \<Rightarrow> u32" \<comment> \<open>the secure world's check of an application\<close>
  w_tokens :: "(bytes \<times> nat) list" \<comment> \<open>calls of \<open>loadToken\<close>, with the buffer and the length\<close>

definition malloc :: "nat \<Rightarrow> world \<Rightarrow> bytes option \<times> world" where
  "malloc n w = (map_option (\<lambda>g. map g [0..<n]) (w_heap w (w_allocs w)), w\<lparr>w_allocs := Suc (w_allocs w)\<rparr>)"

text \<open>Lift an operation on the files.\<close>

definition on_fs :: "(fs \<Rightarrow> 'a \<times> fs) \<Rightarrow> world \<Rightarrow> 'a \<times> world" where
  "on_fs f w = (case f (w_fs w) of (r, fs1) \<Rightarrow> (r, w\<lparr>w_fs := fs1\<rparr>))"

subsection \<open>Commands\<close>

abbreviation (input) MC_DRV_REG_STORE_AUTH_TOKEN :: u32 where "MC_DRV_REG_STORE_AUTH_TOKEN \<equiv> 0x100000"
abbreviation (input) MC_DRV_REG_READ_AUTH_TOKEN :: u32 where "MC_DRV_REG_READ_AUTH_TOKEN \<equiv> 0x100001"
abbreviation (input) MC_DRV_REG_DELETE_AUTH_TOKEN :: u32 where "MC_DRV_REG_DELETE_AUTH_TOKEN \<equiv> 0x100002"
abbreviation (input) MC_DRV_REG_READ_ROOT_CONT :: u32 where "MC_DRV_REG_READ_ROOT_CONT \<equiv> 0x100003"
abbreviation (input) MC_DRV_REG_WRITE_ROOT_CONT :: u32 where "MC_DRV_REG_WRITE_ROOT_CONT \<equiv> 0x100004"
abbreviation (input) MC_DRV_REG_DELETE_ROOT_CONT :: u32 where "MC_DRV_REG_DELETE_ROOT_CONT \<equiv> 0x100005"
abbreviation (input) MC_DRV_REG_READ_SP_CONT :: u32 where "MC_DRV_REG_READ_SP_CONT \<equiv> 0x100006"
abbreviation (input) MC_DRV_REG_WRITE_SP_CONT :: u32 where "MC_DRV_REG_WRITE_SP_CONT \<equiv> 0x100007"
abbreviation (input) MC_DRV_REG_DELETE_SP_CONT :: u32 where "MC_DRV_REG_DELETE_SP_CONT \<equiv> 0x100008"
abbreviation (input) MC_DRV_REG_READ_TL_CONT :: u32 where "MC_DRV_REG_READ_TL_CONT \<equiv> 0x100009"
abbreviation (input) MC_DRV_REG_WRITE_TL_CONT :: u32 where "MC_DRV_REG_WRITE_TL_CONT \<equiv> 0x10000A"
abbreviation (input) MC_DRV_REG_DELETE_TL_CONT :: u32 where "MC_DRV_REG_DELETE_TL_CONT \<equiv> 0x10000B"
abbreviation (input) MC_DRV_REG_WRITE_SO_DATA :: u32 where "MC_DRV_REG_WRITE_SO_DATA \<equiv> 0x10000C"
abbreviation (input) MC_DRV_REG_STORE_TA_BLOB :: u32 where "MC_DRV_REG_STORE_TA_BLOB \<equiv> 0x10000D"

subsection \<open>The daemon\<close>

text \<open>\<open>getData\<close>: the next bytes of the request, or a closed connection.\<close>

definition getData :: "nat \<Rightarrow> bytes \<Rightarrow> (bytes \<times> bytes) option" where
  "getData len inp = (if len \<le> length inp then Some (take len inp, drop len inp) else None)"

definition MAX_DATA_SIZE :: nat where "MAX_DATA_SIZE = 512"

text \<open>A buffer of \<open>n\<close> uninitialised bytes with \<open>d\<close> read into it.\<close>

definition overlay :: "bytes \<Rightarrow> (nat \<Rightarrow> u8) \<Rightarrow> nat \<Rightarrow> bytes" where
  "overlay d garbage n = d @ map garbage [length d..<n]"

text \<open>The answer to a read: the result, then the buffer up to the length read, which is the whole
  buffer when the read failed.\<close>

definition read_answer :: "nat \<Rightarrow> bool \<Rightarrow> (u32 \<times> bytes) \<times> world \<Rightarrow> bytes \<times> world" where
  "read_answer n fixed r = (case r of ((ret, d), w1) \<Rightarrow>
     (enc32 ret @
      (if ret = MC_DRV_ERR_INVALID_OPERATION then []
       else take (if ret = MC_DRV_OK \<and> \<not> fixed then length d else n) (overlay d (w_stack w1) n)), w1))"

definition processRegistryReadData :: "u32 \<Rightarrow> bytes \<Rightarrow> world \<Rightarrow> bytes \<times> world" where
  "processRegistryReadData commandId inp w =
     (if \<not> w_permitted w then (enc32 MC_DRV_ERR_INVALID_OPERATION, w)
      else if commandId = MC_DRV_REG_READ_AUTH_TOKEN then
        read_answer SIZEOFAUTHTOKENCONTAINER True (on_fs mcRegistryReadAuthToken w)
      else if commandId = MC_DRV_REG_READ_ROOT_CONT then
        read_answer MAX_DATA_SIZE False (on_fs (mcRegistryReadRoot MAX_DATA_SIZE) w)
      else if commandId = MC_DRV_REG_READ_SP_CONT then
        (case getData 4 inp of None \<Rightarrow> (enc32 MC_DRV_ERR_INVALID_OPERATION, w)
         | Some (spid, _) \<Rightarrow>
             read_answer MAX_DATA_SIZE False (on_fs (mcRegistryReadSp (dec32 spid) MAX_DATA_SIZE) w))
      else if commandId = MC_DRV_REG_READ_TL_CONT then
        (case getData 16 inp of None \<Rightarrow> (enc32 MC_DRV_ERR_INVALID_OPERATION, w)
         | Some (uuid, inp1) \<Rightarrow> (case getData 4 inp1 of None \<Rightarrow> (enc32 MC_DRV_ERR_INVALID_OPERATION, w)
           | Some (spid, _) \<Rightarrow> read_answer MAX_DATA_SIZE False
               (on_fs (mcRegistryReadTrustletCon (Some uuid) (dec32 spid) MAX_DATA_SIZE) w)))
      else (enc32 MC_DRV_ERR_INVALID_OPERATION, w))"

text \<open>The handlers only log what \<open>loadToken\<close> returns, so here a call of it is noted with its arguments. The theory
  DaemonCommands models \<open>loadToken\<close> itself, with the failures of the kernel module and of the secure world, and carries out the calls that are noted.\<close>

definition call_loadToken :: "bytes \<Rightarrow> nat \<Rightarrow> world \<Rightarrow> world" where
  "call_loadToken token sosize w = w\<lparr>w_tokens := w_tokens w @ [(token, sosize)]\<rparr>"

text \<open>Storing the token or the root container, followed by the call of \<open>loadToken\<close> when it worked.\<close>

definition store_and_load :: "(fs \<Rightarrow> u32 \<times> fs) \<Rightarrow> bytes \<Rightarrow> nat \<Rightarrow> world \<Rightarrow> u32 \<times> world" where
  "store_and_load f so sosize w = (case on_fs f w of (ret, w1) \<Rightarrow>
     (ret, if ret = MC_DRV_OK then call_loadToken so sosize w1 else w1))"

text \<open>The switch of the write handler: the result code, \<open>MC_DRV_ERR_INVALID_OPERATION\<close> when the
  request ends early.\<close>

definition write_switch :: "u32 \<Rightarrow> nat \<Rightarrow> bytes \<Rightarrow> world \<Rightarrow> (u32 \<times> world) option" where
  "write_switch commandId soSize inp w =
     (let early = Some (MC_DRV_ERR_INVALID_OPERATION, w) in
      if commandId = MC_DRV_REG_STORE_AUTH_TOKEN then
        (case getData soSize inp of None \<Rightarrow> early
         | Some (so, _) \<Rightarrow> Some (store_and_load (mcRegistryStoreAuthToken (Some so)) so SIZEOFAUTHTOKENCONTAINER w))
      else if commandId = MC_DRV_REG_WRITE_ROOT_CONT then
        (case getData soSize inp of None \<Rightarrow> early
         | Some (so, _) \<Rightarrow> Some (store_and_load (mcRegistryStoreRoot (Some so)) so SIZEOFROOTCONTAINER w))
      else if commandId = MC_DRV_REG_WRITE_SP_CONT then
        (case getData 4 inp of None \<Rightarrow> early
         | Some (spid, inp1) \<Rightarrow> (case getData soSize inp1 of None \<Rightarrow> early
           | Some (so, _) \<Rightarrow> Some (on_fs (mcRegistryStoreSp (dec32 spid) (Some so)) w)))
      else if commandId = MC_DRV_REG_WRITE_TL_CONT then
        (case getData 16 inp of None \<Rightarrow> early
         | Some (uuid, inp1) \<Rightarrow> (case getData 4 inp1 of None \<Rightarrow> early
           | Some (spid, inp2) \<Rightarrow> (case getData soSize inp2 of None \<Rightarrow> early
             | Some (so, _) \<Rightarrow>
                 Some (on_fs (mcRegistryStoreTrustletCon (Some uuid) (dec32 spid) (Some so)) w))))
      else if commandId = MC_DRV_REG_WRITE_SO_DATA then
        (case getData soSize inp of None \<Rightarrow> early
         | Some (so, _) \<Rightarrow> map_option (\<lambda>(ret, fs1). (ret, w\<lparr>w_fs := fs1\<rparr>)) (mcRegistryStoreData (Some so) (w_fs w)))
      else if commandId = MC_DRV_REG_STORE_TA_BLOB then
        (case getData 4 inp of None \<Rightarrow> early
         | Some (spid, inp1) \<Rightarrow> (case malloc soSize w of
             (None, w1) \<Rightarrow> Some (MC_DRV_ERR_NO_FREE_MEMORY, w1)
           | (Some _, w1) \<Rightarrow> (case getData soSize inp1 of None \<Rightarrow> Some (MC_DRV_ERR_INVALID_OPERATION, w1)
             | Some (blob, _) \<Rightarrow>
                 let ret = w_loadcheck w1 (dec32 spid) blob in
                 if ret \<noteq> MC_DRV_OK then Some (ret, w1)
                 else map_option (\<lambda>(ret, fs1). (ret, w1\<lparr>w_fs := fs1\<rparr>))
                        (mcRegistryStoreTABlob (dec32 spid) blob (w_fs w1)))))
      else early)"

definition processRegistryWriteData :: "u32 \<Rightarrow> bytes \<Rightarrow> world \<Rightarrow> (bytes \<times> world) option" where
  "processRegistryWriteData commandId inp w =
     (if \<not> w_permitted w then Some (enc32 MC_DRV_ERR_INVALID_OPERATION, w)
      else case getData 4 inp of None \<Rightarrow> Some (enc32 MC_DRV_ERR_INVALID_OPERATION, w)
      | Some (sz, inp1) \<Rightarrow> (case malloc (unat (dec32 sz)) w of
          (None, w1) \<Rightarrow> Some (enc32 MC_DRV_ERR_NO_FREE_MEMORY, w1)
        | (Some _, w1) \<Rightarrow> map_option (\<lambda>(ret, w2). (enc32 ret, w2))
            (write_switch commandId (unat (dec32 sz)) inp1 w1)))"

text \<open>Search for a token to give to the secure world: the token, its backup, the root container.\<close>

definition installEndorsementToken :: "world \<Rightarrow> world" where
  "installEndorsementToken w = (case on_fs mcRegistryReadAuthToken w of ((r1, d1), w1) \<Rightarrow>
     if r1 = MC_DRV_OK then call_loadToken d1 SIZEOFAUTHTOKENCONTAINER w1
     else (case on_fs mcRegistryReadAuthTokenBackup w1 of ((r2, d2), w2) \<Rightarrow>
       if r2 = MC_DRV_OK then call_loadToken d2 SIZEOFAUTHTOKENCONTAINER w2
       else (case on_fs (mcRegistryReadRoot SIZEOFROOTCONTAINER) w2 of ((r3, d3), w3) \<Rightarrow>
         if r3 = MC_DRV_OK then call_loadToken d3 (length d3) w3 else w3)))"

definition processRegistryDeleteData :: "u32 \<Rightarrow> bytes \<Rightarrow> world \<Rightarrow> bytes \<times> world" where
  "processRegistryDeleteData commandId inp w =
     (let answer = (\<lambda>(ret, w1). (enc32 ret, w1)) in
      if \<not> w_permitted w then (enc32 MC_DRV_ERR_INVALID_OPERATION, w)
      else if commandId = MC_DRV_REG_DELETE_AUTH_TOKEN then answer (on_fs mcRegistryDeleteAuthToken w)
      else if commandId = MC_DRV_REG_DELETE_ROOT_CONT then
        (case on_fs mcRegistryCleanupRoot w of (ret, w1) \<Rightarrow>
           (enc32 ret, if ret = MC_DRV_OK then installEndorsementToken w1 else w1))
      else if commandId = MC_DRV_REG_DELETE_SP_CONT then
        (case getData 4 inp of None \<Rightarrow> (enc32 MC_DRV_ERR_INVALID_OPERATION, w)
         | Some (spid, _) \<Rightarrow> answer (on_fs (mcRegistryCleanupSp (dec32 spid)) w))
      else if commandId = MC_DRV_REG_DELETE_TL_CONT then
        (case getData 16 inp of None \<Rightarrow> (enc32 MC_DRV_ERR_INVALID_OPERATION, w)
         | Some (uuid, inp1) \<Rightarrow> (case getData 4 inp1 of None \<Rightarrow> (enc32 MC_DRV_ERR_INVALID_OPERATION, w)
           | Some (spid, _) \<Rightarrow> answer (on_fs (mcRegistryCleanupTrustlet (Some uuid) (dec32 spid)) w)))
      else (enc32 MC_DRV_ERR_INVALID_OPERATION, w))"

text \<open>One request: the command id and the registry cases of \<open>handleCommand\<close>. No bytes are
  answered when the secure world has faulted, the header is short or the command is no registry
  command.\<close>

definition write_commands :: "u32 set" where
  "write_commands = {MC_DRV_REG_STORE_AUTH_TOKEN, MC_DRV_REG_WRITE_ROOT_CONT, MC_DRV_REG_WRITE_SP_CONT,
     MC_DRV_REG_WRITE_TL_CONT, MC_DRV_REG_WRITE_SO_DATA, MC_DRV_REG_STORE_TA_BLOB}"

definition read_commands :: "u32 set" where
  "read_commands = {MC_DRV_REG_READ_AUTH_TOKEN, MC_DRV_REG_READ_ROOT_CONT, MC_DRV_REG_READ_SP_CONT,
     MC_DRV_REG_READ_TL_CONT}"

definition delete_commands :: "u32 set" where
  "delete_commands = {MC_DRV_REG_DELETE_AUTH_TOKEN, MC_DRV_REG_DELETE_ROOT_CONT, MC_DRV_REG_DELETE_SP_CONT,
     MC_DRV_REG_DELETE_TL_CONT}"

definition registry_command :: "bytes \<Rightarrow> world \<Rightarrow> (bytes \<times> world) option" where
  "registry_command request w =
     (if w_fault w then Some ([], w)
      else case getData 4 request of None \<Rightarrow> Some ([], w)
      | Some (c, inp) \<Rightarrow> let id = dec32 c in
          if id \<in> write_commands then processRegistryWriteData id inp w
          else if id \<in> read_commands then Some (processRegistryReadData id inp w)
          else if id \<in> delete_commands then Some (processRegistryDeleteData id inp w)
          else Some ([], w))"

subsection \<open>The client\<close>

text \<open>What the client gets back from one request, \<open>None\<close> when it gets no answer.\<close>

definition request :: "bytes \<Rightarrow> world \<Rightarrow> (bytes option \<times> world) option" where
  "request msg w =
     (let w1 = w\<lparr>w_reqs := Suc (w_reqs w)\<rparr> in
      case w_net w (w_reqs w) of NoConnect \<Rightarrow> Some (None, w1) | WriteFails \<Rightarrow> Some (None, w1)
      | Answered \<Rightarrow> map_option (\<lambda>(out, w2). (Some out, w2)) (registry_command msg w1)
      | AnswerLost \<Rightarrow> map_option (\<lambda>(out, w2). (None, w2)) (registry_command msg w1))"

definition writeBlobData :: "bytes \<Rightarrow> world \<Rightarrow> (u32 \<times> world) option" where
  "writeBlobData buff w = map_option (\<lambda>(out, w1).
     (case out of None \<Rightarrow> MC_DRV_ERR_DAEMON_SOCKET
      | Some rsp \<Rightarrow> if rsp = [] then MC_DRV_ERR_DAEMON_SOCKET else dec32 (take 4 rsp), w1)) (request buff w)"

text \<open>The second component is the data received, \<open>None\<close> when the caller's buffer and length are
  left as they were.\<close>

definition readBlobData :: "bytes \<Rightarrow> u32 \<Rightarrow> world \<Rightarrow> ((u32 \<times> bytes option) \<times> world) option" where
  "readBlobData buff rlen w =
     (if rlen = 0 then Some ((MC_DRV_ERR_DAEMON_SOCKET, None), w)
      else map_option (\<lambda>(out, w1).
        (case out of None \<Rightarrow> (MC_DRV_ERR_DAEMON_SOCKET, None)
         | Some rsp \<Rightarrow> (let d = take (unat rlen) (drop 4 rsp) in
             if d = [] then (MC_DRV_ERR_DAEMON_SOCKET, None) else (dec32 (take 4 rsp), Some d)), w1))
        (request buff w))"

text \<open>A request that stores: the command is built in allocated memory, with the size of the object
  and \<open>args\<close> before the object.\<close>

definition store_request :: "u32 \<Rightarrow> bytes \<Rightarrow> bytes \<Rightarrow> world \<Rightarrow> (u32 \<times> world) option" where
  "store_request commandId args so w =
     (case malloc (8 + length args + length so) w of (None, w1) \<Rightarrow> Some (MC_DRV_ERR_NO_FREE_MEMORY, w1)
      | (Some _, w1) \<Rightarrow>
          writeBlobData (enc32 commandId @ enc32 (of_nat (length so)) @ args @ so) w1)"

definition mcRegistryStoreAuthToken_client :: "bytes \<Rightarrow> world \<Rightarrow> (u32 \<times> world) option" where
  "mcRegistryStoreAuthToken_client so w = store_request MC_DRV_REG_STORE_AUTH_TOKEN [] so w"

definition mcRegistryReadAuthToken_client :: "u32 \<Rightarrow> world \<Rightarrow> ((u32 \<times> bytes option) \<times> world) option" where
  "mcRegistryReadAuthToken_client sz w = readBlobData (enc32 MC_DRV_REG_READ_AUTH_TOKEN) sz w"

definition mcRegistryDeleteAuthToken_client :: "world \<Rightarrow> (u32 \<times> world) option" where
  "mcRegistryDeleteAuthToken_client w = writeBlobData (enc32 MC_DRV_REG_DELETE_AUTH_TOKEN) w"

definition mcRegistryStoreRoot_client :: "bytes \<Rightarrow> world \<Rightarrow> (u32 \<times> world) option" where
  "mcRegistryStoreRoot_client so w = store_request MC_DRV_REG_WRITE_ROOT_CONT [] so w"

definition mcRegistryReadRoot_client :: "u32 \<Rightarrow> world \<Rightarrow> ((u32 \<times> bytes option) \<times> world) option" where
  "mcRegistryReadRoot_client sz w = readBlobData (enc32 MC_DRV_REG_READ_ROOT_CONT) sz w"

definition mcRegistryCleanupRoot_client :: "world \<Rightarrow> (u32 \<times> world) option" where
  "mcRegistryCleanupRoot_client w = writeBlobData (enc32 MC_DRV_REG_DELETE_ROOT_CONT) w"

definition mcRegistryStoreSp_client :: "u32 \<Rightarrow> bytes \<Rightarrow> world \<Rightarrow> (u32 \<times> world) option" where
  "mcRegistryStoreSp_client spid so w = store_request MC_DRV_REG_WRITE_SP_CONT (enc32 spid) so w"

definition mcRegistryReadSp_client :: "u32 \<Rightarrow> u32 \<Rightarrow> world \<Rightarrow> ((u32 \<times> bytes option) \<times> world) option" where
  "mcRegistryReadSp_client spid sz w = readBlobData (enc32 MC_DRV_REG_READ_SP_CONT @ enc32 spid) sz w"

definition mcRegistryCleanupSp_client :: "u32 \<Rightarrow> world \<Rightarrow> (u32 \<times> world) option" where
  "mcRegistryCleanupSp_client spid w = writeBlobData (enc32 MC_DRV_REG_DELETE_SP_CONT @ enc32 spid) w"

definition mcRegistryStoreTrustletCon_client :: "bytes \<Rightarrow> u32 \<Rightarrow> bytes \<Rightarrow> world \<Rightarrow> (u32 \<times> world) option" where
  "mcRegistryStoreTrustletCon_client uuid spid so w =
     store_request MC_DRV_REG_WRITE_TL_CONT (uuid @ enc32 spid) so w"

definition mcRegistryStoreTABlob_client :: "u32 \<Rightarrow> bytes \<Rightarrow> world \<Rightarrow> (u32 \<times> world) option" where
  "mcRegistryStoreTABlob_client spid blob w = store_request MC_DRV_REG_STORE_TA_BLOB (enc32 spid) blob w"

definition mcRegistryReadTrustletCon_client ::
    "bytes \<Rightarrow> u32 \<Rightarrow> u32 \<Rightarrow> world \<Rightarrow> ((u32 \<times> bytes option) \<times> world) option" where
  "mcRegistryReadTrustletCon_client uuid spid sz w =
     readBlobData (enc32 MC_DRV_REG_READ_TL_CONT @ uuid @ enc32 spid) sz w"

definition mcRegistryCleanupTrustlet_client :: "bytes option \<Rightarrow> u32 \<Rightarrow> world \<Rightarrow> (u32 \<times> world) option" where
  "mcRegistryCleanupTrustlet_client uuid spid w =
     (case uuid of None \<Rightarrow> Some (MC_DRV_ERR_INVALID_PARAMETER, w)
      | Some u \<Rightarrow> writeBlobData (enc32 MC_DRV_REG_DELETE_TL_CONT @ u @ enc32 spid) w)"

subsection \<open>A working connection\<close>

definition link_good :: "world \<Rightarrow> bool" where
  "link_good w \<longleftrightarrow> (\<forall>n \<ge> w_reqs w. w_net w n = Answered) \<and> (\<forall>n \<ge> w_allocs w. w_heap w n \<noteq> None) \<and>
     w_permitted w \<and> \<not> w_fault w"

lemma getData_append [simp]: "n = length a \<Longrightarrow> getData n (a @ b) = Some (a, b)"
  by (simp add: getData_def)

lemma getData_all [simp]: "getData (length a) a = Some (a, [])"
  by (simp add: getData_def)

lemma getData_enc32 [simp]: "getData 4 (enc32 x @ b) = Some (enc32 x, b)" "getData 4 (enc32 x) = Some (enc32 x, [])"
  by (simp_all add: getData_def)

lemma take_enc32 [simp]: "take 4 (enc32 x @ b) = enc32 x" "drop 4 (enc32 x @ b) = b" "take 4 (enc32 x) = enc32 x"
  "drop 4 (enc32 x) = []" "enc32 x \<noteq> []"
  by (simp_all add: enc32_def)

lemma malloc_good:
  assumes "link_good w"
  shows "\<exists>b. malloc n w = (Some b, w\<lparr>w_allocs := Suc (w_allocs w)\<rparr>)"
  using assms by (auto simp: link_good_def malloc_def)

lemma command_kinds:
  "c \<in> read_commands \<Longrightarrow> c \<notin> write_commands"
  "c \<in> delete_commands \<Longrightarrow> c \<notin> write_commands \<and> c \<notin> read_commands"
  by (auto simp: write_commands_def read_commands_def delete_commands_def)

text \<open>A store request arrives at the switch of the handler as it was sent.\<close>

lemma store_request_arrives:
  assumes g: "link_good w" and c: "c \<in> write_commands" and l: "length so < 2 ^ 32"
  shows "store_request c args so w = write_switch c (length so) (args @ so)
    (w\<lparr>w_reqs := Suc (w_reqs w), w_allocs := Suc (Suc (w_allocs w))\<rparr>)"
proof -
  let ?w1 = "w\<lparr>w_allocs := Suc (w_allocs w)\<rparr>" and ?w2 = "w\<lparr>w_allocs := Suc (w_allocs w), w_reqs := Suc (w_reqs w)\<rparr>"
  obtain b where m1: "malloc (8 + length args + length so) w = (Some b, ?w1)" using malloc_good [OF g] by blast
  have g2: "link_good ?w2" using g by (simp add: link_good_def)
  have "\<exists>b2. malloc (length so) ?w2 =
      (Some b2, w\<lparr>w_reqs := Suc (w_reqs w), w_allocs := Suc (Suc (w_allocs w))\<rparr>)"
    using malloc_good [OF g2, of "length so"] by simp
  then obtain b2 where m2: "malloc (length so) ?w2 =
      (Some b2, w\<lparr>w_reqs := Suc (w_reqs w), w_allocs := Suc (Suc (w_allocs w))\<rparr>)" by blast
  have un: "unat (of_nat (length so) :: u32) = length so" using l by (simp add: unsigned_of_nat take_bit_nat_eq_self)
  have "registry_command (enc32 c @ enc32 (of_nat (length so)) @ args @ so) ?w2 =
      map_option (\<lambda>(ret, w2). (enc32 ret, w2)) (write_switch c (length so) (args @ so)
        (w\<lparr>w_reqs := Suc (w_reqs w), w_allocs := Suc (Suc (w_allocs w))\<rparr>))"
    using g2 c m2 un
    by (simp add: registry_command_def processRegistryWriteData_def link_good_def)
  then show ?thesis
    using g m1 by (simp add: store_request_def writeBlobData_def request_def Let_def link_good_def
        option.map_comp comp_def case_prod_unfold option.map_ident)
qed

text \<open>The same for the requests that read and delete, which carry no object.\<close>

lemma read_request_arrives:
  assumes g: "link_good w" and n: "n \<noteq> 0"
    and c: "c \<in> read_commands"
  shows "readBlobData (enc32 c @ args) n w =
    (case processRegistryReadData c args (w\<lparr>w_reqs := Suc (w_reqs w)\<rparr>) of (rsp, w1) \<Rightarrow>
       Some (if take (unat n) (drop 4 rsp) = [] then (MC_DRV_ERR_DAEMON_SOCKET, None)
             else (dec32 (take 4 rsp), Some (take (unat n) (drop 4 rsp))), w1))"
  using assms command_kinds(1) [OF c]
  by (simp add: readBlobData_def request_def Let_def link_good_def registry_command_def case_prod_unfold)

lemma delete_request_arrives:
  assumes g: "link_good w"
    and c: "c \<in> delete_commands"
  shows "writeBlobData (enc32 c @ args) w =
    (case processRegistryDeleteData c args (w\<lparr>w_reqs := Suc (w_reqs w)\<rparr>) of (rsp, w1) \<Rightarrow>
       Some (if rsp = [] then MC_DRV_ERR_DAEMON_SOCKET else dec32 (take 4 rsp), w1))"
  using assms command_kinds(2) [OF c]
  by (simp add: writeBlobData_def request_def Let_def link_good_def registry_command_def case_prod_unfold)

lemma link_good_updates [simp]:
  "link_good (w\<lparr>w_fs := f\<rparr>) = link_good w" "link_good (w\<lparr>w_tokens := t\<rparr>) = link_good w"
  by (simp_all add: link_good_def)

lemma link_good_counts [simp]:
  "link_good w \<Longrightarrow> link_good (w\<lparr>w_reqs := Suc (w_reqs w)\<rparr>)"
  "link_good w \<Longrightarrow> link_good (w\<lparr>w_reqs := Suc (w_reqs w), w_allocs := Suc (Suc (w_allocs w))\<rparr>)"
  by (simp_all add: link_good_def)

subsection \<open>The client as a container store\<close>

fun client_store :: "reg_key \<Rightarrow> bytes \<Rightarrow> world \<Rightarrow> (u32 \<times> world) option" where
  "client_store KAuth d w = mcRegistryStoreAuthToken_client d w"
| "client_store KRoot d w = mcRegistryStoreRoot_client d w"
| "client_store (KSp spid) d w = mcRegistryStoreSp_client spid d w"
| "client_store (KTlt uuid spid) d w = mcRegistryStoreTrustletCon_client uuid spid d w"

fun client_read :: "reg_key \<Rightarrow> u32 \<Rightarrow> world \<Rightarrow> ((u32 \<times> bytes option) \<times> world) option" where
  "client_read KAuth n w = mcRegistryReadAuthToken_client n w"
| "client_read KRoot n w = mcRegistryReadRoot_client n w"
| "client_read (KSp spid) n w = mcRegistryReadSp_client spid n w"
| "client_read (KTlt uuid spid) n w = mcRegistryReadTrustletCon_client uuid spid n w"

definition token_size :: "reg_key \<Rightarrow> nat option" where
  "token_size k = (case k of KAuth \<Rightarrow> Some SIZEOFAUTHTOKENCONTAINER | KRoot \<Rightarrow> Some SIZEOFROOTCONTAINER
     | _ \<Rightarrow> None)"

lemma registry_read_funs [simp]:
  "registry_read KAuth n = mcRegistryReadAuthToken" "registry_read KRoot n = mcRegistryReadRoot n"
  "registry_read (KSp spid) n = mcRegistryReadSp spid n"
  "registry_read (KTlt uuid spid) n = mcRegistryReadTrustletCon (Some uuid) spid n"
  by (simp_all add: fun_eq_iff)

text \<open>A store by the client is the daemon's store, with the token or root container handed to the
  secure world when it worked.\<close>

lemma client_store_eq:
  assumes "link_good w" "valid_key k" "length d < 2 ^ 32"
  shows "\<exists>w'. client_store k d w = Some (fst (registry_store k d (w_fs w)), w') \<and> link_good w' \<and> w_stack w' = w_stack w \<and>
    w_fs w' = snd (registry_store k d (w_fs w)) \<and>
    w_tokens w' = w_tokens w @ (case token_size k of
      Some n \<Rightarrow> if fst (registry_store k d (w_fs w)) = MC_DRV_OK then [(d, n)] else [] | None \<Rightarrow> [])"
  using assms(1,2)
  by (cases k)
    (simp_all add: mcRegistryStoreAuthToken_client_def mcRegistryStoreRoot_client_def
      mcRegistryStoreSp_client_def mcRegistryStoreTrustletCon_client_def
      store_request_arrives [OF assms(1) _ assms(3)] write_commands_def write_switch_def
      store_and_load_def on_fs_def call_loadToken_def token_size_def case_prod_unfold)

lemma read_answer_OK:
  "read_answer n fixed ((MC_DRV_OK, d), w) = (enc32 MC_DRV_OK @ (if fixed then take n (overlay d (w_stack w) n)
     else take (length d) (overlay d (w_stack w) n)), w)"
  by (simp add: read_answer_def)

lemma overlay_prefix [simp]: "take (length d) (overlay d g n) = d"
  by (simp add: overlay_def)

lemma length_overlay [simp]: "length d \<le> n \<Longrightarrow> length (overlay d g n) = n"
  by (simp add: overlay_def)

text \<open>How the daemon reads an object.\<close>

definition daemon_read_size :: "reg_key \<Rightarrow> nat" where
  "daemon_read_size k = (if k = KAuth then SIZEOFAUTHTOKENCONTAINER else MAX_DATA_SIZE)"

lemma client_read_eq:
  assumes "link_good w" "valid_key k" "n \<noteq> 0"
  shows "client_read k n w =
    (case read_answer (daemon_read_size k) (k = KAuth)
        (on_fs (registry_read k (daemon_read_size k)) (w\<lparr>w_reqs := Suc (w_reqs w)\<rparr>)) of (rsp, w1) \<Rightarrow>
       Some (if take (unat n) (drop 4 rsp) = [] then (MC_DRV_ERR_DAEMON_SOCKET, None)
             else (dec32 (take 4 rsp), Some (take (unat n) (drop 4 rsp))), w1))"
proof (cases k)
  case KAuth
  then show ?thesis
    using read_request_arrives [OF assms(1,3), of MC_DRV_REG_READ_AUTH_TOKEN "[]"] assms(1)
    by (simp add: mcRegistryReadAuthToken_client_def processRegistryReadData_def daemon_read_size_def
        link_good_def read_commands_def)
next
  case KRoot
  then show ?thesis
    using read_request_arrives [OF assms(1,3), of MC_DRV_REG_READ_ROOT_CONT "[]"] assms(1)
    by (simp add: mcRegistryReadRoot_client_def processRegistryReadData_def daemon_read_size_def
        link_good_def read_commands_def)
next
  case (KSp spid)
  then show ?thesis
    using read_request_arrives [OF assms(1,3), of MC_DRV_REG_READ_SP_CONT "enc32 spid"] assms(1)
    by (simp add: mcRegistryReadSp_client_def processRegistryReadData_def daemon_read_size_def
        link_good_def read_commands_def)
next
  case (KTlt uuid spid)
  then show ?thesis
    using read_request_arrives [OF assms(1,3), of MC_DRV_REG_READ_TL_CONT "uuid @ enc32 spid"] assms(1,2)
    by (simp add: mcRegistryReadTrustletCon_client_def processRegistryReadData_def daemon_read_size_def
        link_good_def read_commands_def)
qed

definition client_good :: "world \<Rightarrow> bool" where
  "client_good w \<longleftrightarrow> link_good w \<and> registry_good (w_fs w)"

definition client_readable :: "reg_key \<Rightarrow> u32 \<Rightarrow> bytes \<Rightarrow> bool" where
  "client_readable k n d \<longleftrightarrow> registry_readable k MAX_DATA_SIZE d \<and> length d \<le> unat n"

definition client_store' :: "reg_key \<Rightarrow> bytes \<Rightarrow> world \<Rightarrow> u32 \<times> world" where
  "client_store' k d w = the (client_store k d w)"

definition client_read' :: "reg_key \<Rightarrow> u32 \<Rightarrow> world \<Rightarrow> (u32 \<times> bytes) \<times> world" where
  "client_read' k n w = (case the (client_read k n w) of ((ret, d), w1) \<Rightarrow>
     ((ret, case d of None \<Rightarrow> [] | Some b \<Rightarrow> b), w1))"

lemma client_read_works:
  assumes g: "client_good w" and v: "valid_key k" and c: "registered (w_fs w) k = Some d"
    and rd: "client_readable k n d"
  shows "\<exists>w'. client_read k n w = Some ((MC_DRV_OK, Some d), w') \<and> client_good w' \<and>
    registered (w_fs w') = registered (w_fs w) \<and> w_tokens w' = w_tokens w"
proof -
  have lg: "link_good w" and rg: "registry_good (w_fs w)" using g by (simp_all add: client_good_def)
  have len: "0 < length d" "length d \<le> daemon_read_size k" "k = KAuth \<longrightarrow> length d = SIZEOFAUTHTOKENCONTAINER"
    using rd by (auto simp: client_readable_def registry_readable_def daemon_read_size_def container_sizes
        split: if_splits)
  have "length d \<le> unat n" using rd by (simp add: client_readable_def)
  with len(1) have un: "0 < unat n" by (rule less_le_trans)
  then have n: "n \<noteq> 0" by auto
  have "registry_readable k (daemon_read_size k) d"
    using rd by (auto simp: client_readable_def registry_readable_def daemon_read_size_def)
  then obtain fs' where fs': "registry_read k (daemon_read_size k) (w_fs w) = ((MC_DRV_OK, d), fs')"
      "same_files (w_fs w) fs'"
    using registry_read_works [OF rg v c] by blast
  have "length d = daemon_read_size k" if "k = KAuth" using that len(3) by (simp add: daemon_read_size_def)
  then have out: "read_answer (daemon_read_size k) (k = KAuth)
      (on_fs (registry_read k (daemon_read_size k)) (w\<lparr>w_reqs := Suc (w_reqs w)\<rparr>)) =
      (enc32 MC_DRV_OK @ d, w\<lparr>w_reqs := Suc (w_reqs w), w_fs := fs'\<rparr>)"
    using fs'(1) by (simp add: on_fs_def read_answer_OK overlay_def)
  show ?thesis
    unfolding client_read_eq [OF lg v n] out
    using len(1) un rd fs'(2) lg rg same_registered [of "w_fs w" fs']
    by (simp add: client_good_def client_readable_def)
qed

lemma client_read_missing:
  assumes g: "client_good w" and v: "valid_key k" and c: "registered (w_fs w) k = None" and n: "n \<noteq> 0"
  shows "\<exists>d w'. client_read k n w = Some ((MC_DRV_ERR_INVALID_DEVICE_FILE, Some d), w') \<and> client_good w' \<and>
    registered (w_fs w') = registered (w_fs w) \<and> w_tokens w' = w_tokens w \<and>
    d = take (unat n) (map (w_stack w) [0..<daemon_read_size k])"
proof -
  have lg: "link_good w" and rg: "registry_good (w_fs w)" using g by (simp_all add: client_good_def)
  obtain fs' where fs': "registry_read k (daemon_read_size k) (w_fs w) =
      ((MC_DRV_ERR_INVALID_DEVICE_FILE, []), fs')" "same_files (w_fs w) fs'"
    using registry_read_missing [OF rg v c] by blast
  have out: "read_answer (daemon_read_size k) (k = KAuth)
      (on_fs (registry_read k (daemon_read_size k)) (w\<lparr>w_reqs := Suc (w_reqs w)\<rparr>)) =
      (enc32 MC_DRV_ERR_INVALID_DEVICE_FILE @ map (w_stack w) [0..<daemon_read_size k],
       w\<lparr>w_reqs := Suc (w_reqs w), w_fs := fs'\<rparr>)"
    using fs'(1) by (simp add: on_fs_def read_answer_def overlay_def)
  have "0 < daemon_read_size k" "unat n \<noteq> 0"
    using n by (simp_all add: daemon_read_size_def container_sizes MAX_DATA_SIZE_def unat_eq_0)
  then show ?thesis
    unfolding client_read_eq [OF lg v n] out
    using fs'(2) lg rg same_registered [of "w_fs w" fs']
    by (simp add: client_good_def)
qed

lemma client_store_works:
  assumes g: "client_good w" and v: "valid_key k" and st: "registry_storable k d"
  shows "\<exists>w'. client_store k d w = Some (MC_DRV_OK, w') \<and> client_good w' \<and>
    (\<forall>k'. valid_key k' \<longrightarrow> registered (w_fs w') k' = (if k' = k then Some d else registered (w_fs w) k')) \<and>
    w_tokens w' = w_tokens w @ (case token_size k of Some n \<Rightarrow> [(d, n)] | None \<Rightarrow> [])"
proof -
  have lg: "link_good w" and rg: "registry_good (w_fs w)" using g by (simp_all add: client_good_def)
  have "length d < 2 ^ 32" using st by (simp add: registry_storable_def MAX_SO_CONT_SIZE_def)
  from client_store_eq [OF lg v this] registry_store_works [OF rg v st]
  show ?thesis by (auto simp: client_good_def split: option.splits)
qed

interpretation client: container_store valid_key registry_storable "\<lambda>n. n \<noteq> 0" client_readable
  client_good "\<lambda>w. registered (w_fs w)" client_store' client_read' MC_DRV_ERR_INVALID_DEVICE_FILE
proof
  fix w k d assume "client_good w" "valid_key k" "registry_storable k d"
  then show "\<exists>w'. client_store' k d w = (MC_DRV_OK, w') \<and> client_good w' \<and>
      (\<forall>k'. valid_key k' \<longrightarrow> registered (w_fs w') k' = (if k' = k then Some d else registered (w_fs w) k'))"
    using client_store_works [of w k d] by (auto simp: client_store'_def)
next
  fix w k d n assume "client_good w" "valid_key k" "registered (w_fs w) k = Some d" "client_readable k n d"
  then show "\<exists>w'. client_read' k n w = ((MC_DRV_OK, d), w') \<and> client_good w' \<and>
      (\<forall>k'. valid_key k' \<longrightarrow> registered (w_fs w') k' = registered (w_fs w) k')"
    using client_read_works [of w k d n] by (auto simp: client_read'_def)
next
  fix w k and n :: u32 assume "client_good w" "valid_key k" "registered (w_fs w) k = None" "n \<noteq> 0"
  then show "\<exists>x w'. client_read' k n w = ((MC_DRV_ERR_INVALID_DEVICE_FILE, x), w') \<and> client_good w' \<and>
      (\<forall>k'. valid_key k' \<longrightarrow> registered (w_fs w') k' = registered (w_fs w) k')"
    using client_read_missing [of w k n] by (auto simp: client_read'_def)
qed

subsection \<open>Properties\<close>

lemma registered_empty [simp]: "registered empty_registry k = None"
  by (simp add: registered_def empty_registry_def lookup_file_def)

definition quiet_world :: "fs \<Rightarrow> world" where
  "quiet_world fs = \<lparr>w_fs = fs, w_net = (\<lambda>_. Answered), w_reqs = 0, w_heap = (\<lambda>_. Some (\<lambda>_. 0)), w_allocs = 0,
     w_stack = (\<lambda>_. 0xAA), w_permitted = True, w_fault = False, w_loadcheck = (\<lambda>_ _. 0), w_tokens = []\<rparr>"

lemma quiet_world_good [simp]: "link_good (quiet_world fs)" "registry_good fs \<Longrightarrow> client_good (quiet_world fs)"
  "w_fs (quiet_world fs) = fs" "w_tokens (quiet_world fs) = []" "w_stack (quiet_world fs) = (\<lambda>_. 0xAA)"
  by (simp_all add: quiet_world_def link_good_def client_good_def)

text \<open>C10. A request marshalled by the client, carried over a socket that works, with the memory and the permission it needs, and parsed by the daemon is the
  daemon's registry operation with the same arguments and result: nothing is lost or changed on
  the way, for any object; and \<open>loadToken\<close> is called, once and with the object and the size of its structure, exactly when
  a token or a root container was stored. Whether that call succeeds makes no difference.\<close>

theorem client_store_transparent:
  assumes "link_good w" and "valid_key k" and "length d < 2 ^ 32"
  shows "\<exists>w'. client_store k d w = Some (fst (registry_store k d (w_fs w)), w') \<and>
    w_fs w' = snd (registry_store k d (w_fs w)) \<and>
    w_tokens w' = w_tokens w @ (case token_size k of
      Some n \<Rightarrow> if fst (registry_store k d (w_fs w)) = MC_DRV_OK then [(d, n)] else [] | None \<Rightarrow> [])"
  using client_store_eq [OF assms] by blast

lemma client_store_transparent_witness:
  "\<exists>w'. client_store (KTlt (replicate 16 1) 9) [1, 2, 3] (quiet_world empty_registry) =
     Some (fst (registry_store (KTlt (replicate 16 1) 9) [1, 2, 3] empty_registry), w') \<and> w_tokens w' = []"
  using client_store_transparent [of "quiet_world empty_registry" "KTlt (replicate 16 1) 9" "[1, 2, 3]"]
  by (auto simp: token_size_def)

text \<open>C24. A client reads back what it stored last when the object has at most 512 bytes (152 for the
  token): the size of the daemon's buffer, not the 1536 bytes a store accepts, is the limit.\<close>

theorem client_last_store:
  assumes "client_good w" and "\<forall>(k, d) \<in> set kds. valid_key k \<and> registry_storable k d"
    and "map_of (rev kds) k = Some d" and "valid_key k" and "client_readable k n d"
  shows "fst (client_read' k n (fold (\<lambda>(k, d) w. snd (client_store' k d w)) kds w)) = (MC_DRV_OK, d)"
  using assms by (rule client.read_last_store)

lemma client_last_store_witness:
  "fst (client_read' KRoot 4096 (fold (\<lambda>(k, d) w. snd (client_store' k d w))
     [(KRoot, [1]), (KRoot, replicate 512 2), (KSp 3, [4])] (quiet_world empty_registry))) =
   (MC_DRV_OK, replicate 512 2)"
  by (rule client_last_store)
    (simp_all add: registry_storable_def client_readable_def registry_readable_def MAX_SO_CONT_SIZE_def
      MAX_DATA_SIZE_def)

text \<open>Reading an object that is not stored sends the caller the content of uninitialised memory
  of the daemon, as many bytes as its buffer has.\<close>

lemma client_read_leaks:
  assumes "client_good w" and "valid_key k" and "registered (w_fs w) k = None" and "n \<noteq> 0"
  shows "\<exists>w'. client_read k n w = Some ((MC_DRV_ERR_INVALID_DEVICE_FILE,
    Some (take (unat n) (map (w_stack w) [0..<daemon_read_size k]))), w')"
  using client_read_missing [OF assms] by blast

lemma client_read_leaks_witness:
  "\<exists>w'. client_read KRoot 4096 (quiet_world empty_registry) =
     Some ((MC_DRV_ERR_INVALID_DEVICE_FILE, Some (replicate 512 0xAA)), w')"
  using client_read_leaks [of "quiet_world empty_registry" KRoot 4096]
  by (simp add: daemon_read_size_def MAX_DATA_SIZE_def map_replicate_const)

end
