(* ===== verification/RootpaRegistry.thy ===== *)
theory RootpaRegistry
  imports RegistryRpc
begin

text \<open>
  The provisioning agent's access to the registry (src/rootpa/Code/Common/registry.c): reads
  allocate a buffer of a fixed size for the container and return it with the size read. The result
  of a read is the code, the buffer (\<open>None\<close> is NULL) and the size; the rest of the buffer keeps
  what the allocation held.
\<close>

definition CONTAINER_BUFFER_SIZE :: nat where "CONTAINER_BUFFER_SIZE = 4096"

type_synonym read_result = "(u32 \<times> bytes option \<times> u32) \<times> world"

text \<open>Allocate the buffer and read into it.\<close>

definition read_container ::
    "(u32 \<Rightarrow> world \<Rightarrow> ((u32 \<times> bytes option) \<times> world) option) \<Rightarrow> world \<Rightarrow> read_result option" where
  "read_container rd w =
     (case malloc CONTAINER_BUFFER_SIZE w of
        (None, w1) \<Rightarrow> Some ((MC_DRV_ERR_NO_FREE_MEMORY, None, of_nat CONTAINER_BUFFER_SIZE), w1)
      | (Some buf, w1) \<Rightarrow> map_option (\<lambda>((ret, d), w2).
          ((ret, Some (case d of None \<Rightarrow> buf | Some b \<Rightarrow> b @ drop (length b) buf),
            case d of None \<Rightarrow> of_nat CONTAINER_BUFFER_SIZE | Some b \<Rightarrow> of_nat (length b)), w2))
          (rd (of_nat CONTAINER_BUFFER_SIZE) w1))"

definition regWriteAuthToken :: "bytes \<Rightarrow> world \<Rightarrow> (u32 \<times> world) option" where
  "regWriteAuthToken at w = mcRegistryStoreAuthToken_client at w"

definition regReadAuthToken :: "world \<Rightarrow> read_result option" where
  "regReadAuthToken w = read_container mcRegistryReadAuthToken_client w"

definition regDeleteAuthToken :: "world \<Rightarrow> (u32 \<times> world) option" where
  "regDeleteAuthToken w = mcRegistryDeleteAuthToken_client w"

definition regReadRoot :: "world \<Rightarrow> read_result option" where
  "regReadRoot w = read_container mcRegistryReadRoot_client w"

definition regWriteRoot :: "bytes \<Rightarrow> world \<Rightarrow> (u32 \<times> world) option" where
  "regWriteRoot root w = mcRegistryStoreRoot_client root w"

definition regCleanupRoot :: "world \<Rightarrow> (u32 \<times> world) option" where
  "regCleanupRoot w = mcRegistryCleanupRoot_client w"

definition regReadSp :: "u32 \<Rightarrow> world \<Rightarrow> read_result option" where
  "regReadSp spid w = read_container (mcRegistryReadSp_client spid) w"

definition regWriteSp :: "u32 \<Rightarrow> bytes \<Rightarrow> world \<Rightarrow> (u32 \<times> world) option" where
  "regWriteSp spid sp w = mcRegistryStoreSp_client spid sp w"

definition regCleanupSp :: "u32 \<Rightarrow> world \<Rightarrow> (u32 \<times> world) option" where
  "regCleanupSp spid w = mcRegistryCleanupSp_client spid w"

text \<open>The state is the third word of the attributes behind the header.\<close>

definition container_state :: "bytes option \<Rightarrow> u32 option" where
  "container_state buf = Option.bind buf (ld32 52)"

definition regGetSpState :: "u32 \<Rightarrow> world \<Rightarrow> ((u32 \<times> u32 option) \<times> world) option" where
  "regGetSpState spid w = map_option (\<lambda>((ret, spP, _), w1).
     ((ret, if ret = MC_DRV_OK then container_state spP else None), w1)) (regReadSp spid w)"

definition regReadTlt :: "bytes \<Rightarrow> u32 \<Rightarrow> world \<Rightarrow> read_result option" where
  "regReadTlt uuid spid w = read_container (mcRegistryReadTrustletCon_client uuid spid) w"

definition regWriteTlt :: "bytes \<Rightarrow> bytes \<Rightarrow> u32 \<Rightarrow> world \<Rightarrow> (u32 \<times> world) option" where
  "regWriteTlt uuid tlt spid w = mcRegistryStoreTrustletCon_client uuid spid tlt w"

definition regCleanupTlt :: "bytes \<Rightarrow> u32 \<Rightarrow> world \<Rightarrow> (u32 \<times> world) option" where
  "regCleanupTlt uuid spid w = mcRegistryCleanupTrustlet_client (Some uuid) spid w"

definition regStoreTA :: "u32 \<Rightarrow> bytes \<Rightarrow> world \<Rightarrow> (u32 \<times> world) option" where
  "regStoreTA spid taBinary w = mcRegistryStoreTABlob_client spid taBinary w"

definition regGetTaState :: "u32 \<Rightarrow> bytes \<Rightarrow> world \<Rightarrow> ((u32 \<times> u32 option) \<times> world) option" where
  "regGetTaState spid uuid w = map_option (\<lambda>((ret, taP, _), w1).
     ((ret, if ret = MC_DRV_OK then container_state taP else None), w1)) (regReadTlt uuid spid w)"

end
