(* ===== verification/Pacmtl.thy ===== *)
theory Pacmtl
  imports Codes
begin

text \<open>
  The layer of the provisioning agent that reads and writes the message buffer it shares with
  the content management trustlet (src/rootpa/Code/Common/pacmtl.c), and the handle of the
  channel (trustletchannel.h). A command buffer holds the protocol version, the command id, the
  mapped memory (address, length) and then offset/length pairs of the elements; a response
  buffer holds version, response id, a byte count and the offset/length pairs. The buffer is a
  byte list; an access outside it makes the result \<open>None\<close>. A NULL buffer is \<open>None\<close> of the
  handle's field, and log output is not modelled.
\<close>

subsection \<open>Messages and the channel handle\<close>

record common_message =
  ignoreError :: bool
  msg_ret :: u32
  intRet :: u32
  msg_id :: u32

record cmp_message =
  cmp_length :: u32
  contentP :: "bytes option"
  hdr :: common_message

record cmtstruct =
  wsmP :: "bytes option"
  mappedP :: "bytes option"
  mappedSize :: u32
  mapInfo_addr :: u32
  mapInfo_len :: u32
  session :: u32
  lasterror :: u32

definition CMP_VERSION :: u32 where "CMP_VERSION = 0x00030000"

definition RSP_ID :: "u32 \<Rightarrow> u32" where "RSP_ID cmdId = cmdId OR 0x80000000"

definition IS_RSP :: "u32 \<Rightarrow> bool" where "IS_RSP rspId \<longleftrightarrow> rspId AND 0x80000000 = 0x80000000"

subsection \<open>Writing a command\<close>

text \<open>Byte offsets of element \<open>n\<close> (counted from one) in a command and in a response.\<close>

definition cmd_element :: "u32 \<Rightarrow> nat" where "cmd_element n = 16 + 8 * (unat n - 1)"
definition rsp_element :: "u32 \<Rightarrow> nat" where "rsp_element n = 12 + 8 * (unat n - 1)"

text \<open>The element number and the offset are in-out parameters: the result is the number of the
  next element, the buffer and the offset of the next element.\<close>

definition setCmdElementInfo ::
    "u32 \<Rightarrow> bytes option \<Rightarrow> u32 \<Rightarrow> u32 \<Rightarrow> (u32 \<times> bytes option \<times> u32) option" where
  "setCmdElementInfo elementNbr wsm elementOffset elementLength =
     (case wsm of None \<Rightarrow> Some (elementNbr, None, elementOffset)
      | Some w \<Rightarrow>
        if elementNbr = 0 \<or> (elementNbr = 1 \<and> elementOffset \<noteq> 0)
        then Some (elementNbr, Some w, elementOffset)
        else (case st32 (cmd_element elementNbr) elementOffset w of None \<Rightarrow> None
          | Some w1 \<Rightarrow> (case st32 (cmd_element elementNbr + 4) elementLength w1 of None \<Rightarrow> None
            | Some w2 \<Rightarrow> Some (elementNbr + 1, Some w2, elementOffset + elementLength))))"

definition setCmdMapInfo :: "bytes \<Rightarrow> u32 \<Rightarrow> u32 \<Rightarrow> bytes option" where
  "setCmdMapInfo wsm sVirtualAddr sVirtualLen =
     (case st32 8 sVirtualAddr wsm of None \<Rightarrow> None | Some w \<Rightarrow> st32 12 sVirtualLen w)"

definition setCmdCmpVersionAndCmdId :: "bytes \<Rightarrow> u32 \<Rightarrow> bytes option" where
  "setCmdCmpVersionAndCmdId wsm commandId =
     (case st32 0 CMP_VERSION wsm of None \<Rightarrow> None | Some w \<Rightarrow> st32 4 commandId w)"

subsection \<open>Reading a response\<close>

text \<open>Returns whether the element is usable, and the in-out element number, offset and length.
  The sum \<open>offset + len\<close> is the 32-bit sum of the code.\<close>

definition getRspElementInfo ::
    "u32 \<Rightarrow> cmtstruct option \<Rightarrow> u32 \<Rightarrow> u32 \<Rightarrow> (bool \<times> u32 \<times> u32 \<times> u32) option" where
  "getRspElementInfo elementNbr handle elementOffset elementLength =
     (case handle of None \<Rightarrow> Some (False, elementNbr, elementOffset, 0)
      | Some h \<Rightarrow> (case wsmP h of
          None \<Rightarrow> Some (False, elementNbr, elementOffset, elementLength)
        | Some w \<Rightarrow>
          if elementNbr = 0 then Some (False, elementNbr, elementOffset, 0)
          else (case ld32 (rsp_element elementNbr) w of None \<Rightarrow> None
            | Some off \<Rightarrow> (case ld32 (rsp_element elementNbr + 4) w of None \<Rightarrow> None
              | Some len \<Rightarrow>
                if off + len > mappedSize h then Some (False, elementNbr, elementOffset, 0)
                else Some (True, elementNbr + 1, off, len)))))"

definition getRspCmpVersion :: "bytes \<Rightarrow> u32 option" where
  "getRspCmpVersion wsm = ld32 0 wsm"

definition getRspCmpId :: "bytes \<Rightarrow> u32 option" where
  "getRspCmpId wsm = ld32 4 wsm"

definition isValidResponse :: "bytes option \<Rightarrow> bool option" where
  "isValidResponse wsm =
     (case wsm of None \<Rightarrow> Some False
      | Some w \<Rightarrow> (case getRspCmpVersion w of None \<Rightarrow> None
        | Some v \<Rightarrow> if v \<noteq> CMP_VERSION then Some False
          else (case getRspCmpId w of None \<Rightarrow> None | Some i \<Rightarrow> Some (IS_RSP i))))"

definition isValidResponseTo :: "u32 \<Rightarrow> bytes option \<Rightarrow> bool option" where
  "isValidResponseTo commandId wsm =
     (case isValidResponse wsm of None \<Rightarrow> None
      | Some False \<Rightarrow> Some False
      | Some True \<Rightarrow> (case wsm of None \<Rightarrow> Some False
        | Some w \<Rightarrow> (case getRspCmpId w of None \<Rightarrow> None | Some i \<Rightarrow> Some (i = RSP_ID commandId))))"

definition getNeededBytesFromResponse :: "bytes option \<Rightarrow> u32 option" where
  "getNeededBytesFromResponse wsm =
     (case isValidResponse wsm of None \<Rightarrow> None
      | Some False \<Rightarrow> Some (- 1)
      | Some True \<Rightarrow> (case wsm of None \<Rightarrow> None | Some w \<Rightarrow> ld32 8 w))"

subsection \<open>Sizes of the mapped buffer\<close>

text \<open>Command id, size of the larger of command and response, sizes of the containers sent and
  received. The message sizes are those of the unions of cmpMap.h.\<close>

definition sizeTable :: "(u32 \<times> nat \<times> nat \<times> nat) list" where
  "sizeTable =
     [(MC_CMP_CMD_AUTHENTICATE, 132, 0, 0),
      (MC_CMP_CMD_BEGIN_ROOT_AUTHENTICATION, 72, SIZEOFROOTCONTAINER, 0),
      (MC_CMP_CMD_BEGIN_SOC_AUTHENTICATION, 72, SIZEOFAUTHTOKENCONTAINER, 0),
      (MC_CMP_CMD_BEGIN_SP_AUTHENTICATION, 76, SIZEOFROOTCONTAINER + SIZEOFSPCONTAINER, 0),
      (MC_CMP_CMD_GENERATE_AUTH_TOKEN, 312, 0, 0),
      (MC_CMP_CMD_GET_VERSION, 108, 0, 0),
      (MC_CMP_CMD_ROOT_CONT_LOCK_BY_ROOT, 272, 0, SIZEOFROOTCONTAINER),
      (MC_CMP_CMD_ROOT_CONT_REGISTER_ACTIVATE, 272, 0, SIZEOFROOTCONTAINER),
      (MC_CMP_CMD_ROOT_CONT_UNLOCK_BY_ROOT, 272, 0, SIZEOFROOTCONTAINER),
      (MC_CMP_CMD_ROOT_CONT_UNREGISTER, 84, 0, 0),
      (MC_CMP_CMD_SP_CONT_ACTIVATE, 448, 0, SIZEOFSPCONTAINER),
      (MC_CMP_CMD_SP_CONT_LOCK_BY_ROOT, 448, SIZEOFSPCONTAINER, SIZEOFSPCONTAINER),
      (MC_CMP_CMD_SP_CONT_LOCK_BY_SP, 448, 0, SIZEOFSPCONTAINER),
      (MC_CMP_CMD_SP_CONT_REGISTER, 672, 0, SIZEOFROOTCONTAINER + SIZEOFSPCONTAINER),
      (MC_CMP_CMD_SP_CONT_REGISTER_ACTIVATE, 672, 0, SIZEOFROOTCONTAINER + SIZEOFSPCONTAINER),
      (MC_CMP_CMD_SP_CONT_UNLOCK_BY_ROOT, 448, SIZEOFSPCONTAINER, SIZEOFSPCONTAINER),
      (MC_CMP_CMD_SP_CONT_UNLOCK_BY_SP, 448, 0, SIZEOFSPCONTAINER),
      (MC_CMP_CMD_SP_CONT_UNREGISTER, 272, 0, SIZEOFROOTCONTAINER),
      (MC_CMP_CMD_TLT_CONT_ACTIVATE, 244, SIZEOFTLTCONTAINER, SIZEOFTLTCONTAINER),
      (MC_CMP_CMD_TLT_CONT_LOCK_BY_SP, 244, SIZEOFTLTCONTAINER, SIZEOFTLTCONTAINER),
      (MC_CMP_CMD_TLT_CONT_PERSONALIZE, 2220, SIZEOFTLTCONTAINER, 0),
      (MC_CMP_CMD_TLT_CONT_REGISTER, 644, 0, SIZEOFSPCONTAINER + SIZEOFTLTCONTAINER),
      (MC_CMP_CMD_TLT_CONT_REGISTER_ACTIVATE, 644, 0, SIZEOFSPCONTAINER + SIZEOFTLTCONTAINER),
      (MC_CMP_CMD_TLT_CONT_UNLOCK_BY_SP, 244, SIZEOFTLTCONTAINER, SIZEOFTLTCONTAINER),
      (MC_CMP_CMD_TLT_CONT_UNREGISTER, 448, 0, SIZEOFSPCONTAINER),
      (MC_CMP_CMD_GET_SUID, 24, 0, 0),
      (MC_CMP_CMD_AUTHENTICATE_TERMINATE, 48, 0, 0)]"

fun getCmpSizeInfo_from ::
    "(u32 \<times> nat \<times> nat \<times> nat) list \<Rightarrow> u32 \<Rightarrow> (nat \<times> nat \<times> nat) option" where
  "getCmpSizeInfo_from [] cmdId = None"
| "getCmpSizeInfo_from ((c, sizes) # t) cmdId =
     (if cmdId = c then Some sizes else getCmpSizeInfo_from t cmdId)"

definition getCmpSizeInfo :: "u32 \<Rightarrow> (nat \<times> nat \<times> nat) option" where
  "getCmpSizeInfo cmdId = getCmpSizeInfo_from sizeTable cmdId"

definition bigger :: "u32 \<Rightarrow> u32 \<Rightarrow> u32" where
  "bigger a b = (if a > b then a else b)"

text \<open>\<open>commandId\<close> is the id read from the message and \<open>len\<close> its length.\<close>

definition getTotalMappedBufferSize :: "u32 \<Rightarrow> u32 \<Rightarrow> u32" where
  "getTotalMappedBufferSize commandId len =
     (case getCmpSizeInfo commandId of None \<Rightarrow> 0
      | Some (cmdRspSize, cmdContainerSize, rspContainerSize) \<Rightarrow>
          bigger (of_nat cmdRspSize) len
          + bigger (of_nat cmdContainerSize) (of_nat rspContainerSize))"

subsection \<open>Facts on elements\<close>

lemma setCmdElementInfo_Some_iff:
  "n \<noteq> 0 \<Longrightarrow> (n = 1 \<longrightarrow> off = 0) \<Longrightarrow>
   (\<exists>r. setCmdElementInfo n (Some w) off len = Some r) \<longleftrightarrow> cmd_element n + 8 \<le> length w"
  using st32_Some_iff [of "cmd_element n" off w]
  by (auto simp: setCmdElementInfo_def st32_def buf_write_def split: option.splits)

lemma setCmdElementInfo_written:
  assumes s: "setCmdElementInfo n (Some w) off len = Some (n', wsm', off')"
    and n: "n \<noteq> 0" "n = 1 \<longrightarrow> off = 0"
  obtains w' where "wsm' = Some w'" "n' = n + 1" "off' = off + len" "length w' = length w"
    "ld32 (cmd_element n) w' = Some off" "ld32 (cmd_element n + 4) w' = Some len"
    "\<And>i. i + 4 \<le> cmd_element n \<or> cmd_element n + 8 \<le> i \<Longrightarrow> ld32 i w' = ld32 i w"
proof -
  from s n obtain w1 w2 where w1: "st32 (cmd_element n) off w = Some w1"
    and w2: "st32 (cmd_element n + 4) len w1 = Some w2"
    and res: "wsm' = Some w2" "n' = n + 1" "off' = off + len"
    by (auto simp: setCmdElementInfo_def split: option.splits if_splits dest: sym)
  have "ld32 (cmd_element n) w2 = Some off"
    using ld32_st32_same [OF w1] ld32_st32_other [OF w2, of "cmd_element n"] by simp
  moreover have "ld32 i w2 = ld32 i w" if "i + 4 \<le> cmd_element n \<or> cmd_element n + 8 \<le> i" for i
    using that ld32_st32_other [OF w1, of i] ld32_st32_other [OF w2, of i] by auto
  ultimately show ?thesis
    using that res ld32_st32_same [OF w2] st32_length [OF w1] st32_length [OF w2] by simp
qed

lemma getRspElementInfo_True:
  assumes "getRspElementInfo n (Some h) off0 len0 = Some (True, n', off, len)"
  shows "n \<noteq> 0" "n' = n + 1" "off + len \<le> mappedSize h"
    "\<exists>w. wsmP h = Some w \<and> ld32 (rsp_element n) w = Some off \<and> ld32 (rsp_element n + 4) w = Some len"
  using assms
  by (auto simp: getRspElementInfo_def not_less split: option.splits if_splits)

lemma unat_add_no_wrap: "unat a + unat b < 2 ^ 32 \<Longrightarrow> unat (a + b :: u32) = unat a + unat b"
  by (simp add: unat_word_ariths)

lemma getRspElementInfo_inside:
  assumes "getRspElementInfo n (Some h) off0 len0 = Some (True, n', off, len)"
    and "unat off + unat len < 2 ^ 32"
  shows "unat off + unat len \<le> unat (mappedSize h)"
  using getRspElementInfo_True(3) [OF assms(1)] unat_add_no_wrap [OF assms(2)]
  by (simp add: word_le_nat_alt)

lemma getCmpSizeInfo_member: "getCmpSizeInfo c = Some s \<Longrightarrow> (c, s) \<in> set sizeTable"
proof -
  have "getCmpSizeInfo_from t c = Some s \<Longrightarrow> (c, s) \<in> set t" for t
    by (induction t c rule: getCmpSizeInfo_from.induct) (auto split: if_splits)
  then show "getCmpSizeInfo c = Some s \<Longrightarrow> (c, s) \<in> set sizeTable"
    by (simp add: getCmpSizeInfo_def)
qed

lemma sizeTable_small:
  "(c, m, cc, rc) \<in> set sizeTable \<Longrightarrow> 24 \<le> m \<and> m \<le> 2220 \<and> cc \<le> 616 \<and> rc \<le> 616"
  unfolding sizeTable_def container_sizes by auto

lemma total_size:
  assumes "getCmpSizeInfo c = Some (m, cc, rc)" and "unat len < 2 ^ 32 - 616"
  shows "unat (getTotalMappedBufferSize c len) = max m (unat len) + max cc rc"
proof -
  note small = sizeTable_small [OF getCmpSizeInfo_member [OF assms(1)]]
  have u: "unat (of_nat m :: u32) = m" "unat (of_nat cc :: u32) = cc" "unat (of_nat rc :: u32) = rc"
    using small by (simp_all add: unat_of_nat)
  have b: "unat (bigger a b) = max (unat a) (unat b)" for a b
    by (auto simp: bigger_def word_less_nat_alt max_def)
  have "max m (unat len) + max cc rc < 4294967296" using small assms(2) by (auto simp: max_def)
  then show ?thesis
    using assms small u b
    by (simp add: getTotalMappedBufferSize_def unat_word_ariths)
qed

text \<open>A response of 20 bytes whose only element claims 32 bytes at \<open>0xFFFFFFF0\<close>, and one whose
  element is the bytes 4 to 12 of the mapped buffer.\<close>

definition wrap_response :: cmtstruct where
  "wrap_response = \<lparr>wsmP = Some [0, 0, 3, 0, 0, 0, 0, 0x80, 0, 0, 0, 0,
       0xF0, 0xFF, 0xFF, 0xFF, 0x20, 0, 0, 0],
     mappedP = Some (replicate 100 0), mappedSize = 100, mapInfo_addr = 0, mapInfo_len = 0,
     session = 0, lasterror = 0\<rparr>"

definition good_response :: cmtstruct where
  "good_response = wrap_response\<lparr>wsmP := Some [0, 0, 3, 0, 0, 0, 0, 0x80, 0, 0, 0, 0,
     4, 0, 0, 0, 8, 0, 0, 0]\<rparr>"

subsection \<open>Properties\<close>

text \<open>Adding an element to a command records its offset and length at its place, hands on the
  next number and the offset just behind it, and changes nothing else in the buffer.\<close>

lemma setCmdElementInfo_records:
  assumes "setCmdElementInfo n (Some w) off len = Some (n', Some w', off')"
    and "n \<noteq> 0" and "n = 1 \<longrightarrow> off = 0"
  shows "n' = n + 1 \<and> off' = off + len \<and> length w' = length w
    \<and> ld32 (cmd_element n) w' = Some off \<and> ld32 (cmd_element n + 4) w' = Some len
    \<and> (\<forall>i. i + 4 \<le> cmd_element n \<or> cmd_element n + 8 \<le> i \<longrightarrow> ld32 i w' = ld32 i w)"
  using setCmdElementInfo_written [OF assms] by (metis option.inject)

theorem setCmdElementInfo_records_witness:
  "\<exists>w'. setCmdElementInfo 1 (Some (replicate 24 0)) 0 7 = Some (2, Some w', 7)
     \<and> ld32 16 w' = Some 0 \<and> ld32 20 w' = Some 7"
proof -
  obtain n' w' off' where s: "setCmdElementInfo 1 (Some (replicate 24 0)) 0 7 = Some (n', Some w', off')"
    by (simp add: setCmdElementInfo_def cmd_element_def st32_def buf_write_def)
  show ?thesis
    using setCmdElementInfo_records [OF s] s by (simp add: cmd_element_def)
qed

text \<open>An element the agent accepts lies inside the mapped buffer, provided its end does not
  wrap around 32 bits.\<close>

lemma getRspElementInfo_in_bounds:
  assumes "getRspElementInfo n (Some h) off0 len0 = Some (True, n', off, len)"
    and "unat off + unat len < 2 ^ 32"
    and "mappedP h = Some m" and "unat (mappedSize h) \<le> length m"
  shows "buf_read (unat off) (unat len) m \<noteq> None"
  using getRspElementInfo_inside [OF assms(1,2)] assms(3,4) by (simp add: buf_read_def)

theorem getRspElementInfo_in_bounds_witness:
  "buf_read (unat (4 :: u32)) (unat (8 :: u32)) (replicate 100 0) \<noteq> None"
  by (rule getRspElementInfo_in_bounds [of 1 good_response 0 0 2])
    (simp_all add: getRspElementInfo_def good_response_def wrap_response_def rsp_element_def
      ld32_def buf_read_def dec32_def)

text \<open>The bounds check is defeated by a wrapping sum: an element far outside a 100-byte buffer
  is accepted.\<close>

lemma getRspElementInfo_wraps:
  "getRspElementInfo 1 (Some wrap_response) 0 0 = Some (True, 2, 0xFFFFFFF0, 0x20)
   \<and> buf_read (unat (0xFFFFFFF0 :: u32)) (unat (0x20 :: u32)) (the (mappedP wrap_response)) = None"
  by (simp add: getRspElementInfo_def wrap_response_def rsp_element_def ld32_def buf_read_def
      dec32_def)

text \<open>A buffer counts as the response to a command exactly when its version is that of the
  protocol and its id is the command's id with the response bit set.\<close>

lemma isValidResponseTo_iff:
  "isValidResponseTo cmd (Some w) = Some True \<longleftrightarrow>
     ld32 0 w = Some CMP_VERSION \<and> ld32 4 w = Some (cmd OR 0x80000000)"
proof -
  have "IS_RSP (cmd OR 0x80000000)"
    unfolding IS_RSP_def by (rule bit_word_eqI) (auto simp: bit_simps)
  then show ?thesis
    by (auto simp: isValidResponseTo_def isValidResponse_def getRspCmpVersion_def getRspCmpId_def
        RSP_ID_def split: option.splits if_splits bool.splits)
qed

text \<open>The buffer allocated for a supported command holds the command followed by containers of
  the standard sizes, and the response with its containers; only a command of almost four
  gigabytes could wrap the size.\<close>

lemma getTotalMappedBufferSize_room:
  assumes "getCmpSizeInfo c = Some (m, cc, rc)" and "unat len < 2 ^ 32 - 616"
  shows "unat len + cc \<le> unat (getTotalMappedBufferSize c len)
    \<and> m + rc \<le> unat (getTotalMappedBufferSize c len)
    \<and> getTotalMappedBufferSize c len \<noteq> 0"
  using total_size [OF assms] sizeTable_small [OF getCmpSizeInfo_member [OF assms(1)]]
  by (auto simp: unat_eq_0 [symmetric] simp del: unat_eq_0)

theorem getTotalMappedBufferSize_room_witness:
  "16 + 616 \<le> unat (getTotalMappedBufferSize MC_CMP_CMD_BEGIN_SP_AUTHENTICATION 16)"
  using getTotalMappedBufferSize_room [of MC_CMP_CMD_BEGIN_SP_AUTHENTICATION 76 616 0 16]
  by (simp add: getCmpSizeInfo_def sizeTable_def container_sizes)

end
