(* ===== verification/TrustletChannel.thy ===== *)
theory TrustletChannel
  imports RootpaRegistry Pacmtl
begin

text \<open>
  The channel to the content management trustlet (src/rootpa/Code/Common/trustletchannel.c) and
  the state of the provisioning agent. The driver API and the secure world are an environment:
  the result of each driver call comes from a sequence, in the order of the calls, and what the
  secure world does to the shared buffers is a function of them. The environment counts what is
  open, so that leaks can be stated.
\<close>

subsection \<open>The driver API\<close>

record driver =
  dr_out :: "nat \<Rightarrow> u32" \<comment> \<open>result of the nth call\<close>
  dr_calls :: nat
  dr_devices :: nat
  dr_wsms :: nat
  dr_sessions :: nat
  dr_maps :: nat
  dr_memory :: "nat \<Rightarrow> u8" \<comment> \<open>what fresh shared memory holds\<close>
  dr_addr :: "nat \<Rightarrow> u32" \<comment> \<open>the secure address of the nth mapping\<close>
  dr_tee :: "nat \<Rightarrow> bytes \<Rightarrow> bytes \<Rightarrow> bytes \<times> bytes" \<comment> \<open>message and mapped buffer after the nth exchange\<close>
  dr_turns :: nat

definition drv_call :: "driver \<Rightarrow> u32 \<times> driver" where
  "drv_call d = (dr_out d (dr_calls d), d\<lparr>dr_calls := Suc (dr_calls d)\<rparr>)"

text \<open>A call that changes a count when it succeeds.\<close>

definition drv_step :: "(driver \<Rightarrow> driver) \<Rightarrow> driver \<Rightarrow> u32 \<times> driver" where
  "drv_step f d = (case drv_call d of (r, d1) \<Rightarrow> (r, if r = MC_DRV_OK then f d1 else d1))"

definition mcOpenDevice :: "driver \<Rightarrow> u32 \<times> driver" where
  "mcOpenDevice = drv_step (\<lambda>d. d\<lparr>dr_devices := Suc (dr_devices d)\<rparr>)"

definition mcCloseDevice :: "driver \<Rightarrow> u32 \<times> driver" where
  "mcCloseDevice = drv_step (\<lambda>d. d\<lparr>dr_devices := dr_devices d - 1\<rparr>)"

definition mcMallocWsm :: "nat \<Rightarrow> driver \<Rightarrow> (u32 \<times> bytes) \<times> driver" where
  "mcMallocWsm len d = (case drv_step (\<lambda>d. d\<lparr>dr_wsms := Suc (dr_wsms d)\<rparr>) d of (r, d1) \<Rightarrow>
     ((r, map (dr_memory d1) [0..<len]), d1))"

definition mcFreeWsm :: "driver \<Rightarrow> u32 \<times> driver" where
  "mcFreeWsm = drv_step (\<lambda>d. d\<lparr>dr_wsms := dr_wsms d - 1\<rparr>)"

text \<open>\<open>mcOpenSession\<close> and \<open>mcOpenTrustlet\<close>, which differ in where the trustlet comes from.\<close>

definition mcOpenSession :: "driver \<Rightarrow> (u32 \<times> u32) \<times> driver" where
  "mcOpenSession d = (case drv_step (\<lambda>d. d\<lparr>dr_sessions := Suc (dr_sessions d)\<rparr>) d of (r, d1) \<Rightarrow>
     ((r, of_nat (dr_calls d1)), d1))"

definition mcCloseSession :: "driver \<Rightarrow> u32 \<times> driver" where
  "mcCloseSession = drv_step (\<lambda>d. d\<lparr>dr_sessions := dr_sessions d - 1\<rparr>)"

definition mcMap :: "driver \<Rightarrow> (u32 \<times> u32) \<times> driver" where
  "mcMap d = (case drv_step (\<lambda>d. d\<lparr>dr_maps := Suc (dr_maps d)\<rparr>) d of (r, d1) \<Rightarrow>
     ((r, dr_addr d1 (dr_calls d)), d1))"

definition mcUnmap :: "driver \<Rightarrow> u32 \<times> driver" where
  "mcUnmap = drv_step (\<lambda>d. d\<lparr>dr_maps := dr_maps d - 1\<rparr>)"

definition mcNotify :: "driver \<Rightarrow> u32 \<times> driver" where "mcNotify = drv_call"
definition mcWaitNotification :: "driver \<Rightarrow> u32 \<times> driver" where "mcWaitNotification = drv_call"

subsection \<open>The agent\<close>

datatype ProvisioningState = CONNECTING_SERVICE_ENABLER | AUTHENTICATING_SOC | CREATING_ROOT_CONTAINER
  | AUTHENTICATING_ROOT | CREATING_SP_CONTAINER | FINISHED_PROVISIONING | ERROR_STATE
  | UNREGISTERING_ROOT_CONTAINER | PROVISIONING_STATE_INSTALL_TRUSTLET | PROVISIONING_STATE_THREAD_EXITING

text \<open>The file-level variables \<open>spid_\<close>, \<open>tltUuid_\<close> and \<open>callbackP_\<close> of pacmp3.c and \<open>handle_\<close> of
  contentmanager.c with the environment. Calls of the
  callback are recorded with their state and error code.\<close>

record agent =
  ag_world :: world
  ag_driver :: driver
  static_spid :: u32
  static_tltUuid :: bytes
  callbackP :: bool \<comment> \<open>a callback is set\<close>
  ag_events :: "(ProvisioningState \<times> u32) list"
  static_handle :: "cmtstruct option"

definition on_world :: "(world \<Rightarrow> ('a \<times> world) option) \<Rightarrow> agent \<Rightarrow> ('a \<times> agent) option" where
  "on_world f ag = map_option (\<lambda>(r, w). (r, ag\<lparr>ag_world := w\<rparr>)) (f (ag_world ag))"

definition on_driver :: "(driver \<Rightarrow> 'a \<times> driver) \<Rightarrow> agent \<Rightarrow> 'a \<times> agent" where
  "on_driver f ag = (case f (ag_driver ag) of (r, d) \<Rightarrow> (r, ag\<lparr>ag_driver := d\<rparr>))"

definition ag_malloc :: "nat \<Rightarrow> agent \<Rightarrow> bytes option \<times> agent" where
  "ag_malloc n ag = (case malloc n (ag_world ag) of (b, w) \<Rightarrow> (b, ag\<lparr>ag_world := w\<rparr>))"

definition callback :: "ProvisioningState \<Rightarrow> u32 \<Rightarrow> agent \<Rightarrow> agent" where
  "callback st err ag = (if callbackP ag then ag\<lparr>ag_events := ag_events ag @ [(st, err)]\<rparr> else ag)"

subsection \<open>The channel\<close>

definition sizeof_CMTSTRUCT :: nat where "sizeof_CMTSTRUCT = 48"

definition empty_handle :: cmtstruct where
  "empty_handle = \<lparr>wsmP = None, mappedP = None, mappedSize = 0, mapInfo_addr = 0, mapInfo_len = 0,
     session = 0, lasterror = 0\<rparr>"

definition taChannelOpen :: "nat \<Rightarrow> agent \<Rightarrow> (u32 \<times> cmtstruct option) \<times> agent" where
  "taChannelOpen sizeOfWsmBuffer ag =
     (case ag_malloc sizeof_CMTSTRUCT ag of (None, ag0) \<Rightarrow> ((MC_DRV_ERR_NO_FREE_MEMORY, None), ag0)
      | (Some _, ag0) \<Rightarrow>
     (case on_driver mcOpenDevice ag0 of (r1, ag1) \<Rightarrow>
        if r1 \<noteq> MC_DRV_OK then ((r1, None), ag1)
        else (case on_driver (mcMallocWsm sizeOfWsmBuffer) ag1 of ((r2, wsm), ag2) \<Rightarrow>
          if r2 \<noteq> MC_DRV_OK then ((r2, None), snd (on_driver mcCloseDevice ag2))
          else (case on_driver mcOpenSession ag2 of ((r3, ses), ag3) \<Rightarrow>
            if r3 \<noteq> MC_DRV_OK
            then ((r3, None), snd (on_driver mcCloseDevice (snd (on_driver mcFreeWsm ag3))))
            else ((r3, Some (empty_handle\<lparr>wsmP := Some wsm, session := ses\<rparr>)), ag3)))))"

definition tltChannelOpen :: "nat \<Rightarrow> agent \<Rightarrow> (u32 \<times> cmtstruct option) \<times> agent" where
  "tltChannelOpen sizeOfWsmBuffer ag = taChannelOpen sizeOfWsmBuffer ag"

definition tltChannelClose :: "cmtstruct option \<Rightarrow> agent \<Rightarrow> agent" where
  "tltChannelClose handle ag =
     (case handle of None \<Rightarrow> ag
      | Some h \<Rightarrow>
        let ag1 = snd (on_driver mcCloseSession ag);
            ag2 = (if wsmP h \<noteq> None then snd (on_driver mcFreeWsm ag1) else ag1)
        in snd (on_driver mcCloseDevice ag2))"

text \<open>The secure world writes into the buffers, it cannot resize them.\<close>

definition in_place :: "bytes \<Rightarrow> bytes \<Rightarrow> bytes" where
  "in_place old b = (if length b = length old then b else old)"

text \<open>Notify the trustlet and wait for it. When the wait ends well the secure world has taken its
  turn on both buffers.\<close>

definition tltChannelTransmit :: "cmtstruct option \<Rightarrow> agent \<Rightarrow> bool \<times> cmtstruct option \<times> agent" where
  "tltChannelTransmit handle ag =
     (case handle of None \<Rightarrow> (False, None, ag)
      | Some h \<Rightarrow>
     (case on_driver mcNotify ag of (r1, ag1) \<Rightarrow>
        if r1 \<noteq> MC_DRV_OK then (False, Some (h\<lparr>lasterror := r1\<rparr>), ag1)
        else (case on_driver mcWaitNotification ag1 of (r2, ag2) \<Rightarrow>
          if r2 \<noteq> MC_DRV_OK then (False, Some (h\<lparr>lasterror := r2\<rparr>), ag2)
          else let d = ag_driver ag2;
                   (w, m) = dr_tee d (dr_turns d) (the (wsmP h)) (the (mappedP h))
               in (True, Some (h\<lparr>wsmP := Some (in_place (the (wsmP h)) w),
                                  mappedP := Some (in_place (the (mappedP h)) m), lasterror := r2\<rparr>),
                   ag2\<lparr>ag_driver := d\<lparr>dr_turns := Suc (dr_turns d)\<rparr>\<rparr>))))"

end
