(* ===== verification/Pacmp3.thy ===== *)
theory Pacmp3
  imports TrustletChannel
begin

text \<open>
  Preparing content management commands and handling their responses
  (src/rootpa/Code/Common/pacmp3.c): which containers accompany a command, and which containers of
  a response go to the registry, in which order and with which recovery. A result \<open>None\<close> is an
  access outside a buffer or through a pointer that is not valid any more.
\<close>

definition setCallbackP :: "bool \<Rightarrow> agent \<Rightarrow> agent" where
  "setCallbackP cb ag = ag\<lparr>callbackP := cb\<rparr>"

definition minus_one :: u32 where "minus_one = - 1"

text \<open>A factory reset is assumed when both reads say that the file is missing.\<close>

definition factoryResetAssumed :: "agent \<Rightarrow> (bool \<times> agent) option" where
  "factoryResetAssumed ag =
     Option.bind (on_world regReadAuthToken ag) (\<lambda>((result1, _), ag1).
       if result1 = MC_DRV_OK then Some (False, ag1)
       else Option.bind (on_world regReadRoot ag1) (\<lambda>((result2, _), ag2).
         if result2 = MC_DRV_OK then Some (False, ag2)
         else Some (result1 = MC_DRV_ERR_INVALID_DEVICE_FILE \<and> result2 = MC_DRV_ERR_INVALID_DEVICE_FILE, ag2)))"

definition sizeOfCmp :: nat where "sizeOfCmp = 40"

text \<open>\<open>getCmpCommandId\<close>, the word at offset 0 of a command header.\<close>

definition getCmpCommandId :: "bytes option \<Rightarrow> u32 option" where
  "getCmpCommandId command = (case command of None \<Rightarrow> Some 0xFFFFFFFF | Some c \<Rightarrow> ld32 0 c)"

definition getCmpReturnCode :: "bytes option \<Rightarrow> u32 option" where
  "getCmpReturnCode cmpMsg = Option.bind cmpMsg (ld32 4)"

definition allocateResponseBuffer ::
    "cmp_message \<Rightarrow> cmtstruct \<Rightarrow> agent \<Rightarrow> (u32 \<times> cmp_message \<times> agent) option" where
  "allocateResponseBuffer response handle ag =
     map_option (\<lambda>(ok, _, _, len).
       (let rsp = response\<lparr>cmp_length := len\<rparr> in
        if \<not> ok then (ROOTPA_ERROR_INTERNAL, rsp, ag)
        else (case ag_malloc (unat len) ag of
            (None, ag1) \<Rightarrow> (ROOTPA_ERROR_OUT_OF_MEMORY, rsp\<lparr>contentP := None\<rparr>, ag1)
          | (Some b, ag1) \<Rightarrow> (ROOTPA_OK, rsp\<lparr>contentP := Some b\<rparr>, ag1))))
       (getRspElementInfo 1 (Some handle) 0 (cmp_length response))"

subsection \<open>Building a command\<close>

text \<open>What \<open>prepareCommand\<close> works on: the number and offset of the next element, the handle,
  whether \<open>outCommandP\<close>, which it took from the handle at the start, still points to the mapped
  buffer, the two results and the agent.\<close>

record prep =
  pr_index :: u32
  pr_offset :: u32
  pr_handle :: cmtstruct
  pr_moved :: bool
  pr_ret :: u32
  pr_mcRet :: u32
  pr_agent :: agent

text \<open>\<open>realloc\<close> keeps the content; the size recorded in the handle is not updated.\<close>

definition ensureMappedBufferSize :: "u32 \<Rightarrow> prep \<Rightarrow> bool \<times> prep" where
  "ensureMappedBufferSize neededSize p =
     (let h = pr_handle p in
      if neededSize > mappedSize h then
        (case ag_malloc (unat neededSize) (pr_agent p) of
           (None, ag1) \<Rightarrow> (False, p\<lparr>pr_agent := ag1\<rparr>)
         | (Some b, ag1) \<Rightarrow>
             let old = take (unat neededSize) (case mappedP h of None \<Rightarrow> [] | Some m \<Rightarrow> m)
             in (True, p\<lparr>pr_handle := h\<lparr>mappedP := Some (old @ drop (length old) b)\<rparr>,
                         pr_moved := True, pr_agent := ag1\<rparr>))
      else (True, p))"

text \<open>Copy a container behind the command and enter it in the message.\<close>

definition place_container :: "bytes \<Rightarrow> u32 \<Rightarrow> prep \<Rightarrow> prep option" where
  "place_container so contSize p =
     (case ensureMappedBufferSize (pr_offset p + contSize) p of
        (False, p1) \<Rightarrow> Some (p1\<lparr>pr_ret := ROOTPA_ERROR_OUT_OF_MEMORY\<rparr>)
      | (True, p1) \<Rightarrow>
          Option.bind (mappedP (pr_handle p1)) (\<lambda>m.
          Option.bind (buf_read 0 (unat contSize) so) (\<lambda>d.
          Option.bind (buf_write (unat (pr_offset p1)) d m) (\<lambda>m1.
          map_option (\<lambda>(i, wsm, off).
            p1\<lparr>pr_handle := (pr_handle p1)\<lparr>mappedP := Some m1, wsmP := wsm\<rparr>,
               pr_index := i, pr_offset := off, pr_ret := ROOTPA_OK\<rparr>)
            (setCmdElementInfo (pr_index p1) (wsmP (pr_handle p1)) (pr_offset p1) contSize)))))"

text \<open>The four functions that add a container differ in what they read.\<close>

definition add_container :: "(world \<Rightarrow> read_result option) \<Rightarrow> prep \<Rightarrow> prep option" where
  "add_container rd p =
     Option.bind (on_world rd (pr_agent p)) (\<lambda>((mcRet, cont, contSize), ag1).
       let p1 = p\<lparr>pr_mcRet := mcRet, pr_agent := ag1\<rparr> in
       if mcRet = MC_DRV_OK then Option.bind cont (\<lambda>so. place_container so contSize p1)
       else if mcRet = MC_DRV_ERR_INVALID_DEVICE_FILE
       then Some (p1\<lparr>pr_ret := ROOTPA_ERROR_REGISTRY_OBJECT_NOT_AVAILABLE\<rparr>)
       else Some (p1\<lparr>pr_ret := ROOTPA_ERROR_REGISTRY\<rparr>))"

definition addAuthTokenContainer :: "prep \<Rightarrow> prep option" where
  "addAuthTokenContainer p = add_container regReadAuthToken p"

definition addRootContainer :: "prep \<Rightarrow> prep option" where
  "addRootContainer p = add_container regReadRoot p"

definition addSpContainer :: "u32 \<Rightarrow> prep \<Rightarrow> prep option" where
  "addSpContainer spid p = add_container (regReadSp spid) p"

definition addTltContainer :: "bytes \<Rightarrow> u32 \<Rightarrow> prep \<Rightarrow> prep option" where
  "addTltContainer uuid spid p = add_container (regReadTlt uuid spid) p"

text \<open>The fields of the command read through \<open>outCommandP\<close>: the service provider behind the
  12 bytes of the header and the UUID behind it.\<close>

definition out_command :: "prep \<Rightarrow> bytes option" where
  "out_command p = (if pr_moved p then None else mappedP (pr_handle p))"

definition cmd_spid :: "prep \<Rightarrow> u32 option" where
  "cmd_spid p = Option.bind (out_command p) (ld32 12)"

definition cmd_uuid :: "prep \<Rightarrow> bytes option" where
  "cmd_uuid p = Option.bind (out_command p) (buf_read 16 16)"

definition take_spid :: "prep \<Rightarrow> prep option" where
  "take_spid p = map_option (\<lambda>s. p\<lparr>pr_agent := (pr_agent p)\<lparr>static_spid := s\<rparr>\<rparr>) (cmd_spid p)"

definition take_uuid :: "prep \<Rightarrow> prep option" where
  "take_uuid p = map_option (\<lambda>u. p\<lparr>pr_agent := (pr_agent p)\<lparr>static_tltUuid := u\<rparr>\<rparr>) (cmd_uuid p)"

definition take_spid_uuid :: "prep \<Rightarrow> prep option" where
  "take_spid_uuid p = Option.bind (take_spid p) take_uuid"

definition tell :: "ProvisioningState \<Rightarrow> prep \<Rightarrow> prep" where
  "tell st p = p\<lparr>pr_agent := callback st ROOTPA_OK (pr_agent p)\<rparr>"

text \<open>The switch of \<open>prepareCommand\<close>.\<close>

definition prepare_switch :: "u32 \<Rightarrow> prep \<Rightarrow> prep option" where
  "prepare_switch commandId p =
     (if commandId = MC_CMP_CMD_BEGIN_SOC_AUTHENTICATION then addAuthTokenContainer (tell AUTHENTICATING_SOC p)
      else if commandId = MC_CMP_CMD_BEGIN_ROOT_AUTHENTICATION then addRootContainer (tell AUTHENTICATING_ROOT p)
      else if commandId = MC_CMP_CMD_BEGIN_SP_AUTHENTICATION then
        Option.bind (addRootContainer p) (\<lambda>p1.
          if pr_ret p1 = ROOTPA_OK then Option.bind (cmd_spid p1) (\<lambda>spid. addSpContainer spid p1) else Some p1)
      else if commandId = MC_CMP_CMD_ROOT_CONT_REGISTER_ACTIVATE then Some (tell CREATING_ROOT_CONTAINER p)
      else if commandId = MC_CMP_CMD_ROOT_CONT_UNREGISTER then Some (tell UNREGISTERING_ROOT_CONTAINER p)
      else if commandId \<in> {MC_CMP_CMD_SP_CONT_ACTIVATE, MC_CMP_CMD_SP_CONT_LOCK_BY_SP,
          MC_CMP_CMD_SP_CONT_UNLOCK_BY_SP, MC_CMP_CMD_SP_CONT_UNREGISTER} then take_spid p
      else if commandId \<in> {MC_CMP_CMD_SP_CONT_LOCK_BY_ROOT, MC_CMP_CMD_SP_CONT_UNLOCK_BY_ROOT} then
        Option.bind (take_spid p) (\<lambda>p1. addSpContainer (static_spid (pr_agent p1)) p1)
      else if commandId \<in> {MC_CMP_CMD_SP_CONT_REGISTER, MC_CMP_CMD_SP_CONT_REGISTER_ACTIVATE} then
        take_spid (tell CREATING_SP_CONTAINER p)
      else if commandId \<in> {MC_CMP_CMD_TLT_CONT_ACTIVATE, MC_CMP_CMD_TLT_CONT_LOCK_BY_SP,
          MC_CMP_CMD_TLT_CONT_UNLOCK_BY_SP} then
        Option.bind (take_spid_uuid p) (\<lambda>p1.
          addTltContainer (static_tltUuid (pr_agent p1)) (static_spid (pr_agent p1)) p1)
      else if commandId = MC_CMP_CMD_TLT_CONT_PERSONALIZE then
        Option.bind (cmd_uuid p) (\<lambda>u. Option.bind (cmd_spid p) (\<lambda>s. addTltContainer u s p))
      else if commandId \<in> {MC_CMP_CMD_TLT_CONT_REGISTER, MC_CMP_CMD_TLT_CONT_REGISTER_ACTIVATE,
          MC_CMP_CMD_TLT_CONT_UNREGISTER} then take_spid_uuid p
      else Some p)"

text \<open>The part before the switch: clear the message, enter map, version, id and command, and copy
  the command into the mapped buffer.\<close>

definition prepare_message :: "u32 \<Rightarrow> cmp_message \<Rightarrow> cmtstruct \<Rightarrow> agent \<Rightarrow> (bool \<times> prep) option" where
  "prepare_message commandId inCommand handle ag =
     Option.bind (wsmP handle) (\<lambda>wsm.
     Option.bind (buf_write 0 (replicate sizeOfCmp 0) wsm) (\<lambda>w0.
     Option.bind (setCmdMapInfo w0 (mapInfo_addr handle) (mapInfo_len handle)) (\<lambda>w1.
     Option.bind (setCmdCmpVersionAndCmdId w1 commandId) (\<lambda>w2.
     Option.bind (setCmdElementInfo 1 (Some w2) 0 (cmp_length inCommand)) (\<lambda>(i, w3, off).
     let p = \<lparr>pr_index = i, pr_offset = off, pr_handle = handle\<lparr>wsmP := w3\<rparr>, pr_moved = False,
              pr_ret = ROOTPA_OK, pr_mcRet = MC_DRV_OK, pr_agent = ag\<rparr> in
     (case ensureMappedBufferSize (cmp_length inCommand) p of
        (False, p1) \<Rightarrow> Some (False, p1)
      | (True, p1) \<Rightarrow>
          Option.bind (Option.bind (contentP inCommand) (buf_read 0 (unat (cmp_length inCommand)))) (\<lambda>cmd.
          Option.bind (mappedP (pr_handle p1)) (\<lambda>m.
          map_option (\<lambda>m1. (True, p1\<lparr>pr_handle := (pr_handle p1)\<lparr>mappedP := Some m1\<rparr>\<rparr>))
            (buf_write 0 cmd m)))))))))"

text \<open>The result, the handle, the response with its header set, and the agent.\<close>

definition prepareCommand ::
    "u32 \<Rightarrow> cmp_message \<Rightarrow> cmtstruct \<Rightarrow> cmp_message \<Rightarrow> agent \<Rightarrow>
     (u32 \<times> cmtstruct \<times> cmp_message \<times> agent) option" where
  "prepareCommand commandId inCommand handle response ag =
     Option.bind (prepare_message commandId inCommand handle ag) (\<lambda>(ok, p).
       if \<not> ok then Some (ROOTPA_ERROR_OUT_OF_MEMORY, pr_handle p,
           response\<lparr>hdr := (hdr response)\<lparr>msg_ret := ROOTPA_ERROR_OUT_OF_MEMORY\<rparr>\<rparr>, pr_agent p)
       else map_option (\<lambda>p1. (pr_ret p1, pr_handle p1,
           response\<lparr>hdr := (hdr response)\<lparr>msg_ret := pr_ret p1, intRet := pr_mcRet p1\<rparr>\<rparr>, pr_agent p1))
         (prepare_switch commandId p))"

subsection \<open>Storing the containers of a response\<close>

type_synonym stored = "(u32 \<times> agent) option"

text \<open>The bytes an element points to.\<close>

definition rsp_data :: "cmtstruct \<Rightarrow> u32 \<Rightarrow> u32 \<Rightarrow> bytes option" where
  "rsp_data h off len = Option.bind (mappedP h) (buf_read (unat off) (unat len))"

text \<open>Write the next element of the response to the registry; \<open>-1\<close> when it has none.\<close>

definition store_element ::
    "(bytes \<Rightarrow> world \<Rightarrow> (u32 \<times> world) option) \<Rightarrow> cmtstruct \<Rightarrow> u32 \<Rightarrow> u32 \<Rightarrow> agent \<Rightarrow> stored" where
  "store_element write h elementIndex offset ag =
     Option.bind (getRspElementInfo elementIndex (Some h) offset 0) (\<lambda>(ok, _, off, len).
       if ok then Option.bind (rsp_data h off len) (\<lambda>d. on_world (write d) ag)
       else Some (minus_one, ag))"

text \<open>After the root container is stored the token goes away; when it cannot be deleted it is
  written again and the root container is removed.\<close>

definition retire_auth_token :: "agent \<Rightarrow> stored" where
  "retire_auth_token ag =
     Option.bind (on_world regReadAuthToken ag) (\<lambda>((_, authTokenP, authTokenSize), ag1).
     Option.bind (on_world regDeleteAuthToken ag1) (\<lambda>(mcRet, ag2).
       if mcRet = MC_DRV_OK then Some (mcRet, ag2)
       else (case authTokenP of None \<Rightarrow> Some (mcRet, ag2)
         | Some at \<Rightarrow> Option.bind (buf_read 0 (unat authTokenSize) at) (\<lambda>d.
             Option.bind (on_world (regWriteAuthToken d) ag2) (\<lambda>(mcRet2, ag3).
               if mcRet2 = MC_DRV_OK
               then map_option (\<lambda>(_, ag4). (mcRet2, ag4)) (on_world regCleanupRoot ag3)
               else Some (mcRet2, ag3))))))"

definition store_registered_root :: "cmtstruct \<Rightarrow> u32 \<Rightarrow> u32 \<Rightarrow> agent \<Rightarrow> stored" where
  "store_registered_root h elementIndex offset ag =
     Option.bind (store_element regWriteRoot h elementIndex offset ag) (\<lambda>(mcRet, ag1).
       if mcRet = MC_DRV_OK then retire_auth_token ag1 else Some (mcRet, ag1))"

text \<open>Two containers, the outer one first in the buffer and written last.\<close>

definition store_two ::
    "(bytes \<Rightarrow> world \<Rightarrow> (u32 \<times> world) option) \<Rightarrow> (bytes \<Rightarrow> agent \<Rightarrow> stored) \<Rightarrow>
     cmtstruct \<Rightarrow> u32 \<Rightarrow> u32 \<Rightarrow> agent \<Rightarrow> stored" where
  "store_two inner outer h elementIndex offset ag =
     Option.bind (getRspElementInfo elementIndex (Some h) offset 0) (\<lambda>(ok, i, off1, outerLength).
       if \<not> ok then Some (minus_one, ag)
       else Option.bind (store_element inner h i off1 ag) (\<lambda>(mcRet, ag1).
         if mcRet = MC_DRV_OK then Option.bind (rsp_data h off1 outerLength) (\<lambda>d. outer d ag1)
         else Some (mcRet, ag1)))"

definition store_registered_sp :: "cmtstruct \<Rightarrow> u32 \<Rightarrow> u32 \<Rightarrow> agent \<Rightarrow> stored" where
  "store_registered_sp h elementIndex offset ag =
     store_two (regWriteSp (static_spid ag)) (\<lambda>root. on_world (regWriteRoot root)) h elementIndex offset ag"

definition store_registered_tlt :: "cmtstruct \<Rightarrow> u32 \<Rightarrow> u32 \<Rightarrow> agent \<Rightarrow> stored" where
  "store_registered_tlt h elementIndex offset ag =
     store_two (\<lambda>tlt. regWriteTlt (static_tltUuid ag) tlt (static_spid ag))
       (\<lambda>sp ag1. Option.bind (on_world (regWriteSp (static_spid ag) sp) ag1) (\<lambda>(mcRet, ag2).
          if mcRet \<noteq> MC_DRV_OK
          then map_option (\<lambda>(_, ag3). (mcRet, ag3))
                 (on_world (regCleanupTlt (static_tltUuid ag) (static_spid ag)) ag2)
          else Some (mcRet, ag2)))
       h elementIndex offset ag"

text \<open>Unregistering cleans up first and then stores the outer container, whatever the cleanup
  returned.\<close>

definition store_unregistered ::
    "(world \<Rightarrow> (u32 \<times> world) option) \<Rightarrow> (bytes \<Rightarrow> world \<Rightarrow> (u32 \<times> world) option) \<Rightarrow>
     cmtstruct \<Rightarrow> u32 \<Rightarrow> u32 \<Rightarrow> agent \<Rightarrow> stored" where
  "store_unregistered cleanup write h elementIndex offset ag =
     Option.bind (on_world cleanup ag) (\<lambda>(_, ag1). store_element write h elementIndex offset ag1)"

definition storeContainers :: "u32 \<Rightarrow> cmtstruct \<Rightarrow> u32 \<Rightarrow> u32 \<Rightarrow> agent \<Rightarrow> stored" where
  "storeContainers commandId h elementIndex offset ag =
     (if commandId = MC_CMP_CMD_GENERATE_AUTH_TOKEN then
        store_element regWriteAuthToken h elementIndex offset ag
      else if commandId = MC_CMP_CMD_ROOT_CONT_REGISTER_ACTIVATE then
        store_registered_root h elementIndex offset ag
      else if commandId \<in> {MC_CMP_CMD_ROOT_CONT_LOCK_BY_ROOT, MC_CMP_CMD_ROOT_CONT_UNLOCK_BY_ROOT} then
        store_element regWriteRoot h elementIndex offset ag
      else if commandId = MC_CMP_CMD_ROOT_CONT_UNREGISTER then on_world regCleanupRoot ag
      else if commandId \<in> {MC_CMP_CMD_SP_CONT_UNLOCK_BY_ROOT, MC_CMP_CMD_SP_CONT_UNLOCK_BY_SP,
          MC_CMP_CMD_SP_CONT_ACTIVATE, MC_CMP_CMD_SP_CONT_LOCK_BY_ROOT, MC_CMP_CMD_SP_CONT_LOCK_BY_SP} then
        store_element (regWriteSp (static_spid ag)) h elementIndex offset ag
      else if commandId \<in> {MC_CMP_CMD_SP_CONT_REGISTER, MC_CMP_CMD_SP_CONT_REGISTER_ACTIVATE} then
        store_registered_sp h elementIndex offset ag
      else if commandId = MC_CMP_CMD_SP_CONT_UNREGISTER then
        store_unregistered (regCleanupSp (static_spid ag)) regWriteRoot h elementIndex offset ag
      else if commandId \<in> {MC_CMP_CMD_TLT_CONT_REGISTER, MC_CMP_CMD_TLT_CONT_REGISTER_ACTIVATE} then
        store_registered_tlt h elementIndex offset ag
      else if commandId \<in> {MC_CMP_CMD_TLT_CONT_ACTIVATE, MC_CMP_CMD_TLT_CONT_LOCK_BY_SP,
          MC_CMP_CMD_TLT_CONT_UNLOCK_BY_SP} then
        store_element (\<lambda>d. regWriteTlt (static_tltUuid ag) d (static_spid ag)) h elementIndex offset ag
      else if commandId = MC_CMP_CMD_TLT_CONT_UNREGISTER then
        store_unregistered (regCleanupTlt (static_tltUuid ag) (static_spid ag))
          (regWriteSp (static_spid ag)) h elementIndex offset ag
      else Some (MC_DRV_OK, ag))"

subsection \<open>Handling a response\<close>

definition with_ret :: "u32 \<Rightarrow> cmp_message \<Rightarrow> cmp_message" where
  "with_ret r m = m\<lparr>hdr := (hdr m)\<lparr>msg_ret := r\<rparr>\<rparr>"

definition with_intRet :: "u32 \<Rightarrow> cmp_message \<Rightarrow> cmp_message" where
  "with_intRet r m = m\<lparr>hdr := (hdr m)\<lparr>intRet := r\<rparr>\<rparr>"

text \<open>The outcome of storing, entered in the response.\<close>

definition registry_outcome :: "u32 \<Rightarrow> cmp_message \<Rightarrow> u32 \<times> cmp_message" where
  "registry_outcome mcRet rsp =
     (if mcRet = MC_DRV_OK then (ROOTPA_OK, rsp)
      else let ret = (if mcRet = minus_one then ROOTPA_ERROR_INTERNAL else ROOTPA_ERROR_REGISTRY);
               rsp1 = (if intRet (hdr rsp) = 0 then with_intRet mcRet rsp else rsp)
           in (ret, with_ret ret rsp1))"

definition handleResponse ::
    "u32 \<Rightarrow> cmp_message \<Rightarrow> cmtstruct \<Rightarrow> agent \<Rightarrow> (u32 \<times> cmp_message \<times> agent) option" where
  "handleResponse commandId rsp h ag =
     Option.bind (isValidResponseTo commandId (wsmP h)) (\<lambda>valid.
     if \<not> valid then Some (ROOTPA_ERROR_COMMAND_EXECUTION, with_ret ROOTPA_ERROR_COMMAND_EXECUTION rsp, ag)
     else Option.bind (allocateResponseBuffer rsp h ag) (\<lambda>(ret, rsp1, ag1).
     if ret \<noteq> ROOTPA_OK then Some (ret, with_ret ret rsp1, ag1)
     else Option.bind (getRspElementInfo 1 (Some h) 0 0) (\<lambda>(ok, i, off, len).
     if \<not> ok then Some (ROOTPA_ERROR_INTERNAL, rsp1, ag1)
     else Option.bind (rsp_data h off len) (\<lambda>d.
     Option.bind (getCmpReturnCode (mappedP h)) (\<lambda>code.
       let rsp2 = rsp1\<lparr>contentP := Some d\<rparr> in
       if code \<noteq> CMTL_SUCCESSFUL then Some (ROOTPA_ERROR_COMMAND_EXECUTION, with_intRet code rsp2, ag1)
       else map_option (\<lambda>(mcRet, ag2). (case registry_outcome mcRet rsp2 of (ret, rsp3) \<Rightarrow> (ret, rsp3, ag2)))
              (storeContainers commandId h i off ag1))))))"

subsection \<open>The registry always answers\<close>

lemma write_switch_total:
  "c \<noteq> MC_DRV_REG_WRITE_SO_DATA \<Longrightarrow> c \<noteq> MC_DRV_REG_STORE_TA_BLOB \<Longrightarrow> write_switch c n inp w \<noteq> None"
  by (simp add: write_switch_def Let_def split: option.split)

lemma registry_command_total:
  "c \<noteq> MC_DRV_REG_WRITE_SO_DATA \<Longrightarrow> c \<noteq> MC_DRV_REG_STORE_TA_BLOB \<Longrightarrow>
   registry_command (enc32 c @ args) w \<noteq> None"
  using write_switch_total [of c]
  by (auto simp: registry_command_def processRegistryWriteData_def Let_def split: option.split prod.split
      simp del: split_paired_Ex)

lemma request_total:
  "c \<noteq> MC_DRV_REG_WRITE_SO_DATA \<Longrightarrow> c \<noteq> MC_DRV_REG_STORE_TA_BLOB \<Longrightarrow>
   request (enc32 c @ args) w \<noteq> None"
  using registry_command_total [of c args] by (auto simp: request_def Let_def split: net_out.split simp del: split_paired_Ex)

lemma store_request_total:
  "c \<noteq> MC_DRV_REG_WRITE_SO_DATA \<Longrightarrow> c \<noteq> MC_DRV_REG_STORE_TA_BLOB \<Longrightarrow>
   store_request c args so w \<noteq> None"
  using request_total [of c]
  by (auto simp: store_request_def writeBlobData_def split: option.split prod.split
      simp del: split_paired_Ex)

lemma writeBlobData_total:
  "c \<noteq> MC_DRV_REG_WRITE_SO_DATA \<Longrightarrow> c \<noteq> MC_DRV_REG_STORE_TA_BLOB \<Longrightarrow>
   writeBlobData (enc32 c @ args) w \<noteq> None \<and> writeBlobData (enc32 c) w \<noteq> None"
  using request_total [of c args w] request_total [of c "[]" w] by (simp add: writeBlobData_def)

lemma reg_writes_total:
  "regWriteAuthToken d w \<noteq> None" "regWriteRoot d w \<noteq> None" "regWriteSp s d w \<noteq> None"
  "regWriteTlt u d s w \<noteq> None" "regCleanupRoot w \<noteq> None" "regCleanupSp s w \<noteq> None"
  "regCleanupTlt u s w \<noteq> None" "regDeleteAuthToken w \<noteq> None"
  by (simp_all add: regWriteAuthToken_def regWriteRoot_def regWriteSp_def regWriteTlt_def
      regCleanupRoot_def regCleanupSp_def regCleanupTlt_def regDeleteAuthToken_def
      mcRegistryStoreAuthToken_client_def mcRegistryStoreRoot_client_def mcRegistryStoreSp_client_def
      mcRegistryStoreTrustletCon_client_def mcRegistryCleanupRoot_client_def
      mcRegistryCleanupSp_client_def mcRegistryCleanupTrustlet_client_def
      mcRegistryDeleteAuthToken_client_def store_request_total [simplified]
      writeBlobData_total [simplified])

text \<open>What a read of a container can give: a buffer of 4096 bytes and, when it succeeds, a size of
  at most 512.\<close>

definition read_ok :: "(world \<Rightarrow> read_result option) \<Rightarrow> bool" where
  "read_ok rd \<longleftrightarrow> (\<forall>w. \<exists>ret buf n w'. rd w = Some ((ret, buf, n), w') \<and>
     (buf = None \<longrightarrow> ret \<noteq> MC_DRV_OK) \<and>
     (\<forall>b. buf = Some b \<longrightarrow> length b = CONTAINER_BUFFER_SIZE \<and> unat n \<le> CONTAINER_BUFFER_SIZE) \<and>
     (ret = MC_DRV_OK \<longrightarrow> unat n \<le> MAX_DATA_SIZE))"

lemma read_so_length: "length (snd (fst (read_so sk p n fs))) \<le> n"
  by (cases sk) (auto simp: read_so_def fread_def fseek_def case_prod_unfold split: option.split bool.split)

lemma read_token_length: "length (snd (fst (read_token p fs))) \<le> SIZEOFAUTHTOKENCONTAINER"
  by (auto simp: read_token_def fread_def fseek_def case_prod_unfold split: option.split bool.split)

lemma read_answer_length: "length (snd (fst r)) \<le> n \<Longrightarrow> length (fst (read_answer n f r)) \<le> 4 + n"
  by (auto simp: read_answer_def overlay_def split: prod.split)

lemma read_lengths:
  "length (snd (fst (on_fs mcRegistryReadAuthToken w))) \<le> SIZEOFAUTHTOKENCONTAINER"
  "length (snd (fst (on_fs (mcRegistryReadRoot n) w))) \<le> n"
  "length (snd (fst (on_fs (mcRegistryReadSp s n) w))) \<le> n"
  "length (snd (fst (on_fs (mcRegistryReadTrustletCon (Some u) s n) w))) \<le> n"
  by (simp_all add: on_fs_def case_prod_unfold mcRegistryReadAuthToken_def mcRegistryReadRoot_def
      mcRegistryReadSp_def mcRegistryReadTrustletCon_def read_so_length read_token_length)

lemma read_bounds:
  "length (snd (fst r)) \<le> 512 \<Longrightarrow> length (fst (read_answer 512 f r)) \<le> 516"
  "length (snd (fst r)) \<le> SIZEOFAUTHTOKENCONTAINER \<Longrightarrow>
   length (fst (read_answer SIZEOFAUTHTOKENCONTAINER f r)) \<le> 516"
  using read_answer_length [of r 512 f] read_answer_length [of r SIZEOFAUTHTOKENCONTAINER f]
  by (simp_all add: container_sizes)

lemma read_command_length:
  assumes "c \<in> read_commands" "registry_command (enc32 c @ args) w = Some (out, w')"
  shows "length out \<le> 4 + MAX_DATA_SIZE"
proof -
  have "length (fst (processRegistryReadData c args w)) \<le> 4 + MAX_DATA_SIZE"
    by (auto simp: processRegistryReadData_def MAX_DATA_SIZE_def read_bounds read_lengths
        split: option.split)
  then show ?thesis
    using assms command_kinds(1) [OF assms(1)]
    by (auto simp: registry_command_def Let_def split: if_splits)
qed

lemma readBlobData_result:
  assumes "c \<in> read_commands"
  shows "\<exists>ret d w'. readBlobData (enc32 c @ args) n w = Some ((ret, d), w') \<and>
     (d = None \<longrightarrow> ret = MC_DRV_ERR_DAEMON_SOCKET) \<and>
     (\<forall>b. d = Some b \<longrightarrow> length b \<le> MAX_DATA_SIZE)"
proof -
  have t: "c \<noteq> MC_DRV_REG_WRITE_SO_DATA" "c \<noteq> MC_DRV_REG_STORE_TA_BLOB"
    using assms by (auto simp: read_commands_def)
  obtain out w' where r: "request (enc32 c @ args) w = Some (out, w')"
    using request_total [OF t, of args w] by auto
  then have "\<forall>rsp. out = Some rsp \<longrightarrow> length rsp \<le> 4 + MAX_DATA_SIZE"
    using read_command_length [OF assms, of args]
    by (auto simp: request_def Let_def split: net_out.splits)
  with r show ?thesis by (auto simp: readBlobData_def Let_def split: option.splits)
qed

lemma read_container_ok:
  assumes "\<And>w n. \<exists>ret d w'. rd n w = Some ((ret, d), w') \<and> (d = None \<longrightarrow> ret = MC_DRV_ERR_DAEMON_SOCKET) \<and>
     (\<forall>b. d = Some b \<longrightarrow> length b \<le> MAX_DATA_SIZE)"
  shows "read_ok (read_container rd)"
proof -
  have "\<exists>ret buf n w'. read_container rd w = Some ((ret, buf, n), w') \<and>
     (buf = None \<longrightarrow> ret \<noteq> MC_DRV_OK) \<and>
     (\<forall>b. buf = Some b \<longrightarrow> length b = CONTAINER_BUFFER_SIZE \<and> unat n \<le> CONTAINER_BUFFER_SIZE) \<and>
     (ret = MC_DRV_OK \<longrightarrow> unat n \<le> MAX_DATA_SIZE)" for w
  proof (cases "malloc CONTAINER_BUFFER_SIZE w")
    case (Pair m w1)
    show ?thesis
    proof (cases m)
      case None
      then show ?thesis using Pair by (simp add: read_container_def)
    next
      case (Some buf)
      have l: "length buf = 4096" using Pair Some by (auto simp: malloc_def CONTAINER_BUFFER_SIZE_def)
      obtain ret d w' where r: "rd (of_nat CONTAINER_BUFFER_SIZE) w1 = Some ((ret, d), w')"
        "d = None \<longrightarrow> ret = MC_DRV_ERR_DAEMON_SOCKET" "\<forall>b. d = Some b \<longrightarrow> length b \<le> MAX_DATA_SIZE"
        using assms by blast
      have u: "unat (of_nat (length b) :: u32) = length b" if "length b \<le> 512" for b :: bytes
        using that by (simp add: unsigned_of_nat take_bit_nat_eq_self)
      show ?thesis
        using Pair Some l r u
        by (cases d) (auto simp: read_container_def CONTAINER_BUFFER_SIZE_def MAX_DATA_SIZE_def)
    qed
  qed
  then show ?thesis by (simp add: read_ok_def)
qed

lemma reg_reads_ok:
  "read_ok regReadAuthToken" "read_ok regReadRoot" "read_ok (regReadSp s)" "read_ok (regReadTlt u s)"
proof -
  have e: "regReadAuthToken = read_container mcRegistryReadAuthToken_client"
    "regReadRoot = read_container mcRegistryReadRoot_client"
    "regReadSp s = read_container (mcRegistryReadSp_client s)"
    "regReadTlt u s = read_container (mcRegistryReadTrustletCon_client u s)"
    by (simp_all add: fun_eq_iff regReadAuthToken_def regReadRoot_def regReadSp_def regReadTlt_def)
  show "read_ok regReadAuthToken" "read_ok regReadRoot" "read_ok (regReadSp s)" "read_ok (regReadTlt u s)"
    unfolding e
    using readBlobData_result [of MC_DRV_REG_READ_AUTH_TOKEN "[]"] readBlobData_result [of MC_DRV_REG_READ_ROOT_CONT "[]"]
      readBlobData_result [of MC_DRV_REG_READ_SP_CONT "enc32 s"]
      readBlobData_result [of MC_DRV_REG_READ_TL_CONT "u @ enc32 s"]
    by (auto intro!: read_container_ok simp: read_commands_def mcRegistryReadAuthToken_client_def
        mcRegistryReadRoot_client_def mcRegistryReadSp_client_def mcRegistryReadTrustletCon_client_def)
qed

subsection \<open>Preparing a command stays inside its buffers\<close>

definition prep_inv :: "prep \<Rightarrow> bool" where
  "prep_inv p \<longleftrightarrow> (\<exists>w m. wsmP (pr_handle p) = Some w \<and> length w = sizeOfCmp \<and>
     mappedP (pr_handle p) = Some m \<and> unat (mappedSize (pr_handle p)) \<le> length m)"

lemma ensure_inv:
  assumes "prep_inv p" "ensureMappedBufferSize n p = (ok, p1)"
  shows "prep_inv p1" "mappedSize (pr_handle p1) = mappedSize (pr_handle p)"
    "pr_index p1 = pr_index p" "pr_offset p1 = pr_offset p"
    "ok \<Longrightarrow> unat n \<le> length (the (mappedP (pr_handle p1)))"
    "n \<le> mappedSize (pr_handle p) \<Longrightarrow> ok \<and> p1 = p"
proof -
  obtain w m where wm: "wsmP (pr_handle p) = Some w" "length w = sizeOfCmp" "mappedP (pr_handle p) = Some m"
    "unat (mappedSize (pr_handle p)) \<le> length m" using assms(1) by (auto simp: prep_inv_def)
  have *: "prep_inv p1 \<and> mappedSize (pr_handle p1) = mappedSize (pr_handle p) \<and> pr_index p1 = pr_index p \<and>
     pr_offset p1 = pr_offset p \<and> (ok \<longrightarrow> unat n \<le> length (the (mappedP (pr_handle p1)))) \<and>
     (n \<le> mappedSize (pr_handle p) \<longrightarrow> ok \<and> p1 = p)"
  proof (cases "n > mappedSize (pr_handle p)")
    case False
    then have "unat n \<le> unat (mappedSize (pr_handle p))" by (simp add: word_le_nat_alt not_less)
    then show ?thesis using False assms wm by (auto simp: ensureMappedBufferSize_def prep_inv_def)
  next
    case True
    obtain b ag1 where m1: "ag_malloc (unat n) (pr_agent p) = (b, ag1)" by fastforce
    have lb: "length b' = unat n" if "b = Some b'" for b'
      using m1 that by (auto simp: ag_malloc_def malloc_def split: prod.splits)
    have "unat (mappedSize (pr_handle p)) < unat n" using True by (simp add: word_less_nat_alt)
    then show ?thesis using True assms wm m1 lb
      by (auto simp: ensureMappedBufferSize_def prep_inv_def Let_def split: option.splits)
  qed
  then show "prep_inv p1" "mappedSize (pr_handle p1) = mappedSize (pr_handle p)"
    "pr_index p1 = pr_index p" "pr_offset p1 = pr_offset p"
    "ok \<Longrightarrow> unat n \<le> length (the (mappedP (pr_handle p1)))"
    "n \<le> mappedSize (pr_handle p) \<Longrightarrow> ok \<and> p1 = p" by blast+
qed

text \<open>Appending a container to a command at element 2 or 3.\<close>

lemma place_container_safe:
  assumes inv: "prep_inv p" and i: "pr_index p = 2 \<or> pr_index p = 3"
    and so: "unat n \<le> length so" and nw: "unat (pr_offset p) + unat n < 2 ^ 32"
  shows "\<exists>p1. place_container so n p = Some p1 \<and> prep_inv p1 \<and>
    mappedSize (pr_handle p1) = mappedSize (pr_handle p) \<and>
    (pr_ret p1 = ROOTPA_OK \<longrightarrow> pr_index p1 = pr_index p + 1 \<and> pr_offset p1 = pr_offset p + n) \<and>
    (pr_offset p + n \<le> mappedSize (pr_handle p) \<longrightarrow> pr_moved p1 = pr_moved p)"
proof -
  obtain ok p1 where e: "ensureMappedBufferSize (pr_offset p + n) p = (ok, p1)" by fastforce
  note inv1 = ensure_inv [OF inv e]
  have un: "unat (pr_offset p + n) = unat (pr_offset p) + unat n" by (rule unat_add_no_wrap [OF nw])
  show ?thesis
  proof (cases ok)
    case False
    then have "pr_offset p + n > mappedSize (pr_handle p)" using inv1(6) by (meson leI)
    then show ?thesis using False e inv1 by (auto simp: place_container_def prep_inv_def)
  next
    case True
    obtain w m where wm: "wsmP (pr_handle p1) = Some w" "length w = sizeOfCmp" "mappedP (pr_handle p1) = Some m"
      "unat (mappedSize (pr_handle p1)) \<le> length m" using inv1(1) by (auto simp: prep_inv_def)
    have fit: "unat (pr_offset p) + unat n \<le> length m" using inv1(5) [OF True] un wm by simp
    obtain m1 where m1: "buf_write (unat (pr_offset p1)) (take (unat n) so) m = Some m1"
      using fit so inv1(4) by (auto simp: buf_write_def)
    have "cmd_element (pr_index p1) + 8 \<le> length w" "pr_index p1 \<noteq> 0" "pr_index p1 \<noteq> 1"
      using i inv1(3) wm(2) by (auto simp: cmd_element_def sizeOfCmp_def)
    then obtain r where r: "setCmdElementInfo (pr_index p1) (Some w) (pr_offset p1) n = Some r"
      using setCmdElementInfo_Some_iff [of "pr_index p1" "pr_offset p1" w n] by blast
    obtain i' w' off' where r': "r = (i', w', off')" by (cases r)
    obtain w'' where w'': "w' = Some w''" "i' = pr_index p1 + 1" "off' = pr_offset p1 + n" "length w'' = length w"
      using setCmdElementInfo_written [OF r [unfolded r']] \<open>pr_index p1 \<noteq> 0\<close> \<open>pr_index p1 \<noteq> 1\<close> by metis
    let ?p2 = "p1\<lparr>pr_handle := (pr_handle p1)\<lparr>mappedP := Some m1, wsmP := w'\<rparr>,
               pr_index := i', pr_offset := off', pr_ret := ROOTPA_OK\<rparr>"
    have "place_container so n p = Some ?p2"
      using e True wm m1 r r' so by (simp add: place_container_def buf_read_def)
    moreover have "prep_inv ?p2" using wm w'' buf_write_length [OF m1] by (simp add: prep_inv_def)
    ultimately show ?thesis using inv1(2,3,4,6) w'' by auto
  qed
qed

lemma add_container_safe:
  assumes rd: "read_ok rd" and inv: "prep_inv p" and i: "pr_index p = 2 \<or> pr_index p = 3"
    and off: "unat (pr_offset p) + 512 < 2 ^ 32"
  shows "\<exists>p1. add_container rd p = Some p1 \<and> prep_inv p1 \<and>
    mappedSize (pr_handle p1) = mappedSize (pr_handle p) \<and>
    (pr_ret p1 = ROOTPA_OK \<longrightarrow> pr_index p1 = pr_index p + 1 \<and> unat (pr_offset p1) \<le> unat (pr_offset p) + 512) \<and>
    (unat (pr_offset p) + 512 \<le> unat (mappedSize (pr_handle p)) \<longrightarrow> pr_moved p1 = pr_moved p)"
proof -
  obtain ret buf n w' where r: "rd (ag_world (pr_agent p)) = Some ((ret, buf, n), w')"
    "buf = None \<longrightarrow> ret \<noteq> MC_DRV_OK" "\<forall>b. buf = Some b \<longrightarrow> length b = CONTAINER_BUFFER_SIZE"
    "ret = MC_DRV_OK \<longrightarrow> unat n \<le> 512"
    using rd unfolding read_ok_def MAX_DATA_SIZE_def by metis
  let ?p1 = "p\<lparr>pr_mcRet := ret, pr_agent := (pr_agent p)\<lparr>ag_world := w'\<rparr>\<rparr>"
  have inv1: "prep_inv ?p1" using inv by (simp add: prep_inv_def)
  show ?thesis
  proof (cases "ret = MC_DRV_OK")
    case False
    then show ?thesis using r(1) inv by (auto simp: add_container_def on_world_def prep_inv_def Let_def)
  next
    case True
    then obtain so where so: "buf = Some so" using r(2) by auto
    have n: "unat n \<le> 512" "unat n \<le> length so" using r True so by (auto simp: CONTAINER_BUFFER_SIZE_def)
    have nw: "unat (pr_offset ?p1) + unat n < 2 ^ 32" using off n by simp
    have un: "unat (pr_offset p + n) = unat (pr_offset p) + unat n"
      using unat_add_no_wrap [of "pr_offset p" n] nw by simp
    have "add_container rd p = place_container so n ?p1"
      using r(1) so True by (simp add: add_container_def on_world_def)
    then show ?thesis
      using place_container_safe [OF inv1 _ n(2) nw] i n(1) un
      by (auto simp: word_le_nat_alt)
  qed
qed

text \<open>Reading the command back.\<close>

lemma cmd_fields:
  assumes "prep_inv p" "\<not> pr_moved p" "32 \<le> unat (mappedSize (pr_handle p))"
  shows "cmd_spid p \<noteq> None" "cmd_uuid p \<noteq> None" "\<exists>s. take_spid p = Some (p\<lparr>pr_agent := (pr_agent p)\<lparr>static_spid := s\<rparr>\<rparr>)"
    "\<exists>s u. take_spid_uuid p = Some (p\<lparr>pr_agent := (pr_agent p)\<lparr>static_spid := s, static_tltUuid := u\<rparr>\<rparr>)"
proof -
  obtain m where m: "mappedP (pr_handle p) = Some m" "unat (mappedSize (pr_handle p)) \<le> length m"
    using assms(1) by (auto simp: prep_inv_def)
  have s: "cmd_spid p = Some (dec32 (take 4 (drop 12 m)))" and u: "cmd_uuid p = Some (take 16 (drop 16 m))"
    using m assms(2,3) by (simp_all add: cmd_spid_def cmd_uuid_def out_command_def ld32_def buf_read_def)
  have b: "buf_read 16 16 m = Some (take 16 (drop 16 m))" using m assms(3) by (simp add: buf_read_def)
  show "cmd_spid p \<noteq> None" "cmd_uuid p \<noteq> None" using s u by simp_all
  show "\<exists>s. take_spid p = Some (p\<lparr>pr_agent := (pr_agent p)\<lparr>static_spid := s\<rparr>\<rparr>)"
    using s by (auto simp: take_spid_def)
  show "\<exists>s u. take_spid_uuid p = Some (p\<lparr>pr_agent := (pr_agent p)\<lparr>static_spid := s, static_tltUuid := u\<rparr>\<rparr>)"
    by (rule exI [of _ "dec32 (take 4 (drop 12 m))"], rule exI [of _ "take 16 (drop 16 m)"])
      (use s m(1) b assms(2) in \<open>simp add: take_spid_uuid_def take_spid_def take_uuid_def cmd_uuid_def out_command_def\<close>)
qed

text \<open>The commands whose fields are read.\<close>

definition reads_fields :: "u32 set" where
  "reads_fields = {MC_CMP_CMD_BEGIN_SP_AUTHENTICATION, MC_CMP_CMD_SP_CONT_ACTIVATE,
     MC_CMP_CMD_SP_CONT_LOCK_BY_SP, MC_CMP_CMD_SP_CONT_UNLOCK_BY_SP, MC_CMP_CMD_SP_CONT_UNREGISTER,
     MC_CMP_CMD_SP_CONT_LOCK_BY_ROOT, MC_CMP_CMD_SP_CONT_UNLOCK_BY_ROOT, MC_CMP_CMD_SP_CONT_REGISTER,
     MC_CMP_CMD_SP_CONT_REGISTER_ACTIVATE, MC_CMP_CMD_TLT_CONT_ACTIVATE, MC_CMP_CMD_TLT_CONT_LOCK_BY_SP,
     MC_CMP_CMD_TLT_CONT_UNLOCK_BY_SP, MC_CMP_CMD_TLT_CONT_PERSONALIZE, MC_CMP_CMD_TLT_CONT_REGISTER,
     MC_CMP_CMD_TLT_CONT_REGISTER_ACTIVATE, MC_CMP_CMD_TLT_CONT_UNREGISTER}"

lemma tell_fields [simp]: "pr_handle (tell st p) = pr_handle p" "pr_index (tell st p) = pr_index p"
  "pr_offset (tell st p) = pr_offset p" "pr_moved (tell st p) = pr_moved p"
  by (simp_all add: tell_def)

lemma prep_inv_handle: "pr_handle p1 = pr_handle p \<Longrightarrow> prep_inv p \<Longrightarrow> prep_inv p1"
  by (simp add: prep_inv_def)

lemma prepare_switch_safe:
  assumes inv: "prep_inv p" and nm: "\<not> pr_moved p" and i: "pr_index p = 2"
    and off: "unat (pr_offset p) < 2 ^ 31"
    and sz: "c \<in> reads_fields \<longrightarrow> 32 \<le> unat (mappedSize (pr_handle p))"
    and sp: "c = MC_CMP_CMD_BEGIN_SP_AUTHENTICATION \<longrightarrow> unat (pr_offset p) + 512 \<le> unat (mappedSize (pr_handle p))"
  shows "prepare_switch c p \<noteq> None"
proof -
  have off1: "unat (pr_offset p) + 512 < 2 ^ 32" using off by simp
  have add: "\<exists>p1. add_container rd q = Some p1"
    if "read_ok rd" "pr_handle q = pr_handle p" "pr_index q = pr_index p" "pr_offset q = pr_offset p" for rd q
    using add_container_safe [OF that(1), of q] prep_inv_handle [OF that(2) inv] that i off1 by auto
  note add' = add [OF reg_reads_ok(1)] add [OF reg_reads_ok(2)] add [OF reg_reads_ok(3)] add [OF reg_reads_ok(4)]
  note defs = addAuthTokenContainer_def addRootContainer_def addSpContainer_def addTltContainer_def
  have spauth: "Option.bind (addRootContainer p) (\<lambda>p1.
      if pr_ret p1 = ROOTPA_OK then Option.bind (cmd_spid p1) (\<lambda>spid. addSpContainer spid p1) else Some p1) \<noteq> None"
    if c: "c = MC_CMP_CMD_BEGIN_SP_AUTHENTICATION"
  proof -
    obtain p1 where p1: "add_container regReadRoot p = Some p1" "prep_inv p1"
      "mappedSize (pr_handle p1) = mappedSize (pr_handle p)" "pr_moved p1 = pr_moved p"
      "pr_ret p1 = ROOTPA_OK \<longrightarrow> pr_index p1 = 3 \<and> unat (pr_offset p1) \<le> unat (pr_offset p) + 512"
      using add_container_safe [OF reg_reads_ok(2) inv _ off1] i sp c by auto
    have "cmd_spid p1 \<noteq> None"
      using cmd_fields(1) [OF p1(2)] p1(3,4) nm sz c by (auto simp: reads_fields_def)
    moreover have "add_container (regReadSp spid) p1 \<noteq> None" if "pr_ret p1 = ROOTPA_OK" for spid
      using add_container_safe [OF reg_reads_ok(3) p1(2), of spid] p1(5) off that by auto
    ultimately show ?thesis using p1(1) by (auto simp: defs)
  qed
  show ?thesis
  proof (cases "c \<in> reads_fields")
    case False
    then show ?thesis
      using add' [of "tell AUTHENTICATING_SOC p"] add' [of "tell AUTHENTICATING_ROOT p"]
      by (auto simp: prepare_switch_def defs reads_fields_def)
  next
    case True
    then have s: "32 \<le> unat (mappedSize (pr_handle p))" using sz by simp
    obtain sp where t1: "take_spid p = Some (p\<lparr>pr_agent := (pr_agent p)\<lparr>static_spid := sp\<rparr>\<rparr>)"
      using cmd_fields(3) [OF inv nm s] by blast
    obtain sp' u where t2: "take_spid_uuid p = Some (p\<lparr>pr_agent := (pr_agent p)\<lparr>static_spid := sp', static_tltUuid := u\<rparr>\<rparr>)"
      using cmd_fields(4) [OF inv nm s] by blast
    have t3: "take_spid (tell CREATING_SP_CONTAINER p) \<noteq> None"
      using cmd_fields(3) [of "tell CREATING_SP_CONTAINER p"] prep_inv_handle [of "tell CREATING_SP_CONTAINER p" p]
        inv nm s by auto
    have a1: "add_container (regReadSp x) (p\<lparr>pr_agent := a\<rparr>) \<noteq> None" for x a
      using add'(3) [of "p\<lparr>pr_agent := a\<rparr>"] by auto
    have a2: "add_container (regReadTlt v x) (p\<lparr>pr_agent := a\<rparr>) \<noteq> None" "add_container (regReadTlt v x) p \<noteq> None" for v x a
      using add'(4) [of "p\<lparr>pr_agent := a\<rparr>"] add'(4) [of p] by auto
    have f: "\<exists>x. cmd_spid p = Some x" "\<exists>x. cmd_uuid p = Some x" using cmd_fields(1,2) [OF inv nm s] by auto
    show ?thesis
      using True spauth t1 t2 t3 a1 a2 f
      unfolding reads_fields_def by (elim insertE) (auto simp: prepare_switch_def defs)
  qed
qed

text \<open>The handle and the command as \<open>executeOneCmpCommand\<close> sets them up, at the first attempt and
  after the buffer has grown.\<close>

definition exchange_ready :: "u32 \<Rightarrow> cmp_message \<Rightarrow> cmtstruct \<Rightarrow> bool" where
  "exchange_ready commandId cmd h \<longleftrightarrow>
     (\<exists>w m c. wsmP h = Some w \<and> length w = sizeOfCmp \<and> mappedP h = Some m \<and>
        length m = unat (mappedSize h) \<and> contentP cmd = Some c \<and> length c = unat (cmp_length cmd)) \<and>
     getTotalMappedBufferSize commandId (cmp_length cmd) \<le> mappedSize h \<and>
     getTotalMappedBufferSize commandId (cmp_length cmd) \<noteq> 0 \<and>
     unat (cmp_length cmd) < 2 ^ 31"

lemma supported:
  assumes "getTotalMappedBufferSize c len \<noteq> 0"
  obtains m cc rc where "getCmpSizeInfo c = Some (m, cc, rc)"
  using assms by (auto simp: getTotalMappedBufferSize_def split: option.splits prod.splits)

lemma read_field_sizes: "(c, m, cc, rc) \<in> set sizeTable \<Longrightarrow> c \<in> reads_fields \<Longrightarrow> 32 \<le> m"
  "(MC_CMP_CMD_BEGIN_SP_AUTHENTICATION, m, cc, rc) \<in> set sizeTable \<Longrightarrow> cc = 616"
  by (auto simp: sizeTable_def reads_fields_def container_sizes)

lemma prepare_message_ready:
  assumes "exchange_ready c cmd h"
  shows "\<exists>p. prepare_message c cmd h ag = Some (True, p) \<and> prep_inv p \<and> \<not> pr_moved p \<and> pr_index p = 2 \<and>
    pr_offset p = cmp_length cmd \<and> mappedSize (pr_handle p) = mappedSize h \<and> pr_agent p = ag \<and>
    (\<exists>w m. wsmP (pr_handle p) = Some w \<and> length w = 40 \<and> ld32 0 w = Some CMP_VERSION \<and> ld32 4 w = Some c \<and>
       ld32 8 w = Some (mapInfo_addr h) \<and> ld32 12 w = Some (mapInfo_len h) \<and>
       ld32 16 w = Some 0 \<and> ld32 20 w = Some (cmp_length cmd) \<and>
       mappedP (pr_handle p) = Some m \<and> length m = unat (mappedSize h) \<and>
       contentP cmd = Some (take (unat (cmp_length cmd)) m))"
proof -
  obtain w m d where r: "wsmP h = Some w" "length w = 40" "mappedP h = Some m" "length m = unat (mappedSize h)"
    "contentP cmd = Some d" "length d = unat (cmp_length cmd)"
    "getTotalMappedBufferSize c (cmp_length cmd) \<le> mappedSize h"
    "getTotalMappedBufferSize c (cmp_length cmd) \<noteq> 0" "unat (cmp_length cmd) < 2 ^ 31"
    using assms by (auto simp: exchange_ready_def sizeOfCmp_def)
  obtain a cc rc where info: "getCmpSizeInfo c = Some (a, cc, rc)" using supported r(8) by metis
  have len: "unat (cmp_length cmd) \<le> unat (mappedSize h)"
    using total_size [OF info, of "cmp_length cmd"] r(7,9) by (simp add: word_le_nat_alt)
  obtain w2 where w2: "Option.bind (setCmdMapInfo (replicate 40 0) (mapInfo_addr h) (mapInfo_len h))
      (\<lambda>w1. setCmdCmpVersionAndCmdId w1 c) = Some w2" "length w2 = 40"
    by (auto simp: setCmdMapInfo_def setCmdCmpVersionAndCmdId_def st32_def buf_write_def)
  obtain w1 where w1: "setCmdMapInfo (replicate 40 0) (mapInfo_addr h) (mapInfo_len h) = Some w1"
      "setCmdCmpVersionAndCmdId w1 c = Some w2" using w2(1) by (cases "setCmdMapInfo (replicate 40 0) (mapInfo_addr h) (mapInfo_len h)") auto
  obtain n3 x3 o3 where e: "setCmdElementInfo 1 (Some w2) 0 (cmp_length cmd) = Some (n3, x3, o3)"
    using setCmdElementInfo_Some_iff [of 1 0 w2 "cmp_length cmd"] w2(2) by (auto simp: cmd_element_def)
  obtain w3 where w3: "x3 = Some w3" "n3 = 2" "o3 = cmp_length cmd" "length w3 = 40"
    "ld32 16 w3 = Some 0" "ld32 20 w3 = Some (cmp_length cmd)" "\<And>i. i + 4 \<le> 16 \<Longrightarrow> ld32 i w3 = ld32 i w2"
  proof -
    from e obtain w' where w': "x3 = Some w'" "n3 = 1 + 1" "o3 = 0 + cmp_length cmd" "length w' = length w2"
      "ld32 (cmd_element 1) w' = Some 0" "ld32 (cmd_element 1 + 4) w' = Some (cmp_length cmd)"
      "\<And>i. i + 4 \<le> cmd_element 1 \<or> cmd_element 1 + 8 \<le> i \<Longrightarrow> ld32 i w' = ld32 i w2"
      by (rule setCmdElementInfo_written) auto
    show ?thesis using that [of w'] w' w2(2) by (simp add: cmd_element_def)
  qed
  have words: "ld32 0 w2 = Some CMP_VERSION" "ld32 4 w2 = Some c" "ld32 8 w2 = Some (mapInfo_addr h)"
    "ld32 12 w2 = Some (mapInfo_len h)"
    using w1 unfolding setCmdMapInfo_def setCmdCmpVersionAndCmdId_def
    by (auto split: option.splits simp: ld32_st32_same ld32_st32_other)
  note words3 = words w3(5-7)
  note w3 = e [unfolded w3(1-3)] w3(4)
  have nb: "\<not> mappedSize h < cmp_length cmd" using len by (simp add: word_less_nat_alt)
  obtain m1 where m1: "buf_write 0 d m = Some m1" using len r(4,6) by (auto simp: buf_write_def)
  have tk: "take (unat (cmp_length cmd)) m1 = d" using m1 r(6) by (auto simp: buf_write_def split: if_splits)
  have rd: "buf_read 0 (unat (cmp_length cmd)) d = Some d" using r(6) by (simp add: buf_read_def)
  have z: "buf_write 0 (replicate sizeOfCmp 0) w = Some (replicate 40 0)"
    using r(2) by (simp add: buf_write_def sizeOfCmp_def)
  show ?thesis
    using r(1,3,4,5) z w1 w3 nb m1 rd buf_write_length [OF m1] words3 tk
    by (simp add: prepare_message_def ensureMappedBufferSize_def prep_inv_def sizeOfCmp_def)
qed

end
