(* ===== verification/Pacmp3Facts.thy ===== *)
theory Pacmp3Facts
  imports Pacmp3
begin

text \<open>
  What the handling of content management commands guarantees: no command and no response makes
  it leave its buffers, which containers a prepared command carries, what each kind of response
  does to the registry, and where the recovery after a failed deletion of the token goes wrong.
\<close>

subsection \<open>What the registry holds is what the agent reads and writes\<close>

definition reg_read :: "reg_key \<Rightarrow> world \<Rightarrow> read_result option" where
  "reg_read k = read_container (client_read k)"

lemma reg_reads: "regReadAuthToken = reg_read KAuth" "regReadRoot = reg_read KRoot"
  "regReadSp spid = reg_read (KSp spid)" "regReadTlt u spid = reg_read (KTlt u spid)"
proof -
  have f: "client_read KAuth = mcRegistryReadAuthToken_client" "client_read KRoot = mcRegistryReadRoot_client"
    "client_read (KSp spid) = mcRegistryReadSp_client spid"
    "client_read (KTlt u spid) = mcRegistryReadTrustletCon_client u spid"
    by (simp_all add: fun_eq_iff)
  show "regReadAuthToken = reg_read KAuth" "regReadRoot = reg_read KRoot"
    "regReadSp spid = reg_read (KSp spid)" "regReadTlt u spid = reg_read (KTlt u spid)"
    by (simp_all add: fun_eq_iff reg_read_def f regReadAuthToken_def regReadRoot_def regReadSp_def regReadTlt_def)
qed

lemma reg_writes: "regWriteAuthToken d = client_store KAuth d" "regWriteRoot d = client_store KRoot d"
  "regWriteSp spid d = client_store (KSp spid) d" "regWriteTlt u d spid = client_store (KTlt u spid) d"
  by (simp_all add: fun_eq_iff regWriteAuthToken_def regWriteRoot_def regWriteSp_def regWriteTlt_def)

lemma malloc_client_good:
  assumes "client_good w"
  shows "\<exists>b. malloc n w = (Some b, w\<lparr>w_allocs := Suc (w_allocs w)\<rparr>) \<and> length b = n \<and>
    client_good (w\<lparr>w_allocs := Suc (w_allocs w)\<rparr>)"
  using malloc_good [of w n] assms by (auto simp: client_good_def link_good_def malloc_def)

lemma reg_read_present:
  assumes g: "client_good w" and v: "valid_key k" and c: "registered (w_fs w) k = Some d"
    and rd: "client_readable k 4096 d"
  shows "\<exists>buf w'. reg_read k w = Some ((MC_DRV_OK, Some buf, of_nat (length d)), w') \<and>
    buf_read 0 (length d) buf = Some d \<and> client_good w' \<and> registered (w_fs w') = registered (w_fs w)"
proof -
  let ?w1 = "w\<lparr>w_allocs := Suc (w_allocs w)\<rparr>"
  obtain b where b: "malloc CONTAINER_BUFFER_SIZE w = (Some b, ?w1)" "client_good ?w1"
    using malloc_client_good [OF g] by blast
  obtain w' where "client_read k 4096 ?w1 = Some ((MC_DRV_OK, Some d), w')" "client_good w'"
      "registered (w_fs w') = registered (w_fs ?w1)"
    using client_read_works [OF b(2) v _ rd] c by auto
  then show ?thesis
    using b by (simp add: reg_read_def read_container_def CONTAINER_BUFFER_SIZE_def buf_read_def)
qed

lemma reg_read_absent:
  assumes g: "client_good w" and v: "valid_key k" and c: "registered (w_fs w) k = None"
  shows "\<exists>buf w'. reg_read k w = Some ((MC_DRV_ERR_INVALID_DEVICE_FILE, Some buf, of_nat (daemon_read_size k)), w') \<and>
    buf_read 0 (daemon_read_size k) buf = Some (map (w_stack w) [0..<daemon_read_size k]) \<and>
    client_good w' \<and> registered (w_fs w') = registered (w_fs w)"
proof -
  let ?w1 = "w\<lparr>w_allocs := Suc (w_allocs w)\<rparr>" and ?d = "map (w_stack w) [0..<daemon_read_size k]"
  obtain b where b: "malloc CONTAINER_BUFFER_SIZE w = (Some b, ?w1)" "client_good ?w1"
    using malloc_client_good [OF g] by blast
  have n: "daemon_read_size k \<le> 512" by (simp add: daemon_read_size_def container_sizes MAX_DATA_SIZE_def)
  obtain w' where "client_read k 4096 ?w1 = Some ((MC_DRV_ERR_INVALID_DEVICE_FILE, Some ?d), w')" "client_good w'"
      "registered (w_fs w') = registered (w_fs ?w1)"
    using client_read_missing [OF b(2) v, of 4096] c n by (auto simp: take_map)
  then show ?thesis
    using b by (simp add: reg_read_def read_container_def CONTAINER_BUFFER_SIZE_def buf_read_def)
qed

text \<open>A container that is registered and fits is appended to the command.\<close>

lemma add_container_appends:
  assumes g: "client_good (ag_world (pr_agent p))" and v: "valid_key k"
    and c: "registered (w_fs (ag_world (pr_agent p))) k = Some d" and rd: "client_readable k 4096 d"
    and w: "wsmP (pr_handle p) = Some w" "length w = 40" and m: "mappedP (pr_handle p) = Some m"
    and sz: "length m = unat (mappedSize (pr_handle p))"
    and i: "pr_index p = 2 \<or> pr_index p = 3"
    and fit: "unat (pr_offset p) + length d \<le> unat (mappedSize (pr_handle p))"
  shows "\<exists>p1 w1 m1. add_container (reg_read k) p = Some p1 \<and> pr_ret p1 = ROOTPA_OK \<and> pr_mcRet p1 = MC_DRV_OK \<and>
    pr_moved p1 = pr_moved p \<and> pr_index p1 = pr_index p + 1 \<and> unat (pr_offset p1) = unat (pr_offset p) + length d \<and>
    mappedSize (pr_handle p1) = mappedSize (pr_handle p) \<and>
    wsmP (pr_handle p1) = Some w1 \<and> length w1 = 40 \<and>
    ld32 (cmd_element (pr_index p)) w1 = Some (pr_offset p) \<and>
    ld32 (cmd_element (pr_index p) + 4) w1 = Some (of_nat (length d)) \<and>
    (\<forall>j. j + 4 \<le> cmd_element (pr_index p) \<longrightarrow> ld32 j w1 = ld32 j w) \<and>
    mappedP (pr_handle p1) = Some m1 \<and> length m1 = length m \<and>
    take (unat (pr_offset p) + length d) m1 = take (unat (pr_offset p)) m @ d \<and>
    client_good (ag_world (pr_agent p1)) \<and>
    registered (w_fs (ag_world (pr_agent p1))) = registered (w_fs (ag_world (pr_agent p)))"
proof -
  obtain buf w' where r: "reg_read k (ag_world (pr_agent p)) = Some ((MC_DRV_OK, Some buf, of_nat (length d)), w')"
    "buf_read 0 (length d) buf = Some d" "client_good w'"
    "registered (w_fs w') = registered (w_fs (ag_world (pr_agent p)))"
    using reg_read_present [OF g v c rd] by blast
  have un: "unat (of_nat (length d) :: u32) = length d"
    using fit unat_u32_less [of "mappedSize (pr_handle p)"] by (simp add: unat_of_nat_u32)
  have us: "unat (pr_offset p + of_nat (length d)) = unat (pr_offset p) + length d"
    using unat_add_no_wrap [of "pr_offset p" "of_nat (length d)"] fit un
      unat_u32_less [of "mappedSize (pr_handle p)"] by simp
  have nb: "\<not> mappedSize (pr_handle p) < pr_offset p + of_nat (length d)"
    using fit us by (simp add: word_less_nat_alt)
  obtain m1 where m1: "buf_write (unat (pr_offset p)) d m = Some m1" using fit sz by (auto simp: buf_write_def)
  have n: "pr_index p \<noteq> 0" "pr_index p = 1 \<longrightarrow> pr_offset p = 0" "cmd_element (pr_index p) + 8 \<le> 40"
    using i by (auto simp: cmd_element_def)
  obtain i' x o' where e: "setCmdElementInfo (pr_index p) (Some w) (pr_offset p) (of_nat (length d)) = Some (i', x, o')"
    using setCmdElementInfo_Some_iff [OF n(1,2), of w "of_nat (length d)"] n(3) w(2) by auto
  obtain w1 where w1: "x = Some w1" "i' = pr_index p + 1" "o' = pr_offset p + of_nat (length d)" "length w1 = 40"
    "ld32 (cmd_element (pr_index p)) w1 = Some (pr_offset p)"
    "ld32 (cmd_element (pr_index p) + 4) w1 = Some (of_nat (length d))"
    "\<And>j. j + 4 \<le> cmd_element (pr_index p) \<Longrightarrow> ld32 j w1 = ld32 j w"
    using setCmdElementInfo_written [OF e n(1,2)] w(2) by metis
  have tk: "take (unat (pr_offset p) + length d) m1 = take (unat (pr_offset p)) m @ d"
    using m1 by (auto simp: buf_write_def split: if_splits)
  show ?thesis
    using r w m e w1 nb us un m1 tk buf_write_length [OF m1]
    by (simp add: add_container_def on_world_def place_container_def ensureMappedBufferSize_def Let_def)
qed

text \<open>The registry's own environment does not change through the client.\<close>

lemma read_request_env:
  assumes "link_good w" "valid_key k" "n \<noteq> 0" "client_read k n w = Some (r, w')"
  shows "fs_env (w_fs w') = fs_env (w_fs w) \<and> w_stack w' = w_stack w"
proof -
  have c: "conts (snd (registry_read k m fs)) = conts fs" for m fs
    using registry_read_eq [OF assms(2), of m fs] by (simp add: keeps)
  have "fs_env (snd (registry_read k m fs)) = fs_env fs" for m fs
    using c [of m fs] by (simp add: conts_def)
  then show ?thesis
    using client_read_eq [OF assms(1-3)] assms(4)
    by (auto simp: on_fs_def read_answer_def case_prod_unfold split: if_splits)
qed

lemma reg_read_env:
  assumes "client_good w" "valid_key k" "reg_read k w = Some (r, w')"
  shows "fs_env (w_fs w') = fs_env (w_fs w)"
proof -
  let ?w1 = "w\<lparr>w_allocs := Suc (w_allocs w)\<rparr>"
  obtain b where b: "malloc CONTAINER_BUFFER_SIZE w = (Some b, ?w1)" "client_good ?w1"
    using malloc_client_good [OF assms(1)] by blast
  obtain x where "client_read k 4096 ?w1 = Some (x, w')"
    using assms(3) b(1) by (auto simp: reg_read_def read_container_def CONTAINER_BUFFER_SIZE_def)
  then show ?thesis using read_request_env [of ?w1 k 4096] b(2) assms(2) by (auto simp: client_good_def)
qed

lemma reg_read_present_env:
  assumes "client_good w" "valid_key k" "registered (w_fs w) k = Some d" "client_readable k 4096 d"
    "fs_env (w_fs w) = None"
  shows "\<exists>buf w'. reg_read k w = Some ((MC_DRV_OK, Some buf, of_nat (length d)), w') \<and>
    client_good w' \<and> registered (w_fs w') = registered (w_fs w) \<and> fs_env (w_fs w') = None"
  using reg_read_present [OF assms(1-4)] reg_read_env [OF assms(1,2)] assms(5) by metis

lemma reg_read_absent_env:
  assumes "client_good w" "valid_key k" "registered (w_fs w) k = None" "fs_env (w_fs w) = None"
  shows "\<exists>buf w'. reg_read k w = Some ((MC_DRV_ERR_INVALID_DEVICE_FILE, Some buf, of_nat (daemon_read_size k)), w') \<and>
    buf_read 0 (daemon_read_size k) buf = Some (map (w_stack w) [0..<daemon_read_size k]) \<and>
    client_good w' \<and> registered (w_fs w') = registered (w_fs w) \<and> fs_env (w_fs w') = None"
  using reg_read_absent [OF assms(1-3)] reg_read_env [OF assms(1,2)] assms(4) by metis

subsection \<open>Deleting through the client\<close>

lemma delete_token_present:
  assumes g: "client_good w" and e: "fs_env (w_fs w) = None" and c: "registered (w_fs w) KAuth \<noteq> None"
  shows "\<exists>w'. regDeleteAuthToken w = Some (MC_DRV_OK, w') \<and> client_good w' \<and> fs_env (w_fs w') = None \<and>
    (\<forall>k. valid_key k \<longrightarrow> registered (w_fs w') k = (if k = KAuth then None else registered (w_fs w) k))"
proof -
  let ?fs = "w_fs w" and ?t = "getAuthTokenFilePath (w_fs w)" and ?b = "getAuthTokenFilePathBackup (w_fs w)"
  have r: "reliable ?fs" "MC_REGISTRY_DATA_PATH \<in> set (fs_dirs ?fs)" "link_good w"
    using g by (simp_all add: client_good_def registry_good_def)
  have t: "?t = (MC_REGISTRY_DATA_PATH, ''00000000.authtokcont'')"
    and b: "?b = (MC_REGISTRY_DATA_PATH, ''00000000.authtokcont.backup'')"
    using e by (simp_all add: getAuthTokenFilePath_def getAuthTokenFilePathBackup_def doesDirExist_def)
  obtain d where d: "lookup_file ?fs ?t = Some d" using c by (auto simp: registered_def)
  let ?fs1 = "put_file ?b d (drop_file ?t (?fs\<lparr>fs_calls := Suc (fs_calls ?fs)\<rparr>))"
  have ren: "mcRegistryDeleteAuthToken ?fs = (MC_DRV_OK, ?fs1)"
    using r d b by (simp add: mcRegistryDeleteAuthToken_def rename_file_def)
  have reg: "registered ?fs1 k = (if k = KAuth then None else registered ?fs k)" if v: "valid_key k" for k
  proof -
    have kp: "key_path ?fs1 k = key_path ?fs k" using e by (intro key_path_fixed) simp_all
    have "length (snd (key_path ?fs k)) \<noteq> 27"
      using v key_name_length [of ?fs k] by (cases k) simp_all
    then have nb: "key_path ?fs k \<noteq> ?b" using b by auto
    have "key_path ?fs k = ?t \<longleftrightarrow> k = KAuth" using key_path_inj [of k KAuth ?fs] v by auto
    then show ?thesis using kp nb by (auto simp: registered_def)
  qed
  have good: "registry_good ?fs1" using r by (simp add: registry_good_def)
  have del: "regDeleteAuthToken w = Some (MC_DRV_OK, w\<lparr>w_reqs := Suc (w_reqs w), w_fs := ?fs1\<rparr>)"
    using delete_request_arrives [OF r(3), of MC_DRV_REG_DELETE_AUTH_TOKEN "[]"] ren r(3)
    by (simp add: regDeleteAuthToken_def mcRegistryDeleteAuthToken_client_def delete_commands_def
        processRegistryDeleteData_def on_fs_def link_good_def)
  show ?thesis
    by (rule exI [of _ "w\<lparr>w_reqs := Suc (w_reqs w), w_fs := ?fs1\<rparr>"])
      (use del good r(3) e reg in \<open>simp add: client_good_def\<close>)
qed

lemma delete_token_absent:
  assumes g: "client_good w" and c: "registered (w_fs w) KAuth = None"
  shows "\<exists>w'. regDeleteAuthToken w = Some (MC_DRV_ERR_UNKNOWN, w') \<and> client_good w' \<and>
    fs_env (w_fs w') = fs_env (w_fs w) \<and> registered (w_fs w') = registered (w_fs w)"
proof -
  let ?fs1 = "(w_fs w)\<lparr>fs_calls := Suc (fs_calls (w_fs w))\<rparr>"
  have r: "reliable (w_fs w)" "link_good w" "registry_good (w_fs w)"
    using g by (simp_all add: client_good_def registry_good_def)
  have sf: "same_files (w_fs w) ?fs1" using r by (simp add: same_files_def)
  have "mcRegistryDeleteAuthToken (w_fs w) = (MC_DRV_ERR_UNKNOWN, ?fs1)"
    using r c by (simp add: mcRegistryDeleteAuthToken_def rename_file_def registered_def)
  then have del: "regDeleteAuthToken w = Some (MC_DRV_ERR_UNKNOWN, w\<lparr>w_reqs := Suc (w_reqs w), w_fs := ?fs1\<rparr>)"
    using delete_request_arrives [OF r(2), of MC_DRV_REG_DELETE_AUTH_TOKEN "[]"] r(2)
    by (simp add: regDeleteAuthToken_def mcRegistryDeleteAuthToken_client_def delete_commands_def
        processRegistryDeleteData_def on_fs_def link_good_def)
  show ?thesis
    by (rule exI [of _ "w\<lparr>w_reqs := Suc (w_reqs w), w_fs := ?fs1\<rparr>"])
      (use del r(2) same_registered [OF sf] r(3) in \<open>simp add: client_good_def\<close>)
qed

lemma install_token_keeps:
  "conts (w_fs (installEndorsementToken w)) = conts (w_fs w)" "link_good w \<Longrightarrow> link_good (installEndorsementToken w)"
  by (auto simp: installEndorsementToken_def on_fs_def call_loadToken_def case_prod_unfold
      mcRegistryReadAuthToken_def mcRegistryReadAuthTokenBackup_def mcRegistryReadRoot_def keeps)

lemma cleanup_root_client:
  assumes "link_good w" "mcRegistryCleanupRoot (w_fs w) = (ret, fs')"
  shows "\<exists>w'. regCleanupRoot w = Some (ret, w') \<and> link_good w' \<and> conts (w_fs w') = conts fs'"
proof -
  have "w_permitted w" using assms(1) by (simp add: link_good_def)
  then show ?thesis
    using delete_request_arrives [OF assms(1), of MC_DRV_REG_DELETE_ROOT_CONT "[]"] assms
      install_token_keeps [of "w\<lparr>w_reqs := Suc (w_reqs w), w_fs := fs'\<rparr>"]
    by (simp add: regCleanupRoot_def mcRegistryCleanupRoot_client_def delete_commands_def
        processRegistryDeleteData_def on_fs_def)
qed

lemma cleanup_sps_free: "\<forall>s \<in> set ss. s = MC_SPID_FREE \<Longrightarrow> cleanup_sps ss fs = (MC_DRV_OK, fs)"
  by (induction ss) simp_all

text \<open>A root container without service providers is removed.\<close>

lemma cleanup_empty_root:
  assumes g: "registry_good fs" and e: "fs_env fs = None" and c: "registered fs KRoot = Some d"
    and l: "length d = SIZEOFROOTCONTAINER" and f: "\<forall>s \<in> set (root_children d). s = MC_SPID_FREE"
  shows "\<exists>fs'. mcRegistryCleanupRoot fs = (MC_DRV_OK, fs') \<and> fs_env fs' = None \<and>
    (\<forall>k. valid_key k \<longrightarrow> registered fs' k = (if k = KRoot then None else registered fs k))"
proof -
  have "0 < SIZEOFROOTCONTAINER" by (simp add: container_sizes)
  then obtain fs1 where rd: "mcRegistryReadRoot SIZEOFROOTCONTAINER fs = ((MC_DRV_OK, d), fs1)" "same_files fs fs1"
    using registry_read_works [OF g, of KRoot d SIZEOFROOTCONTAINER] c l by (auto simp: registry_readable_def)
  have e1: "fs_env fs1 = None" "reliable fs1" using rd(2) e by (simp_all add: same_files_def)
  obtain ok fs2 where rm: "remove_file (key_path fs1 KRoot) fs1 = (ok, fs2)" by fastforce
  note rk = remove_key [OF e1(1) _ rm]
  have ok: ok using rk(3) c same_registered(1) [OF rd(2)] e1(2) by simp
  have "mcRegistryCleanupRoot fs = (MC_DRV_OK, fs2)"
    using rd(1) l cleanup_sps_free [OF f] rm ok by (simp add: mcRegistryCleanupRoot_def)
  then show ?thesis using rk(1,2) ok same_registered(1) [OF rd(2)] by auto
qed

lemma client_store_env:
  assumes g: "client_good w" and v: "valid_key k" and st: "registry_storable k d" and e: "fs_env (w_fs w) = None"
  shows "\<exists>w'. client_store k d w = Some (MC_DRV_OK, w') \<and> client_good w' \<and> fs_env (w_fs w') = None \<and> w_stack w' = w_stack w \<and>
    (\<forall>k'. valid_key k' \<longrightarrow> registered (w_fs w') k' = (if k' = k then Some d else registered (w_fs w) k'))"
proof -
  have lg: "link_good w" and rg: "registry_good (w_fs w)" using g by (simp_all add: client_good_def)
  have l: "length d < 2 ^ 32" using st by (simp add: registry_storable_def MAX_SO_CONT_SIZE_def)
  obtain w' where w': "client_store k d w = Some (fst (registry_store k d (w_fs w)), w')" "link_good w'"
      "w_stack w' = w_stack w" "w_fs w' = snd (registry_store k d (w_fs w))"
    using client_store_eq [OF lg v l] by blast
  obtain fs' where "store_so (key_path (w_fs w) k) d (w_fs w) = (MC_DRV_OK, fs')" "fs_env fs' = fs_env (w_fs w)"
    using store_so_good [OF _ key_dir [OF rg]] rg by (auto simp: registry_good_def)
  then show ?thesis
    using w' e registry_store_works [OF rg v st] registry_store_eq [OF v st, of "w_fs w"]
    by (auto simp: client_good_def)
qed

subsection \<open>Responses\<close>

text \<open>Element \<open>i\<close> of the response is accepted and points to \<open>d\<close>.\<close>

definition rsp_holds :: "cmtstruct \<Rightarrow> u32 \<Rightarrow> bytes \<Rightarrow> bool" where
  "rsp_holds h i d \<longleftrightarrow> (\<exists>off len. (\<forall>off0 len0. getRspElementInfo i (Some h) off0 len0 = Some (True, i + 1, off, len)) \<and>
     rsp_data h off len = Some d)"

lemma store_element_holds:
  "rsp_holds h i d \<Longrightarrow> store_element write h i off ag = on_world (write d) ag"
  by (auto simp: rsp_holds_def store_element_def)

lemma store_two_holds:
  "rsp_holds h i d1 \<Longrightarrow> rsp_holds h (i + 1) d2 \<Longrightarrow>
   store_two inner outer h i off ag = Option.bind (on_world (inner d2) ag) (\<lambda>(mcRet, ag1).
     if mcRet = MC_DRV_OK then outer d1 ag1 else Some (mcRet, ag1))"
  using store_element_holds [of h "i + 1" d2 inner]
  by (auto simp: store_two_def rsp_holds_def cong: if_cong)

text \<open>No element of the message wraps around.\<close>

definition rsp_no_wrap :: "bytes \<Rightarrow> bool" where
  "rsp_no_wrap w \<longleftrightarrow> (\<forall>n \<in> {1, 2, 3}. \<forall>off len. ld32 (rsp_element n) w = Some off \<longrightarrow>
     ld32 (rsp_element n + 4) w = Some len \<longrightarrow> unat off + unat len < 2 ^ 32)"

text \<open>The handle after an exchange.\<close>

definition response_ready :: "cmtstruct \<Rightarrow> bool" where
  "response_ready h \<longleftrightarrow> (\<exists>w m. wsmP h = Some w \<and> length w = sizeOfCmp \<and> rsp_no_wrap w \<and>
     mappedP h = Some m \<and> unat (mappedSize h) \<le> length m \<and> 8 \<le> length m)"

lemma element_read:
  assumes r: "response_ready h" and n: "n \<in> {1, 2, 3}"
  shows "\<exists>ok i off len. getRspElementInfo n (Some h) off0 len0 = Some (ok, i, off, len) \<and>
    (ok \<longrightarrow> i = n + 1 \<and> rsp_data h off len \<noteq> None)"
proof -
  obtain w m where w: "wsmP h = Some w" "length w = 40" "rsp_no_wrap w" "mappedP h = Some m"
    "unat (mappedSize h) \<le> length m" using r by (auto simp: response_ready_def sizeOfCmp_def)
  have "rsp_element n + 8 \<le> 40" "n \<noteq> 0" using n by (auto simp: rsp_element_def)
  then obtain a b where ab: "ld32 (rsp_element n) w = Some a" "ld32 (rsp_element n + 4) w = Some b"
    using ld32_Some_iff [of "rsp_element n" w] ld32_Some_iff [of "rsp_element n + 4" w] w(2) by auto
  have nw: "unat a + unat b < 2 ^ 32" using w(3) n ab by (auto simp: rsp_no_wrap_def)
  show ?thesis
  proof (cases "a + b > mappedSize h")
    case True
    then show ?thesis using w(1) ab \<open>n \<noteq> 0\<close> by (auto simp: getRspElementInfo_def)
  next
    case False
    then have i: "getRspElementInfo n (Some h) off0 len0 = Some (True, n + 1, a, b)"
      using w(1) ab \<open>n \<noteq> 0\<close> by (simp add: getRspElementInfo_def)
    have "unat a + unat b \<le> length m" using getRspElementInfo_inside [OF i nw] w(5) by simp
    then show ?thesis using i w(4) by (auto simp: rsp_data_def buf_read_def)
  qed
qed

lemma bind_total: "x \<noteq> None \<Longrightarrow> (\<And>a b. x = Some (a, b) \<Longrightarrow> f a b \<noteq> None) \<Longrightarrow>
   Option.bind x (\<lambda>(a, b). f a b) \<noteq> None"
  by (cases x) auto

lemma on_world_total: "f (ag_world ag) \<noteq> None \<Longrightarrow> on_world f ag \<noteq> None"
  by (simp add: on_world_def)

lemma store_element_total:
  assumes "response_ready h" "n \<in> {1, 2, 3}" "\<And>d w. write d w \<noteq> None"
  shows "store_element write h n off ag \<noteq> None"
proof -
  obtain ok i o' l where "getRspElementInfo n (Some h) off 0 = Some (ok, i, o', l)"
    "ok \<longrightarrow> rsp_data h o' l \<noteq> None" using element_read [OF assms(1,2)] by blast
  moreover have "on_world (write d) ag \<noteq> None" for d by (rule on_world_total) (rule assms(3))
  ultimately show ?thesis by (cases ok) (auto simp: store_element_def)
qed

lemma store_two_total:
  assumes r: "response_ready h" and i: "\<And>d w. inner d w \<noteq> None" and o: "\<And>d ag. outer d ag \<noteq> None"
  shows "store_two inner outer h 2 off ag \<noteq> None"
proof -
  have "\<exists>ok j o' l. getRspElementInfo 2 (Some h) off 0 = Some (ok, j, o', l) \<and>
      (ok \<longrightarrow> j = 3 \<and> rsp_data h o' l \<noteq> None)" using element_read [OF r, of 2 off 0] by simp
  then obtain ok j o' l where e: "getRspElementInfo 2 (Some h) off 0 = Some (ok, j, o', l)"
    "ok \<longrightarrow> j = 3 \<and> rsp_data h o' l \<noteq> None" by blast
  have s: "store_element inner h 3 o' ag \<noteq> None" by (rule store_element_total [OF r _ i]) simp
  have "\<exists>r ag'. outer d ag1 = Some (r, ag')" for d ag1 using o [of d ag1] by auto
  with e s show ?thesis by (cases ok) (auto simp: store_two_def)
qed

lemma retire_auth_token_total: "retire_auth_token ag \<noteq> None"
proof -
  obtain ret buf n w where r: "regReadAuthToken (ag_world ag) = Some ((ret, buf, n), w)"
    "\<forall>b. buf = Some b \<longrightarrow> length b = CONTAINER_BUFFER_SIZE \<and> unat n \<le> CONTAINER_BUFFER_SIZE"
    using reg_reads_ok(1) unfolding read_ok_def by metis
  have d: "on_world regDeleteAuthToken a \<noteq> None" for a by (rule on_world_total) (rule reg_writes_total)
  have wr: "on_world (regWriteAuthToken x) a \<noteq> None" for x a by (rule on_world_total) (rule reg_writes_total)
  have c: "on_world regCleanupRoot a \<noteq> None" for a by (rule on_world_total) (rule reg_writes_total)
  have again: "Option.bind (buf_read 0 (unat n) at) (\<lambda>d. Option.bind (on_world (regWriteAuthToken d) ag2)
      (\<lambda>(mcRet2, ag3). if mcRet2 = MC_DRV_OK then map_option (\<lambda>(_, ag4). (mcRet2, ag4)) (on_world regCleanupRoot ag3)
        else Some (mcRet2, ag3))) \<noteq> None" if "buf = Some at" for at ag2
  proof -
    have "buf_read 0 (unat n) at = Some (take (unat n) at)" using r(2) that by (simp add: buf_read_def)
    moreover have "Option.bind (on_world (regWriteAuthToken x) ag2)
      (\<lambda>(mcRet2, ag3). if mcRet2 = MC_DRV_OK then map_option (\<lambda>(_, ag4). (mcRet2, ag4)) (on_world regCleanupRoot ag3)
        else Some (mcRet2, ag3)) \<noteq> None" for x
      by (rule bind_total [OF wr]) (use c in \<open>simp del: not_None_eq\<close>)
    ultimately show ?thesis by simp
  qed
  have "Option.bind (on_world regDeleteAuthToken (ag\<lparr>ag_world := w\<rparr>)) (\<lambda>(mcRet, ag2).
       if mcRet = MC_DRV_OK then Some (mcRet, ag2)
       else (case buf of None \<Rightarrow> Some (mcRet, ag2)
         | Some at \<Rightarrow> Option.bind (buf_read 0 (unat n) at) (\<lambda>d.
             Option.bind (on_world (regWriteAuthToken d) ag2) (\<lambda>(mcRet2, ag3).
               if mcRet2 = MC_DRV_OK
               then map_option (\<lambda>(_, ag4). (mcRet2, ag4)) (on_world regCleanupRoot ag3)
               else Some (mcRet2, ag3))))) \<noteq> None"
    by (rule bind_total [OF d]) (use again in \<open>auto split: option.split simp del: not_None_eq\<close>)
  then show ?thesis
    using r(1) by (simp add: retire_auth_token_def on_world_def [of regReadAuthToken])
qed

lemma storeContainers_total:
  assumes r: "response_ready h"
  shows "storeContainers c h 2 off ag \<noteq> None"
proof -
  have w: "on_world regCleanupRoot a \<noteq> None" "on_world (regCleanupSp s) a \<noteq> None"
    "on_world (regCleanupTlt u s) a \<noteq> None" "on_world (regWriteSp s d) a \<noteq> None"
    "on_world (regWriteRoot d) a \<noteq> None" for a s u d
    by (rule on_world_total, rule reg_writes_total)+
  have e: "store_element wr h 2 off a \<noteq> None" if "\<And>d w. wr d w \<noteq> None" for wr a
    by (rule store_element_total [OF r _ that]) simp
  have e1: "store_element regWriteAuthToken h 2 off a \<noteq> None" "store_element regWriteRoot h 2 off a \<noteq> None"
    "store_element (regWriteSp s) h 2 off a \<noteq> None"
    "store_element (\<lambda>d. regWriteTlt u d s) h 2 off a \<noteq> None" for a s u
    by (rule e, rule reg_writes_total)+
  have s1: "store_registered_root h 2 off ag \<noteq> None"
    unfolding store_registered_root_def
    by (rule bind_total [OF e1(2)]) (simp add: retire_auth_token_total del: not_None_eq)
  have s2: "store_registered_sp h 2 off ag \<noteq> None"
    unfolding store_registered_sp_def by (rule store_two_total [OF r reg_writes_total(3) w(5)])
  have "Option.bind (on_world (regWriteSp s d) a) (\<lambda>(mcRet, ag2).
          if mcRet \<noteq> MC_DRV_OK then map_option (\<lambda>(_, ag3). (mcRet, ag3)) (on_world (regCleanupTlt u s) ag2)
          else Some (mcRet, ag2)) \<noteq> None" for s d a u
    by (rule bind_total [OF w(4)]) (use w(3) in \<open>simp del: not_None_eq\<close>)
  then have s3: "store_registered_tlt h 2 off ag \<noteq> None"
    unfolding store_registered_tlt_def by (rule store_two_total [OF r reg_writes_total(4)])
  have s4: "store_unregistered (regCleanupSp s) regWriteRoot h 2 off ag \<noteq> None"
    "store_unregistered (regCleanupTlt u s) (regWriteSp s) h 2 off ag \<noteq> None" for s u
    unfolding store_unregistered_def by (rule bind_total [OF w(2) e1(2)], rule bind_total [OF w(3) e1(3)])
  show ?thesis
    unfolding storeContainers_def using s1 s2 s3 s4 e1 w by (simp del: not_None_eq)
qed

lemma agent_store:
  assumes g: "client_good (ag_world ag)" and v: "valid_key k" and st: "registry_storable k d"
  shows "\<exists>w. on_world (client_store k d) ag = Some (MC_DRV_OK, ag\<lparr>ag_world := w\<rparr>) \<and> client_good w \<and>
    (\<forall>k'. valid_key k' \<longrightarrow> registered (w_fs w) k' = (if k' = k then Some d else registered (w_fs (ag_world ag)) k'))"
  using client_store_works [OF g v st] by (auto simp: on_world_def)

abbreviation ag_registered :: "agent \<Rightarrow> reg_key \<Rightarrow> bytes option" where
  "ag_registered ag \<equiv> registered (w_fs (ag_world ag))"

subsection \<open>Agents and responses to apply the properties to\<close>

definition quiet_driver :: driver where
  "quiet_driver = \<lparr>dr_out = (\<lambda>_. 0), dr_calls = 0, dr_devices = 0, dr_wsms = 0, dr_sessions = 0, dr_maps = 0,
     dr_memory = (\<lambda>_. 0), dr_addr = (\<lambda>_. 0), dr_tee = (\<lambda>_ w m. (w, m)), dr_turns = 0\<rparr>"

definition quiet_agent :: "fs \<Rightarrow> agent" where
  "quiet_agent fs = \<lparr>ag_world = quiet_world fs, ag_driver = quiet_driver, static_spid = 7,
     static_tltUuid = replicate 16 0xAB, callbackP = True, ag_events = [], static_handle = None\<rparr>"

lemma quiet_agent_simps [simp]: "ag_world (quiet_agent fs) = quiet_world fs" "static_spid (quiet_agent fs) = 7"
  "static_tltUuid (quiet_agent fs) = replicate 16 0xAB"
  by (simp_all add: quiet_agent_def)

text \<open>A response to command \<open>c\<close> with a return code in element 1 and \<open>d2\<close>, \<open>d3\<close> in 2 and 3.\<close>

definition response_with :: "u32 \<Rightarrow> u32 \<Rightarrow> bytes \<Rightarrow> bytes \<Rightarrow> cmtstruct" where
  "response_with c code d2 d3 =
     (let l2 = of_nat (length d2); l3 = of_nat (length d3)
      in empty_handle\<lparr>
        wsmP := Some (enc32 CMP_VERSION @ enc32 (RSP_ID c) @ enc32 0 @ enc32 0 @ enc32 8 @
          enc32 8 @ enc32 l2 @ enc32 (8 + l2) @ enc32 l3 @ enc32 0),
        mappedP := Some (enc32 0 @ enc32 code @ d2 @ d3), mappedSize := 8 + l2 + l3\<rparr>)"

lemma ld32_pre: "ld32 0 (enc32 x @ b) = Some x" "4 \<le> k \<Longrightarrow> ld32 k (enc32 x @ b) = ld32 (k - 4) b"
  by (simp_all add: ld32_def buf_read_def)

lemma response_with_words:
  "wsmP (response_with c code d2 d3) = Some w \<Longrightarrow> ld32 0 w = Some CMP_VERSION \<and> ld32 4 w = Some (RSP_ID c) \<and>
   ld32 12 w = Some 0 \<and> ld32 16 w = Some 8 \<and> ld32 20 w = Some 8 \<and> ld32 24 w = Some (of_nat (length d2)) \<and>
   ld32 28 w = Some (8 + of_nat (length d2)) \<and> ld32 32 w = Some (of_nat (length d3)) \<and> length w = 40"
  by (auto simp: response_with_def Let_def ld32_pre)

lemma response_with_holds:
  assumes "length d2 \<le> 2000" "length d3 \<le> 2000"
  shows "rsp_holds (response_with c code d2 d3) 2 d2" "rsp_holds (response_with c code d2 d3) 3 d3"
    "response_ready (response_with c code d2 d3)"
proof -
  let ?h = "response_with c code d2 d3"
  obtain w where w: "wsmP ?h = Some w" by (simp add: response_with_def Let_def)
  note ws = response_with_words [OF w]
  have u: "unat (of_nat (length d2) :: u32) = length d2" "unat (of_nat (length d3) :: u32) = length d3"
    using assms by (simp_all add: unat_of_nat_u32)
  have s: "unat (8 + of_nat (length d2) :: u32) = 8 + length d2"
    using unat_add_no_wrap [of 8 "of_nat (length d2)"] u assms by simp
  have s3: "unat (8 + of_nat (length d2) + of_nat (length d3) :: u32) = 8 + length d2 + length d3"
    using unat_add_no_wrap [of "8 + of_nat (length d2)" "of_nat (length d3)"] s u assms by simp
  have m: "mappedSize ?h = 8 + of_nat (length d2) + of_nat (length d3)"
    "mappedP ?h = Some (enc32 0 @ enc32 code @ d2 @ d3)" by (simp_all add: response_with_def Let_def)
  have le: "8 + of_nat (length d2) \<le> (8 + of_nat (length d2) + of_nat (length d3) :: u32)"
    using s s3 by (simp add: word_le_nat_alt)
  show "rsp_holds ?h 2 d2"
    unfolding rsp_holds_def
    by (rule exI [of _ 8], rule exI [of _ "of_nat (length d2)"])
      (use w ws m le u in \<open>simp add: getRspElementInfo_def rsp_element_def rsp_data_def buf_read_def not_less\<close>)
  show "rsp_holds ?h 3 d3"
    unfolding rsp_holds_def
    by (rule exI [of _ "8 + of_nat (length d2)"], rule exI [of _ "of_nat (length d3)"])
      (use w ws m u s in \<open>simp add: getRspElementInfo_def rsp_element_def rsp_data_def buf_read_def\<close>)
  show "response_ready ?h"
    using w ws m u s s3 assms
    by (auto simp: response_ready_def sizeOfCmp_def rsp_no_wrap_def rsp_element_def)
qed

lemma handleResponse_defined:
  assumes "response_ready h"
  shows "handleResponse c rsp h ag \<noteq> None"
proof -
  obtain w m where w: "wsmP h = Some w" "length w = 40" "mappedP h = Some m" "8 \<le> length m"
    using assms by (auto simp: response_ready_def sizeOfCmp_def)
  obtain a b where ab: "ld32 0 w = Some a" "ld32 4 w = Some b"
    using w ld32_Some_iff [of 0 w] ld32_Some_iff [of 4 w] by auto
  have v: "isValidResponseTo c (wsmP h) \<noteq> None"
    using w(1) ab by (cases "a = CMP_VERSION"; cases "IS_RSP b")
      (simp_all add: isValidResponseTo_def isValidResponse_def getRspCmpVersion_def getRspCmpId_def)
  obtain ok i off len where e: "getRspElementInfo 1 (Some h) 0 (cmp_length rsp) = Some (ok, i, off, len)"
    using element_read [OF assms, of 1] by blast
  obtain ok1 i1 off1 len1 where e1: "getRspElementInfo 1 (Some h) 0 0 = Some (ok1, i1, off1, len1)"
    "ok1 \<longrightarrow> i1 = 2 \<and> rsp_data h off1 len1 \<noteq> None"
    using element_read [OF assms, of 1 0 0] by auto
  obtain code where "getCmpReturnCode (mappedP h) = Some code"
    using w ld32_Some_iff [of 4 m] by (auto simp: getCmpReturnCode_def)
  then have cd: "getCmpReturnCode (mappedP h) \<noteq> None" by simp
  have al: "allocateResponseBuffer rsp h ag \<noteq> None" using e by (simp add: allocateResponseBuffer_def)
  have st: "storeContainers c h 2 off1 ag1 \<noteq> None" for ag1 by (rule storeContainers_total [OF assms])
  show ?thesis
    using v e1 cd al st
    by (auto simp: handleResponse_def Let_def bind_eq_None_conv case_prod_unfold simp del: not_None_eq)
qed

lemma allocate_outcome:
  assumes "allocateResponseBuffer rsp h ag = Some (r, rs, ag1)"
  shows "w_fs (ag_world ag1) = w_fs (ag_world ag) \<and> r \<noteq> ROOTPA_ERROR_COMMAND_EXECUTION"
  using assms
  by (auto simp: allocateResponseBuffer_def ag_malloc_def malloc_def Let_def split: if_splits option.splits prod.splits)

lemma prepareCommand_defined:
  assumes "exchange_ready c cmd h"
  shows "prepareCommand c cmd h rsp ag \<noteq> None"
proof -
  obtain p where p: "prepare_message c cmd h ag = Some (True, p)" "prep_inv p" "\<not> pr_moved p" "pr_index p = 2"
    "pr_offset p = cmp_length cmd" "mappedSize (pr_handle p) = mappedSize h"
    using prepare_message_ready [OF assms] by blast
  have e: "getTotalMappedBufferSize c (cmp_length cmd) \<le> mappedSize h"
    "getTotalMappedBufferSize c (cmp_length cmd) \<noteq> 0"
    "unat (cmp_length cmd) < 2 ^ 31" using assms by (auto simp: exchange_ready_def)
  obtain m cc rc where info: "getCmpSizeInfo c = Some (m, cc, rc)" using supported e(2) by metis
  have total: "max m (unat (cmp_length cmd)) + max cc rc \<le> unat (mappedSize h)"
    using total_size [OF info, of "cmp_length cmd"] e by (simp add: word_le_nat_alt)
  note mem = getCmpSizeInfo_member [OF info]
  have "c \<in> reads_fields \<longrightarrow> 32 \<le> unat (mappedSize (pr_handle p))"
    using read_field_sizes(1) [OF mem] total p(6) by auto
  moreover have "c = MC_CMP_CMD_BEGIN_SP_AUTHENTICATION \<longrightarrow>
      unat (pr_offset p) + 512 \<le> unat (mappedSize (pr_handle p))"
    using read_field_sizes(2) [of m cc rc] mem total p(5,6) by auto
  ultimately have "prepare_switch c p \<noteq> None"
    using prepare_switch_safe [OF p(2-4), of c] p(5) e(3) by simp
  then show ?thesis using p(1) by (auto simp: prepareCommand_def)
qed

subsection \<open>Properties\<close>

text \<open>C19. Preparing a command never reads or writes outside its buffers and never uses the pointer
  to the command after the buffer has moved, for every supported command, every content, every
  state of the registry and every failure of allocations, files and connections.\<close>

theorem prepareCommand_safe:
  assumes "exchange_ready c cmd h"
  shows "prepareCommand c cmd h rsp ag \<noteq> None"
  using assms by (rule prepareCommand_defined)

definition soc_command :: cmp_message where
  "soc_command = \<lparr>cmp_length = 16, contentP = Some (enc32 MC_CMP_CMD_BEGIN_SOC_AUTHENTICATION @ replicate 12 0),
     hdr = \<lparr>ignoreError = False, msg_ret = 0, intRet = 0, msg_id = 1\<rparr>\<rparr>"

definition soc_handle :: cmtstruct where
  "soc_handle = empty_handle\<lparr>wsmP := Some (replicate 40 0), mappedP := Some (replicate 224 0), mappedSize := 224\<rparr>"

lemma prepareCommand_safe_witness:
  "prepareCommand MC_CMP_CMD_BEGIN_SOC_AUTHENTICATION soc_command soc_handle soc_command
     (quiet_agent empty_registry) \<noteq> None"
  by (rule prepareCommand_safe)
    (simp add: exchange_ready_def soc_command_def soc_handle_def sizeOfCmp_def getTotalMappedBufferSize_def
      getCmpSizeInfo_def sizeTable_def container_sizes bigger_def)

text \<open>C28. The message that starts the authentication of a service provider carries the command, the
  root container and the container of the service provider named in the command, one behind the
  other in the mapped buffer, with the offset and length of each in the element table and the
  version, the command id and the mapping in the header.\<close>

theorem sp_authentication_message:
  assumes ready: "exchange_ready MC_CMP_CMD_BEGIN_SP_AUTHENTICATION cmd h" and g: "client_good (ag_world ag)"
    and cmd: "contentP cmd = Some content" "16 \<le> length content" "ld32 12 content = Some spid" "spid \<noteq> 0"
    and root: "ag_registered ag KRoot = Some r" "r \<noteq> []" "length r \<le> SIZEOFROOTCONTAINER"
    and sp: "ag_registered ag (KSp spid) = Some s" "s \<noteq> []" "length s \<le> SIZEOFSPCONTAINER"
  shows "\<exists>h' rsp' ag' w m. prepareCommand MC_CMP_CMD_BEGIN_SP_AUTHENTICATION cmd h rsp ag = Some (ROOTPA_OK, h', rsp', ag') \<and>
    wsmP h' = Some w \<and> mappedP h' = Some m \<and>
    take (length content + length r + length s) m = content @ r @ s \<and>
    map (\<lambda>i. ld32 i w) [0, 4, 8, 12] =
      map Some [CMP_VERSION, MC_CMP_CMD_BEGIN_SP_AUTHENTICATION, mapInfo_addr h, mapInfo_len h] \<and>
    map (\<lambda>i. map_option unat (ld32 i w)) [16, 20, 24, 28, 32, 36] =
      map Some [0, length content, length content, length r, length content + length r, length s]"
proof -
  let ?c = MC_CMP_CMD_BEGIN_SP_AUTHENTICATION
  have e: "getTotalMappedBufferSize ?c (cmp_length cmd) \<le> mappedSize h" "unat (cmp_length cmd) < 2 ^ 31"
    "length content = unat (cmp_length cmd)" using ready cmd(1) by (auto simp: exchange_ready_def)
  have "getCmpSizeInfo ?c = Some (76, 616, 0)"
    by (simp add: getCmpSizeInfo_def sizeTable_def container_sizes)
  from total_size [OF this, of "cmp_length cmd"] e
  have sz: "max 76 (length content) + 616 \<le> unat (mappedSize h)" by (simp add: word_le_nat_alt)
  have lens: "length r \<le> 220" "length s \<le> 396" using root(3) sp(3) by (simp_all add: container_sizes)
  obtain p w0 m0 where p: "prepare_message ?c cmd h ag = Some (True, p)" "\<not> pr_moved p" "pr_index p = 2"
    "pr_offset p = cmp_length cmd" "mappedSize (pr_handle p) = mappedSize h" "pr_agent p = ag"
    "wsmP (pr_handle p) = Some w0" "length w0 = 40" "ld32 0 w0 = Some CMP_VERSION" "ld32 4 w0 = Some ?c"
    "ld32 8 w0 = Some (mapInfo_addr h)" "ld32 12 w0 = Some (mapInfo_len h)"
    "ld32 16 w0 = Some 0" "ld32 20 w0 = Some (cmp_length cmd)" "mappedP (pr_handle p) = Some m0"
    "length m0 = unat (mappedSize h)" "content = take (length content) m0"
    using prepare_message_ready [OF ready, of ag] cmd(1) e(3) by auto
  have rr: "client_readable KRoot 4096 r" and rs: "client_readable (KSp spid) 4096 s"
    using root(2) sp(2) lens by (auto simp: client_readable_def registry_readable_def MAX_DATA_SIZE_def)
  have fits: "unat (cmp_length cmd) + length r \<le> unat (mappedSize h)"
    "length content + length r + length s \<le> unat (mappedSize h)" using sz lens e(3) by linarith+
  obtain p1 w1 m1 where p1: "add_container (reg_read KRoot) p = Some p1" "pr_ret p1 = ROOTPA_OK"
    "\<not> pr_moved p1" "pr_index p1 = 3" "unat (pr_offset p1) = length content + length r"
    "mappedSize (pr_handle p1) = mappedSize h" "wsmP (pr_handle p1) = Some w1" "length w1 = 40"
    "ld32 24 w1 = Some (cmp_length cmd)" "ld32 28 w1 = Some (of_nat (length r))"
    "\<And>j. j + 4 \<le> 24 \<Longrightarrow> ld32 j w1 = ld32 j w0" "mappedP (pr_handle p1) = Some m1" "length m1 = length m0"
    "take (length content + length r) m1 = content @ r" "client_good (ag_world (pr_agent p1))"
    "ag_registered (pr_agent p1) = ag_registered ag"
    using add_container_appends [of p KRoot r w0 m0] p g root(1) rr sz lens e(3) fits
    by (auto simp: cmd_element_def)
  have spid: "cmd_spid p1 = Some spid"
  proof -
    have "take 16 m1 = take 16 content"
      using arg_cong [OF p1(14), of "take 16"] cmd(2) by (simp add: min_def)
    then have "drop 12 (take 16 m1) = drop 12 (take 16 content)" by (rule arg_cong)
    then have "take 4 (drop 12 m1) = take 4 (drop 12 content)" by (simp add: drop_take)
    moreover have "16 \<le> length m1" using p1(13) p(16) sz by simp
    ultimately have "ld32 12 m1 = ld32 12 content" using cmd(2) by (simp add: ld32_def buf_read_def)
    then show ?thesis using p1(3,12) cmd(3) by (simp add: cmd_spid_def out_command_def)
  qed
  obtain p2 w2 m2 where p2: "add_container (reg_read (KSp spid)) p1 = Some p2" "pr_ret p2 = ROOTPA_OK"
    "wsmP (pr_handle p2) = Some w2" "ld32 32 w2 = Some (pr_offset p1)" "ld32 36 w2 = Some (of_nat (length s))"
    "\<And>j. j + 4 \<le> 32 \<Longrightarrow> ld32 j w2 = ld32 j w1" "mappedP (pr_handle p2) = Some m2"
    "take (length content + length r + length s) m2 = content @ r @ s"
    using add_container_appends [of p1 "KSp spid" s w1 m1] p1 p(16) cmd(4) sp(1) rs sz lens fits
    by (auto simp: cmd_element_def)
  have "prepare_switch ?c p = Some p2"
    using p1(1,2) p2(1) spid by (simp add: prepare_switch_def addRootContainer_def addSpContainer_def reg_reads)
  then have "\<exists>rsp' ag'. prepareCommand ?c cmd h rsp ag = Some (ROOTPA_OK, pr_handle p2, rsp', ag')"
    using p(1) p2(2) by (simp add: prepareCommand_def)
  moreover have "unat (of_nat (length r) :: u32) = length r" "unat (of_nat (length s) :: u32) = length s"
    using lens by (simp_all add: unat_of_nat_u32)
  ultimately show ?thesis
    using p2 p1(5,9,10,11) p(9-14) e(3) by auto
qed

definition sp_command :: cmp_message where
  "sp_command = \<lparr>cmp_length = 76, contentP = Some (enc32 MC_CMP_CMD_BEGIN_SP_AUTHENTICATION @ replicate 8 0 @
     enc32 7 @ replicate 60 0),
     hdr = \<lparr>ignoreError = False, msg_ret = 0, intRet = 0, msg_id = 1\<rparr>\<rparr>"

definition sp_handle :: cmtstruct where
  "sp_handle = empty_handle\<lparr>wsmP := Some (replicate 40 0), mappedP := Some (replicate 692 0), mappedSize := 692\<rparr>"

lemma sp_authentication_message_witness:
  "\<exists>h' rsp' ag' m. prepareCommand MC_CMP_CMD_BEGIN_SP_AUTHENTICATION sp_command sp_handle sp_command
     (quiet_agent (stocked_registry [(KRoot, [1, 2]), (KSp 7, [3])])) = Some (ROOTPA_OK, h', rsp', ag') \<and>
     mappedP h' = Some m \<and> take 79 m = the (contentP sp_command) @ [1, 2, 3]"
proof -
  let ?ag = "quiet_agent (stocked_registry [(KRoot, [1, 2]), (KSp 7, [3])])"
  let ?c = "enc32 MC_CMP_CMD_BEGIN_SP_AUTHENTICATION @ replicate 8 0 @ enc32 7 @ replicate 60 0"
  have "exchange_ready MC_CMP_CMD_BEGIN_SP_AUTHENTICATION sp_command sp_handle"
    by (simp add: exchange_ready_def sp_command_def sp_handle_def sizeOfCmp_def getTotalMappedBufferSize_def
      getCmpSizeInfo_def sizeTable_def container_sizes bigger_def)
  moreover have "ld32 12 ?c = Some 7" by (simp add: ld32_def buf_read_def)
  ultimately show ?thesis
    using sp_authentication_message [of sp_command sp_handle ?ag ?c 7 "[1, 2]" "[3]" sp_command]
    by (auto simp: sp_command_def registered_stocked container_sizes)
qed

text \<open>C26. Handling a response never reads outside the message or the mapped buffer, whatever the
  trustlet answered and however the registry fails, as long as no element of the message ends
  beyond 32 bits.\<close>

theorem handleResponse_safe:
  assumes "response_ready h"
  shows "handleResponse c rsp h ag \<noteq> None"
  using assms by (rule handleResponse_defined)

lemma handleResponse_safe_witness:
  "handleResponse MC_CMP_CMD_SP_CONT_REGISTER soc_command
     (response_with MC_CMP_CMD_SP_CONT_REGISTER 0 [1, 2] [3, 4, 5]) (quiet_agent empty_registry) \<noteq> None"
  by (rule handleResponse_safe) (rule response_with_holds, simp_all)

text \<open>C20. Registering a service provider stores both containers of the response, the service
  provider's under the id of the command and the root's, and nothing else changes.\<close>

theorem registering_sp_stores_both:
  assumes "client_good (ag_world ag)" and "rsp_holds h i root" and "rsp_holds h (i + 1) sp"
    and "length root \<le> 3 * MAX_SO_CONT_SIZE" and "length sp \<le> 3 * MAX_SO_CONT_SIZE" and "static_spid ag \<noteq> 0"
    and "c \<in> {MC_CMP_CMD_SP_CONT_REGISTER, MC_CMP_CMD_SP_CONT_REGISTER_ACTIVATE}" and "valid_key k"
  shows "\<exists>ag'. storeContainers c h i off ag = Some (MC_DRV_OK, ag') \<and>
    ag_registered ag' k = (if k = KRoot then Some root else if k = KSp (static_spid ag) then Some sp
      else ag_registered ag k)"
proof -
  obtain w1 where w1: "on_world (client_store (KSp (static_spid ag)) sp) ag = Some (MC_DRV_OK, ag\<lparr>ag_world := w1\<rparr>)"
    "client_good w1" "\<And>k'. valid_key k' \<Longrightarrow> registered (w_fs w1) k' =
      (if k' = KSp (static_spid ag) then Some sp else ag_registered ag k')"
    using agent_store [OF assms(1), of "KSp (static_spid ag)" sp] assms(5,6) by (auto simp: registry_storable_def)
  obtain w2 where w2: "on_world (client_store KRoot root) (ag\<lparr>ag_world := w1\<rparr>) = Some (MC_DRV_OK, ag\<lparr>ag_world := w2\<rparr>)"
    "\<And>k'. valid_key k' \<Longrightarrow> registered (w_fs w2) k' = (if k' = KRoot then Some root else registered (w_fs w1) k')"
    using agent_store [of "ag\<lparr>ag_world := w1\<rparr>" KRoot root] w1(2) assms(4) by (auto simp: registry_storable_def)
  have "store_registered_sp h i off ag = Some (MC_DRV_OK, ag\<lparr>ag_world := w2\<rparr>)"
    using w1(1) w2(1) by (simp add: store_registered_sp_def store_two_holds [OF assms(2,3)] reg_writes)
  then have "storeContainers c h i off ag = Some (MC_DRV_OK, ag\<lparr>ag_world := w2\<rparr>)"
    using assms(7) by (auto simp: storeContainers_def)
  then show ?thesis using w1(3) [OF assms(8)] w2(2) [OF assms(8)] by auto
qed

lemma registering_sp_stores_both_witness:
  "\<exists>ag'. storeContainers MC_CMP_CMD_SP_CONT_REGISTER
      (response_with MC_CMP_CMD_SP_CONT_REGISTER 0 [1, 2] [3, 4, 5]) 2 0 (quiet_agent empty_registry) =
      Some (MC_DRV_OK, ag') \<and> ag_registered ag' (KSp 7) = Some [3, 4, 5]"
  using registering_sp_stores_both [of "quiet_agent empty_registry"
      "response_with MC_CMP_CMD_SP_CONT_REGISTER 0 [1, 2] [3, 4, 5]" 2 "[1, 2]" "[3, 4, 5]"
      MC_CMP_CMD_SP_CONT_REGISTER "KSp 7"]
  by (simp add: response_with_holds MAX_SO_CONT_SIZE_def)

text \<open>C33. When the service provider container of a registration is rejected, the root container
  that lists it is not stored either, and the registry is as before.\<close>

theorem rejected_sp_keeps_root:
  assumes "client_good (ag_world ag)" and "rsp_holds h i root" and "rsp_holds h (i + 1) sp"
    and "3 * MAX_SO_CONT_SIZE < length sp" and "length sp < 2 ^ 32" and "static_spid ag \<noteq> 0"
    and "c \<in> {MC_CMP_CMD_SP_CONT_REGISTER, MC_CMP_CMD_SP_CONT_REGISTER_ACTIVATE}"
  shows "\<exists>ag'. storeContainers c h i off ag = Some (MC_DRV_ERR_INVALID_PARAMETER, ag') \<and>
    ag_registered ag' = ag_registered ag"
proof -
  have st: "registry_store (KSp (static_spid ag)) sp fs = (MC_DRV_ERR_INVALID_PARAMETER, fs)" for fs
    using assms(4) by (simp add: mcRegistryStoreSp_def)
  have lg: "link_good (ag_world ag)" using assms(1) by (simp add: client_good_def)
  obtain w where w: "client_store (KSp (static_spid ag)) sp (ag_world ag) = Some (MC_DRV_ERR_INVALID_PARAMETER, w)"
    "w_fs w = w_fs (ag_world ag)"
    using client_store_eq [OF lg, of "KSp (static_spid ag)" sp] assms(5,6) st by auto
  have "store_registered_sp h i off ag = Some (MC_DRV_ERR_INVALID_PARAMETER, ag\<lparr>ag_world := w\<rparr>)"
    using w(1) by (simp add: store_registered_sp_def store_two_holds [OF assms(2,3)] reg_writes on_world_def)
  then have "storeContainers c h i off ag = Some (MC_DRV_ERR_INVALID_PARAMETER, ag\<lparr>ag_world := w\<rparr>)"
    using assms(7) by (auto simp: storeContainers_def)
  then show ?thesis using w(2) by simp
qed

lemma rejected_sp_keeps_root_witness:
  "\<exists>ag'. storeContainers MC_CMP_CMD_SP_CONT_REGISTER
      (response_with MC_CMP_CMD_SP_CONT_REGISTER 0 [1, 2] (replicate 1600 3)) 2 0 (quiet_agent empty_registry) =
      Some (MC_DRV_ERR_INVALID_PARAMETER, ag') \<and> ag_registered ag' KRoot = None"
  using rejected_sp_keeps_root [of "quiet_agent empty_registry"
      "response_with MC_CMP_CMD_SP_CONT_REGISTER 0 [1, 2] (replicate 1600 3)" 2 "[1, 2]" "replicate 1600 3"
      MC_CMP_CMD_SP_CONT_REGISTER 0]
  by (auto simp: response_with_holds MAX_SO_CONT_SIZE_def)

text \<open>Activating the root stores the root container and retires the authentication token that
  is registered; nothing else changes.\<close>

lemma registering_root_retires_token:
  assumes "client_good (ag_world ag)" and "fs_env (w_fs (ag_world ag)) = None" and "rsp_holds h i root"
    and "length root \<le> 3 * MAX_SO_CONT_SIZE"
    and "ag_registered ag KAuth = Some at" and "length at = SIZEOFAUTHTOKENCONTAINER" and "valid_key k"
  shows "\<exists>ag'. storeContainers MC_CMP_CMD_ROOT_CONT_REGISTER_ACTIVATE h i off ag = Some (MC_DRV_OK, ag') \<and>
    ag_registered ag' k = (if k = KRoot then Some root else if k = KAuth then None else ag_registered ag k)"
proof -
  have root: "registry_storable KRoot root" using assms(4) by (simp add: registry_storable_def)
  obtain w1 where w1: "client_store KRoot root (ag_world ag) = Some (MC_DRV_OK, w1)" "client_good w1"
    "fs_env (w_fs w1) = None" "\<And>k'. valid_key k' \<Longrightarrow> registered (w_fs w1) k' =
      (if k' = KRoot then Some root else ag_registered ag k')"
    using client_store_env [OF assms(1) _ root assms(2)] by auto
  have at: "registered (w_fs w1) KAuth = Some at" using w1(4) [of KAuth] assms(5) by simp
  have rd: "client_readable KAuth 4096 at"
    using assms(6) by (simp add: client_readable_def registry_readable_def container_sizes)
  obtain buf w2 where w2: "reg_read KAuth w1 = Some ((MC_DRV_OK, Some buf, of_nat (length at)), w2)" "client_good w2"
    "registered (w_fs w2) = registered (w_fs w1)" "fs_env (w_fs w2) = None"
    using reg_read_present_env [OF w1(2) _ at rd w1(3)] by auto
  obtain w3 where w3: "regDeleteAuthToken w2 = Some (MC_DRV_OK, w3)"
    "\<And>k'. valid_key k' \<Longrightarrow> registered (w_fs w3) k' = (if k' = KAuth then None else registered (w_fs w2) k')"
    using delete_token_present [OF w2(2,4)] at w2(3) by auto
  have "retire_auth_token (ag\<lparr>ag_world := w1\<rparr>) = Some (MC_DRV_OK, ag\<lparr>ag_world := w3\<rparr>)"
    using w2(1) w3(1) by (simp add: retire_auth_token_def on_world_def reg_reads)
  then have "storeContainers MC_CMP_CMD_ROOT_CONT_REGISTER_ACTIVATE h i off ag = Some (MC_DRV_OK, ag\<lparr>ag_world := w3\<rparr>)"
    using w1(1) by (simp add: storeContainers_def store_registered_root_def store_element_holds [OF assms(3)]
        reg_writes on_world_def)
  then show ?thesis using w3(2) [OF assms(7)] w2(3) w1(4) [OF assms(7)] by auto
qed

lemma registering_root_retires_token_witness:
  "\<exists>ag'. storeContainers MC_CMP_CMD_ROOT_CONT_REGISTER_ACTIVATE
      (response_with MC_CMP_CMD_ROOT_CONT_REGISTER_ACTIVATE 0 [1, 2] []) 2 0
      (quiet_agent (stocked_registry [(KAuth, replicate 152 5)])) = Some (MC_DRV_OK, ag') \<and>
    ag_registered ag' KAuth = None"
  using registering_root_retires_token [of "quiet_agent (stocked_registry [(KAuth, replicate 152 5)])"
      "response_with MC_CMP_CMD_ROOT_CONT_REGISTER_ACTIVATE 0 [1, 2] []" 2 "[1, 2]" "replicate 152 5" KAuth 0]
  by (simp add: response_with_holds MAX_SO_CONT_SIZE_def registered_stocked container_sizes)

text \<open>Without a registered token the recovery goes wrong although every call works: the root
  container that was just stored is removed again, uninitialised memory of the daemon is stored as
  the token, and success is reported.\<close>

lemma registering_root_without_token:
  assumes "client_good (ag_world ag)" and "fs_env (w_fs (ag_world ag)) = None" and "rsp_holds h i root"
    and "length root = SIZEOFROOTCONTAINER" and "\<forall>s \<in> set (root_children root). s = MC_SPID_FREE"
    and "ag_registered ag KAuth = None"
  shows "\<exists>ag' garbage. storeContainers MC_CMP_CMD_ROOT_CONT_REGISTER_ACTIVATE h i off ag = Some (MC_DRV_OK, ag') \<and>
    ag_registered ag' KRoot = None \<and> ag_registered ag' KAuth = Some garbage \<and>
    garbage = map (w_stack (ag_world ag)) [0..<SIZEOFAUTHTOKENCONTAINER]"
proof -
  let ?g = "map (w_stack (ag_world ag)) [0..<SIZEOFAUTHTOKENCONTAINER]"
  have root: "registry_storable KRoot root" "registry_storable KAuth ?g"
    using assms(4) by (simp_all add: registry_storable_def MAX_SO_CONT_SIZE_def container_sizes)
  obtain w1 where w1: "client_store KRoot root (ag_world ag) = Some (MC_DRV_OK, w1)" "client_good w1"
    "fs_env (w_fs w1) = None" "w_stack w1 = w_stack (ag_world ag)" "\<And>k'. valid_key k' \<Longrightarrow> registered (w_fs w1) k' =
      (if k' = KRoot then Some root else ag_registered ag k')"
    using client_store_env [OF assms(1) _ root(1) assms(2)] by auto
  have at: "registered (w_fs w1) KAuth = None" using w1(5) [of KAuth] assms(6) by simp
  obtain buf w2 where w2: "reg_read KAuth w1 = Some ((MC_DRV_ERR_INVALID_DEVICE_FILE, Some buf,
      of_nat SIZEOFAUTHTOKENCONTAINER), w2)" "buf_read 0 SIZEOFAUTHTOKENCONTAINER buf = Some ?g"
    "client_good w2" "registered (w_fs w2) = registered (w_fs w1)" "fs_env (w_fs w2) = None"
    using reg_read_absent_env [OF w1(2) _ at w1(3)] w1(4) by (auto simp: daemon_read_size_def)
  obtain w3 where w3: "regDeleteAuthToken w2 = Some (MC_DRV_ERR_UNKNOWN, w3)" "client_good w3"
    "registered (w_fs w3) = registered (w_fs w2)" "fs_env (w_fs w3) = None"
    using delete_token_absent [OF w2(3)] at w2(4,5) by auto
  obtain w4 where w4: "client_store KAuth ?g w3 = Some (MC_DRV_OK, w4)" "client_good w4" "fs_env (w_fs w4) = None"
    "\<And>k'. valid_key k' \<Longrightarrow> registered (w_fs w4) k' = (if k' = KAuth then Some ?g else registered (w_fs w3) k')"
    using client_store_env [OF w3(2) _ root(2) w3(4)] by auto
  have "registered (w_fs w4) KRoot = Some root" using w4(4) [of KRoot] w3(3) w2(4) w1(5) [of KRoot] by simp
  then obtain fs' where fs': "mcRegistryCleanupRoot (w_fs w4) = (MC_DRV_OK, fs')" "fs_env fs' = None"
    "\<And>k'. valid_key k' \<Longrightarrow> registered fs' k' = (if k' = KRoot then None else registered (w_fs w4) k')"
    using cleanup_empty_root [OF _ w4(3) _ assms(4,5)] w4(2) by (auto simp: client_good_def)
  obtain w5 where w5: "regCleanupRoot w4 = Some (MC_DRV_OK, w5)" "conts (w_fs w5) = conts fs'"
    using cleanup_root_client [OF _ fs'(1)] w4(2) by (auto simp: client_good_def)
  have r5: "registered (w_fs w5) = registered fs'" using conts_registered(1) [OF w5(2) fs'(2)] .
  have "unat (of_nat SIZEOFAUTHTOKENCONTAINER :: u32) = SIZEOFAUTHTOKENCONTAINER"
    by (simp add: container_sizes)
  then have "retire_auth_token (ag\<lparr>ag_world := w1\<rparr>) = Some (MC_DRV_OK, ag\<lparr>ag_world := w5\<rparr>)"
    using w2(1,2) w3(1) w4(1) w5(1) by (simp add: retire_auth_token_def on_world_def reg_reads reg_writes)
  then have "storeContainers MC_CMP_CMD_ROOT_CONT_REGISTER_ACTIVATE h i off ag = Some (MC_DRV_OK, ag\<lparr>ag_world := w5\<rparr>)"
    using w1(1) by (simp add: storeContainers_def store_registered_root_def store_element_holds [OF assms(3)]
        reg_writes on_world_def)
  then show ?thesis using r5 fs'(3) [of KRoot] fs'(3) [of KAuth] w4(4) [of KAuth] by simp
qed

definition childless_root :: bytes where
  "childless_root = replicate 76 0 @ replicate 64 0xFF @ replicate 80 0"

lemma childless_root_simps: "length childless_root = SIZEOFROOTCONTAINER"
  "\<forall>s \<in> set (root_children childless_root). s = MC_SPID_FREE"
proof -
  have "dec32 [0xFF, 0xFF, 0xFF, 0xFF] = MC_SPID_FREE" by (simp add: dec32_def MC_SPID_FREE_def)
  moreover have "take 4 (drop (76 + 4 * i) childless_root) = [0xFF, 0xFF, 0xFF, 0xFF]" if "i < 16" for i
  proof -
    have "take 4 (drop (76 + 4 * i) childless_root) = replicate 4 0xFF"
      using that by (simp add: childless_root_def min_def)
    then show ?thesis by (simp add: numeral_eq_Suc)
  qed
  ultimately show "\<forall>s \<in> set (root_children childless_root). s = MC_SPID_FREE"
    by (simp add: root_children_def)
qed (simp add: childless_root_def container_sizes)

lemma registering_root_without_token_witness:
  "\<exists>ag'. storeContainers MC_CMP_CMD_ROOT_CONT_REGISTER_ACTIVATE
      (response_with MC_CMP_CMD_ROOT_CONT_REGISTER_ACTIVATE 0 childless_root []) 2 0 (quiet_agent empty_registry) =
      Some (MC_DRV_OK, ag') \<and> ag_registered ag' KRoot = None \<and> ag_registered ag' KAuth = Some (replicate 152 0xAA)"
  using registering_root_without_token [of "quiet_agent empty_registry"
      "response_with MC_CMP_CMD_ROOT_CONT_REGISTER_ACTIVATE 0 childless_root []" 2 childless_root 0]
  by (simp add: response_with_holds childless_root_simps container_sizes map_replicate_const)

text \<open>C35. When the trustlet reports an error, its answer is handed to the caller with the error code,
  and the registry is not touched.\<close>

theorem failed_command_keeps_registry:
  assumes "handleResponse c rsp h ag = Some (ret, rsp', ag')"
    and "getCmpReturnCode (mappedP h) = Some code" and "code \<noteq> CMTL_SUCCESSFUL"
  shows "ret \<noteq> ROOTPA_OK \<and> w_fs (ag_world ag') = w_fs (ag_world ag) \<and>
    (ret = ROOTPA_ERROR_COMMAND_EXECUTION \<and> isValidResponseTo c (wsmP h) = Some True \<longrightarrow>
       intRet (hdr rsp') = code \<and>
       (\<exists>i off len. getRspElementInfo 1 (Some h) 0 0 = Some (True, i, off, len) \<and> contentP rsp' = rsp_data h off len))"
proof (cases "isValidResponseTo c (wsmP h) = Some True")
  case False
  then show ?thesis using assms(1) by (auto simp: handleResponse_def bind_eq_Some_conv)
next
  case valid: True
  obtain r1 rs1 ag1 where al: "allocateResponseBuffer rsp h ag = Some (r1, rs1, ag1)"
    using assms(1) valid by (auto simp: handleResponse_def bind_eq_Some_conv)
  note out = allocate_outcome [OF al]
  show ?thesis
  proof (cases "r1 = ROOTPA_OK")
    case False
    then have "ret = r1" "ag' = ag1" using assms(1) valid al by (auto simp: handleResponse_def)
    then show ?thesis using out False by simp
  next
    case True
    obtain ok i off len where e: "getRspElementInfo 1 (Some h) 0 0 = Some (ok, i, off, len)"
      using assms(1) valid al True by (auto simp: handleResponse_def bind_eq_Some_conv)
    show ?thesis
    proof (cases ok)
      case False
      then show ?thesis using assms(1) valid al True e out by (auto simp: handleResponse_def)
    next
      case ok: True
      obtain d where "rsp_data h off len = Some d"
        using assms(1) valid al True e ok by (auto simp: handleResponse_def bind_eq_Some_conv)
      then show ?thesis
        using assms valid al True e ok out by (auto simp: handleResponse_def Let_def with_intRet_def)
    qed
  qed
qed

lemma failed_command_keeps_registry_witness:
  "\<exists>ret rsp' ag'. handleResponse MC_CMP_CMD_SP_CONT_REGISTER soc_command
      (response_with MC_CMP_CMD_SP_CONT_REGISTER 5 [1, 2] [3, 4, 5]) (quiet_agent empty_registry) = Some (ret, rsp', ag') \<and>
    ret \<noteq> ROOTPA_OK \<and> w_fs (ag_world ag') = empty_registry"
proof -
  let ?h = "response_with MC_CMP_CMD_SP_CONT_REGISTER 5 [1, 2] [3, 4, 5]"
  have "response_ready ?h" by (rule response_with_holds) simp_all
  then obtain ret rsp' ag' where r: "handleResponse MC_CMP_CMD_SP_CONT_REGISTER soc_command ?h (quiet_agent empty_registry) =
      Some (ret, rsp', ag')"
    using handleResponse_defined [of ?h MC_CMP_CMD_SP_CONT_REGISTER soc_command "quiet_agent empty_registry"] by auto
  have "getCmpReturnCode (mappedP ?h) = Some 5"
    by (simp add: response_with_def Let_def getCmpReturnCode_def ld32_pre)
  with r show ?thesis using failed_command_keeps_registry [OF r] by auto
qed

text \<open>On a working connection a factory reset is assumed exactly when neither the token nor the
  root container is registered, for objects of sizes the registry can read back.\<close>

lemma factoryResetAssumed_iff:
  assumes "client_good (ag_world ag)"
    and "\<forall>d. ag_registered ag KAuth = Some d \<longrightarrow> client_readable KAuth 4096 d"
    and "\<forall>d. ag_registered ag KRoot = Some d \<longrightarrow> client_readable KRoot 4096 d"
  shows "\<exists>ag'. factoryResetAssumed ag =
    Some (ag_registered ag KAuth = None \<and> ag_registered ag KRoot = None, ag')"
proof (cases "ag_registered ag KAuth")
  case (Some d)
  then obtain buf w1 where "reg_read KAuth (ag_world ag) = Some ((MC_DRV_OK, Some buf, of_nat (length d)), w1)"
    using reg_read_present [OF assms(1), of KAuth d] assms(2) by auto
  then show ?thesis using Some by (simp add: factoryResetAssumed_def on_world_def reg_reads)
next
  case None
  obtain buf n w1 where w1: "reg_read KAuth (ag_world ag) = Some ((MC_DRV_ERR_INVALID_DEVICE_FILE, buf, n), w1)"
    "client_good w1" "registered (w_fs w1) = ag_registered ag"
    using reg_read_absent [OF assms(1) _ None] by auto
  show ?thesis
  proof (cases "ag_registered ag KRoot")
    case (Some d)
    then obtain buf2 w2 where "reg_read KRoot w1 = Some ((MC_DRV_OK, Some buf2, of_nat (length d)), w2)"
      using reg_read_present [OF w1(2), of KRoot d] w1(3) assms(3) by auto
    then show ?thesis using Some w1 by (simp add: factoryResetAssumed_def on_world_def reg_reads)
  next
    case none: None
    then obtain buf2 n2 w2 where "reg_read KRoot w1 = Some ((MC_DRV_ERR_INVALID_DEVICE_FILE, buf2, n2), w2)"
      using reg_read_absent [OF w1(2), of KRoot] w1(3) by auto
    then show ?thesis using none None w1 by (simp add: factoryResetAssumed_def on_world_def reg_reads)
  qed
qed

lemma factoryResetAssumed_iff_witness:
  "\<exists>ag'. factoryResetAssumed (quiet_agent empty_registry) = Some (True, ag')"
  using factoryResetAssumed_iff [of "quiet_agent empty_registry"] by simp

end
