(* ===== verification/ContentManager.thy ===== *)
theory ContentManager
  imports Pacmp3Facts
begin

text \<open>
  Executing content management commands (src/rootpa/Code/Common/contentmanager.c): the session
  with the trustlet, the exchange of one command, repeated with a bigger buffer as long as the
  trustlet asks for one, and the list of commands with its error policy. A buffer that has been
  freed is \<open>None\<close>, so an access to it makes the result \<open>None\<close>.
\<close>

subsection \<open>The session\<close>

definition closeCmtlSession :: "agent \<Rightarrow> agent" where
  "closeCmtlSession ag = (tltChannelClose (static_handle ag) ag)\<lparr>static_handle := None\<rparr>"

definition openCmtlSession :: "agent \<Rightarrow> u32 \<times> agent" where
  "openCmtlSession ag =
     (let ag1 = (if static_handle ag \<noteq> None then closeCmtlSession ag else ag) in
      case tltChannelOpen sizeOfCmp ag1 of ((error, h), ag2) \<Rightarrow>
        (if h \<noteq> None then ROOTPA_OK
         else if error = MC_DRV_ERR_NO_FREE_MEMORY then ROOTPA_ERROR_OUT_OF_MEMORY
         else ROOTPA_ERROR_MOBICORE_CONNECTION,
         ag2\<lparr>static_handle := h\<rparr>))"

subsection \<open>One command\<close>

text \<open>An attempt ends the loop with a result or asks for another one.\<close>

datatype turn = Finished u32 | Again

type_synonym exchange = "cmtstruct \<times> cmp_message \<times> cmp_message \<times> agent"

text \<open>Behind a successful transmission: is the buffer big enough?\<close>

definition after_transmit :: "exchange \<Rightarrow> (turn \<times> exchange) option" where
  "after_transmit = (\<lambda>(h, cmd, rsp, ag).
     map_option (\<lambda>neededBytes.
       if neededBytes = 0 then (Finished ROOTPA_OK, h, cmd, rsp, ag)
       else if neededBytes = minus_one then (Finished ROOTPA_ERROR_MOBICORE_CONNECTION, h, cmd, rsp, ag)
       else if neededBytes \<le> mappedSize h then (Finished ROOTPA_ERROR_MOBICORE_CONNECTION, h, cmd, rsp, ag)
       else (case on_driver mcUnmap ag of (mcRet, ag1) \<Rightarrow>
         if mcRet \<noteq> MC_DRV_OK
         then (Finished ROOTPA_ERROR_MOBICORE_CONNECTION, h, with_intRet mcRet cmd, with_intRet mcRet rsp, ag1)
         else (Again, h\<lparr>mappedP := None, mapInfo_addr := 0, mapInfo_len := 0, mappedSize := neededBytes\<rparr>,
               cmd, rsp, ag1)))
       (getNeededBytesFromResponse (wsmP h)))"

text \<open>The body of the loop.\<close>

definition cmp_attempt :: "u32 \<Rightarrow> exchange \<Rightarrow> (turn \<times> exchange) option" where
  "cmp_attempt commandId = (\<lambda>(h, cmd, rsp, ag).
     (case ag_malloc (unat (mappedSize h)) ag of
        (None, ag1) \<Rightarrow> Some (Finished ROOTPA_ERROR_OUT_OF_MEMORY, h\<lparr>mappedP := None\<rparr>, cmd, rsp, ag1)
      | (Some _, ag1) \<Rightarrow>
        let h1 = h\<lparr>mappedP := Some (replicate (unat (mappedSize h)) 0)\<rparr> in
        (case on_driver mcMap ag1 of ((mcRet, addr), ag2) \<Rightarrow>
          if mcRet \<noteq> MC_DRV_OK
          then Some (Finished ROOTPA_ERROR_MOBICORE_CONNECTION, h1, with_intRet mcRet cmd, with_intRet mcRet rsp, ag2)
          else Option.bind (prepareCommand commandId cmd
                 (h1\<lparr>mapInfo_addr := addr, mapInfo_len := mappedSize h\<rparr>) rsp ag2) (\<lambda>(ret, h2, rsp1, ag3).
            if ret \<noteq> ROOTPA_OK then Some (Finished ret, h2, cmd, rsp1, ag3)
            else (case tltChannelTransmit (Some h2) ag3 of (ok, h3, ag4) \<Rightarrow>
              let h4 = the h3 in
              if \<not> ok then Some (Finished ROOTPA_ERROR_MOBICORE_CONNECTION, h4,
                  with_intRet (lasterror h4) cmd, with_intRet (lasterror h4) rsp1, ag4)
              else after_transmit (h4, cmd, rsp1, ag4))))))"

text \<open>Every attempt works on a bigger buffer than the one before, so the loop ends.\<close>

definition same_outside :: "prep \<Rightarrow> prep \<Rightarrow> bool" where
  "same_outside p p1 \<longleftrightarrow> mappedSize (pr_handle p1) = mappedSize (pr_handle p) \<and>
     ag_driver (pr_agent p1) = ag_driver (pr_agent p) \<and> static_handle (pr_agent p1) = static_handle (pr_agent p) \<and>
     (prep_inv p \<longrightarrow> prep_inv p1)"

lemma same_outside_refl [simp]: "same_outside p p" "same_outside p (tell st p)"
  by (simp_all add: same_outside_def tell_def callback_def prep_inv_def)

lemma same_outside_trans: "same_outside p q \<Longrightarrow> same_outside q r \<Longrightarrow> same_outside p r"
  by (simp add: same_outside_def)

lemma ensure_same: "same_outside p (snd (ensureMappedBufferSize n p))"
proof -
  obtain ok p1 where e: "ensureMappedBufferSize n p = (ok, p1)" by fastforce
  have "prep_inv p \<longrightarrow> prep_inv p1" using ensure_inv(1) [OF _ e] by blast
  then show ?thesis using e
    by (auto simp: ensureMappedBufferSize_def ag_malloc_def same_outside_def Let_def
      split: option.splits prod.splits if_splits)
qed

lemma setCmdElementInfo_length:
  assumes "setCmdElementInfo n (Some w) off len = Some (n', wsm', off')"
  shows "\<exists>w'. wsm' = Some w' \<and> length w' = length w"
proof (cases "n = 0 \<or> n = 1 \<and> off \<noteq> 0")
  case True
  then show ?thesis using assms by (auto simp: setCmdElementInfo_def)
next
  case False
  then show ?thesis using setCmdElementInfo_written [OF assms] by metis
qed

lemma place_container_same:
  assumes "place_container so n p = Some p1"
  shows "same_outside p p1"
proof -
  obtain ok q where e: "ensureMappedBufferSize (pr_offset p + n) p = (ok, q)" by fastforce
  have q: "same_outside p q" using ensure_same [of p "pr_offset p + n"] e by simp
  show ?thesis
  proof (cases ok)
    case False
    then show ?thesis using assms e q by (auto simp: place_container_def same_outside_def prep_inv_def)
  next
    case True
    then obtain m d m1 i wsm off where x: "mappedP (pr_handle q) = Some m" "buf_write (unat (pr_offset q)) d m = Some m1"
      "setCmdElementInfo (pr_index q) (wsmP (pr_handle q)) (pr_offset q) n = Some (i, wsm, off)"
      "p1 = q\<lparr>pr_handle := (pr_handle q)\<lparr>mappedP := Some m1, wsmP := wsm\<rparr>,
               pr_index := i, pr_offset := off, pr_ret := ROOTPA_OK\<rparr>"
      using assms e by (auto simp: place_container_def bind_eq_Some_conv)
    have "prep_inv p1" if "prep_inv q"
      using that x buf_write_length [OF x(2)] by (auto simp: prep_inv_def dest!: setCmdElementInfo_length)
    then show ?thesis using q x(4) by (auto simp: same_outside_def)
  qed
qed

lemma add_container_same:
  assumes "add_container rd p = Some p1"
  shows "same_outside p p1"
proof -
  have p: "same_outside p (p\<lparr>pr_mcRet := r, pr_agent := (pr_agent p)\<lparr>ag_world := w\<rparr>\<rparr>)"
    "same_outside p (p\<lparr>pr_mcRet := r, pr_agent := (pr_agent p)\<lparr>ag_world := w\<rparr>, pr_ret := x\<rparr>)" for r w x
    by (simp_all add: same_outside_def prep_inv_def)
  show ?thesis
    using assms by (auto simp: add_container_def on_world_def bind_eq_Some_conv Let_def
        intro: same_outside_trans [OF p(1)] p(2) dest!: place_container_same split: if_splits)
qed

lemma take_same: "take_spid p = Some p1 \<Longrightarrow> same_outside p p1" "take_uuid p = Some p1 \<Longrightarrow> same_outside p p1"
  by (auto simp: take_spid_def take_uuid_def same_outside_def prep_inv_def)

lemma take_both_same: "take_spid_uuid p = Some p1 \<Longrightarrow> same_outside p p1"
  by (auto simp: take_spid_uuid_def bind_eq_Some_conv intro: same_outside_trans dest!: take_same)

lemmas adds = addAuthTokenContainer_def addRootContainer_def addSpContainer_def addTltContainer_def

lemma prepare_switch_same: "prepare_switch c p = Some p1 \<Longrightarrow> same_outside p p1"
  by (auto simp: prepare_switch_def adds bind_eq_Some_conv simp del: insert_iff split: if_splits
      dest!: add_container_same take_same take_both_same intro: same_outside_trans [OF same_outside_refl(2)]
      same_outside_trans)

lemma prepare_message_same: "prepare_message c cmd h ag = Some (ok, p) \<Longrightarrow>
    mappedSize (pr_handle p) = mappedSize h \<and> ag_driver (pr_agent p) = ag_driver ag \<and>
    static_handle (pr_agent p) = static_handle ag"
  using ensure_same by (auto simp: prepare_message_def bind_eq_Some_conv Let_def case_prod_unfold same_outside_def
      split: bool.splits)

lemma prepareCommand_same:
  assumes "prepareCommand c cmd h rsp ag = Some (ret, h', rsp', ag')"
  shows "mappedSize h' = mappedSize h" "ag_driver ag' = ag_driver ag" "static_handle ag' = static_handle ag"
proof -
  obtain ok p where p: "prepare_message c cmd h ag = Some (ok, p)" "ok \<longrightarrow> (\<exists>p1. prepare_switch c p = Some p1 \<and>
      h' = pr_handle p1 \<and> ag' = pr_agent p1)" "\<not> ok \<longrightarrow> h' = pr_handle p \<and> ag' = pr_agent p"
    using assms by (auto simp: prepareCommand_def bind_eq_Some_conv split: if_splits)
  have "mappedSize h' = mappedSize h \<and> ag_driver ag' = ag_driver ag \<and> static_handle ag' = static_handle ag"
    using prepare_message_same [OF p(1)] p(2,3) prepare_switch_same [of c p] by (cases ok) (auto simp: same_outside_def)
  then show "mappedSize h' = mappedSize h" "ag_driver ag' = ag_driver ag" "static_handle ag' = static_handle ag"
    by simp_all
qed

lemma after_transmit_grows: "after_transmit (h, cmd, rsp, ag) = Some (Again, h', s) \<Longrightarrow> mappedSize h < mappedSize h'"
  by (auto simp: after_transmit_def split: if_splits prod.splits)

lemma tltChannelTransmit_handle: "tltChannelTransmit (Some h) ag = (ok, h3, ag') \<Longrightarrow>
    \<exists>h4. h3 = Some h4 \<and> mappedSize h4 = mappedSize h"
  by (auto simp: tltChannelTransmit_def Let_def split: prod.splits if_splits)

lemma cmp_attempt_transmitted:
  assumes a: "cmp_attempt c (h, cmd, rsp, ag) = Some (t, s)" and t: "t = Again \<or> t = Finished ROOTPA_OK"
  obtains b ag1 addr ag2 h2 rsp1 ag3 h4 ag4 where "ag_malloc (unat (mappedSize h)) ag = (Some b, ag1)"
    "on_driver mcMap ag1 = ((MC_DRV_OK, addr), ag2)"
    "prepareCommand c cmd (h\<lparr>mappedP := Some (replicate (unat (mappedSize h)) 0), mapInfo_addr := addr,
       mapInfo_len := mappedSize h\<rparr>) rsp ag2 = Some (ROOTPA_OK, h2, rsp1, ag3)"
    "tltChannelTransmit (Some h2) ag3 = (True, Some h4, ag4)" "after_transmit (h4, cmd, rsp1, ag4) = Some (t, s)"
proof -
  obtain bo ag1 where m: "ag_malloc (unat (mappedSize h)) ag = (bo, ag1)" by fastforce
  obtain b where b: "bo = Some b" using a t m by (cases bo) (auto simp: cmp_attempt_def)
  obtain r addr ag2 where p: "on_driver mcMap ag1 = ((r, addr), ag2)" by (metis prod.collapse)
  have r: "r = MC_DRV_OK" using a t m b p by (auto simp: cmp_attempt_def Let_def split: if_splits)
  let ?h = "h\<lparr>mappedP := Some (replicate (unat (mappedSize h)) 0), mapInfo_addr := addr, mapInfo_len := mappedSize h\<rparr>"
  obtain ret h2 rsp1 ag3 where q: "prepareCommand c cmd ?h rsp ag2 = Some (ret, h2, rsp1, ag3)"
    using a m b p r by (auto simp: cmp_attempt_def Let_def bind_eq_Some_conv)
  have ret: "ret = ROOTPA_OK" using a t m b p r q by (auto simp: cmp_attempt_def Let_def split: if_splits)
  obtain ok h3 ag4 where x: "tltChannelTransmit (Some h2) ag3 = (ok, h3, ag4)" by (metis prod.collapse)
  obtain h4 where h4: "h3 = Some h4" using tltChannelTransmit_handle [OF x] by blast
  have ok: ok using a t m b p r q ret x h4 by (auto simp: cmp_attempt_def Let_def split: if_splits)
  have "after_transmit (h4, cmd, rsp1, ag4) = Some (t, s)"
    using a m b p r q ret x h4 ok by (simp add: cmp_attempt_def)
  then show ?thesis using that m b p r q ret x h4 ok by auto
qed

lemma cmp_attempt_grows:
  assumes "cmp_attempt c (h, cmd, rsp, ag) = Some (Again, h', s)"
  shows "mappedSize h < mappedSize h'"
proof -
  obtain b ag1 addr ag2 h2 rsp1 ag3 h4 ag4 where x: "prepareCommand c cmd (h\<lparr>mappedP := b, mapInfo_addr := addr,
       mapInfo_len := mappedSize h\<rparr>) rsp ag2 = Some (ROOTPA_OK, h2, rsp1, ag3)"
    "tltChannelTransmit (Some h2) ag3 = (True, Some h4, ag4)" "after_transmit (h4, cmd, rsp1, ag4) = Some (Again, h', s)"
    using assms by (rule cmp_attempt_transmitted) auto
  show ?thesis
    using after_transmit_grows [OF x(3)] prepareCommand_same(1) [OF x(1)] tltChannelTransmit_handle [OF x(2)] by simp
qed

function (sequential) exchange_loop :: "u32 \<Rightarrow> exchange \<Rightarrow> (u32 \<times> exchange) option" where
  "exchange_loop commandId (h, cmd, rsp, ag) =
     (case cmp_attempt commandId (h, cmd, rsp, ag) of
        None \<Rightarrow> None
      | Some (Finished ret, s) \<Rightarrow> Some (ret, s)
      | Some (Again, s) \<Rightarrow> exchange_loop commandId s)"
  by pat_completeness auto

termination
proof (relation "measure (\<lambda>(c, h, s). 2 ^ 32 - unat (mappedSize h))", simp, clarsimp)
  fix c h cmd rsp ag h' s
  assume "cmp_attempt c (h, cmd, rsp, ag) = Some (Again, h', s)"
  from cmp_attempt_grows [OF this]
  have "unat (mappedSize h) < unat (mappedSize h')" by (simp add: word_less_nat_alt)
  moreover have "unat (mappedSize h') < 2 ^ 32" using unat_u32_less [of "mappedSize h'"] by simp
  ultimately show "4294967296 - unat (mappedSize h') < 4294967296 - unat (mappedSize h)" by simp
qed

declare exchange_loop.simps [simp del]

text \<open>The result of a command goes into its header unless an earlier one is there.\<close>

definition note_ret :: "u32 \<Rightarrow> cmp_message \<Rightarrow> cmp_message" where
  "note_ret ret m = (if msg_ret (hdr m) = ROOTPA_OK then with_ret ret m else m)"

definition executeOneCmpCommand ::
    "cmtstruct \<Rightarrow> cmp_message \<Rightarrow> cmp_message \<Rightarrow> agent \<Rightarrow> (u32 \<times> exchange) option" where
  "executeOneCmpCommand handle cmd rsp ag =
     (if contentP cmd = None \<or> cmp_length cmd < 4 then Some (ROOTPA_ERROR_INTERNAL, handle, cmd, rsp, ag)
      else Option.bind (getCmpCommandId (contentP cmd)) (\<lambda>commandId.
        let h = handle\<lparr>mappedSize := getTotalMappedBufferSize commandId (cmp_length cmd)\<rparr> in
        if mappedSize h = 0 then Some (ROOTPA_COMMAND_NOT_SUPPORTED, h, cmd, rsp, ag)
        else Option.bind (exchange_loop commandId (h, cmd, rsp, ag)) (\<lambda>(ret, h1, cmd1, rsp1, ag1).
          Option.bind (if ret = ROOTPA_OK then handleResponse commandId rsp1 h1 ag1
                       else Some (ret, with_ret ret rsp1, ag1)) (\<lambda>(ret1, rsp2, ag2).
            case on_driver mcUnmap ag2 of (mcRet, ag3) \<Rightarrow>
              let ret2 = (if mcRet \<noteq> MC_DRV_OK then ROOTPA_ERROR_MOBICORE_CONNECTION else ret1)
              in Some (ret2, h1\<lparr>mappedP := None\<rparr>, note_ret ret2 cmd1, note_ret ret2 rsp2, ag3)))))"

subsection \<open>A list of commands\<close>

text \<open>The loop over the commands: whether it returned early, the result, the commands with their
  responses, the handle and the agent. It returns at the first command that fails and is not
  marked to have its error ignored.\<close>

fun run_commands :: "u32 \<Rightarrow> (cmp_message \<times> cmp_message) list \<Rightarrow> cmtstruct \<Rightarrow> agent \<Rightarrow>
    (bool \<times> u32 \<times> (cmp_message \<times> cmp_message) list \<times> cmtstruct \<times> agent) option" where
  "run_commands ret [] h ag = Some (False, ret, [], h, ag)"
| "run_commands ret ((cmd, rsp0) # rest) h ag =
     (let rsp = rsp0\<lparr>hdr := (hdr rsp0)\<lparr>msg_id := msg_id (hdr cmd), ignoreError := ignoreError (hdr cmd)\<rparr>\<rparr> in
      if cmp_length cmd > 0 then
        (case executeOneCmpCommand h cmd rsp ag of None \<Rightarrow> None
         | Some (iRet, h1, cmd1, rsp1, ag1) \<Rightarrow>
           if iRet \<noteq> ROOTPA_OK then
             (let rsp2 = note_ret iRet rsp1 in
              if \<not> ignoreError (hdr cmd1) then Some (True, iRet, (cmd1, rsp2) # rest, h1, ag1)
              else map_option (\<lambda>(early, r, l, s). (early, r, (cmd1, rsp2) # l, s)) (run_commands iRet rest h1 ag1))
           else map_option (\<lambda>(early, r, l, s). (early, r, (cmd1, rsp1) # l, s)) (run_commands ret rest h1 ag1))
      else map_option (\<lambda>(early, r, l, s). (early, r, (cmd, rsp) # l, s)) (run_commands ret rest h ag))"

text \<open>The result, the internal error, the commands with their responses, and the agent.\<close>

definition executeContentManagementCommands ::
    "(cmp_message \<times> cmp_message) list \<Rightarrow> agent \<Rightarrow>
     (u32 \<times> u32 \<times> (cmp_message \<times> cmp_message) list \<times> agent) option" where
  "executeContentManagementCommands commands ag =
     (let internalError = 0;
          selfOpened = (static_handle ag = None) in
      case (if selfOpened then openCmtlSession ag else (ROOTPA_OK, ag)) of (ret0, ag1) \<Rightarrow>
      (case static_handle ag1 of
         None \<Rightarrow>
           let ret = (if internalError = MC_DRV_ERR_NO_FREE_MEMORY then ROOTPA_ERROR_OUT_OF_MEMORY
                      else ROOTPA_ERROR_MOBICORE_CONNECTION)
           in Some (ret, internalError, commands, if selfOpened then closeCmtlSession ag1 else ag1)
       | Some handle \<Rightarrow>
           map_option (\<lambda>(early, ret, l, h, ag2).
             let ag3 = ag2\<lparr>static_handle := Some h\<rparr> in
             if early then (ret, internalError, l, ag3)
             else (ret, if ret \<noteq> ROOTPA_OK then lasterror h else internalError, l,
                   if selfOpened then closeCmtlSession ag3 else ag3))
             (run_commands ret0 commands handle ag1)))"

text \<open>Installing a token given by the client.\<close>

definition uploadSo :: "bytes \<Rightarrow> agent \<Rightarrow> ((u32 \<times> u32) \<times> agent) option" where
  "uploadSo containerData ag = map_option (\<lambda>(regRet, ag1).
     ((if regRet \<noteq> MC_DRV_OK then ROOTPA_ERROR_REGISTRY else ROOTPA_OK, regRet), ag1))
     (on_world (regWriteAuthToken containerData) ag)"

end
