(* ===== verification/SeClient.thy ===== *)
theory SeClient
  imports ContentManager
begin

text \<open>
  The HTTP client of the provisioning agent (src/rootpa/Code/Common/seclient.c): the callbacks
  that libcurl calls during a transfer, the parsing of the link header, the repetition of a
  failed transfer and the mapping of HTTP results. libcurl and the service enabler are an
  environment: each attempt at a transfer has a script of the calls it makes to the callbacks and
  of its outcome. Strings live in a memory of their own, so that a freed string is told from a
  valid one. \<open>None\<close> is an access outside a string or to a freed one.
\<close>

subsection \<open>C strings\<close>

text \<open>\<open>mem\<close> is the memory from a pointer on. The searches read until they find a match or a zero
  byte; when neither is in the memory known, they leave it.\<close>

definition lower :: "u8 \<Rightarrow> u8" where
  "lower c = (if 65 \<le> c \<and> c \<le> 90 then c + 32 else c)"

fun matches :: "(u8 \<Rightarrow> u8) \<Rightarrow> bytes \<Rightarrow> bytes \<Rightarrow> bool" where
  "matches f [] mem = True"
| "matches f (c # cs) [] = False"
| "matches f (c # cs) (m # ms) = (f c = f m \<and> matches f cs ms)"

fun str_find :: "(u8 \<Rightarrow> u8) \<Rightarrow> bytes \<Rightarrow> bytes \<Rightarrow> bytes option option" where
  "str_find f needle [] = None"
| "str_find f needle (m # ms) =
     (if matches f needle (m # ms) then Some (Some (m # ms))
      else if m = 0 then Some None
      else str_find f needle ms)"

definition strstr :: "bytes \<Rightarrow> bytes \<Rightarrow> bytes option option" where
  "strstr mem needle = str_find (\<lambda>c. c) needle mem"

definition strcasestr :: "bytes \<Rightarrow> bytes \<Rightarrow> bytes option option" where
  "strcasestr mem needle = str_find lower needle mem"

text \<open>The characters before the terminator.\<close>

definition cstring :: "bytes \<Rightarrow> bytes option" where
  "cstring mem = (if 0 \<in> set mem then Some (takeWhile (\<lambda>c. c \<noteq> 0) mem) else None)"

subsection \<open>State\<close>

text \<open>One attempt at a transfer: the sizes libcurl asks of the read callback, the header lines it
  hands over with the memory behind each, the pieces of the body, whether the attempt succeeds,
  the HTTP code, and the seconds passed since the first attempt, rounded up.\<close>

record transfer =
  tr_reads :: "nat list"
  tr_headers :: "(bytes \<times> bytes) list"
  tr_body :: "bytes list"
  tr_ok :: bool
  tr_code :: int
  tr_elapsed :: nat

datatype httpMethod = httpMethod_GET | httpMethod_POST | httpMethod_PUT | httpMethod_DELETE

text \<open>What was sent: the method, the link and the data.\<close>

record request_log =
  rq_method :: httpMethod
  rq_link :: bytes
  rq_data :: bytes

type_synonym ptr = "nat option"

record engine =
  en_agent :: agent
  en_transfers :: "nat \<Rightarrow> transfer" \<comment> \<open>the nth attempt\<close>
  en_attempts :: nat
  en_setopt :: "nat \<Rightarrow> bool" \<comment> \<open>the nth option is accepted\<close>
  en_opts :: nat
  en_mem :: "nat \<Rightarrow> bytes option" \<comment> \<open>allocated strings\<close>
  en_next :: nat
  en_sent :: "request_log list"

definition en_malloc :: "nat \<Rightarrow> engine \<Rightarrow> bytes option \<times> engine" where
  "en_malloc n en = (case ag_malloc n (en_agent en) of (b, ag) \<Rightarrow> (b, en\<lparr>en_agent := ag\<rparr>))"

text \<open>Place a block in the memory.\<close>

definition new_block :: "bytes \<Rightarrow> engine \<Rightarrow> ptr \<times> engine" where
  "new_block b en = (Some (en_next en), en\<lparr>en_mem := (en_mem en)(en_next en \<mapsto> b), en_next := Suc (en_next en)\<rparr>)"

text \<open>Reading through a pointer and \<open>free\<close>, which ignores NULL; freeing twice is a fault.\<close>

definition deref :: "ptr \<Rightarrow> engine \<Rightarrow> bytes option" where
  "deref p en = Option.bind p (en_mem en)"

definition en_free :: "ptr \<Rightarrow> engine \<Rightarrow> engine option" where
  "en_free p en = (case p of None \<Rightarrow> Some en
     | Some i \<Rightarrow> if en_mem en i = None then None else Some (en\<lparr>en_mem := (en_mem en)(i := None)\<rparr>))"

subsection \<open>The callbacks\<close>

record response_struct =
  responseP :: bytes \<comment> \<open>the block: the characters and the terminator\<close>
  rsp_size :: nat
  rsp_offset :: u32

text \<open>The data handed to libcurl, for a request of \<open>totalSize\<close> bytes.\<close>

definition readResponseCallback :: "nat \<Rightarrow> response_struct \<Rightarrow> (bytes \<times> response_struct) option" where
  "readResponseCallback totalSize rsp =
     (if rsp_size rsp \<le> unat (rsp_offset rsp) then Some ([], rsp)
      else let readSize = (if totalSize < rsp_size rsp then totalSize else rsp_size rsp)
           in map_option (\<lambda>d. (d, rsp\<lparr>rsp_offset := rsp_offset rsp + of_nat readSize\<rparr>))
                (buf_read (unat (rsp_offset rsp)) readSize (responseP rsp)))"

record memory_struct =
  memoryP :: "bytes option"
  mem_size :: nat

text \<open>\<open>realloc\<close> keeps what the block holds; the result is the number of bytes taken.\<close>

definition writeMemoryCallback :: "bytes \<Rightarrow> memory_struct \<Rightarrow> engine \<Rightarrow> (nat \<times> memory_struct \<times> engine) option" where
  "writeMemoryCallback contents m en =
     (case en_malloc (mem_size m + length contents + 1) en of
        (None, en1) \<Rightarrow> Some (0, m\<lparr>memoryP := None\<rparr>, en1)
      | (Some b, en1) \<Rightarrow>
          let old = take (length b) (case memoryP m of None \<Rightarrow> [] | Some o' \<Rightarrow> o') in
          Option.bind (buf_write (mem_size m) contents (old @ drop (length old) b)) (\<lambda>b1.
          map_option (\<lambda>b2. (length contents,
              \<lparr>memoryP = Some b2, mem_size = mem_size m + length contents\<rparr>, en1))
            (buf_write (mem_size m + length contents) [0] b1)))"

record header_struct =
  linkP :: ptr
  linkSize :: nat
  relP :: ptr
  relSize :: nat

definition copyHeader :: "bytes \<Rightarrow> nat \<Rightarrow> engine \<Rightarrow> (ptr \<times> engine) option" where
  "copyHeader contents len en =
     (case en_malloc (len + 1) en of (None, en1) \<Rightarrow> Some (None, en1)
      | (Some _, en1) \<Rightarrow> map_option (\<lambda>d. new_block (d @ [0]) en1) (buf_read 0 len contents))"

text \<open>The relation behind the link; the address is good without it.\<close>

definition update_rel :: "header_struct \<Rightarrow> bytes \<Rightarrow> engine \<Rightarrow> (bool \<times> header_struct \<times> engine) option" where
  "update_rel memP endP en =
     Option.bind (strcasestr endP (ascii ''rel='')) (\<lambda>found.
     case found of None \<Rightarrow> Some (True, memP, en)
     | Some start \<Rightarrow> let startP = drop 5 start in
       Option.bind (strstr startP [34]) (\<lambda>found.
       case found of None \<Rightarrow> Some (True, memP, en)
       | Some endP \<Rightarrow>
         let relLen = length startP - length endP in
         map_option (\<lambda>(rp, en1). (True, memP\<lparr>relSize := relLen, relP := rp\<rparr>, en1))
           (copyHeader startP relLen en)))"

definition updateLinkAndRel :: "header_struct \<Rightarrow> bytes \<Rightarrow> engine \<Rightarrow> (bool \<times> header_struct \<times> engine) option" where
  "updateLinkAndRel memP ptr en =
     Option.bind (strcasestr ptr (ascii ''Link'')) (\<lambda>found.
     case found of None \<Rightarrow> Some (False, memP, en)
     | Some start0 \<Rightarrow> Option.bind (strstr start0 (ascii ''<'')) (\<lambda>found.
       case found of None \<Rightarrow> Some (False, memP, en)
       | Some start1 \<Rightarrow> let startP = drop 1 start1 in Option.bind (strstr startP (ascii ''>'')) (\<lambda>found.
         case found of None \<Rightarrow> Some (False, memP, en)
         | Some endP \<Rightarrow>
           let linkLen = length startP - length endP in
           Option.bind (copyHeader startP linkLen en) (\<lambda>(lp, en1).
           let memP1 = memP\<lparr>linkSize := linkLen, linkP := lp\<rparr> in
           if lp = None then Some (False, memP1, en1)
           else update_rel memP1 endP en1))))"

text \<open>A header line and the memory behind it: libcurl does not terminate the line.\<close>

definition writeHeaderCallback :: "bytes \<times> bytes \<Rightarrow> header_struct \<Rightarrow> engine \<Rightarrow> (header_struct \<times> engine) option" where
  "writeHeaderCallback = (\<lambda>(line, behind) memP en.
     if 6 \<le> length line \<and> take 5 line = ascii ''Link:''
     then map_option snd (updateLinkAndRel memP (line @ behind) en)
     else Some (memP, en))"

subsection \<open>Options\<close>

text \<open>\<open>n\<close> options set one after the other, the first refusal ends it.\<close>

fun setopts :: "nat \<Rightarrow> engine \<Rightarrow> bool \<times> engine" where
  "setopts 0 en = (True, en)"
| "setopts (Suc n) en =
     (let en1 = en\<lparr>en_opts := Suc (en_opts en)\<rparr> in
      if en_setopt en (en_opts en) then setopts n en1 else (False, en1))"

definition setBasicOpt :: "engine \<Rightarrow> bool \<times> engine" where "setBasicOpt = setopts 11"
definition setPutOpt :: "engine \<Rightarrow> bool \<times> engine" where "setPutOpt = setopts 5"
definition setPostOpt :: "bytes option \<Rightarrow> engine \<Rightarrow> bool \<times> engine" where
  "setPostOpt inputP = setopts (if inputP = None then 3 else 2)"
definition setDeleteOpt :: "engine \<Rightarrow> bool \<times> engine" where "setDeleteOpt = setopts 1"

text \<open>\<open>curl_global_init\<close> and \<open>curl_easy_init\<close>.\<close>

definition openSeClientAndInit :: "engine \<Rightarrow> u32 \<times> engine" where
  "openSeClientAndInit en = (case setopts 2 en of (ok, en1) \<Rightarrow>
     (if ok then ROOTPA_OK else ROOTPA_ERROR_NETWORK, en1))"

subsection \<open>A transfer\<close>

fun upload :: "nat list \<Rightarrow> response_struct \<Rightarrow> (bytes \<times> response_struct) option" where
  "upload [] rsp = Some ([], rsp)"
| "upload (n # ns) rsp =
     Option.bind (readResponseCallback n rsp) (\<lambda>(d, rsp1).
     map_option (\<lambda>(ds, rsp2). (d @ ds, rsp2)) (upload ns rsp1))"

fun receive_headers :: "(bytes \<times> bytes) list \<Rightarrow> header_struct \<Rightarrow> engine \<Rightarrow> (header_struct \<times> engine) option" where
  "receive_headers [] hs en = Some (hs, en)"
| "receive_headers (l # ls) hs en =
     Option.bind (writeHeaderCallback l hs en) (\<lambda>(hs1, en1). receive_headers ls hs1 en1)"

text \<open>A piece of the body that is not taken ends the transfer with an error.\<close>

fun receive_body :: "bytes list \<Rightarrow> memory_struct \<Rightarrow> engine \<Rightarrow> (bool \<times> memory_struct \<times> engine) option" where
  "receive_body [] m en = Some (True, m, en)"
| "receive_body (c # cs) m en =
     Option.bind (writeMemoryCallback c m en) (\<lambda>(n, m1, en1).
     if n = length c then receive_body cs m1 en1 else Some (False, m1, en1))"

type_synonym session_data = "response_struct option \<times> memory_struct \<times> header_struct"

text \<open>\<open>curl_easy_perform\<close>: the next attempt. A POST sends \<open>data\<close>, a PUT what the read callback gives.\<close>

definition curl_easy_perform ::
    "httpMethod \<Rightarrow> bytes \<Rightarrow> bytes \<Rightarrow> session_data \<Rightarrow> engine \<Rightarrow> (bool \<times> nat \<times> session_data \<times> engine) option" where
  "curl_easy_perform method link data = (\<lambda>(rsp, chunk, hdrs) en.
     let tr = en_transfers en (en_attempts en) in
     Option.bind (case rsp of None \<Rightarrow> Some (data, None)
       | Some r \<Rightarrow> map_option (\<lambda>(d, r1). (d, Some r1)) (upload (tr_reads tr) r)) (\<lambda>(sent, rsp1).
     let en1 = en\<lparr>en_attempts := Suc (en_attempts en),
                  en_sent := en_sent en @ [\<lparr>rq_method = method, rq_link = link, rq_data = sent\<rparr>]\<rparr> in
     Option.bind (receive_headers (tr_headers tr) hdrs en1) (\<lambda>(hdrs1, en2).
     map_option (\<lambda>(ok, chunk1, en3). (ok \<and> tr_ok tr, tr_elapsed tr, (rsp1, chunk1, hdrs1), en3))
       (receive_body (tr_body tr) chunk en2))))"

definition SE_CONNECTION_DEFAULT_TIMEOUT :: nat where "SE_CONNECTION_DEFAULT_TIMEOUT = 58"
definition MAX_ATTEMPTS :: nat where "MAX_ATTEMPTS = 30"

text \<open>At most \<open>n\<close> more attempts.\<close>

fun perform_attempts ::
    "nat \<Rightarrow> httpMethod \<Rightarrow> bytes \<Rightarrow> bytes \<Rightarrow> session_data \<Rightarrow> engine \<Rightarrow> (bool \<times> session_data \<times> engine) option" where
  "perform_attempts 0 method link data s en = Some (False, s, en)"
| "perform_attempts (Suc n) method link data s en =
     Option.bind (curl_easy_perform method link data s en) (\<lambda>(ok, elapsed, s1, en1).
     if ok then Some (True, s1, en1)
     else if elapsed > SE_CONNECTION_DEFAULT_TIMEOUT div 2 then Some (False, s1, en1)
     else perform_attempts n method link data s1 en1)"

definition http_status :: "int \<Rightarrow> u32" where
  "http_status http_code =
     (if 200 \<le> http_code \<and> http_code < 300 then ROOTPA_OK
      else if http_code \<in> {400, 405, 406, 409, 411, 414, 415, 422, 500, 505} then ROOTPA_ERROR_INTERNAL
      else if http_code \<in> {301, 408, 503} then ROOTPA_ERROR_NETWORK
      else if http_code = 501 then ROOTPA_ERROR_SE_CMP_VERSION
      else if http_code = 424 then ROOTPA_ERROR_SE_PRECONDITION_NOT_MET
      else if http_code = 404 then ROOTPA_ERROR_ILLEGAL_ARGUMENT
      else ROOTPA_ERROR_NETWORK)"

text \<open>The three pointers the caller passes by reference: link, relation and command.\<close>

type_synonym links = "ptr \<times> ptr \<times> ptr"

definition empty_headers :: header_struct where
  "empty_headers = \<lparr>linkP = None, linkSize = 0, relP = None, relSize = 0\<rparr>"

text \<open>The data prepared for the read callback.\<close>

definition put_source :: "bytes \<Rightarrow> response_struct" where
  "put_source d = \<lparr>responseP = d @ [0], rsp_size = length d, rsp_offset = 0\<rparr>"

text \<open>The options of the method.\<close>

definition set_method_opts :: "bytes option \<Rightarrow> httpMethod \<Rightarrow> engine \<Rightarrow> bool \<times> engine" where
  "set_method_opts inputP method en =
     (case method of httpMethod_PUT \<Rightarrow> setPutOpt en | httpMethod_POST \<Rightarrow> setPostOpt inputP en
      | httpMethod_DELETE \<Rightarrow> setDeleteOpt en | httpMethod_GET \<Rightarrow> (True, en))"

text \<open>After the attempts: free what failed attempts received, or hand it over with a result for the
  HTTP code.\<close>

definition hand_over :: "ptr \<Rightarrow> bool \<times> session_data \<times> engine \<Rightarrow> (u32 \<times> links \<times> engine) option" where
  "hand_over link = (\<lambda>(ok, (rsp, chunk, hdrs), en).
     if \<not> ok then
       Option.bind (en_free (linkP hdrs) en) (\<lambda>en1.
       map_option (\<lambda>en2. (ROOTPA_ERROR_NETWORK, (link, None, None), en2)) (en_free (relP hdrs) en1))
     else let ret = http_status (tr_code (en_transfers en (en_attempts en - 1)));
              (cp, en1) = (case memoryP chunk of None \<Rightarrow> (None, en) | Some b \<Rightarrow> new_block b en)
          in Some (ret, (linkP hdrs, relP hdrs, cp), en1))"

definition httpCommunicate ::
    "bytes option \<Rightarrow> links \<Rightarrow> httpMethod \<Rightarrow> engine \<Rightarrow> (u32 \<times> links \<times> engine) option" where
  "httpCommunicate inputP ls method en = (case ls of (link, rel, cmd) \<Rightarrow>
     if link = None then Some (ROOTPA_ERROR_ILLEGAL_ARGUMENT, ls, en)
     else (case en_malloc 1 en of
       (None, en1) \<Rightarrow> Some (ROOTPA_ERROR_OUT_OF_MEMORY, (link, None, None), en1)
     | (Some _, en1) \<Rightarrow>
       (case set_method_opts inputP method en1 of (ok, en2) \<Rightarrow>
        if \<not> ok then Some (ROOTPA_ERROR_NETWORK, (link, None, None), en2)
        else Option.bind (Option.bind (deref link en2) cstring) (\<lambda>url.
        (case setBasicOpt en2 of (ok, en3) \<Rightarrow>
        if \<not> ok then Some (ROOTPA_ERROR_NETWORK, (link, None, None), en3)
        else
          let input = (case inputP of None \<Rightarrow> [] | Some d \<Rightarrow> d);
              rsp = (if method = httpMethod_PUT then Some (put_source input) else None);
              data = (if method = httpMethod_POST then input else [])
          in Option.bind (perform_attempts MAX_ATTEMPTS method url data
               (rsp, \<lparr>memoryP = Some [0], mem_size = 0\<rparr>, empty_headers) en3) (hand_over link))))))"

definition httpPostAndReceiveCommand :: "bytes option \<Rightarrow> links \<Rightarrow> engine \<Rightarrow> (u32 \<times> links \<times> engine) option" where
  "httpPostAndReceiveCommand inputP ls en = httpCommunicate inputP ls httpMethod_POST en"

definition httpPutAndReceiveCommand :: "bytes option \<Rightarrow> links \<Rightarrow> engine \<Rightarrow> (u32 \<times> links \<times> engine) option" where
  "httpPutAndReceiveCommand inputP ls en =
     (if inputP = None then Some (ROOTPA_ERROR_ILLEGAL_ARGUMENT, ls, en)
      else httpCommunicate inputP ls httpMethod_PUT en)"

definition httpGetAndReceiveCommand :: "links \<Rightarrow> engine \<Rightarrow> (u32 \<times> links \<times> engine) option" where
  "httpGetAndReceiveCommand ls en = httpCommunicate None ls httpMethod_GET en"

definition httpDeleteAndReceiveCommand :: "links \<Rightarrow> engine \<Rightarrow> (u32 \<times> links \<times> engine) option" where
  "httpDeleteAndReceiveCommand ls en = httpCommunicate None ls httpMethod_DELETE en"

subsection \<open>Uploading\<close>

text \<open>The read callback limits a piece by the size of the whole response, not by what is left of
  it. As long as the pieces asked for are not smaller than the response, or divide it, what is sent is
  the response.\<close>

lemma read_piece:
  assumes "off < length d" "length d < 2 ^ 32" "n \<le> length d" "off + n \<le> length d + 1" "n > 0"
  shows "readResponseCallback n \<lparr>responseP = d @ [0], rsp_size = length d, rsp_offset = of_nat off\<rparr> =
    Some (take n (drop off (d @ [0])), \<lparr>responseP = d @ [0], rsp_size = length d, rsp_offset = of_nat (off + n)\<rparr>)"
proof -
  have u: "unat (of_nat off :: u32) = off" using assms by (simp add: unat_of_nat_u32)
  show ?thesis using assms u by (auto simp: readResponseCallback_def Let_def buf_read_def)
qed

lemma upload_past_end:
  assumes "off < length d" "length d < 2 ^ 32" "n \<le> length d" "length d + 1 < off + n"
  shows "upload (n # ns) \<lparr>responseP = d @ [0], rsp_size = length d, rsp_offset = of_nat off\<rparr> = None"
proof -
  have u: "unat (of_nat off :: u32) = off" using assms by (simp add: unat_of_nat_u32)
  show ?thesis using assms u by (auto simp: readResponseCallback_def Let_def buf_read_def)
qed

lemma upload_pieces:
  assumes "k * n < length d" "length d < 2 ^ 32" "n > 0"
  shows "j \<le> k \<Longrightarrow> upload (replicate j n @ ns) \<lparr>responseP = d @ [0], rsp_size = length d, rsp_offset = of_nat ((k - j) * n)\<rparr> =
    map_option (\<lambda>(ds, r). (take (j * n) (drop ((k - j) * n) d) @ ds, r))
      (upload ns \<lparr>responseP = d @ [0], rsp_size = length d, rsp_offset = of_nat (k * n)\<rparr>)"
proof (induction j)
  case 0
  then show ?case by (cases "upload ns \<lparr>responseP = d @ [0], rsp_size = length d, rsp_offset = of_nat (k * n)\<rparr>") auto
next
  case (Suc j)
  have e: "(k - Suc j) * n + n = (k - j) * n" using Suc.prems by (metis Suc_diff_le add.commute diff_Suc_Suc mult_Suc)
  have l: "(k - j) * n \<le> k * n" by simp
  have p: "readResponseCallback n \<lparr>responseP = d @ [0], rsp_size = length d, rsp_offset = of_nat ((k - Suc j) * n)\<rparr> =
    Some (take n (drop ((k - Suc j) * n) (d @ [0])), \<lparr>responseP = d @ [0], rsp_size = length d, rsp_offset = of_nat ((k - j) * n)\<rparr>)"
  proof -
    have "(k - Suc j) * n < length d" "n \<le> length d" "(k - Suc j) * n + n \<le> length d + 1"
      using e l assms by linarith+
    then show ?thesis using read_piece [of "(k - Suc j) * n" d n] assms e by simp
  qed
  have t: "take n (drop ((k - Suc j) * n) (d @ [0])) @ take (j * n) (drop ((k - j) * n) d) =
      take (Suc j * n) (drop ((k - Suc j) * n) d)"
  proof -
    have f: "(k - Suc j) * n + n \<le> length d" using e l assms by linarith
    then have "take n (drop ((k - Suc j) * n) (d @ [0])) = take n (drop ((k - Suc j) * n) d)" by simp
    moreover have "drop n (drop ((k - Suc j) * n) d) = drop ((k - j) * n) d" using e by (simp add: add.commute)
    ultimately show ?thesis using take_add [of n "j * n" "drop ((k - Suc j) * n) d"] by simp
  qed
  show ?case using Suc.IH Suc.prems p t
    by (cases "upload ns \<lparr>responseP = d @ [0], rsp_size = length d, rsp_offset = of_nat (k * n)\<rparr>") auto
qed

end
