(* ===== verification/Provisioning.thy ===== *)
theory Provisioning
  imports SeClient
begin

text \<open>
  The provisioning engine (src/rootpa/Code/Common/provisioningengine.c): the construction of the
  first link and the loop that follows the relations the service enabler sends. The loop works on
  pointers into the memory of \<open>engine\<close>, as the code does, so that what is freed, and how often, is
  part of the model. The functions the code receives as pointers and the XML routines, which are
  calls of libxml2, are parameters of the loop.
\<close>

subsection \<open>Building links\<close>

text \<open>A link is a block with a string in it; \<open>None\<close> is an access outside the block.\<close>

definition addSlashToUri :: "bytes \<Rightarrow> bytes option" where
  "addSlashToUri uriP = Option.bind (cstring uriP) (\<lambda>s. buf_write (length s) [0x2F] uriP)"

definition hex_digit :: "u8 \<Rightarrow> u8" where
  "hex_digit n = (if n < 0xA then n + 0x30 else n + 0x57)"

definition bytes_text :: "bool \<Rightarrow> bytes \<Rightarrow> bytes" where
  "bytes_text uuid bs = concat (map (\<lambda>i.
     [hex_digit (drop_bit 4 (bs ! i)), hex_digit (bs ! i AND 0x0F)] @
     (if uuid \<and> i \<in> {3, 5, 7, 9} then [0x2D] else [])) [0..<length bs])"

definition addBytesToUri :: "bytes \<Rightarrow> bool \<Rightarrow> bytes \<Rightarrow> bytes option" where
  "addBytesToUri bs uuid uriP = Option.bind (cstring uriP) (\<lambda>s. buf_write (length s) (bytes_text uuid bs) uriP)"

text \<open>Decimal digits, and \<open>%d\<close>.\<close>

fun dec_text :: "nat \<Rightarrow> bytes" where
  "dec_text n = (if n < 10 then [of_nat (48 + n)] else dec_text (n div 10) @ [of_nat (48 + n mod 10)])"

declare dec_text.simps [simp del]

definition int_text :: "u32 \<Rightarrow> bytes" where
  "int_text w = (if sint w < 0 then 0x2D # dec_text (nat (- sint w)) else dec_text (nat (sint w)))"

definition INT_STRING_LENGTH :: nat where "INT_STRING_LENGTH = 12"

text \<open>\<open>snprintf\<close> cuts the text off, \<open>strncpy\<close> pads it with zeros.\<close>

definition intInString :: "u32 \<Rightarrow> bytes" where
  "intInString addThis =
     (let text = take (INT_STRING_LENGTH - 1) (0x2F # int_text addThis)
      in text @ replicate (INT_STRING_LENGTH - length text) 0)"

definition addIntToUri :: "u32 \<Rightarrow> bytes \<Rightarrow> bytes option" where
  "addIntToUri addThis uriP = Option.bind (cstring uriP) (\<lambda>s. buf_write (length s) (intInString addThis) uriP)"

definition INITIAL_URL_BUFFER_LENGTH :: u32 where "INITIAL_URL_BUFFER_LENGTH = 255"

definition empty_url :: bytes where "empty_url = replicate (unat INITIAL_URL_BUFFER_LENGTH) 0"

text \<open>The sum of the check wraps at 32 bits. \<open>addr\<close> is the memory at \<open>addrP\<close>.\<close>

definition setInitialAddress :: "bytes option \<Rightarrow> u32 \<Rightarrow> bytes \<Rightarrow> (u32 \<times> bytes) option" where
  "setInitialAddress addrP length' initialUrl =
     (if addrP = None \<or> length' = 0 then Some (ROOTPA_ERROR_INTERNAL, initialUrl)
      else if INITIAL_URL_BUFFER_LENGTH < length' + 1 then Some (ROOTPA_ERROR_ILLEGAL_ARGUMENT, initialUrl)
      else Option.bind (buf_read 0 (unat length') (the addrP)) (\<lambda>d.
           map_option (\<lambda>u. (ROOTPA_OK, u)) (buf_write 0 d empty_url)))"

definition SE_URL :: bytes where
  "SE_URL = ascii ''https://se.cgbe.trustonic.com:8443/service-enabler/enrollment/''"

text \<open>The default address is used when none was set.\<close>

definition empty_text :: "bytes \<Rightarrow> bool option" where
  "empty_text zeroTerminatedArray = map_option (\<lambda>s. length s = 0) (cstring zeroTerminatedArray)"

definition ensure_url :: "bytes \<Rightarrow> bytes option" where
  "ensure_url initialUrl = Option.bind (empty_text initialUrl) (\<lambda>e.
     if e then buf_write 0 SE_URL empty_url else Some initialUrl)"

text \<open>Room for the address, two hexadecimal numbers, the UUID, a slash, four dashes and the end.\<close>

definition basic_link_size :: "nat \<Rightarrow> nat" where
  "basic_link_size url_length = url_length + 16 * 2 + 4 * 2 + 16 * 2 + 6"

definition createBasicLink :: "bytes \<Rightarrow> bytes \<Rightarrow> engine \<Rightarrow> (ptr \<times> engine) option" where
  "createBasicLink initialUrl suid en = Option.bind (cstring initialUrl) (\<lambda>url.
     let urlLength = basic_link_size (length url) in
     (case en_malloc urlLength en of (None, en1) \<Rightarrow> Some (None, en1)
      | (Some _, en1) \<Rightarrow>
          map_option (\<lambda>b. new_block b en1)
            (addBytesToUri suid False (url @ replicate (urlLength - length url) 0))))"

text \<open>Change the block behind a pointer.\<close>

definition on_block :: "(bytes \<Rightarrow> bytes option) \<Rightarrow> ptr \<Rightarrow> engine \<Rightarrow> engine option" where
  "on_block f p en = (case p of None \<Rightarrow> None
     | Some i \<Rightarrow> Option.bind (en_mem en i) (\<lambda>b. map_option (\<lambda>b1. en\<lparr>en_mem := (en_mem en)(i \<mapsto> b1)\<rparr>) (f b)))"

subsection \<open>Relations\<close>

definition RELATION_SELF :: bytes where "RELATION_SELF = ascii ''relation/self''"
definition RELATION_SYSTEMINFO :: bytes where "RELATION_SYSTEMINFO = ascii ''relation/system_info''"
definition RELATION_RESULT :: bytes where "RELATION_RESULT = ascii ''relation/command_result''"
definition RELATION_NEXT :: bytes where "RELATION_NEXT = ascii ''relation/next''"

text \<open>The two relations of the code itself are constants at fixed addresses.\<close>

definition INITIAL_POST_text :: bytes where "INITIAL_POST_text = ascii ''initial_post''"
definition INITIAL_DELETE_text :: bytes where "INITIAL_DELETE_text = ascii ''initial_delete''"
definition RELATION_INITIAL_POST :: ptr where "RELATION_INITIAL_POST = Some 0"
definition RELATION_INITIAL_DELETE :: ptr where "RELATION_INITIAL_DELETE = Some 1"

text \<open>\<open>strstr(relP, relation) != NULL\<close>.\<close>

definition rel_is :: "bytes \<Rightarrow> ptr \<Rightarrow> engine \<Rightarrow> bool option" where
  "rel_is relation p en = Option.bind (deref p en) (\<lambda>s. map_option (\<lambda>found. found \<noteq> None) (strstr s relation))"

definition cleanup :: "ptr \<Rightarrow> ptr \<Rightarrow> ptr \<Rightarrow> engine \<Rightarrow> engine option" where
  "cleanup link rel command en =
     Option.bind (en_free command en) (\<lambda>en1.
     Option.bind (if rel \<noteq> RELATION_INITIAL_POST \<and> rel \<noteq> RELATION_INITIAL_DELETE then en_free rel en1 else Some en1) (\<lambda>en2.
     en_free link en2))"

subsection \<open>What the loop calls\<close>

record osInfo_t =
  imeiEsnP :: ptr
  mnoP :: ptr
  brandP :: ptr
  manufacturerP :: ptr
  hardwareP :: ptr
  modelP :: ptr
  versionP :: ptr

datatype requestDataType = REQUEST_DATA_NO_DATA | REQUEST_DATA_TLT | REQUEST_DATA_KEY

record trustletInstallationData =
  dataP :: "bytes option"
  dataLength :: u32
  dataType :: requestDataType
  tlt_uuid :: bytes
  minTltVersion :: u32
  tltPukHashP :: "bytes option"
  tltPukHashLength :: u32
  memoryType :: u32
  numberOfInstances :: u32
  tlt_flags :: u32

text \<open>The callback for system information and the version function, and the XML routines, with the
  response they build.\<close>

record services =
  sv_sysInfo :: "engine \<Rightarrow> (u32 \<times> osInfo_t) \<times> engine"
  sv_version :: "engine \<Rightarrow> ((u32 \<times> u32 \<times> bytes) \<times> engine) option"
  sv_buildSystemInfo :: "u32 \<Rightarrow> bytes \<Rightarrow> osInfo_t \<Rightarrow> engine \<Rightarrow> (u32 \<times> bytes option) \<times> engine"
  sv_buildInstallation :: "trustletInstallationData \<Rightarrow> engine \<Rightarrow> (u32 \<times> bytes option) \<times> engine"
  sv_handleXml :: "bytes option \<Rightarrow> engine \<Rightarrow> (u32 \<times> bytes option) \<times> engine"

text \<open>A call of the client's callback.\<close>

definition report :: "ProvisioningState \<Rightarrow> u32 \<Rightarrow> engine \<Rightarrow> engine" where
  "report st err en = en\<lparr>en_agent := (en_agent en)\<lparr>ag_events := ag_events (en_agent en) @ [(st, err)]\<rparr>\<rparr>"

definition en_setCallback :: "bool \<Rightarrow> engine \<Rightarrow> engine" where
  "en_setCallback cb en = en\<lparr>en_agent := setCallbackP cb (en_agent en)\<rparr>"

definition free_osInfo :: "osInfo_t \<Rightarrow> engine \<Rightarrow> engine option" where
  "free_osInfo os en =
     Option.bind (en_free (imeiEsnP os) en) (\<lambda>en1. Option.bind (en_free (mnoP os) en1) (\<lambda>en2.
     Option.bind (en_free (brandP os) en2) (\<lambda>en3. Option.bind (en_free (manufacturerP os) en3) (\<lambda>en4.
     Option.bind (en_free (hardwareP os) en4) (\<lambda>en5. Option.bind (en_free (modelP os) en5) (\<lambda>en6.
     en_free (versionP os) en6))))))"

subsection \<open>The loop\<close>

record provisioning =
  pv_engine :: engine
  pv_ret :: u32
  pv_tmpRet :: u32
  workToDo :: bool
  pv_link :: ptr
  pv_rel :: ptr
  pv_command :: ptr
  pv_response :: "bytes option"
  pendingLink :: ptr
  pendingRel :: ptr
  usedLink :: ptr
  usedRel :: ptr
  usedCommand :: ptr

definition pv_links :: "provisioning \<Rightarrow> links" where
  "pv_links s = (pv_link s, pv_rel s, pv_command s)"

definition set_links :: "links \<Rightarrow> provisioning \<Rightarrow> provisioning" where
  "set_links = (\<lambda>(l, r, c) s. s\<lparr>pv_link := l, pv_rel := r, pv_command := c\<rparr>)"

definition pv_report :: "ProvisioningState \<Rightarrow> u32 \<Rightarrow> provisioning \<Rightarrow> provisioning" where
  "pv_report st err s = s\<lparr>pv_engine := report st err (pv_engine s)\<rparr>"

text \<open>The outcome of a request of the branches that end on an error.\<close>

definition fetched :: "u32 \<times> links \<times> engine \<Rightarrow> provisioning \<Rightarrow> provisioning" where
  "fetched = (\<lambda>(ret, ls, en) s.
     let s1 = set_links ls (s\<lparr>pv_engine := en, pv_ret := ret\<rparr>)
     in if ret \<noteq> ROOTPA_OK then (pv_report ERROR_STATE ret s1)\<lparr>workToDo := False\<rparr> else s1)"

text \<open>The request sent after a response was built: its error replaces the one so far.\<close>

definition sent :: "u32 \<times> links \<times> engine \<Rightarrow> provisioning \<Rightarrow> provisioning" where
  "sent = (\<lambda>(tmpRet, ls, en) s.
     set_links ls (s\<lparr>pv_engine := en, pv_tmpRet := tmpRet,
       pv_ret := (if tmpRet \<noteq> ROOTPA_OK then tmpRet else pv_ret s)\<rparr>))"

text \<open>An error that does not stop the loop when the response was sent.\<close>

definition stop_if_unsent :: "provisioning \<Rightarrow> provisioning" where
  "stop_if_unsent s = (let s1 = pv_report ERROR_STATE (pv_ret s) s in
     if pv_tmpRet s \<noteq> ROOTPA_OK then s1\<lparr>workToDo := False\<rparr> else s1)"

definition or_else :: "u32 \<Rightarrow> u32 \<Rightarrow> u32" where
  "or_else tmpRet ret = (if tmpRet \<noteq> ROOTPA_OK then tmpRet else ret)"

text \<open>Send the system information, if it was built.\<close>

definition send_systeminfo :: "provisioning \<Rightarrow> provisioning option" where
  "send_systeminfo s = map_option (\<lambda>s1. if pv_ret s1 \<noteq> ROOTPA_OK then stop_if_unsent s1 else s1)
     (if pv_response s \<noteq> None then
        map_option (\<lambda>r. sent r s) (httpPutAndReceiveCommand (pv_response s) (pv_links s) (pv_engine s))
      else if pv_ret s = ROOTPA_OK then Some (s\<lparr>workToDo := False, pv_ret := ROOTPA_ERROR_OUT_OF_MEMORY\<rparr>)
      else Some s)"

definition on_systeminfo :: "services \<Rightarrow> provisioning \<Rightarrow> provisioning option" where
  "on_systeminfo sv s = (case sv_sysInfo sv (pv_engine s) of ((t1, os), en1) \<Rightarrow>
     Option.bind (sv_version sv en1) (\<lambda>((t2, tag, version), en2).
     case sv_buildSystemInfo sv tag version os en2 of ((t3, rsp), en3) \<Rightarrow>
     Option.bind (free_osInfo os en3) (\<lambda>en4.
     send_systeminfo (s\<lparr>pv_engine := en4, pv_tmpRet := t3, pv_response := rsp,
       pv_ret := or_else t3 (or_else t2 (or_else t1 (pv_ret s)))\<rparr>))))"

text \<open>The text of the command, NULL if there is none.\<close>

definition command_text :: "provisioning \<Rightarrow> bytes option option" where
  "command_text s = (if pv_command s = None then Some None
     else map_option Some (deref (pv_command s) (pv_engine s)))"

text \<open>Send the result of a command; without one there is nothing to follow any more. A missing
  container is not reported to the client.\<close>

definition send_result :: "provisioning \<Rightarrow> provisioning option" where
  "send_result s = map_option (\<lambda>s1.
       if pv_ret s1 \<noteq> ROOTPA_OK \<and> pv_ret s1 \<noteq> ROOTPA_ERROR_REGISTRY_OBJECT_NOT_AVAILABLE then stop_if_unsent s1 else s1)
     (if pv_response s = None then
        Some (set_links (None, None, None)
          (s\<lparr>pv_ret := (if pv_ret s = ROOTPA_OK then ROOTPA_ERROR_XML else pv_ret s)\<rparr>))
      else map_option (\<lambda>r. sent r s) (httpPostAndReceiveCommand (pv_response s) (pv_links s) (pv_engine s)))"

definition on_result :: "services \<Rightarrow> provisioning \<Rightarrow> provisioning option" where
  "on_result sv s = Option.bind (command_text s) (\<lambda>cmd.
     case sv_handleXml sv cmd (en_setCallback True (pv_engine s)) of ((ret, rsp), en1) \<Rightarrow>
     send_result (s\<lparr>pv_engine := en_setCallback False en1, pv_response := rsp, pv_ret := ret\<rparr>))"

definition on_unknown :: "provisioning \<Rightarrow> provisioning" where
  "on_unknown s = (pv_report ERROR_STATE ROOTPA_ERROR_ILLEGAL_ARGUMENT (s\<lparr>pv_ret := ROOTPA_ERROR_ILLEGAL_ARGUMENT\<rparr>))
     \<lparr>workToDo := False\<rparr>"

text \<open>Follow the relation, in the order in which the code compares them.\<close>

definition follow :: "services \<Rightarrow> provisioning \<Rightarrow> provisioning option" where
  "follow sv s =
     Option.bind (rel_is RELATION_SYSTEMINFO (pv_rel s) (pv_engine s)) (\<lambda>b. if b then on_systeminfo sv s else
     Option.bind (rel_is INITIAL_DELETE_text (pv_rel s) (pv_engine s)) (\<lambda>b. if b then
       map_option (\<lambda>r. fetched r s) (httpDeleteAndReceiveCommand (pv_links s) (pv_engine s)) else
     Option.bind (rel_is INITIAL_POST_text (pv_rel s) (pv_engine s)) (\<lambda>b. if b then
       map_option (\<lambda>r. fetched r s) (httpPostAndReceiveCommand (pv_response s) (pv_links s) (pv_engine s)) else
     Option.bind (rel_is RELATION_RESULT (pv_rel s) (pv_engine s)) (\<lambda>b. if b then on_result sv s else
     Option.bind (rel_is RELATION_NEXT (pv_rel s) (pv_engine s)) (\<lambda>b. if b then
       map_option (\<lambda>r. fetched r s) (httpGetAndReceiveCommand (pv_links s) (pv_engine s)) else
     Some (on_unknown s))))))"

text \<open>The relation \<open>self\<close>: go back to the pointers of the round before.\<close>

definition restore_used :: "provisioning \<Rightarrow> provisioning option" where
  "restore_used s =
     (if pv_rel s \<noteq> usedRel s \<and> pv_link s \<noteq> usedLink s \<and> pv_command s \<noteq> usedCommand s
      then map_option (\<lambda>en. s\<lparr>pv_engine := en, pv_rel := usedRel s, pv_link := usedLink s, pv_command := usedCommand s\<rparr>)
             (cleanup (pv_link s) (pv_rel s) (pv_command s) (pv_engine s))
      else Some s)"

definition keep_used :: "provisioning \<Rightarrow> provisioning" where
  "keep_used s = s\<lparr>usedLink := pv_link s, usedRel := pv_rel s, usedCommand := pv_command s\<rparr>"

text \<open>The end of a round: in the last one free the current pointers, those also in the used ones
  only once; free the used pointers unless the relation is \<open>self\<close>; free the response.\<close>

definition last_cleaning :: "provisioning \<Rightarrow> provisioning option" where
  "last_cleaning s =
     (let s1 = s\<lparr>usedLink := (if pv_link s = usedLink s then None else usedLink s),
                 usedRel := (if pv_rel s = usedRel s then None else usedRel s),
                 usedCommand := (if pv_command s = usedCommand s then None else usedCommand s)\<rparr>
      in map_option (\<lambda>en. set_links (None, None, None) (s1\<lparr>pv_engine := en\<rparr>))
           (cleanup (pv_link s1) (pv_rel s1) (pv_command s1) (pv_engine s1)))"

definition drop_used :: "provisioning \<Rightarrow> provisioning option" where
  "drop_used s =
     map_option (\<lambda>en. s\<lparr>pv_engine := en, usedLink := None, usedRel := None, usedCommand := None\<rparr>)
       (cleanup (usedLink s) (usedRel s) (usedCommand s) (pv_engine s))"

definition finish_round :: "provisioning \<Rightarrow> provisioning option" where
  "finish_round s =
     Option.bind (if workToDo s then Some s else last_cleaning s) (\<lambda>s1.
     Option.bind (if pv_rel s1 = None then Some False else rel_is RELATION_SELF (pv_rel s1) (pv_engine s1)) (\<lambda>self.
     map_option (\<lambda>s2. s2\<lparr>pv_response := None\<rparr>) (if self then Some s1 else drop_used s1)))"

text \<open>After the recovery from a factory reset go on with the link that was put aside; \<open>continue\<close>
  skips the end of the round.\<close>

definition resume_pending :: "provisioning \<Rightarrow> provisioning option" where
  "resume_pending s =
     map_option (\<lambda>en. s\<lparr>pv_engine := en, pv_link := pendingLink s, pv_rel := pendingRel s,
         pendingLink := None, pendingRel := None, workToDo := True\<rparr>)
       (en_free (pv_link s) (pv_engine s))"

definition prov_step :: "services \<Rightarrow> provisioning \<Rightarrow> provisioning option" where
  "prov_step sv s =
     (if pv_rel s = None then
        if pendingLink s \<noteq> None \<and> pendingRel s \<noteq> None then resume_pending s
        else finish_round ((pv_report FINISHED_PROVISIONING ROOTPA_OK s)\<lparr>workToDo := False\<rparr>)
      else Option.bind (rel_is RELATION_SELF (pv_rel s) (pv_engine s)) (\<lambda>self.
        Option.bind (if self then restore_used s else follow sv (keep_used s)) finish_round))"

text \<open>A run ends, or it faults: an access outside a block or to one that was freed. A run that does
  not end is \<open>None\<close>.\<close>

datatype 'a run = Fault | Done 'a

partial_function (option) prov_loop :: "services \<Rightarrow> provisioning \<Rightarrow> provisioning run option" where
  "prov_loop sv s =
     (if workToDo s then (case prov_step sv s of None \<Rightarrow> Some Fault | Some s1 \<Rightarrow> prov_loop sv s1)
      else Some (Done s))"

subsection \<open>Provisioning\<close>

datatype initialRel = initialRel_POST | initialRel_DELETE

text \<open>The link of the first request: the device, then the service provider, then the trustlet.\<close>

definition add_spid :: "u32 \<Rightarrow> ptr \<Rightarrow> engine \<Rightarrow> engine option" where
  "add_spid spid link en = (if spid \<noteq> 0 then on_block (addIntToUri spid) link en else Some en)"

definition add_uuid :: "bytes \<Rightarrow> ptr \<Rightarrow> engine \<Rightarrow> engine option" where
  "add_uuid uuid link en = Option.bind (on_block addSlashToUri link en) (on_block (addBytesToUri uuid True) link)"

definition first_state :: "engine \<Rightarrow> ptr \<Rightarrow> ptr \<Rightarrow> provisioning" where
  "first_state en link rel = \<lparr>pv_engine = en, pv_ret = ROOTPA_OK, pv_tmpRet = ROOTPA_OK, workToDo = True,
     pv_link = link, pv_rel = rel, pv_command = None, pv_response = None, pendingLink = None, pendingRel = None,
     usedLink = None, usedRel = None, usedCommand = None\<rparr>"

text \<open>The request of an installation, and the link to the trustlet.\<close>

definition request_installation :: "services \<Rightarrow> trustletInstallationData option \<Rightarrow> provisioning \<Rightarrow> provisioning option" where
  "request_installation sv tltDataP s = (case tltDataP of None \<Rightarrow> Some s
     | Some tlt \<Rightarrow> (case sv_buildInstallation sv tlt (pv_engine s) of ((ret, rsp), en1) \<Rightarrow>
         let s1 = s\<lparr>pv_engine := en1, pv_response := rsp, pv_ret := ret\<rparr> in
         if ret \<noteq> ROOTPA_OK \<or> rsp = None then
           let ret' = (if ret = ROOTPA_OK then ROOTPA_ERROR_XML else ret)
           in Some ((pv_report ERROR_STATE ret' (s1\<lparr>pv_ret := ret'\<rparr>))\<lparr>workToDo := False\<rparr>)
         else map_option (\<lambda>en2. s1\<lparr>pv_engine := en2\<rparr>) (add_uuid (tlt_uuid tlt) (pv_link s1) en1)))"

text \<open>Put the link aside and delete the root container at the service enabler first.\<close>

definition recover_from_reset :: "bytes \<Rightarrow> bytes \<Rightarrow> provisioning \<Rightarrow> provisioning option" where
  "recover_from_reset initialUrl suid s =
     Option.bind (factoryResetAssumed (en_agent (pv_engine s))) (\<lambda>(reset, ag).
     let s1 = s\<lparr>pv_engine := (pv_engine s)\<lparr>en_agent := ag\<rparr>\<rparr> in
     if reset \<and> pv_rel s1 \<noteq> RELATION_INITIAL_DELETE \<and> workToDo s1 then
       map_option (\<lambda>(link, en). s1\<lparr>pv_engine := en, pendingLink := pv_link s1, pendingRel := pv_rel s1,
           pv_rel := RELATION_INITIAL_DELETE, pv_link := link\<rparr>)
         (createBasicLink initialUrl suid (pv_engine s1))
     else Some s1)"

definition prepare_first :: "services \<Rightarrow> u32 \<Rightarrow> bytes \<Rightarrow> initialRel \<Rightarrow> trustletInstallationData option \<Rightarrow> bytes \<Rightarrow>
    ptr \<Rightarrow> engine \<Rightarrow> provisioning option" where
  "prepare_first sv spid suid initialRel' tltDataP url link en =
     Option.bind (if initialRel' = initialRel_DELETE then Some en else add_spid spid link en) (\<lambda>en1.
     let rel = (if initialRel' = initialRel_DELETE then RELATION_INITIAL_DELETE else RELATION_INITIAL_POST) in
     case openSeClientAndInit (report CONNECTING_SERVICE_ENABLER ROOTPA_OK en1) of (ret, en2) \<Rightarrow>
     let s = (first_state en2 link rel)\<lparr>pv_ret := ret\<rparr>;
         s1 = (if ret \<noteq> ROOTPA_OK then (pv_report ERROR_STATE ret s)\<lparr>workToDo := False\<rparr> else s)
     in Option.bind (request_installation sv tltDataP s1) (recover_from_reset url suid))"

text \<open>After the loop the link is freed if the loop was not entered. The address that was set stays.\<close>

definition doProvisioningWithSe :: "services \<Rightarrow> u32 \<Rightarrow> bytes \<Rightarrow> initialRel \<Rightarrow> trustletInstallationData option \<Rightarrow>
    bytes \<Rightarrow> engine \<Rightarrow> (bytes \<times> engine) run option" where
  "doProvisioningWithSe sv spid suid initialRel' tltDataP initialUrl en =
     (case ensure_url initialUrl of None \<Rightarrow> Some Fault | Some url \<Rightarrow>
     (case createBasicLink url suid en of None \<Rightarrow> Some Fault
      | Some (None, en1) \<Rightarrow> Some (Done (url, report ERROR_STATE ROOTPA_ERROR_OUT_OF_MEMORY en1))
      | Some (link, en1) \<Rightarrow>
     (case prepare_first sv spid suid initialRel' tltDataP url link en1 of None \<Rightarrow> Some Fault
      | Some s \<Rightarrow> map_option (\<lambda>r. case r of Fault \<Rightarrow> Fault
           | Done s1 \<Rightarrow> (case en_free (pv_link s1) (pv_engine s1) of None \<Rightarrow> Fault | Some en2 \<Rightarrow> Done (url, en2)))
          (prov_loop sv s))))"

text \<open>Called while a command is handled: pass a trustlet on to the client.\<close>

definition uploadTrustlet :: "bool \<Rightarrow> engine \<Rightarrow> u32 \<times> engine" where
  "uploadTrustlet callbackSet en =
     (if callbackSet then (ROOTPA_OK, report PROVISIONING_STATE_INSTALL_TRUSTLET ROOTPA_OK en)
      else (ROOTPA_COMMAND_NOT_SUPPORTED, en))"

end
