(* ===== verification/CommandHandler.thy ===== *)
theory CommandHandler
  imports Provisioning
begin

text \<open>
  The entry points of the provisioning agent (src/rootpa/Code/Common/commandhandler.c): the queries
  on containers, the commands for the version and the device id, and the provisioning thread with
  the data handed over to it. An output pointer of a query is an option, \<open>None\<close> is NULL; the copy
  of the installation data the thread owns lives in the memory of \<open>engine\<close>, so that what is freed
  is part of the model.
\<close>

definition on_agent :: "(agent \<Rightarrow> ('a \<times> agent) option) \<Rightarrow> engine \<Rightarrow> ('a \<times> engine) option" where
  "on_agent f en = map_option (\<lambda>(r, ag). (r, en\<lparr>en_agent := ag\<rparr>)) (f (en_agent en))"

subsection \<open>Commands of the agent itself\<close>

definition GET_VERSION_COMMAND_LENGTH :: u32 where "GET_VERSION_COMMAND_LENGTH = 4"
definition GET_SUID_COMMAND_LENGTH :: u32 where "GET_SUID_COMMAND_LENGTH = 4"

text \<open>Header, tag and version; header and device id.\<close>

definition sizeof_mcVersionInfo :: nat where "sizeof_mcVersionInfo = 64 + 8 * 4"
definition sizeof_cmpRspGetVersion :: nat where "sizeof_cmpRspGetVersion = 8 + 4 + sizeof_mcVersionInfo"
definition sizeof_cmpRspGetSuid :: nat where "sizeof_cmpRspGetSuid = 8 + 16"
definition CMP_VERSION_TAG2 :: u32 where "CMP_VERSION_TAG2 = 2"

definition executeCmpCommands :: "(cmp_message \<times> cmp_message) list \<Rightarrow> agent \<Rightarrow>
    (u32 \<times> u32 \<times> (cmp_message \<times> cmp_message) list \<times> agent) option" where
  "executeCmpCommands = executeContentManagementCommands"

definition openSessionToCmtl :: "agent \<Rightarrow> u32 \<times> agent" where
  "openSessionToCmtl = openCmtlSession"

definition closeSessionToCmtl :: "agent \<Rightarrow> agent" where
  "closeSessionToCmtl = closeCmtlSession"

definition empty_message :: cmp_message where
  "empty_message = \<lparr>cmp_length = 0, contentP = None, hdr = \<lparr>ignoreError = False, msg_ret = 0, intRet = 0, msg_id = 0\<rparr>\<rparr>"

text \<open>Run one command that is only an id: the result, the internal error and the response.\<close>

definition run_id_command :: "u32 \<Rightarrow> u32 \<Rightarrow> agent \<Rightarrow> (u32 \<times> u32 \<times> cmp_message \<times> agent) option" where
  "run_id_command len cmdId ag =
     map_option (\<lambda>(ret, internalError, l, ag1). (ret, internalError, snd (hd l), ag1))
       (executeContentManagementCommands
          [(empty_message\<lparr>cmp_length := len, contentP := Some (enc32 cmdId)\<rparr>, empty_message)] ag)"

text \<open>\<open>tag\<close> and \<open>version\<close> are what the caller's variables hold before and after.\<close>

definition getVersion :: "u32 \<Rightarrow> bytes \<Rightarrow> agent \<Rightarrow> ((u32 \<times> u32 \<times> bytes) \<times> agent) option" where
  "getVersion tag version ag =
     (case ag_malloc (unat GET_VERSION_COMMAND_LENGTH) ag of
        (None, ag1) \<Rightarrow> Some ((ROOTPA_ERROR_OUT_OF_MEMORY, tag, version), ag1)
      | (Some _, ag1) \<Rightarrow>
        Option.bind (run_id_command GET_VERSION_COMMAND_LENGTH MC_CMP_CMD_GET_VERSION ag1)
          (\<lambda>(ret, internalError, response, ag2).
        if ret = ROOTPA_OK \<and> internalError = 0 then
          if cmp_length response \<noteq> of_nat sizeof_cmpRspGetVersion then Some ((ROOTPA_ERROR_INTERNAL, tag, version), ag2)
          else Option.bind (contentP response) (\<lambda>d. Option.bind (ld32 8 d) (\<lambda>tag1.
            if tag1 = CMP_VERSION_TAG2
            then map_option (\<lambda>v. ((ret, tag1, v), ag2)) (buf_read 12 sizeof_mcVersionInfo d)
            else Some ((ROOTPA_ERROR_INTERNAL, tag1, version), ag2)))
        else Some ((ret, tag, version), ag2)))"

definition getSuid :: "bytes \<Rightarrow> agent \<Rightarrow> ((u32 \<times> bytes) \<times> agent) option" where
  "getSuid suid ag =
     (case ag_malloc (unat GET_SUID_COMMAND_LENGTH) ag of
        (None, ag1) \<Rightarrow> Some ((ROOTPA_ERROR_OUT_OF_MEMORY, suid), ag1)
      | (Some _, ag1) \<Rightarrow>
        Option.bind (run_id_command GET_SUID_COMMAND_LENGTH MC_CMP_CMD_GET_SUID ag1)
          (\<lambda>(ret, internalError, response, ag2).
        if ret = ROOTPA_OK \<and> internalError = 0 then
          if cmp_length response \<noteq> of_nat sizeof_cmpRspGetSuid then Some ((ROOTPA_ERROR_INTERNAL, suid), ag2)
          else map_option (\<lambda>s. ((ret, s), ag2)) (Option.bind (contentP response) (buf_read 8 16))
        else Some ((ret, suid), ag2)))"

subsection \<open>Queries\<close>

definition MC_CONT_STATE_UNREGISTERED :: u32 where "MC_CONT_STATE_UNREGISTERED = 0"

definition isRootContainerRegistered :: "bool option \<Rightarrow> agent \<Rightarrow> ((u32 \<times> bool option) \<times> agent) option" where
  "isRootContainerRegistered isRegisteredP ag =
     (if isRegisteredP = None then Some ((ROOTPA_ERROR_ILLEGAL_ARGUMENT, None), ag)
      else Option.bind (on_world regReadRoot ag) (\<lambda>((result, rootContP, _), ag1).
        if result = MC_DRV_OK then
          map_option (\<lambda>state. ((ROOTPA_OK, Some (state \<noteq> MC_CONT_STATE_UNREGISTERED)), ag1)) (container_state rootContP)
        else if result = MC_DRV_ERR_INVALID_DEVICE_FILE then Some ((ROOTPA_OK, Some False), ag1)
        else Some ((ROOTPA_ERROR_REGISTRY, isRegisteredP), ag1)))"

definition getSpContainerState :: "u32 \<Rightarrow> u32 option \<Rightarrow> agent \<Rightarrow> ((u32 \<times> u32 option) \<times> agent) option" where
  "getSpContainerState spid stateP ag =
     (if stateP = None then Some ((ROOTPA_ERROR_ILLEGAL_ARGUMENT, None), ag)
      else map_option (\<lambda>((result, state), ag1).
        ((if result = MC_DRV_ERR_INVALID_DEVICE_FILE then ROOTPA_ERROR_INTERNAL_NO_CONTAINER
          else if result \<noteq> MC_DRV_OK then ROOTPA_ERROR_REGISTRY else ROOTPA_OK,
          if state = None then stateP else state), ag1)) (on_world (regGetSpState spid) ag))"

text \<open>\<open>junk\<close> is what the local variable \<open>state\<close> holds at first.\<close>

definition isSpContainerRegistered :: "u32 \<Rightarrow> u32 \<Rightarrow> bool option \<Rightarrow> agent \<Rightarrow> ((u32 \<times> bool option) \<times> agent) option" where
  "isSpContainerRegistered junk spid isRegisteredP ag =
     (if isRegisteredP = None then Some ((ROOTPA_ERROR_ILLEGAL_ARGUMENT, None), ag)
      else map_option (\<lambda>((ret, state), ag1).
        (if ret = ROOTPA_OK then (ROOTPA_OK, Some (state \<noteq> Some MC_CONT_STATE_UNREGISTERED))
         else if ret = ROOTPA_ERROR_INTERNAL_NO_CONTAINER then (ROOTPA_OK, Some False)
         else (ret, isRegisteredP), ag1)) (getSpContainerState spid (Some junk) ag))"

definition containerExists :: "bytes \<Rightarrow> bool" where
  "containerExists uuid = (uuid \<noteq> MC_UUID_FREE)"

definition MC_CONT_CHILDREN_COUNT :: nat where "MC_CONT_CHILDREN_COUNT = 16"

record SpContainerStructure =
  sp_state :: u32
  nbrOfTlts :: nat
  tltContainers :: "(bytes \<times> u32) list" \<comment> \<open>UUID and state\<close>

text \<open>Set to ones, no trustlets.\<close>

definition empty_structure :: SpContainerStructure where
  "empty_structure = \<lparr>sp_state = 0xFFFFFFFF, nbrOfTlts = 0,
     tltContainers = replicate MC_CONT_CHILDREN_COUNT (replicate 16 0xFF, 0xFFFFFFFF)\<rparr>"

text \<open>One child of the container: its UUID goes into the next entry, its state too when its container can
  be read; the entry counts only then. After an error no container is read any more.\<close>

definition structure_child ::
    "u32 \<Rightarrow> bytes \<Rightarrow> u32 \<times> SpContainerStructure \<times> agent \<Rightarrow> (u32 \<times> SpContainerStructure \<times> agent) option" where
  "structure_child spid uuid = (\<lambda>(ret, st, ag).
     if \<not> containerExists uuid then Some (ret, st, ag)
     else if \<not> nbrOfTlts st < MC_CONT_CHILDREN_COUNT then None
     else let n = nbrOfTlts st;
              st1 = st\<lparr>tltContainers := (tltContainers st)[n := (uuid, snd (tltContainers st ! n))]\<rparr>
          in if ret \<noteq> ROOTPA_OK then Some (ret, st1, ag)
             else Option.bind (on_world (regReadTlt uuid spid) ag) (\<lambda>((result, tltP, _), ag1).
               if result = MC_DRV_OK then
                 map_option (\<lambda>state. (ret, st1\<lparr>tltContainers := (tltContainers st1)[n := (uuid, state)], nbrOfTlts := Suc n\<rparr>, ag1))
                   (container_state tltP)
               else Some (ROOTPA_ERROR_REGISTRY, st1, ag1)))"

fun structure_children ::
    "u32 \<Rightarrow> bytes \<Rightarrow> nat list \<Rightarrow> u32 \<times> SpContainerStructure \<times> agent \<Rightarrow> (u32 \<times> SpContainerStructure \<times> agent) option" where
  "structure_children spid spP [] s = Some s"
| "structure_children spid spP (i # is) s =
     Option.bind (buf_read (60 + 16 * i) 16 spP) (\<lambda>uuid.
     Option.bind (structure_child spid uuid s) (structure_children spid spP is))"

definition getSpContainerStructure ::
    "u32 \<Rightarrow> SpContainerStructure option \<Rightarrow> agent \<Rightarrow> ((u32 \<times> SpContainerStructure option) \<times> agent) option" where
  "getSpContainerStructure spid structureP ag =
     (if structureP = None then Some ((ROOTPA_ERROR_ILLEGAL_ARGUMENT, None), ag)
      else Option.bind (on_world (regReadSp spid) ag) (\<lambda>((result, spP, _), ag1).
        if result = MC_DRV_OK then
          Option.bind (container_state spP) (\<lambda>state.
          map_option (\<lambda>(ret, st, ag2). ((ret, Some st), ag2))
            (structure_children spid (the spP) [0..<MC_CONT_CHILDREN_COUNT]
               (ROOTPA_OK, empty_structure\<lparr>sp_state := state\<rparr>, ag1)))
        else Some ((if result = MC_DRV_ERR_INVALID_DEVICE_FILE then ROOTPA_ERROR_INTERNAL_NO_CONTAINER
                    else ROOTPA_ERROR_REGISTRY, Some empty_structure), ag1)))"

definition storeTA :: "u32 \<Rightarrow> bytes \<Rightarrow> bytes \<Rightarrow> agent \<Rightarrow> (u32 \<times> agent) option" where
  "storeTA spid uuid taBin ag =
     Option.bind (on_world (regGetTaState spid uuid) ag) (\<lambda>((result, _), ag1).
     if result = MC_DRV_ERR_INVALID_DEVICE_FILE then Some (ROOTPA_ERROR_ILLEGAL_ARGUMENT, ag1)
     else if result \<noteq> MC_DRV_OK then Some (ROOTPA_ERROR_REGISTRY, ag1)
     else map_option (\<lambda>(result, ag2). (if result \<noteq> MC_DRV_OK then ROOTPA_ERROR_REGISTRY else ROOTPA_OK, ag2))
            (on_world (regStoreTA spid taBin) ag1))"

subsection \<open>The provisioning thread\<close>

text \<open>The callbacks used when the client gives none.\<close>

definition dummySysInfoCallback :: "engine \<Rightarrow> (u32 \<times> osInfo_t) \<times> engine" where
  "dummySysInfoCallback en = ((ROOTPA_OK, \<lparr>imeiEsnP = None, mnoP = None, brandP = None, manufacturerP = None,
     hardwareP = None, modelP = None, versionP = None\<rparr>), en)"

text \<open>The installation data of the thread: the struct, its two blocks, and what they hold.\<close>

record installation =
  in_struct :: ptr
  in_data :: ptr
  in_hash :: ptr
  in_tlt :: trustletInstallationData

record provisioningparams =
  pp_spid :: u32
  pp_suid :: bytes
  pp_initialRel :: initialRel
  tltInstallationDataP :: "installation option"

text \<open>Allocate a block of zeros, or a block filled with the first \<open>n\<close> bytes from a pointer.\<close>

definition alloc_block :: "nat \<Rightarrow> engine \<Rightarrow> ptr \<times> engine" where
  "alloc_block n en = (case en_malloc n en of (None, en1) \<Rightarrow> (None, en1) | (Some _, en1) \<Rightarrow> new_block (replicate n 0) en1)"

definition alloc_copy :: "nat \<Rightarrow> bytes option \<Rightarrow> engine \<Rightarrow> (ptr \<times> bytes \<times> engine) option" where
  "alloc_copy n src en = (case en_malloc n en of (None, en1) \<Rightarrow> Some (None, [], en1)
     | (Some _, en1) \<Rightarrow> map_option (\<lambda>d. (fst (new_block d en1), d, snd (new_block d en1))) (Option.bind src (buf_read 0 n)))"

definition sizeof_provisioningparams :: nat where "sizeof_provisioningparams = 56"
definition sizeof_trustletInstallationData :: nat where "sizeof_trustletInstallationData = 64"

text \<open>Copy the installation data; when an allocation fails what was allocated before is freed, with the
  parameters.\<close>

definition copy_installation ::
    "ptr \<Rightarrow> trustletInstallationData \<Rightarrow> engine \<Rightarrow> (installation option \<times> engine) option" where
  "copy_installation paramsP tlt en =
     (case alloc_block sizeof_trustletInstallationData en of
        (None, en1) \<Rightarrow> map_option (\<lambda>e. (None, e)) (en_free paramsP en1)
      | (structP, en1) \<Rightarrow>
     Option.bind (alloc_copy (unat (dataLength tlt)) (dataP tlt) en1) (\<lambda>(dP, d, en2).
     if dP = None then Option.bind (en_free structP en2) (\<lambda>e. map_option (\<lambda>e. (None, e)) (en_free paramsP e))
     else Option.bind (alloc_copy (unat (tltPukHashLength tlt)) (tltPukHashP tlt) en2) (\<lambda>(hP, h, en3).
     if hP = None then Option.bind (en_free dP en3) (\<lambda>e. Option.bind (en_free structP e) (\<lambda>e.
       map_option (\<lambda>e. (None, e)) (en_free paramsP e)))
     else Some (Some \<lparr>in_struct = structP, in_data = dP, in_hash = hP,
                      in_tlt = tlt\<lparr>dataP := Some d, tltPukHashP := Some h\<rparr>\<rparr>, en3))))"

text \<open>The thread: a session around the run. \<open>junk\<close> is what the run's version variable holds at first.\<close>

definition with_getVersion :: "bytes \<Rightarrow> services \<Rightarrow> services" where
  "with_getVersion junk sv = sv\<lparr>sv_version := on_agent (getVersion 0 junk)\<rparr>"

definition free_installation :: "installation option \<Rightarrow> engine \<Rightarrow> engine option" where
  "free_installation inst en = (case inst of None \<Rightarrow> Some en
     | Some i \<Rightarrow> Option.bind (en_free (in_data i) en) (\<lambda>en1.
         Option.bind (en_free (in_hash i) en1) (en_free (in_struct i))))"

definition thread_exit :: "provisioningparams \<Rightarrow> (bytes \<times> engine) run \<Rightarrow> (bytes \<times> engine) run" where
  "thread_exit pp r = (case r of Fault \<Rightarrow> Fault
     | Done (url, en) \<Rightarrow>
         (case free_installation (tltInstallationDataP pp) (report PROVISIONING_STATE_THREAD_EXITING ROOTPA_OK en) of
            None \<Rightarrow> Fault | Some en1 \<Rightarrow> Done (url, en1)))"

definition provisioningThreadFunction ::
    "services \<Rightarrow> bytes \<Rightarrow> bytes \<Rightarrow> provisioningparams \<Rightarrow> engine \<Rightarrow> (bytes \<times> engine) run option" where
  "provisioningThreadFunction sv junk initialUrl pp en =
     (case openCmtlSession (en_agent en) of (ret, ag) \<Rightarrow>
      let en1 = en\<lparr>en_agent := ag\<rparr> in
      map_option (thread_exit pp)
        (if ret = ROOTPA_OK then
           map_option (\<lambda>r. case r of Fault \<Rightarrow> Fault
               | Done (url, en2) \<Rightarrow> Done (url, en2\<lparr>en_agent := closeCmtlSession (en_agent en2)\<rparr>))
             (doProvisioningWithSe (with_getVersion junk sv) (pp_spid pp) (pp_suid pp) (pp_initialRel pp)
                (map_option in_tlt (tltInstallationDataP pp)) initialUrl en1)
         else Some (Done (initialUrl, report ERROR_STATE ret en1))))"

text \<open>Start the thread: the result, and the parameters if a thread was started. \<open>attr_ok\<close> and \<open>create_ok\<close>
  are the results of the thread library.\<close>

definition provision ::
    "bool \<Rightarrow> bool \<Rightarrow> u32 \<Rightarrow> trustletInstallationData option \<Rightarrow> initialRel \<Rightarrow> engine \<Rightarrow>
     (u32 \<times> (ptr \<times> provisioningparams) option \<times> engine) option" where
  "provision attr_ok create_ok spid tltDataP rel en =
     (case alloc_block sizeof_provisioningparams en of
        (None, en1) \<Rightarrow> Some (ROOTPA_ERROR_OUT_OF_MEMORY, None, en1)
      | (paramsP, en1) \<Rightarrow>
     Option.bind (case tltDataP of None \<Rightarrow> Some (True, None, en1)
       | Some tlt \<Rightarrow> map_option (\<lambda>(inst, en2). (inst \<noteq> None, inst, en2)) (copy_installation paramsP tlt en1))
       (\<lambda>(ok, inst, en2).
     if \<not> ok then Some (ROOTPA_ERROR_OUT_OF_MEMORY, None, en2)
     else Option.bind (on_agent (getSuid (replicate 16 0)) en2) (\<lambda>((ret, suid), en3).
       if ret \<noteq> ROOTPA_OK then Some (ret, None, en3)
       else if \<not> attr_ok then Some (ROOTPA_ERROR_INTERNAL, None, en3)
       else if \<not> create_ok then map_option (\<lambda>en4. (ROOTPA_ERROR_INTERNAL, None, en4)) (en_free paramsP en3)
       else Some (ROOTPA_OK, Some (paramsP, \<lparr>pp_spid = spid, pp_suid = suid, pp_initialRel = rel,
                                             tltInstallationDataP = inst\<rparr>), en3))))"

definition doProvisioning :: "bool \<Rightarrow> bool \<Rightarrow> u32 \<Rightarrow> engine \<Rightarrow> (u32 \<times> (ptr \<times> provisioningparams) option \<times> engine) option" where
  "doProvisioning attr_ok create_ok spid = provision attr_ok create_ok spid None initialRel_POST"

definition installTrustlet :: "bool \<Rightarrow> bool \<Rightarrow> u32 \<Rightarrow> trustletInstallationData option \<Rightarrow> engine \<Rightarrow>
    (u32 \<times> (ptr \<times> provisioningparams) option \<times> engine) option" where
  "installTrustlet attr_ok create_ok spid tltDataP en =
     (case tltDataP of None \<Rightarrow> Some (ROOTPA_ERROR_ILLEGAL_ARGUMENT, None, en)
      | Some tlt \<Rightarrow>
        if dataP tlt = None \<or> dataLength tlt = 0 \<or> dataType tlt \<noteq> REQUEST_DATA_TLT \<and> dataType tlt \<noteq> REQUEST_DATA_KEY
        then Some (ROOTPA_ERROR_ILLEGAL_ARGUMENT, None, en)
        else provision attr_ok create_ok spid tltDataP initialRel_POST en)"

definition setSeAddress :: "bytes option \<Rightarrow> u32 \<Rightarrow> bytes \<Rightarrow> (u32 \<times> bytes) option" where
  "setSeAddress = setInitialAddress"

definition unregisterRootContainer :: "bool \<Rightarrow> bool \<Rightarrow> engine \<Rightarrow> (u32 \<times> (ptr \<times> provisioningparams) option \<times> engine) option" where
  "unregisterRootContainer attr_ok create_ok = provision attr_ok create_ok 0 None initialRel_DELETE"

end
