(* ===== verification/ContentFacts.thy ===== *)
theory ContentFacts
  imports ContentManager
begin

text \<open>
  Facts about the content manager: an exchange is memory safe and ends whatever the trustlet
  answers, its buffer is mapped and unmapped the same number of times, and what becomes of the
  session when the list of commands ends early.
\<close>

subsection \<open>What a command leaves alone\<close>

lemma drv_step_tee:
  "(\<And>d. dr_tee (f d) = dr_tee d) \<Longrightarrow> drv_step f d = (r, d') \<Longrightarrow> dr_tee d' = dr_tee d"
  by (auto simp: drv_step_def drv_call_def split: if_splits)

text \<open>The devices, the buffers and the sessions that are open.\<close>

definition opened :: "driver \<Rightarrow> nat \<times> nat \<times> nat" where
  "opened d = (dr_devices d, dr_wsms d, dr_sessions d)"

text \<open>With the results that the driver is going to give.\<close>

definition outside :: "driver \<Rightarrow> (nat \<times> nat \<times> nat) \<times> (nat \<Rightarrow> u32)" where
  "outside d = (opened d, dr_out d)"

lemmas driver_calls = drv_step_def drv_call_def mcMap_def mcUnmap_def mcNotify_def mcWaitNotification_def on_driver_def

lemma map_frame:
  assumes "on_driver mcMap ag = ((r, addr), ag')"
  shows "dr_tee (ag_driver ag') = dr_tee (ag_driver ag)" "outside (ag_driver ag') = outside (ag_driver ag)"
    "static_handle ag' = static_handle ag"
    "r = MC_DRV_OK \<Longrightarrow> dr_maps (ag_driver ag') = Suc (dr_maps (ag_driver ag))"
  using assms by (auto simp: driver_calls outside_def opened_def split: if_splits prod.splits)

lemma unmap_frame:
  assumes "on_driver mcUnmap ag = (r, ag')"
  shows "dr_tee (ag_driver ag') = dr_tee (ag_driver ag)" "outside (ag_driver ag') = outside (ag_driver ag)"
    "static_handle ag' = static_handle ag"
    "r = MC_DRV_OK \<Longrightarrow> dr_maps (ag_driver ag') = dr_maps (ag_driver ag) - 1"
  using assms by (auto simp: driver_calls outside_def opened_def split: if_splits prod.splits)

lemma transmit_frame:
  assumes "tltChannelTransmit (Some h) ag = (ok, h', ag')"
  shows "dr_tee (ag_driver ag') = dr_tee (ag_driver ag)" "outside (ag_driver ag') = outside (ag_driver ag)"
    "static_handle ag' = static_handle ag"
    "dr_maps (ag_driver ag') = dr_maps (ag_driver ag)"
  using assms by (auto simp: tltChannelTransmit_def driver_calls outside_def opened_def Let_def split: if_splits prod.splits)

lemma on_world_driver: "on_world f ag = Some (r, ag') \<Longrightarrow> ag_driver ag' = ag_driver ag \<and> static_handle ag' = static_handle ag"
  by (auto simp: on_world_def)

lemma ag_malloc_driver: "ag_malloc n ag = (b, ag') \<Longrightarrow> ag_driver ag' = ag_driver ag \<and> static_handle ag' = static_handle ag"
  by (auto simp: ag_malloc_def split: prod.splits)

text \<open>A step that leaves the driver alone.\<close>

definition calm :: "('a \<times> agent) option \<Rightarrow> agent \<Rightarrow> bool" where
  "calm s ag \<longleftrightarrow> (\<forall>r ag'. s = Some (r, ag') \<longrightarrow> ag_driver ag' = ag_driver ag \<and> static_handle ag' = static_handle ag)"

lemma calm_on_world: "calm (on_world f ag) ag" by (auto simp: calm_def dest: on_world_driver)

lemma calm_id: "calm (Some (r, ag)) ag" "calm None ag" by (simp_all add: calm_def)

lemma calm_bind: "calm s ag \<Longrightarrow> (\<And>r ag1. calm (f (r, ag1)) ag1) \<Longrightarrow> calm (Option.bind s f) ag"
  unfolding calm_def by (cases s) auto

lemma calm_pure: "(\<And>y. calm (f y) ag) \<Longrightarrow> calm (Option.bind x f) ag"
  unfolding calm_def by (cases x) auto

lemma calm_map: "calm s ag \<Longrightarrow> (\<And>r ag1. snd (f (r, ag1)) = ag1) \<Longrightarrow> calm (map_option f s) ag"
  unfolding calm_def by (cases s) (auto, (metis snd_conv)+)

lemma calm_store_element: "calm (store_element write h i off ag) ag"
  unfolding store_element_def by (rule calm_pure) (auto intro!: calm_id calm_pure calm_on_world split: prod.split)

lemma calm_store_two: "(\<And>d ag1. calm (outer d ag1) ag1) \<Longrightarrow> calm (store_two inner outer h i off ag) ag"
proof -
  assume o: "\<And>d ag1. calm (outer d ag1) ag1"
  have i: "calm (Option.bind (store_element inner h j off' ag) (\<lambda>(mcRet, ag1).
      if mcRet = MC_DRV_OK then Option.bind (rsp_data h off' n) (\<lambda>d. outer d ag1) else Some (mcRet, ag1))) ag" for j off' n
    by (rule calm_bind [OF calm_store_element]) (simp add: calm_id calm_pure o)
  show ?thesis unfolding store_two_def by (rule calm_pure) (simp add: calm_id i split: prod.split)
qed

lemma calm_retire: "calm (retire_auth_token ag) ag"
proof -
  have w: "calm (Option.bind (on_world (regWriteAuthToken d) ag2) (\<lambda>(mcRet2, ag3).
      if mcRet2 = MC_DRV_OK then map_option (\<lambda>(_, ag4). (mcRet2, ag4)) (on_world regCleanupRoot ag3)
      else Some (mcRet2, ag3))) ag2" for d ag2
    by (rule calm_bind [OF calm_on_world]) (simp add: calm_id calm_map calm_on_world)
  show ?thesis
    unfolding retire_auth_token_def
    by (rule calm_bind [OF calm_on_world], clarsimp, rule calm_bind [OF calm_on_world])
      (simp add: calm_id calm_pure w split: option.split)
qed

lemma calm_storeContainers: "calm (storeContainers c h i off ag) ag"
proof -
  have root: "calm (store_registered_root h i off ag) ag"
    unfolding store_registered_root_def by (rule calm_bind [OF calm_store_element]) (simp add: calm_retire calm_id)
  have tlt: "calm (store_registered_tlt h i off ag) ag"
    unfolding store_registered_tlt_def
    by (rule calm_store_two, rule calm_bind [OF calm_on_world]) (auto intro!: calm_id calm_map calm_on_world)
  have sp: "calm (store_registered_sp h i off ag) ag"
    unfolding store_registered_sp_def by (rule calm_store_two) (rule calm_on_world)
  have un: "calm (store_unregistered cl wr h i off ag) ag" for cl wr
    unfolding store_unregistered_def by (rule calm_bind [OF calm_on_world]) (simp add: calm_store_element)
  show ?thesis
    unfolding storeContainers_def by (simp add: root tlt sp un calm_id calm_store_element calm_on_world)
qed

lemma handleResponse_driver:
  assumes "handleResponse c rsp h ag = Some (ret, rsp', ag')"
  shows "ag_driver ag' = ag_driver ag \<and> static_handle ag' = static_handle ag"
proof -
  have a: "ag_driver ag1 = ag_driver ag \<and> static_handle ag1 = static_handle ag"
    if "allocateResponseBuffer rsp h ag = Some (r, rsp1, ag1)" for r rsp1 ag1
    using that by (auto simp: allocateResponseBuffer_def Let_def split: if_splits option.splits prod.splits dest: ag_malloc_driver)
  have s: "ag_driver ag2 = ag_driver ag1 \<and> static_handle ag2 = static_handle ag1"
    if "storeContainers c h i off ag1 = Some (r, ag2)" for i off ag1 r ag2
    using calm_storeContainers that unfolding calm_def by blast
  show ?thesis
    using assms by (auto simp: handleResponse_def bind_eq_Some_conv Let_def case_prod_unfold split: if_splits dest!: a s)
qed

subsection \<open>An exchange stays inside its buffers\<close>

text \<open>The trustlet answers in the message it was given, with elements that do not end beyond 32
  bits.\<close>

definition tee_sane :: "driver \<Rightarrow> bool" where
  "tee_sane d \<longleftrightarrow> (\<forall>n w m. length (fst (dr_tee d n w m)) = length w \<and> rsp_no_wrap (fst (dr_tee d n w m)))"

definition handle_ok :: "cmtstruct \<Rightarrow> bool" where
  "handle_ok h \<longleftrightarrow> (\<exists>w. wsmP h = Some w \<and> length w = sizeOfCmp)"

text \<open>A command as the client hands it over: its content has the length it says.\<close>

definition command_ok :: "cmp_message \<Rightarrow> bool" where
  "command_ok cmd \<longleftrightarrow> (\<forall>c. contentP cmd = Some c \<longrightarrow> length c = unat (cmp_length cmd)) \<and> unat (cmp_length cmd) < 2 ^ 31"

definition attempt_ready :: "u32 \<Rightarrow> cmp_message \<Rightarrow> cmtstruct \<Rightarrow> bool" where
  "attempt_ready c cmd h \<longleftrightarrow> handle_ok h \<and> command_ok cmd \<and> contentP cmd \<noteq> None \<and>
     getTotalMappedBufferSize c (cmp_length cmd) \<le> mappedSize h \<and>
     getTotalMappedBufferSize c (cmp_length cmd) \<noteq> 0"

lemma prepared_inv:
  assumes r: "exchange_ready c cmd h" and p: "prepareCommand c cmd h rsp ag = Some (ret, h', rsp', ag')"
  shows "\<exists>w m. wsmP h' = Some w \<and> length w = sizeOfCmp \<and> mappedP h' = Some m \<and> unat (mappedSize h') \<le> length m"
proof -
  obtain q where q: "prepare_message c cmd h ag = Some (True, q)" "prep_inv q"
    using prepare_message_ready [OF r] by blast
  then obtain q1 where q1: "prepare_switch c q = Some q1" "h' = pr_handle q1"
    using p by (auto simp: prepareCommand_def bind_eq_Some_conv)
  then have "prep_inv q1" using prepare_switch_same [OF q1(1)] q(2) by (simp add: same_outside_def)
  then show ?thesis using q1(2) by (simp add: prep_inv_def)
qed

lemma ready_size:
  assumes "attempt_ready c cmd h"
  shows "8 \<le> unat (mappedSize h)"
proof -
  obtain m cc rc where i: "getCmpSizeInfo c = Some (m, cc, rc)"
    using assms supported [of c "cmp_length cmd"] by (auto simp: attempt_ready_def)
  have "24 \<le> m" using getCmpSizeInfo_member [OF i] by (auto simp: sizeTable_def)
  moreover have "max m (unat (cmp_length cmd)) + max cc rc \<le> unat (mappedSize h)"
    using total_size [OF i, of "cmp_length cmd"] assms
    by (simp add: attempt_ready_def command_ok_def word_le_nat_alt)
  ultimately show ?thesis by linarith
qed

lemma transmitted_ready:
  assumes t: "tltChannelTransmit (Some h) ag = (True, Some h', ag')" and s: "tee_sane (ag_driver ag)"
    and h: "wsmP h = Some w" "length w = sizeOfCmp" "mappedP h = Some m" "unat (mappedSize h) \<le> length m" "8 \<le> unat (mappedSize h)"
  shows "response_ready h'"
proof -
  have "\<exists>n. wsmP h' = Some (in_place w (fst (dr_tee (ag_driver ag) n w m))) \<and>
      mappedP h' = Some (in_place m (snd (dr_tee (ag_driver ag) n w m))) \<and> mappedSize h' = mappedSize h"
    by (rule exI [of _ "dr_turns (ag_driver ag)"])
      (use t h in \<open>auto simp: tltChannelTransmit_def driver_calls Let_def split: if_splits prod.splits\<close>)
  then obtain n where n: "wsmP h' = Some (in_place w (fst (dr_tee (ag_driver ag) n w m)))"
      "mappedP h' = Some (in_place m (snd (dr_tee (ag_driver ag) n w m)))" "mappedSize h' = mappedSize h" by blast
  have "in_place w (fst (dr_tee (ag_driver ag) n w m)) = fst (dr_tee (ag_driver ag) n w m)"
    "length (fst (dr_tee (ag_driver ag) n w m)) = length w" "rsp_no_wrap (fst (dr_tee (ag_driver ag) n w m))"
    using s by (auto simp: tee_sane_def in_place_def)
  moreover have "length (in_place m x) = length m" for x by (simp add: in_place_def)
  ultimately show ?thesis using n h by (simp add: response_ready_def)
qed

lemma response_ready_handle: "response_ready h \<Longrightarrow> handle_ok h"
  by (auto simp: response_ready_def handle_ok_def)

text \<open>An attempt of a ready exchange, whatever happens to it.\<close>

definition attempt_result :: "u32 \<Rightarrow> (nat \<times> nat \<times> nat) \<times> (nat \<Rightarrow> u32) \<Rightarrow> cmtstruct option \<Rightarrow> bool \<Rightarrow>
    turn \<times> exchange \<Rightarrow> bool" where
  "attempt_result c o' sh ig = (\<lambda>(t, h, cmd, rsp, ag). tee_sane (ag_driver ag) \<and> handle_ok h \<and>
     outside (ag_driver ag) = o' \<and> static_handle ag = sh \<and> ignoreError (hdr cmd) = ig \<and>
     (t = Again \<longrightarrow> attempt_ready c cmd h) \<and> (t = Finished ROOTPA_OK \<longrightarrow> response_ready h))"

lemma tee_sane_cong: "dr_tee d = dr_tee d' \<Longrightarrow> tee_sane d = tee_sane d'"
  by (simp add: tee_sane_def)

lemma after_transmit_result:
  assumes r: "response_ready h" and s: "tee_sane (ag_driver ag)" and c: "attempt_ready c cmd (h\<lparr>mappedSize := n\<rparr>)" "n \<le> mappedSize h"
  shows "\<exists>x. after_transmit (h, cmd, rsp, ag) = Some x \<and> attempt_result c (outside (ag_driver ag)) (static_handle ag) (ignoreError (hdr cmd)) x"
proof -
  obtain w where w: "wsmP h = Some w" "length w = 40" using r by (auto simp: response_ready_def sizeOfCmp_def)
  obtain a b d where ab: "ld32 0 w = Some a" "ld32 4 w = Some b" "ld32 8 w = Some d"
    using w ld32_Some_iff [of 0 w] ld32_Some_iff [of 4 w] ld32_Some_iff [of 8 w] by auto
  obtain nb where nb: "getNeededBytesFromResponse (wsmP h) = Some nb"
    using w(1) ab by (cases "a = CMP_VERSION"; cases "IS_RSP b")
      (simp_all add: getNeededBytesFromResponse_def isValidResponse_def getRspCmpVersion_def getRspCmpId_def)
  obtain mr ag1 where u: "on_driver mcUnmap ag = (mr, ag1)" by fastforce
  have s1: "tee_sane (ag_driver ag1)" using tee_sane_cong [OF unmap_frame(1) [OF u]] s by simp
  note u' = unmap_frame(2,3) [OF u]
  have base: "handle_ok h" using response_ready_handle [OF r] .
  have "attempt_ready c cmd (h\<lparr>mappedP := None, mapInfo_addr := 0, mapInfo_len := 0, mappedSize := nb\<rparr>)"
    if "\<not> nb \<le> mappedSize h"
  proof -
    have "n \<le> nb" using that c(2) by simp
    then show ?thesis using c(1) by (auto simp: attempt_ready_def handle_ok_def)
  qed
  then show ?thesis
    using nb u s s1 r base u' by (auto simp: after_transmit_def attempt_result_def handle_ok_def with_intRet_def)
qed

lemma cmp_attempt_result:
  assumes r: "attempt_ready c cmd h" and s: "tee_sane (ag_driver ag)"
  shows "\<exists>x. cmp_attempt c (h, cmd, rsp, ag) = Some x \<and> attempt_result c (outside (ag_driver ag)) (static_handle ag) (ignoreError (hdr cmd)) x"
proof -
  note defs = cmp_attempt_def attempt_result_def with_intRet_def Let_def
  have hok: "handle_ok h" using r by (simp add: attempt_ready_def)
  obtain bo ag1 where m: "ag_malloc (unat (mappedSize h)) ag = (bo, ag1)" by fastforce
  note d1 = ag_malloc_driver [OF m]
  obtain mr addr ag2 where p: "on_driver mcMap ag1 = ((mr, addr), ag2)" by (metis prod.collapse)
  have d2: "tee_sane (ag_driver ag2)" "outside (ag_driver ag2) = outside (ag_driver ag)" "static_handle ag2 = static_handle ag"
    using map_frame(2,3) [OF p] tee_sane_cong [OF map_frame(1) [OF p]] s d1 by simp_all
  let ?h = "h\<lparr>mappedP := Some (replicate (unat (mappedSize h)) 0), mapInfo_addr := addr, mapInfo_len := mappedSize h\<rparr>"
  have er: "exchange_ready c cmd ?h"
    using r by (auto simp: exchange_ready_def attempt_ready_def handle_ok_def command_ok_def)
  obtain ret h2 rsp1 ag3 where q: "prepareCommand c cmd ?h rsp ag2 = Some (ret, h2, rsp1, ag3)"
    using prepareCommand_defined [OF er, of rsp ag2] by auto
  note q' = prepareCommand_same [OF q]
  obtain w b where wb: "wsmP h2 = Some w" "length w = sizeOfCmp" "mappedP h2 = Some b" "unat (mappedSize h2) \<le> length b"
    using prepared_inv [OF er q] by blast
  obtain ok h3 ag4 where x: "tltChannelTransmit (Some h2) ag3 = (ok, h3, ag4)" by (metis prod.collapse)
  obtain h4 where h4: "h3 = Some h4" "mappedSize h4 = mappedSize h" using tltChannelTransmit_handle [OF x] q'(1) by auto
  have d4: "tee_sane (ag_driver ag4)" "outside (ag_driver ag4) = outside (ag_driver ag)" "static_handle ag4 = static_handle ag"
    using transmit_frame(2,3) [OF x] tee_sane_cong [OF transmit_frame(1) [OF x]] q' d2 by simp_all
  consider "bo = None" | b1 where "bo = Some b1" "mr \<noteq> MC_DRV_OK" | b1 where "bo = Some b1" "mr = MC_DRV_OK" "ret \<noteq> ROOTPA_OK"
    | b1 where "bo = Some b1" "mr = MC_DRV_OK" "ret = ROOTPA_OK" "\<not> ok"
    | b1 where "bo = Some b1" "mr = MC_DRV_OK" "ret = ROOTPA_OK" ok by (cases bo) blast+
  then show ?thesis
  proof cases
    case 1
    then show ?thesis using m hok d1 s by (auto simp: defs handle_ok_def)
  next
    case 2
    then show ?thesis using m p hok d2 by (auto simp: defs handle_ok_def)
  next
    case 3
    then show ?thesis using m p q q' wb d2 by (auto simp: defs handle_ok_def)
  next
    case 4
    have "handle_ok h4" using x h4 4 wb
      by (auto simp: tltChannelTransmit_def handle_ok_def Let_def split: if_splits prod.splits)
    then show ?thesis using 4 m p q x h4 d4 by (auto simp: defs)
  next
    case 5
    have sz: "8 \<le> unat (mappedSize h2)" using ready_size [OF r] q'(1) by simp
    have s3: "tee_sane (ag_driver ag3)" using q'(2) d2(1) by simp
    have rr: "response_ready h4"
      using transmitted_ready [of h2 ag3 h4 ag4 w b] x h4(1) 5 s3 wb sz by simp
    have rd: "attempt_ready c cmd (h4\<lparr>mappedSize := mappedSize h\<rparr>)"
      using r response_ready_handle [OF rr] by (simp add: attempt_ready_def handle_ok_def)
    show ?thesis
      using after_transmit_result [OF rr d4(1) rd] h4(2) d4 5 m p q x h4(1) by (simp add: cmp_attempt_def)
  qed
qed

lemma exchange_loop_result:
  "attempt_ready c cmd h \<Longrightarrow> tee_sane (ag_driver ag) \<Longrightarrow>
   \<exists>ret h' cmd' rsp' ag'. exchange_loop c (h, cmd, rsp, ag) = Some (ret, h', cmd', rsp', ag') \<and>
     tee_sane (ag_driver ag') \<and> handle_ok h' \<and> outside (ag_driver ag') = outside (ag_driver ag) \<and>
     static_handle ag' = static_handle ag \<and> ignoreError (hdr cmd') = ignoreError (hdr cmd) \<and>
     (ret = ROOTPA_OK \<longrightarrow> response_ready h')"
proof (induction c "(h, cmd, rsp, ag)" arbitrary: h cmd rsp ag rule: exchange_loop.induct)
  case (1 c h cmd rsp ag)
  obtain x where x: "cmp_attempt c (h, cmd, rsp, ag) = Some x"
    "attempt_result c (outside (ag_driver ag)) (static_handle ag) (ignoreError (hdr cmd)) x"
    using cmp_attempt_result [OF 1(2,3)] by blast
  obtain t h1 cmd1 rsp1 ag1 where xe: "x = (t, h1, cmd1, rsp1, ag1)" by (cases x) auto
  show ?case
  proof (cases t)
    case (Finished ret)
    then show ?thesis using x xe by (simp add: exchange_loop.simps attempt_result_def)
  next
    case Again
    then have "attempt_ready c cmd1 h1" "tee_sane (ag_driver ag1)" "outside (ag_driver ag1) = outside (ag_driver ag)"
      "static_handle ag1 = static_handle ag" "ignoreError (hdr cmd1) = ignoreError (hdr cmd)"
      using x(2) xe by (auto simp: attempt_result_def)
    then show ?thesis using 1(1) [OF x(1) xe [symmetric] Again] x(1) xe Again by (auto simp: exchange_loop.simps)
  qed
qed

text \<open>What holds of an agent between two commands.\<close>

definition steady :: "agent \<Rightarrow> agent \<Rightarrow> bool" where
  "steady ag ag' \<longleftrightarrow> tee_sane (ag_driver ag') \<and> outside (ag_driver ag') = outside (ag_driver ag) \<and>
     static_handle ag' = static_handle ag"

lemma steady_trans: "steady a b \<Longrightarrow> steady b c \<Longrightarrow> steady a c"
  by (simp add: steady_def)

lemma executeOneCmpCommand_result:
  assumes h: "handle_ok h" and c: "command_ok cmd" and s: "tee_sane (ag_driver ag)"
  shows "\<exists>ret h' cmd' rsp' ag'. executeOneCmpCommand h cmd rsp ag = Some (ret, h', cmd', rsp', ag') \<and>
    handle_ok h' \<and> steady ag ag' \<and> ignoreError (hdr cmd') = ignoreError (hdr cmd)"
proof (cases "contentP cmd = None \<or> cmp_length cmd < 4")
  case True
  then show ?thesis using h s by (auto simp: executeOneCmpCommand_def steady_def)
next
  case False
  then obtain d where d: "contentP cmd = Some d" by auto
  have "4 \<le> length d" using False c d by (auto simp: command_ok_def word_less_nat_alt)
  then obtain cid where cid: "getCmpCommandId (contentP cmd) = Some cid"
    using d ld32_Some_iff [of 0 d] by (auto simp: getCmpCommandId_def)
  let ?t = "getTotalMappedBufferSize cid (cmp_length cmd)"
  let ?h = "h\<lparr>mappedSize := ?t\<rparr>"
  note start = False cid
  show ?thesis
  proof (cases "?t = 0")
    case True
    then show ?thesis using start h s by (auto simp: executeOneCmpCommand_def steady_def handle_ok_def)
  next
    case sup: False
    then have "attempt_ready cid cmd ?h" using h c d by (simp add: attempt_ready_def handle_ok_def)
    then obtain ret h1 cmd1 rsp1 ag1 where l: "exchange_loop cid (?h, cmd, rsp, ag) = Some (ret, h1, cmd1, rsp1, ag1)"
      "tee_sane (ag_driver ag1)" "handle_ok h1" "outside (ag_driver ag1) = outside (ag_driver ag)"
      "static_handle ag1 = static_handle ag" "ret = ROOTPA_OK \<longrightarrow> response_ready h1"
      "ignoreError (hdr cmd1) = ignoreError (hdr cmd)"
      using exchange_loop_result [of cid cmd ?h ag rsp] s by blast
    obtain ret1 rsp2 ag2 where r: "(if ret = ROOTPA_OK then handleResponse cid rsp1 h1 ag1
        else Some (ret, with_ret ret rsp1, ag1)) = Some (ret1, rsp2, ag2)"
      using handleResponse_defined [of h1 cid rsp1 ag1] l(6) by (cases "ret = ROOTPA_OK") auto
    have a2: "ag_driver ag2 = ag_driver ag1 \<and> static_handle ag2 = static_handle ag1"
      using r handleResponse_driver [of cid rsp1 h1 ag1 ret1 rsp2 ag2] by (auto split: if_splits)
    obtain mr ag3 where u: "on_driver mcUnmap ag2 = (mr, ag3)" by fastforce
    have "steady ag ag3" using unmap_frame(2,3) [OF u] tee_sane_cong [OF unmap_frame(1) [OF u]] a2 l(2,4,5)
      by (simp add: steady_def)
    then show ?thesis
      using start sup l(1,3,7) r u d
      by (simp add: executeOneCmpCommand_def handle_ok_def note_ret_def with_ret_def Let_def cong: if_cong)
  qed
qed

lemma run_commands_result:
  "\<forall>(cmd, rsp) \<in> set l. command_ok cmd \<Longrightarrow> handle_ok h \<Longrightarrow> tee_sane (ag_driver ag) \<Longrightarrow>
   \<exists>early ret' l' h' ag'. run_commands ret l h ag = Some (early, ret', l', h', ag') \<and> handle_ok h' \<and> steady ag ag' \<and>
     (early \<longrightarrow> ret' \<noteq> ROOTPA_OK \<and> (\<exists>(cmd, rsp) \<in> set l. \<not> ignoreError (hdr cmd)))"
proof (induction l arbitrary: ret h ag)
  case Nil
  then show ?case by (auto simp: steady_def)
next
  case (Cons x l)
  obtain cmd rsp0 where x: "x = (cmd, rsp0)" by (cases x)
  define rsp where "rsp = rsp0\<lparr>hdr := (hdr rsp0)\<lparr>msg_id := msg_id (hdr cmd), ignoreError := ignoreError (hdr cmd)\<rparr>\<rparr>"
  have c: "command_ok cmd" "\<forall>(cmd, rsp) \<in> set l. command_ok cmd" using Cons.prems(1) x by auto
  obtain iRet h1 cmd1 rsp1 ag1 where e: "executeOneCmpCommand h cmd rsp ag = Some (iRet, h1, cmd1, rsp1, ag1)"
    "handle_ok h1" "steady ag ag1" "ignoreError (hdr cmd1) = ignoreError (hdr cmd)"
    using executeOneCmpCommand_result [OF Cons.prems(2) c(1) Cons.prems(3), of rsp] by blast
  have s1: "tee_sane (ag_driver ag1)" using e(3) by (simp add: steady_def)
  obtain a1 a2 a3 a4 a5 where r1: "run_commands iRet l h1 ag1 = Some (a1, a2, a3, a4, a5)" "handle_ok a4" "steady ag1 a5"
    "a1 \<longrightarrow> a2 \<noteq> ROOTPA_OK \<and> (\<exists>(cmd, rsp) \<in> set l. \<not> ignoreError (hdr cmd))"
    using Cons.IH [OF c(2) e(2) s1, of iRet] by blast
  obtain b1 b2 b3 b4 b5 where r2: "run_commands ret l h1 ag1 = Some (b1, b2, b3, b4, b5)" "handle_ok b4" "steady ag1 b5"
    "b1 \<longrightarrow> b2 \<noteq> ROOTPA_OK \<and> (\<exists>(cmd, rsp) \<in> set l. \<not> ignoreError (hdr cmd))"
    using Cons.IH [OF c(2) e(2) s1, of ret] by blast
  obtain c1 c2 c3 c4 c5 where r3: "run_commands ret l h ag = Some (c1, c2, c3, c4, c5)" "handle_ok c4" "steady ag c5"
    "c1 \<longrightarrow> c2 \<noteq> ROOTPA_OK \<and> (\<exists>(cmd, rsp) \<in> set l. \<not> ignoreError (hdr cmd))"
    using Cons.IH [OF c(2) Cons.prems(2,3), of ret] by blast
  note st = steady_trans [OF e(3) r1(3)] steady_trans [OF e(3) r2(3)]
  show ?case
    using x e r1 r2 r3 st by (auto simp: rsp_def [symmetric] Let_def)
qed

lemma open_frame:
  assumes "tltChannelOpen sizeOfCmp ag = ((e, ho), ag')"
  shows "dr_tee (ag_driver ag') = dr_tee (ag_driver ag)" "\<forall>h. ho = Some h \<longrightarrow> handle_ok h"
    "static_handle ag' = static_handle ag"
  using assms unfolding tltChannelOpen_def taChannelOpen_def
  by (auto simp: mcOpenDevice_def mcMallocWsm_def mcOpenSession_def mcCloseDevice_def mcFreeWsm_def drv_step_def
      drv_call_def on_driver_def handle_ok_def dest!: ag_malloc_driver split: option.splits prod.splits if_splits)

lemma close_frame: "dr_tee (ag_driver (tltChannelClose ho ag)) = dr_tee (ag_driver ag)"
  by (cases ho) (auto simp: tltChannelClose_def mcCloseSession_def mcCloseDevice_def mcFreeWsm_def drv_step_def
      drv_call_def on_driver_def Let_def split: prod.splits)

definition all_ok :: "driver \<Rightarrow> bool" where "all_ok d \<longleftrightarrow> dr_out d = (\<lambda>_. MC_DRV_OK)"

lemmas channel_defs = tltChannelOpen_def taChannelOpen_def tltChannelClose_def mcOpenDevice_def mcMallocWsm_def
  mcOpenSession_def mcCloseSession_def mcCloseDevice_def mcFreeWsm_def drv_step_def drv_call_def on_driver_def opened_def

fun one_more :: "nat \<times> nat \<times> nat \<Rightarrow> nat \<times> nat \<times> nat" where
  "one_more (a, b, c) = (Suc a, Suc b, Suc c)"

lemma open_counts:
  assumes t: "tltChannelOpen sizeOfCmp ag = ((e, ho), ag')" and a: "all_ok (ag_driver ag)"
  shows "opened (ag_driver ag') = (if ho = None then opened (ag_driver ag) else one_more (opened (ag_driver ag)))"
    "all_ok (ag_driver ag')"
  using assms unfolding all_ok_def
  by (auto simp: channel_defs split: option.splits prod.splits if_splits dest!: ag_malloc_driver)

lemma close_counts:
  assumes "all_ok (ag_driver ag)" and "handle_ok h" and "opened (ag_driver ag) = one_more n"
  shows "opened (ag_driver (tltChannelClose (Some h) ag)) = n"
  using assms unfolding all_ok_def by (cases n) (auto simp: channel_defs handle_ok_def Let_def split: prod.splits)

lemma steady_all_ok: "steady ag ag' \<Longrightarrow> all_ok (ag_driver ag) \<Longrightarrow>
    all_ok (ag_driver ag') \<and> opened (ag_driver ag') = opened (ag_driver ag)"
  by (simp add: steady_def outside_def all_ok_def)

text \<open>Mappings.\<close>

lemma after_transmit_maps:
  assumes "after_transmit (h, cmd, rsp, ag) = Some (t, h', cmd', rsp', ag')"
  shows "t = Again \<Longrightarrow> dr_maps (ag_driver ag') = dr_maps (ag_driver ag) - 1"
    "t = Finished ROOTPA_OK \<Longrightarrow> ag' = ag"
proof -
  obtain r ag1 where u: "on_driver mcUnmap ag = (r, ag1)" by fastforce
  show "t = Again \<Longrightarrow> dr_maps (ag_driver ag') = dr_maps (ag_driver ag) - 1"
    "t = Finished ROOTPA_OK \<Longrightarrow> ag' = ag"
    using assms u unmap_frame(4) [OF u] by (auto simp: after_transmit_def split: if_splits)
qed

lemma cmp_attempt_maps:
  assumes a: "cmp_attempt c (h, cmd, rsp, ag) = Some (t, h', cmd', rsp', ag')" and t: "t = Again \<or> t = Finished ROOTPA_OK"
  shows "dr_maps (ag_driver ag') = (if t = Again then 0 else 1) + dr_maps (ag_driver ag)"
proof -
  obtain b ag1 addr ag2 h2 rsp1 ag3 h4 ag4 where x: "ag_malloc (unat (mappedSize h)) ag = (Some b, ag1)"
    "on_driver mcMap ag1 = ((MC_DRV_OK, addr), ag2)"
    "prepareCommand c cmd (h\<lparr>mappedP := Some (replicate (unat (mappedSize h)) 0), mapInfo_addr := addr,
       mapInfo_len := mappedSize h\<rparr>) rsp ag2 = Some (ROOTPA_OK, h2, rsp1, ag3)"
    "tltChannelTransmit (Some h2) ag3 = (True, Some h4, ag4)"
    "after_transmit (h4, cmd, rsp1, ag4) = Some (t, h', cmd', rsp', ag')"
    using cmp_attempt_transmitted [OF a t] by blast
  have "dr_maps (ag_driver ag4) = Suc (dr_maps (ag_driver ag))"
    using ag_malloc_driver [OF x(1)] map_frame(4) [OF x(2)] prepareCommand_same(2) [OF x(3)] transmit_frame(4) [OF x(4)]
    by simp
  then show ?thesis using after_transmit_maps [OF x(5)] t by auto
qed

lemma exchange_loop_maps:
  "exchange_loop c (h, cmd, rsp, ag) = Some (ROOTPA_OK, h', cmd', rsp', ag') \<Longrightarrow>
   dr_maps (ag_driver ag') = Suc (dr_maps (ag_driver ag))"
proof (induction c "(h, cmd, rsp, ag)" arbitrary: h cmd rsp ag rule: exchange_loop.induct)
  case (1 c h cmd rsp ag)
  obtain t h1 cmd1 rsp1 ag1 where x: "cmp_attempt c (h, cmd, rsp, ag) = Some (t, h1, cmd1, rsp1, ag1)"
    using 1(2) by (cases "cmp_attempt c (h, cmd, rsp, ag)") (auto simp: exchange_loop.simps)
  show ?case
  proof (cases t)
    case (Finished ret)
    then show ?thesis using 1(2) x cmp_attempt_maps [OF x] by (auto simp: exchange_loop.simps)
  next
    case Again
    then have "exchange_loop c (h1, cmd1, rsp1, ag1) = Some (ROOTPA_OK, h', cmd', rsp', ag')"
      using 1(2) x by (simp add: exchange_loop.simps)
    from 1(1) [OF x refl Again this] show ?thesis using cmp_attempt_maps [OF x] Again by simp
  qed
qed

subsection \<open>Properties\<close>

text \<open>C3. Executing a list of commands always ends and never reads or writes outside a buffer or
  through a freed one, whatever the commands are, however often the trustlet asks for a bigger
  buffer, and however allocations, driver calls and the registry fail, as long as the trustlet
  answers in the message with elements that do not end beyond 32 bits.\<close>

theorem executing_commands_safe:
  assumes "\<forall>(cmd, rsp) \<in> set l. command_ok cmd" and "tee_sane (ag_driver ag)"
    and "\<forall>h. static_handle ag = Some h \<longrightarrow> handle_ok h"
  shows "executeContentManagementCommands l ag \<noteq> None"
proof -
  obtain r0 ag1 where o: "(if static_handle ag = None then openCmtlSession ag else (ROOTPA_OK, ag)) = (r0, ag1)"
    by fastforce
  have ok: "tee_sane (ag_driver ag1)" "\<forall>h. static_handle ag1 = Some h \<longrightarrow> handle_ok h"
  proof -
    have "dr_tee (ag_driver ag1) = dr_tee (ag_driver ag) \<and> (\<forall>h. static_handle ag1 = Some h \<longrightarrow> handle_ok h)"
    proof (cases "static_handle ag")
      case None
      obtain e ho ag2 where t: "tltChannelOpen sizeOfCmp ag = ((e, ho), ag2)" by (metis prod.collapse)
      show ?thesis using o None t open_frame(1,2) [OF t] by (auto simp: openCmtlSession_def)
    next
      case (Some h)
      then show ?thesis using o assms(3) by auto
    qed
    then show "tee_sane (ag_driver ag1)" "\<forall>h. static_handle ag1 = Some h \<longrightarrow> handle_ok h"
      using tee_sane_cong [of "ag_driver ag1" "ag_driver ag"] assms(2) by auto
  qed
  show ?thesis
  proof (cases "static_handle ag1")
    case None
    then show ?thesis using o by (auto simp: executeContentManagementCommands_def Let_def)
  next
    case (Some h)
    obtain early ret' l' h' ag' where "run_commands r0 l h ag1 = Some (early, ret', l', h', ag')"
      using run_commands_result [OF assms(1) _ ok(1), of h r0] ok(2) Some by blast
    then show ?thesis using o Some by (simp add: executeContentManagementCommands_def Let_def)
  qed
qed

definition answering_driver :: driver where
  "answering_driver = quiet_driver\<lparr>dr_tee := \<lambda>_ w m. (replicate (length w) 0, m)\<rparr>"

definition answering_agent :: agent where
  "answering_agent = (quiet_agent empty_registry)\<lparr>ag_driver := answering_driver\<rparr>"

lemma answering_agent_simps [simp]: "static_handle answering_agent = None" "tee_sane (ag_driver answering_agent)"
  "all_ok (ag_driver answering_agent)" "opened (ag_driver answering_agent) = (0, 0, 0)"
proof -
  have z: "ld32 j (replicate n 0) = Some x \<Longrightarrow> x = 0" for j n x
    by (auto simp: ld32_def buf_read_def min_def numeral_eq_Suc dec32_def split: if_splits)
  show "tee_sane (ag_driver answering_agent)"
    by (auto simp: answering_agent_def answering_driver_def tee_sane_def rsp_no_wrap_def dest!: z)
qed (simp_all add: answering_agent_def answering_driver_def quiet_agent_def quiet_driver_def all_ok_def opened_def)

lemma soc_command_ok: "command_ok soc_command"
  by (simp add: command_ok_def soc_command_def)

lemma executing_commands_safe_witness:
  "executeContentManagementCommands [(soc_command, soc_command)] answering_agent \<noteq> None"
  by (rule executing_commands_safe) (simp_all add: soc_command_ok)

text \<open>A command that succeeds has unmapped every buffer it mapped, however many attempts it took.\<close>

lemma successful_command_unmaps:
  assumes "executeOneCmpCommand h cmd rsp ag = Some (ROOTPA_OK, h', cmd', rsp', ag')"
  shows "dr_maps (ag_driver ag') = dr_maps (ag_driver ag)"
proof -
  obtain c h0 h1 cmd1 rsp1 ag1 rsp2 ag2 where x: "exchange_loop c (h0, cmd, rsp, ag) = Some (ROOTPA_OK, h1, cmd1, rsp1, ag1)"
    "handleResponse c rsp1 h1 ag1 = Some (ROOTPA_OK, rsp2, ag2)" "on_driver mcUnmap ag2 = (MC_DRV_OK, ag')"
  proof -
    have nn: "contentP cmd \<noteq> None" "\<not> cmp_length cmd < 4" using assms by (auto simp: executeOneCmpCommand_def split: if_splits)
    then obtain c where c: "getCmpCommandId (contentP cmd) = Some c"
      using assms by (auto simp: executeOneCmpCommand_def bind_eq_Some_conv)
    let ?h = "h\<lparr>mappedSize := getTotalMappedBufferSize c (cmp_length cmd)\<rparr>"
    have z: "getTotalMappedBufferSize c (cmp_length cmd) \<noteq> 0"
      using assms nn c by (auto simp: executeOneCmpCommand_def Let_def split: if_splits)
    obtain ret h1 cmd1 rsp1 ag1 where l: "exchange_loop c (?h, cmd, rsp, ag) = Some (ret, h1, cmd1, rsp1, ag1)"
      using assms nn c z by (auto simp: executeOneCmpCommand_def Let_def bind_eq_Some_conv)
    obtain ret1 rsp2 ag2 where r: "(if ret = ROOTPA_OK then handleResponse c rsp1 h1 ag1
        else Some (ret, with_ret ret rsp1, ag1)) = Some (ret1, rsp2, ag2)"
      using assms nn c z l
      by (cases "if ret = ROOTPA_OK then handleResponse c rsp1 h1 ag1 else Some (ret, with_ret ret rsp1, ag1)")
        (auto simp: executeOneCmpCommand_def Let_def)
    obtain mr ag3 where u: "on_driver mcUnmap ag2 = (mr, ag3)" by fastforce
    have "mr = MC_DRV_OK" "ret1 = ROOTPA_OK" "ag3 = ag'"
      using assms nn c z l r u by (auto simp: executeOneCmpCommand_def Let_def split: if_splits)
    moreover have "ret = ROOTPA_OK" using r calculation(2) by (auto split: if_splits)
    ultimately show ?thesis using that l r u by auto
  qed
  show ?thesis
    using exchange_loop_maps [OF x(1)] handleResponse_driver [OF x(2)] unmap_frame(4) [OF x(3)] by simp
qed

text \<open>A trustlet that ends a session without containers.\<close>

definition ending_agent :: agent where
  "ending_agent = (quiet_agent empty_registry)\<lparr>ag_driver := quiet_driver\<lparr>dr_tee := \<lambda>_ w m.
     (enc32 CMP_VERSION @ enc32 (RSP_ID MC_CMP_CMD_AUTHENTICATE_TERMINATE) @ enc32 0 @ enc32 0 @ enc32 8 @ replicate 20 0,
      replicate (length m) 0)\<rparr>\<rparr>"

definition end_command :: cmp_message where
  "end_command = \<lparr>cmp_length = 12, contentP = Some (enc32 MC_CMP_CMD_AUTHENTICATE_TERMINATE @ replicate 8 0),
     hdr = \<lparr>ignoreError = False, msg_ret = 0, intRet = 0, msg_id = 1\<rparr>\<rparr>"

definition open_handle :: cmtstruct where
  "open_handle = empty_handle\<lparr>wsmP := Some (replicate 40 0)\<rparr>"

lemma successful_command_unmaps_witness:
  "\<exists>h' cmd' rsp' ag'. executeOneCmpCommand open_handle end_command end_command ending_agent =
     Some (ROOTPA_OK, h', cmd', rsp', ag') \<and> dr_maps (ag_driver ag') = 0"
proof -
  have "case executeOneCmpCommand open_handle end_command end_command ending_agent of
    None \<Rightarrow> False | Some (ret, _) \<Rightarrow> ret = ROOTPA_OK" by code_simp
  then obtain h' cmd' rsp' ag' where e: "executeOneCmpCommand open_handle end_command end_command ending_agent =
     Some (ROOTPA_OK, h', cmd', rsp', ag')" by (auto split: option.splits)
  then show ?thesis
    using successful_command_unmaps [OF e] by (simp add: ending_agent_def quiet_driver_def)
qed

text \<open>Without an open session the call opens one and, when the errors of all commands are
  ignored and the driver works, closes it again: device, shared buffer and session are released.\<close>

lemma own_session_closed:
  assumes ok: "\<forall>(cmd, rsp) \<in> set l. command_ok cmd \<and> ignoreError (hdr cmd)" and tee: "tee_sane (ag_driver ag)"
    and drv: "all_ok (ag_driver ag)" and none: "static_handle ag = None"
  shows "\<exists>ret ie l' ag'. executeContentManagementCommands l ag = Some (ret, ie, l', ag') \<and>
    static_handle ag' = None \<and> opened (ag_driver ag') = opened (ag_driver ag)"
proof -
  obtain e ho ag1 where t: "tltChannelOpen sizeOfCmp ag = ((e, ho), ag1)" by (metis prod.collapse)
  note cnt = open_counts [OF t drv] and fr = open_frame [OF t]
  obtain r0 where o: "openCmtlSession ag = (r0, ag1\<lparr>static_handle := ho\<rparr>)"
    using t none by (auto simp: openCmtlSession_def)
  show ?thesis
  proof (cases ho)
    case None
    then show ?thesis
      using o none cnt by (simp add: executeContentManagementCommands_def closeCmtlSession_def tltChannelClose_def Let_def)
  next
    case (Some h)
    let ?ag = "ag1\<lparr>static_handle := ho\<rparr>"
    have cs: "\<forall>(cmd, rsp) \<in> set l. command_ok cmd" "\<not> (\<exists>(cmd, rsp) \<in> set l. \<not> ignoreError (hdr cmd))" using ok by auto
    have s1: "tee_sane (ag_driver ?ag)" using tee_sane_cong [OF fr(1)] tee by simp
    have hk: "handle_ok h" using fr(2) Some by simp
    obtain early ret' l' h' ag' where r': "run_commands r0 l h ?ag = Some (early, ret', l', h', ag')" "handle_ok h'"
      "steady ?ag ag'" "early \<longrightarrow> (\<exists>(cmd, rsp) \<in> set l. \<not> ignoreError (hdr cmd))"
      using run_commands_result [OF cs(1) hk s1, of r0] by blast
    have "\<not> early" using r'(4) cs(2) by blast
    then have r: "run_commands r0 l h ?ag = Some (False, ret', l', h', ag')" "handle_ok h'" "steady ?ag ag'"
      using r'(1-3) by simp_all
    have a: "all_ok (ag_driver (ag'\<lparr>static_handle := Some h'\<rparr>))"
      "opened (ag_driver (ag'\<lparr>static_handle := Some h'\<rparr>)) = one_more (opened (ag_driver ag))"
      using steady_all_ok [OF r(3)] cnt Some by simp_all
    show ?thesis
      using o none Some r(1) close_counts [OF a(1) r(2) a(2)]
      by (simp add: executeContentManagementCommands_def closeCmtlSession_def Let_def)
  qed
qed

definition lenient_command :: cmp_message where
  "lenient_command = soc_command\<lparr>hdr := (hdr soc_command)\<lparr>ignoreError := True\<rparr>\<rparr>"

lemma own_session_closed_witness:
  "\<exists>ret ie l' ag'. executeContentManagementCommands [(lenient_command, soc_command)] answering_agent = Some (ret, ie, l', ag') \<and>
    static_handle ag' = None \<and> opened (ag_driver ag') = (0, 0, 0)"
  using own_session_closed [of "[(lenient_command, soc_command)]" answering_agent] soc_command_ok
  by (simp add: lenient_command_def command_ok_def)

text \<open>A command that fails and whose error is not ignored ends the call early: the session the
  call opened for itself stays open, with its device and its shared buffer, the internal error is
  reported as zero, and the commands behind are not executed.\<close>

lemma early_return_keeps_session:
  assumes drv: "all_ok (ag_driver ag)" and none: "static_handle ag = None"
    and open_ok: "openCmtlSession ag = (ROOTPA_OK, ag1)" and h: "static_handle ag1 = Some h"
    and cmd: "0 < cmp_length cmd" "\<not> ignoreError (hdr cmd)" "command_ok cmd" "tee_sane (ag_driver ag)"
    and fails: "executeOneCmpCommand h cmd
      (rsp\<lparr>hdr := (hdr rsp)\<lparr>msg_id := msg_id (hdr cmd), ignoreError := ignoreError (hdr cmd)\<rparr>\<rparr>) ag1 =
      Some (ret, h', cmd', rsp', ag2)" "ret \<noteq> ROOTPA_OK"
  shows "\<exists>ag'. executeContentManagementCommands ((cmd, rsp) # rest) ag =
      Some (ret, 0, (cmd', note_ret ret rsp') # rest, ag') \<and>
    static_handle ag' \<noteq> None \<and> opened (ag_driver ag') = one_more (opened (ag_driver ag))"
proof -
  obtain e ho ag0 where t: "tltChannelOpen sizeOfCmp ag = ((e, ho), ag0)" by (metis prod.collapse)
  have a1: "ag1 = ag0\<lparr>static_handle := ho\<rparr>" "ho = Some h"
    using open_ok h t none by (auto simp: openCmtlSession_def split: if_splits)
  have hk: "handle_ok h" using open_frame(2) [OF t] a1 by simp
  have s1: "tee_sane (ag_driver ag1)" using tee_sane_cong [OF open_frame(1) [OF t]] cmd(4) a1 by simp
  have st: "steady ag1 ag2" "ignoreError (hdr cmd') = ignoreError (hdr cmd)"
    using executeOneCmpCommand_result [OF hk cmd(3) s1, of "rsp\<lparr>hdr := (hdr rsp)\<lparr>msg_id := msg_id (hdr cmd),
      ignoreError := ignoreError (hdr cmd)\<rparr>\<rparr>"] fails(1) by auto
  have "opened (ag_driver ag2) = one_more (opened (ag_driver ag))"
    using open_counts [OF t drv] a1 st(1) by (simp add: steady_def outside_def)
  then show ?thesis
    using none open_ok h cmd(1,2) fails st(2)
    by (simp add: executeContentManagementCommands_def Let_def)
qed

lemma end_command_ok: "command_ok end_command"
  by (simp add: command_ok_def end_command_def)

lemma early_return_keeps_session_witness:
  "\<exists>ret l' ag'. executeContentManagementCommands [(end_command, end_command), (soc_command, soc_command)] answering_agent =
     Some (ret, 0, l', ag') \<and> static_handle ag' \<noteq> None \<and> opened (ag_driver ag') = (1, 1, 1)"
proof -
  let ?rsp = "end_command\<lparr>hdr := (hdr end_command)\<lparr>msg_id := msg_id (hdr end_command),
    ignoreError := ignoreError (hdr end_command)\<rparr>\<rparr>"
  let ?ag = "snd (openCmtlSession answering_agent)"
  let ?h = "the (static_handle ?ag)"
  have c: "case openCmtlSession answering_agent of (r, ag1) \<Rightarrow> r = ROOTPA_OK \<and> (case static_handle ag1 of None \<Rightarrow> False
    | Some h \<Rightarrow> (case executeOneCmpCommand h end_command end_command ag1 of None \<Rightarrow> False | Some (ret, _) \<Rightarrow> ret \<noteq> ROOTPA_OK))"
    by code_simp
  have d: "fst (openCmtlSession answering_agent) = ROOTPA_OK \<and> static_handle ?ag \<noteq> None"
    using c by (simp add: case_prod_unfold split: option.split_asm)
  have o: "openCmtlSession answering_agent = (ROOTPA_OK, ?ag)" using d by (metis prod.collapse)
  have sh: "static_handle ?ag = Some ?h" using d by simp
  obtain e ho ag0 where t: "tltChannelOpen sizeOfCmp answering_agent = ((e, ho), ag0)" by (metis prod.collapse)
  have a0: "?ag = ag0\<lparr>static_handle := ho\<rparr>" using t by (simp add: openCmtlSession_def)
  have "handle_ok ?h" "tee_sane (ag_driver ?ag)"
    using open_frame [OF t] a0 sh tee_sane_cong [OF open_frame(1) [OF t]] by auto
  then obtain ret h' cmd' rsp' ag2 where x: "executeOneCmpCommand ?h end_command ?rsp ?ag = Some (ret, h', cmd', rsp', ag2)"
    using executeOneCmpCommand_result [of ?h end_command ?ag ?rsp] end_command_ok by auto
  have "case executeOneCmpCommand ?h end_command end_command ?ag of None \<Rightarrow> False | Some (ret, _) \<Rightarrow> ret \<noteq> ROOTPA_OK"
    using c by (simp add: case_prod_unfold split: option.split_asm)
  then have r: "ret \<noteq> ROOTPA_OK" using x by simp
  show ?thesis
    using early_return_keeps_session [OF _ _ o sh _ _ _ _ x r, of "[(soc_command, soc_command)]"] end_command_ok
    by (auto simp: end_command_def)
qed

text \<open>When the session cannot be opened for lack of memory the caller is told of a failed
  connection: the test for the reason looks at an error code that is still zero.\<close>

lemma out_of_memory_reported_as_connection:
  assumes "static_handle ag = None" and "openCmtlSession ag = (ROOTPA_ERROR_OUT_OF_MEMORY, ag1)"
  shows "\<exists>ag'. executeContentManagementCommands l ag = Some (ROOTPA_ERROR_MOBICORE_CONNECTION, 0, l, ag')"
proof -
  have "static_handle ag1 = None"
    using assms by (auto simp: openCmtlSession_def split: prod.splits if_splits)
  then show ?thesis using assms by (simp add: executeContentManagementCommands_def Let_def)
qed

definition starved_agent :: agent where
  "starved_agent = answering_agent\<lparr>ag_world := (quiet_world empty_registry)\<lparr>w_heap := \<lambda>_. None\<rparr>\<rparr>"

lemma out_of_memory_reported_as_connection_witness:
  "\<exists>ag'. executeContentManagementCommands [(soc_command, soc_command)] starved_agent =
     Some (ROOTPA_ERROR_MOBICORE_CONNECTION, 0, [(soc_command, soc_command)], ag')"
proof (rule out_of_memory_reported_as_connection)
  show "static_handle starved_agent = None" by (simp add: starved_agent_def)
  show "openCmtlSession starved_agent = (ROOTPA_ERROR_OUT_OF_MEMORY, snd (openCmtlSession starved_agent))"
    by (simp add: openCmtlSession_def starved_agent_def tltChannelOpen_def taChannelOpen_def ag_malloc_def malloc_def)
qed

end
