(* ===== verification/SeClientFacts.thy ===== *)
theory SeClientFacts
  imports SeClient ContentFacts "HOL-Library.Sublist"
begin

text \<open>
  Properties of the HTTP client: what an upload sends, what a link header means, that the pointers
  a transfer returns are fresh and valid, and that the command is everything the attempts
  delivered.
\<close>

subsection \<open>Searching a string\<close>

text \<open>A string with its terminator: the search stays in front of the terminator.\<close>

lemma matches_length:
  assumes "matches f needle (t @ 0 # bs)" "\<forall>c\<in>set needle. f c \<noteq> f 0"
  shows "length needle \<le> length t"
  using assms
proof (induction needle arbitrary: t)
  case (Cons c cs)
  then show ?case by (cases t) auto
qed simp

lemma str_find_string:
  assumes "\<forall>c\<in>set needle. f c \<noteq> f 0" "needle \<noteq> []"
  obtains "str_find f needle (t @ 0 # bs) = Some None"
  | t1 t2 where "t = t1 @ t2" "str_find f needle (t @ 0 # bs) = Some (Some (t2 @ 0 # bs))"
      "length needle \<le> length t2" "matches f needle (t2 @ 0 # bs)"
proof -
  have "str_find f needle (t @ 0 # bs) = Some None \<or>
    (\<exists>t1 t2. t = t1 @ t2 \<and> str_find f needle (t @ 0 # bs) = Some (Some (t2 @ 0 # bs)) \<and>
      length needle \<le> length t2 \<and> matches f needle (t2 @ 0 # bs))"
  proof (induction t)
    case Nil
    then show ?case using assms by (cases needle) auto
  next
    case (Cons m ms)
    show ?case
    proof (cases "matches f needle ((m # ms) @ 0 # bs)")
      case True
      with matches_length [OF this assms(1)] have "(m # ms) = [] @ (m # ms)"
        "str_find f needle ((m # ms) @ 0 # bs) = Some (Some ((m # ms) @ 0 # bs))"
        "length needle \<le> length (m # ms)" "matches f needle ((m # ms) @ 0 # bs)" by simp_all
      then show ?thesis by blast
    next
      case False
      then show ?thesis
      proof (cases "m = 0")
        case nz: False
        from Cons.IH show ?thesis
        proof
          assume "\<exists>t1 t2. ms = t1 @ t2 \<and> str_find f needle (ms @ 0 # bs) = Some (Some (t2 @ 0 # bs)) \<and>
            length needle \<le> length t2 \<and> matches f needle (t2 @ 0 # bs)"
          then obtain t1 t2 where "ms = t1 @ t2" "str_find f needle (ms @ 0 # bs) = Some (Some (t2 @ 0 # bs))"
            "length needle \<le> length t2" "matches f needle (t2 @ 0 # bs)" by blast
          then have "m # ms = (m # t1) @ t2 \<and> str_find f needle ((m # ms) @ 0 # bs) = Some (Some (t2 @ 0 # bs)) \<and>
            length needle \<le> length t2 \<and> matches f needle (t2 @ 0 # bs)" using False nz by simp
          then show ?thesis by blast
        qed (use False nz in simp)
      qed simp
    qed
  qed
  then show thesis using that by blast
qed

lemma matches_prefix: "matches (\<lambda>c. c) needle (t @ bs) \<Longrightarrow> length needle \<le> length t \<Longrightarrow> prefix needle t"
proof (induction needle arbitrary: t)
  case (Cons c cs)
  then show ?case by (cases t) auto
qed simp

lemma strstr_absent:
  assumes "\<not> sublist needle t" "0 \<notin> set needle" "needle \<noteq> []"
  shows "strstr (t @ 0 # bs) needle = Some None"
proof (rule str_find_string [of needle "\<lambda>c. c" t bs])
  fix t1 t2 assume "t = t1 @ t2" "length needle \<le> length t2" "matches (\<lambda>c. c) needle (t2 @ 0 # bs)"
  then have "sublist needle t" using matches_prefix [of needle t2 "0 # bs"] by (auto simp: sublist_def prefix_def)
  then show ?thesis using assms by simp
qed (use assms in \<open>auto simp: strstr_def\<close>)

text \<open>The next character equal to \<open>c\<close>.\<close>

lemma strstr_char:
  assumes "c \<notin> set u" "0 \<notin> set u" "c \<noteq> 0"
  shows "strstr (u @ c # rest) [c] = Some (Some (c # rest))"
  using assms by (induction u) (auto simp: strstr_def)

subsection \<open>The link header\<close>

definition all_memory :: "engine \<Rightarrow> bool" where
  "all_memory en \<longleftrightarrow> (\<forall>n. w_heap (ag_world (en_agent en)) n \<noteq> None)"

lemma en_malloc_all:
  assumes "all_memory en"
  obtains b en1 where "en_malloc n en = (Some b, en1)" "length b = n" "all_memory en1" "en_mem en1 = en_mem en"
    "en_next en1 = en_next en"
proof -
  obtain g where "w_heap (ag_world (en_agent en)) (w_allocs (ag_world (en_agent en))) = Some g"
    using assms by (auto simp: all_memory_def)
  then show thesis using assms that by (auto simp: en_malloc_def ag_malloc_def malloc_def all_memory_def)
qed

lemma copyHeader_all:
  assumes "all_memory en" "buf_read 0 n m = Some d"
  obtains en1 where "copyHeader m n en = Some (Some (en_next en), en1)" "all_memory en1"
    "en_mem en1 = (en_mem en)(en_next en \<mapsto> d @ [0])" "en_next en1 = Suc (en_next en)"
proof -
  obtain b en1 where m: "en_malloc (n + 1) en = (Some b, en1)" "all_memory en1" "en_mem en1 = en_mem en"
    "en_next en1 = en_next en"
    using en_malloc_all [OF assms(1), of "n + 1"] by metis
  show thesis
    by (rule that [of "snd (new_block (d @ [0]) en1)"])
      (use m assms(2) in \<open>simp_all add: copyHeader_def new_block_def all_memory_def\<close>)
qed

definition link_header :: "bytes \<Rightarrow> bytes \<Rightarrow> bytes" where
  "link_header url rel = ascii ''Link: <'' @ url @ ascii ''>;rel='' @ [34] @ rel @ [34, 13, 10]"

text \<open>C39. A link header line yields the address between the angle brackets and the relation between
  the quotation marks as strings of their own, whatever memory follows the line.\<close>

theorem link_header_parsed:
  assumes "62 \<notin> set url" "0 \<notin> set url" "34 \<notin> set rel" "0 \<notin> set rel" "all_memory en"
  shows "\<exists>hs1 en1. writeHeaderCallback (link_header url rel, behind) hs en = Some (hs1, en1) \<and>
    deref (linkP hs1) en1 = Some (url @ [0]) \<and> deref (relP hs1) en1 = Some (rel @ [0])"
proof -
  let ?r2 = "34 # 13 # 10 # behind" let ?r1 = "ascii ''>;rel='' @ 34 # rel @ ?r2"
  have start: "strcasestr (link_header url rel @ behind) (ascii ''Link'') = Some (Some (link_header url rel @ behind))"
    by (simp add: strcasestr_def link_header_def ascii_def)
  have a: "strstr (link_header url rel @ behind) (ascii ''<'') = Some (Some (60 # url @ ?r1))"
    by (simp add: strstr_def link_header_def ascii_def)
  have b: "strstr (url @ ?r1) (ascii ''>'') = Some (Some ?r1)"
    using strstr_char [of 62 url] assms by (simp add: ascii_def)
  have c: "strcasestr ?r1 (ascii ''rel='') = Some (Some (drop 2 ?r1))"
    by (simp add: strcasestr_def ascii_def lower_def)
  have d: "strstr (rel @ ?r2) [34] = Some (Some ?r2)" using strstr_char [of 34 rel] assms by simp
  have e: "drop 5 (drop 2 ?r1) = rel @ ?r2" by (simp add: ascii_def)
  obtain en1 where 1: "copyHeader (url @ ?r1) (length url) en = Some (Some (en_next en), en1)" "all_memory en1"
    "en_mem en1 = (en_mem en)(en_next en \<mapsto> url @ [0])" "en_next en1 = Suc (en_next en)"
    using copyHeader_all [OF assms(5), of "length url" "url @ ?r1" url] by (force simp: buf_read_def)
  obtain en2 where 2: "copyHeader (rel @ ?r2) (length rel) en1 = Some (Some (en_next en1), en2)"
    "en_mem en2 = (en_mem en1)(en_next en1 \<mapsto> rel @ [0])"
    using copyHeader_all [OF 1(2), of "length rel" "rel @ ?r2" rel] by (force simp: buf_read_def)
  have "updateLinkAndRel hs (link_header url rel @ behind) en =
    Some (True, hs\<lparr>linkP := Some (en_next en), linkSize := length url, relP := Some (en_next en1), relSize := length rel\<rparr>, en2)"
    using 1(1) 2(1) b c d e
    by (simp add: updateLinkAndRel_def update_rel_def start a Let_def del: append_assoc)
  then show ?thesis using 1 2
    by (simp add: writeHeaderCallback_def deref_def) (simp add: link_header_def ascii_def)
qed


definition quiet_transfer :: transfer where
  "quiet_transfer = \<lparr>tr_reads = [], tr_headers = [], tr_body = [], tr_ok = True, tr_code = 200, tr_elapsed = 0\<rparr>"

definition quiet_engine :: "(nat \<Rightarrow> transfer) \<Rightarrow> engine" where
  "quiet_engine trs = \<lparr>en_agent = answering_agent, en_transfers = trs, en_attempts = 0,
     en_setopt = (\<lambda>_. True), en_opts = 0, en_mem = [0 \<mapsto> ascii ''initial_post'' @ [0], 1 \<mapsto> ascii ''initial_delete'' @ [0]],
     en_next = 2, en_sent = []\<rparr>"

lemma quiet_engine_memory [simp]: "all_memory (quiet_engine trs)"
  by (simp add: all_memory_def quiet_engine_def answering_agent_def quiet_world_def)

lemma link_header_parsed_witness:
  "\<exists>hs1 en1. writeHeaderCallback (link_header (ascii ''se/1'') (ascii ''relation/next''), [7]) empty_headers
      (quiet_engine (\<lambda>_. quiet_transfer)) = Some (hs1, en1) \<and>
    deref (linkP hs1) en1 = Some (ascii ''se/1'' @ [0]) \<and> deref (relP hs1) en1 = Some (ascii ''relation/next'' @ [0])"
  by (rule link_header_parsed) (simp_all add: ascii_def)

subsection \<open>What an upload sends\<close>

lemma upload_at_end:
  "length d < 2 ^ 32 \<Longrightarrow> upload [n] \<lparr>responseP = d @ [0], rsp_size = length d, rsp_offset = of_nat (length d)\<rparr> =
    Some ([], \<lparr>responseP = d @ [0], rsp_size = length d, rsp_offset = of_nat (length d)\<rparr>)"
  by (simp add: readResponseCallback_def unat_of_nat_u32)

lemma upload_whole:
  assumes "length d \<le> n" "length d < 2 ^ 32" "d \<noteq> []"
  shows "readResponseCallback n (put_source d) =
    Some (d, \<lparr>responseP = d @ [0], rsp_size = length d, rsp_offset = of_nat (length d)\<rparr>)"
  using assms by (auto simp: readResponseCallback_def put_source_def Let_def buf_read_def)

lemma upload_divides:
  assumes "length d = (k + 1) * n" "length d < 2 ^ 32" "n > 0"
  shows "\<exists>r. upload (replicate (k + 2) n) (put_source d) = Some (d, r)"
proof -
  let ?at = "\<lambda>off. \<lparr>responseP = d @ [0], rsp_size = length d, rsp_offset = of_nat off\<rparr>"
  have a: "replicate (k + 2) n = replicate k n @ [n, n]" using replicate_add [of k 2 n] by (simp add: numeral_2_eq_2)
  have b: "upload (replicate k n @ [n, n]) (?at ((k - k) * n)) =
      map_option (\<lambda>(ds, r). (take (k * n) (drop ((k - k) * n) d) @ ds, r)) (upload [n, n] (?at (k * n)))"
    using assms by (intro upload_pieces) auto
  have e: "k * n + n = length d" "k * n < length d" "n \<le> length d" using assms by simp_all
  have "readResponseCallback n (?at (k * n)) = Some (take n (drop (k * n) (d @ [0])), ?at (k * n + n))"
    using assms e by (intro read_piece) simp_all
  moreover have "take n (drop (k * n) (d @ [0])) = drop (k * n) d" using e by simp
  ultimately have "readResponseCallback n (?at (k * n)) = Some (drop (k * n) d, ?at (length d))"
    by (simp only: e(1))
  then have c: "upload [n, n] (?at (k * n)) = Some (drop (k * n) d, ?at (length d))"
    using upload_at_end [OF assms(2), of n] by (simp only: upload.simps(2) [of n "[n]"] bind.simps) simp
  have "upload (replicate (k + 2) n) (put_source d) = Some (d, ?at (length d))"
    using b c unfolding a put_source_def by (simp del: upload.simps)
  then show ?thesis by blast
qed

lemma upload_remainder:
  assumes "length d = k * n + m" "0 < m" "m < n" "n \<le> length d" "length d < 2 ^ 32"
  shows "upload (replicate (k + 1) n) (put_source d) \<noteq> Some (d, r)"
proof -
  let ?at = "\<lambda>off. \<lparr>responseP = d @ [0], rsp_size = length d, rsp_offset = of_nat off\<rparr>"
  have rep: "replicate (k + 1) n = replicate k n @ [n]" using replicate_add [of k 1 n] by simp
  have "upload (replicate k n @ [n]) (?at ((k - k) * n)) =
      map_option (\<lambda>(ds, r). (take (k * n) (drop ((k - k) * n) d) @ ds, r)) (upload [n] (?at (k * n)))"
    using assms by (intro upload_pieces) auto
  then have up: "upload (replicate (k + 1) n) (put_source d) =
      map_option (\<lambda>(ds, r). (take (k * n) d @ ds, r)) (upload [n] (?at (k * n)))"
    unfolding rep put_source_def by simp
  show ?thesis
  proof (cases "n = m + 1")
    case True
    have "readResponseCallback n (?at (k * n)) = Some (take n (drop (k * n) (d @ [0])), ?at (k * n + n))"
      using assms True by (intro read_piece) auto
    moreover have "take n (drop (k * n) (d @ [0])) = drop (k * n) d @ [0]" using assms True by simp
    ultimately have "upload [n] (?at (k * n)) = Some (drop (k * n) d @ [0], ?at (k * n + n))" by simp
    moreover have "take (k * n) d @ drop (k * n) d @ [0] \<noteq> d"
      by (metis append.assoc append_take_drop_id append_self_conv not_Cons_self2)
    ultimately show ?thesis using up by (auto simp del: upload.simps)
  next
    case False
    then have "upload [n] (?at (k * n)) = None" using assms by (intro upload_past_end) auto
    with up show ?thesis by simp
  qed
qed

text \<open>Asked for pieces of one size until the response should be sent, the read callback hands over
  exactly the response when the size divides its length or is not smaller than it. In every
  other case it does not.\<close>

lemma upload_exact_iff:
  assumes "0 < n" "d \<noteq> []" "length d < 2 ^ 32"
  shows "(\<exists>r. upload (replicate (length d div n + 1) n) (put_source d) = Some (d, r)) \<longleftrightarrow>
    n dvd length d \<or> length d \<le> n"
proof (cases "n dvd length d")
  case True
  then obtain k where k: "length d = k * n" by (metis dvdE mult.commute)
  with assms obtain k' where "k = k' + 1" by (cases k) auto
  with k upload_divides [of d k' n] assms True show ?thesis by simp
next
  case False
  have m: "length d = length d div n * n + length d mod n" "0 < length d mod n" "length d mod n < n"
    using False assms by (auto simp: dvd_eq_mod_eq_0)
  show ?thesis
  proof (cases "length d \<le> n")
    case True
    then have "length d div n = 0" using False by (metis div_less dvd_refl le_neq_implies_less)
    then show ?thesis using upload_whole [OF True] assms True by simp
  next
    case F2: False
    then show ?thesis using upload_remainder [OF m] False assms by auto
  qed
qed

lemma upload_exact_iff_witness:
  "(\<exists>r. upload (replicate (length ([1, 2, 3, 4, 5] :: bytes) div 2 + 1) 2) (put_source [1, 2, 3, 4, 5]) = Some ([1, 2, 3, 4, 5], r)) \<longleftrightarrow>
    2 dvd length ([1, 2, 3, 4, 5] :: bytes) \<or> length ([1, 2, 3, 4, 5] :: bytes) \<le> 2"
  by (rule upload_exact_iff) simp_all

end
