(* ===== verification/SeClientSafety.thy ===== *)
theory SeClientSafety
  imports SeClientFacts
begin

text \<open>
  Memory safety of the HTTP client. With header lines that are followed by a terminator, and an
  upload that is asked for in one piece, a transfer stays in its memory, leaves older blocks alone,
  and returns pointers to blocks of its own that the caller may free.
\<close>

subsection \<open>Memory grows\<close>

text \<open>The agent under the engine: the trustlet answers in the message, an open session has a
  message buffer.\<close>

definition agent_ok :: "agent \<Rightarrow> bool" where
  "agent_ok ag \<longleftrightarrow> tee_sane (ag_driver ag) \<and> (\<forall>h. static_handle ag = Some h \<longrightarrow> handle_ok h)"

lemma agent_ok_fields [simp]:
  "agent_ok (ag\<lparr>ag_world := w\<rparr>) = agent_ok ag" "agent_ok (ag\<lparr>ag_events := es\<rparr>) = agent_ok ag"
  "agent_ok (ag\<lparr>callbackP := b\<rparr>) = agent_ok ag"
  by (simp_all add: agent_ok_def)

definition en_wf :: "engine \<Rightarrow> bool" where
  "en_wf en \<longleftrightarrow> (\<forall>i. en_mem en i \<noteq> None \<longrightarrow> i < en_next en) \<and> agent_ok (en_agent en)"

definition events :: "engine \<Rightarrow> (ProvisioningState \<times> u32) list" where
  "events en = ag_events (en_agent en)"

definition extends :: "engine \<Rightarrow> engine \<Rightarrow> bool" where
  "extends en en1 \<longleftrightarrow> en_wf en1 \<and> en_next en \<le> en_next en1 \<and> (\<forall>i<en_next en. en_mem en1 i = en_mem en i) \<and>
     en_transfers en1 = en_transfers en \<and> en_attempts en \<le> en_attempts en1 \<and> (\<exists>es. events en1 = events en @ es)"

lemma extends_refl [simp]: "en_wf en \<Longrightarrow> extends en en"
  by (simp add: extends_def)

lemma extends_trans [trans]: "extends en en1 \<Longrightarrow> extends en1 en2 \<Longrightarrow> extends en en2"
  by (auto simp: extends_def)

lemma extends_wf [dest]: "extends en en1 \<Longrightarrow> en_wf en1"
  by (simp add: extends_def)

lemma extends_transfers: "extends en en1 \<Longrightarrow> en_transfers en1 = en_transfers en"
  by (simp add: extends_def)

text \<open>Nothing but the heap and the counters of the environment changes.\<close>

definition same_memory :: "engine \<Rightarrow> engine \<Rightarrow> bool" where
  "same_memory en en1 \<longleftrightarrow> en_mem en1 = en_mem en \<and> en_next en1 = en_next en \<and> en_attempts en1 = en_attempts en \<and>
     en_transfers en1 = en_transfers en \<and> events en1 = events en \<and> agent_ok (en_agent en1) = agent_ok (en_agent en)"

lemma same_memory_extends: "en_wf en \<Longrightarrow> same_memory en en1 \<Longrightarrow> extends en en1"
  by (simp add: same_memory_def extends_def en_wf_def)

lemma en_malloc_same:
  assumes "en_malloc n en = (b, en1)"
  shows "same_memory en en1" "b = Some b1 \<Longrightarrow> length b1 = n"
  using assms by (auto simp: en_malloc_def ag_malloc_def malloc_def same_memory_def events_def)

lemma setopts_same: "setopts n en = (ok, en1) \<Longrightarrow> same_memory en en1"
proof (induction n arbitrary: en)
  case (Suc n)
  then show ?case by (fastforce simp: same_memory_def events_def Let_def split: if_splits)
qed (simp add: same_memory_def)

subsection \<open>Pointers of the transfer\<close>

text \<open>NULL or a string allocated after \<open>en0\<close> with a property.\<close>

definition owned :: "engine \<Rightarrow> engine \<Rightarrow> (bytes \<Rightarrow> bool) \<Rightarrow> ptr \<Rightarrow> bool" where
  "owned en0 en P p \<longleftrightarrow> (\<forall>i. p = Some i \<longrightarrow> en_next en0 \<le> i \<and> (\<exists>d. en_mem en i = Some (d @ [0]) \<and> P d))"

lemma owned_None [simp]: "owned en0 en P None"
  by (simp add: owned_def)

lemma owned_extends: "owned en0 en P p \<Longrightarrow> en_wf en \<Longrightarrow> extends en en1 \<Longrightarrow> owned en0 en1 P p"
  by (fastforce simp: owned_def extends_def en_wf_def)

lemma owned_below: "owned en0 en P (Some i) \<Longrightarrow> en_wf en \<Longrightarrow> i < en_next en"
  by (auto simp: owned_def en_wf_def)

definition headers_ok :: "bytes \<Rightarrow> engine \<Rightarrow> engine \<Rightarrow> header_struct \<Rightarrow> bool" where
  "headers_ok w en0 en hs \<longleftrightarrow> owned en0 en (\<lambda>_. True) (linkP hs) \<and> owned en0 en (\<lambda>d. \<not> sublist w d) (relP hs) \<and>
     (linkP hs = None \<or> linkP hs \<noteq> relP hs)"

lemma headers_ok_empty [simp]: "headers_ok w en0 en empty_headers"
  by (simp add: headers_ok_def empty_headers_def)

lemma headers_ok_extends: "headers_ok w en0 en hs \<Longrightarrow> en_wf en \<Longrightarrow> extends en en1 \<Longrightarrow> headers_ok w en0 en1 hs"
  by (auto simp: headers_ok_def intro: owned_extends)

lemma new_block_extends:
  assumes "en_wf en"
  shows "extends en (snd (new_block b en))" "fst (new_block b en) = Some (en_next en)"
    "en_mem (snd (new_block b en)) (en_next en) = Some b" "en_attempts (snd (new_block b en)) = en_attempts en"
  using assms by (auto simp: new_block_def extends_def en_wf_def events_def intro: less_SucI)

lemma copyHeader_extends:
  assumes wf: "en_wf en" and n: "n \<le> length m"
  obtains p en1 where "copyHeader m n en = Some (p, en1)" "extends en en1" "en_attempts en1 = en_attempts en"
    "p = None \<or> p = Some (en_next en) \<and> en_mem en1 (en_next en) = Some (take n m @ [0])"
proof -
  obtain b en1 where m: "en_malloc (n + 1) en = (b, en1)" by fastforce
  note s = en_malloc_same(1) [OF m]
  have e: "extends en en1" "en_wf en1" "en_next en1 = en_next en" "en_attempts en1 = en_attempts en"
    using same_memory_extends [OF wf s] s by (auto simp: same_memory_def)
  show thesis
  proof (cases b)
    case None
    then show thesis using m e that by (simp add: copyHeader_def)
  next
    case (Some b1)
    obtain q en2 where q: "new_block (take n m @ [0]) en1 = (q, en2)" by fastforce
    note nb = new_block_extends [OF e(2), of "take n m @ [0]", unfolded q fst_conv snd_conv]
    show thesis
      by (rule that [of q en2])
        (use Some m n e nb q extends_trans [OF e(1) nb(1)] in \<open>simp_all add: copyHeader_def buf_read_def\<close>)
  qed
qed

subsection \<open>Header lines\<close>

text \<open>A line with two terminators behind it, as a stand-in for the memory libcurl leaves there.\<close>

definition polite_line :: "bytes \<Rightarrow> bytes \<times> bytes \<Rightarrow> bool" where
  "polite_line w = (\<lambda>(line, behind). take 2 behind = [0, 0] \<and> \<not> sublist w line)"

lemma owned_fresh:
  assumes "en_wf en" "extends en0 en" "extends en en1" "p = None \<or> p = Some (en_next en) \<and> en_mem en1 (en_next en) = Some (d @ [0])" "P d"
  shows "owned en0 en1 P p"
  using assms by (auto simp: owned_def extends_def)

text \<open>The part of \<open>updateLinkAndRel\<close> that copies the relation.\<close>

lemma update_rel_ok:
  assumes wf: "en_wf en" "extends en0 en" and h: "headers_ok w en0 en hs" and t: "sublist t line" "\<not> sublist w line"
    and b: "behind = 0 # 0 # bs"
  shows "\<exists>hs1 en1. update_rel hs (t @ behind) en = Some (True, hs1, en1) \<and>
     extends en en1 \<and> en_attempts en1 = en_attempts en \<and> headers_ok w en0 en1 hs1"
proof (rule str_find_string [of "ascii ''rel=''" lower t "0 # bs"])
  show "\<forall>c\<in>set (ascii ''rel=''). lower c \<noteq> lower 0" "ascii ''rel='' \<noteq> []" by (simp_all add: ascii_def lower_def)
next
  assume "str_find lower (ascii ''rel='') (t @ 0 # 0 # bs) = Some None"
  then show ?thesis using wf h b by (simp add: update_rel_def strcasestr_def)
next
  fix t1 t2 assume 1: "t = t1 @ t2" "str_find lower (ascii ''rel='') (t @ 0 # 0 # bs) = Some (Some (t2 @ 0 # 0 # bs))"
    "length (ascii ''rel='') \<le> length t2"
  obtain u bs1 where u: "drop 5 (t2 @ 0 # 0 # bs) = u @ 0 # bs1" "sublist u line"
  proof (cases "length t2 = 4")
    case True
    then have "drop 5 (t2 @ 0 # 0 # bs) = [] @ 0 # bs" by simp
    then show thesis by (rule that) simp
  next
    case False
    then have d: "drop 5 (t2 @ 0 # 0 # bs) = drop 5 t2 @ 0 # 0 # bs" using 1(3) by simp
    have "sublist (drop 5 t2) t" unfolding 1(1) by (metis append_take_drop_id sublist_append_leftI sublist_append_rightI sublist_order.order_trans)
    from this t(1) have "sublist (drop 5 t2) line" by (rule sublist_order.order_trans)
    with d show thesis by (rule that)
  qed
  show ?thesis
  proof (rule str_find_string [of "[34]" "\<lambda>c. c" u bs1])
    assume "str_find (\<lambda>c. c) [34] (u @ 0 # bs1) = Some None"
    then show ?thesis using wf h b 1 u by (simp add: update_rel_def strcasestr_def strstr_def)
  next
    fix u1 u2 assume 2: "u = u1 @ u2" "str_find (\<lambda>c. c) [34] (u @ 0 # bs1) = Some (Some (u2 @ 0 # bs1))"
    obtain p en1 where c: "copyHeader (u @ 0 # bs1) (length u1) en = Some (p, en1)" "extends en en1"
      "en_attempts en1 = en_attempts en" "p = None \<or> p = Some (en_next en) \<and> en_mem en1 (en_next en) = Some (u1 @ [0])"
      using copyHeader_extends [OF wf(1), of "length u1" "u @ 0 # bs1"] 2(1) by auto
    have "\<not> sublist w u1" using t(2) u(2) 2(1) by (metis sublist_append_rightI sublist_order.order_trans)
    then have "owned en0 en1 (\<lambda>d. \<not> sublist w d) p" using owned_fresh [OF wf c(2,4)] by simp
    moreover have "owned en0 en1 (\<lambda>_. True) (linkP hs)" using h wf c(2) by (auto simp: headers_ok_def intro: owned_extends)
    moreover have "linkP hs = None \<or> linkP hs \<noteq> p"
      using c(4) h wf owned_below [of en0 en "\<lambda>_. True"] by (cases "linkP hs") (auto simp: headers_ok_def)
    ultimately have "headers_ok w en0 en1 (hs\<lparr>relSize := length u1, relP := p\<rparr>)" by (simp add: headers_ok_def)
    then show ?thesis using c 1 2 u b by (simp add: update_rel_def strcasestr_def strstr_def Let_def)
  qed simp_all
qed

lemma updateLinkAndRel_ok:
  assumes wf: "en_wf en" "extends en0 en" and h: "headers_ok w en0 en hs" and l: "polite_line w (line, behind)"
  shows "\<exists>ok hs1 en1. updateLinkAndRel hs (line @ behind) en = Some (ok, hs1, en1) \<and>
     extends en en1 \<and> en_attempts en1 = en_attempts en \<and> headers_ok w en0 en1 hs1"
proof -
  obtain bs where b: "behind = 0 # 0 # bs"
    using l by (cases behind; cases "tl behind") (auto simp: polite_line_def take_Suc_conv_app_nth numeral_2_eq_2)
  have w: "\<not> sublist w line" using l by (simp add: polite_line_def)
  have unchanged: ?thesis if "updateLinkAndRel hs (line @ behind) en = Some (False, hs, en)"
    using that wf h by force
  show ?thesis
  proof (rule str_find_string [of "ascii ''Link''" lower line "0 # bs"])
    assume "str_find lower (ascii ''Link'') (line @ 0 # 0 # bs) = Some None"
    then show ?thesis using b by (intro unchanged) (simp add: updateLinkAndRel_def strcasestr_def)
  next
    fix a1 t1 assume 1: "line = a1 @ t1" "str_find lower (ascii ''Link'') (line @ 0 # 0 # bs) = Some (Some (t1 @ 0 # 0 # bs))"
    show ?thesis
    proof (rule str_find_string [of "ascii ''<''" "\<lambda>c. c" t1 "0 # bs"])
      assume "str_find (\<lambda>c. c) (ascii ''<'') (t1 @ 0 # 0 # bs) = Some None"
      then show ?thesis using b 1 by (intro unchanged) (simp add: updateLinkAndRel_def strcasestr_def strstr_def)
    next
      fix a2 t2 assume 2: "t1 = a2 @ t2" "str_find (\<lambda>c. c) (ascii ''<'') (t1 @ 0 # 0 # bs) = Some (Some (t2 @ 0 # 0 # bs))"
        "length (ascii ''<'') \<le> length t2"
      then obtain c t3 where t3: "t2 = c # t3" by (cases t2) (auto simp: ascii_def)
      show ?thesis
      proof (rule str_find_string [of "ascii ''>''" "\<lambda>c. c" t3 "0 # bs"])
        assume "str_find (\<lambda>c. c) (ascii ''>'') (t3 @ 0 # 0 # bs) = Some None"
        then show ?thesis using b 1 2 t3 by (intro unchanged) (simp add: updateLinkAndRel_def strcasestr_def strstr_def)
      next
        fix a4 t4 assume 4: "t3 = a4 @ t4" "str_find (\<lambda>c. c) (ascii ''>'') (t3 @ 0 # 0 # bs) = Some (Some (t4 @ 0 # 0 # bs))"
        have sub: "sublist t4 line" unfolding 1(1) 2(1) t3 4(1) sublist_def by (metis append.assoc append_Cons append_Nil2)
        obtain p en1 where c: "copyHeader (t3 @ 0 # 0 # bs) (length a4) en = Some (p, en1)" "extends en en1"
          "en_attempts en1 = en_attempts en" "p = None \<or> p = Some (en_next en) \<and> en_mem en1 (en_next en) = Some (a4 @ [0])"
          using copyHeader_extends [OF wf(1), of "length a4" "t3 @ 0 # 0 # bs"] 4(1) by auto
        let ?hs = "hs\<lparr>linkSize := length a4, linkP := p\<rparr>"
        have "owned en0 en1 (\<lambda>_. True) p" using owned_fresh [OF wf c(2,4), of "\<lambda>_. True"] by simp
        moreover have "owned en0 en1 (\<lambda>d. \<not> sublist w d) (relP hs)" using h wf c(2) by (auto simp: headers_ok_def intro: owned_extends)
        moreover have "p = None \<or> p \<noteq> relP hs"
          using c(4) h wf owned_below [of en0 en "\<lambda>d. \<not> sublist w d"] by (cases "relP hs") (auto simp: headers_ok_def)
        ultimately have h1: "headers_ok w en0 en1 ?hs" by (simp add: headers_ok_def)
        show ?thesis
        proof (cases p)
          case None
          then have "updateLinkAndRel hs (line @ behind) en = Some (False, ?hs, en1)"
            using b 1 2 t3 4 c by (simp add: updateLinkAndRel_def strcasestr_def strstr_def Let_def)
          then show ?thesis using h1 c(2,3) None by blast
        next
          case (Some i)
          obtain hs2 en2 where r: "update_rel ?hs (t4 @ behind) en1 = Some (True, hs2, en2)"
            "extends en1 en2" "en_attempts en2 = en_attempts en1" "headers_ok w en0 en2 hs2"
            using update_rel_ok [OF extends_wf [OF c(2)] extends_trans [OF wf(2) c(2)] h1 sub w b] by blast
          have s1: "strcasestr (line @ behind) (ascii ''Link'') = Some (Some (t1 @ behind))"
            and s2: "strstr (t1 @ behind) (ascii ''<'') = Some (Some (t2 @ behind))"
            and s3: "strstr (t3 @ behind) (ascii ''>'') = Some (Some (t4 @ behind))"
            using 1 2 4 b by (simp_all add: strcasestr_def strstr_def)
          have ln: "length (t3 @ behind) - length (t4 @ behind) = length a4" using 4(1) by simp
          have d1: "drop 1 (t2 @ behind) = t3 @ behind" using t3 by simp
          have c': "copyHeader (t3 @ behind) (length a4) en = Some (Some i, en1)" using c(1) b Some by simp
          have "updateLinkAndRel hs (line @ behind) en = Some (True, hs2, en2)"
            unfolding updateLinkAndRel_def s1 bind.simps option.case s2 d1 Let_def s3 ln c' case_prod_conv
            using r(1) Some by simp
          then show ?thesis using r(2-4) c(2,3) extends_trans by auto
        qed
      qed (simp_all add: ascii_def)
    qed (simp_all add: ascii_def)
  qed (simp_all add: ascii_def lower_def)
qed

lemma receive_headers_ok:
  assumes "en_wf en" "extends en0 en" "headers_ok w en0 en hs" "\<forall>l\<in>set ls. polite_line w l"
  shows "\<exists>hs1 en1. receive_headers ls hs en = Some (hs1, en1) \<and> extends en en1 \<and>
     en_attempts en1 = en_attempts en \<and> headers_ok w en0 en1 hs1"
  using assms
proof (induction ls arbitrary: hs en)
  case (Cons l ls)
  obtain line behind where l: "l = (line, behind)" by fastforce
  obtain hs1 en1 where w: "writeHeaderCallback l hs en = Some (hs1, en1)" "extends en en1"
    "en_attempts en1 = en_attempts en" "headers_ok w en0 en1 hs1"
  proof (cases "6 \<le> length line \<and> take 5 line = ascii ''Link:''")
    case True
    then show thesis using updateLinkAndRel_ok [OF Cons.prems(1-3), of line behind] Cons.prems(4) that l
      by (auto simp: writeHeaderCallback_def)
  next
    case False
    then have "writeHeaderCallback l hs en = Some (hs, en)" using l by (auto simp: writeHeaderCallback_def)
    then show thesis using that [of hs en] Cons.prems by simp
  qed
  have "\<exists>hs2 en2. receive_headers ls hs1 en1 = Some (hs2, en2) \<and> extends en1 en2 \<and>
     en_attempts en2 = en_attempts en1 \<and> headers_ok w en0 en2 hs2"
    using Cons.IH [of en1 hs1] w Cons.prems extends_trans by auto
  then show ?case using w extends_trans by fastforce
qed simp

end
