(* ===== verification/SeClientRun.thy ===== *)
theory SeClientRun
  imports SeClientSafety
begin

text \<open>
  A whole request: the body of the answer, the repeated attempts, and what \<open>httpCommunicate\<close>
  returns in an environment that keeps to the rules of \<open>polite\<close>.
\<close>

subsection \<open>The body\<close>

definition memory_ok :: "memory_struct \<Rightarrow> bool" where
  "memory_ok m \<longleftrightarrow> (\<forall>b. memoryP m = Some b \<longrightarrow> length b = mem_size m + 1 \<and> 0 \<in> set b)"

lemma writeMemoryCallback_ok:
  assumes "memory_ok m"
  obtains n m1 en1 where "writeMemoryCallback c m en = Some (n, m1, en1)" "memory_ok m1" "same_memory en en1"
proof -
  obtain b en1 where m: "en_malloc (mem_size m + length c + 1) en = (b, en1)" by fastforce
  note s = en_malloc_same [OF m]
  show thesis
  proof (cases b)
    case None
    show thesis by (rule that [of 0 "m\<lparr>memoryP := None\<rparr>" en1])
      (use m None s(1) in \<open>simp_all add: writeMemoryCallback_def memory_ok_def\<close>)
  next
    case (Some b0)
    define old where "old = take (length b0) (case memoryP m of None \<Rightarrow> [] | Some o' \<Rightarrow> o')"
    have l: "length (old @ drop (length old) b0) = mem_size m + length c + 1"
      using s(2) [OF Some] by (simp add: old_def)
    then obtain b1 where b1: "buf_write (mem_size m) c (old @ drop (length old) b0) = Some b1"
      using buf_write_Some_iff [of "mem_size m" c] by fastforce
    have l1: "length b1 = mem_size m + length c + 1" using buf_write_length [OF b1] l by simp
    then obtain b2 where b2: "buf_write (mem_size m + length c) [0] b1 = Some b2"
      using buf_write_Some_iff [of "mem_size m + length c" "[0]" b1] by fastforce
    have "length b2 = mem_size m + length c + 1" "0 \<in> set b2"
      using buf_write_length [OF b2] l1 b2 by (auto simp: buf_write_def)
    then show thesis
      by (intro that [of "length c" "\<lparr>memoryP = Some b2, mem_size = mem_size m + length c\<rparr>" en1])
        (use m Some s(1) b1 b2 in \<open>simp_all add: writeMemoryCallback_def memory_ok_def Let_def old_def\<close>)
  qed
qed

lemma receive_body_ok:
  assumes "memory_ok m"
  shows "\<exists>ok m1 en1. receive_body cs m en = Some (ok, m1, en1) \<and> memory_ok m1 \<and> same_memory en en1"
  using assms
proof (induction cs arbitrary: m en)
  case Nil
  then show ?case by (auto simp: same_memory_def)
next
  case (Cons c cs)
  obtain n m1 en1 where 1: "writeMemoryCallback c m en = Some (n, m1, en1)" "memory_ok m1" "same_memory en en1"
    by (rule writeMemoryCallback_ok [OF Cons.prems])
  obtain ok m2 en2 where 2: "receive_body cs m1 en1 = Some (ok, m2, en2)" "memory_ok m2" "same_memory en1 en2"
    using Cons.IH [OF 1(2)] by blast
  have "same_memory en en2" using 1(3) 2(3) by (simp add: same_memory_def)
  with 1 2 show ?case by (cases "n = length c") auto
qed

text \<open>With enough memory every piece is appended to what is there.\<close>

lemma writeMemoryCallback_text:
  assumes "all_memory en"
  obtains en1 where "writeMemoryCallback c \<lparr>memoryP = Some (t @ [0]), mem_size = length t\<rparr> en =
      Some (length c, \<lparr>memoryP = Some (t @ c @ [0]), mem_size = length (t @ c)\<rparr>, en1)" "all_memory en1"
    "same_memory en en1"
proof -
  obtain b en1 where m: "en_malloc (length t + length c + 1) en = (Some b, en1)" "length b = length t + length c + 1" "all_memory en1"
    by (rule en_malloc_all [OF assms, of "length t + length c + 1"])
  obtain d where d: "drop (Suc (length t)) b = d" "length d = length c" using m(2) by simp
  have "buf_write (length t) c (t @ 0 # d) = Some (t @ c @ drop (length c) (0 # d))"
    by (simp add: buf_write_def d(2))
  moreover have "length (drop (length c) (0 # d)) = 1" using d(2) by simp
  then obtain x where x: "drop (length c) (0 # d) = [x]" by (metis One_nat_def Suc_length_conv length_0_conv)
  moreover have "buf_write (length t + length c) [0] (t @ c @ [x]) = Some (t @ c @ [0])" by (simp add: buf_write_def)
  ultimately show thesis
    by (intro that [of en1])
      (use m d en_malloc_same(1) [OF m(1)] in \<open>simp_all add: writeMemoryCallback_def Let_def\<close>)
qed

lemma receive_body_text:
  assumes "all_memory en"
  shows "\<exists>en1. receive_body cs \<lparr>memoryP = Some (t @ [0]), mem_size = length t\<rparr> en =
      Some (True, \<lparr>memoryP = Some (t @ concat cs @ [0]), mem_size = length (t @ concat cs)\<rparr>, en1) \<and> all_memory en1 \<and> same_memory en en1"
  using assms
proof (induction cs arbitrary: t en)
  case Nil
  then show ?case by (simp add: same_memory_def)
next
  case (Cons c cs)
  obtain en1 where 1: "writeMemoryCallback c \<lparr>memoryP = Some (t @ [0]), mem_size = length t\<rparr> en =
      Some (length c, \<lparr>memoryP = Some (t @ c @ [0]), mem_size = length (t @ c)\<rparr>, en1)" "all_memory en1" "same_memory en en1"
    by (rule writeMemoryCallback_text [OF Cons.prems])
  from Cons.IH [OF 1(2), of "t @ c"] obtain en2 where
    "receive_body cs \<lparr>memoryP = Some (t @ c @ [0]), mem_size = length (t @ c)\<rparr> en1 =
      Some (True, \<lparr>memoryP = Some (t @ concat (c # cs) @ [0]), mem_size = length (t @ concat (c # cs))\<rparr>, en2)"
    "all_memory en2" "same_memory en1 en2" by auto
  with 1 show ?case by (auto simp: same_memory_def)
qed

subsection \<open>Attempts\<close>

definition response_ok :: "nat \<Rightarrow> response_struct \<Rightarrow> bool" where
  "response_ok B r \<longleftrightarrow> (\<exists>d. responseP r = d @ [0] \<and> rsp_size r = length d \<and> length d \<le> B \<and>
     (rsp_offset r = 0 \<or> unat (rsp_offset r) = length d))"

lemma put_source_ok: "length d \<le> B \<Longrightarrow> response_ok B (put_source d)"
  by (simp add: response_ok_def put_source_def)

lemma readResponseCallback_ok:
  assumes "response_ok B r" "B \<le> n" "B < 2 ^ 32"
  shows "\<exists>d r1. readResponseCallback n r = Some (d, r1) \<and> response_ok B r1"
proof -
  obtain d where d: "responseP r = d @ [0]" "rsp_size r = length d" "length d \<le> B"
    "rsp_offset r = 0 \<or> unat (rsp_offset r) = length d" using assms(1) by (auto simp: response_ok_def)
  show ?thesis
  proof (cases "rsp_size r \<le> unat (rsp_offset r)")
    case True
    then show ?thesis using assms(1) by (simp add: readResponseCallback_def)
  next
    case False
    then have "rsp_offset r = 0" using d by auto
    then show ?thesis using d False assms
      by (auto simp: readResponseCallback_def Let_def buf_read_def response_ok_def unat_of_nat_u32)
  qed
qed

lemma upload_ok:
  assumes "response_ok B r" "\<forall>n\<in>set ns. B \<le> n" "B < 2 ^ 32"
  shows "\<exists>d r1. upload ns r = Some (d, r1) \<and> response_ok B r1"
  using assms
proof (induction ns arbitrary: r)
  case (Cons n ns)
  obtain d r1 where 1: "readResponseCallback n r = Some (d, r1)" "response_ok B r1"
    using readResponseCallback_ok [of B r n] Cons.prems by auto
  obtain d2 r2 where "upload ns r1 = Some (d2, r2)" "response_ok B r2"
    using Cons.IH [OF 1(2)] Cons.prems by auto
  with 1 show ?case by simp
qed simp

text \<open>The environment keeps away from the two faults of the callbacks: reads ask for the whole
  upload, header lines are terminated. \<open>w\<close> does not occur in a header line.\<close>

definition polite :: "bytes \<Rightarrow> nat \<Rightarrow> transfer \<Rightarrow> bool" where
  "polite w B tr \<longleftrightarrow> (\<forall>n\<in>set (tr_reads tr). B \<le> n) \<and> (\<forall>l\<in>set (tr_headers tr). polite_line w l)"

text \<open>The data of a session between attempts.\<close>

definition session_ok :: "bytes \<Rightarrow> nat \<Rightarrow> engine \<Rightarrow> engine \<Rightarrow> session_data \<Rightarrow> bool" where
  "session_ok w B en0 en = (\<lambda>(rsp, chunk, hdrs). (\<forall>r. rsp = Some r \<longrightarrow> response_ok B r) \<and> memory_ok chunk \<and> headers_ok w en0 en hdrs)"

lemma curl_easy_perform_ok:
  assumes "en_wf en" "extends en0 en" "session_ok w B en0 en (rsp, chunk, hdrs)" "polite w B (en_transfers en (en_attempts en))" "B < 2 ^ 32"
  obtains ok el rsp1 chunk1 hdrs1 en1 where
    "curl_easy_perform verb link data (rsp, chunk, hdrs) en = Some (ok, el, (rsp1, chunk1, hdrs1), en1)"
    "extends en en1" "en_attempts en1 = Suc (en_attempts en)" "session_ok w B en0 en1 (rsp1, chunk1, hdrs1)"
    "tr_headers (en_transfers en (en_attempts en)) = [] \<Longrightarrow> hdrs1 = hdrs"
proof -
  let ?tr = "en_transfers en (en_attempts en)"
  obtain sent rsp1 where u: "(case rsp of None \<Rightarrow> Some (data, None)
       | Some r \<Rightarrow> map_option (\<lambda>(d, r1). (d, Some r1)) (upload (tr_reads ?tr) r)) = Some (sent, rsp1)"
    "\<forall>r. rsp1 = Some r \<longrightarrow> response_ok B r"
  proof (cases rsp)
    case (Some r)
    then obtain d r1 where "upload (tr_reads ?tr) r = Some (d, r1)" "response_ok B r1"
      using upload_ok [of B r "tr_reads ?tr"] assms by (auto simp: session_ok_def polite_def)
    then show thesis using that Some by simp
  qed (use that in simp)
  define en1 where "en1 = en\<lparr>en_attempts := Suc (en_attempts en),
                  en_sent := en_sent en @ [\<lparr>rq_method = verb, rq_link = link, rq_data = sent\<rparr>]\<rparr>"
  have e1: "extends en en1" "en_attempts en1 = Suc (en_attempts en)" using assms(1)
    by (simp_all add: en1_def extends_def en_wf_def events_def)
  have h: "headers_ok w en0 en1 hdrs" using assms(1,3) e1 headers_ok_extends by (auto simp: session_ok_def)
  obtain hdrs1 en2 where h2: "receive_headers (tr_headers ?tr) hdrs en1 = Some (hdrs1, en2)" "extends en1 en2"
    "en_attempts en2 = en_attempts en1" "headers_ok w en0 en2 hdrs1"
    using receive_headers_ok [OF extends_wf [OF e1(1)] extends_trans [OF assms(2) e1(1)] h, of "tr_headers ?tr"] assms(4)
    unfolding polite_def by blast
  obtain ok chunk1 en3 where b: "receive_body (tr_body ?tr) chunk en2 = Some (ok, chunk1, en3)" "memory_ok chunk1" "same_memory en2 en3"
    using receive_body_ok assms(3) by (fastforce simp: session_ok_def)
  have e3: "extends en2 en3" using same_memory_extends [OF extends_wf [OF h2(2)] b(3)] .
  show thesis
  proof (rule that)
    show "curl_easy_perform verb link data (rsp, chunk, hdrs) en = Some (ok \<and> tr_ok ?tr, tr_elapsed ?tr, (rsp1, chunk1, hdrs1), en3)"
      using u(1) h2(1) b(1) unfolding curl_easy_perform_def Let_def en1_def [symmetric] by (simp add: en1_def)
    show "extends en en3" using e1(1) h2(2) e3 extends_trans by blast
    show "en_attempts en3 = Suc (en_attempts en)" using e1 h2 b by (simp add: same_memory_def)
    show "session_ok w B en0 en3 (rsp1, chunk1, hdrs1)"
      using u(2) b(2) headers_ok_extends [OF h2(4) extends_wf [OF h2(2)] e3] by (simp add: session_ok_def)
    show "hdrs1 = hdrs" if "tr_headers ?tr = []" using h2(1) that by simp
  qed
qed

lemma perform_attempts_ok:
  assumes "en_wf en" "extends en0 en" "session_ok w B en0 en s" "\<forall>i. polite w B (en_transfers en i)" "B < 2 ^ 32"
  shows "\<exists>ok s1 en1. perform_attempts n verb link data s en = Some (ok, s1, en1) \<and> extends en en1 \<and>
    (0 < n \<longrightarrow> en_attempts en < en_attempts en1) \<and> session_ok w B en0 en1 s1 \<and>
    ((\<forall>i\<ge>en_attempts en. tr_headers (en_transfers en i) = []) \<longrightarrow> snd (snd s1) = snd (snd s))"
  using assms
proof (induction n arbitrary: s en)
  case 0
  then show ?case by simp (rule exI [of _ False], simp)
next
  case (Suc n)
  obtain rsp chunk hdrs where s: "s = (rsp, chunk, hdrs)" by (cases s)
  obtain ok el rsp1 chunk1 hdrs1 en1 where 1:
    "curl_easy_perform verb link data (rsp, chunk, hdrs) en = Some (ok, el, (rsp1, chunk1, hdrs1), en1)"
    "extends en en1" "en_attempts en1 = Suc (en_attempts en)" "session_ok w B en0 en1 (rsp1, chunk1, hdrs1)"
    "tr_headers (en_transfers en (en_attempts en)) = [] \<Longrightarrow> hdrs1 = hdrs"
    using curl_easy_perform_ok [OF Suc.prems(1,2) Suc.prems(3) [unfolded s]] Suc.prems(4,5) by metis
  show ?case
  proof (cases "ok \<or> el > SE_CONNECTION_DEFAULT_TIMEOUT div 2")
    case True
    then show ?thesis using 1 s by auto
  next
    case False
    note tr = extends_transfers [OF 1(2)]
    obtain ok2 s2 en2 where 2: "perform_attempts n verb link data (rsp1, chunk1, hdrs1) en1 = Some (ok2, s2, en2)"
      "extends en1 en2" "session_ok w B en0 en2 s2"
      "(\<forall>i\<ge>en_attempts en1. tr_headers (en_transfers en1 i) = []) \<longrightarrow> snd (snd s2) = snd (snd (rsp1, chunk1, hdrs1))"
      using Suc.IH [OF extends_wf [OF 1(2)] extends_trans [OF Suc.prems(2) 1(2)] 1(4)] Suc.prems(4,5) tr by metis
    have "perform_attempts (Suc n) verb link data s en = Some (ok2, s2, en2)" using s 1(1) 2(1) False by simp
    moreover have "extends en en2" using 1(2) 2(2) extends_trans by blast
    moreover have "en_attempts en < en_attempts en2" using 1(3) 2(2) by (simp add: extends_def)
    moreover have "(\<forall>i\<ge>en_attempts en. tr_headers (en_transfers en i) = []) \<longrightarrow> snd (snd s2) = snd (snd s)"
      using 1(3,5) 2(4) tr s by simp
    ultimately show ?thesis using 2(3) by blast
  qed
qed

subsection \<open>The request\<close>

text \<open>A pointer to a block allocated since \<open>en\<close>, or NULL.\<close>

definition fresh :: "engine \<Rightarrow> engine \<Rightarrow> ptr \<Rightarrow> bool" where
  "fresh en en1 p \<longleftrightarrow> (\<forall>i. p = Some i \<longrightarrow> en_next en \<le> i \<and> en_mem en1 i \<noteq> None)"

lemma owned_fresh_ptr: "owned en en1 P p \<Longrightarrow> fresh en en1 p"
  by (auto simp: owned_def fresh_def)

lemma en_free_fresh:
  assumes "extends en en1" "fresh en en1 p"
  obtains en2 where "en_free p en1 = Some en2" "extends en en2" "\<forall>i. p \<noteq> Some i \<longrightarrow> en_mem en2 i = en_mem en1 i"
    "en_attempts en2 = en_attempts en1" "en_agent en2 = en_agent en1" "en_next en2 = en_next en1"
  using assms that by (cases p) (fastforce simp: en_free_def fresh_def extends_def en_wf_def events_def)+

definition distinct_ptrs :: "ptr list \<Rightarrow> bool" where
  "distinct_ptrs ps \<longleftrightarrow> distinct (filter (\<lambda>p. p \<noteq> None) ps)"

text \<open>The two ways a request ends: before or without an answer the pointers are the old link and
  NULL; with an answer they are new.\<close>

definition reply_ok :: "bytes \<Rightarrow> engine \<Rightarrow> ptr \<Rightarrow> u32 \<Rightarrow> links \<Rightarrow> engine \<Rightarrow> bool" where
  "reply_ok w en link ret = (\<lambda>(l, r, c) en1. extends en en1 \<and>
     (ret \<in> {ROOTPA_ERROR_OUT_OF_MEMORY, ROOTPA_ERROR_NETWORK} \<and> l = link \<and> r = None \<and> c = None \<or>
      owned en en1 (\<lambda>_. True) l \<and> owned en en1 (\<lambda>d. \<not> sublist w d) r \<and> fresh en en1 c \<and> distinct_ptrs [l, r, c] \<and>
      en_attempts en < en_attempts en1 \<and>
      ((\<forall>i\<ge>en_attempts en. tr_headers (en_transfers en i) = []) \<longrightarrow> r = None)))"

lemma httpCommunicate_ok:
  assumes wf: "en_wf en" and link: "en_mem en l = Some b" "0 \<in> set b"
    and pol: "\<forall>i. polite w B (en_transfers en i)" and B: "B < 2 ^ 32" and inp: "\<forall>d. inputP = Some d \<longrightarrow> length d \<le> B"
  shows "\<exists>ret ls en1. httpCommunicate inputP (Some l, rel, cmd) verb en = Some (ret, ls, en1) \<and> reply_ok w en (Some l) ret ls en1"
proof -
  obtain b0 en1 where m: "en_malloc 1 en = (b0, en1)" by fastforce
  note s1 = en_malloc_same(1) [OF m]
  have e1: "extends en en1" by (rule same_memory_extends [OF wf s1])
  obtain ok2 en2 where o2: "set_method_opts inputP verb en1 = (ok2, en2)" by fastforce
  have s2: "same_memory en1 en2"
    using o2 setopts_same by (cases verb)
      (auto simp: set_method_opts_def setPutOpt_def setPostOpt_def setDeleteOpt_def same_memory_def simp del: setopts.simps)
  have e2: "extends en en2" using e1 same_memory_extends [OF extends_wf [OF e1] s2] extends_trans by blast
  obtain ok3 en3 where o3: "setBasicOpt en2 = (ok3, en3)" by fastforce
  have s3: "same_memory en2 en3" using o3 setopts_same by (simp add: setBasicOpt_def)
  have e3: "extends en en3" using e2 same_memory_extends [OF extends_wf [OF e2] s3] extends_trans by blast
  have a3: "en_attempts en3 = en_attempts en" using s1 s2 s3 by (simp add: same_memory_def)
  obtain url where url: "deref (Some l) en2 = Some b" "cstring b = Some url"
    using s1 s2 link by (auto simp: deref_def same_memory_def cstring_def)
  show ?thesis
  proof (cases "b0 = None \<or> \<not> ok2 \<or> \<not> ok3")
    case True
    then consider "b0 = None" | x where "b0 = Some x" "\<not> ok2" | x where "b0 = Some x" "ok2" "\<not> ok3" by auto
    then have "\<exists>ret en4. httpCommunicate inputP (Some l, rel, cmd) verb en = Some (ret, (Some l, None, None), en4) \<and>
       ret \<in> {ROOTPA_ERROR_OUT_OF_MEMORY, ROOTPA_ERROR_NETWORK} \<and> extends en en4"
      using m o2 o3 url e1 e2 e3 by cases (simp_all add: httpCommunicate_def)
    then show ?thesis by (fastforce simp: reply_ok_def)
  next
    case False
    let ?input = "case inputP of None \<Rightarrow> [] | Some d \<Rightarrow> d"
    let ?rsp = "if verb = httpMethod_PUT then Some (put_source ?input) else None"
    let ?s = "(?rsp, \<lparr>memoryP = Some [0], mem_size = 0\<rparr>, empty_headers)"
    let ?data = "if verb = httpMethod_POST then ?input else []"
    have "session_ok w B en3 en3 ?s"
      using inp by (auto simp: session_ok_def memory_ok_def intro!: put_source_ok split: option.splits)
    then have so: "session_ok w B en3 en3 ?s" .
    obtain ok4 s4 en4 where 40:
      "perform_attempts MAX_ATTEMPTS verb url ?data ?s en3 = Some (ok4, s4, en4)" "extends en3 en4"
      "0 < MAX_ATTEMPTS \<longrightarrow> en_attempts en3 < en_attempts en4" "session_ok w B en3 en4 s4"
      "(\<forall>i\<ge>en_attempts en3. tr_headers (en_transfers en3 i) = []) \<longrightarrow> snd (snd s4) = snd (snd ?s)"
      using perform_attempts_ok [OF extends_wf [OF e3] extends_refl [OF extends_wf [OF e3]] so
          pol [folded extends_transfers [OF e3]] B, of MAX_ATTEMPTS verb url ?data]
      by (elim exE conjE) (rule that)
    obtain rsp1 chunk hdrs where s4: "s4 = (rsp1, chunk, hdrs)" by (cases s4)
    have 4: "perform_attempts MAX_ATTEMPTS verb url ?data ?s en3 = Some (ok4, (rsp1, chunk, hdrs), en4)" "extends en3 en4"
      "en_attempts en3 < en_attempts en4" "session_ok w B en3 en4 (rsp1, chunk, hdrs)"
      "(\<forall>i\<ge>en_attempts en3. tr_headers (en_transfers en3 i) = []) \<longrightarrow> hdrs = empty_headers"
      using 40 unfolding s4 by (simp_all add: MAX_ATTEMPTS_def)
    have e4: "extends en en4" using e3 4(2) extends_trans by blast
    have own: "owned en en4 (\<lambda>_. True) (linkP hdrs)" "owned en en4 (\<lambda>d. \<not> sublist w d) (relP hdrs)"
      "linkP hdrs = None \<or> linkP hdrs \<noteq> relP hdrs" "memory_ok chunk"
      using 4(4) e3 by (auto simp: session_ok_def headers_ok_def owned_def extends_def)
    have run: "httpCommunicate inputP (Some l, rel, cmd) verb en = hand_over (Some l) (ok4, (rsp1, chunk, hdrs), en4)"
      using m o2 o3 url False 4(1) by (auto simp: httpCommunicate_def Let_def)
    show ?thesis
    proof (cases ok4)
      case F: False
      obtain en5 where f5: "en_free (linkP hdrs) en4 = Some en5" "extends en en5" "\<forall>i. linkP hdrs \<noteq> Some i \<longrightarrow> en_mem en5 i = en_mem en4 i"
        using en_free_fresh [OF e4 owned_fresh_ptr [OF own(1)]] by metis
      have "fresh en en5 (relP hdrs)" using own f5(3) by (fastforce simp: fresh_def owned_def)
      then obtain en6 where "en_free (relP hdrs) en5 = Some en6" "extends en en6"
        using en_free_fresh [OF f5(2)] by metis
      then show ?thesis using run F f5(1) by (auto simp: reply_ok_def hand_over_def)
    next
      case True
      let ?ret = "http_status (tr_code (en_transfers en4 (en_attempts en4 - 1)))"
      have quiet: "(\<forall>i\<ge>en_attempts en. tr_headers (en_transfers en i) = []) \<longrightarrow> relP hdrs = None"
        using 4(5) a3 extends_transfers [OF e3] by (auto simp: empty_headers_def)
      show ?thesis
      proof (cases "memoryP chunk")
        case None
        then have "httpCommunicate inputP (Some l, rel, cmd) verb en = Some (?ret, (linkP hdrs, relP hdrs, None), en4)"
          using run True by (simp add: hand_over_def)
        moreover have "reply_ok w en (Some l) ?ret (linkP hdrs, relP hdrs, None) en4"
          using own e4 4(3) a3 quiet by (auto simp: reply_ok_def fresh_def distinct_ptrs_def)
        ultimately show ?thesis by blast
      next
        case (Some cb)
        obtain q en5 where q: "new_block cb en4 = (q, en5)" by fastforce
        note nb = new_block_extends [OF extends_wf [OF e4], of cb, unfolded q fst_conv snd_conv]
        have e5: "extends en en5" using e4 nb(1) extends_trans by blast
        have o5: "owned en en5 (\<lambda>_. True) (linkP hdrs)" "owned en en5 (\<lambda>d. \<not> sublist w d) (relP hdrs)"
          using own(1,2) owned_extends extends_wf [OF e4] nb(1) by blast+
        have "linkP hdrs \<noteq> q" "relP hdrs \<noteq> q"
          using own(1,2) owned_below extends_wf [OF e4] nb(2) by fastforce+
        then have "reply_ok w en (Some l) ?ret (linkP hdrs, relP hdrs, q) en5"
          using o5 own(3) e5 nb e4 4(3) a3 quiet by (auto simp: reply_ok_def fresh_def distinct_ptrs_def extends_def)
        then show ?thesis using run True Some q by (auto simp: hand_over_def)
      qed
    qed
  qed
qed

subsection \<open>The command\<close>

text \<open>What header lines leave alone.\<close>

definition surroundings :: "engine \<Rightarrow> (nat \<Rightarrow> (nat \<Rightarrow> u8) option) \<times> nat \<times> (nat \<Rightarrow> transfer)" where
  "surroundings en = (w_heap (ag_world (en_agent en)), en_attempts en, en_transfers en)"

lemma surroundings_malloc: "en_malloc n en = (b, en1) \<Longrightarrow> surroundings en1 = surroundings en"
  by (auto simp: en_malloc_def ag_malloc_def malloc_def surroundings_def)

lemma surroundings_copyHeader: "copyHeader m n en = Some (p, en1) \<Longrightarrow> surroundings en1 = surroundings en"
  using surroundings_malloc [of "n + 1" en]
  by (auto simp: copyHeader_def new_block_def surroundings_def split: prod.splits option.splits)

lemma surroundings_update_rel: "update_rel hs m en = Some (ok, hs1, en1) \<Longrightarrow> surroundings en1 = surroundings en"
  by (auto simp: update_rel_def Let_def bind_eq_Some_conv split: option.splits) (erule surroundings_copyHeader)

lemma surroundings_updateLinkAndRel:
  "updateLinkAndRel hs m en = Some (ok, hs1, en1) \<Longrightarrow> surroundings en1 = surroundings en"
  by (auto simp: updateLinkAndRel_def Let_def bind_eq_Some_conv split: option.splits if_splits
      dest!: surroundings_copyHeader surroundings_update_rel)

lemma surroundings_headers: "receive_headers ls hs en = Some (hs1, en1) \<Longrightarrow> surroundings en1 = surroundings en"
proof (induction ls arbitrary: hs en)
  case (Cons l ls)
  then obtain hs2 en2 where 1: "writeHeaderCallback l hs en = Some (hs2, en2)" "receive_headers ls hs2 en2 = Some (hs1, en1)"
    by (auto simp: bind_eq_Some_conv)
  have "surroundings en2 = surroundings en"
    using 1(1) by (auto simp: writeHeaderCallback_def split: prod.splits if_splits dest: surroundings_updateLinkAndRel)
  with Cons.IH [OF 1(2)] show ?case by simp
qed simp

text \<open>The body texts of attempts \<open>i\<close> to \<open>j\<close>, one behind the other.\<close>

definition bodies :: "(nat \<Rightarrow> transfer) \<Rightarrow> nat \<Rightarrow> nat \<Rightarrow> bytes" where
  "bodies trs i j = concat (map (\<lambda>n. concat (tr_body (trs n))) [i..<j])"

lemma bodies_step: "i < j \<Longrightarrow> bodies trs i j = concat (tr_body (trs i)) @ bodies trs (Suc i) j"
  by (simp add: bodies_def upt_conv_Cons)

lemma curl_easy_perform_text:
  assumes "curl_easy_perform verb link data (rsp, \<lparr>memoryP = Some (t @ [0]), mem_size = length t\<rparr>, hdrs) en =
      Some (ok, el, (rsp1, chunk1, hdrs1), en1)" "all_memory en"
  shows "chunk1 = \<lparr>memoryP = Some (t @ bodies (en_transfers en) (en_attempts en) (Suc (en_attempts en)) @ [0]),
      mem_size = length (t @ bodies (en_transfers en) (en_attempts en) (Suc (en_attempts en)))\<rparr>"
    "all_memory en1" "en_attempts en1 = Suc (en_attempts en)" "en_transfers en1 = en_transfers en"
proof -
  let ?tr = "en_transfers en (en_attempts en)"
  define en0 where "en0 sent = en\<lparr>en_attempts := Suc (en_attempts en),
      en_sent := en_sent en @ [\<lparr>rq_method = verb, rq_link = link, rq_data = sent\<rparr>]\<rparr>" for sent
  obtain sent en2 where h: "receive_headers (tr_headers ?tr) hdrs (en0 sent) = Some (hdrs1, en2)"
    and b: "receive_body (tr_body ?tr) \<lparr>memoryP = Some (t @ [0]), mem_size = length t\<rparr> en2 = Some (snd (True, True), chunk1, en1) \<or>
      (\<exists>ok. receive_body (tr_body ?tr) \<lparr>memoryP = Some (t @ [0]), mem_size = length t\<rparr> en2 = Some (ok, chunk1, en1))"
    using assms(1) unfolding curl_easy_perform_def en0_def
    by (auto simp: bind_eq_Some_conv Let_def)
  have s: "surroundings en2 = surroundings (en0 sent)" using surroundings_headers [OF h] .
  then have "all_memory en2" using assms(2) by (simp add: all_memory_def surroundings_def en0_def)
  from receive_body_text [OF this, of "tr_body ?tr" t] b
  have "chunk1 = \<lparr>memoryP = Some (t @ concat (tr_body ?tr) @ [0]), mem_size = length (t @ concat (tr_body ?tr))\<rparr>"
    "all_memory en1" "same_memory en2 en1" by auto
  then show "chunk1 = \<lparr>memoryP = Some (t @ bodies (en_transfers en) (en_attempts en) (Suc (en_attempts en)) @ [0]),
      mem_size = length (t @ bodies (en_transfers en) (en_attempts en) (Suc (en_attempts en)))\<rparr>"
    "all_memory en1" "en_attempts en1 = Suc (en_attempts en)" "en_transfers en1 = en_transfers en"
    using s by (simp_all add: bodies_def same_memory_def surroundings_def en0_def)
qed

lemma perform_attempts_text:
  assumes "perform_attempts n verb link data (rsp, \<lparr>memoryP = Some (t @ [0]), mem_size = length t\<rparr>, hdrs) en =
      Some (ok, (rsp1, chunk1, hdrs1), en1)" "all_memory en"
  shows "chunk1 = \<lparr>memoryP = Some (t @ bodies (en_transfers en) (en_attempts en) (en_attempts en1) @ [0]),
      mem_size = length (t @ bodies (en_transfers en) (en_attempts en) (en_attempts en1))\<rparr> \<and>
    en_attempts en \<le> en_attempts en1"
  using assms
proof (induction n arbitrary: rsp t hdrs en)
  case 0
  then show ?case by (auto simp: bodies_def)
next
  case (Suc n)
  obtain ok2 el rsp2 chunk2 hdrs2 en2 where c:
    "curl_easy_perform verb link data (rsp, \<lparr>memoryP = Some (t @ [0]), mem_size = length t\<rparr>, hdrs) en =
      Some (ok2, el, (rsp2, chunk2, hdrs2), en2)"
    using Suc.prems(1) by (auto simp: bind_eq_Some_conv)
  note t = curl_easy_perform_text [OF c Suc.prems(2)]
  show ?case
  proof (cases "ok2 \<or> el > SE_CONNECTION_DEFAULT_TIMEOUT div 2")
    case True
    then have "chunk1 = chunk2" "en1 = en2" using Suc.prems(1) c by (auto split: if_splits)
    then show ?thesis using t by simp
  next
    case False
    let ?t = "t @ bodies (en_transfers en) (en_attempts en) (Suc (en_attempts en))"
    have "perform_attempts n verb link data (rsp2, \<lparr>memoryP = Some (?t @ [0]), mem_size = length ?t\<rparr>, hdrs2) en2 =
      Some (ok, (rsp1, chunk1, hdrs1), en1)" using Suc.prems(1) c False t(1) by simp
    note i = Suc.IH [OF this t(2)]
    then have "en_attempts en < en_attempts en1" using t(3) by simp
    then show ?thesis using i t(3,4) bodies_step [of "en_attempts en" "en_attempts en1" "en_transfers en"]
      by (simp add: bodies_def)
  qed
qed

text \<open>The command a request hands over is what all of its attempts delivered, one behind the
  other: what a failed attempt received before it broke off stays in front of the answer of the
  attempt that succeeded.\<close>

lemma command_collects_attempts:
  assumes "httpCommunicate inputP (Some l, rel, cmd) verb en = Some (ret, (l1, r1, Some c), en1)" "all_memory en"
  shows "en_mem en1 c = Some (bodies (en_transfers en) (en_attempts en) (en_attempts en1) @ [0])"
proof -
  obtain b0 en2 where m: "en_malloc 1 en = (b0, en2)" by fastforce
  obtain ok3 en3 where 3: "set_method_opts inputP verb en2 = (ok3, en3)" by fastforce
  obtain ok4 en4 where 4: "setBasicOpt en3 = (ok4, en4)" by fastforce
  have s: "surroundings en4 = surroundings en"
  proof -
    have o: "setopts n e = (ok, e1) \<Longrightarrow> surroundings e1 = surroundings e" for n e ok e1
      by (induction n arbitrary: e) (auto simp: surroundings_def Let_def split: if_splits)
    have "surroundings en3 = surroundings en2" using 3 o
      by (cases verb) (auto simp: set_method_opts_def setPutOpt_def setPostOpt_def setDeleteOpt_def simp del: setopts.simps)
    moreover have "surroundings en4 = surroundings en3" using 4 o by (simp add: setBasicOpt_def del: setopts.simps)
    ultimately show ?thesis using surroundings_malloc [OF m] by simp
  qed
  obtain url ok5 rsp0 d0 rsp1 chunk hdrs en5 where
    p: "perform_attempts MAX_ATTEMPTS verb url d0 (rsp0, \<lparr>memoryP = Some [0], mem_size = 0\<rparr>, empty_headers) en4 =
      Some (ok5, (rsp1, chunk, hdrs), en5)"
    and r: "hand_over (Some l) (ok5, (rsp1, chunk, hdrs), en5) = Some (ret, (l1, r1, Some c), en1)"
    using assms(1) m 3 4 by (fastforce simp: httpCommunicate_def Let_def bind_eq_Some_conv split: option.splits if_splits)
  have "all_memory en4" using assms(2) s by (simp add: all_memory_def surroundings_def)
  from perform_attempts_text [of MAX_ATTEMPTS verb url d0 rsp0 "[]", simplified, OF p this]
  have "chunk = \<lparr>memoryP = Some (bodies (en_transfers en4) (en_attempts en4) (en_attempts en5) @ [0]),
      mem_size = length (bodies (en_transfers en4) (en_attempts en4) (en_attempts en5))\<rparr>" by simp
  moreover have "en_transfers en4 = en_transfers en" "en_attempts en4 = en_attempts en" using s by (simp_all add: surroundings_def)
  ultimately show ?thesis using r
    by (auto simp: hand_over_def bind_eq_Some_conv Let_def new_block_def split: if_splits)
qed

definition broken_then_good :: "nat \<Rightarrow> transfer" where
  "broken_then_good n = (if n = 0 then quiet_transfer\<lparr>tr_body := [[1, 2]], tr_ok := False\<rparr> else quiet_transfer\<lparr>tr_body := [[3]]\<rparr>)"

lemma command_collects_attempts_witness:
  "\<exists>ret l1 r1 c en1. httpCommunicate None (Some 0, None, None) httpMethod_GET (quiet_engine broken_then_good) =
     Some (ret, (l1, r1, Some c), en1) \<and>
   en_mem en1 c = Some (bodies (en_transfers (quiet_engine broken_then_good)) (en_attempts (quiet_engine broken_then_good))
     (en_attempts en1) @ [0])"
proof -
  have "map_option (\<lambda>(ret, (l1, r1, c), en1). (ret, c)) (httpCommunicate None (Some 0, None, None) httpMethod_GET
      (quiet_engine broken_then_good)) = Some (ROOTPA_OK, Some 2)" by code_simp
  then obtain l1 r1 en1 where r: "httpCommunicate None (Some 0, None, None) httpMethod_GET (quiet_engine broken_then_good) =
      Some (ROOTPA_OK, (l1, r1, Some 2), en1)" by auto
  from command_collects_attempts [OF r quiet_engine_memory] r show ?thesis by blast
qed

end
