(* ===== verification/ProvisioningFacts.thy ===== *)
theory ProvisioningFacts
  imports Provisioning SeClientRun "HOL-Library.Multiset"
begin

text \<open>
  Properties of the provisioning engine. The invariant of the loop is about ownership: the pointers
  it holds are valid and pairwise different, so that each block is freed once. With a service
  enabler that some time stops sending relations the loop ends, and it ends with a report to the
  client.
\<close>

subsection \<open>Freeing several blocks\<close>

fun free_all :: "ptr list \<Rightarrow> engine \<Rightarrow> engine option" where
  "free_all [] en = Some en"
| "free_all (p # ps) en = Option.bind (en_free p en) (free_all ps)"

lemma free_all_fun: "free_all [] = Some" "free_all (p # ps) = (\<lambda>en. Option.bind (en_free p en) (free_all ps))"
  by (simp_all add: fun_eq_iff)

definition without :: "ptr list \<Rightarrow> engine \<Rightarrow> engine" where
  "without ps en = en\<lparr>en_mem := (\<lambda>i. if Some i \<in> set ps then None else en_mem en i)\<rparr>"

lemma distinct_ptrs_append:
  "distinct_ptrs (ps @ qs) \<longleftrightarrow> distinct_ptrs ps \<and> distinct_ptrs qs \<and> (\<forall>i. Some i \<in> set ps \<longrightarrow> Some i \<notin> set qs)"
proof -
  have "set (filter (\<lambda>p. p \<noteq> None) ps) \<inter> set (filter (\<lambda>p. p \<noteq> None) qs) = {} \<longleftrightarrow> (\<forall>i. Some i \<in> set ps \<longrightarrow> Some i \<notin> set qs)"
    by (simp add: disjoint_iff) metis
  then show ?thesis unfolding distinct_ptrs_def filter_append distinct_append by blast
qed

lemma distinct_ptrs_Cons:
  "distinct_ptrs (p # ps) \<longleftrightarrow> distinct_ptrs ps \<and> (p = None \<or> p \<notin> set ps)"
  by (auto simp: distinct_ptrs_def)

lemma distinct_ptrs_Nones: "distinct_ptrs (ps @ [None, None, None, p]) = distinct_ptrs (ps @ [p])"
  by (simp add: distinct_ptrs_def)

lemma distinct_ptrs_Nil [simp]: "distinct_ptrs []"
  by (simp add: distinct_ptrs_def)

lemma free_all_ok:
  assumes "distinct_ptrs ps" "\<forall>i. Some i \<in> set ps \<longrightarrow> en_mem en i \<noteq> None"
  shows "free_all ps en = Some (without ps en)"
  using assms
proof (induction ps arbitrary: en)
  case Nil
  then show ?case by (simp add: without_def)
next
  case (Cons p ps)
  show ?case
  proof (cases p)
    case None
    then have "free_all ps en = Some (without ps en)" using Cons by (simp add: distinct_ptrs_Cons)
    then show ?thesis using None by (simp add: en_free_def without_def)
  next
    case (Some i)
    let ?en = "en\<lparr>en_mem := (en_mem en)(i := None)\<rparr>"
    have "free_all ps ?en = Some (without ps ?en)" using Cons Some by (auto simp: distinct_ptrs_Cons)
    moreover have "en_free p en = Some ?en" using Cons.prems(2) Some by (simp add: en_free_def)
    moreover have "without ps ?en = without (p # ps) en" using Some by (auto simp: without_def fun_eq_iff)
    ultimately show ?thesis by simp
  qed
qed

lemma free_all_append: "free_all (ps @ qs) en = Option.bind (free_all ps en) (free_all qs)"
proof (induction ps arbitrary: en)
  case (Cons p ps)
  then show ?case by (cases "en_free p en") simp_all
qed simp

definition heap_rel :: "ptr \<Rightarrow> ptr" where
  "heap_rel rel = (if rel \<noteq> RELATION_INITIAL_POST \<and> rel \<noteq> RELATION_INITIAL_DELETE then rel else None)"

lemma cleanup_free_all: "cleanup link rel command en = free_all [command, heap_rel rel, link] en"
  by (simp add: cleanup_def heap_rel_def free_all_fun en_free_def [of None] del: free_all.simps)

definition os_ptrs :: "osInfo_t \<Rightarrow> ptr list" where
  "os_ptrs os = [imeiEsnP os, mnoP os, brandP os, manufacturerP os, hardwareP os, modelP os, versionP os]"

lemma free_osInfo_free_all: "free_osInfo os en = free_all (os_ptrs os) en"
  by (simp add: free_osInfo_def os_ptrs_def free_all_fun del: free_all.simps)

lemma without_simps [simp]:
  "en_transfers (without ps en) = en_transfers en" "en_attempts (without ps en) = en_attempts en"
  "en_next (without ps en) = en_next en" "events (without ps en) = events en" "en_wf en \<Longrightarrow> en_wf (without ps en)"
  by (simp_all add: without_def events_def en_wf_def)

lemma without_mem: "en_mem (without ps en) i = (if Some i \<in> set ps then None else en_mem en i)"
  by (simp add: without_def)

subsection \<open>Valid pointers\<close>

text \<open>The memory in front of a run: blocks below a bound, among them the constants of the code. A run
  leaves them alone, and all its own pointers are not below.\<close>

type_synonym before = "nat \<times> (nat \<Rightarrow> bytes option)"

definition static_ok :: "before \<Rightarrow> engine \<Rightarrow> bool" where
  "static_ok F en \<longleftrightarrow> 2 \<le> fst F \<and> fst F \<le> en_next en \<and> (\<forall>i<fst F. en_mem en i = snd F i) \<and>
     snd F 0 = Some (INITIAL_POST_text @ [0]) \<and> snd F 1 = Some (INITIAL_DELETE_text @ [0])"

lemma static_consts: "static_ok F en \<Longrightarrow> en_mem en 0 = Some (INITIAL_POST_text @ [0]) \<and> en_mem en 1 = Some (INITIAL_DELETE_text @ [0])"
  unfolding static_ok_def by (metis less_le_trans one_less_numeral_iff semiring_norm(76) zero_less_numeral)

definition valid_link :: "before \<Rightarrow> engine \<Rightarrow> ptr \<Rightarrow> bool" where
  "valid_link F en p \<longleftrightarrow> (\<forall>i. p = Some i \<longrightarrow> fst F \<le> i \<and> (\<exists>b. en_mem en i = Some b \<and> 0 \<in> set b))"

definition valid_rel :: "before \<Rightarrow> engine \<Rightarrow> ptr \<Rightarrow> bool" where
  "valid_rel F en p \<longleftrightarrow> (\<forall>i. p = Some i \<longrightarrow> (heap_rel p = p \<longrightarrow> fst F \<le> i) \<and>
     (\<exists>d. en_mem en i = Some (d @ [0]) \<and> \<not> sublist RELATION_SELF d))"

definition valid_command :: "before \<Rightarrow> engine \<Rightarrow> ptr \<Rightarrow> bool" where
  "valid_command F en p \<longleftrightarrow> (\<forall>i. p = Some i \<longrightarrow> fst F \<le> i \<and> en_mem en i \<noteq> None)"

lemmas valid_defs = valid_link_def valid_rel_def valid_command_def

lemma valid_None [simp]: "valid_link F en None" "valid_rel F en None" "valid_command F en None"
  by (simp_all add: valid_defs)

text \<open>Validity depends on the memory the pointer points to.\<close>

lemma valid_mono:
  assumes "\<forall>i. p = Some i \<longrightarrow> en_mem en i \<noteq> None \<longrightarrow> en_mem en1 i = en_mem en i"
  shows "valid_link F en p \<Longrightarrow> valid_link F en1 p" "valid_rel F en p \<Longrightarrow> valid_rel F en1 p" "valid_command F en p \<Longrightarrow> valid_command F en1 p"
  using assms by (auto simp: valid_defs)

lemma valid_extends:
  assumes "en_wf en" "extends en en1"
  shows "valid_link F en p \<Longrightarrow> valid_link F en1 p" "valid_rel F en p \<Longrightarrow> valid_rel F en1 p" "valid_command F en p \<Longrightarrow> valid_command F en1 p"
proof -
  have same: "\<forall>i. p = Some i \<longrightarrow> en_mem en i \<noteq> None \<longrightarrow> en_mem en1 i = en_mem en i"
    using assms unfolding extends_def en_wf_def by blast
  show "valid_link F en p \<Longrightarrow> valid_link F en1 p" by (rule valid_mono(1) [OF same])
  show "valid_rel F en p \<Longrightarrow> valid_rel F en1 p" by (rule valid_mono(2) [OF same])
  show "valid_command F en p \<Longrightarrow> valid_command F en1 p" by (rule valid_mono(3) [OF same])
qed

lemma static_extends: "static_ok F en \<Longrightarrow> extends en en1 \<Longrightarrow> static_ok F en1"
  by (auto simp: static_ok_def extends_def)

lemma sublist_self_consts: "\<not> sublist RELATION_SELF INITIAL_POST_text" "\<not> sublist RELATION_SELF INITIAL_DELETE_text"
proof -
  have "0x2F \<in> set RELATION_SELF" "0x2F \<notin> set INITIAL_POST_text" "0x2F \<notin> set INITIAL_DELETE_text"
    by (simp_all add: RELATION_SELF_def INITIAL_POST_text_def INITIAL_DELETE_text_def ascii_def)
  then show "\<not> sublist RELATION_SELF INITIAL_POST_text" "\<not> sublist RELATION_SELF INITIAL_DELETE_text"
    using set_mono_sublist by blast+
qed

lemma valid_consts: "static_ok F en \<Longrightarrow> valid_rel F en RELATION_INITIAL_POST" "static_ok F en \<Longrightarrow> valid_rel F en RELATION_INITIAL_DELETE"
  using sublist_self_consts static_consts [of F en]
  by (auto simp: valid_rel_def heap_rel_def RELATION_INITIAL_POST_def RELATION_INITIAL_DELETE_def)

text \<open>A string answers every comparison.\<close>

lemma rel_is_ok:
  assumes "valid_rel F en (Some i)" "needle \<noteq> []" "0 \<notin> set needle"
  shows "rel_is needle (Some i) en \<noteq> None"
proof -
  obtain d where d: "en_mem en i = Some (d @ [0])" using assms by (auto simp: valid_rel_def)
  have nz: "\<forall>c\<in>set needle. c \<noteq> 0" using assms(3) by metis
  show ?thesis
    by (rule str_find_string [of needle "\<lambda>c. c" d "[]", OF nz assms(2)])
      (use d in \<open>simp_all add: rel_is_def deref_def strstr_def\<close>)
qed

lemma rel_is_self:
  assumes "valid_rel F en (Some i)" shows "rel_is RELATION_SELF (Some i) en = Some False"
proof -
  obtain d where d: "en_mem en i = Some (d @ [0])" "\<not> sublist RELATION_SELF d" using assms by (auto simp: valid_rel_def)
  have "strstr (d @ [0]) RELATION_SELF = Some None"
    by (rule strstr_absent [OF d(2)]) (simp_all add: RELATION_SELF_def ascii_def)
  with d show ?thesis by (simp add: rel_is_def deref_def)
qed

subsection \<open>The invariant\<close>

definition base_ok :: "before \<Rightarrow> nat \<Rightarrow> provisioning \<Rightarrow> bool" where
  "base_ok F B s \<longleftrightarrow> en_wf (pv_engine s) \<and> static_ok F (pv_engine s) \<and>
     (\<forall>i. polite RELATION_SELF B (en_transfers (pv_engine s) i)) \<and>
     valid_link F (pv_engine s) (pendingLink s) \<and>
     pendingRel s \<in> {None, RELATION_INITIAL_POST, RELATION_INITIAL_DELETE}"

text \<open>The used pointers are valid and different; the current ones are new, or some of the used ones.\<close>

definition used_ok :: "before \<Rightarrow> provisioning \<Rightarrow> bool" where
  "used_ok F s \<longleftrightarrow> valid_link F (pv_engine s) (usedLink s) \<and> valid_rel F (pv_engine s) (usedRel s) \<and>
     valid_command F (pv_engine s) (usedCommand s) \<and>
     distinct_ptrs [usedLink s, heap_rel (usedRel s), usedCommand s, pendingLink s]"

definition new_ok :: "before \<Rightarrow> provisioning \<Rightarrow> bool" where
  "new_ok F s \<longleftrightarrow> valid_link F (pv_engine s) (pv_link s) \<and> valid_rel F (pv_engine s) (pv_rel s) \<and>
     valid_command F (pv_engine s) (pv_command s) \<and>
     distinct_ptrs ([pv_link s, heap_rel (pv_rel s), pv_command s] @ [usedLink s, heap_rel (usedRel s), usedCommand s, pendingLink s])"

definition kept :: "provisioning \<Rightarrow> bool" where
  "kept s \<longleftrightarrow> pv_link s \<in> {None, usedLink s} \<and> pv_rel s \<in> {None, usedRel s} \<and> pv_command s \<in> {None, usedCommand s}"

definition mid_ok :: "before \<Rightarrow> nat \<Rightarrow> provisioning \<Rightarrow> bool" where
  "mid_ok F B s \<longleftrightarrow> base_ok F B s \<and> used_ok F s \<and> (new_ok F s \<or> \<not> workToDo s \<and> kept s)"

definition prov_inv :: "before \<Rightarrow> nat \<Rightarrow> provisioning \<Rightarrow> bool" where
  "prov_inv F B s \<longleftrightarrow> base_ok F B s \<and> new_ok F s \<and> usedLink s = None \<and> usedRel s = None \<and> usedCommand s = None \<and>
     (\<forall>d. pv_response s = Some d \<longrightarrow> length d \<le> B)"

lemma heap_rel_None [simp]: "heap_rel None = None"
  by (simp add: heap_rel_def)

text \<open>Freeing valid pointers that differ from others.\<close>

lemma cleanup_ok:
  assumes "valid_link F en l" "valid_rel F en r" "valid_command F en c" "distinct_ptrs [l, heap_rel r, c]"
  shows "cleanup l r c en = Some (without [c, heap_rel r, l] en)"
proof -
  have "distinct_ptrs [c, heap_rel r, l]" using assms(4) by (auto simp: distinct_ptrs_Cons)
  moreover have "\<forall>i. Some i \<in> set [c, heap_rel r, l] \<longrightarrow> en_mem en i \<noteq> None"
    using assms(1-3) by (auto simp: valid_defs heap_rel_def)
  ultimately show ?thesis unfolding cleanup_free_all by (rule free_all_ok)
qed

lemma valid_without:
  assumes "\<forall>q\<in>set ps. p = None \<or> p \<noteq> q"
  shows "valid_link F en p \<Longrightarrow> valid_link F (without ps en) p" "valid_rel F en p \<Longrightarrow> valid_rel F (without ps en) p"
    "valid_command F en p \<Longrightarrow> valid_command F (without ps en) p"
proof -
  have same: "\<forall>i. p = Some i \<longrightarrow> en_mem en i \<noteq> None \<longrightarrow> en_mem (without ps en) i = en_mem en i"
    using assms by (auto simp: without_mem)
  show "valid_link F en p \<Longrightarrow> valid_link F (without ps en) p" by (rule valid_mono(1) [OF same])
  show "valid_rel F en p \<Longrightarrow> valid_rel F (without ps en) p" by (rule valid_mono(2) [OF same])
  show "valid_command F en p \<Longrightarrow> valid_command F (without ps en) p" by (rule valid_mono(3) [OF same])
qed

text \<open>A pointer freed in a clean up is no constant.\<close>

lemma freed_not_static:
  assumes "valid_link F en l" "valid_rel F en r" "valid_command F en c" "Some i \<in> set [c, heap_rel r, l]"
  shows "fst F \<le> i"
proof -
  have "fst F \<le> i" if "Some i = heap_rel r"
    using that assms(2) by (auto simp: valid_rel_def heap_rel_def split: if_splits)
  with assms show ?thesis by (auto simp: valid_defs)
qed

lemma static_without:
  assumes "static_ok F en" "valid_link F en l" "valid_rel F en r" "valid_command F en c"
  shows "static_ok F (without [c, heap_rel r, l] en)"
proof -
  have "Some i \<notin> set [c, heap_rel r, l]" if "i < fst F" for i
    using freed_not_static [OF assms(2-4)] that by (meson leD)
  then show ?thesis using assms(1) by (simp add: static_ok_def without_mem)
qed

lemma const_rel_valid:
  "static_ok F en \<Longrightarrow> p \<in> {None, RELATION_INITIAL_POST, RELATION_INITIAL_DELETE} \<Longrightarrow> valid_rel F en p \<and> heap_rel p = None"
  using valid_consts by (auto simp: heap_rel_def)

lemma heap_rel_const: "heap_rel r = None \<Longrightarrow> r \<in> {None, RELATION_INITIAL_POST, RELATION_INITIAL_DELETE}"
  by (auto simp: heap_rel_def split: if_splits)

text \<open>A relation outlives the freeing of other blocks, a constant one in any case.\<close>

lemma valid_rel_without:
  assumes "valid_rel F en r" "heap_rel r = None \<or> heap_rel r \<notin> set ps" "static_ok F (without ps en)"
  shows "valid_rel F (without ps en) r"
proof (cases "heap_rel r = None")
  case True
  then show ?thesis using heap_rel_const const_rel_valid assms(3) by blast
next
  case False
  then have "heap_rel r = r" by (auto simp: heap_rel_def)
  with False assms show ?thesis by (intro valid_without) auto
qed

lemma drop_used_ok:
  assumes "base_ok F B s" "used_ok F s" "new_ok F s"
  obtains s1 where "drop_used s = Some s1" "base_ok F B s1" "new_ok F s1" "usedLink s1 = None" "usedRel s1 = None" "usedCommand s1 = None"
    "pv_links s1 = pv_links s" "events (pv_engine s1) = events (pv_engine s)" "en_attempts (pv_engine s1) = en_attempts (pv_engine s)"
    "en_transfers (pv_engine s1) = en_transfers (pv_engine s)" "pendingLink s1 = pendingLink s" "pendingRel s1 = pendingRel s"
    "workToDo s1 = workToDo s"
proof -
  let ?ps = "[usedCommand s, heap_rel (usedRel s), usedLink s]"
  let ?s = "s\<lparr>pv_engine := without ?ps (pv_engine s), usedLink := None, usedRel := None, usedCommand := None\<rparr>"
  have d: "distinct_ptrs [usedLink s, heap_rel (usedRel s), usedCommand s]" using assms(2) by (auto simp: used_ok_def distinct_ptrs_Cons)
  have run: "drop_used s = Some ?s"
    using cleanup_ok [of F, OF _ _ _ d] assms(2) by (simp add: drop_used_def used_ok_def)
  have st: "static_ok F (without ?ps (pv_engine s))"
    using static_without [of F] assms(1,2) by (simp add: base_ok_def used_ok_def)
  have a: "distinct_ptrs [pv_link s, heap_rel (pv_rel s), pv_command s]"
    "\<forall>i. Some i \<in> set [pv_link s, heap_rel (pv_rel s), pv_command s] \<longrightarrow>
       Some i \<notin> set [usedLink s, heap_rel (usedRel s), usedCommand s, pendingLink s]"
    using assms(3) unfolding new_ok_def distinct_ptrs_append by blast+
  have b: "\<forall>i. Some i \<in> set [usedLink s, heap_rel (usedRel s), usedCommand s] \<longrightarrow> Some i \<notin> set [pendingLink s]"
    using assms(2) distinct_ptrs_append [of "[usedLink s, heap_rel (usedRel s), usedCommand s]" "[pendingLink s]"]
    by (simp add: used_ok_def)
  have sub: "set [pendingLink s] \<subseteq> set [usedLink s, heap_rel (usedRel s), usedCommand s, pendingLink s]"
    "set [usedLink s, heap_rel (usedRel s), usedCommand s] \<subseteq> set [usedLink s, heap_rel (usedRel s), usedCommand s, pendingLink s]"
    "set [pv_link s, heap_rel (pv_rel s), pv_command s, pendingLink s] = set [pv_link s, heap_rel (pv_rel s), pv_command s] \<union> set [pendingLink s]"
    by auto
  have "distinct_ptrs ([pv_link s, heap_rel (pv_rel s), pv_command s] @ [pendingLink s])"
    unfolding distinct_ptrs_append
  proof (intro conjI allI impI)
    show "distinct_ptrs [pendingLink s]" by (simp add: distinct_ptrs_Cons)
  qed (use a sub(1) in blast)+
  then have dj1: "distinct_ptrs [pv_link s, heap_rel (pv_rel s), pv_command s, pendingLink s]" by simp
  have dj: "Some i \<in> set [usedLink s, heap_rel (usedRel s), usedCommand s] \<Longrightarrow>
       Some i \<notin> set [pv_link s, heap_rel (pv_rel s), pv_command s, pendingLink s]" for i
    using a(2) b sub(2) unfolding sub(3) by blast
  have n: "\<forall>q\<in>set ?ps. p = None \<or> p \<noteq> q" if "p \<in> {pv_link s, pv_command s, pendingLink s, heap_rel (pv_rel s)}" for p
  proof (cases p)
    case (Some i)
    then have "Some i \<in> set [pv_link s, heap_rel (pv_rel s), pv_command s, pendingLink s]" using that by auto
    then have "Some i \<notin> set ?ps" using dj [of i] by auto
    with Some show ?thesis by blast
  qed simp
  have "base_ok F B ?s" using assms(1) st valid_without(1) [OF n] by (simp add: base_ok_def)
  moreover have "new_ok F ?s"
  proof -
    have v: "valid_link F (pv_engine s) (pv_link s)" "valid_rel F (pv_engine s) (pv_rel s)" "valid_command F (pv_engine s) (pv_command s)"
      using assms(3) unfolding new_ok_def by blast+
    have "heap_rel (pv_rel s) = None \<or> heap_rel (pv_rel s) \<notin> set ?ps" using n [of "heap_rel (pv_rel s)"] by blast
    note valid_rel_without [OF v(2) this st]
    moreover have "distinct_ptrs ([pv_link s, heap_rel (pv_rel s), pv_command s] @ [None, heap_rel None, None, pendingLink s])"
      using dj1 distinct_ptrs_Nones [of "[pv_link s, heap_rel (pv_rel s), pv_command s]"] by simp
    ultimately show ?thesis using valid_without(1) [OF n v(1)] valid_without(3) [OF n v(3)] by (simp add: new_ok_def)
  qed
  ultimately show thesis using run that by (simp add: pv_links_def)
qed

text \<open>Every used pointer is either current too, or kept for the second clean up.\<close>

lemma distinct_ptrs_split:
  assumes "distinct_ptrs [ul, ur, uc, pl]" "l = None \<and> l' = ul \<or> l = ul \<and> l' = None"
    "r = None \<and> r' = ur \<or> r = ur \<and> r' = None" "c = None \<and> c' = uc \<or> c = uc \<and> c' = None"
  shows "distinct_ptrs [l, r, c, l', r', c', pl]"
proof -
  have "filter (\<lambda>p. p \<noteq> None) [l, l', r, r', c, c', pl] = filter (\<lambda>p. p \<noteq> None) [ul, ur, uc, pl]"
    using assms(2-4) by (elim disjE conjE) simp_all
  moreover have "mset (filter (\<lambda>p. p \<noteq> None) [l, r, c, l', r', c', pl]) = mset (filter (\<lambda>p. p \<noteq> None) [l, l', r, r', c, c', pl])"
    by simp
  ultimately show ?thesis using assms(1) mset_eq_imp_distinct_iff unfolding distinct_ptrs_def by metis
qed

lemma distinct_ptrs_drop:
  assumes "list_all2 (\<lambda>p q. q = None \<or> q = p) ps qs" "distinct_ptrs ps"
  shows "distinct_ptrs qs"
  using assms
proof (induction ps qs rule: list_all2_induct)
  case (Cons p ps q qs)
  have "set qs \<subseteq> insert None (set ps)" using Cons.hyps(2) by (induction rule: list_all2_induct) auto
  then show ?case using Cons by (auto simp: distinct_ptrs_Cons)
qed simp

lemma last_cleaning_ok:
  assumes "base_ok F B s" "used_ok F s" "new_ok F s \<or> kept s"
  obtains s1 where "last_cleaning s = Some s1" "base_ok F B s1" "used_ok F s1" "new_ok F s1" "pv_links s1 = (None, None, None)"
    "events (pv_engine s1) = events (pv_engine s)" "workToDo s1 = workToDo s"
proof -
  define ul where "ul = (if pv_link s = usedLink s then None else usedLink s)"
  define ur where "ur = (if pv_rel s = usedRel s then None else usedRel s)"
  define uc where "uc = (if pv_command s = usedCommand s then None else usedCommand s)"
  let ?ps = "[pv_command s, heap_rel (pv_rel s), pv_link s]"
  let ?s = "set_links (None, None, None) (s\<lparr>usedLink := ul, usedRel := ur, usedCommand := uc,
      pv_engine := without ?ps (pv_engine s)\<rparr>)"
  have v: "valid_link F (pv_engine s) (pv_link s)" "valid_rel F (pv_engine s) (pv_rel s)" "valid_command F (pv_engine s) (pv_command s)"
    using assms(2,3) by (auto simp: used_ok_def new_ok_def kept_def)
  have d: "distinct_ptrs ([pv_link s, heap_rel (pv_rel s), pv_command s] @ [ul, heap_rel ur, uc, pendingLink s])"
    using assms(3)
  proof
    assume "new_ok F s"
    then show ?thesis unfolding new_ok_def
      by (elim conjE) (rule distinct_ptrs_drop [rotated], assumption, simp add: ul_def ur_def uc_def)
  next
    assume "kept s"
    then have "pv_link s = None \<and> ul = usedLink s \<or> pv_link s = usedLink s \<and> ul = None"
      "heap_rel (pv_rel s) = None \<and> heap_rel ur = heap_rel (usedRel s) \<or> heap_rel (pv_rel s) = heap_rel (usedRel s) \<and> heap_rel ur = None"
      "pv_command s = None \<and> uc = usedCommand s \<or> pv_command s = usedCommand s \<and> uc = None"
      by (auto simp: kept_def ul_def ur_def uc_def)
    moreover have "distinct_ptrs [usedLink s, heap_rel (usedRel s), usedCommand s, pendingLink s]"
      using assms(2) by (simp add: used_ok_def)
    ultimately show ?thesis using distinct_ptrs_split by simp
  qed
  have d3: "distinct_ptrs [pv_link s, heap_rel (pv_rel s), pv_command s]" using d unfolding distinct_ptrs_append by blast
  have run: "last_cleaning s = Some ?s"
    using cleanup_ok [OF v d3] by (simp add: last_cleaning_def Let_def ul_def ur_def uc_def)
  have st: "static_ok F (without ?ps (pv_engine s))"
    using static_without assms(1) v by (simp add: base_ok_def)
  have dj: "distinct_ptrs [ul, heap_rel ur, uc, pendingLink s]"
    "\<forall>i. Some i \<in> set [pv_link s, heap_rel (pv_rel s), pv_command s] \<longrightarrow> Some i \<notin> set [ul, heap_rel ur, uc, pendingLink s]"
    using d unfolding distinct_ptrs_append by blast+
  have n: "\<forall>q\<in>set ?ps. p = None \<or> p \<noteq> q" if "p \<in> {ul, uc, pendingLink s, heap_rel ur}" for p
    using dj(2) that by (cases p) auto
  have u: "valid_link F (pv_engine s) ul" "valid_rel F (pv_engine s) ur" "valid_command F (pv_engine s) uc"
    using assms(2) by (simp_all add: used_ok_def ul_def ur_def uc_def)
  have "base_ok F B ?s" using assms(1) st valid_without(1) [OF n] by (simp add: base_ok_def set_links_def)
  moreover have "used_ok F ?s"
    using u dj(1) valid_without(1,3) [OF n] valid_rel_without [OF u(2) _ st] n [of "heap_rel ur"]
    by (auto simp: used_ok_def set_links_def)
  moreover have "new_ok F ?s" using dj(1) by (simp add: new_ok_def set_links_def distinct_ptrs_Cons)
  ultimately show thesis using run that by (simp add: pv_links_def set_links_def)
qed

lemma finish_round_ok:
  assumes "mid_ok F B s"
  obtains s1 where "finish_round s = Some s1" "events (pv_engine s1) = events (pv_engine s)" "workToDo s1 = workToDo s"
    "workToDo s \<Longrightarrow> prov_inv F B s1 \<and> pv_rel s1 = pv_rel s \<and> en_attempts (pv_engine s1) = en_attempts (pv_engine s) \<and>
       en_transfers (pv_engine s1) = en_transfers (pv_engine s) \<and> pendingLink s1 = pendingLink s \<and> pendingRel s1 = pendingRel s"
    "\<not> workToDo s \<Longrightarrow> pv_link s1 = None" "static_ok F (pv_engine s1)"
proof (cases "workToDo s")
  case True
  then have m: "base_ok F B s" "used_ok F s" "new_ok F s" using assms by (auto simp: mid_ok_def)
  have self: "(if pv_rel s = None then Some False else rel_is RELATION_SELF (pv_rel s) (pv_engine s)) = Some False"
    using m(3) rel_is_self [of F] by (auto simp: new_ok_def)
  obtain s1 where 1: "drop_used s = Some s1" "base_ok F B s1" "new_ok F s1" "usedLink s1 = None" "usedRel s1 = None" "usedCommand s1 = None"
    "pv_links s1 = pv_links s" "events (pv_engine s1) = events (pv_engine s)" "en_attempts (pv_engine s1) = en_attempts (pv_engine s)"
    "en_transfers (pv_engine s1) = en_transfers (pv_engine s)" "pendingLink s1 = pendingLink s" "pendingRel s1 = pendingRel s"
    "workToDo s1 = workToDo s" by (rule drop_used_ok [OF m])
  show thesis
    by (rule that [of "s1\<lparr>pv_response := None\<rparr>"])
      (use True self 1 in \<open>simp_all add: finish_round_def prov_inv_def base_ok_def new_ok_def pv_links_def\<close>)
next
  case False
  have m: "base_ok F B s" "used_ok F s" "new_ok F s \<or> kept s" using assms by (auto simp: mid_ok_def)
  obtain s0 where 0: "last_cleaning s = Some s0" "base_ok F B s0" "used_ok F s0" "new_ok F s0" "pv_links s0 = (None, None, None)"
    "events (pv_engine s0) = events (pv_engine s)" "workToDo s0 = workToDo s"
    by (rule last_cleaning_ok [OF m])
  obtain s1 where "drop_used s0 = Some s1" "pv_links s1 = pv_links s0" "base_ok F B s1" "events (pv_engine s1) = events (pv_engine s0)"
    "workToDo s1 = workToDo s0" using drop_used_ok [OF 0(2-4)] by metis
  then show thesis using False 0 by (intro that [of "s1\<lparr>pv_response := None\<rparr>"]) (simp_all add: finish_round_def pv_links_def base_ok_def)
qed

subsection \<open>Requests keep the invariant\<close>

text \<open>Fields the predicates do not look at.\<close>

lemma report_simps [simp]:
  "en_wf (report st e en) = en_wf en" "static_ok F (report st e en) = static_ok F en" "en_transfers (report st e en) = en_transfers en"
  "valid_link F (report st e en) p = valid_link F en p" "valid_rel F (report st e en) p = valid_rel F en p"
  "valid_command F (report st e en) p = valid_command F en p" "en_attempts (report st e en) = en_attempts en"
  "events (report st e en) = events en @ [(st, e)]" "en_next (report st e en) = en_next en" "en_mem (report st e en) = en_mem en"
  by (simp_all add: report_def en_wf_def static_ok_def valid_defs events_def)

lemma pv_report_simps [simp]:
  "pv_engine (pv_report st e s) = report st e (pv_engine s)" "pv_link (pv_report st e s) = pv_link s" "pv_rel (pv_report st e s) = pv_rel s"
  "pv_command (pv_report st e s) = pv_command s" "usedLink (pv_report st e s) = usedLink s" "usedRel (pv_report st e s) = usedRel s"
  "usedCommand (pv_report st e s) = usedCommand s" "pendingLink (pv_report st e s) = pendingLink s" "pendingRel (pv_report st e s) = pendingRel s"
  "workToDo (pv_report st e s) = workToDo s" "pv_response (pv_report st e s) = pv_response s"
  by (simp_all add: pv_report_def)

lemma same_pointers:
  assumes "pv_engine s1 = report st e (pv_engine s) \<or> pv_engine s1 = pv_engine s" "pv_links s1 = pv_links s"
    "(usedLink s1, usedRel s1, usedCommand s1) = (usedLink s, usedRel s, usedCommand s)"
    "(pendingLink s1, pendingRel s1) = (pendingLink s, pendingRel s)"
  shows "base_ok F B s1 = base_ok F B s" "used_ok F s1 = used_ok F s" "new_ok F s1 = new_ok F s" "kept s1 = kept s"
  using assms by (auto simp: base_ok_def used_ok_def new_ok_def kept_def pv_links_def)

text \<open>The environment answered, or the environment has no relation to give any more.\<close>

definition moved :: "engine \<Rightarrow> provisioning \<Rightarrow> bool" where
  "moved en s \<longleftrightarrow> pv_rel s = None \<or> en_attempts en < en_attempts (pv_engine s) \<and>
     \<not> (\<forall>i\<ge>en_attempts en. tr_headers (en_transfers en i) = [])"

definition failure :: "u32 \<Rightarrow> bool" where
  "failure ret \<longleftrightarrow> ret \<in> {ROOTPA_ERROR_OUT_OF_MEMORY, ROOTPA_ERROR_NETWORK, ROOTPA_ERROR_ILLEGAL_ARGUMENT}"

lemma base_extends:
  assumes "base_ok F B s" "used_ok F s" "extends (pv_engine s) en"
  shows "base_ok F B (s\<lparr>pv_engine := en\<rparr>)" "used_ok F (s\<lparr>pv_engine := en\<rparr>)"
proof -
  have wf: "en_wf (pv_engine s)" using assms(1) by (simp add: base_ok_def)
  note v = valid_extends [OF wf assms(3)]
  show "base_ok F B (s\<lparr>pv_engine := en\<rparr>)"
    using assms(1) v static_extends [OF _ assms(3)] extends_wf [OF assms(3)] extends_transfers [OF assms(3)]
    by (simp add: base_ok_def)
  show "used_ok F (s\<lparr>pv_engine := en\<rparr>)" using assms(2) v by (simp add: used_ok_def)
qed

lemma new_from_reply:
  assumes wf: "en_wf en" "static_ok F en" "extends en en1"
    and old: "valid_link F en ul" "valid_rel F en ur" "valid_command F en uc" "valid_link F en pl" "distinct_ptrs [ul, heap_rel ur, uc, pl]"
    and new: "owned en en1 (\<lambda>_. True) l" "owned en en1 (\<lambda>d. \<not> sublist RELATION_SELF d) r" "fresh en en1 c" "distinct_ptrs [l, r, c]"
  shows "valid_link F en1 l" "valid_rel F en1 r" "valid_command F en1 c"
    "distinct_ptrs ([l, heap_rel r, c] @ [ul, heap_rel ur, uc, pl])"
proof -
  have two: "2 \<le> fst F" "fst F \<le> en_next en" using wf(2) by (simp_all add: static_ok_def)
  have above: "p = Some i \<longrightarrow> en_next en \<le> i \<Longrightarrow> p = Some i \<longrightarrow> fst F \<le> i" for p i
    using two(2) by auto
  show "valid_link F en1 l" "valid_rel F en1 r" "valid_command F en1 c"
    using new above by (fastforce simp: valid_defs owned_def fresh_def)+
  have "heap_rel r = r"
    using new(2) two by (auto simp: heap_rel_def owned_def RELATION_INITIAL_POST_def RELATION_INITIAL_DELETE_def)
  then have n: "distinct_ptrs [l, heap_rel r, c]" "Some i \<in> set [l, heap_rel r, c] \<Longrightarrow> en_next en \<le> i" for i
    using new by (auto simp: owned_def fresh_def)
  have o: "i < en_next en" if "Some i \<in> set [ul, heap_rel ur, uc, pl]" for i
  proof -
    have "en_mem en i \<noteq> None" using old(1-4) that by (auto simp: valid_defs heap_rel_def split: if_splits)
    then show ?thesis using wf(1) by (simp add: en_wf_def)
  qed
  show "distinct_ptrs ([l, heap_rel r, c] @ [ul, heap_rel ur, uc, pl])"
    unfolding distinct_ptrs_append using n(1) old(5) n(2) o by (meson leD)
qed

lemma http_ok:
  assumes base: "base_ok F B s" and used: "used_ok F s" and cur: "pv_links s = (usedLink s, usedRel s, usedCommand s)"
    and B: "B < 2 ^ 32" and inp: "\<forall>d. inputP = Some d \<longrightarrow> length d \<le> B"
  obtains ret ls en1 where "httpCommunicate inputP (pv_links s) verb (pv_engine s) = Some (ret, ls, en1)"
    "extends (pv_engine s) en1" "base_ok F B (set_links ls (s\<lparr>pv_engine := en1\<rparr>))" "used_ok F (set_links ls (s\<lparr>pv_engine := en1\<rparr>))"
    "failure ret \<and> kept (set_links ls (s\<lparr>pv_engine := en1\<rparr>)) \<or>
     new_ok F (set_links ls (s\<lparr>pv_engine := en1\<rparr>)) \<and> moved (pv_engine s) (set_links ls (s\<lparr>pv_engine := en1\<rparr>))"
proof (cases "usedLink s")
  case None
  then show thesis using that [of ROOTPA_ERROR_ILLEGAL_ARGUMENT "pv_links s" "pv_engine s"] base used cur
    by (simp add: httpCommunicate_def failure_def pv_links_def set_links_def kept_def base_ok_def used_ok_def)
next
  case (Some l)
  have wf: "en_wf (pv_engine s)" "static_ok F (pv_engine s)" using base by (simp_all add: base_ok_def)
  obtain b where b: "en_mem (pv_engine s) l = Some b" "0 \<in> set b" using used Some by (auto simp: used_ok_def valid_link_def)
  obtain ret l1 r1 c1 en1 where run: "httpCommunicate inputP (pv_links s) verb (pv_engine s) = Some (ret, (l1, r1, c1), en1)"
    and rep: "reply_ok RELATION_SELF (pv_engine s) (Some l) ret (l1, r1, c1) en1"
    using httpCommunicate_ok [OF wf(1) b, of RELATION_SELF B inputP "usedRel s" "usedCommand s" verb] base B inp cur Some
    by (auto simp: base_ok_def)
  let ?s = "set_links (l1, r1, c1) (s\<lparr>pv_engine := en1\<rparr>)"
  have e: "extends (pv_engine s) en1" using rep by (simp add: reply_ok_def)
  note be = base_extends [OF base used e]
  have bu: "base_ok F B ?s" "used_ok F ?s" using be by (simp_all add: set_links_def base_ok_def used_ok_def)
  have "failure ret \<and> kept ?s \<or> new_ok F ?s \<and> moved (pv_engine s) ?s"
  proof (cases "ret \<in> {ROOTPA_ERROR_OUT_OF_MEMORY, ROOTPA_ERROR_NETWORK} \<and> l1 = Some l \<and> r1 = None \<and> c1 = None")
    case True
    then show ?thesis using Some by (auto simp: failure_def kept_def set_links_def)
  next
    case False
    then have r: "owned (pv_engine s) en1 (\<lambda>_. True) l1" "owned (pv_engine s) en1 (\<lambda>d. \<not> sublist RELATION_SELF d) r1"
      "fresh (pv_engine s) en1 c1" "distinct_ptrs [l1, r1, c1]" "en_attempts (pv_engine s) < en_attempts en1"
      "(\<forall>i\<ge>en_attempts (pv_engine s). tr_headers (en_transfers (pv_engine s) i) = []) \<longrightarrow> r1 = None"
      using rep by (auto simp: reply_ok_def)
    have u: "valid_link F (pv_engine s) (usedLink s)" "valid_rel F (pv_engine s) (usedRel s)" "valid_command F (pv_engine s) (usedCommand s)"
      "valid_link F (pv_engine s) (pendingLink s)" "distinct_ptrs [usedLink s, heap_rel (usedRel s), usedCommand s, pendingLink s]"
      using base used by (simp_all add: base_ok_def used_ok_def)
    note n = new_from_reply [OF wf e u r(1-4)]
    show ?thesis using n r(5,6) by (auto simp: new_ok_def moved_def set_links_def)
  qed
  with run e bu show thesis using that by blast
qed

subsection \<open>One round\<close>

text \<open>What the functions the loop calls promise: they allocate but do not free what is not theirs,
  add events, and leave the transfers alone; a built system information is not NULL; responses have
  at most \<open>B\<close> bytes.\<close>

definition calm :: "engine \<Rightarrow> engine \<Rightarrow> bool" where
  "calm en en1 \<longleftrightarrow> extends en en1 \<and> en_attempts en1 = en_attempts en"

definition services_ok :: "nat \<Rightarrow> services \<Rightarrow> bool" where
  "services_ok B sv \<longleftrightarrow>
     (\<forall>en r os en1. en_wf en \<longrightarrow> sv_sysInfo sv en = ((r, os), en1) \<longrightarrow>
        calm en en1 \<and> distinct_ptrs (os_ptrs os) \<and> (\<forall>p\<in>set (os_ptrs os). fresh en en1 p)) \<and>
     (\<forall>en. en_wf en \<longrightarrow> (\<exists>r en1. sv_version sv en = Some (r, en1) \<and> calm en en1)) \<and>
     (\<forall>tag v os en r rsp en1. en_wf en \<longrightarrow> sv_buildSystemInfo sv tag v os en = ((r, rsp), en1) \<longrightarrow>
        calm en en1 \<and> (r = ROOTPA_OK \<longrightarrow> rsp \<noteq> None) \<and> (\<forall>d. rsp = Some d \<longrightarrow> length d \<le> B)) \<and>
     (\<forall>tlt en r rsp en1. en_wf en \<longrightarrow> sv_buildInstallation sv tlt en = ((r, rsp), en1) \<longrightarrow>
        calm en en1 \<and> events en1 = events en \<and> (\<forall>d. rsp = Some d \<longrightarrow> length d \<le> B)) \<and>
     (\<forall>cmd en r rsp en1. en_wf en \<longrightarrow> sv_handleXml sv cmd en = ((r, rsp), en1) \<longrightarrow>
        calm en en1 \<and> (\<forall>d. rsp = Some d \<longrightarrow> length d \<le> B))"

lemma services_calm:
  "services_ok B sv \<Longrightarrow> en_wf en \<Longrightarrow> sv_sysInfo sv en = ((r, os), en1) \<Longrightarrow>
     calm en en1 \<and> distinct_ptrs (os_ptrs os) \<and> (\<forall>p\<in>set (os_ptrs os). fresh en en1 p)"
  "services_ok B sv \<Longrightarrow> en_wf en \<Longrightarrow> \<exists>r en1. sv_version sv en = Some (r, en1) \<and> calm en en1"
  "services_ok B sv \<Longrightarrow> en_wf en \<Longrightarrow> sv_buildSystemInfo sv tag v os en = ((r, rsp), en1) \<Longrightarrow>
     calm en en1 \<and> (r = ROOTPA_OK \<longrightarrow> rsp \<noteq> None) \<and> (\<forall>d. rsp = Some d \<longrightarrow> length d \<le> B)"
  "services_ok B sv \<Longrightarrow> en_wf en \<Longrightarrow> sv_buildInstallation sv tlt en = ((r, rsp), en1) \<Longrightarrow>
     calm en en1 \<and> events en1 = events en \<and> (\<forall>d. rsp = Some d \<longrightarrow> length d \<le> B)"
  "services_ok B sv \<Longrightarrow> en_wf en \<Longrightarrow> sv_handleXml sv cmd en = ((r, rsp), en1) \<Longrightarrow>
     calm en en1 \<and> (\<forall>d. rsp = Some d \<longrightarrow> length d \<le> B)"
  unfolding services_ok_def by (elim conjE, simp)+

lemma calm_trans: "calm en en1 \<Longrightarrow> calm en1 en2 \<Longrightarrow> calm en en2"
  using extends_trans by (auto simp: calm_def)

definition ends_reported :: "provisioning \<Rightarrow> bool" where
  "ends_reported s \<longleftrightarrow> events (pv_engine s) \<noteq> [] \<and> fst (last (events (pv_engine s))) \<in> {FINISHED_PROVISIONING, ERROR_STATE}"

definition outcome :: "before \<Rightarrow> nat \<Rightarrow> provisioning \<Rightarrow> provisioning \<Rightarrow> bool" where
  "outcome F B s s2 \<longleftrightarrow> mid_ok F B s2 \<and> (\<exists>es. events (pv_engine s2) = events (pv_engine s) @ es) \<and>
     en_transfers (pv_engine s2) = en_transfers (pv_engine s) \<and> pendingLink s2 = pendingLink s \<and> pendingRel s2 = pendingRel s \<and>
     (workToDo s2 \<longrightarrow> moved (pv_engine s) s2) \<and> (\<not> workToDo s2 \<longrightarrow> ends_reported s2)"

text \<open>At the start of a round, after the pointers were stored as the used ones.\<close>

definition ready :: "before \<Rightarrow> nat \<Rightarrow> provisioning \<Rightarrow> bool" where
  "ready F B s \<longleftrightarrow> base_ok F B s \<and> used_ok F s \<and> pv_links s = (usedLink s, usedRel s, usedCommand s) \<and> workToDo s"

lemma keep_used_ready:
  assumes "prov_inv F B s" "workToDo s" shows "ready F B (keep_used s)"
proof -
  have n: "new_ok F s" "usedLink s = None" "usedRel s = None" "usedCommand s = None" "base_ok F B s" using assms(1) by (simp_all add: prov_inv_def)
  then have "distinct_ptrs [pv_link s, heap_rel (pv_rel s), pv_command s, pendingLink s]"
    using distinct_ptrs_Nones [of "[pv_link s, heap_rel (pv_rel s), pv_command s]" "pendingLink s"] by (simp add: new_ok_def)
  then show ?thesis using n assms(2) by (simp add: ready_def keep_used_def base_ok_def used_ok_def pv_links_def new_ok_def)
qed

lemma ready_calm:
  assumes "ready F B s" "calm (pv_engine s) en"
  shows "ready F B (s\<lparr>pv_engine := en\<rparr>)"
  using base_extends [of F B s en] assms by (simp add: ready_def calm_def pv_links_def)

lemma ready_fields [simp]:
  "ready F B (s\<lparr>pv_ret := r\<rparr>) = ready F B s" "ready F B (s\<lparr>pv_tmpRet := r\<rparr>) = ready F B s" "ready F B (s\<lparr>pv_response := d\<rparr>) = ready F B s"
  by (simp_all add: ready_def base_ok_def used_ok_def pv_links_def)

text \<open>The branches that only fetch.\<close>

lemma fetched_ok:
  assumes r: "ready F B s" and B: "B < 2 ^ 32" and inp: "\<forall>d. inputP = Some d \<longrightarrow> length d \<le> B"
  shows "\<exists>r. httpCommunicate inputP (pv_links s) verb (pv_engine s) = Some r \<and> outcome F B s (fetched r s)"
proof -
  have b: "base_ok F B s" "used_ok F s" "pv_links s = (usedLink s, usedRel s, usedCommand s)" "workToDo s"
    using r by (simp_all add: ready_def)
  obtain ret ls en1 where h: "httpCommunicate inputP (pv_links s) verb (pv_engine s) = Some (ret, ls, en1)"
    "extends (pv_engine s) en1" "base_ok F B (set_links ls (s\<lparr>pv_engine := en1\<rparr>))" "used_ok F (set_links ls (s\<lparr>pv_engine := en1\<rparr>))"
    "failure ret \<and> kept (set_links ls (s\<lparr>pv_engine := en1\<rparr>)) \<or>
     new_ok F (set_links ls (s\<lparr>pv_engine := en1\<rparr>)) \<and> moved (pv_engine s) (set_links ls (s\<lparr>pv_engine := en1\<rparr>))"
    by (rule http_ok [OF b(1-3) B inp])
  obtain l1 r1 c1 where ls: "ls = (l1, r1, c1)" by (cases ls)
  let ?s1 = "set_links ls (s\<lparr>pv_engine := en1\<rparr>)" let ?s2 = "fetched (ret, ls, en1) s"
  have p: "base_ok F B ?s2 = base_ok F B ?s1" "used_ok F ?s2 = used_ok F ?s1" "new_ok F ?s2 = new_ok F ?s1" "kept ?s2 = kept ?s1"
    by (rule same_pointers [of _ ERROR_STATE ret]; simp add: fetched_def set_links_def ls pv_links_def Let_def)+
  have w: "workToDo ?s2 = (ret = ROOTPA_OK)" "ret \<noteq> ROOTPA_OK \<Longrightarrow> events (pv_engine ?s2) = events en1 @ [(ERROR_STATE, ret)]"
    "ret = ROOTPA_OK \<Longrightarrow> pv_engine ?s2 = en1" "en_transfers (pv_engine ?s2) = en_transfers en1"
    "pendingLink ?s2 = pendingLink s" "pendingRel ?s2 = pendingRel s" "pv_rel ?s2 = pv_rel ?s1"
    "en_attempts (pv_engine ?s2) = en_attempts en1"
    using b(4) by (simp_all add: fetched_def set_links_def ls Let_def)
  have "mid_ok F B ?s2" using h(3-5) p w(1) by (auto simp: mid_ok_def failure_def)
  moreover have "\<exists>es. events (pv_engine ?s2) = events (pv_engine s) @ es"
    using w(2,3) h(2) by (cases "ret = ROOTPA_OK") (auto simp: extends_def)
  moreover have "workToDo ?s2 \<longrightarrow> moved (pv_engine s) ?s2"
    using h(5) w(1,3,7) by (auto simp: failure_def moved_def set_links_def ls)
  moreover have "\<not> workToDo ?s2 \<longrightarrow> ends_reported ?s2" using w(1,2) by (simp add: ends_reported_def)
  ultimately have "outcome F B s ?s2" using w extends_transfers [OF h(2)] by (simp add: outcome_def)
  with h(1) show ?thesis by blast
qed

text \<open>Sending a response, with an error so far or none; \<open>quiet\<close> errors are not reported.\<close>

lemma sent_ok:
  assumes r: "ready F B s" and B: "B < 2 ^ 32" and inp: "\<forall>d. inputP = Some d \<longrightarrow> length d \<le> B"
    and quiet: "\<forall>x. quiet x \<longrightarrow> \<not> failure x"
  shows "\<exists>r. httpCommunicate inputP (pv_links s) verb (pv_engine s) = Some r \<and>
    outcome F B s (if pv_ret (sent r s) \<noteq> ROOTPA_OK \<and> \<not> quiet (pv_ret (sent r s)) then stop_if_unsent (sent r s) else sent r s)"
proof -
  have b: "base_ok F B s" "used_ok F s" "pv_links s = (usedLink s, usedRel s, usedCommand s)" "workToDo s"
    using r by (simp_all add: ready_def)
  obtain ret ls en1 where h: "httpCommunicate inputP (pv_links s) verb (pv_engine s) = Some (ret, ls, en1)"
    "extends (pv_engine s) en1" "base_ok F B (set_links ls (s\<lparr>pv_engine := en1\<rparr>))" "used_ok F (set_links ls (s\<lparr>pv_engine := en1\<rparr>))"
    "failure ret \<and> kept (set_links ls (s\<lparr>pv_engine := en1\<rparr>)) \<or>
     new_ok F (set_links ls (s\<lparr>pv_engine := en1\<rparr>)) \<and> moved (pv_engine s) (set_links ls (s\<lparr>pv_engine := en1\<rparr>))"
    by (rule http_ok [OF b(1-3) B inp])
  obtain l1 r1 c1 where ls: "ls = (l1, r1, c1)" by (cases ls)
  let ?s1 = "set_links ls (s\<lparr>pv_engine := en1\<rparr>)" let ?t = "sent (ret, ls, en1) s"
  let ?s2 = "if pv_ret ?t \<noteq> ROOTPA_OK \<and> \<not> quiet (pv_ret ?t) then stop_if_unsent ?t else ?t"
  have p: "base_ok F B ?s2 = base_ok F B ?s1" "used_ok F ?s2 = used_ok F ?s1" "new_ok F ?s2 = new_ok F ?s1" "kept ?s2 = kept ?s1"
    by (rule same_pointers [of _ ERROR_STATE "pv_ret ?t"]; simp add: sent_def stop_if_unsent_def set_links_def ls pv_links_def Let_def)+
  have e: "pv_engine ?s2 = report ERROR_STATE (pv_ret ?t) en1 \<or> pv_engine ?s2 = en1"
    by (simp add: sent_def stop_if_unsent_def set_links_def ls Let_def)
  have w: "workToDo ?s2 = (ret = ROOTPA_OK \<or> \<not> (pv_ret ?t \<noteq> ROOTPA_OK \<and> \<not> quiet (pv_ret ?t)))"
    "\<not> workToDo ?s2 \<Longrightarrow> events (pv_engine ?s2) = events en1 @ [(ERROR_STATE, pv_ret ?t)]"
    "pendingLink ?s2 = pendingLink s" "pendingRel ?s2 = pendingRel s" "pv_rel ?s2 = pv_rel ?s1"
    using b(4) by (auto simp: sent_def stop_if_unsent_def set_links_def ls Let_def)
  have f: "\<not> workToDo ?s2" if "failure ret"
  proof -
    have "ret \<noteq> ROOTPA_OK" "pv_ret ?t = ret" "\<not> quiet ret"
      using that quiet by (auto simp: failure_def sent_def set_links_def ls)
    then show ?thesis using w(1) by simp
  qed
  have "mid_ok F B ?s2" using h(3-5) p f by (auto simp: mid_ok_def)
  moreover have "\<exists>es. events (pv_engine ?s2) = events (pv_engine s) @ es" using e h(2) by (auto simp: extends_def)
  moreover have "workToDo ?s2 \<longrightarrow> moved (pv_engine s) ?s2"
    using h(5) f w(5) e by (auto simp: moved_def set_links_def ls)
  moreover have "\<not> workToDo ?s2 \<longrightarrow> ends_reported ?s2" using w(2) by (simp add: ends_reported_def)
  moreover have "en_transfers (pv_engine ?s2) = en_transfers (pv_engine s)" using e extends_transfers [OF h(2)] by auto
  ultimately have "outcome F B s ?s2" using w(3,4) unfolding outcome_def by simp
  with h(1) show ?thesis by blast
qed

text \<open>The system information: what the callback allocated is freed again.\<close>

lemma fresh_calm: "fresh en en1 p \<Longrightarrow> en_wf en1 \<Longrightarrow> calm en1 en2 \<Longrightarrow> fresh en en2 p"
  by (fastforce simp: fresh_def calm_def extends_def en_wf_def)

lemma free_osInfo_ok:
  assumes "calm en en1" "distinct_ptrs (os_ptrs os)" "\<forall>p\<in>set (os_ptrs os). fresh en en1 p"
  shows "\<exists>en2. free_osInfo os en1 = Some en2 \<and> calm en en2"
proof -
  have "\<forall>i. Some i \<in> set (os_ptrs os) \<longrightarrow> en_mem en1 i \<noteq> None" "\<forall>i. Some i \<in> set (os_ptrs os) \<longrightarrow> en_next en \<le> i"
    using assms(3) by (fastforce simp: fresh_def)+
  moreover from this have "calm en (without (os_ptrs os) en1)"
    using assms(1) by (fastforce simp: calm_def extends_def without_mem)
  ultimately show ?thesis using free_all_ok [OF assms(2)] free_osInfo_free_all by auto
qed

lemma outcome_calm:
  assumes "outcome F B (s\<lparr>pv_engine := en, pv_tmpRet := t, pv_response := d, pv_ret := r\<rparr>) s2" "calm (pv_engine s) en"
  shows "outcome F B s s2"
  using assms extends_transfers [of "pv_engine s" en] unfolding outcome_def calm_def moved_def extends_def
  by simp (metis append.assoc)

lemma on_systeminfo_ok:
  assumes r: "ready F B s" and B: "B < 2 ^ 32" and sv: "services_ok B sv"
  shows "\<exists>s2. on_systeminfo sv s = Some s2 \<and> outcome F B s s2"
proof -
  have wf: "en_wf (pv_engine s)" using r by (simp add: ready_def base_ok_def)
  obtain t1 os en1 where 1: "sv_sysInfo sv (pv_engine s) = ((t1, os), en1)" by (metis prod.collapse)
  note c1 = services_calm(1) [OF sv wf 1]
  have wf1: "en_wf en1" using c1 by (auto simp: calm_def)
  obtain t2 tag version en2 where 2: "sv_version sv en1 = Some ((t2, tag, version), en2)" "calm en1 en2"
    using services_calm(2) [OF sv wf1] by auto
  have wf2: "en_wf en2" using 2(2) by (auto simp: calm_def)
  obtain t3 rsp en3 where 3: "sv_buildSystemInfo sv tag version os en2 = ((t3, rsp), en3)" by (metis prod.collapse)
  note c3 = services_calm(3) [OF sv wf2 3]
  have c13: "calm en1 en3" using 2(2) c3 calm_trans by blast
  have "\<forall>p\<in>set (os_ptrs os). fresh (pv_engine s) en3 p" using c1 fresh_calm [OF _ wf1 c13] by blast
  then obtain en4 where 4: "free_osInfo os en3 = Some en4" "calm (pv_engine s) en4"
    using free_osInfo_ok [of "pv_engine s" en3 os] c1 calm_trans [OF _ c13] by blast
  define s1 where "s1 = s\<lparr>pv_engine := en4, pv_tmpRet := t3, pv_response := rsp,
      pv_ret := or_else t3 (or_else t2 (or_else t1 (pv_ret s)))\<rparr>"
  have r1: "ready F B s1" using ready_calm [OF r 4(2)] by (simp add: s1_def)
  have run: "on_systeminfo sv s = send_systeminfo s1"
    by (simp add: on_systeminfo_def 1 2(1) 3 4(1) s1_def)
  have rsp: "pv_response s1 = rsp" by (simp add: s1_def)
  have "\<exists>s2. on_systeminfo sv s = Some s2 \<and> outcome F B s1 s2"
  proof (cases rsp)
    case (Some d)
    obtain h where h: "httpCommunicate rsp (pv_links s1) httpMethod_PUT (pv_engine s1) = Some h"
      "outcome F B s1 (if pv_ret (sent h s1) \<noteq> ROOTPA_OK \<and> \<not> False then stop_if_unsent (sent h s1) else sent h s1)"
      using sent_ok [OF r1 B, of rsp "\<lambda>_. False" httpMethod_PUT] c3 by auto
    then show ?thesis using run Some rsp by (simp add: send_systeminfo_def httpPutAndReceiveCommand_def)
  next
    case None
    then have t3: "t3 \<noteq> ROOTPA_OK" using c3 by auto
    then have ne: "pv_ret s1 \<noteq> ROOTPA_OK" "pv_tmpRet s1 \<noteq> ROOTPA_OK" by (simp_all add: s1_def or_else_def)
    then have run2: "on_systeminfo sv s = Some (stop_if_unsent s1)" using run None rsp by (simp add: send_systeminfo_def)
    let ?s2 = "stop_if_unsent s1"
    have p: "base_ok F B ?s2 = base_ok F B s1" "used_ok F ?s2 = used_ok F s1" "kept ?s2 = kept s1"
      by (rule same_pointers [of _ ERROR_STATE "pv_ret s1"]; simp add: stop_if_unsent_def pv_links_def Let_def)+
    have "mid_ok F B ?s2" using p r1 ne(2) by (simp add: mid_ok_def ready_def kept_def pv_links_def stop_if_unsent_def Let_def)
    then have "outcome F B s1 ?s2" using ne(2) by (simp add: outcome_def stop_if_unsent_def Let_def ends_reported_def)
    with run2 show ?thesis by blast
  qed
  then show ?thesis using outcome_calm [OF _ 4(2)] unfolding s1_def by blast
qed

lemma on_result_ok:
  assumes r: "ready F B s" and B: "B < 2 ^ 32" and sv: "services_ok B sv"
  shows "\<exists>s2. on_result sv s = Some s2 \<and> outcome F B s s2"
proof -
  have cb: "calm en (en_setCallback x en)" if "en_wf en" for en x
    using that by (simp add: calm_def extends_def en_wf_def en_setCallback_def setCallbackP_def events_def)
  have wf: "en_wf (pv_engine s)" using r by (simp add: ready_def base_ok_def)
  obtain cmd where cmd: "command_text s = Some cmd"
    using r by (cases "usedCommand s") (auto simp: command_text_def ready_def used_ok_def pv_links_def valid_command_def deref_def)
  let ?en0 = "en_setCallback True (pv_engine s)"
  have wf0: "en_wf ?en0" using cb [OF wf, of True] by (auto simp: calm_def)
  obtain ret rsp en1 where 1: "sv_handleXml sv cmd ?en0 = ((ret, rsp), en1)" by (metis prod.collapse)
  note c1 = services_calm(5) [OF sv wf0 1]
  have wf1: "en_wf en1" using c1 by (auto simp: calm_def)
  let ?en2 = "en_setCallback False en1"
  have c: "calm (pv_engine s) ?en2" using cb [OF wf, of True] c1 cb [OF wf1, of False] calm_trans by blast
  define s1 where "s1 = s\<lparr>pv_engine := ?en2, pv_tmpRet := pv_tmpRet s, pv_response := rsp, pv_ret := ret\<rparr>"
  have r1: "ready F B s1" using ready_calm [OF r c] by (simp add: s1_def)
  let ?after = "\<lambda>s2. if pv_ret s2 \<noteq> ROOTPA_OK \<and> pv_ret s2 \<noteq> ROOTPA_ERROR_REGISTRY_OBJECT_NOT_AVAILABLE
                      then stop_if_unsent s2 else s2"
  have rsp: "pv_response s1 = rsp" "pv_ret s1 = ret" by (simp_all add: s1_def)
  have run: "on_result sv s = send_result s1" by (simp add: on_result_def cmd 1 s1_def)
  have "\<exists>s2. on_result sv s = Some s2 \<and> outcome F B s1 s2"
  proof (cases rsp)
    case (Some d)
    obtain h where h: "httpCommunicate rsp (pv_links s1) httpMethod_POST (pv_engine s1) = Some h"
      "outcome F B s1 (if pv_ret (sent h s1) \<noteq> ROOTPA_OK \<and> \<not> pv_ret (sent h s1) = ROOTPA_ERROR_REGISTRY_OBJECT_NOT_AVAILABLE
         then stop_if_unsent (sent h s1) else sent h s1)"
      using sent_ok [OF r1 B, of rsp "\<lambda>x. x = ROOTPA_ERROR_REGISTRY_OBJECT_NOT_AVAILABLE" httpMethod_POST] c1
      by (auto simp: failure_def)
    then show ?thesis using run Some rsp by (simp add: send_result_def httpPostAndReceiveCommand_def)
  next
    case None
    let ?t = "set_links (None, None, None) (s1\<lparr>pv_ret := (if pv_ret s1 = ROOTPA_OK then ROOTPA_ERROR_XML else pv_ret s1)\<rparr>)"
    let ?s0 = "set_links (None, None, None) s1"
    let ?s2 = "?after ?t"
    have p: "base_ok F B ?s2 = base_ok F B ?s0" "used_ok F ?s2 = used_ok F ?s0" "new_ok F ?s2 = new_ok F ?s0"
      by (rule same_pointers [of _ ERROR_STATE "pv_ret ?t"]; simp add: stop_if_unsent_def pv_links_def set_links_def Let_def)+
    have "base_ok F B ?s0" "used_ok F ?s0" "new_ok F ?s0"
      using r1 by (simp_all add: ready_def base_ok_def used_ok_def new_ok_def set_links_def distinct_ptrs_Cons)
    then have "mid_ok F B ?s2" using p by (simp add: mid_ok_def)
    moreover have "workToDo ?s2 \<longrightarrow> moved (pv_engine s1) ?s2"
      by (simp add: moved_def set_links_def stop_if_unsent_def Let_def)
    moreover have "\<not> workToDo ?s2 \<longrightarrow> ends_reported ?s2"
      using r1 by (simp add: ready_def set_links_def stop_if_unsent_def Let_def ends_reported_def)
    ultimately have "outcome F B s1 ?s2" by (simp add: outcome_def set_links_def stop_if_unsent_def Let_def)
    moreover have "on_result sv s = Some ?s2" using None rsp(1) unfolding run send_result_def by simp
    ultimately show ?thesis by blast
  qed
  then show ?thesis using outcome_calm [OF _ c] unfolding s1_def by blast
qed

text \<open>Whatever the relation is, following it is safe and either makes progress or ends the loop
  with a report.\<close>

lemma follow_ok:
  assumes r: "ready F B s" and B: "B < 2 ^ 32" and sv: "services_ok B sv" and rel: "pv_rel s = Some i"
    and rsp: "\<forall>d. pv_response s = Some d \<longrightarrow> length d \<le> B"
  shows "\<exists>s2. follow sv s = Some s2 \<and> outcome F B s s2"
proof -
  have v: "valid_rel F (pv_engine s) (Some i)" using r rel by (simp add: ready_def used_ok_def pv_links_def)
  have total: "\<exists>b. rel_is x (pv_rel s) (pv_engine s) = Some b" if "x \<noteq> []" "0 \<notin> set x" for x
    using rel_is_ok [OF v that] rel by auto
  obtain b1 b2 b3 b4 b5 where b: "rel_is RELATION_SYSTEMINFO (pv_rel s) (pv_engine s) = Some b1"
    "rel_is INITIAL_DELETE_text (pv_rel s) (pv_engine s) = Some b2" "rel_is INITIAL_POST_text (pv_rel s) (pv_engine s) = Some b3"
    "rel_is RELATION_RESULT (pv_rel s) (pv_engine s) = Some b4" "rel_is RELATION_NEXT (pv_rel s) (pv_engine s) = Some b5"
    using total [of RELATION_SYSTEMINFO] total [of INITIAL_DELETE_text] total [of INITIAL_POST_text] total [of RELATION_RESULT]
      total [of RELATION_NEXT]
    by (auto simp: RELATION_SYSTEMINFO_def INITIAL_DELETE_text_def INITIAL_POST_text_def RELATION_RESULT_def RELATION_NEXT_def ascii_def)
  note f = fetched_ok [OF r B]
  consider b1 | "\<not> b1" b2 | "\<not> b1" "\<not> b2" b3 | "\<not> b1" "\<not> b2" "\<not> b3" b4 | "\<not> b1" "\<not> b2" "\<not> b3" "\<not> b4" b5
    | "\<not> b1" "\<not> b2" "\<not> b3" "\<not> b4" "\<not> b5" by blast
  then show ?thesis
  proof cases
    case 1
    then show ?thesis using b on_systeminfo_ok [OF r B sv] by (simp add: follow_def)
  next
    case 2
    then show ?thesis using b f [of None httpMethod_DELETE] by (auto simp: follow_def httpDeleteAndReceiveCommand_def pv_links_def split: prod.splits)
  next
    case 3
    then show ?thesis using b f [OF rsp, of httpMethod_POST] by (auto simp: follow_def httpPostAndReceiveCommand_def pv_links_def split: prod.splits)
  next
    case 4
    then show ?thesis using b on_result_ok [OF r B sv] by (simp add: follow_def)
  next
    case 5
    then show ?thesis using b f [of None httpMethod_GET] by (auto simp: follow_def httpGetAndReceiveCommand_def pv_links_def split: prod.splits)
  next
    case 6
    let ?s2 = "on_unknown s"
    have p: "base_ok F B ?s2 = base_ok F B s" "used_ok F ?s2 = used_ok F s" "kept ?s2 = kept s"
      by (rule same_pointers [of _ ERROR_STATE ROOTPA_ERROR_ILLEGAL_ARGUMENT]; simp add: on_unknown_def pv_links_def)+
    have "mid_ok F B ?s2" using p r by (simp add: mid_ok_def ready_def kept_def pv_links_def on_unknown_def)
    then have "outcome F B s ?s2" by (simp add: outcome_def on_unknown_def ends_reported_def)
    then show ?thesis using b 6 by (simp add: follow_def)
  qed
qed

text \<open>What is left: the pending link, and the relations the environment may still give.\<close>

definition rank :: "nat \<Rightarrow> provisioning \<Rightarrow> nat" where
  "rank N s = (if pendingLink s \<noteq> None \<and> pendingRel s \<noteq> None then N + 2 else 0) +
     (if pv_rel s = None then 0 else Suc (N - en_attempts (pv_engine s)))"

lemma moved_rank:
  assumes "moved (pv_engine s) s2" "\<forall>i\<ge>N. tr_headers (en_transfers (pv_engine s) i) = []" "pv_rel s \<noteq> None"
    "pendingLink s2 = pendingLink s" "pendingRel s2 = pendingRel s"
  shows "rank N s2 < rank N s"
proof (cases "pv_rel s2 = None")
  case False
  then have a: "en_attempts (pv_engine s) < en_attempts (pv_engine s2)"
    "\<not> (\<forall>i\<ge>en_attempts (pv_engine s). tr_headers (en_transfers (pv_engine s) i) = [])" using assms(1) by (auto simp: moved_def)
  then have "en_attempts (pv_engine s) < N" using assms(2) by (meson leI le_trans)
  then show ?thesis using a(1) False assms(3-5) by (simp add: rank_def)
qed (use assms in \<open>simp add: rank_def\<close>)

definition step_ok :: "before \<Rightarrow> nat \<Rightarrow> nat \<Rightarrow> provisioning \<Rightarrow> provisioning \<Rightarrow> bool" where
  "step_ok F B N s s1 \<longleftrightarrow> (\<exists>es. events (pv_engine s1) = events (pv_engine s) @ es) \<and> static_ok F (pv_engine s1) \<and>
     (if workToDo s1 then prov_inv F B s1 \<and> rank N s1 < rank N s \<and> en_transfers (pv_engine s1) = en_transfers (pv_engine s)
      else ends_reported s1 \<and> pv_link s1 = None)"

lemma finish_outcome:
  assumes o: "outcome F B s s2" and N: "\<forall>i\<ge>N. tr_headers (en_transfers (pv_engine s) i) = []" and rel: "pv_rel s \<noteq> None"
  shows "\<exists>s1. finish_round s2 = Some s1 \<and> step_ok F B N s s1"
proof -
  have m: "mid_ok F B s2" using o by (simp add: outcome_def)
  obtain s1 where f: "finish_round s2 = Some s1" "events (pv_engine s1) = events (pv_engine s2)" "workToDo s1 = workToDo s2"
    "workToDo s2 \<Longrightarrow> prov_inv F B s1 \<and> pv_rel s1 = pv_rel s2 \<and> en_attempts (pv_engine s1) = en_attempts (pv_engine s2) \<and>
       en_transfers (pv_engine s1) = en_transfers (pv_engine s2) \<and> pendingLink s1 = pendingLink s2 \<and> pendingRel s1 = pendingRel s2"
    "\<not> workToDo s2 \<Longrightarrow> pv_link s1 = None" "static_ok F (pv_engine s1)"
    using finish_round_ok [OF m] by metis
  have "step_ok F B N s s1"
  proof (cases "workToDo s2")
    case True
    have "rank N s1 = rank N s2" using f(4) [OF True] by (simp add: rank_def)
    moreover have "rank N s2 < rank N s" using moved_rank [OF _ N rel] o True by (simp add: outcome_def)
    ultimately show ?thesis using f o True by (simp add: step_ok_def outcome_def)
  next
    case False
    then show ?thesis using f o by (simp add: step_ok_def outcome_def ends_reported_def)
  qed
  with f(1) show ?thesis by blast
qed

lemma en_free_valid: "valid_link F en p \<Longrightarrow> en_free p en = Some (without [p] en)"
  by (cases p) (auto simp: en_free_def without_def valid_link_def fun_eq_iff)

lemma prov_step_ok:
  assumes inv: "prov_inv F B s" and work: "workToDo s" and B: "B < 2 ^ 32" and sv: "services_ok B sv"
    and N: "\<forall>i\<ge>N. tr_headers (en_transfers (pv_engine s) i) = []"
  shows "\<exists>s1. prov_step sv s = Some s1 \<and> step_ok F B N s s1"
proof (cases "pv_rel s")
  case None
  show ?thesis
  proof (cases "pendingLink s \<noteq> None \<and> pendingRel s \<noteq> None")
    case True
    have b: "base_ok F B s" and n: "new_ok F s" and u: "usedLink s = None" "usedRel s = None" "usedCommand s = None"
      using inv by (simp_all add: prov_inv_def)
    have st: "static_ok F (pv_engine s)" using b by (simp add: base_ok_def)
    have pr: "pendingRel s \<in> {None, RELATION_INITIAL_POST, RELATION_INITIAL_DELETE}" using b by (simp add: base_ok_def)
    let ?en = "without [pv_link s] (pv_engine s)"
    have run: "en_free (pv_link s) (pv_engine s) = Some ?en"
      using en_free_valid [of F] n by (simp add: new_ok_def)
    have "distinct_ptrs [pv_link s, heap_rel (pv_rel s), pv_command s, pendingLink s]"
      using n u distinct_ptrs_Nones [of "[pv_link s, heap_rel (pv_rel s), pv_command s]" "pendingLink s"] by (simp add: new_ok_def)
    then have d: "pv_link s = None \<or> pv_link s \<noteq> pv_command s \<and> pv_link s \<noteq> pendingLink s"
      "pv_command s = None \<or> pv_command s \<noteq> pendingLink s" by (simp_all add: distinct_ptrs_Cons) auto
    have ne: "pv_link s = None \<or> pendingLink s \<noteq> pv_link s" "pv_command s = None \<or> pv_command s \<noteq> pv_link s"
      "pendingLink s \<noteq> pv_command s" "pv_command s = None \<or> pv_command s \<noteq> pendingLink s"
      using d True by auto
    have st1: "static_ok F ?en"
      using static_without [of F "pv_engine s" "pv_link s" None None] st n
      by (simp add: new_ok_def static_ok_def without_mem)
    have v: "valid_link F ?en (pendingLink s)" "valid_command F ?en (pv_command s)" "valid_rel F ?en (pendingRel s)"
      "heap_rel (pendingRel s) = None"
      using n b ne True valid_without(1) [of "[pv_link s]" "pendingLink s" F] valid_without(3) [of "[pv_link s]" "pv_command s" F]
        const_rel_valid [OF st1 pr] by (auto simp: new_ok_def base_ok_def)
    let ?s1 = "s\<lparr>pv_engine := ?en, pv_link := pendingLink s, pv_rel := pendingRel s, pendingLink := None, pendingRel := None, workToDo := True\<rparr>"
    have "prov_inv F B ?s1"
      using inv v st1 ne u by (simp add: prov_inv_def base_ok_def new_ok_def distinct_ptrs_Cons del: not_None_eq)
    moreover have "rank N ?s1 < rank N s" using True None by (simp add: rank_def)
    ultimately show ?thesis using None True run st1 by (simp add: prov_step_def resume_pending_def step_ok_def)
  next
    case False
    let ?s2 = "(pv_report FINISHED_PROVISIONING ROOTPA_OK s)\<lparr>workToDo := False\<rparr>"
    have p: "base_ok F B ?s2 = base_ok F B s" "used_ok F ?s2 = used_ok F s" "new_ok F ?s2 = new_ok F s"
      by (rule same_pointers [of _ FINISHED_PROVISIONING ROOTPA_OK]; simp add: pv_links_def)+
    have "mid_ok F B ?s2"
      using inv p by (auto simp: mid_ok_def prov_inv_def used_ok_def new_ok_def distinct_ptrs_Cons)
    then obtain s1 where "finish_round ?s2 = Some s1" "events (pv_engine s1) = events (pv_engine ?s2)" "workToDo s1 = workToDo ?s2"
      "\<not> workToDo ?s2 \<Longrightarrow> pv_link s1 = None" "static_ok F (pv_engine s1)" using finish_round_ok by metis
    then show ?thesis using None False by (auto simp: prov_step_def step_ok_def ends_reported_def)
  qed
next
  case (Some i)
  have "valid_rel F (pv_engine s) (Some i)" using inv Some by (simp add: prov_inv_def new_ok_def)
  then have self: "rel_is RELATION_SELF (pv_rel s) (pv_engine s) = Some False" using rel_is_self Some by simp
  have k: "pv_engine (keep_used s) = pv_engine s" "pv_rel (keep_used s) = pv_rel s" "pv_response (keep_used s) = pv_response s"
    "rank N (keep_used s) = rank N s" by (simp_all add: keep_used_def rank_def)
  obtain s2 where f: "follow sv (keep_used s) = Some s2" "outcome F B (keep_used s) s2"
    using follow_ok [OF keep_used_ready [OF inv work] B sv, of i] Some inv k by (auto simp: prov_inv_def)
  obtain s1 where "finish_round s2 = Some s1" "step_ok F B N (keep_used s) s1"
    using finish_outcome [OF f(2)] N k Some by auto
  then show ?thesis using self f(1) Some k by (auto simp: prov_step_def step_ok_def)
qed

text \<open>The loop, one round at a time.\<close>

lemma prov_loop_step: "workToDo s \<Longrightarrow> prov_step sv s = Some s1 \<Longrightarrow> prov_loop sv s = prov_loop sv s1"
  by (simp add: prov_loop.simps [of sv s])

lemma prov_loop_fault: "workToDo s \<Longrightarrow> prov_step sv s = None \<Longrightarrow> prov_loop sv s = Some Fault"
  by (simp add: prov_loop.simps [of sv s])

text \<open>The loop ends.\<close>

lemma prov_loop_ends:
  assumes "prov_inv F B s" "workToDo s" "B < 2 ^ 32" "services_ok B sv" "\<forall>i\<ge>N. tr_headers (en_transfers (pv_engine s) i) = []"
  shows "\<exists>s1. prov_loop sv s = Some (Done s1) \<and> ends_reported s1 \<and> pv_link s1 = None \<and>
    (\<exists>es. events (pv_engine s1) = events (pv_engine s) @ es) \<and> static_ok F (pv_engine s1)"
  using assms
proof (induction "rank N s" arbitrary: s rule: less_induct)
  case less
  obtain s1 where s1: "prov_step sv s = Some s1" "step_ok F B N s s1"
    using prov_step_ok [OF less.prems] by blast
  note unfold = prov_loop_step [OF less.prems(2) s1(1)]
  show ?case
  proof (cases "workToDo s1")
    case True
    obtain s2 where "prov_loop sv s1 = Some (Done s2)" "ends_reported s2" "pv_link s2 = None"
      "\<exists>es. events (pv_engine s2) = events (pv_engine s1) @ es" "static_ok F (pv_engine s2)"
      using less.hyps [of s1] s1(2) True less.prems(3-5) by (auto simp: step_ok_def)
    then show ?thesis using unfold s1(2) by (auto simp: step_ok_def)
  next
    case False
    then have "prov_loop sv s1 = Some (Done s1)" by (simp add: prov_loop.simps)
    then show ?thesis using unfold s1(2) False by (simp add: step_ok_def)
  qed
qed

end
