(* ===== verification/ProvisioningRuns.thy ===== *)
theory ProvisioningRuns
  imports ProvisioningFacts
begin

text \<open>
  Whole provisioning runs: the links they start from, the end of the loop with its report, and
  the two ways a run goes wrong that the loop does not guard against.
\<close>

subsection \<open>Links\<close>

text \<open>A string in a block that is zero behind it.\<close>

lemma padded_cstring: "0 \<notin> set t \<Longrightarrow> k > 0 \<Longrightarrow> cstring (t @ replicate k 0) = Some t"
proof -
  assume t: "0 \<notin> set t" and k: "k > 0"
  from t have "takeWhile (\<lambda>c. c \<noteq> 0) t = t" by (auto simp: takeWhile_eq_all_conv)
  moreover have "takeWhile (\<lambda>c. c \<noteq> 0) (replicate k (0 :: u8)) = []" by (cases k) auto
  moreover have "takeWhile (\<lambda>c. c \<noteq> 0) (t @ replicate k 0) = t @ takeWhile (\<lambda>c. c \<noteq> 0) (replicate k (0 :: u8))"
    using t by (intro takeWhile_append2) auto
  ultimately show "cstring (t @ replicate k 0) = Some t" using k by (simp add: cstring_def)
qed

lemma padded_write:
  assumes "length w \<le> k"
  shows "buf_write (length t) w (t @ replicate k 0) = Some ((t @ w) @ replicate (k - length w) 0)"
  using assms by (simp add: buf_write_def)

lemma unterminated: "0 \<notin> set t \<Longrightarrow> cstring t = None"
  by (simp add: cstring_def)

lemma hex_digit_nonzero: "hex_digit (drop_bit 4 b) \<noteq> 0" "hex_digit (b AND 0x0F) \<noteq> 0"
proof -
  have "hex_digit n \<noteq> 0" if "n < 16" for n
    using that by (auto simp: hex_digit_def word_less_nat_alt word_unat_eq_iff unat_word_ariths)
  moreover have "drop_bit 4 b < 16"
  proof -
    have "unat b < 256" using unsigned_less [where ?'a = nat and w = b] by simp
    then have "take_bit 8 (unat b) = unat b" "unat b div 16 < 16" by (simp_all add: take_bit_nat_eq_self)
    then show ?thesis by (simp add: word_less_nat_alt unsigned_drop_bit_eq drop_bit_nat_def)
  qed
  moreover have "b AND 0x0F < 16" using word_and_le1 [of b "0x0F"] by (simp add: word_le_nat_alt word_less_nat_alt)
  ultimately show "hex_digit (drop_bit 4 b) \<noteq> 0" "hex_digit (b AND 0x0F) \<noteq> 0" by blast+
qed

lemma bytes_text_nonzero: "0 \<notin> set (bytes_text uuid bs)"
  using hex_digit_nonzero by (auto simp: bytes_text_def)

lemma bytes_text_length:
  "length bs = 16 \<Longrightarrow> length (bytes_text False bs) = 32" "length bs = 16 \<Longrightarrow> length (bytes_text True bs) = 36"
  by (simp_all add: bytes_text_def length_concat comp_def sum_list_distinct_conv_sum_set upt_rec numeral_eq_Suc)

lemma dec_text_nonzero: "0 \<notin> set (dec_text n)"
proof (induction n rule: less_induct)
  case (less n)
  have d: "of_nat (48 + m) \<noteq> (0 :: u8)" if "m < 10" for m
    using that by (simp add: word_unat_eq_iff unsigned_of_nat take_bit_nat_eq_self del: of_nat_add)
  show ?case
  proof (cases "n < 10")
    case True
    then show ?thesis using d [of n] by (simp add: dec_text.simps [of n])
  next
    case False
    then show ?thesis using less [of "n div 10"] d [of "n mod 10"] by (simp add: dec_text.simps [of n])
  qed
qed

lemma int_text_nonzero: "0 \<notin> set (int_text w)"
  using dec_text_nonzero by (simp add: int_text_def)

text \<open>The texts that are appended.\<close>

lemma addIntToUri_any:
  assumes "0 \<notin> set t" "12 \<le> k"
  shows "addIntToUri w (t @ replicate k 0) =
    Some ((t @ take 11 (0x2F # int_text w)) @ replicate (k - length (take 11 (0x2F # int_text w))) 0)"
proof -
  let ?x = "take 11 (0x2F # int_text w)"
  have i: "intInString w = ?x @ replicate (12 - length ?x) 0"
    by (simp add: intInString_def INT_STRING_LENGTH_def Let_def)
  have l: "length ?x \<le> 11" by simp
  have "length (intInString w) = 12" using l by (simp only: i length_append length_replicate)
  then have "addIntToUri w (t @ replicate k 0) = Some ((t @ intInString w) @ replicate (k - 12) 0)"
    using padded_cstring [OF assms(1), of k] padded_write [of "intInString w" k t] assms(2) by (simp add: addIntToUri_def)
  moreover have "replicate (12 - length ?x) (0 :: u8) @ replicate (k - 12) 0 = replicate (k - length ?x) 0"
    using l assms(2) by (simp only: replicate_add [symmetric]) simp
  ultimately show ?thesis by (simp only: i append_assoc)
qed

lemma addIntToUri_padded:
  assumes "0 \<notin> set t" "12 \<le> k" "length (int_text w) \<le> 10"
  shows "addIntToUri w (t @ replicate k 0) = Some ((t @ 0x2F # int_text w) @ replicate (k - Suc (length (int_text w))) 0)"
  using addIntToUri_any [OF assms(1,2), of w] assms(3) by simp

lemma addSlashToUri_padded:
  assumes "0 \<notin> set t" "0 < k"
  shows "addSlashToUri (t @ replicate k 0) = Some ((t @ [0x2F]) @ replicate (k - 1) 0)"
  using padded_cstring [OF assms] padded_write [of "[0x2F]" k t] assms(2) by (simp add: addSlashToUri_def)

lemma addBytesToUri_padded:
  assumes "0 \<notin> set t" "0 < k" "length (bytes_text uuid bs) \<le> k"
  shows "addBytesToUri bs uuid (t @ replicate k 0) =
    Some ((t @ bytes_text uuid bs) @ replicate (k - length (bytes_text uuid bs)) 0)"
  using padded_cstring [OF assms(1,2)] padded_write [OF assms(3), of t] by (simp add: addBytesToUri_def)

lemma addBytesToUri_short:
  assumes "0 \<notin> set t" "0 < k" "k < length (bytes_text uuid bs)"
  shows "addBytesToUri bs uuid (t @ replicate k 0) = None"
  using padded_cstring [OF assms(1,2)] assms(3) by (simp add: addBytesToUri_def buf_write_def)

text \<open>The steps that build the link of an installation, on the block alone.\<close>

definition installation_link :: "bytes \<Rightarrow> bytes \<Rightarrow> u32 \<Rightarrow> bytes \<Rightarrow> bytes option" where
  "installation_link url suid spid uuid =
     Option.bind (addBytesToUri suid False (url @ replicate (basic_link_size (length url) - length url) 0)) (\<lambda>b.
     Option.bind (addIntToUri spid b) (\<lambda>b. Option.bind (addSlashToUri b) (addBytesToUri uuid True)))"

text \<open>The block of a link has room for the link of an installation exactly when the number of the
  service provider has at most seven characters: then the link is the address, the device, the
  provider and the trustlet, and otherwise the text leaves the block or fills it without a
  terminator.\<close>

lemma installation_link_fits_iff:
  assumes "0 \<notin> set url" "length suid = 16" "length uuid = 16" "length (int_text spid) \<le> 10"
  shows "Option.bind (installation_link url suid spid uuid) cstring =
    (if length (int_text spid) \<le> 7
     then Some (url @ bytes_text False suid @ 0x2F # int_text spid @ 0x2F # bytes_text True uuid) else None)"
proof -
  let ?n = "length (int_text spid)"
  let ?t1 = "url @ bytes_text False suid" let ?t2 = "?t1 @ 0x2F # int_text spid" let ?t3 = "?t2 @ [0x2F]"
  have z: "0 \<notin> set ?t1" "0 \<notin> set ?t2" "0 \<notin> set ?t3"
    using assms(1) bytes_text_nonzero int_text_nonzero by auto
  have 1: "addBytesToUri suid False (url @ replicate (basic_link_size (length url) - length url) 0) = Some (?t1 @ replicate 46 0)"
    using addBytesToUri_padded [OF assms(1), of 78 False suid] bytes_text_length(1) [OF assms(2)]
    by (simp add: basic_link_size_def)
  have 2: "addIntToUri spid (?t1 @ replicate 46 0) = Some (?t2 @ replicate (45 - ?n) 0)"
    using addIntToUri_padded [OF z(1), of 46 spid] assms(4) by simp
  have 3: "addSlashToUri (?t2 @ replicate (45 - ?n) 0) = Some (?t3 @ replicate (44 - ?n) 0)"
    using addSlashToUri_padded [OF z(2), of "45 - ?n"] assms(4) by simp
  have run: "installation_link url suid spid uuid = addBytesToUri uuid True (?t3 @ replicate (44 - ?n) 0)"
    using 1 2 3 by (simp add: installation_link_def)
  have l: "length (bytes_text True uuid) = 36" by (rule bytes_text_length(2) [OF assms(3)])
  show ?thesis
  proof (cases "?n \<le> 8")
    case True
    have r2: "installation_link url suid spid uuid = Some ((?t3 @ bytes_text True uuid) @ replicate (8 - ?n) 0)"
      using addBytesToUri_padded [OF z(3), of "44 - ?n" True uuid] run True l by simp
    have zz: "0 \<notin> set (?t3 @ bytes_text True uuid)" using z(3) bytes_text_nonzero by auto
    show ?thesis
    proof (cases "?n \<le> 7")
      case T7: True
      then show ?thesis using r2 padded_cstring [OF zz, of "8 - ?n"] by simp
    next
      case False
      then have "8 - ?n = 0" by simp
      then show ?thesis using r2 unterminated [OF zz] False by simp
    qed
  next
    case False
    then show ?thesis using addBytesToUri_short [OF z(3), of "44 - ?n" True uuid] run assms(4) l by simp
  qed
qed

lemma installation_link_fits_iff_witness:
  "Option.bind (installation_link (ascii ''https://se/'') (replicate 16 1) 1234567 (replicate 16 2)) cstring \<noteq> None \<and>
   Option.bind (installation_link (ascii ''https://se/'') (replicate 16 1) 12345678 (replicate 16 2)) cstring = None"
proof -
  have n: "length (int_text 1234567) = 7" "length (int_text 12345678) = 8"
    by (simp_all add: int_text_def dec_text.simps)
  have z: "0 \<notin> set (ascii ''https://se/'')" by (simp add: ascii_def)
  show ?thesis
    using installation_link_fits_iff [OF z, of "replicate 16 1" "replicate 16 2" 1234567]
      installation_link_fits_iff [OF z, of "replicate 16 1" "replicate 16 2" 12345678] n by simp
qed

text \<open>The numbers of service providers from \<open>0x80000000\<close> on are negative and lose their last digit:
  different providers get the same link.\<close>

lemma spids_share_link: "addIntToUri 0x80000000 b = addIntToUri 0x80000001 b"
proof -
  have "intInString 0x80000000 = intInString 0x80000001"
    by (simp add: intInString_def INT_STRING_LENGTH_def int_text_def dec_text.simps Let_def)
  then show ?thesis by (simp add: addIntToUri_def)
qed

text \<open>Setting the address stores exactly the address, zero behind it, or changes nothing and
  reports why: it is longer than 254 bytes, or empty. The length whose successor wraps to zero is
  let through and overruns the buffer.\<close>

lemma setInitialAddress_bounds:
  assumes "length addr = unat n" "length url = 255"
  shows "setInitialAddress (Some addr) n url =
    (if n = 0 then Some (ROOTPA_ERROR_INTERNAL, url)
     else if n = - 1 then None
     else if n < 255 then Some (ROOTPA_OK, addr @ replicate (255 - length addr) 0)
     else Some (ROOTPA_ERROR_ILLEGAL_ARGUMENT, url))"
proof -
  have w: "(255 :: u32) < n + 1 \<longleftrightarrow> \<not> n < 255" if "n \<noteq> - 1"
  proof -
    have "n + 1 \<noteq> 0" using that by (metis add_eq_0_iff2)
    then have "unat (n + 1) = unat n + 1" using unat_word_ariths(1) [of n 1] unat_u32_less [of n]
      by (cases "unat n + 1 = 2 ^ 32") (auto simp: word_unat_eq_iff)
    then show ?thesis by (simp add: word_less_nat_alt) linarith
  qed
  have r: "buf_read 0 (unat n) addr = Some addr" using assms(1) by (simp add: buf_read_def)
  have b: "buf_write 0 addr empty_url = (if unat n \<le> 255 then Some (addr @ replicate (255 - length addr) 0) else None)"
    using assms(1) by (simp add: buf_write_def empty_url_def INITIAL_URL_BUFFER_LENGTH_def)
  have m: "unat (- 1 :: u32) = 4294967295" by (simp add: unsigned_minus_1_eq_mask mask_eq_exp_minus_1)
  consider "n = 0" | "n = - 1" | "n \<noteq> 0" "n \<noteq> - 1" by blast
  then show ?thesis
  proof cases
    case 3
    show ?thesis
    proof (cases "n < 255")
      case True
      then have "unat n \<le> 255" by (simp add: word_less_nat_alt)
      then show ?thesis using 3 True w r b by (simp add: setInitialAddress_def INITIAL_URL_BUFFER_LENGTH_def)
    next
      case False
      then show ?thesis using 3 w by (simp add: setInitialAddress_def INITIAL_URL_BUFFER_LENGTH_def)
    qed
  qed (use r b m in \<open>simp_all add: setInitialAddress_def INITIAL_URL_BUFFER_LENGTH_def\<close>)
qed

lemma setInitialAddress_bounds_witness:
  "setInitialAddress (Some [104, 105]) 2 empty_url = Some (ROOTPA_OK, [104, 105] @ replicate 253 0)"
  using setInitialAddress_bounds [of "[104, 105]" 2 empty_url] by (simp add: empty_url_def INITIAL_URL_BUFFER_LENGTH_def)

subsection \<open>Starting a run\<close>

text \<open>The memory holds the constants of the code, and the environment is polite.\<close>

definition engine_ok :: "before \<Rightarrow> nat \<Rightarrow> engine \<Rightarrow> bool" where
  "engine_ok F B en \<longleftrightarrow> en_wf en \<and> static_ok F en \<and> (\<forall>i. polite RELATION_SELF B (en_transfers en i))"

lemma engine_ok_extends: "engine_ok F B en \<Longrightarrow> extends en en1 \<Longrightarrow> engine_ok F B en1"
  using static_extends [of F en en1] extends_transfers [of en en1] by (auto simp: engine_ok_def)

text \<open>A link in a block with \<open>k\<close> zero bytes behind it.\<close>

definition linked :: "before \<Rightarrow> engine \<Rightarrow> ptr \<Rightarrow> nat \<Rightarrow> bool" where
  "linked F en p k \<longleftrightarrow> (\<exists>i t. p = Some i \<and> fst F \<le> i \<and> i < en_next en \<and> en_mem en i = Some (t @ replicate k 0) \<and> 0 \<notin> set t)"

lemma linked_extends: "linked F en p k \<Longrightarrow> extends en en1 \<Longrightarrow> linked F en1 p k"
  by (fastforce simp: linked_def extends_def)

lemma linked_valid: "linked F en p k \<Longrightarrow> 0 < k \<Longrightarrow> valid_link F en p"
  by (auto simp: linked_def valid_link_def)

text \<open>Changing the link changes nothing else.\<close>

definition same_but :: "ptr \<Rightarrow> engine \<Rightarrow> engine \<Rightarrow> bool" where
  "same_but p en en1 \<longleftrightarrow> (\<exists>i b. p = Some i \<and> en1 = en\<lparr>en_mem := (en_mem en)(i \<mapsto> b)\<rparr>)"

lemma same_but_ok:
  assumes "same_but p en en1" "linked F en p k" "engine_ok F B en"
  shows "engine_ok F B en1" "events en1 = events en" "en_next en1 = en_next en" "en_transfers en1 = en_transfers en"
    "en_attempts en1 = en_attempts en" "en_agent en1 = en_agent en"
  using assms by (auto simp: same_but_def linked_def engine_ok_def en_wf_def static_ok_def events_def split: if_splits)

lemma on_block_linked:
  assumes "linked F en p k" "\<And>t. 0 \<notin> set t \<Longrightarrow> f (t @ replicate k 0) = Some ((t @ w) @ replicate k1 0)" "0 \<notin> set w"
  shows "\<exists>en1. on_block f p en = Some en1 \<and> linked F en1 p k1 \<and> same_but p en en1"
proof -
  obtain i t where i: "p = Some i" "fst F \<le> i" "i < en_next en" "en_mem en i = Some (t @ replicate k 0)" "0 \<notin> set t"
    using assms(1) by (auto simp: linked_def)
  let ?en = "en\<lparr>en_mem := (en_mem en)(i \<mapsto> (t @ w) @ replicate k1 0)\<rparr>"
  have "on_block f p en = Some ?en" using assms(2) [OF i(5)] i by (simp add: on_block_def)
  moreover have "linked F ?en p k1"
    unfolding linked_def by (rule exI [of _ i], rule exI [of _ "t @ w"]) (use i assms(3) in simp)
  ultimately show ?thesis using i(1) by (auto simp: same_but_def)
qed

lemma createBasicLink_ok:
  assumes en: "engine_ok F B en" and url: "cstring url = Some u" "0 \<notin> set u" and suid: "length suid = 16"
  shows "\<exists>p en1. createBasicLink url suid en = Some (p, en1) \<and> extends en en1 \<and> en_attempts en1 = en_attempts en \<and>
    (p = None \<or> p = Some (en_next en) \<and> linked F en1 p 46)"
proof -
  have wf: "en_wf en" "fst F \<le> en_next en" using en by (simp_all add: engine_ok_def static_ok_def)
  obtain b en1 where m: "en_malloc (basic_link_size (length u)) en = (b, en1)" by fastforce
  note s = en_malloc_same(1) [OF m]
  have e: "extends en en1" by (rule same_memory_extends [OF wf(1) s])
  show ?thesis
  proof (cases b)
    case None
    then show ?thesis using m e s url by (auto simp: createBasicLink_def Let_def same_memory_def)
  next
    case (Some b1)
    let ?t = "u @ bytes_text False suid"
    have a: "addBytesToUri suid False (u @ replicate (basic_link_size (length u) - length u) 0) = Some (?t @ replicate 46 0)"
      using addBytesToUri_padded [OF url(2), of 78 False suid] bytes_text_length(1) [OF suid]
      by (simp add: basic_link_size_def)
    obtain q en2 where q: "new_block (?t @ replicate 46 0) en1 = (q, en2)" by fastforce
    note nb = new_block_extends [OF extends_wf [OF e], of "?t @ replicate 46 0", unfolded q fst_conv snd_conv]
    have nx: "en_next en1 = en_next en" "en_attempts en1 = en_attempts en" using s by (simp_all add: same_memory_def)
    have "createBasicLink url suid en = Some (q, en2)" using m Some a q url by (simp add: createBasicLink_def Let_def)
    moreover have "extends en en2" using extends_trans [OF e nb(1)] .
    moreover have "linked F en2 q 46"
      unfolding linked_def
      by (rule exI [of _ "en_next en"], rule exI [of _ ?t])
        (use nb nx wf url(2) bytes_text_nonzero extends_wf [OF nb(1)] in \<open>auto simp: en_wf_def\<close>)
    ultimately show ?thesis using nb nx by auto
  qed
qed

text \<open>The recovery looks at the registry only.\<close>

lemma factoryResetAssumed_total: "\<exists>r. factoryResetAssumed ag = Some r \<and> ag_events (snd r) = ag_events ag \<and>
    agent_ok (snd r) = agent_ok ag"
proof -
  obtain r1 buf1 n1 w1 where 1: "regReadAuthToken (ag_world ag) = Some ((r1, buf1, n1), w1)"
    using reg_reads_ok(1) unfolding read_ok_def by blast
  obtain r2 buf2 n2 w2 where 2: "regReadRoot w1 = Some ((r2, buf2, n2), w2)"
    using reg_reads_ok(2) unfolding read_ok_def by blast
  show ?thesis using 1 2 by (cases "r1 = MC_DRV_OK"; cases "r2 = MC_DRV_OK") (simp_all add: factoryResetAssumed_def on_world_def)
qed

text \<open>The state in front of the loop.\<close>

definition start_ok :: "before \<Rightarrow> nat \<Rightarrow> engine \<Rightarrow> provisioning \<Rightarrow> bool" where
  "start_ok F B en0 s \<longleftrightarrow> (\<exists>es. events (pv_engine s) = events en0 @ es \<and> es \<noteq> []) \<and>
     en_transfers (pv_engine s) = en_transfers en0 \<and>
     (if workToDo s then prov_inv F B s else ends_reported s \<and> valid_link F (pv_engine s) (pv_link s) \<and> static_ok F (pv_engine s))"

text \<open>The state before the recovery: the link has room for the UUID until it was added.\<close>

definition before_ok :: "before \<Rightarrow> nat \<Rightarrow> engine \<Rightarrow> nat \<Rightarrow> provisioning \<Rightarrow> bool" where
  "before_ok F B en0 k s \<longleftrightarrow> engine_ok F B (pv_engine s) \<and> linked F (pv_engine s) (pv_link s) k \<and>
     pv_rel s \<in> {RELATION_INITIAL_POST, RELATION_INITIAL_DELETE} \<and> pv_command s = None \<and>
     pendingLink s = None \<and> pendingRel s = None \<and> usedLink s = None \<and> usedRel s = None \<and> usedCommand s = None \<and>
     (\<forall>d. pv_response s = Some d \<longrightarrow> length d \<le> B) \<and>
     (\<exists>es. events (pv_engine s) = events en0 @ es \<and> es \<noteq> []) \<and>
     en_transfers (pv_engine s) = en_transfers en0 \<and> (\<not> workToDo s \<longrightarrow> ends_reported s)"

lemma recover_ok:
  assumes b: "before_ok F B en0 k s" "0 < k" and url: "cstring url = Some u" "0 \<notin> set u" "length suid = 16"
  shows "\<exists>s1. recover_from_reset url suid s = Some s1 \<and> start_ok F B en0 s1"
proof -
  obtain reset ag where f: "factoryResetAssumed (en_agent (pv_engine s)) = Some (reset, ag)" "ag_events ag = ag_events (en_agent (pv_engine s))"
    "agent_ok ag = agent_ok (en_agent (pv_engine s))"
    using factoryResetAssumed_total [of "en_agent (pv_engine s)"] by auto
  have e0: "engine_ok F B (pv_engine s)" "linked F (pv_engine s) (pv_link s) k" using b(1) by (simp_all add: before_ok_def)
  let ?en = "(pv_engine s)\<lparr>en_agent := ag\<rparr>" let ?s = "s\<lparr>pv_engine := ?en\<rparr>"
  have en: "engine_ok F B ?en" "linked F ?en (pv_link s) k" "events ?en = events (pv_engine s)" "en_transfers ?en = en_transfers (pv_engine s)"
    using e0 f(2,3) by (simp_all add: engine_ok_def linked_def en_wf_def static_ok_def events_def)
  have v: "valid_link F ?en (pv_link s)" using linked_valid [OF en(2) b(2)] .
  have rel: "valid_rel F ?en (pv_rel s)" "heap_rel (pv_rel s) = None" "pv_rel s \<noteq> None"
    using b(1) en(1) valid_consts [of F ?en] by (auto simp: before_ok_def engine_ok_def heap_rel_def RELATION_INITIAL_POST_def RELATION_INITIAL_DELETE_def)
  show ?thesis
  proof (cases "reset \<and> pv_rel s \<noteq> RELATION_INITIAL_DELETE \<and> workToDo s")
    case False
    then have r: "recover_from_reset url suid s = Some ?s" using f(1) by (auto simp: recover_from_reset_def Let_def)
    have "prov_inv F B ?s"
      using b(1) en(1) v rel by (simp add: prov_inv_def base_ok_def new_ok_def engine_ok_def before_ok_def distinct_ptrs_Cons del: not_None_eq)
    then have "start_ok F B en0 ?s" using b(1) en v by (simp add: start_ok_def before_ok_def ends_reported_def engine_ok_def [of F B ?en])
    with r show ?thesis by blast
  next
    case True
    obtain p en1 where c: "createBasicLink url suid ?en = Some (p, en1)" "extends ?en en1" "en_attempts en1 = en_attempts ?en"
      "p = None \<or> p = Some (en_next ?en) \<and> linked F en1 p 46"
      using createBasicLink_ok [OF en(1) url] by blast
    let ?s1 = "s\<lparr>pv_engine := en1, pendingLink := pv_link s, pendingRel := pv_rel s, pv_rel := RELATION_INITIAL_DELETE, pv_link := p\<rparr>"
    have r: "recover_from_reset url suid s = Some ?s1" using f(1) True c(1) by (simp add: recover_from_reset_def Let_def)
    have en1: "engine_ok F B en1" using engine_ok_extends [OF en(1) c(2)] .
    have v1: "valid_link F en1 (pv_link s)" using v valid_extends(1) [OF _ c(2)] en(1) by (simp add: engine_ok_def)
    have vp: "valid_link F en1 p" using c(4) linked_valid [of F en1 p 46] by auto
    have ne: "p = None \<or> p \<noteq> pv_link s" using c(4) en(2) by (auto simp: linked_def)
    have "valid_rel F en1 RELATION_INITIAL_DELETE" "heap_rel RELATION_INITIAL_DELETE = None"
      using en1 valid_consts [of F en1] by (simp_all add: engine_ok_def heap_rel_def)
    then have "prov_inv F B ?s1"
      using b(1) en1 v1 vp ne by (simp add: prov_inv_def base_ok_def new_ok_def engine_ok_def before_ok_def distinct_ptrs_Cons) auto
    moreover have "\<exists>es. events en1 = events (pv_engine s) @ es" using c(2) en(3) by (simp add: extends_def)
    ultimately have "start_ok F B en0 ?s1"
      using b(1) True extends_transfers [OF c(2)] en(4) by (auto simp: start_ok_def before_ok_def)
    with r show ?thesis by blast
  qed
qed

lemma add_uuid_ok:
  assumes l: "linked F en p k" "38 \<le> k" and u: "length uuid = 16"
  shows "\<exists>en1 k1. add_uuid uuid p en = Some en1 \<and> linked F en1 p k1 \<and> 0 < k1 \<and> same_but p en en1"
proof -
  obtain en1 where 1: "on_block addSlashToUri p en = Some en1" "linked F en1 p (k - 1)" "same_but p en en1"
    using on_block_linked [OF l(1), of addSlashToUri "[0x2F]" "k - 1"] addSlashToUri_padded l(2) by auto
  obtain en2 where 2: "on_block (addBytesToUri uuid True) p en1 = Some en2" "linked F en2 p (k - 1 - 36)" "same_but p en1 en2"
    using on_block_linked [OF 1(2), of "addBytesToUri uuid True" "bytes_text True uuid" "k - 1 - 36"]
      addBytesToUri_padded [of _ "k - 1" True uuid] bytes_text_length(2) [OF u] bytes_text_nonzero l(2) by auto
  have "same_but p en en2" using 1(3) 2(3) by (auto simp: same_but_def)
  then show ?thesis using 1(1) 2 l(2) by (intro exI [of _ en2] exI [of _ "k - 37"]) (simp add: add_uuid_def)
qed

lemma request_installation_ok:
  assumes b: "before_ok F B en0 k s" "0 < k" and sv: "services_ok B sv"
    and tlt: "\<And>tlt. tltDataP = Some tlt \<Longrightarrow> 38 \<le> k \<and> length (tlt_uuid tlt) = 16"
  shows "\<exists>s1 k1. request_installation sv tltDataP s = Some s1 \<and> before_ok F B en0 k1 s1 \<and> 0 < k1"
proof (cases tltDataP)
  case None
  then show ?thesis using b by (auto simp: request_installation_def)
next
  case (Some tlt)
  have en: "engine_ok F B (pv_engine s)" "linked F (pv_engine s) (pv_link s) k" using b(1) by (simp_all add: before_ok_def)
  obtain ret rsp en1 where i: "sv_buildInstallation sv tlt (pv_engine s) = ((ret, rsp), en1)" by (metis prod.collapse)
  have c: "calm (pv_engine s) en1" "\<forall>d. rsp = Some d \<longrightarrow> length d \<le> B" "events en1 = events (pv_engine s)"
    using services_calm(4) [OF sv _ i] en(1) by (auto simp: engine_ok_def)
  have e: "extends (pv_engine s) en1" using c(1) by (simp add: calm_def)
  have en1: "engine_ok F B en1" "linked F en1 (pv_link s) k" using engine_ok_extends [OF en(1) e] linked_extends [OF en(2) e] by auto
  have ev: "\<exists>es. events en1 = events en0 @ es \<and> es \<noteq> []" using b(1) e by (auto simp: before_ok_def extends_def)
  have tr: "en_transfers en1 = en_transfers en0" using b(1) extends_transfers [OF e] by (simp add: before_ok_def)
  show ?thesis
  proof (cases "ret \<noteq> ROOTPA_OK \<or> rsp = None")
    case True
    let ?r = "if ret = ROOTPA_OK then ROOTPA_ERROR_XML else ret"
    let ?s1 = "(pv_report ERROR_STATE ?r (s\<lparr>pv_engine := en1, pv_response := rsp, pv_ret := ?r\<rparr>))\<lparr>workToDo := False\<rparr>"
    have "request_installation sv tltDataP s = Some ?s1" using Some i True by (simp add: request_installation_def Let_def)
    moreover have "before_ok F B en0 k ?s1"
      using b(1) en1 ev tr c(2) by (auto simp: before_ok_def engine_ok_def linked_def ends_reported_def)
    ultimately show ?thesis using b(2) by blast
  next
    case False
    obtain en2 k1 where a: "add_uuid (tlt_uuid tlt) (pv_link s) en1 = Some en2" "linked F en2 (pv_link s) k1" "0 < k1"
      "same_but (pv_link s) en1 en2"
      using add_uuid_ok [OF en1(2)] tlt [OF Some] by blast
    note sb = same_but_ok [OF a(4) en1(2,1)]
    let ?s1 = "s\<lparr>pv_engine := en2, pv_response := rsp, pv_ret := ret\<rparr>"
    have "request_installation sv tltDataP s = Some ?s1" using Some i False a(1) by (auto simp: request_installation_def Let_def)
    moreover have "before_ok F B en0 k1 ?s1"
      using b(1) sb(1,2,4) a(2) tr c(2,3) by (simp add: before_ok_def ends_reported_def)
    ultimately show ?thesis using a(3) by blast
  qed
qed

lemma add_spid_ok:
  assumes "linked F en p 46" "engine_ok F B en"
  shows "\<exists>en1 k. add_spid spid p en = Some en1 \<and> linked F en1 p k \<and> 0 < k \<and>
    (spid = 0 \<or> length (int_text spid) \<le> 7 \<longrightarrow> 38 \<le> k) \<and> engine_ok F B en1 \<and> events en1 = events en \<and> en_transfers en1 = en_transfers en"
proof (cases "spid = 0")
  case True
  then show ?thesis using assms by (auto simp: add_spid_def)
next
  case False
  let ?x = "take 11 (0x2F # int_text spid)"
  have "0 \<notin> set ?x" using int_text_nonzero [of spid] set_take_subset [of 11 "0x2F # int_text spid"] by fastforce
  then obtain en1 where 1: "on_block (addIntToUri spid) p en = Some en1" "linked F en1 p (46 - length ?x)" "same_but p en en1"
    using on_block_linked [OF assms(1), of "addIntToUri spid" ?x "46 - length ?x"] addIntToUri_any [of _ 46 spid] by auto
  have "length ?x \<le> 11" "length ?x \<le> Suc (length (int_text spid))" by simp_all
  then have "0 < 46 - length ?x" "length (int_text spid) \<le> 7 \<longrightarrow> 38 \<le> 46 - length ?x" by linarith+
  then show ?thesis using 1 False same_but_ok(1,2,4) [OF 1(3) assms]
    by (intro exI [of _ en1] exI [of _ "46 - length ?x"]) (simp add: add_spid_def)
qed

definition installable :: "initialRel \<Rightarrow> u32 \<Rightarrow> trustletInstallationData option \<Rightarrow> bool" where
  "installable rel spid tltDataP \<longleftrightarrow> (\<forall>tlt. tltDataP = Some tlt \<longrightarrow> length (tlt_uuid tlt) = 16 \<and>
     (rel = initialRel_DELETE \<or> spid = 0 \<or> length (int_text spid) \<le> 7))"

lemma prepare_first_ok:
  assumes en: "engine_ok F B en" "linked F en link 46" and sv: "services_ok B sv" and inst: "installable rel spid tltDataP"
    and url: "cstring url = Some u" "0 \<notin> set u" "length suid = 16"
  shows "\<exists>s. prepare_first sv spid suid rel tltDataP url link en = Some s \<and> start_ok F B en s"
proof -
  obtain en1 k where 1: "(if rel = initialRel_DELETE then Some en else add_spid spid link en) = Some en1" "linked F en1 link k" "0 < k"
    "rel = initialRel_DELETE \<or> spid = 0 \<or> length (int_text spid) \<le> 7 \<longrightarrow> 38 \<le> k" "engine_ok F B en1" "events en1 = events en"
    "en_transfers en1 = en_transfers en"
  proof (cases "rel = initialRel_DELETE")
    case True
    then show thesis using that [of en 46] en by simp
  next
    case False
    then show thesis using that add_spid_ok [OF en(2,1), of spid] by auto
  qed
  let ?rel = "if rel = initialRel_DELETE then RELATION_INITIAL_DELETE else RELATION_INITIAL_POST"
  let ?en = "report CONNECTING_SERVICE_ENABLER ROOTPA_OK en1"
  obtain ret en2 where o: "openSeClientAndInit ?en = (ret, en2)" by fastforce
  have sm: "same_memory ?en en2"
    using o setopts_same [of 2 ?en] by (auto simp: openSeClientAndInit_def split: prod.splits simp del: setopts.simps)
  have wf: "en_wf ?en" using 1(5) by (simp add: engine_ok_def)
  have e2: "extends ?en en2" by (rule same_memory_extends [OF wf sm])
  have en2: "engine_ok F B en2" "linked F en2 link k" "events en2 = events en @ [(CONNECTING_SERVICE_ENABLER, ROOTPA_OK)]"
    "en_transfers en2 = en_transfers en"
  proof -
    have "engine_ok F B ?en" "linked F ?en link k" using 1 by (simp_all add: engine_ok_def linked_def)
    then show "engine_ok F B en2" "linked F en2 link k"
      using engine_ok_extends [OF _ e2] linked_extends [OF _ e2] by blast+
  qed (use 1 sm in \<open>simp_all add: same_memory_def\<close>)
  define s where "s = (first_state en2 link ?rel)\<lparr>pv_ret := ret\<rparr>"
  define s1 where "s1 = (if ret \<noteq> ROOTPA_OK then (pv_report ERROR_STATE ret s)\<lparr>workToDo := False\<rparr> else s)"
  have b: "before_ok F B en k s1"
    using en2 by (auto simp: before_ok_def s1_def s_def first_state_def engine_ok_def linked_def ends_reported_def)
  obtain s2 k2 where 2: "request_installation sv tltDataP s1 = Some s2" "before_ok F B en k2 s2" "0 < k2"
    using request_installation_ok [OF b 1(3) sv, of tltDataP] inst 1(4) unfolding installable_def by blast
  obtain s3 where 3: "recover_from_reset url suid s2 = Some s3" "start_ok F B en s3"
    using recover_ok [OF 2(2,3) url] by blast
  have "prepare_first sv spid suid rel tltDataP url link en = Some s3"
    unfolding prepare_first_def 1(1) Option.bind.simps Let_def o prod.case s_def [symmetric] s1_def [symmetric] 2(1)
    by (rule 3(1))
  with 3(2) show ?thesis by blast
qed

lemma ensure_url_ok:
  assumes "cstring initialUrl = Some u"
  shows "\<exists>url v. ensure_url initialUrl = Some url \<and> cstring url = Some v \<and> 0 \<notin> set v"
proof (cases "u = []")
  case True
  have "buf_write 0 SE_URL empty_url = Some (SE_URL @ replicate (255 - length SE_URL) 0)"
    by (simp add: buf_write_def empty_url_def INITIAL_URL_BUFFER_LENGTH_def SE_URL_def)
  moreover have "cstring (SE_URL @ replicate (255 - length SE_URL) 0) = Some SE_URL" "0 \<notin> set SE_URL"
    by (rule padded_cstring) (simp_all add: SE_URL_def ascii_def)
  ultimately show ?thesis using True assms by (simp add: ensure_url_def empty_text_def)
next
  case False
  have "0 \<notin> set u" using assms by (auto simp: cstring_def split: if_splits dest: set_takeWhileD)
  then show ?thesis using False assms by (simp add: ensure_url_def empty_text_def)
qed

text \<open>All memory in front of a run.\<close>

definition before :: "engine \<Rightarrow> before" where
  "before en = (en_next en, en_mem en)"

lemma run_reports:
  assumes "engine_ok F B en" "services_ok B sv" "B < 2 ^ 32" "\<forall>i\<ge>N. tr_headers (en_transfers en i) = []"
    and "cstring initialUrl = Some u" "length suid = 16" "installable rel spid tltDataP"
  shows "\<exists>url en1 es. doProvisioningWithSe sv spid suid rel tltDataP initialUrl en = Some (Done (url, en1)) \<and>
    events en1 = events en @ es \<and> es \<noteq> [] \<and> fst (last es) \<in> {FINISHED_PROVISIONING, ERROR_STATE} \<and> static_ok F en1"
proof -
  obtain url v where url: "ensure_url initialUrl = Some url" "cstring url = Some v" "0 \<notin> set v"
    using ensure_url_ok [OF assms(5)] by blast
  obtain p en1 where c: "createBasicLink url suid en = Some (p, en1)" "extends en en1" "p = None \<or> p = Some (en_next en) \<and> linked F en1 p 46"
    using createBasicLink_ok [OF assms(1) url(2,3) assms(6)] by blast
  obtain es0 where es0: "events en1 = events en @ es0" using c(2) by (auto simp: extends_def)
  note e1 = engine_ok_extends [OF assms(1) c(2)]
  show ?thesis
  proof (cases p)
    case None
    have "static_ok F (report ERROR_STATE ROOTPA_ERROR_OUT_OF_MEMORY en1)" using e1 by (simp add: engine_ok_def)
    then show ?thesis using None url(1) c(1) es0 by (simp add: doProvisioningWithSe_def)
  next
    case (Some i)
    have l: "linked F en1 (Some i) 46" using c(3) Some by auto
    obtain s where s: "prepare_first sv spid suid rel tltDataP url (Some i) en1 = Some s" "start_ok F B en1 s"
      using prepare_first_ok [OF e1 l assms(2,7) url(2,3) assms(6)] by blast
    obtain es1 where es1: "events (pv_engine s) = events en @ es0 @ es1" "es1 \<noteq> []" using s(2) es0 by (auto simp: start_ok_def)
    have tr: "en_transfers (pv_engine s) = en_transfers en" using s(2) extends_transfers [OF c(2)] by (simp add: start_ok_def)
    obtain s1 where s1: "prov_loop sv s = Some (Done s1)" "ends_reported s1" "valid_link F (pv_engine s1) (pv_link s1)"
      "\<exists>es. events (pv_engine s1) = events (pv_engine s) @ es" "static_ok F (pv_engine s1)"
    proof (cases "workToDo s")
      case True
      then show thesis using that prov_loop_ends [of F B s sv N] s(2) assms(2-4) tr by (fastforce simp: start_ok_def)
    next
      case False
      then show thesis using that [of s] s(2) by (simp add: prov_loop.simps start_ok_def)
    qed
    obtain es2 where es2: "events (pv_engine s1) = events en @ es0 @ es1 @ es2" using s1(4) es1(1) by auto
    let ?en2 = "without [pv_link s1] (pv_engine s1)"
    have f: "en_free (pv_link s1) (pv_engine s1) = Some ?en2" by (rule en_free_valid [OF s1(3)])
    have st: "static_ok F ?en2"
      using static_without [OF s1(5,3), of None None] by (simp add: static_ok_def without_mem)
    have "fst (last (es0 @ es1 @ es2)) \<in> {FINISHED_PROVISIONING, ERROR_STATE}"
      using s1(2) es1(2) es2 unfolding ends_reported_def by simp
    then show ?thesis using url(1) c(1) Some s(1) s1(1) f es1(2) es2 st
      by (intro exI [of _ url] exI [of _ ?en2] exI [of _ "es0 @ es1 @ es2"])
        (simp add: doProvisioningWithSe_def)
  qed
qed


definition quiet_services :: services where
  "quiet_services = \<lparr>sv_sysInfo = (\<lambda>en. ((ROOTPA_OK, \<lparr>imeiEsnP = None, mnoP = None, brandP = None, manufacturerP = None,
       hardwareP = None, modelP = None, versionP = None\<rparr>), en)),
     sv_version = (\<lambda>en. Some ((ROOTPA_OK, 1, []), en)), sv_buildSystemInfo = (\<lambda>_ _ _ en. ((ROOTPA_OK, Some [60]), en)),
     sv_buildInstallation = (\<lambda>_ en. ((ROOTPA_OK, Some [60]), en)), sv_handleXml = (\<lambda>_ en. ((ROOTPA_OK, Some [60]), en))\<rparr>"

lemma quiet_services_ok: "1 \<le> B \<Longrightarrow> services_ok B quiet_services"
  by (simp add: services_ok_def quiet_services_def calm_def os_ptrs_def fresh_def distinct_ptrs_def)

lemma quiet_engine_ok: "(\<And>i. polite RELATION_SELF B (trs i)) \<Longrightarrow> engine_ok (2, en_mem (quiet_engine trs)) B (quiet_engine trs)"
  by (auto simp: agent_ok_def engine_ok_def quiet_engine_def en_wf_def static_ok_def INITIAL_POST_text_def INITIAL_DELETE_text_def split: if_splits)


subsection \<open>The relation self\<close>

text \<open>A round that received the relation \<open>self\<close> takes the pointers of the round before back and
  then frees them at its end, so the next round reads freed memory: every run in which the service
  enabler sends that relation faults.\<close>

lemma self_relation_faults:
  assumes "workToDo s" "rel_is RELATION_SELF (pv_rel s) (pv_engine s) = Some True"
    and cur: "valid_link F (pv_engine s) (pv_link s)" "valid_command F (pv_engine s) (pv_command s)" "pv_command s \<noteq> None" "pv_link s \<noteq> None"
    and used: "valid_link F (pv_engine s) (usedLink s)" "valid_rel F (pv_engine s) (usedRel s)" "valid_command F (pv_engine s) (usedCommand s)"
    and heap: "heap_rel (pv_rel s) = pv_rel s" "heap_rel (usedRel s) = usedRel s" "usedRel s \<noteq> None"
    and distinct: "distinct_ptrs ([pv_command s, pv_rel s, pv_link s] @ [usedCommand s, usedRel s, usedLink s])"
  shows "prov_loop sv s = Some Fault"
proof -
  obtain i where i: "pv_rel s = Some i" "en_mem (pv_engine s) i \<noteq> None"
    using assms(2) by (cases "pv_rel s") (auto simp: rel_is_def deref_def bind_eq_Some_conv)
  obtain j where j: "usedRel s = Some j" using heap(3) by auto
  have dj: "distinct_ptrs [pv_command s, pv_rel s, pv_link s]" "distinct_ptrs [usedCommand s, usedRel s, usedLink s]"
    "\<And>k. Some k \<in> set [pv_command s, pv_rel s, pv_link s] \<Longrightarrow> Some k \<notin> set [usedCommand s, usedRel s, usedLink s]"
    using distinct unfolding distinct_ptrs_append by blast+
  let ?cur = "[pv_command s, pv_rel s, pv_link s]" let ?used = "[usedCommand s, usedRel s, usedLink s]"
  have f1: "cleanup (pv_link s) (pv_rel s) (pv_command s) (pv_engine s) = Some (without ?cur (pv_engine s))"
    unfolding cleanup_free_all heap(1) by (rule free_all_ok [OF dj(1)]) (use cur i in \<open>auto simp: valid_defs\<close>)
  let ?en1 = "without ?cur (pv_engine s)"
  have keep: "en_mem ?en1 k = en_mem (pv_engine s) k" if "Some k \<in> set ?used" for k
    using dj(3) [of k] that by (auto simp: without_mem)
  have f2: "cleanup (usedLink s) (usedRel s) (usedCommand s) ?en1 = Some (without ?used ?en1)"
    unfolding cleanup_free_all heap(2)
  proof (rule free_all_ok [OF dj(2)], intro allI impI)
    fix k assume k: "Some k \<in> set ?used"
    then have "usedLink s = Some k \<or> usedRel s = Some k \<or> usedCommand s = Some k" by auto
    then have "en_mem (pv_engine s) k \<noteq> None" using used by (auto simp: valid_defs)
    then show "en_mem ?en1 k \<noteq> None" using keep [OF k] by simp
  qed
  have rel1: "rel_is RELATION_SELF (usedRel s) ?en1 = Some False"
  proof -
    have "valid_rel F ?en1 (usedRel s)" using used(2) keep [of j] j by (auto simp: valid_rel_def)
    then show ?thesis using rel_is_self j by simp
  qed
  obtain a b where ab: "pv_command s = Some a" "pv_link s = Some b" using cur(3,4) by auto
  have ne: "pv_rel s \<noteq> usedRel s" "pv_link s \<noteq> usedLink s" "pv_command s \<noteq> usedCommand s"
    using dj(3) [of i] dj(3) [of a] dj(3) [of b] i(1) ab by auto
  let ?s1 = "s\<lparr>pv_engine := ?en1, pv_rel := usedRel s, pv_link := usedLink s, pv_command := usedCommand s\<rparr>"
  let ?s2 = "?s1\<lparr>pv_engine := without ?used ?en1, usedLink := None, usedRel := None, usedCommand := None, pv_response := None\<rparr>"
  have restored: "restore_used s = Some ?s1" using f1 ne by (simp add: restore_used_def)
  have finished: "finish_round ?s1 = Some ?s2"
    using assms(1) rel1 f2 j by (simp add: finish_round_def drop_used_def)
  have step1: "prov_step sv s = Some ?s2" using assms(2) i(1) restored finished by (simp add: prov_step_def)
  have step2: "prov_step sv ?s2 = None" using j by (simp add: prov_step_def rel_is_def deref_def without_mem)
  have "workToDo ?s2" using assms(1) by simp
  with prov_loop_step [OF assms(1) step1] prov_loop_fault [OF _ step2] show ?thesis by simp
qed

text \<open>The state after a first answer with the relation \<open>self\<close>.\<close>

definition self_state :: provisioning where
  "self_state = (first_state ((quiet_engine (\<lambda>_. quiet_transfer))\<lparr>en_next := 8,
       en_mem := [2 \<mapsto> [97, 0], 3 \<mapsto> RELATION_SELF @ [0], 4 \<mapsto> [0], 5 \<mapsto> [98, 0], 6 \<mapsto> RELATION_NEXT @ [0], 7 \<mapsto> [0]]\<rparr>) (Some 2) (Some 3))
     \<lparr>pv_command := Some 4, usedLink := Some 5, usedRel := Some 6, usedCommand := Some 7\<rparr>"

lemma self_relation_faults_witness: "prov_loop quiet_services self_state = Some Fault"
proof (rule self_relation_faults)
  have "\<not> sublist RELATION_SELF RELATION_NEXT"
    using sublist_length_le [of RELATION_SELF RELATION_NEXT]
    by (auto simp: RELATION_SELF_def RELATION_NEXT_def ascii_def sublist_code)
  then show "valid_rel (2, en_mem (pv_engine self_state)) (pv_engine self_state) (usedRel self_state)"
    by (simp add: self_state_def first_state_def valid_rel_def)
  show "rel_is RELATION_SELF (pv_rel self_state) (pv_engine self_state) = Some True"
    by (simp add: rel_is_def deref_def self_state_def first_state_def strstr_def RELATION_SELF_def ascii_def)
qed (simp_all add: self_state_def first_state_def valid_defs heap_rel_def RELATION_INITIAL_POST_def RELATION_INITIAL_DELETE_def
    distinct_ptrs_def)

end
