(* ===== verification/CommandFacts.thy ===== *)
theory CommandFacts
  imports CommandHandler ProvisioningRuns
begin

text \<open>
  Properties of the entry points: the agent's own commands answer inside their response, the
  provisioning thread ends, reports its exit last and frees the data it owns, and the queries give
  what the registry holds.
\<close>

subsection \<open>Commands that are only an id\<close>

text \<open>They read no container, store none and call no callback.\<close>

definition plain :: "u32 \<Rightarrow> bool" where
  "plain c \<longleftrightarrow> c \<in> {MC_CMP_CMD_GET_VERSION, MC_CMP_CMD_GET_SUID}"

lemma malloc_events: "ag_malloc n ag = (b, ag1) \<Longrightarrow> ag_events ag1 = ag_events ag"
  by (auto simp: ag_malloc_def split: prod.splits)

lemma driver_events: "on_driver f ag = (r, ag1) \<Longrightarrow> ag_events ag1 = ag_events ag"
  by (auto simp: on_driver_def split: prod.splits)

lemma ensure_events: "ag_events (pr_agent (snd (ensureMappedBufferSize n p))) = ag_events (pr_agent p)"
  by (auto simp: ensureMappedBufferSize_def Let_def split: option.splits prod.splits dest: malloc_events)

lemma prepareCommand_events:
  assumes "plain c" "prepareCommand c cmd h rsp ag = Some (ret, h', rsp', ag')"
  shows "ag_events ag' = ag_events ag"
proof -
  have s: "prepare_switch c p = Some p" for p
    using assms(1) unfolding plain_def insert_iff by (elim disjE) (simp_all add: prepare_switch_def)
  have m: "ag_events (pr_agent p) = ag_events ag" if "prepare_message c cmd h ag = Some (ok, p)" for ok p
    using that ensure_events by (auto simp: prepare_message_def bind_eq_Some_conv Let_def case_prod_unfold split: bool.splits)
  show ?thesis using assms(2) by (auto simp: prepareCommand_def bind_eq_Some_conv s dest!: m split: if_splits)
qed

lemma transmit_events: "tltChannelTransmit (Some h) ag = (ok, h', ag') \<Longrightarrow> ag_events ag' = ag_events ag"
  by (auto simp: tltChannelTransmit_def Let_def dest!: driver_events split: prod.splits if_splits)

lemma after_transmit_events:
  assumes "after_transmit (h, cmd, rsp, ag) = Some (t, h', cmd', rsp', ag')"
  shows "ag_events ag' = ag_events ag"
proof -
  obtain r ag1 where u: "on_driver mcUnmap ag = (r, ag1)" by fastforce
  show ?thesis using assms u driver_events [OF u] by (auto simp: after_transmit_def split: if_splits)
qed

lemma cmp_attempt_events:
  assumes p: "plain c" and a: "cmp_attempt c (h, cmd, rsp, ag) = Some (t, h', cmd', rsp', ag')"
  shows "ag_events ag' = ag_events ag"
proof -
  obtain bo ag1 where m: "ag_malloc (unat (mappedSize h)) ag = (bo, ag1)" by fastforce
  obtain r addr ag2 where d: "on_driver mcMap ag1 = ((r, addr), ag2)" by (metis prod.collapse)
  have e: "ag_events ag2 = ag_events ag" "ag_events ag1 = ag_events ag"
    using malloc_events [OF m] driver_events [OF d] by simp_all
  show ?thesis
  proof (cases "bo = None \<or> r \<noteq> MC_DRV_OK")
    case True
    then show ?thesis using a m d e by (auto simp: cmp_attempt_def Let_def split: option.splits)
  next
    case False
    then obtain b where b: "bo = Some b" "r = MC_DRV_OK" by auto
    let ?h = "h\<lparr>mappedP := Some (replicate (unat (mappedSize h)) 0), mapInfo_addr := addr, mapInfo_len := mappedSize h\<rparr>"
    obtain ret h2 rsp1 ag3 where q: "prepareCommand c cmd ?h rsp ag2 = Some (ret, h2, rsp1, ag3)"
      using a m b d by (auto simp: cmp_attempt_def Let_def bind_eq_Some_conv)
    obtain ok h3 ag4 where x: "tltChannelTransmit (Some h2) ag3 = (ok, h3, ag4)" by (metis prod.collapse)
    have "ag_events ag3 = ag_events ag" "ag_events ag4 = ag_events ag"
      using prepareCommand_events [OF p q] transmit_events [OF x] e by simp_all
    then show ?thesis using a m b d q x by (auto simp: cmp_attempt_def Let_def split: if_splits dest: after_transmit_events)
  qed
qed

lemma exchange_loop_events:
  "exchange_loop c (h, cmd, rsp, ag) = Some (ret, h', cmd', rsp', ag') \<Longrightarrow> plain c \<Longrightarrow> ag_events ag' = ag_events ag"
proof (induction c "(h, cmd, rsp, ag)" arbitrary: h cmd rsp ag rule: exchange_loop.induct)
  case (1 c h cmd rsp ag)
  obtain t h1 cmd1 rsp1 ag1 where x: "cmp_attempt c (h, cmd, rsp, ag) = Some (t, h1, cmd1, rsp1, ag1)"
    using 1(2) by (cases "cmp_attempt c (h, cmd, rsp, ag)") (auto simp: exchange_loop.simps)
  note e = cmp_attempt_events [OF 1(3) x]
  show ?case
  proof (cases t)
    case (Finished r)
    then show ?thesis using 1(2) x e by (simp add: exchange_loop.simps)
  next
    case Again
    then have "exchange_loop c (h1, cmd1, rsp1, ag1) = Some (ret, h', cmd', rsp', ag')"
      using 1(2) x by (simp add: exchange_loop.simps)
    from 1(1) [OF x refl Again this 1(3)] e show ?thesis by simp
  qed
qed

lemma element_length:
  "getRspElementInfo 1 (Some h) a b = Some (ok, i, off, len) \<Longrightarrow> getRspElementInfo 1 (Some h) a' b' = Some (ok', i', off', len') \<Longrightarrow>
   ok \<Longrightarrow> ok' \<Longrightarrow> off = off' \<and> len = len'"
  by (auto simp: getRspElementInfo_def split: option.splits if_splits)

lemma allocated_length:
  assumes "allocateResponseBuffer rsp h ag = Some (r, rsp1, ag1)"
  shows "ag_events ag1 = ag_events ag"
    "r = ROOTPA_OK \<Longrightarrow> getRspElementInfo 1 (Some h) 0 0 = Some (ok, i, off, len) \<Longrightarrow> ok \<Longrightarrow> cmp_length rsp1 = len"
proof -
  obtain ok' i' off' len' where e: "getRspElementInfo 1 (Some h) 0 (cmp_length rsp) = Some (ok', i', off', len')"
    using assms by (auto simp: allocateResponseBuffer_def)
  obtain b ag2 where m: "ag_malloc (unat len') ag = (b, ag2)" by fastforce
  show "ag_events ag1 = ag_events ag"
    using assms e m malloc_events [OF m] by (auto simp: allocateResponseBuffer_def Let_def split: if_splits option.splits)
  assume "r = ROOTPA_OK" "getRspElementInfo 1 (Some h) 0 0 = Some (ok, i, off, len)" ok
  then show "cmp_length rsp1 = len"
    using assms e m element_length [OF e] by (auto simp: allocateResponseBuffer_def Let_def split: if_splits option.splits)
qed

text \<open>A response that is handled well holds as many bytes as it says.\<close>

lemma handleResponse_plain:
  assumes p: "plain c" and h: "handleResponse c rsp h ag = Some (ret, rsp', ag')"
  shows "ag_events ag' = ag_events ag" "ret = ROOTPA_OK \<Longrightarrow> \<exists>d. contentP rsp' = Some d \<and> length d = unat (cmp_length rsp')"
proof -
  have s: "storeContainers c h i off ag1 = Some (MC_DRV_OK, ag1)" for i off ag1
    using p unfolding plain_def insert_iff by (elim disjE) (simp_all add: storeContainers_def)
  obtain valid where v: "isValidResponseTo c (wsmP h) = Some valid" using h by (auto simp: handleResponse_def bind_eq_Some_conv)
  show "ag_events ag' = ag_events ag"
    using h by (auto simp: handleResponse_def bind_eq_Some_conv Let_def s registry_outcome_def split: if_splits dest!: allocated_length(1))
  assume "ret = ROOTPA_OK"
  then obtain rsp1 ag1 i off len d where x: "allocateResponseBuffer rsp h ag = Some (ROOTPA_OK, rsp1, ag1)"
    "getRspElementInfo 1 (Some h) 0 0 = Some (True, i, off, len)" "rsp_data h off len = Some d" "rsp' = rsp1\<lparr>contentP := Some d\<rparr>"
    using h by (auto simp: handleResponse_def bind_eq_Some_conv Let_def s registry_outcome_def split: if_splits)
  have "length d = unat len" using x(3) by (auto simp: rsp_data_def bind_eq_Some_conv buf_read_length)
  then show "\<exists>d. contentP rsp' = Some d \<and> length d = unat (cmp_length rsp')"
    using x allocated_length(2) [OF x(1) refl x(2)] by simp
qed

definition sized_response :: "cmp_message \<Rightarrow> bool" where
  "sized_response rsp \<longleftrightarrow> (\<exists>d. contentP rsp = Some d \<and> length d = unat (cmp_length rsp))"

definition id_message :: "u32 \<Rightarrow> cmp_message" where
  "id_message c = empty_message\<lparr>cmp_length := 4, contentP := Some (enc32 c)\<rparr>"

lemma id_message_simps [simp]:
  "cmp_length (id_message c) = 4" "contentP (id_message c) = Some (enc32 c)" "ignoreError (hdr (id_message c)) = False"
  "command_ok (id_message c)" "getCmpCommandId (Some (enc32 c)) = Some c"
  by (simp_all add: id_message_def empty_message_def command_ok_def getCmpCommandId_def ld32_def buf_read_def)

lemma one_plain_command:
  assumes p: "plain c" and e: "executeOneCmpCommand h (id_message c) rsp ag = Some (ret, h', cmd', rsp', ag')"
  shows "ag_events ag' = ag_events ag" "ret = ROOTPA_OK \<Longrightarrow> sized_response rsp'"
proof -
  let ?h = "h\<lparr>mappedSize := getTotalMappedBufferSize c 4\<rparr>"
  have size: "mappedSize ?h \<noteq> 0"
    using p unfolding plain_def insert_iff
    by (elim disjE) (simp_all add: getTotalMappedBufferSize_def getCmpSizeInfo_def sizeTable_def container_sizes bigger_def)
  obtain r h1 cmd1 rsp1 ag1 where x: "exchange_loop c (?h, id_message c, rsp, ag) = Some (r, h1, cmd1, rsp1, ag1)"
    using e size by (auto simp: executeOneCmpCommand_def bind_eq_Some_conv)
  obtain r1 rsp2 ag2 where y: "(if r = ROOTPA_OK then handleResponse c rsp1 h1 ag1 else Some (r, with_ret r rsp1, ag1)) = Some (r1, rsp2, ag2)"
    using e size x by (auto simp: executeOneCmpCommand_def bind_eq_Some_conv)
  obtain mr ag3 where u: "on_driver mcUnmap ag2 = (mr, ag3)" by fastforce
  have o: "ag' = ag3" "ret = (if mr \<noteq> MC_DRV_OK then ROOTPA_ERROR_MOBICORE_CONNECTION else r1)" "rsp' = note_ret ret rsp2"
    using e size x y u by (auto simp: executeOneCmpCommand_def Let_def)
  have "ag_events ag2 = ag_events ag1" using y handleResponse_plain(1) [OF p] by (auto split: if_splits)
  then show "ag_events ag' = ag_events ag"
    using exchange_loop_events [OF x p] driver_events [OF u] o(1) by simp
  assume "ret = ROOTPA_OK"
  then have "mr = MC_DRV_OK" "r1 = ROOTPA_OK" using o(2) by (auto split: if_splits)
  then have "sized_response rsp2"
    using y handleResponse_plain(2) [OF p, of rsp1 h1 ag1 r1 rsp2 ag2] by (auto simp: sized_response_def split: if_splits)
  then show "sized_response rsp'" using o(3) by (simp add: sized_response_def note_ret_def with_ret_def)
qed

lemma open_close_events:
  "openCmtlSession ag = (r, ag1) \<Longrightarrow> ag_events ag1 = ag_events ag" "ag_events (closeCmtlSession ag) = ag_events ag"
proof -
  have c: "ag_events (tltChannelClose ho a) = ag_events a" for ho a
    by (cases ho) (auto simp: tltChannelClose_def Let_def on_driver_def split: prod.splits)
  then show close: "ag_events (closeCmtlSession ag) = ag_events ag" for ag by (simp add: closeCmtlSession_def)
  have o: "tltChannelOpen n a = (x, a1) \<Longrightarrow> ag_events a1 = ag_events a" for n a x a1
    by (auto simp: tltChannelOpen_def taChannelOpen_def on_driver_def dest!: malloc_events split: option.splits prod.splits if_splits)
  show "ag_events ag1 = ag_events ag" if "openCmtlSession ag = (r, ag1)"
    using that o close by (auto simp: openCmtlSession_def Let_def split: prod.splits if_splits)
qed

lemma open_close_ok:
  assumes "agent_ok ag"
  shows "openCmtlSession ag = (r, ag1) \<Longrightarrow> agent_ok ag1" "agent_ok (closeCmtlSession ag)"
proof -
  have c: "agent_ok (closeCmtlSession a)" if "agent_ok a" for a
    using that tee_sane_cong [OF close_frame] by (simp add: agent_ok_def closeCmtlSession_def)
  show "agent_ok (closeCmtlSession ag)" by (rule c [OF assms])
  assume o: "openCmtlSession ag = (r, ag1)"
  let ?ag = "if static_handle ag \<noteq> None then closeCmtlSession ag else ag"
  obtain e ho ag2 where t: "tltChannelOpen sizeOfCmp ?ag = ((e, ho), ag2)" by (metis prod.collapse)
  have "agent_ok ?ag" using c assms by simp
  then show "agent_ok ag1"
    using o t open_frame [OF t] tee_sane_cong [of "ag_driver ag2" "ag_driver ?ag"]
    by (auto simp: openCmtlSession_def Let_def agent_ok_def)
qed

text \<open>The command of an id, with or without a session.\<close>

lemma run_id_command_ok:
  assumes p: "plain c" and ok: "agent_ok ag"
  obtains ret ie rsp ag1 where "run_id_command 4 c ag = Some (ret, ie, rsp, ag1)" "agent_ok ag1" "ag_events ag1 = ag_events ag"
    "ret = ROOTPA_OK \<longrightarrow> sized_response rsp"
proof -
  obtain r0 ag0 where o: "(if static_handle ag = None then openCmtlSession ag else (ROOTPA_OK, ag)) = (r0, ag0)" by fastforce
  have ok0: "agent_ok ag0" "ag_events ag0 = ag_events ag"
    using o ok open_close_ok(1) [OF ok, of r0 ag0] open_close_events(1) [of ag r0 ag0] by (auto split: if_splits)
  let ?close = "\<lambda>a. if static_handle ag = None then closeCmtlSession a else a"
  have close: "agent_ok (?close a)" "ag_events (?close a) = ag_events a" if "agent_ok a" for a
    using that open_close_ok(2) open_close_events(2) by simp_all
  have msg: "empty_message\<lparr>cmp_length := 4, contentP := Some (enc32 c)\<rparr> = id_message c" by (simp add: id_message_def)
  show thesis
  proof (cases "static_handle ag0")
    case None
    have "run_id_command 4 c ag = Some (ROOTPA_ERROR_MOBICORE_CONNECTION, 0, empty_message, ?close ag0)"
      using o None by (simp add: run_id_command_def executeContentManagementCommands_def Let_def)
    then show thesis using that close [OF ok0(1)] ok0 by simp
  next
    case (Some h)
    have h: "handle_ok h" "tee_sane (ag_driver ag0)" using ok0(1) Some by (simp_all add: agent_ok_def)
    let ?rsp = "empty_message\<lparr>hdr := (hdr empty_message)\<lparr>msg_id := msg_id (hdr (id_message c)), ignoreError := False\<rparr>\<rparr>"
    obtain r1 h1 cmd1 rsp1 ag1 where e: "executeOneCmpCommand h (id_message c) ?rsp ag0 = Some (r1, h1, cmd1, rsp1, ag1)"
      "handle_ok h1" "steady ag0 ag1" "ignoreError (hdr cmd1) = False"
      using executeOneCmpCommand_result [OF h(1) _ h(2), of "id_message c" ?rsp] by auto
    note q = one_plain_command [OF p e(1)]
    let ?ag2 = "ag1\<lparr>static_handle := Some h1\<rparr>"
    have a2: "agent_ok ?ag2" "ag_events ?ag2 = ag_events ag" using e(2,3) q(1) ok0(2) by (simp_all add: agent_ok_def steady_def)
    have run: "executeContentManagementCommands [(id_message c, empty_message)] ag =
      (if r1 \<noteq> ROOTPA_OK then Some (r1, 0, [(cmd1, note_ret r1 rsp1)], ?ag2)
       else Some (r0, if r0 \<noteq> ROOTPA_OK then lasterror h1 else 0, [(cmd1, rsp1)], ?close ?ag2))"
      using o Some e(1,4) by (simp add: executeContentManagementCommands_def Let_def)
    show thesis
    proof (cases "r1 = ROOTPA_OK")
      case True
      then show thesis using that run q(2) close [OF a2(1)] a2 by (simp add: run_id_command_def msg)
    next
      case False
      then show thesis using that run a2 by (simp add: run_id_command_def msg)
    qed
  qed
qed

text \<open>Both commands always return, and leave the agent in order.\<close>

lemma getVersion_ok:
  assumes "agent_ok ag"
  shows "\<exists>r ag1. getVersion tag version ag = Some (r, ag1) \<and> agent_ok ag1 \<and> ag_events ag1 = ag_events ag"
proof -
  obtain b ag0 where m: "ag_malloc 4 ag = (b, ag0)" by fastforce
  have ok0: "agent_ok ag0" "ag_events ag0 = ag_events ag"
    using assms ag_malloc_driver [OF m] malloc_events [OF m] by (simp_all add: agent_ok_def)
  have p: "plain MC_CMP_CMD_GET_VERSION" by (simp add: plain_def)
  obtain ret ie rsp ag1 where r: "run_id_command 4 MC_CMP_CMD_GET_VERSION ag0 = Some (ret, ie, rsp, ag1)" "agent_ok ag1"
    "ag_events ag1 = ag_events ag0" "ret = ROOTPA_OK \<longrightarrow> sized_response rsp"
    by (rule run_id_command_ok [OF p ok0(1)])
  note defs = getVersion_def GET_VERSION_COMMAND_LENGTH_def
  show ?thesis
  proof (cases "b \<noteq> None \<and> ret = ROOTPA_OK \<and> ie = 0 \<and> cmp_length rsp = of_nat sizeof_cmpRspGetVersion")
    case True
    then obtain d where d: "contentP rsp = Some d" "length d = 108"
      using r(4) by (auto simp: sized_response_def sizeof_cmpRspGetVersion_def sizeof_mcVersionInfo_def)
    then obtain t where "ld32 8 d = Some t" using ld32_Some_iff [of 8 d] by auto
    then show ?thesis using True m ok0 r d
      by (auto simp: defs sizeof_mcVersionInfo_def buf_read_def)
  next
    case False
    then show ?thesis using m ok0 r by (auto simp: defs split: option.splits)
  qed
qed

lemma getSuid_ok:
  assumes "agent_ok ag" "length suid = 16"
  shows "\<exists>r suid1 ag1. getSuid suid ag = Some ((r, suid1), ag1) \<and> agent_ok ag1 \<and> ag_events ag1 = ag_events ag \<and> length suid1 = 16"
proof -
  obtain b ag0 where m: "ag_malloc 4 ag = (b, ag0)" by fastforce
  have ok0: "agent_ok ag0" "ag_events ag0 = ag_events ag"
    using assms ag_malloc_driver [OF m] malloc_events [OF m] by (simp_all add: agent_ok_def)
  have p: "plain MC_CMP_CMD_GET_SUID" by (simp add: plain_def)
  obtain ret ie rsp ag1 where r: "run_id_command 4 MC_CMP_CMD_GET_SUID ag0 = Some (ret, ie, rsp, ag1)" "agent_ok ag1"
    "ag_events ag1 = ag_events ag0" "ret = ROOTPA_OK \<longrightarrow> sized_response rsp"
    by (rule run_id_command_ok [OF p ok0(1)])
  note defs = getSuid_def GET_SUID_COMMAND_LENGTH_def
  show ?thesis
  proof (cases "b \<noteq> None \<and> ret = ROOTPA_OK \<and> ie = 0 \<and> cmp_length rsp = of_nat sizeof_cmpRspGetSuid")
    case True
    then obtain d where d: "contentP rsp = Some d" "length d = 24"
      using r(4) by (auto simp: sized_response_def sizeof_cmpRspGetSuid_def)
    then show ?thesis using True m ok0 r by (auto simp: defs buf_read_def)
  next
    case False
    then show ?thesis using m ok0 r assms(2) by (auto simp: defs split: option.splits)
  qed
qed

subsection \<open>Calls between agent and engine\<close>

lemma on_agent_extends:
  assumes "en_wf en" "agent_ok ag" "ag_events ag = ag_events (en_agent en)"
  shows "extends en (en\<lparr>en_agent := ag\<rparr>)" "calm en (en\<lparr>en_agent := ag\<rparr>)"
  using assms by (auto simp: extends_def calm_def en_wf_def events_def)

lemma en_wf_agent: "en_wf en \<Longrightarrow> agent_ok (en_agent en)"
  by (simp add: en_wf_def)

lemma with_getVersion_ok:
  assumes "services_ok B sv" shows "services_ok B (with_getVersion junk sv)"
proof -
  have v: "\<exists>r en1. on_agent (getVersion 0 junk) en = Some (r, en1) \<and> calm en en1" if wf: "en_wf en" for en
  proof -
    obtain r ag where "getVersion 0 junk (en_agent en) = Some (r, ag)" "agent_ok ag" "ag_events ag = ag_events (en_agent en)"
      using getVersion_ok [OF en_wf_agent [OF wf]] by blast
    then show ?thesis using on_agent_extends(2) [OF wf] by (cases r) (auto simp: on_agent_def)
  qed
  show ?thesis
    using assms v unfolding services_ok_def with_getVersion_def by simp
qed

lemma engine_ok_before: "engine_ok F B en \<Longrightarrow> engine_ok (before en) B en"
  using static_consts [of F en] by (auto simp: engine_ok_def before_def static_ok_def)

subsection \<open>Starting the thread\<close>

lemma alloc_block_ok:
  assumes "en_wf en" "alloc_block n en = (p, en1)"
  shows "extends en en1" "fresh en en1 p" "events en1 = events en"
proof -
  obtain b en0 where m: "en_malloc n en = (b, en0)" by fastforce
  note s = en_malloc_same(1) [OF m]
  have e: "extends en en0" by (rule same_memory_extends [OF assms(1) s])
  obtain q en2 where q: "new_block (replicate n 0) en0 = (q, en2)" by fastforce
  note nb = new_block_extends [OF extends_wf [OF e], of "replicate n 0", unfolded q fst_conv snd_conv]
  have n: "en_next en0 = en_next en" "events en0 = events en" "events en2 = events en0"
    using s q by (auto simp: same_memory_def new_block_def events_def)
  show "extends en en1" "fresh en en1 p" "events en1 = events en"
    using assms(2) m q e nb extends_trans [OF e nb(1)] n by (auto simp: alloc_block_def fresh_def split: option.splits)
qed

lemma alloc_copy_ok:
  assumes "en_wf en" "alloc_copy n src en = Some (p, d, en1)"
  shows "extends en en1" "fresh en en1 p" "events en1 = events en"
proof -
  obtain b en0 where m: "en_malloc n en = (b, en0)" by fastforce
  note s = en_malloc_same(1) [OF m]
  have e: "extends en en0" by (rule same_memory_extends [OF assms(1) s])
  note nb = new_block_extends [OF extends_wf [OF e]]
  have n: "en_next en0 = en_next en" "events en0 = events en" "events (snd (new_block d en0)) = events en0"
    using s by (auto simp: same_memory_def new_block_def events_def)
  show "extends en en1" "fresh en en1 p" "events en1 = events en"
    using assms(2) m e nb [of d] extends_trans [OF e nb(1)] n
    by (auto simp: alloc_copy_def fresh_def split: option.splits)
qed

text \<open>The data handed to the thread: blocks of its own.\<close>

definition inst_ptrs :: "installation option \<Rightarrow> ptr list" where
  "inst_ptrs inst = (case inst of None \<Rightarrow> [] | Some i \<Rightarrow> [in_data i, in_hash i, in_struct i])"

lemma free_installation_free_all: "free_installation inst en = free_all (inst_ptrs inst) en"
  by (cases inst) (simp_all add: free_installation_def inst_ptrs_def free_all_fun del: free_all.simps)

definition owns :: "engine \<Rightarrow> engine \<Rightarrow> ptr list \<Rightarrow> bool" where
  "owns en en1 ps \<longleftrightarrow> extends en en1 \<and> distinct_ptrs ps \<and> (\<forall>p\<in>set ps. fresh en en1 p)"

lemma fresh_extends: "fresh en en1 p \<Longrightarrow> en_wf en1 \<Longrightarrow> extends en1 en2 \<Longrightarrow> fresh en en2 p"
  by (fastforce simp: fresh_def extends_def en_wf_def)

lemma owns_extends: "owns en en1 ps \<Longrightarrow> extends en1 en2 \<Longrightarrow> owns en en2 ps"
  unfolding owns_def using fresh_extends extends_trans extends_wf by blast

lemma owns_Cons:
  assumes "owns en en1 ps" "extends en1 en2" "fresh en1 en2 p"
  shows "owns en en2 (p # ps)"
proof -
  note o = owns_extends [OF assms(1,2)]
  have "fresh en en2 p" using assms by (auto simp: owns_def fresh_def extends_def)
  moreover have "p = None \<or> p \<notin> set ps"
  proof (cases p)
    case (Some i)
    have "Some i \<notin> set ps"
    proof
      assume "Some i \<in> set ps"
      then have "en_mem en1 i \<noteq> None" using assms(1) by (auto simp: owns_def fresh_def)
      then have "i < en_next en1" using assms(1) by (auto simp: owns_def extends_def en_wf_def)
      then show False using assms(3) Some by (simp add: fresh_def)
    qed
    then show ?thesis using Some by simp
  qed simp
  ultimately show ?thesis using o by (simp add: owns_def distinct_ptrs_Cons)
qed

lemma copy_installation_ok:
  assumes o: "owns en en1 ps" and c: "copy_installation paramsP tlt en1 = Some (Some inst, en2)"
  shows "owns en en2 (inst_ptrs (Some inst) @ ps)" "tlt_uuid (in_tlt inst) = tlt_uuid tlt" "events en2 = events en1"
proof -
  obtain sp e1 where 1: "alloc_block sizeof_trustletInstallationData en1 = (sp, e1)" by fastforce
  have wf: "en_wf en1" using o by (auto simp: owns_def)
  note a1 = alloc_block_ok [OF wf 1]
  have sp: "sp \<noteq> None" using c 1 by (cases sp) (auto simp: copy_installation_def)
  then obtain dp d e2 where 2: "alloc_copy (unat (dataLength tlt)) (dataP tlt) e1 = Some (dp, d, e2)"
    using c 1 by (auto simp: copy_installation_def bind_eq_Some_conv)
  note a2 = alloc_copy_ok [OF extends_wf [OF a1(1)] 2]
  have dp: "dp \<noteq> None" using c 1 2 sp by (cases dp) (auto simp: copy_installation_def bind_eq_Some_conv)
  then obtain hp h e3 where 3: "alloc_copy (unat (tltPukHashLength tlt)) (tltPukHashP tlt) e2 = Some (hp, h, e3)"
    using c 1 2 sp by (auto simp: copy_installation_def bind_eq_Some_conv)
  note a3 = alloc_copy_ok [OF extends_wf [OF a2(1)] 3]
  have r: "e3 = en2" "in_struct inst = sp" "in_data inst = dp" "in_hash inst = hp" "tlt_uuid (in_tlt inst) = tlt_uuid tlt"
    using c 1 2 3 sp dp by (auto simp: copy_installation_def bind_eq_Some_conv split: if_splits)
  have "owns en e3 (hp # dp # sp # ps)"
    using owns_Cons [OF owns_Cons [OF owns_Cons [OF o a1(1,2)] a2(1,2)] a3(1,2)] .
  then show "owns en en2 (inst_ptrs (Some inst) @ ps)" using r by (auto simp: inst_ptrs_def owns_def distinct_ptrs_Cons)
  show "tlt_uuid (in_tlt inst) = tlt_uuid tlt" "events en2 = events en1" using r(1,5) a1(3) a2(3) a3(3) by simp_all
qed

lemma provision_started:
  assumes wf: "en_wf en" and p: "provision attr_ok create_ok spid tltDataP rel en = Some (ret, Some (paramsP, pp), en1)"
  shows "owns en en1 (inst_ptrs (tltInstallationDataP pp) @ [paramsP])" "length (pp_suid pp) = 16" "pp_spid pp = spid"
    "pp_initialRel pp = rel" "ret = ROOTPA_OK" "paramsP \<noteq> None" "events en1 = events en"
    "map_option (tlt_uuid \<circ> in_tlt) (tltInstallationDataP pp) = map_option tlt_uuid tltDataP"
proof -
  obtain p0 e1 where 1: "alloc_block sizeof_provisioningparams en = (p0, e1)" by fastforce
  note a1 = alloc_block_ok [OF wf 1]
  have p0: "p0 \<noteq> None" using p 1 by (cases p0) (auto simp: provision_def)
  have o1: "owns en e1 [p0]" using a1 by (simp add: owns_def distinct_ptrs_Cons)
  obtain ok inst e2 where 2: "(case tltDataP of None \<Rightarrow> Some (True, None, e1)
      | Some tlt \<Rightarrow> map_option (\<lambda>(inst, en2). (inst \<noteq> None, inst, en2)) (copy_installation p0 tlt e1)) = Some (ok, inst, e2)"
    using p 1 p0 by (cases p0) (auto simp: provision_def bind_eq_Some_conv)
  have ok: ok using p 1 p0 2 by (cases p0; cases ok) (auto simp: provision_def)
  have o2: "owns en e2 (inst_ptrs inst @ [p0])" "map_option (tlt_uuid \<circ> in_tlt) inst = map_option tlt_uuid tltDataP" "events e2 = events en"
  proof -
    have "owns en e2 (inst_ptrs inst @ [p0]) \<and> map_option (tlt_uuid \<circ> in_tlt) inst = map_option tlt_uuid tltDataP \<and> events e2 = events en"
    proof (cases tltDataP)
      case None
      then show ?thesis using 2 o1 a1(3) by (auto simp: inst_ptrs_def)
    next
      case (Some tlt)
      then obtain i where i: "inst = Some i" "copy_installation p0 tlt e1 = Some (Some i, e2)" using 2 ok by auto
      show ?thesis using copy_installation_ok [OF o1 i(2)] i(1) Some a1(3) by simp
    qed
    then show "owns en e2 (inst_ptrs inst @ [p0])" "map_option (tlt_uuid \<circ> in_tlt) inst = map_option tlt_uuid tltDataP" "events e2 = events en"
      by blast+
  qed
  have wf2: "en_wf e2" using o2(1) by (auto simp: owns_def)
  obtain r suid ag where 3: "getSuid (replicate 16 0) (en_agent e2) = Some ((r, suid), ag)" "agent_ok ag"
    "ag_events ag = ag_events (en_agent e2)" "length suid = 16"
    using getSuid_ok [OF en_wf_agent [OF wf2], of "replicate 16 0"] by auto
  let ?e3 = "e2\<lparr>en_agent := ag\<rparr>"
  have fin: "r = ROOTPA_OK" "attr_ok" "create_ok" "en1 = ?e3" "paramsP = p0" "ret = ROOTPA_OK"
    "pp = \<lparr>pp_spid = spid, pp_suid = suid, pp_initialRel = rel, tltInstallationDataP = inst\<rparr>"
    using p 1 p0 2 ok 3(1) by (cases p0; force simp: provision_def on_agent_def split: if_splits)+
  have "extends e2 ?e3" using on_agent_extends(1) [OF wf2 3(2,3)] .
  then show "owns en en1 (inst_ptrs (tltInstallationDataP pp) @ [paramsP])"
    using owns_extends [OF o2(1)] fin by simp
  show "events en1 = events en" using fin(4) 3(3) o2(3) by (simp add: events_def)
  show "length (pp_suid pp) = 16" "pp_spid pp = spid" "pp_initialRel pp = rel" "ret = ROOTPA_OK" "paramsP \<noteq> None"
    "map_option (tlt_uuid \<circ> in_tlt) (tltInstallationDataP pp) = map_option tlt_uuid tltDataP"
    using fin 3(4) o2(2) p0 by simp_all
qed

subsection \<open>The whole thread\<close>

lemma installable_copy:
  "map_option (tlt_uuid \<circ> in_tlt) inst = map_option tlt_uuid tltDataP \<Longrightarrow> installable rel spid tltDataP \<Longrightarrow>
   installable rel spid (map_option in_tlt inst)"
  by (cases inst; cases tltDataP) (auto simp: installable_def)

text \<open>The session and the run inside it.\<close>

definition session_run :: "services \<Rightarrow> bytes \<Rightarrow> bytes \<Rightarrow> provisioningparams \<Rightarrow> engine \<Rightarrow> (bytes \<times> engine) run option" where
  "session_run sv junk initialUrl pp en =
     (case openCmtlSession (en_agent en) of (ret, ag) \<Rightarrow>
        if ret = ROOTPA_OK then
           map_option (\<lambda>r. case r of Fault \<Rightarrow> Fault
               | Done (url, en2) \<Rightarrow> Done (url, en2\<lparr>en_agent := closeCmtlSession (en_agent en2)\<rparr>))
             (doProvisioningWithSe (with_getVersion junk sv) (pp_spid pp) (pp_suid pp) (pp_initialRel pp)
                (map_option in_tlt (tltInstallationDataP pp)) initialUrl (en\<lparr>en_agent := ag\<rparr>))
         else Some (Done (initialUrl, report ERROR_STATE ret (en\<lparr>en_agent := ag\<rparr>))))"

lemma thread_is_session_run:
  "provisioningThreadFunction sv junk initialUrl pp en = map_option (thread_exit pp) (session_run sv junk initialUrl pp en)"
  by (simp add: provisioningThreadFunction_def session_run_def Let_def split: prod.split)

lemma session_run_ok:
  assumes en: "engine_ok F B en" and sv: "services_ok B sv" "B < 2 ^ 32" "\<forall>i\<ge>N. tr_headers (en_transfers en i) = []"
    and url: "cstring initialUrl = Some u" and pp: "length (pp_suid pp) = 16"
      "installable (pp_initialRel pp) (pp_spid pp) (map_option in_tlt (tltInstallationDataP pp))"
  shows "\<exists>url en1 es. session_run sv junk initialUrl pp en = Some (Done (url, en1)) \<and>
    events en1 = events en @ es \<and> es \<noteq> [] \<and> fst (last es) \<in> {FINISHED_PROVISIONING, ERROR_STATE} \<and> static_ok F en1"
proof -
  obtain ret ag where o: "openCmtlSession (en_agent en) = (ret, ag)" by fastforce
  have wf: "en_wf en" using en by (simp add: engine_ok_def)
  let ?en = "en\<lparr>en_agent := ag\<rparr>"
  note ag = open_close_ok(1) [OF en_wf_agent [OF wf] o] open_close_events(1) [OF o]
  note x = on_agent_extends(1) [OF wf ag]
  note e = engine_ok_extends [OF en x]
  have ev: "events ?en = events en" using ag(2) by (simp add: events_def)
  show ?thesis
  proof (cases "ret = ROOTPA_OK")
    case True
    obtain u1 en1 es where r: "doProvisioningWithSe (with_getVersion junk sv) (pp_spid pp) (pp_suid pp) (pp_initialRel pp)
        (map_option in_tlt (tltInstallationDataP pp)) initialUrl ?en = Some (Done (u1, en1))"
      "events en1 = events ?en @ es" "es \<noteq> []" "fst (last es) \<in> {FINISHED_PROVISIONING, ERROR_STATE}" "static_ok F en1"
      using run_reports [OF e with_getVersion_ok [OF sv(1)] sv(2) _ url pp, of N junk] sv(3) by auto
    let ?en1 = "en1\<lparr>en_agent := closeCmtlSession (en_agent en1)\<rparr>"
    have "events ?en1 = events en1" "static_ok F ?en1" using open_close_events(2) r(5) by (simp_all add: events_def static_ok_def)
    then show ?thesis using o True r ev by (intro exI [of _ u1] exI [of _ ?en1] exI [of _ es]) (simp add: session_run_def)
  next
    case False
    have "static_ok F (report ERROR_STATE ret ?en)" using e by (simp add: engine_ok_def)
    then show ?thesis using o False ev
      by (intro exI [of _ initialUrl] exI [of _ "report ERROR_STATE ret ?en"] exI [of _ "[(ERROR_STATE, ret)]"])
        (simp add: session_run_def)
  qed
qed


text \<open>A secure world that answers every command with a device id of zeros.\<close>

definition suid_message :: bytes where
  "suid_message = enc32 CMP_VERSION @ enc32 (RSP_ID MC_CMP_CMD_GET_SUID) @ enc32 0 @ enc32 0 @ enc32 24 @ replicate 20 0"

definition suid_engine :: engine where
  "suid_engine = (quiet_engine (\<lambda>_. quiet_transfer))\<lparr>en_agent := answering_agent\<lparr>ag_driver := quiet_driver\<lparr>dr_tee :=
     \<lambda>_ w m. (if length w = length suid_message then suid_message else replicate (length w) 0, replicate (length m) 0)\<rparr>\<rparr>\<rparr>"

definition some_trustlet :: trustletInstallationData where
  "some_trustlet = \<lparr>dataP = Some [1, 2], dataLength = 2, dataType = REQUEST_DATA_TLT, tlt_uuid = replicate 16 2, minTltVersion = 1,
     tltPukHashP = Some [3], tltPukHashLength = 1, memoryType = 0, numberOfInstances = 1, tlt_flags = 0\<rparr>"

lemma suid_message_words: "length suid_message = 40" "rsp_no_wrap suid_message"
proof -
  show "length suid_message = 40" by (simp add: suid_message_def)
  have "ld32 12 suid_message = Some 0" "ld32 16 suid_message = Some 24" "ld32 20 suid_message = Some 0" "ld32 24 suid_message = Some 0"
    "ld32 28 suid_message = Some 0" "ld32 32 suid_message = Some 0"
    by code_simp+
  then show "rsp_no_wrap suid_message" by (simp add: rsp_no_wrap_def rsp_element_def)
qed

lemma suid_engine_sane: "tee_sane (ag_driver (en_agent suid_engine))"
proof -
  have "tee_sane answering_driver" using answering_agent_simps(2) by (simp add: answering_agent_def)
  then show ?thesis
    using suid_message_words by (auto simp: suid_engine_def tee_sane_def answering_driver_def)
qed

lemma suid_provision: "(case provision True True 7 (Some some_trustlet) initialRel_POST suid_engine of
    Some (ret, Some (p, pp), en1) \<Rightarrow> True | _ \<Rightarrow> False)"
  by code_simp


subsection \<open>Queries on containers\<close>

text \<open>The UUIDs of the trustlets in a container, and the state a stored container has.\<close>

definition child_uuid :: "bytes \<Rightarrow> nat \<Rightarrow> bytes" where
  "child_uuid sp i = take 16 (drop (60 + 16 * i) sp)"

definition stored_state :: "agent \<Rightarrow> reg_key \<Rightarrow> u32 \<Rightarrow> bool" where
  "stored_state ag k st \<longleftrightarrow> (\<exists>d. ag_registered ag k = Some d \<and> client_readable k 4096 d \<and> ld32 52 d = Some st)"

lemma ld32_prefix:
  assumes "buf_read 0 (length d) buf = Some d" "ld32 j d = Some x"
  shows "ld32 j buf = Some x"
proof -
  have l: "j + 4 \<le> length d" using assms(2) ld32_Some_iff [of j d] by auto
  have b: "length d \<le> length buf" "take (length d) buf = d" using assms(1) by (auto simp: buf_read_def split: if_splits)
  have "take 4 (drop j (take (length d) buf)) = take 4 (drop j buf)" using l by (simp add: drop_take)
  then have "take 4 (drop j d) = take 4 (drop j buf)" using b(2) by simp
  then show ?thesis using assms(2) l b(1) by (simp add: ld32_def buf_read_def)
qed

lemma read_stored:
  assumes g: "client_good (ag_world ag)" and v: "valid_key k" and s: "stored_state ag k st"
  obtains buf n ag1 where "on_world (reg_read k) ag = Some ((MC_DRV_OK, Some buf, n), ag1)"
    "container_state (Some buf) = Some st" "client_good (ag_world ag1)" "ag_registered ag1 = ag_registered ag"
    "\<forall>d. ag_registered ag k = Some d \<longrightarrow> buf_read 0 (length d) buf = Some d"
proof -
  obtain d where d: "ag_registered ag k = Some d" "client_readable k 4096 d" "ld32 52 d = Some st"
    using s by (auto simp: stored_state_def)
  obtain buf w' where r: "reg_read k (ag_world ag) = Some ((MC_DRV_OK, Some buf, of_nat (length d)), w')"
    "buf_read 0 (length d) buf = Some d" "client_good w'" "registered (w_fs w') = registered (w_fs (ag_world ag))"
    using reg_read_present [OF g v _ d(2)] d(1) by auto
  show thesis
    by (rule that [of buf "of_nat (length d)" "ag\<lparr>ag_world := w'\<rparr>"])
      (use r d ld32_prefix [OF r(2) d(3)] in \<open>simp_all add: on_world_def container_state_def\<close>)
qed

text \<open>The loop over the children appends an entry for each registered one.\<close>

lemma structure_children_ok:
  fixes state :: "bytes \<Rightarrow> u32"
  assumes "client_good (ag_world ag)" "length sp = 316" "316 \<le> length buf" "take 316 buf = sp"
    and "\<forall>i\<in>set is. i < 16 \<and> (containerExists (child_uuid sp i) \<longrightarrow> stored_state ag (KTlt (child_uuid sp i) spid) (state (child_uuid sp i)))"
    and "nbrOfTlts st + length is \<le> 16" "length (tltContainers st) = 16"
  shows "\<exists>st1 ag1. structure_children spid buf is (ROOTPA_OK, st, ag) = Some (ROOTPA_OK, st1, ag1) \<and>
    take (nbrOfTlts st1) (tltContainers st1) = take (nbrOfTlts st) (tltContainers st) @
      map (\<lambda>u. (u, state u)) (filter containerExists (map (child_uuid sp) is)) \<and>
    nbrOfTlts st1 = nbrOfTlts st + length (filter containerExists (map (child_uuid sp) is)) \<and>
    sp_state st1 = sp_state st \<and> ag_registered ag1 = ag_registered ag"
  using assms
proof (induction "is" arbitrary: st ag)
  case Nil
  then show ?case by simp
next
  case (Cons i js)
  let ?u = "child_uuid sp i"
  have i: "i < 16" using Cons.prems(5) by simp
  have u: "buf_read (60 + 16 * i) 16 buf = Some ?u" "length ?u = 16"
    using i Cons.prems(2-4) by (auto simp: buf_read_def child_uuid_def drop_take)
  show ?case
  proof (cases "containerExists ?u")
    case False
    then have "structure_child spid ?u (ROOTPA_OK, st, ag) = Some (ROOTPA_OK, st, ag)" by (simp add: structure_child_def)
    then show ?thesis using False u(1) Cons.IH [of ag st] Cons.prems by simp
  next
    case True
    let ?n = "nbrOfTlts st"
    have n: "?n < 16" using Cons.prems(6) by simp
    have ss: "stored_state ag (KTlt ?u spid) (state ?u)" using Cons.prems(5) True by simp
    obtain tb m ag1 where r: "on_world (reg_read (KTlt ?u spid)) ag = Some ((MC_DRV_OK, Some tb, m), ag1)"
      "container_state (Some tb) = Some (state ?u)" "client_good (ag_world ag1)" "ag_registered ag1 = ag_registered ag"
      "\<forall>d. ag_registered ag (KTlt ?u spid) = Some d \<longrightarrow> buf_read 0 (length d) tb = Some d"
      by (rule read_stored [OF Cons.prems(1) _ ss]) (use u(2) in simp)
    let ?st1 = "st\<lparr>tltContainers := (tltContainers st)[?n := (?u, state ?u)], nbrOfTlts := Suc ?n\<rparr>"
    have c: "structure_child spid ?u (ROOTPA_OK, st, ag) = Some (ROOTPA_OK, ?st1, ag1)"
      using True n r(1,2) by (simp add: structure_child_def reg_reads MC_CONT_CHILDREN_COUNT_def Let_def)
    have p: "\<forall>i\<in>set js. i < 16 \<and> (containerExists (child_uuid sp i) \<longrightarrow> stored_state ag1 (KTlt (child_uuid sp i) spid) (state (child_uuid sp i)))"
      using Cons.prems(5) r(4) by (simp add: stored_state_def)
    have t: "take (Suc ?n) ((tltContainers st)[?n := (?u, state ?u)]) = take ?n (tltContainers st) @ [(?u, state ?u)]"
      using n Cons.prems(7) by (simp add: take_Suc_conv_app_nth)
    show ?thesis
      using Cons.IH [OF r(3) Cons.prems(2-4) p, of ?st1] Cons.prems(6,7) u(1) True c r(4) t by simp
  qed
qed

text \<open>When the container of a service provider and those of all its trustlets are in the registry, the
  query lists exactly these trustlets, in the order of the container, each with the state its own
  container has, and the registry stays as it was.\<close>

lemma container_structure_reported:
  fixes state :: "bytes \<Rightarrow> u32"
  assumes "client_good (ag_world ag)" "spid \<noteq> 0"
    and "ag_registered ag (KSp spid) = Some sp" "client_readable (KSp spid) 4096 sp" "316 \<le> length sp"
    and "\<forall>i<16. containerExists (child_uuid sp i) \<longrightarrow> stored_state ag (KTlt (child_uuid sp i) spid) (state (child_uuid sp i))"
  shows "\<exists>st ag1. getSpContainerStructure spid (Some out) ag = Some ((ROOTPA_OK, Some st), ag1) \<and>
    Some (sp_state st) = ld32 52 sp \<and>
    take (nbrOfTlts st) (tltContainers st) = map (\<lambda>u. (u, state u)) (filter containerExists (map (child_uuid sp) [0..<16])) \<and>
    nbrOfTlts st \<le> 16 \<and> ag_registered ag1 = ag_registered ag"
proof -
  obtain s where s: "ld32 52 sp = Some s" using assms(5) ld32_Some_iff [of 52 sp] by auto
  have ss: "stored_state ag (KSp spid) s" using s assms(3,4) by (auto simp: stored_state_def)
  obtain buf n ag1 where r: "on_world (reg_read (KSp spid)) ag = Some ((MC_DRV_OK, Some buf, n), ag1)"
    "container_state (Some buf) = Some s" "client_good (ag_world ag1)" "ag_registered ag1 = ag_registered ag"
    "\<forall>d. ag_registered ag (KSp spid) = Some d \<longrightarrow> buf_read 0 (length d) buf = Some d"
    by (rule read_stored [OF assms(1) _ ss]) (use assms(2) in simp)
  have b: "length sp \<le> length buf" "take (length sp) buf = sp" using r(5) assms(3) by (auto simp: buf_read_def split: if_splits)
  have t: "take 316 buf = take 316 sp" by (metis assms(5) b(2) min.absorb1 take_take)
  have cu: "child_uuid (take 316 sp) i = child_uuid sp i" if "i < 16" for i
    using that by (simp add: child_uuid_def drop_take min_def)
  have m: "map (child_uuid (take 316 sp)) [0..<16] = map (child_uuid sp) [0..<16]" using cu by simp
  let ?st = "empty_structure\<lparr>sp_state := s\<rparr>"
  obtain st1 ag2 where c: "structure_children spid buf [0..<16] (ROOTPA_OK, ?st, ag1) = Some (ROOTPA_OK, st1, ag2)"
    "take (nbrOfTlts st1) (tltContainers st1) = map (\<lambda>u. (u, state u)) (filter containerExists (map (child_uuid sp) [0..<16]))"
    "nbrOfTlts st1 = length (filter containerExists (map (child_uuid sp) [0..<16]))" "sp_state st1 = s" "ag_registered ag2 = ag_registered ag1"
  proof -
    have "\<forall>i\<in>set [0..<16]. i < 16 \<and> (containerExists (child_uuid (take 316 sp) i) \<longrightarrow>
        stored_state ag1 (KTlt (child_uuid (take 316 sp) i) spid) (state (child_uuid (take 316 sp) i)))"
      using assms(6) cu r(4) by (simp add: stored_state_def)
    then show thesis
      using that structure_children_ok [of ag1 "take 316 sp" buf "[0..<16]" spid state ?st] r(3) assms(5) b(1) t
      unfolding m by (auto simp: empty_structure_def MC_CONT_CHILDREN_COUNT_def)
  qed
  have "length (filter containerExists (map (child_uuid sp) [0..<16])) \<le> 16"
    using length_filter_le [of containerExists "map (child_uuid sp) [0..<16]"] by simp
  then show ?thesis using c r(1,2,4) s
    by (simp add: getSpContainerStructure_def reg_reads MC_CONT_CHILDREN_COUNT_def)
qed

lemma container_structure_reported_witness:
  "\<exists>st ag1. getSpContainerStructure 7 (Some empty_structure) (quiet_agent (stocked_registry
      [(KSp 7, replicate 60 1 @ replicate 16 2 @ concat (replicate 15 MC_UUID_FREE)), (KTlt (replicate 16 2) 7, replicate 56 3)])) =
      Some ((ROOTPA_OK, Some st), ag1) \<and> take (nbrOfTlts st) (tltContainers st) = [(replicate 16 2, 0x03030303)]"
proof -
  let ?sp = "replicate 60 1 @ replicate 16 2 @ concat (replicate 15 MC_UUID_FREE)"
  let ?ag = "quiet_agent (stocked_registry [(KSp 7, ?sp), (KTlt (replicate 16 2) 7, replicate 56 3)])"
  have u: "map (child_uuid ?sp) [0..<16] = replicate 16 2 # replicate 15 MC_UUID_FREE" by code_simp
  have l: "length ?sp = 316" by code_simp
  have s: "ld32 52 (replicate 56 3) = Some 0x03030303" by code_simp
  have f: "filter containerExists (map (child_uuid ?sp) [0..<16]) = [replicate 16 2]" unfolding u by code_simp
  have c: "child_uuid ?sp i = replicate 16 2" if "i < 16" "containerExists (child_uuid ?sp i)" for i
  proof -
    have "child_uuid ?sp i \<in> set (filter containerExists (map (child_uuid ?sp) [0..<16]))"
      unfolding set_filter set_map using that by force
    then show ?thesis unfolding f by simp
  qed
  have st: "stored_state ?ag (KTlt (replicate 16 2) 7) 0x03030303"
    using s by (simp add: stored_state_def registered_stocked client_readable_def registry_readable_def MAX_DATA_SIZE_def)
  show ?thesis
    using container_structure_reported [of ?ag 7 ?sp "\<lambda>_. 0x03030303" empty_structure] c st l f
    by (force simp: registered_stocked client_readable_def registry_readable_def MAX_DATA_SIZE_def)
qed

end
