(* ===== verification/NotificationQueue.thy ===== *)
theory NotificationQueue
  imports Prelude
begin

text \<open>
  The queues of notifications between the two worlds
  (src/MobiCoreDriverLib/Daemon/Device/NotificationQueue.cpp, with the structures of mcinq.h). A
  queue lies in shared memory: two counters that only ever grow, at 32 bits, and elements reached by
  index; an index past the array reaches the memory behind it, so the elements are a function. The
  contract of a bounded queue is a locale; the code's queue interprets it.
\<close>

subsection \<open>The contract\<close>

locale bounded_fifo =
  fixes put :: "'e \<Rightarrow> 'q \<Rightarrow> 'q" and get :: "'q \<Rightarrow> 'e option \<times> 'q"
    and items :: "'q \<Rightarrow> 'e list" and capacity :: "'q \<Rightarrow> nat" and ok :: "'q \<Rightarrow> bool"
  assumes put_ok: "ok q \<Longrightarrow> ok (put e q)"
    and put_capacity: "ok q \<Longrightarrow> capacity (put e q) = capacity q"
    and put_items: "ok q \<Longrightarrow> items (put e q) = (if length (items q) < capacity q then items q @ [e] else items q)"
    and get_ok: "ok q \<Longrightarrow> ok (snd (get q))"
    and get_items: "ok q \<Longrightarrow> items q = (case fst (get q) of None \<Rightarrow> [] | Some e \<Rightarrow> e # items (snd (get q)))"
    and get_empty: "ok q \<Longrightarrow> fst (get q) = None \<Longrightarrow> items (snd (get q)) = []"
begin

lemma puts_ok: "ok q \<Longrightarrow> ok (fold put es q)"
  by (induction es arbitrary: q) (simp_all add: put_ok)

text \<open>What is put beyond the capacity is lost, the rest keeps its order.\<close>

lemma puts_items: "ok q \<Longrightarrow> items (fold put es q) = items q @ take (capacity q - length (items q)) es"
proof (induction es arbitrary: q)
  case (Cons e es)
  show ?case
  proof (cases "length (items q) < capacity q")
    case True
    then have "capacity q - length (items q) = Suc (capacity q - Suc (length (items q)))" by simp
    then show ?thesis using True Cons.IH [OF put_ok [OF Cons.prems]] Cons.prems by (simp add: put_items put_capacity)
  next
    case False
    then show ?thesis using Cons.IH [OF put_ok [OF Cons.prems]] Cons.prems by (simp add: put_items put_capacity)
  qed
qed simp

fun gets :: "nat \<Rightarrow> 'q \<Rightarrow> 'e list \<times> 'q" where
  "gets 0 q = ([], q)"
| "gets (Suc n) q = (case get q of (None, q1) \<Rightarrow> ([], q1)
     | (Some e, q1) \<Rightarrow> (case gets n q1 of (es, q2) \<Rightarrow> (e # es, q2)))"

lemma gets_items: "ok q \<Longrightarrow> fst (gets n q) = take n (items q) \<and> items (snd (gets n q)) = drop n (items q)"
proof (induction n arbitrary: q)
  case (Suc n)
  obtain r q1 where g: "get q = (r, q1)" by fastforce
  show ?case
  proof (cases r)
    case None
    then show ?thesis using g get_items [OF Suc.prems] get_empty [OF Suc.prems] by simp
  next
    case (Some e)
    then have "ok q1" "items q = e # items q1" using g get_ok [OF Suc.prems] get_items [OF Suc.prems] by simp_all
    then show ?thesis using g Some Suc.IH [of q1] by (simp add: case_prod_unfold)
  qed
qed simp

end

subsection \<open>The queue in shared memory\<close>

record notification =
  n_sessionId :: u32
  n_payload :: u32

record notificationQueue =
  writeCnt :: u32
  readCnt :: u32
  queueSize :: u32
  slots :: "nat \<Rightarrow> notification"

definition queue_slot :: "u32 \<Rightarrow> notificationQueue \<Rightarrow> nat" where
  "queue_slot cnt q = unat (cnt AND (queueSize q - 1))"

definition queue_put :: "notification \<Rightarrow> notificationQueue \<Rightarrow> notificationQueue" where
  "queue_put n q =
     (if writeCnt q - readCnt q < queueSize q
      then q\<lparr>slots := (slots q)(queue_slot (writeCnt q) q := n), writeCnt := writeCnt q + 1\<rparr> else q)"

definition queue_get :: "notificationQueue \<Rightarrow> notification option \<times> notificationQueue" where
  "queue_get q =
     (if 0 < writeCnt q - readCnt q
      then (Some (slots q (queue_slot (readCnt q) q)), q\<lparr>readCnt := readCnt q + 1\<rparr>) else (None, q))"

text \<open>The object of the daemon: one queue to read from and one to write to.\<close>

record nqueue =
  nq_in :: notificationQueue
  nq_out :: notificationQueue

definition NotificationQueue_init :: "notificationQueue \<Rightarrow> notificationQueue \<Rightarrow> u32 \<Rightarrow> nqueue" where
  "NotificationQueue_init i out n = \<lparr>nq_in = i\<lparr>queueSize := n\<rparr>, nq_out = out\<lparr>queueSize := n\<rparr>\<rparr>"

definition putNotification :: "notification \<Rightarrow> nqueue \<Rightarrow> nqueue" where
  "putNotification n nq = nq\<lparr>nq_out := queue_put n (nq_out nq)\<rparr>"

definition getNotification :: "nqueue \<Rightarrow> notification option \<times> nqueue" where
  "getNotification nq = (case queue_get (nq_in nq) of (r, q) \<Rightarrow> (r, nq\<lparr>nq_in := q\<rparr>))"

subsection \<open>The abstract queue\<close>

text \<open>The counters may have wrapped: only their difference counts.\<close>

definition pending :: "notificationQueue \<Rightarrow> nat" where
  "pending q = unat (writeCnt q - readCnt q)"

definition contents :: "notificationQueue \<Rightarrow> notification list" where
  "contents q = map (\<lambda>i. slots q (queue_slot (readCnt q + of_nat i) q)) [0..<pending q]"

definition queue_ok :: "notificationQueue \<Rightarrow> bool" where
  "queue_ok q \<longleftrightarrow> (\<exists>k<32. queueSize q = 2 ^ k) \<and> pending q \<le> unat (queueSize q)"

lemma size_nat:
  assumes "queueSize q = 2 ^ k" "k < 32" shows "unat (queueSize q) = 2 ^ k"
proof -
  have "(2 :: nat) ^ k < 2 ^ 32" using assms(2) by (rule power_strict_increasing) simp
  then have "unat (of_nat (2 ^ k) :: u32) = 2 ^ k" by (intro unat_of_nat_u32) simp
  then show ?thesis using assms(1) by simp
qed

lemma slot_mod:
  assumes "queueSize q = 2 ^ k" "k < 32"
  shows "queue_slot c q = unat c mod 2 ^ k"
proof -
  have "queueSize q - 1 = mask k" using assms by (simp add: mask_eq_exp_minus_1)
  then have "queue_slot c q = unat (take_bit k c)" by (simp add: queue_slot_def take_bit_eq_mask)
  then show ?thesis by (simp add: unsigned_take_bit_eq take_bit_nat_def)
qed

lemma queue_ok_size: "queue_ok q \<Longrightarrow> \<exists>k<32. queueSize q = 2 ^ k \<and> unat (queueSize q) = 2 ^ k \<and> pending q \<le> 2 ^ k"
  using size_nat by (fastforce simp: queue_ok_def)

text \<open>An element is inside the array.\<close>

lemma queue_slot_bound: "queue_ok q \<Longrightarrow> queue_slot c q < unat (queueSize q)"
  using queue_ok_size [of q] by (auto simp: slot_mod)

lemma slot_shift:
  assumes "queueSize q = 2 ^ k" "k < 32"
  shows "queue_slot (c + of_nat i) q = (unat c + i) mod 2 ^ k"
proof -
  have d: "(2 :: nat) ^ k dvd 2 ^ 32" using assms(2) by (intro le_imp_power_dvd) simp
  have "unat (c + of_nat i) = (unat c + unat (of_nat i :: u32)) mod 2 ^ 32" by (simp add: unat_word_ariths)
  also have "unat (of_nat i :: u32) = i mod 2 ^ 32" by (simp add: unsigned_of_nat take_bit_eq_mod)
  finally have "unat (c + of_nat i) = (unat c + i) mod 2 ^ 32" by (simp add: mod_add_right_eq)
  then show ?thesis using slot_mod [OF assms] mod_mod_cancel [OF d] by simp
qed

lemma mod_neq_shift:
  fixes n m i j :: nat
  assumes "i < j" "j - i < m"
  shows "(n + i) mod m \<noteq> (n + j) mod m"
proof
  assume "(n + i) mod m = (n + j) mod m"
  then have "m dvd (n + j) - (n + i)" using assms(1) by (metis mod_eq_dvd_iff_nat add_le_cancel_left less_imp_le)
  then have "m dvd j - i" by simp
  then show False using assms by (auto dest: dvd_imp_le)
qed

lemma pending_put: "writeCnt q - readCnt q < queueSize q \<Longrightarrow> pending (queue_put n q) = Suc (pending q)"
proof -
  assume l: "writeCnt q - readCnt q < queueSize q"
  have "writeCnt q + 1 - readCnt q = (writeCnt q - readCnt q) + 1" by simp
  moreover have "(writeCnt q - readCnt q) + 1 \<noteq> 0"
  proof
    assume "(writeCnt q - readCnt q) + 1 = 0"
    then have "writeCnt q - readCnt q = - 1" by (metis add_eq_0_iff2)
    then show False using l by simp
  qed
  ultimately show ?thesis using l unatSuc [of "writeCnt q - readCnt q"]
    by (simp add: pending_def queue_put_def add.commute [of _ "writeCnt q - readCnt q"] flip: \<open>writeCnt q + 1 - readCnt q = _\<close>)
qed

lemma queue_put_ok:
  assumes "queue_ok q"
  shows "queue_ok (queue_put n q)" "queueSize (queue_put n q) = queueSize q"
    "contents (queue_put n q) = (if pending q < unat (queueSize q) then contents q @ [n] else contents q)"
proof -
  obtain k where k: "k < 32" "queueSize q = 2 ^ k" "pending q \<le> 2 ^ k" "unat (queueSize q) = 2 ^ k"
    using queue_ok_size [OF assms] by auto
  show s: "queueSize (queue_put n q) = queueSize q" by (simp add: queue_put_def)
  have room: "writeCnt q - readCnt q < queueSize q \<longleftrightarrow> pending q < unat (queueSize q)"
    by (simp add: pending_def word_less_nat_alt)
  show "queue_ok (queue_put n q)"
  proof (cases "pending q < unat (queueSize q)")
    case True
    then show ?thesis using k pending_put [of q n] room s by (auto simp: queue_ok_def)
  next
    case False
    then show ?thesis using assms room by (simp add: queue_put_def)
  qed
  show "contents (queue_put n q) = (if pending q < unat (queueSize q) then contents q @ [n] else contents q)"
  proof (cases "pending q < unat (queueSize q)")
    case True
    let ?q = "queue_put n q"
    have r: "readCnt ?q = readCnt q" "slots ?q = (slots q)(queue_slot (writeCnt q) q := n)"
      using True room by (simp_all add: queue_put_def)
    have w: "queue_slot (writeCnt q) q = (unat (readCnt q) + pending q) mod 2 ^ k"
    proof -
      have "writeCnt q = readCnt q + of_nat (pending q)" by (simp add: pending_def)
      then show ?thesis using slot_shift [OF k(2,1), of "readCnt q" "pending q"] by simp
    qed
    have e: "queue_slot c ?q = queue_slot c q" for c using s by (simp add: queue_slot_def)
    have old: "slots ?q (queue_slot (readCnt q + of_nat i) q) = slots q (queue_slot (readCnt q + of_nat i) q)" if "i < pending q" for i
      using mod_neq_shift [of i "pending q" "2 ^ k" "unat (readCnt q)"] that True k
      by (simp add: r w slot_shift [OF k(2,1)] size_nat)
    have new: "slots ?q (queue_slot (readCnt q + of_nat (pending q)) q) = n"
      by (simp add: r w slot_shift [OF k(2,1)])
    show ?thesis using True room pending_put [of q n] old new by (simp add: contents_def r(1) e)
  next
    case False
    then show ?thesis using room by (simp add: queue_put_def)
  qed
qed

lemma queue_get_ok:
  assumes "queue_ok q"
  shows "queue_ok (snd (queue_get q))"
    "contents q = (case fst (queue_get q) of None \<Rightarrow> [] | Some n \<Rightarrow> n # contents (snd (queue_get q)))"
    "fst (queue_get q) = None \<Longrightarrow> contents (snd (queue_get q)) = []"
proof -
  obtain k where k: "k < 32" "queueSize q = 2 ^ k" "pending q \<le> 2 ^ k" "unat (queueSize q) = 2 ^ k"
    using queue_ok_size [OF assms] by auto
  have pos: "0 < writeCnt q - readCnt q \<longleftrightarrow> 0 < pending q" by (simp add: pending_def word_less_nat_alt)
  show "fst (queue_get q) = None \<Longrightarrow> contents (snd (queue_get q)) = []"
    using pos by (auto simp: queue_get_def contents_def split: if_splits)
  have goal: "queue_ok (snd (queue_get q)) \<and>
    contents q = (case fst (queue_get q) of None \<Rightarrow> [] | Some n \<Rightarrow> n # contents (snd (queue_get q)))"
  proof (cases "0 < pending q")
    case True
    let ?q = "q\<lparr>readCnt := readCnt q + 1\<rparr>"
    have g: "queue_get q = (Some (slots q (queue_slot (readCnt q) q)), ?q)" using True pos by (simp add: queue_get_def)
    have d: "writeCnt q - (readCnt q + 1) = (writeCnt q - readCnt q) - 1" by simp
    have p: "pending q = Suc (pending ?q)"
    proof -
      have "writeCnt q - readCnt q \<noteq> 0" using True by (auto simp: pending_def)
      then show ?thesis using True unat_minus_one [of "writeCnt q - readCnt q"] by (simp add: pending_def d)
    qed
    have e: "queue_slot c ?q = queue_slot c q" for c by (simp add: queue_slot_def)
    have "contents q = slots q (queue_slot (readCnt q) q) # contents ?q"
      by (simp add: contents_def p upt_conv_Cons map_Suc_upt [symmetric] e add.assoc del: upt_Suc)
    then show ?thesis using g p k by (auto simp: queue_ok_def)
  next
    case False
    then show ?thesis using assms pos by (simp add: queue_get_def contents_def)
  qed
  then show "queue_ok (snd (queue_get q))"
    "contents q = (case fst (queue_get q) of None \<Rightarrow> [] | Some n \<Rightarrow> n # contents (snd (queue_get q)))" by blast+
qed

lemma length_contents [simp]: "length (contents q) = pending q"
  by (simp add: contents_def)

interpretation nqfifo: bounded_fifo queue_put queue_get contents "\<lambda>q. unat (queueSize q)" queue_ok
proof unfold_locales
  fix n q assume q: "queue_ok q"
  show "queue_ok (queue_put n q)" "unat (queueSize (queue_put n q)) = unat (queueSize q)" "queue_ok (snd (queue_get q))"
    using queue_put_ok [OF q] queue_get_ok(1) [OF q] by simp_all
  show "contents (queue_put n q) = (if length (contents q) < unat (queueSize q) then contents q @ [n] else contents q)"
    unfolding length_contents by (rule queue_put_ok(3) [OF q])
qed (rule queue_get_ok(2,3), assumption+)+

text \<open>C38. The daemon's queue in shared memory is a bounded queue: what one side puts is what the other side
  gets, in the order in which it was put, as long as there is room, and nothing else, also after the
  counters have wrapped; the daemon's own queue is the one the other side reads.\<close>

theorem notification_queue_fifo:
  assumes "queue_ok (nq_out nq)" and "nq_in peer = nq_out (fold putNotification ns nq)"
    and "es = contents (nq_out nq) @ take (unat (queueSize (nq_out nq)) - length (contents (nq_out nq))) ns"
  shows "contents (nq_in peer) = es \<and>
    (case getNotification peer of (None, peer') \<Rightarrow> es = [] \<and> contents (nq_in peer') = []
     | (Some n, peer') \<Rightarrow> es = n # contents (nq_in peer') \<and> queue_ok (nq_in peer'))"
proof -
  have "nq_out (fold putNotification ns nq) = fold queue_put ns (nq_out nq)"
    by (induction ns arbitrary: nq) (simp_all add: putNotification_def)
  then have p: "nq_in peer = fold queue_put ns (nq_out nq)" using assms(2) by simp
  have ok: "queue_ok (nq_in peer)" and c: "contents (nq_in peer) = es"
    unfolding p assms(3) by (rule nqfifo.puts_ok [OF assms(1)], rule nqfifo.puts_items [OF assms(1)])
  obtain r q where g: "queue_get (nq_in peer) = (r, q)" by fastforce
  then have "getNotification peer = (r, peer\<lparr>nq_in := q\<rparr>)" by (simp add: getNotification_def)
  then show ?thesis
    using c g nqfifo.get_items [OF ok] nqfifo.get_ok [OF ok] nqfifo.get_empty [OF ok] by (cases r) simp_all
qed

definition wrapping_queue :: notificationQueue where
  "wrapping_queue = \<lparr>writeCnt = 0xFFFFFFFF, readCnt = 0xFFFFFFFF, queueSize = 16, slots = \<lambda>_. \<lparr>n_sessionId = 0, n_payload = 0\<rparr>\<rparr>"

lemma notification_queue_fifo_witness:
  "contents (nq_out (fold putNotification [\<lparr>n_sessionId = 1, n_payload = 0\<rparr>, \<lparr>n_sessionId = 2, n_payload = 0\<rparr>]
      \<lparr>nq_in = wrapping_queue, nq_out = wrapping_queue\<rparr>)) = [\<lparr>n_sessionId = 1, n_payload = 0\<rparr>, \<lparr>n_sessionId = 2, n_payload = 0\<rparr>]"
proof -
  have "queue_ok wrapping_queue" by (auto simp: queue_ok_def wrapping_queue_def pending_def intro: exI [of _ 4])
  then show ?thesis
    using notification_queue_fifo [of "\<lparr>nq_in = wrapping_queue, nq_out = wrapping_queue\<rparr>" "\<lparr>nq_in = nq_out
        (fold putNotification [\<lparr>n_sessionId = 1, n_payload = 0\<rparr>, \<lparr>n_sessionId = 2, n_payload = 0\<rparr>] \<lparr>nq_in = wrapping_queue, nq_out = wrapping_queue\<rparr>),
        nq_out = wrapping_queue\<rparr>" "[\<lparr>n_sessionId = 1, n_payload = 0\<rparr>, \<lparr>n_sessionId = 2, n_payload = 0\<rparr>]"]
    by (simp add: contents_def pending_def wrapping_queue_def)
qed

end
