(* ===== verification/TrustletSession.thy ===== *)
theory TrustletSession
  imports NotificationQueue Codes
begin

text \<open>
  The session of a client with a trustlet (src/MobiCoreDriverLib/Daemon/Device/TrustletSession.cpp)
  and the counting semaphore of the daemon (src/MobiCoreDriverLib/Common/CSemaphore.cpp). A session
  is an object: its address is a field, and a connection is known by its address.
\<close>

subsection \<open>Sessions\<close>

datatype ts_state = TS_TA_RUNNING | TS_TA_DEAD | TS_CLOSE_SEND | TS_CLOSED

record CWsm =
  wsm_len :: u32
  wsm_handle :: u32
  wsm_physAddr :: u64

text \<open>The map of buffers is kept sorted by handle, as \<open>std::map\<close> does.\<close>

record session =
  ts_addr :: nat
  ts_notifications :: "notification list"
  buffers :: "(u32 \<times> CWsm) list"
  sessionId :: u32
  sessionMagic :: u32
  deviceConnection :: "connection option"
  notificationConnection :: "connection option"
  gp_level :: u32
  sessionState :: ts_state

definition new_session :: "nat \<Rightarrow> connection \<Rightarrow> u32 \<Rightarrow> u32 \<Rightarrow> session" where
  "new_session addr c sid magic = \<lparr>ts_addr = addr, ts_notifications = [], buffers = [], sessionId = sid,
     sessionMagic = magic, deviceConnection = Some c, notificationConnection = None, gp_level = 0,
     sessionState = TS_TA_RUNNING\<rparr>"

definition queueNotification :: "notification \<Rightarrow> session \<Rightarrow> session" where
  "queueNotification n ts =
     (if sessionState ts = TS_TA_DEAD then ts
      else let ts1 = (if gp_level ts = 1 \<and> n_payload n \<noteq> 0 then ts\<lparr>sessionState := TS_TA_DEAD\<rparr> else ts)
           in if sessionState ts1 = TS_CLOSE_SEND then ts1
              else ts1\<lparr>ts_notifications := ts_notifications ts1 @ [n]\<rparr>)"

definition enc_notification :: "notification \<Rightarrow> bytes" where
  "enc_notification n = enc32 (n_sessionId n) @ enc32 (n_payload n)"

text \<open>What is written to the connection, with its address.\<close>

definition processQueuedNotifications :: "session \<Rightarrow> (connection \<times> bytes) list \<times> session" where
  "processQueuedNotifications ts =
     (case notificationConnection ts of None \<Rightarrow> ([], ts)
      | Some c \<Rightarrow> (map (\<lambda>n. (c, enc_notification n)) (ts_notifications ts), ts\<lparr>ts_notifications := []\<rparr>))"

definition addBulkBuff :: "CWsm option \<Rightarrow> session \<Rightarrow> bool \<times> session" where
  "addBulkBuff pWsm ts =
     (case pWsm of None \<Rightarrow> (False, ts)
      | Some w \<Rightarrow> if map_of (buffers ts) (wsm_handle w) \<noteq> None then (False, ts)
                  else (True, ts\<lparr>buffers := insort_key fst (wsm_handle w, w) (buffers ts)\<rparr>))"

definition removeBulkBuff :: "u32 \<Rightarrow> session \<Rightarrow> bool \<times> session" where
  "removeBulkBuff handle ts =
     (if map_of (buffers ts) handle = None then (False, ts)
      else (True, ts\<lparr>buffers := filter (\<lambda>(h, _). h \<noteq> handle) (buffers ts)\<rparr>))"

definition findBulkBuff :: "u32 \<Rightarrow> u32 \<Rightarrow> session \<Rightarrow> bool" where
  "findBulkBuff handle lenBulkMem ts =
     (case map_of (buffers ts) handle of None \<Rightarrow> False | Some w \<Rightarrow> wsm_len w = lenBulkMem)"

definition popBulkBuff :: "session \<Rightarrow> CWsm option \<times> session" where
  "popBulkBuff ts =
     (case buffers ts of [] \<Rightarrow> (None, ts)
      | (_, w) # _ \<Rightarrow> (Some w, ts\<lparr>buffers := filter (\<lambda>(h, _). h \<noteq> wsm_handle w) (buffers ts)\<rparr>))"

subsection \<open>The semaphore\<close>

record semaphore =
  m_waiters_count :: int
  m_count :: int

definition CSemaphore_init :: "int \<Rightarrow> semaphore" where
  "CSemaphore_init n = \<lparr>m_waiters_count = 0, m_count = n\<rparr>"

definition sem_signal :: "semaphore \<Rightarrow> semaphore" where
  "sem_signal s = s\<lparr>m_count := m_count s + 1\<rparr>"

definition wouldWait :: "semaphore \<Rightarrow> bool" where
  "wouldWait s = (m_count s = 0)"

text \<open>The wait with a time limit, in two parts around the wait for the condition: whether there is one,
  and the end, given its result \<open>rc\<close>.\<close>

definition sem_enter :: "semaphore \<Rightarrow> bool \<times> semaphore" where
  "sem_enter s = (m_count s = 0, s\<lparr>m_waiters_count := m_waiters_count s + 1\<rparr>)"

definition sem_leave :: "bool \<Rightarrow> semaphore \<Rightarrow> bool \<times> semaphore" where
  "sem_leave ok s = (let s1 = s\<lparr>m_waiters_count := m_waiters_count s - 1\<rparr>
     in (ok, if ok then s1\<lparr>m_count := m_count s1 - 1\<rparr> else s1))"

subsection \<open>Lemmas on the buffers\<close>

text \<open>The map is sorted, has each handle once, and under the handle of its buffer.\<close>

definition buffers_ok :: "session \<Rightarrow> bool" where
  "buffers_ok ts \<longleftrightarrow> sorted (map fst (buffers ts)) \<and> distinct (map fst (buffers ts)) \<and>
     (\<forall>(h, w)\<in>set (buffers ts). wsm_handle w = h)"

definition handles :: "session \<Rightarrow> u32 list" where
  "handles ts = map fst (buffers ts)"

lemma queueNotification_frame [simp]:
  "ts_addr (queueNotification n ts) = ts_addr ts" "buffers (queueNotification n ts) = buffers ts"
  "sessionId (queueNotification n ts) = sessionId ts" "sessionMagic (queueNotification n ts) = sessionMagic ts"
  "deviceConnection (queueNotification n ts) = deviceConnection ts"
  "notificationConnection (queueNotification n ts) = notificationConnection ts" "gp_level (queueNotification n ts) = gp_level ts"
  by (simp_all add: queueNotification_def Let_def)

lemma map_of_handles: "map_of (buffers ts) h = None \<longleftrightarrow> h \<notin> set (handles ts)"
  by (auto simp: handles_def map_of_eq_None_iff)

lemma addBulkBuff_ok:
  assumes "buffers_ok ts" "addBulkBuff (Some w) ts = (r, ts1)"
  shows "buffers_ok ts1" "r \<longleftrightarrow> wsm_handle w \<notin> set (handles ts)"
    "ts1 = (if r then ts\<lparr>buffers := insort_key fst (wsm_handle w, w) (buffers ts)\<rparr> else ts)"
    "set (handles ts1) = insert (wsm_handle w) (set (handles ts))"
proof -
  show r: "r \<longleftrightarrow> wsm_handle w \<notin> set (handles ts)"
    and t: "ts1 = (if r then ts\<lparr>buffers := insort_key fst (wsm_handle w, w) (buffers ts)\<rparr> else ts)"
    using assms(2) map_of_handles [of ts] by (auto simp: addBulkBuff_def split: if_splits)
  have d: "distinct (map fst (insort_key fst (wsm_handle w, w) (buffers ts)))" if r
    using that r assms(1) by (simp add: distinct_insort_key buffers_ok_def handles_def)
  show "buffers_ok ts1"
  proof (cases r)
    case True
    then show ?thesis using assms(1) d t by (auto simp: buffers_ok_def sorted_insort_key set_insort_key)
  qed (use assms(1) t in simp)
  show "set (handles ts1) = insert (wsm_handle w) (set (handles ts))"
    using r t by (auto simp: handles_def set_insort_key)
qed

lemma removeBulkBuff_ok:
  assumes "buffers_ok ts" "removeBulkBuff h ts = (r, ts1)"
  shows "buffers_ok ts1" "r \<longleftrightarrow> h \<in> set (handles ts)" "handles ts1 = filter (\<lambda>g. g \<noteq> h) (handles ts)"
    "ts1 = ts\<lparr>buffers := buffers ts1\<rparr>"
proof -
  show r: "r \<longleftrightarrow> h \<in> set (handles ts)"
    using assms(2) map_of_handles [of ts h] by (auto simp: removeBulkBuff_def split: if_splits)
  have n: "filter (\<lambda>(g, _). g \<noteq> h) (buffers ts) = buffers ts" if "h \<notin> set (handles ts)"
    using that by (intro filter_True) (force simp: handles_def)
  have t: "ts1 = ts\<lparr>buffers := filter (\<lambda>(g, _). g \<noteq> h) (buffers ts)\<rparr>"
    using assms(2) n map_of_handles [of ts h] by (auto simp: removeBulkBuff_def split: if_splits)
  show "buffers_ok ts1"
    using assms(1) by (auto simp: buffers_ok_def t distinct_map_filter sorted_filter)
  show "handles ts1 = filter (\<lambda>g. g \<noteq> h) (handles ts)"
    by (simp add: t handles_def filter_map comp_def case_prod_unfold)
  show "ts1 = ts\<lparr>buffers := buffers ts1\<rparr>" by (simp add: t)
qed

lemma popBulkBuff_ok:
  assumes "buffers_ok ts" "buffers ts = (h, w) # bs"
  shows "popBulkBuff ts = (Some w, ts\<lparr>buffers := bs\<rparr>)" "wsm_handle w = h" "buffers_ok (ts\<lparr>buffers := bs\<rparr>)"
proof -
  show h: "wsm_handle w = h" using assms by (simp add: buffers_ok_def)
  have "h \<notin> fst ` set bs" using assms by (simp add: buffers_ok_def)
  then have "filter (\<lambda>(g, _). g \<noteq> h) bs = bs" by (intro filter_True) force
  then show "popBulkBuff ts = (Some w, ts\<lparr>buffers := bs\<rparr>)" using assms(2) h by (simp add: popBulkBuff_def)
  show "buffers_ok (ts\<lparr>buffers := bs\<rparr>)" using assms by (simp add: buffers_ok_def)
qed

end
