(* ===== verification/Device.thy ===== *)
theory Device
  imports TrustletSession
begin

text \<open>
  The device of the daemon (src/MobiCoreDriverLib/Daemon/Device/MobiCoreDevice.cpp with the
  platform part Platforms/Generic/TrustZoneDevice.cpp): the list of sessions, the message buffer it
  shares with the secure world, the notifications that arrive by interrupt, and the buffers the
  kernel module keeps locked. While a command waits for its answer the interrupt thread runs: each
  wait takes a turn from a script that says which interrupts come, what the secure world writes into
  the queue and into the message buffer, and how the wait ends. Calls of the kernel module take
  their results from the state too.
\<close>

subsection \<open>State\<close>

text \<open>What happens during one wait for the secure world: the interrupts, each with what the secure world did
  to the queue before it, whether the wait wakes up without a signal, what is written into the message
  buffer, the status of the secure world, and whether one of the threads is exiting.\<close>

record wait_turn =
  wt_irqs :: "(notificationQueue \<Rightarrow> notificationQueue) list"
  wt_spurious :: bool
  wt_answer :: "bytes \<Rightarrow> bytes"
  wt_status :: u32
  wt_exiting :: bool

record device =
  trustletSessions :: "session list"
  dv_next :: nat \<comment> \<open>the address of the next object\<close>
  dv_rand :: "nat \<Rightarrow> u32"
  unknown_notifications :: "notification list"
  mcpMessage :: bytes
  mcFault :: bool
  mciReused :: bool
  notifySessionRemoved :: bool
  mcVersionInfo :: "bytes option"
  mcpSessionNotification :: semaphore
  nq :: nqueue
  dv_turns :: "nat \<Rightarrow> wait_turn"
  dv_waits :: nat
  km_results :: "nat \<Rightarrow> bool" \<comment> \<open>success of the nth call of the kernel module\<close>
  km_calls :: nat
  km_contiguous :: "nat \<Rightarrow> u32 \<Rightarrow> connection \<Rightarrow> (u64 \<times> u32) option"
  km_l2 :: "nat \<Rightarrow> u32 \<Rightarrow> connection \<Rightarrow> u64"
  km_phys :: "nat \<Rightarrow> u64"
  km_wsm :: "nat \<Rightarrow> u32 \<Rightarrow> CWsm option"
  km_locked :: "u32 list" \<comment> \<open>the locks held, one entry each\<close>
  dv_written :: "(connection \<times> bytes) list"
  dv_deleted :: "connection list"
  exit_wakeups :: nat
  dv_linked :: "connection list" \<comment> \<open>connections with this device as their \<open>connectionData\<close>\<close>

subsection \<open>The message buffer\<close>

definition enc64 :: "u64 \<Rightarrow> bytes" where
  "enc64 w = enc32 (ucast w) @ enc32 (ucast (drop_bit 32 w))"

definition poke :: "nat \<Rightarrow> bytes \<Rightarrow> bytes \<Rightarrow> bytes" where
  "poke off d b = take off b @ d @ drop (off + length d) b"

definition peek32 :: "nat \<Rightarrow> bytes \<Rightarrow> u32" where
  "peek32 off b = dec32 (take 4 (drop off b))"

definition write_mcp :: "(nat \<times> bytes) list \<Rightarrow> device \<Rightarrow> device" where
  "write_mcp ws dv = dv\<lparr>mcpMessage := fold (\<lambda>(off, d). poke off d) ws (mcpMessage dv)\<rparr>"

text \<open>The header of a response, and the words behind it.\<close>

definition rspId :: "device \<Rightarrow> u32" where "rspId dv = peek32 0 (mcpMessage dv)"
definition rsp_result :: "device \<Rightarrow> u32" where "rsp_result dv = peek32 4 (mcpMessage dv)"
definition rsp_word :: "device \<Rightarrow> u32" where "rsp_word dv = peek32 8 (mcpMessage dv)"

abbreviation (input) MC_MCP_RET_OK :: u32 where "MC_MCP_RET_OK \<equiv> 0"
abbreviation (input) MC_MCP_RET_ERR_CLOSE_TASK_FAILED :: u32 where "MC_MCP_RET_ERR_CLOSE_TASK_FAILED \<equiv> 28"
abbreviation (input) MC_MCP_CMD_OPEN_SESSION :: u32 where "MC_MCP_CMD_OPEN_SESSION \<equiv> 1"
abbreviation (input) MC_MCP_CMD_CLOSE_SESSION :: u32 where "MC_MCP_CMD_CLOSE_SESSION \<equiv> 3"
abbreviation (input) MC_MCP_CMD_MAP :: u32 where "MC_MCP_CMD_MAP \<equiv> 4"
abbreviation (input) MC_MCP_CMD_UNMAP :: u32 where "MC_MCP_CMD_UNMAP \<equiv> 5"
abbreviation (input) MC_MCP_CMD_GET_MOBICORE_VERSION :: u32 where "MC_MCP_CMD_GET_MOBICORE_VERSION \<equiv> 9"
abbreviation (input) MC_MCP_CMD_LOAD_TOKEN :: u32 where "MC_MCP_CMD_LOAD_TOKEN \<equiv> 0x0B"
abbreviation (input) MC_MCP_CMD_CHECK_LOAD_TA :: u32 where "MC_MCP_CMD_CHECK_LOAD_TA \<equiv> 0x0C"
abbreviation (input) FLAG_RESPONSE :: u32 where "FLAG_RESPONSE \<equiv> 0x80000000"
abbreviation (input) WSM_INVALID :: u32 where "WSM_INVALID \<equiv> 0"
abbreviation (input) WSM_CONTIGUOUS :: u32 where "WSM_CONTIGUOUS \<equiv> 1"
abbreviation (input) WSM_L2 :: u32 where "WSM_L2 \<equiv> 2"
abbreviation (input) SID_MCP :: u32 where "SID_MCP \<equiv> 0"
abbreviation (input) MC_STATUS_HALT :: u32 where "MC_STATUS_HALT \<equiv> 3"

definition MAKE_MC_DRV_MCP_ERROR :: "u32 \<Rightarrow> u32" where
  "MAKE_MC_DRV_MCP_ERROR code = 0x0f OR push_bit 8 (code AND 0x000FFFFF)"

subsection \<open>The kernel module\<close>

definition km_call :: "device \<Rightarrow> bool \<times> device" where
  "km_call dv = (km_results dv (km_calls dv), dv\<lparr>km_calls := Suc (km_calls dv)\<rparr>)"

definition lockWsmL2 :: "u32 \<Rightarrow> device \<Rightarrow> bool \<times> device" where
  "lockWsmL2 handle dv = (case km_call dv of (ok, dv1) \<Rightarrow>
     (ok, if ok then dv1\<lparr>km_locked := handle # km_locked dv1\<rparr> else dv1))"

definition unlockWsmL2 :: "u32 \<Rightarrow> device \<Rightarrow> bool \<times> device" where
  "unlockWsmL2 handle dv = (case km_call dv of (ok, dv1) \<Rightarrow>
     (ok, if ok then dv1\<lparr>km_locked := remove1 handle (km_locked dv1)\<rparr> else dv1))"

text \<open>A buffer made known to the kernel module: its physical address.\<close>

definition registerWsmL2 :: "device \<Rightarrow> u64 option \<times> device" where
  "registerWsmL2 dv = (case km_call dv of (ok, dv1) \<Rightarrow> (if ok then Some (km_phys dv (km_calls dv)) else None, dv1))"

definition unregisterWsmL2 :: "device \<Rightarrow> bool \<times> device" where "unregisterWsmL2 = km_call"

definition cleanupWsmL2 :: "device \<Rightarrow> bool \<times> device" where "cleanupWsmL2 = km_call"

definition findContiguousWsm :: "u32 \<Rightarrow> connection \<Rightarrow> device \<Rightarrow> (u64 \<times> u32) option \<times> device" where
  "findContiguousWsm handle c dv = (km_contiguous dv (km_calls dv) handle c, snd (km_call dv))"

definition findWsmL2 :: "u32 \<Rightarrow> connection \<Rightarrow> device \<Rightarrow> u64 \<times> device" where
  "findWsmL2 handle c dv = (km_l2 dv (km_calls dv) handle c, snd (km_call dv))"

definition nsiq :: "device \<Rightarrow> bool \<times> device" where "nsiq = km_call"

definition notify :: "u32 \<Rightarrow> device \<Rightarrow> device" where
  "notify sid dv = snd (nsiq (dv\<lparr>nq := putNotification \<lparr>n_sessionId = sid, n_payload = 0\<rparr> (nq dv)\<rparr>))"

subsection \<open>Sessions of the device\<close>

definition getTrustletSession :: "u32 \<Rightarrow> device \<Rightarrow> session option" where
  "getTrustletSession sid dv = find (\<lambda>ts. sessionId ts = sid) (trustletSessions dv)"

definition findSession :: "connection \<Rightarrow> u32 \<Rightarrow> device \<Rightarrow> session option" where
  "findSession c sid dv = (case getTrustletSession sid dv of None \<Rightarrow> None
     | Some ts \<Rightarrow> if deviceConnection ts \<noteq> Some c then None else Some ts)"

text \<open>Access to a session by its address.\<close>

definition session_at :: "nat \<Rightarrow> device \<Rightarrow> session option" where
  "session_at a dv = find (\<lambda>ts. ts_addr ts = a) (trustletSessions dv)"

definition update_session :: "nat \<Rightarrow> (session \<Rightarrow> session) \<Rightarrow> device \<Rightarrow> device" where
  "update_session a f dv = dv\<lparr>trustletSessions := map (\<lambda>ts. if ts_addr ts = a then f ts else ts) (trustletSessions dv)\<rparr>"

definition write_data :: "connection \<Rightarrow> bytes \<Rightarrow> device \<Rightarrow> device" where
  "write_data c d dv = dv\<lparr>dv_written := dv_written dv @ [(c, d)]\<rparr>"

text \<open>\<open>delete\<close> of a connection that may be NULL.\<close>

definition delete_connection :: "connection option \<Rightarrow> device \<Rightarrow> device" where
  "delete_connection co dv = (case co of None \<Rightarrow> dv | Some c \<Rightarrow> dv\<lparr>dv_deleted := c # dv_deleted dv\<rparr>)"

definition queueUnknownNotification :: "notification \<Rightarrow> device \<Rightarrow> device" where
  "queueUnknownNotification n dv = dv\<lparr>unknown_notifications := unknown_notifications dv @ [n]\<rparr>"

subsection \<open>Interrupts\<close>

definition signalMcpNotification :: "device \<Rightarrow> device" where
  "signalMcpNotification dv = dv\<lparr>mcpSessionNotification := sem_signal (mcpSessionNotification dv)\<rparr>"

definition handle_notification :: "notification \<Rightarrow> device \<Rightarrow> device" where
  "handle_notification n dv =
     (if n_sessionId n = SID_MCP then signalMcpNotification dv
      else case getTrustletSession (n_sessionId n) dv of
        None \<Rightarrow>
          let dv1 = queueUnknownNotification n dv;
              dv2 = (if notifySessionRemoved dv1 then notify (n_sessionId n) dv1 else dv1)
          in dv2\<lparr>notifySessionRemoved := False\<rparr>
      | Some ts \<Rightarrow> (case notificationConnection ts of
            None \<Rightarrow>
              let dv1 = update_session (ts_addr ts) (queueNotification n) dv
              in if deviceConnection ts = None then dv1\<lparr>exit_wakeups := Suc (exit_wakeups dv1)\<rparr> else dv1
          | Some c \<Rightarrow> write_data c (enc_notification n) dv))"

lemma notify_frame [simp]:
  "nq_in (nq (notify sid dv)) = nq_in (nq dv)" "trustletSessions (notify sid dv) = trustletSessions dv"
  "km_locked (notify sid dv) = km_locked dv" "dv_deleted (notify sid dv) = dv_deleted dv" "mcFault (notify sid dv) = mcFault dv"
  "dv_next (notify sid dv) = dv_next dv" "unknown_notifications (notify sid dv) = unknown_notifications dv"
  "dv_turns (notify sid dv) = dv_turns dv" "dv_waits (notify sid dv) = dv_waits dv" "dv_written (notify sid dv) = dv_written dv"
  "mcpMessage (notify sid dv) = mcpMessage dv" "mcpSessionNotification (notify sid dv) = mcpSessionNotification dv"
  "dv_linked (notify sid dv) = dv_linked dv" "mcVersionInfo (notify sid dv) = mcVersionInfo dv"
  "km_results (notify sid dv) = km_results dv"
  by (simp_all add: notify_def nsiq_def km_call_def putNotification_def)

lemma handle_notification_in [simp]: "nq_in (nq (handle_notification n dv)) = nq_in (nq dv)"
  by (simp add: handle_notification_def signalMcpNotification_def queueUnknownNotification_def update_session_def
      write_data_def Let_def split: option.split)

lemma getNotification_pending:
  "getNotification q = (Some n, q1) \<Longrightarrow> pending (nq_in q1) < pending (nq_in q)"
proof -
  assume g: "getNotification q = (Some n, q1)"
  let ?q = "nq_in q"
  have p: "writeCnt ?q - readCnt ?q \<noteq> 0" and q1: "nq_in q1 = ?q\<lparr>readCnt := readCnt ?q + 1\<rparr>"
    using g by (auto simp: getNotification_def queue_get_def split: if_splits)
  have d: "writeCnt ?q - (readCnt ?q + 1) = (writeCnt ?q - readCnt ?q) - 1" by simp
  have "unat (writeCnt ?q - readCnt ?q) \<noteq> 0" using p by (simp add: unat_eq_zero)
  then show ?thesis using unat_minus_one [OF p] q1 by (simp add: pending_def d)
qed

text \<open>The loop over the notifications that came with an interrupt ends whatever the counters say.\<close>

function irq_loop :: "device \<Rightarrow> device" where
  "irq_loop dv = (case getNotification (nq dv) of
     (None, q) \<Rightarrow> dv\<lparr>nq := q\<rparr>
   | (Some n, q) \<Rightarrow> irq_loop (handle_notification n (dv\<lparr>nq := q\<rparr>)))"
  by pat_completeness auto

termination
  by (relation "measure (\<lambda>dv. pending (nq_in (nq dv)))") (auto dest: getNotification_pending [OF sym])

declare irq_loop.simps [simp del]

definition handle_irq :: "(notificationQueue \<Rightarrow> notificationQueue) \<Rightarrow> device \<Rightarrow> device" where
  "handle_irq irq dv = irq_loop (dv\<lparr>nq := (nq dv)\<lparr>nq_in := irq (nq_in (nq dv))\<rparr>\<rparr>)"

subsection \<open>Waiting for the secure world\<close>

definition shared_write :: "bytes \<Rightarrow> bytes \<Rightarrow> bytes" where
  "shared_write old b = take (length old) b @ drop (length b) old"

definition mcp_wait :: "device \<Rightarrow> bool \<times> wait_turn \<times> device" where
  "mcp_wait dv =
     (let t = dv_turns dv (dv_waits dv);
          (empty, s) = sem_enter (mcpSessionNotification dv);
          dv1 = dv\<lparr>dv_waits := Suc (dv_waits dv), mcpSessionNotification := s,
                   mcpMessage := shared_write (mcpMessage dv) (wt_answer t (mcpMessage dv))\<rparr>;
          dv2 = fold handle_irq (wt_irqs t) dv1;
          (ok, s2) = sem_leave (\<not> empty \<or> m_count (mcpSessionNotification dv2) > 0 \<or> wt_spurious t) (mcpSessionNotification dv2)
      in (ok, t, dv2\<lparr>mcpSessionNotification := s2\<rparr>))"

text \<open>The loop of \<open>waitMcpNotification\<close>, \<open>counter\<close> being what is left of its five attempts, and the look at
  the threads behind it.\<close>

fun wait_loop :: "nat \<Rightarrow> device \<Rightarrow> (wait_turn option) \<times> device" where
  "wait_loop counter dv =
     (if mcFault dv then (None, dv)
      else case mcp_wait dv of (ok, t, dv1) \<Rightarrow>
        if ok then (Some t, dv1)
        else if wt_status t = MC_STATUS_HALT then (None, dv1\<lparr>mcFault := True\<rparr>)
        else if counter - 1 < 1 then (None, dv1\<lparr>mcFault := True\<rparr>)
        else wait_loop (counter - 1) dv1)"

declare wait_loop.simps [simp del]

definition waitMcpNotification :: "device \<Rightarrow> bool \<times> device" where
  "waitMcpNotification dv = (case wait_loop 5 dv of
     (None, dv1) \<Rightarrow> (False, dv1) | (Some t, dv1) \<Rightarrow> (\<not> wt_exiting t, dv1))"

definition mshNotifyAndWait :: "device \<Rightarrow> u32 \<times> device" where
  "mshNotifyAndWait dv = (case waitMcpNotification (notify SID_MCP dv) of (ok, dv1) \<Rightarrow>
     (if ok then MC_DRV_OK else MC_DRV_ERR_DAEMON_MCI_ERROR, dv1))"

text \<open>Exchange a command: the error that is returned as it is, or the result in the answer.\<close>

definition mcp_exchange :: "u32 \<Rightarrow> (nat \<times> bytes) list \<Rightarrow> device \<Rightarrow> (u32 + u32) \<times> device" where
  "mcp_exchange cmdId ws dv =
     (case mshNotifyAndWait (write_mcp ((0, enc32 cmdId) # ws) dv) of (ret, dv1) \<Rightarrow>
        (if ret \<noteq> MC_MCP_RET_OK then Inl ret
         else if rspId dv1 \<noteq> cmdId OR FLAG_RESPONSE then Inl MC_DRV_ERR_DAEMON_MCI_ERROR
         else Inr (rsp_result dv1), dv1))"

subsection \<open>Closing sessions\<close>

definition sendSessionCloseCmd :: "u32 \<Rightarrow> device \<Rightarrow> u32 \<times> device" where
  "sendSessionCloseCmd sid dv = (case mcp_exchange MC_MCP_CMD_CLOSE_SESSION [(4, enc32 sid)] dv of
     (Inl e, dv1) \<Rightarrow> (e, dv1) | (Inr r, dv1) \<Rightarrow> (r, dv1))"

definition closeSessionInternal :: "session \<Rightarrow> device \<Rightarrow> u32 \<times> device" where
  "closeSessionInternal ts dv = (case sendSessionCloseCmd (sessionId ts) dv of (mcRet, dv1) \<Rightarrow>
     (if mcRet = MC_MCP_RET_OK then mcRet else MAKE_MC_DRV_MCP_ERROR mcRet, dv1))"

text \<open>Unlock the buffers of a session, in the order of the handles.\<close>

fun unlock_all :: "u32 list \<Rightarrow> device \<Rightarrow> device" where
  "unlock_all [] dv = dv"
| "unlock_all (h # hs) dv = unlock_all hs (snd (unlockWsmL2 h dv))"

text \<open>\<open>delete\<close> of a session takes it off the list and deletes its notification connection.\<close>

definition delete_session :: "nat \<Rightarrow> device \<Rightarrow> device" where
  "delete_session a dv = (case session_at a dv of None \<Rightarrow> dv
     | Some ts \<Rightarrow> delete_connection (notificationConnection ts)
         (dv\<lparr>trustletSessions := filter (\<lambda>t. ts_addr t \<noteq> a) (trustletSessions dv)\<rparr>))"

text \<open>The loop pops until there is no buffer left; it would not end if a buffer were not under its own handle.\<close>

partial_function (option) pop_buffers :: "session \<Rightarrow> (u32 list \<times> session) option" where
  "pop_buffers ts = (case popBulkBuff ts of (None, ts1) \<Rightarrow> Some ([], ts1)
     | (Some w, ts1) \<Rightarrow> Option.bind (pop_buffers ts1) (\<lambda>(hs, ts2). Some (wsm_handle w # hs, ts2)))"

definition freeSession :: "nat \<Rightarrow> device \<Rightarrow> device option" where
  "freeSession a dv = (case session_at a dv of None \<Rightarrow> None
     | Some ts \<Rightarrow> map_option (\<lambda>(hs, ts1). delete_session a (unlock_all hs (update_session a (\<lambda>_. ts1) dv)))
         (pop_buffers ts))"

text \<open>A session of a trustlet with the API level 1 is disconnected from its client first.\<close>

definition disconnect_session :: "session \<Rightarrow> device \<Rightarrow> device" where
  "disconnect_session ts dv =
     delete_connection (notificationConnection ts) (update_session (ts_addr ts)
       (\<lambda>t. t\<lparr>deviceConnection := None, notificationConnection := None, sessionState := TS_CLOSE_SEND\<rparr>) dv)"

text \<open>\<open>None\<close> when the assertion on the second attempt fails.\<close>

definition closeSession :: "connection \<Rightarrow> u32 \<Rightarrow> device \<Rightarrow> (u32 \<times> device) option" where
  "closeSession c sid dv =
     (case findSession c sid dv of None \<Rightarrow> Some (MC_DRV_ERR_DAEMON_UNKNOWN_SESSION, dv)
      | Some ts \<Rightarrow>
        let gp = (gp_level ts = 1); a = ts_addr ts;
            dv1 = (if gp then disconnect_session ts dv else dv)
        in case closeSessionInternal ts dv1 of (mcRet, dv2) \<Rightarrow>
           let finish = (\<lambda>mcRet dv3. if mcRet \<noteq> MC_MCP_RET_OK then Some (MAKE_MC_DRV_MCP_ERROR mcRet, dv3)
                 else map_option (\<lambda>dv4. (MC_MCP_RET_OK, dv4)) (freeSession a dv3))
           in if gp \<and> mcRet = MAKE_MC_DRV_MCP_ERROR MC_MCP_RET_ERR_CLOSE_TASK_FAILED then
                (if map_option sessionState (session_at a dv2) = Some TS_TA_DEAD then
                   (case closeSessionInternal ts dv2 of (mcRet, dv3) \<Rightarrow>
                      if mcRet = MC_MCP_RET_OK then finish mcRet dv3 else None)
                 else Some (MC_MCP_RET_OK, dv2))
              else finish mcRet dv2)"

text \<open>The loop of \<open>close\<close> takes the last session of the connection, as long as there is one.\<close>

definition last_session :: "connection \<Rightarrow> device \<Rightarrow> session option" where
  "last_session c dv = find (\<lambda>ts. deviceConnection ts = Some c) (rev (trustletSessions dv))"

partial_function (option) close_sessions :: "connection \<Rightarrow> device \<Rightarrow> device option" where
  "close_sessions c dv = (case last_session c dv of None \<Rightarrow> Some dv
     | Some ts \<Rightarrow> Option.bind (closeSession c (sessionId ts) dv) (\<lambda>(_, dv1). close_sessions c dv1))"

definition close_device :: "connection \<Rightarrow> device \<Rightarrow> device option" where
  "close_device c dv = map_option (\<lambda>dv1. (snd (cleanupWsmL2 dv1))\<lparr>dv_linked := remove1 c (dv_linked dv1)\<rparr>)
     (close_sessions c dv)"

definition open_device :: "connection \<Rightarrow> device \<Rightarrow> device" where
  "open_device c dv = dv\<lparr>dv_linked := c # dv_linked dv\<rparr>"

text \<open>One round of the exit handler: close the sessions of dead trustlets, as long as there is one.\<close>

partial_function (option) close_dead :: "device \<Rightarrow> device option" where
  "close_dead dv = (case find (\<lambda>ts. sessionState ts = TS_TA_DEAD) (trustletSessions dv) of None \<Rightarrow> Some dv
     | Some ts \<Rightarrow> (case closeSessionInternal ts dv of (mcRet, dv1) \<Rightarrow>
         close_dead (if mcRet = MC_DRV_OK then delete_session (ts_addr ts) dv1 else dv1)))"

subsection \<open>Opening sessions\<close>

record loadDataOpenSession =
  ld_baseAddr :: u64
  ld_offs :: u32
  ld_len :: u32
  tlHeader :: bytes \<comment> \<open>the header and what follows it\<close>

definition sizeof_mclfHeader :: nat where "sizeof_mclfHeader = 76"

definition mclf_uuid :: "bytes \<Rightarrow> bytes option" where "mclf_uuid h = buf_read 24 16 h"
definition mclf_gp_level :: "bytes \<Rightarrow> u32 option" where "mclf_gp_level h = ld32 96 h"

text \<open>The TCI of the client: the kernel module's address, the length, and the device with the message
  written so far and the buffer locked; or the error.\<close>

definition tci_given :: "u32 \<Rightarrow> u32 \<Rightarrow> bool" where
  "tci_given tciHandle tciLen \<longleftrightarrow> tciHandle \<noteq> 0 \<and> tciLen \<noteq> 0"

definition write_tci :: "u32 \<Rightarrow> u64 \<Rightarrow> u32 \<Rightarrow> device \<Rightarrow> device" where
  "write_tci wsmType tci ofs = write_mcp [(48, enc32 wsmType), (24, enc64 tci), (40, enc32 ofs)]"

definition prepare_tci :: "connection \<Rightarrow> u32 \<Rightarrow> u32 \<Rightarrow> u32 \<Rightarrow> device \<Rightarrow> (u32 + u32) \<times> device" where
  "prepare_tci c tciHandle tciLen tciOffset dv =
     (if tci_given tciHandle tciLen then
        (case (case findContiguousWsm tciHandle c dv of
             (Some (tci, len), dv1) \<Rightarrow> (Some len, write_tci WSM_CONTIGUOUS tci 0 dv1)
           | (None, dv1) \<Rightarrow> (case findWsmL2 tciHandle c dv1 of (tci, dv2) \<Rightarrow>
               if tci \<noteq> 0 then (Some tciLen, write_tci WSM_L2 tci tciOffset dv2) else (None, dv2))) of
           (None, dv3) \<Rightarrow> (Inl MC_DRV_ERR_DAEMON_WSM_HANDLE_NOT_FOUND, dv3)
         | (Some len, dv3) \<Rightarrow> (case lockWsmL2 tciHandle dv3 of (ok, dv4) \<Rightarrow>
             (if ok then Inr len else Inl MC_DRV_ERR_DAEMON_WSM_HANDLE_NOT_FOUND, dv4)))
      else (Inr 0, if tciHandle = 0 \<and> tciLen = 0 then write_tci WSM_INVALID 0 tciOffset dv else dv))"

definition unlock_tci :: "u32 \<Rightarrow> u32 \<Rightarrow> device \<Rightarrow> device" where
  "unlock_tci tciHandle tciLen dv = (if tci_given tciHandle tciLen then snd (unlockWsmL2 tciHandle dv) else dv)"

text \<open>The session for an answer that was good: the response for the client and the device.\<close>

definition add_session :: "connection \<Rightarrow> u32 \<Rightarrow> u32 \<Rightarrow> u32 \<Rightarrow> u32 \<Rightarrow> device \<Rightarrow> (u32 \<times> u32 \<times> u32) \<times> device" where
  "add_session c gp loadLen tciHandle tciLen dv =
     (let a = dv_next dv;
          ts = (new_session a c (rsp_word dv) (dv_rand dv a))\<lparr>gp_level := gp, sessionState := TS_TA_RUNNING\<rparr>;
          ts1 = (if tci_given tciHandle tciLen
                 then snd (addBulkBuff (Some \<lparr>wsm_len = loadLen, wsm_handle = tciHandle, wsm_physAddr = 0\<rparr>) ts) else ts);
          ts2 = fold queueNotification (unknown_notifications dv) ts1
      in ((sessionId ts, of_nat a, sessionMagic ts),
          dv\<lparr>dv_next := Suc a, trustletSessions := trustletSessions dv @ [ts2], unknown_notifications := []\<rparr>))"

definition openSession ::
    "connection \<Rightarrow> loadDataOpenSession \<Rightarrow> u32 \<Rightarrow> u32 \<Rightarrow> u32 \<Rightarrow> device \<Rightarrow>
     ((u32 \<times> (u32 \<times> u32 \<times> u32) option) \<times> device) option" where
  "openSession c ld tciHandle tciLen tciOffset dv =
     (case prepare_tci c tciHandle tciLen tciOffset dv of (Inl e, dv1) \<Rightarrow> Some ((e, None), dv1)
      | (Inr len, dv1) \<Rightarrow>
        if tciHandle \<noteq> 0 \<and> tciLen = 0 \<or> tciLen > len then Some ((MC_DRV_ERR_TCI_GREATER_THAN_WSM, None), dv1)
        else Option.bind (mclf_uuid (tlHeader ld)) (\<lambda>uuid. Option.bind (buf_read 0 sizeof_mclfHeader (tlHeader ld)) (\<lambda>header.
          (case mcp_exchange MC_MCP_CMD_OPEN_SESSION
              [(4, uuid), (44, enc32 tciLen), (52, enc32 WSM_L2), (32, enc64 (ld_baseAddr ld)), (56, enc32 (ld_offs ld)),
               (60, enc32 (ld_len ld)), (64, header)] (dv1\<lparr>unknown_notifications := []\<rparr>) of
             (Inl e, dv2) \<Rightarrow> Some ((e, None), unlock_tci tciHandle tciLen dv2)
           | (Inr mcRet, dv2) \<Rightarrow>
             if mcRet \<noteq> MC_MCP_RET_OK then Some ((MAKE_MC_DRV_MCP_ERROR mcRet, None), unlock_tci tciHandle tciLen dv2)
             else map_option (\<lambda>gp. (case add_session c gp (ld_len ld) tciHandle tciLen dv2 of (rsp, dv3) \<Rightarrow>
                 ((MC_DRV_OK, Some rsp), dv3))) (mclf_gp_level (tlHeader ld))))))"

definition checkLoad :: "loadDataOpenSession \<Rightarrow> device \<Rightarrow> (u32 \<times> device) option" where
  "checkLoad ld dv = Option.bind (mclf_uuid (tlHeader ld)) (\<lambda>uuid. map_option (\<lambda>header.
     (case mcp_exchange MC_MCP_CMD_CHECK_LOAD_TA
         [(4, uuid), (32, enc32 WSM_L2), (24, enc64 (ld_baseAddr ld)), (36, enc32 (ld_offs ld)), (40, enc32 (ld_len ld)), (44, header)]
         (dv\<lparr>unknown_notifications := []\<rparr>) of
        (Inl e, dv1) \<Rightarrow> (e, dv1)
      | (Inr mcRet, dv1) \<Rightarrow> (if mcRet \<noteq> MC_MCP_RET_OK then MAKE_MC_DRV_MCP_ERROR mcRet else MC_DRV_OK, dv1)))
     (buf_read 0 sizeof_mclfHeader (tlHeader ld)))"

subsection \<open>Commands on a session\<close>

definition registerTrustletConnection :: "connection \<Rightarrow> u32 \<Rightarrow> u32 \<Rightarrow> u32 \<Rightarrow> device \<Rightarrow> nat option \<times> device" where
  "registerTrustletConnection c sid deviceSessionId magic dv =
     (case find (\<lambda>ts. of_nat (ts_addr ts) = deviceSessionId \<and> sessionMagic ts = magic \<and> sessionId ts = sid) (trustletSessions dv) of
        None \<Rightarrow> (None, dv)
      | Some ts \<Rightarrow> (Some (ts_addr ts), update_session (ts_addr ts) (\<lambda>t. t\<lparr>notificationConnection := Some c\<rparr>) dv))"

definition notify_session :: "connection \<Rightarrow> u32 \<Rightarrow> device \<Rightarrow> u32 \<times> device" where
  "notify_session c sid dv = (case findSession c sid dv of None \<Rightarrow> (MC_DRV_ERR_DAEMON_UNKNOWN_SESSION, dv)
     | Some _ \<Rightarrow> (MC_DRV_OK, notify sid dv))"

definition mapBulk :: "connection \<Rightarrow> u32 \<Rightarrow> u32 \<Rightarrow> u64 \<Rightarrow> u32 \<Rightarrow> u32 \<Rightarrow> device \<Rightarrow> (u32 \<times> u32 option) \<times> device" where
  "mapBulk c sid handle pAddrL2 offsetPayload lenBulkMem dv =
     (case findSession c sid dv of None \<Rightarrow> ((MC_DRV_ERR_DAEMON_UNKNOWN_SESSION, None), dv)
      | Some ts \<Rightarrow>
        let dv1 = update_session (ts_addr ts) (\<lambda>t. snd (addBulkBuff
              (Some \<lparr>wsm_len = lenBulkMem, wsm_handle = handle, wsm_physAddr = pAddrL2\<rparr>) t)) dv
        in case mcp_exchange MC_MCP_CMD_MAP [(4, enc32 sid), (8, enc32 WSM_L2), (16, enc64 pAddrL2), (12, enc32 offsetPayload),
               (24, enc32 lenBulkMem)] dv1 of
             (Inl e, dv2) \<Rightarrow> ((e, None), dv2)
           | (Inr mcRet, dv2) \<Rightarrow> (if mcRet \<noteq> MC_MCP_RET_OK then (MAKE_MC_DRV_MCP_ERROR mcRet, None)
                                else (MC_DRV_OK, Some (rsp_word dv2)), dv2))"

definition unmapBulk :: "connection \<Rightarrow> u32 \<Rightarrow> u32 \<Rightarrow> u32 \<Rightarrow> u32 \<Rightarrow> device \<Rightarrow> u32 \<times> device" where
  "unmapBulk c sid handle secureVirtualAdr lenBulkMem dv =
     (case findSession c sid dv of None \<Rightarrow> (MC_DRV_ERR_DAEMON_UNKNOWN_SESSION, dv)
      | Some ts \<Rightarrow>
        if \<not> findBulkBuff handle lenBulkMem ts then (MC_DRV_ERR_DAEMON_WSM_HANDLE_NOT_FOUND, dv)
        else (case mcp_exchange MC_MCP_CMD_UNMAP [(4, enc32 sid), (8, enc32 WSM_L2), (12, enc32 secureVirtualAdr),
               (16, enc32 lenBulkMem)] dv of
             (Inl e, dv1) \<Rightarrow> (e, dv1)
           | (Inr mcRet, dv1) \<Rightarrow>
             if mcRet \<noteq> MC_MCP_RET_OK then (MAKE_MC_DRV_MCP_ERROR mcRet, dv1)
             else (MC_DRV_OK, update_session (ts_addr ts) (\<lambda>t. snd (removeBulkBuff handle t)) dv1)))"

definition sizeof_versionInfo :: nat where "sizeof_versionInfo = 64 + 8 * 4"

definition getMobiCoreVersion :: "device \<Rightarrow> (u32 \<times> bytes option) \<times> device" where
  "getMobiCoreVersion dv =
     (case mcVersionInfo dv of Some v \<Rightarrow> ((MC_DRV_OK, Some v), dv)
      | None \<Rightarrow> (case mcp_exchange MC_MCP_CMD_GET_MOBICORE_VERSION [] dv of
          (Inl e, dv1) \<Rightarrow> ((e, None), dv1)
        | (Inr mcRet, dv1) \<Rightarrow>
          if mcRet \<noteq> MC_MCP_RET_OK then ((MAKE_MC_DRV_MCP_ERROR mcRet, None), dv1)
          else let v = poke 92 (enc32 0x00010005) (take sizeof_versionInfo (drop 8 (mcpMessage dv1)))
               in ((MC_DRV_OK, Some v), dv1\<lparr>mcVersionInfo := Some v\<rparr>)))"

text \<open>The address is truncated to 32 bits.\<close>

definition loadToken_device :: "u64 \<Rightarrow> u64 \<Rightarrow> u64 \<Rightarrow> device \<Rightarrow> u32 \<times> device" where
  "loadToken_device addr offs len dv =
     (case mcp_exchange MC_MCP_CMD_LOAD_TOKEN
         [(4, enc32 WSM_L2), (8, enc64 (ucast (ucast addr :: u32))), (16, enc64 offs), (24, enc64 len)] (dv\<lparr>unknown_notifications := []\<rparr>) of
        (Inl e, dv1) \<Rightarrow> (e, dv1)
      | (Inr mcRet, dv1) \<Rightarrow> (if mcRet \<noteq> MC_MCP_RET_OK then MAKE_MC_DRV_MCP_ERROR mcRet else MC_DRV_OK, dv1))"

text \<open>At the start after a restart of the daemon: close what sessions there may still be.\<close>

definition invalidate_session :: "nat \<Rightarrow> device \<Rightarrow> device" where
  "invalidate_session sessionNumber dv =
     (let sid = push_bit 8 (of_nat sessionNumber) + 1 in
      case sendSessionCloseCmd sid dv of (mcRet, dv1) \<Rightarrow>
        if mcRet = MC_DRV_ERR_DAEMON_MCI_ERROR then snd (sendSessionCloseCmd sid dv1) else dv1)"

definition start_device :: "device \<Rightarrow> device" where
  "start_device dv = (if mciReused dv then fold invalidate_session [3..<32] (dv\<lparr>notifySessionRemoved := True\<rparr>) else dv)"

end
