(* ===== verification/DaemonCommands.thy ===== *)
theory DaemonCommands
  imports Device RegistryRpc
begin

text \<open>
  The commands of the daemon (src/MobiCoreDriverLib/Daemon/MobiCoreDriverDaemon.cpp) and the
  clients of its server (src/MobiCoreDriverLib/Daemon/Server/Client.h): what a command reads, what
  it does to the device and the registry, and what it writes back. The mutexes make a command one
  step; the interrupts that come while it waits for the secure world, or while it holds no lock that keeps
  them out, are inside it.
\<close>

subsection \<open>State\<close>

text \<open>The clients are the connections the server listens on.\<close>

record daemon =
  dm_device :: device
  dm_world :: world
  dm_clients :: "connection list"
  dm_connections :: nat \<comment> \<open>the address of the next connection\<close>
  driverResources :: "(connection \<times> u32) list" \<comment> \<open>drivers of the secure world, each with its session\<close>
  dm_offs :: "nat \<Rightarrow> u32" \<comment> \<open>offset in its page of the nth blob\<close>

definition on_device :: "(device \<Rightarrow> device) \<Rightarrow> daemon \<Rightarrow> daemon" where
  "on_device f dm = dm\<lparr>dm_device := f (dm_device dm)\<rparr>"

definition writeResult :: "connection \<Rightarrow> u32 \<Rightarrow> daemon \<Rightarrow> daemon" where
  "writeResult c code = on_device (write_data c (enc32 code))"

text \<open>What a client sends: the result of the read of the payload, \<open>None\<close> for an error, and of the reads behind it; and the interrupts
  that come in a gap of the command in which the list of sessions is not locked.\<close>

record request =
  rq_payload :: "bytes option"
  rq_reads :: "nat \<Rightarrow> bytes option"
  rq_irqs :: "(notificationQueue \<Rightarrow> notificationQueue) list"

text \<open>\<open>RECV_PAYLOAD_FROM_CLIENT\<close> and \<open>CHECK_DEVICE\<close>.\<close>

definition recv_payload :: "nat \<Rightarrow> request \<Rightarrow> bytes option" where
  "recv_payload n rq = (case rq_payload rq of None \<Rightarrow> None | Some d \<Rightarrow> if length d \<noteq> n then None else Some d)"

definition device_set :: "connection \<Rightarrow> daemon \<Rightarrow> bool" where
  "device_set c dm \<longleftrightarrow> c \<in> set (dv_linked (dm_device dm))"

definition with_payload :: "nat \<Rightarrow> request \<Rightarrow> connection \<Rightarrow> (bytes \<Rightarrow> daemon \<Rightarrow> daemon option) \<Rightarrow> daemon \<Rightarrow> daemon option" where
  "with_payload n rq c k dm = (case recv_payload n rq of None \<Rightarrow> Some (writeResult c MC_DRV_ERR_DAEMON_SOCKET dm) | Some d \<Rightarrow> k d dm)"

definition with_device :: "connection \<Rightarrow> (daemon \<Rightarrow> daemon option) \<Rightarrow> daemon \<Rightarrow> daemon option" where
  "with_device c k dm = (if device_set c dm then k dm else Some (writeResult c 0x21 dm))"

subsection \<open>Devices\<close>

definition processOpenDevice :: "request \<Rightarrow> connection \<Rightarrow> daemon \<Rightarrow> daemon option" where
  "processOpenDevice rq c = with_payload 4 rq c (\<lambda>d dm.
     if device_set c dm then Some (writeResult c MC_DRV_ERR_INVALID_OPERATION dm)
     else if peek32 0 d \<noteq> 0 then Some (writeResult c MC_DRV_ERR_UNKNOWN_DEVICE dm)
     else Some (writeResult c MC_DRV_OK (on_device (open_device c) dm)))"

definition processCloseDevice :: "connection \<Rightarrow> daemon \<Rightarrow> daemon option" where
  "processCloseDevice c = with_device c (\<lambda>dm. map_option (\<lambda>dv. writeResult c MC_DRV_OK (dm\<lparr>dm_device := dv\<rparr>))
     (close_device c (dm_device dm)))"

definition dropConnection :: "connection \<Rightarrow> daemon \<Rightarrow> daemon option" where
  "dropConnection c dm = (if device_set c dm then map_option (\<lambda>dv. dm\<lparr>dm_device := dv\<rparr>) (close_device c (dm_device dm)) else Some dm)"

subsection \<open>Sessions\<close>

text \<open>Share the blob with the secure world, open the session, stop sharing it, and answer.\<close>

definition load_data :: "u64 \<Rightarrow> reg_object \<Rightarrow> daemon \<Rightarrow> loadDataOpenSession" where
  "load_data phys obj dm = \<lparr>ld_baseAddr = phys, ld_offs = dm_offs dm (km_calls (dm_device dm)), ld_len = of_nat (length (blobValue obj)),
     tlHeader = drop (tlStartOffset obj) (blobValue obj)\<rparr>"

definition answer_open :: "connection \<Rightarrow> u32 \<times> (u32 \<times> u32 \<times> u32) option \<Rightarrow> daemon \<Rightarrow> daemon" where
  "answer_open c r dm = (case r of (ret, rsp) \<Rightarrow> (case rsp of
       Some (sid, did, magic) \<Rightarrow>
         if ret = MC_DRV_OK then on_device (write_data c (enc32 ret @ enc32 sid @ enc32 did @ enc32 magic)) dm
         else writeResult c ret dm
     | None \<Rightarrow> writeResult c ret dm))"

definition open_blob :: "connection \<Rightarrow> reg_object option \<Rightarrow> u32 \<Rightarrow> u32 \<Rightarrow> u32 \<Rightarrow> daemon \<Rightarrow> daemon option" where
  "open_blob c obj handle len tci dm =
     (case obj of None \<Rightarrow> Some (writeResult c MC_DRV_ERR_INVALID_DEVICE_FILE dm)
      | Some ob \<Rightarrow>
        if blobValue ob = [] then Some (writeResult c MC_DRV_ERR_INVALID_DEVICE_FILE dm)
        else (case registerWsmL2 (dm_device dm) of
            (None, dv1) \<Rightarrow> Some (writeResult c MC_DRV_ERR_DAEMON_SOCKET (dm\<lparr>dm_device := dv1\<rparr>))
          | (Some phys, dv1) \<Rightarrow>
            Option.bind (openSession c (load_data phys ob dm) handle len tci dv1) (\<lambda>(r, dv2).
              case unregisterWsmL2 dv2 of (ok, dv3) \<Rightarrow>
                let dm1 = dm\<lparr>dm_device := dv3\<rparr> in
                Some (if \<not> ok then writeResult c MC_DRV_ERR_DAEMON_SOCKET dm1 else answer_open c r dm1))))"

definition processOpenSession :: "(nat \<Rightarrow> u8) \<Rightarrow> bool \<Rightarrow> request \<Rightarrow> connection \<Rightarrow> daemon \<Rightarrow> daemon option" where
  "processOpenSession heap isGpUuid rq c = with_payload 32 rq c (\<lambda>d. with_device c (\<lambda>dm.
     Option.bind (mcRegistryGetServiceBlob heap (Some (take 16 (drop 4 d))) isGpUuid (w_fs (dm_world dm))) (\<lambda>(obj, fs1).
       open_blob c obj (peek32 24 d) (peek32 28 d) (peek32 20 d) (dm\<lparr>dm_world := (dm_world dm)\<lparr>w_fs := fs1\<rparr>\<rparr>))))"

text \<open>Read the trustlet, in as many pieces as it comes. A read of nothing, which a closed connection gives,
  is repeated. The result is \<open>None\<close> inside for an error.\<close>

partial_function (option) read_trustlet :: "nat \<Rightarrow> (nat \<Rightarrow> bytes option) \<Rightarrow> nat \<Rightarrow> bytes \<Rightarrow> bytes option option" where
  "read_trustlet len reads n got =
     (if length got < len then (case reads n of None \<Rightarrow> Some None
        | Some d \<Rightarrow> read_trustlet len reads (Suc n) (got @ take (len - length got) d))
      else Some (Some got))"

definition processOpenTrustlet :: "(nat \<Rightarrow> u8) \<Rightarrow> request \<Rightarrow> connection \<Rightarrow> daemon \<Rightarrow> daemon option" where
  "processOpenTrustlet heap rq c = with_payload 24 rq c (\<lambda>d. with_device c (\<lambda>dm.
     case malloc (unat (peek32 8 d)) (dm_world dm) of
       (None, w1) \<Rightarrow> Some (writeResult c MC_DRV_ERR_DAEMON_SOCKET (dm\<lparr>dm_world := w1\<rparr>))
     | (Some _, w1) \<Rightarrow> Option.bind (read_trustlet (unat (peek32 8 d)) (rq_reads rq) 0 []) (\<lambda>t.
         case t of None \<Rightarrow> Some (writeResult c MC_DRV_ERR_DAEMON_SOCKET (dm\<lparr>dm_world := w1\<rparr>))
         | Some trustlet \<Rightarrow>
           Option.bind (mcRegistryMemGetServiceBlob heap (peek32 4 d) (Some trustlet) (w_fs w1)) (\<lambda>(obj, fs1).
             open_blob c obj (peek32 16 d) (peek32 20 d) (peek32 12 d) (dm\<lparr>dm_world := w1\<lparr>w_fs := fs1\<rparr>\<rparr>)))))"

definition processLoadCheck :: "(nat \<Rightarrow> u8) \<Rightarrow> u32 \<Rightarrow> bytes \<Rightarrow> daemon \<Rightarrow> (u32 \<times> daemon) option" where
  "processLoadCheck heap spid blob dm =
     Option.bind (mcRegistryMemGetServiceBlob heap spid (Some blob) (w_fs (dm_world dm))) (\<lambda>(obj, fs1).
       let dm1 = dm\<lparr>dm_world := (dm_world dm)\<lparr>w_fs := fs1\<rparr>\<rparr> in
       case obj of None \<Rightarrow> Some (MC_DRV_ERR_INVALID_DEVICE_FILE, dm1)
       | Some ob \<Rightarrow>
         if blobValue ob = [] then Some (MC_DRV_ERR_INVALID_DEVICE_FILE, dm1)
         else (case registerWsmL2 (dm_device dm1) of
             (None, dv1) \<Rightarrow> Some (MC_DRV_ERR_DAEMON_SOCKET, dm1\<lparr>dm_device := dv1\<rparr>)
           | (Some phys, dv1) \<Rightarrow> map_option (\<lambda>(ret, dv2). case unregisterWsmL2 dv2 of (ok, dv3) \<Rightarrow>
               (if \<not> ok then MC_DRV_ERR_DAEMON_SOCKET else ret, dm1\<lparr>dm_device := dv3\<rparr>))
               (checkLoad (load_data phys ob dm1) dv1)))"

definition processCloseSession :: "request \<Rightarrow> connection \<Rightarrow> daemon \<Rightarrow> daemon option" where
  "processCloseSession rq c = with_payload 4 rq c (\<lambda>d. with_device c (\<lambda>dm.
     map_option (\<lambda>(ret, dv). writeResult c ret (dm\<lparr>dm_device := dv\<rparr>)) (closeSession c (peek32 0 d) (dm_device dm))))"

text \<open>The connection is taken away from its client before anything is checked.\<close>

definition detachConnection :: "connection \<Rightarrow> daemon \<Rightarrow> daemon" where
  "detachConnection c dm = dm\<lparr>dm_clients := remove1 c (dm_clients dm)\<rparr>"

definition process_queued :: "nat \<Rightarrow> device \<Rightarrow> device" where
  "process_queued a dv = (case session_at a dv of None \<Rightarrow> dv
     | Some ts \<Rightarrow> (case processQueuedNotifications ts of (out, ts1) \<Rightarrow>
         (update_session a (\<lambda>_. ts1) dv)\<lparr>dv_written := dv_written dv @ out\<rparr>))"

text \<open>The list of sessions is unlocked after the answer and before the queue of the session is written: the interrupts of the gap may write
  to the connection first.\<close>

definition processNqConnect :: "request \<Rightarrow> connection \<Rightarrow> daemon \<Rightarrow> daemon option" where
  "processNqConnect rq c = with_payload 16 rq c (\<lambda>d dm.
     if device_set c dm then Some (writeResult c 0x16 dm)
     else let dm1 = detachConnection c dm in
       if peek32 0 d \<noteq> 0 then Some (writeResult c MC_DRV_ERR_UNKNOWN_DEVICE dm1)
       else (case registerTrustletConnection c (peek32 4 d) (peek32 8 d) (peek32 12 d) (dm_device dm1) of
           (None, dv) \<Rightarrow> Some (writeResult c MC_DRV_ERR_UNKNOWN (dm1\<lparr>dm_device := dv\<rparr>))
         | (Some a, dv) \<Rightarrow> Some (on_device (process_queued a) (on_device (fold handle_irq (rq_irqs rq))
             (writeResult c MC_DRV_OK (dm1\<lparr>dm_device := dv\<rparr>))))))"

text \<open>A notification has no answer, not even for an error.\<close>

definition processNotify :: "request \<Rightarrow> connection \<Rightarrow> daemon \<Rightarrow> daemon option" where
  "processNotify rq c dm = Some (case recv_payload 4 rq of None \<Rightarrow> dm
     | Some d \<Rightarrow> if device_set c dm then on_device (\<lambda>dv. snd (notify_session c (peek32 0 d) dv)) dm else dm)"

definition processMapBulkBuf :: "request \<Rightarrow> connection \<Rightarrow> daemon \<Rightarrow> daemon option" where
  "processMapBulkBuf rq c = with_payload 20 rq c (\<lambda>d. with_device c (\<lambda>dm.
     let handle = peek32 4 d in
     case lockWsmL2 handle (dm_device dm) of (ok, dv1) \<Rightarrow>
       if \<not> ok then Some (writeResult c MC_DRV_ERR_DAEMON_WSM_HANDLE_NOT_FOUND (dm\<lparr>dm_device := dv1\<rparr>))
       else (case findWsmL2 handle c dv1 of (pAddrL2, dv2) \<Rightarrow>
         if pAddrL2 = 0 then Some (writeResult c MC_DRV_ERR_DAEMON_WSM_HANDLE_NOT_FOUND (dm\<lparr>dm_device := dv2\<rparr>))
         else (case mapBulk c (peek32 0 d) handle pAddrL2 (peek32 12 d) (peek32 16 d) dv2 of
             ((mcResult, va), dv3) \<Rightarrow> Some (case va of
                 Some v \<Rightarrow> on_device (write_data c (enc32 MC_DRV_OK @ enc32 (peek32 0 d) @ enc32 v)) (dm\<lparr>dm_device := dv3\<rparr>)
               | None \<Rightarrow> writeResult c mcResult (dm\<lparr>dm_device := dv3\<rparr>))))))"

definition processUnmapBulkBuf :: "request \<Rightarrow> connection \<Rightarrow> daemon \<Rightarrow> daemon option" where
  "processUnmapBulkBuf rq c = with_payload 16 rq c (\<lambda>d. with_device c (\<lambda>dm.
     case unmapBulk c (peek32 0 d) (peek32 4 d) (peek32 8 d) (peek32 12 d) (dm_device dm) of (mcResult, dv1) \<Rightarrow>
       Some (if mcResult \<noteq> MC_DRV_OK then writeResult c mcResult (dm\<lparr>dm_device := dv1\<rparr>)
             else writeResult c MC_DRV_OK (dm\<lparr>dm_device := snd (unlockWsmL2 (peek32 4 d) dv1)\<rparr>))))"

definition DAEMON_VERSION :: u32 where "DAEMON_VERSION = push_bit 16 0 OR 2"

definition processGetVersion :: "connection \<Rightarrow> daemon \<Rightarrow> daemon option" where
  "processGetVersion c dm = Some (on_device (write_data c (enc32 MC_DRV_OK @ enc32 DAEMON_VERSION)) dm)"

definition processGetMobiCoreVersion :: "connection \<Rightarrow> daemon \<Rightarrow> daemon option" where
  "processGetMobiCoreVersion c = with_device c (\<lambda>dm. case getMobiCoreVersion (dm_device dm) of
     ((mcResult, v), dv1) \<Rightarrow> Some (case v of
         Some d \<Rightarrow> on_device (write_data c (enc32 MC_DRV_OK @ d)) (dm\<lparr>dm_device := dv1\<rparr>)
       | None \<Rightarrow> writeResult c mcResult (dm\<lparr>dm_device := dv1\<rparr>)))"

subsection \<open>Dispatch\<close>

definition device_commands :: "u32 list" where "device_commands = [2, 3, 5, 12, 13, 6, 4, 7, 8, 9, 10, 11]"

definition registry_commands :: "u32 list" where "registry_commands = map (\<lambda>i. 0x100000 + of_nat i) [0..<14]"

text \<open>The command id a client sends, as long as the secure world has not faulted.\<close>

definition readCommand :: "bytes option \<Rightarrow> daemon \<Rightarrow> u32 option" where
  "readCommand header dm =
     (if mcFault (dm_device dm) then None
      else case header of None \<Rightarrow> None
      | Some d \<Rightarrow> if length d = 0 then None
                  else if peek32 0 d \<in> set (device_commands @ registry_commands) then Some (peek32 0 d) else None)"

text \<open>A token of the registry is given to the secure world over a connection of its own: the buffer is registered, the secure world loads the token,
  and the buffer is unregistered; each of the three may fail.\<close>

definition loadToken :: "nat \<Rightarrow> daemon \<Rightarrow> bool \<times> daemon" where
  "loadToken sosize dm =
     (case registerWsmL2 (dm_device dm) of
        (None, dv1) \<Rightarrow> (False, dm\<lparr>dm_device := dv1\<rparr>)
      | (Some phys, dv1) \<Rightarrow>
        let conn = dm_connections dm in
        case loadToken_device phys (ucast (dm_offs dm (km_calls (dm_device dm)))) (of_nat sosize) dv1 of (mcRet, dv2) \<Rightarrow>
        case unregisterWsmL2 dv2 of (ok, dv3) \<Rightarrow>
          (ok \<and> mcRet = MC_MCP_RET_OK, dm\<lparr>dm_device := delete_connection (Some conn) dv3, dm_connections := Suc conn\<rparr>))"

text \<open>The registry handlers note their calls of \<open>loadToken\<close> and ask for the check of an application; here
  both are carried out on the device, the check before the application is stored.\<close>

definition give_tokens :: "(bytes \<times> nat) list \<Rightarrow> daemon \<Rightarrow> daemon" where
  "give_tokens ts dm = fold (\<lambda>(_, n) dm. snd (loadToken n dm)) ts dm"

definition blob_to_check :: "bytes \<Rightarrow> world \<Rightarrow> (u32 \<times> bytes \<times> world) option" where
  "blob_to_check inp w =
     (if \<not> w_permitted w then None
      else case getData 4 inp of None \<Rightarrow> None
      | Some (sz, inp1) \<Rightarrow> (case malloc (unat (dec32 sz)) w of (None, _) \<Rightarrow> None
        | (Some _, w1) \<Rightarrow> (case getData 4 inp1 of None \<Rightarrow> None
          | Some (spid, inp2) \<Rightarrow> (case malloc (unat (dec32 sz)) w1 of (None, _) \<Rightarrow> None
            | (Some _, w2) \<Rightarrow> (case getData (unat (dec32 sz)) inp2 of None \<Rightarrow> None
              | Some (blob, _) \<Rightarrow> Some (dec32 spid, blob, w2))))))"

definition check_first :: "(nat \<Rightarrow> u8) \<Rightarrow> u32 \<Rightarrow> bytes \<Rightarrow> daemon \<Rightarrow> daemon option" where
  "check_first heap cmd inp dm =
     (case (if cmd = MC_DRV_REG_STORE_TA_BLOB then blob_to_check inp (dm_world dm) else None) of None \<Rightarrow> Some dm
      | Some (spid, blob, w) \<Rightarrow> map_option (\<lambda>(ret, dm1). dm1\<lparr>dm_world :=
            (dm_world dm)\<lparr>w_fs := w_fs (dm_world dm1), w_loadcheck := \<lambda>_ _. ret\<rparr>\<rparr>)
          (processLoadCheck heap spid blob (dm\<lparr>dm_world := w\<rparr>)))"

definition registry_result :: "connection \<Rightarrow> bytes \<times> world \<Rightarrow> daemon \<Rightarrow> daemon" where
  "registry_result c r dm = on_device (write_data c (fst r))
     (give_tokens (drop (length (w_tokens (dm_world dm))) (w_tokens (snd r))) (dm\<lparr>dm_world := snd r\<rparr>))"

definition handleCommand :: "(nat \<Rightarrow> u8) \<Rightarrow> connection \<Rightarrow> u32 \<Rightarrow> request \<Rightarrow> bytes \<Rightarrow> daemon \<Rightarrow> daemon option" where
  "handleCommand heap c cmd rq inp dm =
     (if cmd = 2 then processOpenDevice rq c dm
      else if cmd = 3 then processCloseDevice c dm
      else if cmd = 5 then processOpenSession heap False rq c dm
      else if cmd = 12 then processOpenTrustlet heap rq c dm
      else if cmd = 13 then processOpenSession heap True rq c dm
      else if cmd = 6 then processCloseSession rq c dm
      else if cmd = 4 then processNqConnect rq c dm
      else if cmd = 7 then processNotify rq c dm
      else if cmd = 8 then processMapBulkBuf rq c dm
      else if cmd = 9 then processUnmapBulkBuf rq c dm
      else if cmd = 10 then processGetVersion c dm
      else if cmd = 11 then processGetMobiCoreVersion c dm
      else if cmd \<in> {MC_DRV_REG_STORE_AUTH_TOKEN, MC_DRV_REG_WRITE_ROOT_CONT, MC_DRV_REG_WRITE_SP_CONT, MC_DRV_REG_WRITE_TL_CONT,
          MC_DRV_REG_WRITE_SO_DATA, MC_DRV_REG_STORE_TA_BLOB} then
        Option.bind (check_first heap cmd inp dm) (\<lambda>dm1.
          map_option (\<lambda>r. registry_result c r dm1) (processRegistryWriteData cmd inp (dm_world dm1)))
      else if cmd \<in> {MC_DRV_REG_READ_AUTH_TOKEN, MC_DRV_REG_READ_ROOT_CONT, MC_DRV_REG_READ_SP_CONT, MC_DRV_REG_READ_TL_CONT} then
        Some (registry_result c (processRegistryReadData cmd inp (dm_world dm)) dm)
      else if cmd \<in> {MC_DRV_REG_DELETE_AUTH_TOKEN, MC_DRV_REG_DELETE_ROOT_CONT, MC_DRV_REG_DELETE_SP_CONT, MC_DRV_REG_DELETE_TL_CONT} then
        Some (registry_result c (processRegistryDeleteData cmd inp (dm_world dm)) dm)
      else Some dm)"

subsection \<open>Steps of the daemon\<close>

text \<open>A client is accepted, sends a command, or is dropped and deleted with its connection; an interrupt
  comes; the exit handler closes the sessions of dead trustlets.\<close>

inductive daemon_step :: "daemon \<Rightarrow> daemon \<Rightarrow> bool" where
  accept: "daemon_step dm (dm\<lparr>dm_clients := dm_clients dm @ [dm_connections dm], dm_connections := Suc (dm_connections dm)\<rparr>)"
| command: "\<lbrakk>c \<in> set (dm_clients dm); readCommand header dm = Some cmd; handleCommand heap c cmd rq inp dm = Some dm'\<rbrakk> \<Longrightarrow>
    daemon_step dm dm'"
| drop: "\<lbrakk>c \<in> set (dm_clients dm); dropConnection c dm = Some dm1\<rbrakk> \<Longrightarrow>
    daemon_step dm ((detachConnection c dm1)\<lparr>dm_device := delete_connection (Some c) (dm_device dm1)\<rparr>)"
| interrupt: "daemon_step dm (on_device (handle_irq irq) dm)"
| exit_handler: "close_dead (dm_device dm) = Some dv \<Longrightarrow> daemon_step dm (dm\<lparr>dm_device := dv\<rparr>)"

end
