(* ===== verification/Versions.thy ===== *)
theory Versions
  imports Codes
begin

text \<open>
  Versions of interfaces (src/common/MobiCore/inc/mcVersionHelper.h): a major number that has to be the
  same and a minor number that has to be at least the one required.
\<close>

definition MC_GET_MAJOR_VERSION :: "u32 \<Rightarrow> u32" where "MC_GET_MAJOR_VERSION v = drop_bit 16 v"
definition MC_GET_MINOR_VERSION :: "u32 \<Rightarrow> u32" where "MC_GET_MINOR_VERSION v = v AND 0xffff"

text \<open>The function \<open>MC_CHECK_VERSION\<close> makes for an interface and the version it requires.\<close>

definition checkVersionOk :: "u32 \<Rightarrow> u32 \<Rightarrow> u32 \<Rightarrow> bool" where
  "checkVersionOk majorRequired minorRequired version \<longleftrightarrow>
     MC_GET_MAJOR_VERSION version = majorRequired \<and> minorRequired \<le> MC_GET_MINOR_VERSION version"

lemma checkVersionOk_iff: "checkVersionOk a b v \<longleftrightarrow> drop_bit 16 v = a \<and> b \<le> v AND 0xffff"
  by (simp add: checkVersionOk_def MC_GET_MAJOR_VERSION_def MC_GET_MINOR_VERSION_def)

end
