(* ===== verification/Startup.thy ===== *)
theory Startup
  imports DaemonCommands Versions
begin

text \<open>
  The start of the daemon (\<open>run\<close>, \<open>loadDeviceDriver\<close> and the check of the versions in
  src/MobiCoreDriverLib/Daemon/MobiCoreDriverDaemon.cpp), the set-up of the device and the loop of its
  scheduler (src/MobiCoreDriverLib/Daemon/Device/Platforms/Generic/TrustZoneDevice.cpp), and the end of
  the daemon. What the kernel module answers during the set-up is a record.
\<close>

subsection \<open>Versions\<close>

definition checkVersionOkMCI :: "u32 \<Rightarrow> bool" where "checkVersionOkMCI = checkVersionOk 0 2"
definition checkVersionOkSO :: "u32 \<Rightarrow> bool" where "checkVersionOkSO = checkVersionOk 2 0"
definition checkVersionOkMCLF :: "u32 \<Rightarrow> bool" where "checkVersionOkMCLF = checkVersionOk 2 0"
definition checkVersionOkCONTAINER :: "u32 \<Rightarrow> bool" where "checkVersionOkCONTAINER = checkVersionOk 2 0"

text \<open>The versions the secure world reports; \<open>False\<close> when the daemon exits.\<close>

definition checkMobiCoreVersion :: "device \<Rightarrow> bool \<times> device" where
  "checkMobiCoreVersion dv = (case getMobiCoreVersion dv of ((mcResult, v), dv1) \<Rightarrow>
     (case v of None \<Rightarrow> False
      | Some d \<Rightarrow> checkVersionOkMCI (peek32 64 d) \<and> checkVersionOkSO (peek32 68 d) \<and> checkVersionOkMCLF (peek32 72 d) \<and>
                  checkVersionOkCONTAINER (peek32 76 d), dv1))"

subsection \<open>Setting up the device\<close>

record boot =
  b_open :: bool
  b_kmod_version :: bool \<comment> \<open>the result of \<open>checkVersion\<close> of the kernel module\<close>
  b_mapMCI :: "(bytes \<times> bool) option" \<comment> \<open>the buffer, and whether it is reused\<close>
  b_mci_version :: "u32 option"
  b_fcInit :: bool
  b_nsiq :: bool
  b_status :: "nat \<Rightarrow> u32 option" \<comment> \<open>the nth answer to the question for the status\<close>
  b_yield :: "nat \<Rightarrow> bool"
  b_secure :: "bytes \<Rightarrow> bytes" \<comment> \<open>what the secure world makes of the buffer when it sets it up\<close>

abbreviation (input) MC_STATUS_NOT_INITIALIZED :: u32 where "MC_STATUS_NOT_INITIALIZED \<equiv> 0"
abbreviation (input) MC_STATUS_INITIALIZED :: u32 where "MC_STATUS_INITIALIZED \<equiv> 2"

definition NQ_NUM_ELEMS :: nat where "NQ_NUM_ELEMS = 16"
definition NQ_BUFFER_SIZE :: nat where "NQ_BUFFER_SIZE = 2 * (12 + NQ_NUM_ELEMS * 8)"
definition MCP_BUFFER_SIZE :: nat where "MCP_BUFFER_SIZE = 16 + 144"
definition MCI_BUFFER_SIZE :: nat where "MCI_BUFFER_SIZE = NQ_BUFFER_SIZE + MCP_BUFFER_SIZE"

definition getMobicoreStatus :: "boot \<Rightarrow> nat \<Rightarrow> u32" where
  "getMobicoreStatus b n = (case b_status b n of None \<Rightarrow> MC_STATUS_NOT_INITIALIZED | Some s \<Rightarrow> s)"

definition checkMciVersion :: "boot \<Rightarrow> bool" where
  "checkMciVersion b = (case b_mci_version b of None \<Rightarrow> False | Some v \<Rightarrow> checkVersionOkMCI v)"

text \<open>Wait for the secure world, which gets ten time slots between two questions.\<close>

partial_function (option) init_wait :: "boot \<Rightarrow> nat \<Rightarrow> bool option" where
  "init_wait b n =
     (if getMobicoreStatus b n = MC_STATUS_INITIALIZED then Some True
      else if getMobicoreStatus b n = MC_STATUS_NOT_INITIALIZED then
        (if list_all (b_yield b) [10 * n..<10 * n + 10] then init_wait b (Suc n) else Some False)
      else Some False)"

text \<open>A queue in the buffer.\<close>

definition queue_at :: "nat \<Rightarrow> bytes \<Rightarrow> notificationQueue" where
  "queue_at off b = \<lparr>writeCnt = peek32 off b, readCnt = peek32 (off + 4) b, queueSize = peek32 (off + 8) b,
     slots = \<lambda>i. \<lparr>n_sessionId = peek32 (off + 12 + 8 * i) b, n_payload = peek32 (off + 16 + 8 * i) b\<rparr>\<rparr>"

definition initDevice :: "boot \<Rightarrow> device \<Rightarrow> (bool \<times> device) option" where
  "initDevice b dv =
     (if \<not> b_open b \<or> \<not> b_kmod_version b then Some (False, dv)
      else case b_mapMCI b of None \<Rightarrow> Some (False, dv)
      | Some (memory, reused) \<Rightarrow>
        if \<not> checkMciVersion b then Some (False, dv)
        else if \<not> reused \<and> (\<not> b_fcInit b \<or> \<not> b_nsiq b) then Some (False, dv)
        else map_option (\<lambda>ok. if \<not> ok then (False, dv) else
            let buf = (if reused then memory else b_secure b (replicate MCI_BUFFER_SIZE 0))
            in (True, dv\<lparr>mciReused := reused, nq := NotificationQueue_init (queue_at (12 + NQ_NUM_ELEMS * 8) buf) (queue_at 0 buf)
                        (of_nat NQ_NUM_ELEMS), mcpMessage := drop (NQ_BUFFER_SIZE + 16) buf\<rparr>))
          (if reused then Some True else init_wait b 0))"

subsection \<open>Drivers of the secure world\<close>

definition DRIVER_TCI_LEN :: u32 where "DRIVER_TCI_LEN = 4096"

definition allocateContiguousPersistentWsm :: "u32 \<Rightarrow> device \<Rightarrow> CWsm option \<times> device" where
  "allocateContiguousPersistentWsm len dv = (if len = 0 then (None, dv) else (km_wsm dv (km_calls dv) len, snd (km_call dv)))"

text \<open>The connection of a driver is not one of a client. When something fails after it was made it is deleted.\<close>

definition loadDeviceDriver :: "(nat \<Rightarrow> u8) \<Rightarrow> path \<Rightarrow> daemon \<Rightarrow> (bool \<times> daemon) option" where
  "loadDeviceDriver heap driverPath dm =
     Option.bind (mcRegistryGetDriverBlob heap (Some driverPath) (w_fs (dm_world dm))) (\<lambda>(obj, fs1).
       let dm1 = dm\<lparr>dm_world := (dm_world dm)\<lparr>w_fs := fs1\<rparr>\<rparr> in
       case obj of None \<Rightarrow> Some (False, dm1)
       | Some ob \<Rightarrow> (case registerWsmL2 (dm_device dm1) of
           (None, dv1) \<Rightarrow> Some (False, dm1\<lparr>dm_device := dv1\<rparr>)
         | (Some phys, dv1) \<Rightarrow> (case allocateContiguousPersistentWsm DRIVER_TCI_LEN dv1 of
             (None, dv2) \<Rightarrow> Some (False, dm1\<lparr>dm_device := snd (unregisterWsmL2 dv2)\<rparr>)
           | (Some tci, dv2) \<Rightarrow>
             let conn = dm_connections dm1 in
             map_option (\<lambda>((mcRet, rsp), dv3). case unregisterWsmL2 dv3 of (ok, dv4) \<Rightarrow>
               let dm2 = dm1\<lparr>dm_connections := Suc conn\<rparr> in
               (case rsp of
                  Some (sid, _, _) \<Rightarrow> if ok \<and> mcRet = MC_MCP_RET_OK
                    then (True, dm2\<lparr>dm_device := dv4, driverResources := driverResources dm @ [(conn, sid)]\<rparr>)
                    else (False, dm2\<lparr>dm_device := delete_connection (Some conn) dv4\<rparr>)
                | None \<Rightarrow> (False, dm2\<lparr>dm_device := delete_connection (Some conn) dv4\<rparr>)))
               (openSession conn (load_data phys ob dm1) (wsm_handle tci) (wsm_len tci) 0 dv2))))"

fun load_drivers :: "(nat \<Rightarrow> u8) \<Rightarrow> path list \<Rightarrow> daemon \<Rightarrow> daemon option" where
  "load_drivers heap [] dm = Some dm"
| "load_drivers heap (p # ps) dm = Option.bind (loadDeviceDriver heap p dm) (\<lambda>(_, dm1). load_drivers heap ps dm1)"

subsection \<open>Start and end\<close>

datatype started = Not_started daemon | Exited daemon | Serving daemon

definition install_token :: "daemon \<Rightarrow> daemon" where
  "install_token dm = (let w = installEndorsementToken (dm_world dm)
     in give_tokens (drop (length (w_tokens (dm_world dm))) (w_tokens w)) (dm\<lparr>dm_world := w\<rparr>))"

definition run_daemon :: "boot \<Rightarrow> (nat \<Rightarrow> u8) \<Rightarrow> path list \<Rightarrow> daemon \<Rightarrow> started option" where
  "run_daemon b heap drivers dm =
     Option.bind (initDevice b (dm_device dm)) (\<lambda>(ok, dv1).
       if \<not> ok then Some (Not_started (dm\<lparr>dm_device := dv1\<rparr>))
       else case checkMobiCoreVersion (start_device dv1) of (ok, dv2) \<Rightarrow>
         if \<not> ok then Some (Exited (dm\<lparr>dm_device := dv2\<rparr>))
         else map_option (\<lambda>dm1. Serving (install_token dm1)) (load_drivers heap drivers (dm\<lparr>dm_device := dv2\<rparr>)))"

text \<open>The destructor closes the sessions of the drivers.\<close>

fun unload_drivers :: "(connection \<times> u32) list \<Rightarrow> device \<Rightarrow> device option" where
  "unload_drivers [] dv = Some dv"
| "unload_drivers ((conn, sid) # rs) dv =
     Option.bind (closeSession conn sid dv) (\<lambda>(_, dv1). unload_drivers rs (snd (unregisterWsmL2 dv1)))"

subsection \<open>The scheduler\<close>

abbreviation (input) MC_FLAG_SCHEDULE_IDLE :: u32 where "MC_FLAG_SCHEDULE_IDLE \<equiv> 0"

definition SCHEDULING_FREQ :: nat where "SCHEDULING_FREQ = 5"

text \<open>What one turn of the loop sees: the flag of the secure world, whether the thread is to terminate when it
  wakes up, and whether the call of the kernel module works; and what it does.\<close>

record sched_input =
  si_schedule :: u32
  si_terminate :: bool
  si_call :: bool

datatype sched_action = Sleep | N_SIQ | Yield

fun schedule :: "nat \<Rightarrow> sched_input list \<Rightarrow> sched_action list" where
  "schedule timeslice [] = []"
| "schedule timeslice (i # is) =
     (if si_schedule i = MC_FLAG_SCHEDULE_IDLE then Sleep # (if si_terminate i then [] else schedule timeslice is)
      else if timeslice = 0 then N_SIQ # (if \<not> si_call i then [] else schedule SCHEDULING_FREQ is)
      else Yield # (if \<not> si_call i then [] else schedule (timeslice - 1) is))"

end
