(* ===== verification/DeviceFacts.thy ===== *)
theory DeviceFacts
  imports Device "HOL-Library.Multiset"
begin

text \<open>
  Properties of the device: what the interrupts that come during a wait leave alone, the invariant
  that every buffer of a session is locked and every connection deleted once, and what happens to the
  sessions of a client that goes away, with a secure world that answers and with one that does not.
\<close>

subsection \<open>What an interrupt leaves alone\<close>

text \<open>A session without what interrupts change.\<close>

definition bare :: "session \<Rightarrow> session" where
  "bare ts = ts\<lparr>ts_notifications := [], sessionState := TS_TA_RUNNING\<rparr>"

lemma bare_simps [simp]:
  "ts_addr (bare ts) = ts_addr ts" "buffers (bare ts) = buffers ts" "sessionId (bare ts) = sessionId ts"
  "sessionMagic (bare ts) = sessionMagic ts" "deviceConnection (bare ts) = deviceConnection ts"
  "notificationConnection (bare ts) = notificationConnection ts" "gp_level (bare ts) = gp_level ts"
  "bare (queueNotification n ts) = bare ts" "bare (bare ts) = bare ts"
  "handles (bare ts) = handles ts" "buffers_ok (bare ts) = buffers_ok ts"
  by (simp_all add: bare_def handles_def buffers_ok_def queueNotification_def Let_def)

definition kept :: "device \<Rightarrow> device \<Rightarrow> bool" where
  "kept dv dv1 \<longleftrightarrow> map bare (trustletSessions dv1) = map bare (trustletSessions dv) \<and> km_locked dv1 = km_locked dv \<and>
     dv_deleted dv1 = dv_deleted dv \<and> dv_next dv1 = dv_next dv \<and> dv_linked dv1 = dv_linked dv \<and>
     dv_turns dv1 = dv_turns dv \<and> km_results dv1 = km_results dv"

lemma kept_refl [simp]: "kept dv dv"
  by (simp add: kept_def)

lemma kept_trans: "kept dv dv1 \<Longrightarrow> kept dv1 dv2 \<Longrightarrow> kept dv dv2"
  by (simp add: kept_def)

lemma same_map: "map bare xs = map bare ys \<Longrightarrow> (\<And>t. f (bare t) = f t) \<Longrightarrow> map f xs = map f ys"
proof -
  assume "map bare xs = map bare ys" and f: "\<And>t. f (bare t) = f t"
  then have "map f (map bare xs) = map f (map bare ys)" by simp
  then show ?thesis by (simp add: comp_def f)
qed

lemma same_find: "map bare xs = map bare ys \<Longrightarrow> (\<And>t. P (bare t) = P t) \<Longrightarrow> map_option bare (find P xs) = map_option bare (find P ys)"
proof (induction xs arbitrary: ys)
  case (Cons x xs)
  then obtain y zs where ys: "ys = y # zs" "bare x = bare y" "map bare xs = map bare zs" by (cases ys) auto
  have "P x = P y" using Cons.prems(2) ys(2) by metis
  then show ?case using Cons.IH [OF ys(3) Cons.prems(2)] ys by simp
qed simp

lemma kept_frame: "map bare (trustletSessions dv1) = map bare (trustletSessions dv) \<Longrightarrow> km_locked dv1 = km_locked dv \<Longrightarrow>
    dv_deleted dv1 = dv_deleted dv \<Longrightarrow> dv_next dv1 = dv_next dv \<Longrightarrow> dv_linked dv1 = dv_linked dv \<Longrightarrow>
    dv_turns dv1 = dv_turns dv \<Longrightarrow> km_results dv1 = km_results dv \<Longrightarrow> kept dv dv1"
  by (simp add: kept_def)

lemma kept_calls [simp]:
  "kept dv (snd (km_call dv))" "kept dv (notify sid dv)" "kept dv (write_mcp ws dv)" "kept dv (write_data c d dv)"
  "kept dv (signalMcpNotification dv)" "kept dv (queueUnknownNotification n dv)"
  "kept dv (dv\<lparr>unknown_notifications := ns\<rparr>)" "kept dv (dv\<lparr>nq := q\<rparr>)" "kept dv (dv\<lparr>mcFault := b\<rparr>)"
  "kept dv (dv\<lparr>notifySessionRemoved := b\<rparr>)" "kept dv (dv\<lparr>mcVersionInfo := v\<rparr>)" "kept dv (dv\<lparr>exit_wakeups := n'\<rparr>)"
  by (simp_all add: kept_def km_call_def write_mcp_def write_data_def signalMcpNotification_def queueUnknownNotification_def)

lemma kept_update: "(\<And>t. ts_addr t = a \<Longrightarrow> t \<in> set (trustletSessions dv) \<Longrightarrow> bare (f t) = bare t) \<Longrightarrow> kept dv (update_session a f dv)"
  by (auto simp: kept_def update_session_def)

lemma kept_handle: "kept dv (handle_notification n dv)"
proof -
  have u: "kept dv (update_session a (queueNotification n) dv)" for a by (rule kept_update) simp
  have n: "kept dv (dv1\<lparr>notifySessionRemoved := False\<rparr>)" if "kept dv dv1" for dv1
    by (rule kept_trans [OF that]) simp
  have e: "kept dv (dv1\<lparr>exit_wakeups := m\<rparr>)" if "kept dv dv1" for dv1 m
    by (rule kept_trans [OF that]) simp
  show ?thesis
    using u kept_trans [OF kept_calls(6) kept_calls(2)]
    by (auto simp: handle_notification_def Let_def intro: n e split: option.split)
qed

lemma kept_irq_loop: "kept dv (irq_loop dv)"
proof (induction dv rule: irq_loop.induct)
  case (1 dv)
  obtain r q where g: "getNotification (nq dv) = (r, q)" by fastforce
  show ?case
  proof (cases r)
    case None
    then show ?thesis using g by (subst irq_loop.simps) simp
  next
    case (Some n)
    have "kept dv (handle_notification n (dv\<lparr>nq := q\<rparr>))" by (rule kept_trans [OF _ kept_handle]) simp
    then show ?thesis using 1 [OF g [symmetric] Some] g Some kept_trans by (subst irq_loop.simps) auto
  qed
qed

lemma kept_irqs: "kept dv (fold handle_irq irqs dv)"
proof (induction irqs arbitrary: dv)
  case (Cons irq irqs)
  have "kept dv (handle_irq irq dv)" unfolding handle_irq_def by (rule kept_trans [OF _ kept_irq_loop]) simp
  then show ?case using Cons.IH kept_trans by simp
qed simp

lemma kept_wait: "mcp_wait dv = (ok, t, dv1) \<Longrightarrow> kept dv dv1"
proof -
  assume w: "mcp_wait dv = (ok, t, dv1)"
  obtain b s where e: "sem_enter (mcpSessionNotification dv) = (b, s)" by fastforce
  let ?t = "dv_turns dv (dv_waits dv)"
  let ?dv1 = "dv\<lparr>dv_waits := Suc (dv_waits dv), mcpSessionNotification := s,
    mcpMessage := shared_write (mcpMessage dv) (wt_answer ?t (mcpMessage dv))\<rparr>"
  obtain s2 where d: "dv1 = (fold handle_irq (wt_irqs ?t) ?dv1)\<lparr>mcpSessionNotification := s2\<rparr>"
    using w e by (auto simp: mcp_wait_def Let_def case_prod_unfold)
  have "kept dv (fold handle_irq (wt_irqs ?t) ?dv1)" by (rule kept_trans [OF _ kept_irqs]) (simp add: kept_def)
  then show ?thesis unfolding d by (simp add: kept_def)
qed

lemma kept_wait_loop: "wait_loop n dv = (r, dv1) \<Longrightarrow> kept dv dv1"
proof (induction n dv rule: wait_loop.induct)
  case (1 n dv)
  obtain ok t dv2 where w: "mcp_wait dv = (ok, t, dv2)" by (metis prod.collapse)
  note k = kept_wait [OF w]
  have f: "kept dv (dv2\<lparr>mcFault := True\<rparr>)" by (rule kept_trans [OF k]) simp
  show ?case
  proof (cases "\<not> mcFault dv \<and> \<not> ok \<and> wt_status t \<noteq> MC_STATUS_HALT \<and> \<not> n - 1 < 1")
    case True
    then have "wait_loop (n - 1) dv2 = (r, dv1)" using "1.prems" w by (subst (asm) wait_loop.simps) simp
    then have "kept dv2 dv1" using 1(1) [OF _ w [symmetric] refl] True by simp
    then show ?thesis using kept_trans [OF k] by blast
  next
    case False
    then show ?thesis using "1.prems" w k f by (subst (asm) wait_loop.simps) (auto split: if_splits)
  qed
qed

lemma kept_msh: "mshNotifyAndWait dv = (r, dv1) \<Longrightarrow> kept dv dv1"
proof -
  assume m: "mshNotifyAndWait dv = (r, dv1)"
  obtain x dv2 where w: "wait_loop 5 (notify SID_MCP dv) = (x, dv2)" by fastforce
  have "dv1 = dv2" using m w by (auto simp: mshNotifyAndWait_def waitMcpNotification_def split: option.splits prod.splits)
  then show ?thesis using kept_trans [OF kept_calls(2) kept_wait_loop [OF w]] by simp
qed

lemma kept_exchange: "mcp_exchange cmd ws dv = (r, dv1) \<Longrightarrow> kept dv dv1"
proof -
  assume m: "mcp_exchange cmd ws dv = (r, dv1)"
  obtain x dv2 where w: "mshNotifyAndWait (write_mcp ((0, enc32 cmd) # ws) dv) = (x, dv2)" by fastforce
  have "dv1 = dv2" using m w by (auto simp: mcp_exchange_def)
  then show ?thesis using kept_trans [OF kept_calls(3) kept_msh [OF w]] by simp
qed

lemma kept_close_cmd: "sendSessionCloseCmd sid dv = (r, dv1) \<Longrightarrow> kept dv dv1"
  by (auto simp: sendSessionCloseCmd_def split: prod.splits sum.splits dest: kept_exchange)

lemma kept_close_internal: "closeSessionInternal ts dv = (r, dv1) \<Longrightarrow> kept dv dv1"
  by (auto simp: closeSessionInternal_def split: prod.splits dest: kept_close_cmd)

lemma kept_version: "getMobiCoreVersion dv = (r, dv1) \<Longrightarrow> kept dv dv1"
proof -
  assume g: "getMobiCoreVersion dv = (r, dv1)"
  obtain x dv2 where w: "mcp_exchange MC_MCP_CMD_GET_MOBICORE_VERSION [] dv = (x, dv2)" by fastforce
  have v: "kept dv (dv2\<lparr>mcVersionInfo := v\<rparr>)" for v by (rule kept_trans [OF kept_exchange [OF w]]) simp
  show ?thesis using g w kept_exchange [OF w] v by (auto simp: getMobiCoreVersion_def Let_def split: option.splits sum.splits if_splits)
qed

text \<open>What depends on sessions only through what interrupts leave alone.\<close>

lemma kept_maps:
  assumes "kept dv dv1"
  shows "map ts_addr (trustletSessions dv1) = map ts_addr (trustletSessions dv)"
    "map handles (trustletSessions dv1) = map handles (trustletSessions dv)"
    "map notificationConnection (trustletSessions dv1) = map notificationConnection (trustletSessions dv)"
    "map deviceConnection (trustletSessions dv1) = map deviceConnection (trustletSessions dv)"
    "map gp_level (trustletSessions dv1) = map gp_level (trustletSessions dv)"
    "map buffers_ok (trustletSessions dv1) = map buffers_ok (trustletSessions dv)"
  using assms by (auto simp: kept_def intro: same_map)

lemma kept_session_at: "kept dv dv1 \<Longrightarrow> map_option bare (session_at a dv1) = map_option bare (session_at a dv)"
  unfolding session_at_def by (rule same_find) (simp_all add: kept_def)

subsection \<open>The invariant\<close>

definition session_conns :: "device \<Rightarrow> connection list" where
  "session_conns dv = List.map_filter id (map notificationConnection (trustletSessions dv))"

definition session_handles :: "device \<Rightarrow> u32 list" where
  "session_handles dv = concat (map handles (trustletSessions dv))"

text \<open>Sessions are different objects; each buffer of a session is locked, with the locks \<open>E\<close> to spare; no
  notification connection belongs to two sessions, and none is deleted, nor any connection twice.\<close>

definition device_ok :: "u32 multiset \<Rightarrow> device \<Rightarrow> bool" where
  "device_ok E dv \<longleftrightarrow> distinct (map ts_addr (trustletSessions dv)) \<and> (\<forall>a\<in>set (map ts_addr (trustletSessions dv)). a < dv_next dv) \<and>
     (\<forall>t\<in>set (trustletSessions dv). buffers_ok t) \<and> mset (session_handles dv) + E \<subseteq># mset (km_locked dv) \<and>
     distinct (session_conns dv @ dv_deleted dv)"

lemma kept_ok: "kept dv dv1 \<Longrightarrow> device_ok E dv1 = device_ok E dv"
proof -
  assume k: "kept dv dv1"
  have b: "(\<forall>t\<in>set (trustletSessions dv1). buffers_ok t) = (\<forall>t\<in>set (trustletSessions dv). buffers_ok t)"
    using arg_cong [OF kept_maps(6) [OF k], of "\<lambda>l. \<forall>b\<in>set l. b"] by simp
  show ?thesis
    using b kept_maps(1-5) [OF k] k by (simp add: device_ok_def session_conns_def session_handles_def kept_def del: set_map)
qed

lemma kept_conns: "kept dv dv1 \<Longrightarrow> session_conns dv1 = session_conns dv"
  using kept_maps(3) [of dv dv1] by (simp add: session_conns_def)

text \<open>One session and the others.\<close>

lemma session_split:
  assumes "distinct (map ts_addr (trustletSessions dv))" "session_at a dv = Some ts"
  obtains xs ys where "trustletSessions dv = xs @ ts # ys" "ts_addr ts = a" "\<forall>t\<in>set (xs @ ys). ts_addr t \<noteq> a"
proof -
  obtain xs ys where s: "trustletSessions dv = xs @ ts # ys" "ts_addr ts = a"
    using assms(2) by (auto simp: session_at_def find_Some_iff split_list dest!: nth_mem split_list)
  then have "\<forall>t\<in>set (xs @ ys). ts_addr t \<noteq> a" using assms(1) by (auto simp: rev_image_eqI)
  with s show thesis by (rule that)
qed

lemma session_atI: "distinct (map ts_addr (trustletSessions dv)) \<Longrightarrow> ts \<in> set (trustletSessions dv) \<Longrightarrow> session_at (ts_addr ts) dv = Some ts"
proof -
  assume d: "distinct (map ts_addr (trustletSessions dv))" and t: "ts \<in> set (trustletSessions dv)"
  obtain x where x: "session_at (ts_addr ts) dv = Some x"
    using t by (cases "session_at (ts_addr ts) dv") (auto simp: session_at_def find_None_iff)
  then have "x \<in> set (trustletSessions dv)" "ts_addr x = ts_addr ts"
    by (auto simp: session_at_def find_Some_iff)
  then have "x = ts" using d t by (auto simp: distinct_map dest: inj_onD)
  with x show ?thesis by simp
qed

lemma map_ite_other: "\<forall>t\<in>set xs. g t \<noteq> a \<Longrightarrow> map (\<lambda>t. if g t = a then f t else t) xs = xs"
  by (induction xs) auto

lemma update_split:
  "trustletSessions dv = xs @ ts # ys \<Longrightarrow> ts_addr ts = a \<Longrightarrow> \<forall>t\<in>set (xs @ ys). ts_addr t \<noteq> a \<Longrightarrow>
   trustletSessions (update_session a f dv) = xs @ f ts # ys"
  by (simp add: update_session_def map_ite_other)

lemma update_session_frame [simp]:
  "km_locked (update_session a f dv) = km_locked dv" "dv_deleted (update_session a f dv) = dv_deleted dv"
  "dv_next (update_session a f dv) = dv_next dv" "dv_linked (update_session a f dv) = dv_linked dv"
  "dv_turns (update_session a f dv) = dv_turns dv" "km_results (update_session a f dv) = km_results dv"
  "mcFault (update_session a f dv) = mcFault dv"
  by (simp_all add: update_session_def)

lemma map_filter_id: "List.map_filter id (xs @ ys) = List.map_filter id xs @ List.map_filter id ys"
  "List.map_filter id (x # xs) = (case x of None \<Rightarrow> [] | Some c \<Rightarrow> [c]) @ List.map_filter id xs"
  by (auto simp: map_filter_def split: option.split)

lemma update_ok:
  assumes "device_ok E dv" "session_at a dv = Some ts" "ts_addr (f ts) = a" "buffers_ok (f ts)"
    "notificationConnection (f ts) = notificationConnection ts" "mset (handles (f ts)) + E1 \<subseteq># mset (handles ts) + E"
  shows "device_ok E1 (update_session a f dv)"
proof -
  obtain xs ys where s: "trustletSessions dv = xs @ ts # ys" "ts_addr ts = a" "\<forall>t\<in>set (xs @ ys). ts_addr t \<noteq> a"
    using session_split [OF _ assms(2)] assms(1) by (auto simp: device_ok_def)
  note u = update_split [OF s]
  let ?r = "mset (concat (map handles xs)) + mset (concat (map handles ys))"
  have n: "mset (session_handles (update_session a f dv)) = ?r + mset (handles (f ts))"
    unfolding session_handles_def u by (simp add: add.commute)
  have o: "mset (session_handles dv) = ?r + mset (handles ts)"
    unfolding session_handles_def s(1) by (simp add: add.commute)
  have h: "mset (session_handles (update_session a f dv)) + E1 \<subseteq># mset (session_handles dv) + E"
    unfolding n o add.assoc by (intro subset_mset.add_left_mono assms(6) [unfolded add.assoc])
  have l: "mset (session_handles (update_session a f dv)) + E1 \<subseteq># mset (km_locked dv)"
    by (rule subset_mset.order_trans [OF h]) (use assms(1) in \<open>simp add: device_ok_def\<close>)
  have c: "session_conns (update_session a f dv) = session_conns dv"
    using assms(5) by (simp add: session_conns_def u s(1))
  have b: "buffers_ok ts" using assms(1) s(1) by (simp add: device_ok_def)
  have m: "map ts_addr (trustletSessions (update_session a f dv)) = map ts_addr (trustletSessions dv)"
    "(\<forall>t\<in>set (trustletSessions (update_session a f dv)). buffers_ok t) = (\<forall>t\<in>set (trustletSessions dv). buffers_ok t)"
    using b assms(3,4) s(2) by (simp_all add: u s(1))
  show ?thesis using assms(1) l unfolding device_ok_def c m update_session_frame by blast
qed

lemma unlock_ok: "device_ok (add_mset h E) dv \<Longrightarrow> device_ok E (snd (unlockWsmL2 h dv))"
proof -
  assume d: "device_ok (add_mset h E) dv"
  then have m: "h \<in># mset (km_locked dv)" "mset (session_handles dv) + E \<subseteq># mset (km_locked dv) - {#h#}"
    "mset (session_handles dv) + E \<subseteq># mset (km_locked dv)"
    by (auto simp: device_ok_def insert_subset_eq_iff dest: subset_mset.order_trans [OF _ diff_subset_eq_self])
  show ?thesis using d m
    by (auto simp: device_ok_def unlockWsmL2_def km_call_def session_handles_def session_conns_def)
qed

lemma unlock_all_ok: "device_ok (mset hs + E) dv \<Longrightarrow> device_ok E (unlock_all hs dv)"
proof (induction hs arbitrary: dv)
  case (Cons h hs)
  then show ?case using unlock_ok [of h "mset hs + E" dv] by simp
qed simp

lemma unlock_all_sessions [simp]:
  "trustletSessions (unlock_all hs dv) = trustletSessions dv" "dv_next (unlock_all hs dv) = dv_next dv"
  "dv_deleted (unlock_all hs dv) = dv_deleted dv" "dv_linked (unlock_all hs dv) = dv_linked dv"
  "dv_turns (unlock_all hs dv) = dv_turns dv" "km_results (unlock_all hs dv) = km_results dv" "mcFault (unlock_all hs dv) = mcFault dv"
  by (induction hs arbitrary: dv) (simp_all add: unlockWsmL2_def km_call_def split: if_splits)

lemma delete_split:
  assumes "trustletSessions dv = xs @ ts # ys" "ts_addr ts = a" "\<forall>t\<in>set (xs @ ys). ts_addr t \<noteq> a" "session_at a dv = Some ts"
  shows "trustletSessions (delete_session a dv) = xs @ ys"
    "dv_deleted (delete_session a dv) = (case notificationConnection ts of None \<Rightarrow> [] | Some c \<Rightarrow> [c]) @ dv_deleted dv"
proof -
  have "filter (\<lambda>t. ts_addr t \<noteq> a) xs = xs" "filter (\<lambda>t. ts_addr t \<noteq> a) ys = ys" using assms(3) by auto
  then show "trustletSessions (delete_session a dv) = xs @ ys"
    "dv_deleted (delete_session a dv) = (case notificationConnection ts of None \<Rightarrow> [] | Some c \<Rightarrow> [c]) @ dv_deleted dv"
    using assms by (simp_all add: delete_session_def delete_connection_def split: option.split)
qed

lemma delete_session_frame [simp]:
  "km_locked (delete_session a dv) = km_locked dv" "dv_next (delete_session a dv) = dv_next dv" "dv_linked (delete_session a dv) = dv_linked dv"
  "dv_turns (delete_session a dv) = dv_turns dv" "km_results (delete_session a dv) = km_results dv" "mcFault (delete_session a dv) = mcFault dv"
  by (simp_all add: delete_session_def delete_connection_def split: option.split)

lemma delete_session_ok:
  assumes "device_ok E dv"
  shows "device_ok E (delete_session a dv)"
proof (cases "session_at a dv")
  case None
  then show ?thesis using assms by (simp add: delete_session_def)
next
  case (Some ts)
  obtain xs ys where s: "trustletSessions dv = xs @ ts # ys" "ts_addr ts = a" "\<forall>t\<in>set (xs @ ys). ts_addr t \<noteq> a"
    using session_split [OF _ Some] assms by (auto simp: device_ok_def)
  note d = delete_split [OF s Some]
  have h: "mset (session_handles (delete_session a dv)) + E \<subseteq># mset (session_handles dv) + E"
    unfolding session_handles_def d(1) s(1) by simp
  note o = assms [unfolded device_ok_def s(1) session_conns_def]
  have c: "distinct (session_conns (delete_session a dv) @ dv_deleted (delete_session a dv))"
    using o unfolding session_conns_def d by (cases "notificationConnection ts") (simp_all add: map_filter_id)
  have l: "mset (session_handles (delete_session a dv)) + E \<subseteq># mset (km_locked dv)"
    by (rule subset_mset.order_trans [OF h]) (use assms in \<open>simp add: device_ok_def\<close>)
  show ?thesis unfolding device_ok_def delete_session_frame
    using o l c unfolding d(1) by simp
qed

lemma disconnect_ok:
  assumes "device_ok E dv" "session_at (ts_addr ts) dv = Some ts"
  shows "device_ok E (disconnect_session ts dv)"
proof -
  obtain xs ys where s: "trustletSessions dv = xs @ ts # ys" "\<forall>t\<in>set (xs @ ys). ts_addr t \<noteq> ts_addr ts"
    using session_split [OF _ assms(2)] assms(1) by (auto simp: device_ok_def)
  let ?t = "ts\<lparr>deviceConnection := None, notificationConnection := None, sessionState := TS_CLOSE_SEND\<rparr>"
  have u: "trustletSessions (disconnect_session ts dv) = xs @ ?t # ys" "km_locked (disconnect_session ts dv) = km_locked dv"
    "dv_next (disconnect_session ts dv) = dv_next dv"
    "dv_deleted (disconnect_session ts dv) = (case notificationConnection ts of None \<Rightarrow> [] | Some c \<Rightarrow> [c]) @ dv_deleted dv"
    using update_split [OF s(1) refl s(2)] by (simp_all add: disconnect_session_def delete_connection_def split: option.split)
  have "handles ?t = handles ts" "buffers_ok ?t = buffers_ok ts" by (simp_all add: handles_def buffers_ok_def)
  then have m: "session_handles (disconnect_session ts dv) = session_handles dv"
    "(\<forall>t\<in>set (trustletSessions (disconnect_session ts dv)). buffers_ok t) = (\<forall>t\<in>set (trustletSessions dv). buffers_ok t)"
    "map ts_addr (trustletSessions (disconnect_session ts dv)) = map ts_addr (trustletSessions dv)"
    by (simp_all add: session_handles_def u(1) s(1))
  have c: "distinct (session_conns (disconnect_session ts dv) @ dv_deleted (disconnect_session ts dv))"
    using assms(1) by (cases "notificationConnection ts") (auto simp: device_ok_def session_conns_def u(1,4) s(1) map_filter_id)
  show ?thesis using assms(1) c unfolding device_ok_def m u(2,3) by blast
qed

lemma pop_buffers_ok:
  "buffers_ok ts \<Longrightarrow> pop_buffers ts = Some (handles ts, ts\<lparr>buffers := []\<rparr>)"
proof (induction "buffers ts" arbitrary: ts)
  case Nil
  then show ?case by (subst pop_buffers.simps) (cases ts, simp add: popBulkBuff_def handles_def)
next
  case (Cons b bs)
  obtain h w where b: "b = (h, w)" by fastforce
  note p = popBulkBuff_ok [OF Cons.prems Cons.hyps(2) [symmetric, unfolded b]]
  have "pop_buffers (ts\<lparr>buffers := bs\<rparr>) = Some (handles (ts\<lparr>buffers := bs\<rparr>), ts\<lparr>buffers := []\<rparr>)"
    using Cons.hyps(1) [of "ts\<lparr>buffers := bs\<rparr>"] p(3) by simp
  then show ?case using p(1,2) Cons.hyps(2) b by (subst pop_buffers.simps) (simp add: handles_def flip: Cons.hyps(2))
qed

text \<open>A freed session is gone, with its locks.\<close>

lemma freeSession_ok:
  assumes "device_ok E dv" "session_at a dv = Some ts"
  obtains dv1 where "freeSession a dv = Some dv1" "device_ok E dv1"
    "trustletSessions dv1 = filter (\<lambda>t. ts_addr t \<noteq> a) (trustletSessions dv)" "dv_linked dv1 = dv_linked dv"
    "dv_deleted dv1 = (case notificationConnection ts of None \<Rightarrow> [] | Some c \<Rightarrow> [c]) @ dv_deleted dv"
    "dv_next dv1 = dv_next dv" "dv_turns dv1 = dv_turns dv" "km_results dv1 = km_results dv" "mcFault dv1 = mcFault dv"
proof -
  obtain xs ys where s: "trustletSessions dv = xs @ ts # ys" "ts_addr ts = a" "\<forall>t\<in>set (xs @ ys). ts_addr t \<noteq> a"
    using session_split [OF _ assms(2)] assms(1) by (auto simp: device_ok_def)
  have b: "buffers_ok ts" using assms(1) s(1) by (auto simp: device_ok_def)
  let ?ts = "ts\<lparr>buffers := []\<rparr>" let ?dv1 = "update_session a (\<lambda>_. ?ts) dv" let ?dv2 = "unlock_all (handles ts) ?dv1"
  have o1: "device_ok (mset (handles ts) + E) ?dv1"
    by (rule update_ok [OF assms]) (simp_all add: s(2) buffers_ok_def handles_def)
  have o2: "device_ok E (delete_session a ?dv2)" by (rule delete_session_ok [OF unlock_all_ok [OF o1]])
  have t: "trustletSessions ?dv2 = xs @ ?ts # ys" using update_split [OF s] by simp
  have a: "session_at a ?dv2 = Some ?ts"
    using session_atI [of ?dv2 ?ts] o1 t s(2) by (simp add: device_ok_def)
  note d = delete_split [OF t _ s(3) a]
  have "filter (\<lambda>t. ts_addr t \<noteq> a) (trustletSessions dv) = xs @ ys" using s by auto
  then show thesis
    using that [of "delete_session a ?dv2"] assms(2) pop_buffers_ok [OF b] o2 d s(2) by (simp add: freeSession_def)
qed

subsection \<open>Commands keep the invariant\<close>

text \<open>All connections the device knows as notification connections, live or deleted, and the owners of sessions.\<close>

definition conns :: "device \<Rightarrow> connection set" where
  "conns dv = set (session_conns dv) \<union> set (dv_deleted dv)"

definition owners :: "device \<Rightarrow> connection set" where
  "owners dv = {c. Some c \<in> set (map deviceConnection (trustletSessions dv))}"

definition shrinks :: "device \<Rightarrow> device \<Rightarrow> bool" where
  "shrinks dv dv1 \<longleftrightarrow> conns dv1 \<subseteq> conns dv \<and> owners dv1 \<subseteq> owners dv \<and> dv_linked dv1 = dv_linked dv \<and>
     km_results dv1 = km_results dv"

text \<open>Sessions are kept, up to what interrupts change: all but one, or all of other clients.\<close>

definition keeps_but :: "nat \<Rightarrow> device \<Rightarrow> device \<Rightarrow> bool" where
  "keeps_but a dv dv1 \<longleftrightarrow> (\<forall>t\<in>set (trustletSessions dv). ts_addr t \<noteq> a \<longrightarrow> bare t \<in> bare ` set (trustletSessions dv1))"

definition keeps_foreign :: "connection \<Rightarrow> device \<Rightarrow> device \<Rightarrow> bool" where
  "keeps_foreign c dv dv1 \<longleftrightarrow>
     (\<forall>t\<in>set (trustletSessions dv). deviceConnection t \<noteq> Some c \<longrightarrow> bare t \<in> bare ` set (trustletSessions dv1))"

lemma shrinks_refl [simp]: "shrinks dv dv"
  by (simp add: shrinks_def)

lemma shrinks_trans: "shrinks dv dv1 \<Longrightarrow> shrinks dv1 dv2 \<Longrightarrow> shrinks dv dv2"
  by (auto simp: shrinks_def)

lemma keeps_refl [simp]: "keeps_but a dv dv" "keeps_foreign c dv dv"
  by (simp_all add: keeps_but_def keeps_foreign_def)

lemma keeps_but_trans: "keeps_but a dv dv1 \<Longrightarrow> keeps_but a dv1 dv2 \<Longrightarrow> keeps_but a dv dv2"
  unfolding keeps_but_def
proof (intro ballI impI)
  fix t assume k: "\<forall>t\<in>set (trustletSessions dv). ts_addr t \<noteq> a \<longrightarrow> bare t \<in> bare ` set (trustletSessions dv1)"
    "\<forall>t\<in>set (trustletSessions dv1). ts_addr t \<noteq> a \<longrightarrow> bare t \<in> bare ` set (trustletSessions dv2)"
    and t: "t \<in> set (trustletSessions dv)" "ts_addr t \<noteq> a"
  obtain t1 where t1: "t1 \<in> set (trustletSessions dv1)" "bare t = bare t1" using k(1) t by auto
  have "ts_addr t1 \<noteq> a" using t(2) arg_cong [OF t1(2), of ts_addr] by simp
  then show "bare t \<in> bare ` set (trustletSessions dv2)" using k(2) t1 by simp
qed

lemma keeps_foreign_trans: "keeps_foreign c dv dv1 \<Longrightarrow> keeps_foreign c dv1 dv2 \<Longrightarrow> keeps_foreign c dv dv2"
  unfolding keeps_foreign_def
proof (intro ballI impI)
  fix t assume k: "\<forall>t\<in>set (trustletSessions dv). deviceConnection t \<noteq> Some c \<longrightarrow> bare t \<in> bare ` set (trustletSessions dv1)"
    "\<forall>t\<in>set (trustletSessions dv1). deviceConnection t \<noteq> Some c \<longrightarrow> bare t \<in> bare ` set (trustletSessions dv2)"
    and t: "t \<in> set (trustletSessions dv)" "deviceConnection t \<noteq> Some c"
  obtain t1 where t1: "t1 \<in> set (trustletSessions dv1)" "bare t = bare t1" using k(1) t by auto
  have "deviceConnection t1 \<noteq> Some c" using t(2) arg_cong [OF t1(2), of deviceConnection] by simp
  then show "bare t \<in> bare ` set (trustletSessions dv2)" using k(2) t1 by simp
qed

lemma kept_shrinks: "kept dv dv1 \<Longrightarrow> shrinks dv dv1"
  using kept_maps(4) [of dv dv1] kept_conns [of dv dv1] by (simp add: shrinks_def conns_def owners_def kept_def)

lemma kept_keeps: "kept dv dv1 \<Longrightarrow> keeps_but a dv dv1 \<and> keeps_foreign c dv dv1"
proof -
  assume "kept dv dv1"
  then have "bare ` set (trustletSessions dv1) = bare ` set (trustletSessions dv)" by (metis kept_def set_map)
  then show ?thesis by (auto simp: keeps_but_def keeps_foreign_def)
qed

lemma keeps_but_foreign:
  assumes "keeps_but a dv dv1" "distinct (map ts_addr (trustletSessions dv))" "session_at a dv = Some ts" "deviceConnection ts = Some c"
  shows "keeps_foreign c dv dv1"
  unfolding keeps_foreign_def
proof (intro ballI impI)
  fix t assume t: "t \<in> set (trustletSessions dv)" "deviceConnection t \<noteq> Some c"
  have "ts_addr t \<noteq> a" using session_atI [OF assms(2) t(1)] assms(3,4) t(2) by auto
  then show "bare t \<in> bare ` set (trustletSessions dv1)" using assms(1) t(1) by (simp add: keeps_but_def)
qed

lemma owners_iff: "c \<in> owners dv \<longleftrightarrow> (\<exists>ts\<in>set (trustletSessions dv). deviceConnection ts = Some c)"
  by (force simp: owners_def)

lemma session_conns_iff: "c \<in> set (session_conns dv) \<longleftrightarrow> (\<exists>ts\<in>set (trustletSessions dv). notificationConnection ts = Some c)"
  by (force simp: session_conns_def map_filter_def image_iff)

text \<open>The session a command works on.\<close>

lemma findSession_Some:
  assumes "device_ok E dv" "findSession c sid dv = Some ts"
  shows "session_at (ts_addr ts) dv = Some ts" "deviceConnection ts = Some c" "sessionId ts = sid" "ts \<in> set (trustletSessions dv)"
proof -
  have f: "find (\<lambda>ts. sessionId ts = sid) (trustletSessions dv) = Some ts" "deviceConnection ts = Some c"
    using assms(2) by (auto simp: findSession_def getTrustletSession_def split: option.splits if_splits)
  then show m: "ts \<in> set (trustletSessions dv)" "sessionId ts = sid" "deviceConnection ts = Some c" by (auto simp: find_Some_iff)
  show "session_at (ts_addr ts) dv = Some ts" by (rule session_atI [OF _ m(1)]) (use assms(1) in \<open>simp add: device_ok_def\<close>)
qed

lemma set_session_conns: "set (session_conns dv) = {c. \<exists>ts\<in>set (trustletSessions dv). notificationConnection ts = Some c}"
  using session_conns_iff by blast

lemma owners_set: "owners dv = {c. \<exists>ts\<in>set (trustletSessions dv). deviceConnection ts = Some c}"
  using owners_iff by blast

lemma delete_session_effect:
  assumes "device_ok E dv"
  shows "shrinks dv (delete_session a dv)" "keeps_but a dv (delete_session a dv)"
    "trustletSessions (delete_session a dv) = filter (\<lambda>t. ts_addr t \<noteq> a) (trustletSessions dv)"
proof -
  show t: "trustletSessions (delete_session a dv) = filter (\<lambda>t. ts_addr t \<noteq> a) (trustletSessions dv)"
  proof (cases "session_at a dv")
    case None
    then have "filter (\<lambda>t. ts_addr t \<noteq> a) (trustletSessions dv) = trustletSessions dv"
      by (auto simp: session_at_def find_None_iff intro!: filter_True)
    then show ?thesis using None by (simp add: delete_session_def)
  next
    case (Some ts)
    then show ?thesis by (simp add: delete_session_def delete_connection_def split: option.split)
  qed
  have d: "set (dv_deleted (delete_session a dv)) \<subseteq> set (session_conns dv) \<union> set (dv_deleted dv)"
    by (auto simp: delete_session_def delete_connection_def set_session_conns session_at_def find_Some_iff split: option.splits)
  show "shrinks dv (delete_session a dv)"
    using d by (auto simp: shrinks_def conns_def owners_set set_session_conns t)
  show "keeps_but a dv (delete_session a dv)" by (simp add: keeps_but_def t)
qed

lemma disconnect_effect:
  assumes "device_ok E dv" "session_at (ts_addr ts) dv = Some ts"
  shows "shrinks dv (disconnect_session ts dv)" "keeps_but (ts_addr ts) dv (disconnect_session ts dv)"
    "\<exists>t. session_at (ts_addr ts) (disconnect_session ts dv) = Some t"
proof -
  obtain xs ys where s: "trustletSessions dv = xs @ ts # ys" "\<forall>t\<in>set (xs @ ys). ts_addr t \<noteq> ts_addr ts"
    using session_split [OF _ assms(2)] assms(1) by (auto simp: device_ok_def)
  let ?t = "ts\<lparr>deviceConnection := None, notificationConnection := None, sessionState := TS_CLOSE_SEND\<rparr>"
  have u: "trustletSessions (disconnect_session ts dv) = xs @ ?t # ys" "dv_linked (disconnect_session ts dv) = dv_linked dv"
    "km_results (disconnect_session ts dv) = km_results dv"
    "dv_deleted (disconnect_session ts dv) = (case notificationConnection ts of None \<Rightarrow> [] | Some c \<Rightarrow> [c]) @ dv_deleted dv"
    using update_split [OF s(1) refl s(2)] by (simp_all add: disconnect_session_def delete_connection_def split: option.split)
  show "shrinks dv (disconnect_session ts dv)"
    by (cases "notificationConnection ts") (auto simp: shrinks_def conns_def owners_set set_session_conns u s(1))
  show "keeps_but (ts_addr ts) dv (disconnect_session ts dv)" using s by (auto simp: keeps_but_def u(1))
  show "\<exists>t. session_at (ts_addr ts) (disconnect_session ts dv) = Some t"
    using session_atI [of "disconnect_session ts dv" ?t] disconnect_ok [OF assms] u(1) by (simp add: device_ok_def)
qed

lemma freeSession_effect:
  assumes "device_ok E dv" "freeSession a dv = Some dv1"
  shows "device_ok E dv1" "shrinks dv dv1" "keeps_but a dv dv1"
    "trustletSessions dv1 = filter (\<lambda>t. ts_addr t \<noteq> a) (trustletSessions dv)"
proof -
  obtain ts where a: "session_at a dv = Some ts" using assms(2) by (auto simp: freeSession_def split: option.splits)
  obtain dv2 where f: "freeSession a dv = Some dv2" "device_ok E dv2" "trustletSessions dv2 = filter (\<lambda>t. ts_addr t \<noteq> a) (trustletSessions dv)"
    "km_results dv2 = km_results dv" "dv_linked dv2 = dv_linked dv" "dv_deleted dv2 = (case notificationConnection ts of None \<Rightarrow> [] | Some c \<Rightarrow> [c]) @ dv_deleted dv"
    by (rule freeSession_ok [OF assms(1) a])
  have e: "dv2 = dv1" using f(1) assms(2) by simp
  have ts: "ts \<in> set (trustletSessions dv)" using a by (auto simp: session_at_def find_Some_iff)
  show "device_ok E dv1" "trustletSessions dv1 = filter (\<lambda>t. ts_addr t \<noteq> a) (trustletSessions dv)" using f(2,3) e by simp_all
  show "shrinks dv dv1" using f(3-6) ts unfolding e
    by (cases "notificationConnection ts") (auto simp: shrinks_def conns_def owners_set set_session_conns)
  show "keeps_but a dv dv1" using f(3) unfolding e by (simp add: keeps_but_def)
qed

text \<open>Closing a session, whatever the secure world answers: the other sessions are kept.\<close>

text \<open>What a step towards closing a session keeps.\<close>

definition closing :: "u32 multiset \<Rightarrow> nat \<Rightarrow> device \<Rightarrow> device \<Rightarrow> bool" where
  "closing E a dv dv1 \<longleftrightarrow> device_ok E dv1 \<and> shrinks dv dv1 \<and> keeps_but a dv dv1"

lemma closing_kept: "closing E a dv dv1 \<Longrightarrow> kept dv1 dv2 \<Longrightarrow> closing E a dv dv2"
  unfolding closing_def by (meson kept_ok kept_shrinks kept_keeps shrinks_trans keeps_but_trans)

lemma closing_free: "closing E a dv dv1 \<Longrightarrow> freeSession a dv1 = Some dv2 \<Longrightarrow> closing E a dv dv2"
  unfolding closing_def by (meson freeSession_effect(1-3) shrinks_trans keeps_but_trans)

lemma closeSession_effect:
  assumes ok: "device_ok E dv" and c: "closeSession c sid dv = Some (r, dv1)"
  shows "device_ok E dv1 \<and> shrinks dv dv1 \<and> keeps_foreign c dv dv1"
proof (cases "findSession c sid dv")
  case None
  then show ?thesis using ok c by (simp add: closeSession_def)
next
  case (Some ts)
  note f = findSession_Some [OF ok Some]
  let ?a = "ts_addr ts"
  define d1 where "d1 = (if gp_level ts = 1 then disconnect_session ts dv else dv)"
  have 1: "closing E ?a dv d1"
    using disconnect_ok [OF ok f(1)] disconnect_effect [OF ok f(1)] ok by (simp add: d1_def closing_def)
  obtain m d2 where 2: "closeSessionInternal ts d1 = (m, d2)" by fastforce
  note p2 = closing_kept [OF 1 kept_close_internal [OF 2]]
  obtain m3 d3 where 3: "closeSessionInternal ts d2 = (m3, d3)" by fastforce
  note p3 = closing_kept [OF p2 kept_close_internal [OF 3]]
  note e = c [unfolded closeSession_def Some option.case Let_def d1_def [symmetric] 2 3 prod.case]
  have "closing E ?a dv dv1"
    using e p2 p3 by (auto split: if_splits intro: closing_free)
  then show ?thesis using keeps_but_foreign [OF _ _ f(1,2)] ok by (simp add: device_ok_def closing_def)
qed

lemmas close_sessions_induct = close_sessions.raw_induct [rotated, consumes 1, case_names loop]
lemmas close_dead_induct = close_dead.raw_induct [rotated, consumes 1, case_names loop]

lemma close_sessions_effect:
  "close_sessions c dv = Some dv1 \<Longrightarrow> device_ok E dv \<longrightarrow> device_ok E dv1 \<and> shrinks dv dv1 \<and> keeps_foreign c dv dv1 \<and> last_session c dv1 = None"
proof (induction rule: close_sessions_induct)
  case (loop rec c dv dv1)
  show ?case
  proof (cases "last_session c dv")
    case None
    then show ?thesis using loop(2) by simp
  next
    case (Some ts)
    then obtain r d where s: "closeSession c (sessionId ts) dv = Some (r, d)" "rec c d = Some dv1"
      using loop(2) by (auto simp: bind_eq_Some_conv)
    show ?thesis
    proof
      assume "device_ok E dv"
      then have d: "device_ok E d" "shrinks dv d" "keeps_foreign c dv d" using closeSession_effect [OF _ s(1)] by simp_all
      then have r: "device_ok E dv1" "shrinks d dv1" "keeps_foreign c d dv1" "last_session c dv1 = None" using loop(1) [OF s(2)] by simp_all
      show "device_ok E dv1 \<and> shrinks dv dv1 \<and> keeps_foreign c dv dv1 \<and> last_session c dv1 = None"
        using r shrinks_trans [OF d(2) r(2)] keeps_foreign_trans [OF d(3) r(3)] by simp
    qed
  qed
qed

lemma close_device_effect:
  assumes "close_device c dv = Some dv1" "device_ok E dv"
  shows "device_ok E dv1" "conns dv1 \<subseteq> conns dv" "owners dv1 \<subseteq> owners dv - {c}" "keeps_foreign c dv dv1"
    "dv_linked dv1 = remove1 c (dv_linked dv)" "km_results dv1 = km_results dv"
proof -
  obtain d where d: "close_sessions c dv = Some d" "dv1 = (snd (cleanupWsmL2 d))\<lparr>dv_linked := remove1 c (dv_linked d)\<rparr>"
    using assms(1) by (auto simp: close_device_def)
  note e = close_sessions_effect [OF d(1), of E, THEN mp, OF assms(2)]
  have s: "trustletSessions dv1 = trustletSessions d" "km_locked dv1 = km_locked d" "dv_next dv1 = dv_next d" "dv_deleted dv1 = dv_deleted d"
    using d(2) by (simp_all add: cleanupWsmL2_def km_call_def)
  have n: "\<forall>t\<in>set (trustletSessions d). deviceConnection t \<noteq> Some c"
    using e by (auto simp: last_session_def find_None_iff)
  show "device_ok E dv1" using e by (simp add: device_ok_def session_conns_def session_handles_def s)
  show "conns dv1 \<subseteq> conns dv" using e by (simp add: shrinks_def conns_def session_conns_def s)
  show "owners dv1 \<subseteq> owners dv - {c}" using e n by (auto simp: shrinks_def owners_set s(1))
  show "keeps_foreign c dv dv1" using e by (simp add: keeps_foreign_def s(1))
  show "dv_linked dv1 = remove1 c (dv_linked dv)" "km_results dv1 = km_results dv" using d(2) e by (simp_all add: shrinks_def cleanupWsmL2_def km_call_def)
qed

lemma close_dead_effect:
  "close_dead dv = Some dv1 \<Longrightarrow> device_ok E dv \<longrightarrow> device_ok E dv1 \<and> shrinks dv dv1 \<and>
     (\<forall>t\<in>set (trustletSessions dv1). sessionState t \<noteq> TS_TA_DEAD)"
proof (induction rule: close_dead_induct)
  case (loop rec dv dv1)
  show ?case
  proof (cases "find (\<lambda>ts. sessionState ts = TS_TA_DEAD) (trustletSessions dv)")
    case None
    then have "dv1 = dv" using loop(2) by simp
    then show ?thesis using None by (auto simp: find_None_iff)
  next
    case (Some ts)
    obtain r d where s: "closeSessionInternal ts dv = (r, d)" by fastforce
    let ?d = "if r = MC_DRV_OK then delete_session (ts_addr ts) d else d"
    have rec: "rec ?d = Some dv1" using loop(2) Some s by simp
    note k = kept_close_internal [OF s]
    show ?thesis
    proof
      assume "device_ok E dv"
      then have o: "device_ok E d" using kept_ok [OF k] by simp
      have d: "device_ok E ?d" using o delete_session_ok [OF o] by simp
      have h: "shrinks dv ?d" using kept_shrinks [OF k] shrinks_trans [OF kept_shrinks [OF k] delete_session_effect(1) [OF o]] by simp
      have r: "device_ok E dv1 \<and> shrinks ?d dv1 \<and> (\<forall>t\<in>set (trustletSessions dv1). sessionState t \<noteq> TS_TA_DEAD)"
        using loop(1) [OF rec] d by simp
      then show "device_ok E dv1 \<and> shrinks dv dv1 \<and> (\<forall>t\<in>set (trustletSessions dv1). sessionState t \<noteq> TS_TA_DEAD)"
        using shrinks_trans [OF h] by simp
    qed
  qed
qed

end
