(* ===== verification/DeviceCommandFacts.thy ===== *)
theory DeviceCommandFacts
  imports DeviceFacts
begin

text \<open>
  The commands of the device that open and use sessions: each keeps the invariant of
  \<open>device_ok\<close>, the sessions of other clients, and the books about connections. Then the waits
  for a secure world that does not answer.
\<close>

subsection \<open>A command of a client\<close>

text \<open>What a command of the client \<open>c\<close> may do: it adds no notification connection, and sessions only for \<open>c\<close>.\<close>

definition serves :: "connection \<Rightarrow> u32 multiset \<Rightarrow> device \<Rightarrow> device \<Rightarrow> bool" where
  "serves c E dv dv1 \<longleftrightarrow> device_ok E dv1 \<and> conns dv1 \<subseteq> conns dv \<and> owners dv1 \<subseteq> insert c (owners dv) \<and>
     dv_linked dv1 = dv_linked dv \<and> km_results dv1 = km_results dv \<and> keeps_foreign c dv dv1"

lemma serves_refl: "device_ok E dv \<Longrightarrow> serves c E dv dv"
  by (auto simp: serves_def)

lemma serves_trans:
  assumes "serves c E dv dv1" "serves c F dv1 dv2"
  shows "serves c F dv dv2"
  using assms keeps_foreign_trans [of c dv dv1 dv2] by (auto simp: serves_def)

lemma serves_kept:
  assumes "device_ok E dv" "kept dv dv1"
  shows "serves c E dv dv1"
  using kept_shrinks [OF assms(2)] kept_keeps [OF assms(2)] kept_ok [OF assms(2)] assms(1) by (auto simp: serves_def shrinks_def)

lemma serves_shrinks: "device_ok E dv1 \<Longrightarrow> shrinks dv dv1 \<Longrightarrow> keeps_foreign c dv dv1 \<Longrightarrow> serves c E dv dv1"
  by (auto simp: serves_def shrinks_def)

text \<open>The same sessions and connections, other locks.\<close>

definition same_sessions :: "device \<Rightarrow> device \<Rightarrow> bool" where
  "same_sessions dv dv1 \<longleftrightarrow> trustletSessions dv1 = trustletSessions dv \<and> dv_deleted dv1 = dv_deleted dv \<and>
     dv_next dv1 = dv_next dv \<and> dv_linked dv1 = dv_linked dv \<and> km_results dv1 = km_results dv"

lemma same_conns: "same_sessions dv dv1 \<Longrightarrow> session_conns dv1 = session_conns dv \<and> session_handles dv1 = session_handles dv"
  by (simp add: same_sessions_def session_conns_def session_handles_def)

lemma serves_same: "device_ok E dv1 \<Longrightarrow> same_sessions dv dv1 \<Longrightarrow> serves c E dv dv1"
  using same_conns [of dv dv1] by (simp add: serves_def same_sessions_def conns_def owners_def keeps_foreign_def subset_insertI)

lemma lock_ok:
  assumes "device_ok E dv" "lockWsmL2 h dv = (ok, dv1)"
  shows "device_ok (if ok then add_mset h E else E) dv1" "same_sessions dv dv1"
proof -
  have d: "same_sessions dv dv1" "km_locked dv1 = (if ok then h # km_locked dv else km_locked dv)"
    using assms(2) by (auto simp: lockWsmL2_def km_call_def same_sessions_def split: if_splits)
  then show "same_sessions dv dv1" by simp
  have l: "mset (session_handles dv) + E \<subseteq># mset (km_locked dv)" using assms(1) by (simp add: device_ok_def)
  then have l1: "mset (session_handles dv1) + (if ok then add_mset h E else E) \<subseteq># mset (km_locked dv1)"
    using same_conns [OF d(1)] d(2) by simp
  show "device_ok (if ok then add_mset h E else E) dv1"
    using assms(1) l1 same_conns [OF d(1)] d(1) by (simp add: device_ok_def same_sessions_def)
qed

lemma unlock_serves: "device_ok (add_mset h E) dv \<Longrightarrow> serves c E dv (snd (unlockWsmL2 h dv))"
  by (rule serves_same [OF unlock_ok]) (simp_all add: same_sessions_def unlockWsmL2_def km_call_def)

subsection \<open>Opening a session\<close>

lemma write_mcp_same [simp]: "same_sessions dv (write_mcp ws dv)" "same_sessions dv (snd (km_call dv))"
  by (simp_all add: write_mcp_def km_call_def same_sessions_def)

definition tci_locks :: "u32 \<Rightarrow> u32 \<Rightarrow> u32 multiset" where
  "tci_locks h len = (if tci_given h len then {#h#} else {#})"

lemma kept_tci: "kept dv (write_tci t a o' dv)" "findContiguousWsm h c dv = (r, dv1) \<Longrightarrow> kept dv dv1"
  "findWsmL2 h c dv = (p, dv1) \<Longrightarrow> kept dv dv1"
  using kept_calls(1) [of dv] by (auto simp: write_tci_def findContiguousWsm_def findWsmL2_def)

lemma prepare_tci_serves:
  assumes ok: "device_ok E dv" and p: "prepare_tci c h len ofs dv = (r, dv1)"
  shows "serves c (case r of Inl _ \<Rightarrow> E | Inr _ \<Rightarrow> tci_locks h len + E) dv dv1"
proof (cases "tci_given h len")
  case False
  have "kept dv dv1 \<and> (\<exists>l. r = Inr l)" using p False kept_tci(1) by (auto simp: prepare_tci_def split: if_splits)
  then show ?thesis using serves_kept [OF ok] False by (auto simp: tci_locks_def)
next
  case True
  let ?f = "case findContiguousWsm h c dv of (Some (tci, l), dv1) \<Rightarrow> (Some l, write_tci WSM_CONTIGUOUS tci 0 dv1)
    | (None, dv1) \<Rightarrow> (case findWsmL2 h c dv1 of (tci, dv2) \<Rightarrow> if tci \<noteq> 0 then (Some len, write_tci WSM_L2 tci ofs dv2) else (None, dv2))"
  obtain l d where f: "?f = (l, d)" by fastforce
  have k: "kept dv d"
  proof -
    obtain x d1 where x: "findContiguousWsm h c dv = (x, d1)" by fastforce
    obtain y d2 where y: "findWsmL2 h c d1 = (y, d2)" by fastforce
    note k1 = kept_tci(2) [OF x] and k2 = kept_trans [OF kept_tci(2) [OF x] kept_tci(3) [OF y]]
    show ?thesis using f x y k2 kept_trans [OF k1 kept_tci(1)] kept_trans [OF k2 kept_tci(1)]
      by (cases x) (auto split: if_splits)
  qed
  show ?thesis
  proof (cases l)
    case None
    then have "r = Inl MC_DRV_ERR_DAEMON_WSM_HANDLE_NOT_FOUND" "dv1 = d" using p True f by (auto simp: prepare_tci_def)
    then show ?thesis using serves_kept [OF ok k] by simp
  next
    case (Some m)
    obtain b d2 where b: "lockWsmL2 h d = (b, d2)" by fastforce
    have r: "r = (if b then Inr m else Inl MC_DRV_ERR_DAEMON_WSM_HANDLE_NOT_FOUND)" "dv1 = d2"
      using p True f Some b by (auto simp: prepare_tci_def)
    have o: "device_ok E d" using kept_ok [OF k] ok by simp
    have "serves c (if b then add_mset h E else E) d dv1"
      unfolding r(2) by (rule serves_same [OF lock_ok [OF o b]])
    then show ?thesis using serves_trans [OF serves_kept [OF ok k]] True r(1) by (simp add: tci_locks_def split: if_splits)
  qed
qed

lemma unlock_tci_serves: "device_ok (tci_locks h len + E) dv \<Longrightarrow> serves c E dv (unlock_tci h len dv)"
  using unlock_serves [of h E dv c] serves_refl [of E dv c] by (cases "tci_given h len") (simp_all add: tci_locks_def unlock_tci_def)

lemma fold_queue_bare: "bare (fold queueNotification ns ts) = bare ts"
  by (induction ns arbitrary: ts) simp_all

lemma add_session_serves:
  assumes ok: "device_ok (tci_locks h len + E) dv" and a: "add_session c gp l h len dv = (rsp, dv1)"
  shows "serves c E dv dv1"
proof -
  define ts where "ts = (new_session (dv_next dv) c (rsp_word dv) (dv_rand dv (dv_next dv)))\<lparr>gp_level := gp, sessionState := TS_TA_RUNNING\<rparr>"
  define ts1 where "ts1 = (if tci_given h len then snd (addBulkBuff (Some \<lparr>wsm_len = l, wsm_handle = h, wsm_physAddr = 0\<rparr>) ts) else ts)"
  define ts2 where "ts2 = fold queueNotification (unknown_notifications dv) ts1"
  have d: "dv1 = dv\<lparr>dv_next := Suc (dv_next dv), trustletSessions := trustletSessions dv @ [ts2], unknown_notifications := []\<rparr>"
    using a unfolding add_session_def Let_def ts_def [symmetric] ts1_def [symmetric] ts2_def [symmetric] by simp
  have b: "bare ts2 = bare ts1" unfolding ts2_def by (rule fold_queue_bare)
  have t1: "ts_addr ts1 = dv_next dv" "notificationConnection ts1 = None" "deviceConnection ts1 = Some c" "buffers_ok ts1"
    "mset (handles ts1) = tci_locks h len"
    by (simp_all add: ts1_def ts_def new_session_def addBulkBuff_def buffers_ok_def handles_def tci_locks_def)
  have t2: "ts_addr ts2 = dv_next dv" "notificationConnection ts2 = None" "deviceConnection ts2 = Some c" "buffers_ok ts2"
    "mset (handles ts2) = tci_locks h len"
    using t1 arg_cong [OF b, of ts_addr] arg_cong [OF b, of notificationConnection] arg_cong [OF b, of deviceConnection]
      arg_cong [OF b, of buffers_ok] arg_cong [OF b, of handles] by simp_all
  have s: "session_conns dv1 = session_conns dv" "mset (session_handles dv1) = mset (session_handles dv) + tci_locks h len"
    using t2 by (simp_all add: d session_conns_def session_handles_def map_filter_def)
  have new: "dv_next dv \<notin> ts_addr ` set (trustletSessions dv)" using ok by (auto simp: device_ok_def)
  have o: "device_ok E dv1"
    using ok new t2(1,4) unfolding device_ok_def s by (auto simp: d add.assoc)
  show ?thesis using o s(1) t2(3) by (auto simp: serves_def conns_def d owners_def keeps_foreign_def)
qed

lemma serves_mono: "serves c (F + E) dv dv1 \<Longrightarrow> serves c E dv dv1"
proof -
  assume s: "serves c (F + E) dv dv1"
  have "mset (session_handles dv1) + E \<subseteq># mset (session_handles dv1) + (F + E)" by simp
  then have "device_ok E dv1" using s unfolding serves_def device_ok_def by (meson subset_mset.order_trans)
  then show ?thesis using s by (simp add: serves_def)
qed

text \<open>The three ways a session is opened or not.\<close>

lemma openSession_cases:
  assumes o: "openSession c ld h len ofs dv = Some ((e, rsp), dv1)"
  obtains (tci) p where "prepare_tci c h len ofs dv = (p, dv1)" "rsp = None"
  | (failed) m d d2 where "prepare_tci c h len ofs dv = (Inr m, d)" "kept d d2" "dv1 = unlock_tci h len d2" "rsp = None"
  | (opened) m d d2 gp r where "prepare_tci c h len ofs dv = (Inr m, d)" "kept d d2" "add_session c gp (ld_len ld) h len d2 = (r, dv1)"
      "rsp = Some r" "e = MC_DRV_OK"
proof -
  obtain p d where p: "prepare_tci c h len ofs dv = (p, d)" by fastforce
  show thesis
  proof (cases "\<exists>m. p = Inr m \<and> \<not> (h \<noteq> 0 \<and> len = 0 \<or> len > m)")
    case False
    then have "dv1 = d" "rsp = None" using o by (auto simp: openSession_def p split: sum.splits if_splits)
    then show thesis using tci p by blast
  next
    case True
    then obtain m where m: "p = Inr m" "\<not> (h \<noteq> 0 \<and> len = 0 \<or> len > m)" by blast
    obtain uuid header where u: "mclf_uuid (tlHeader ld) = Some uuid" "buf_read 0 sizeof_mclfHeader (tlHeader ld) = Some header"
      using o m by (auto simp: openSession_def p bind_eq_Some_conv)
    obtain x d2 where x: "mcp_exchange MC_MCP_CMD_OPEN_SESSION
            [(4, uuid), (44, enc32 len), (52, enc32 WSM_L2), (32, enc64 (ld_baseAddr ld)), (56, enc32 (ld_offs ld)),
             (60, enc32 (ld_len ld)), (64, header)] (d\<lparr>unknown_notifications := []\<rparr>) = (x, d2)" by fastforce
    have k: "kept d d2" by (rule kept_trans [OF _ kept_exchange [OF x]]) simp
    note s = o [unfolded openSession_def p prod.case m(1) sum.case if_not_P [OF m(2)] u Option.bind_lunit x]
    show thesis
    proof (cases "x = Inr MC_MCP_RET_OK")
      case True
      obtain gp r d3 where "add_session c gp (ld_len ld) h len d2 = (r, d3)" "dv1 = d3" "rsp = Some r" "e = MC_DRV_OK"
        using s True by (cases "mclf_gp_level (tlHeader ld)") (auto split: prod.splits)
      then show thesis using opened p k m(1) by blast
    next
      case False
      then have "dv1 = unlock_tci h len d2" "rsp = None" using s by (auto split: sum.splits if_splits)
      then show thesis using failed p k m(1) by blast
    qed
  qed
qed

lemma openSession_serves:
  assumes ok: "device_ok E dv" and o: "openSession c ld h len ofs dv = Some (r, dv1)"
  shows "serves c E dv dv1"
proof -
  have two: "serves c (tci_locks h len + E) dv d2 \<and> device_ok (tci_locks h len + E) d2"
    if "prepare_tci c h len ofs dv = (Inr m, d)" "kept d d2" for m d d2
  proof -
    have s: "serves c (tci_locks h len + E) dv d" using prepare_tci_serves [OF ok that(1)] by simp
    then have "serves c (tci_locks h len + E) dv d2" by (rule serves_trans [OF _ serves_kept [OF _ that(2)]]) (use s in \<open>simp add: serves_def\<close>)
    then show ?thesis by (simp add: serves_def)
  qed
  obtain e rsp where r: "r = (e, rsp)" by fastforce
  show ?thesis using o [unfolded r]
  proof (cases rule: openSession_cases)
    case (tci p)
    then have "serves c (case p of Inl _ \<Rightarrow> E | Inr _ \<Rightarrow> tci_locks h len + E) dv dv1" by (intro prepare_tci_serves [OF ok])
    then show ?thesis using serves_mono by (cases p) auto
  next
    case (failed m d d2)
    note t = two [OF failed(1,2)]
    show ?thesis unfolding failed(3) by (rule serves_trans [OF _ unlock_tci_serves]) (use t in blast)+
  next
    case (opened m d d2 gp rs)
    note t = two [OF opened(1,2)]
    show ?thesis by (rule serves_trans [OF _ add_session_serves [OF _ opened(3)]]) (use t in blast)+
  qed
qed

subsection \<open>Commands on a session\<close>

lemma close_serves: "device_ok E dv \<Longrightarrow> closeSession c sid dv = Some (r, dv1) \<Longrightarrow> serves c E dv dv1"
  using closeSession_effect [of E dv c sid r dv1] by (simp add: serves_shrinks)

lemma notify_serves: "device_ok E dv \<Longrightarrow> serves c E dv (snd (notify_session d sid dv))"
  by (rule serves_kept) (simp_all add: notify_session_def split: option.split)

lemma update_serves:
  assumes ok: "device_ok E dv" and a: "session_at a dv = Some ts" and c: "deviceConnection ts = Some c"
    and f: "ts_addr (f ts) = a" "buffers_ok (f ts)" "notificationConnection (f ts) = notificationConnection ts"
      "deviceConnection (f ts) = Some c"
    and h: "mset (handles (f ts)) + E1 \<subseteq># mset (handles ts) + E"
  shows "serves c E1 dv (update_session a f dv)"
proof -
  obtain xs ys where s: "trustletSessions dv = xs @ ts # ys" "ts_addr ts = a" "\<forall>t\<in>set (xs @ ys). ts_addr t \<noteq> a"
    using session_split [OF _ a] ok by (auto simp: device_ok_def)
  note u = update_split [OF s]
  have o: "device_ok E1 (update_session a f dv)" 
    by (rule update_ok [where f = f, OF ok a]) (rule f(1-3) h)+
  have "conns (update_session a f dv) = conns dv" "owners (update_session a f dv) = owners dv"
    using f(3,4) c by (simp_all add: conns_def session_conns_def owners_def u s(1) del: set_map)
  moreover have "keeps_foreign c dv (update_session a f dv)" using c by (auto simp: keeps_foreign_def u s(1))
  ultimately show ?thesis using o by (auto simp: serves_def)
qed

text \<open>The lock taken before the call becomes the lock of the buffer.\<close>

lemma mapBulk_serves:
  assumes ok: "device_ok (add_mset h E) dv" and m: "mapBulk c sid h p ofs len dv = (r, dv1)"
  shows "serves c E dv dv1"
proof (cases "findSession c sid dv")
  case None
  then have "serves c (add_mset h E) dv dv1" using m serves_refl [OF ok] by (simp add: mapBulk_def)
  then show ?thesis using serves_mono [of c "{#h#}" E] by simp
next
  case (Some ts)
  note f = findSession_Some [OF ok Some]
  let ?f = "\<lambda>t. snd (addBulkBuff (Some \<lparr>wsm_len = len, wsm_handle = h, wsm_physAddr = p\<rparr>) t)"
  let ?d = "update_session (ts_addr ts) ?f dv"
  have b: "buffers_ok ts" using ok f(4) by (simp add: device_ok_def)
  obtain r1 t1 where t: "addBulkBuff (Some \<lparr>wsm_len = len, wsm_handle = h, wsm_physAddr = p\<rparr>) ts = (r1, t1)" by fastforce
  note ab = addBulkBuff_ok [OF b t]
  have hs: "mset (handles t1) + E \<subseteq># mset (handles ts) + add_mset h E"
    using ab(2,3) by (cases r1) (simp_all add: handles_def mset_insort subset_mset.add_increasing2)
  have "serves c E dv ?d"
    by (rule update_serves [OF ok f(1,2)]) (use ab(1,3) f(2) hs t in simp_all)
  moreover then have o: "device_ok E ?d" by (simp add: serves_def)
  obtain x d2 where x: "mcp_exchange MC_MCP_CMD_MAP [(4, enc32 sid), (8, enc32 WSM_L2), (16, enc64 p), (12, enc32 ofs),
               (24, enc32 len)] ?d = (x, d2)" by fastforce
  have "dv1 = d2" using m Some x by (auto simp: mapBulk_def Let_def split: sum.splits if_splits)
  ultimately show ?thesis using serves_trans serves_kept [OF o kept_exchange [OF x]] by blast
qed

lemma mset_filter_neq: "distinct xs \<Longrightarrow> h \<in> set xs \<Longrightarrow> add_mset h (mset (filter (\<lambda>g. g \<noteq> h) xs)) = mset xs"
proof -
  assume d: "distinct xs" and h: "h \<in> set xs"
  have "filter (\<lambda>g. g \<noteq> h) xs = remove1 h xs"
    using d by (simp add: distinct_remove1_removeAll removeAll_filter_not_eq eq_commute)
  then show ?thesis using h by simp
qed

lemma mcp_error [simp]: "MAKE_MC_DRV_MCP_ERROR e \<noteq> 0"
  by (simp add: MAKE_MC_DRV_MCP_ERROR_def or_eq_0_iff)

lemma exchange_error: "mcp_exchange cmd ws dv \<noteq> (Inl 0, dv1)"
  by (auto simp: mcp_exchange_def split: prod.split)

text \<open>A buffer that is unmapped leaves its lock to spare, which the daemon then gives back.\<close>

lemma unmapBulk_serves:
  assumes ok: "device_ok E dv" and m: "unmapBulk c sid h va len dv = (r, dv1)"
  shows "serves c (if r = MC_DRV_OK then add_mset h E else E) dv dv1"
proof (cases "findSession c sid dv")
  case None
  then show ?thesis using m serves_refl [OF ok] by (simp add: unmapBulk_def)
next
  case (Some ts)
  note f = findSession_Some [OF ok Some]
  show ?thesis
  proof (cases "findBulkBuff h len ts")
    case False
    then show ?thesis using m Some serves_refl [OF ok] by (simp add: unmapBulk_def)
  next
    case True
    obtain x d where x: "mcp_exchange MC_MCP_CMD_UNMAP [(4, enc32 sid), (8, enc32 WSM_L2), (12, enc32 va), (16, enc32 len)] dv = (x, d)"
      by fastforce
    note k = kept_exchange [OF x]
    have o: "device_ok E d" using kept_ok [OF k] ok by simp
    have s: "serves c E dv d" by (rule serves_kept [OF ok k])
    obtain t where t: "session_at (ts_addr ts) d = Some t" "bare t = bare ts"
      using kept_session_at [OF k, of "ts_addr ts"] f(1) by auto
    have b: "buffers_ok t" using o t(1) by (auto simp: device_ok_def session_at_def find_Some_iff)
    have hs: "handles t = handles ts" "deviceConnection t = Some c" "ts_addr t = ts_addr ts"
      using arg_cong [OF t(2), of handles] arg_cong [OF t(2), of deviceConnection] arg_cong [OF t(2), of ts_addr] f(2) by simp_all
    have h: "h \<in> set (handles t)"
      using True map_of_handles [of ts h] hs(1) by (auto simp: findBulkBuff_def split: option.splits)
    obtain r2 t2 where rm: "removeBulkBuff h t = (r2, t2)" by fastforce
    note rb = removeBulkBuff_ok [OF b rm]
    have e: "mset (handles t2) + add_mset h E \<subseteq># mset (handles t) + E"
      using mset_filter_neq [of "handles t" h] b h rb(3) by (simp add: buffers_ok_def handles_def)
    have fr: "ts_addr t2 = ts_addr t" "notificationConnection t2 = notificationConnection t" "deviceConnection t2 = deviceConnection t"
      using arg_cong [OF rb(4), of ts_addr] arg_cong [OF rb(4), of notificationConnection] arg_cong [OF rb(4), of deviceConnection]
      by simp_all
    have "serves c (add_mset h E) d (update_session (ts_addr ts) (\<lambda>t. snd (removeBulkBuff h t)) d)"
      by (rule update_serves [OF o t(1) hs(2)]) (use rb(1) fr hs rm e in simp_all)
    then have u: "serves c (add_mset h E) dv (update_session (ts_addr ts) (\<lambda>t. snd (removeBulkBuff h t)) d)"
      by (rule serves_trans [OF s])
    show ?thesis using m Some True x s u exchange_error [of "MC_MCP_CMD_UNMAP" _ dv]
      by (auto simp: unmapBulk_def split: sum.splits if_splits)
  qed
qed

subsection \<open>A device to look at\<close>

text \<open>Its secure world answers the question for its version.\<close>

definition sample_turn :: wait_turn where
  "sample_turn = \<lparr>wt_irqs = [], wt_spurious = True,
     wt_answer = \<lambda>_. enc32 0x80000009 @ enc32 0 @ replicate 64 0 @ enc32 2 @ enc32 0x20000 @ enc32 0x20000 @ enc32 0x20000,
     wt_status = 0, wt_exiting = False\<rparr>"

definition sample_device :: device where
  "sample_device = \<lparr>trustletSessions = [], dv_next = 0, dv_rand = \<lambda>_. 0, unknown_notifications = [], mcpMessage = [], mcFault = False,
     mciReused = False, notifySessionRemoved = False, mcVersionInfo = None, mcpSessionNotification = CSemaphore_init 0,
     nq = \<lparr>nq_in = wrapping_queue, nq_out = wrapping_queue\<rparr>, dv_turns = \<lambda>_. sample_turn, dv_waits = 0, km_results = \<lambda>_. True,
     km_calls = 0, km_contiguous = \<lambda>_ _ _. None, km_l2 = \<lambda>_ _ _. 4096, km_phys = \<lambda>_. 8192, km_wsm = \<lambda>_ _. None, km_locked = [],
     dv_written = [], dv_deleted = [], exit_wakeups = 0, dv_linked = []\<rparr>"

end
