(* ===== verification/DaemonFacts.thy ===== *)
theory DaemonFacts
  imports DaemonCommands DeviceCommandFacts
begin

text \<open>
  Properties of the daemon as a whole: the invariant of its clients, connections and sessions over all
  its steps, and what a client can do to the sessions of another.
\<close>

subsection \<open>What a command of a client does\<close>

text \<open>The connections are the same, and the device served the client.\<close>

definition same_books :: "daemon \<Rightarrow> daemon \<Rightarrow> bool" where
  "same_books dm dm1 \<longleftrightarrow> dm_clients dm1 = dm_clients dm \<and> dm_connections dm1 = dm_connections dm \<and> driverResources dm1 = driverResources dm"

definition served :: "connection \<Rightarrow> daemon \<Rightarrow> daemon \<Rightarrow> bool" where
  "served c dm dm1 \<longleftrightarrow> same_books dm dm1 \<and> serves c {#} (dm_device dm) (dm_device dm1)"

definition answered :: "connection \<Rightarrow> daemon \<Rightarrow> daemon \<Rightarrow> bool" where
  "answered c dm dm1 \<longleftrightarrow> same_books dm dm1 \<and>
     (kept (dm_device dm) (dm_device dm1) \<or> device_set c dm \<and> serves c {#} (dm_device dm) (dm_device dm1))"

lemma same_books_simps [simp]:
  "same_books dm dm" "same_books dm (writeResult c code dm1) = same_books dm dm1" "same_books dm (on_device f dm1) = same_books dm dm1"
  "same_books dm (dm1\<lparr>dm_device := dv\<rparr>) = same_books dm dm1" "same_books dm (dm1\<lparr>dm_world := w\<rparr>) = same_books dm dm1"
  "same_books (dm\<lparr>dm_world := w\<rparr>) dm1 = same_books dm dm1"
  by (simp_all add: writeResult_def on_device_def same_books_def)

lemma written [simp]:
  "dm_device (writeResult c code dm) = write_data c (enc32 code) (dm_device dm)" "dm_device (on_device f dm) = f (dm_device dm)"
  by (simp_all add: writeResult_def on_device_def)

lemma answered_write [simp]: "answered c dm (writeResult d code dm)"
  by (simp add: answered_def)

lemma served_dev: "device_ok {#} (dm_device dm) \<Longrightarrow> same_books dm dm1 \<Longrightarrow>
    kept dv (dm_device dm1) \<Longrightarrow> serves c {#} (dm_device dm) dv \<Longrightarrow> served c dm dm1"
  using serves_trans [OF _ serves_kept, of c "{#}" "dm_device dm" dv "{#}" "dm_device dm1"] by (simp add: served_def serves_def)

lemma payload_cases:
  assumes "with_payload n rq c k dm = Some dm1" "\<And>d. recv_payload n rq = Some d \<Longrightarrow> k d dm = Some dm1 \<Longrightarrow> answered c dm dm1"
  shows "answered c dm dm1"
  using assms by (auto simp: with_payload_def split: option.splits)

lemma device_cases:
  assumes "with_device c k dm = Some dm1" "device_set c dm \<Longrightarrow> k dm = Some dm1 \<Longrightarrow> served c dm dm1"
  shows "answered c dm dm1"
  using assms by (auto simp: with_device_def served_def answered_def split: if_splits)

lemma kept_write: "kept dv dv1 \<Longrightarrow> kept dv (write_data c d dv1)"
  by (erule kept_trans) simp

lemma kept_km: "registerWsmL2 dv = (r, dv1) \<Longrightarrow> kept dv dv1" "unregisterWsmL2 dv = (b, dv1) \<Longrightarrow> kept dv dv1"
  using kept_calls(1) [of dv] by (auto simp: registerWsmL2_def unregisterWsmL2_def case_prod_unfold)

lemma answer_open_dev: "\<exists>d. dm_device (answer_open c r dm) = write_data c d (dm_device dm)" "same_books dm (answer_open c r dm1) = same_books dm dm1"
  by (auto simp: answer_open_def split: prod.split option.split)

lemma open_blob_served:
  assumes ok: "device_ok {#} (dm_device dm)" and o: "open_blob c obj h len tci dm = Some dm1"
  shows "served c dm dm1"
proof -
  have w: "served c dm (writeResult c code dm)" for code
    by (rule served_dev [OF ok _ _ serves_refl [OF ok]]) simp_all
  show ?thesis
  proof (cases "\<exists>ob. obj = Some ob \<and> blobValue ob \<noteq> []")
    case False
    then show ?thesis using o w by (auto simp: open_blob_def split: option.splits if_splits)
  next
    case True
    then obtain ob where ob: "obj = Some ob" "blobValue ob \<noteq> []" by blast
    obtain r1 d1 where 1: "registerWsmL2 (dm_device dm) = (r1, d1)" by fastforce
    note k1 = kept_km(1) [OF 1]
    have ok1: "device_ok {#} d1" using kept_ok [OF k1] ok by simp
    note e = o [unfolded open_blob_def ob(1) option.case if_not_P [OF ob(2)] 1 prod.case]
    show ?thesis
    proof (cases r1)
      case None
      show ?thesis by (rule served_dev [OF ok _ _ serves_kept [OF ok k1]]) (use e None in auto)
    next
      case (Some phys)
      obtain r d2 where s: "openSession c (load_data phys ob dm) h len tci d1 = Some (r, d2)"
        using e Some by (auto simp: bind_eq_Some_conv)
      obtain b d3 where u: "unregisterWsmL2 d2 = (b, d3)" by fastforce
      have sv: "serves c {#} (dm_device dm) d2"
        by (rule serves_trans [OF serves_kept [OF ok k1] openSession_serves [OF ok1 s]])
      let ?m = "dm\<lparr>dm_device := d3\<rparr>"
      have m: "dm1 = (if \<not> b then writeResult c MC_DRV_ERR_DAEMON_SOCKET ?m else answer_open c r ?m)"
        using e Some s u by (simp add: Let_def)
      obtain d where d: "dm_device (answer_open c r ?m) = write_data c d d3" using answer_open_dev(1) [of c r ?m] by auto
      show ?thesis
        by (rule served_dev [OF ok _ _ sv]) (use m d kept_write [OF kept_km(2) [OF u]] answer_open_dev(2) [of dm c r ?m] in simp_all)
    qed
  qed
qed

lemma served_world: "served c (dm\<lparr>dm_world := w\<rparr>) dm1 \<Longrightarrow> served c dm dm1"
  by (simp add: served_def)

lemma answered_open:
  assumes "device_ok {#} (dm_device dm)" "processOpenSession heap gp rq c dm = Some dm1"
  shows "answered c dm dm1"
proof (rule payload_cases [OF assms(2) [unfolded processOpenSession_def]], rule device_cases, assumption)
  fix d assume "Option.bind (mcRegistryGetServiceBlob heap (Some (take 16 (drop 4 d))) gp (w_fs (dm_world dm))) (\<lambda>(obj, fs1).
       open_blob c obj (peek32 24 d) (peek32 28 d) (peek32 20 d) (dm\<lparr>dm_world := (dm_world dm)\<lparr>w_fs := fs1\<rparr>\<rparr>)) = Some dm1"
  then obtain obj fs1 where o: "open_blob c obj (peek32 24 d) (peek32 28 d) (peek32 20 d)
      (dm\<lparr>dm_world := (dm_world dm)\<lparr>w_fs := fs1\<rparr>\<rparr>) = Some dm1"
    by (auto simp: bind_eq_Some_conv)
  show "served c dm dm1" by (rule served_world [OF open_blob_served [OF _ o]]) (simp add: assms(1))
qed

lemma answered_trustlet:
  assumes ok: "device_ok {#} (dm_device dm)" and "processOpenTrustlet heap rq c dm = Some dm1"
  shows "answered c dm dm1"
proof (rule payload_cases [OF assms(2) [unfolded processOpenTrustlet_def]], rule device_cases, assumption)
  fix d assume a: "(case malloc (unat (peek32 8 d)) (dm_world dm) of
       (None, w1) \<Rightarrow> Some (writeResult c MC_DRV_ERR_DAEMON_SOCKET (dm\<lparr>dm_world := w1\<rparr>))
     | (Some _, w1) \<Rightarrow> Option.bind (read_trustlet (unat (peek32 8 d)) (rq_reads rq) 0 []) (\<lambda>t.
         case t of None \<Rightarrow> Some (writeResult c MC_DRV_ERR_DAEMON_SOCKET (dm\<lparr>dm_world := w1\<rparr>))
         | Some trustlet \<Rightarrow>
           Option.bind (mcRegistryMemGetServiceBlob heap (peek32 4 d) (Some trustlet) (w_fs w1)) (\<lambda>(obj, fs1).
             open_blob c obj (peek32 16 d) (peek32 20 d) (peek32 12 d) (dm\<lparr>dm_world := w1\<lparr>w_fs := fs1\<rparr>\<rparr>)))) = Some dm1"
  have w: "served c dm (writeResult c code (dm\<lparr>dm_world := w\<rparr>))" for code w
    by (rule served_dev [OF ok _ _ serves_refl [OF ok]]) simp_all
  have o: "served c dm dm1" if "open_blob c obj h len tci (dm\<lparr>dm_world := w\<rparr>) = Some dm1" for obj h len tci w
    by (rule served_world [OF open_blob_served [OF _ that]]) (simp add: ok)
  show "served c dm dm1" using a w o
    by (auto simp: bind_eq_Some_conv split: prod.splits option.splits)
qed

lemma kept_check: "checkLoad ld dv = Some (x, dv1) \<Longrightarrow> kept dv dv1"
proof -
  assume c: "checkLoad ld dv = Some (x, dv1)"
  obtain ws where "(case mcp_exchange MC_MCP_CMD_CHECK_LOAD_TA ws (dv\<lparr>unknown_notifications := []\<rparr>) of
        (Inl e, dv1) \<Rightarrow> (e, dv1)
      | (Inr mcRet, dv1) \<Rightarrow> (if mcRet \<noteq> MC_MCP_RET_OK then MAKE_MC_DRV_MCP_ERROR mcRet else MC_DRV_OK, dv1)) = (x, dv1)"
    using c by (auto simp: checkLoad_def bind_eq_Some_conv)
  then obtain y where y: "mcp_exchange MC_MCP_CMD_CHECK_LOAD_TA ws (dv\<lparr>unknown_notifications := []\<rparr>) = (y, dv1)"
    by (auto split: prod.splits sum.splits)
  show ?thesis by (rule kept_trans [OF _ kept_exchange [OF y]]) simp
qed

lemma answered_load_check:
  assumes "processLoadCheck heap spid blob dm = Some (r, dm1)"
  shows "kept (dm_device dm) (dm_device dm1) \<and> same_books dm dm1"
proof -
  have c: "kept dv dv1" if "checkLoad ld dv = Some (x, dv1)" for ld dv x dv1
    by (rule kept_check [OF that])
  have u: "kept dv d3" if "registerWsmL2 dv = (r1, d1)" "checkLoad ld d1 = Some (x, d2)" "unregisterWsmL2 d2 = (b, d3)" for dv d1 d2 d3 r1 ld x b
    by (rule kept_trans [OF kept_trans [OF kept_km(1) [OF that(1)] c [OF that(2)]] kept_km(2) [OF that(3)]])
  obtain obj fs1 where 1: "mcRegistryMemGetServiceBlob heap spid (Some blob) (w_fs (dm_world dm)) = Some (obj, fs1)"
    using assms by (auto simp: processLoadCheck_def bind_eq_Some_conv)
  note e = assms [unfolded processLoadCheck_def 1 Option.bind_lunit prod.case Let_def]
  show ?thesis
  proof (cases obj)
    case None
    then show ?thesis using e by auto
  next
    case (Some ob)
    obtain r1 d1 where 2: "registerWsmL2 (dm_device dm) = (r1, d1)" by fastforce
    show ?thesis
    proof (cases "blobValue ob = [] \<or> r1 = None")
      case True
      then show ?thesis using e Some 2 kept_km(1) [OF 2] by (auto split: if_splits)
    next
      case False
      then obtain phys where p: "r1 = Some phys" by auto
      then obtain x d2 where 3: "checkLoad (load_data phys ob (dm\<lparr>dm_world := (dm_world dm)\<lparr>w_fs := fs1\<rparr>\<rparr>)) d1 = Some (x, d2)"
        using e Some 2 False by auto
      obtain b d3 where 4: "unregisterWsmL2 d2 = (b, d3)" by fastforce
      show ?thesis using e Some 2 False p 3 4 u [OF 2 3 4] by (auto split: if_splits)
    qed
  qed
qed

lemma answered_close:
  assumes ok: "device_ok {#} (dm_device dm)" and "processCloseSession rq c dm = Some dm1"
  shows "answered c dm dm1"
proof (rule payload_cases [OF assms(2) [unfolded processCloseSession_def]], rule device_cases, assumption)
  fix d assume "map_option (\<lambda>(ret, dv). writeResult c ret (dm\<lparr>dm_device := dv\<rparr>)) (closeSession c (peek32 0 d) (dm_device dm)) = Some dm1"
  then obtain r dv where s: "closeSession c (peek32 0 d) (dm_device dm) = Some (r, dv)" "dm1 = writeResult c r (dm\<lparr>dm_device := dv\<rparr>)"
    by auto
  show "served c dm dm1" by (rule served_dev [OF ok _ _ close_serves [OF ok s(1)]]) (simp_all add: s(2))
qed

lemma answered_notify:
  assumes ok: "device_ok {#} (dm_device dm)" and "processNotify rq c dm = Some dm1"
  shows "answered c dm dm1"
proof -
  have "kept (dm_device dm) (snd (notify_session c sid (dm_device dm)))" for sid
    by (simp add: notify_session_def split: option.split)
  then show ?thesis using assms(2)
    by (cases "device_set c dm") (auto simp: processNotify_def answered_def split: option.splits)
qed

lemma answered_map:
  assumes ok: "device_ok {#} (dm_device dm)" and "processMapBulkBuf rq c dm = Some dm1"
  shows "answered c dm dm1"
proof (rule payload_cases [OF assms(2) [unfolded processMapBulkBuf_def]], rule device_cases, assumption)
  fix d
  let ?h = "peek32 4 d"
  obtain b d1 where 1: "lockWsmL2 ?h (dm_device dm) = (b, d1)" by fastforce
  obtain p d2 where 2: "findWsmL2 ?h c d1 = (p, d2)" by fastforce
  obtain r va d3 where 3: "mapBulk c (peek32 0 d) ?h p (peek32 12 d) (peek32 16 d) d2 = ((r, va), d3)" by (metis prod.collapse)
  note l = lock_ok [OF ok 1]
  note k = kept_tci(3) [OF 2]
  assume "(let handle = ?h in
     case lockWsmL2 handle (dm_device dm) of (ok, dv1) \<Rightarrow>
       if \<not> ok then Some (writeResult c MC_DRV_ERR_DAEMON_WSM_HANDLE_NOT_FOUND (dm\<lparr>dm_device := dv1\<rparr>))
       else (case findWsmL2 handle c dv1 of (pAddrL2, dv2) \<Rightarrow>
         if pAddrL2 = 0 then Some (writeResult c MC_DRV_ERR_DAEMON_WSM_HANDLE_NOT_FOUND (dm\<lparr>dm_device := dv2\<rparr>))
         else (case mapBulk c (peek32 0 d) handle pAddrL2 (peek32 12 d) (peek32 16 d) dv2 of
             ((mcResult, va), dv3) \<Rightarrow> Some (case va of
                 Some v \<Rightarrow> on_device (write_data c (enc32 MC_DRV_OK @ enc32 (peek32 0 d) @ enc32 v)) (dm\<lparr>dm_device := dv3\<rparr>)
               | None \<Rightarrow> writeResult c mcResult (dm\<lparr>dm_device := dv3\<rparr>))))) = Some dm1"
  note e = this [unfolded Let_def 1 prod.case 2 3]
  show "served c dm dm1"
  proof (cases b)
    case False
    show ?thesis by (rule served_dev [OF ok _ _ serves_same [OF _ l(2)]]) (use e l False in auto)
  next
    case True
    then have o: "device_ok {#?h#} d1" using l(1) by simp
    have o2: "device_ok {#?h#} d2" using kept_ok [OF k] o by simp
    have s: "serves c {#?h#} (dm_device dm) d2" by (rule serves_trans [OF serves_same [OF o l(2)] serves_kept [OF o k]])
    have s0: "serves c {#} (dm_device dm) d2" by (rule serves_mono [of c "{#?h#}"]) (use s in simp)
    have s3: "serves c {#} (dm_device dm) d3" by (rule serves_trans [OF s mapBulk_serves [OF _ 3]]) (use o2 in simp)
    show ?thesis
    proof (cases "p = 0")
      case p: True
      show ?thesis by (rule served_dev [OF ok _ _ s0]) (use e True p in auto)
    next
      case p: False
      show ?thesis by (rule served_dev [OF ok _ _ s3]) (use e True p in \<open>auto split: option.splits\<close>)
    qed
  qed
qed

lemma answered_unmap:
  assumes ok: "device_ok {#} (dm_device dm)" and "processUnmapBulkBuf rq c dm = Some dm1"
  shows "answered c dm dm1"
proof (rule payload_cases [OF assms(2) [unfolded processUnmapBulkBuf_def]], rule device_cases, assumption)
  fix d
  let ?h = "peek32 4 d"
  obtain r d1 where 1: "unmapBulk c (peek32 0 d) ?h (peek32 8 d) (peek32 12 d) (dm_device dm) = (r, d1)" by fastforce
  assume "(case unmapBulk c (peek32 0 d) ?h (peek32 8 d) (peek32 12 d) (dm_device dm) of (mcResult, dv1) \<Rightarrow>
       Some (if mcResult \<noteq> MC_DRV_OK then writeResult c mcResult (dm\<lparr>dm_device := dv1\<rparr>)
             else writeResult c MC_DRV_OK (dm\<lparr>dm_device := snd (unlockWsmL2 ?h dv1)\<rparr>))) = Some dm1"
  note e = this [unfolded 1 prod.case]
  note s = unmapBulk_serves [OF ok 1]
  show "served c dm dm1"
  proof (cases "r = MC_DRV_OK")
    case True
    then have s1: "serves c {#?h#} (dm_device dm) d1" using s by simp
    then have "device_ok (add_mset ?h {#}) d1" by (simp add: serves_def)
    then have u: "serves c {#} (dm_device dm) (snd (unlockWsmL2 ?h d1))" by (rule serves_trans [OF s1 unlock_serves])
    show ?thesis by (rule served_dev [OF ok _ _ u]) (use e True in auto)
  next
    case False
    then have u: "serves c {#} (dm_device dm) d1" using s by simp
    show ?thesis by (rule served_dev [OF ok _ _ u]) (use e False in auto)
  qed
qed

lemma answered_version:
  assumes ok: "device_ok {#} (dm_device dm)" and "processGetMobiCoreVersion c dm = Some dm1"
  shows "answered c dm dm1"
proof (rule device_cases [OF assms(2) [unfolded processGetMobiCoreVersion_def]])
  obtain r v d1 where 1: "getMobiCoreVersion (dm_device dm) = ((r, v), d1)" by (metis prod.collapse)
  assume "(case getMobiCoreVersion (dm_device dm) of
     ((mcResult, v), dv1) \<Rightarrow> Some (case v of
         Some d \<Rightarrow> on_device (write_data c (enc32 MC_DRV_OK @ d)) (dm\<lparr>dm_device := dv1\<rparr>)
       | None \<Rightarrow> writeResult c mcResult (dm\<lparr>dm_device := dv1\<rparr>))) = Some dm1"
  note e = this [unfolded 1 prod.case]
  show "served c dm dm1"
    by (rule served_dev [OF ok _ _ serves_kept [OF ok kept_version [OF 1]]]) (use e in \<open>auto split: option.splits\<close>)
qed

subsection \<open>The invariant of the daemon\<close>

text \<open>The connections of clients, of drivers, and those the device knows for notifications are apart; sessions
  belong to clients that have the device open, or to drivers.\<close>

definition driver_conns :: "daemon \<Rightarrow> connection set" where
  "driver_conns dm = fst ` set (driverResources dm)"

definition books_ok ::
    "connection set \<Rightarrow> nat \<Rightarrow> connection set \<Rightarrow> connection set \<Rightarrow> connection set \<Rightarrow> connection set \<Rightarrow> bool" where
  "books_ok C n K D S L \<longleftrightarrow> (\<forall>c\<in>C \<union> K \<union> D. c < n) \<and> C \<inter> K = {} \<and> D \<inter> K = {} \<and> C \<inter> D = {} \<and> S \<subseteq> C \<inter> L \<union> D"

definition daemon_ok :: "daemon \<Rightarrow> bool" where
  "daemon_ok dm \<longleftrightarrow> device_ok {#} (dm_device dm) \<and> distinct (dm_clients dm) \<and> distinct (dv_linked (dm_device dm)) \<and>
     books_ok (set (dm_clients dm)) (dm_connections dm) (conns (dm_device dm)) (driver_conns dm) (owners (dm_device dm))
       (set (dv_linked (dm_device dm)))"

lemma books_shrink: "books_ok C n K D S L \<Longrightarrow> K1 \<subseteq> K \<Longrightarrow> S1 \<subseteq> C \<inter> L \<union> D \<Longrightarrow> books_ok C n K1 D S1 L"
  unfolding books_ok_def by blast

lemma books_serve: "books_ok C n K D S L \<Longrightarrow> K1 \<subseteq> K \<Longrightarrow> S1 \<subseteq> insert c S \<Longrightarrow> c \<in> C \<Longrightarrow> c \<in> L \<Longrightarrow> books_ok C n K1 D S1 L"
  unfolding books_ok_def by blast

lemma books_open: "books_ok C n K D S L \<Longrightarrow> books_ok C n K D S (insert c L)"
  unfolding books_ok_def by blast

lemma books_close: "books_ok C n K D S L \<Longrightarrow> K1 \<subseteq> K \<Longrightarrow> S1 \<subseteq> S - {c} \<Longrightarrow> books_ok C n K1 D S1 (L - {c})"
  unfolding books_ok_def by blast

lemma books_detach: "books_ok C n K D S L \<Longrightarrow> c \<in> C \<Longrightarrow> c \<notin> S \<Longrightarrow> K1 \<subseteq> insert c K \<Longrightarrow> books_ok (C - {c}) n K1 D S L"
  unfolding books_ok_def by blast

lemma books_accept: "books_ok C n K D S L \<Longrightarrow> books_ok (insert n C) (Suc n) K D S L"
  unfolding books_ok_def by (auto simp: less_Suc_eq)

lemma books_token: "books_ok C n K D S L \<Longrightarrow> K1 \<subseteq> insert n K \<Longrightarrow> books_ok C (Suc n) K1 D S L"
proof -
  assume b: "books_ok C n K D S L" and k: "K1 \<subseteq> insert n K"
  then have "n \<notin> C" "n \<notin> D" by (auto simp: books_ok_def)
  then have "C \<inter> K1 = {}" "D \<inter> K1 = {}" "\<forall>c\<in>C \<union> K1 \<union> D. c < Suc n"
    using b k unfolding books_ok_def by (blast, blast, fastforce simp: less_Suc_eq)
  then show ?thesis using b by (simp add: books_ok_def)
qed

lemma kept_same: "kept dv dv1 \<Longrightarrow> conns dv1 = conns dv \<and> owners dv1 = owners dv \<and> dv_linked dv1 = dv_linked dv"
  using kept_conns [of dv dv1] kept_maps(4) [of dv dv1] by (simp add: kept_def conns_def owners_def)

lemma driver_conns_simps [simp]: "driver_conns (dm\<lparr>dm_device := dv\<rparr>) = driver_conns dm" "driver_conns (on_device f dm) = driver_conns dm"
  "driver_conns (dm\<lparr>dm_clients := cs\<rparr>) = driver_conns dm" "driver_conns (dm\<lparr>dm_connections := n\<rparr>) = driver_conns dm"
  by (simp_all add: driver_conns_def on_device_def)

lemma same_booksD: "same_books dm dm1 \<Longrightarrow>
    dm_clients dm1 = dm_clients dm \<and> dm_connections dm1 = dm_connections dm \<and> driver_conns dm1 = driver_conns dm"
  by (simp add: same_books_def driver_conns_def)

lemma kept_daemon_ok:
  assumes "daemon_ok dm" "same_books dm dm1" "kept (dm_device dm) (dm_device dm1)"
  shows "daemon_ok dm1"
  using assms(1) same_booksD [OF assms(2)] kept_same [OF assms(3)] kept_ok [OF assms(3), of "{#}"] by (simp add: daemon_ok_def)

lemma answered_ok:
  assumes ok: "daemon_ok dm" and c: "c \<in> set (dm_clients dm)" and a: "answered c dm dm1"
  shows "daemon_ok dm1 \<and> keeps_foreign c (dm_device dm) (dm_device dm1)"
proof (cases "kept (dm_device dm) (dm_device dm1)")
  case True
  then show ?thesis using kept_daemon_ok [OF ok _ True] kept_keeps [OF True] a by (simp add: answered_def)
next
  case False
  then have s: "c \<in> set (dv_linked (dm_device dm))" "serves c {#} (dm_device dm) (dm_device dm1)" "same_books dm dm1"
    using a by (simp_all add: answered_def device_set_def)
  have b: "books_ok (set (dm_clients dm)) (dm_connections dm) (conns (dm_device dm1)) (driver_conns dm) (owners (dm_device dm1))
       (set (dv_linked (dm_device dm)))"
    by (rule books_serve [of _ _ "conns (dm_device dm)" _ "owners (dm_device dm)", OF _ _ _ c s(1)]) (use ok s(2) in \<open>simp_all add: daemon_ok_def serves_def\<close>)
  show ?thesis using s(2) b ok same_booksD [OF s(3)] by (simp add: daemon_ok_def serves_def)
qed

text \<open>Opening and closing the device.\<close>

lemma open_device_same [simp]: "device_ok E (open_device c dv) = device_ok E dv" "conns (open_device c dv) = conns dv"
  "owners (open_device c dv) = owners dv" "keeps_foreign c dv (open_device c dv)"
  by (simp_all add: open_device_def device_ok_def session_handles_def session_conns_def conns_def owners_def keeps_foreign_def)

lemma open_device_answer:
  assumes ok: "daemon_ok dm" and o: "processOpenDevice rq c dm = Some dm1"
  shows "daemon_ok dm1 \<and> keeps_foreign c (dm_device dm) (dm_device dm1)"
proof -
  have w: "daemon_ok (writeResult c x dm2) \<and> keeps_foreign c (dm_device dm) (dm_device (writeResult c x dm2))"
    if "daemon_ok dm2" "keeps_foreign c (dm_device dm) (dm_device dm2)" for dm2 x
    using kept_daemon_ok [OF that(1), of "writeResult c x dm2"] keeps_foreign_trans [OF that(2)]
      kept_keeps [of "dm_device dm2" "dm_device (writeResult c x dm2)"] by simp
  have l: "dv_linked (open_device c (dm_device dm)) = c # dv_linked (dm_device dm)" by (simp add: open_device_def)
  have op: "daemon_ok (on_device (open_device c) dm)" if "\<not> device_set c dm"
    using ok that books_open by (simp add: daemon_ok_def device_set_def on_device_def l driver_conns_def)
  have "(\<exists>x. dm1 = writeResult c x dm) \<or> \<not> device_set c dm \<and> dm1 = writeResult c MC_DRV_OK (on_device (open_device c) dm)"
  proof (cases "recv_payload 4 rq")
    case None
    then show ?thesis using o by (simp add: processOpenDevice_def with_payload_def) blast
  next
    case (Some d)
    show ?thesis
    proof (cases "device_set c dm \<or> peek32 0 d \<noteq> 0")
      case True
      have "\<exists>x. Some (writeResult c x dm) = processOpenDevice rq c dm"
        using True Some by (cases "device_set c dm") (simp_all add: processOpenDevice_def with_payload_def, blast+)
      then show ?thesis using o by auto
    next
      case False
      then show ?thesis using o Some by (simp add: processOpenDevice_def with_payload_def)
    qed
  qed
  then show ?thesis
  proof (elim disjE exE conjE)
    fix x assume "dm1 = writeResult c x dm"
    then show ?thesis using w [OF ok, of x] by simp
  next
    assume n: "\<not> device_set c dm" and d: "dm1 = writeResult c MC_DRV_OK (on_device (open_device c) dm)"
    show ?thesis unfolding d by (rule w [OF op [OF n]]) simp
  qed
qed

lemma close_device_daemon:
  assumes ok: "daemon_ok dm" and c: "close_device c (dm_device dm) = Some dv"
  shows "daemon_ok (dm\<lparr>dm_device := dv\<rparr>) \<and> keeps_foreign c (dm_device dm) dv \<and> c \<notin> owners dv \<and> c \<notin> set (dv_linked dv)"
proof -
  have o: "device_ok {#} (dm_device dm)" using ok by (simp add: daemon_ok_def)
  note e = close_device_effect [OF c o]
  have l: "set (remove1 c (dv_linked (dm_device dm))) = set (dv_linked (dm_device dm)) - {c}"
    "distinct (remove1 c (dv_linked (dm_device dm)))" using ok by (simp_all add: daemon_ok_def)
  have "books_ok (set (dm_clients dm)) (dm_connections dm) (conns dv) (driver_conns dm) (owners dv) (set (dv_linked (dm_device dm)) - {c})"
    by (rule books_close [OF _ e(2,3)]) (use ok in \<open>simp add: daemon_ok_def\<close>)
  then have "daemon_ok (dm\<lparr>dm_device := dv\<rparr>)"
    using ok e(1) l by (simp add: daemon_ok_def e(5))
  moreover have "c \<notin> owners dv" using e(3) by blast
  ultimately show ?thesis using e(4,5) l(1) by simp
qed

lemma close_device_answer:
  assumes ok: "daemon_ok dm" and o: "processCloseDevice c dm = Some dm1"
  shows "daemon_ok dm1 \<and> keeps_foreign c (dm_device dm) (dm_device dm1)"
proof (cases "device_set c dm")
  case False
  then have "dm1 = writeResult c 0x21 dm" using o by (simp add: processCloseDevice_def with_device_def)
  then show ?thesis using kept_daemon_ok [OF ok, of dm1] kept_keeps [of "dm_device dm" "dm_device dm1"] by simp
next
  case True
  then obtain dv where d: "close_device c (dm_device dm) = Some dv" "dm1 = writeResult c MC_DRV_OK (dm\<lparr>dm_device := dv\<rparr>)"
    using o by (auto simp: processCloseDevice_def with_device_def)
  note k = close_device_daemon [OF ok d(1)]
  have w: "kept dv (dm_device dm1)" by (simp add: d(2))
  show ?thesis using k kept_daemon_ok [of "dm\<lparr>dm_device := dv\<rparr>" dm1] keeps_foreign_trans [of c "dm_device dm" dv] kept_keeps [OF w]
    by (simp add: d(2))
qed

text \<open>Connecting for notifications: the connection is no client any more, and known to the device when this worked.\<close>

lemma register_ok:
  assumes ok: "device_ok {#} dv" and c: "c \<notin> conns dv" and r: "registerTrustletConnection c sid did magic dv = (r, dv1)"
  shows "device_ok {#} dv1 \<and> conns dv1 \<subseteq> insert c (conns dv) \<and> owners dv1 = owners dv \<and> dv_linked dv1 = dv_linked dv"
proof (cases "find (\<lambda>ts. of_nat (ts_addr ts) = did \<and> sessionMagic ts = magic \<and> sessionId ts = sid) (trustletSessions dv)")
  case None
  then show ?thesis using r ok by (auto simp: registerTrustletConnection_def)
next
  case (Some ts)
  then have m: "ts \<in> set (trustletSessions dv)" by (auto simp: find_Some_iff)
  have at: "session_at (ts_addr ts) dv = Some ts" by (rule session_atI [OF _ m]) (use ok in \<open>simp add: device_ok_def\<close>)
  let ?f = "\<lambda>t. t\<lparr>notificationConnection := Some c\<rparr>"
  have d: "dv1 = update_session (ts_addr ts) ?f dv" using r Some by (simp add: registerTrustletConnection_def)
  obtain xs ys where s: "trustletSessions dv = xs @ ts # ys" "\<forall>t\<in>set (xs @ ys). ts_addr t \<noteq> ts_addr ts"
    using session_split [OF _ at] ok by (auto simp: device_ok_def)
  have u: "trustletSessions dv1 = xs @ ?f ts # ys" unfolding d by (rule update_split [OF s(1) refl s(2)])
  have h: "session_handles dv1 = session_handles dv" "handles (?f ts) = handles ts" "buffers_ok (?f ts) = buffers_ok ts"
    by (simp_all add: session_handles_def u s(1) handles_def buffers_ok_def)
  have f: "km_locked dv1 = km_locked dv" "dv_deleted dv1 = dv_deleted dv" "dv_next dv1 = dv_next dv" "dv_linked dv1 = dv_linked dv"
    by (simp_all add: d)
  have cs: "session_conns dv1 = List.map_filter id (map notificationConnection xs) @ c # List.map_filter id (map notificationConnection ys)"
    "session_conns dv = List.map_filter id (map notificationConnection xs) @
       (case notificationConnection ts of None \<Rightarrow> [] | Some x \<Rightarrow> [x]) @ List.map_filter id (map notificationConnection ys)"
    by (cases "notificationConnection ts", simp_all add: session_conns_def u s(1) map_filter_id)+
  have "distinct (session_conns dv1 @ dv_deleted dv1)"
    using ok c unfolding device_ok_def conns_def f cs by (cases "notificationConnection ts") auto
  then have o: "device_ok {#} dv1"
    using ok h(3) unfolding device_ok_def h(1) f by (simp add: u s(1))
  have "conns dv1 \<subseteq> insert c (conns dv)" unfolding conns_def f cs by (cases "notificationConnection ts") auto
  moreover have "owners dv1 = owners dv" by (simp add: owners_def u s(1))
  ultimately show ?thesis using o f(4) by simp
qed

lemma kept_process_queued: "device_ok E dv \<Longrightarrow> kept dv (process_queued a dv)"
proof -
  assume ok: "device_ok E dv"
  show ?thesis
  proof (cases "session_at a dv")
    case None
    then show ?thesis by (simp add: process_queued_def)
  next
    case (Some ts)
    obtain out ts1 where q: "processQueuedNotifications ts = (out, ts1)" by fastforce
    have b: "bare ts1 = bare ts" using q by (auto simp: processQueuedNotifications_def bare_def split: option.splits)
    have u: "kept dv (update_session a (\<lambda>_. ts1) dv)"
    proof (rule kept_update)
      fix t assume "ts_addr t = a" "t \<in> set (trustletSessions dv)"
      then have "session_at a dv = Some t" using session_atI [of dv t] ok by (simp add: device_ok_def)
      then show "bare ts1 = bare t" using Some b by simp
    qed
    show ?thesis by (rule kept_trans [OF u]) (simp add: process_queued_def Some q kept_def)
  qed
qed

lemma nq_connect_ok:
  assumes ok: "daemon_ok dm" and c: "c \<in> set (dm_clients dm)" and p: "processNqConnect rq c dm = Some dm1"
  shows "daemon_ok dm1"
proof -
  have w: "daemon_ok (writeResult c x dm2)" if "daemon_ok dm2" for dm2 x
    by (rule kept_daemon_ok [OF that]) simp_all
  let ?d = "detachConnection c dm"
  have di: "distinct (dm_clients dm)" "c \<notin> conns (dm_device dm)" "c < dm_connections dm" "c \<notin> driver_conns dm"
    using ok c by (auto simp: daemon_ok_def books_ok_def)
  have books: "set (dm_clients ?d) = set (dm_clients dm) - {c}" "distinct (dm_clients ?d)" "dm_connections ?d = dm_connections dm"
    "driverResources ?d = driverResources dm" "dm_device ?d = dm_device dm"
    using di(1) by (simp_all add: detachConnection_def)
  show ?thesis
  proof (cases "device_set c dm")
    case True
    then show ?thesis using p ok w by (auto simp: processNqConnect_def with_payload_def split: option.splits)
  next
    case False
    then have o: "c \<notin> owners (dm_device dm)" using ok di(4) by (auto simp: daemon_ok_def books_ok_def device_set_def)
    have dk: "daemon_ok (?d\<lparr>dm_device := dv\<rparr>)"
      if "device_ok {#} dv" "conns dv \<subseteq> insert c (conns (dm_device dm))" "owners dv = owners (dm_device dm)"
        "dv_linked dv = dv_linked (dm_device dm)" for dv
    proof -
      have "books_ok (set (dm_clients dm) - {c}) (dm_connections dm) (conns dv) (driver_conns dm) (owners (dm_device dm))
         (set (dv_linked (dm_device dm)))"
        by (rule books_detach [OF _ c o that(2)]) (use ok in \<open>simp add: daemon_ok_def\<close>)
      then show ?thesis using ok that books by (simp add: daemon_ok_def driver_conns_def)
    qed
    have d0: "daemon_ok ?d" using dk [of "dm_device dm"] ok books by (simp add: daemon_ok_def detachConnection_def subset_insertI)
    have r: "daemon_ok (?d\<lparr>dm_device := dv\<rparr>)" if "registerTrustletConnection c sid did magic (dm_device ?d) = (r, dv)" for sid did magic r dv
      using dk [of dv] register_ok [OF _ di(2) that [unfolded books(5)]] ok by (simp add: daemon_ok_def)
    have pq: "daemon_ok (on_device (process_queued a) dm2)" if "daemon_ok dm2" for a dm2
      by (rule kept_daemon_ok [OF that]) (use that in \<open>simp_all add: kept_process_queued [of "{#}"] daemon_ok_def\<close>)
    have ir: "daemon_ok (on_device (fold handle_irq is) dm2)" if "daemon_ok dm2" for "is" dm2
      by (rule kept_daemon_ok [OF that]) (simp_all add: kept_irqs)
    show ?thesis using p False w [OF ok] w [OF d0] w [OF r] pq [OF ir [OF w [OF r]]]
      by (auto simp: processNqConnect_def with_payload_def Let_def split: option.splits if_splits prod.splits)
  qed
qed

subsection \<open>Registry commands\<close>

lemma token_ok:
  assumes ok: "daemon_ok dm" and t: "loadToken n dm = (r, dm1)"
  shows "daemon_ok dm1 \<and> keeps_foreign c (dm_device dm) (dm_device dm1) \<and> dm_clients dm1 = dm_clients dm"
proof -
  obtain r1 d1 where 1: "registerWsmL2 (dm_device dm) = (r1, d1)" by fastforce
  note k1 = kept_km(1) [OF 1]
  show ?thesis
  proof (cases r1)
    case None
    then have "dm1 = dm\<lparr>dm_device := d1\<rparr>" using t 1 by (simp add: loadToken_def)
    then show ?thesis using kept_daemon_ok [OF ok, of dm1] k1 kept_keeps [OF k1] by simp
  next
    case (Some phys)
    obtain r2 d2 where 2: "loadToken_device phys (ucast (dm_offs dm (km_calls (dm_device dm)))) (of_nat n) d1 = (r2, d2)" by fastforce
    obtain b d3 where 3: "unregisterWsmL2 d2 = (b, d3)" by fastforce
    have k2: "kept d1 d2"
      using 2 kept_trans [OF kept_calls(7) kept_exchange]
      by (auto simp: loadToken_device_def split: prod.splits sum.splits if_splits)
    have k: "kept (dm_device dm) d3" by (rule kept_trans [OF kept_trans [OF k1 k2] kept_km(2) [OF 3]])
    let ?c = "dm_connections dm"
    let ?d = "delete_connection (Some ?c) d3"
    have d: "dm1 = dm\<lparr>dm_device := ?d, dm_connections := Suc ?c\<rparr>"
      using t 1 Some 2 3 by (simp add: loadToken_def Let_def)
    have o3: "device_ok {#} d3" using kept_ok [OF k] ok by (simp add: daemon_ok_def)
    have new: "?c \<notin> conns d3" using ok kept_same [OF k] by (auto simp: daemon_ok_def books_ok_def)
    have o: "device_ok {#} ?d" "conns ?d = insert ?c (conns d3)" "owners ?d = owners d3" "dv_linked ?d = dv_linked d3"
      using o3 new by (simp_all add: device_ok_def delete_connection_def session_handles_def session_conns_def conns_def owners_def)
    have b: "books_ok (set (dm_clients dm)) (Suc ?c) (conns ?d) (driver_conns dm) (owners (dm_device dm)) (set (dv_linked (dm_device dm)))"
      by (rule books_token [of _ _ "conns (dm_device dm)"]) (use ok o(2) kept_same [OF k] in \<open>simp_all add: daemon_ok_def\<close>)
    have f: "keeps_foreign c (dm_device dm) ?d" using kept_keeps [OF k, of 0 c] by (simp add: keeps_foreign_def delete_connection_def)
    show ?thesis using ok o b f kept_same [OF k] by (simp add: d daemon_ok_def driver_conns_def)
  qed
qed

lemma give_tokens_ok:
  "daemon_ok dm \<Longrightarrow> daemon_ok (give_tokens ts dm) \<and> keeps_foreign c (dm_device dm) (dm_device (give_tokens ts dm)) \<and>
     dm_clients (give_tokens ts dm) = dm_clients dm"
proof (induction ts arbitrary: dm)
  case (Cons t ts)
  obtain x n where t: "t = (x, n)" by fastforce
  obtain r dm1 where l: "loadToken n dm = (r, dm1)" by fastforce
  note k = token_ok [OF Cons.prems l, of c]
  have g: "give_tokens (t # ts) dm = give_tokens ts dm1" using l t by (simp add: give_tokens_def)
  have i: "daemon_ok (give_tokens ts dm1) \<and> keeps_foreign c (dm_device dm1) (dm_device (give_tokens ts dm1)) \<and>
     dm_clients (give_tokens ts dm1) = dm_clients dm1" using Cons.IH k by simp
  show ?case unfolding g using i k keeps_foreign_trans [of c "dm_device dm" "dm_device dm1"] by simp
qed (simp add: give_tokens_def)

lemma check_first_ok:
  assumes ok: "daemon_ok dm" and c: "check_first heap cmd inp dm = Some dm1"
  shows "daemon_ok dm1 \<and> kept (dm_device dm) (dm_device dm1)"
proof (cases "if cmd = MC_DRV_REG_STORE_TA_BLOB then blob_to_check inp (dm_world dm) else None")
  case None
  then show ?thesis using ok c by (simp add: check_first_def)
next
  case (Some x)
  obtain spid blob w where x: "x = (spid, blob, w)" by (metis prod_cases3)
  obtain ret dm2 where 1: "processLoadCheck heap spid blob (dm\<lparr>dm_world := w\<rparr>) = Some (ret, dm2)"
    "dm1 = dm2\<lparr>dm_world := (dm_world dm)\<lparr>w_fs := w_fs (dm_world dm2), w_loadcheck := \<lambda>_ _. ret\<rparr>\<rparr>"
    using c unfolding check_first_def Some x by auto
  note k = answered_load_check [OF 1(1)]
  have "daemon_ok dm1" by (rule kept_daemon_ok [OF ok]) (use k 1(2) in simp_all)
  then show ?thesis using k 1(2) by simp
qed

lemma registry_result_ok:
  assumes ok: "daemon_ok dm"
  shows "daemon_ok (registry_result c r dm) \<and> keeps_foreign e (dm_device dm) (dm_device (registry_result c r dm))"
proof -
  let ?m = "dm\<lparr>dm_world := snd r\<rparr>"
  have m: "daemon_ok ?m" by (rule kept_daemon_ok [OF ok]) simp_all
  let ?g = "give_tokens (drop (length (w_tokens (dm_world dm))) (w_tokens (snd r))) ?m"
  have g: "daemon_ok ?g" "keeps_foreign e (dm_device dm) (dm_device ?g)" using give_tokens_ok [OF m] by simp_all
  have d: "registry_result c r dm = on_device (write_data c (fst r)) ?g" by (simp add: registry_result_def)
  have k: "kept (dm_device ?g) (dm_device (registry_result c r dm))" by (simp add: d)
  have "daemon_ok (registry_result c r dm)" by (rule kept_daemon_ok [OF g(1)]) (simp_all add: d)
  then show ?thesis using keeps_foreign_trans [OF g(2)] kept_keeps [OF k] by blast
qed

subsection \<open>Steps\<close>

lemma ifE_some: "(if b then x else y) = Some z \<Longrightarrow> (b \<Longrightarrow> x = Some z \<Longrightarrow> P) \<Longrightarrow> (\<not> b \<Longrightarrow> y = Some z \<Longrightarrow> P) \<Longrightarrow> P"
  by (simp split: if_splits)

lemma command_ok:
  assumes ok: "daemon_ok dm" and c: "c \<in> set (dm_clients dm)" and h: "handleCommand heap c cmd rq inp dm = Some dm1"
  shows "daemon_ok dm1 \<and> (cmd \<noteq> 4 \<longrightarrow> keeps_foreign c (dm_device dm) (dm_device dm1))"
proof -
  let ?g = "\<lambda>dm1. daemon_ok dm1 \<and> keeps_foreign c (dm_device dm) (dm_device dm1)"
  have dev: "device_ok {#} (dm_device dm)" using ok by (simp add: daemon_ok_def)
  have a: "?g dm1" if "answered c dm dm1" for dm1 by (rule answered_ok [OF ok c that])
  have wr: "?g dm1" if "Option.bind (check_first heap cmd inp dm) (\<lambda>dm1.
          map_option (\<lambda>r. registry_result c r dm1) (processRegistryWriteData cmd inp (dm_world dm1))) = Some dm1" for dm1
  proof -
    obtain dm2 r where 1: "check_first heap cmd inp dm = Some dm2" "dm1 = registry_result c r dm2"
      using \<open>_ = Some dm1\<close> by (auto simp: bind_eq_Some_conv)
    note k = check_first_ok [OF ok 1(1)]
    show ?thesis using registry_result_ok [of dm2 c r c] k keeps_foreign_trans [of c "dm_device dm" "dm_device dm2"]
        kept_keeps [of "dm_device dm" "dm_device dm2" 0 c] 1(2) by simp
  qed
  have vs: "answered c dm (on_device (write_data c d) dm)" for d by (simp add: answered_def)
  have v: "answered c dm dm1" if "processGetVersion c dm = Some dm1" for dm1
    using that vs by (auto simp: processGetVersion_def)
  have rr: "?g (registry_result c r dm)" for r by (rule registry_result_ok [OF ok])
  have id: "?g dm" using ok by simp
  note all = open_device_answer [OF ok] close_device_answer [OF ok] answered_open [OF dev, THEN a] answered_trustlet [OF dev, THEN a]
    answered_close [OF dev, THEN a] answered_notify [OF dev, THEN a] answered_map [OF dev, THEN a] answered_unmap [OF dev, THEN a]
    v [THEN a] answered_version [OF dev, THEN a] wr rr id
  show ?thesis
  proof (cases "cmd = 4")
    case True
    then have "processNqConnect rq c dm = Some dm1" using h by (simp add: handleCommand_def)
    then show ?thesis using nq_connect_ok [OF ok c] True by simp
  next
    case False
    have "?g dm1" using h [unfolded handleCommand_def if_not_P [OF False]]
      by (elim ifE_some) (use all in \<open>fast+\<close>)
    then show ?thesis by simp
  qed
qed

text \<open>A daemon to start.\<close>

definition sample_daemon :: daemon where
  "sample_daemon = \<lparr>dm_device = sample_device, dm_world = quiet_world empty_registry, dm_clients = [], dm_connections = 0, driverResources = [],
     dm_offs = \<lambda>_. 0\<rparr>"

subsection \<open>Clients are kept apart\<close>

text \<open>C9. No command of one client, whatever it holds and however it ends, changes a session of another client or one
  of a trustlet that runs on after its client left: the session is still there, with the same id, buffers,
  connections and level. Only the command that connects for notifications may give a session a new connection.\<close>

theorem foreign_sessions_kept:
  assumes "daemon_ok dm" and "c \<in> set (dm_clients dm)" and "handleCommand heap c cmd rq inp dm = Some dm1" and "cmd \<noteq> 4"
    and "ts \<in> set (trustletSessions (dm_device dm))" and "deviceConnection ts \<noteq> Some c"
  shows "\<exists>ts1\<in>set (trustletSessions (dm_device dm1)). ts_addr ts1 = ts_addr ts \<and> sessionId ts1 = sessionId ts \<and>
    sessionMagic ts1 = sessionMagic ts \<and> deviceConnection ts1 = deviceConnection ts \<and>
    notificationConnection ts1 = notificationConnection ts \<and> gp_level ts1 = gp_level ts \<and> buffers ts1 = buffers ts"
proof -
  have "keeps_foreign c (dm_device dm) (dm_device dm1)" using command_ok [OF assms(1-3)] assms(4) by blast
  then obtain ts1 where t: "ts1 \<in> set (trustletSessions (dm_device dm1))" "bare ts1 = bare ts"
    using assms(5,6) by (auto simp: keeps_foreign_def)
  show ?thesis
    by (rule bexI [OF _ t(1)]) (use arg_cong [OF t(2), of ts_addr] arg_cong [OF t(2), of sessionId] arg_cong [OF t(2), of sessionMagic]
        arg_cong [OF t(2), of deviceConnection] arg_cong [OF t(2), of notificationConnection] arg_cong [OF t(2), of gp_level]
        arg_cong [OF t(2), of buffers] in simp)
qed

text \<open>Two clients with the device open; the second one has a session.\<close>

definition two_clients :: daemon where
  "two_clients = sample_daemon\<lparr>dm_clients := [0, 1], dm_connections := 2, dm_device := sample_device
     \<lparr>trustletSessions := [(new_session 0 1 0x301 7)\<lparr>ts_notifications := [\<lparr>n_sessionId = 0x301, n_payload = 0\<rparr>]\<rparr>], dv_next := 1,
      dv_linked := [1, 0]\<rparr>\<rparr>"

lemma two_clients_ok: "daemon_ok two_clients"
  by (auto simp: two_clients_def daemon_ok_def device_ok_def books_ok_def session_handles_def session_conns_def conns_def owners_def
      driver_conns_def sample_daemon_def sample_device_def new_session_def handles_def buffers_ok_def map_filter_def)

lemma foreign_sessions_kept_witness:
  "\<exists>dm1. handleCommand (\<lambda>_. 0) 0 3 \<lparr>rq_payload = None, rq_reads = \<lambda>_. None, rq_irqs = []\<rparr> [] two_clients = Some dm1 \<and>
     (\<exists>ts\<in>set (trustletSessions (dm_device dm1)). sessionId ts = 0x301)"
proof -
  have s: "trustletSessions (dm_device two_clients) = [(new_session 0 1 0x301 7)\<lparr>ts_notifications := [\<lparr>n_sessionId = 0x301, n_payload = 0\<rparr>]\<rparr>]"
    by (simp add: two_clients_def)
  have "last_session 0 (dm_device two_clients) = None" by (simp add: last_session_def s new_session_def)
  then have "close_sessions 0 (dm_device two_clients) = Some (dm_device two_clients)" by (subst close_sessions.simps) simp
  moreover have "device_set 0 two_clients" by (simp add: device_set_def two_clients_def)
  ultimately obtain dm1 where h: "handleCommand (\<lambda>_. 0) 0 3 \<lparr>rq_payload = None, rq_reads = \<lambda>_. None, rq_irqs = []\<rparr> [] two_clients = Some dm1"
    by (auto simp: handleCommand_def processCloseDevice_def with_device_def close_device_def)
  have c: "0 \<in> set (dm_clients two_clients)" by (simp add: two_clients_def)
  show ?thesis using foreign_sessions_kept [OF two_clients_ok c h] h s by (auto simp: new_session_def)
qed

end
