(* ===== verification/StartupFacts.thy ===== *)
theory StartupFacts
  imports Startup DaemonFacts
begin

text \<open>
  Properties of the daemon from its start on: what the set-up has checked when the daemon serves, and
  the invariant of clients, connections, sessions and locks that every step keeps.
\<close>

subsection \<open>The drivers of the secure world\<close>

definition bares :: "device \<Rightarrow> session list" where
  "bares dv = map bare (trustletSessions dv)"

lemma kept_bares: "kept dv dv1 \<Longrightarrow> bares dv1 = bares dv"
  by (simp add: kept_def bares_def)

lemma bares_owners: "bares dv1 = bares dv \<Longrightarrow> owners dv1 = owners dv"
  unfolding bares_def owners_def by (drule same_map [where f = deviceConnection]) simp_all

lemma lock_bares: "lockWsmL2 h dv = (r, dv1) \<Longrightarrow> bares dv1 = bares dv" "bares (unlock_tci h len dv) = bares dv"
  by (auto simp: lockWsmL2_def unlock_tci_def unlockWsmL2_def km_call_def bares_def split: if_splits)

lemma prepare_tci_bares:
  assumes p: "prepare_tci c h len ofs dv = (r, dv1)"
  shows "bares dv1 = bares dv"
proof -
  obtain x d1 where x: "findContiguousWsm h c dv = (x, d1)" by fastforce
  obtain y d2 where y: "findWsmL2 h c d1 = (y, d2)" by fastforce
  have b: "bares d1 = bares dv" "bares d2 = bares dv"
    using kept_bares [OF kept_tci(2) [OF x]] kept_bares [OF kept_tci(3) [OF y]] by simp_all
  have w: "bares (write_tci t a o' d) = bares d" for t a o' d by (rule kept_bares [OF kept_tci(1)])
  show ?thesis
  proof (cases "tci_given h len")
    case False
    then show ?thesis using p w by (auto simp: prepare_tci_def split: if_splits)
  next
    case True
    then show ?thesis using p x y b w lock_bares(1)
      by (cases x) (auto simp: prepare_tci_def split: if_splits prod.splits)
  qed
qed

text \<open>When there is no answer for the client there is no session.\<close>

lemma openSession_none:
  assumes o: "openSession c ld h len ofs dv = Some ((e, None), dv1)"
  shows "bares dv1 = bares dv"
  using o
proof (cases rule: openSession_cases)
  case (tci p)
  then show ?thesis by (intro prepare_tci_bares)
next
  case (failed m d d2)
  then show ?thesis using prepare_tci_bares [OF failed(1)] kept_bares [OF failed(2)] lock_bares(2) by simp
qed simp

lemma openSession_ret: "openSession c ld h len ofs dv = Some ((e, Some rsp), dv1) \<Longrightarrow> e = MC_DRV_OK"
  by (cases rule: openSession_cases) auto

lemma books_driver: "books_ok C n K D S L \<Longrightarrow> K1 \<subseteq> K \<Longrightarrow> S1 \<subseteq> insert n S \<Longrightarrow> books_ok C (Suc n) K1 (insert n D) S1 L"
proof -
  assume b: "books_ok C n K D S L" and k: "K1 \<subseteq> K" "S1 \<subseteq> insert n S"
  then have "n \<notin> C" "n \<notin> K" by (auto simp: books_ok_def)
  then have "C \<inter> insert n D = {}" "insert n D \<inter> K1 = {}" "C \<inter> K1 = {}" "\<forall>c\<in>C \<union> K1 \<union> insert n D. c < Suc n" "S1 \<subseteq> C \<inter> L \<union> insert n D"
    using b k unfolding books_ok_def by (blast, blast, blast, fastforce simp: less_Suc_eq, blast)
  then show ?thesis by (simp add: books_ok_def)
qed

lemma driver_ok:
  assumes ok: "daemon_ok dm" and km: "\<forall>n. km_results (dm_device dm) n" and l: "loadDeviceDriver heap p dm = Some (r, dm1)"
  shows "daemon_ok dm1 \<and> (\<forall>n. km_results (dm_device dm1) n)"
proof -
  obtain obj fs1 where 1: "mcRegistryGetDriverBlob heap (Some p) (w_fs (dm_world dm)) = Some (obj, fs1)"
    using l by (auto simp: loadDeviceDriver_def bind_eq_Some_conv)
  let ?m = "dm\<lparr>dm_world := (dm_world dm)\<lparr>w_fs := fs1\<rparr>\<rparr>"
  note e = l [unfolded loadDeviceDriver_def 1 Option.bind_lunit prod.case Let_def]
  have kp: "daemon_ok dm2 \<and> (\<forall>n. km_results (dm_device dm2) n)" if "same_books dm dm2" "kept (dm_device dm) (dm_device dm2)" for dm2
    using kept_daemon_ok [OF ok that] that(2) km by (simp add: kept_def)
  show ?thesis
  proof (cases obj)
    case None
    then show ?thesis using e kp [of ?m] by auto
  next
    case (Some ob)
    obtain r1 d1 where 2: "registerWsmL2 (dm_device ?m) = (r1, d1)" by fastforce
    note k1 = kept_km(1) [OF 2 [simplified]]
    obtain r2 d2 where 3: "allocateContiguousPersistentWsm DRIVER_TCI_LEN d1 = (r2, d2)" by fastforce
    have "kept d1 d2" using 3 kept_calls(1) [of d1] by (auto simp: allocateContiguousPersistentWsm_def split: if_splits)
    then have k2: "kept (dm_device dm) d2" by (rule kept_trans [OF k1])
    have k3: "kept (dm_device dm) (snd (unregisterWsmL2 d2))"
      by (rule kept_trans [OF k2]) (simp add: unregisterWsmL2_def)
    note e2 = e [unfolded Some option.case 2 prod.case]
    show ?thesis
    proof (cases "\<exists>phys tci. r1 = Some phys \<and> r2 = Some tci")
      case False
      then consider "dm1 = ?m\<lparr>dm_device := d1\<rparr>" | "dm1 = ?m\<lparr>dm_device := snd (unregisterWsmL2 d2)\<rparr>"
        using e2 3 by (cases r1; cases r2) auto
      then show ?thesis using kp [of dm1] k1 k3 by cases simp_all
    next
      case True
      then obtain phys tci where pt: "r1 = Some phys" "r2 = Some tci" by blast
      let ?n = "dm_connections dm"
      obtain mcRet rsp d3 where 4: "openSession ?n (load_data phys ob ?m) (wsm_handle tci) (wsm_len tci) 0 d2 = Some ((mcRet, rsp), d3)"
        using e2 pt 3 by auto
      have o2: "device_ok {#} d2" using kept_ok [OF k2] ok by (simp add: daemon_ok_def)
      have sv: "serves ?n {#} (dm_device dm) d3"
        by (rule serves_trans [OF serves_kept [where E = "{#}", OF _ k2] openSession_serves [OF o2 4]]) (use ok in \<open>simp add: daemon_ok_def\<close>)
      obtain b d4 where 5: "unregisterWsmL2 d3 = (b, d4)" by fastforce
      have b: "b" using 5 sv km by (auto simp: unregisterWsmL2_def km_call_def serves_def)
      have sv4: "serves ?n {#} (dm_device dm) d4"
        by (rule serves_trans [OF sv serves_kept [where E = "{#}", OF _ kept_km(2) [OF 5]]]) (use sv in \<open>simp add: serves_def\<close>)
      have km4: "\<forall>n. km_results d4 n" using sv4 km by (simp add: serves_def)
      have bk: "books_ok (set (dm_clients dm)) ?n (conns (dm_device dm)) (driver_conns dm) (owners (dm_device dm)) (set (dv_linked (dm_device dm)))"
        using ok by (simp add: daemon_ok_def)
      show ?thesis
      proof (cases "rsp \<noteq> None \<and> mcRet = MC_MCP_RET_OK")
        case True
        then obtain sid where d: "dm1 = ?m\<lparr>dm_connections := Suc ?n, dm_device := d4, driverResources := driverResources dm @ [(?n, sid)]\<rparr>"
          using e2 pt 3 4 5 b by auto
        have dc: "driver_conns dm1 = insert ?n (driver_conns dm)" by (simp add: d driver_conns_def)
        have "books_ok (set (dm_clients dm)) (Suc ?n) (conns d4) (insert ?n (driver_conns dm)) (owners d4) (set (dv_linked (dm_device dm)))"
          by (rule books_driver [OF bk]) (use sv4 in \<open>simp_all add: serves_def\<close>)
        then show ?thesis using sv4 ok km4 by (simp add: daemon_ok_def dc) (simp add: d serves_def)
      next
        case False
        have none: "rsp = None"
        proof (rule ccontr)
          assume "rsp \<noteq> None"
          then have "mcRet = MC_MCP_RET_OK" using openSession_ret 4 by auto
          then show False using False \<open>rsp \<noteq> None\<close> by simp
        qed
        let ?d = "delete_connection (Some ?n) d4"
        have d: "dm1 = ?m\<lparr>dm_connections := Suc ?n, dm_device := ?d\<rparr>" using e2 pt 3 4 5 none by auto
        have "bares d3 = bares d2" using openSession_none 4 none by simp
        then have ow: "owners d4 = owners (dm_device dm)"
          using kept_bares [OF kept_km(2) [OF 5]] kept_bares [OF k2] by (intro bares_owners) simp
        have new: "?n \<notin> conns d4" using bk sv4 by (auto simp: books_ok_def serves_def)
        have o: "device_ok {#} ?d" "conns ?d = insert ?n (conns d4)" "owners ?d = owners d4" "dv_linked ?d = dv_linked d4"
          using sv4 new by (simp_all add: serves_def device_ok_def delete_connection_def session_handles_def session_conns_def conns_def owners_def)
        have "books_ok (set (dm_clients dm)) (Suc ?n) (conns ?d) (driver_conns dm) (owners (dm_device dm)) (set (dv_linked (dm_device dm)))"
          by (rule books_token [OF bk]) (use sv4 o(2) in \<open>auto simp: serves_def\<close>)
        moreover have "km_results ?d = km_results d4" by (simp add: delete_connection_def)
        ultimately show ?thesis using ok o ow sv4 km4 by (simp add: daemon_ok_def d serves_def driver_conns_def)
      qed
    qed
  qed
qed

lemma load_drivers_ok:
  "daemon_ok dm \<Longrightarrow> drivers = [] \<or> (\<forall>n. km_results (dm_device dm) n) \<Longrightarrow> load_drivers heap drivers dm = Some dm1 \<Longrightarrow> daemon_ok dm1"
proof (induction drivers arbitrary: dm)
  case (Cons p ps)
  then obtain r dm2 where l: "loadDeviceDriver heap p dm = Some (r, dm2)" "load_drivers heap ps dm2 = Some dm1"
    by (auto simp: bind_eq_Some_conv)
  show ?case using Cons.IH [of dm2] driver_ok [OF Cons.prems(1) _ l(1)] Cons.prems(2) l(2) by simp
qed simp

subsection \<open>The start\<close>

text \<open>A daemon as the constructors make it.\<close>

definition fresh_daemon :: "daemon \<Rightarrow> bool" where
  "fresh_daemon dm \<longleftrightarrow> trustletSessions (dm_device dm) = [] \<and> dv_deleted (dm_device dm) = [] \<and> dv_linked (dm_device dm) = [] \<and>
     dm_clients dm = [] \<and> driverResources dm = []"

lemma fresh_ok: "fresh_daemon dm \<Longrightarrow> daemon_ok dm"
  by (simp add: fresh_daemon_def daemon_ok_def device_ok_def books_ok_def session_handles_def session_conns_def conns_def owners_def
      driver_conns_def map_filter_def)

lemma kept_start: "kept dv (start_device dv)"
proof -
  have i: "kept dv (invalidate_session n dv)" for n dv
  proof -
    let ?sid = "push_bit 8 (of_nat n) + 1 :: u32"
    obtain r1 d1 where 1: "sendSessionCloseCmd ?sid dv = (r1, d1)" by fastforce
    obtain r2 d2 where 2: "sendSessionCloseCmd ?sid d1 = (r2, d2)" by fastforce
    have "kept dv d2" by (rule kept_trans [OF kept_close_cmd [OF 1] kept_close_cmd [OF 2]])
    then show ?thesis using 1 2 kept_close_cmd [OF 1] by (simp add: invalidate_session_def Let_def)
  qed
  have f: "kept dv (fold invalidate_session ns dv)" for ns dv
  proof (induction ns arbitrary: dv)
    case (Cons n ns)
    show ?case using kept_trans [OF i Cons.IH] by simp
  qed simp
  show ?thesis
  proof (cases "mciReused dv")
    case True
    show ?thesis unfolding start_device_def if_P [OF True] by (rule kept_trans [OF kept_calls(10) f])
  qed (simp add: start_device_def)
qed

lemma kept_check_version: "checkMobiCoreVersion dv = (r, dv1) \<Longrightarrow> kept dv dv1"
  by (auto simp: checkMobiCoreVersion_def split: prod.splits option.splits dest: kept_version)

lemma initDevice_kept: "initDevice b dv = Some (r, dv1) \<Longrightarrow> kept dv dv1"
  by (auto simp: initDevice_def kept_def Let_def split: option.splits if_splits prod.splits)

lemma run_cases:
  assumes r: "run_daemon b heap drivers dm = Some (Serving dm1)"
  obtains dv1 dv2 dm2 where "initDevice b (dm_device dm) = Some (True, dv1)" "checkMobiCoreVersion (start_device dv1) = (True, dv2)"
    "load_drivers heap drivers (dm\<lparr>dm_device := dv2\<rparr>) = Some dm2" "dm1 = install_token dm2"
proof -
  obtain ok dv1 where 1: "initDevice b (dm_device dm) = Some (ok, dv1)" using r by (auto simp: run_daemon_def bind_eq_Some_conv)
  obtain ok2 dv2 where 2: "checkMobiCoreVersion (start_device dv1) = (ok2, dv2)" by fastforce
  note e = r [unfolded run_daemon_def 1 Option.bind_lunit prod.case 2]
  then have "ok" "ok2" by (auto split: if_splits)
  then show thesis using that 1 2 e by auto
qed

lemma run_ok:
  assumes f: "fresh_daemon dm" and d: "drivers = [] \<or> (\<forall>n. km_results (dm_device dm) n)"
    and r: "run_daemon b heap drivers dm = Some (Serving dm1)"
  shows "daemon_ok dm1"
  using r
proof (cases rule: run_cases)
  case (1 dv1 dv2 dm2)
  have k: "kept (dm_device dm) dv2"
    by (rule kept_trans [OF kept_trans [OF initDevice_kept [OF 1(1)] kept_start] kept_check_version [OF 1(2)]])
  have "daemon_ok (dm\<lparr>dm_device := dv2\<rparr>)" by (rule kept_daemon_ok [OF fresh_ok [OF f]]) (simp_all add: k)
  then have o2: "daemon_ok dm2" by (rule load_drivers_ok [OF _ _ 1(3)]) (use d k in \<open>simp add: kept_def\<close>)
  have "daemon_ok (dm2\<lparr>dm_world := w\<rparr>)" for w by (rule kept_daemon_ok [OF o2]) simp_all
  then show ?thesis unfolding 1(4) install_token_def Let_def by (simp add: give_tokens_ok)
qed

subsection \<open>Steps\<close>

lemma step_ok:
  assumes "daemon_step dm dm1" "daemon_ok dm"
  shows "daemon_ok dm1"
  using assms
proof (induction rule: daemon_step.induct)
  case (accept dm)
  have "dm_connections dm \<notin> set (dm_clients dm)" using accept by (auto simp: daemon_ok_def books_ok_def)
  then show ?case using accept books_accept [of "set (dm_clients dm)"] by (simp add: daemon_ok_def driver_conns_def)
next
  case (command c dm header cmd heap rq inp dm')
  then show ?case using command_ok by blast
next
  case (drop c dm dm1)
  have d: "daemon_ok dm1 \<and> dm_clients dm1 = dm_clients dm \<and> c \<notin> owners (dm_device dm1)"
  proof (cases "device_set c dm")
    case True
    then obtain dv where "close_device c (dm_device dm) = Some dv" "dm1 = dm\<lparr>dm_device := dv\<rparr>"
      using drop(2) by (auto simp: dropConnection_def)
    then show ?thesis using close_device_daemon [OF drop(3)] by simp
  next
    case False
    then show ?thesis using drop by (auto simp: dropConnection_def daemon_ok_def device_set_def books_ok_def)
  qed
  then have c: "c \<in> set (dm_clients dm1)" "c \<notin> conns (dm_device dm1)" "distinct (dm_clients dm1)" "c \<notin> owners (dm_device dm1)"
    using drop(1) by (auto simp: daemon_ok_def books_ok_def)
  let ?d = "delete_connection (Some c) (dm_device dm1)"
  have o: "device_ok {#} ?d" "conns ?d = insert c (conns (dm_device dm1))" "owners ?d = owners (dm_device dm1)"
    "dv_linked ?d = dv_linked (dm_device dm1)"
    using d c(2) by (simp_all add: daemon_ok_def device_ok_def delete_connection_def session_handles_def session_conns_def conns_def owners_def)
  have "books_ok (set (dm_clients dm1) - {c}) (dm_connections dm1) (conns ?d) (driver_conns dm1) (owners (dm_device dm1))
      (set (dv_linked (dm_device dm1)))"
    by (rule books_detach [of _ _ "conns (dm_device dm1)", OF _ c(1,4)]) (use d [THEN conjunct1] o(2) in \<open>simp_all add: daemon_ok_def\<close>)
  then show ?case using d o c(3) by (simp add: daemon_ok_def detachConnection_def driver_conns_def)
next
  case (interrupt dm irq)
  have "kept (dm_device dm) (handle_irq irq (dm_device dm))" using kept_irqs [of _ "[irq]"] by simp
  then show ?case by (intro kept_daemon_ok [OF interrupt]) simp_all
next
  case (exit_handler dm dv)
  note e = close_dead_effect [OF exit_handler(1), of "{#}"]
  have s: "device_ok {#} dv" "shrinks (dm_device dm) dv" using e exit_handler(2) by (simp_all add: daemon_ok_def)
  have k: "books_ok (set (dm_clients dm)) (dm_connections dm) (conns (dm_device dm)) (driver_conns dm) (owners (dm_device dm))
      (set (dv_linked (dm_device dm)))" using exit_handler(2) by (simp add: daemon_ok_def)
  have o: "owners dv \<subseteq> set (dm_clients dm) \<inter> set (dv_linked (dm_device dm)) \<union> driver_conns dm"
    using k s(2) unfolding books_ok_def shrinks_def by blast
  have "books_ok (set (dm_clients dm)) (dm_connections dm) (conns dv) (driver_conns dm) (owners dv) (set (dv_linked (dm_device dm)))"
    by (rule books_shrink [OF k _ o]) (use s(2) in \<open>simp add: shrinks_def\<close>)
  then show ?case using exit_handler(2) s by (simp add: daemon_ok_def shrinks_def)
qed

lemma steps_ok: "daemon_step\<^sup>*\<^sup>* dm dm1 \<Longrightarrow> daemon_ok dm \<Longrightarrow> daemon_ok dm1"
  by (induction rule: rtranclp_induct) (auto intro: step_ok)

subsection \<open>Clients, connections, sessions and locks\<close>

text \<open>C1. Let the daemon have started without drivers of the secure world, or let the kernel module never fail. Then, whatever clients,
  the secure world and the interrupts do after the start: no connection is
  the notification connection of two sessions, and none that is was deleted, nor is any connection
  deleted twice; every buffer of every session holds a lock of its own; and a session belongs to a
  connection that still exists, of a client that has the device open or of a driver. (When the kernel module fails to unregister the buffer of a driver that was
  opened, its session keeps a connection that is deleted.)\<close>

theorem sessions_and_locks:
  assumes "fresh_daemon dm0" and "drivers = [] \<or> (\<forall>n. km_results (dm_device dm0) n)"
    and "run_daemon b heap drivers dm0 = Some (Serving dm)" and "daemon_step\<^sup>*\<^sup>* dm dm1" and "dv = dm_device dm1"
  shows "distinct (session_conns dv @ dv_deleted dv) \<and> mset (session_handles dv) \<subseteq># mset (km_locked dv) \<and>
    (\<forall>ts\<in>set (trustletSessions dv). \<forall>c. deviceConnection ts = Some c \<longrightarrow> c \<notin> set (dv_deleted dv) \<and>
       (c \<in> set (dm_clients dm1) \<and> c \<in> set (dv_linked dv) \<or> c \<in> fst ` set (driverResources dm1)))"
proof -
  have ok: "daemon_ok dm1" by (rule steps_ok [OF assms(4) run_ok [OF assms(1-3)]])
  have "c \<notin> set (dv_deleted dv) \<and> (c \<in> set (dm_clients dm1) \<and> c \<in> set (dv_linked dv) \<or> c \<in> fst ` set (driverResources dm1))"
    if "c \<in> owners dv" for c
    using ok that unfolding assms(5) daemon_ok_def books_ok_def driver_conns_def conns_def by blast
  then have "\<forall>ts\<in>set (trustletSessions dv). \<forall>c. deviceConnection ts = Some c \<longrightarrow> c \<notin> set (dv_deleted dv) \<and>
       (c \<in> set (dm_clients dm1) \<and> c \<in> set (dv_linked dv) \<or> c \<in> fst ` set (driverResources dm1))"
    unfolding owners_set by blast
  then show ?thesis using ok unfolding assms(5) daemon_ok_def device_ok_def by simp
qed

text \<open>A start to look at.\<close>

definition sample_boot :: boot where
  "sample_boot = \<lparr>b_open = True, b_kmod_version = True, b_mapMCI = Some ([], False), b_mci_version = Some 2, b_fcInit = True,
     b_nsiq = True, b_status = \<lambda>n. Some (if n = 0 then 0 else 2), b_yield = \<lambda>_. True, b_secure = id\<rparr>"

declare init_wait.simps [code]

lemma sample_init: "map_option fst (initDevice sample_boot sample_device) = Some True"
  by code_simp

lemma sample_version: "fst (checkMobiCoreVersion (start_device (snd (the (initDevice sample_boot sample_device)))))"
  by code_simp

lemma sample_run: "\<exists>dm. run_daemon sample_boot (\<lambda>_. 0) [] sample_daemon = Some (Serving dm)"
proof -
  obtain dv1 where 1: "initDevice sample_boot sample_device = Some (True, dv1)" using sample_init by auto
  obtain dv2 where 2: "checkMobiCoreVersion (start_device dv1) = (True, dv2)" using sample_version 1 by (cases "checkMobiCoreVersion (start_device dv1)") simp
  show ?thesis using 1 2 by (simp add: run_daemon_def sample_daemon_def)
qed

lemma sessions_and_locks_witness:
  "\<exists>dm dv. run_daemon sample_boot (\<lambda>_. 0) [] sample_daemon = Some (Serving dm) \<and> dm_device dm = dv \<and>
     distinct (session_conns dv @ dv_deleted dv)"
proof -
  obtain dm where r: "run_daemon sample_boot (\<lambda>_. 0) [] sample_daemon = Some (Serving dm)" using sample_run by blast
  have f: "fresh_daemon sample_daemon" by (simp add: fresh_daemon_def sample_daemon_def sample_device_def)
  let ?dm1 = "dm\<lparr>dm_clients := dm_clients dm @ [dm_connections dm], dm_connections := Suc (dm_connections dm)\<rparr>"
  have "daemon_step\<^sup>*\<^sup>* dm ?dm1" by (rule r_into_rtranclp) (rule daemon_step.accept)
  then show ?thesis using sessions_and_locks [OF f _ r _ refl, of ?dm1] r by simp
qed

subsection \<open>What a daemon that serves has checked\<close>

definition still_waiting :: "boot \<Rightarrow> nat \<Rightarrow> bool" where
  "still_waiting b n \<longleftrightarrow> getMobicoreStatus b n = MC_STATUS_NOT_INITIALIZED \<and> list_all (b_yield b) [10 * n..<10 * n + 10]"

lemma init_wait_step: "init_wait b n = (if still_waiting b n then init_wait b (Suc n)
    else Some (getMobicoreStatus b n = MC_STATUS_INITIALIZED))"
  by (subst init_wait.simps) (simp add: still_waiting_def)

lemma init_wait_reaches: "(\<And>m. n \<le> m \<Longrightarrow> m < n + k \<Longrightarrow> still_waiting b m) \<Longrightarrow> init_wait b n = init_wait b (n + k)"
proof (induction k)
  case (Suc k)
  then show ?case using init_wait_step [of b "n + k"] by simp
qed simp

lemma init_wait_first:
  assumes "\<not> still_waiting b m"
  shows "\<exists>k. \<not> still_waiting b k \<and> (\<forall>j<k. still_waiting b j) \<and> init_wait b 0 = Some (getMobicoreStatus b k = MC_STATUS_INITIALIZED)"
proof -
  obtain k where k: "\<not> still_waiting b k" and l: "\<And>j. j < k \<Longrightarrow> still_waiting b j"
    using LeastI [of "\<lambda>k. \<not> still_waiting b k", OF assms] not_less_Least [where P = "\<lambda>k. \<not> still_waiting b k"] by (meson notnotD)
  have "init_wait b 0 = init_wait b (0 + k)" by (rule init_wait_reaches) (use l in simp)
  also have "\<dots> = Some (getMobicoreStatus b k = MC_STATUS_INITIALIZED)" unfolding add_0 by (subst init_wait_step) (simp only: k if_False)
  finally show ?thesis using k l by blast
qed

lemma init_wait_never:
  assumes "\<And>m. still_waiting b m"
  shows "init_wait b n = None"
proof (rule ccontr)
  assume "init_wait b n \<noteq> None"
  then obtain r where r: "init_wait b n = Some r" by auto
  then have "\<exists>m. \<not> still_waiting b m"
  proof (induction rule: init_wait.raw_induct [rotated, consumes 1, case_names loop])
    case (loop rec b n r)
    show ?case
    proof (cases "still_waiting b n")
      case True
      then have "rec b (Suc n) = Some r" using loop(2) by (simp add: still_waiting_def)
      then show ?thesis by (rule loop(1))
    qed blast
  qed
  then show False using assms by blast
qed

text \<open>The set-up of the device returns unless the secure world, once it was started, says for ever that it is
  not initialised while every call that hands the processor to it works: there is no other loop, and no limit.\<close>

lemma initDevice_returns:
  "initDevice b dv = None \<longleftrightarrow> b_open b \<and> b_kmod_version b \<and> (\<exists>m. b_mapMCI b = Some (m, False)) \<and> checkMciVersion b \<and>
     b_fcInit b \<and> b_nsiq b \<and> (\<forall>n. getMobicoreStatus b n = MC_STATUS_NOT_INITIALIZED \<and> list_all (b_yield b) [10 * n..<10 * n + 10])"
proof -
  have w: "init_wait b 0 = None \<longleftrightarrow> (\<forall>n. still_waiting b n)"
    using init_wait_never init_wait_first by (metis option.distinct(1))
  show ?thesis
  proof (cases "b_mapMCI b")
    case (Some x)
    then show ?thesis using w by (cases x) (auto simp: initDevice_def still_waiting_def)
  qed (auto simp: initDevice_def)
qed

lemma initDevice_True:
  assumes "initDevice b dv = Some (True, dv1)"
  shows "checkMciVersion b \<and> (\<exists>memory reused. b_mapMCI b = Some (memory, reused) \<and>
     (reused \<or> (\<exists>n. getMobicoreStatus b n = MC_STATUS_INITIALIZED \<and> (\<forall>m<n. getMobicoreStatus b m = MC_STATUS_NOT_INITIALIZED)))) \<and>
     queueSize (nq_in (nq dv1)) = 16 \<and> queueSize (nq_out (nq dv1)) = 16"
proof -
  obtain memory reused where m: "b_mapMCI b = Some (memory, reused)" "checkMciVersion b"
    using assms by (auto simp: initDevice_def split: option.splits if_splits)
  have n: "queueSize (nq_in (nq dv1)) = 16 \<and> queueSize (nq_out (nq dv1)) = 16"
    using assms m by (auto simp: initDevice_def NotificationQueue_init_def NQ_NUM_ELEMS_def Let_def split: if_splits)
  have i: "init_wait b 0 = Some True" if "\<not> reused"
    using assms m that by (auto simp: initDevice_def split: if_splits)
  have "\<exists>n. getMobicoreStatus b n = MC_STATUS_INITIALIZED \<and> (\<forall>m<n. getMobicoreStatus b m = MC_STATUS_NOT_INITIALIZED)" if "\<not> reused"
  proof -
    have "\<exists>m. \<not> still_waiting b m"
    proof (rule ccontr)
      assume "\<nexists>m. \<not> still_waiting b m"
      then have "init_wait b 0 = None" using init_wait_never [of b 0] by blast
      then show False using i [OF that] by simp
    qed
    then obtain m where "\<not> still_waiting b m" ..
    then show ?thesis using init_wait_first [of b m] i [OF that] by (auto simp: still_waiting_def)
  qed
  then show ?thesis using m n by auto
qed

text \<open>C34. A daemon that serves has started a secure world that said it is initialised, before that only that it is
  not yet, or found one started before; the control interface has major version 0 and at least minor
  version 2, before and after the start; secure objects, load format and containers have major version 2.\<close>

theorem serving_daemon_checked:
  assumes "run_daemon b heap drivers dm = Some (Serving dm1)"
  shows "(\<exists>v. b_mci_version b = Some v \<and> drop_bit 16 v = 0 \<and> 2 \<le> v AND 0xffff) \<and>
    (\<exists>memory reused. b_mapMCI b = Some (memory, reused) \<and>
       (reused \<or> (\<exists>n. getMobicoreStatus b n = MC_STATUS_INITIALIZED \<and> (\<forall>m<n. getMobicoreStatus b m = MC_STATUS_NOT_INITIALIZED)))) \<and>
    (\<exists>dv1 r v dv2. initDevice b (dm_device dm) = Some (True, dv1) \<and> getMobiCoreVersion (start_device dv1) = ((r, Some v), dv2) \<and>
       drop_bit 16 (peek32 64 v) = 0 \<and> 2 \<le> peek32 64 v AND 0xffff \<and>
       (\<forall>off\<in>{68, 72, 76}. drop_bit 16 (peek32 off v) = 2))"
  using assms
proof (cases rule: run_cases)
  case (1 dv1 dv2 dm2)
  note i = initDevice_True [OF 1(1)]
  obtain r v where v: "getMobiCoreVersion (start_device dv1) = ((r, Some v), dv2)"
    and c: "checkVersionOkMCI (peek32 64 v)" "checkVersionOkSO (peek32 68 v)" "checkVersionOkMCLF (peek32 72 v)"
      "checkVersionOkCONTAINER (peek32 76 v)"
    using 1(2) by (auto simp: checkMobiCoreVersion_def split: prod.splits option.splits)
  note d = checkVersionOkMCI_def checkVersionOkSO_def checkVersionOkMCLF_def checkVersionOkCONTAINER_def checkVersionOk_def
    MC_GET_MAJOR_VERSION_def MC_GET_MINOR_VERSION_def
  have "\<exists>v. b_mci_version b = Some v \<and> drop_bit 16 v = 0 \<and> 2 \<le> v AND 0xffff"
    using i by (auto simp: checkMciVersion_def d split: option.splits)
  moreover have "drop_bit 16 (peek32 64 v) = 0 \<and> 2 \<le> peek32 64 v AND 0xffff \<and> (\<forall>off\<in>{68, 72, 76}. drop_bit 16 (peek32 off v) = 2)"
    using c by (simp add: d)
  ultimately show ?thesis using i 1(1) v by blast
qed

lemma serving_daemon_checked_witness: "\<exists>v. b_mci_version sample_boot = Some v \<and> 2 \<le> v AND 0xffff"
  using sample_run serving_daemon_checked [of sample_boot "\<lambda>_. 0" "[]" sample_daemon] by blast

subsection \<open>The scheduler\<close>

lemma schedule_from:
  "ts \<le> SCHEDULING_FREQ \<Longrightarrow> list_all (\<lambda>i. si_schedule i \<noteq> MC_FLAG_SCHEDULE_IDLE \<and> si_call i) is \<Longrightarrow>
   schedule ts is = map (\<lambda>k. if k mod 6 = ts then N_SIQ else Yield) [0..<length is]"
proof (induction ts "is" rule: schedule.induct)
  case (2 ts i "is")
  let ?f = "\<lambda>ts k. if k mod 6 = ts then N_SIQ else Yield"
  let ?t = "if ts = 0 then SCHEDULING_FREQ else ts - 1"
  have ih: "schedule ?t is = map (?f ?t) [0..<length is]" using 2 by (auto simp: SCHEDULING_FREQ_def)
  have m: "Suc k mod 6 = ts \<longleftrightarrow> k mod 6 = ?t" for k :: nat
  proof (cases "ts = 0")
    case True
    have "Suc k mod 6 = 0 \<longleftrightarrow> k mod 6 = 5" by presburger
    then show ?thesis using True by (simp only: SCHEDULING_FREQ_def if_True refl)
  next
    case False
    have "ts \<le> 5" using 2(4) by (simp only: SCHEDULING_FREQ_def)
    then have "(if Suc r = 6 then 0 else Suc r) = ts \<longleftrightarrow> r = ts - 1" for r using False by auto
    from this [of "k mod 6"] have "Suc k mod 6 = ts \<longleftrightarrow> k mod 6 = ts - 1" by (simp only: mod_Suc)
    then show ?thesis using False by (simp only: if_False)
  qed
  have "schedule ts (i # is) = ?f ts 0 # schedule ?t is" using 2(5) by auto
  also have "\<dots> = ?f ts 0 # map (\<lambda>k. ?f ts (Suc k)) [0..<length is]" unfolding ih m ..
  also have "\<dots> = map (?f ts) [0..<Suc (length is)]" by (rule map_upt_Suc [symmetric])
  finally show ?case by (simp only: list.size add_0_right add_Suc_right)
qed simp

text \<open>While the secure world has work and the calls of the kernel module succeed, every sixth turn of the
  scheduler, and no other, is an N-SIQ; the five between two of them hand over the processor.\<close>

lemma scheduler_beat:
  assumes "list_all (\<lambda>i. si_schedule i \<noteq> MC_FLAG_SCHEDULE_IDLE \<and> si_call i) is"
  shows "schedule SCHEDULING_FREQ is = map (\<lambda>k. if k mod 6 = 5 then N_SIQ else Yield) [0..<length is]"
  using schedule_from [OF order_refl assms] by (simp add: SCHEDULING_FREQ_def)

lemma scheduler_beat_witness:
  "schedule 5 (replicate 7 \<lparr>si_schedule = 1, si_terminate = False, si_call = True\<rparr>) = [Yield, Yield, Yield, Yield, Yield, N_SIQ, Yield]"
proof -
  have "list_all (\<lambda>i. si_schedule i \<noteq> MC_FLAG_SCHEDULE_IDLE \<and> si_call i) (replicate 7 \<lparr>si_schedule = 1, si_terminate = False, si_call = True\<rparr>)"
    by (simp add: list_all_iff)
  from scheduler_beat [OF this] show ?thesis by (simp add: SCHEDULING_FREQ_def upt_rec)
qed

end
