(* ===== verification/DeviceWaits.thy ===== *)
theory DeviceWaits
  imports DeviceCommandFacts
begin

text \<open>
  The device and its secure world: how long a command waits for an answer, what happens to the
  sessions of a client that goes away when the secure world has faulted and when it answers, and the
  sessions of dead trustlets.
\<close>

subsection \<open>The number of waits\<close>

text \<open>Interrupts neither wait nor set the fault.\<close>

definition quiet :: "device \<Rightarrow> device \<Rightarrow> bool" where
  "quiet dv dv1 \<longleftrightarrow> dv_waits dv1 = dv_waits dv \<and> mcFault dv1 = mcFault dv \<and> dv_turns dv1 = dv_turns dv"

lemma quiet_trans: "quiet dv dv1 \<Longrightarrow> quiet dv1 dv2 \<Longrightarrow> quiet dv dv2"
  by (simp add: quiet_def)

lemma quiet_handle: "quiet dv (handle_notification n dv)"
  by (simp add: quiet_def handle_notification_def signalMcpNotification_def queueUnknownNotification_def update_session_def
      write_data_def Let_def split: option.split)

lemma quiet_irq_loop: "quiet dv (irq_loop dv)"
proof (induction dv rule: irq_loop.induct)
  case (1 dv)
  obtain r q where g: "getNotification (nq dv) = (r, q)" by fastforce
  show ?case
  proof (cases r)
    case None
    then show ?thesis using g by (subst irq_loop.simps) (simp add: quiet_def)
  next
    case (Some n)
    have "quiet dv (dv\<lparr>nq := q\<rparr>)" by (simp add: quiet_def)
    then have "quiet dv (irq_loop (handle_notification n (dv\<lparr>nq := q\<rparr>)))"
      using quiet_trans [OF quiet_trans [OF _ quiet_handle] 1 [OF g [symmetric] Some]] by blast
    then show ?thesis using g Some by (subst irq_loop.simps) simp
  qed
qed

lemma quiet_irqs: "quiet dv (fold handle_irq irqs dv)"
proof (induction irqs arbitrary: dv)
  case (Cons irq irqs)
  have "quiet dv (handle_irq irq dv)"
    unfolding handle_irq_def by (rule quiet_trans [OF _ quiet_irq_loop]) (simp add: quiet_def)
  then show ?case using Cons.IH quiet_trans by simp
qed (simp add: quiet_def)

lemma wait_count:
  "mcp_wait dv = (ok, t, dv1) \<Longrightarrow> dv_waits dv1 = Suc (dv_waits dv) \<and> mcFault dv1 = mcFault dv \<and>
     dv_turns dv1 = dv_turns dv \<and> t = dv_turns dv (dv_waits dv)"
proof -
  assume w: "mcp_wait dv = (ok, t, dv1)"
  obtain b s where e: "sem_enter (mcpSessionNotification dv) = (b, s)" by fastforce
  let ?t = "dv_turns dv (dv_waits dv)"
  let ?dv1 = "dv\<lparr>dv_waits := Suc (dv_waits dv), mcpSessionNotification := s,
    mcpMessage := shared_write (mcpMessage dv) (wt_answer ?t (mcpMessage dv))\<rparr>"
  obtain s2 where d: "dv1 = (fold handle_irq (wt_irqs ?t) ?dv1)\<lparr>mcpSessionNotification := s2\<rparr>"
    using w e by (auto simp: mcp_wait_def Let_def case_prod_unfold)
  have "t = ?t" using w by (auto simp: mcp_wait_def Let_def case_prod_unfold)
  then show ?thesis using quiet_irqs [of ?dv1 "wt_irqs ?t"] by (simp add: d quiet_def)
qed

lemma wait_loop_count:
  assumes "wait_loop n dv = (r, dv1)"
  shows "dv_waits dv \<le> dv_waits dv1 \<and> dv_waits dv1 \<le> dv_waits dv + max n 1 \<and> (r = None \<longleftrightarrow> mcFault dv1) \<and>
    (mcFault dv \<longrightarrow> dv1 = dv) \<and> dv_turns dv1 = dv_turns dv \<and> (r \<noteq> None \<longrightarrow> r = Some (dv_turns dv (dv_waits dv1 - 1)))"
  using assms
proof (induction n dv rule: wait_loop.induct)
  case (1 n dv)
  obtain ok t dv2 where w: "mcp_wait dv = (ok, t, dv2)" by (metis prod.collapse)
  note k = wait_count [OF w]
  show ?case
  proof (cases "\<not> mcFault dv \<and> \<not> ok \<and> wt_status t \<noteq> MC_STATUS_HALT \<and> \<not> n - 1 < 1")
    case True
    then have "wait_loop (n - 1) dv2 = (r, dv1)" using "1.prems" w by (subst (asm) wait_loop.simps) simp
    then show ?thesis using 1(1) [OF _ w [symmetric] refl] True k by auto
  next
    case False
    then show ?thesis using "1.prems" w k by (subst (asm) wait_loop.simps) (auto split: if_splits)
  qed
qed

text \<open>C27. A command waits at most five times for the secure world. When it gives up, the device is marked as
  faulty, and every command after that fails at once, without a wait. The error of the interface means that
  it gave up, that the answer is one to another command, or that a thread of the device is exiting.\<close>

theorem exchange_waits_bounded:
  assumes "mcp_exchange cmd ws dv = (r, dv1)"
  shows "dv_waits dv1 \<le> dv_waits dv + 5 \<and> (mcFault dv1 \<longrightarrow> r = Inl MC_DRV_ERR_DAEMON_MCI_ERROR) \<and>
    (mcFault dv \<longrightarrow> mcFault dv1 \<and> dv_waits dv1 = dv_waits dv) \<and>
    (r = Inl MC_DRV_ERR_DAEMON_MCI_ERROR \<longrightarrow> mcFault dv1 \<or> rspId dv1 \<noteq> cmd OR FLAG_RESPONSE \<or>
       wt_exiting (dv_turns dv (dv_waits dv1 - 1)))"
proof -
  let ?d = "notify SID_MCP (write_mcp ((0, enc32 cmd) # ws) dv)"
  obtain x dv2 where w: "wait_loop 5 ?d = (x, dv2)" by fastforce
  have d: "dv_waits ?d = dv_waits dv" "mcFault ?d = mcFault dv" "dv_turns ?d = dv_turns dv" by (simp_all add: write_mcp_def)
  have "dv1 = dv2 \<and> (x = None \<longrightarrow> r = Inl MC_DRV_ERR_DAEMON_MCI_ERROR) \<and>
      (r = Inl MC_DRV_ERR_DAEMON_MCI_ERROR \<and> x \<noteq> None \<longrightarrow> rspId dv1 \<noteq> cmd OR FLAG_RESPONSE \<or> wt_exiting (the x))"
    using assms w by (auto simp: mcp_exchange_def mshNotifyAndWait_def waitMcpNotification_def split: option.splits prod.splits if_splits)
  then show ?thesis using wait_loop_count [OF w] d by auto
qed

lemma exchange_waits_bounded_witness:
  "fst (mcp_exchange MC_MCP_CMD_CLOSE_SESSION [(4, enc32 0x301)] (sample_device\<lparr>mcFault := True\<rparr>)) = Inl MC_DRV_ERR_DAEMON_MCI_ERROR"
proof -
  obtain r dv1 where e: "mcp_exchange MC_MCP_CMD_CLOSE_SESSION [(4, enc32 0x301)] (sample_device\<lparr>mcFault := True\<rparr>) = (r, dv1)" by fastforce
  then show ?thesis using exchange_waits_bounded [OF e] by simp
qed

subsection \<open>Closing with a faulty secure world\<close>

lemma exchange_fault:
  assumes "mcFault dv" "mcp_exchange cmd ws dv = (r, dv1)"
  shows "r = Inl MC_DRV_ERR_DAEMON_MCI_ERROR \<and> mcFault dv1"
proof -
  let ?d = "notify SID_MCP (write_mcp ((0, enc32 cmd) # ws) dv)"
  have "mcFault ?d" using assms(1) by (simp add: write_mcp_def)
  then have "wait_loop 5 ?d = (None, ?d)" by (subst wait_loop.simps) simp
  then show ?thesis using assms(2) \<open>mcFault ?d\<close> by (auto simp: mcp_exchange_def mshNotifyAndWait_def waitMcpNotification_def)
qed

lemma close_internal_fault:
  assumes "mcFault dv" "closeSessionInternal ts dv = (r, dv1)"
  shows "r = MAKE_MC_DRV_MCP_ERROR MC_DRV_ERR_DAEMON_MCI_ERROR \<and> mcFault dv1"
proof -
  obtain x d where x: "mcp_exchange MC_MCP_CMD_CLOSE_SESSION [(4, enc32 (sessionId ts))] dv = (x, d)" by fastforce
  then show ?thesis using exchange_fault [OF assms(1) x] assms(2)
    by (simp add: closeSessionInternal_def sendSessionCloseCmd_def)
qed

lemma mcp_errors_differ: "MAKE_MC_DRV_MCP_ERROR MC_DRV_ERR_DAEMON_MCI_ERROR \<noteq> MAKE_MC_DRV_MCP_ERROR MC_MCP_RET_ERR_CLOSE_TASK_FAILED"
  by (simp add: MAKE_MC_DRV_MCP_ERROR_def)

text \<open>No session is closed then; one of level 1 is disconnected.\<close>

definition stuck :: "connection \<Rightarrow> device \<Rightarrow> bool" where
  "stuck c dv \<longleftrightarrow> device_ok {#} dv \<and> mcFault dv \<and> (\<exists>t\<in>set (trustletSessions dv). deviceConnection t = Some c \<and> gp_level t \<noteq> 1)"

lemma stuck_kept: "stuck c dv \<Longrightarrow> kept dv dv1 \<Longrightarrow> mcFault dv1 \<Longrightarrow> stuck c dv1"
proof -
  assume s: "stuck c dv" and k: "kept dv dv1" and m: "mcFault dv1"
  obtain t where t: "t \<in> set (trustletSessions dv)" "deviceConnection t = Some c" "gp_level t \<noteq> 1" using s by (auto simp: stuck_def)
  have "bare ` set (trustletSessions dv1) = bare ` set (trustletSessions dv)" using k by (metis kept_def set_map)
  then obtain t1 where t1: "t1 \<in> set (trustletSessions dv1)" "bare t1 = bare t" using t(1) by (metis imageE imageI)
  have "deviceConnection t1 = Some c" "gp_level t1 \<noteq> 1"
    using arg_cong [OF t1(2), of deviceConnection] arg_cong [OF t1(2), of gp_level] t(2,3) by simp_all
  then show ?thesis using s m kept_ok [OF k] t1(1) by (auto simp: stuck_def)
qed

lemma stuck_disconnect:
  assumes s: "stuck c dv" and a: "session_at (ts_addr ts) dv = Some ts" and g: "gp_level ts = 1"
  shows "stuck c (disconnect_session ts dv)"
proof -
  have ok: "device_ok {#} dv" using s by (simp add: stuck_def)
  obtain t where t: "t \<in> set (trustletSessions dv)" "deviceConnection t = Some c" "gp_level t \<noteq> 1" using s by (auto simp: stuck_def)
  have at: "session_at (ts_addr t) dv = Some t" by (rule session_atI [OF _ t(1)]) (use ok in \<open>simp add: device_ok_def\<close>)
  have "ts_addr t \<noteq> ts_addr ts"
  proof
    assume "ts_addr t = ts_addr ts"
    then have "t = ts" using at a by (metis option.inject)
    then show False using g t(3) by blast
  qed
  then have "bare t \<in> bare ` set (trustletSessions (disconnect_session ts dv))"
    using disconnect_effect(2) [OF ok a] t(1) by (simp add: keeps_but_def)
  then obtain t1 where t1: "t1 \<in> set (trustletSessions (disconnect_session ts dv))" "bare t1 = bare t" by (metis imageE)
  have "deviceConnection t1 = Some c" "gp_level t1 \<noteq> 1"
    using arg_cong [OF t1(2), of deviceConnection] arg_cong [OF t1(2), of gp_level] t(2,3) by simp_all
  moreover have "mcFault (disconnect_session ts dv)" using s by (simp add: stuck_def disconnect_session_def delete_connection_def split: option.split)
  ultimately show ?thesis using disconnect_ok [OF ok a] t1(1) by (auto simp: stuck_def)
qed

lemma stuck_close:
  assumes s: "stuck c dv" and c: "closeSession c sid dv = Some (r, dv1)"
  shows "stuck c dv1"
proof (cases "findSession c sid dv")
  case None
  then show ?thesis using s c by (simp add: closeSession_def)
next
  case (Some ts)
  have ok: "device_ok {#} dv" using s by (simp add: stuck_def)
  note f = findSession_Some [OF ok Some]
  define d1 where "d1 = (if gp_level ts = 1 then disconnect_session ts dv else dv)"
  have 1: "stuck c d1" using s stuck_disconnect [OF s f(1)] by (simp add: d1_def)
  obtain m d2 where 2: "closeSessionInternal ts d1 = (m, d2)" by fastforce
  have m: "m = MAKE_MC_DRV_MCP_ERROR MC_DRV_ERR_DAEMON_MCI_ERROR" "mcFault d2"
    using close_internal_fault [OF _ 2] 1 by (simp_all add: stuck_def)
  have "dv1 = d2"
    using c [unfolded closeSession_def Some option.case Let_def d1_def [symmetric] 2 prod.case m(1)] mcp_errors_differ by simp
  then show ?thesis using stuck_kept [OF 1 kept_close_internal [OF 2] m(2)] by simp
qed

lemma stuck_last: "stuck c dv \<Longrightarrow> last_session c dv \<noteq> None"
  by (auto simp: stuck_def last_session_def find_None_iff)

lemma stuck_never: "close_sessions c dv = Some dv1 \<Longrightarrow> \<not> stuck c dv"
proof (induction rule: close_sessions_induct)
  case (loop rec c dv dv1)
  show ?case
  proof
    assume s: "stuck c dv"
    obtain ts where "last_session c dv = Some ts" using stuck_last [OF s] by auto
    then obtain r d where d: "closeSession c (sessionId ts) dv = Some (r, d)" "rec c d = Some dv1"
      using loop(2) by (auto simp: bind_eq_Some_conv)
    show False using loop(1) [OF d(2)] stuck_close [OF s d(1)] by blast
  qed
qed

subsection \<open>Dead trustlets\<close>

lemma close_dead_locks: "close_dead dv = Some dv1 \<Longrightarrow> km_locked dv1 = km_locked dv \<and> (\<forall>t\<in>set (trustletSessions dv1). sessionState t \<noteq> TS_TA_DEAD)"
proof (induction rule: close_dead_induct)
  case (loop rec dv dv1)
  show ?case
  proof (cases "find (\<lambda>ts. sessionState ts = TS_TA_DEAD) (trustletSessions dv)")
    case None
    then have "dv1 = dv" using loop(2) by simp
    then show ?thesis using None by (auto simp: find_None_iff)
  next
    case (Some ts)
    obtain r d where s: "closeSessionInternal ts dv = (r, d)" by fastforce
    let ?d = "if r = MC_DRV_OK then delete_session (ts_addr ts) d else d"
    have rec: "rec ?d = Some dv1" using loop(2) Some s by simp
    have "km_locked ?d = km_locked dv" using kept_close_internal [OF s] by (simp add: kept_def)
    then show ?thesis using loop(1) [OF rec] by metis
  qed
qed

end
