(* ===== verification/ClosingFacts.thy ===== *)
theory ClosingFacts
  imports DaemonFacts DeviceWaits
begin

text \<open>
  A client that goes away, a trustlet that dies, and a client that connects for its notifications: what
  the daemon does then, with a secure world that answers and with one that does not.
\<close>

subsection \<open>A secure world that closes sessions\<close>

text \<open>In each wait an interrupt comes with the notification of an answer, which says that the session is closed.\<close>

definition closes_sessions :: "wait_turn \<Rightarrow> bool" where
  "closes_sessions t \<longleftrightarrow> wt_irqs t = [queue_put \<lparr>n_sessionId = SID_MCP, n_payload = 0\<rparr>] \<and> \<not> wt_exiting t \<and>
     (\<forall>b. \<exists>rest. wt_answer t b = enc32 (MC_MCP_CMD_CLOSE_SESSION OR FLAG_RESPONSE) @ enc32 MC_MCP_RET_OK @ rest)"

definition answering :: "device \<Rightarrow> bool" where
  "answering dv \<longleftrightarrow> \<not> mcFault dv \<and> queue_ok (nq_in (nq dv)) \<and> pending (nq_in (nq dv)) = 0 \<and> 0 \<le> m_count (mcpSessionNotification dv) \<and>
     8 \<le> length (mcpMessage dv) \<and> (\<forall>n. closes_sessions (dv_turns dv n))"

lemma one_notification:
  assumes q: "queue_ok (nq_in q)" and c: "contents (nq_in q) = [n]"
  obtains q1 where "getNotification q = (Some n, q1)" "queue_ok (nq_in q1)" "pending (nq_in q1) = 0" "getNotification q1 = (None, q1)"
proof -
  obtain r q1 where g: "queue_get (nq_in q) = (r, q1)" by fastforce
  have i: "r = Some n" "contents q1 = []" "queue_ok q1"
    using queue_get_ok [OF q] c g by (auto split: option.splits)
  have p: "pending q1 = 0" using i(2) length_contents [of q1] by simp
  have n: "queue_get q1 = (None, q1)" using p by (simp add: queue_get_def pending_def word_neq_0_conv [symmetric] unat_eq_zero)
  show thesis by (rule that [of "q\<lparr>nq_in := q1\<rparr>"]) (use g i p n in \<open>simp_all add: getNotification_def\<close>)
qed

text \<open>The interrupt signals the wait and touches no session.\<close>

lemma irq_answer:
  assumes q: "queue_ok (nq_in (nq dv))" "pending (nq_in (nq dv)) = 0"
  shows "\<exists>q. handle_irq (queue_put \<lparr>n_sessionId = SID_MCP, n_payload = p\<rparr>) dv = signalMcpNotification (dv\<lparr>nq := q\<rparr>) \<and>
    queue_ok (nq_in q) \<and> pending (nq_in q) = 0"
proof -
  let ?n = "\<lparr>n_sessionId = SID_MCP, n_payload = p\<rparr>"
  let ?q = "(nq dv)\<lparr>nq_in := queue_put ?n (nq_in (nq dv))\<rparr>"
  have e: "contents (nq_in (nq dv)) = []" using q(2) by (simp add: contents_def)
  obtain k where k: "unat (queueSize (nq_in (nq dv))) = 2 ^ k" using queue_ok_size [OF q(1)] by auto
  have "queue_ok (nq_in ?q)" "contents (nq_in ?q) = [?n]" using queue_put_ok [OF q(1)] q(2) k e by simp_all
  then obtain q1 where g: "getNotification ?q = (Some ?n, q1)" "queue_ok (nq_in q1)" "pending (nq_in q1) = 0" "getNotification q1 = (None, q1)"
    using one_notification by blast
  let ?d = "signalMcpNotification (dv\<lparr>nq := q1\<rparr>)"
  have "irq_loop ?d = ?d" using g(4) by (subst irq_loop.simps) (simp add: signalMcpNotification_def)
  then have "handle_irq (queue_put ?n) dv = ?d"
    unfolding handle_irq_def using g(1) by (subst irq_loop.simps) (simp add: handle_notification_def)
  then show ?thesis using g(2,3) by blast
qed

lemma wait_answer:
  assumes a: "answering dv"
  shows "\<exists>dv1. wait_loop n dv = (Some (dv_turns dv (dv_waits dv)), dv1) \<and> answering dv1 \<and>
    trustletSessions dv1 = trustletSessions dv \<and> rspId dv1 = MC_MCP_CMD_CLOSE_SESSION OR FLAG_RESPONSE \<and> rsp_result dv1 = MC_MCP_RET_OK"
proof -
  let ?t = "dv_turns dv (dv_waits dv)"
  let ?m = "shared_write (mcpMessage dv) (wt_answer ?t (mcpMessage dv))"
  have t: "closes_sessions ?t" using a by (simp add: answering_def)
  obtain b s where e: "sem_enter (mcpSessionNotification dv) = (b, s)" by fastforce
  have s: "m_count s = m_count (mcpSessionNotification dv)" "b = (m_count s = 0)" using e by (auto simp: sem_enter_def)
  let ?d = "dv\<lparr>dv_waits := Suc (dv_waits dv), mcpSessionNotification := s, mcpMessage := ?m\<rparr>"
  obtain q where q: "handle_irq (queue_put \<lparr>n_sessionId = SID_MCP, n_payload = 0\<rparr>) ?d = signalMcpNotification (?d\<lparr>nq := q\<rparr>)"
    "queue_ok (nq_in q)" "pending (nq_in q) = 0"
    using irq_answer [of ?d 0] a by (auto simp: answering_def)
  obtain s2 where s2: "sem_leave True (sem_signal s) = (True, s2)" by (simp add: sem_leave_def Let_def)
  have m2: "0 \<le> m_count s2" using s2 a s(1) by (auto simp: sem_leave_def sem_signal_def Let_def answering_def)
  let ?d1 = "(signalMcpNotification (?d\<lparr>nq := q\<rparr>))\<lparr>mcpSessionNotification := s2\<rparr>"
  have pos: "\<not> b \<or> 0 < m_count (sem_signal s) \<or> wt_spurious ?t" using s a by (auto simp: sem_signal_def answering_def)
  have w: "mcp_wait dv = (True, ?t, ?d1)"
    using t q(1) s2 pos by (simp add: mcp_wait_def Let_def e closes_sessions_def signalMcpNotification_def)
  have "wait_loop n dv = (Some ?t, ?d1)" using a w by (subst wait_loop.simps) (simp add: answering_def)
  moreover obtain rest where r: "wt_answer ?t (mcpMessage dv) = enc32 (MC_MCP_CMD_CLOSE_SESSION OR FLAG_RESPONSE) @ enc32 MC_MCP_RET_OK @ rest"
    using t by (auto simp: closes_sessions_def)
  have l: "length ?m = length (mcpMessage dv)" by (simp add: shared_write_def)
  have h: "take 8 ?m = enc32 (MC_MCP_CMD_CLOSE_SESSION OR FLAG_RESPONSE) @ enc32 MC_MCP_RET_OK"
  proof -
    obtain k where "length (mcpMessage dv) = 8 + k" using a by (metis answering_def le_Suc_ex)
    then show ?thesis by (simp add: shared_write_def r)
  qed
  have "rspId ?d1 = MC_MCP_CMD_CLOSE_SESSION OR FLAG_RESPONSE \<and> rsp_result ?d1 = MC_MCP_RET_OK"
  proof -
    have "take 4 ?m = take 4 (take 8 ?m)" "take 4 (drop 4 ?m) = drop 4 (take 8 ?m)" by (simp_all add: take_drop)
    then show ?thesis unfolding h by (simp add: rspId_def rsp_result_def peek32_def signalMcpNotification_def)
  qed
  moreover have "answering ?d1 \<and> trustletSessions ?d1 = trustletSessions dv"
    using a q(2,3) m2 l by (simp add: answering_def signalMcpNotification_def)
  ultimately show ?thesis by blast
qed

lemma close_answer:
  assumes a: "answering dv" and c: "closeSessionInternal ts dv = (r, dv1)"
  shows "r = MC_MCP_RET_OK \<and> answering dv1 \<and> trustletSessions dv1 = trustletSessions dv"
proof -
  let ?ws = "[(0, enc32 MC_MCP_CMD_CLOSE_SESSION), (4, enc32 (sessionId ts))]"
  let ?d = "notify SID_MCP (write_mcp ?ws dv)"
  have l: "length (poke off d b) = max (length b) (off + length d)" if "off \<le> length b" for off d and b :: bytes
    using that by (auto simp: poke_def)
  have d: "answering ?d" "trustletSessions ?d = trustletSessions dv"
    using a l by (simp_all add: answering_def write_mcp_def)
  obtain dv2 where w: "wait_loop 5 ?d = (Some (dv_turns ?d (dv_waits ?d)), dv2)" "answering dv2" "trustletSessions dv2 = trustletSessions ?d"
    "rspId dv2 = MC_MCP_CMD_CLOSE_SESSION OR FLAG_RESPONSE" "rsp_result dv2 = MC_MCP_RET_OK"
    using wait_answer [OF d(1)] by blast
  have e: "\<not> wt_exiting (dv_turns ?d (dv_waits ?d))" using d(1) by (simp add: answering_def closes_sessions_def)
  have "mcp_exchange MC_MCP_CMD_CLOSE_SESSION [(4, enc32 (sessionId ts))] dv = (Inr MC_MCP_RET_OK, dv2)"
    using w e by (simp add: mcp_exchange_def mshNotifyAndWait_def waitMcpNotification_def)
  then show ?thesis using c w(2,3) d(2) by (simp add: closeSessionInternal_def sendSessionCloseCmd_def)
qed

subsection \<open>Closing the device of a client\<close>

lemma answering_frame:
  "nq_in (nq dv1) = nq_in (nq dv) \<Longrightarrow> mcFault dv1 = mcFault dv \<Longrightarrow> m_count (mcpSessionNotification dv1) = m_count (mcpSessionNotification dv) \<Longrightarrow>
   mcpMessage dv1 = mcpMessage dv \<Longrightarrow> dv_turns dv1 = dv_turns dv \<Longrightarrow> answering dv1 = answering dv"
  by (simp add: answering_def)

lemma answering_disconnect: "answering (disconnect_session ts dv) = answering dv"
  by (rule answering_frame) (simp_all add: disconnect_session_def delete_connection_def update_session_def split: option.split)

lemma answering_unlock_all: "answering (unlock_all hs dv) = answering dv"
proof (induction hs arbitrary: dv)
  case (Cons h hs)
  have "answering (snd (unlockWsmL2 h dv)) = answering dv"
    by (rule answering_frame) (simp_all add: unlockWsmL2_def km_call_def)
  then show ?case using Cons.IH by simp
qed simp

lemma answering_free:
  assumes "freeSession a dv = Some dv1"
  shows "answering dv1 = answering dv"
proof -
  obtain hs ts1 where d: "dv1 = delete_session a (unlock_all hs (update_session a (\<lambda>_. ts1) dv))"
    using assms by (auto simp: freeSession_def split: option.splits)
  have "answering (delete_session a d) = answering d" "answering (update_session a f d) = answering d" for f d
    by (rule answering_frame, simp_all add: delete_session_def delete_connection_def update_session_def split: option.split)+
  then show ?thesis unfolding d by (simp add: answering_unlock_all)
qed

lemma find_by_id:
  assumes "distinct (map sessionId xs)" "t \<in> set xs"
  shows "find (\<lambda>ts. sessionId ts = sessionId t) xs = Some t"
  using assms by (induction xs) (auto simp: image_iff)

text \<open>A session that can be closed is closed and gone.\<close>

lemma closeSession_answer:
  assumes a: "answering dv" and ok: "device_ok E dv" and d: "distinct (map sessionId (trustletSessions dv))"
    and t: "ts \<in> set (trustletSessions dv)" "deviceConnection ts = Some c"
  obtains dv1 where "closeSession c (sessionId ts) dv = Some (MC_MCP_RET_OK, dv1)" "answering dv1"
    "trustletSessions dv1 = filter (\<lambda>t. ts_addr t \<noteq> ts_addr ts) (trustletSessions dv)"
proof -
  let ?a = "ts_addr ts"
  have f: "findSession c (sessionId ts) dv = Some ts"
    using find_by_id [OF d t(1)] t(2) by (simp add: findSession_def getTrustletSession_def)
  note fs = findSession_Some [OF ok f]
  define d1 where "d1 = (if gp_level ts = 1 then disconnect_session ts dv else dv)"
  have 1: "answering d1" "device_ok E d1" "\<exists>t. session_at ?a d1 = Some t" "filter (\<lambda>t. ts_addr t \<noteq> ?a) (trustletSessions d1) = filter (\<lambda>t. ts_addr t \<noteq> ?a) (trustletSessions dv)"
  proof -
    show "answering d1" using a by (simp add: d1_def answering_disconnect)
    show "device_ok E d1" "\<exists>t. session_at ?a d1 = Some t"
      using disconnect_ok [OF ok fs(1)] disconnect_effect(3) [OF ok fs(1)] ok fs(1) by (simp_all add: d1_def)
    have e: "trustletSessions (disconnect_session ts dv) = map (\<lambda>t. if ts_addr t = ?a
        then t\<lparr>deviceConnection := None, notificationConnection := None, sessionState := TS_CLOSE_SEND\<rparr> else t) (trustletSessions dv)"
      by (simp add: disconnect_session_def delete_connection_def update_session_def split: option.split)
    have fl: "filter (\<lambda>t. ts_addr t \<noteq> ?a) (map (\<lambda>t. if ts_addr t = ?a
        then t\<lparr>deviceConnection := None, notificationConnection := None, sessionState := TS_CLOSE_SEND\<rparr> else t) xs) =
        filter (\<lambda>t. ts_addr t \<noteq> ?a) xs" for xs by (induction xs) auto
    show "filter (\<lambda>t. ts_addr t \<noteq> ?a) (trustletSessions d1) = filter (\<lambda>t. ts_addr t \<noteq> ?a) (trustletSessions dv)"
    proof (cases "gp_level ts = 1")
      case True
      show ?thesis unfolding d1_def if_P [OF True] e by (rule fl)
    qed (simp add: d1_def)
  qed
  obtain m d2 where 2: "closeSessionInternal ts d1 = (m, d2)" by fastforce
  note c = close_answer [OF 1(1) 2]
  have o2: "device_ok E d2" using kept_ok [OF kept_close_internal [OF 2]] 1(2) by simp
  obtain t2 where s2: "session_at ?a d2 = Some t2" using 1(3) c by (auto simp: session_at_def)
  obtain d3 where 3: "freeSession ?a d2 = Some d3" "trustletSessions d3 = filter (\<lambda>t. ts_addr t \<noteq> ?a) (trustletSessions d2)"
    by (rule freeSession_ok [OF o2 s2])
  have "closeSession c (sessionId ts) dv = Some (MC_MCP_RET_OK, d3)"
    using c 3(1) by (simp add: closeSession_def f Let_def d1_def [symmetric] 2)
  then show thesis by (rule that) (use 3 answering_free [OF 3(1)] c 1(4) in simp_all)
qed

lemma last_session_Some:
  assumes "last_session c dv = Some ts"
  shows "ts \<in> set (trustletSessions dv) \<and> deviceConnection ts = Some c"
proof -
  obtain i where "i < length (rev (trustletSessions dv))" "rev (trustletSessions dv) ! i = ts" "deviceConnection ts = Some c"
    using assms by (auto simp: last_session_def find_Some_iff)
  then show ?thesis by (metis nth_mem set_rev)
qed

lemma close_sessions_answer:
  assumes "answering dv" "device_ok E dv" "distinct (map sessionId (trustletSessions dv))"
  shows "\<exists>dv1. close_sessions c dv = Some dv1 \<and> trustletSessions dv1 = filter (\<lambda>t. deviceConnection t \<noteq> Some c) (trustletSessions dv)"
  using assms
proof (induction "length (trustletSessions dv)" arbitrary: dv rule: less_induct)
  case less
  show ?case
  proof (cases "last_session c dv")
    case None
    then have "filter (\<lambda>t. deviceConnection t \<noteq> Some c) (trustletSessions dv) = trustletSessions dv"
      by (auto simp: last_session_def find_None_iff intro!: filter_True)
    then show ?thesis using None by (subst close_sessions.simps) simp
  next
    case (Some ts)
    note t = last_session_Some [OF Some]
    obtain dv1 where c: "closeSession c (sessionId ts) dv = Some (MC_MCP_RET_OK, dv1)" "answering dv1"
      "trustletSessions dv1 = filter (\<lambda>t. ts_addr t \<noteq> ts_addr ts) (trustletSessions dv)"
      by (rule closeSession_answer [OF less.prems t [THEN conjunct1] t [THEN conjunct2]])
    have l: "length (trustletSessions dv1) < length (trustletSessions dv)"
      unfolding c(3) by (rule length_filter_less [OF t [THEN conjunct1]]) simp
    have o: "device_ok E dv1" using closeSession_effect [OF less.prems(2) c(1)] by simp
    have di: "distinct (map sessionId (trustletSessions dv1))" using less.prems(3) by (simp add: c(3) distinct_map_filter)
    obtain dv2 where r: "close_sessions c dv1 = Some dv2"
      "trustletSessions dv2 = filter (\<lambda>t. deviceConnection t \<noteq> Some c) (trustletSessions dv1)"
      using less.hyps [OF l c(2) o di] by blast
    have "deviceConnection x = Some c" if "x \<in> set (trustletSessions dv)" "ts_addr x = ts_addr ts" for x
    proof -
      have di: "distinct (map ts_addr (trustletSessions dv))" using less.prems(2) by (simp add: device_ok_def)
      have "session_at (ts_addr x) dv = Some x" "session_at (ts_addr ts) dv = Some ts"
        using session_atI [OF di that(1)] session_atI [OF di t [THEN conjunct1]] by simp_all
      then show ?thesis using that(2) t by (metis option.inject)
    qed
    then have "filter (\<lambda>t. deviceConnection t \<noteq> Some c) (trustletSessions dv1) = filter (\<lambda>t. deviceConnection t \<noteq> Some c) (trustletSessions dv)"
      unfolding c(3) filter_filter by (intro filter_cong) auto
    then show ?thesis using r Some c(1) by (subst close_sessions.simps) simp
  qed
qed

text \<open>C16. When a client goes away and the secure world answers, the daemon closes all its sessions and only these, whatever
  their number and level: the sessions of the others stay as they are, in their order.\<close>

theorem dropped_client_sessions_closed:
  assumes "daemon_ok dm" and "answering (dm_device dm)" and "distinct (map sessionId (trustletSessions (dm_device dm)))"
    and "device_set c dm"
  shows "\<exists>dm1. dropConnection c dm = Some dm1 \<and> \<not> device_set c dm1 \<and>
    trustletSessions (dm_device dm1) = filter (\<lambda>ts. deviceConnection ts \<noteq> Some c) (trustletSessions (dm_device dm))"
proof -
  have ok: "device_ok {#} (dm_device dm)" using assms(1) by (simp add: daemon_ok_def)
  obtain dv1 where c: "close_sessions c (dm_device dm) = Some dv1"
    "trustletSessions dv1 = filter (\<lambda>t. deviceConnection t \<noteq> Some c) (trustletSessions (dm_device dm))"
    using close_sessions_answer [OF assms(2) ok assms(3)] by blast
  obtain dv2 where d: "close_device c (dm_device dm) = Some dv2" "trustletSessions dv2 = trustletSessions dv1"
    using c(1) by (simp add: close_device_def cleanupWsmL2_def km_call_def)
  have "c \<notin> set (dv_linked dv2)" using close_device_daemon [OF assms(1) d(1)] by blast
  then show ?thesis using assms(4) d c(2) by (simp add: dropConnection_def device_set_def)
qed

definition closing_turn :: wait_turn where
  "closing_turn = \<lparr>wt_irqs = [queue_put \<lparr>n_sessionId = SID_MCP, n_payload = 0\<rparr>], wt_spurious = False,
     wt_answer = \<lambda>_. enc32 (MC_MCP_CMD_CLOSE_SESSION OR FLAG_RESPONSE) @ enc32 MC_MCP_RET_OK, wt_status = 2, wt_exiting = False\<rparr>"

definition closing_device :: "session list \<Rightarrow> device" where
  "closing_device ts = sample_device\<lparr>dv_turns := \<lambda>_. closing_turn, mcpMessage := replicate 144 0, trustletSessions := ts, dv_next := 1,
     dv_linked := [1, 0]\<rparr>"

lemma closing_device_answering: "answering (closing_device ts)"
proof -
  have "queue_ok wrapping_queue" "pending wrapping_queue = 0"
    by (auto simp: queue_ok_def wrapping_queue_def pending_def intro: exI [of _ 4])
  then show ?thesis
    by (simp add: answering_def closing_device_def sample_device_def CSemaphore_init_def closes_sessions_def closing_turn_def)
qed

lemma dropped_client_sessions_closed_witness:
  "\<exists>dm1. dropConnection 1 (two_clients\<lparr>dm_device := closing_device [new_session 0 1 0x301 7]\<rparr>) = Some dm1 \<and> trustletSessions (dm_device dm1) = []"
proof -
  let ?dm = "two_clients\<lparr>dm_device := closing_device [new_session 0 1 0x301 7]\<rparr>"
  have "daemon_ok ?dm"
    by (auto simp: two_clients_def daemon_ok_def device_ok_def books_ok_def session_handles_def session_conns_def conns_def owners_def
        driver_conns_def sample_daemon_def sample_device_def new_session_def handles_def buffers_ok_def map_filter_def closing_device_def)
  then show ?thesis
    using dropped_client_sessions_closed [of ?dm 1] closing_device_answering
    by (simp add: device_set_def) (auto simp: closing_device_def new_session_def)
qed

text \<open>C25. When a client that has a session below level 1 goes away or closes its device, and the secure world has faulted,
  the daemon never gets out of closing its sessions.\<close>

theorem closing_hangs_after_fault:
  assumes "daemon_ok dm" and "mcFault (dm_device dm)" and "device_set c dm"
    and "ts \<in> set (trustletSessions (dm_device dm))" and "deviceConnection ts = Some c" and "gp_level ts \<noteq> 1"
  shows "dropConnection c dm = None \<and> processCloseDevice c dm = None"
proof -
  have "stuck c (dm_device dm)" using assms by (auto simp: stuck_def daemon_ok_def)
  then have "close_sessions c (dm_device dm) = None" using stuck_never by (cases "close_sessions c (dm_device dm)") auto
  then show ?thesis using assms(3) by (simp add: dropConnection_def processCloseDevice_def with_device_def close_device_def)
qed

lemma closing_hangs_after_fault_witness:
  "dropConnection 1 (on_device (\<lambda>dv. dv\<lparr>mcFault := True\<rparr>) two_clients) = None"
proof -
  let ?dm = "on_device (\<lambda>dv. dv\<lparr>mcFault := True\<rparr>) two_clients"
  have ok: "daemon_ok ?dm" by (rule kept_daemon_ok [OF two_clients_ok]) simp_all
  show ?thesis
    using closing_hangs_after_fault [OF ok, of 1 "(new_session 0 1 0x301 7)\<lparr>ts_notifications := [\<lparr>n_sessionId = 0x301, n_payload = 0\<rparr>]\<rparr>"]
    by (simp add: two_clients_def device_set_def new_session_def)
qed

text \<open>The exit handler takes all sessions of dead trustlets off the list, and releases no lock of their buffers.\<close>

lemma dead_sessions_leave_locks:
  assumes "close_dead dv = Some dv1"
  shows "(\<forall>t\<in>set (trustletSessions dv1). sessionState t \<noteq> TS_TA_DEAD) \<and> km_locked dv1 = km_locked dv"
  using close_dead_locks [OF assms] by blast

lemma dead_sessions_leave_locks_witness:
  "\<exists>dv1. close_dead ((closing_device [(new_session 0 1 0x301 7)\<lparr>sessionState := TS_TA_DEAD, gp_level := 1,
       buffers := [(5, \<lparr>wsm_len = 4096, wsm_handle = 5, wsm_physAddr = 0\<rparr>)]\<rparr>])\<lparr>km_locked := [5]\<rparr>) = Some dv1 \<and>
     trustletSessions dv1 = [] \<and> km_locked dv1 = [5]"
proof -
  let ?ts = "(new_session 0 1 0x301 7)\<lparr>sessionState := TS_TA_DEAD, gp_level := 1,
       buffers := [(5, \<lparr>wsm_len = 4096, wsm_handle = 5, wsm_physAddr = 0\<rparr>)]\<rparr>"
  let ?dv = "(closing_device [?ts])\<lparr>km_locked := [5]\<rparr>"
  have a: "answering ?dv" using closing_device_answering [of "[?ts]"] by (simp add: answering_def)
  obtain r d where c: "closeSessionInternal ?ts ?dv = (r, d)" by fastforce
  note e = close_answer [OF a c]
  let ?d = "delete_session 0 d"
  have t: "trustletSessions ?dv = [?ts]" by (simp add: closing_device_def)
  have d: "trustletSessions ?d = []"
    using e t by (simp add: delete_session_def session_at_def delete_connection_def new_session_def)
  have "close_dead ?d = Some ?d" using d by (subst close_dead.simps) simp
  then have s: "close_dead ?dv = Some ?d"
    using t e c by (subst close_dead.simps) (simp add: new_session_def)
  show ?thesis using dead_sessions_leave_locks [OF s] s d by simp
qed

subsection \<open>Notifications of a client\<close>

lemma find_map: "(\<And>t. P (f t) = P t) \<Longrightarrow> find P (map f xs) = map_option f (find P xs)"
  by (induction xs) auto

lemma register_found:
  assumes ok: "device_ok E dv" and t: "ts \<in> set (trustletSessions dv)" "of_nat (ts_addr ts) = did" "sessionMagic ts = magic" "sessionId ts = sid"
    and a: "\<forall>t\<in>set (trustletSessions dv). ts_addr t < 2 ^ 32"
  shows "registerTrustletConnection c sid did magic dv = (Some (ts_addr ts), update_session (ts_addr ts) (\<lambda>t. t\<lparr>notificationConnection := Some c\<rparr>) dv)"
proof -
  have d: "distinct (map ts_addr (trustletSessions dv))" using ok by (simp add: device_ok_def)
  obtain t where f: "find (\<lambda>ts. of_nat (ts_addr ts) = did \<and> sessionMagic ts = magic \<and> sessionId ts = sid) (trustletSessions dv) = Some t"
    using t by (cases "find (\<lambda>ts. of_nat (ts_addr ts) = did \<and> sessionMagic ts = magic \<and> sessionId ts = sid) (trustletSessions dv)")
      (auto simp: find_None_iff)
  then have m: "t \<in> set (trustletSessions dv)" "(of_nat (ts_addr t) :: u32) = of_nat (ts_addr ts)" using t(2) by (auto simp: find_Some_iff)
  have "ts_addr t = ts_addr ts"
  proof -
    have l: "ts_addr t < 2 ^ LENGTH(32)" "ts_addr ts < 2 ^ LENGTH(32)" using a m(1) t(1) by simp_all
    have "unat (of_nat (ts_addr t) :: u32) = unat (of_nat (ts_addr ts) :: u32)" using m(2) by simp
    then show ?thesis using l by (simp add: unat_of_nat take_bit_nat_eq_self)
  qed
  then show ?thesis using f by (simp add: registerTrustletConnection_def)
qed

lemma direct_notification:
  assumes "getTrustletSession (n_sessionId n) dv = Some ts" "notificationConnection ts = Some c" "n_sessionId n \<noteq> SID_MCP"
  shows "handle_notification n dv = write_data c (enc_notification n) dv"
  using assms by (simp add: handle_notification_def)

lemma direct_notifications:
  assumes "getTrustletSession sid dv = Some ts" "notificationConnection ts = Some c" "sid \<noteq> SID_MCP" "\<forall>n\<in>set ns. n_sessionId n = sid"
  shows "dv_written (fold handle_notification ns dv) = dv_written dv @ map (\<lambda>n. (c, enc_notification n)) ns"
  using assms
proof (induction ns arbitrary: dv)
  case (Cons n ns)
  have h: "handle_notification n dv = write_data c (enc_notification n) dv"
    by (rule direct_notification [of n dv ts]) (use Cons.prems in simp_all)
  have "getTrustletSession sid (write_data c (enc_notification n) dv) = Some ts"
    using Cons.prems(1) by (simp add: getTrustletSession_def write_data_def)
  then show ?case using Cons.IH [of "write_data c (enc_notification n) dv"] Cons.prems h by (simp add: write_data_def)
qed simp

lemma process_queued_at:
  assumes "session_at a dv = Some ts" "notificationConnection ts = Some c"
  shows "trustletSessions (process_queued a dv) = map (\<lambda>t. if ts_addr t = a then ts\<lparr>ts_notifications := []\<rparr> else t) (trustletSessions dv)"
    "dv_written (process_queued a dv) = dv_written dv @ map (\<lambda>n. (c, enc_notification n)) (ts_notifications ts)"
  using assms by (simp_all add: process_queued_def processQueuedNotifications_def update_session_def)

text \<open>An interrupt that brings one notification for a session with a connection.\<close>

lemma direct_irq:
  assumes "getTrustletSession (n_sessionId n) dv = Some ts" "notificationConnection ts = Some c" "n_sessionId n \<noteq> SID_MCP"
    and q: "queue_ok (nq_in (nq dv))" "pending (nq_in (nq dv)) = 0"
  shows "\<exists>q. handle_irq (queue_put n) dv = write_data c (enc_notification n) (dv\<lparr>nq := q\<rparr>) \<and> queue_ok (nq_in q) \<and> pending (nq_in q) = 0"
proof -
  let ?q = "(nq dv)\<lparr>nq_in := queue_put n (nq_in (nq dv))\<rparr>"
  have e: "contents (nq_in (nq dv)) = []" using q(2) by (simp add: contents_def)
  obtain k where k: "unat (queueSize (nq_in (nq dv))) = 2 ^ k" using queue_ok_size [OF q(1)] by auto
  have "queue_ok (nq_in ?q)" "contents (nq_in ?q) = [n]" using queue_put_ok [OF q(1)] q(2) k e by simp_all
  then obtain q1 where g: "getNotification ?q = (Some n, q1)" "queue_ok (nq_in q1)" "pending (nq_in q1) = 0" "getNotification q1 = (None, q1)"
    using one_notification by blast
  let ?d = "write_data c (enc_notification n) (dv\<lparr>nq := q1\<rparr>)"
  have "getTrustletSession (n_sessionId n) (dv\<lparr>nq := q1\<rparr>) = Some ts" using assms(1) by (simp add: getTrustletSession_def)
  then have h: "handle_notification n (dv\<lparr>nq := q1\<rparr>) = ?d" by (rule direct_notification [OF _ assms(2,3)])
  have "irq_loop ?d = ?d" using g(4) by (subst irq_loop.simps) (simp add: write_data_def)
  then have "handle_irq (queue_put n) dv = ?d" unfolding handle_irq_def using g(1) h by (subst irq_loop.simps) simp
  then show ?thesis using g(2,3) by blast
qed

lemma direct_irqs:
  assumes "getTrustletSession sid dv = Some ts" "notificationConnection ts = Some c" "sid \<noteq> SID_MCP" "\<forall>n\<in>set ns. n_sessionId n = sid"
    and "queue_ok (nq_in (nq dv))" "pending (nq_in (nq dv)) = 0"
  shows "\<exists>q. fold handle_irq (map queue_put ns) dv = dv\<lparr>nq := q, dv_written := dv_written dv @ map (\<lambda>n. (c, enc_notification n)) ns\<rparr>"
  using assms
proof (induction ns arbitrary: dv)
  case Nil
  have "dv = dv\<lparr>nq := nq dv, dv_written := dv_written dv\<rparr>" by simp
  then show ?case by (intro exI [of _ "nq dv"]) simp
next
  case (Cons n ns)
  have sid: "n_sessionId n = sid" using Cons.prems(4) by simp
  obtain q where h: "handle_irq (queue_put n) dv = write_data c (enc_notification n) (dv\<lparr>nq := q\<rparr>)" "queue_ok (nq_in q)" "pending (nq_in q) = 0"
    using direct_irq [of n dv ts c] Cons.prems sid by auto
  let ?d = "write_data c (enc_notification n) (dv\<lparr>nq := q\<rparr>)"
  have "getTrustletSession sid ?d = Some ts" using Cons.prems(1) by (simp add: getTrustletSession_def write_data_def)
  then obtain q2 where "fold handle_irq (map queue_put ns) ?d = ?d\<lparr>nq := q2, dv_written := dv_written ?d @ map (\<lambda>n. (c, enc_notification n)) ns\<rparr>"
    using Cons.IH [of ?d] Cons.prems h(2,3) by (auto simp: write_data_def)
  then show ?case using h(1) by (intro exI [of _ q2]) (simp add: write_data_def)
qed


definition connect_request :: request where
  "connect_request = \<lparr>rq_payload = Some (enc32 0 @ enc32 0x301 @ enc32 0 @ enc32 7), rq_reads = \<lambda>_. None,
     rq_irqs = map queue_put [\<lparr>n_sessionId = 0x301, n_payload = 5\<rparr>]\<rparr>"


end
