(* ===== verification/FileStorage.thy ===== *)
theory FileStorage
  imports PrivateRegistry
begin

text \<open>
  The file storage daemon (src/MobiCoreDriverLib/Daemon/FSD/FSD.cpp): a thread of the daemon that keeps the
  objects of the trusted storage as files. The storage driver of the secure world writes a request
  into a buffer it shares with the thread and notifies it; the thread reads, writes or deletes the
  file of an object and notifies back. An object is named by the UUID of its application, which
  gives a directory, and a name of 20 bytes, which gives the file. The calls of the client library
  that open the session of the driver take their results from the record \<open>storage_driver\<close>; a
  result \<open>None\<close> is an access outside the shared buffer or through a null pointer.
\<close>

abbreviation (input) TEEC_SUCCESS :: u32 where "TEEC_SUCCESS \<equiv> 0"
abbreviation (input) TEEC_ERROR_ITEM_NOT_FOUND :: u32 where "TEEC_ERROR_ITEM_NOT_FOUND \<equiv> 0xFFFF0008"
abbreviation (input) TEE_ERROR_STORAGE_NO_SPACE :: u32 where "TEE_ERROR_STORAGE_NO_SPACE \<equiv> 0xFFFF3041"
abbreviation (input) TEE_ERROR_CORRUPT_OBJECT :: u32 where "TEE_ERROR_CORRUPT_OBJECT \<equiv> 0xF0100001"
abbreviation (input) TEE_DATA_FLAG_EXCLUSIVE :: "16 word" where "TEE_DATA_FLAG_EXCLUSIVE \<equiv> 0x400"
abbreviation (input) STH_MESSAGE_TYPE_LOOK :: u8 where "STH_MESSAGE_TYPE_LOOK \<equiv> 0"
abbreviation (input) STH_MESSAGE_TYPE_READ :: u8 where "STH_MESSAGE_TYPE_READ \<equiv> 1"
abbreviation (input) STH_MESSAGE_TYPE_WRITE :: u8 where "STH_MESSAGE_TYPE_WRITE \<equiv> 2"
abbreviation (input) STH_MESSAGE_TYPE_DELETE :: u8 where "STH_MESSAGE_TYPE_DELETE \<equiv> 3"

subsection \<open>Requests and paths\<close>

text \<open>The request in the shared buffer. The payload is everything from its offset to the end of the buffer.\<close>

record sth_request =
  st_status :: u32
  st_type :: u8
  st_flags :: "16 word"
  st_payloadLen :: u32
  st_uuid :: bytes
  st_filename :: bytes
  st_payload :: bytes

definition DCI_BUFF_SIZE :: nat where "DCI_BUFF_SIZE = 1000 * 1024"
definition FILENAMESIZE :: nat where "FILENAMESIZE = 20"
definition TEE_UUID_STRING_SIZE :: nat where "TEE_UUID_STRING_SIZE = 32"
definition NEW_EXT :: string where "NEW_EXT = ''.new''"

text \<open>The payload follows the union of command and response and the 48 bytes of the header.\<close>

definition payload_offset :: nat where "payload_offset = 12 + 48"

definition FSD_HexFileName :: "bytes \<Rightarrow> string" where "FSD_HexFileName fn = byteArrayToString fn"

definition FSD_CreateTaDirName :: "bytes \<Rightarrow> string" where "FSD_CreateTaDirName ta_uuid = byteArrayToString ta_uuid"

definition FSD_CreateTaDirPath :: "bytes \<Rightarrow> string" where
  "FSD_CreateTaDirPath uuid = getTbStoragePath @ ''/'' @ FSD_CreateTaDirName uuid"

definition FSD_CreateFilePath :: "bytes \<Rightarrow> bytes \<Rightarrow> path" where
  "FSD_CreateFilePath uuid fn = (FSD_CreateTaDirPath uuid, FSD_HexFileName fn)"

text \<open>The file a write fills before it renames it, and the text of a path.\<close>

definition new_path :: "path \<Rightarrow> path" where "new_path p = (fst p, snd p @ NEW_EXT)"

definition path_text :: "path \<Rightarrow> string" where "path_text p = fst p @ ''/'' @ snd p"

text \<open>The sizes of the arrays for the three paths, as they are declared.\<close>

definition TAdirpath_size :: nat where "TAdirpath_size = length getTbStoragePath + 1 + TEE_UUID_STRING_SIZE + 1"

definition Filepath_size :: nat where
  "Filepath_size = length getTbStoragePath + 1 + TEE_UUID_STRING_SIZE + 1 + 2 * FILENAMESIZE + 1"

definition Filepath_new_size :: nat where
  "Filepath_new_size = length getTbStoragePath + TEE_UUID_STRING_SIZE + 2 * FILENAMESIZE + length NEW_EXT + 1"

subsection \<open>Calls whose error number is looked at\<close>

datatype sys_error = ENOENT | EEXIST | ENOTEMPTY | Other_error

text \<open>\<open>mkdir\<close> in a parent directory, \<open>rmdir\<close>, and \<open>open\<close> of a file that must not exist.\<close>

definition mkdir_in :: "string \<Rightarrow> string \<Rightarrow> fs \<Rightarrow> sys_error option \<times> fs" where
  "mkdir_in parent d fs = (case io fs of (r, fs1) \<Rightarrow>
     if r \<noteq> Done then (Some Other_error, fs1)
     else if d \<in> set (fs_dirs fs1) then (Some EEXIST, fs1)
     else if parent \<notin> set (fs_dirs fs1) then (Some ENOENT, fs1)
     else (None, fs1\<lparr>fs_dirs := d # fs_dirs fs1\<rparr>))"

definition rmdir_errno :: "string \<Rightarrow> fs \<Rightarrow> sys_error option \<times> fs" where
  "rmdir_errno d fs = (case io fs of (r, fs1) \<Rightarrow>
     if r \<noteq> Done then (Some Other_error, fs1)
     else if d \<notin> set (fs_dirs fs1) then (Some ENOENT, fs1)
     else if entries d fs1 \<noteq> [] then (Some ENOTEMPTY, fs1)
     else (None, fs1\<lparr>fs_dirs := removeAll d (fs_dirs fs1)\<rparr>))"

definition open_excl :: "path \<Rightarrow> fs \<Rightarrow> bool \<times> fs" where
  "open_excl p fs = (case io fs of (r, fs1) \<Rightarrow>
     if r = Done \<and> fst p \<in> set (fs_dirs fs1) \<and> lookup_file fs1 p = None then (True, put_file p [] fs1) else (False, fs1))"

text \<open>\<open>fread\<close> into the payload: the bytes stored, and whether there was no error. \<open>fclose\<close> of a file
  that was written, with its result.\<close>

definition fread_some :: "nat \<Rightarrow> bytes \<Rightarrow> fs \<Rightarrow> (bytes \<times> bool) \<times> fs" where
  "fread_some n content fs = (case io fs of
     (Done, fs1) \<Rightarrow> ((take n content, True), fs1) | (Fails k, fs1) \<Rightarrow> ((take (min k n) content, False), fs1))"

definition fclose_written :: "path \<Rightarrow> bytes \<Rightarrow> fs \<Rightarrow> bool \<times> fs" where
  "fclose_written p d fs = (case io fs of
     (Done, fs1) \<Rightarrow> (True, put_file p d fs1) | (Fails k, fs1) \<Rightarrow> (False, put_file p (take k d) fs1))"

subsection \<open>The operations on files\<close>

text \<open>The bytes read go to the start of the payload; \<open>None\<close> when they do not fit.\<close>

definition read_payload :: "u32 \<Rightarrow> sth_request \<Rightarrow> fs \<Rightarrow> (u32 \<times> sth_request \<times> fs) option" where
  "read_payload error rq fs =
     (case fopen_rb (FSD_CreateFilePath (st_uuid rq) (st_filename rq)) fs of
        (None, fs1) \<Rightarrow> Some (TEEC_ERROR_ITEM_NOT_FOUND, rq, fs1)
      | (Some content, fs1) \<Rightarrow> (case fread_some (unat (st_payloadLen rq)) content fs1 of ((d, ok), fs2) \<Rightarrow>
          map_option (\<lambda>p. (if ok then TEEC_SUCCESS else error, rq\<lparr>st_payload := p\<rparr>, fs2))
            (buf_write 0 d (st_payload rq))))"

definition FSD_LookFile :: "sth_request \<Rightarrow> fs \<Rightarrow> (u32 \<times> sth_request \<times> fs) option" where
  "FSD_LookFile = read_payload TEEC_ERROR_ITEM_NOT_FOUND"

definition FSD_ReadFile :: "sth_request \<Rightarrow> fs \<Rightarrow> (u32 \<times> sth_request \<times> fs) option" where
  "FSD_ReadFile = read_payload TEE_ERROR_CORRUPT_OBJECT"

text \<open>What a write does when it fails after the new file was made.\<close>

definition remove_both :: "path \<Rightarrow> fs \<Rightarrow> fs" where
  "remove_both p fs = snd (remove_file (new_path p) (snd (remove_file p fs)))"

definition write_new :: "path \<Rightarrow> bytes \<Rightarrow> fs \<Rightarrow> u32 \<times> fs" where
  "write_new p d fs = (case fwrite (new_path p) d fs of
     (False, fs1) \<Rightarrow> (TEE_ERROR_STORAGE_NO_SPACE, remove_both p (snd (io fs1)))
   | (True, fs1) \<Rightarrow> (case fclose_written (new_path p) d fs1 of
       (False, fs2) \<Rightarrow> (TEE_ERROR_STORAGE_NO_SPACE, remove_both p fs2)
     | (True, fs2) \<Rightarrow> (case rename_file (new_path p) p fs2 of
         (False, fs3) \<Rightarrow> (TEE_ERROR_STORAGE_NO_SPACE, remove_both p fs3)
       | (True, fs3) \<Rightarrow> (TEEC_SUCCESS, fs3))))"

definition FSD_WriteFile :: "sth_request \<Rightarrow> fs \<Rightarrow> (u32 \<times> sth_request \<times> fs) option" where
  "FSD_WriteFile rq fs =
     (let p = FSD_CreateFilePath (st_uuid rq) (st_filename rq) in
      case mkdir_in getTbStoragePath (FSD_CreateTaDirPath (st_uuid rq)) fs of (e, fs1) \<Rightarrow>
      if e \<noteq> None \<and> e \<noteq> Some EEXIST then Some (TEE_ERROR_STORAGE_NO_SPACE, rq, fs1)
      else case (if st_flags rq = TEE_DATA_FLAG_EXCLUSIVE then open_excl p fs1 else (True, fs1)) of
        (False, fs2) \<Rightarrow> Some (TEE_ERROR_CORRUPT_OBJECT, rq, fs2)
      | (True, fs2) \<Rightarrow> (case fopen_wb (new_path p) fs2 of
          (False, fs3) \<Rightarrow> Some (TEE_ERROR_STORAGE_NO_SPACE, rq, snd (remove_file p fs3))
        | (True, fs3) \<Rightarrow> map_option (\<lambda>d. case write_new p d fs3 of (r, fs4) \<Rightarrow> (r, rq, fs4))
            (buf_read 0 (unat (st_payloadLen rq)) (st_payload rq))))"

text \<open>The result of removing the file is overwritten by that of removing its directory.\<close>

definition FSD_DeleteFile :: "sth_request \<Rightarrow> fs \<Rightarrow> u32 \<times> fs" where
  "FSD_DeleteFile rq fs =
     (let p = FSD_CreateFilePath (st_uuid rq) (st_filename rq) in
      case fopen_rb p fs of (c, fs1) \<Rightarrow>
      let fs2 = (if c = None then fs1 else snd (remove_file p fs1))
      in case rmdir_errno (FSD_CreateTaDirPath (st_uuid rq)) fs2 of (e, fs3) \<Rightarrow>
        (if e = Some Other_error then TEE_ERROR_STORAGE_NO_SPACE else TEEC_SUCCESS, fs3))"

definition FSD_ExecuteCommand :: "sth_request \<Rightarrow> fs \<Rightarrow> (sth_request \<times> fs) option" where
  "FSD_ExecuteCommand rq fs =
     (let done = map_option (\<lambda>(r, rq1, fs1). (rq1\<lparr>st_status := r\<rparr>, fs1)) in
      if st_type rq = STH_MESSAGE_TYPE_LOOK then done (FSD_LookFile rq fs)
      else if st_type rq = STH_MESSAGE_TYPE_READ then done (FSD_ReadFile rq fs)
      else if st_type rq = STH_MESSAGE_TYPE_WRITE then done (FSD_WriteFile rq fs)
      else if st_type rq = STH_MESSAGE_TYPE_DELETE then
        (case FSD_DeleteFile rq fs of (r, fs1) \<Rightarrow> Some (rq\<lparr>st_status := r\<rparr>, fs1))
      else Some (rq, fs))"

subsection \<open>The thread\<close>

text \<open>What the thread meets: whether the buffer can be allocated, the results of opening the device and the
  session of the driver, for each wait its result and what the driver has written into the request by then, and the
  result of each notification.\<close>

record storage_driver =
  sd_calloc :: bool
  sd_openDevice :: u32
  sd_openSession :: u32
  sd_wait :: "nat \<Rightarrow> u32 \<times> (sth_request \<Rightarrow> sth_request)"
  sd_notify :: "nat \<Rightarrow> u32"

record fsd =
  fsd_fs :: fs
  dci :: "sth_request option"
  device_open :: bool
  session_open :: bool
  fsd_waits :: nat
  fsd_notifies :: nat

definition FSD_wait :: "storage_driver \<Rightarrow> fsd \<Rightarrow> u32 \<times> fsd" where
  "FSD_wait sd s = (fst (sd_wait sd (fsd_waits s)),
     s\<lparr>fsd_waits := Suc (fsd_waits s), dci := map_option (snd (sd_wait sd (fsd_waits s))) (dci s)\<rparr>)"

definition FSD_notify :: "storage_driver \<Rightarrow> fsd \<Rightarrow> u32 \<times> fsd" where
  "FSD_notify sd s = (sd_notify sd (fsd_notifies s), s\<lparr>fsd_notifies := Suc (fsd_notifies s)\<rparr>)"

definition no_request :: sth_request where
  "no_request = \<lparr>st_status = 0, st_type = 0, st_flags = 0, st_payloadLen = 0, st_uuid = replicate 16 0,
     st_filename = replicate 20 0, st_payload = replicate (DCI_BUFF_SIZE - payload_offset) 0\<rparr>"

text \<open>The exchange that synchronises with the driver: wait, notify, and the same again.\<close>

definition FSD_sync :: "storage_driver \<Rightarrow> fsd \<Rightarrow> u32 \<times> fsd" where
  "FSD_sync sd s = (case FSD_wait sd s of (r, s1) \<Rightarrow> if r \<noteq> MC_DRV_OK then (r, s1) else
     (case FSD_notify sd s1 of (r, s2) \<Rightarrow> if r \<noteq> MC_DRV_OK then (r, s2) else
       (case FSD_wait sd s2 of (r, s3) \<Rightarrow> if r \<noteq> MC_DRV_OK then (r, s3) else FSD_notify sd s3)))"

definition FSD_Open :: "storage_driver \<Rightarrow> fsd \<Rightarrow> u32 \<times> fsd" where
  "FSD_Open sd s =
     (if \<not> sd_calloc sd then (MC_DRV_ERR_NO_FREE_MEMORY, s\<lparr>dci := None\<rparr>)
      else if sd_openDevice sd \<noteq> MC_DRV_OK then (sd_openDevice sd, s\<lparr>dci := None\<rparr>)
      else if sd_openSession sd \<noteq> MC_DRV_OK then (sd_openSession sd, s\<lparr>dci := None, device_open := False\<rparr>)
      else case FSD_sync sd (s\<lparr>dci := Some no_request, device_open := True, session_open := True\<rparr>) of (r, s1) \<Rightarrow>
        if r \<noteq> MC_DRV_OK then (r, s1\<lparr>dci := None, session_open := False, device_open := False\<rparr>) else (r, s1))"

definition FSD_Close :: "fsd \<Rightarrow> fsd option" where
  "FSD_Close s = map_option (\<lambda>_. s\<lparr>dci := None, session_open := False, device_open := False\<rparr>) (dci s)"

partial_function (option) FSD_listenDci :: "storage_driver \<Rightarrow> fsd \<Rightarrow> fsd option" where
  "FSD_listenDci sd s = (case FSD_wait sd s of (r, s1) \<Rightarrow>
     if r \<noteq> MC_DRV_OK then Some s1
     else Option.bind (dci s1) (\<lambda>rq. Option.bind (FSD_ExecuteCommand rq (fsd_fs s1)) (\<lambda>(rq1, fs1).
       case FSD_notify sd (s1\<lparr>dci := Some rq1, fsd_fs := fs1\<rparr>) of (r, s2) \<Rightarrow>
         if r \<noteq> MC_DRV_OK then Some s2 else FSD_listenDci sd s2)))"

definition FSD_run :: "storage_driver \<Rightarrow> fsd \<Rightarrow> fsd option" where
  "FSD_run sd s =
     (let s1 = (if doesDirExist (fsd_fs s) (Some getTbStoragePath) then s
                else s\<lparr>fsd_fs := snd (mkdir getTbStoragePath (fsd_fs s))\<rparr>)
      in case FSD_Open sd s1 of (r, s2) \<Rightarrow> if r \<noteq> MC_DRV_OK then Some s2 else FSD_listenDci sd s2)"

end
