(* ===== verification/FileStorageFacts.thy ===== *)
theory FileStorageFacts
  imports FileStorage
begin

text \<open>
  Properties of the file storage daemon: the objects it stores as a map from application and
  name to bytes, what each operation does to that map whatever call fails, the contract of a
  container store, the arrays for the paths, and the life of the thread.
\<close>

subsection \<open>Objects\<close>

type_synonym obj = "bytes \<times> bytes"

definition valid_obj :: "obj \<Rightarrow> bool" where "valid_obj k \<longleftrightarrow> length (fst k) = 16 \<and> length (snd k) = FILENAMESIZE"

definition obj_path :: "obj \<Rightarrow> path" where "obj_path k = FSD_CreateFilePath (fst k) (snd k)"

definition stored :: "fs \<Rightarrow> obj \<Rightarrow> bytes option" where "stored fs k = lookup_file fs (obj_path k)"

abbreviation req_obj :: "sth_request \<Rightarrow> obj" where "req_obj rq \<equiv> (st_uuid rq, st_filename rq)"

lemma obj_path_inj: "obj_path k = obj_path k' \<longleftrightarrow> k = k'"
  by (cases k; cases k') (auto simp: obj_path_def FSD_CreateFilePath_def FSD_CreateTaDirPath_def FSD_CreateTaDirName_def
      FSD_HexFileName_def byteArrayToString_inj)

lemma new_path_other: "valid_obj k \<Longrightarrow> valid_obj k' \<Longrightarrow> new_path (obj_path k) \<noteq> obj_path k'"
proof
  assume v: "valid_obj k" "valid_obj k'" and "new_path (obj_path k) = obj_path k'"
  then have "length (snd (new_path (obj_path k))) = length (snd (obj_path k'))" by simp
  then show False using v
    by (simp add: new_path_def obj_path_def FSD_CreateFilePath_def FSD_HexFileName_def NEW_EXT_def valid_obj_def FILENAMESIZE_def)
qed

lemma new_path_same: "new_path p \<noteq> p"
  by (cases p) (simp add: new_path_def NEW_EXT_def)

text \<open>Two states hold the same files except at some paths.\<close>

definition agree_but :: "path set \<Rightarrow> fs \<Rightarrow> fs \<Rightarrow> bool" where
  "agree_but P fs fs' \<longleftrightarrow> (\<forall>q. q \<notin> P \<longrightarrow> lookup_file fs' q = lookup_file fs q)"

lemma agree_trans: "agree_but P fs fs' \<Longrightarrow> agree_but P fs' fs'' \<Longrightarrow> agree_but P fs fs''"
  by (simp add: agree_but_def)

lemma remove_file_cases:
  "lookup_file (snd (remove_file p fs)) = (lookup_file fs)(p := None) \<or> lookup_file (snd (remove_file p fs)) = lookup_file fs"
  by (simp add: remove_file_def io_def)

lemma remove_both_lookup:
  assumes "q \<noteq> new_path p"
  shows "lookup_file (remove_both p fs) q = lookup_file fs q \<or> q = p \<and> lookup_file (remove_both p fs) q = None"
  using assms remove_file_cases [of p fs] remove_file_cases [of "new_path p" "snd (remove_file p fs)"]
  by (auto simp: remove_both_def split: if_splits)

text \<open>Filling the new file and moving it: the file itself has what was written when the result is good, and
  what it had, or nothing, otherwise. No other file but the new one changes.\<close>

lemma write_new_effect:
  assumes w: "write_new p d fs = (r, fs')" and q: "q \<noteq> new_path p"
  shows "if q \<noteq> p then lookup_file fs' q = lookup_file fs q
    else if r = TEEC_SUCCESS then lookup_file fs' p = Some d
    else lookup_file fs' p = lookup_file fs p \<or> lookup_file fs' p = None"
proof -
  note b = remove_both_lookup [OF q]
  have n: "p \<noteq> new_path p" using new_path_same [of p] by simp
  show ?thesis
    using w q n b [of "snd (io (snd (fwrite (new_path p) d fs)))"]
      b [of "snd (fclose_written (new_path p) d (snd (fwrite (new_path p) d fs)))"]
      b [of "snd (rename_file (new_path p) p (snd (fclose_written (new_path p) d (snd (fwrite (new_path p) d fs)))))"]
    by (auto simp: write_new_def fwrite_def fclose_written_def rename_file_def io_def split: io_out.splits if_splits option.splits)
qed

lemma write_new_pair: "write_new p d fs = (fst (write_new p d fs), snd (write_new p d fs))" by simp

lemma mkdir_files: "lookup_file (snd (mkdir_in a d fs)) = lookup_file fs"
  by (simp add: mkdir_in_def io_def)

lemma open_excl_effect:
  "open_excl p fs = (b, fs1) \<Longrightarrow> if b then lookup_file fs p = None \<and> lookup_file fs1 = (lookup_file fs)(p \<mapsto> [])
     else lookup_file fs1 = lookup_file fs"
  by (auto simp: open_excl_def io_def split: if_splits)

lemma fopen_wb_effect:
  "fopen_wb p fs = (b, fs1) \<Longrightarrow> lookup_file fs1 = (if b then (lookup_file fs)(p \<mapsto> []) else lookup_file fs)"
  by (auto simp: fopen_wb_def io_def split: if_splits)

lemma remove_file_effect: "lookup_file (snd (remove_file p fs)) q = lookup_file fs q \<or> q = p \<and> lookup_file (snd (remove_file p fs)) q = None"
  using remove_file_cases [of p fs] by (auto split: if_splits)

text \<open>The first part of a write, up to the new file: it changes nothing but an exclusive file it makes.\<close>

definition write_prepared :: "sth_request \<Rightarrow> fs \<Rightarrow> fs \<Rightarrow> bool" where
  "write_prepared rq fs fs2 \<longleftrightarrow>
     (if st_flags rq = TEE_DATA_FLAG_EXCLUSIVE
      then stored fs (req_obj rq) = None \<and> lookup_file fs2 = (lookup_file fs)(obj_path (req_obj rq) \<mapsto> [])
      else lookup_file fs2 = lookup_file fs)"

lemma write_cases:
  assumes w: "FSD_WriteFile rq fs = Some (r, rq', fs')"
  obtains (nothing) "r \<noteq> TEEC_SUCCESS" "lookup_file fs' = lookup_file fs"
    | (not_opened) fs2 where "r \<noteq> TEEC_SUCCESS" "write_prepared rq fs fs2"
        "fs' = snd (remove_file (obj_path (req_obj rq)) fs2)"
    | (filled) fs2 fs3 d where "write_prepared rq fs fs2" "buf_read 0 (unat (st_payloadLen rq)) (st_payload rq) = Some d"
        "lookup_file fs3 = (lookup_file fs2)(new_path (obj_path (req_obj rq)) \<mapsto> [])"
        "write_new (obj_path (req_obj rq)) d fs3 = (r, fs')"
proof -
  let ?p = "obj_path (req_obj rq)"
  have p: "FSD_CreateFilePath (st_uuid rq) (st_filename rq) = ?p" by (simp add: obj_path_def)
  obtain e fs1 where m: "mkdir_in getTbStoragePath (FSD_CreateTaDirPath (st_uuid rq)) fs = (e, fs1)" by fastforce
  have l1: "lookup_file fs1 = lookup_file fs" using mkdir_files [of getTbStoragePath "FSD_CreateTaDirPath (st_uuid rq)" fs] m by simp
  obtain b fs2 where x: "(if st_flags rq = TEE_DATA_FLAG_EXCLUSIVE then open_excl ?p fs1 else (True, fs1)) = (b, fs2)" by fastforce
  obtain c fs3 where o: "fopen_wb (new_path ?p) fs2 = (c, fs3)" by fastforce
  note unf = w [unfolded FSD_WriteFile_def Let_def p m prod.case x]
  have l3: "lookup_file fs3 = (if c then (lookup_file fs2)(new_path ?p \<mapsto> []) else lookup_file fs2)"
    by (rule fopen_wb_effect [OF o])
  show ?thesis
  proof (cases "(e \<noteq> None \<and> e \<noteq> Some EEXIST) \<or> \<not> b")
    case True
    have "lookup_file fs2 = lookup_file fs1" if "\<not> b"
      using x that open_excl_effect [of ?p fs1 b fs2] by (auto split: if_splits)
    then have "r \<noteq> TEEC_SUCCESS \<and> lookup_file fs' = lookup_file fs" using unf True l1 by (auto split: if_splits)
    then show ?thesis by (elim conjE) (rule nothing)
  next
    case False
    then have prep: "write_prepared rq fs fs2"
      using x open_excl_effect [of ?p fs1 b fs2] l1 by (auto simp: write_prepared_def stored_def split: if_splits)
    show ?thesis
    proof (cases c)
      case True
      from unf False True o obtain d where "buf_read 0 (unat (st_payloadLen rq)) (st_payload rq) = Some d"
          "write_new ?p d fs3 = (r, fs')"
        by (auto simp: case_prod_unfold prod_eq_iff)
      then show ?thesis using prep l3 True filled by simp
    next
      case c: False
      have "write_prepared rq fs fs3" using prep l3 c by (simp add: write_prepared_def)
      moreover have "r \<noteq> TEEC_SUCCESS" "fs' = snd (remove_file ?p fs3)" using unf False c o by auto
      ultimately show ?thesis using not_opened [of fs3] by simp
    qed
  qed
qed

lemma prepared_other: "write_prepared rq fs fs2 \<Longrightarrow> q \<noteq> obj_path (req_obj rq) \<Longrightarrow> lookup_file fs2 q = lookup_file fs q"
  by (simp add: write_prepared_def split: if_splits)

text \<open>C5. Whatever call fails, a write leaves the object with the whole new content exactly when it reports success.
  When it reports an error the object has its old content or is gone, or is the empty file an
  exclusive write has made. Objects of other names never change. An exclusive write succeeds only for a
  new object.\<close>

theorem storage_write_atomic:
  assumes w: "FSD_WriteFile rq fs = Some (r, rq', fs')" and v: "valid_obj (req_obj rq)"
  shows "(r = TEEC_SUCCESS \<longrightarrow> stored fs' (req_obj rq) = Some (take (unat (st_payloadLen rq)) (st_payload rq)) \<and>
       (st_flags rq = TEE_DATA_FLAG_EXCLUSIVE \<longrightarrow> stored fs (req_obj rq) = None)) \<and>
     (r \<noteq> TEEC_SUCCESS \<longrightarrow> stored fs' (req_obj rq) = stored fs (req_obj rq) \<or> stored fs' (req_obj rq) = None \<or>
       st_flags rq = TEE_DATA_FLAG_EXCLUSIVE \<and> stored fs (req_obj rq) = None \<and> stored fs' (req_obj rq) = Some []) \<and>
     (\<forall>k. valid_obj k \<and> k \<noteq> req_obj rq \<longrightarrow> stored fs' k = stored fs k)"
  using w
proof (cases rule: write_cases)
  case nothing
  then show ?thesis by (simp add: stored_def)
next
  case (not_opened fs2)
  note e = remove_file_effect [of "obj_path (req_obj rq)" fs2]
  have "stored fs' k = stored fs k" if "k \<noteq> req_obj rq" for k
    using e [of "obj_path k"] prepared_other [OF not_opened(2)] that not_opened(3) by (auto simp: stored_def obj_path_inj)
  then show ?thesis
    using not_opened e [of "obj_path (req_obj rq)"] by (auto simp: write_prepared_def stored_def split: if_splits)
next
  case (filled fs2 fs3 d)
  have d: "d = take (unat (st_payloadLen rq)) (st_payload rq)" using filled(2) by (auto simp: buf_read_def split: if_splits)
  note n = new_path_other [OF v] new_path_same [of "obj_path (req_obj rq)"]
  have "stored fs' k = stored fs k" if "valid_obj k" "k \<noteq> req_obj rq" for k
    using write_new_effect [OF filled(4), of "obj_path k"] n(1) [OF that(1)] that filled(3) prepared_other [OF filled(1)]
    by (auto simp: stored_def obj_path_inj)
  then show ?thesis
    using write_new_effect [OF filled(4), of "obj_path (req_obj rq)"] n filled(1,3) d
    by (auto simp: stored_def write_prepared_def split: if_splits)
qed

text \<open>A request for an object, and a file system for examples: the registry's with the directory of the storage.\<close>

definition storage_request :: "u8 \<Rightarrow> obj \<Rightarrow> bytes \<Rightarrow> sth_request" where
  "storage_request t k d = \<lparr>st_status = 0, st_type = t, st_flags = 0, st_payloadLen = of_nat (length d),
     st_uuid = fst k, st_filename = snd k, st_payload = d\<rparr>"

definition storage_fs :: fs where
  "storage_fs = empty_registry\<lparr>fs_dirs := [MC_REGISTRY_DATA_PATH, getTbStoragePath]\<rparr>"

definition sample_obj :: obj where "sample_obj = (replicate 16 7, replicate 20 1)"

lemma sample_obj_valid [simp]: "valid_obj sample_obj" "valid_obj (replicate 16 x, replicate 20 y)"
  by (simp_all add: sample_obj_def valid_obj_def FILENAMESIZE_def)

lemma request_fields [simp]:
  "st_type (storage_request t k d) = t" "st_flags (storage_request t k d) = 0" "st_uuid (storage_request t k d) = fst k"
  "st_filename (storage_request t k d) = snd k" "st_payload (storage_request t k d) = d"
  "st_payloadLen (storage_request t k d) = of_nat (length d)"
  by (simp_all add: storage_request_def)

declare unat_of_nat_u32 [simp]

subsection \<open>The contract of a store\<close>

definition storage_good :: "fs \<Rightarrow> bool" where
  "storage_good fs \<longleftrightarrow> reliable fs \<and> getTbStoragePath \<in> set (fs_dirs fs)"

definition storage_store :: "obj \<Rightarrow> bytes \<Rightarrow> fs \<Rightarrow> u32 \<times> fs" where
  "storage_store k d fs = (case FSD_ExecuteCommand (storage_request STH_MESSAGE_TYPE_WRITE k d) fs of
     Some (rq, fs1) \<Rightarrow> (st_status rq, fs1) | None \<Rightarrow> (TEE_ERROR_CORRUPT_OBJECT, fs))"

definition storage_read :: "obj \<Rightarrow> nat \<Rightarrow> fs \<Rightarrow> (u32 \<times> bytes) \<times> fs" where
  "storage_read k n fs = (case FSD_ExecuteCommand (storage_request STH_MESSAGE_TYPE_READ k (replicate n 0)) fs of
     Some (rq, fs1) \<Rightarrow> ((st_status rq, st_payload rq), fs1) | None \<Rightarrow> ((TEE_ERROR_CORRUPT_OBJECT, []), fs))"

lemma obj_path_eq [simp]: "FSD_CreateFilePath (fst k) (snd k) = obj_path k"
  by (simp add: obj_path_def)

lemma obj_dir: "fst (obj_path k) = FSD_CreateTaDirPath (fst k)"
  by (simp add: obj_path_def FSD_CreateFilePath_def)

lemma mkdir_in_reliable:
  assumes "reliable fs" "a \<in> set (fs_dirs fs)"
  shows "\<exists>e fs1. mkdir_in a d fs = (e, fs1) \<and> (e = None \<or> e = Some EEXIST) \<and> reliable fs1 \<and>
    set (fs_dirs fs1) = insert d (set (fs_dirs fs)) \<and> lookup_file fs1 = lookup_file fs"
  using assms by (auto simp: mkdir_in_def)

lemma write_new_reliable:
  assumes "reliable fs" "fst p \<in> set (fs_dirs fs)"
  shows "\<exists>fs1. write_new p d fs = (TEEC_SUCCESS, fs1) \<and> reliable fs1 \<and> fs_dirs fs1 = fs_dirs fs"
  using assms by (simp add: write_new_def fwrite_def fclose_written_def rename_file_def)

lemma storage_write_works:
  assumes g: "storage_good fs" and v: "valid_obj k" and d: "length d < 2 ^ 32"
  shows "\<exists>fs'. FSD_WriteFile (storage_request STH_MESSAGE_TYPE_WRITE k d) fs =
      Some (TEEC_SUCCESS, storage_request STH_MESSAGE_TYPE_WRITE k d, fs') \<and> storage_good fs'"
proof -
  have r: "reliable fs" "getTbStoragePath \<in> set (fs_dirs fs)" using g by (simp_all add: storage_good_def)
  obtain e fs1 where m: "mkdir_in getTbStoragePath (FSD_CreateTaDirPath (fst k)) fs = (e, fs1)" "e = None \<or> e = Some EEXIST"
      "reliable fs1" "set (fs_dirs fs1) = insert (FSD_CreateTaDirPath (fst k)) (set (fs_dirs fs))"
    using mkdir_in_reliable [OF r, of "FSD_CreateTaDirPath (fst k)"] by blast
  obtain fs2 where o: "fopen_wb (new_path (obj_path k)) fs1 = (True, fs2)" "reliable fs2" "fs_dirs fs2 = fs_dirs fs1"
    using m(3,4) by (simp add: fopen_wb_def new_path_def obj_dir)
  obtain fs3 where w: "write_new (obj_path k) d fs2 = (TEEC_SUCCESS, fs3)" "reliable fs3" "fs_dirs fs3 = fs_dirs fs2"
    using write_new_reliable [of fs2 "obj_path k" d] o m(4) by (auto simp: obj_dir)
  have "storage_good fs3" using w o m(4) r by (simp add: storage_good_def)
  then show ?thesis
    using m(1,2) o(1) w(1) d by (auto simp: FSD_WriteFile_def Let_def buf_read_def)
qed

lemma storage_store_works:
  assumes g: "storage_good fs" and v: "valid_obj k" and d: "length d < 2 ^ 32"
  shows "\<exists>fs'. storage_store k d fs = (MC_DRV_OK, fs') \<and> storage_good fs' \<and>
    (\<forall>k'. valid_obj k' \<longrightarrow> stored fs' k' = (if k' = k then Some d else stored fs k'))"
proof -
  obtain fs' where w: "FSD_WriteFile (storage_request STH_MESSAGE_TYPE_WRITE k d) fs =
      Some (TEEC_SUCCESS, storage_request STH_MESSAGE_TYPE_WRITE k d, fs')" "storage_good fs'"
    using storage_write_works [OF assms] by blast
  have "stored fs' k = Some d \<and> (\<forall>k'. valid_obj k' \<and> k' \<noteq> k \<longrightarrow> stored fs' k' = stored fs k')"
    using w(1)
  proof (cases rule: write_cases)
    case (filled fs2 fs3 d')
    have "d' = d" using filled(2) d by (simp add: buf_read_def)
    moreover note n = new_path_other [OF v] new_path_same [of "obj_path k"]
    moreover have "stored fs' k' = stored fs k'" if "valid_obj k'" "k' \<noteq> k" for k'
      using write_new_effect [OF filled(4), of "obj_path k'"] n(1) [OF that(1)] that filled(3) prepared_other [OF filled(1)]
      by (simp add: stored_def obj_path_inj)
    ultimately show ?thesis
      using write_new_effect [OF filled(4), of "obj_path k"] by (simp add: stored_def)
  qed simp_all
  then show ?thesis using w by (simp add: storage_store_def FSD_ExecuteCommand_def)
qed

lemma storage_read_works:
  assumes "storage_good fs" "stored fs k = Some d" "length d < 2 ^ 32"
  shows "\<exists>fs'. storage_read k (length d) fs = ((MC_DRV_OK, d), fs') \<and> storage_good fs' \<and> stored fs' = stored fs"
  using assms by (simp add: storage_read_def FSD_ExecuteCommand_def FSD_ReadFile_def read_payload_def storage_good_def stored_def
      fopen_rb_def fread_some_def buf_write_def fun_eq_iff)

lemma storage_read_missing:
  assumes "storage_good fs" "stored fs k = None"
  shows "\<exists>x fs'. storage_read k n fs = ((TEEC_ERROR_ITEM_NOT_FOUND, x), fs') \<and> storage_good fs' \<and> stored fs' = stored fs"
  using assms by (simp add: storage_read_def FSD_ExecuteCommand_def FSD_ReadFile_def read_payload_def storage_good_def stored_def
      fopen_rb_def fun_eq_iff)

interpretation storage: container_store valid_obj "\<lambda>_ (d :: bytes). length d < 2 ^ 32" "\<lambda>_. True" "\<lambda>_ n d. n = length d \<and> n < 2 ^ 32"
  storage_good stored storage_store storage_read TEEC_ERROR_ITEM_NOT_FOUND
proof
  fix fs k and d :: bytes assume "storage_good fs" "valid_obj k" "length d < 2 ^ 32"
  then show "\<exists>s'. storage_store k d fs = (MC_DRV_OK, s') \<and> storage_good s' \<and>
      (\<forall>k'. valid_obj k' \<longrightarrow> stored s' k' = (if k' = k then Some d else stored fs k'))"
    by (rule storage_store_works)
next
  fix fs k d n assume "storage_good fs" "stored fs k = Some d" "n = length d \<and> n < 2 ^ 32"
  then show "\<exists>s'. storage_read k n fs = ((MC_DRV_OK, d), s') \<and> storage_good s' \<and>
      (\<forall>k'. valid_obj k' \<longrightarrow> stored s' k' = stored fs k')"
    using storage_read_works [of fs k d] by auto
next
  fix fs k n assume "storage_good fs" "stored fs k = None"
  then show "\<exists>x s'. storage_read k n fs = ((TEEC_ERROR_ITEM_NOT_FOUND, x), s') \<and> storage_good s' \<and>
      (\<forall>k'. valid_obj k' \<longrightarrow> stored s' k' = stored fs k')"
    using storage_read_missing [of fs k n] by auto
qed

lemma storage_fs_good [simp]: "storage_good storage_fs" "reliable storage_fs" "stored storage_fs k = None"
  by (simp_all add: storage_good_def storage_fs_def empty_registry_def reliable_def stored_def lookup_file_def)

text \<open>C18. After any sequence of writes through requests of the driver, a read of an object returns what was written to it
  last, whatever was written to other objects; a read of one that was never written reports that it is
  not there.\<close>

theorem storage_last_write:
  assumes "storage_good fs" and "\<forall>(k, d) \<in> set kds. valid_obj k \<and> length d < 2 ^ 32" and "valid_obj k"
  shows "(\<forall>d. map_of (rev kds) k = Some d \<longrightarrow> length d < 2 ^ 32 \<longrightarrow>
       fst (storage_read k (length d) (fold (\<lambda>(k, d) fs. snd (storage_store k d fs)) kds fs)) = (TEEC_SUCCESS, d)) \<and>
     (k \<notin> fst ` set kds \<and> stored fs k = None \<longrightarrow>
       fst (fst (storage_read k n (fold (\<lambda>(k, d) fs. snd (storage_store k d fs)) kds fs))) = TEEC_ERROR_ITEM_NOT_FOUND)"
  using storage.read_last_store [OF assms(1,2) _ assms(3)] storage.read_never_stored [OF assms(1,2) _ assms(3)] by auto

lemma storage_last_write_witness:
  "fst (storage_read sample_obj (length [4, 5 :: u8]) (fold (\<lambda>(k, d) fs. snd (storage_store k d fs))
     [(sample_obj, [1, 2, 3]), ((replicate 16 7, replicate 20 2), [9]), (sample_obj, [4, 5])] storage_fs)) = (TEEC_SUCCESS, [4, 5])"
proof -
  let ?kds = "[(sample_obj, [1, 2, 3]), ((replicate 16 7, replicate 20 2), [9]), (sample_obj, [4, 5 :: u8])]"
  have "\<forall>(k, d) \<in> set ?kds. valid_obj k \<and> length d < 2 ^ 32" by simp
  from storage_last_write [OF storage_fs_good(1) this sample_obj_valid(1)] show ?thesis by simp
qed

lemma storage_write_atomic_witness:
  "stored (snd (storage_store sample_obj [4, 5] storage_fs)) sample_obj = Some [4, 5]"
proof -
  have v: "valid_obj (req_obj (storage_request STH_MESSAGE_TYPE_WRITE sample_obj [4, 5]))" by simp
  obtain fs' where w: "FSD_WriteFile (storage_request STH_MESSAGE_TYPE_WRITE sample_obj [4, 5]) storage_fs =
      Some (TEEC_SUCCESS, storage_request STH_MESSAGE_TYPE_WRITE sample_obj [4, 5], fs')"
    using storage_write_works [OF storage_fs_good(1) sample_obj_valid(1), of "[4, 5]"] by auto
  from storage_write_atomic [OF w v] w show ?thesis
    by (simp add: storage_store_def FSD_ExecuteCommand_def)
qed

subsection \<open>Errors\<close>

text \<open>A write that cannot make its new file removes the object: the content an update was meant to
  replace is lost, although nothing was written.\<close>

lemma failed_update_loses_object:
  assumes "st_flags rq \<noteq> TEE_DATA_FLAG_EXCLUSIVE" and "stored fs (req_obj rq) = Some old"
    and "mkdir_in getTbStoragePath (FSD_CreateTaDirPath (st_uuid rq)) fs = (Some EEXIST, fs1)"
    and "fopen_wb (new_path (obj_path (req_obj rq))) fs1 = (False, fs2)" and "fs_io fs2 (fs_calls fs2) = Done"
  shows "\<exists>fs'. FSD_WriteFile rq fs = Some (TEE_ERROR_STORAGE_NO_SPACE, rq, fs') \<and> stored fs' (req_obj rq) = None"
proof -
  have p: "FSD_CreateFilePath (st_uuid rq) (st_filename rq) = obj_path (req_obj rq)" by (simp add: obj_path_def)
  have "lookup_file fs2 = lookup_file fs"
    using fopen_wb_effect [OF assms(4)] mkdir_files [of getTbStoragePath "FSD_CreateTaDirPath (st_uuid rq)" fs] assms(3) by simp
  then have "stored (snd (remove_file (obj_path (req_obj rq)) fs2)) (req_obj rq) = None"
    using assms(2,5) by (simp add: stored_def remove_file_def io_def stat_file_def)
  then show ?thesis using assms(1,3,4) by (simp add: FSD_WriteFile_def p Let_def)
qed

definition lossy_fs :: fs where
  "lossy_fs = put_file (obj_path sample_obj) [1, 2, 3] (storage_fs\<lparr>fs_dirs := fst (obj_path sample_obj) # fs_dirs storage_fs,
     fs_io := (\<lambda>n. if n = 1 then Fails 0 else Done)\<rparr>)"

lemma failed_update_loses_object_witness:
  "\<exists>fs'. FSD_WriteFile (storage_request STH_MESSAGE_TYPE_WRITE sample_obj [4, 5]) lossy_fs =
     Some (TEE_ERROR_STORAGE_NO_SPACE, storage_request STH_MESSAGE_TYPE_WRITE sample_obj [4, 5], fs') \<and> stored fs' sample_obj = None"
proof -
  let ?rq = "storage_request STH_MESSAGE_TYPE_WRITE sample_obj [4, 5]"
  let ?fs1 = "lossy_fs\<lparr>fs_calls := 1\<rparr>" and ?fs2 = "lossy_fs\<lparr>fs_calls := 2\<rparr>"
  have f: "fs_io lossy_fs = (\<lambda>n. if n = 1 then Fails 0 else Done)" "fs_calls lossy_fs = 0"
      "FSD_CreateTaDirPath (fst sample_obj) \<in> set (fs_dirs lossy_fs)"
    by (simp_all add: lossy_fs_def storage_fs_def empty_registry_def obj_dir)
  have m: "mkdir_in getTbStoragePath (FSD_CreateTaDirPath (st_uuid ?rq)) lossy_fs = (Some EEXIST, ?fs1)"
    using f by (simp add: mkdir_in_def io_def)
  have o: "fopen_wb (new_path (obj_path (req_obj ?rq))) ?fs1 = (False, ?fs2)"
    using f by (simp add: fopen_wb_def io_def)
  have e: "st_flags ?rq \<noteq> TEE_DATA_FLAG_EXCLUSIVE" "stored lossy_fs (req_obj ?rq) = Some [1, 2, 3]" "fs_io ?fs2 (fs_calls ?fs2) = Done"
    using f by (simp_all add: stored_def lossy_fs_def)
  from failed_update_loses_object [OF e(1,2) m o e(3)] show ?thesis by simp
qed

text \<open>Deleting: the object is gone and the result good when no call fails; when removing the file fails the object stays
  and the result is good all the same.\<close>

lemma delete_works:
  assumes "storage_good fs" "FSD_DeleteFile rq fs = (r, fs')"
  shows "r = TEEC_SUCCESS \<and> stored fs' (req_obj rq) = None \<and> (\<forall>k. k \<noteq> req_obj rq \<longrightarrow> stored fs' k = stored fs k)"
proof -
  have p: "FSD_CreateFilePath (st_uuid rq) (st_filename rq) = obj_path (req_obj rq)" by (simp add: obj_path_def)
  show ?thesis
    using assms unfolding FSD_DeleteFile_def Let_def p storage_good_def
    by (cases "lookup_file fs (obj_path (req_obj rq))")
      (auto simp: fopen_rb_def remove_file_def rmdir_errno_def stat_file_def stored_def obj_path_inj split: if_splits)
qed

text \<open>Deleting an object reports success although its file could not be removed: the object can still be
  read.\<close>

lemma failed_delete_reports_success:
  assumes "stored fs (req_obj rq) = Some d" and "fs_io fs (fs_calls fs) = Done"
    and "fs_io fs (Suc (fs_calls fs)) \<noteq> Done" and "fs_io fs (Suc (Suc (fs_calls fs))) = Done"
  shows "\<exists>fs'. FSD_DeleteFile rq fs = (TEEC_SUCCESS, fs') \<and> stored fs' (req_obj rq) = Some d"
proof -
  have p: "FSD_CreateFilePath (st_uuid rq) (st_filename rq) = obj_path (req_obj rq)" by (simp add: obj_path_def)
  have s: "lookup_file fs (obj_path (req_obj rq)) = Some d" using assms(1) by (simp add: stored_def)
  show ?thesis
    using assms(2-4) s unfolding FSD_DeleteFile_def Let_def p
    by (simp add: fopen_rb_def io_def remove_file_def rmdir_errno_def stored_def)
qed

lemma failed_delete_reports_success_witness:
  "\<exists>fs'. FSD_DeleteFile (storage_request STH_MESSAGE_TYPE_DELETE sample_obj []) lossy_fs = (TEEC_SUCCESS, fs') \<and>
     stored fs' sample_obj = Some [1, 2, 3]"
proof -
  let ?rq = "storage_request STH_MESSAGE_TYPE_DELETE sample_obj []"
  have e: "stored lossy_fs (req_obj ?rq) = Some [1, 2, 3]" "fs_io lossy_fs (fs_calls lossy_fs) = Done"
      "fs_io lossy_fs (Suc (fs_calls lossy_fs)) \<noteq> Done" "fs_io lossy_fs (Suc (Suc (fs_calls lossy_fs))) = Done"
    by (simp_all add: stored_def lossy_fs_def storage_fs_def empty_registry_def)
  from failed_delete_reports_success [OF e] show ?thesis by simp
qed

text \<open>The arrays for the directory and for the file hold their paths with the final zero exactly; the one
  for the new file is two bytes short for every object.\<close>

lemma path_arrays:
  assumes "valid_obj k"
  shows "length (FSD_CreateTaDirPath (fst k)) + 1 = TAdirpath_size" "length (path_text (obj_path k)) + 1 = Filepath_size"
    "length (path_text (new_path (obj_path k))) + 1 = Filepath_new_size + 2"
  using assms
  by (simp_all add: valid_obj_def obj_path_def path_text_def new_path_def FSD_CreateFilePath_def FSD_CreateTaDirPath_def
      FSD_CreateTaDirName_def FSD_HexFileName_def TAdirpath_size_def Filepath_size_def Filepath_new_size_def
      TEE_UUID_STRING_SIZE_def FILENAMESIZE_def)

subsection \<open>The life of the thread\<close>

text \<open>A driver that keeps to the buffer: what it writes leaves the size of the buffer as it is, and asks for no more
  payload than there is room for.\<close>

definition keeps_to_buffer :: "nat \<Rightarrow> storage_driver \<Rightarrow> bool" where
  "keeps_to_buffer room sd \<longleftrightarrow> (\<forall>n rq. length (st_payload rq) = room \<longrightarrow>
     length (st_payload (snd (sd_wait sd n) rq)) = room \<and> unat (st_payloadLen (snd (sd_wait sd n) rq)) \<le> room)"

lemma read_payload_safe:
  assumes "unat (st_payloadLen rq) \<le> length (st_payload rq)"
  shows "\<exists>r rq' fs'. read_payload e rq fs = Some (r, rq', fs') \<and> length (st_payload rq') = length (st_payload rq)"
proof (cases "fst (fopen_rb (FSD_CreateFilePath (st_uuid rq) (st_filename rq)) fs)")
  case None
  then show ?thesis by (simp add: read_payload_def case_prod_unfold)
next
  case (Some c)
  obtain fs1 where o: "fopen_rb (FSD_CreateFilePath (st_uuid rq) (st_filename rq)) fs = (Some c, fs1)" using Some by (metis prod.collapse)
  obtain d ok fs2 where f: "fread_some (unat (st_payloadLen rq)) c fs1 = ((d, ok), fs2)" by (metis prod.collapse)
  have "length d \<le> length (st_payload rq)" using f assms
    by (auto simp: fread_some_def io_def split: io_out.splits)
  then show ?thesis using o f by (simp add: read_payload_def buf_write_def)
qed

lemma write_file_safe:
  assumes "unat (st_payloadLen rq) \<le> length (st_payload rq)"
  shows "\<exists>r fs'. FSD_WriteFile rq fs = Some (r, rq, fs')"
  using assms by (auto simp: FSD_WriteFile_def Let_def buf_read_def case_prod_unfold split: prod.split bool.split)

lemma execute_safe:
  assumes "unat (st_payloadLen rq) \<le> length (st_payload rq)"
  shows "\<exists>rq' fs'. FSD_ExecuteCommand rq fs = Some (rq', fs') \<and> length (st_payload rq') = length (st_payload rq)"
proof -
  obtain r rq' fs' where l: "FSD_LookFile rq fs = Some (r, rq', fs')" "length (st_payload rq') = length (st_payload rq)"
    using read_payload_safe [OF assms] by (metis FSD_LookFile_def)
  obtain r2 rq2 fs2 where d: "FSD_ReadFile rq fs = Some (r2, rq2, fs2)" "length (st_payload rq2) = length (st_payload rq)"
    using read_payload_safe [OF assms] by (metis FSD_ReadFile_def)
  obtain r3 fs3 where w: "FSD_WriteFile rq fs = Some (r3, rq, fs3)" using write_file_safe [OF assms] by blast
  show ?thesis using l d w by (simp add: FSD_ExecuteCommand_def Let_def case_prod_unfold)
qed

lemma listen_returns:
  assumes k: "keeps_to_buffer room sd" and f: "fst (sd_wait sd (fsd_waits s + n)) \<noteq> MC_DRV_OK"
    and d: "dci s = Some rq" "length (st_payload rq) = room"
  shows "\<exists>s'. FSD_listenDci sd s = Some s' \<and> dci s' \<noteq> None \<and> device_open s' = device_open s \<and> session_open s' = session_open s"
  using f d
proof (induction n arbitrary: s rq)
  case 0
  then show ?case by (subst FSD_listenDci.simps) (simp add: FSD_wait_def)
next
  case (Suc n)
  let ?w = "sd_wait sd (fsd_waits s)"
  let ?s1 = "s\<lparr>fsd_waits := Suc (fsd_waits s), dci := Some (snd ?w rq)\<rparr>"
  have w: "FSD_wait sd s = (fst ?w, ?s1)" using Suc.prems by (simp add: FSD_wait_def)
  have p: "length (st_payload (snd ?w rq)) = room" "unat (st_payloadLen (snd ?w rq)) \<le> length (st_payload (snd ?w rq))"
    using k Suc.prems(3) by (simp_all add: keeps_to_buffer_def)
  obtain rq1 fs1 where e: "FSD_ExecuteCommand (snd ?w rq) (fsd_fs s) = Some (rq1, fs1)" "length (st_payload rq1) = room"
    using execute_safe [OF p(2)] p(1) by metis
  let ?s2 = "?s1\<lparr>dci := Some rq1, fsd_fs := fs1, fsd_notifies := Suc (fsd_notifies s)\<rparr>"
  have n: "FSD_notify sd (?s1\<lparr>dci := Some rq1, fsd_fs := fs1\<rparr>) = (sd_notify sd (fsd_notifies s), ?s2)" by (simp add: FSD_notify_def)
  have "\<exists>s'. FSD_listenDci sd ?s2 = Some s' \<and> dci s' \<noteq> None \<and> device_open s' = device_open s \<and> session_open s' = session_open s"
    using Suc.IH [of ?s2 rq1] Suc.prems(1) e(2) by simp
  then show ?case using w e(1) n by (subst FSD_listenDci.simps) simp
qed

lemma wait_fields: "FSD_wait sd s = (r, s1) \<Longrightarrow> keeps_to_buffer room sd \<Longrightarrow> dci s = Some rq \<Longrightarrow> length (st_payload rq) = room \<Longrightarrow>
    (\<exists>rq1. dci s1 = Some rq1 \<and> length (st_payload rq1) = room) \<and> device_open s1 = device_open s \<and> session_open s1 = session_open s \<and>
    fsd_waits s1 = Suc (fsd_waits s)"
  by (auto simp: FSD_wait_def keeps_to_buffer_def)

lemma notify_fields: "FSD_notify sd s = (r, s1) \<Longrightarrow> dci s1 = dci s \<and> device_open s1 = device_open s \<and> session_open s1 = session_open s \<and>
    fsd_waits s1 = fsd_waits s"
  by (auto simp: FSD_notify_def)

lemma sync_fields:
  assumes "FSD_sync sd s = (r, s1)" and k: "keeps_to_buffer room sd" and "dci s = Some rq" "length (st_payload rq) = room"
  shows "(\<exists>rq1. dci s1 = Some rq1 \<and> length (st_payload rq1) = room) \<and> device_open s1 = device_open s \<and> session_open s1 = session_open s \<and>
    fsd_waits s1 \<le> fsd_waits s + 2"
proof -
  obtain r1 a where a: "FSD_wait sd s = (r1, a)" by fastforce
  obtain r2 b where b: "FSD_notify sd a = (r2, b)" by fastforce
  obtain r3 c where c: "FSD_wait sd b = (r3, c)" by fastforce
  obtain r4 d where d: "FSD_notify sd c = (r4, d)" by fastforce
  have A: "(\<exists>rq1. dci a = Some rq1 \<and> length (st_payload rq1) = room) \<and> device_open a = device_open s \<and> session_open a = session_open s \<and>
      fsd_waits a = Suc (fsd_waits s)" by (rule wait_fields [OF a k assms(3,4)])
  then have B: "(\<exists>rq1. dci b = Some rq1 \<and> length (st_payload rq1) = room) \<and> device_open b = device_open s \<and> session_open b = session_open s \<and>
      fsd_waits b = Suc (fsd_waits s)" using notify_fields [OF b] by simp
  then obtain rb where "dci b = Some rb" "length (st_payload rb) = room" by blast
  from wait_fields [OF c k this] B
  have C: "(\<exists>rq1. dci c = Some rq1 \<and> length (st_payload rq1) = room) \<and> device_open c = device_open s \<and> session_open c = session_open s \<and>
      fsd_waits c = fsd_waits s + 2" by simp
  then have D: "(\<exists>rq1. dci d = Some rq1 \<and> length (st_payload rq1) = room) \<and> device_open d = device_open s \<and> session_open d = session_open s \<and>
      fsd_waits d = fsd_waits s + 2" using notify_fields [OF d] by simp
  have "s1 = a \<or> s1 = b \<or> s1 = c \<or> s1 = d" using assms(1) a b c d by (auto simp: FSD_sync_def split: if_splits)
  then show ?thesis using A B C D by auto
qed

text \<open>Opening either leaves everything open or nothing.\<close>

lemma open_all_or_nothing:
  assumes "FSD_Open sd s = (r, s1)" and "keeps_to_buffer (DCI_BUFF_SIZE - payload_offset) sd" and "\<not> device_open s" "\<not> session_open s"
  shows "if r = MC_DRV_OK then (\<exists>rq. dci s1 = Some rq \<and> length (st_payload rq) = DCI_BUFF_SIZE - payload_offset) \<and> device_open s1 \<and>
       session_open s1 \<and> fsd_waits s1 \<le> fsd_waits s + 2
    else dci s1 = None \<and> \<not> device_open s1 \<and> \<not> session_open s1"
proof -
  let ?s = "s\<lparr>dci := Some no_request, device_open := True, session_open := True\<rparr>"
  obtain r2 s2 where y: "FSD_sync sd ?s = (r2, s2)" by fastforce
  have "length (st_payload no_request) = DCI_BUFF_SIZE - payload_offset" by (simp add: no_request_def)
  from sync_fields [OF y assms(2) _ this] show ?thesis
    using assms(1,3,4) y by (auto simp: FSD_Open_def split: if_splits)
qed

lemma open_fs: "fst (FSD_Open sd (s\<lparr>fsd_fs := x\<rparr>)) = fst (FSD_Open sd s)"
  by (simp add: FSD_Open_def FSD_sync_def FSD_wait_def FSD_notify_def case_prod_unfold)

text \<open>With a driver that keeps to the buffer and a wait that fails some time, the thread ends without an
  access outside the buffer. When its session could be opened, deleting the object then closes session and
  device; when not, deleting it writes through the null pointer of the buffer.\<close>

lemma storage_thread_life:
  assumes k: "keeps_to_buffer (DCI_BUFF_SIZE - payload_offset) sd" and "\<not> device_open s" "\<not> session_open s"
    and f: "fst (sd_wait sd (fsd_waits s + Suc (Suc n))) \<noteq> MC_DRV_OK"
  shows "\<exists>s1. FSD_run sd s = Some s1 \<and>
     (if fst (FSD_Open sd s) = MC_DRV_OK
      then (\<exists>s3. FSD_Close s1 = Some s3 \<and> \<not> session_open s3 \<and> \<not> device_open s3)
      else FSD_Close s1 = None \<and> \<not> session_open s1 \<and> \<not> device_open s1)"
proof -
  obtain fs1 where s1: "(if doesDirExist (fsd_fs s) (Some getTbStoragePath) then s
      else s\<lparr>fsd_fs := snd (mkdir getTbStoragePath (fsd_fs s))\<rparr>) = s\<lparr>fsd_fs := fs1\<rparr>"
    by (cases "doesDirExist (fsd_fs s) (Some getTbStoragePath)") (auto intro: that [of "fsd_fs s"])
  obtain r s2 where o: "FSD_Open sd (s\<lparr>fsd_fs := fs1\<rparr>) = (r, s2)" by fastforce
  have r: "r = fst (FSD_Open sd s)" using open_fs [of sd fs1 s] o by simp
  have a: "if r = MC_DRV_OK then (\<exists>rq. dci s2 = Some rq \<and> length (st_payload rq) = DCI_BUFF_SIZE - payload_offset) \<and> device_open s2 \<and>
       session_open s2 \<and> fsd_waits s2 \<le> fsd_waits s + 2
    else dci s2 = None \<and> \<not> device_open s2 \<and> \<not> session_open s2"
    using open_all_or_nothing [OF o k] assms(2,3) by (simp split: if_splits)
  show ?thesis
  proof (cases "r = MC_DRV_OK")
    case True
    then obtain rq where rq: "dci s2 = Some rq" "length (st_payload rq) = DCI_BUFF_SIZE - payload_offset" and w: "fsd_waits s2 \<le> fsd_waits s + 2"
      using a by auto
    have "fst (sd_wait sd (fsd_waits s2 + (fsd_waits s + Suc (Suc n) - fsd_waits s2))) \<noteq> MC_DRV_OK" using f w by simp
    from listen_returns [OF k this rq] obtain s3 where "FSD_listenDci sd s2 = Some s3" "dci s3 \<noteq> None" by blast
    then show ?thesis using True r o s1 by (auto simp: FSD_run_def FSD_Close_def)
  next
    case False
    then show ?thesis using a r o s1 by (simp add: FSD_run_def FSD_Close_def)
  qed
qed

text \<open>A driver whose session cannot be opened, and one that fails the third wait.\<close>

definition sample_driver :: "u32 \<Rightarrow> storage_driver" where
  "sample_driver r = \<lparr>sd_calloc = True, sd_openDevice = 0, sd_openSession = r,
     sd_wait = (\<lambda>n. (if n < 2 then 0 else 1, \<lambda>rq. rq\<lparr>st_payloadLen := 0\<rparr>)), sd_notify = (\<lambda>_. 0)\<rparr>"

definition sample_fsd :: fsd where
  "sample_fsd = \<lparr>fsd_fs = storage_fs, dci = None, device_open = False, session_open = False, fsd_waits = 0, fsd_notifies = 0\<rparr>"

lemma storage_thread_life_witness:
  "(\<exists>s1 s3. FSD_run (sample_driver 0) sample_fsd = Some s1 \<and> FSD_Close s1 = Some s3) \<and>
   (\<exists>s1. FSD_run (sample_driver 5) sample_fsd = Some s1 \<and> FSD_Close s1 = None)"
proof -
  have k: "keeps_to_buffer (DCI_BUFF_SIZE - payload_offset) (sample_driver r)" for r
    by (simp add: keeps_to_buffer_def sample_driver_def)
  have c: "\<not> device_open sample_fsd" "\<not> session_open sample_fsd" by (simp_all add: sample_fsd_def)
  have f: "fst (sd_wait (sample_driver r) (fsd_waits sample_fsd + Suc (Suc 0))) \<noteq> MC_DRV_OK" for r
    by (simp add: sample_driver_def sample_fsd_def)
  have "fst (FSD_Open (sample_driver 0) sample_fsd) = MC_DRV_OK" "fst (FSD_Open (sample_driver 5) sample_fsd) \<noteq> MC_DRV_OK"
    by (simp_all add: FSD_Open_def FSD_sync_def FSD_wait_def FSD_notify_def sample_driver_def sample_fsd_def)
  then show ?thesis using storage_thread_life [OF k c f, of 0] storage_thread_life [OF k c f, of 5] by auto
qed

end
