(* ===== verification/KernelModule.thy ===== *)
theory KernelModule
  imports Versions
begin

text \<open>
  Access to the kernel module (src/MobiCoreDriverLib/Kernel/CKMod.cpp and Platforms/Generic/CMcKMod.cpp), as the
  client library uses it. The module is not part of the repository: each call takes its answer
  from a sequence in the state, and the state keeps the calls that were made with their answers, so that what is
  registered with the module can be told from them. \<open>errno\<close> is a field that a call that fails sets.
\<close>

type_synonym addr = u64

subsection \<open>Calls\<close>

datatype kernel_call =
    IO_OPEN | IO_CLOSE | IO_MAP_WSM u32 | IO_MAP_MCI u32 | IO_FREE u32 | IO_REG_WSM addr u32 u32 | IO_UNREG_WSM u32
  | IO_LOCK_WSM u32 | IO_UNLOCK_WSM u32 | IO_RESOLVE_WSM u32 u32 | IO_RESOLVE_CONT_WSM u32 u32 | IO_CLEAN_WSM
  | IO_INIT u32 u32 u32 | IO_INFO u32 | IO_YIELD | IO_NSIQ | IO_LOG_SETUP | IO_VERSION
  | IO_MMAP u32 u64 | IO_MUNMAP addr u32 | IO_READ u32

text \<open>An answer: the result, where not zero is a failure, the error number, and the fields a call gives back.\<close>

record kernel_answer =
  ka_ret :: u32
  ka_errno :: u32
  ka_handle :: u32
  ka_phys :: u64
  ka_word :: u32 \<comment> \<open>a length, a state, a version or a count\<close>
  ka_word2 :: u32
  ka_reused :: bool
  ka_addr :: addr

record kmod =
  fdKMod :: bool \<comment> \<open>whether the descriptor is a valid one\<close>
  kn_errno :: u32
  kn_answers :: "nat \<Rightarrow> kernel_answer"
  kn_log :: "(kernel_call \<times> kernel_answer) list"

definition kcall :: "kernel_call \<Rightarrow> kmod \<Rightarrow> kernel_answer \<times> kmod" where
  "kcall c k = (let a = kn_answers k (length (kn_log k)) in
     (a, k\<lparr>kn_log := kn_log k @ [(c, a)], kn_errno := (if ka_ret a \<noteq> 0 then ka_errno a else kn_errno k)\<rparr>))"

definition kmod_error :: "kmod \<Rightarrow> u32" where "kmod_error k = MAKE_MC_DRV_KMOD_WITH_ERRNO (kn_errno k)"

subsection \<open>CKMod\<close>

definition CKMod_init :: "kmod \<Rightarrow> kmod" where "CKMod_init k = k\<lparr>fdKMod := False\<rparr>"

definition CKMod_isOpen :: "kmod \<Rightarrow> bool" where "CKMod_isOpen k = fdKMod k"

definition CKMod_open :: "kmod \<Rightarrow> u32 \<times> kmod" where
  "CKMod_open k =
     (if CKMod_isOpen k then (MC_DRV_ERR_DEVICE_ALREADY_OPEN, k)
      else case kcall IO_OPEN k of (a, k1) \<Rightarrow>
        if ka_ret a \<noteq> 0 then (kmod_error k1, k1) else (MC_DRV_OK, k1\<lparr>fdKMod := True\<rparr>))"

definition CKMod_close :: "kmod \<Rightarrow> kmod" where
  "CKMod_close k =
     (if CKMod_isOpen k then (case kcall IO_CLOSE k of (a, k1) \<Rightarrow> if ka_ret a \<noteq> 0 then k1 else k1\<lparr>fdKMod := False\<rparr>) else k)"

subsection \<open>CMcKMod\<close>

text \<open>A call on an open module whose failure becomes a code with the error number in it, and one whose result is
  returned as it is.\<close>

definition kmod_call :: "kernel_call \<Rightarrow> kmod \<Rightarrow> (u32 + kernel_answer) \<times> kmod" where
  "kmod_call c k =
     (if \<not> CKMod_isOpen k then (Inl MC_DRV_ERR_KMOD_NOT_OPEN, k)
      else case kcall c k of (a, k1) \<Rightarrow> (if ka_ret a \<noteq> 0 then Inl (kmod_error k1) else Inr a, k1))"

definition kmod_raw :: "kernel_call \<Rightarrow> kmod \<Rightarrow> (u32 \<times> kernel_answer option) \<times> kmod" where
  "kmod_raw c k =
     (if \<not> CKMod_isOpen k then ((MC_DRV_ERR_KMOD_NOT_OPEN, None), k)
      else case kcall c k of (a, k1) \<Rightarrow> ((ka_ret a, if ka_ret a \<noteq> 0 then None else Some a), k1))"

definition kmod_mapWsm :: "u32 \<Rightarrow> kmod \<Rightarrow> (u32 + u32 \<times> addr) \<times> kmod" where
  "kmod_mapWsm len k = (case kmod_call (IO_MAP_WSM len) k of (Inl e, k1) \<Rightarrow> (Inl e, k1)
     | (Inr a, k1) \<Rightarrow> (case kcall (IO_MMAP len (ka_phys a)) k1 of (b, k2) \<Rightarrow>
         if ka_ret b \<noteq> 0 then (case kcall (IO_FREE (ka_handle a)) k2 of (_, k3) \<Rightarrow> (Inl (kmod_error k3), k3))
         else (Inr (ka_handle a, ka_addr b), k2)))"

definition kmod_mapMCI :: "u32 \<Rightarrow> kmod \<Rightarrow> (u32 + addr \<times> bool) \<times> kmod" where
  "kmod_mapMCI len k = (case kmod_call (IO_MAP_MCI len) k of (Inl e, k1) \<Rightarrow> (Inl e, k1)
     | (Inr a, k1) \<Rightarrow> (case kcall (IO_MMAP len 0) k1 of (b, k2) \<Rightarrow>
         (if ka_ret b \<noteq> 0 then Inl (kmod_error k2) else Inr (ka_addr b, ka_reused a), k2)))"

text \<open>The number of bytes read, or -1; without a module a code that looks like a number.\<close>

definition kmod_read :: "u32 \<Rightarrow> kmod \<Rightarrow> u32 \<times> kmod" where
  "kmod_read len k =
     (if \<not> CKMod_isOpen k then (MC_DRV_ERR_KMOD_NOT_OPEN, k)
      else case kcall (IO_READ len) k of (a, k1) \<Rightarrow> (if ka_ret a \<noteq> 0 then -1 else ka_word a, k1))"

definition kmod_waitSSIQ :: "kmod \<Rightarrow> bool \<times> kmod" where
  "kmod_waitSSIQ k = (case kmod_read 4 k of (n, k1) \<Rightarrow> (n = 4, k1))"

definition kmod_fcInit :: "u32 \<Rightarrow> u32 \<Rightarrow> u32 \<Rightarrow> kmod \<Rightarrow> u32 \<times> kmod" where
  "kmod_fcInit nqLength mcpOffset mcpLength k = (case kmod_raw (IO_INIT nqLength mcpOffset mcpLength) k of ((r, _), k1) \<Rightarrow> (r, k1))"

definition kmod_fcInfo :: "u32 \<Rightarrow> kmod \<Rightarrow> (u32 \<times> (u32 \<times> u32) option) \<times> kmod" where
  "kmod_fcInfo extInfoId k = (case kmod_raw (IO_INFO extInfoId) k of ((r, a), k1) \<Rightarrow>
     ((r, map_option (\<lambda>a. (ka_word a, ka_word2 a)) a), k1))"

definition kmod_fcYield :: "kmod \<Rightarrow> u32 \<times> kmod" where
  "kmod_fcYield k = (case kmod_raw IO_YIELD k of ((r, _), k1) \<Rightarrow> (r, k1))"

definition kmod_fcNSIQ :: "kmod \<Rightarrow> u32 \<times> kmod" where
  "kmod_fcNSIQ k = (case kmod_raw IO_NSIQ k of ((r, _), k1) \<Rightarrow> (r, k1))"

definition kmod_free :: "u32 \<Rightarrow> addr \<Rightarrow> u32 \<Rightarrow> kmod \<Rightarrow> u32 \<times> kmod" where
  "kmod_free handle buffer len k =
     (if \<not> CKMod_isOpen k then (MC_DRV_ERR_KMOD_NOT_OPEN, k)
      else case kmod_call (IO_FREE handle) (snd (kcall (IO_MUNMAP buffer len) k)) of
        (Inl e, k1) \<Rightarrow> (e, k1) | (Inr _, k1) \<Rightarrow> (MC_DRV_OK, k1))"

definition kmod_registerWsmL2 :: "addr \<Rightarrow> u32 \<Rightarrow> u32 \<Rightarrow> kmod \<Rightarrow> (u32 + u32 \<times> u64) \<times> kmod" where
  "kmod_registerWsmL2 buffer len pid k = (case kmod_call (IO_REG_WSM buffer len pid) k of
     (Inl e, k1) \<Rightarrow> (Inl e, k1) | (Inr a, k1) \<Rightarrow> (Inr (ka_handle a, ka_phys a), k1))"

definition kmod_unregisterWsmL2 :: "u32 \<Rightarrow> kmod \<Rightarrow> u32 \<times> kmod" where
  "kmod_unregisterWsmL2 handle k = (case kmod_call (IO_UNREG_WSM handle) k of
     (Inl e, k1) \<Rightarrow> (e, k1) | (Inr _, k1) \<Rightarrow> (MC_DRV_OK, k1))"

definition kmod_lockWsmL2 :: "u32 \<Rightarrow> kmod \<Rightarrow> u32 \<times> kmod" where
  "kmod_lockWsmL2 handle k = (case kmod_raw (IO_LOCK_WSM handle) k of ((r, _), k1) \<Rightarrow> (r, k1))"

definition kmod_unlockWsmL2 :: "u32 \<Rightarrow> kmod \<Rightarrow> u32 \<times> kmod" where
  "kmod_unlockWsmL2 handle k = (case kmod_raw (IO_UNLOCK_WSM handle) k of ((r, _), k1) \<Rightarrow> (r, k1))"

definition kmod_findWsmL2 :: "u32 \<Rightarrow> u32 \<Rightarrow> kmod \<Rightarrow> u64 \<times> kmod" where
  "kmod_findWsmL2 handle fd k = (case kmod_raw (IO_RESOLVE_WSM handle fd) k of
     ((_, None), k1) \<Rightarrow> (0, k1) | ((_, Some a), k1) \<Rightarrow> (ka_phys a, k1))"

definition kmod_findContiguousWsm :: "u32 \<Rightarrow> u32 \<Rightarrow> kmod \<Rightarrow> (u32 \<times> (u64 \<times> u32) option) \<times> kmod" where
  "kmod_findContiguousWsm handle fd k = (case kmod_raw (IO_RESOLVE_CONT_WSM handle fd) k of
     ((r, a), k1) \<Rightarrow> ((r, map_option (\<lambda>a. (ka_phys a, ka_word a)) a), k1))"

definition kmod_cleanupWsmL2 :: "kmod \<Rightarrow> u32 \<times> kmod" where
  "kmod_cleanupWsmL2 k = (case kmod_raw IO_CLEAN_WSM k of ((r, _), k1) \<Rightarrow> (r, k1))"

definition kmod_setupLog :: "kmod \<Rightarrow> u32 \<times> kmod" where
  "kmod_setupLog k = (case kmod_raw IO_LOG_SETUP k of ((r, _), k1) \<Rightarrow> (r, k1))"

definition checkVersionOkMCDRVMODULEAPI :: "u32 \<Rightarrow> bool" where "checkVersionOkMCDRVMODULEAPI = checkVersionOk 1 1"

definition kmod_checkVersion :: "kmod \<Rightarrow> bool \<times> kmod" where
  "kmod_checkVersion k = (case kmod_raw IO_VERSION k of
     ((_, None), k1) \<Rightarrow> (False, k1) | ((_, Some a), k1) \<Rightarrow> (checkVersionOkMCDRVMODULEAPI (ka_word a), k1))"

subsection \<open>What the module holds for the program\<close>

text \<open>The handles of buffers registered and of memory allocated, the last one first, from the calls that were made.\<close>

fun l2_of :: "kernel_call \<times> kernel_answer \<Rightarrow> u32 list \<Rightarrow> u32 list" where
  "l2_of (IO_REG_WSM _ _ _, a) hs = (if ka_ret a = 0 then ka_handle a # hs else hs)"
| "l2_of (IO_UNREG_WSM h, a) hs = (if ka_ret a = 0 then remove1 h hs else hs)"
| "l2_of _ hs = hs"

fun wsm_of :: "kernel_call \<times> kernel_answer \<Rightarrow> u32 list \<Rightarrow> u32 list" where
  "wsm_of (IO_MAP_WSM _, a) hs = (if ka_ret a = 0 then ka_handle a # hs else hs)"
| "wsm_of (IO_FREE h, a) hs = (if ka_ret a = 0 then remove1 h hs else hs)"
| "wsm_of _ hs = hs"

definition l2_live :: "kmod \<Rightarrow> u32 list" where "l2_live k = fold l2_of (kn_log k) []"
definition wsm_live :: "kmod \<Rightarrow> u32 list" where "wsm_live k = fold wsm_of (kn_log k) []"

lemma kmod_error_fails [simp]: "kmod_error k \<noteq> 0"
proof -
  have "bit (kmod_error k) 1" by (simp add: kmod_error_def MAKE_MC_DRV_KMOD_WITH_ERRNO_def bit_simps)
  then show ?thesis by auto
qed

lemma live_call:
  "l2_live (snd (kcall c k)) = l2_of (c, fst (kcall c k)) (l2_live k)"
  "wsm_live (snd (kcall c k)) = wsm_of (c, fst (kcall c k)) (wsm_live k)"
  by (simp_all add: l2_live_def wsm_live_def kcall_def Let_def)

lemma live_fd [simp]: "l2_live (k\<lparr>fdKMod := b\<rparr>) = l2_live k" "wsm_live (k\<lparr>fdKMod := b\<rparr>) = wsm_live k"
  by (simp_all add: l2_live_def wsm_live_def)

lemma fd_call: "fdKMod (snd (kcall c k)) = fdKMod k"
  by (simp add: kcall_def Let_def)

text \<open>What each call of the client library does to what the module holds.\<close>

lemma register_live:
  assumes "kmod_registerWsmL2 b len pid k = (r, k1)"
  shows "l2_live k1 = (case r of Inl _ \<Rightarrow> l2_live k | Inr (h, _) \<Rightarrow> h # l2_live k) \<and> wsm_live k1 = wsm_live k \<and> fdKMod k1 = fdKMod k"
  using assms live_call [of "IO_REG_WSM b len pid" k] fd_call [of "IO_REG_WSM b len pid" k]
  by (auto simp: kmod_registerWsmL2_def kmod_call_def split: prod.splits if_splits)

lemma unregister_live:
  assumes "kmod_unregisterWsmL2 h k = (r, k1)"
  shows "l2_live k1 = (if r = MC_DRV_OK then remove1 h (l2_live k) else l2_live k) \<and> wsm_live k1 = wsm_live k \<and> fdKMod k1 = fdKMod k"
  using assms live_call [of "IO_UNREG_WSM h" k] fd_call [of "IO_UNREG_WSM h" k]
  by (auto simp: kmod_unregisterWsmL2_def kmod_call_def split: prod.splits if_splits)

lemma mapWsm_live:
  assumes "kmod_mapWsm len k = (r, k1)"
  shows "l2_live k1 = l2_live k \<and> fdKMod k1 = fdKMod k \<and>
    (case r of Inl _ \<Rightarrow> wsm_live k1 = wsm_live k \<or> (\<exists>h. wsm_live k1 = h # wsm_live k) | Inr (h, _) \<Rightarrow> wsm_live k1 = h # wsm_live k)"
proof -
  obtain a ka where a: "kcall (IO_MAP_WSM len) k = (a, ka)" by fastforce
  obtain b kb where b: "kcall (IO_MMAP len (ka_phys a)) ka = (b, kb)" by fastforce
  obtain c kc where c: "kcall (IO_FREE (ka_handle a)) kb = (c, kc)" by fastforce
  show ?thesis
    using assms live_call [of "IO_MAP_WSM len" k] live_call [of "IO_MMAP len (ka_phys a)" ka] live_call [of "IO_FREE (ka_handle a)" kb]
      fd_call [of "IO_MAP_WSM len" k] fd_call [of "IO_MMAP len (ka_phys a)" ka] fd_call [of "IO_FREE (ka_handle a)" kb]
    by (auto simp: kmod_mapWsm_def kmod_call_def a b c split: if_splits)
qed

lemma free_live:
  assumes "kmod_free h b len k = (r, k1)"
  shows "l2_live k1 = l2_live k \<and> fdKMod k1 = fdKMod k \<and> wsm_live k1 = (if r = MC_DRV_OK then remove1 h (wsm_live k) else wsm_live k)"
proof -
  obtain a ka where a: "kcall (IO_MUNMAP b len) k = (a, ka)" by fastforce
  obtain c kc where c: "kcall (IO_FREE h) ka = (c, kc)" by fastforce
  show ?thesis
    using assms live_call [of "IO_MUNMAP b len" k] live_call [of "IO_FREE h" ka] fd_call [of "IO_MUNMAP b len" k] fd_call [of "IO_FREE h" ka]
    by (auto simp: kmod_free_def kmod_call_def CKMod_isOpen_def a c split: if_splits)
qed

end
