(* ===== verification/ClientDevice.thy ===== *)
theory ClientDevice
  imports KernelModule
begin

text \<open>
  The objects of the client library: sockets (src/MobiCoreDriverLib/Common/Connection.cpp), the device a
  client opens and its sessions (src/MobiCoreDriverLib/ClientLib/Device.cpp and Session.cpp). The peer
  of the sockets is a parameter: a record of functions over a state of any type, which
  later theories fill with arbitrary answers or with the daemon itself.
\<close>

subsection \<open>Sockets\<close>

text \<open>What \<open>readData\<close> gives: bytes, of which none mean that the peer has closed the connection, the -1 of an error,
  with whether a signal caused it, or the -2 of a time-out.\<close>

datatype receive_result = Received bytes | Read_failed bool | Timed_out

text \<open>Operations on sockets: connecting to the daemon, which gives a connection, writing everything,
  reading at most so many bytes within a time, looking whether the peer is there, and closing.\<close>

record 'n socket =
  so_connect :: "'n \<Rightarrow> connection option \<times> 'n"
  so_write :: "connection \<Rightarrow> bytes \<Rightarrow> 'n \<Rightarrow> bool \<times> 'n"
  so_read :: "connection \<Rightarrow> nat \<Rightarrow> int \<Rightarrow> 'n \<Rightarrow> receive_result \<times> 'n"
  so_alive :: "connection \<Rightarrow> 'n \<Rightarrow> bool \<times> 'n"
  so_close :: "connection \<Rightarrow> 'n \<Rightarrow> 'n"

text \<open>\<open>writeData\<close> over the results of \<open>send\<close>: how many bytes each call took, \<open>None\<close> for an error.\<close>

function writeData :: "(nat \<Rightarrow> nat option) \<Rightarrow> nat \<Rightarrow> nat \<Rightarrow> bool" where
  "writeData send n left =
     (if left = 0 then True
      else case send n of None \<Rightarrow> False
        | Some wlen \<Rightarrow> if wlen = 0 then False else writeData send (Suc n) (left - wlen))"
  by pat_completeness auto
termination by (relation "measure (\<lambda>(_, _, left). left)") auto

declare writeData.simps [simp del]

subsection \<open>Sessions\<close>

record bulk =
  bb_virtAddr :: addr
  bb_sVirtualAddr :: u32
  bb_len :: u32
  bb_handle :: u32

record csession =
  cs_id :: u32
  notificationSocket :: connection
  bulkBufferDescriptors :: "bulk list"
  lastErr :: u32

definition Session_init :: "u32 \<Rightarrow> connection \<Rightarrow> csession" where
  "Session_init sid c = \<lparr>cs_id = sid, notificationSocket = c, bulkBufferDescriptors = [], lastErr = 0\<rparr>"

text \<open>The destructor unregisters the buffers that are left, and closes the connection.\<close>

definition Session_delete :: "'n socket \<Rightarrow> csession \<Rightarrow> kmod \<times> 'n \<Rightarrow> kmod \<times> 'n" where
  "Session_delete so cs = (\<lambda>(k, n).
     (fold (\<lambda>b k. snd (kmod_unregisterWsmL2 (bb_handle b) k)) (bulkBufferDescriptors cs) k,
      so_close so (notificationSocket cs) n))"

definition setErrorInfo :: "u32 \<Rightarrow> csession \<Rightarrow> csession" where "setErrorInfo err cs = cs\<lparr>lastErr := err\<rparr>"
definition getLastErr :: "csession \<Rightarrow> u32" where "getLastErr = lastErr"

definition addBulkBuf :: "addr \<Rightarrow> u32 \<Rightarrow> csession \<Rightarrow> kmod \<Rightarrow> (u32 + bulk) \<times> csession \<times> kmod" where
  "addBulkBuf buf len cs k =
     (if list_ex (\<lambda>b. bb_virtAddr b = buf) (bulkBufferDescriptors cs) then (Inl MC_DRV_ERR_BUFFER_ALREADY_MAPPED, cs, k)
      else case kmod_registerWsmL2 buf len 0 k of (Inl e, k1) \<Rightarrow> (Inl e, cs, k1)
        | (Inr (handle, _), k1) \<Rightarrow>
          let b = \<lparr>bb_virtAddr = buf, bb_sVirtualAddr = 0, bb_len = len, bb_handle = handle\<rparr>
          in (Inr b, cs\<lparr>bulkBufferDescriptors := bulkBufferDescriptors cs @ [b]\<rparr>, k1))"

definition addBulkBuf_made :: "bulk option \<Rightarrow> csession \<Rightarrow> csession" where
  "addBulkBuf_made b cs = (case b of None \<Rightarrow> cs | Some b \<Rightarrow> cs\<lparr>bulkBufferDescriptors := bulkBufferDescriptors cs @ [b]\<rparr>)"

definition getBufHandle :: "u32 \<Rightarrow> u32 \<Rightarrow> csession \<Rightarrow> u32" where
  "getBufHandle sVirtAddr sVirtualLen cs =
     (case find (\<lambda>b. bb_sVirtualAddr b = sVirtAddr \<and> bb_len b = sVirtualLen) (bulkBufferDescriptors cs) of
        None \<Rightarrow> 0 | Some b \<Rightarrow> bb_handle b)"

text \<open>The first descriptor of an address is taken off the list; when the kernel module cannot unregister it, it is
  off the list all the same.\<close>

fun remove_first :: "('a \<Rightarrow> bool) \<Rightarrow> 'a list \<Rightarrow> 'a list" where
  "remove_first P [] = []"
| "remove_first P (x # xs) = (if P x then xs else x # remove_first P xs)"

definition removeBulkBuf :: "addr \<Rightarrow> csession \<Rightarrow> kmod \<Rightarrow> u32 \<times> csession \<times> kmod" where
  "removeBulkBuf virtAddr cs k =
     (case find (\<lambda>b. bb_virtAddr b = virtAddr) (bulkBufferDescriptors cs) of
        None \<Rightarrow> (MC_DRV_ERR_BLK_BUFF_NOT_FOUND, cs, k)
      | Some b \<Rightarrow> (case kmod_unregisterWsmL2 (bb_handle b) k of (ret, k1) \<Rightarrow>
          (ret, cs\<lparr>bulkBufferDescriptors := remove_first (\<lambda>b. bb_virtAddr b = virtAddr) (bulkBufferDescriptors cs)\<rparr>, k1)))"

subsection \<open>Devices\<close>

record cwsm =
  cw_virtAddr :: addr
  cw_len :: u32
  cw_handle :: u32

record cdevice =
  isValid :: bool
  cd_connection :: connection
  sessionList :: "csession list"
  wsmL2List :: "cwsm list"

text \<open>A process that uses the library: its device, which a null pointer stands for when there is none, the module,
  the sockets, and what is in the memory of local variables that were not written.\<close>

record 'n client =
  cl_device :: "cdevice option"
  cl_kmod :: kmod
  cl_net :: 'n
  cl_stack :: "nat \<Rightarrow> u8"

definition Device_init :: "connection \<Rightarrow> cdevice" where
  "Device_init c = \<lparr>isValid = True, cd_connection = c, sessionList = [], wsmL2List = []\<rparr>"

text \<open>The destructor deletes the sessions, frees the memory and closes the connection and the module.\<close>

definition Device_delete :: "'n socket \<Rightarrow> cdevice \<Rightarrow> kmod \<times> 'n \<Rightarrow> kmod \<times> 'n" where
  "Device_delete so dv kn =
     (case fold (Session_delete so) (sessionList dv) kn of (k, n) \<Rightarrow>
        (CKMod_close (fold (\<lambda>w k. snd (kmod_free (cw_handle w) (cw_virtAddr w) (cw_len w) k)) (wsmL2List dv) k),
         so_close so (cd_connection dv) n))"

text \<open>\<open>open\<close> returns a truth value, so every error of the module becomes the number 1.\<close>

definition Device_open :: "kmod \<Rightarrow> bool \<times> kmod" where
  "Device_open k = (case CKMod_open k of (r, k1) \<Rightarrow> (r \<noteq> 0, k1))"

definition setInvalid :: "cdevice \<Rightarrow> cdevice" where "setInvalid dv = dv\<lparr>isValid := False\<rparr>"

definition hasSessions :: "cdevice \<Rightarrow> bool" where "hasSessions dv \<longleftrightarrow> length (sessionList dv) > 0"

definition createNewSession :: "u32 \<Rightarrow> connection \<Rightarrow> bulk option \<Rightarrow> cdevice \<Rightarrow> cdevice" where
  "createNewSession sid c b dv = dv\<lparr>sessionList := sessionList dv @ [addBulkBuf_made b (Session_init sid c)]\<rparr>"

definition removeSession :: "'n socket \<Rightarrow> u32 \<Rightarrow> cdevice \<Rightarrow> kmod \<times> 'n \<Rightarrow> (bool \<times> cdevice) \<times> kmod \<times> 'n" where
  "removeSession so sid dv kn =
     (case find (\<lambda>s. cs_id s = sid) (sessionList dv) of None \<Rightarrow> ((False, dv), kn)
      | Some s \<Rightarrow> ((True, dv\<lparr>sessionList := remove_first (\<lambda>s. cs_id s = sid) (sessionList dv)\<rparr>), Session_delete so s kn))"

definition resolveSessionId :: "u32 \<Rightarrow> cdevice \<Rightarrow> csession option" where
  "resolveSessionId sid dv = find (\<lambda>s. cs_id s = sid) (sessionList dv)"

text \<open>A change of the first session with an id.\<close>

fun change_first :: "('a \<Rightarrow> bool) \<Rightarrow> ('a \<Rightarrow> 'a) \<Rightarrow> 'a list \<Rightarrow> 'a list" where
  "change_first P f [] = []"
| "change_first P f (x # xs) = (if P x then f x # xs else x # change_first P f xs)"

definition set_session :: "u32 \<Rightarrow> csession \<Rightarrow> cdevice \<Rightarrow> cdevice" where
  "set_session sid s dv = dv\<lparr>sessionList := change_first (\<lambda>s. cs_id s = sid) (\<lambda>_. s) (sessionList dv)\<rparr>"

definition allocateContiguousWsm :: "u32 \<Rightarrow> cdevice \<Rightarrow> kmod \<Rightarrow> (u32 + cwsm) \<times> cdevice \<times> kmod" where
  "allocateContiguousWsm len dv k =
     (if len = 0 then (Inl MC_DRV_ERR_INVALID_LENGTH, dv, k)
      else case kmod_mapWsm len k of (Inl e, k1) \<Rightarrow> (Inl e, dv, k1)
        | (Inr (handle, a), k1) \<Rightarrow>
          let w = \<lparr>cw_virtAddr = a, cw_len = len, cw_handle = handle\<rparr> in (Inr w, dv\<lparr>wsmL2List := wsmL2List dv @ [w]\<rparr>, k1))"

definition findContiguousWsm_client :: "addr \<Rightarrow> cdevice \<Rightarrow> cwsm option" where
  "findContiguousWsm_client virtAddr dv = (if virtAddr = 0 then None else find (\<lambda>w. cw_virtAddr w = virtAddr) (wsmL2List dv))"

definition freeContiguousWsm :: "cwsm \<Rightarrow> cdevice \<Rightarrow> kmod \<Rightarrow> u32 \<times> cdevice \<times> kmod" where
  "freeContiguousWsm w dv k =
     (case kmod_free (cw_handle w) (cw_virtAddr w) (cw_len w) k of (ret, k1) \<Rightarrow>
        (ret, if ret \<noteq> MC_DRV_OK then dv else dv\<lparr>wsmL2List := remove1 w (wsmL2List dv)\<rparr>, k1))"

definition mapBulkBuf :: "addr \<Rightarrow> u32 \<Rightarrow> kmod \<Rightarrow> (u32 + bulk) \<times> kmod" where
  "mapBulkBuf buf len k = (case kmod_registerWsmL2 buf len 0 k of (Inl e, k1) \<Rightarrow> (Inl e, k1)
     | (Inr (handle, _), k1) \<Rightarrow> (Inr \<lparr>bb_virtAddr = buf, bb_sVirtualAddr = 0, bb_len = len, bb_handle = handle\<rparr>, k1))"

end
