(* ===== verification/ClientLibrary.thy ===== *)
theory ClientLibrary
  imports ClientDevice
begin

text \<open>
  The calls of the client library (src/MobiCoreDriverLib/ClientLib/ClientLib.cpp): what each checks, what
  it sends to the daemon, which answers it accepts and what it keeps. A null pointer is \<open>None\<close> or the
  address 0. The result comes with the client afterwards and what the call writes for its caller.
\<close>

subsection \<open>Requests and answers\<close>

definition with_net :: "('n \<Rightarrow> 'a \<times> 'n) \<Rightarrow> 'n client \<Rightarrow> 'a \<times> 'n client" where
  "with_net f cl = (case f (cl_net cl) of (a, n) \<Rightarrow> (a, cl\<lparr>cl_net := n\<rparr>))"

definition close_socket :: "'n socket \<Rightarrow> connection \<Rightarrow> 'n client \<Rightarrow> 'n client" where
  "close_socket so c cl = cl\<lparr>cl_net := so_close so c (cl_net cl)\<rparr>"

definition change_device :: "(cdevice \<Rightarrow> cdevice) \<Rightarrow> 'n client \<Rightarrow> 'n client" where
  "change_device f cl = cl\<lparr>cl_device := map_option f (cl_device cl)\<rparr>"

text \<open>\<open>RECV_FROM_DAEMON\<close>: the structure, its rest undefined when only a header came, or the error.\<close>

definition recv_from_daemon :: "'n socket \<Rightarrow> connection \<Rightarrow> nat \<Rightarrow> 'n client \<Rightarrow> (u32 + bytes) \<times> 'n client" where
  "recv_from_daemon so c n cl = (case with_net (so_read so c n (-1)) cl of (r, cl1) \<Rightarrow>
     (case r of
        Received d \<Rightarrow> if d = [] then Inl MC_DRV_ERR_SOCKET_READ
          else if length d \<noteq> n \<and> length d \<noteq> 4 then Inl MC_DRV_ERR_SOCKET_LENGTH
          else Inr (d @ map (cl_stack cl) [length d..<n])
      | _ \<Rightarrow> Inl MC_DRV_ERR_SOCKET_READ, cl1))"

text \<open>The answer to a request as a result code.\<close>

definition recv_result :: "'n socket \<Rightarrow> connection \<Rightarrow> 'n client \<Rightarrow> u32 \<times> 'n client" where
  "recv_result so c cl = (case recv_from_daemon so c 4 cl of (Inl e, cl1) \<Rightarrow> (e, cl1) | (Inr d, cl1) \<Rightarrow> (dec32 d, cl1))"

definition call_daemon :: "'n socket \<Rightarrow> connection \<Rightarrow> bytes \<Rightarrow> 'n client \<Rightarrow> u32 \<times> 'n client" where
  "call_daemon so c msg cl = (case with_net (so_write so c msg) cl of (ok, cl1) \<Rightarrow>
     if \<not> ok then (MC_DRV_ERR_SOCKET_WRITE, cl1) else recv_result so c cl1)"

subsection \<open>Devices\<close>

abbreviation (input) MC_DRV_CMD_OPEN_DEVICE :: u32 where "MC_DRV_CMD_OPEN_DEVICE \<equiv> 2"
abbreviation (input) MC_DRV_CMD_CLOSE_DEVICE :: u32 where "MC_DRV_CMD_CLOSE_DEVICE \<equiv> 3"
abbreviation (input) MC_DRV_CMD_NQ_CONNECT :: u32 where "MC_DRV_CMD_NQ_CONNECT \<equiv> 4"
abbreviation (input) MC_DRV_CMD_OPEN_SESSION :: u32 where "MC_DRV_CMD_OPEN_SESSION \<equiv> 5"
abbreviation (input) MC_DRV_CMD_CLOSE_SESSION :: u32 where "MC_DRV_CMD_CLOSE_SESSION \<equiv> 6"
abbreviation (input) MC_DRV_CMD_NOTIFY :: u32 where "MC_DRV_CMD_NOTIFY \<equiv> 7"
abbreviation (input) MC_DRV_CMD_MAP_BULK_BUF :: u32 where "MC_DRV_CMD_MAP_BULK_BUF \<equiv> 8"
abbreviation (input) MC_DRV_CMD_UNMAP_BULK_BUF :: u32 where "MC_DRV_CMD_UNMAP_BULK_BUF \<equiv> 9"
abbreviation (input) MC_DRV_CMD_GET_VERSION :: u32 where "MC_DRV_CMD_GET_VERSION \<equiv> 10"
abbreviation (input) MC_DRV_CMD_GET_MOBICORE_VERSION :: u32 where "MC_DRV_CMD_GET_MOBICORE_VERSION \<equiv> 11"
abbreviation (input) MC_DRV_CMD_OPEN_TRUSTLET :: u32 where "MC_DRV_CMD_OPEN_TRUSTLET \<equiv> 12"
abbreviation (input) MC_DRV_CMD_OPEN_TRUSTED_APP :: u32 where "MC_DRV_CMD_OPEN_TRUSTED_APP \<equiv> 13"

definition MC_MAX_TCI_LEN :: u32 where "MC_MAX_TCI_LEN = 0x100000"

definition checkVersionOkDAEMON :: "u32 \<Rightarrow> bool" where "checkVersionOkDAEMON = checkVersionOk 0 2"

text \<open>The result and the version, 0 unless the result is good.\<close>

definition getDaemonVersion :: "'n socket \<Rightarrow> connection \<Rightarrow> 'n client \<Rightarrow> (u32 \<times> u32) \<times> 'n client" where
  "getDaemonVersion so c cl = (case call_daemon so c (enc32 MC_DRV_CMD_GET_VERSION) cl of (mcResult, cl1) \<Rightarrow>
     if mcResult \<noteq> MC_DRV_OK then ((mcResult, 0), cl1)
     else case recv_from_daemon so c 4 cl1 of (Inl e, cl2) \<Rightarrow> ((e, 0), cl2) | (Inr v, cl2) \<Rightarrow> ((MC_DRV_OK, dec32 v), cl2))"

text \<open>The exchange with the daemon before the device is made.\<close>

definition open_at_daemon :: "'n socket \<Rightarrow> connection \<Rightarrow> 'n client \<Rightarrow> u32 \<times> 'n client" where
  "open_at_daemon so c cl = (case getDaemonVersion so c cl of ((mcResult, version), cl1) \<Rightarrow>
     if mcResult \<noteq> MC_DRV_OK then (mcResult, cl1)
     else if \<not> checkVersionOkDAEMON version then (MC_DRV_ERR_DAEMON_VERSION, cl1)
     else call_daemon so c (enc32 MC_DRV_CMD_OPEN_DEVICE @ enc32 0) cl1)"

definition mcOpenDevice_lib :: "'n socket \<Rightarrow> 'n client \<Rightarrow> u32 \<times> 'n client" where
  "mcOpenDevice_lib so cl = (case with_net (so_connect so) cl of
     (None, cl1) \<Rightarrow> (MC_DRV_ERR_SOCKET_CONNECT, cl1)
   | (Some c, cl1) \<Rightarrow> (case open_at_daemon so c cl1 of (mcResult, cl2) \<Rightarrow>
       if mcResult \<noteq> MC_DRV_OK then (mcResult, close_socket so c cl2)
       else (case Device_open (CKMod_init (cl_kmod cl2)) of (bad, k) \<Rightarrow>
         if bad then (case Device_delete so (Device_init c) (k, cl_net cl2) of (k1, n) \<Rightarrow> (1, cl2\<lparr>cl_kmod := k1, cl_net := n\<rparr>))
         else (MC_DRV_OK, cl2\<lparr>cl_kmod := k, cl_device := Some (Device_init c)\<rparr>))))"

text \<open>The checks that closing a device and asking for its sessions begin with.\<close>

definition device_idle :: "'n socket \<Rightarrow> cdevice \<Rightarrow> 'n client \<Rightarrow> u32 \<times> 'n client" where
  "device_idle so dv cl = (case with_net (so_alive so (cd_connection dv)) cl of (alive, cl1) \<Rightarrow>
     if \<not> alive then (MC_DRV_ERR_DAEMON_UNREACHABLE, change_device setInvalid cl1)
     else (if hasSessions dv then MC_DRV_ERR_SESSION_PENDING else MC_DRV_OK, cl1))"

definition mcCloseDevice_lib :: "'n socket \<Rightarrow> 'n client \<Rightarrow> u32 \<times> 'n client" where
  "mcCloseDevice_lib so cl = (case cl_device cl of None \<Rightarrow> (MC_DRV_ERR_DAEMON_DEVICE_NOT_OPEN, cl)
     | Some dv \<Rightarrow> (case device_idle so dv cl of (mcResult, cl1) \<Rightarrow>
         if mcResult \<noteq> MC_DRV_OK then (mcResult, cl1)
         else (case call_daemon so (cd_connection dv) (enc32 MC_DRV_CMD_CLOSE_DEVICE) cl1 of (mcResult, cl2) \<Rightarrow>
           (mcResult, if mcResult \<noteq> MC_DRV_OK then cl2 else change_device setInvalid cl2))))"

definition mcDeviceIsValid_lib :: "'n client \<Rightarrow> bool" where
  "mcDeviceIsValid_lib cl = (case cl_device cl of None \<Rightarrow> False | Some dv \<Rightarrow> isValid dv)"

definition mcDeviceHasOpenSessions_lib :: "'n socket \<Rightarrow> 'n client \<Rightarrow> u32 \<times> 'n client" where
  "mcDeviceHasOpenSessions_lib so cl = (case cl_device cl of None \<Rightarrow> (MC_DRV_ERR_DAEMON_DEVICE_NOT_OPEN, cl)
     | Some dv \<Rightarrow> device_idle so dv cl)"

subsection \<open>Opening sessions\<close>

text \<open>The buffer that is shared with the trustlet: allocated with \<open>mcMallocWsm\<close>, or registered here.\<close>

definition own_tci :: "u32 \<Rightarrow> cwsm \<Rightarrow> u32 + u32 \<times> bulk option" where
  "own_tci len w = (if cw_len w < len then Inl MC_DRV_ERR_TCI_GREATER_THAN_WSM else Inr (cw_handle w, None))"

definition map_tci :: "addr \<Rightarrow> u32 \<Rightarrow> 'n client \<Rightarrow> (u32 + u32 \<times> bulk option) \<times> 'n client" where
  "map_tci tci len cl = (case mapBulkBuf tci len (cl_kmod cl) of
     (Inl _, k) \<Rightarrow> (Inl MC_DRV_ERR_WSM_NOT_FOUND, cl\<lparr>cl_kmod := k\<rparr>)
   | (Inr b, k) \<Rightarrow> (Inr (bb_handle b, Some b), cl\<lparr>cl_kmod := k\<rparr>))"

definition session_tci :: "cdevice \<Rightarrow> addr \<Rightarrow> u32 \<Rightarrow> 'n client \<Rightarrow> (u32 + u32 \<times> bulk option) \<times> 'n client" where
  "session_tci dv tci len cl = (case findContiguousWsm_client tci dv of
     Some w \<Rightarrow> (own_tci len w, cl)
   | None \<Rightarrow> if tci \<noteq> 0 \<and> len \<noteq> 0 then map_tci tci len cl
             else (if len \<noteq> 0 then Inl MC_DRV_ERR_TCI_GREATER_THAN_WSM else Inr (0, None), cl))"

definition trustlet_tci :: "cdevice \<Rightarrow> addr \<Rightarrow> u32 \<Rightarrow> 'n client \<Rightarrow> (u32 + u32 \<times> bulk option) \<times> 'n client" where
  "trustlet_tci dv tci len cl = (case findContiguousWsm_client tci dv of Some w \<Rightarrow> (own_tci len w, cl) | None \<Rightarrow> map_tci tci len cl)"

text \<open>The code for an error of opening.\<close>

definition open_error :: "u32 \<Rightarrow> u32" where
  "open_error r = (if r AND 0xFF \<noteq> MC_DRV_ERR_MCP_ERROR then r
     else let mcp = drop_bit 8 r AND 0xFF in if 16 \<le> mcp \<and> mcp \<le> 23 then mcp + 9 else MC_DRV_ERR_MCP_ERROR)"

text \<open>The second connection, over which the notifications of the session come.\<close>

definition connect_notifications :: "'n socket \<Rightarrow> u32 \<Rightarrow> u32 \<Rightarrow> u32 \<Rightarrow> 'n client \<Rightarrow> (u32 + connection) \<times> 'n client" where
  "connect_notifications so sid deviceSessionId magic cl = (case with_net (so_connect so) cl of
     (None, cl1) \<Rightarrow> (Inl MC_DRV_ERR_SOCKET_CONNECT, cl1)
   | (Some c, cl1) \<Rightarrow> (case call_daemon so c (enc32 MC_DRV_CMD_NQ_CONNECT @ enc32 0 @ enc32 sid @ enc32 deviceSessionId @ enc32 magic) cl1 of
       (mcResult, cl2) \<Rightarrow> if mcResult \<noteq> MC_DRV_OK then (Inl mcResult, close_socket so c cl2) else (Inr c, cl2)))"

text \<open>From the answer of the daemon on. A descriptor of a buffer that is not needed is deleted without telling the kernel
  module. The session id is written as soon as it is known.\<close>

definition open_answer :: "'n socket \<Rightarrow> connection \<Rightarrow> bulk option \<Rightarrow> 'n client \<Rightarrow> (u32 \<times> u32 option) \<times> 'n client" where
  "open_answer so devCon b cl = (case recv_result so devCon cl of (mcResult, cl1) \<Rightarrow>
     if mcResult \<noteq> MC_DRV_OK then ((open_error mcResult, None), cl1)
     else (case recv_from_daemon so devCon 12 cl1 of (Inl e, cl2) \<Rightarrow> ((e, None), cl2)
       | (Inr d, cl2) \<Rightarrow>
         let sid = dec32 (take 4 d) in
         (case connect_notifications so sid (dec32 (take 4 (drop 4 d))) (dec32 (take 4 (drop 8 d))) cl2 of
            (Inl e, cl3) \<Rightarrow> ((e, Some sid), cl3)
          | (Inr c, cl3) \<Rightarrow> ((MC_DRV_OK, Some sid), change_device (createNewSession sid c b) cl3))))"

fun send_all :: "'n socket \<Rightarrow> connection \<Rightarrow> bytes list \<Rightarrow> 'n client \<Rightarrow> bool \<times> 'n client" where
  "send_all so c [] cl = (True, cl)"
| "send_all so c (m # ms) cl = (case with_net (so_write so c m) cl of (ok, cl1) \<Rightarrow> if ok then send_all so c ms cl1 else (False, cl1))"

definition open_request ::
    "'n socket \<Rightarrow> cdevice \<Rightarrow> (u32 \<Rightarrow> bytes list) \<Rightarrow> (u32 + u32 \<times> bulk option) \<times> 'n client \<Rightarrow> (u32 \<times> u32 option) \<times> 'n client" where
  "open_request so dv msgs r = (case r of (Inl e, cl) \<Rightarrow> ((e, None), cl)
     | (Inr (handle, b), cl) \<Rightarrow> (case send_all so (cd_connection dv) (msgs handle) cl of (ok, cl1) \<Rightarrow>
         if \<not> ok then ((MC_DRV_ERR_SOCKET_WRITE, None), cl1) else open_answer so (cd_connection dv) b cl1))"

definition open_uuid :: "u32 \<Rightarrow> 'n socket \<Rightarrow> bytes option \<Rightarrow> addr \<Rightarrow> u32 \<Rightarrow> 'n client \<Rightarrow> (u32 \<times> u32 option) \<times> 'n client" where
  "open_uuid cmd so uuid tci len cl = (case cl_device cl of None \<Rightarrow> ((MC_DRV_ERR_DAEMON_DEVICE_NOT_OPEN, None), cl)
     | Some dv \<Rightarrow> (case uuid of None \<Rightarrow> ((MC_DRV_ERR_NULL_POINTER, None), cl)
       | Some u \<Rightarrow> if len > MC_MAX_TCI_LEN then ((MC_DRV_ERR_TCI_TOO_BIG, None), cl)
           else open_request so dv (\<lambda>handle. [enc32 cmd @ enc32 0 @ u @ enc32 (ucast (tci AND 0xFFF)) @ enc32 handle @ enc32 len])
                  (session_tci dv tci len cl)))"

definition mcOpenSession_lib :: "'n socket \<Rightarrow> bytes option \<Rightarrow> addr \<Rightarrow> u32 \<Rightarrow> 'n client \<Rightarrow> (u32 \<times> u32 option) \<times> 'n client" where
  "mcOpenSession_lib = open_uuid MC_DRV_CMD_OPEN_SESSION"

definition mcOpenGPTA_lib :: "'n socket \<Rightarrow> bytes option \<Rightarrow> addr \<Rightarrow> u32 \<Rightarrow> 'n client \<Rightarrow> (u32 \<times> u32 option) \<times> 'n client" where
  "mcOpenGPTA_lib = open_uuid MC_DRV_CMD_OPEN_TRUSTED_APP"

definition mcOpenTrustlet_lib ::
    "'n socket \<Rightarrow> u32 \<Rightarrow> bytes option \<Rightarrow> addr \<Rightarrow> u32 \<Rightarrow> 'n client \<Rightarrow> (u32 \<times> u32 option) \<times> 'n client" where
  "mcOpenTrustlet_lib so spid trustlet tci len cl = (case cl_device cl of None \<Rightarrow> ((MC_DRV_ERR_DAEMON_DEVICE_NOT_OPEN, None), cl)
     | Some dv \<Rightarrow> (case trustlet of None \<Rightarrow> ((MC_DRV_ERR_NULL_POINTER, None), cl)
       | Some t \<Rightarrow> if tci = 0 then ((MC_DRV_ERR_NULL_POINTER, None), cl)
           else if len > MC_MAX_TCI_LEN then ((MC_DRV_ERR_TCI_TOO_BIG, None), cl)
           else open_request so dv (\<lambda>handle. [enc32 MC_DRV_CMD_OPEN_TRUSTLET @ enc32 0 @ enc32 spid @ enc32 (of_nat (length t)) @
                    enc32 (ucast (tci AND 0xFFF)) @ enc32 handle @ enc32 len, t]) (trustlet_tci dv tci len cl)))"

subsection \<open>Sessions\<close>

text \<open>A code for a dead connection makes the device invalid. Other failures share the number of that code.\<close>

definition invalid_if_dead :: "u32 \<times> 'n client \<Rightarrow> u32 \<times> 'n client" where
  "invalid_if_dead = (\<lambda>(mcResult, cl). (mcResult,
     if mcResult = MC_DRV_ERR_SOCKET_WRITE \<or> mcResult = MC_DRV_ERR_SOCKET_READ then change_device setInvalid cl else cl))"

text \<open>\<open>CHECK_DEVICE\<close> and \<open>CHECK_SESSION\<close>.\<close>

definition with_session :: "u32 \<Rightarrow> (cdevice \<Rightarrow> csession \<Rightarrow> u32 \<times> 'n client) \<Rightarrow> 'n client \<Rightarrow> u32 \<times> 'n client" where
  "with_session sid f cl = (case cl_device cl of None \<Rightarrow> (MC_DRV_ERR_DAEMON_DEVICE_NOT_OPEN, cl)
     | Some dv \<Rightarrow> (case resolveSessionId sid dv of None \<Rightarrow> (MC_DRV_ERR_UNKNOWN_SESSION, cl) | Some s \<Rightarrow> f dv s))"

definition mcCloseSession_lib :: "'n socket \<Rightarrow> u32 \<Rightarrow> 'n client \<Rightarrow> u32 \<times> 'n client" where
  "mcCloseSession_lib so sid cl = invalid_if_dead (with_session sid (\<lambda>dv s.
     case with_net (so_write so (cd_connection dv) (enc32 MC_DRV_CMD_CLOSE_SESSION @ enc32 sid)) cl of (ok, cl1) \<Rightarrow>
     if \<not> ok then (MC_DRV_ERR_SOCKET_WRITE, cl1)
     else (case recv_from_daemon so (cd_connection dv) 4 cl1 of
        (Inl e, cl2) \<Rightarrow> (e, cl2)
      | (Inr d, cl2) \<Rightarrow>
        if dec32 d \<noteq> MC_DRV_OK then (MC_DRV_ERR_UNKNOWN_DEVICE, cl2)
        else (case removeSession so sid dv (cl_kmod cl2, cl_net cl2) of ((_, dv1), k, n) \<Rightarrow>
          (MC_DRV_OK, cl2\<lparr>cl_device := Some dv1, cl_kmod := k, cl_net := n\<rparr>)))) cl)"

definition mcNotify_lib :: "'n socket \<Rightarrow> u32 \<Rightarrow> 'n client \<Rightarrow> u32 \<times> 'n client" where
  "mcNotify_lib so sid cl = invalid_if_dead (with_session sid (\<lambda>dv s.
     case with_net (so_write so (cd_connection dv) (enc32 MC_DRV_CMD_NOTIFY @ enc32 sid)) cl of (ok, cl1) \<Rightarrow>
     (if ok then MC_DRV_OK else MC_DRV_ERR_SOCKET_WRITE, cl1)) cl)"

abbreviation (input) MC_INFINITE_TIMEOUT :: int where "MC_INFINITE_TIMEOUT \<equiv> -1"
abbreviation (input) MC_INFINITE_TIMEOUT_INTERRUPTIBLE :: int where "MC_INFINITE_TIMEOUT_INTERRUPTIBLE \<equiv> -2"

text \<open>The loop that reads notifications until there is none left; \<open>count\<close> is how many there were.\<close>

partial_function (option) read_notifications ::
    "'n socket \<Rightarrow> u32 \<Rightarrow> connection \<Rightarrow> int \<Rightarrow> nat \<Rightarrow> 'n client \<Rightarrow> (u32 \<times> 'n client) option" where
  "read_notifications so sid c timeout count cl = (case with_net (so_read so c 8 timeout) cl of (r, cl1) \<Rightarrow>
     if r = Read_failed True \<and> timeout = MC_INFINITE_TIMEOUT then read_notifications so sid c timeout count cl1
     else if r = Read_failed True \<and> timeout = MC_INFINITE_TIMEOUT_INTERRUPTIBLE then Some (MC_DRV_ERR_INTERRUPTED_BY_SIGNAL, cl1)
     else if count = 0 \<and> r = Timed_out then Some (MC_DRV_ERR_TIMEOUT, cl1)
     else if count = 0 \<and> r = Received [] then Some (MC_DRV_ERR_NOTIFICATION, change_device setInvalid cl1)
     else case (case r of Received d \<Rightarrow> if length d = 8 then Some (dec32 (drop 4 d)) else None | _ \<Rightarrow> None) of
         None \<Rightarrow> Some (if count = 0 then MC_DRV_ERR_NOTIFICATION else MC_DRV_OK, cl1)
       | Some payload \<Rightarrow>
         if payload \<noteq> 0 then
           Some (MC_DRV_INFO_NOTIFICATION, change_device (\<lambda>dv. dv\<lparr>sessionList := change_first (\<lambda>s. cs_id s = sid) (setErrorInfo payload) (sessionList dv)\<rparr>) cl1)
         else read_notifications so sid c 0 (Suc count) cl1)"

definition mcWaitNotification_lib :: "'n socket \<Rightarrow> u32 \<Rightarrow> int \<Rightarrow> 'n client \<Rightarrow> (u32 \<times> 'n client) option" where
  "mcWaitNotification_lib so sid timeout cl = (case cl_device cl of None \<Rightarrow> Some (MC_DRV_ERR_DAEMON_DEVICE_NOT_OPEN, cl)
     | Some dv \<Rightarrow> (case resolveSessionId sid dv of None \<Rightarrow> Some (MC_DRV_ERR_UNKNOWN_SESSION, cl)
         | Some s \<Rightarrow> read_notifications so sid (notificationSocket s) timeout 0 cl))"

definition mcGetSessionErrorCode_lib :: "u32 \<Rightarrow> bool \<Rightarrow> 'n client \<Rightarrow> u32 \<times> u32 option" where
  "mcGetSessionErrorCode_lib sid given cl = (case cl_device cl of None \<Rightarrow> (MC_DRV_ERR_DAEMON_DEVICE_NOT_OPEN, None)
     | Some dv \<Rightarrow> if \<not> given then (MC_DRV_ERR_NULL_POINTER, None)
         else (case resolveSessionId sid dv of None \<Rightarrow> (MC_DRV_ERR_UNKNOWN_SESSION, None) | Some s \<Rightarrow> (MC_DRV_OK, Some (getLastErr s))))"

subsection \<open>Memory\<close>

definition mcMallocWsm_lib :: "u32 \<Rightarrow> bool \<Rightarrow> 'n client \<Rightarrow> (u32 \<times> addr option) \<times> 'n client" where
  "mcMallocWsm_lib len given cl = (case cl_device cl of None \<Rightarrow> ((MC_DRV_ERR_DAEMON_DEVICE_NOT_OPEN, None), cl)
     | Some dv \<Rightarrow> if \<not> given then ((MC_DRV_ERR_NULL_POINTER, None), cl)
         else (case allocateContiguousWsm len dv (cl_kmod cl) of (r, dv1, k) \<Rightarrow>
           ((case r of Inl e \<Rightarrow> (e, None) | Inr w \<Rightarrow> (MC_DRV_OK, Some (cw_virtAddr w))), cl\<lparr>cl_device := Some dv1, cl_kmod := k\<rparr>)))"

definition mcFreeWsm_lib :: "addr \<Rightarrow> 'n client \<Rightarrow> u32 \<times> 'n client" where
  "mcFreeWsm_lib wsm cl = (case cl_device cl of None \<Rightarrow> (MC_DRV_ERR_DAEMON_DEVICE_NOT_OPEN, cl)
     | Some dv \<Rightarrow> (case findContiguousWsm_client wsm dv of None \<Rightarrow> (MC_DRV_ERR_WSM_NOT_FOUND, cl)
         | Some w \<Rightarrow> (case freeContiguousWsm w dv (cl_kmod cl) of (r, dv1, k) \<Rightarrow> (r, cl\<lparr>cl_device := Some dv1, cl_kmod := k\<rparr>))))"

text \<open>What a caller gets to know of a mapping: the address in the secure world and the length.\<close>

record bulkMap =
  sVirtualAddr :: u32
  sVirtualLen :: u32

definition mcMap_lib :: "'n socket \<Rightarrow> u32 \<Rightarrow> addr \<Rightarrow> u32 \<Rightarrow> bool \<Rightarrow> 'n client \<Rightarrow> (u32 \<times> bulkMap option) \<times> 'n client" where
  "mcMap_lib so sid buf bufLen given cl = (case cl_device cl of None \<Rightarrow> ((MC_DRV_ERR_DAEMON_DEVICE_NOT_OPEN, None), cl)
     | Some dv \<Rightarrow> if \<not> given \<or> buf = 0 then ((MC_DRV_ERR_NULL_POINTER, None), cl)
       else (case resolveSessionId sid dv of None \<Rightarrow> ((MC_DRV_ERR_UNKNOWN_SESSION, None), cl)
       | Some s \<Rightarrow> (case addBulkBuf buf bufLen s (cl_kmod cl) of
           (Inl e, _, k) \<Rightarrow> ((e, None), cl\<lparr>cl_kmod := k\<rparr>)
         | (Inr b, s1, k) \<Rightarrow>
           let cl1 = cl\<lparr>cl_device := Some (set_session sid s1 dv), cl_kmod := k\<rparr> in
           case with_net (so_write so (cd_connection dv) (enc32 MC_DRV_CMD_MAP_BULK_BUF @ enc32 sid @ enc32 (bb_handle b) @ enc32 0 @
                  enc32 (ucast (bb_virtAddr b AND 0xFFF)) @ enc32 (bb_len b))) cl1 of (ok, cl2) \<Rightarrow>
           if \<not> ok then ((MC_DRV_ERR_SOCKET_WRITE, None), cl2)
           else (case recv_from_daemon so (cd_connection dv) 4 cl2 of (Inl e, cl3) \<Rightarrow> ((e, None), cl3)
             | (Inr d, cl3) \<Rightarrow>
               if dec32 d \<noteq> MC_DRV_OK then
                 (case removeBulkBuf buf s1 (cl_kmod cl3) of (_, s2, k2) \<Rightarrow>
                    ((MC_DRV_ERR_DAEMON_UNREACHABLE, None), cl3\<lparr>cl_device := Some (set_session sid s2 dv), cl_kmod := k2\<rparr>))
               else (case recv_from_daemon so (cd_connection dv) 8 cl3 of (Inl e, cl4) \<Rightarrow> ((e, None), cl4)
                 | (Inr p, cl4) \<Rightarrow>
                   let va = dec32 (take 4 (drop 4 p)) in
                   ((MC_DRV_OK, Some \<lparr>sVirtualAddr = va, sVirtualLen = bufLen\<rparr>),
                    cl4\<lparr>cl_device := Some (set_session sid (s1\<lparr>bulkBufferDescriptors :=
                      change_first (\<lambda>b. bb_virtAddr b = buf) (\<lambda>b. b\<lparr>bb_sVirtualAddr := va\<rparr>) (bulkBufferDescriptors s1)\<rparr>) dv)\<rparr>))))))"

text \<open>The buffer for the daemon is found by its secure address, the one that is unregistered by its own.\<close>

definition mcUnmap_lib :: "'n socket \<Rightarrow> u32 \<Rightarrow> addr \<Rightarrow> bulkMap option \<Rightarrow> 'n client \<Rightarrow> u32 \<times> 'n client" where
  "mcUnmap_lib so sid buf info cl = invalid_if_dead (case cl_device cl of None \<Rightarrow> (MC_DRV_ERR_DAEMON_DEVICE_NOT_OPEN, cl)
     | Some dv \<Rightarrow> (case info of None \<Rightarrow> (MC_DRV_ERR_NULL_POINTER, cl)
       | Some mi \<Rightarrow> if buf = 0 \<or> sVirtualAddr mi = 0 then (MC_DRV_ERR_NULL_POINTER, cl)
         else (case resolveSessionId sid dv of None \<Rightarrow> (MC_DRV_ERR_UNKNOWN_SESSION, cl)
         | Some s \<Rightarrow>
           let handle = getBufHandle (sVirtualAddr mi) (sVirtualLen mi) s in
           if handle = 0 then (MC_DRV_ERR_BLK_BUFF_NOT_FOUND, cl)
           else (case with_net (so_write so (cd_connection dv) (enc32 MC_DRV_CMD_UNMAP_BULK_BUF @ enc32 sid @ enc32 handle @
                    enc32 (sVirtualAddr mi) @ enc32 (sVirtualLen mi))) cl of (ok, cl1) \<Rightarrow>
             if \<not> ok then (MC_DRV_ERR_SOCKET_WRITE, cl1)
             else (case recv_from_daemon so (cd_connection dv) 4 cl1 of (Inl e, cl2) \<Rightarrow> (e, cl2)
               | (Inr d, cl2) \<Rightarrow>
                 if dec32 d \<noteq> MC_DRV_OK then (MC_DRV_ERR_DAEMON_UNREACHABLE, cl2)
                 else (case removeBulkBuf buf s (cl_kmod cl2) of (ret, s1, k) \<Rightarrow>
                   (ret, cl2\<lparr>cl_device := Some (set_session sid s1 dv), cl_kmod := k\<rparr>)))))))"

definition mcGetMobiCoreVersion_lib :: "'n socket \<Rightarrow> bool \<Rightarrow> 'n client \<Rightarrow> (u32 \<times> bytes option) \<times> 'n client" where
  "mcGetMobiCoreVersion_lib so given cl = (case cl_device cl of None \<Rightarrow> ((MC_DRV_ERR_DAEMON_DEVICE_NOT_OPEN, None), cl)
     | Some dv \<Rightarrow> if \<not> given then ((MC_DRV_ERR_NULL_POINTER, None), cl)
       else (case with_net (so_write so (cd_connection dv) (enc32 MC_DRV_CMD_GET_MOBICORE_VERSION)) cl of (ok, cl1) \<Rightarrow>
         if \<not> ok then ((MC_DRV_ERR_SOCKET_WRITE, None), cl1)
         else (case recv_from_daemon so (cd_connection dv) 4 cl1 of (Inl e, cl2) \<Rightarrow> ((e, None), cl2)
           | (Inr d, cl2) \<Rightarrow>
             if dec32 d \<noteq> MC_DRV_OK then ((MC_DRV_ERR_DAEMON_UNREACHABLE, None), cl2)
             else (case recv_from_daemon so (cd_connection dv) 96 cl2 of (Inl e, cl3) \<Rightarrow> ((e, None), cl3)
               | (Inr v, cl3) \<Rightarrow> ((MC_DRV_OK, Some v), cl3)))))"

end
