(* ===== verification/ClientFacts.thy ===== *)
theory ClientFacts
  imports ClientLibrary "HOL-Library.Multiset"
begin

text \<open>
  Properties of the client library: the books it keeps about what is registered with the kernel module, in
  every order of calls and whatever the daemon and the module answer, the error codes that cost a client
  its device, and waiting for notifications.
\<close>

subsection \<open>What a call leaves alone\<close>

text \<open>The same objects and the same module.\<close>

definition same_client :: "'n client \<Rightarrow> 'n client \<Rightarrow> bool" where
  "same_client cl cl1 \<longleftrightarrow> cl_device cl1 = cl_device cl \<and> cl_kmod cl1 = cl_kmod cl \<and> cl_stack cl1 = cl_stack cl"

named_theorems same_call \<open>calls that only use the sockets\<close>

lemma same_refl [simp]: "same_client cl cl"
  by (simp add: same_client_def)

lemma same_trans: "same_client cl cl1 \<Longrightarrow> same_client cl1 cl2 \<Longrightarrow> same_client cl cl2"
  by (simp add: same_client_def)

lemma same_with_net [same_call]: "with_net f cl = (a, cl1) \<Longrightarrow> same_client cl cl1"
  by (auto simp: with_net_def same_client_def split: prod.splits)

lemma same_close [simp]: "same_client cl (close_socket so c cl1) = same_client cl cl1"
  by (simp add: close_socket_def same_client_def)

lemma same_recv [same_call]: "recv_from_daemon so c n cl = (a, cl1) \<Longrightarrow> same_client cl cl1"
  by (auto simp: recv_from_daemon_def split: prod.splits dest: same_call)

lemma same_result [same_call]: "recv_result so c cl = (a, cl1) \<Longrightarrow> same_client cl cl1"
  by (auto simp: recv_result_def split: prod.splits sum.splits dest: same_call)

lemma same_request [same_call]: "call_daemon so c msg cl = (a, cl1) \<Longrightarrow> same_client cl cl1"
  by (auto simp: call_daemon_def split: prod.splits if_splits dest: same_call intro: same_trans)

lemma same_version [same_call]: "getDaemonVersion so c cl = (a, cl1) \<Longrightarrow> same_client cl cl1"
  by (auto simp: getDaemonVersion_def split: prod.splits if_splits sum.splits dest!: same_call intro: same_trans)

lemma same_open [same_call]: "open_at_daemon so c cl = (a, cl1) \<Longrightarrow> same_client cl cl1"
  by (auto simp: open_at_daemon_def split: prod.splits if_splits dest!: same_call intro: same_trans)

lemma same_connect [same_call]: "connect_notifications so sid did magic cl = (a, cl1) \<Longrightarrow> same_client cl cl1"
  by (auto simp: connect_notifications_def split: prod.splits if_splits option.splits dest!: same_call intro: same_trans)

lemma same_send [same_call]: "send_all so c ms cl = (ok, cl1) \<Longrightarrow> same_client cl cl1"
  by (induction ms arbitrary: cl) (auto split: prod.splits if_splits dest!: same_with_net intro: same_trans)

subsection \<open>The books\<close>

definition bulk_handles :: "cdevice \<Rightarrow> u32 list" where
  "bulk_handles dv = concat (map (\<lambda>s. map bb_handle (bulkBufferDescriptors s)) (sessionList dv))"

definition addresses_once :: "csession \<Rightarrow> bool" where
  "addresses_once s \<longleftrightarrow> distinct (map bb_virtAddr (bulkBufferDescriptors s))"

text \<open>Each buffer of a session is registered with the module, each piece of memory allocated there, with the handles \<open>E\<close> to
  spare, and no session has two buffers at an address.\<close>

definition books :: "u32 multiset \<Rightarrow> cdevice \<Rightarrow> kmod \<Rightarrow> bool" where
  "books E dv k \<longleftrightarrow> mset (bulk_handles dv) + E \<subseteq># mset (l2_live k) \<and> mset (map cw_handle (wsmL2List dv)) \<subseteq># mset (wsm_live k) \<and>
     (\<forall>s\<in>set (sessionList dv). addresses_once s)"

definition client_ok :: "'n client \<Rightarrow> bool" where
  "client_ok cl \<longleftrightarrow> (case cl_device cl of None \<Rightarrow> True | Some dv \<Rightarrow> books {#} dv (cl_kmod cl))"

lemma client_ok_books [simp]: "client_ok (cl\<lparr>cl_device := Some dv, cl_kmod := k\<rparr>) = books {#} dv k"
  "client_ok (cl\<lparr>cl_device := Some dv, cl_kmod := k, cl_net := n\<rparr>) = books {#} dv k"
  by (simp_all add: client_ok_def)

lemma books_less: "books (F + E) dv k \<Longrightarrow> books E dv k"
proof -
  assume b: "books (F + E) dv k"
  have "mset (bulk_handles dv) + E \<subseteq># mset (bulk_handles dv) + (F + E)" by simp
  then show ?thesis using b unfolding books_def by (meson subset_mset.order_trans)
qed

lemma books_flags [simp]: "books E (setInvalid dv) k = books E dv k" "books E dv (k\<lparr>fdKMod := b\<rparr>) = books E dv k"
  "books E (dv\<lparr>isValid := b\<rparr>) k = books E dv k"
  by (simp_all add: books_def bulk_handles_def setInvalid_def)

lemma same_ok: "same_client cl cl1 \<Longrightarrow> client_ok cl1 = client_ok cl"
  by (cases "cl_device cl") (auto simp: client_ok_def same_client_def)

lemma unregister_books:
  assumes "books (add_mset h E) dv k" "kmod_unregisterWsmL2 h k = (r, k1)"
  shows "books E dv k1"
proof -
  have l: "l2_live k1 = (if r = MC_DRV_OK then remove1 h (l2_live k) else l2_live k)" "wsm_live k1 = wsm_live k"
    using unregister_live [OF assms(2)] by auto
  have m: "mset (bulk_handles dv) + E \<subseteq># mset (l2_live k) - {#h#}"
    using assms(1) by (auto simp: books_def insert_subset_eq_iff)
  then have "mset (bulk_handles dv) + E \<subseteq># mset (l2_live k1)"
    using l(1) by (cases "r = MC_DRV_OK") (auto intro: subset_mset.order_trans [OF _ diff_subset_eq_self])
  then show ?thesis using assms(1) l(2) by (simp add: books_def)
qed

lemma unregister_all_books:
  "books (mset (map bb_handle bs) + E) dv k \<Longrightarrow> books E dv (fold (\<lambda>b k. snd (kmod_unregisterWsmL2 (bb_handle b) k)) bs k)"
proof (induction bs arbitrary: k)
  case (Cons b bs)
  have "books (mset (map bb_handle bs) + E) dv (snd (kmod_unregisterWsmL2 (bb_handle b) k))"
    by (rule unregister_books [of "bb_handle b"]) (use Cons.prems in \<open>simp_all add: prod_eq_iff\<close>)
  then show ?case using Cons.IH by simp
qed simp

lemma register_books:
  assumes "books E dv k" "kmod_registerWsmL2 b len pid k = (r, k1)"
  shows "books (case r of Inl _ \<Rightarrow> E | Inr (h, _) \<Rightarrow> add_mset h E) dv k1"
  using register_live [OF assms(2)] assms(1) by (auto simp: books_def split: sum.splits prod.splits)

subsection \<open>Sessions in the list\<close>

lemma found_session:
  assumes "find P xs = Some x"
  obtains as bs where "xs = as @ x # bs" "P x" "\<forall>y\<in>set as. \<not> P y"
proof -
  have "\<exists>as bs. xs = as @ x # bs \<and> P x \<and> (\<forall>y\<in>set as. \<not> P y)"
    using assms
  proof (induction xs)
    case (Cons y ys)
    show ?case
    proof (cases "P y")
      case True
      then have "y # ys = [] @ x # ys \<and> P x" using Cons.prems by simp
      then show ?thesis by fastforce
    next
      case False
      then obtain as bs where "ys = as @ x # bs" "P x" "\<forall>y\<in>set as. \<not> P y" using Cons by auto
      then have "y # ys = (y # as) @ x # bs \<and> P x \<and> (\<forall>z\<in>set (y # as). \<not> P z)" using False by simp
      then show ?thesis by blast
    qed
  qed simp
  then show thesis using that by blast
qed

lemma remove_first_at [simp]: "\<forall>y\<in>set as. \<not> P y \<Longrightarrow> remove_first P (as @ bs) = as @ remove_first P bs"
  by (induction as) auto

lemma change_first_at [simp]: "\<forall>y\<in>set as. \<not> P y \<Longrightarrow> change_first P f (as @ bs) = as @ change_first P f bs"
  by (induction as) auto

lemma map_change_first: "(\<And>x. g (f x) = g x) \<Longrightarrow> map g (change_first P f xs) = map g xs"
  by (induction xs) auto

text \<open>Replacing the session that is found.\<close>

lemma replace_books:
  assumes b: "books E dv k" and r: "resolveSessionId sid dv = Some s" and a: "addresses_once s1"
    and m: "mset (map bb_handle (bulkBufferDescriptors s1)) + F \<subseteq># mset (map bb_handle (bulkBufferDescriptors s)) + E"
  shows "books F (set_session sid s1 dv) k"
proof -
  obtain as bs where s: "sessionList dv = as @ s # bs" "cs_id s = sid" "\<forall>y\<in>set as. cs_id y \<noteq> sid"
    by (rule found_session [OF r [unfolded resolveSessionId_def]])
  have l: "sessionList (set_session sid s1 dv) = as @ s1 # bs" "wsmL2List (set_session sid s1 dv) = wsmL2List dv"
    using s by (simp_all add: set_session_def)
  let ?h = "\<lambda>xs. mset (concat (map (\<lambda>s. map bb_handle (bulkBufferDescriptors s)) xs))"
  have e: "mset (bulk_handles (set_session sid s1 dv)) + F = (?h as + ?h bs) + (mset (map bb_handle (bulkBufferDescriptors s1)) + F)"
    "mset (bulk_handles dv) + E = (?h as + ?h bs) + (mset (map bb_handle (bulkBufferDescriptors s)) + E)"
    unfolding bulk_handles_def l(1) s(1) by simp_all
  have "mset (bulk_handles (set_session sid s1 dv)) + F \<subseteq># mset (bulk_handles dv) + E"
    unfolding e by (intro subset_mset.add_left_mono m)
  then show ?thesis using b a unfolding books_def l s(1) by (auto intro: subset_mset.order_trans)
qed

lemma session_once: "books E dv k \<Longrightarrow> resolveSessionId sid dv = Some s \<Longrightarrow> addresses_once s"
  by (auto simp: books_def resolveSessionId_def find_Some_iff)

lemma set_session_again [simp]: "cs_id s1 = sid \<Longrightarrow> set_session sid s2 (set_session sid s1 dv) = set_session sid s2 dv"
proof -
  assume "cs_id s1 = sid"
  then have "change_first (\<lambda>s. cs_id s = sid) (\<lambda>_. s2) (change_first (\<lambda>s. cs_id s = sid) (\<lambda>_. s1) xs) =
    change_first (\<lambda>s. cs_id s = sid) (\<lambda>_. s2) xs" for xs by (induction xs) auto
  then show ?thesis by (simp add: set_session_def)
qed

lemma resolve_set: "resolveSessionId sid dv = Some s \<Longrightarrow> cs_id s1 = sid \<Longrightarrow> resolveSessionId sid (set_session sid s1 dv) = Some s1"
proof -
  assume r: "resolveSessionId sid dv = Some s" and i: "cs_id s1 = sid"
  obtain as bs where s: "sessionList dv = as @ s # bs" "cs_id s = sid" "\<forall>y\<in>set as. cs_id y \<noteq> sid"
    by (rule found_session [OF r [unfolded resolveSessionId_def]])
  have "find (\<lambda>y. cs_id y = sid) (as @ s1 # bs) = Some s1" using s(3) i by (induction as) auto
  then show ?thesis using s by (simp add: resolveSessionId_def set_session_def)
qed

subsection \<open>Sessions and devices keep the books\<close>

lemma add_books:
  assumes b: "books {#} dv k" and r: "resolveSessionId sid dv = Some s" and a: "addBulkBuf buf len s k = (x, s1, k1)"
  shows "case x of Inl _ \<Rightarrow> books {#} dv k1
    | Inr b \<Rightarrow> books {#} (set_session sid s1 dv) k1 \<and> cs_id s1 = sid \<and> b \<in> set (bulkBufferDescriptors s1) \<and> l2_live k1 = bb_handle b # l2_live k"
proof -
  have i: "cs_id s = sid" using r by (auto simp: resolveSessionId_def find_Some_iff)
  obtain y k2 where y: "kmod_registerWsmL2 buf len 0 k = (y, k2)" by fastforce
  note rb = register_books [OF b y]
  show ?thesis
  proof (cases "list_ex (\<lambda>b. bb_virtAddr b = buf) (bulkBufferDescriptors s)")
    case True
    then show ?thesis using a b by (auto simp: addBulkBuf_def)
  next
    case False
    show ?thesis
    proof (cases y)
      case (Inl e)
      then show ?thesis using a rb False y by (auto simp: addBulkBuf_def)
    next
      case (Inr hp)
      obtain h p where h: "hp = (h, p)" by fastforce
      let ?b = "\<lparr>bb_virtAddr = buf, bb_sVirtualAddr = 0, bb_len = len, bb_handle = h\<rparr>"
      let ?s = "s\<lparr>bulkBufferDescriptors := bulkBufferDescriptors s @ [?b]\<rparr>"
      have x: "x = Inr ?b" "s1 = ?s" "k1 = k2" using a y Inr h False by (auto simp: addBulkBuf_def Let_def)
      have o: "addresses_once ?s" using session_once [OF b r] False by (auto simp: addresses_once_def list_ex_iff)
      have "books {#} (set_session sid ?s dv) k2"
        by (rule replace_books [OF _ r o, of "{#h#}"]) (use rb Inr h in simp_all)
      then show ?thesis using x i register_live [OF y] Inr h by simp
    qed
  qed
qed

lemma remove_first_handles:
  "find P bs = Some b \<Longrightarrow> mset (map bb_handle (remove_first P bs)) + {#bb_handle b#} = mset (map bb_handle bs)"
  by (induction bs) (auto split: if_splits)

lemma remove_first_subset: "set (map f (remove_first P bs)) \<subseteq> set (map f bs)"
  by (induction bs) auto

lemma remove_first_distinct: "distinct (map f bs) \<Longrightarrow> distinct (map f (remove_first P bs))"
  using remove_first_subset [of f P] by (induction bs) auto

lemma remove_books:
  assumes b: "books {#} dv k" and r: "resolveSessionId sid dv = Some s" and a: "removeBulkBuf buf s k = (x, s1, k1)"
  shows "books {#} (set_session sid s1 dv) k1"
proof (cases "find (\<lambda>b. bb_virtAddr b = buf) (bulkBufferDescriptors s)")
  case None
  then have "s1 = s" "k1 = k" using a by (auto simp: removeBulkBuf_def)
  then show ?thesis using replace_books [OF b r session_once [OF b r]] by simp
next
  case (Some d)
  let ?s = "s\<lparr>bulkBufferDescriptors := remove_first (\<lambda>b. bb_virtAddr b = buf) (bulkBufferDescriptors s)\<rparr>"
  obtain y k2 where y: "kmod_unregisterWsmL2 (bb_handle d) k = (y, k2)" by fastforce
  have x: "s1 = ?s" "k1 = k2" using a y Some by (auto simp: removeBulkBuf_def)
  have "books {#bb_handle d#} (set_session sid ?s dv) k"
  proof (rule replace_books [OF b r])
    show "addresses_once ?s" using session_once [OF b r] remove_first_distinct by (simp add: addresses_once_def)
    show "mset (map bb_handle (bulkBufferDescriptors ?s)) + {#bb_handle d#} \<subseteq># mset (map bb_handle (bulkBufferDescriptors s)) + {#}"
      using remove_first_handles [OF Some] by simp
  qed
  then show ?thesis using unregister_books [OF _ y, of "{#}"] x by simp
qed

text \<open>A session that is deleted with its buffers.\<close>

lemma remove_session_books:
  assumes b: "books {#} dv k" and r: "removeSession so sid dv (k, n) = ((ok, dv1), k1, n1)"
  shows "books {#} dv1 k1"
proof (cases "find (\<lambda>s. cs_id s = sid) (sessionList dv)")
  case None
  then show ?thesis using assms by (simp add: removeSession_def)
next
  case (Some s)
  obtain as bs where s: "sessionList dv = as @ s # bs" "cs_id s = sid" "\<forall>y\<in>set as. cs_id y \<noteq> sid"
    by (rule found_session [OF Some])
  let ?dv = "dv\<lparr>sessionList := as @ bs\<rparr>"
  have x: "dv1 = ?dv" "k1 = fold (\<lambda>b k. snd (kmod_unregisterWsmL2 (bb_handle b) k)) (bulkBufferDescriptors s) k"
    using r Some s by (auto simp: removeSession_def Session_delete_def)
  have "books (mset (map bb_handle (bulkBufferDescriptors s)) + {#}) ?dv k"
    using b unfolding books_def bulk_handles_def s(1) by (simp add: add.commute add.left_commute)
  then show ?thesis using unregister_all_books x by blast
qed

lemma create_books:
  assumes "books (case bu of None \<Rightarrow> {#} | Some b \<Rightarrow> {#bb_handle b#}) dv k"
  shows "books {#} (createNewSession sid c bu dv) k"
  using assms by (cases bu) (auto simp: books_def bulk_handles_def createNewSession_def addBulkBuf_made_def Session_init_def addresses_once_def)

lemma allocate_books:
  assumes b: "books {#} dv k" and a: "allocateContiguousWsm len dv k = (r, dv1, k1)"
  shows "books {#} dv1 k1"
proof (cases "len = 0")
  case True
  then show ?thesis using assms by (simp add: allocateContiguousWsm_def)
next
  case False
  obtain x k2 where x: "kmod_mapWsm len k = (x, k2)" by fastforce
  have "mset (map cw_handle (wsmL2List dv)) \<subseteq># add_mset h (mset (wsm_live k))" for h
    using b unfolding books_def by (metis add_mset_add_single subset_mset.add_increasing2 subset_mset.zero_le)
  then show ?thesis using mapWsm_live [OF x] a x b False
    by (auto simp: allocateContiguousWsm_def books_def bulk_handles_def Let_def split: sum.splits prod.splits)
qed

lemma minus_mono: "A \<subseteq># B \<Longrightarrow> A - C \<subseteq># B - C"
  by (simp add: subseteq_mset_def diff_le_mono)

lemma free_books:
  assumes b: "books {#} dv k" and w: "w \<in> set (wsmL2List dv)" and a: "freeContiguousWsm w dv k = (r, dv1, k1)"
  shows "books {#} dv1 k1"
proof -
  obtain x k2 where x: "kmod_free (cw_handle w) (cw_virtAddr w) (cw_len w) k = (x, k2)" by fastforce
  have d: "mset (map cw_handle (remove1 w (wsmL2List dv))) = mset (map cw_handle (wsmL2List dv)) - {#cw_handle w#}"
    using w by (simp add: image_mset_Diff)
  show ?thesis using free_live [OF x] a x b d
    by (auto simp: freeContiguousWsm_def books_def bulk_handles_def minus_mono split: if_splits)
qed

subsection \<open>Calls in any order\<close>

datatype client_call =
    Open_device | Close_device | Has_sessions | Open_session "bytes option" addr u32 | Open_gpta "bytes option" addr u32
  | Open_trustlet u32 "bytes option" addr u32 | Close_session u32 | Notify u32 | Wait_notification u32 int
  | Malloc_wsm u32 bool | Free_wsm addr | Map_buffer u32 addr u32 bool | Unmap_buffer u32 addr "bulkMap option" | Get_version bool

text \<open>The client after a call, unless the call does not return.\<close>

fun call_library :: "'n socket \<Rightarrow> client_call \<Rightarrow> 'n client \<Rightarrow> 'n client option" where
  "call_library so Open_device cl = Some (snd (mcOpenDevice_lib so cl))"
| "call_library so Close_device cl = Some (snd (mcCloseDevice_lib so cl))"
| "call_library so Has_sessions cl = Some (snd (mcDeviceHasOpenSessions_lib so cl))"
| "call_library so (Open_session uuid tci len) cl = Some (snd (mcOpenSession_lib so uuid tci len cl))"
| "call_library so (Open_gpta uuid tci len) cl = Some (snd (mcOpenGPTA_lib so uuid tci len cl))"
| "call_library so (Open_trustlet spid t tci len) cl = Some (snd (mcOpenTrustlet_lib so spid t tci len cl))"
| "call_library so (Close_session sid) cl = Some (snd (mcCloseSession_lib so sid cl))"
| "call_library so (Notify sid) cl = Some (snd (mcNotify_lib so sid cl))"
| "call_library so (Wait_notification sid timeout) cl = map_option snd (mcWaitNotification_lib so sid timeout cl)"
| "call_library so (Malloc_wsm len given) cl = Some (snd (mcMallocWsm_lib len given cl))"
| "call_library so (Free_wsm wsm) cl = Some (snd (mcFreeWsm_lib wsm cl))"
| "call_library so (Map_buffer sid buf len given) cl = Some (snd (mcMap_lib so sid buf len given cl))"
| "call_library so (Unmap_buffer sid buf info) cl = Some (snd (mcUnmap_lib so sid buf info cl))"
| "call_library so (Get_version given) cl = Some (snd (mcGetMobiCoreVersion_lib so given cl))"

inductive client_reach :: "'n socket \<Rightarrow> 'n client \<Rightarrow> bool" for so where
  start: "cl_device cl = None \<Longrightarrow> client_reach so cl"
| step: "client_reach so cl \<Longrightarrow> call_library so c cl = Some cl1 \<Longrightarrow> client_reach so cl1"

subsection \<open>Every call keeps the books\<close>

lemma change_ok: "client_ok cl \<Longrightarrow> (\<And>dv. books {#} dv (cl_kmod cl) \<Longrightarrow> books {#} (f dv) (cl_kmod cl)) \<Longrightarrow> client_ok (change_device f cl)"
  by (cases "cl_device cl") (simp_all add: client_ok_def change_device_def)

lemma invalid_ok [simp]: "client_ok (change_device setInvalid cl) = client_ok cl"
  by (cases "cl_device cl") (simp_all add: client_ok_def change_device_def)

lemma invalid_if_dead_ok: "client_ok (snd (invalid_if_dead (r, cl))) = client_ok cl"
  by (simp add: invalid_if_dead_def)

lemma with_session_ok:
  assumes "client_ok cl" "\<And>dv s. cl_device cl = Some dv \<Longrightarrow> resolveSessionId sid dv = Some s \<Longrightarrow> client_ok (snd (f dv s))"
  shows "client_ok (snd (invalid_if_dead (with_session sid f cl)))"
proof -
  have "client_ok (snd (with_session sid f cl))" using assms by (auto simp: with_session_def split: option.split)
  then show ?thesis using invalid_if_dead_ok [of "fst (with_session sid f cl)" "snd (with_session sid f cl)"] by simp
qed

lemma open_device_ok: "client_ok cl \<Longrightarrow> client_ok (snd (mcOpenDevice_lib so cl))"
proof -
  assume ok: "client_ok cl"
  obtain co cl1 where c: "with_net (so_connect so) cl = (co, cl1)" by fastforce
  note s1 = same_with_net [OF c]
  show ?thesis
  proof (cases co)
    case None
    then show ?thesis using c ok same_ok [OF s1] by (simp add: mcOpenDevice_lib_def)
  next
    case (Some d)
    obtain r cl2 where o: "open_at_daemon so d cl1 = (r, cl2)" by fastforce
    note s2 = same_trans [OF s1 same_open [OF o]]
    obtain b k where k: "Device_open (CKMod_init (cl_kmod cl2)) = (b, k)" by fastforce
    have l: "l2_live k = l2_live (cl_kmod cl2)" "wsm_live k = wsm_live (cl_kmod cl2)"
      using k live_call [of IO_OPEN "CKMod_init (cl_kmod cl2)"]
      by (auto simp: Device_open_def CKMod_open_def CKMod_init_def split: prod.splits if_splits)
    have e: "l2_live (CKMod_close k1) = l2_live k1 \<and> wsm_live (CKMod_close k1) = wsm_live k1" for k1
      using live_call [of IO_CLOSE k1] by (auto simp: CKMod_close_def split: prod.splits)
    have n: "books {#} (Device_init d) k" by (simp add: books_def Device_init_def bulk_handles_def)
    have "client_ok (cl2\<lparr>cl_kmod := CKMod_close k, cl_net := m\<rparr>)" for m
      using ok s2 l e by (cases "cl_device cl") (simp_all add: client_ok_def same_client_def books_def)
    moreover have "client_ok (cl2\<lparr>cl_kmod := k, cl_device := Some (Device_init d)\<rparr>)" using n by (simp add: client_ok_def)
    moreover have "client_ok (close_socket so d cl2)" using ok same_ok [OF s2] same_ok [of cl2 "close_socket so d cl2"] by simp
    ultimately show ?thesis using c Some o k by (simp add: mcOpenDevice_lib_def Device_delete_def Device_init_def)
  qed
qed

lemma idle_ok:
  assumes "device_idle so dv cl = (r, cl1)"
  shows "client_ok cl1 = client_ok cl \<and> cl_device cl1 \<in> {cl_device cl, map_option setInvalid (cl_device cl)}"
proof -
  obtain b cl2 where w: "with_net (so_alive so (cd_connection dv)) cl = (b, cl2)" by fastforce
  have d: "cl_device (change_device setInvalid cl2) = map_option setInvalid (cl_device cl)" "cl_device cl2 = cl_device cl"
    using same_with_net [OF w] by (simp_all add: same_client_def change_device_def)
  show ?thesis using assms w same_ok [OF same_with_net [OF w]] d by (auto simp: device_idle_def split: if_splits)
qed

lemma close_device_ok: "client_ok cl \<Longrightarrow> client_ok (snd (mcCloseDevice_lib so cl))"
proof (cases "cl_device cl")
  case (Some dv)
  assume ok: "client_ok cl"
  obtain r cl1 where i: "device_idle so dv cl = (r, cl1)" by fastforce
  obtain q cl2 where q: "call_daemon so (cd_connection dv) (enc32 MC_DRV_CMD_CLOSE_DEVICE) cl1 = (q, cl2)" by fastforce
  show ?thesis using ok idle_ok [OF i] same_ok [OF same_request [OF q]] Some i q
    by (auto simp: mcCloseDevice_lib_def)
qed (simp add: mcCloseDevice_lib_def)

text \<open>A buffer for a session to open is registered and belongs to none.\<close>

definition with_spare :: "bulk option \<Rightarrow> cdevice \<Rightarrow> 'n client \<Rightarrow> bool" where
  "with_spare bu dv cl \<longleftrightarrow> cl_device cl = Some dv \<and> books (case bu of None \<Rightarrow> {#} | Some b \<Rightarrow> {#bb_handle b#}) dv (cl_kmod cl)"

lemma spare_ok: "with_spare bu dv cl \<Longrightarrow> client_ok cl"
  using books_less [of "case bu of None \<Rightarrow> {#} | Some b \<Rightarrow> {#bb_handle b#}" "{#}" dv "cl_kmod cl"] by (simp add: with_spare_def client_ok_def)

lemma spare_same: "same_client cl cl1 \<Longrightarrow> with_spare bu dv cl1 = with_spare bu dv cl"
  by (simp add: with_spare_def same_client_def)

lemma map_tci_ok:
  assumes "client_ok cl" "cl_device cl = Some dv" "map_tci tci len cl = (r, cl1)"
  shows "case r of Inl _ \<Rightarrow> client_ok cl1 | Inr (_, bu) \<Rightarrow> with_spare bu dv cl1"
proof -
  obtain x k where x: "kmod_registerWsmL2 tci len 0 (cl_kmod cl) = (x, k)" by fastforce
  have "books {#} dv (cl_kmod cl)" using assms by (simp add: client_ok_def)
  then show ?thesis using assms(2,3) register_books [OF _ x, of "{#}" dv] x
    by (auto simp: map_tci_def mapBulkBuf_def client_ok_def with_spare_def split: sum.splits prod.splits)
qed

lemma tci_ok:
  assumes "client_ok cl" "cl_device cl = Some dv" "session_tci dv tci len cl = (r, cl1) \<or> trustlet_tci dv tci len cl = (r, cl1)"
  shows "case r of Inl _ \<Rightarrow> client_ok cl1 | Inr (_, bu) \<Rightarrow> with_spare bu dv cl1"
proof -
  have n: "with_spare None dv cl" using assms by (simp add: with_spare_def client_ok_def)
  show ?thesis using assms n map_tci_ok [OF assms(1,2)]
    by (auto simp: session_tci_def trustlet_tci_def own_tci_def split: option.splits if_splits)
qed

lemma answer_ok: "with_spare bu dv cl \<Longrightarrow> client_ok (snd (open_answer so c bu cl))"
proof -
  assume sp: "with_spare bu dv cl"
  obtain r cl1 where r: "recv_result so c cl = (r, cl1)" by fastforce
  obtain p cl2 where p: "recv_from_daemon so c 12 cl1 = (p, cl2)" by fastforce
  note s = same_trans [OF same_result [OF r] same_recv [OF p]]
  note ok1 = spare_ok [OF sp] same_ok [OF same_result [OF r]] same_ok [OF s]
  show ?thesis
  proof (cases "r \<noteq> MC_DRV_OK \<or> (\<exists>e. p = Inl e)")
    case True
    then show ?thesis using ok1 r p by (auto simp: open_answer_def)
  next
    case False
    then obtain d where d: "r = MC_DRV_OK" "p = Inr d" by (cases p) auto
    obtain q cl3 where q: "connect_notifications so (dec32 (take 4 d)) (dec32 (take 4 (drop 4 d))) (dec32 (take 4 (drop 8 d))) cl2 = (q, cl3)"
      by fastforce
    note s3 = same_trans [OF s same_connect [OF q]]
    have sp3: "with_spare bu dv cl3" using sp spare_same [OF s3] by simp
    have "client_ok (change_device (createNewSession sid c bu) cl3)" for sid c
      using sp3 create_books [of bu dv "cl_kmod cl3"] by (simp add: with_spare_def client_ok_def change_device_def)
    then show ?thesis using r p d q spare_ok [OF sp3] by (cases q) (simp_all add: open_answer_def Let_def)
  qed
qed

lemma open_request_ok:
  assumes "case r of Inl _ \<Rightarrow> client_ok cl | Inr (_, bu) \<Rightarrow> with_spare bu dv cl"
  shows "client_ok (snd (open_request so dv msgs (r, cl)))"
proof (cases r)
  case (Inr x)
  obtain h bu where x: "x = (h, bu)" by fastforce
  have sp: "with_spare bu dv cl" using assms Inr x by simp
  obtain b cl1 where s: "send_all so (cd_connection dv) (msgs h) cl = (b, cl1)" by fastforce
  have sp1: "with_spare bu dv cl1" using sp spare_same [OF same_send [OF s]] by simp
  show ?thesis using Inr x s answer_ok [OF sp1] spare_ok [OF sp1] by (simp add: open_request_def)
qed (use assms in \<open>simp add: open_request_def\<close>)

lemma open_uuid_ok: "client_ok cl \<Longrightarrow> client_ok (snd (open_uuid cmd so uuid tci len cl))"
proof -
  assume ok: "client_ok cl"
  have "client_ok (snd (open_request so dv msgs (session_tci dv tci len cl)))" if "cl_device cl = Some dv" for dv msgs
    using tci_ok [OF ok that, of tci len "fst (session_tci dv tci len cl)" "snd (session_tci dv tci len cl)"]
      open_request_ok [where r = "fst (session_tci dv tci len cl)" and cl = "snd (session_tci dv tci len cl)" and dv = dv and so = so and msgs = msgs]
    by simp
  then show ?thesis using ok by (auto simp: open_uuid_def split: option.split)
qed

lemma open_trustlet_ok: "client_ok cl \<Longrightarrow> client_ok (snd (mcOpenTrustlet_lib so spid t tci len cl))"
proof -
  assume ok: "client_ok cl"
  have "client_ok (snd (open_request so dv msgs (trustlet_tci dv tci len cl)))" if "cl_device cl = Some dv" for dv msgs
    using tci_ok [OF ok that, of tci len "fst (trustlet_tci dv tci len cl)" "snd (trustlet_tci dv tci len cl)"]
      open_request_ok [where r = "fst (trustlet_tci dv tci len cl)" and cl = "snd (trustlet_tci dv tci len cl)" and dv = dv and so = so and msgs = msgs]
    by simp
  then show ?thesis using ok by (auto simp: mcOpenTrustlet_lib_def split: option.split)
qed

lemma close_session_ok: "client_ok cl \<Longrightarrow> client_ok (snd (mcCloseSession_lib so sid cl))"
  unfolding mcCloseSession_lib_def
proof (rule with_session_ok)
  fix dv s assume ok: "client_ok cl" and dv: "cl_device cl = Some dv" and s: "resolveSessionId sid dv = Some s"
  obtain b cl1 where w: "with_net (so_write so (cd_connection dv) (enc32 MC_DRV_CMD_CLOSE_SESSION @ enc32 sid)) cl = (b, cl1)" by fastforce
  obtain r cl2 where r: "recv_from_daemon so (cd_connection dv) 4 cl1 = (r, cl2)" by fastforce
  obtain x dv1 k n where x: "removeSession so sid dv (cl_kmod cl2, cl_net cl2) = ((x, dv1), k, n)" by (metis surj_pair)
  note s1 = same_with_net [OF w]
  note s2 = same_trans [OF s1 same_recv [OF r]]
  have "books {#} dv (cl_kmod cl2)" using ok dv s2 by (simp add: client_ok_def same_client_def)
  then have "books {#} dv1 k" by (rule remove_session_books [OF _ x])
  then show "client_ok (snd (case with_net (so_write so (cd_connection dv) (enc32 MC_DRV_CMD_CLOSE_SESSION @ enc32 sid)) cl of (ok, cl1) \<Rightarrow>
     if \<not> ok then (MC_DRV_ERR_SOCKET_WRITE, cl1)
     else (case recv_from_daemon so (cd_connection dv) 4 cl1 of
        (Inl e, cl2) \<Rightarrow> (e, cl2)
      | (Inr d, cl2) \<Rightarrow>
        if dec32 d \<noteq> MC_DRV_OK then (MC_DRV_ERR_UNKNOWN_DEVICE, cl2)
        else (case removeSession so sid dv (cl_kmod cl2, cl_net cl2) of ((_, dv1), k, n) \<Rightarrow>
          (MC_DRV_OK, cl2\<lparr>cl_device := Some dv1, cl_kmod := k, cl_net := n\<rparr>)))))"
    using ok same_ok [OF s1] same_ok [OF s2] w r x by (cases r) simp_all
qed

lemma notify_ok: "client_ok cl \<Longrightarrow> client_ok (snd (mcNotify_lib so sid cl))"
  unfolding mcNotify_lib_def
proof (rule with_session_ok)
  fix dv s assume ok: "client_ok cl"
  show "client_ok (snd (case with_net (so_write so (cd_connection dv) (enc32 MC_DRV_CMD_NOTIFY @ enc32 sid)) cl of (ok, cl1) \<Rightarrow>
     (if ok then MC_DRV_OK else MC_DRV_ERR_SOCKET_WRITE, cl1)))"
    using ok by (simp add: same_ok [OF same_with_net [OF prod.collapse [symmetric]]] case_prod_unfold)
qed

lemma error_info_ok:
  "client_ok cl \<Longrightarrow> client_ok (change_device (\<lambda>dv. dv\<lparr>sessionList := change_first (\<lambda>s. cs_id s = sid) (setErrorInfo e) (sessionList dv)\<rparr>) cl)"
proof (erule change_ok)
  fix dv assume b: "books {#} dv (cl_kmod cl)"
  have m: "map (\<lambda>s. map bb_handle (bulkBufferDescriptors s)) (change_first (\<lambda>s. cs_id s = sid) (setErrorInfo e) (sessionList dv)) =
      map (\<lambda>s. map bb_handle (bulkBufferDescriptors s)) (sessionList dv)"
    "map addresses_once (change_first (\<lambda>s. cs_id s = sid) (setErrorInfo e) (sessionList dv)) = map addresses_once (sessionList dv)"
    by (rule map_change_first, simp add: setErrorInfo_def addresses_once_def)+
  have "(\<forall>s\<in>set (change_first (\<lambda>s. cs_id s = sid) (setErrorInfo e) (sessionList dv)). addresses_once s) = (\<forall>s\<in>set (sessionList dv). addresses_once s)"
    using arg_cong [OF m(2), of "\<lambda>l. \<forall>b\<in>set l. b"] by simp
  then show "books {#} (dv\<lparr>sessionList := change_first (\<lambda>s. cs_id s = sid) (setErrorInfo e) (sessionList dv)\<rparr>) (cl_kmod cl)"
    using b by (simp add: books_def bulk_handles_def m(1))
qed

lemmas read_notifications_induct = read_notifications.raw_induct [rotated, consumes 1, case_names loop]

lemma read_notifications_ok:
  assumes "read_notifications so sid c timeout m cl = Some y" "client_ok cl"
  shows "client_ok (snd y)"
  using assms
proof (induction rule: read_notifications_induct)
  case (loop rn so sid c timeout m cl y)
  obtain x cl1 where w: "with_net (so_read so c 8 timeout) cl = (x, cl1)" by fastforce
  have ok: "client_ok cl1" using same_ok [OF same_with_net [OF w]] loop.prems by simp
  show ?case
  proof (cases "\<exists>t m1. rn so sid c t m1 cl1 = Some y")
    case True
    then show ?thesis using loop.IH ok by blast
  next
    case False
    then have "snd y \<in> {cl1, change_device setInvalid cl1} \<or> (\<exists>e. snd y = change_device (\<lambda>dv. dv\<lparr>sessionList :=
        change_first (\<lambda>s. cs_id s = sid) (setErrorInfo e) (sessionList dv)\<rparr>) cl1)"
      using loop.hyps w by (auto split: if_splits option.splits)
    then show ?thesis using ok error_info_ok [OF ok] by auto
  qed
qed

lemma wait_ok: "client_ok cl \<Longrightarrow> mcWaitNotification_lib so sid timeout cl = Some y \<Longrightarrow> client_ok (snd y)"
  by (auto simp: mcWaitNotification_lib_def split: option.splits dest: read_notifications_ok)

lemma malloc_ok: "client_ok cl \<Longrightarrow> client_ok (snd (mcMallocWsm_lib len given cl))"
  using allocate_books [of _ "cl_kmod cl" len] by (auto simp: mcMallocWsm_lib_def client_ok_def split: option.split prod.split)

lemma free_ok: "client_ok cl \<Longrightarrow> client_ok (snd (mcFreeWsm_lib wsm cl))"
proof -
  assume ok: "client_ok cl"
  have m: "w \<in> set (wsmL2List dv)" if "findContiguousWsm_client wsm dv = Some w" for w dv
    using that by (auto simp: findContiguousWsm_client_def find_Some_iff split: if_splits)
  show ?thesis using ok free_books [OF _ m] by (auto simp: mcFreeWsm_lib_def client_ok_def split: option.split prod.split)
qed

lemma set_address_books:
  assumes b: "books {#} (set_session sid s1 dv) k" and r: "resolveSessionId sid dv = Some s" and i: "cs_id s1 = sid"
  shows "books {#} (set_session sid (s1\<lparr>bulkBufferDescriptors :=
      change_first P (\<lambda>b. b\<lparr>bb_sVirtualAddr := va\<rparr>) (bulkBufferDescriptors s1)\<rparr>) dv) k"
proof -
  let ?s = "s1\<lparr>bulkBufferDescriptors := change_first P (\<lambda>b. b\<lparr>bb_sVirtualAddr := va\<rparr>) (bulkBufferDescriptors s1)\<rparr>"
  have m: "map bb_handle (bulkBufferDescriptors ?s) = map bb_handle (bulkBufferDescriptors s1)"
    "map bb_virtAddr (bulkBufferDescriptors ?s) = map bb_virtAddr (bulkBufferDescriptors s1)"
    by (simp_all add: map_change_first)
  have "addresses_once ?s" using session_once [OF b resolve_set [OF r i]] m by (simp add: addresses_once_def)
  then have "books {#} (set_session sid ?s (set_session sid s1 dv)) k"
    by (rule replace_books [OF b resolve_set [OF r i]]) (unfold m, simp)
  then show ?thesis using i by simp
qed

lemma map_ok: "client_ok cl \<Longrightarrow> client_ok (snd (mcMap_lib so sid buf len given cl))"
proof -
  assume ok: "client_ok cl"
  show ?thesis
  proof (cases "\<exists>dv s. cl_device cl = Some dv \<and> resolveSessionId sid dv = Some s \<and> given \<and> buf \<noteq> 0")
    case False
    then show ?thesis using ok by (auto simp: mcMap_lib_def split: option.splits)
  next
    case True
    then obtain dv s where dv: "cl_device cl = Some dv" and r: "resolveSessionId sid dv = Some s" and g: "given" "buf \<noteq> 0" by blast
    have b: "books {#} dv (cl_kmod cl)" using ok dv by (simp add: client_ok_def)
    obtain x s1 k where a: "addBulkBuf buf len s (cl_kmod cl) = (x, s1, k)" by (metis surj_pair)
    note ab = add_books [OF b r a]
    show ?thesis
    proof (cases x)
      case (Inl e)
      then show ?thesis using ab dv r g a by (simp add: mcMap_lib_def client_ok_def)
    next
      case (Inr d)
      let ?cl1 = "cl\<lparr>cl_device := Some (set_session sid s1 dv), cl_kmod := k\<rparr>"
      let ?msg = "enc32 MC_DRV_CMD_MAP_BULK_BUF @ enc32 sid @ enc32 (bb_handle d) @ enc32 0 @ enc32 (ucast (bb_virtAddr d AND 0xFFF)) @ enc32 (bb_len d)"
      have b1: "books {#} (set_session sid s1 dv) k" and i: "cs_id s1 = sid" using ab Inr by simp_all
      note r1 = resolve_set [OF r i]
      obtain w cl2 where w: "with_net (so_write so (cd_connection dv) ?msg) ?cl1 = (w, cl2)" by fastforce
      obtain p cl3 where p: "recv_from_daemon so (cd_connection dv) 4 cl2 = (p, cl3)" by fastforce
      obtain q cl4 where q: "recv_from_daemon so (cd_connection dv) 8 cl3 = (q, cl4)" by fastforce
      obtain y s2 k2 where rm: "removeBulkBuf buf s1 (cl_kmod cl3) = (y, s2, k2)" by (metis surj_pair)
      note s2 = same_with_net [OF w]
      note s3 = same_trans [OF s2 same_recv [OF p]]
      note s4 = same_trans [OF s3 same_recv [OF q]]
      have k: "cl_kmod cl3 = k" "cl_kmod cl4 = k" using s3 s4 by (simp_all add: same_client_def)
      have ok1: "client_ok ?cl1" using b1 by (simp add: client_ok_def)
      have ok2: "client_ok cl2" "client_ok cl3" "client_ok cl4" using same_ok [OF s2] same_ok [OF s3] same_ok [OF s4] ok1 by simp_all
      have "books {#} (set_session sid s2 (set_session sid s1 dv)) k2"
        by (rule remove_books [OF b1 r1]) (use rm k in simp)
      then have o1: "client_ok (cl3\<lparr>cl_device := Some (set_session sid s2 dv), cl_kmod := k2\<rparr>)" using i by (simp add: client_ok_def)
      have o2: "client_ok (cl4\<lparr>cl_device := Some (set_session sid (s1\<lparr>bulkBufferDescriptors := change_first P (\<lambda>b. b\<lparr>bb_sVirtualAddr := va\<rparr>)
          (bulkBufferDescriptors s1)\<rparr>) dv)\<rparr>)" for P va
        using set_address_books [OF b1 r i] k by (simp add: client_ok_def)
      show ?thesis
        using dv r g a Inr w p q rm ok2 o1 o2 by (cases p; cases q) (simp_all add: mcMap_lib_def Let_def)
    qed
  qed
qed

lemma unmap_ok: "client_ok cl \<Longrightarrow> client_ok (snd (mcUnmap_lib so sid buf info cl))"
proof -
  assume ok: "client_ok cl"
  have "client_ok (snd (case with_net (so_write so (cd_connection dv) msg) cl of (ok, cl1) \<Rightarrow>
       if \<not> ok then (MC_DRV_ERR_SOCKET_WRITE, cl1)
       else (case recv_from_daemon so (cd_connection dv) 4 cl1 of (Inl e, cl2) \<Rightarrow> (e, cl2)
         | (Inr d, cl2) \<Rightarrow>
           if dec32 d \<noteq> MC_DRV_OK then (MC_DRV_ERR_DAEMON_UNREACHABLE, cl2)
           else (case removeBulkBuf buf s (cl_kmod cl2) of (ret, s1, k) \<Rightarrow>
             (ret, cl2\<lparr>cl_device := Some (set_session sid s1 dv), cl_kmod := k\<rparr>)))))" (is "client_ok (snd ?c)")
    if dv: "cl_device cl = Some dv" and r: "resolveSessionId sid dv = Some s" for dv s msg
  proof -
    obtain b cl1 where w: "with_net (so_write so (cd_connection dv) msg) cl = (b, cl1)" by fastforce
    obtain p cl2 where p: "recv_from_daemon so (cd_connection dv) 4 cl1 = (p, cl2)" by fastforce
    obtain y s1 k where rm: "removeBulkBuf buf s (cl_kmod cl2) = (y, s1, k)" by (metis surj_pair)
    note s1 = same_with_net [OF w]
    note s2 = same_trans [OF s1 same_recv [OF p]]
    have "books {#} dv (cl_kmod cl2)" using ok dv s2 by (simp add: client_ok_def same_client_def)
    then have "books {#} (set_session sid s1 dv) k" using remove_books [OF _ r rm] by blast
    then show ?thesis using ok same_ok [OF s1] same_ok [OF s2] w p rm by (cases p) simp_all
  qed
  then show ?thesis using ok
    by (auto simp: mcUnmap_lib_def invalid_if_dead_ok [of "fst x" "snd x" for x, simplified] Let_def split: option.splits)
qed

lemma version_ok: "client_ok cl \<Longrightarrow> client_ok (snd (mcGetMobiCoreVersion_lib so given cl))"
proof -
  assume ok: "client_ok cl"
  have "same_client cl (snd (mcGetMobiCoreVersion_lib so given cl))"
    by (auto simp: mcGetMobiCoreVersion_lib_def split: option.split prod.split sum.split dest!: same_call intro: same_trans)
  then show ?thesis using same_ok ok by blast
qed

lemma has_sessions_ok: "client_ok cl \<Longrightarrow> client_ok (snd (mcDeviceHasOpenSessions_lib so cl))"
  by (simp add: mcDeviceHasOpenSessions_lib_def idle_ok [OF prod.collapse [symmetric]] split: option.split)

lemma call_ok: "client_ok cl \<Longrightarrow> call_library so c cl = Some cl1 \<Longrightarrow> client_ok cl1"
  by (cases c) (auto simp: mcOpenSession_lib_def mcOpenGPTA_lib_def
      dest: wait_ok intro: open_device_ok close_device_ok has_sessions_ok open_uuid_ok open_trustlet_ok close_session_ok notify_ok
        malloc_ok free_ok map_ok unmap_ok version_ok)

lemma reach_ok: "client_reach so cl \<Longrightarrow> client_ok cl"
proof (induction rule: client_reach.induct)
  case (start cl)
  then show ?case by (simp add: client_ok_def)
qed (rule call_ok)

subsection \<open>A daemon from a script\<close>

text \<open>Sockets for concrete runs: connecting and writing always work, reads take the results of a list.\<close>

definition scripted :: "(nat \<times> receive_result list) socket" where
  "scripted = \<lparr>so_connect = \<lambda>(c, rs). (Some c, (Suc c, rs)), so_write = \<lambda>_ _ n. (True, n),
     so_read = \<lambda>_ _ _ (c, rs). (case rs of [] \<Rightarrow> (Timed_out, (c, [])) | r # rs \<Rightarrow> (r, (c, rs))),
     so_alive = \<lambda>_ n. (True, n), so_close = \<lambda>_ n. n\<rparr>"

text \<open>A module that gives every buffer a handle of its own.\<close>

definition willing_kmod :: kmod where
  "willing_kmod = \<lparr>fdKMod = False, kn_errno = 0, kn_answers = \<lambda>i. \<lparr>ka_ret = 0, ka_errno = 0, ka_handle = of_nat i + 1, ka_phys = 0x1000,
     ka_word = 0, ka_word2 = 0, ka_reused = False, ka_addr = 0x2000\<rparr>, kn_log = []\<rparr>"

definition new_client :: "receive_result list \<Rightarrow> (nat \<times> receive_result list) client" where
  "new_client rs = \<lparr>cl_device = None, cl_kmod = willing_kmod, cl_net = (0, rs), cl_stack = \<lambda>_. 0\<rparr>"

definition device_answers :: "receive_result list" where
  "device_answers = map Received [enc32 0, enc32 2, enc32 0]"

definition session_answers :: "receive_result list" where
  "session_answers = map Received [enc32 0, enc32 0x301 @ enc32 5 @ enc32 7, enc32 0]"

lemmas script_simps = scripted_def willing_kmod_def new_client_def device_answers_def session_answers_def with_net_def change_device_def
  recv_from_daemon_def recv_result_def call_daemon_def kcall_def kmod_call_def CKMod_isOpen_def Device_init_def Let_def resolveSessionId_def

lemma enc32_not_Nil [simp]: "enc32 w \<noteq> []"
  by (simp add: enc32_def)

lemma version_2_ok: "checkVersionOkDAEMON 2"
  by code_simp

text \<open>A client with a device, and with a session whose buffer the library registered.\<close>

definition with_device_client :: "receive_result list \<Rightarrow> (nat \<times> receive_result list) client" where
  "with_device_client rs = snd (mcOpenDevice_lib scripted (new_client (device_answers @ rs)))"

lemma with_device_client:
  "cl_device (with_device_client rs) = Some (Device_init 0)" "cl_net (with_device_client rs) = (1, rs)"
  "fdKMod (cl_kmod (with_device_client rs))" "l2_live (cl_kmod (with_device_client rs)) = []"
  by (simp_all add: with_device_client_def mcOpenDevice_lib_def open_at_daemon_def getDaemonVersion_def version_2_ok
      Device_open_def CKMod_open_def CKMod_init_def l2_live_def script_simps)

lemma with_device_reach: "client_reach scripted (with_device_client rs)"
proof (rule client_reach.step [of _ _ Open_device])
  show "client_reach scripted (new_client (device_answers @ rs))" by (rule client_reach.start) (simp add: new_client_def)
qed (simp add: with_device_client_def)

definition sample_uuid :: bytes where "sample_uuid = replicate 16 7"

definition with_session_client :: "receive_result list \<Rightarrow> (nat \<times> receive_result list) client" where
  "with_session_client rs = snd (mcOpenSession_lib scripted (Some sample_uuid) 0x5000 64 (with_device_client (session_answers @ rs)))"

lemma with_session_reach: "client_reach scripted (with_session_client rs)"
  by (rule client_reach.step [OF with_device_reach, of "Open_session (Some sample_uuid) 0x5000 64" "session_answers @ rs"])
    (simp add: with_session_client_def)

text \<open>What opening a session with a plain buffer comes to on the script.\<close>

lemma script_register:
  assumes "fdKMod k" "kn_answers k = kn_answers willing_kmod"
  shows "kmod_registerWsmL2 b len pid k = (Inr (of_nat (length (kn_log k)) + 1, 0x1000), snd (kcall (IO_REG_WSM b len pid) k))"
  using assms by (simp add: kmod_registerWsmL2_def kmod_call_def CKMod_isOpen_def kcall_def Let_def willing_kmod_def)

lemma with_device_kmod: "kn_answers (cl_kmod (with_device_client rs)) = kn_answers willing_kmod" "length (kn_log (cl_kmod (with_device_client rs))) = 1"
  "cl_stack (with_device_client rs) = (\<lambda>_. 0)"
  by (simp_all add: with_device_client_def mcOpenDevice_lib_def open_at_daemon_def getDaemonVersion_def version_2_ok
      Device_open_def CKMod_open_def CKMod_init_def script_simps)

definition tci_buffer :: bulk where
  "tci_buffer = \<lparr>bb_virtAddr = 0x5000, bb_sVirtualAddr = 0, bb_len = 64, bb_handle = 2\<rparr>"

lemma with_session_client:
  "mcOpenSession_lib scripted (Some sample_uuid) 0x5000 64 (with_device_client (session_answers @ rs)) =
     ((MC_DRV_OK, Some 0x301), with_session_client rs)"
  "cl_device (with_session_client rs) = Some (createNewSession 0x301 1 (Some tci_buffer) (Device_init 0))"
  "cl_net (with_session_client rs) = (2, rs)" "l2_live (cl_kmod (with_session_client rs)) = [2]" "fdKMod (cl_kmod (with_session_client rs))"
proof -
  note d = with_device_client [of "session_answers @ rs"] with_device_kmod [of "session_answers @ rs"]
  let ?c = "with_device_client (session_answers @ rs)"
  note r = script_register [OF d(3,5), of "0x5000" 64 0, unfolded d(6)]
  have l: "l2_live (snd (kcall (IO_REG_WSM 0x5000 64 0) (cl_kmod ?c))) = [2]" "fdKMod (snd (kcall (IO_REG_WSM 0x5000 64 0) (cl_kmod ?c)))"
    using live_call(1) [of "IO_REG_WSM 0x5000 64 0" "cl_kmod ?c"] d(4,5,6) fd_call [of _ "cl_kmod ?c"] d(3)
    by (simp_all add: kcall_def Let_def willing_kmod_def)
  note s = mcOpenSession_lib_def open_uuid_def session_tci_def findContiguousWsm_client_def map_tci_def mapBulkBuf_def
    open_request_def open_answer_def connect_notifications_def MC_MAX_TCI_LEN_def createNewSession_def addBulkBuf_made_def Session_init_def
    tci_buffer_def session_answers_def scripted_def with_net_def change_device_def recv_from_daemon_def recv_result_def call_daemon_def Device_init_def
  show "mcOpenSession_lib scripted (Some sample_uuid) 0x5000 64 (with_device_client (session_answers @ rs)) =
     ((MC_DRV_OK, Some 0x301), with_session_client rs)"
    "cl_device (with_session_client rs) = Some (createNewSession 0x301 1 (Some tci_buffer) (Device_init 0))"
    "cl_net (with_session_client rs) = (2, rs)" "l2_live (cl_kmod (with_session_client rs)) = [2]" "fdKMod (cl_kmod (with_session_client rs))"
    using d r l by (simp_all add: with_session_client_def s)
qed

subsection \<open>Properties of the library\<close>

text \<open>C6. Whatever calls a program makes, in any order, and whatever the daemon and the kernel module answer, the library keeps
  its books: every buffer that a session of the device lists is registered with the module under its handle, every piece of memory of the device
  is allocated there, each as often as it is listed, and no session lists an address twice. So nothing is freed twice.\<close>

theorem client_books_kept:
  assumes "client_reach so cl" and "cl_device cl = Some dv"
  shows "mset (concat (map (\<lambda>s. map bb_handle (bulkBufferDescriptors s)) (sessionList dv))) \<subseteq># mset (l2_live (cl_kmod cl)) \<and>
    mset (map cw_handle (wsmL2List dv)) \<subseteq># mset (wsm_live (cl_kmod cl)) \<and>
    (\<forall>s\<in>set (sessionList dv). distinct (map bb_virtAddr (bulkBufferDescriptors s)))"
  using reach_ok [OF assms(1)] assms(2) by (simp add: client_ok_def books_def bulk_handles_def addresses_once_def)

lemma client_books_kept_witness: "2 \<in># mset (l2_live (cl_kmod (with_session_client [])))"
proof -
  have "cl_device (with_session_client []) = Some (createNewSession 0x301 1 (Some tci_buffer) (Device_init 0))" by (rule with_session_client)
  from client_books_kept [OF with_session_reach this]
  show ?thesis by (simp add: createNewSession_def Device_init_def addBulkBuf_made_def Session_init_def tci_buffer_def)
qed

text \<open>The outcomes of the answer to a request to open.\<close>

lemma open_answer_outcome:
  assumes "open_answer so c bu cl = ((r, sid), cl1)"
  shows "cl_kmod cl1 = cl_kmod cl \<and> (if r = MC_DRV_OK
    then \<exists>d i. sid = Some i \<and> cl_device cl1 = map_option (createNewSession i d bu) (cl_device cl) else cl_device cl1 = cl_device cl)"
proof -
  obtain q cl2 where q: "recv_result so c cl = (q, cl2)" by fastforce
  obtain p cl3 where p: "recv_from_daemon so c 12 cl2 = (p, cl3)" by fastforce
  note s2 = same_result [OF q] and s3 = same_trans [OF same_result [OF q] same_recv [OF p]]
  have e: "open_error q \<noteq> 0" if "q \<noteq> 0"
  proof -
    show ?thesis
    proof (cases "q AND 0xFF = 0x0f \<and> 16 \<le> drop_bit 8 q AND 0xFF \<and> drop_bit 8 q AND 0xFF \<le> 23")
      case True
      have "\<not> (- 9 :: u32) \<le> 23" by simp
      then have "(drop_bit 8 q AND 0xFF) + 9 \<noteq> 0" using True by (metis eq_neg_iff_add_eq_0)
      then show ?thesis using True by (simp add: open_error_def Let_def)
    next
      case False
      then show ?thesis using that by (auto simp: open_error_def Let_def)
    qed
  qed
  show ?thesis
  proof (cases "q \<noteq> MC_DRV_OK \<or> (\<exists>x. p = Inl x)")
    case True
    have "x \<noteq> 0" if "p = Inl x" for x
      using p that by (auto simp: recv_from_daemon_def split: prod.splits receive_result.splits if_splits)
    moreover have "open_error q \<noteq> 0" if "q \<noteq> 0" by (rule e [OF that])
    ultimately show ?thesis using assms q p s2 s3 True by (cases "q = 0") (auto simp: open_answer_def same_client_def)
  next
    case False
    then obtain d where d: "q = 0" "p = Inr d" by (cases p) auto
    obtain x cl4 where x: "connect_notifications so (dec32 (take 4 d)) (dec32 (take 4 (drop 4 d))) (dec32 (take 4 (drop 8 d))) cl3 = (x, cl4)"
      by fastforce
    have n: "y \<noteq> 0" if "x = Inl y" for y
      using x that by (auto simp: connect_notifications_def split: prod.splits option.splits if_splits)
    show ?thesis using assms q p d x n same_trans [OF s3 same_connect [OF x]]
      by (cases x) (auto simp: open_answer_def Let_def same_client_def change_device_def)
  qed
qed

text \<open>C29. Opening a session over a plain buffer registers the buffer with the kernel module exactly once. When opening succeeds the device has a
  session more, at the end, with the id that is returned and the buffer as its only one. When it fails, wherever it fails, the device is as before and
  the buffer stays registered: no object has its handle any more, so nothing will unregister it.\<close>

theorem open_session_outcome:
  assumes "cl_device cl = Some dv" and "findContiguousWsm_client tci dv = None" and "tci \<noteq> 0" and "len \<noteq> 0" and "len \<le> MC_MAX_TCI_LEN"
    and "kmod_registerWsmL2 tci len 0 (cl_kmod cl) = (Inr (h, p), k)"
    and "mcOpenSession_lib so (Some uuid) tci len cl = ((r, sid), cl1)"
  shows "l2_live (cl_kmod cl1) = h # l2_live (cl_kmod cl) \<and> (if r = MC_DRV_OK
    then \<exists>i c. sid = Some i \<and> cl_device cl1 = Some (dv\<lparr>sessionList := sessionList dv @ [\<lparr>cs_id = i, notificationSocket = c,
        bulkBufferDescriptors = [\<lparr>bb_virtAddr = tci, bb_sVirtualAddr = 0, bb_len = len, bb_handle = h\<rparr>], lastErr = 0\<rparr>]\<rparr>)
    else cl_device cl1 = Some dv)"
proof -
  let ?b = "\<lparr>bb_virtAddr = tci, bb_sVirtualAddr = 0, bb_len = len, bb_handle = h\<rparr>"
  let ?cl = "cl\<lparr>cl_kmod := k\<rparr>"
  let ?ms = "[enc32 MC_DRV_CMD_OPEN_SESSION @ enc32 0 @ uuid @ enc32 (ucast (tci AND 0xFFF)) @ enc32 h @ enc32 len]"
  obtain b cl2 where s: "send_all so (cd_connection dv) ?ms ?cl = (b, cl2)" by fastforce
  note s2 = same_send [OF s]
  have t: "session_tci dv tci len cl = (Inr (h, Some ?b), ?cl)" using assms(2-4,6) by (simp add: session_tci_def map_tci_def mapBulkBuf_def)
  have o: "((r, sid), cl1) = (if \<not> b then ((MC_DRV_ERR_SOCKET_WRITE, None), cl2) else open_answer so (cd_connection dv) (Some ?b) cl2)"
    using assms(7) assms(1,5) t s by (simp add: mcOpenSession_lib_def open_uuid_def open_request_def not_less split: if_splits)
  have l: "l2_live k = h # l2_live (cl_kmod cl)" using register_live [OF assms(6)] by simp
  show ?thesis
  proof (cases b)
    case False
    then show ?thesis using o l s2 assms(1) by (simp add: same_client_def)
  next
    case True
    then show ?thesis using open_answer_outcome [of so "cd_connection dv" "Some ?b" cl2 r sid cl1] o l s2 assms(1)
      by (auto simp: same_client_def createNewSession_def addBulkBuf_made_def Session_init_def split: if_splits)
  qed
qed

lemma open_session_outcome_witness:
  "l2_live (cl_kmod (with_session_client [])) = [2] \<and> l2_live (cl_kmod (snd (mcOpenSession_lib scripted (Some sample_uuid) 0x5000 64 (with_device_client [])))) = [2]"
proof -
  have k: "kmod_registerWsmL2 0x5000 64 0 (cl_kmod (with_device_client rs)) =
      (Inr (2, 0x1000), snd (kcall (IO_REG_WSM 0x5000 64 0) (cl_kmod (with_device_client rs))))" for rs
    using script_register [of "cl_kmod (with_device_client rs)"] with_device_client(3) [of rs] with_device_kmod [of rs] by simp
  have n: "findContiguousWsm_client 0x5000 (Device_init 0) = None" by (simp add: findContiguousWsm_client_def Device_init_def)
  have l: "(64 :: u32) \<le> MC_MAX_TCI_LEN" by (simp add: MC_MAX_TCI_LEN_def)
  obtain r sid cl1 where f: "mcOpenSession_lib scripted (Some sample_uuid) 0x5000 64 (with_device_client []) = ((r, sid), cl1)" by (metis surj_pair)
  show ?thesis
    using open_session_outcome [OF with_device_client(1) n _ _ l k with_session_client(1) [of "[]"]]
      open_session_outcome [OF with_device_client(1) n _ _ l k f] f with_device_client(4) by simp
qed

text \<open>When the daemon refuses to unmap a buffer, the connection is alive: an answer came. But the code the library makes of the refusal has the same
  number as the codes for a dead connection, so the device becomes invalid, and the buffer stays listed and registered.\<close>

lemma refused_unmap_invalidates:
  assumes "cl_device cl = Some dv" and "resolveSessionId sid dv = Some s" and "buf \<noteq> 0" and "sVirtualAddr mi \<noteq> 0"
    and "getBufHandle (sVirtualAddr mi) (sVirtualLen mi) s \<noteq> 0" and "\<And>n. fst (so_write so (cd_connection dv) msg n)"
    and "msg = enc32 9 @ enc32 sid @ enc32 (getBufHandle (sVirtualAddr mi) (sVirtualLen mi) s) @ enc32 (sVirtualAddr mi) @ enc32 (sVirtualLen mi)"
    and "\<And>n. fst (so_read so (cd_connection dv) 4 (-1) n) = Received (enc32 code)" and "code \<noteq> MC_DRV_OK"
  shows "\<exists>n. mcUnmap_lib so sid buf (Some mi) cl = (MC_DRV_ERR_DAEMON_UNREACHABLE, cl\<lparr>cl_net := n, cl_device := Some (dv\<lparr>isValid := False\<rparr>)\<rparr>)"
proof -
  obtain n1 where w: "so_write so (cd_connection dv) msg (cl_net cl) = (True, n1)" using assms(6) [of "cl_net cl"] by (metis fst_conv prod.collapse)
  obtain n2 where r: "so_read so (cd_connection dv) 4 (-1) n1 = (Received (enc32 code), n2)" using assms(8) [of n1] by (metis prod.collapse)
  have "mcUnmap_lib so sid buf (Some mi) cl = (MC_DRV_ERR_DAEMON_UNREACHABLE, cl\<lparr>cl_net := n2, cl_device := Some (dv\<lparr>isValid := False\<rparr>)\<rparr>)"
    using assms(1-5,9) w [unfolded assms(7)] r
    by (simp add: mcUnmap_lib_def Let_def with_net_def recv_from_daemon_def invalid_if_dead_def change_device_def setInvalid_def)
  then show ?thesis by blast
qed

text \<open>A socket over which every answer is a refusal.\<close>

definition refusing :: "unit socket" where
  "refusing = \<lparr>so_connect = \<lambda>n. (Some 0, n), so_write = \<lambda>_ _ n. (True, n), so_read = \<lambda>_ _ _ n. (Received (enc32 MC_DRV_ERR_DAEMON_UNKNOWN_SESSION), n),
     so_alive = \<lambda>_ n. (True, n), so_close = \<lambda>_ n. n\<rparr>"

definition mapped_session :: csession where
  "mapped_session = \<lparr>cs_id = 0x301, notificationSocket = 1,
     bulkBufferDescriptors = [\<lparr>bb_virtAddr = 0x7000, bb_sVirtualAddr = 0x100000, bb_len = 32, bb_handle = 5\<rparr>], lastErr = 0\<rparr>"

lemma refused_unmap_invalidates_witness:
  "isValid (the (cl_device (snd (mcUnmap_lib refusing 0x301 0x7000 (Some \<lparr>sVirtualAddr = 0x100000, sVirtualLen = 32\<rparr>)
     \<lparr>cl_device = Some ((Device_init 0)\<lparr>sessionList := [mapped_session]\<rparr>), cl_kmod = willing_kmod, cl_net = (), cl_stack = \<lambda>_. 0\<rparr>)))) = False"
proof -
  let ?cl = "\<lparr>cl_device = Some ((Device_init 0)\<lparr>sessionList := [mapped_session]\<rparr>), cl_kmod = willing_kmod, cl_net = (), cl_stack = \<lambda>_. 0\<rparr>"
  have "\<exists>n. mcUnmap_lib refusing 0x301 0x7000 (Some \<lparr>sVirtualAddr = 0x100000, sVirtualLen = 32\<rparr>) ?cl =
      (MC_DRV_ERR_DAEMON_UNREACHABLE, ?cl\<lparr>cl_net := n, cl_device := Some (((Device_init 0)\<lparr>sessionList := [mapped_session]\<rparr>)\<lparr>isValid := False\<rparr>)\<rparr>)"
    by (rule refused_unmap_invalidates [OF _ _ _ _ _ _ refl, where s = mapped_session and code = MC_DRV_ERR_DAEMON_UNKNOWN_SESSION])
      (simp_all add: resolveSessionId_def mapped_session_def getBufHandle_def refusing_def)
  then show ?thesis by (elim exE) simp
qed

text \<open>When the answer to mapping a buffer is lost, the call fails, but the buffer stays listed with no secure address: the same address can then not be
  mapped in that session, whatever the daemon answers, and unmapping it with the secure address it is listed with is refused before anything is sent.\<close>

lemma lost_map_answer_blocks_address:
  assumes "cl_device cl = Some dv" and "resolveSessionId sid dv = Some s" and "buf \<noteq> 0" and "\<not> list_ex (\<lambda>b. bb_virtAddr b = buf) (bulkBufferDescriptors s)"
    and "kmod_registerWsmL2 buf len 0 (cl_kmod cl) = (Inr (h, p), k)" and "\<And>n. fst (so_read so (cd_connection dv) 4 (-1) n) = Received []"
    and "mcMap_lib so sid buf len True cl = ((r, info), cl1)"
  shows "r = 0x0f \<and> info = None \<and> h \<in> set (l2_live (cl_kmod cl1)) \<and>
    (\<forall>so2 :: 'm socket. \<forall>len2 n. fst (mcMap_lib so2 sid buf len2 True (\<lparr>cl_device = cl_device cl1, cl_kmod = cl_kmod cl1, cl_net = n, cl_stack = cl_stack cl1\<rparr>))
       = (MC_DRV_ERR_BUFFER_ALREADY_MAPPED, None)) \<and>
    (\<forall>len2. fst (mcUnmap_lib so sid buf (Some \<lparr>sVirtualAddr = 0, sVirtualLen = len2\<rparr>) cl1) = MC_DRV_ERR_NULL_POINTER)"
proof -
  let ?b = "\<lparr>bb_virtAddr = buf, bb_sVirtualAddr = 0, bb_len = len, bb_handle = h\<rparr>"
  let ?s = "s\<lparr>bulkBufferDescriptors := bulkBufferDescriptors s @ [?b]\<rparr>"
  let ?cl = "cl\<lparr>cl_device := Some (set_session sid ?s dv), cl_kmod := k\<rparr>"
  let ?msg = "enc32 MC_DRV_CMD_MAP_BULK_BUF @ enc32 sid @ enc32 h @ enc32 0 @ enc32 (ucast (buf AND 0xFFF)) @ enc32 len"
  have a: "addBulkBuf buf len s (cl_kmod cl) = (Inr ?b, ?s, k)" using assms(4,5) by (simp add: addBulkBuf_def Let_def)
  obtain w cl2 where w: "with_net (so_write so (cd_connection dv) ?msg) ?cl = (w, cl2)" by fastforce
  obtain n3 where "so_read so (cd_connection dv) 4 (-1) (cl_net cl2) = (Received [], n3)" using assms(6) [of "cl_net cl2"] by (metis prod.collapse)
  then obtain cl3 where q: "recv_from_daemon so (cd_connection dv) 4 cl2 = (Inl MC_DRV_ERR_SOCKET_READ, cl3)"
    by (simp add: recv_from_daemon_def with_net_def)
  have o: "((r, info), cl1) = (if \<not> w then ((MC_DRV_ERR_SOCKET_WRITE, None), cl2) else ((MC_DRV_ERR_SOCKET_READ, None), cl3))"
    using assms(7) assms(1-3) a w q by (cases w) (simp_all add: mcMap_lib_def Let_def)
  have c: "cl_device cl1 = Some (set_session sid ?s dv)" "cl_kmod cl1 = k"
    using o same_with_net [OF w] same_recv [OF q] by (auto simp: same_client_def split: if_splits)
  have i: "cs_id s = sid" using assms(2) by (auto simp: resolveSessionId_def find_Some_iff)
  have rs: "resolveSessionId sid (set_session sid ?s dv) = Some ?s" by (rule resolve_set [OF assms(2)]) (simp add: i)
  have "addBulkBuf buf len2 ?s k = (Inl MC_DRV_ERR_BUFFER_ALREADY_MAPPED, ?s, k)" for len2 by (simp add: addBulkBuf_def)
  then have m: "fst (mcMap_lib so2 sid buf len2 True (\<lparr>cl_device = cl_device cl1, cl_kmod = cl_kmod cl1, cl_net = n, cl_stack = cl_stack cl1\<rparr>))
      = (MC_DRV_ERR_BUFFER_ALREADY_MAPPED, None)" for so2 :: "'m socket" and len2 n
    using c rs assms(3) by (simp add: mcMap_lib_def)
  have u: "fst (mcUnmap_lib so sid buf (Some \<lparr>sVirtualAddr = 0, sVirtualLen = len2\<rparr>) cl1) = MC_DRV_ERR_NULL_POINTER" for len2
    using c by (simp add: mcUnmap_lib_def invalid_if_dead_def)
  have "h \<in> set (l2_live (cl_kmod cl1))" using register_live [OF assms(5)] c by simp
  then show ?thesis using o m u by (auto split: if_splits)
qed

definition hanging_up :: "unit socket" where
  "hanging_up = refusing\<lparr>so_read := \<lambda>_ _ _ n. (Received [], n)\<rparr>"

lemma lost_map_answer_blocks_address_witness:
  "\<exists>r info cl1. mcMap_lib hanging_up 0x301 0x9000 16 True
     \<lparr>cl_device = Some ((Device_init 0)\<lparr>sessionList := [mapped_session]\<rparr>), cl_kmod = willing_kmod\<lparr>fdKMod := True\<rparr>, cl_net = (), cl_stack = \<lambda>_. 0\<rparr> = ((r, info), cl1) \<and>
     1 \<in> set (l2_live (cl_kmod cl1))"
proof -
  let ?k = "willing_kmod\<lparr>fdKMod := True\<rparr>" let ?dv = "(Device_init 0)\<lparr>sessionList := [mapped_session]\<rparr>"
  let ?cl = "\<lparr>cl_device = Some ?dv, cl_kmod = ?k, cl_net = (), cl_stack = \<lambda>_. 0\<rparr>"
  obtain r info cl1 where f: "mcMap_lib hanging_up 0x301 0x9000 16 True ?cl = ((r, info), cl1)" by (metis surj_pair)
  have k: "kmod_registerWsmL2 0x9000 16 0 (cl_kmod ?cl) = (Inr (1, 0x1000), snd (kcall (IO_REG_WSM 0x9000 16 0) ?k))"
    using script_register [of ?k] by (simp add: willing_kmod_def)
  have "1 \<in> set (l2_live (cl_kmod cl1))"
    using lost_map_answer_blocks_address [where cl = ?cl and s = mapped_session and so = hanging_up, OF _ _ _ _ k _ f, where 'm = unit]
    by (simp add: resolveSessionId_def mapped_session_def hanging_up_def)
  with f show ?thesis by blast
qed

subsection \<open>Waiting for notifications\<close>

text \<open>What waiting relies on: a connection with notifications to read gives them one by one, and with none it gives, at once, anything but a
  notification. \<open>unread\<close> is what the peer has sent and the client has not read.\<close>

locale notification_source =
  fixes so :: "'n socket" and c :: connection and unread :: "'n \<Rightarrow> (u32 \<times> u32) list" and good :: "'n \<Rightarrow> bool"
  assumes read_next: "good n \<Longrightarrow> unread n = (i, p) # ns \<Longrightarrow>
      \<exists>n1. so_read so c 8 t n = (Received (enc32 i @ enc32 p), n1) \<and> good n1 \<and> unread n1 = ns"
    and read_none: "good n \<Longrightarrow> unread n = [] \<Longrightarrow> \<exists>r n1. so_read so c 8 0 n = (r, n1) \<and> good n1 \<and> unread n1 = [] \<and> (\<forall>d. r = Received d \<longrightarrow> length d \<noteq> 8)"
begin

text \<open>The client afterwards: another state of the sockets and, after a notification with an exit code, the code in the session.\<close>

lemma drain:
  assumes "good (cl_net cl)" "unread (cl_net cl) = ns" "m > 0 \<or> ns \<noteq> []" "ns = [] \<Longrightarrow> t = 0"
  shows "\<exists>n. good n \<and> (if \<forall>x\<in>set ns. snd x = 0 then read_notifications so sid c t m cl = Some (MC_DRV_OK, cl\<lparr>cl_net := n\<rparr>) \<and> unread n = []
    else read_notifications so sid c t m cl = Some (MC_DRV_INFO_NOTIFICATION, change_device (\<lambda>dv. dv\<lparr>sessionList :=
        change_first (\<lambda>s. cs_id s = sid) (setErrorInfo (snd (hd (dropWhile (\<lambda>x. snd x = 0) ns)))) (sessionList dv)\<rparr>) (cl\<lparr>cl_net := n\<rparr>)) \<and>
      unread n = tl (dropWhile (\<lambda>x. snd x = 0) ns))"
  using assms
proof (induction ns arbitrary: cl m t)
  case Nil
  obtain r n where r: "so_read so c 8 0 (cl_net cl) = (r, n)" "good n" "unread n = []" "\<forall>d. r = Received d \<longrightarrow> length d \<noteq> 8"
    using read_none [OF Nil.prems(1,2)] by blast
  have "read_notifications so sid c t m cl = Some (MC_DRV_OK, cl\<lparr>cl_net := n\<rparr>)"
    using r Nil.prems(3,4) by (subst read_notifications.simps) (cases r; simp add: with_net_def)
  then show ?case using r by auto
next
  case (Cons x ns)
  obtain i p where x: "x = (i, p)" by fastforce
  obtain n where n: "so_read so c 8 t (cl_net cl) = (Received (enc32 i @ enc32 p), n)" "good n" "unread n = ns"
    using read_next [OF Cons.prems(1) Cons.prems(2) [unfolded x]] by blast
  let ?cl = "cl\<lparr>cl_net := n\<rparr>"
  show ?case
  proof (cases "p = 0")
    case False
    then have "read_notifications so sid c t m cl = Some (MC_DRV_INFO_NOTIFICATION, change_device (\<lambda>dv. dv\<lparr>sessionList :=
        change_first (\<lambda>s. cs_id s = sid) (setErrorInfo p) (sessionList dv)\<rparr>) ?cl)"
      using n by (subst read_notifications.simps) (simp add: with_net_def)
    then show ?thesis using False n x by auto
  next
    case True
    have "read_notifications so sid c t m cl = read_notifications so sid c 0 (Suc m) ?cl"
      using n True by (subst read_notifications.simps) (simp add: with_net_def)
    then show ?thesis using Cons.IH [of ?cl "Suc m" 0] n True x by (simp cong: if_cong)
  qed
qed

end

end
