(* ===== verification/ClientDaemon.thy ===== *)
theory ClientDaemon
  imports ClientFacts ClosingFacts StartupFacts
begin

text \<open>
  The client library and the daemon together: the sockets of the library are filled with the
  model of the daemon, which runs each command a client writes and whose answers the client reads.
  What the library believes about its sessions is compared with what the daemon has.
\<close>

subsection \<open>What a connection receives\<close>

definition sent_to :: "connection \<Rightarrow> device \<Rightarrow> bytes" where
  "sent_to c dv = concat (map snd (filter (\<lambda>m. fst m = c) (dv_written dv)))"

text \<open>Interrupts write to the connections for notifications only.\<close>

definition quiet :: "connection \<Rightarrow> device \<Rightarrow> device \<Rightarrow> bool" where
  "quiet c dv dv1 \<longleftrightarrow> kept dv dv1 \<and> (c \<notin> set (session_conns dv) \<longrightarrow> sent_to c dv1 = sent_to c dv)"

lemma hushed_trans: "quiet c dv dv1 \<Longrightarrow> quiet c dv1 dv2 \<Longrightarrow> quiet c dv dv2"
  using kept_trans [of dv dv1 dv2] kept_conns [of dv dv1] by (auto simp: quiet_def)

lemma quiet_same: "kept dv dv1 \<Longrightarrow> dv_written dv1 = dv_written dv \<Longrightarrow> quiet c dv dv1"
  by (simp add: quiet_def sent_to_def)

lemma sent_write [simp]: "sent_to c (write_data d m dv) = (if d = c then sent_to c dv @ m else sent_to c dv)"
  by (simp add: sent_to_def write_data_def)

lemma session_conn_in: "ts \<in> set (trustletSessions dv) \<Longrightarrow> notificationConnection ts = Some c \<Longrightarrow> c \<in> set (session_conns dv)"
  by (force simp: session_conns_def map_filter_def)

lemma hushed_handle: "quiet c dv (handle_notification n dv)"
proof (cases "n_sessionId n = SID_MCP")
  case True
  show ?thesis by (rule quiet_same [OF kept_handle]) (simp add: True handle_notification_def signalMcpNotification_def)
next
  case False
  show ?thesis
  proof (cases "getTrustletSession (n_sessionId n) dv")
    case None
    then have "dv_written (handle_notification n dv) = dv_written dv"
      using False by (simp add: handle_notification_def queueUnknownNotification_def Let_def)
    then show ?thesis by (rule quiet_same [OF kept_handle])
  next
    case (Some ts)
    then have m: "ts \<in> set (trustletSessions dv)" by (auto simp: getTrustletSession_def find_Some_iff)
    show ?thesis
    proof (cases "notificationConnection ts")
      case None
      then have "dv_written (handle_notification n dv) = dv_written dv"
        using False Some by (simp add: handle_notification_def update_session_def Let_def)
      then show ?thesis by (rule quiet_same [OF kept_handle])
    next
      case (Some d)
      then have "handle_notification n dv = write_data d (enc_notification n) dv"
        using False \<open>getTrustletSession _ dv = Some ts\<close> by (simp add: handle_notification_def)
      then show ?thesis using kept_handle [of dv n] session_conn_in [OF m Some] by (auto simp: quiet_def)
    qed
  qed
qed

lemma hushed_irq_loop: "quiet c dv (irq_loop dv)"
proof (induction dv rule: irq_loop.induct)
  case (1 dv)
  obtain r q where g: "getNotification (nq dv) = (r, q)" by fastforce
  have q: "quiet c dv (dv\<lparr>nq := q\<rparr>)" by (rule quiet_same) simp_all
  show ?case
  proof (cases r)
    case None
    then show ?thesis using g q by (subst irq_loop.simps) simp
  next
    case (Some n)
    have "quiet c dv (irq_loop (handle_notification n (dv\<lparr>nq := q\<rparr>)))"
      by (rule hushed_trans [OF hushed_trans [OF q hushed_handle] 1 [OF g [symmetric] Some]])
    then show ?thesis using g Some by (subst irq_loop.simps) simp
  qed
qed

lemma hushed_irqs: "quiet c dv (fold handle_irq irqs dv)"
proof (induction irqs arbitrary: dv)
  case Nil
  show ?case by (rule quiet_same) simp_all
next
  case (Cons irq irqs)
  have "quiet c dv (dv\<lparr>nq := (nq dv)\<lparr>nq_in := irq (nq_in (nq dv))\<rparr>\<rparr>)" by (rule quiet_same) simp_all
  then have "quiet c dv (handle_irq irq dv)" unfolding handle_irq_def by (rule hushed_trans [OF _ hushed_irq_loop])
  then show ?case using Cons.IH hushed_trans by simp
qed

lemma quiet_wait: "mcp_wait dv = (ok, t, dv1) \<Longrightarrow> quiet c dv dv1"
proof -
  assume w: "mcp_wait dv = (ok, t, dv1)"
  obtain b s where e: "sem_enter (mcpSessionNotification dv) = (b, s)" by fastforce
  let ?t = "dv_turns dv (dv_waits dv)"
  let ?dv1 = "dv\<lparr>dv_waits := Suc (dv_waits dv), mcpSessionNotification := s,
    mcpMessage := shared_write (mcpMessage dv) (wt_answer ?t (mcpMessage dv))\<rparr>"
  obtain s2 where d: "dv1 = (fold handle_irq (wt_irqs ?t) ?dv1)\<lparr>mcpSessionNotification := s2\<rparr>"
    using w e by (auto simp: mcp_wait_def Let_def case_prod_unfold)
  have "quiet c dv ?dv1" by (rule quiet_same) (simp_all add: kept_def)
  then have q: "quiet c dv (fold handle_irq (wt_irqs ?t) ?dv1)" by (rule hushed_trans [OF _ hushed_irqs])
  show ?thesis unfolding d by (rule hushed_trans [OF q quiet_same]) (simp_all add: kept_def)
qed

lemma quiet_wait_loop: "wait_loop n dv = (r, dv1) \<Longrightarrow> quiet c dv dv1"
proof (induction n dv rule: wait_loop.induct)
  case (1 n dv)
  obtain ok t dv2 where w: "mcp_wait dv = (ok, t, dv2)" by (metis prod.collapse)
  note k = quiet_wait [OF w]
  have f: "quiet c dv (dv2\<lparr>mcFault := True\<rparr>)" by (rule hushed_trans [OF k quiet_same]) simp_all
  have i: "quiet c dv dv" by (rule quiet_same) simp_all
  show ?case
  proof (cases "\<not> mcFault dv \<and> \<not> ok \<and> wt_status t \<noteq> MC_STATUS_HALT \<and> \<not> n - 1 < 1")
    case True
    then have "wait_loop (n - 1) dv2 = (r, dv1)" using "1.prems" w by (subst (asm) wait_loop.simps) simp
    then have "quiet c dv2 dv1" using 1(1) [OF _ w [symmetric] refl] True by simp
    then show ?thesis using hushed_trans [OF k] by blast
  next
    case False
    then show ?thesis using "1.prems" w k f i by (subst (asm) wait_loop.simps) (auto split: if_splits)
  qed
qed

lemma quiet_exchange: "mcp_exchange cmd ws dv = (r, dv1) \<Longrightarrow> quiet c dv dv1"
proof -
  assume m: "mcp_exchange cmd ws dv = (r, dv1)"
  let ?d = "notify SID_MCP (write_mcp ((0, enc32 cmd) # ws) dv)"
  obtain x dv2 where w: "wait_loop 5 ?d = (x, dv2)" by fastforce
  have d: "dv1 = dv2" using m w
    by (auto simp: mcp_exchange_def mshNotifyAndWait_def waitMcpNotification_def split: option.splits prod.splits)
  have "quiet c dv ?d" by (rule quiet_same [OF kept_trans [OF kept_calls(3) kept_calls(2)]]) (simp add: write_mcp_def)
  then show ?thesis unfolding d by (rule hushed_trans [OF _ quiet_wait_loop [OF w]])
qed

text \<open>Nothing is written to the connection of a client, and no notification connection is added.\<close>

definition silent :: "connection \<Rightarrow> device \<Rightarrow> device \<Rightarrow> bool" where
  "silent c dv dv1 \<longleftrightarrow> set (session_conns dv1) \<subseteq> set (session_conns dv) \<and> (c \<notin> set (session_conns dv) \<longrightarrow> sent_to c dv1 = sent_to c dv)"

lemma silent_trans: "silent c dv dv1 \<Longrightarrow> silent c dv1 dv2 \<Longrightarrow> silent c dv dv2"
  by (auto simp: silent_def)

lemma silent_refl [simp]: "silent c dv dv"
  by (simp add: silent_def)

lemma silent_quiet: "quiet c dv dv1 \<Longrightarrow> silent c dv dv1"
  using kept_conns [of dv dv1] by (simp add: silent_def quiet_def)

lemma silent_same: "session_conns dv1 = session_conns dv \<Longrightarrow> dv_written dv1 = dv_written dv \<Longrightarrow> silent c dv dv1"
  by (simp add: silent_def sent_to_def)

lemma silent_km [simp]: "silent c dv (snd (km_call dv))" "silent c dv (dv\<lparr>unknown_notifications := ns\<rparr>)"
  by (simp_all add: silent_same km_call_def session_conns_def)

lemma silent_lock: "lockWsmL2 h dv = (r, dv1) \<Longrightarrow> silent c dv dv1" "unlockWsmL2 h dv = (r, dv1) \<Longrightarrow> silent c dv dv1"
  by (auto simp: lockWsmL2_def unlockWsmL2_def km_call_def silent_def sent_to_def session_conns_def split: if_splits)

lemma silent_find: "findContiguousWsm h d dv = (r, dv1) \<Longrightarrow> silent c dv dv1" "findWsmL2 h d dv = (p, dv1) \<Longrightarrow> silent c dv dv1"
  by (auto simp: findContiguousWsm_def findWsmL2_def)

lemma silent_write_tci [simp]: "silent c dv (write_tci t a ofs dv)" "silent c dv (unlock_tci h len dv)"
  by (auto simp: write_tci_def write_mcp_def silent_def sent_to_def session_conns_def unlock_tci_def unlockWsmL2_def km_call_def)

lemma silent_prepare:
  assumes "prepare_tci d h len ofs dv = (r, dv1)"
  shows "silent c dv dv1 \<and> (\<forall>e. r = Inl e \<longrightarrow> e \<noteq> 0)"
proof (cases "tci_given h len")
  case False
  then show ?thesis using assms by (auto simp: prepare_tci_def)
next
  case True
  let ?f = "case findContiguousWsm h d dv of (Some (tci, l), dv1) \<Rightarrow> (Some l, write_tci WSM_CONTIGUOUS tci 0 dv1)
    | (None, dv1) \<Rightarrow> (case findWsmL2 h d dv1 of (tci, dv2) \<Rightarrow> if tci \<noteq> 0 then (Some len, write_tci WSM_L2 tci ofs dv2) else (None, dv2))"
  obtain l dv2 where f: "?f = (l, dv2)" by fastforce
  have k: "silent c dv dv2"
  proof -
    obtain x d1 where x: "findContiguousWsm h d dv = (x, d1)" by fastforce
    obtain y d2 where y: "findWsmL2 h d d1 = (y, d2)" by fastforce
    note k1 = silent_find(1) [OF x] and k2 = silent_trans [OF silent_find(1) [OF x] silent_find(2) [OF y]]
    show ?thesis using f x y k2 silent_trans [OF k1 silent_write_tci(1)] silent_trans [OF k2 silent_write_tci(1)]
      by (cases x) (auto split: if_splits)
  qed
  obtain b dv3 where b: "lockWsmL2 h dv2 = (b, dv3)" by fastforce
  show ?thesis using assms True f k silent_trans [OF k silent_lock(1) [OF b]] b
    by (cases l) (auto simp: prepare_tci_def split: if_splits)
qed

lemma prepare_next: "prepare_tci d h len ofs dv = (r, dv1) \<Longrightarrow> dv_next dv1 = dv_next dv"
  by (auto simp: prepare_tci_def findContiguousWsm_def findWsmL2_def lockWsmL2_def km_call_def write_tci_def write_mcp_def split: option.splits if_splits)

lemma add_session_new:
  assumes "add_session c gp l h len dv = (rsp, dv1)"
  obtains ts where "trustletSessions dv1 = trustletSessions dv @ [ts]" "rsp = (sessionId ts, of_nat (ts_addr ts), sessionMagic ts)"
    "ts_addr ts = dv_next dv" "deviceConnection ts = Some c" "notificationConnection ts = None" "dv_written dv1 = dv_written dv"
    "dv_next dv1 = Suc (dv_next dv)"
proof -
  define ts where "ts = (new_session (dv_next dv) c (rsp_word dv) (dv_rand dv (dv_next dv)))\<lparr>gp_level := gp, sessionState := TS_TA_RUNNING\<rparr>"
  define ts1 where "ts1 = (if tci_given h len then snd (addBulkBuff (Some \<lparr>wsm_len = l, wsm_handle = h, wsm_physAddr = 0\<rparr>) ts) else ts)"
  define ts2 where "ts2 = fold queueNotification (unknown_notifications dv) ts1"
  have d: "dv1 = dv\<lparr>dv_next := Suc (dv_next dv), trustletSessions := trustletSessions dv @ [ts2], unknown_notifications := []\<rparr>"
    "rsp = (sessionId ts, of_nat (dv_next dv), sessionMagic ts)"
    using assms unfolding add_session_def Let_def ts_def [symmetric] ts1_def [symmetric] ts2_def [symmetric] by simp_all
  have b: "bare ts2 = bare ts1" unfolding ts2_def by (rule fold_queue_bare)
  have t1: "ts_addr ts1 = dv_next dv" "notificationConnection ts1 = None" "deviceConnection ts1 = Some c"
    "sessionId ts1 = sessionId ts" "sessionMagic ts1 = sessionMagic ts"
    by (simp_all add: ts1_def ts_def new_session_def addBulkBuff_def)
  have t2: "ts_addr ts2 = dv_next dv" "notificationConnection ts2 = None" "deviceConnection ts2 = Some c"
    "sessionId ts2 = sessionId ts" "sessionMagic ts2 = sessionMagic ts"
    using t1 arg_cong [OF b, of sessionId] arg_cong [OF b, of sessionMagic] arg_cong [OF b, of ts_addr] arg_cong [OF b, of notificationConnection] arg_cong [OF b, of deviceConnection] by simp_all
  show thesis by (rule that [of ts2]) (use d t2 in simp_all)
qed

text \<open>What opening a session sends to the client and leaves behind.\<close>

definition opened_for :: "connection \<Rightarrow> u32 \<times> u32 \<times> u32 \<Rightarrow> device \<Rightarrow> bool" where
  "opened_for c rsp dv \<longleftrightarrow> (\<exists>ts\<in>set (trustletSessions dv). sessionId ts = fst rsp \<and> of_nat (ts_addr ts) = fst (snd rsp) \<and>
     sessionMagic ts = snd (snd rsp) \<and> deviceConnection ts = Some c \<and> notificationConnection ts = None)"

lemma opened_kept: "kept dv dv1 \<Longrightarrow> opened_for c rsp dv \<Longrightarrow> opened_for c rsp dv1"
proof -
  assume k: "kept dv dv1" and o: "opened_for c rsp dv"
  let ?P = "\<lambda>t. sessionId t = fst rsp \<and> of_nat (ts_addr t) = fst (snd rsp) \<and> sessionMagic t = snd (snd rsp) \<and>
    deviceConnection t = Some c \<and> notificationConnection t = None"
  have "map ?P (trustletSessions dv1) = map ?P (trustletSessions dv)"
    by (rule same_map) (use k in \<open>simp_all add: kept_def\<close>)
  then have "(\<exists>b\<in>set (map ?P (trustletSessions dv1)). b) = (\<exists>b\<in>set (map ?P (trustletSessions dv)). b)" by simp
  then show ?thesis using o by (simp add: opened_for_def)
qed

lemma openSession_result:
  assumes o: "openSession c ld h len ofs dv = Some ((e, rsp), dv1)"
  shows "silent c dv dv1 \<and> (case rsp of None \<Rightarrow> e \<noteq> 0 | Some r \<Rightarrow> e = 0 \<and> opened_for c r dv1 \<and> dv_next dv1 = Suc (dv_next dv))"
proof -
  obtain p d where p: "prepare_tci c h len ofs dv = (p, d)" by fastforce
  note s = silent_prepare [OF p, of c]
  show ?thesis
  proof (cases "\<exists>m. p = Inr m \<and> \<not> (h \<noteq> 0 \<and> len = 0 \<or> len > m)")
    case False
    then show ?thesis using o s by (auto simp: openSession_def p split: sum.splits if_splits)
  next
    case True
    then obtain m where m: "p = Inr m" "\<not> (h \<noteq> 0 \<and> len = 0 \<or> len > m)" by blast
    obtain uuid header where u: "mclf_uuid (tlHeader ld) = Some uuid" "buf_read 0 sizeof_mclfHeader (tlHeader ld) = Some header"
      using o m by (auto simp: openSession_def p bind_eq_Some_conv)
    obtain x d2 where x: "mcp_exchange MC_MCP_CMD_OPEN_SESSION
            [(4, uuid), (44, enc32 len), (52, enc32 WSM_L2), (32, enc64 (ld_baseAddr ld)), (56, enc32 (ld_offs ld)),
             (60, enc32 (ld_len ld)), (64, header)] (d\<lparr>unknown_notifications := []\<rparr>) = (x, d2)" by fastforce
    have k: "silent c dv d2" using s silent_trans [OF silent_trans [OF _ silent_km(2)] silent_quiet [OF quiet_exchange [OF x]]] by blast
    note t = o [unfolded openSession_def p prod.case m(1) sum.case if_not_P [OF m(2)] u Option.bind_lunit x]
    show ?thesis
    proof (cases "x = Inr MC_MCP_RET_OK")
      case True
      obtain gp r d3 where a: "add_session c gp (ld_len ld) h len d2 = (r, d3)" "dv1 = d3" "rsp = Some r" "e = MC_DRV_OK"
        using t True by (cases "mclf_gp_level (tlHeader ld)") (auto split: prod.splits)
      obtain ts where ts: "trustletSessions d3 = trustletSessions d2 @ [ts]" "r = (sessionId ts, of_nat (ts_addr ts), sessionMagic ts)"
        "deviceConnection ts = Some c" "notificationConnection ts = None" "dv_written d3 = dv_written d2" "dv_next d3 = Suc (dv_next d2)"
        using add_session_new [OF a(1)] by metis
      have "session_conns d3 = session_conns d2" using ts(1,4) by (simp add: session_conns_def map_filter_def)
      then have "silent c d2 d3" using ts(5) by (rule silent_same)
      moreover have "dv_next d2 = dv_next dv"
        using kept_exchange [OF x] p by (auto simp: kept_def dest: prepare_next)
      ultimately show ?thesis using a ts silent_trans [OF k] by (auto simp: opened_for_def)
    next
      case False
      have "\<exists>d4. dv1 = unlock_tci h len d2 \<and> rsp = None \<and> e \<noteq> 0"
        using t False x exchange_error [of MC_MCP_CMD_OPEN_SESSION _ _ d2] by (auto split: sum.splits if_splits)
      then show ?thesis using silent_trans [OF k silent_write_tci(2)] by auto
    qed
  qed
qed

subsection \<open>What commands answer\<close>

text \<open>An error, or a session that is open for the client with what it is told about it.\<close>

definition open_reply :: "connection \<Rightarrow> daemon \<Rightarrow> daemon \<Rightarrow> bool" where
  "open_reply c dm dm1 \<longleftrightarrow> (\<exists>e. e \<noteq> 0 \<and> sent_to c (dm_device dm1) = sent_to c (dm_device dm) @ enc32 e) \<or>
     (\<exists>sid did magic. sent_to c (dm_device dm1) = sent_to c (dm_device dm) @ enc32 0 @ enc32 sid @ enc32 did @ enc32 magic \<and>
        opened_for c (sid, did, magic) (dm_device dm1) \<and> dv_next (dm_device dm1) = Suc (dv_next (dm_device dm)))"

lemma sent_result [simp]: "sent_to c (dm_device (writeResult d e dm)) = (if d = c then sent_to c (dm_device dm) @ enc32 e else sent_to c (dm_device dm))"
  by simp

lemma enc32_eq [simp]: "enc32 a = enc32 b \<longleftrightarrow> a = b"
  by (metis dec32_enc32)

lemma sessions_write [simp]: "trustletSessions (write_data c m dv) = trustletSessions dv" "dv_next (write_data c m dv) = dv_next dv"
  by (simp_all add: write_data_def)

lemma open_blob_reply:
  assumes new: "c \<notin> set (session_conns (dm_device dm))" and o: "open_blob c obj h len tci dm = Some dm1"
  shows "open_reply c dm dm1"
proof (cases "\<exists>ob. obj = Some ob \<and> blobValue ob \<noteq> []")
  case False
  then show ?thesis using o by (auto simp: open_blob_def open_reply_def split: option.splits if_splits)
next
  case True
  then obtain ob where ob: "obj = Some ob" "blobValue ob \<noteq> []" by blast
  obtain r1 d1 where 1: "registerWsmL2 (dm_device dm) = (r1, d1)" by fastforce
  note e = o [unfolded open_blob_def ob(1) option.case if_not_P [OF ob(2)] 1 prod.case]
  have k1: "silent c (dm_device dm) d1" "dv_next d1 = dv_next (dm_device dm)"
    using 1 by (auto simp: registerWsmL2_def km_call_def silent_def sent_to_def session_conns_def)
  have s1: "sent_to c d1 = sent_to c (dm_device dm)" using k1(1) new by (simp add: silent_def)
  show ?thesis
  proof (cases r1)
    case None
    then show ?thesis using e s1 by (auto simp: open_reply_def)
  next
    case (Some phys)
    obtain ret rsp d2 where s: "openSession c (load_data phys ob dm) h len tci d1 = Some ((ret, rsp), d2)"
      using e Some by (auto simp: bind_eq_Some_conv)
    note r = openSession_result [OF s]
    obtain b d3 where u: "unregisterWsmL2 d2 = (b, d3)" by fastforce
    have k3: "kept d2 d3" "sent_to c d3 = sent_to c (dm_device dm)" "dv_next d3 = dv_next d2"
      using u kept_km(2) [OF u] silent_trans [OF k1(1), of d2] r new by (auto simp: unregisterWsmL2_def km_call_def sent_to_def silent_def)
    have m: "dm1 = (if \<not> b then writeResult c MC_DRV_ERR_DAEMON_SOCKET (dm\<lparr>dm_device := d3\<rparr>) else answer_open c (ret, rsp) (dm\<lparr>dm_device := d3\<rparr>))"
      using e Some s u by (simp add: Let_def)
    show ?thesis
    proof (cases "\<not> b \<or> rsp = None")
      case True
      then show ?thesis using m k3(2) r by (auto simp: open_reply_def answer_open_def)
    next
      case False
      then obtain sid did magic where rsp: "rsp = Some (sid, did, magic)" "b" by (cases rsp) auto
      then have "ret = 0" "opened_for c (sid, did, magic) d3" "dv_next d3 = Suc (dv_next (dm_device dm))"
        using r opened_kept [OF k3(1)] k1(2) k3(3) by simp_all
      moreover have "opened_for c (sid, did, magic) (write_data c w d3)" for w
        by (rule opened_kept [OF kept_calls(4)]) (rule calculation)
      ultimately show ?thesis using m rsp k3(2) by (auto simp: open_reply_def answer_open_def)
    qed
  qed
qed

lemma open_session_reply:
  assumes new: "c \<notin> set (session_conns (dm_device dm))" and o: "processOpenSession heap gp rq c dm = Some dm1"
  shows "open_reply c dm dm1"
proof (cases "recv_payload 32 rq")
  case None
  then show ?thesis using o by (auto simp: processOpenSession_def with_payload_def open_reply_def)
next
  case (Some d)
  show ?thesis
  proof (cases "device_set c dm")
    case False
    then show ?thesis using o Some by (auto simp: processOpenSession_def with_payload_def with_device_def open_reply_def)
  next
    case True
    then obtain obj fs1 where b: "open_blob c obj (peek32 24 d) (peek32 28 d) (peek32 20 d) (dm\<lparr>dm_world := (dm_world dm)\<lparr>w_fs := fs1\<rparr>\<rparr>) = Some dm1"
      using o Some by (auto simp: processOpenSession_def with_payload_def with_device_def bind_eq_Some_conv)
    show ?thesis using open_blob_reply [OF _ b] new by (simp add: open_reply_def)
  qed
qed

text \<open>Connecting for notifications.\<close>

text \<open>Interrupts only add to what was written, and leave each session where it is.\<close>

lemma handle_write: "\<exists>l. dv_written (handle_notification n dv) = dv_written dv @ l"
  by (auto simp: handle_notification_def signalMcpNotification_def queueUnknownNotification_def update_session_def write_data_def Let_def split: option.split)

lemma irq_loop_write: "\<exists>l. dv_written (irq_loop dv) = dv_written dv @ l"
proof (induction dv rule: irq_loop.induct)
  case (1 dv)
  obtain r q where g: "getNotification (nq dv) = (r, q)" by fastforce
  show ?case
  proof (cases r)
    case None
    then show ?thesis using g by (subst irq_loop.simps) simp
  next
    case (Some n)
    obtain l1 where "dv_written (handle_notification n (dv\<lparr>nq := q\<rparr>)) = dv_written dv @ l1" using handle_write [of n "dv\<lparr>nq := q\<rparr>"] by auto
    then show ?thesis using 1 [OF g [symmetric] Some] g Some by (subst irq_loop.simps) auto
  qed
qed

lemma irqs_write: "\<exists>l. dv_written (fold handle_irq irqs dv) = dv_written dv @ l"
proof (induction irqs arbitrary: dv)
  case (Cons irq irqs)
  obtain l1 where "dv_written (handle_irq irq dv) = dv_written dv @ l1"
    using irq_loop_write [of "dv\<lparr>nq := (nq dv)\<lparr>nq_in := irq (nq_in (nq dv))\<rparr>\<rparr>"] by (auto simp: handle_irq_def)
  then show ?case using Cons.IH [of "handle_irq irq dv"] by auto
qed simp

lemma kept_at: "kept dv dv1 \<Longrightarrow> session_at a dv = Some t \<Longrightarrow> \<exists>t1. session_at a dv1 = Some t1 \<and> bare t1 = bare t"
proof -
  have "map bare xs1 = map bare xs \<Longrightarrow> find (\<lambda>ts. ts_addr ts = a) xs = Some t \<Longrightarrow> \<exists>t1. find (\<lambda>ts. ts_addr ts = a) xs1 = Some t1 \<and> bare t1 = bare t" for xs xs1
  proof (induction xs arbitrary: xs1)
    case (Cons x xs)
    then obtain x1 ys where x: "xs1 = x1 # ys" "bare x1 = bare x" "map bare ys = map bare xs" by (cases xs1) auto
    have "ts_addr x1 = ts_addr x" using bare_simps(1) [of x1] bare_simps(1) [of x] x(2) by simp
    then show ?case using Cons x by (auto split: if_splits)
  qed simp
  then show "kept dv dv1 \<Longrightarrow> session_at a dv = Some t \<Longrightarrow> ?thesis" by (simp add: kept_def session_at_def)
qed

lemma nq_connect_works:
  assumes ok: "daemon_ok dm" and rq: "rq_payload rq = Some (enc32 0 @ enc32 sid @ enc32 did @ enc32 magic)"
    and ts: "ts \<in> set (trustletSessions (dm_device dm))" "of_nat (ts_addr ts) = did" "sessionMagic ts = magic" "sessionId ts = sid"
    and a: "\<forall>t\<in>set (trustletSessions (dm_device dm)). ts_addr t < 2 ^ 32"
    and p: "processNqConnect rq d dm = Some dm1" and n: "\<not> device_set d dm"
  shows "\<exists>rest. sent_to d (dm_device dm1) = sent_to d (dm_device dm) @ enc32 0 @ rest \<and>
       (\<exists>ts1\<in>set (trustletSessions (dm_device dm1)). sessionId ts1 = sid \<and> deviceConnection ts1 = deviceConnection ts \<and> notificationConnection ts1 = Some d)"
proof -
  let ?dv = "dm_device dm" let ?a = "ts_addr ts"
  have r: "recv_payload 16 rq = Some (enc32 0 @ enc32 sid @ enc32 did @ enc32 magic)" using rq by (simp add: recv_payload_def)
  have w: "peek32 0 (enc32 0 @ enc32 sid @ enc32 did @ enc32 magic) = 0" "peek32 4 (enc32 0 @ enc32 sid @ enc32 did @ enc32 magic) = sid"
    "peek32 8 (enc32 0 @ enc32 sid @ enc32 did @ enc32 magic) = did" "peek32 12 (enc32 0 @ enc32 sid @ enc32 did @ enc32 magic) = magic"
    by (simp_all add: peek32_def)
  let ?f = "\<lambda>t. t\<lparr>notificationConnection := Some d\<rparr>"
  let ?d1 = "update_session ?a ?f ?dv"
  have dok: "device_ok {#} ?dv" using ok by (simp add: daemon_ok_def)
  have g: "registerTrustletConnection d sid did magic ?dv = (Some ?a, ?d1)" by (rule register_found [OF dok ts a])
  let ?d2 = "write_data d (enc32 MC_DRV_OK) ?d1"
  let ?d3 = "fold handle_irq (rq_irqs rq) ?d2"
  have dm1: "dm_device dm1 = process_queued ?a ?d3" using p n r w g
    by (auto simp: processNqConnect_def with_payload_def detachConnection_def Let_def)
  have di: "distinct (map ts_addr (trustletSessions ?dv))" using dok by (simp add: device_ok_def)
  obtain xs ys where s: "trustletSessions ?dv = xs @ ts # ys" "\<forall>t\<in>set (xs @ ys). ts_addr t \<noteq> ?a"
    using session_split [OF di session_atI [OF di ts(1)]] by blast
  have u: "trustletSessions ?d1 = xs @ ?f ts # ys" by (rule update_split [OF s(1) refl s(2)])
  have "distinct (map ts_addr (trustletSessions ?d2))" using di by (simp add: u s(1))
  then have a2: "session_at ?a ?d2 = Some (?f ts)" using session_atI [of ?d2 "?f ts"] u by simp
  obtain t3 where t3: "session_at ?a ?d3 = Some t3" "bare t3 = bare (?f ts)" using kept_at [OF kept_irqs a2] by blast
  have t3s: "sessionId t3 = sid" "deviceConnection t3 = deviceConnection ts" "notificationConnection t3 = Some d"
    using bare_simps(3,5,6) [of t3] bare_simps(3,5,6) [of "?f ts"] ts(4) unfolding t3(2) by simp_all
  note q = process_queued_at [OF t3(1) t3s(3)]
  have "t3 \<in> set (trustletSessions ?d3)" "ts_addr t3 = ?a" using t3(1) by (auto simp: session_at_def find_Some_iff)
  then have "t3\<lparr>ts_notifications := []\<rparr> \<in> set (trustletSessions (dm_device dm1))"
    unfolding dm1 q(1) by (auto simp: image_iff intro!: bexI [of _ t3])
  moreover
  obtain l where l: "dv_written ?d3 = dv_written ?d2 @ l" using irqs_write by blast
  have d2: "dv_written ?d2 = dv_written ?dv @ [(d, enc32 0)]" by (simp add: write_data_def update_session_def)
  have "sent_to d (dm_device dm1) = sent_to d ?dv @ enc32 0 @
      concat (map snd (filter (\<lambda>m. fst m = d) (l @ map (\<lambda>n. (d, enc_notification n)) (ts_notifications t3))))"
    unfolding dm1 sent_to_def q(2) l d2 by simp
  moreover have "sessionId (t3\<lparr>ts_notifications := []\<rparr>) = sid \<and> deviceConnection (t3\<lparr>ts_notifications := []\<rparr>) = deviceConnection ts \<and>
      notificationConnection (t3\<lparr>ts_notifications := []\<rparr>) = Some d" using t3s by simp
  ultimately show ?thesis by blast
qed

subsection \<open>The link\<close>

text \<open>The daemon with what the client has read of each connection, the message that precedes a trustlet, whether the daemon has ended
  or hangs, whether a signal ends a wait for nothing, which connections are refused, and the interrupts that come in a gap of a command.\<close>

record link =
  lk_daemon :: daemon
  lk_heap :: "nat \<Rightarrow> u8"
  lk_read :: "connection \<Rightarrow> nat"
  lk_half :: "(connection \<times> bytes) option"
  lk_down :: bool
  lk_late :: bool
  lk_refused :: "nat \<Rightarrow> bool"
  lk_irqs :: "nat \<Rightarrow> (notificationQueue \<Rightarrow> notificationQueue) list"
  lk_tries :: nat

definition unread_of :: "connection \<Rightarrow> link \<Rightarrow> bytes" where
  "unread_of c lk = drop (lk_read lk c) (sent_to c (dm_device (lk_daemon lk)))"

definition link_drop :: "connection \<Rightarrow> link \<Rightarrow> link" where
  "link_drop c lk = (if c \<notin> set (dm_clients (lk_daemon lk)) then lk
     else case dropConnection c (lk_daemon lk) of None \<Rightarrow> lk\<lparr>lk_down := True\<rparr>
     | Some dm \<Rightarrow> lk\<lparr>lk_daemon := (detachConnection c dm)\<lparr>dm_device := delete_connection (Some c) (dm_device dm)\<rparr>\<rparr>)"

text \<open>The daemon reads a command and what follows it, and drops a client whose command it does not take.\<close>

definition link_run :: "connection \<Rightarrow> bytes \<Rightarrow> (nat \<Rightarrow> bytes option) \<Rightarrow> link \<Rightarrow> link" where
  "link_run c msg reads lk = (case readCommand (Some (take 4 msg)) (lk_daemon lk) of None \<Rightarrow> link_drop c lk
     | Some cmd \<Rightarrow> (case handleCommand (lk_heap lk) c cmd \<lparr>rq_payload = Some (drop 4 msg), rq_reads = reads, rq_irqs = lk_irqs lk (lk_tries lk)\<rparr> (drop 4 msg) (lk_daemon lk) of
         None \<Rightarrow> lk\<lparr>lk_down := True\<rparr> | Some dm \<Rightarrow> lk\<lparr>lk_daemon := dm\<rparr>))"

definition link_connect :: "link \<Rightarrow> connection option \<times> link" where
  "link_connect lk = (let lk1 = lk\<lparr>lk_tries := Suc (lk_tries lk)\<rparr>; dm = lk_daemon lk; c = dm_connections dm in
     if lk_down lk \<or> lk_refused lk (lk_tries lk) then (None, lk1)
     else (Some c, lk1\<lparr>lk_daemon := dm\<lparr>dm_clients := dm_clients dm @ [c], dm_connections := Suc c\<rparr>,
             lk_read := (lk_read lk)(c := length (sent_to c (dm_device dm)))\<rparr>))"

definition link_write :: "connection \<Rightarrow> bytes \<Rightarrow> link \<Rightarrow> bool \<times> link" where
  "link_write c msg lk = (if lk_down lk \<or> c \<notin> set (dm_clients (lk_daemon lk)) then (False, lk)
     else case lk_half lk of
       Some (d, head) \<Rightarrow> if d = c then (True, link_run c head (\<lambda>n. if n = 0 then Some msg else None) (lk\<lparr>lk_half := None\<rparr>)) else (True, link_run c msg (\<lambda>_. None) lk)
     | None \<Rightarrow> if take 4 msg = enc32 MC_DRV_CMD_OPEN_TRUSTLET then (True, lk\<lparr>lk_half := Some (c, msg)\<rparr>) else (True, link_run c msg (\<lambda>_. None) lk))"

definition link_read :: "connection \<Rightarrow> nat \<Rightarrow> int \<Rightarrow> link \<Rightarrow> receive_result \<times> link" where
  "link_read c n t lk = (let u = unread_of c lk in
     if u \<noteq> [] then (Received (take n u), lk\<lparr>lk_read := (lk_read lk)(c := lk_read lk c + min n (length u))\<rparr>)
     else (if lk_down lk \<or> c \<in> set (dv_deleted (dm_device (lk_daemon lk))) then Received [] else if t \<ge> 0 then Timed_out else Read_failed (lk_late lk), lk))"

definition link_socket :: "link socket" where
  "link_socket = \<lparr>so_connect = link_connect, so_write = link_write, so_read = link_read,
     so_alive = \<lambda>c lk. (\<not> lk_down lk \<and> c \<notin> set (dv_deleted (dm_device (lk_daemon lk))), lk), so_close = link_drop\<rparr>"

lemma link_ops [simp]: "so_connect link_socket = link_connect" "so_write link_socket = link_write" "so_read link_socket = link_read" "so_close link_socket = link_drop"
  by (simp_all add: link_socket_def)

text \<open>Reading what is there.\<close>

lemma link_recv:
  assumes "0 < n" "n \<le> length (unread_of c (cl_net cl))"
  obtains cl1 where "recv_from_daemon link_socket c n cl = (Inr (take n (unread_of c (cl_net cl))), cl1)" "same_client cl cl1"
    "lk_daemon (cl_net cl1) = lk_daemon (cl_net cl)" "unread_of c (cl_net cl1) = drop n (unread_of c (cl_net cl))"
    "lk_down (cl_net cl1) = lk_down (cl_net cl)" "lk_half (cl_net cl1) = lk_half (cl_net cl)" "lk_refused (cl_net cl1) = lk_refused (cl_net cl)"
proof -
  let ?lk = "cl_net cl" let ?u = "unread_of c ?lk"
  let ?lk1 = "?lk\<lparr>lk_read := (lk_read ?lk)(c := lk_read ?lk c + n)\<rparr>"
  have r: "link_read c n (-1) ?lk = (Received (take n ?u), ?lk1)" using assms by (auto simp: link_read_def Let_def min_def)
  have "recv_from_daemon link_socket c n cl = (Inr (take n ?u), cl\<lparr>cl_net := ?lk1\<rparr>)"
    using assms r by (auto simp: recv_from_daemon_def with_net_def)
  then show thesis by (rule that) (simp_all add: same_client_def unread_of_def add.commute)
qed

lemma link_result:
  assumes "unread_of c (cl_net cl) = enc32 e @ rest"
  obtains cl1 where "recv_result link_socket c cl = (e, cl1)" "same_client cl cl1"
    "lk_daemon (cl_net cl1) = lk_daemon (cl_net cl)" "unread_of c (cl_net cl1) = rest"
    "lk_down (cl_net cl1) = lk_down (cl_net cl)" "lk_half (cl_net cl1) = lk_half (cl_net cl)" "lk_refused (cl_net cl1) = lk_refused (cl_net cl)"
proof -
  obtain cl1 where r: "recv_from_daemon link_socket c 4 cl = (Inr (take 4 (unread_of c (cl_net cl))), cl1)" "same_client cl cl1"
    "lk_daemon (cl_net cl1) = lk_daemon (cl_net cl)" "unread_of c (cl_net cl1) = drop 4 (unread_of c (cl_net cl))"
    "lk_down (cl_net cl1) = lk_down (cl_net cl)" "lk_half (cl_net cl1) = lk_half (cl_net cl)" "lk_refused (cl_net cl1) = lk_refused (cl_net cl)"
    using link_recv [of 4 c cl] assms by auto
  show thesis by (rule that [of cl1]) (use r assms in \<open>simp_all add: recv_result_def\<close>)
qed

lemma link_no_answer: "unread_of c (cl_net cl) = [] \<Longrightarrow> \<exists>e cl1. recv_result link_socket c cl = (e, cl1) \<and> e \<noteq> 0 \<and> same_client cl cl1 \<and> cl_net cl1 = cl_net cl"
  by (auto simp: recv_result_def recv_from_daemon_def with_net_def link_read_def Let_def same_client_def)

subsection \<open>Opening a session through the link\<close>

lemma accept_ok:
  assumes "daemon_ok dm"
  shows "daemon_ok (dm\<lparr>dm_clients := dm_clients dm @ [dm_connections dm], dm_connections := Suc (dm_connections dm)\<rparr>)"
  by (rule steps_ok [OF r_into_rtranclp assms]) (rule daemon_step.accept)

text \<open>A connection that never had the device open can be dropped without the sessions changing.\<close>

lemma link_drop_same:
  assumes "\<not> device_set d (lk_daemon lk)"
  shows "trustletSessions (dm_device (lk_daemon (link_drop d lk))) = trustletSessions (dm_device (lk_daemon lk))"
  using assms by (simp add: link_drop_def dropConnection_def delete_connection_def detachConnection_def)

lemma nq_some: "\<exists>dm1. processNqConnect rq d dm = Some dm1"
  by (simp add: processNqConnect_def with_payload_def Let_def split: option.split prod.split)

lemma link_nq:
  assumes ok: "daemon_ok (lk_daemon (cl_net cl))" and half: "lk_half (cl_net cl) = None"
    and ts: "ts \<in> set (trustletSessions (dm_device (lk_daemon (cl_net cl))))" "of_nat (ts_addr ts) = did" "sessionMagic ts = magic" "sessionId ts = sid"
    and a: "\<forall>t\<in>set (trustletSessions (dm_device (lk_daemon (cl_net cl)))). ts_addr t < 2 ^ 32"
    and old: "dm_connections (lk_daemon (cl_net cl)) \<notin> set (dv_linked (dm_device (lk_daemon (cl_net cl))))"
    and x: "connect_notifications link_socket sid did magic cl = (x, cl1)"
  shows "(\<exists>ts1\<in>set (trustletSessions (dm_device (lk_daemon (cl_net cl1)))). sessionId ts1 = sid \<and> deviceConnection ts1 = deviceConnection ts \<and>
      (\<forall>d. x = Inr d \<longrightarrow> notificationConnection ts1 = Some d))"
proof -
  let ?lk = "cl_net cl" let ?dm = "lk_daemon ?lk" let ?d = "dm_connections ?dm"
  have self: "\<exists>ts1\<in>set (trustletSessions dv). sessionId ts1 = sid \<and> deviceConnection ts1 = deviceConnection ts"
    if "trustletSessions dv = trustletSessions (dm_device ?dm)" for dv using that ts by auto
  show ?thesis
  proof (cases "lk_down ?lk \<or> lk_refused ?lk (lk_tries ?lk)")
    case True
    then have "link_connect ?lk = (None, ?lk\<lparr>lk_tries := Suc (lk_tries ?lk)\<rparr>)" by (auto simp: link_connect_def Let_def)
    then have "x = Inl MC_DRV_ERR_SOCKET_CONNECT" "cl_net cl1 = ?lk\<lparr>lk_tries := Suc (lk_tries ?lk)\<rparr>"
      using x by (auto simp: connect_notifications_def with_net_def)
    then show ?thesis using self [OF refl] by simp
  next
    case False
    let ?dm2 = "?dm\<lparr>dm_clients := dm_clients ?dm @ [?d], dm_connections := Suc ?d\<rparr>"
    let ?lk2 = "?lk\<lparr>lk_tries := Suc (lk_tries ?lk), lk_daemon := ?dm2, lk_read := (lk_read ?lk)(?d := length (sent_to ?d (dm_device ?dm)))\<rparr>"
    let ?cl2 = "cl\<lparr>cl_net := ?lk2\<rparr>"
    let ?msg = "enc32 MC_DRV_CMD_NQ_CONNECT @ enc32 0 @ enc32 sid @ enc32 did @ enc32 magic"
    have c: "link_connect ?lk = (Some ?d, ?lk2)" using False by (simp add: link_connect_def Let_def)
    have nl: "\<not> device_set ?d ?dm2" using old by (simp add: device_set_def)
    let ?lk3 = "link_run ?d ?msg (\<lambda>_. None) ?lk2"
    have w: "link_write ?d ?msg ?lk2 = (True, ?lk3)" using False half by (simp add: link_write_def)
    obtain q cl4 where q: "recv_result link_socket ?d (?cl2\<lparr>cl_net := ?lk3\<rparr>) = (q, cl4)" by fastforce
    have e: "(x, cl1) = (if q \<noteq> 0 then (Inl q, close_socket link_socket ?d cl4) else (Inr ?d, cl4))"
      using x c w q by (auto simp: connect_notifications_def with_net_def call_daemon_def split: if_splits)
    have gone: "unread_of ?d ?lk2 = []" by (simp add: unread_of_def)
    show ?thesis
    proof (cases "readCommand (Some (take 4 ?msg)) ?dm2")
      case None
      then have l3: "?lk3 = link_drop ?d ?lk2" by (simp add: link_run_def)
      have s3: "trustletSessions (dm_device (lk_daemon ?lk3)) = trustletSessions (dm_device ?dm)"
        using link_drop_same [of ?d ?lk2] nl l3 by simp
      have d3: "dm_device (lk_daemon ?lk3) = delete_connection (Some ?d) (dm_device ?dm) \<and> lk_read ?lk3 = lk_read ?lk2 \<and> ?d \<notin> set (dm_clients (lk_daemon ?lk3))"
        using nl accept_ok [OF ok] l3 by (simp add: link_drop_def dropConnection_def detachConnection_def daemon_ok_def)
      then have "unread_of ?d ?lk3 = []" by (simp add: unread_of_def delete_connection_def sent_to_def)
      then have q0: "q \<noteq> 0" "cl_net cl4 = ?lk3" using link_no_answer [of ?d "?cl2\<lparr>cl_net := ?lk3\<rparr>"] q by auto
      then have "cl_net cl1 = ?lk3" "x = Inl q" using e d3 by (auto simp: close_socket_def link_drop_def)
      then show ?thesis using self [OF s3] by simp
    next
      case (Some cmd)
      then have cmd: "cmd = 4" by (auto simp: readCommand_def peek32_def split: if_splits)
      let ?rq = "\<lparr>rq_payload = Some (enc32 0 @ enc32 sid @ enc32 did @ enc32 magic), rq_reads = \<lambda>_. None, rq_irqs = lk_irqs ?lk (Suc (lk_tries ?lk))\<rparr>"
      obtain dm3 where p: "processNqConnect ?rq ?d ?dm2 = Some dm3" using nq_some by blast
      have l3: "?lk3 = ?lk2\<lparr>lk_daemon := dm3\<rparr>" using Some cmd p by (simp add: link_run_def handleCommand_def)
      have u3: "unread_of ?d ?lk3 = drop (length (sent_to ?d (dm_device ?dm))) (sent_to ?d (dm_device dm3))" by (simp add: unread_of_def l3)
      obtain rest ts1 where good: "sent_to ?d (dm_device dm3) = sent_to ?d (dm_device ?dm2) @ enc32 0 @ rest"
          "ts1 \<in> set (trustletSessions (dm_device dm3))" "sessionId ts1 = sid" "deviceConnection ts1 = deviceConnection ts" "notificationConnection ts1 = Some ?d"
        using nq_connect_works [OF accept_ok [OF ok] _ _ ts(2-4) _ p nl] ts(1) a by auto
      obtain cl5 where "recv_result link_socket ?d (?cl2\<lparr>cl_net := ?lk3\<rparr>) = (0, cl5)" "lk_daemon (cl_net cl5) = dm3"
        using link_result [of ?d "?cl2\<lparr>cl_net := ?lk3\<rparr>" 0 rest] u3 good(1) l3 by auto
      then have "x = Inr ?d" "lk_daemon (cl_net cl1) = dm3" using q e by auto
      then show ?thesis using good by auto
    qed
  qed
qed

text \<open>The client is in step with the daemon: its connection is accepted, everything that came over it is read, no trustlet is half sent, and
  the secure world has not faulted.\<close>

definition in_step :: "connection \<Rightarrow> link \<Rightarrow> bool" where
  "in_step c lk \<longleftrightarrow> daemon_ok (lk_daemon lk) \<and> c \<in> set (dm_clients (lk_daemon lk)) \<and> unread_of c lk = [] \<and> lk_half lk = None \<and> \<not> lk_down lk \<and>
     \<not> mcFault (dm_device (lk_daemon lk)) \<and> lk_read lk c \<le> length (sent_to c (dm_device (lk_daemon lk))) \<and>
     (\<forall>x\<in>set (dv_linked (dm_device (lk_daemon lk))). x < dm_connections (lk_daemon lk)) \<and> dv_next (dm_device (lk_daemon lk)) < 2 ^ 32"

lemma session_tci_net: "session_tci dv tci len cl = (r, cl1) \<Longrightarrow> cl_net cl1 = cl_net cl"
  by (auto simp: session_tci_def map_tci_def split: option.splits if_splits prod.splits sum.splits)

lemma open_linked:
  assumes ok: "daemon_ok dm" and o: "processOpenSession heap gp rq c dm = Some dm1"
  shows "dv_linked (dm_device dm1) = dv_linked (dm_device dm) \<and> dm_connections dm1 = dm_connections dm \<and> dm_clients dm1 = dm_clients dm"
  using answered_open [OF _ o] ok by (auto simp: answered_def daemon_ok_def serves_def kept_def same_books_def)

text \<open>From the answer on, once the daemon has run the command.\<close>

lemma open_answer_link:
  assumes ok: "daemon_ok dm" and c: "c \<in> set (dm_clients dm)" and nx: "dv_next (dm_device dm) < 2 ^ 32"
    and l: "\<forall>x\<in>set (dv_linked (dm_device dm)). x < dm_connections dm"
    and o: "processOpenSession heap gp rq c dm = Some dm1"
    and lk: "lk_daemon (cl_net cl) = dm1" "lk_half (cl_net cl) = None" "lk_read (cl_net cl) c = length (sent_to c (dm_device dm))"
    and a: "open_answer link_socket c bu cl = ((r, Some sid), cl1)"
  shows "\<exists>ts\<in>set (trustletSessions (dm_device (lk_daemon (cl_net cl1)))). sessionId ts = sid \<and> deviceConnection ts = Some c \<and>
    (r = MC_DRV_OK \<longrightarrow> (\<exists>d. notificationConnection ts = Some d \<and> cl_device cl1 = map_option (createNewSession sid d bu) (cl_device cl)))"
proof -
  have nc: "c \<notin> set (session_conns (dm_device dm))" using ok c by (auto simp: daemon_ok_def books_ok_def conns_def)
  have ok1: "daemon_ok dm1" using command_ok [OF ok c, of heap 5 rq "[]" dm1] command_ok [OF ok c, of heap 13 rq "[]" dm1] o
    by (cases gp) (simp_all add: handleCommand_def)
  note ln = open_linked [OF ok o]
  obtain q cl2 where q: "recv_result link_socket c cl = (q, cl2)" by fastforce
  have u: "unread_of c (cl_net cl) = drop (length (sent_to c (dm_device dm))) (sent_to c (dm_device dm1))" using lk by (simp add: unread_of_def)
  consider (bad) e where "e \<noteq> 0" "sent_to c (dm_device dm1) = sent_to c (dm_device dm) @ enc32 e"
    | (good) sid1 did magic where "sent_to c (dm_device dm1) = sent_to c (dm_device dm) @ enc32 0 @ enc32 sid1 @ enc32 did @ enc32 magic"
      "opened_for c (sid1, did, magic) (dm_device dm1)" "dv_next (dm_device dm1) = Suc (dv_next (dm_device dm))"
    using open_session_reply [OF nc o] unfolding open_reply_def by blast
  then show ?thesis
  proof cases
    case bad
    then obtain cl3 where "recv_result link_socket c cl = (e, cl3)" using link_result [of c cl e "[]"] u by auto
    then show ?thesis using a bad(1) by (simp add: open_answer_def)
  next
    case good
    let ?p = "enc32 sid1 @ enc32 did @ enc32 magic"
    obtain cl2 where r2: "recv_result link_socket c cl = (0, cl2)" "same_client cl cl2" "lk_daemon (cl_net cl2) = dm1" "unread_of c (cl_net cl2) = ?p"
      "lk_half (cl_net cl2) = None"
      using link_result [of c cl 0 ?p] u good(1) lk by auto
    obtain cl3 where r3: "recv_from_daemon link_socket c 12 cl2 = (Inr ?p, cl3)" "same_client cl2 cl3" "lk_daemon (cl_net cl3) = dm1" "lk_half (cl_net cl3) = None"
      using link_recv [of 12 c cl2] r2 by auto
    obtain x cl4 where x: "connect_notifications link_socket sid1 did magic cl3 = (x, cl4)" by fastforce
    have fin: "((r, Some sid), cl1) = (case x of Inl e \<Rightarrow> ((e, Some sid1), cl4) | Inr d \<Rightarrow> ((0, Some sid1), change_device (createNewSession sid1 d bu) cl4))"
      using a r2(1) r3(1) x by (simp add: open_answer_def Let_def)
    obtain ts where ts: "ts \<in> set (trustletSessions (dm_device dm1))" "sessionId ts = sid1" "of_nat (ts_addr ts) = did" "sessionMagic ts = magic"
      "deviceConnection ts = Some c" using good(2) by (auto simp: opened_for_def)
    have ad: "\<forall>t\<in>set (trustletSessions (dm_device dm1)). ts_addr t < 2 ^ 32"
    proof
      fix t assume "t \<in> set (trustletSessions (dm_device dm1))"
      then have "ts_addr t < dv_next (dm_device dm1)" using ok1 by (simp add: daemon_ok_def device_ok_def)
      then show "ts_addr t < 2 ^ 32" using good(3) nx by simp
    qed
    have old: "dm_connections dm1 \<notin> set (dv_linked (dm_device dm1))" using l ln by auto
    obtain ts1 where t1: "ts1 \<in> set (trustletSessions (dm_device (lk_daemon (cl_net cl4))))" "sessionId ts1 = sid1" "deviceConnection ts1 = Some c"
      "\<forall>d. x = Inr d \<longrightarrow> notificationConnection ts1 = Some d"
      using link_nq [of cl3 ts did magic sid1 x cl4] ok1 ts ad old x r3(3,4) by auto
    have s4: "same_client cl cl4" by (rule same_trans [OF same_trans [OF r2(2) r3(2)] same_connect [OF x]])
    have n: "e \<noteq> 0" if "x = Inl e" for e
      using x that by (auto simp: connect_notifications_def split: prod.splits option.splits if_splits)
    show ?thesis using fin t1 n s4 by (cases x) (auto simp: change_device_def same_client_def)
  qed
qed

lemma session_tci_same:
  assumes "session_tci dv tci len cl = (r, cl1)"
  shows "cl_net cl1 = cl_net cl \<and> cl_device cl1 = cl_device cl"
  using assms by (auto simp: session_tci_def map_tci_def split: option.splits if_splits prod.splits sum.splits)

lemma open_session_link:
  assumes st: "in_step (cd_connection dv) (cl_net cl)" and dv: "cl_device cl = Some dv" and u: "length uuid = 16"
    and a: "mcOpenSession_lib link_socket (Some uuid) tci len cl = ((r, Some sid), cl1)"
  shows "(\<exists>ts\<in>set (trustletSessions (dm_device (lk_daemon (cl_net cl1)))). sessionId ts = sid \<and> deviceConnection ts = Some (cd_connection dv) \<and>
    (r = MC_DRV_OK \<longrightarrow> (\<exists>d bu. notificationConnection ts = Some d \<and> cl_device cl1 = Some (createNewSession sid d bu dv)))) \<and>
    (r \<noteq> MC_DRV_OK \<longrightarrow> cl_device cl1 = Some dv)"
proof -
  let ?c = "cd_connection dv" let ?lk = "cl_net cl" let ?dm = "lk_daemon ?lk"
  obtain x cl2 where x: "session_tci dv tci len cl = (x, cl2)" by fastforce
  note s2 = session_tci_same [OF x]
  have o: "((r, Some sid), cl1) = open_request link_socket dv
      (\<lambda>handle. [enc32 MC_DRV_CMD_OPEN_SESSION @ enc32 0 @ uuid @ enc32 (ucast (tci AND 0xFFF)) @ enc32 handle @ enc32 len]) (x, cl2)"
    using a dv x by (auto simp: mcOpenSession_lib_def open_uuid_def split: if_splits)
  obtain h bu where hb: "x = Inr (h, bu)" using o by (cases x) (auto simp: open_request_def)
  let ?pl = "enc32 0 @ uuid @ enc32 (ucast (tci AND 0xFFF)) @ enc32 h @ enc32 len" let ?msg = "enc32 MC_DRV_CMD_OPEN_SESSION @ ?pl"
  let ?rq = "\<lparr>rq_payload = Some ?pl, rq_reads = \<lambda>_. None, rq_irqs = lk_irqs ?lk (lk_tries ?lk)\<rparr>"
  have rc: "readCommand (Some (enc32 5)) ?dm = Some 5" using st by (simp add: readCommand_def in_step_def peek32_def device_commands_def)
  have w: "link_write ?c ?msg ?lk = (True, case processOpenSession (lk_heap ?lk) False ?rq ?c ?dm of None \<Rightarrow> ?lk\<lparr>lk_down := True\<rparr> | Some dm \<Rightarrow> ?lk\<lparr>lk_daemon := dm\<rparr>)"
    using st rc by (simp add: link_write_def in_step_def link_run_def handleCommand_def)
  show ?thesis
  proof (cases "processOpenSession (lk_heap ?lk) False ?rq ?c ?dm")
    case None
    let ?cl3 = "cl2\<lparr>cl_net := ?lk\<lparr>lk_down := True\<rparr>\<rparr>"
    have "unread_of ?c (cl_net ?cl3) = []" using st by (simp add: in_step_def unread_of_def)
    then obtain e cl4 where "recv_result link_socket ?c ?cl3 = (e, cl4)" "e \<noteq> 0" using link_no_answer by blast
    then show ?thesis using o hb w None s2 by (simp add: open_request_def with_net_def open_answer_def)
  next
    case (Some dm1)
    let ?cl3 = "cl2\<lparr>cl_net := ?lk\<lparr>lk_daemon := dm1\<rparr>\<rparr>"
    have an: "open_answer link_socket ?c bu ?cl3 = ((r, Some sid), cl1)" using o hb w Some s2 by (simp add: open_request_def with_net_def)
    have rd: "lk_read ?lk ?c = length (sent_to ?c (dm_device ?dm))" using st by (auto simp: in_step_def unread_of_def)
    have "\<exists>ts\<in>set (trustletSessions (dm_device (lk_daemon (cl_net cl1)))). sessionId ts = sid \<and> deviceConnection ts = Some ?c \<and>
      (r = MC_DRV_OK \<longrightarrow> (\<exists>d. notificationConnection ts = Some d \<and> cl_device cl1 = map_option (createNewSession sid d bu) (cl_device ?cl3)))"
      by (rule open_answer_link [OF _ _ _ _ Some _ _ _ an]) (use st rd in \<open>simp_all add: in_step_def\<close>)
    moreover have "r \<noteq> MC_DRV_OK \<Longrightarrow> cl_device cl1 = Some dv" using open_answer_outcome [OF an] s2 dv by simp
    ultimately show ?thesis using s2 dv by auto
  qed
qed

lemma open_ok_id: "mcOpenSession_lib so uuid tci len cl = ((0, sid), cl1) \<Longrightarrow> \<exists>i. sid = Some i"
proof -
  have t: "session_tci dv tci len cl \<noteq> (Inl 0, cl1)" for dv
    by (auto simp: session_tci_def map_tci_def own_tci_def split: option.split prod.split sum.split)
  have a: "open_answer so c bu cl2 = ((0, sid), cl1) \<Longrightarrow> \<exists>i. sid = Some i" for c bu cl2
    by (drule open_answer_outcome) auto
  assume "mcOpenSession_lib so uuid tci len cl = ((0, sid), cl1)"
  then show ?thesis using t a
    by (auto simp: mcOpenSession_lib_def open_uuid_def open_request_def split: option.splits if_splits prod.splits sum.splits)
qed

subsection \<open>A run of both\<close>

text \<open>A daemon with a system trustlet in its registry and a secure world that opens every session with one id.\<close>

definition system_trustlet :: bytes where
  "system_trustlet = enc32 MC_SERVICE_HEADER_MAGIC @ replicate 12 0 @ enc32 SERVICE_TYPE_SYSTEM_TRUSTLET @ replicate 80 0"

definition opening_turn :: wait_turn where
  "opening_turn = \<lparr>wt_irqs = [], wt_spurious = True, wt_answer = \<lambda>_. enc32 0x80000001 @ enc32 0 @ enc32 0x301, wt_status = 0, wt_exiting = False\<rparr>"

definition opening_daemon :: daemon where
  "opening_daemon = \<lparr>dm_device = sample_device\<lparr>dv_linked := [0], dv_turns := \<lambda>_. opening_turn, mcpMessage := replicate 160 0\<rparr>,
     dm_world = quiet_world (empty_registry\<lparr>fs_files := [((MC_REGISTRY_DATA_PATH, byteArrayToString sample_uuid @ ''.tlbin''), system_trustlet)]\<rparr>),
     dm_clients = [0], dm_connections = 1, driverResources = [], dm_offs = \<lambda>_. 0\<rparr>"

definition opening_link :: "bool \<Rightarrow> link" where
  "opening_link refused = \<lparr>lk_daemon = opening_daemon, lk_heap = \<lambda>_. 0, lk_read = \<lambda>_. 0, lk_half = None, lk_down = False, lk_late = False,
     lk_refused = \<lambda>_. refused, lk_irqs = \<lambda>_. [], lk_tries = 0\<rparr>"

definition opening_client :: "bool \<Rightarrow> link client" where
  "opening_client refused = \<lparr>cl_device = Some (Device_init 0), cl_kmod = willing_kmod, cl_net = opening_link refused, cl_stack = \<lambda>_. 0\<rparr>"

lemma opening_blob:
  "\<exists>fs1. mcRegistryGetServiceBlob heap (Some sample_uuid) False (w_fs (dm_world opening_daemon)) = Some (Some \<lparr>tlStartOffset = 0, blobValue = system_trustlet\<rparr>, fs1)"
proof -
  let ?p = "byteArrayToString sample_uuid @ ''.tlbin''"
  have n: "MC_REGISTRY_SYSTEM_PATH \<noteq> MC_REGISTRY_DATA_PATH" by (simp add: MC_REGISTRY_SYSTEM_PATH_def MC_REGISTRY_DATA_PATH_def)
  have t: "length system_trustlet = 100" "ld32 0 system_trustlet = Some MC_SERVICE_HEADER_MAGIC" "ld32 16 system_trustlet = Some 3" "system_trustlet \<noteq> []"
    by (simp_all add: system_trustlet_def ld32_def buf_read_def enc32_def [where w = 3])
      (simp add: dec32_def)
  show ?thesis using n t
    by (simp add: opening_daemon_def mcRegistryGetServiceBlob_def getTlBinFilePath_def registry_path_def stat_file_def lookup_file_def Let_def
        mcRegistryFileGetServiceBlob_def mcRegistryMemGetServiceBlob_def fs_defs empty_registry_def MAX_TL_SIZE_def)
qed

lemma poke_grows: "length b \<le> length (poke off d b)"
  by (simp add: poke_def)

lemma pokes_grow: "length b \<le> length (fold (\<lambda>(off, d). poke off d) ws b)"
proof (induction ws arbitrary: b)
  case (Cons x ws)
  show ?case using Cons.IH [of "poke (fst x) (snd x) b"] poke_grows [of b "fst x" "snd x"] by (simp add: case_prod_unfold)
qed simp

lemma opening_exchange:
  assumes "\<not> mcFault dv" "dv_turns dv = (\<lambda>_. opening_turn)" "12 \<le> length (mcpMessage dv)"
  shows "\<exists>dv1. mcp_exchange MC_MCP_CMD_OPEN_SESSION ws dv = (Inr 0, dv1) \<and> rsp_word dv1 = 0x301 \<and> \<not> mcFault dv1"
proof -
  let ?d = "notify SID_MCP (write_mcp ((0, enc32 1) # ws) dv)"
  have d: "\<not> mcFault ?d" "dv_turns ?d = (\<lambda>_. opening_turn)" "12 \<le> length (mcpMessage ?d)"
    using assms pokes_grow [of "mcpMessage dv" "(0, enc32 1) # ws"] by (simp_all add: write_mcp_def)
  have r: "shared_write old (enc32 0x80000001 @ enc32 0 @ enc32 0x301) = enc32 0x80000001 @ enc32 0 @ enc32 0x301 @ drop 12 old" if "12 \<le> length old" for old
    using that by (simp add: shared_write_def)
  have "\<exists>dv1. wait_loop 5 ?d = (Some opening_turn, dv1) \<and> \<not> mcFault dv1 \<and>
      mcpMessage dv1 = enc32 0x80000001 @ enc32 0 @ enc32 0x301 @ drop 12 (mcpMessage ?d)"
    using d by (subst wait_loop.simps) (simp add: mcp_wait_def Let_def opening_turn_def sem_enter_def sem_leave_def r)
  then obtain dv1 where w: "wait_loop 5 ?d = (Some opening_turn, dv1)" "\<not> mcFault dv1"
    "mcpMessage dv1 = enc32 0x80000001 @ enc32 0 @ enc32 0x301 @ drop 12 (mcpMessage ?d)" by blast
  have "mcp_exchange MC_MCP_CMD_OPEN_SESSION ws dv = (Inr 0, dv1)"
    using w by (simp add: mcp_exchange_def mshNotifyAndWait_def waitMcpNotification_def rspId_def rsp_result_def peek32_def opening_turn_def)
  then show ?thesis using w by (simp add: rsp_word_def peek32_def)
qed

lemma opening_session:
  assumes p: "length pl = 32" "take 16 (drop 4 pl) = sample_uuid" "peek32 24 pl = 0" "peek32 28 pl = 0"
  shows "\<exists>dm1 did magic. processOpenSession heap False \<lparr>rq_payload = Some pl, rq_reads = reads, rq_irqs = irqs\<rparr> 0 opening_daemon = Some dm1 \<and>
    sent_to 0 (dm_device dm1) = enc32 0 @ enc32 0x301 @ enc32 did @ enc32 magic \<and> \<not> mcFault (dm_device dm1) \<and>
    opened_for 0 (0x301, did, magic) (dm_device dm1) \<and> dv_next (dm_device dm1) = 1"
proof -
  let ?rq = "\<lparr>rq_payload = Some pl, rq_reads = reads, rq_irqs = irqs\<rparr>" let ?ob = "\<lparr>tlStartOffset = 0, blobValue = system_trustlet\<rparr>"
  obtain fs1 where b: "mcRegistryGetServiceBlob heap (Some sample_uuid) False (w_fs (dm_world opening_daemon)) = Some (Some ?ob, fs1)"
    using opening_blob by blast
  let ?dm = "opening_daemon\<lparr>dm_world := (dm_world opening_daemon)\<lparr>w_fs := fs1\<rparr>\<rparr>"
  let ?d1 = "snd (km_call (dm_device opening_daemon))"
  let ?ld = "load_data 8192 ?ob ?dm"
  have dev: "dm_device ?dm = dm_device opening_daemon" by simp
  have r: "registerWsmL2 (dm_device opening_daemon) = (Some 8192, ?d1)"
    by (simp add: registerWsmL2_def opening_daemon_def sample_device_def km_call_def)
  let ?w = "write_tci WSM_INVALID 0 (peek32 20 pl) ?d1"
  have pr: "prepare_tci 0 0 0 (peek32 20 pl) ?d1 = (Inr 0, ?w)" by (simp add: prepare_tci_def tci_given_def)
  have t: "tlHeader ?ld = system_trustlet" by (simp add: load_data_def)
  have l: "length system_trustlet = 100" by (simp add: system_trustlet_def)
  obtain uuid where u: "mclf_uuid system_trustlet = Some uuid" using l by (auto simp: mclf_uuid_def buf_read_def)
  obtain header where h: "buf_read 0 sizeof_mclfHeader system_trustlet = Some header" using l by (auto simp: buf_read_def sizeof_mclfHeader_def)
  obtain gp where g: "mclf_gp_level system_trustlet = Some gp" using l by (auto simp: mclf_gp_level_def ld32_def buf_read_def)
  let ?w2 = "?w\<lparr>unknown_notifications := []\<rparr>"
  have pk: "160 \<le> length (poke i x (poke j y (poke k z (replicate 160 0))))" for i j k x y z
    by (rule le_trans [OF le_trans [OF le_trans [OF _ poke_grows] poke_grows] poke_grows]) simp
  have wf: "\<not> mcFault ?w2" "dv_turns ?w2 = (\<lambda>_. opening_turn)" "12 \<le> length (mcpMessage ?w2)"
    using le_trans [OF _ pk, of 12] by (simp_all add: write_tci_def write_mcp_def km_call_def opening_daemon_def sample_device_def)
  obtain d2 where x: "mcp_exchange MC_MCP_CMD_OPEN_SESSION [(4, uuid), (44, enc32 0), (52, enc32 WSM_L2), (32, enc64 (ld_baseAddr ?ld)),
      (56, enc32 (ld_offs ?ld)), (60, enc32 (ld_len ?ld)), (64, header)] ?w2 = (Inr 0, d2)" "rsp_word d2 = 0x301" "\<not> mcFault d2"
    using opening_exchange [OF wf] by blast
  obtain rsp d3 where a: "add_session 0 gp (ld_len ?ld) 0 0 d2 = (rsp, d3)" by fastforce
  have fst_rsp: "fst rsp = 0x301" "\<not> mcFault d3" using a x(2,3) by (auto simp: add_session_def Let_def new_session_def tci_given_def)
  have o: "openSession 0 ?ld 0 0 (peek32 20 pl) ?d1 = Some ((0, Some rsp), d3)"
    using pr t u h g x(1) a by (simp add: openSession_def)
  have km: "km_results d3 = (\<lambda>_. True)"
    using kept_exchange [OF x(1)] a by (auto simp: kept_def add_session_def Let_def write_tci_def write_mcp_def km_call_def opening_daemon_def sample_device_def)
  let ?dm1 = "answer_open 0 (0, Some rsp) (?dm\<lparr>dm_device := snd (km_call d3)\<rparr>)"
  have ne: "system_trustlet \<noteq> []" using l by auto
  have ds: "device_set 0 opening_daemon" by (simp add: device_set_def opening_daemon_def)
  have run: "processOpenSession heap False ?rq 0 opening_daemon = Some ?dm1"
    using p b ds r o km ne by (simp add: processOpenSession_def with_payload_def recv_payload_def with_device_def open_blob_def
        unregisterWsmL2_def km_call_def l Let_def)
  have e: "sent_to 0 d3 = []" using openSession_result [OF o]
    by (simp add: silent_def sent_to_def session_conns_def km_call_def opening_daemon_def sample_device_def map_filter_def)
  have e4: "sent_to 0 (d3\<lparr>km_calls := n\<rparr>) = []" for n using e by (simp add: sent_to_def)
  have "sent_to 0 (dm_device ?dm1) = enc32 0 @ enc32 0x301 @ enc32 (fst (snd rsp)) @ enc32 (snd (snd rsp))"
    using fst_rsp e4 by (simp add: answer_open_def case_prod_unfold km_call_def)
  moreover have "\<not> mcFault (dm_device ?dm1)" using fst_rsp by (simp add: answer_open_def case_prod_unfold km_call_def write_data_def)
  moreover have "opened_for 0 (0x301, fst (snd rsp), snd (snd rsp)) (dm_device ?dm1)"
  proof -
    have "opened_for 0 rsp d3" using openSession_result [OF o] by simp
    then have "opened_for 0 rsp (write_data 0 w (snd (km_call d3)))" for w
      by (rule opened_kept [OF kept_trans [OF kept_calls(1) kept_calls(4)]])
    then show ?thesis using fst_rsp by (simp add: answer_open_def case_prod_unfold flip: fst_rsp(1))
  qed
  moreover have "dv_next (dm_device ?dm1) = 1"
    using openSession_result [OF o] by (simp add: answer_open_def case_prod_unfold km_call_def opening_daemon_def sample_device_def)
  ultimately show ?thesis using run by blast
qed

lemma opening_client_in_step: "in_step (cd_connection (Device_init 0)) (cl_net (opening_client refused))"
  by (simp add: in_step_def opening_client_def opening_link_def opening_daemon_def sample_device_def Device_init_def daemon_ok_def device_ok_def
      books_ok_def session_handles_def session_conns_def conns_def owners_def driver_conns_def map_filter_def unread_of_def sent_to_def)

lemma opening_runs:
  "fst (mcOpenSession_lib link_socket (Some sample_uuid) 0 0 (opening_client refused)) = (if refused then MC_DRV_ERR_SOCKET_CONNECT else 0, Some 0x301)"
proof -
  let ?lk = "opening_link refused" let ?cl = "opening_client refused" let ?dm = "opening_daemon"
  let ?pl = "enc32 0 @ sample_uuid @ enc32 0 @ enc32 0 @ enc32 0" let ?msg = "enc32 5 @ ?pl"
  have su: "length sample_uuid = 16" by (simp add: sample_uuid_def)
  obtain dm1 did magic where o: "processOpenSession (\<lambda>_. 0) False \<lparr>rq_payload = Some ?pl, rq_reads = \<lambda>_. None, rq_irqs = []\<rparr> 0 ?dm = Some dm1"
    "sent_to 0 (dm_device dm1) = enc32 0 @ enc32 0x301 @ enc32 did @ enc32 magic" "\<not> mcFault (dm_device dm1)"
    "opened_for 0 (0x301, did, magic) (dm_device dm1)" "dv_next (dm_device dm1) = 1"
    using opening_session [of ?pl "\<lambda>_. 0" "\<lambda>_. None" "[]"] su by (auto simp: peek32_def)
  note st = opening_client_in_step [of refused, unfolded in_step_def]
  have d: "lk_daemon ?lk = ?dm" "cl_net ?cl = ?lk" "lk_half ?lk = None" "\<not> lk_down ?lk" "lk_heap ?lk = (\<lambda>_. 0)" "lk_read ?lk = (\<lambda>_. 0)"
    "lk_refused ?lk = (\<lambda>_. refused)" "lk_irqs ?lk = (\<lambda>_. [])" "cd_connection (Device_init 0) = 0" "cl_device ?cl = Some (Device_init 0)"
    by (simp_all add: opening_link_def opening_client_def Device_init_def)
  have ok: "daemon_ok ?dm" "0 \<in> set (dm_clients ?dm)" "dm_connections ?dm = 1" "dv_linked (dm_device ?dm) = [0]" "dv_next (dm_device ?dm) = 0"
    using st d by (simp_all add: opening_daemon_def sample_device_def)
  have rc: "readCommand (Some (enc32 5)) ?dm = Some 5"
    by (simp add: readCommand_def peek32_def device_commands_def opening_daemon_def sample_device_def)
  let ?lk1 = "?lk\<lparr>lk_daemon := dm1\<rparr>" let ?cl1 = "?cl\<lparr>cl_net := ?lk1\<rparr>"
  have w: "link_write 0 ?msg ?lk = (True, ?lk1)" using d ok rc o by (simp add: link_write_def link_run_def handleCommand_def)
  obtain cl2 where r2: "recv_result link_socket 0 ?cl1 = (0, cl2)" "same_client ?cl1 cl2" "lk_daemon (cl_net cl2) = dm1"
    "unread_of 0 (cl_net cl2) = enc32 0x301 @ enc32 did @ enc32 magic" "lk_half (cl_net cl2) = None" "lk_down (cl_net cl2) = False"
    "lk_refused (cl_net cl2) = (\<lambda>_. refused)"
    using link_result [of 0 ?cl1 0 "enc32 0x301 @ enc32 did @ enc32 magic"] o(2) d by (auto simp: unread_of_def)
  obtain cl3 where r3: "recv_from_daemon link_socket 0 12 cl2 = (Inr (enc32 0x301 @ enc32 did @ enc32 magic), cl3)" "lk_daemon (cl_net cl3) = dm1"
    "lk_half (cl_net cl3) = None" "\<not> lk_down (cl_net cl3)" "lk_refused (cl_net cl3) = (\<lambda>_. refused)"
    using link_recv [of 12 0 cl2] r2 by auto
  obtain x cl4 where x: "connect_notifications link_socket 0x301 did magic cl3 = (x, cl4)" by fastforce
  have res: "fst (mcOpenSession_lib link_socket (Some sample_uuid) 0 0 ?cl) = (case x of Inl e \<Rightarrow> (e, Some 0x301) | Inr d \<Rightarrow> (0, Some 0x301))"
    using d w r2(1) r3(1) x by (simp add: mcOpenSession_lib_def open_uuid_def session_tci_def findContiguousWsm_client_def open_request_def with_net_def
        open_answer_def split: sum.split)
  show ?thesis
  proof (cases refused)
    case True
    then have "x = Inl MC_DRV_ERR_SOCKET_CONNECT" using x r3 by (auto simp: connect_notifications_def with_net_def link_connect_def Let_def)
    then show ?thesis using res True by simp
  next
    case False
    let ?lk3 = "cl_net cl3" let ?dm2 = "dm1\<lparr>dm_clients := dm_clients dm1 @ [1], dm_connections := Suc 1\<rparr>"
    have ln: "dv_linked (dm_device dm1) = [0]" "dm_connections dm1 = 1" "dm_clients dm1 = [0]"
      using open_linked [OF ok(1) o(1)] ok by (simp_all add: opening_daemon_def)
    have ok1: "daemon_ok dm1" using command_ok [OF ok(1,2), of "\<lambda>_. 0" 5 _ "[]" dm1] o(1) by (simp add: handleCommand_def)
    have ok2: "daemon_ok ?dm2" using accept_ok [OF ok1] ln by simp
    have "\<forall>t\<in>set (trustletSessions (dm_device dm1)). ts_addr t < 1" using ok1 o(5) by (simp add: daemon_ok_def device_ok_def)
    then have ad: "\<forall>t\<in>set (trustletSessions (dm_device dm1)). ts_addr t < 2 ^ 32" by auto
    obtain ts where ts: "ts \<in> set (trustletSessions (dm_device dm1))" "sessionId ts = 0x301" "of_nat (ts_addr ts) = did" "sessionMagic ts = magic"
      using o(4) by (auto simp: opened_for_def)
    let ?msg2 = "enc32 4 @ enc32 0 @ enc32 0x301 @ enc32 did @ enc32 magic" let ?rq = "\<lparr>rq_payload = Some (enc32 0 @ enc32 0x301 @ enc32 did @ enc32 magic), rq_reads = \<lambda>_. None, rq_irqs = lk_irqs ?lk3 (Suc (lk_tries ?lk3))\<rparr>"
    obtain dm3 where p: "processNqConnect ?rq 1 ?dm2 = Some dm3" using nq_some by blast
    obtain rest where s3: "sent_to 1 (dm_device dm3) = sent_to 1 (dm_device ?dm2) @ enc32 0 @ rest"
      using nq_connect_works [OF ok2 _ _ ts(3,4,2) _ p] ts(1) ad ln by (auto simp: device_set_def)
    let ?lk4 = "?lk3\<lparr>lk_tries := Suc (lk_tries ?lk3), lk_daemon := ?dm2, lk_read := (lk_read ?lk3)(1 := length (sent_to 1 (dm_device dm1)))\<rparr>"
    have c: "link_connect ?lk3 = (Some 1, ?lk4)" using False r3 ln by (simp add: link_connect_def Let_def)
    have rc4: "readCommand (Some (enc32 4)) ?dm2 = Some 4" using o(3) by (simp add: readCommand_def peek32_def device_commands_def)
    have w4: "link_write 1 ?msg2 ?lk4 = (True, ?lk4\<lparr>lk_daemon := dm3\<rparr>)"
      using r3 ln rc4 p by (simp add: link_write_def link_run_def handleCommand_def)
    obtain cl5 where "recv_result link_socket 1 (cl3\<lparr>cl_net := ?lk4\<lparr>lk_daemon := dm3\<rparr>\<rparr>) = (0, cl5)"
      using link_result [of 1 "cl3\<lparr>cl_net := ?lk4\<lparr>lk_daemon := dm3\<rparr>\<rparr>" 0 rest] s3 by (auto simp: unread_of_def)
    then have "x = Inr 1" using x c w4 by (simp add: connect_notifications_def with_net_def call_daemon_def)
    then show ?thesis using res False by simp
  qed
qed

subsection \<open>What the library believes and what the daemon has\<close>

text \<open>C2. When a client that is in step with the daemon opens a session and is told that this worked, the daemon has a session with the id it is told, which
  belongs to the connection of the client's device, and whose notifications go to the very connection the client reads them from.\<close>

theorem opened_session_is_daemons:
  assumes "in_step (cd_connection dv) (cl_net cl)" and "cl_device cl = Some dv" and "length uuid = 16"
    and "mcOpenSession_lib link_socket (Some uuid) tci len cl = ((MC_DRV_OK, sid), cl1)"
  shows "\<exists>ts s. ts \<in> set (trustletSessions (dm_device (lk_daemon (cl_net cl1)))) \<and> deviceConnection ts = Some (cd_connection dv) \<and>
    sid = Some (sessionId ts) \<and> cl_device cl1 = Some (dv\<lparr>sessionList := sessionList dv @ [s]\<rparr>) \<and> cs_id s = sessionId ts \<and>
    notificationConnection ts = Some (notificationSocket s)"
proof -
  obtain i where i: "sid = Some i" using open_ok_id [OF assms(4)] by blast
  obtain ts d bu where t: "ts \<in> set (trustletSessions (dm_device (lk_daemon (cl_net cl1))))" "sessionId ts = i" "deviceConnection ts = Some (cd_connection dv)"
    "notificationConnection ts = Some d" "cl_device cl1 = Some (createNewSession i d bu dv)"
    using open_session_link [OF assms(1-3) assms(4) [unfolded i]] by blast
  show ?thesis
    by (intro exI [of _ ts] exI [of _ "addBulkBuf_made bu (Session_init i d)"])
      (use t i in \<open>simp add: createNewSession_def addBulkBuf_made_def Session_init_def split: option.split\<close>)
qed

text \<open>C36. When opening fails after the daemon has answered, because the second connection is refused, dropped or not accepted, the client's device has no session more,
  but the daemon keeps the session open for the connection of the device: nothing in the library will close it.\<close>

theorem failed_open_leaves_session:
  assumes "in_step (cd_connection dv) (cl_net cl)" and "cl_device cl = Some dv" and "length uuid = 16"
    and "mcOpenSession_lib link_socket (Some uuid) tci len cl = ((r, Some sid), cl1)" and "r \<noteq> MC_DRV_OK"
  shows "cl_device cl1 = Some dv \<and>
    (\<exists>ts\<in>set (trustletSessions (dm_device (lk_daemon (cl_net cl1)))). sessionId ts = sid \<and> deviceConnection ts = Some (cd_connection dv))"
  using open_session_link [OF assms(1-4)] assms(5) by blast

lemma opened_session_is_daemons_witness:
  "\<exists>cl1 ts. mcOpenSession_lib link_socket (Some sample_uuid) 0 0 (opening_client False) = ((MC_DRV_OK, Some 0x301), cl1) \<and>
     ts \<in> set (trustletSessions (dm_device (lk_daemon (cl_net cl1)))) \<and> sessionId ts = 0x301 \<and> notificationConnection ts \<noteq> None"
proof -
  obtain cl1 where f: "mcOpenSession_lib link_socket (Some sample_uuid) 0 0 (opening_client False) = ((MC_DRV_OK, Some 0x301), cl1)"
    using opening_runs [of False] by (metis prod.collapse)
  have d: "cl_device (opening_client False) = Some (Device_init 0)" by (simp add: opening_client_def)
  show ?thesis using opened_session_is_daemons [OF opening_client_in_step d _ f] f by (auto simp: sample_uuid_def)
qed

lemma failed_open_leaves_session_witness:
  "\<exists>cl1 ts. mcOpenSession_lib link_socket (Some sample_uuid) 0 0 (opening_client True) = ((MC_DRV_ERR_SOCKET_CONNECT, Some 0x301), cl1) \<and>
     cl_device cl1 = Some (Device_init 0) \<and> ts \<in> set (trustletSessions (dm_device (lk_daemon (cl_net cl1)))) \<and> sessionId ts = 0x301"
proof -
  obtain cl1 where f: "mcOpenSession_lib link_socket (Some sample_uuid) 0 0 (opening_client True) = ((MC_DRV_ERR_SOCKET_CONNECT, Some 0x301), cl1)"
    using opening_runs [of True] by (metis prod.collapse)
  have d: "cl_device (opening_client True) = Some (Device_init 0)" by (simp add: opening_client_def)
  show ?thesis using failed_open_leaves_session [OF opening_client_in_step d _ f] f by (auto simp: sample_uuid_def)
qed

end
