(* ===== verification/ClientNotifications.thy ===== *)
theory ClientNotifications
  imports ClientDaemon
begin

text \<open>
  Notifications from the secure world to the program that waits for them: the daemon writes them to the
  connection of a session, the library reads them there. The link between the two models is an
  instance of the contract that waiting relies on.
\<close>

subsection \<open>Notifications in a stream of bytes\<close>

fun note_list :: "bytes \<Rightarrow> (u32 \<times> u32) list" where
  "note_list b = (if length b < 8 then [] else (dec32 (take 4 b), dec32 (take 4 (drop 4 b))) # note_list (drop 8 b))"

declare note_list.simps [simp del]

lemma enc_note [simp]: "length (enc_notification n) = 8" "take 4 (enc_notification n @ b) = enc32 (n_sessionId n)"
  "take 4 (drop 4 (enc_notification n @ b)) = enc32 (n_payload n)" "take 4 (enc_notification n) = enc32 (n_sessionId n)" "drop 8 (enc_notification n @ b) = b"
  by (simp_all add: enc_notification_def)

lemma note_list_enc: "note_list (concat (map enc_notification ns) @ b) = map (\<lambda>n. (n_sessionId n, n_payload n)) ns @ note_list b"
proof (induction ns)
  case (Cons n ns)
  have "note_list (enc_notification n @ concat (map enc_notification ns) @ b) =
      (n_sessionId n, n_payload n) # note_list (concat (map enc_notification ns) @ b)"
    by (subst note_list.simps) (simp del: drop_append)
  then show ?case using Cons.IH by simp
qed simp

lemma high_bit [simp]: "8 \<le> n \<Longrightarrow> bit (b :: u8) n = False"
  using bit_imp_le_length [of b n] by auto

lemma enc32_dec32: "length b = 4 \<Longrightarrow> enc32 (dec32 b) = b"
proof -
  assume "length b = 4"
  then obtain b0 b1 b2 b3 where b: "b = [b0, b1, b2, b3]" by (auto simp: length_Suc_conv eval_nat_numeral)
  have "ucast (dec32 b) = b0" "ucast (drop_bit 8 (dec32 b)) = b1" "ucast (drop_bit 16 (dec32 b)) = b2" "ucast (drop_bit 24 (dec32 b)) = b3"
    by (rule u8_eqI; simp add: dec32_def b bit_simps)+
  then show ?thesis by (simp add: enc32_def b)
qed

lemma note_list_Cons:
  assumes "note_list b = (i, p) # ns"
  shows "take 8 b = enc32 i @ enc32 p \<and> note_list (drop 8 b) = ns \<and> 8 \<le> length b"
proof -
  have l: "8 \<le> length b" and i: "i = dec32 (take 4 b)" "p = dec32 (take 4 (drop 4 b))" "note_list (drop 8 b) = ns"
    using assms by (subst (asm) note_list.simps, auto split: if_splits)+
  have "take 8 b = take 4 b @ take 4 (drop 4 b)" by (simp flip: take_add)
  then show ?thesis using l i by (simp add: enc32_dec32)
qed

lemma note_list_Nil: "note_list b = [] \<longleftrightarrow> length b < 8"
  by (subst note_list.simps) simp

subsection \<open>The link keeps the contract\<close>

definition unread_notes :: "connection \<Rightarrow> link \<Rightarrow> (u32 \<times> u32) list" where
  "unread_notes c lk = note_list (unread_of c lk)"

definition whole_notes :: "connection \<Rightarrow> link \<Rightarrow> bool" where
  "whole_notes c lk \<longleftrightarrow> 8 dvd length (unread_of c lk)"

lemma link_read_some:
  assumes "unread_of c lk \<noteq> []"
  shows "\<exists>lk1. link_read c n t lk = (Received (take n (unread_of c lk)), lk1) \<and> unread_of c lk1 = drop n (unread_of c lk)"
proof -
  let ?u = "unread_of c lk"
  have "drop (lk_read lk c + min n (length ?u)) (sent_to c (dm_device (lk_daemon lk))) = drop n ?u"
    by (simp add: unread_of_def min_def add.commute)
  then show ?thesis using assms by (simp add: link_read_def Let_def unread_of_def)
qed

interpretation link_notes: notification_source link_socket c "unread_notes c" "whole_notes c" for c
proof unfold_locales
  fix lk i p ns t assume g: "whole_notes c lk" and u: "unread_notes c lk = (i, p) # ns"
  note n = note_list_Cons [OF u [unfolded unread_notes_def]]
  then have "unread_of c lk \<noteq> []" by auto
  then obtain lk1 where r: "link_read c 8 t lk = (Received (take 8 (unread_of c lk)), lk1)" "unread_of c lk1 = drop 8 (unread_of c lk)"
    using link_read_some by blast
  have "8 dvd length (unread_of c lk) - 8" using g n by (simp add: whole_notes_def)
  then show "\<exists>lk1. so_read link_socket c 8 t lk = (Received (enc32 i @ enc32 p), lk1) \<and> whole_notes c lk1 \<and> unread_notes c lk1 = ns"
    using r n by (simp add: whole_notes_def unread_notes_def)
next
  fix lk assume g: "whole_notes c lk" and u: "unread_notes c lk = []"
  have "length (unread_of c lk) < 8" using u by (simp add: unread_notes_def note_list_Nil)
  then have e: "unread_of c lk = []" using g by (auto simp: whole_notes_def dest: dvd_imp_le)
  then show "\<exists>r lk1. so_read link_socket c 8 0 lk = (r, lk1) \<and> whole_notes c lk1 \<and> unread_notes c lk1 = [] \<and> (\<forall>d. r = Received d \<longrightarrow> length d \<noteq> 8)"
    using g u by (simp add: link_read_def Let_def)
qed

subsection \<open>Notifications that arrive\<close>

lemma change_first_find: "find P (change_first P f xs) = (if P (f x) then Some (f x) else find P (change_first P f xs))" if "find P xs = Some x"
  using that by (induction xs) auto

text \<open>C32. Every notification for a session reaches the program once: after the daemon has handled notifications for a session whose connection the client has read so far,
  one wait takes all of them when none carries an exit code; when one does, the wait says so, the code can be asked for from then on, and the
  notifications behind it stay to be read.\<close>

theorem notifications_delivered:
  assumes "cl_device cl = Some dv" and "resolveSessionId sid dv = Some s" and "unread_of (notificationSocket s) (cl_net cl) = []"
    and "lk_read (cl_net cl) (notificationSocket s) \<le> length (sent_to (notificationSocket s) (dm_device (lk_daemon (cl_net cl))))"
    and "getTrustletSession sid (dm_device (lk_daemon (cl_net cl))) = Some ts" and "notificationConnection ts = Some (notificationSocket s)" and "sid \<noteq> SID_MCP"
    and "\<forall>n\<in>set ns. n_sessionId n = sid" and "ns \<noteq> []"
    and "lk = (cl_net cl)\<lparr>lk_daemon := on_device (fold handle_notification ns) (lk_daemon (cl_net cl))\<rparr>"
  shows "\<exists>cl1. mcWaitNotification_lib link_socket sid timeout (cl\<lparr>cl_net := lk\<rparr>) =
      Some (if \<forall>n\<in>set ns. n_payload n = 0 then MC_DRV_OK else MC_DRV_INFO_NOTIFICATION, cl1) \<and>
    unread_notes (notificationSocket s) (cl_net cl1) = map (\<lambda>n. (sid, n_payload n)) (tl (dropWhile (\<lambda>n. n_payload n = 0) ns)) \<and>
    mcGetSessionErrorCode_lib sid True cl1 =
      (MC_DRV_OK, Some (if \<forall>n\<in>set ns. n_payload n = 0 then lastErr s else n_payload (hd (dropWhile (\<lambda>n. n_payload n = 0) ns))))"
proof -
  let ?c = "notificationSocket s" let ?dv0 = "dm_device (lk_daemon (cl_net cl))" let ?ps = "map (\<lambda>n. (n_sessionId n, n_payload n)) ns"
  have w: "dv_written (fold handle_notification ns ?dv0) = dv_written ?dv0 @ map (\<lambda>n. (?c, enc_notification n)) ns"
    by (rule direct_notifications [OF assms(5,6,7,8)])
  have rd: "lk_read (cl_net cl) ?c = length (sent_to ?c ?dv0)" using assms(3,4) by (simp add: unread_of_def)
  have un: "unread_of ?c lk = concat (map enc_notification ns)"
    using rd by (simp add: unread_of_def assms(10) sent_to_def w on_device_def comp_def)
  have ps: "unread_notes ?c lk = ?ps" using note_list_enc [of ns "[]"] by (simp add: unread_notes_def un note_list_Nil [THEN iffD2])
  have dw: "dropWhile (\<lambda>x. snd x = 0) ?ps = map (\<lambda>n. (n_sessionId n, n_payload n)) (dropWhile (\<lambda>n. n_payload n = 0) ns)"
    by (simp add: dropWhile_map comp_def)
  have wh: "whole_notes ?c lk" 
  proof -
    have "length (concat (map enc_notification ns)) = 8 * length ns" by (induction ns) (simp_all add: enc_notification_def)
    then show ?thesis by (simp add: whole_notes_def un)
  qed
  have r: "mcWaitNotification_lib link_socket sid timeout (cl\<lparr>cl_net := lk\<rparr>) = read_notifications link_socket sid ?c timeout 0 (cl\<lparr>cl_net := lk\<rparr>)"
    using assms(1,2) by (simp add: mcWaitNotification_lib_def)
  have ids: "map (\<lambda>n. (n_sessionId n, n_payload n)) xs = map (\<lambda>n. (sid, n_payload n)) xs" if "set xs \<subseteq> set ns" for xs
    using assms(8) that by auto
  have "\<exists>n. whole_notes ?c n \<and> (if \<forall>x\<in>set ?ps. snd x = 0 then read_notifications link_socket sid ?c timeout 0 (cl\<lparr>cl_net := lk\<rparr>) = Some (MC_DRV_OK, cl\<lparr>cl_net := lk, cl_net := n\<rparr>) \<and> unread_notes ?c n = []
    else read_notifications link_socket sid ?c timeout 0 (cl\<lparr>cl_net := lk\<rparr>) = Some (MC_DRV_INFO_NOTIFICATION, change_device (\<lambda>dv. dv\<lparr>sessionList :=
        change_first (\<lambda>s. cs_id s = sid) (setErrorInfo (snd (hd (dropWhile (\<lambda>x. snd x = 0) ?ps)))) (sessionList dv)\<rparr>) (cl\<lparr>cl_net := lk, cl_net := n\<rparr>)) \<and>
      unread_notes ?c n = tl (dropWhile (\<lambda>x. snd x = 0) ?ps))"
    by (rule link_notes.drain) (use wh ps assms(9) in simp_all)
  then obtain n where n: "if \<forall>x\<in>set ?ps. snd x = 0 then read_notifications link_socket sid ?c timeout 0 (cl\<lparr>cl_net := lk\<rparr>) = Some (MC_DRV_OK, cl\<lparr>cl_net := lk, cl_net := n\<rparr>) \<and> unread_notes ?c n = []
    else read_notifications link_socket sid ?c timeout 0 (cl\<lparr>cl_net := lk\<rparr>) = Some (MC_DRV_INFO_NOTIFICATION, change_device (\<lambda>dv. dv\<lparr>sessionList :=
        change_first (\<lambda>s. cs_id s = sid) (setErrorInfo (snd (hd (dropWhile (\<lambda>x. snd x = 0) ?ps)))) (sessionList dv)\<rparr>) (cl\<lparr>cl_net := lk, cl_net := n\<rparr>)) \<and>
      unread_notes ?c n = tl (dropWhile (\<lambda>x. snd x = 0) ?ps)"
    by blast
  show ?thesis
  proof (cases "\<forall>n\<in>set ns. n_payload n = 0")
    case True
    then have e: "dropWhile (\<lambda>n. n_payload n = 0) ns = []" by simp
    show ?thesis using n True r assms(1,2) by (simp add: e mcGetSessionErrorCode_lib_def getLastErr_def)
  next
    case False
    let ?t = "dropWhile (\<lambda>n. n_payload n = 0) ns"
    have ne: "?t \<noteq> []" using False by (simp add: dropWhile_eq_Nil_conv)
    have tl: "map (\<lambda>n. (n_sessionId n, n_payload n)) (tl ?t) = map (\<lambda>n. (sid, n_payload n)) (tl ?t)"
    proof (rule ids, rule subsetI)
      fix x assume "x \<in> set (tl ?t)"
      then have "x \<in> set ?t" using ne by (rule list.set_sel(2) [rotated])
      then show "x \<in> set ns" by (blast dest: set_dropWhileD)
    qed
    have i: "cs_id s = sid" and f: "find (\<lambda>s. cs_id s = sid) (sessionList dv) = Some s"
      using assms(2) by (auto simp: resolveSessionId_def find_Some_iff)
    have "find (\<lambda>s. cs_id s = sid) (change_first (\<lambda>s. cs_id s = sid) (setErrorInfo e) (sessionList dv)) = Some (setErrorInfo e s)" for e
      using change_first_find [OF f, of "setErrorInfo e"] i by (simp add: setErrorInfo_def)
    then show ?thesis using n False r assms(1) ne tl dw
      by (simp add: mcGetSessionErrorCode_lib_def getLastErr_def resolveSessionId_def change_device_def hd_map map_tl setErrorInfo_def)
  qed
qed

text \<open>A session whose notifications go to the connection 5, at the daemon and in the client.\<close>

definition noted_link :: link where
  "noted_link = (opening_link False)\<lparr>lk_daemon := opening_daemon\<lparr>dm_device := sample_device
     \<lparr>trustletSessions := [(new_session 0 0 0x301 7)\<lparr>notificationConnection := Some 5\<rparr>]\<rparr>\<rparr>\<rparr>"

definition noted_client :: "link client" where
  "noted_client = \<lparr>cl_device = Some ((Device_init 0)\<lparr>sessionList := [Session_init 0x301 5]\<rparr>), cl_kmod = willing_kmod, cl_net = noted_link, cl_stack = \<lambda>_. 0\<rparr>"

lemma notifications_delivered_witness:
  "\<exists>cl1. mcWaitNotification_lib link_socket 0x301 (-1) (noted_client\<lparr>cl_net := noted_link\<lparr>lk_daemon := on_device
      (fold handle_notification [\<lparr>n_sessionId = 0x301, n_payload = 0\<rparr>, \<lparr>n_sessionId = 0x301, n_payload = 9\<rparr>, \<lparr>n_sessionId = 0x301, n_payload = 0\<rparr>])
      (lk_daemon noted_link)\<rparr>\<rparr>) = Some (MC_DRV_INFO_NOTIFICATION, cl1) \<and>
     unread_notes 5 (cl_net cl1) = [(0x301, 0)] \<and> mcGetSessionErrorCode_lib 0x301 True cl1 = (MC_DRV_OK, Some 9)"
proof -
  let ?ns = "[\<lparr>n_sessionId = 0x301, n_payload = 0\<rparr>, \<lparr>n_sessionId = 0x301, n_payload = 9\<rparr>, \<lparr>n_sessionId = 0x301, n_payload = 0\<rparr>]"
  have d: "cl_device noted_client = Some ((Device_init 0)\<lparr>sessionList := [Session_init 0x301 5]\<rparr>)" "cl_net noted_client = noted_link"
    by (simp_all add: noted_client_def)
  have s: "resolveSessionId 0x301 ((Device_init 0)\<lparr>sessionList := [Session_init 0x301 5]\<rparr>) = Some (Session_init 0x301 5)"
    by (simp add: resolveSessionId_def Session_init_def)
  have l: "unread_of 5 noted_link = []" "getTrustletSession 0x301 (dm_device (lk_daemon noted_link)) = Some ((new_session 0 0 0x301 7)\<lparr>notificationConnection := Some 5\<rparr>)"
    "lk_read noted_link 5 = 0"
    by (simp_all add: noted_link_def unread_of_def sent_to_def sample_device_def getTrustletSession_def new_session_def opening_link_def)
  show ?thesis
    using notifications_delivered [OF d(1) s _ _ _ _ _ _ _ refl, of "(new_session 0 0 0x301 7)\<lparr>notificationConnection := Some 5\<rparr>" ?ns "-1"] l d(2)
    by (simp add: Session_init_def)
qed

end
