(* ===== verification/DriverClient.thy ===== *)
theory DriverClient
  imports ClientLibrary
begin

text \<open>
  The client library behind the interface \<open>IClient\<close> (src/MobiCoreDriverLib/ClientLib/driver_client.cpp and
  Contrib/iclient.h): result codes become error numbers, several buffers are mapped by one call, and
  requests for cancellation are written into the memory shared with a trusted application.
  A call returns \<open>None\<close> for 0 and an error number when it returns -1.
\<close>

subsection \<open>Error numbers\<close>

datatype errno = ENOMSG | EBADMSG | ENOLINK | ENOSPC | EHOSTDOWN | ENODEV | ENXIO | EPERM | EBADE | ETIME | ENOMEM | EUCLEAN
  | ENOTEMPTY | EHOSTUNREACH | ENOENT | EINVAL | EPROTO | EADDRINUSE | EADDRNOTAVAIL | ECOMM | EUNATCH | EKEYREJECTED | EBADF
  | EINTR | ECONNREFUSED | ECONNABORTED | ECONNRESET | EBADSLT | EACCES | EBUSY | EPIPE | Other_errno

definition mcresult_to_errno :: "errno option list" where
  "mcresult_to_errno =
    [None, Some ENOMSG, Some EBADMSG, Some ENOLINK, Some ENOSPC, Some EHOSTDOWN, Some ENOLINK, Some ENODEV,
     Some ENXIO, Some EPERM, Some EBADE, Some ETIME, Some ENOMEM, Some EUCLEAN, Some ENOTEMPTY, Some EHOSTUNREACH,
     Some ENOENT, Some EINVAL, Some EPROTO, Some EADDRINUSE, Some EADDRNOTAVAIL, Some ECOMM, Some EUNATCH, Some ENOLINK,
     Some ENOLINK, Some EKEYREJECTED, Some ENOLINK, Some ENOLINK, Some ENOLINK, Some ENOLINK, Some ENOLINK, Some ENOLINK,
     Some ENOLINK, Some EBADF, Some ENOLINK, Some EINTR, Some ECONNREFUSED, Some ECONNABORTED, Some ECONNRESET, Some ENOLINK]"

definition set_errno_from_mcresult :: "u32 \<Rightarrow> errno option" where
  "set_errno_from_mcresult result =
     (if result > 39 then Some (if result = 0xe0012 then EINVAL else EBADSLT) else mcresult_to_errno ! unat result)"

subsection \<open>What callers hand over\<close>

text \<open>The data of a login is \<open>None\<close> when nothing was written into the structure.\<close>

record mc_uuid_session =
  se_uuid :: bytes
  se_is_gp_uuid :: bool
  se_tci :: addr
  se_tcilen :: u32
  se_login_type :: u32
  se_login_data :: "bytes option"

abbreviation (input) LOGIN_PUBLIC :: u32 where "LOGIN_PUBLIC \<equiv> 0"

record mc_trustlet =
  tr_spid :: u32
  tr_buffer :: "bytes option"
  tr_tci :: addr
  tr_tcilen :: u32

record mc_buffer =
  mb_va :: u64
  mb_len :: u32
  mb_sva :: u64
  mb_flags :: u32

definition MC_MAP_MAX :: nat where "MC_MAP_MAX = 4"

text \<open>The memory shared with a trusted application. A parameter is a union: its first two words are a value
  or the address and the length of a buffer in the secure world, the third word is the size the application wrote.\<close>

record pint =
  pi_a :: u32
  pi_b :: u32
  pi_outputSize :: u32

abbreviation (input) pi_sVirtualAddr :: "pint \<Rightarrow> u32" where "pi_sVirtualAddr \<equiv> pi_a"
abbreviation (input) pi_sVirtualLen :: "pint \<Rightarrow> u32" where "pi_sVirtualLen \<equiv> pi_b"

record tci =
  tci_header :: bytes
  tci_destination :: bytes
  op_type :: u32
  op_commandId :: u32
  op_paramTypes :: u32
  op_params :: "pint list"
  op_isCancelled :: bool
  tci_ready :: u32
  tci_returnOrigin :: u32
  tci_returnStatus :: u32

subsection \<open>The driver client\<close>

text \<open>Its device is that of the library; it notes which sessions belong to applications of the GlobalPlatform
  interface, with the address of their shared memory.\<close>

record 'n driverClient =
  dc_client :: "'n client"
  gp_sessions :: "(u32 \<times> addr) list"

definition in_library :: "('n client \<Rightarrow> u32 \<times> 'n client) \<Rightarrow> 'n driverClient \<Rightarrow> errno option \<times> 'n driverClient" where
  "in_library f d = (case f (dc_client d) of (r, cl) \<Rightarrow> (set_errno_from_mcresult r, d\<lparr>dc_client := cl\<rparr>))"

definition dc_open :: "'n socket \<Rightarrow> 'n driverClient \<Rightarrow> errno option \<times> 'n driverClient" where
  "dc_open so = in_library (mcOpenDevice_lib so)"

definition delete_device :: "'n socket \<Rightarrow> 'n client \<Rightarrow> 'n client" where
  "delete_device so cl = (case cl_device cl of None \<Rightarrow> cl
     | Some dv \<Rightarrow> (case Device_delete so dv (cl_kmod cl, cl_net cl) of (k, n) \<Rightarrow> cl\<lparr>cl_device := None, cl_kmod := k, cl_net := n\<rparr>))"

definition dc_close :: "'n socket \<Rightarrow> 'n driverClient \<Rightarrow> errno option \<times> 'n driverClient" where
  "dc_close so = in_library (\<lambda>cl. case mcCloseDevice_lib so cl of (r, cl1) \<Rightarrow>
     (r, if r \<noteq> MC_DRV_ERR_SESSION_PENDING then delete_device so cl1 else cl1))"

definition dc_isOpen :: "'n driverClient \<Rightarrow> bool" where
  "dc_isOpen d = (case cl_device (dc_client d) of None \<Rightarrow> False | Some dv \<Rightarrow> isValid dv)"

text \<open>The device is used without a check whether there is one: that is the outer \<open>None\<close>.\<close>

definition dc_hasOpenSessions :: "'n socket \<Rightarrow> 'n driverClient \<Rightarrow> (errno option \<times> 'n driverClient) option" where
  "dc_hasOpenSessions so d = (case cl_device (dc_client d) of None \<Rightarrow> None
     | Some dv \<Rightarrow> Some (if \<not> isValid dv then (None, d) else in_library (mcDeviceHasOpenSessions_lib so) d))"

text \<open>The session id is in the structure that the caller passes, and is written also by calls that fail.\<close>

definition dc_openSession :: "'n socket \<Rightarrow> mc_uuid_session \<Rightarrow> 'n driverClient \<Rightarrow> (errno option \<times> u32 option) \<times> 'n driverClient" where
  "dc_openSession so se d =
     (if se_login_type se \<noteq> LOGIN_PUBLIC then ((Some EINVAL, None), d)
      else case (if se_is_gp_uuid se then mcOpenGPTA_lib else mcOpenSession_lib) so (Some (se_uuid se)) (se_tci se) (se_tcilen se) (dc_client d) of
        ((r, sid), cl) \<Rightarrow> (case set_errno_from_mcresult r of
            Some e \<Rightarrow> ((Some e, sid), d\<lparr>dc_client := cl\<rparr>)
          | None \<Rightarrow> ((None, sid), d\<lparr>dc_client := cl, gp_sessions :=
              (if se_is_gp_uuid se then gp_sessions d @ [(case sid of None \<Rightarrow> 0 | Some i \<Rightarrow> i, se_tci se)] else gp_sessions d)\<rparr>)))"

definition dc_openTrustlet :: "'n socket \<Rightarrow> mc_trustlet \<Rightarrow> 'n driverClient \<Rightarrow> (errno option \<times> u32 option) \<times> 'n driverClient" where
  "dc_openTrustlet so tr d = (case mcOpenTrustlet_lib so (tr_spid tr) (tr_buffer tr) (tr_tci tr) (tr_tcilen tr) (dc_client d) of
     ((r, sid), cl) \<Rightarrow> ((set_errno_from_mcresult r, sid), d\<lparr>dc_client := cl\<rparr>))"

definition dc_closeSession :: "'n socket \<Rightarrow> u32 \<Rightarrow> 'n driverClient \<Rightarrow> errno option \<times> 'n driverClient" where
  "dc_closeSession so sid d = (case in_library (mcCloseSession_lib so sid) d of
     (Some e, d1) \<Rightarrow> (Some e, d1)
   | (None, d1) \<Rightarrow> (None, d1\<lparr>gp_sessions := remove_first (\<lambda>s. fst s = sid) (gp_sessions d1)\<rparr>))"

definition dc_notify :: "'n socket \<Rightarrow> u32 \<Rightarrow> 'n driverClient \<Rightarrow> errno option \<times> 'n driverClient" where
  "dc_notify so sid = in_library (mcNotify_lib so sid)"

definition dc_waitNotification :: "'n socket \<Rightarrow> u32 \<Rightarrow> int \<Rightarrow> 'n driverClient \<Rightarrow> (errno option \<times> 'n driverClient) option" where
  "dc_waitNotification so sid timeout d = (case mcWaitNotification_lib so sid timeout (dc_client d) of None \<Rightarrow> None
     | Some (r, cl) \<Rightarrow> Some (set_errno_from_mcresult r, d\<lparr>dc_client := cl\<rparr>))"

definition dc_malloc :: "'n socket \<Rightarrow> u32 \<Rightarrow> 'n driverClient \<Rightarrow> (errno option \<times> addr option) \<times> 'n driverClient" where
  "dc_malloc so len d = (case mcMallocWsm_lib len True (dc_client d) of ((r, a), cl) \<Rightarrow>
     ((set_errno_from_mcresult r, a), d\<lparr>dc_client := cl\<rparr>))"

definition dc_free :: "'n socket \<Rightarrow> addr \<Rightarrow> u32 \<Rightarrow> 'n driverClient \<Rightarrow> errno option \<times> 'n driverClient" where
  "dc_free so buffer len = in_library (mcFreeWsm_lib buffer)"

subsection \<open>Mapping several buffers\<close>

definition no_buffer :: "mc_buffer \<Rightarrow> mc_buffer" where "no_buffer b = b\<lparr>mb_va := 0\<rparr>"

text \<open>The loop over the buffers, with the error so far and whether a buffer was mapped. After an error the
  remaining addresses are set to 0, but not that of the buffer that failed.\<close>

fun map_buffers :: "'n socket \<Rightarrow> u32 \<Rightarrow> mc_buffer list \<Rightarrow> errno option \<Rightarrow> bool \<Rightarrow> 'n driverClient \<Rightarrow>
    (mc_buffer list \<times> errno option \<times> bool) \<times> 'n driverClient" where
  "map_buffers so sid [] ret mapped d = (([], ret, mapped), d)"
| "map_buffers so sid (b # bs) ret mapped d =
     (if mb_va b = 0 then (case map_buffers so sid bs ret mapped d of ((bs1, x), d1) \<Rightarrow> ((b # bs1, x), d1))
      else if ret \<noteq> None then (case map_buffers so sid bs ret mapped d of ((bs1, x), d1) \<Rightarrow> ((no_buffer b # bs1, x), d1))
      else case mcMap_lib so sid (mb_va b) (mb_len b) True (dc_client d) of ((r, info), cl) \<Rightarrow>
        let d1 = d\<lparr>dc_client := cl\<rparr> in
        case set_errno_from_mcresult r of
          Some e \<Rightarrow> (case map_buffers so sid bs (Some e) mapped d1 of ((bs1, x), d2) \<Rightarrow> ((b # bs1, x), d2))
        | None \<Rightarrow> (case map_buffers so sid bs None True d1 of ((bs1, x), d2) \<Rightarrow>
            ((b\<lparr>mb_sva := (case info of None \<Rightarrow> mb_sva b | Some i \<Rightarrow> ucast (sVirtualAddr i))\<rparr> # bs1, x), d2)))"

fun unmap_buffers :: "'n socket \<Rightarrow> u32 \<Rightarrow> mc_buffer list \<Rightarrow> errno option \<Rightarrow> bool \<Rightarrow> 'n driverClient \<Rightarrow>
    (errno option \<times> bool) \<times> 'n driverClient" where
  "unmap_buffers so sid [] ret unmapped d = ((ret, unmapped), d)"
| "unmap_buffers so sid (b # bs) ret unmapped d =
     (if mb_va b = 0 then unmap_buffers so sid bs ret unmapped d
      else case mcUnmap_lib so sid (mb_va b) (Some \<lparr>sVirtualAddr = ucast (mb_sva b), sVirtualLen = mb_len b\<rparr>) (dc_client d) of (r, cl) \<Rightarrow>
        let d1 = d\<lparr>dc_client := cl\<rparr> in
        case set_errno_from_mcresult r of
          Some e \<Rightarrow> unmap_buffers so sid bs (Some e) unmapped d1
        | None \<Rightarrow> unmap_buffers so sid bs ret True d1)"

definition dc_unmap :: "'n socket \<Rightarrow> u32 \<Rightarrow> mc_buffer list \<Rightarrow> 'n driverClient \<Rightarrow> errno option \<times> 'n driverClient" where
  "dc_unmap so sid bufs d = (case unmap_buffers so sid bufs None False d of ((ret, unmapped), d1) \<Rightarrow>
     (if ret = None \<and> \<not> unmapped then Some EINVAL else ret, d1))"

text \<open>When a buffer fails those before it are unmapped again, and the number of the error is that of the last
  call that failed.\<close>

definition dc_map :: "'n socket \<Rightarrow> u32 \<Rightarrow> mc_buffer list \<Rightarrow> 'n driverClient \<Rightarrow> (errno option \<times> mc_buffer list) \<times> 'n driverClient" where
  "dc_map so sid bufs d = (case map_buffers so sid bufs None False d of ((bufs1, ret, mapped), d1) \<Rightarrow>
     (case ret of
        None \<Rightarrow> ((if mapped then None else Some EINVAL, bufs1), d1)
      | Some e \<Rightarrow>
        if \<not> mapped then ((Some e, bufs1), d1)
        else (case dc_unmap so sid bufs1 d1 of (e2, d2) \<Rightarrow> ((Some (case e2 of None \<Rightarrow> e | Some e2 \<Rightarrow> e2), bufs1), d2))))"

definition dc_getError :: "u32 \<Rightarrow> 'n driverClient \<Rightarrow> errno option \<times> u32 option" where
  "dc_getError sid d = (case mcGetSessionErrorCode_lib sid True (dc_client d) of (r, v) \<Rightarrow> (set_errno_from_mcresult r, v))"

text \<open>Unlike all others, this returns the result code itself.\<close>

definition dc_getVersion :: "'n socket \<Rightarrow> 'n driverClient \<Rightarrow> (u32 \<times> bytes option) \<times> 'n driverClient" where
  "dc_getVersion so d = (case mcGetMobiCoreVersion_lib so True (dc_client d) of (r, cl) \<Rightarrow> (r, d\<lparr>dc_client := cl\<rparr>))"

subsection \<open>Cancellation\<close>

text \<open>The flag is written through the address that was noted; the outer \<open>None\<close> is an address with no memory behind it.\<close>

fun cancel_sessions :: "u32 \<Rightarrow> (u32 \<times> addr) list \<Rightarrow> (addr \<Rightarrow> tci option) \<Rightarrow> (bool \<times> (addr \<Rightarrow> tci option)) option" where
  "cancel_sessions sid [] m = Some (False, m)"
| "cancel_sessions sid ((i, a) # ss) m =
     (if i \<noteq> sid then cancel_sessions sid ss m
      else case m a of None \<Rightarrow> None
        | Some t \<Rightarrow> map_option (\<lambda>(found, m1). (True, m1)) (cancel_sessions sid ss (m(a \<mapsto> t\<lparr>op_isCancelled := True\<rparr>))))"

definition dc_gpRequestCancellation ::
    "'n socket \<Rightarrow> u32 \<Rightarrow> (addr \<Rightarrow> tci option) \<Rightarrow> 'n driverClient \<Rightarrow> (errno option \<times> (addr \<Rightarrow> tci option) \<times> 'n driverClient) option" where
  "dc_gpRequestCancellation so sid m d = (case cancel_sessions sid (gp_sessions d) m of None \<Rightarrow> None
     | Some (found, m1) \<Rightarrow> Some (if \<not> found then (Some ENOENT, m1, d) else (case dc_notify so sid d of (e, d1) \<Rightarrow> (e, m1, d1))))"

end
