(* ===== verification/CommonClient.thy ===== *)
theory CommonClient
  imports DriverClient
begin

text \<open>
  The client every interface of a process shares (src/MobiCoreDriverLib/ClientLib/Contrib/common_client.cpp): it counts
  how often it was opened and passes calls on to the driver client or the proxy client, the two
  implementations of \<open>IClient\<close>. An implementation is a record of functions over a state of any type.
\<close>

record 's iclient =
  ic_open :: "'s \<Rightarrow> errno option \<times> 's"
  ic_close :: "'s \<Rightarrow> errno option \<times> 's"
  ic_isOpen :: "'s \<Rightarrow> bool"
  ic_hasOpenSessions :: "'s \<Rightarrow> (errno option \<times> 's) option"
  ic_openSession :: "mc_uuid_session \<Rightarrow> 's \<Rightarrow> (errno option \<times> u32 option) \<times> 's"
  ic_openTrustlet :: "mc_trustlet \<Rightarrow> 's \<Rightarrow> (errno option \<times> u32 option) \<times> 's"
  ic_closeSession :: "u32 \<Rightarrow> 's \<Rightarrow> errno option \<times> 's"
  ic_notify :: "u32 \<Rightarrow> 's \<Rightarrow> errno option \<times> 's"
  ic_waitNotification :: "u32 \<Rightarrow> int \<Rightarrow> 's \<Rightarrow> (errno option \<times> 's) option"
  ic_malloc :: "u32 \<Rightarrow> 's \<Rightarrow> (errno option \<times> addr option) \<times> 's"
  ic_free :: "addr \<Rightarrow> u32 \<Rightarrow> 's \<Rightarrow> errno option \<times> 's"
  ic_map :: "u32 \<Rightarrow> mc_buffer list \<Rightarrow> 's \<Rightarrow> (errno option \<times> mc_buffer list) \<times> 's"
  ic_unmap :: "u32 \<Rightarrow> mc_buffer list \<Rightarrow> 's \<Rightarrow> errno option \<times> 's"
  ic_getError :: "u32 \<Rightarrow> 's \<Rightarrow> (errno option \<times> u32 option) \<times> 's"
  ic_getVersion :: "'s \<Rightarrow> ((errno + u32) \<times> bytes option) \<times> 's"
  ic_gpRequestCancellation :: "u32 \<Rightarrow> (addr \<Rightarrow> tci option) \<Rightarrow> 's \<Rightarrow> (errno option \<times> (addr \<Rightarrow> tci option) \<times> 's) option"

definition driver_iclient :: "'n socket \<Rightarrow> 'n driverClient iclient" where
  "driver_iclient so =
     \<lparr>ic_open = dc_open so, ic_close = dc_close so, ic_isOpen = dc_isOpen, ic_hasOpenSessions = dc_hasOpenSessions so,
      ic_openSession = dc_openSession so, ic_openTrustlet = dc_openTrustlet so, ic_closeSession = dc_closeSession so,
      ic_notify = dc_notify so, ic_waitNotification = dc_waitNotification so, ic_malloc = dc_malloc so, ic_free = dc_free so,
      ic_map = dc_map so, ic_unmap = dc_unmap so, ic_getError = (\<lambda>sid d. (dc_getError sid d, d)),
      ic_getVersion = (\<lambda>d. case dc_getVersion so d of ((r, v), d1) \<Rightarrow> ((Inr r, v), d1)),
      ic_gpRequestCancellation = dc_gpRequestCancellation so\<rparr>"

text \<open>An implementation on a part of a state.\<close>

definition on_part :: "('t \<Rightarrow> 's) \<Rightarrow> ('s \<Rightarrow> 't \<Rightarrow> 't) \<Rightarrow> ('s \<Rightarrow> 'a \<times> 's) \<Rightarrow> 't \<Rightarrow> 'a \<times> 't" where
  "on_part get put f t = (case f (get t) of (a, s) \<Rightarrow> (a, put s t))"

definition iclient_on :: "('t \<Rightarrow> 's) \<Rightarrow> ('s \<Rightarrow> 't \<Rightarrow> 't) \<Rightarrow> 's iclient \<Rightarrow> 't iclient" where
  "iclient_on get put i =
     \<lparr>ic_open = on_part get put (ic_open i), ic_close = on_part get put (ic_close i), ic_isOpen = (\<lambda>t. ic_isOpen i (get t)),
      ic_hasOpenSessions = (\<lambda>t. map_option (\<lambda>(e, s). (e, put s t)) (ic_hasOpenSessions i (get t))),
      ic_openSession = (\<lambda>se. on_part get put (ic_openSession i se)), ic_openTrustlet = (\<lambda>tr. on_part get put (ic_openTrustlet i tr)),
      ic_closeSession = (\<lambda>sid. on_part get put (ic_closeSession i sid)), ic_notify = (\<lambda>sid. on_part get put (ic_notify i sid)),
      ic_waitNotification = (\<lambda>sid timeout t. map_option (\<lambda>(e, s). (e, put s t)) (ic_waitNotification i sid timeout (get t))),
      ic_malloc = (\<lambda>len. on_part get put (ic_malloc i len)), ic_free = (\<lambda>b len. on_part get put (ic_free i b len)),
      ic_map = (\<lambda>sid bufs. on_part get put (ic_map i sid bufs)), ic_unmap = (\<lambda>sid bufs. on_part get put (ic_unmap i sid bufs)),
      ic_getError = (\<lambda>sid. on_part get put (ic_getError i sid)), ic_getVersion = on_part get put (ic_getVersion i),
      ic_gpRequestCancellation = (\<lambda>sid m t. map_option (\<lambda>(e, m1, s). (e, m1, put s t)) (ic_gpRequestCancellation i sid m (get t)))\<rparr>"

subsection \<open>Opening and closing\<close>

datatype openMode = Open_auto | Open_driver | Open_proxy
datatype lower = Lower_driver | Lower_proxy

text \<open>The count is a signed number of 32 bits, here as its two's complement, which wraps.\<close>

record 's common =
  open_count :: u32
  cc_client :: "lower option"
  open_mode :: openMode
  cc_lower :: 's

text \<open>Both lower layers are members of the common client: the driver client, and the proxy client, any implementation.\<close>

definition lowers :: "'n socket \<Rightarrow> 'p iclient \<Rightarrow> lower \<Rightarrow> ('n driverClient \<times> 'p) iclient" where
  "lowers so px l = (case l of
     Lower_driver \<Rightarrow> iclient_on fst (\<lambda>s t. (s, snd t)) (driver_iclient so)
   | Lower_proxy \<Rightarrow> iclient_on snd (\<lambda>s t. (fst t, s)) px)"

definition CommonClient_init :: "'s \<Rightarrow> 's common" where
  "CommonClient_init s = \<lparr>open_count = 0, cc_client = None, open_mode = Open_auto, cc_lower = s\<rparr>"

text \<open>The attempts to open the lower layers, and which one is open then.\<close>

definition open_lower :: "(lower \<Rightarrow> 's iclient) \<Rightarrow> 's common \<Rightarrow> (errno + lower) \<times> 's common" where
  "open_lower lo c =
     (let try_proxy = (\<lambda>e c. if open_mode c = Open_driver then (Inl e, c)
            else (case ic_open (lo Lower_proxy) (cc_lower c) of
               (None, s) \<Rightarrow> (Inr Lower_proxy, c\<lparr>cc_lower := s\<rparr>) | (Some e, s) \<Rightarrow> (Inl e, c\<lparr>cc_lower := s\<rparr>)))
      in if open_mode c = Open_proxy then try_proxy Other_errno c
         else case ic_open (lo Lower_driver) (cc_lower c) of
             (None, s) \<Rightarrow> (Inr Lower_driver, c\<lparr>cc_lower := s\<rparr>)
           | (Some e, s) \<Rightarrow> try_proxy e (c\<lparr>cc_lower := s\<rparr>))"

text \<open>The pointer to the client is not reset when it is found to be closed: an attempt that fails then counts all the same.\<close>

definition cc_open :: "(lower \<Rightarrow> 's iclient) \<Rightarrow> 's common \<Rightarrow> errno option \<times> 's common" where
  "cc_open lo c =
     (let c1 = (case cc_client c of None \<Rightarrow> c
           | Some l \<Rightarrow> if ic_isOpen (lo l) (cc_lower c) then c else c\<lparr>open_count := 0\<rparr>);
        (ret, c2) = (if open_count c1 = 0 then
             (case open_lower lo c1 of (Inr l, c2) \<Rightarrow> (None, c2\<lparr>cc_client := Some l\<rparr>) | (Inl e, c2) \<Rightarrow> (Some e, c2))
           else (None, c1))
      in (ret, if cc_client c2 \<noteq> None then c2\<lparr>open_count := open_count c2 + 1\<rparr> else c2))"

definition cc_closeCheck :: "'s common \<Rightarrow> errno option \<times> 's common" where
  "cc_closeCheck c = (if 1 <s open_count c then (None, c\<lparr>open_count := open_count c - 1\<rparr>) else (Some EPERM, c))"

definition cc_close :: "(lower \<Rightarrow> 's iclient) \<Rightarrow> 's common \<Rightarrow> errno option \<times> 's common" where
  "cc_close lo c = (case cc_client c of None \<Rightarrow> (Some EBADF, c)
     | Some l \<Rightarrow>
       (case (if open_count c = 1 then
               (case ic_close (lo l) (cc_lower c) of (ret, s) \<Rightarrow> (ret, c\<lparr>cc_client := None, cc_lower := s\<rparr>))
             else (None, c)) of (ret, c1) \<Rightarrow> (ret, c1\<lparr>open_count := open_count c1 - 1\<rparr>)))"

definition cc_isOpen :: "'s common \<Rightarrow> bool" where "cc_isOpen c \<longleftrightarrow> 0 <s open_count c"

definition cc_setOpenMode :: "openMode \<Rightarrow> 's common \<Rightarrow> 's common" where "cc_setOpenMode m c = c\<lparr>open_mode := m\<rparr>"

subsection \<open>Calls that are passed on\<close>

text \<open>The error of a call with no client, and the call on the state of the lower layer.\<close>

definition pass_on :: "(lower \<Rightarrow> 's \<Rightarrow> 'a \<times> 's) \<Rightarrow> 'a \<Rightarrow> 's common \<Rightarrow> 'a \<times> 's common" where
  "pass_on f closed c = (case cc_client c of None \<Rightarrow> (closed, c)
     | Some l \<Rightarrow> (case f l (cc_lower c) of (a, s) \<Rightarrow> (a, c\<lparr>cc_lower := s\<rparr>)))"

definition cc_hasOpenSessions :: "(lower \<Rightarrow> 's iclient) \<Rightarrow> 's common \<Rightarrow> (errno option \<times> 's common) option" where
  "cc_hasOpenSessions lo c = (case cc_client c of None \<Rightarrow> Some (Some EBADF, c)
     | Some l \<Rightarrow> map_option (\<lambda>(e, s). (e, c\<lparr>cc_lower := s\<rparr>)) (ic_hasOpenSessions (lo l) (cc_lower c)))"

definition cc_openSession :: "(lower \<Rightarrow> 's iclient) \<Rightarrow> mc_uuid_session \<Rightarrow> 's common \<Rightarrow> (errno option \<times> u32 option) \<times> 's common" where
  "cc_openSession lo se = pass_on (\<lambda>l. ic_openSession (lo l) se) (Some EBADF, None)"

definition cc_openTrustlet :: "(lower \<Rightarrow> 's iclient) \<Rightarrow> mc_trustlet \<Rightarrow> 's common \<Rightarrow> (errno option \<times> u32 option) \<times> 's common" where
  "cc_openTrustlet lo tr = pass_on (\<lambda>l. ic_openTrustlet (lo l) tr) (Some EBADF, None)"

definition cc_closeSession :: "(lower \<Rightarrow> 's iclient) \<Rightarrow> u32 \<Rightarrow> 's common \<Rightarrow> errno option \<times> 's common" where
  "cc_closeSession lo sid = pass_on (\<lambda>l. ic_closeSession (lo l) sid) (Some EBADF)"

definition cc_notify :: "(lower \<Rightarrow> 's iclient) \<Rightarrow> u32 \<Rightarrow> 's common \<Rightarrow> errno option \<times> 's common" where
  "cc_notify lo sid = pass_on (\<lambda>l. ic_notify (lo l) sid) (Some EBADF)"

definition cc_waitNotification :: "(lower \<Rightarrow> 's iclient) \<Rightarrow> u32 \<Rightarrow> int \<Rightarrow> 's common \<Rightarrow> (errno option \<times> 's common) option" where
  "cc_waitNotification lo sid timeout c = (case cc_client c of None \<Rightarrow> Some (Some EBADF, c)
     | Some l \<Rightarrow> map_option (\<lambda>(e, s). (e, c\<lparr>cc_lower := s\<rparr>)) (ic_waitNotification (lo l) sid timeout (cc_lower c)))"

definition cc_malloc :: "(lower \<Rightarrow> 's iclient) \<Rightarrow> u32 \<Rightarrow> 's common \<Rightarrow> (errno option \<times> addr option) \<times> 's common" where
  "cc_malloc lo len = pass_on (\<lambda>l. ic_malloc (lo l) len) (Some EBADF, None)"

definition cc_free :: "(lower \<Rightarrow> 's iclient) \<Rightarrow> addr \<Rightarrow> u32 \<Rightarrow> 's common \<Rightarrow> errno option \<times> 's common" where
  "cc_free lo buffer len = pass_on (\<lambda>l. ic_free (lo l) buffer len) (Some EBADF)"

definition cc_map :: "(lower \<Rightarrow> 's iclient) \<Rightarrow> u32 \<Rightarrow> mc_buffer list \<Rightarrow> 's common \<Rightarrow> (errno option \<times> mc_buffer list) \<times> 's common" where
  "cc_map lo sid bufs = pass_on (\<lambda>l. ic_map (lo l) sid bufs) (Some EBADF, bufs)"

definition cc_unmap :: "(lower \<Rightarrow> 's iclient) \<Rightarrow> u32 \<Rightarrow> mc_buffer list \<Rightarrow> 's common \<Rightarrow> errno option \<times> 's common" where
  "cc_unmap lo sid bufs = pass_on (\<lambda>l. ic_unmap (lo l) sid bufs) (Some EBADF)"

definition cc_getError :: "(lower \<Rightarrow> 's iclient) \<Rightarrow> u32 \<Rightarrow> 's common \<Rightarrow> (errno option \<times> u32 option) \<times> 's common" where
  "cc_getError lo sid = pass_on (\<lambda>l. ic_getError (lo l) sid) (Some EBADF, None)"

definition cc_getVersion :: "(lower \<Rightarrow> 's iclient) \<Rightarrow> 's common \<Rightarrow> ((errno + u32) \<times> bytes option) \<times> 's common" where
  "cc_getVersion lo = pass_on (\<lambda>l. ic_getVersion (lo l)) (Inl EBADF, None)"

definition cc_gpRequestCancellation ::
    "(lower \<Rightarrow> 's iclient) \<Rightarrow> u32 \<Rightarrow> (addr \<Rightarrow> tci option) \<Rightarrow> 's common \<Rightarrow> (errno option \<times> (addr \<Rightarrow> tci option) \<times> 's common) option" where
  "cc_gpRequestCancellation lo sid m c = (case cc_client c of None \<Rightarrow> Some (Some EBADF, m, c)
     | Some l \<Rightarrow> map_option (\<lambda>(e, m1, s). (e, m1, c\<lparr>cc_lower := s\<rparr>)) (ic_gpRequestCancellation (lo l) sid m (cc_lower c)))"

lemmas passed_on = cc_openSession_def cc_openTrustlet_def cc_closeSession_def cc_notify_def cc_malloc_def cc_free_def
  cc_map_def cc_unmap_def cc_getError_def cc_getVersion_def pass_on_def

end
