(* ===== verification/McApi.thy ===== *)
theory McApi
  imports CommonClient
begin

text \<open>
  The interface of applications (src/MobiCoreDriverLib/ClientLib/Contrib/mc_client_api.cpp): it checks
  arguments, turns error numbers back into result codes, and notes the memory it hands out.
  Handles of sessions are \<open>None\<close> for a null pointer.
\<close>

subsection \<open>The memory handed out\<close>

text \<open>The array with its capacity; \<open>ap_realloc\<close> are the results of the calls of \<open>realloc\<close> to come.\<close>

record 's api =
  ap_common :: "'s common"
  wsms :: "(addr \<times> u32) list"
  wsms_capacity :: nat
  ap_realloc :: "bool list"

definition wsms_add :: "addr \<Rightarrow> u32 \<Rightarrow> 's api \<Rightarrow> bool \<times> 's api" where
  "wsms_add wsm len a =
     (let (ok, a1) = (if length (wsms a) = wsms_capacity a then
            (let ok = (case ap_realloc a of [] \<Rightarrow> True | b # _ \<Rightarrow> b); a1 = a\<lparr>ap_realloc := tl (ap_realloc a)\<rparr>
             in (ok, if ok then a1\<lparr>wsms_capacity := (if wsms_capacity a = 0 then 16 else 2 * wsms_capacity a)\<rparr> else a1))
          else (True, a))
      in (ok, if ok then a1\<lparr>wsms := wsms a1 @ [(wsm, len)]\<rparr> else a1))"

fun wsms_find :: "addr \<Rightarrow> (addr \<times> u32) list \<Rightarrow> nat" where
  "wsms_find wsm [] = 0"
| "wsms_find wsm (w # ws) = (if fst w = wsm then 0 else Suc (wsms_find wsm ws))"

definition wsms_remove :: "addr \<Rightarrow> 's api \<Rightarrow> bool \<times> 's api" where
  "wsms_remove wsm a =
     (let i = wsms_find wsm (wsms a)
      in if i = length (wsms a) then (False, a)
         else (True, a\<lparr>wsms := take (length (wsms a) - 1) ((wsms a)[i := wsms a ! (length (wsms a) - 1)])\<rparr>))"

definition wsms_len :: "addr \<Rightarrow> 's api \<Rightarrow> u32" where
  "wsms_len wsm a = (case find (\<lambda>w. fst w = wsm) (wsms a) of None \<Rightarrow> 0 | Some w \<Rightarrow> snd w)"

definition wsms_removeLast :: "'s api \<Rightarrow> addr \<times> 's api" where
  "wsms_removeLast a = (if length (wsms a) > 0 then (fst (last (wsms a)), a\<lparr>wsms := butlast (wsms a)\<rparr>) else (0, a))"

subsection \<open>Result codes\<close>

definition isValidDevice :: "u32 \<Rightarrow> bool" where "isValidDevice deviceId \<longleftrightarrow> deviceId = 0"

definition convert_syscall_error :: "errno option \<Rightarrow> u32" where
  "convert_syscall_error ret = (case ret of None \<Rightarrow> MC_DRV_OK
     | Some e \<Rightarrow> (case e of
          ENOMSG \<Rightarrow> 1 | EBADMSG \<Rightarrow> 2 | ENOSPC \<Rightarrow> 4 | EHOSTDOWN \<Rightarrow> 5 | ENODEV \<Rightarrow> 7 | ENXIO \<Rightarrow> 8 | EPERM \<Rightarrow> 9 | EBADE \<Rightarrow> 10
        | ETIME \<Rightarrow> 11 | ENOMEM \<Rightarrow> 12 | EUCLEAN \<Rightarrow> 13 | ENOTEMPTY \<Rightarrow> 14 | EHOSTUNREACH \<Rightarrow> 15 | ENOENT \<Rightarrow> 16 | EINVAL \<Rightarrow> 17
        | EPROTO \<Rightarrow> 18 | EADDRINUSE \<Rightarrow> 19 | EADDRNOTAVAIL \<Rightarrow> 20 | ECOMM \<Rightarrow> 21 | EUNATCH \<Rightarrow> 22 | EBADF \<Rightarrow> 33 | EINTR \<Rightarrow> 35
        | EKEYREJECTED \<Rightarrow> 25 | _ \<Rightarrow> MC_DRV_ERR_UNKNOWN))"

text \<open>A result that is neither 0 nor -1 is not looked up.\<close>

definition convert_other :: "errno + u32 \<Rightarrow> u32" where
  "convert_other ret = (case ret of Inl e \<Rightarrow> convert_syscall_error (Some e) | Inr r \<Rightarrow> if r = 0 then MC_DRV_OK else MC_DRV_ERR_UNKNOWN)"

definition legacy :: "u32 \<Rightarrow> u32 \<Rightarrow> u32" where
  "legacy other r = (if r = MC_DRV_ERR_UNKNOWN then other else r)"

subsection \<open>Calls on sessions\<close>

record mcSession =
  ms_sessionId :: u32
  ms_deviceId :: u32

definition in_common :: "('s common \<Rightarrow> 'a \<times> 's common) \<Rightarrow> 's api \<Rightarrow> 'a \<times> 's api" where
  "in_common f a = (case f (ap_common a) of (x, c) \<Rightarrow> (x, a\<lparr>ap_common := c\<rparr>))"

text \<open>The checks every call on a session begins with.\<close>

definition session_error :: "mcSession option \<Rightarrow> u32" where
  "session_error s = (case s of None \<Rightarrow> MC_DRV_ERR_INVALID_PARAMETER
     | Some h \<Rightarrow> if \<not> isValidDevice (ms_deviceId h) then MC_DRV_ERR_UNKNOWN_DEVICE else MC_DRV_OK)"

definition with_handle :: "mcSession option \<Rightarrow> (mcSession \<Rightarrow> 's api \<Rightarrow> u32 \<times> 's api) \<Rightarrow> 's api \<Rightarrow> u32 \<times> 's api" where
  "with_handle s f a = (if session_error s \<noteq> MC_DRV_OK then (session_error s, a) else f (the s) a)"

text \<open>The handle afterwards comes with the result.\<close>

definition mcOpenSession_api ::
    "(lower \<Rightarrow> 's iclient) \<Rightarrow> mcSession option \<Rightarrow> bytes option \<Rightarrow> addr \<Rightarrow> u32 \<Rightarrow> 's api \<Rightarrow> (u32 \<times> mcSession option) \<times> 's api" where
  "mcOpenSession_api lo s uuid tci len a =
     (if session_error s \<noteq> MC_DRV_OK then ((session_error s, s), a)
      else case uuid of None \<Rightarrow> ((MC_DRV_ERR_INVALID_PARAMETER, s), a)
        | Some u \<Rightarrow>
          (case in_common (cc_openSession lo \<lparr>se_uuid = u, se_is_gp_uuid = False, se_tci = tci, se_tcilen = len, se_login_type = LOGIN_PUBLIC, se_login_data = None\<rparr>) a of
             ((ret, sid), a1) \<Rightarrow>
               (case convert_syscall_error ret of r \<Rightarrow>
                  ((legacy MC_DRV_ERR_INVALID_PARAMETER r,
                    if r = MC_DRV_OK then map_option (\<lambda>h. h\<lparr>ms_sessionId := (case sid of None \<Rightarrow> 0 | Some i \<Rightarrow> i)\<rparr>) s else s), a1))))"

definition mcOpenTrustlet_api ::
    "(lower \<Rightarrow> 's iclient) \<Rightarrow> mcSession option \<Rightarrow> u32 \<Rightarrow> bytes option \<Rightarrow> addr \<Rightarrow> u32 \<Rightarrow> 's api \<Rightarrow> (u32 \<times> mcSession option) \<times> 's api" where
  "mcOpenTrustlet_api lo s spid trustlet tci len a =
     (if session_error s \<noteq> MC_DRV_OK then ((session_error s, s), a)
      else case in_common (cc_openTrustlet lo \<lparr>tr_spid = spid, tr_buffer = trustlet, tr_tci = tci, tr_tcilen = len\<rparr>) a of
        ((ret, sid), a1) \<Rightarrow>
          (case convert_syscall_error ret of r \<Rightarrow>
             ((legacy MC_DRV_ERR_INVALID_PARAMETER r,
               if r = MC_DRV_OK then map_option (\<lambda>h. h\<lparr>ms_sessionId := (case sid of None \<Rightarrow> 0 | Some i \<Rightarrow> i)\<rparr>) s else s), a1)))"

definition mcCloseSession_api :: "(lower \<Rightarrow> 's iclient) \<Rightarrow> mcSession option \<Rightarrow> 's api \<Rightarrow> u32 \<times> 's api" where
  "mcCloseSession_api lo s = with_handle s (\<lambda>h a. case in_common (cc_closeSession lo (ms_sessionId h)) a of (ret, a1) \<Rightarrow>
     (convert_syscall_error ret, a1))"

definition mcNotify_api :: "(lower \<Rightarrow> 's iclient) \<Rightarrow> mcSession option \<Rightarrow> 's api \<Rightarrow> u32 \<times> 's api" where
  "mcNotify_api lo s = with_handle s (\<lambda>h a. case in_common (cc_notify lo (ms_sessionId h)) a of (ret, a1) \<Rightarrow>
     (convert_syscall_error ret, a1))"

text \<open>The loop that waits again after signals need not end.\<close>

partial_function (option) wait_again :: "(lower \<Rightarrow> 's iclient) \<Rightarrow> u32 \<Rightarrow> int \<Rightarrow> 's common \<Rightarrow> (u32 \<times> 's common) option" where
  "wait_again lo sid timeout c = (case cc_waitNotification lo sid timeout c of None \<Rightarrow> None
     | Some (ret, c1) \<Rightarrow>
       if timeout = -1 \<and> convert_syscall_error ret = MC_DRV_ERR_INTERRUPTED_BY_SIGNAL then wait_again lo sid timeout c1
       else Some (convert_syscall_error ret, c1))"

definition mcWaitNotification_api :: "(lower \<Rightarrow> 's iclient) \<Rightarrow> mcSession option \<Rightarrow> int \<Rightarrow> 's api \<Rightarrow> (u32 \<times> 's api) option" where
  "mcWaitNotification_api lo s timeout a =
     (if session_error s \<noteq> MC_DRV_OK then Some (session_error s, a)
      else map_option (\<lambda>(r, c). (r, a\<lparr>ap_common := c\<rparr>)) (wait_again lo (ms_sessionId (the s)) timeout (ap_common a)))"

definition mcGetSessionErrorCode_api :: "(lower \<Rightarrow> 's iclient) \<Rightarrow> mcSession option \<Rightarrow> bool \<Rightarrow> 's api \<Rightarrow> (u32 \<times> u32 option) \<times> 's api" where
  "mcGetSessionErrorCode_api lo s given a =
     (if session_error s \<noteq> MC_DRV_OK then ((session_error s, None), a)
      else if \<not> given then ((MC_DRV_ERR_INVALID_PARAMETER, None), a)
      else case in_common (cc_getError lo (ms_sessionId (the s))) a of ((ret, v), a1) \<Rightarrow>
        ((convert_syscall_error ret, if convert_syscall_error ret = MC_DRV_OK then v else None), a1))"

text \<open>One buffer in the array of four.\<close>

definition one_buffer :: "mc_buffer \<Rightarrow> (nat \<Rightarrow> mc_buffer) \<Rightarrow> mc_buffer list" where
  "one_buffer b junk = b # map (\<lambda>i. no_buffer (junk i)) [1..<MC_MAP_MAX]"

abbreviation (input) MC_IO_MAP_INPUT_OUTPUT :: u32 where "MC_IO_MAP_INPUT_OUTPUT \<equiv> 3"

text \<open>The array of buffers is a local variable: what is not written is \<open>junk\<close>.\<close>

definition mcMap_api ::
    "(lower \<Rightarrow> 's iclient) \<Rightarrow> (nat \<Rightarrow> mc_buffer) \<Rightarrow> mcSession option \<Rightarrow> addr \<Rightarrow> u32 \<Rightarrow> bool \<Rightarrow> 's api \<Rightarrow> (u32 \<times> bulkMap option) \<times> 's api" where
  "mcMap_api lo junk s buf bufLen given a =
     (if session_error s \<noteq> MC_DRV_OK then ((session_error s, None), a)
      else if \<not> given then ((MC_DRV_ERR_INVALID_PARAMETER, None), a)
      else case in_common (cc_map lo (ms_sessionId (the s)) (one_buffer
          \<lparr>mb_va = buf, mb_len = bufLen, mb_sva = mb_sva (junk 0), mb_flags = MC_IO_MAP_INPUT_OUTPUT\<rparr> junk)) a of
        ((ret, bufs), a1) \<Rightarrow>
          (case convert_syscall_error ret of r \<Rightarrow>
             ((legacy MC_DRV_ERR_BULK_MAPPING r,
               if r = MC_DRV_OK then Some \<lparr>sVirtualAddr = ucast (mb_sva (bufs ! 0)), sVirtualLen = mb_len (bufs ! 0)\<rparr> else None), a1)))"

definition mcUnmap_api ::
    "(lower \<Rightarrow> 's iclient) \<Rightarrow> (nat \<Rightarrow> mc_buffer) \<Rightarrow> mcSession option \<Rightarrow> addr \<Rightarrow> bulkMap option \<Rightarrow> 's api \<Rightarrow> u32 \<times> 's api" where
  "mcUnmap_api lo junk s buf info a =
     (if session_error s \<noteq> MC_DRV_OK then (session_error s, a)
      else case info of None \<Rightarrow> (MC_DRV_ERR_INVALID_PARAMETER, a)
        | Some mi \<Rightarrow>
          (case in_common (cc_unmap lo (ms_sessionId (the s)) (one_buffer
              \<lparr>mb_va = buf, mb_len = sVirtualLen mi, mb_sva = ucast (sVirtualAddr mi), mb_flags = mb_flags (junk 0)\<rparr> junk)) a of
            (ret, a1) \<Rightarrow> (legacy MC_DRV_ERR_BULK_UNMAPPING (convert_syscall_error ret), a1)))"

subsection \<open>Devices and memory\<close>

text \<open>Two numbers stand for devices that force one of the lower layers, for tests.\<close>

definition mcOpenDevice_api :: "(lower \<Rightarrow> 's iclient) \<Rightarrow> u32 \<Rightarrow> 's api \<Rightarrow> u32 \<times> 's api" where
  "mcOpenDevice_api lo deviceId a =
     (if \<not> isValidDevice deviceId \<and> deviceId \<noteq> 0x44525652 \<and> deviceId \<noteq> 0x50525859 then (MC_DRV_ERR_UNKNOWN_DEVICE, a)
      else
        let c = (if deviceId = 0x44525652 then cc_setOpenMode Open_driver (ap_common a)
                 else if deviceId = 0x50525859 then cc_setOpenMode Open_proxy (ap_common a) else ap_common a)
        in case cc_open lo c of (ret, c1) \<Rightarrow> (convert_syscall_error ret, a\<lparr>ap_common := c1\<rparr>))"

definition mcMallocWsm_api :: "(lower \<Rightarrow> 's iclient) \<Rightarrow> u32 \<Rightarrow> u32 \<Rightarrow> bool \<Rightarrow> 's api \<Rightarrow> (u32 \<times> addr option) \<times> 's api" where
  "mcMallocWsm_api lo deviceId len given a =
     (if \<not> isValidDevice deviceId then ((MC_DRV_ERR_UNKNOWN_DEVICE, None), a)
      else if \<not> cc_isOpen (ap_common a) then ((MC_DRV_ERR_DAEMON_DEVICE_NOT_OPEN, None), a)
      else if \<not> given then ((MC_DRV_ERR_INVALID_PARAMETER, None), a)
      else case in_common (cc_malloc lo len) a of
          ((Some e, _), a1) \<Rightarrow> ((convert_syscall_error (Some e), None), a1)
        | ((None, wsm), a1) \<Rightarrow> ((MC_DRV_OK, wsm), snd (wsms_add (case wsm of None \<Rightarrow> 0 | Some w \<Rightarrow> w) len a1)))"

definition mcFreeWsm_api :: "(lower \<Rightarrow> 's iclient) \<Rightarrow> u32 \<Rightarrow> addr \<Rightarrow> 's api \<Rightarrow> u32 \<times> 's api" where
  "mcFreeWsm_api lo deviceId wsm a =
     (if \<not> isValidDevice deviceId then (MC_DRV_ERR_UNKNOWN_DEVICE, a)
      else if \<not> cc_isOpen (ap_common a) then (MC_DRV_ERR_DAEMON_DEVICE_NOT_OPEN, a)
      else if wsms_len wsm a = 0 then (MC_DRV_ERR_INVALID_PARAMETER, a)
      else case in_common (cc_free lo wsm (wsms_len wsm a)) a of (ret, a1) \<Rightarrow>
        (convert_syscall_error ret, if ret = None then snd (wsms_remove wsm a1) else a1))"

lemma wsms_remove_length [simp]: "length (wsms (snd (wsms_remove wsm a))) \<le> length (wsms a)"
  by (simp add: wsms_remove_def Let_def)

lemma in_common_wsms: "in_common f a = (x, a1) \<Longrightarrow> wsms a1 = wsms a"
  by (auto simp: in_common_def split: prod.splits)

lemma mcFreeWsm_length: "length (wsms (snd (mcFreeWsm_api lo deviceId wsm a))) \<le> length (wsms a)"
proof -
  obtain ret a1 where f: "in_common (cc_free lo wsm (wsms_len wsm a)) a = (ret, a1)" by fastforce
  then have "length (wsms (snd (wsms_remove wsm a1))) \<le> length (wsms a)" using in_common_wsms [OF f] wsms_remove_length [of wsm a1] by simp
  then show ?thesis using in_common_wsms [OF f] by (simp add: mcFreeWsm_api_def f)
qed

text \<open>The loop that frees what is left takes an element off the array before it frees it.\<close>

function free_remaining :: "(lower \<Rightarrow> 's iclient) \<Rightarrow> u32 \<Rightarrow> 's api \<Rightarrow> 's api" where
  "free_remaining lo deviceId a = (case wsms_removeLast a of (wsm, a1) \<Rightarrow>
     if wsm = 0 then a1 else free_remaining lo deviceId (snd (mcFreeWsm_api lo deviceId wsm a1)))"
  by pat_completeness auto
termination
proof (relation "measure (\<lambda>(_, _, a). length (wsms a))", goal_cases)
  case (2 lo deviceId a wsm a1)
  then have "length (wsms a1) < length (wsms a)" by (auto simp: wsms_removeLast_def split: if_splits)
  then show ?case using mcFreeWsm_length [of lo deviceId wsm a1] by simp
qed simp

declare free_remaining.simps [simp del]

definition mcCloseDevice_api :: "(lower \<Rightarrow> 's iclient) \<Rightarrow> u32 \<Rightarrow> 's api \<Rightarrow> (u32 \<times> 's api) option" where
  "mcCloseDevice_api lo deviceId a =
     (if \<not> isValidDevice deviceId then Some (MC_DRV_ERR_UNKNOWN_DEVICE, a)
      else case cc_closeCheck (ap_common a) of
          (None, c) \<Rightarrow> Some (MC_DRV_OK, a\<lparr>ap_common := c\<rparr>)
        | (Some _, c) \<Rightarrow> (case cc_hasOpenSessions lo c of None \<Rightarrow> None
            | Some (ret, c1) \<Rightarrow>
              if convert_syscall_error ret \<noteq> MC_DRV_OK then Some (convert_syscall_error ret, a\<lparr>ap_common := c1\<rparr>)
              else (case free_remaining lo deviceId (a\<lparr>ap_common := c1\<rparr>) of a2 \<Rightarrow>
                Some (MC_DRV_OK, a2\<lparr>ap_common := snd (cc_close lo (ap_common a2))\<rparr>))))"

definition mcGetMobiCoreVersion_api :: "(lower \<Rightarrow> 's iclient) \<Rightarrow> u32 \<Rightarrow> bool \<Rightarrow> 's api \<Rightarrow> (u32 \<times> bytes option) \<times> 's api" where
  "mcGetMobiCoreVersion_api lo deviceId given a =
     (if \<not> isValidDevice deviceId then ((MC_DRV_ERR_UNKNOWN_DEVICE, None), a)
      else if \<not> given then ((MC_DRV_ERR_INVALID_PARAMETER, None), a)
      else case in_common (cc_getVersion lo) a of ((ret, v), a1) \<Rightarrow>
        ((convert_other ret, if ret = Inr 0 then v else None), a1))"

end
