(* ===== verification/CommonFacts.thy ===== *)
theory CommonFacts
  imports CommonClient ClientFacts
begin

text \<open>
  Properties of the client that all interfaces share: the driver client always has a device when it is used, the count of
  openings says whether there is a client, and the lower layer is closed by the last closing.
\<close>

subsection \<open>Error numbers\<close>

lemma set_errno_None [simp]: "set_errno_from_mcresult r = None \<longleftrightarrow> r = 0"
proof (cases "r \<le> 39")
  case True
  then have "unat r \<in> set [0..<40]" by (simp add: word_le_nat_alt)
  then show ?thesis using True unat_eq_zero [of r]
    by (auto simp: set_errno_from_mcresult_def mcresult_to_errno_def upt_rec [of _ 40] simp del: unat_eq_zero)
next
  case False
  then show ?thesis by (auto simp: set_errno_from_mcresult_def)
qed

lemma set_errno_zero [simp]: "set_errno_from_mcresult 0 = None"
  by simp

subsection \<open>The device of the driver client\<close>

text \<open>No call of the library takes a device away.\<close>

definition has_device :: "'n client \<Rightarrow> bool" where "has_device cl \<longleftrightarrow> cl_device cl \<noteq> None"

lemma has_same: "same_client cl cl1 \<Longrightarrow> has_device cl1 = has_device cl"
  by (simp add: has_device_def same_client_def)

lemma has_change [simp]: "has_device (change_device f cl) = has_device cl"
  by (simp add: has_device_def change_device_def)

lemma has_set [simp]: "has_device (cl\<lparr>cl_device := Some dv\<rparr>)" "has_device (cl\<lparr>cl_kmod := k\<rparr>) = has_device cl" "has_device (cl\<lparr>cl_net := n\<rparr>) = has_device cl"
  by (simp_all add: has_device_def)

lemma has_invalid [simp]: "has_device (snd (invalid_if_dead (r, cl))) = has_device cl"
  by (simp add: invalid_if_dead_def)

lemmas has_lib = same_with_net [THEN has_same] same_recv [THEN has_same] same_request [THEN has_same] same_open [THEN has_same]
  same_send [THEN has_same] same_result [THEN has_same] same_connect [THEN has_same]

lemma has_dead [simp]: "has_device (snd (invalid_if_dead rc)) = has_device (snd rc)"
  by (cases rc) simp

lemma has_closed [simp]: "has_device (close_socket so c cl) = has_device cl"
  by (simp add: close_socket_def)

lemma has_open_device: "mcOpenDevice_lib so cl = (r, cl1) \<Longrightarrow> has_device cl \<or> r = 0 \<Longrightarrow> has_device cl1"
  by (auto simp: mcOpenDevice_lib_def split: prod.splits option.splits if_splits dest!: has_lib)

lemma has_idle: "device_idle so dv cl = (r, cl1) \<Longrightarrow> has_device cl1 = has_device cl"
  by (auto simp: device_idle_def split: prod.splits if_splits dest!: has_lib)

lemma has_answer: "open_answer so c b cl = (r, cl1) \<Longrightarrow> has_device cl1 = has_device cl"
  by (auto simp: open_answer_def Let_def split: prod.splits if_splits sum.splits dest!: has_lib)

lemma has_map_tci: "map_tci tci len cl = (r, cl1) \<Longrightarrow> has_device cl1 = has_device cl"
  by (auto simp: map_tci_def split: prod.splits sum.splits)

lemma has_tci: "session_tci dv tci len cl = (r, cl1) \<Longrightarrow> has_device cl1 = has_device cl"
  "trustlet_tci dv tci len cl = (r, cl1) \<Longrightarrow> has_device cl1 = has_device cl"
  by (auto simp: session_tci_def trustlet_tci_def split: option.splits if_splits dest: has_map_tci)

lemma has_open_request: "open_request so dv msgs (q, cl) = (r, cl1) \<Longrightarrow> has_device cl1 = has_device cl"
  by (auto simp: open_request_def split: prod.splits if_splits sum.splits dest!: has_lib has_answer)

lemma has_open_uuid: "open_uuid cmd so uuid tci len cl = (r, cl1) \<Longrightarrow> has_device cl1 = has_device cl"
proof -
  assume a: "open_uuid cmd so uuid tci len cl = (r, cl1)"
  have "has_device (snd (open_request so dv msgs (session_tci dv tci len cl))) = has_device cl" for dv msgs
    using has_open_request has_tci(1) by (metis prod.collapse)
  then show ?thesis using a by (auto simp: open_uuid_def split: option.splits if_splits) (metis snd_conv)+
qed

lemma has_open_trustlet: "mcOpenTrustlet_lib so spid t tci len cl = (r, cl1) \<Longrightarrow> has_device cl1 = has_device cl"
proof -
  assume a: "mcOpenTrustlet_lib so spid t tci len cl = (r, cl1)"
  have "has_device (snd (open_request so dv msgs (trustlet_tci dv tci len cl))) = has_device cl" for dv msgs
    using has_open_request has_tci(2) by (metis prod.collapse)
  then show ?thesis using a by (auto simp: mcOpenTrustlet_lib_def split: option.splits if_splits) (metis snd_conv)+
qed

lemma has_read_notifications:
  assumes "read_notifications so sid c timeout m cl = Some y" "has_device cl"
  shows "has_device (snd y)"
  using assms
proof (induction rule: read_notifications_induct)
  case (loop rn so sid c timeout m cl y)
  obtain x cl1 where w: "with_net (so_read so c 8 timeout) cl = (x, cl1)" by fastforce
  have ok: "has_device cl1" using has_lib(1) [OF w] loop.prems by simp
  show ?case
  proof (cases "\<exists>t m1. rn so sid c t m1 cl1 = Some y")
    case True
    then show ?thesis using loop.IH ok by blast
  next
    case False
    then have "\<exists>f. snd y \<in> {cl1, change_device f cl1}" using loop.hyps w by (auto split: if_splits option.splits)
    then show ?thesis using ok by auto
  qed
qed

lemma has_wait: "mcWaitNotification_lib so sid timeout cl = Some (r, cl1) \<Longrightarrow> has_device cl \<Longrightarrow> has_device cl1"
  by (auto simp: mcWaitNotification_lib_def split: option.splits dest: has_read_notifications)

lemma has_close: "mcCloseDevice_lib so cl = (r, cl1) \<Longrightarrow> has_device cl1 = has_device cl"
  by (auto simp: mcCloseDevice_lib_def split: option.splits prod.splits if_splits dest!: has_lib has_idle)

lemma has_open_sessions: "mcDeviceHasOpenSessions_lib so cl = (r, cl1) \<Longrightarrow> has_device cl1 = has_device cl"
  by (auto simp: mcDeviceHasOpenSessions_lib_def split: option.splits dest: has_idle)

lemma has_close_session: "has_device cl \<Longrightarrow> has_device (snd (mcCloseSession_lib so sid cl))"
  by (auto simp: mcCloseSession_lib_def with_session_def split: option.splits prod.splits if_splits sum.splits dest!: has_lib)

lemma has_notify: "has_device cl \<Longrightarrow> has_device (snd (mcNotify_lib so sid cl))"
  by (auto simp: mcNotify_lib_def with_session_def split: option.splits prod.splits if_splits dest!: has_lib)

lemma has_malloc: "has_device cl \<Longrightarrow> has_device (snd (mcMallocWsm_lib len given cl))"
  by (auto simp: mcMallocWsm_lib_def split: option.splits prod.splits)

lemma has_free: "has_device cl \<Longrightarrow> has_device (snd (mcFreeWsm_lib wsm cl))"
  by (auto simp: mcFreeWsm_lib_def split: option.splits prod.splits)

lemma has_map: "has_device cl \<Longrightarrow> has_device (snd (mcMap_lib so sid buf len given cl))"
  by (auto simp: mcMap_lib_def Let_def split: option.splits prod.splits if_splits sum.splits dest!: has_lib)

lemma has_unmap: "has_device cl \<Longrightarrow> has_device (snd (mcUnmap_lib so sid buf info cl))"
  by (auto simp: mcUnmap_lib_def Let_def split: option.splits prod.splits if_splits sum.splits dest!: has_lib)

lemma has_version: "has_device cl \<Longrightarrow> has_device (snd (mcGetMobiCoreVersion_lib so given cl))"
  by (auto simp: mcGetMobiCoreVersion_lib_def split: option.splits prod.splits if_splits sum.splits dest!: has_lib)

subsection \<open>The invariant of the common client\<close>

text \<open>There is a client exactly when the count is not 0, and the driver client in use has a device.\<close>

definition common_ok :: "('n driverClient \<times> 'p) common \<Rightarrow> bool" where
  "common_ok c \<longleftrightarrow> (cc_client c = None \<longleftrightarrow> open_count c = 0) \<and>
     (cc_client c = Some Lower_driver \<longrightarrow> has_device (dc_client (fst (cc_lower c))))"

datatype common_call = C_open | C_close | C_close_check | C_set_mode openMode | C_has_sessions | C_open_session mc_uuid_session | C_open_trustlet mc_trustlet
  | C_close_session u32 | C_notify u32 | C_wait u32 int | C_malloc u32 | C_free addr u32 | C_map u32 "mc_buffer list"
  | C_unmap u32 "mc_buffer list" | C_get_error u32 | C_get_version | C_cancel u32 "addr \<Rightarrow> tci option"

fun call_common :: "(lower \<Rightarrow> 's iclient) \<Rightarrow> common_call \<Rightarrow> 's common \<Rightarrow> 's common option" where
  "call_common lo C_open c = Some (snd (cc_open lo c))"
| "call_common lo C_close c = Some (snd (cc_close lo c))"
| "call_common lo C_close_check c = Some (snd (cc_closeCheck c))"
| "call_common lo (C_set_mode m) c = Some (cc_setOpenMode m c)"
| "call_common lo C_has_sessions c = map_option snd (cc_hasOpenSessions lo c)"
| "call_common lo (C_open_session se) c = Some (snd (cc_openSession lo se c))"
| "call_common lo (C_open_trustlet tr) c = Some (snd (cc_openTrustlet lo tr c))"
| "call_common lo (C_close_session sid) c = Some (snd (cc_closeSession lo sid c))"
| "call_common lo (C_notify sid) c = Some (snd (cc_notify lo sid c))"
| "call_common lo (C_wait sid timeout) c = map_option snd (cc_waitNotification lo sid timeout c)"
| "call_common lo (C_malloc len) c = Some (snd (cc_malloc lo len c))"
| "call_common lo (C_free b len) c = Some (snd (cc_free lo b len c))"
| "call_common lo (C_map sid bufs) c = Some (snd (cc_map lo sid bufs c))"
| "call_common lo (C_unmap sid bufs) c = Some (snd (cc_unmap lo sid bufs c))"
| "call_common lo (C_get_error sid) c = Some (snd (cc_getError lo sid c))"
| "call_common lo C_get_version c = Some (snd (cc_getVersion lo c))"
| "call_common lo (C_cancel sid m) c = map_option (snd \<circ> snd) (cc_gpRequestCancellation lo sid m c)"

text \<open>What is reached with a number of calls, made one after the other.\<close>

inductive common_reach :: "(lower \<Rightarrow> 's iclient) \<Rightarrow> nat \<Rightarrow> 's common \<Rightarrow> bool" for lo where
  start: "common_reach lo 0 (CommonClient_init s)"
| step: "common_reach lo n c \<Longrightarrow> call_common lo k c = Some c1 \<Longrightarrow> common_reach lo (Suc n) c1"

text \<open>What the driver client does keeps its device, closing apart.\<close>

abbreviation (input) has :: "'n driverClient \<Rightarrow> bool" where "has d \<equiv> has_device (dc_client d)"

lemma has_in_library: "(\<And>cl. has_device cl \<Longrightarrow> has_device (snd (f cl))) \<Longrightarrow> has d \<Longrightarrow> has (snd (in_library f d))"
  by (auto simp: in_library_def split: prod.split) (metis snd_conv)

lemma has_dc_open: "has d \<Longrightarrow> has (snd (dc_open so d))" "dc_open so d = (None, d1) \<Longrightarrow> has d1"
  by (auto simp: dc_open_def in_library_def split: prod.splits dest: has_open_device)

lemma has_dc_hasOpenSessions: "has d \<Longrightarrow> \<exists>e d1. dc_hasOpenSessions so d = Some (e, d1) \<and> has d1"
proof -
  assume a: "has d"
  then obtain dv where dv: "cl_device (dc_client d) = Some dv" by (auto simp: has_device_def)
  have "has (snd (in_library (mcDeviceHasOpenSessions_lib so) d))" by (rule has_in_library [OF _ a]) (metis has_open_sessions prod.collapse)
  then show ?thesis using dv a by (cases "in_library (mcDeviceHasOpenSessions_lib so) d") (auto simp: dc_hasOpenSessions_def)
qed

lemma has_dc_openSession: "has d \<Longrightarrow> has (snd (dc_openSession so se d))"
  by (auto simp: dc_openSession_def mcOpenGPTA_lib_def mcOpenSession_lib_def split: prod.split option.split dest: has_open_uuid)

lemma has_dc_openTrustlet: "has d \<Longrightarrow> has (snd (dc_openTrustlet so tr d))"
  by (auto simp: dc_openTrustlet_def split: prod.split dest: has_open_trustlet)

lemma has_dc_closeSession: "has d \<Longrightarrow> has (snd (dc_closeSession so sid d))"
proof -
  assume a: "has d"
  have "has (snd (in_library (mcCloseSession_lib so sid) d))" by (rule has_in_library [OF _ a]) (rule has_close_session)
  then show ?thesis by (auto simp: dc_closeSession_def split: prod.split option.split)
qed

lemma has_dc_wait: "has d \<Longrightarrow> dc_waitNotification so sid timeout d = Some (e, d1) \<Longrightarrow> has d1"
  by (auto simp: dc_waitNotification_def split: option.splits prod.splits dest: has_wait)

lemma has_dc_malloc: "has d \<Longrightarrow> has (snd (dc_malloc so len d))"
  using has_malloc [of "dc_client d" len True] by (auto simp: dc_malloc_def split: prod.split)

lemma has_map_buffers: "has d \<Longrightarrow> has (snd (map_buffers so sid bs ret m d))"
proof (induction bs arbitrary: ret m d)
  case (Cons b bs)
  have m: "has_device (snd (mcMap_lib so sid (mb_va b) (mb_len b) True (dc_client d)))" by (rule has_map [OF Cons.prems])
  show ?case using Cons m by (auto simp: Let_def split: prod.splits option.splits) (metis Cons.IH driverClient.select_convs(1) driverClient.surjective driverClient.update_convs(1) snd_conv)+
qed simp

lemma has_unmap_buffers: "has d \<Longrightarrow> has (snd (unmap_buffers so sid bs ret m d))"
proof (induction bs arbitrary: ret m d)
  case (Cons b bs)
  obtain r cl where u: "mcUnmap_lib so sid (mb_va b) (Some \<lparr>sVirtualAddr = ucast (mb_sva b), sVirtualLen = mb_len b\<rparr>) (dc_client d) = (r, cl)"
    by fastforce
  have "has_device (snd (r, cl))" unfolding u [symmetric] by (rule has_unmap [OF Cons.prems])
  then have "has (d\<lparr>dc_client := cl\<rparr>)" by simp
  then show ?case using Cons u by (simp add: Let_def split: option.split)
qed simp

lemma has_dc_unmap: "has d \<Longrightarrow> has (snd (dc_unmap so sid bufs d))"
  using has_unmap_buffers [of d so sid bufs None False] by (auto simp: dc_unmap_def split: prod.split)

lemma has_dc_map: "has d \<Longrightarrow> has (snd (dc_map so sid bufs d))"
proof -
  assume a: "has d"
  obtain bufs1 ret m d1 where mb: "map_buffers so sid bufs None False d = ((bufs1, ret, m), d1)" by (metis surj_pair)
  have "has d1" using has_map_buffers [OF a, of so sid bufs None False] mb by simp
  then show ?thesis using mb has_dc_unmap [of d1 so sid bufs1] by (auto simp: dc_map_def split: prod.split option.split)
qed

lemma has_dc_notify: "has d \<Longrightarrow> has (snd (dc_notify so sid d))"
  unfolding dc_notify_def by (rule has_in_library [OF has_notify])

lemma has_dc_free: "has d \<Longrightarrow> has (snd (dc_free so b len d))"
  unfolding dc_free_def by (rule has_in_library [OF has_free])

lemma has_dc_version: "has d \<Longrightarrow> has (snd (dc_getVersion so d))"
  using has_version [of "dc_client d" so True] by (auto simp: dc_getVersion_def split: prod.split)

lemma has_dc_cancel: "has d \<Longrightarrow> dc_gpRequestCancellation so sid m d = Some (e, m1, d1) \<Longrightarrow> has d1"
  using has_dc_notify [of d so sid] by (auto simp: dc_gpRequestCancellation_def split: option.splits prod.splits if_splits)

lemmas has_dc = has_dc_openSession has_dc_openTrustlet has_dc_closeSession has_dc_malloc has_dc_map has_dc_unmap has_dc_notify has_dc_free has_dc_version

text \<open>A call that is passed on keeps the invariant.\<close>

lemmas lower_defs = lowers_def iclient_on_def driver_iclient_def on_part_def

lemma pass_on_ok:
  assumes "common_ok c" and "\<And>l t. has (fst t) \<Longrightarrow> has (fst (snd (f l t)))"
  shows "common_ok (snd (pass_on f x c))"
proof (cases "cc_client c")
  case (Some l)
  obtain y t where f: "f l (cc_lower c) = (y, t)" by (metis prod.collapse)
  have "cc_client c = Some Lower_driver \<Longrightarrow> has (fst t)" using assms(1) assms(2) [of "cc_lower c" l] f by (simp add: common_ok_def)
  then show ?thesis using assms(1) Some f by (simp add: pass_on_def common_ok_def)
qed (use assms(1) in \<open>simp add: pass_on_def\<close>)

lemma on_driver: "has (fst (snd (on_part fst (\<lambda>s t. (s, snd t)) f t))) = has (snd (f (fst t)))"
  by (simp add: on_part_def split: prod.split)

lemma on_proxy: "fst (snd (on_part snd (\<lambda>s t. (fst t, s)) f t)) = fst t"
  by (simp add: on_part_def split: prod.split)

lemma passed_ok:
  assumes "common_ok c"
  shows "common_ok (snd (cc_openSession (lowers so px) se c))" "common_ok (snd (cc_openTrustlet (lowers so px) tr c))"
    "common_ok (snd (cc_closeSession (lowers so px) sid c))" "common_ok (snd (cc_notify (lowers so px) sid c))"
    "common_ok (snd (cc_malloc (lowers so px) len c))" "common_ok (snd (cc_free (lowers so px) b len c))"
    "common_ok (snd (cc_map (lowers so px) sid bufs c))" "common_ok (snd (cc_unmap (lowers so px) sid bufs c))"
    "common_ok (snd (cc_getError (lowers so px) sid c))" "common_ok (snd (cc_getVersion (lowers so px) c))"
  unfolding cc_openSession_def cc_openTrustlet_def cc_closeSession_def cc_notify_def cc_malloc_def cc_free_def
    cc_map_def cc_unmap_def cc_getError_def cc_getVersion_def
  by (rule pass_on_ok [OF assms], simp add: lowers_def iclient_on_def driver_iclient_def on_driver on_proxy split: lower.split;
      auto simp: has_dc case_prod_unfold)+

lemma open_lower_ok:
  assumes "open_lower (lowers so px) c = (r, c1)"
  shows "open_count c1 = open_count c \<and> cc_client c1 = cc_client c \<and> (has (fst (cc_lower c)) \<or> r = Inr Lower_driver \<longrightarrow> has (fst (cc_lower c1)))"
proof -
  obtain e d1 where d: "dc_open so (fst (cc_lower c)) = (e, d1)" by fastforce
  have d1: "has (fst (cc_lower c)) \<or> e = None \<Longrightarrow> has d1" using has_dc_open(1) [of "fst (cc_lower c)" so] has_dc_open(2) [of so _ d1] d by auto
  show ?thesis using assms d d1
    by (auto simp: open_lower_def Let_def lower_defs split: if_splits prod.splits option.splits)
qed

lemma small_plus:
  assumes "unat (w :: u32) < 2 ^ 31"
  shows "unat (w + 1) = Suc (unat w)" "w + 1 \<noteq> 0"
proof -
  show u: "unat (w + 1) = Suc (unat w)" using assms by (simp add: unat_word_ariths)
  show "w + 1 \<noteq> 0" using u by (metis nat.distinct(1) unat_0)
qed

lemma sign_facts: "0 <s (1 :: u32)" "\<not> 1 <s (0 :: u32)"
  by (simp_all add: word_sless_alt)

lemma common_open_ok: "common_ok c \<Longrightarrow> unat (open_count c) < 2 ^ 31 \<Longrightarrow>
  common_ok (snd (cc_open (lowers so px) c)) \<and> unat (open_count (snd (cc_open (lowers so px) c))) \<le> Suc (unat (open_count c))"
proof -
  assume ok: "common_ok c" and small: "unat (open_count c) < 2 ^ 31"
  let ?c = "case cc_client c of None \<Rightarrow> c | Some l \<Rightarrow> if ic_isOpen (lowers so px l) (cc_lower c) then c else c\<lparr>open_count := 0\<rparr>"
  have c: "unat (open_count ?c) \<le> unat (open_count c)" "cc_client ?c = cc_client c" "cc_lower ?c = cc_lower c" "cc_client c = None \<Longrightarrow> open_count ?c = 0"
    "open_count ?c \<noteq> 0 \<Longrightarrow> cc_client c \<noteq> None"
    using ok by (auto simp: common_ok_def split: option.splits if_splits)
  obtain r c2 where r: "open_lower (lowers so px) ?c = (r, c2)" by fastforce
  note lo = open_lower_ok [OF r, unfolded c]
  show ?thesis
  proof (cases "open_count ?c = 0")
    case True
    then have o: "cc_open (lowers so px) c = (case r of Inr l \<Rightarrow> (None, c2\<lparr>cc_client := Some l, open_count := open_count c2 + 1\<rparr>)
      | Inl e \<Rightarrow> (Some e, if cc_client c2 \<noteq> None then c2\<lparr>open_count := open_count c2 + 1\<rparr> else c2))"
      using r by (simp add: cc_open_def Let_def split: sum.split)
    show ?thesis
    proof (cases r)
      case (Inl e)
      then show ?thesis using o lo ok True by (auto simp: common_ok_def)
    next
      case (Inr l)
      then show ?thesis using o lo True by (auto simp: common_ok_def)
    qed
  next
    case False
    then have "cc_open (lowers so px) c = (None, ?c\<lparr>open_count := open_count ?c + 1\<rparr>)" using c(2,5) by (simp add: cc_open_def Let_def)
    then show ?thesis using c ok small small_plus [of "open_count ?c"] False by (auto simp: common_ok_def)
  qed
qed

lemma fewer: "w \<noteq> 0 \<Longrightarrow> unat (w - 1 :: u32) \<le> unat w"
  by (simp add: unat_minus_one)

lemma common_close_ok: "common_ok c \<Longrightarrow> common_ok (snd (cc_close lo c)) \<and> unat (open_count (snd (cc_close lo c))) \<le> unat (open_count c)"
  by (auto simp: cc_close_def common_ok_def fewer split: option.splits prod.splits if_splits)

lemma common_check_ok: "common_ok c \<Longrightarrow> common_ok (snd (cc_closeCheck c)) \<and> unat (open_count (snd (cc_closeCheck c))) \<le> unat (open_count c)"
proof (cases "open_count c = 0")
  case True
  then show "common_ok c \<Longrightarrow> ?thesis" by (simp add: cc_closeCheck_def sign_facts)
next
  case False
  moreover have "1 <s w \<Longrightarrow> w - 1 \<noteq> (0 :: u32)" for w using signed.less_irrefl [of "1 :: u32"] by auto
  ultimately show "common_ok c \<Longrightarrow> ?thesis" by (auto simp: cc_closeCheck_def common_ok_def fewer)
qed

lemma has_sessions_returns:
  assumes "common_ok c" and "\<And>s. ic_hasOpenSessions px s \<noteq> None"
  shows "\<exists>e c1. cc_hasOpenSessions (lowers so px) c = Some (e, c1) \<and> common_ok c1"
proof (cases "cc_client c")
  case None
  then show ?thesis using assms(1) by (simp add: cc_hasOpenSessions_def)
next
  case (Some l)
  show ?thesis
  proof (cases l)
    case Lower_driver
    then obtain e d1 where "dc_hasOpenSessions so (fst (cc_lower c)) = Some (e, d1)" "has d1"
      using has_dc_hasOpenSessions [of "fst (cc_lower c)" so] assms(1) Some by (auto simp: common_ok_def)
    then show ?thesis using assms(1) Some Lower_driver by (simp add: cc_hasOpenSessions_def lower_defs common_ok_def)
  next
    case Lower_proxy
    obtain e s where "ic_hasOpenSessions px (snd (cc_lower c)) = Some (e, s)" using assms(2) [of "snd (cc_lower c)"] by auto
    then show ?thesis using assms(1) Some Lower_proxy by (simp add: cc_hasOpenSessions_def lower_defs common_ok_def)
  qed
qed

lemma common_wait_ok: "common_ok c \<Longrightarrow> cc_waitNotification (lowers so px) sid timeout c = Some (e, c1) \<Longrightarrow> common_ok c1"
  by (auto simp: cc_waitNotification_def lower_defs common_ok_def split: option.splits lower.splits dest: has_dc_wait)

lemma common_cancel_ok: "common_ok c \<Longrightarrow> cc_gpRequestCancellation (lowers so px) sid m c = Some (e, m1, c1) \<Longrightarrow> common_ok c1"
  by (auto simp: cc_gpRequestCancellation_def lower_defs common_ok_def split: option.splits lower.splits dest: has_dc_cancel)

lemma common_sessions_ok: "common_ok c \<Longrightarrow> cc_hasOpenSessions (lowers so px) c = Some (e, c1) \<Longrightarrow> common_ok c1"
  using has_dc_hasOpenSessions [of "fst (cc_lower c)" so]
  by (auto simp: cc_hasOpenSessions_def lower_defs common_ok_def split: option.splits lower.splits)

lemma common_mode_ok [simp]: "common_ok (cc_setOpenMode m c) = common_ok c"
  by (simp add: common_ok_def cc_setOpenMode_def)

lemma call_common_ok: "common_ok c \<Longrightarrow> unat (open_count c) < 2 ^ 31 \<Longrightarrow> call_common (lowers so px) k c = Some c1 \<Longrightarrow> common_ok c1"
  by (cases k) (auto simp: passed_ok common_open_ok common_close_ok common_check_ok dest: common_wait_ok common_cancel_ok common_sessions_ok)

text \<open>Only opening counts up.\<close>

lemma pass_on_count: "open_count (snd (pass_on f x c)) = open_count c"
  by (simp add: pass_on_def split: option.split prod.split)

lemmas passed_counts = pass_on_count [where x = "Some EBADF"] pass_on_count [where x = "(Some EBADF, z)" for z] pass_on_count [where x = "(Inl EBADF, z)" for z]

lemma call_common_count:
  assumes "common_ok c" and "unat (open_count c) < 2 ^ 31" and "call_common (lowers so px) k c = Some c1"
  shows "unat (open_count c1) \<le> Suc (unat (open_count c))"
proof (cases k)
  case C_open
  then show ?thesis using assms(3) common_open_ok [OF assms(1,2), of so px] by auto
next
  case C_close
  then show ?thesis using assms(3) common_close_ok [OF assms(1), of "lowers so px"] by auto
next
  case C_close_check
  then show ?thesis using assms(3) common_check_ok [OF assms(1)] by auto
qed (use assms(3) in \<open>auto simp: cc_openSession_def cc_openTrustlet_def cc_closeSession_def cc_notify_def cc_malloc_def cc_free_def cc_map_def cc_unmap_def
      cc_getError_def cc_getVersion_def pass_on_count cc_setOpenMode_def cc_hasOpenSessions_def cc_waitNotification_def cc_gpRequestCancellation_def
      split: option.splits\<close>)

lemma common_reach_ok: "common_reach (lowers so px) n c \<Longrightarrow> n < 2 ^ 31 \<Longrightarrow> common_ok c \<and> unat (open_count c) \<le> n"
proof (induction rule: common_reach.induct)
  case (start s)
  then show ?case by (simp add: common_ok_def CommonClient_init_def)
next
  case (step n c k c1)
  then have ok: "common_ok c" "unat (open_count c) \<le> n" "unat (open_count c) < 2 ^ 31" by simp_all
  then show ?case using call_common_ok [OF ok(1,3) step.hyps(2)] call_common_count [OF ok(1,3) step.hyps(2)] by simp
qed

text \<open>A number of 32 bits below the half is not negative.\<close>

lemma small_sint:
  assumes "unat (w :: u32) < 2 ^ 31"
  shows "sint w = int (unat w)"
proof -
  have "int (unat w) < int (2 ^ 31)" using assms by (rule of_nat_less_iff [THEN iffD2])
  then have "int (unat w) < 2 ^ 31" by (simp only: of_nat_power of_nat_numeral)
  then have "signed_take_bit 31 (int (unat w)) = int (unat w)" by (intro signed_take_bit_int_eq_self) linarith+
  then show ?thesis by (simp add: sint_uint)
qed

lemma positive:
  assumes "unat (w :: u32) < 2 ^ 31"
  shows "0 <s w \<longleftrightarrow> w \<noteq> 0"
proof -
  have "0 <s w \<longleftrightarrow> 0 < int (unat w)" unfolding word_sless_alt small_sint [OF assms] by simp
  also have "\<dots> \<longleftrightarrow> unat w \<noteq> 0" by linarith
  finally show ?thesis by (simp only: unat_eq_zero)
qed

subsection \<open>Properties\<close>

text \<open>C11. Whatever calls are made of the common client one after the other, fewer than 2 to the power of 31, in any order and with or without success, over a proxy client that answers whether it has open sessions: its count is
  never negative, it is open exactly when it has a client, and asking for open sessions, which uses the device of the driver client without looking whether
  there is one, always finds a device.\<close>

theorem common_client_sound:
  assumes "common_reach (lowers so px) n c" and "n < 2 ^ 31" and "\<And>s. ic_hasOpenSessions px s \<noteq> None"
  shows "0 \<le> sint (open_count c) \<and> (cc_isOpen c \<longleftrightarrow> cc_client c \<noteq> None) \<and> cc_hasOpenSessions (lowers so px) c \<noteq> None"
proof -
  have ok: "common_ok c" "unat (open_count c) < 2 ^ 31" using common_reach_ok [OF assms(1,2)] assms(2) by simp_all
  obtain e c1 where "cc_hasOpenSessions (lowers so px) c = Some (e, c1)" using has_sessions_returns [where px = px and so = so, OF ok(1) assms(3)] by blast
  moreover have "0 \<le> sint (open_count c)" unfolding small_sint [OF ok(2)] by simp
  ultimately show ?thesis using ok(1) by (simp add: common_ok_def cc_isOpen_def positive [OF ok(2)])
qed

text \<open>Openings while the lower layer is open, and closings before the last, only count.\<close>

lemma small_unat: "n < 2 ^ 31 \<Longrightarrow> unat (of_nat n :: u32) = n"
  by (simp add: unsigned_of_nat take_bit_nat_eq_self)

lemma small_zero: "n < 2 ^ 31 \<Longrightarrow> (of_nat n :: u32) = 0 \<longleftrightarrow> n = 0"
  using small_unat [of n] unat_eq_zero [of "of_nat n :: u32"] by simp

lemma small_one: "n < 2 ^ 31 \<Longrightarrow> (of_nat n :: u32) = 1 \<longleftrightarrow> n = 1"
  using small_unat [of n] small_unat [of 1] by (metis of_nat_1 numeral_One one_less_numeral_iff one_less_power semiring_norm(76) zero_less_numeral)

lemma more_openings:
  assumes "cc_client c = Some l" and "open_count c = of_nat n" and "0 < n" and "ic_isOpen (lo l) (cc_lower c)"
  shows "n + k < 2 ^ 31 \<Longrightarrow> ((\<lambda>c. snd (cc_open lo c)) ^^ k) c = c\<lparr>open_count := of_nat (n + k)\<rparr>"
proof (induction k)
  case 0
  then show ?case using assms(2) by simp
next
  case (Suc k)
  then have "(of_nat (n + k) :: u32) \<noteq> 0" using assms(3) small_zero [of "n + k"] by simp
  then show ?case using assms Suc by (simp add: cc_open_def Let_def ac_simps)
qed

lemma less_closings:
  assumes "cc_client c = Some l" and "open_count c = of_nat n" and "k < n" and "n < 2 ^ 31"
  shows "((\<lambda>c. snd (cc_close lo c)) ^^ k) c = c\<lparr>open_count := of_nat (n - k)\<rparr>"
  using assms(3)
proof (induction k)
  case 0
  then show ?case using assms(2) by simp
next
  case (Suc k)
  then have "1 < n - k" by simp
  then have "(of_nat (n - k) :: u32) \<noteq> 1" using small_one [of "n - k"] assms(4) by simp
  moreover have "(of_nat (n - k) :: u32) - 1 = of_nat (n - Suc k)" using Suc.prems of_nat_diff [of 1 "n - k", where ?'a = u32] by simp
  ultimately show ?case using Suc assms by (simp add: cc_close_def)
qed

text \<open>C22. The common client counts, as long as the count is below 2 to the power of 31: after some openings of an open client and all closings but one it is still open and the lower layer has
  not been touched; the last closing closes the lower layer, once.\<close>

theorem lower_closed_by_last:
  assumes "cc_client c = Some l" and "open_count c = of_nat n" and "0 < n" and "n + k < 2 ^ 31" and "ic_isOpen (lo l) (cc_lower c)"
    and "c1 = ((\<lambda>c. snd (cc_open lo c)) ^^ k) c" and "c2 = ((\<lambda>c. snd (cc_close lo c)) ^^ (n + k - 1)) c1"
  shows "cc_isOpen c2 \<and> cc_lower c2 = cc_lower c \<and>
    snd (cc_close lo c2) = c\<lparr>open_count := 0, cc_client := None, cc_lower := snd (ic_close (lo l) (cc_lower c))\<rparr>"
proof -
  have c1: "c1 = c\<lparr>open_count := of_nat (n + k)\<rparr>" unfolding assms(6) by (rule more_openings [where l = l]) (rule assms)+
  have "c2 = c1\<lparr>open_count := of_nat (n + k - (n + k - 1))\<rparr>"
    unfolding assms(7) by (rule less_closings [where l = l]) (use assms(1,3,4) in \<open>simp_all add: c1\<close>)
  then have "c2 = c\<lparr>open_count := 1\<rparr>" using c1 assms(3) by simp
  then show ?thesis using assms(1) by (simp add: cc_isOpen_def cc_close_def sign_facts split: prod.split)
qed

text \<open>An attempt to open that fails counts when there was a client before, although it says that it failed.\<close>

lemma failed_reopening_counts:
  assumes "cc_client c = Some l" and "\<not> ic_isOpen (lo l) (cc_lower c)" and "open_lower lo (c\<lparr>open_count := 0\<rparr>) = (Inl e, c1)"
    and "open_count c1 = 0" and "cc_client c1 = Some l"
  shows "cc_open lo c = (Some e, c1\<lparr>open_count := 1\<rparr>)"
  using assms by (simp add: cc_open_def Let_def)

text \<open>A proxy client that is never there, and the first opening of the driver client over scripted answers.\<close>

definition no_proxy :: "unit iclient" where
  "no_proxy = \<lparr>ic_open = \<lambda>s. (Some ENOENT, s), ic_close = \<lambda>s. (None, s), ic_isOpen = \<lambda>_. False, ic_hasOpenSessions = \<lambda>s. Some (None, s),
     ic_openSession = \<lambda>_ s. ((Some ENOENT, None), s), ic_openTrustlet = \<lambda>_ s. ((Some ENOENT, None), s),
     ic_closeSession = \<lambda>_ s. (Some ENXIO, s), ic_notify = \<lambda>_ s. (Some ENXIO, s), ic_waitNotification = \<lambda>_ _ s. Some (Some ENXIO, s),
     ic_malloc = \<lambda>_ s. ((Some ENOMEM, None), s), ic_free = \<lambda>_ _ s. (None, s), ic_map = \<lambda>_ bufs s. ((Some ENXIO, bufs), s),
     ic_unmap = \<lambda>_ _ s. (Some ENXIO, s), ic_getError = \<lambda>_ s. ((Some ENXIO, None), s), ic_getVersion = \<lambda>s. ((Inl EBADF, None), s),
     ic_gpRequestCancellation = \<lambda>_ m s. Some (Some ENXIO, m, s)\<rparr>"

definition fresh_common :: "receive_result list \<Rightarrow> ((nat \<times> receive_result list) driverClient \<times> unit) common" where
  "fresh_common rs = CommonClient_init (\<lparr>dc_client = new_client (device_answers @ rs), gp_sessions = []\<rparr>, ())"

definition opened_common :: "receive_result list \<Rightarrow> ((nat \<times> receive_result list) driverClient \<times> unit) common" where
  "opened_common rs = snd (cc_open (lowers scripted no_proxy) (fresh_common rs))"

lemma opened_common:
  "opened_common rs = \<lparr>open_count = 1, cc_client = Some Lower_driver, open_mode = Open_auto,
     cc_lower = (\<lparr>dc_client = with_device_client rs, gp_sessions = []\<rparr>, ())\<rparr>"
proof -
  have "cl_device (snd (mcOpenDevice_lib scripted (new_client (device_answers @ rs)))) \<noteq> None"
    using with_device_client(1) [of rs] by (simp add: with_device_client_def)
  have "fst (mcOpenDevice_lib scripted (new_client (device_answers @ rs))) = 0"
    by (simp add: mcOpenDevice_lib_def open_at_daemon_def getDaemonVersion_def version_2_ok Device_open_def CKMod_open_def CKMod_init_def script_simps)
  then obtain cl where "mcOpenDevice_lib scripted (new_client (device_answers @ rs)) = (0, cl)" by (metis prod.collapse)
  then show ?thesis
    by (simp add: opened_common_def fresh_common_def cc_open_def Let_def CommonClient_init_def open_lower_def lower_defs dc_open_def in_library_def with_device_client_def)
qed

lemma opened_common_reach: "common_reach (lowers scripted no_proxy) 1 (opened_common rs)"
  unfolding One_nat_def
proof (rule common_reach.step [of _ _ _ C_open])
  show "common_reach (lowers scripted no_proxy) 0 (fresh_common rs)" unfolding fresh_common_def by (rule common_reach.start)
qed (simp add: opened_common_def)

lemma common_client_sound_witness: "cc_isOpen (opened_common []) \<and> cc_hasOpenSessions (lowers scripted no_proxy) (opened_common []) \<noteq> None"
  using common_client_sound [OF opened_common_reach, of "[]"] by (simp add: no_proxy_def) (simp add: opened_common)

lemma lower_closed_by_last_witness:
  "cc_isOpen (snd (cc_close (lowers scripted no_proxy) (snd (cc_open (lowers scripted no_proxy) (opened_common []))))) \<and>
   cc_client (snd (cc_close (lowers scripted no_proxy) (snd (cc_close (lowers scripted no_proxy) (snd (cc_open (lowers scripted no_proxy) (opened_common []))))))) = None"
proof -
  have "ic_isOpen (lowers scripted no_proxy Lower_driver) (cc_lower (opened_common []))"
    using with_device_client(1) [of "[]"] by (simp add: opened_common lower_defs dc_isOpen_def Device_init_def)
  from lower_closed_by_last [where k = 1 and n = 1 and c = "opened_common []" and lo = "lowers scripted no_proxy" and l = Lower_driver, OF _ _ _ _ this refl refl] show ?thesis by (simp add: opened_common)
qed

end
