(* ===== verification/McApiFacts.thy ===== *)
theory McApiFacts
  imports McApi CommonFacts
begin

text \<open>
  Properties of the interface of applications and of the layers below it: which result codes survive the way
  through error numbers, that a single mapping is what the library does, and what closing a device does with memory.
\<close>

subsection \<open>Result codes\<close>

text \<open>C30. Most result codes of the library reach the application unchanged, although they pass through error numbers: exactly those of the
  list. All the others become the code for unknown errors, except one kind of failure of the kernel module, which becomes a wrong parameter.\<close>

theorem result_codes_survive:
  "convert_syscall_error (set_errno_from_mcresult r) =
     (if r \<in> {0, 1, 2, 4, 5, 6, 7, 8, 9, 10, 11, 12, 13, 14, 15, 16, 17, 18, 19, 20, 21, 22, 25, 33, 35} then r
      else if r = MAKE_MC_DRV_KMOD_WITH_ERRNO 14 then MC_DRV_ERR_INVALID_PARAMETER else MC_DRV_ERR_UNKNOWN)"
proof (cases "r \<le> 39")
  case True
  then have "unat r \<in> set [0..<40]" by (simp add: word_le_nat_alt)
  then have "\<exists>n\<in>set [0..<40]. r = of_nat n" by (intro bexI [of _ "unat r"]) simp_all
  then show ?thesis
    by (auto simp: set_errno_from_mcresult_def mcresult_to_errno_def convert_syscall_error_def MAKE_MC_DRV_KMOD_WITH_ERRNO_def upt_rec [of _ 40])
next
  case False
  then show ?thesis by (auto simp: set_errno_from_mcresult_def convert_syscall_error_def MAKE_MC_DRV_KMOD_WITH_ERRNO_def)
qed

subsection \<open>Closing the device\<close>

lemma len_absent: "wsm \<notin> fst ` set (wsms a) \<Longrightarrow> wsms_len wsm a = 0"
  by (auto simp: wsms_len_def find_Some_iff image_iff split: option.split)

text \<open>The loop that frees what is left only empties the array.\<close>

lemma free_remaining_empties:
  assumes "distinct (map fst (wsms a))" and "0 \<notin> fst ` set (wsms a)"
  shows "free_remaining lo deviceId a = a\<lparr>wsms := []\<rparr>"
  using assms
proof (induction "wsms a" arbitrary: a rule: rev_induct)
  case Nil
  then show ?case by (cases a) (simp add: free_remaining.simps wsms_removeLast_def)
next
  case (snoc w ws)
  let ?a = "a\<lparr>wsms := ws\<rparr>"
  have w: "wsms a = ws @ [w]" using snoc(2) by simp
  have r: "wsms_removeLast a = (fst w, ?a)" by (simp add: wsms_removeLast_def w)
  have "mcFreeWsm_api lo deviceId (fst w) ?a = (fst (mcFreeWsm_api lo deviceId (fst w) ?a), ?a)"
    using len_absent [of "fst w" ?a] snoc(3) by (auto simp: w mcFreeWsm_api_def)
  then have f: "snd (mcFreeWsm_api lo deviceId (fst w) ?a) = ?a" by (metis snd_conv)
  have "free_remaining lo deviceId ?a = ?a\<lparr>wsms := []\<rparr>" by (rule snoc(1)) (use snoc(3,4) in \<open>simp_all add: w\<close>)
  then show ?case using snoc(4) by (subst free_remaining.simps) (auto simp: r f w)
qed

text \<open>Closing the device is meant to free the memory that the application has not freed, but its loop makes not a single call to free: it forgets each piece before it
  asks for its length, and what has no length is not freed. What is left is what the lower client does when it is closed: the driver client frees
  its memory with its device; the pages the proxy client mapped stay.\<close>

lemma closing_calls_no_free:
  assumes "cc_client (ap_common a) = Some l" and "open_count (ap_common a) = 1"
    and "ic_hasOpenSessions (lo l) (cc_lower (ap_common a)) = Some (None, s1)" and "ic_close (lo l) s1 = (ret, s2)"
    and "distinct (map fst (wsms a))" and "0 \<notin> fst ` set (wsms a)"
  shows "mcCloseDevice_api lo 0 a = Some (MC_DRV_OK, a\<lparr>wsms := [], ap_common := (ap_common a)\<lparr>open_count := 0, cc_client := None, cc_lower := s2\<rparr>\<rparr>)"
proof -
  let ?a = "a\<lparr>ap_common := (ap_common a)\<lparr>cc_lower := s1\<rparr>\<rparr>"
  have "free_remaining lo 0 ?a = ?a\<lparr>wsms := []\<rparr>" by (rule free_remaining_empties) (use assms(5,6) in simp_all)
  then show ?thesis using assms(1-4)
    by (simp add: mcCloseDevice_api_def isValidDevice_def cc_closeCheck_def cc_hasOpenSessions_def convert_syscall_error_def cc_close_def)
qed

subsection \<open>Mapping one buffer\<close>

lemma kernel_error: "kmod_call c k = (Inl e, k1) \<Longrightarrow> e \<noteq> 0"
proof -
  assume a: "kmod_call c k = (Inl e, k1)"
  have b: "bit (MAKE_MC_DRV_KMOD_WITH_ERRNO x) 1" for x
    by (simp add: MAKE_MC_DRV_KMOD_WITH_ERRNO_def bit_simps)
  have "kmod_error k2 \<noteq> 0" for k2
  proof
    assume "kmod_error k2 = 0"
    then show False using b [of "kn_errno k2"] by (simp add: kmod_error_def)
  qed
  then show ?thesis using a by (auto simp: kmod_call_def split: if_splits prod.splits)
qed

lemma add_error: "addBulkBuf buf len s k = (Inl e, s1, k1) \<Longrightarrow> e \<noteq> 0"
  by (auto simp: addBulkBuf_def kmod_registerWsmL2_def Let_def split: if_splits prod.splits sum.splits dest: kernel_error)

lemma recv_error: "recv_from_daemon so c n cl = (Inl e, cl1) \<Longrightarrow> e \<noteq> 0"
  by (auto simp: recv_from_daemon_def split: prod.splits receive_result.splits if_splits)

text \<open>The library says what it mapped exactly when it succeeds.\<close>

lemma map_lib_info:
  assumes "mcMap_lib so sid buf len True cl = ((r, info), cl1)"
  shows "if r = 0 then \<exists>va. info = Some \<lparr>sVirtualAddr = va, sVirtualLen = len\<rparr> else info = None"
  using assms
  by (auto simp: mcMap_lib_def Let_def split: option.splits if_splits prod.splits sum.splits dest: add_error recv_error)

lemma map_nothing: "\<forall>b\<in>set bs. mb_va b = 0 \<Longrightarrow> map_buffers so sid bs ret m d = ((bs, ret, m), d)"
  by (induction bs) simp_all

lemma unmap_nothing: "\<forall>b\<in>set bs. mb_va b = 0 \<Longrightarrow> unmap_buffers so sid bs ret m d = ((ret, m), d)"
  by (induction bs) simp_all

lemma others_empty: "\<forall>b\<in>set (map (\<lambda>i. no_buffer (junk i)) is). mb_va b = 0"
  by (simp add: no_buffer_def)

lemma widened_back [simp]: "ucast (ucast va :: u64) = (va :: u32)"
  by (rule bit_word_eqI) (simp add: bit_simps)

lemma bulkMap_eta [simp]: "\<lparr>sVirtualAddr = sVirtualAddr mi, sVirtualLen = sVirtualLen mi\<rparr> = mi"
  by simp

lemma one_buffer_first [simp]: "one_buffer b junk ! 0 = b"
  by (simp add: one_buffer_def)

lemma convert_zero [simp]: "convert_syscall_error None = 0" "convert_syscall_error e = 0 \<longleftrightarrow> e = None"
  by (simp_all add: convert_syscall_error_def split: option.split errno.split)

text \<open>The driver client on an array with one buffer.\<close>

lemma dc_map_one:
  "dc_map so sid (one_buffer b junk) d =
     (if mb_va b = 0 then ((Some EINVAL, one_buffer b junk), d)
      else case mcMap_lib so sid (mb_va b) (mb_len b) True (dc_client d) of ((r, info), cl) \<Rightarrow>
        ((set_errno_from_mcresult r,
          one_buffer (case info of None \<Rightarrow> b | Some i \<Rightarrow> b\<lparr>mb_sva := ucast (sVirtualAddr i)\<rparr>) junk), d\<lparr>dc_client := cl\<rparr>))"
proof (cases "mb_va b = 0")
  case True
  then show ?thesis by (simp add: dc_map_def one_buffer_def map_nothing [OF others_empty])
next
  case False
  obtain r info cl where m: "mcMap_lib so sid (mb_va b) (mb_len b) True (dc_client d) = ((r, info), cl)" by (metis prod.collapse)
  show ?thesis
  proof (cases "r = 0")
    case True
    then show ?thesis using False m map_lib_info [OF m]
      by (auto simp: dc_map_def one_buffer_def Let_def map_nothing [OF others_empty])
  next
    case Err: False
    then obtain e where "set_errno_from_mcresult r = Some e" by (metis not_None_eq set_errno_None)
    then show ?thesis using False m map_lib_info [OF m] Err
      by (simp add: dc_map_def one_buffer_def Let_def map_nothing [OF others_empty])
  qed
qed

lemma dc_unmap_one:
  "dc_unmap so sid (one_buffer b junk) d =
     (if mb_va b = 0 then (Some EINVAL, d)
      else case mcUnmap_lib so sid (mb_va b) (Some \<lparr>sVirtualAddr = ucast (mb_sva b), sVirtualLen = mb_len b\<rparr>) (dc_client d) of (r, cl) \<Rightarrow>
        (set_errno_from_mcresult r, d\<lparr>dc_client := cl\<rparr>))"
proof (cases "mb_va b = 0")
  case True
  then show ?thesis by (simp add: dc_unmap_def one_buffer_def unmap_nothing [OF others_empty])
next
  case False
  obtain r cl where m: "mcUnmap_lib so sid (mb_va b) (Some \<lparr>sVirtualAddr = ucast (mb_sva b), sVirtualLen = mb_len b\<rparr>) (dc_client d) = (r, cl)"
    by fastforce
  show ?thesis using False m
    by (cases "set_errno_from_mcresult r") (auto simp: dc_unmap_def one_buffer_def Let_def unmap_nothing [OF others_empty])
qed

text \<open>An application over the driver client, by what the library makes of it.\<close>

definition library_of :: "('n driverClient \<times> 'p) api \<Rightarrow> 'n client" where
  "library_of a = dc_client (fst (cc_lower (ap_common a)))"

definition with_library :: "'n client \<Rightarrow> ('n driverClient \<times> 'p) api \<Rightarrow> ('n driverClient \<times> 'p) api" where
  "with_library cl a = a\<lparr>ap_common := (ap_common a)\<lparr>cc_lower := ((fst (cc_lower (ap_common a)))\<lparr>dc_client := cl\<rparr>, snd (cc_lower (ap_common a)))\<rparr>\<rparr>"

definition over_driver :: "('n driverClient \<times> 'p) api \<Rightarrow> bool" where
  "over_driver a \<longleftrightarrow> cc_client (ap_common a) = Some Lower_driver"

lemma with_library_same [simp]: "with_library (library_of a) a = a"
  by (simp add: with_library_def library_of_def)

text \<open>C21. For an application that uses the driver client, mapping and unmapping a buffer through the array of four buffers and the error numbers is exactly the
  call of the library on that buffer: the same messages, the same state afterwards, the same address, and the result code that survives.\<close>

theorem api_maps_like_library:
  assumes "over_driver a" and "cl_device (library_of a) \<noteq> None" and "ms_deviceId h = 0"
  shows "mcMap_api (lowers so px) junk (Some h) buf len True a =
      (case mcMap_lib so (ms_sessionId h) buf len True (library_of a) of ((r, info), cl) \<Rightarrow>
         ((legacy MC_DRV_ERR_BULK_MAPPING (convert_syscall_error (set_errno_from_mcresult r)), info), with_library cl a)) \<and>
    mcUnmap_api (lowers so px) junk (Some h) buf (Some mi) a =
      (case mcUnmap_lib so (ms_sessionId h) buf (Some mi) (library_of a) of (r, cl) \<Rightarrow>
         (legacy MC_DRV_ERR_BULK_UNMAPPING (convert_syscall_error (set_errno_from_mcresult r)), with_library cl a))"
proof (rule conjI)
  obtain dv where dv: "cl_device (library_of a) = Some dv" using assms(2) by blast
  have null: "set_errno_from_mcresult MC_DRV_ERR_NULL_POINTER = Some EINVAL" by (simp add: set_errno_from_mcresult_def mcresult_to_errno_def)
  note defs = mcMap_api_def mcUnmap_api_def session_error_def isValidDevice_def in_common_def cc_map_def cc_unmap_def pass_on_def lowers_def iclient_on_def
    driver_iclient_def on_part_def dc_map_one dc_unmap_one
  obtain r info cl where m: "mcMap_lib so (ms_sessionId h) buf len True (library_of a) = ((r, info), cl)" by (metis prod.collapse)
  show "mcMap_api (lowers so px) junk (Some h) buf len True a =
      (case mcMap_lib so (ms_sessionId h) buf len True (library_of a) of ((r, info), cl) \<Rightarrow>
         ((legacy MC_DRV_ERR_BULK_MAPPING (convert_syscall_error (set_errno_from_mcresult r)), info), with_library cl a))"
  proof (cases "buf = 0")
    case True
    then have "mcMap_lib so (ms_sessionId h) buf len True (library_of a) = ((MC_DRV_ERR_NULL_POINTER, None), library_of a)"
      using dv by (simp add: mcMap_lib_def)
    then show ?thesis using True assms(1,3) null by (simp add: defs over_driver_def convert_syscall_error_def legacy_def with_library_def library_of_def)
  next
    case False
    then show ?thesis using m [unfolded library_of_def] assms(1,3) map_lib_info [OF m]
      by (cases "r = 0") (auto simp: defs over_driver_def library_of_def with_library_def)
  qed
  obtain r cl where u: "mcUnmap_lib so (ms_sessionId h) buf (Some mi) (library_of a) = (r, cl)" by fastforce
  show "mcUnmap_api (lowers so px) junk (Some h) buf (Some mi) a =
      (case mcUnmap_lib so (ms_sessionId h) buf (Some mi) (library_of a) of (r, cl) \<Rightarrow>
         (legacy MC_DRV_ERR_BULK_UNMAPPING (convert_syscall_error (set_errno_from_mcresult r)), with_library cl a))"
  proof (cases "buf = 0")
    case True
    then have "mcUnmap_lib so (ms_sessionId h) buf (Some mi) (library_of a) = (MC_DRV_ERR_NULL_POINTER, library_of a)"
      using dv by (simp add: mcUnmap_lib_def invalid_if_dead_def)
    then show ?thesis using True assms(1,3) null by (simp add: defs over_driver_def convert_syscall_error_def with_library_def library_of_def)
  next
    case False
    then show ?thesis using u [unfolded library_of_def] assms(1,3)
      by (simp add: defs over_driver_def library_of_def with_library_def)
  qed
qed

subsection \<open>Applications over scripted answers\<close>

definition sample_api :: "receive_result list \<Rightarrow> ((nat \<times> receive_result list) driverClient \<times> unit) api" where
  "sample_api rs = \<lparr>ap_common = opened_common rs, wsms = [(0x5000, 16), (0x6000, 32)], wsms_capacity = 16, ap_realloc = []\<rparr>"

lemma closing_calls_no_free_witness:
  "\<exists>a1. mcCloseDevice_api (lowers scripted no_proxy) 0 (sample_api []) = Some (MC_DRV_OK, a1) \<and> wsms a1 = [] \<and> cc_client (ap_common a1) = None"
proof -
  have c: "cc_client (ap_common (sample_api [])) = Some Lower_driver" "open_count (ap_common (sample_api [])) = 1"
    by (simp_all add: sample_api_def opened_common)
  have h: "ic_hasOpenSessions (lowers scripted no_proxy Lower_driver) (cc_lower (ap_common (sample_api []))) = Some (None, cc_lower (opened_common []))"
    using with_device_client [of "[]"]
    by (simp add: sample_api_def opened_common lower_defs dc_hasOpenSessions_def in_library_def mcDeviceHasOpenSessions_lib_def device_idle_def hasSessions_def
        Device_init_def with_net_def scripted_def)
  obtain ret s2 where s: "ic_close (lowers scripted no_proxy Lower_driver) (cc_lower (opened_common [])) = (ret, s2)" by (metis prod.collapse)
  show ?thesis using closing_calls_no_free [where lo = "lowers scripted no_proxy", OF c h s] by (simp add: sample_api_def)
qed

definition stack_junk :: "nat \<Rightarrow> mc_buffer" where "stack_junk i = \<lparr>mb_va = 0x1111, mb_len = 7, mb_sva = 0x2222, mb_flags = 9\<rparr>"

lemma api_maps_like_library_witness:
  "\<exists>a1. mcUnmap_api (lowers scripted no_proxy) stack_junk (Some \<lparr>ms_sessionId = 0x301, ms_deviceId = 0\<rparr>) 0x7000 (Some \<lparr>sVirtualAddr = 0x100000, sVirtualLen = 32\<rparr>) (sample_api []) =
     (MC_DRV_ERR_UNKNOWN_SESSION, a1)"
proof -
  let ?h = "\<lparr>ms_sessionId = 0x301, ms_deviceId = 0\<rparr>" let ?mi = "\<lparr>sVirtualAddr = 0x100000, sVirtualLen = 32\<rparr>"
  have o: "over_driver (sample_api [])" by (simp add: over_driver_def sample_api_def opened_common)
  have l: "cl_device (library_of (sample_api [])) = Some (Device_init 0)"
    using with_device_client(1) [of "[]"] by (simp add: library_of_def sample_api_def opened_common)
  then have d: "cl_device (library_of (sample_api [])) \<noteq> None" by simp
  have u: "mcUnmap_lib scripted 0x301 0x7000 (Some ?mi) (library_of (sample_api [])) = (MC_DRV_ERR_UNKNOWN_SESSION, library_of (sample_api []))"
    using l by (simp add: mcUnmap_lib_def resolveSessionId_def Device_init_def invalid_if_dead_def)
  show ?thesis
    using conjunct2 [OF api_maps_like_library [where so = scripted and px = no_proxy and junk = stack_junk and h = ?h and buf = "0x7000" and mi = ?mi, OF o d]] u
    by (simp add: set_errno_from_mcresult_def mcresult_to_errno_def convert_syscall_error_def legacy_def)
qed

text \<open>Every failure to get the version is reported as unknown: the driver client returns the code itself.\<close>

lemma version_errors_unknown:
  assumes "over_driver a" and "mcGetMobiCoreVersion_lib so True (library_of a) = ((r, v), cl)" and "r \<noteq> 0"
  shows "mcGetMobiCoreVersion_api (lowers so px) 0 True a = ((MC_DRV_ERR_UNKNOWN, None), with_library cl a)"
  using assms
  by (simp add: mcGetMobiCoreVersion_api_def isValidDevice_def in_common_def cc_getVersion_def pass_on_def lower_defs dc_getVersion_def over_driver_def
      library_of_def with_library_def convert_other_def)

text \<open>When the second of two buffers cannot be mapped, not only the first is unmapped but also the second, with whatever was in its field for the
  secure address.\<close>

lemma failed_buffer_unmapped_too:
  assumes "mb_va b1 \<noteq> 0" and "mb_va b2 \<noteq> 0" and "mcMap_lib so sid (mb_va b1) (mb_len b1) True (dc_client d) = ((0, Some i), cl1)"
    and "mcMap_lib so sid (mb_va b2) (mb_len b2) True cl1 = ((r, None), cl2)" and "r \<noteq> 0"
  shows "snd (dc_map so sid [b1, b2] d) = snd (dc_unmap so sid [b1\<lparr>mb_sva := ucast (sVirtualAddr i)\<rparr>, b2] (d\<lparr>dc_client := cl2\<rparr>))"
proof -
  obtain e where "set_errno_from_mcresult r = Some e" using assms(5) by (metis not_None_eq set_errno_None)
  then show ?thesis using assms by (simp add: dc_map_def Let_def split: prod.split)
qed

text \<open>A session of the GlobalPlatform interface that could not be closed stays noted with its memory: once that is unmapped, a request
  to cancel an operation of the session writes outside of memory.\<close>

lemma cancelling_faults:
  assumes "in_library (mcCloseSession_lib so sid) d = (Some e, d1)" and "(sid, tci) \<in> set (gp_sessions d1)" and "m tci = None"
  shows "snd (dc_closeSession so sid d) = d1 \<and> dc_gpRequestCancellation so sid m d1 = None"
proof -
  have "cancel_sessions sid ss m = None" if "(sid, tci) \<in> set ss" "m tci = None" for ss m
    using that
  proof (induction ss arbitrary: m)
    case (Cons s ss)
    have "(m(b \<mapsto> t)) tci = None" if "m b = Some t0" for b t t0 using that Cons.prems(2) by auto
    then show ?case using Cons by (cases s) (auto split: option.split)
  qed simp
  then have "cancel_sessions sid (gp_sessions d1) m = None" using assms(2,3) by blast
  then show ?thesis using assms(1) by (simp add: dc_closeSession_def dc_gpRequestCancellation_def)
qed

end
