(* ===== verification/TeeClient.thy ===== *)
theory TeeClient
  imports CommonClient
begin

text \<open>
  The GlobalPlatform interface of applications (src/MobiCoreDriverLib/ClientLib/Contrib/tee_client_api.cpp): sessions
  with trusted applications over a page of shared memory, the parameters of operations and
  the buffers they refer to, cancellation.
\<close>

subsection \<open>Result codes\<close>

abbreviation (input) TEEC_SUCCESS :: u32 where "TEEC_SUCCESS \<equiv> 0"
abbreviation (input) TEEC_ERROR_GENERIC :: u32 where "TEEC_ERROR_GENERIC \<equiv> 0xFFFF0000"
abbreviation (input) TEEC_ERROR_ACCESS_DENIED :: u32 where "TEEC_ERROR_ACCESS_DENIED \<equiv> 0xFFFF0001"
abbreviation (input) TEEC_ERROR_CANCEL :: u32 where "TEEC_ERROR_CANCEL \<equiv> 0xFFFF0002"
abbreviation (input) TEEC_ERROR_EXCESS_DATA :: u32 where "TEEC_ERROR_EXCESS_DATA \<equiv> 0xFFFF0004"
abbreviation (input) TEEC_ERROR_BAD_PARAMETERS :: u32 where "TEEC_ERROR_BAD_PARAMETERS \<equiv> 0xFFFF0006"
abbreviation (input) TEEC_ERROR_BAD_STATE :: u32 where "TEEC_ERROR_BAD_STATE \<equiv> 0xFFFF0007"
abbreviation (input) TEEC_ERROR_ITEM_NOT_FOUND :: u32 where "TEEC_ERROR_ITEM_NOT_FOUND \<equiv> 0xFFFF0008"
abbreviation (input) TEEC_ERROR_NOT_IMPLEMENTED :: u32 where "TEEC_ERROR_NOT_IMPLEMENTED \<equiv> 0xFFFF0009"
abbreviation (input) TEEC_ERROR_OUT_OF_MEMORY :: u32 where "TEEC_ERROR_OUT_OF_MEMORY \<equiv> 0xFFFF000C"
abbreviation (input) TEEC_ERROR_BUSY :: u32 where "TEEC_ERROR_BUSY \<equiv> 0xFFFF000D"
abbreviation (input) TEEC_ERROR_COMMUNICATION :: u32 where "TEEC_ERROR_COMMUNICATION \<equiv> 0xFFFF000E"
abbreviation (input) TEEC_ERROR_TARGET_DEAD :: u32 where "TEEC_ERROR_TARGET_DEAD \<equiv> 0xFFFF3024"
abbreviation (input) TEEC_ERROR_TA_LOCKED :: u32 where "TEEC_ERROR_TA_LOCKED \<equiv> 0xFFFF0257"
abbreviation (input) TEEC_ERROR_SD_BLOCKED :: u32 where "TEEC_ERROR_SD_BLOCKED \<equiv> 0xFFFF0258"
abbreviation (input) TEEC_ERROR_TARGET_KILLED :: u32 where "TEEC_ERROR_TARGET_KILLED \<equiv> 0xFFFF0259"

abbreviation (input) TEEC_ORIGIN_API :: u32 where "TEEC_ORIGIN_API \<equiv> 1"
abbreviation (input) TEEC_ORIGIN_COMMS :: u32 where "TEEC_ORIGIN_COMMS \<equiv> 2"
abbreviation (input) TEEC_ORIGIN_TEE :: u32 where "TEEC_ORIGIN_TEE \<equiv> 3"
abbreviation (input) TEEC_ORIGIN_TRUSTED_APP :: u32 where "TEEC_ORIGIN_TRUSTED_APP \<equiv> 4"

abbreviation (input) TEEC_MEM_INPUT :: u32 where "TEEC_MEM_INPUT \<equiv> 1"
abbreviation (input) TEEC_MEM_OUTPUT :: u32 where "TEEC_MEM_OUTPUT \<equiv> 2"
abbreviation (input) TEEC_MEM_INOUT :: u32 where "TEEC_MEM_INOUT \<equiv> 3"

abbreviation (input) TEEC_NONE :: u32 where "TEEC_NONE \<equiv> 0"
abbreviation (input) TEEC_VALUE_INPUT :: u32 where "TEEC_VALUE_INPUT \<equiv> 1"
abbreviation (input) TEEC_VALUE_OUTPUT :: u32 where "TEEC_VALUE_OUTPUT \<equiv> 2"
abbreviation (input) TEEC_VALUE_INOUT :: u32 where "TEEC_VALUE_INOUT \<equiv> 3"
abbreviation (input) TEEC_MEMREF_TEMP_INPUT :: u32 where "TEEC_MEMREF_TEMP_INPUT \<equiv> 5"
abbreviation (input) TEEC_MEMREF_TEMP_OUTPUT :: u32 where "TEEC_MEMREF_TEMP_OUTPUT \<equiv> 6"
abbreviation (input) TEEC_MEMREF_TEMP_INOUT :: u32 where "TEEC_MEMREF_TEMP_INOUT \<equiv> 7"
abbreviation (input) TEEC_MEMREF_WHOLE :: u32 where "TEEC_MEMREF_WHOLE \<equiv> 0xC"
abbreviation (input) TEEC_MEMREF_PARTIAL_INPUT :: u32 where "TEEC_MEMREF_PARTIAL_INPUT \<equiv> 0xD"
abbreviation (input) TEEC_MEMREF_PARTIAL_OUTPUT :: u32 where "TEEC_MEMREF_PARTIAL_OUTPUT \<equiv> 0xE"
abbreviation (input) TEEC_MEMREF_PARTIAL_INOUT :: u32 where "TEEC_MEMREF_PARTIAL_INOUT \<equiv> 0xF"

definition TEEC_GET_PARAM_TYPE :: "u32 \<Rightarrow> nat \<Rightarrow> u32" where
  "TEEC_GET_PARAM_TYPE t i = drop_bit (4 * i) t AND 0xF"

subsection \<open>Data\<close>

text \<open>A parameter of the application is a union of three words: the buffer, the parent or the value, the size,
  and the offset. The value is two half words.\<close>

record param =
  pa_word :: u64
  pa_size :: u64
  pa_offset :: u64

definition value_a :: "param \<Rightarrow> u32" where "value_a p = ucast (pa_word p)"
definition value_b :: "param \<Rightarrow> u32" where "value_b p = ucast (drop_bit 32 (pa_word p))"
definition set_value :: "u32 \<Rightarrow> u32 \<Rightarrow> param \<Rightarrow> param" where
  "set_value a b p = p\<lparr>pa_word := ucast a OR push_bit 32 (ucast b)\<rparr>"

record sharedMem =
  sm_buffer :: u64
  sm_size :: u64
  sm_flags :: u32
  sm_allocated :: bool

record operation =
  ope_started :: u32
  ope_paramTypes :: u32
  ope_params :: "param list"

text \<open>A session with the mutex of its page: there is none before it is initialised and after it is destroyed.\<close>

datatype mutex = No_mutex | Unlocked | Locked

record tee_session =
  ts_sid :: u32
  ts_tci :: addr
  ts_active :: bool
  ts_mutex :: mutex

text \<open>A process: the common client, the pages of shared memory with trusted applications, the structures for shared memory that parameters
  point to, and what will happen: the results of \<open>mmap\<close> and \<open>malloc\<close>, whether another thread cancels an operation while its
  parameters are set up, and what the trusted application has written into the page when a wait
  ends. What is on the stack is \<open>te_junk\<close> and \<open>te_word\<close>.\<close>

record 's tee =
  te_common :: "'s common"
  te_pages :: "addr \<Rightarrow> tci option"
  te_shared :: "addr \<Rightarrow> sharedMem option"
  te_mmap :: "addr option list"
  te_malloc :: "addr option list"
  te_freed :: "addr list"
  te_cancels :: "bool list"
  te_answers :: "(tci \<Rightarrow> tci) list"
  te_junk :: "nat \<Rightarrow> mc_buffer"
  te_word :: u32

definition with_common :: "('s common \<Rightarrow> 'a \<times> 's common) \<Rightarrow> 's tee \<Rightarrow> 'a \<times> 's tee" where
  "with_common f t = (case f (te_common t) of (a, c) \<Rightarrow> (a, t\<lparr>te_common := c\<rparr>))"

definition write_page :: "addr \<Rightarrow> (tci \<Rightarrow> tci) \<Rightarrow> 's tee \<Rightarrow> 's tee option" where
  "write_page a f t = (case te_pages t a of None \<Rightarrow> None | Some p \<Rightarrow> Some (t\<lparr>te_pages := (te_pages t)(a \<mapsto> f p)\<rparr>))"

definition zero_operation :: "tci \<Rightarrow> tci" where
  "zero_operation p = p\<lparr>op_type := 0, op_commandId := 0, op_paramTypes := 0,
     op_params := replicate 4 \<lparr>pi_a = 0, pi_b = 0, pi_outputSize = 0\<rparr>, op_isCancelled := False\<rparr>"

definition zero_tci :: tci where
  "zero_tci = \<lparr>tci_header = replicate 8 0, tci_destination = replicate 16 0, op_type = 0, op_commandId = 0, op_paramTypes = 0,
     op_params = replicate 4 \<lparr>pi_a = 0, pi_b = 0, pi_outputSize = 0\<rparr>, op_isCancelled = False, tci_ready = 0,
     tci_returnOrigin = 0, tci_returnStatus = 0\<rparr>"

text \<open>The order of the bytes of a UUID: three fields are little endian.\<close>

definition libUuidToArray :: "bytes \<Rightarrow> bytes" where
  "libUuidToArray u = map (\<lambda>i. u ! nat (int i + [3, 1, -1, -3, 1, -1, 1, -1, 0, 0, 0, 0, 0, 0, 0, 0] ! i)) [0..<16]"

subsection \<open>Setting up an operation\<close>

text \<open>A parameter of the page and the buffer to map for it, with the type that is transmitted. \<open>Inl\<close> is an error, the
  outer \<open>None\<close> a parent that points nowhere.\<close>

definition temp_buffer :: "u32 \<Rightarrow> param \<Rightarrow> mc_buffer \<Rightarrow> mc_buffer option" where
  "temp_buffer ty p junk = (if pa_size p \<noteq> 0 \<and> pa_word p \<noteq> 0
     then Some (junk\<lparr>mb_va := pa_word p, mb_len := ucast (pa_size p), mb_flags := ty AND TEEC_MEM_INOUT\<rparr>) else None)"

definition whole_buffer :: "sharedMem \<Rightarrow> mc_buffer \<Rightarrow> mc_buffer option" where
  "whole_buffer m junk = (if sm_size m \<noteq> 0
     then Some (junk\<lparr>mb_va := sm_buffer m, mb_len := ucast (sm_size m), mb_flags := sm_flags m AND TEEC_MEM_INOUT\<rparr>) else None)"

definition partial_buffer :: "u32 \<Rightarrow> param \<Rightarrow> sharedMem \<Rightarrow> mc_buffer \<Rightarrow> (u32 + u32 \<times> mc_buffer option)" where
  "partial_buffer ty p m junk =
     (if sm_flags m AND TEEC_MEM_INOUT = TEEC_MEM_INPUT \<and> ty = TEEC_MEMREF_PARTIAL_OUTPUT \<or>
         sm_flags m AND TEEC_MEM_INOUT = TEEC_MEM_OUTPUT \<and> ty = TEEC_MEMREF_PARTIAL_INPUT then Inl ty
      else let ty1 = ty AND TEEC_MEMREF_TEMP_INOUT in
        if pa_offset p + pa_size p > sm_size m then Inl ty1
        else Inr (ty1, if pa_size p \<noteq> 0
          then Some (junk\<lparr>mb_va := sm_buffer m + pa_offset p, mb_len := ucast (pa_size p), mb_flags := ty1 AND TEEC_MEM_INOUT\<rparr>) else None))"

text \<open>The result is the type, the parameter of the page and the buffer; \<open>Inl\<close> still has a type.\<close>

definition setup_param ::
    "(addr \<Rightarrow> sharedMem option) \<Rightarrow> u32 \<Rightarrow> param \<Rightarrow> pint \<Rightarrow> mc_buffer \<Rightarrow> (u32 + u32 \<times> pint \<times> mc_buffer option) option" where
  "setup_param sh ty p imp junk =
     (if ty = TEEC_VALUE_OUTPUT \<or> ty = TEEC_NONE then Some (Inr (ty, imp, None))
      else if ty = TEEC_VALUE_INPUT \<or> ty = TEEC_VALUE_INOUT then Some (Inr (ty, imp\<lparr>pi_a := value_a p, pi_b := value_b p\<rparr>, None))
      else if ty = TEEC_MEMREF_TEMP_INPUT \<or> ty = TEEC_MEMREF_TEMP_OUTPUT \<or> ty = TEEC_MEMREF_TEMP_INOUT then
        Some (Inr (ty, imp, temp_buffer ty p junk))
      else if ty = TEEC_MEMREF_WHOLE then
        (case sh (pa_word p) of None \<Rightarrow> None
         | Some m \<Rightarrow> Some (Inr ((sm_flags m OR 4) AND 0xFF, imp, whole_buffer m junk)))
      else if ty = TEEC_MEMREF_PARTIAL_INPUT \<or> ty = TEEC_MEMREF_PARTIAL_OUTPUT \<or> ty = TEEC_MEMREF_PARTIAL_INOUT then
        (case sh (pa_word p) of None \<Rightarrow> None
         | Some m \<Rightarrow> (case partial_buffer ty p m junk of
             Inl ty1 \<Rightarrow> Some (Inl ty1) | Inr (ty1, b) \<Rightarrow> Some (Inr (ty1, imp, b))))
      else Some (Inl ty))"

text \<open>The loop over the four parameters, from \<open>i\<close> on: the page, the buffers so far with the parameters they belong to, and whether
  all parameters were good.\<close>

function setup_params ::
    "(addr \<Rightarrow> sharedMem option) \<Rightarrow> operation \<Rightarrow> (nat \<Rightarrow> mc_buffer) \<Rightarrow> nat \<Rightarrow> tci \<Rightarrow> (nat \<times> mc_buffer) list \<Rightarrow> (bool \<times> tci \<times> (nat \<times> mc_buffer) list) option" where
  "setup_params sh ope junk i p bs =
     (if i \<ge> 4 then Some (True, p, bs)
      else case setup_param sh (TEEC_GET_PARAM_TYPE (ope_paramTypes ope) i) (ope_params ope ! i) (op_params p ! i) (junk (length bs)) of
        None \<Rightarrow> None
      | Some (Inl ty) \<Rightarrow> Some (False, p\<lparr>op_paramTypes := op_paramTypes p OR push_bit (i * 4) ty\<rparr>, bs)
      | Some (Inr (ty, imp, b)) \<Rightarrow>
          setup_params sh ope junk (Suc i) (p\<lparr>op_params := (op_params p)[i := imp], op_paramTypes := op_paramTypes p OR push_bit (i * 4) ty\<rparr>)
            (case b of None \<Rightarrow> bs | Some b \<Rightarrow> bs @ [(i, b)]))"
  by pat_completeness auto
termination by (relation "measure (\<lambda>(_, _, _, i, _, _). 4 - i)") auto

declare setup_params.simps [simp del]

text \<open>The array of buffers with its unused end.\<close>

definition buffer_array :: "(nat \<Rightarrow> mc_buffer) \<Rightarrow> mc_buffer list \<Rightarrow> mc_buffer list" where
  "buffer_array junk bs = bs @ map (\<lambda>i. no_buffer (junk i)) [length bs..<MC_MAP_MAX]"

text \<open>The secure addresses of the buffers that were mapped go into their parameters.\<close>

fun note_addresses :: "(nat \<times> mc_buffer) list \<Rightarrow> mc_buffer list \<Rightarrow> pint list \<Rightarrow> pint list" where
  "note_addresses ((i, _) # is) (b # bs) ps = note_addresses is bs
     (if mb_va b \<noteq> 0 then ps[i := (ps ! i)\<lparr>pi_a := ucast (mb_sva b), pi_b := mb_len b\<rparr>] else ps)"
| "note_addresses _ _ ps = ps"

subsection \<open>Finishing an operation\<close>

text \<open>What a parameter gets back, and the buffer to unmap for it. The length in the page decides whether there is
  one: it is not reset between operations.\<close>

definition unwind_param ::
    "(addr \<Rightarrow> sharedMem option) \<Rightarrow> bool \<Rightarrow> u32 \<Rightarrow> pint \<Rightarrow> param \<Rightarrow> (param \<times> (u64 \<times> u64 \<times> u32) option) option" where
  "unwind_param sh copy ty imp p =
     (let mapped = (\<lambda>va. if pi_sVirtualLen imp > 0 then Some (va, ucast (pi_sVirtualAddr imp), pi_sVirtualLen imp) else None);
          sized = (\<lambda>c. if copy \<and> c then p\<lparr>pa_size := ucast (pi_outputSize imp)\<rparr> else p)
      in if ty = TEEC_VALUE_INPUT \<or> ty = TEEC_NONE then Some (p, None)
      else if ty = TEEC_VALUE_OUTPUT \<or> ty = TEEC_VALUE_INOUT then Some (if copy then set_value (pi_a imp) (pi_b imp) p else p, None)
      else if ty = TEEC_MEMREF_TEMP_OUTPUT \<or> ty = TEEC_MEMREF_TEMP_INPUT \<or> ty = TEEC_MEMREF_TEMP_INOUT then
        Some (sized (ty \<noteq> TEEC_MEMREF_TEMP_INPUT), mapped (pa_word p))
      else if ty = TEEC_MEMREF_WHOLE then
        (case sh (pa_word p) of None \<Rightarrow> if copy \<or> pi_sVirtualLen imp > 0 then None else Some (p, None)
         | Some m \<Rightarrow> Some (sized (sm_flags m \<noteq> TEEC_MEM_INPUT), mapped (sm_buffer m)))
      else if ty = TEEC_MEMREF_PARTIAL_OUTPUT \<or> ty = TEEC_MEMREF_PARTIAL_INOUT \<or> ty = TEEC_MEMREF_PARTIAL_INPUT then
        (case sh (pa_word p) of None \<Rightarrow> if pi_sVirtualLen imp > 0 then None else Some (sized (ty \<noteq> TEEC_MEMREF_PARTIAL_INPUT), None)
         | Some m \<Rightarrow> Some (sized (ty \<noteq> TEEC_MEMREF_PARTIAL_INPUT), mapped (sm_buffer m + pa_offset p)))
      else Some (p, None))"

function unwind_params ::
    "(addr \<Rightarrow> sharedMem option) \<Rightarrow> bool \<Rightarrow> nat \<Rightarrow> pint list \<Rightarrow> operation \<Rightarrow> (nat \<Rightarrow> mc_buffer) \<Rightarrow> mc_buffer list \<Rightarrow> (operation \<times> mc_buffer list) option" where
  "unwind_params sh copy i imps ope junk bs =
     (if i \<ge> 4 then Some (ope, bs)
      else case unwind_param sh copy (TEEC_GET_PARAM_TYPE (ope_paramTypes ope) i) (imps ! i) (ope_params ope ! i) of
        None \<Rightarrow> None
      | Some (p, b) \<Rightarrow> unwind_params sh copy (Suc i) imps (ope\<lparr>ope_params := (ope_params ope)[i := p]\<rparr>) junk
          (case b of None \<Rightarrow> bs | Some (va, sva, len) \<Rightarrow> bs @ [(junk (length bs))\<lparr>mb_va := va, mb_sva := sva, mb_len := len\<rparr>]))"
  by pat_completeness auto
termination by (relation "measure (\<lambda>(_, _, i, _, _, _, _). 4 - i)") auto

declare unwind_params.simps [simp del]

text \<open>The result, what is written to the origin of the result, and the operation. When the page has no origin, or an error of another
  origin than the application, nothing is unmapped.\<close>

definition TEEC_UnwindOperation ::
    "(lower \<Rightarrow> 's iclient) \<Rightarrow> u32 \<Rightarrow> addr \<Rightarrow> operation option \<Rightarrow> bool \<Rightarrow> 's tee \<Rightarrow> ((u32 \<times> u32 option \<times> operation option) \<times> 's tee) option" where
  "TEEC_UnwindOperation lo sid a ope copy t = (case ope of None \<Rightarrow> Some ((TEEC_SUCCESS, None, None), t)
     | Some o0 \<Rightarrow> (case te_pages t a of None \<Rightarrow> None
       | Some p \<Rightarrow>
         let o1 = o0\<lparr>ope_started := 2\<rparr> in
         if tci_returnOrigin p = 0 \<or> tci_returnOrigin p \<noteq> TEEC_ORIGIN_TRUSTED_APP \<and> tci_returnStatus p \<noteq> TEEC_SUCCESS then
           Some ((TEEC_ERROR_COMMUNICATION, Some TEEC_ORIGIN_COMMS, Some o1), t)
         else (case unwind_params (te_shared t) copy 0 (op_params p) o1 (te_junk t) [] of None \<Rightarrow> None
           | Some (o2, bs) \<Rightarrow>
             if length bs > MC_MAP_MAX then Some ((TEEC_ERROR_EXCESS_DATA, Some (tci_returnOrigin p), Some o2), t)
             else Some ((tci_returnStatus p, Some (tci_returnOrigin p), Some o2),
               if bs = [] then t else snd (with_common (cc_unmap lo sid (buffer_array (te_junk t) bs)) t)))))"

text \<open>Mapping the buffers: the error with its origin, or the parameters of the page.\<close>

definition map_params ::
    "(lower \<Rightarrow> 's iclient) \<Rightarrow> u32 \<Rightarrow> (nat \<times> mc_buffer) list \<Rightarrow> pint list \<Rightarrow> 's tee \<Rightarrow> (u32 + pint list) \<times> 's tee" where
  "map_params lo sid bs ps t =
     (if bs = [] then (Inr ps, t)
      else case with_common (cc_map lo sid (buffer_array (te_junk t) (map snd bs))) t of ((e, bufs), t1) \<Rightarrow>
        (if e = None then Inr (note_addresses bs bufs ps) else Inl TEEC_ERROR_GENERIC, t1))"

text \<open>What setting up comes to before the page is marked as ready: an error, with its origin if that is written, or nothing.\<close>

definition setup_buffers ::
    "(lower \<Rightarrow> 's iclient) \<Rightarrow> u32 \<Rightarrow> addr \<Rightarrow> operation \<Rightarrow> tci \<Rightarrow> 's tee \<Rightarrow> ((u32 \<times> u32 option) option \<times> 's tee) option" where
  "setup_buffers lo sid a ope p t = (case setup_params (te_shared t) ope (te_junk t) 0 p [] of None \<Rightarrow> None
     | Some (good, p1, bs) \<Rightarrow>
       let t1 = t\<lparr>te_pages := (te_pages t)(a \<mapsto> p1)\<rparr> in
       if \<not> good then Some (Some (TEEC_ERROR_BAD_PARAMETERS, Some TEEC_ORIGIN_API), t1)
       else if length bs > MC_MAP_MAX then Some (Some (TEEC_ERROR_EXCESS_DATA, None), t1)
       else
         let cancelled = (case te_cancels t1 of [] \<Rightarrow> False | c # _ \<Rightarrow> c);
             p2 = p1\<lparr>op_isCancelled := cancelled\<rparr>;
             t2 = t1\<lparr>te_cancels := tl (te_cancels t1), te_pages := (te_pages t1)(a \<mapsto> p2)\<rparr>
         in if cancelled then Some (Some (TEEC_ERROR_CANCEL, Some TEEC_ORIGIN_COMMS), t2)
         else (case map_params lo sid bs (op_params p2) t2 of
             (Inl e, t3) \<Rightarrow> Some (Some (e, Some TEEC_ORIGIN_COMMS), t3)
           | (Inr ps, t3) \<Rightarrow> Some (None, t3\<lparr>te_pages := (te_pages t3)(a \<mapsto> p2\<lparr>op_params := ps\<rparr>)\<rparr>)))"

definition request_ready :: "tci \<Rightarrow> tci" where
  "request_ready p = p\<lparr>tci_header := ascii ''TCIGP000'', tci_returnStatus := TEEC_ERROR_BAD_STATE, tci_ready := 1\<rparr>"

definition TEEC_SetupOperation ::
    "(lower \<Rightarrow> 's iclient) \<Rightarrow> u32 \<Rightarrow> addr \<Rightarrow> operation option \<Rightarrow> 's tee \<Rightarrow> ((u32 \<times> u32 option \<times> operation option) \<times> 's tee) option" where
  "TEEC_SetupOperation lo sid a ope t = (case te_pages t a of None \<Rightarrow> None
     | Some p0 \<Rightarrow>
       let p = p0\<lparr>op_isCancelled := False, op_paramTypes := 0\<rparr>; t0 = t\<lparr>te_pages := (te_pages t)(a \<mapsto> p)\<rparr> in
       (case ope of None \<Rightarrow> map_option (Pair (TEEC_SUCCESS, None, None)) (write_page a request_ready t0)
        | Some o0 \<Rightarrow> (case setup_buffers lo sid a (o0\<lparr>ope_started := 1\<rparr>) p t0 of None \<Rightarrow> None
          | Some (None, t1) \<Rightarrow> map_option (Pair (TEEC_SUCCESS, None, Some (o0\<lparr>ope_started := 1\<rparr>))) (write_page a request_ready t1)
          | Some (Some (e, origin), t1) \<Rightarrow>
            (case TEEC_UnwindOperation lo sid a (Some (o0\<lparr>ope_started := 1\<rparr>)) False t1 of None \<Rightarrow> None
             | Some ((_, _, o2), t2) \<Rightarrow> map_option (Pair (e, origin, o2)) (write_page a zero_operation t2)))))"

subsection \<open>Calling the trusted application\<close>

definition TEEC_DeleteTci :: "tee_session \<Rightarrow> 's tee \<Rightarrow> tee_session \<times> 's tee" where
  "TEEC_DeleteTci s t = (if ts_tci s = 0 then (s, t) else (s\<lparr>ts_tci := 0\<rparr>, t\<lparr>te_pages := (te_pages t)(ts_tci s := None)\<rparr>))"

definition TEEC_CloseSession_imp :: "(lower \<Rightarrow> 's iclient) \<Rightarrow> tee_session \<Rightarrow> 's tee \<Rightarrow> tee_session \<times> 's tee" where
  "TEEC_CloseSession_imp lo s t = (s\<lparr>ts_active := False\<rparr>, snd (with_common (cc_closeSession lo (ts_sid s)) t))"

abbreviation (input) TA_EXIT_CODE_FINISHED :: u32 where "TA_EXIT_CODE_FINISHED \<equiv> 303"
abbreviation (input) ERR_INVALID_SID :: u32 where "ERR_INVALID_SID \<equiv> -4"
abbreviation (input) ERR_SID_NOT_ACTIVE :: u32 where "ERR_SID_NOT_ACTIVE \<equiv> -5"

text \<open>Signalling the application and waiting for it: the error, and whether the origin is set to the secure world. The exit code
  is read also when it could not be obtained.\<close>

definition await_answer :: "(lower \<Rightarrow> 's iclient) \<Rightarrow> u32 \<Rightarrow> addr \<Rightarrow> 's tee \<Rightarrow> ((u32 \<times> bool) \<times> 's tee) option" where
  "await_answer lo sid a t = (case with_common (cc_notify lo sid) t of
     (Some _, t1) \<Rightarrow> Some ((TEEC_ERROR_COMMUNICATION, False), t1)
   | (None, t1) \<Rightarrow> (case cc_waitNotification lo sid (-1) (te_common t1) of None \<Rightarrow> None
       | Some (ret, c2) \<Rightarrow>
         (case write_page a (case te_answers t1 of [] \<Rightarrow> id | f # _ \<Rightarrow> f) (t1\<lparr>te_common := c2, te_answers := tl (te_answers t1)\<rparr>) of None \<Rightarrow> None
          | Some t2 \<Rightarrow>
            (case ret of None \<Rightarrow> Some ((TEEC_SUCCESS, False), t2)
             | Some e \<Rightarrow>
               if e \<noteq> ECOMM then Some ((TEEC_ERROR_COMMUNICATION, False), t2)
               else (case with_common (cc_getError lo sid) t2 of ((_, v), t3) \<Rightarrow>
                 let value = (case v of None \<Rightarrow> te_word t3 | Some v \<Rightarrow> v) in
                 Some (if value = TA_EXIT_CODE_FINISHED then (TEEC_SUCCESS, False)
                       else if value = ERR_INVALID_SID \<or> value = ERR_SID_NOT_ACTIVE then (TEEC_ERROR_COMMUNICATION, False)
                       else (TEEC_ERROR_TARGET_DEAD, True), t3))))))"

text \<open>The origin is that of the caller, when nothing writes it.\<close>

definition TEEC_CallTA ::
    "(lower \<Rightarrow> 's iclient) \<Rightarrow> tee_session \<Rightarrow> operation option \<Rightarrow> u32 \<Rightarrow> 's tee \<Rightarrow> ((u32 \<times> u32 \<times> tee_session \<times> operation option) \<times> 's tee) option" where
  "TEEC_CallTA lo s ope origin t = (case TEEC_SetupOperation lo (ts_sid s) (ts_tci s) ope t of None \<Rightarrow> None
     | Some ((r, org1, o1), t1) \<Rightarrow>
       let origin1 = (case org1 of None \<Rightarrow> origin | Some x \<Rightarrow> x) in
       if r \<noteq> TEEC_SUCCESS then Some ((r, origin1, s, o1), t1)
       else (case await_answer lo (ts_sid s) (ts_tci s) t1 of None \<Rightarrow> None
         | Some ((err, dead), t2) \<Rightarrow>
           let origin2 = (if dead then TEEC_ORIGIN_TEE else origin1) in
           (case TEEC_UnwindOperation lo (ts_sid s) (ts_tci s) o1 (err = TEEC_SUCCESS) t2 of None \<Rightarrow> None
            | Some ((_, org2, o2), t3) \<Rightarrow>
              let origin3 = (case org2 of None \<Rightarrow> origin2 | Some x \<Rightarrow> x) in
              if err = TEEC_SUCCESS then Some ((err, origin3, s, o2), t3)
              else (case TEEC_CloseSession_imp lo s t3 of (s1, t4) \<Rightarrow> (case TEEC_DeleteTci s1 t4 of (s2, t5) \<Rightarrow>
                Some ((err, if err = TEEC_ERROR_COMMUNICATION then TEEC_ORIGIN_COMMS else origin3, s2, o2), t5))))))"

subsection \<open>The calls of applications\<close>

text \<open>A pointer that may be null is an option. The context says which lower layer is forced, for tests.\<close>

definition TEEC_InitializeContext :: "(lower \<Rightarrow> 's iclient) \<Rightarrow> u32 option \<Rightarrow> 's tee \<Rightarrow> u32 \<times> 's tee" where
  "TEEC_InitializeContext lo context t = (case context of None \<Rightarrow> (TEEC_ERROR_BAD_PARAMETERS, t)
     | Some reserved \<Rightarrow>
       let c = (if reserved = 0x44525652 then cc_setOpenMode Open_driver (te_common t)
                else if reserved = 0x50525859 then cc_setOpenMode Open_proxy (te_common t) else te_common t)
       in (case cc_open lo c of (ret, c1) \<Rightarrow>
         (case ret of None \<Rightarrow> TEEC_SUCCESS
          | Some e \<Rightarrow> if e = ENOENT then TEEC_ERROR_COMMUNICATION else if e = EINVAL then TEEC_ERROR_BAD_PARAMETERS else TEEC_ERROR_GENERIC,
          t\<lparr>te_common := c1\<rparr>)))"

definition TEEC_FinalizeContext :: "(lower \<Rightarrow> 's iclient) \<Rightarrow> u32 option \<Rightarrow> 's tee \<Rightarrow> 's tee" where
  "TEEC_FinalizeContext lo context t = (case context of None \<Rightarrow> t | Some _ \<Rightarrow> snd (with_common (cc_close lo) t))"

definition open_session_error :: "errno \<Rightarrow> u32" where
  "open_session_error e = (case e of ENOENT \<Rightarrow> TEEC_ERROR_ITEM_NOT_FOUND | EACCES \<Rightarrow> TEEC_ERROR_ACCESS_DENIED | EINVAL \<Rightarrow> TEEC_ERROR_NOT_IMPLEMENTED
     | ECONNREFUSED \<Rightarrow> TEEC_ERROR_SD_BLOCKED | ECONNABORTED \<Rightarrow> TEEC_ERROR_TA_LOCKED | ECONNRESET \<Rightarrow> TEEC_ERROR_TARGET_KILLED
     | EBUSY \<Rightarrow> TEEC_ERROR_BUSY | _ \<Rightarrow> TEEC_ERROR_GENERIC)"

text \<open>The end of a failed opening: a session that is still active is closed, the mutex and the page go away.\<close>

definition abandon_session :: "(lower \<Rightarrow> 's iclient) \<Rightarrow> tee_session \<Rightarrow> 's tee \<Rightarrow> tee_session \<times> 's tee" where
  "abandon_session lo s t = (case (if ts_active s then TEEC_CloseSession_imp lo s t else (s, t)) of (s1, t1) \<Rightarrow>
     TEEC_DeleteTci (s1\<lparr>ts_mutex := No_mutex\<rparr>) t1)"

definition login_supported :: "u32 \<Rightarrow> bool" where "login_supported l \<longleftrightarrow> l \<in> {0, 1, 2, 4, 5, 6}"

text \<open>What precedes the page: the error for arguments that are refused.\<close>

definition open_refused :: "u32 option \<Rightarrow> tee_session option \<Rightarrow> u32 \<Rightarrow> bytes option \<Rightarrow> u32 option" where
  "open_refused context session login data =
     (if context = None \<or> session = None then Some TEEC_ERROR_BAD_PARAMETERS
      else if \<not> login_supported login then Some TEEC_ERROR_NOT_IMPLEMENTED
      else if (login = 2 \<or> login = 6) \<and> data = None then Some TEEC_ERROR_BAD_PARAMETERS else None)"

text \<open>From the page on: the session with its page and the locked mutex is opened, and the application is called.\<close>

definition open_on_page ::
    "(lower \<Rightarrow> 's iclient) \<Rightarrow> bytes \<Rightarrow> u32 \<Rightarrow> bytes option \<Rightarrow> tee_session \<Rightarrow> operation option \<Rightarrow> 's tee \<Rightarrow>
      ((u32 \<times> u32 \<times> tee_session \<times> operation option) \<times> 's tee) option" where
  "open_on_page lo uuid login data s ope t =
     (case with_common (cc_openSession lo \<lparr>se_uuid = libUuidToArray uuid, se_is_gp_uuid = True, se_tci = ts_tci s, se_tcilen = 100,
             se_login_type = login, se_login_data = data\<rparr>) t of
        ((Some e, _), t1) \<Rightarrow> (case abandon_session lo s t1 of (s1, t2) \<Rightarrow> Some ((open_session_error e, TEEC_ORIGIN_COMMS, s1, ope), t2))
      | ((None, sid), t1) \<Rightarrow>
        let s1 = s\<lparr>ts_sid := (case sid of None \<Rightarrow> 0 | Some i \<Rightarrow> i), ts_active := True\<rparr> in
        (case write_page (ts_tci s) (\<lambda>p. p\<lparr>op_type := 1\<rparr>) t1 of None \<Rightarrow> None
         | Some t2 \<Rightarrow> (case TEEC_CallTA lo s1 ope TEEC_ORIGIN_API t2 of None \<Rightarrow> None
           | Some ((r, origin, s2, o2), t3) \<Rightarrow>
             if r \<noteq> TEEC_SUCCESS then (case abandon_session lo s2 t3 of (s3, t4) \<Rightarrow> Some ((r, origin, s3, o2), t4))
             else (case te_pages t3 (ts_tci s2) of None \<Rightarrow> None
               | Some p \<Rightarrow>
                 if tci_returnStatus p \<noteq> TEEC_SUCCESS then
                   (case abandon_session lo s2 t3 of (s3, t4) \<Rightarrow> Some ((tci_returnStatus p, tci_returnOrigin p, s3, o2), t4))
                 else Some ((TEEC_SUCCESS, TEEC_ORIGIN_TRUSTED_APP, s2\<lparr>ts_mutex := Unlocked\<rparr>, o2), t3)))))"

definition TEEC_OpenSession ::
    "(lower \<Rightarrow> 's iclient) \<Rightarrow> u32 option \<Rightarrow> tee_session option \<Rightarrow> bytes \<Rightarrow> u32 \<Rightarrow> bytes option \<Rightarrow> operation option \<Rightarrow> 's tee \<Rightarrow>
      ((u32 \<times> u32 \<times> tee_session option \<times> operation option) \<times> 's tee) option" where
  "TEEC_OpenSession lo context session uuid login data ope t =
     (case open_refused context session login data of Some e \<Rightarrow> Some ((e, TEEC_ORIGIN_API, session, ope), t)
      | None \<Rightarrow>
        let s = (the session)\<lparr>ts_active := False, ts_tci := 0\<rparr>; t0 = t\<lparr>te_mmap := tl (te_mmap t)\<rparr> in
        (case (case te_mmap t of [] \<Rightarrow> None | a # _ \<Rightarrow> a) of
           None \<Rightarrow> Some ((TEEC_ERROR_OUT_OF_MEMORY, TEEC_ORIGIN_API, Some s, ope), t0)
         | Some a \<Rightarrow>
           map_option (\<lambda>((r, origin, s1, o1), t1). ((r, origin, Some s1, o1), t1))
             (open_on_page lo uuid login data (s\<lparr>ts_tci := a, ts_mutex := Locked\<rparr>) ope
               (t0\<lparr>te_pages := (te_pages t0)(a \<mapsto> zero_tci\<lparr>tci_destination := uuid\<rparr>)\<rparr>))))"

text \<open>Locking a mutex that is locked or does not exist: the call does not return, or anything may happen.\<close>

definition lock :: "tee_session \<Rightarrow> tee_session option" where
  "lock s = (if ts_mutex s = Unlocked then Some (s\<lparr>ts_mutex := Locked\<rparr>) else None)"

definition TEEC_InvokeCommand ::
    "(lower \<Rightarrow> 's iclient) \<Rightarrow> tee_session option \<Rightarrow> u32 \<Rightarrow> operation option \<Rightarrow> 's tee \<Rightarrow>
      ((u32 \<times> u32 \<times> tee_session option \<times> operation option) \<times> 's tee) option" where
  "TEEC_InvokeCommand lo session cmd ope t = (case session of None \<Rightarrow> Some ((TEEC_ERROR_BAD_PARAMETERS, TEEC_ORIGIN_API, None, ope), t)
     | Some s0 \<Rightarrow>
       if \<not> ts_active s0 then Some ((TEEC_ERROR_BAD_STATE, TEEC_ORIGIN_API, session, ope), t)
       else (case lock s0 of None \<Rightarrow> None
         | Some s \<Rightarrow> (case write_page (ts_tci s) (\<lambda>p. p\<lparr>op_commandId := cmd, op_type := 2\<rparr>) t of None \<Rightarrow> None
           | Some t1 \<Rightarrow> (case TEEC_CallTA lo s ope TEEC_ORIGIN_API t1 of None \<Rightarrow> None
             | Some ((r, origin, s2, o2), t2) \<Rightarrow>
               if r \<noteq> TEEC_SUCCESS then Some ((r, origin, Some (s2\<lparr>ts_mutex := Unlocked\<rparr>), o2), t2)
               else (case te_pages t2 (ts_tci s2) of None \<Rightarrow> None
                 | Some p \<Rightarrow> Some ((tci_returnStatus p, tci_returnOrigin p, Some (s2\<lparr>ts_mutex := Unlocked\<rparr>), o2), t2))))))"

definition destroy_mutex :: "tee_session \<Rightarrow> tee_session option" where
  "destroy_mutex s = (if ts_mutex s = Unlocked then Some (s\<lparr>ts_mutex := No_mutex\<rparr>) else None)"

definition TEEC_CloseSession :: "(lower \<Rightarrow> 's iclient) \<Rightarrow> tee_session option \<Rightarrow> 's tee \<Rightarrow> (tee_session option \<times> 's tee) option" where
  "TEEC_CloseSession lo session t = (case session of None \<Rightarrow> Some (None, t)
     | Some s0 \<Rightarrow>
       (case (if \<not> ts_active s0 then Some (s0, t)
              else (case lock s0 of None \<Rightarrow> None
                | Some s \<Rightarrow> (case write_page (ts_tci s) (\<lambda>p. p\<lparr>op_type := 3\<rparr>) t of None \<Rightarrow> None
                  | Some t1 \<Rightarrow> (case TEEC_CallTA lo s None TEEC_ORIGIN_API t1 of None \<Rightarrow> None
                    | Some ((_, _, s2, _), t2) \<Rightarrow>
                      (case (if ts_active s2 then TEEC_CloseSession_imp lo s2 t2 else (s2, t2)) of (s3, t3) \<Rightarrow>
                        Some (s3\<lparr>ts_mutex := Unlocked\<rparr>, t3)))))) of None \<Rightarrow> None
        | Some (s4, t4) \<Rightarrow> (case destroy_mutex s4 of None \<Rightarrow> None
            | Some s5 \<Rightarrow> (case TEEC_DeleteTci s5 t4 of (s6, t5) \<Rightarrow> Some (Some s6, t5)))))"

definition TEEC_RegisterSharedMemory :: "u32 option \<Rightarrow> sharedMem option \<Rightarrow> u32 \<times> sharedMem option" where
  "TEEC_RegisterSharedMemory context mem = (case mem of None \<Rightarrow> (TEEC_ERROR_BAD_PARAMETERS, None)
     | Some m \<Rightarrow>
       if context = None \<or> sm_buffer m = 0 \<or> sm_flags m AND NOT TEEC_MEM_INOUT \<noteq> 0 \<or> sm_flags m = 0 then (TEEC_ERROR_BAD_PARAMETERS, mem)
       else (TEEC_SUCCESS, Some (m\<lparr>sm_allocated := False\<rparr>)))"

definition TEEC_AllocateSharedMemory :: "u32 option \<Rightarrow> sharedMem option \<Rightarrow> 's tee \<Rightarrow> (u32 \<times> sharedMem option) \<times> 's tee" where
  "TEEC_AllocateSharedMemory context mem t = (case mem of None \<Rightarrow> ((TEEC_ERROR_BAD_PARAMETERS, None), t)
     | Some m \<Rightarrow>
       if context = None \<or> sm_flags m AND NOT TEEC_MEM_INOUT \<noteq> 0 \<or> sm_flags m = 0 then ((TEEC_ERROR_BAD_PARAMETERS, mem), t)
       else (case (case te_malloc t of [] \<Rightarrow> None | a # _ \<Rightarrow> a) of
           None \<Rightarrow> ((TEEC_ERROR_OUT_OF_MEMORY, Some (m\<lparr>sm_buffer := 0\<rparr>)), t\<lparr>te_malloc := tl (te_malloc t)\<rparr>)
         | Some a \<Rightarrow> ((TEEC_SUCCESS, Some (m\<lparr>sm_buffer := a, sm_allocated := True\<rparr>)), t\<lparr>te_malloc := tl (te_malloc t)\<rparr>)))"

definition TEEC_ReleaseSharedMemory :: "sharedMem option \<Rightarrow> 's tee \<Rightarrow> sharedMem option \<times> 's tee" where
  "TEEC_ReleaseSharedMemory mem t = (case mem of None \<Rightarrow> (None, t)
     | Some m \<Rightarrow>
       if sm_allocated m \<and> sm_buffer m \<noteq> 0 then (Some (m\<lparr>sm_buffer := 0, sm_size := 0\<rparr>), t\<lparr>te_freed := sm_buffer m # te_freed t\<rparr>)
       else (mem, t))"

text \<open>The loop that waits for the operation to be started is the first \<open>None\<close>. The session is the one the operation points to.\<close>

definition TEEC_RequestCancellation :: "(lower \<Rightarrow> 's iclient) \<Rightarrow> operation \<Rightarrow> tee_session \<Rightarrow> 's tee \<Rightarrow> (operation \<times> 's tee) option" where
  "TEEC_RequestCancellation lo ope s t =
     (if ope_started ope = 0 then None
      else if ope_started ope > 1 then Some (ope, t)
      else
        let o1 = ope\<lparr>ope_started := 2\<rparr> in
        if \<not> ts_active s then Some (o1, t)
        else (case cc_gpRequestCancellation lo (ts_sid s) (te_pages t) (te_common t) of None \<Rightarrow> None
          | Some (_, m, c) \<Rightarrow> Some (o1, t\<lparr>te_pages := m, te_common := c\<rparr>)))"

end
