(* ===== verification/TeeClientFacts.thy ===== *)
theory TeeClientFacts
  imports TeeClient
begin

text \<open>
  Properties of the GlobalPlatform interface: no call leaves the memory of its session or meets a mutex in the wrong
  state, what becomes of the page of a session, that the buffers of an operation are unmapped as they
  were mapped, and what an application is told about one that died.
\<close>

subsection \<open>Memory that calls keep\<close>

text \<open>The same structures for shared memory and the same pages, with any content.\<close>

definition same_memory :: "'s tee \<Rightarrow> 's tee \<Rightarrow> bool" where
  "same_memory t t1 \<longleftrightarrow> te_shared t1 = te_shared t \<and> dom (te_pages t1) = dom (te_pages t)"

named_theorems keeps_memory \<open>calls that keep the memory\<close>

lemma memory_refl [simp]: "same_memory t t"
  by (simp add: same_memory_def)

lemma memory_trans: "same_memory t t1 \<Longrightarrow> same_memory t1 t2 \<Longrightarrow> same_memory t t2"
  by (simp add: same_memory_def)

lemma memory_common [keeps_memory]: "with_common f t = (x, t1) \<Longrightarrow> same_memory t t1"
  by (auto simp: with_common_def same_memory_def split: prod.splits)

lemma memory_common_snd [simp]: "same_memory t (snd (with_common f t))"
  by (simp add: with_common_def same_memory_def split: prod.split)

lemma memory_page [simp]: "te_pages t a = Some p \<Longrightarrow> same_memory t (t\<lparr>te_pages := (te_pages t)(a \<mapsto> q)\<rparr>)"
  by (auto simp: same_memory_def)

lemma memory_write: "write_page a f t = Some t1 \<Longrightarrow> same_memory t t1"
  by (auto simp: write_page_def split: option.splits)

lemma memory_has: "same_memory t t1 \<Longrightarrow> te_pages t a \<noteq> None \<Longrightarrow> te_pages t1 a \<noteq> None"
  by (auto simp: same_memory_def dom_def set_eq_iff)

lemma write_returns: "te_pages t a \<noteq> None \<Longrightarrow> \<exists>t1. write_page a f t = Some t1"
  by (auto simp: write_page_def)

subsection \<open>Operations whose references are good\<close>

definition reference :: "u32 \<Rightarrow> bool" where
  "reference ty \<longleftrightarrow> ty = TEEC_MEMREF_WHOLE \<or> ty = TEEC_MEMREF_PARTIAL_INPUT \<or> ty = TEEC_MEMREF_PARTIAL_OUTPUT \<or> ty = TEEC_MEMREF_PARTIAL_INOUT"

text \<open>There are four parameters, and those from \<open>i\<close> on that refer to shared memory point to it.\<close>

definition parents_from :: "nat \<Rightarrow> (addr \<Rightarrow> sharedMem option) \<Rightarrow> operation \<Rightarrow> bool" where
  "parents_from i sh ope \<longleftrightarrow> length (ope_params ope) = 4 \<and>
     (\<forall>j\<in>{i..<4}. reference (TEEC_GET_PARAM_TYPE (ope_paramTypes ope) j) \<longrightarrow> sh (pa_word (ope_params ope ! j)) \<noteq> None)"

definition good_operation :: "(addr \<Rightarrow> sharedMem option) \<Rightarrow> operation option \<Rightarrow> bool" where
  "good_operation sh ope \<longleftrightarrow> (case ope of None \<Rightarrow> True | Some x \<Rightarrow> parents_from 0 sh x)"

lemma setup_param_returns: "(reference ty \<Longrightarrow> sh (pa_word p) \<noteq> None) \<Longrightarrow> \<exists>r. setup_param sh ty p imp junk = Some r"
  by (auto simp: setup_param_def reference_def split: sum.split)

lemma setup_params_return: "parents_from i sh ope \<Longrightarrow> setup_params sh ope junk i p bs \<noteq> None"
proof (induction sh ope junk i p bs rule: setup_params.induct)
  case (1 sh ope junk i p bs)
  show ?case
  proof (cases "4 \<le> i")
    case True
    then show ?thesis by (simp add: setup_params.simps)
  next
    case False
    obtain r where r: "setup_param sh (TEEC_GET_PARAM_TYPE (ope_paramTypes ope) i) (ope_params ope ! i) (op_params p ! i) (junk (length bs)) = Some r"
      using setup_param_returns [of "TEEC_GET_PARAM_TYPE (ope_paramTypes ope) i" sh "ope_params ope ! i"] 1(2) False by (fastforce simp: parents_from_def)
    have n: "parents_from (Suc i) sh ope" using 1(2) by (auto simp: parents_from_def)
    show ?thesis
    proof (cases r)
      case (Inl ty)
      then show ?thesis using False r by (simp add: setup_params.simps [of sh ope junk i])
    next
      case (Inr x)
      obtain ty imp b where x: "x = (ty, imp, b)" by (cases x)
      show ?thesis using 1(1) [OF False r Inr _ refl n, of ty imp b] False r Inr x by (simp add: setup_params.simps [of sh ope junk i])
    qed
  qed
qed

lemma unwind_param_returns: "(reference ty \<Longrightarrow> sh (pa_word p) \<noteq> None) \<Longrightarrow> \<exists>r. unwind_param sh copy ty imp p = Some r"
  by (auto simp: unwind_param_def reference_def Let_def)

lemma unwind_params_return: "parents_from i sh ope \<Longrightarrow> unwind_params sh copy i imps ope junk bs \<noteq> None"
proof (induction sh copy i imps ope junk bs rule: unwind_params.induct)
  case (1 sh copy i imps ope junk bs)
  show ?case
  proof (cases "4 \<le> i")
    case True
    then show ?thesis by (simp add: unwind_params.simps)
  next
    case False
    obtain p b where r: "unwind_param sh copy (TEEC_GET_PARAM_TYPE (ope_paramTypes ope) i) (imps ! i) (ope_params ope ! i) = Some (p, b)"
      using unwind_param_returns [of "TEEC_GET_PARAM_TYPE (ope_paramTypes ope) i" sh "ope_params ope ! i" copy "imps ! i"] 1(2) False
      by (fastforce simp: parents_from_def)
    have n: "parents_from (Suc i) sh (ope\<lparr>ope_params := (ope_params ope)[i := p]\<rparr>)" using 1(2) by (auto simp: parents_from_def)
    show ?thesis using 1(1) [OF False r refl n] False r by (simp add: unwind_params.simps [of sh copy i])
  qed
qed

subsection \<open>Calls return\<close>

lemma unwind_returns:
  assumes "te_pages t a \<noteq> None" and "good_operation (te_shared t) ope"
  shows "\<exists>x t1. TEEC_UnwindOperation lo sid a ope copy t = Some (x, t1) \<and> same_memory t t1"
proof (cases ope)
  case None
  then show ?thesis by (simp add: TEEC_UnwindOperation_def)
next
  case (Some o0)
  obtain p where p: "te_pages t a = Some p" using assms(1) by blast
  have "parents_from 0 (te_shared t) (o0\<lparr>ope_started := 2\<rparr>)" using assms(2) Some by (simp add: good_operation_def parents_from_def)
  then obtain r where "unwind_params (te_shared t) copy 0 (op_params p) (o0\<lparr>ope_started := 2\<rparr>) (te_junk t) [] = Some r" using unwind_params_return by blast
  then show ?thesis using Some p by (cases r) (simp add: TEEC_UnwindOperation_def Let_def)
qed

lemma map_params_memory [keeps_memory]: "map_params lo sid bs ps t = (r, t1) \<Longrightarrow> same_memory t t1"
  by (auto simp: map_params_def split: if_splits prod.splits dest: keeps_memory)

lemma setup_buffers_return:
  assumes "te_pages t a \<noteq> None" and "parents_from 0 (te_shared t) ope"
  shows "\<exists>x t1. setup_buffers lo sid a ope p t = Some (x, t1) \<and> same_memory t t1"
proof -
  obtain good p1 bs where s: "setup_params (te_shared t) ope (te_junk t) 0 p [] = Some (good, p1, bs)" using setup_params_return [OF assms(2)] by fastforce
  let ?t1 = "t\<lparr>te_pages := (te_pages t)(a \<mapsto> p1)\<rparr>"
  define c where "c = (case te_cancels t of [] \<Rightarrow> False | c # _ \<Rightarrow> c)"
  let ?p2 = "p1\<lparr>op_isCancelled := c\<rparr>"
  let ?t2 = "?t1\<lparr>te_cancels := tl (te_cancels ?t1), te_pages := (te_pages ?t1)(a \<mapsto> ?p2)\<rparr>"
  have m: "same_memory t ?t1" "same_memory t ?t2" using assms(1) by (auto simp: same_memory_def)
  obtain r t3 where r: "map_params lo sid bs (op_params ?p2) ?t2 = (r, t3)" by fastforce
  have m3: "same_memory t t3" by (rule memory_trans [OF m(2) map_params_memory [OF r]])
  then have "same_memory t (t3\<lparr>te_pages := (te_pages t3)(a \<mapsto> q)\<rparr>)" for q using assms(1) by (auto simp: same_memory_def)
  moreover have "setup_buffers lo sid a ope p t =
     (if \<not> good then Some (Some (TEEC_ERROR_BAD_PARAMETERS, Some TEEC_ORIGIN_API), ?t1)
      else if length bs > MC_MAP_MAX then Some (Some (TEEC_ERROR_EXCESS_DATA, None), ?t1)
      else if c then Some (Some (TEEC_ERROR_CANCEL, Some TEEC_ORIGIN_COMMS), ?t2)
      else (case r of Inl e \<Rightarrow> Some (Some (e, Some TEEC_ORIGIN_COMMS), t3)
        | Inr ps \<Rightarrow> Some (None, t3\<lparr>te_pages := (te_pages t3)(a \<mapsto> ?p2\<lparr>op_params := ps\<rparr>)\<rparr>)))"
    using s r by (cases c; cases r) (simp_all add: setup_buffers_def Let_def c_def [symmetric])
  ultimately show ?thesis using m m3 by (cases r) auto
qed

lemma setup_returns:
  assumes "te_pages t a \<noteq> None" and "good_operation (te_shared t) ope"
  shows "\<exists>r org o1 t1. TEEC_SetupOperation lo sid a ope t = Some ((r, org, o1), t1) \<and> same_memory t t1 \<and> (r = TEEC_SUCCESS \<longrightarrow> good_operation (te_shared t) o1)"
proof -
  obtain p0 where p: "te_pages t a = Some p0" using assms(1) by blast
  let ?p = "p0\<lparr>op_isCancelled := False, op_paramTypes := 0\<rparr>"
  let ?t0 = "t\<lparr>te_pages := (te_pages t)(a \<mapsto> ?p)\<rparr>"
  have m0: "same_memory t ?t0" using p by (rule memory_page)
  have wr: "\<exists>t2. write_page a f t1 = Some t2 \<and> same_memory t t2" if "same_memory t t1" for f t1
  proof -
    have "te_pages t1 a \<noteq> None" by (rule memory_has [OF that assms(1)])
    from write_returns [OF this, of f] show ?thesis using memory_trans [OF that memory_write] by blast
  qed
  show ?thesis
  proof (cases ope)
    case None
    obtain t1 where "write_page a request_ready ?t0 = Some t1" "same_memory t t1" using wr [OF m0] by blast
    then show ?thesis using None p by (simp add: TEEC_SetupOperation_def Let_def good_operation_def)
  next
    case (Some o0)
    let ?o = "o0\<lparr>ope_started := 1\<rparr>"
    have g: "good_operation (te_shared t) (Some ?o)" using assms(2) Some by (simp add: good_operation_def parents_from_def)
    have "te_pages ?t0 a \<noteq> None" "parents_from 0 (te_shared ?t0) ?o" using g by (simp_all add: good_operation_def)
    then obtain x t1 where b: "setup_buffers lo sid a ?o ?p ?t0 = Some (x, t1)" "same_memory ?t0 t1" using setup_buffers_return by blast
    have m1: "same_memory t t1" by (rule memory_trans [OF m0 b(2)])
    show ?thesis
    proof (cases x)
      case None
      obtain t2 where "write_page a request_ready t1 = Some t2" "same_memory t t2" using wr [OF m1] by blast
      then show ?thesis using None b Some p g by (simp add: TEEC_SetupOperation_def Let_def)
    next
      case (Some eo)
      obtain e org where e: "x = Some (e, org)" using Some by (cases eo) simp
      have "good_operation (te_shared t1) (Some ?o)" using g m1 by (simp add: same_memory_def)
      then obtain y t2 where u: "TEEC_UnwindOperation lo sid a (Some ?o) False t1 = Some (y, t2)" "same_memory t1 t2"
        using unwind_returns [OF memory_has [OF m1 assms(1)]] by blast
      obtain t3 where w: "write_page a zero_operation t2 = Some t3" "same_memory t t3" using wr [OF memory_trans [OF m1 u(2)]] by blast
      have "e \<noteq> TEEC_SUCCESS"
        using b(1) e by (auto simp: setup_buffers_def map_params_def Let_def split: option.splits if_splits prod.splits sum.splits)
      then show ?thesis using e b(1) u(1) w p \<open>ope = Some o0\<close> by (cases y) (simp add: TEEC_SetupOperation_def Let_def)
    qed
  qed
qed

lemma await_returns:
  assumes "te_pages t a \<noteq> None" and "\<And>sid tm c. cc_waitNotification lo sid tm c \<noteq> None"
  shows "\<exists>err dead t1. await_answer lo sid a t = Some ((err, dead), t1) \<and> same_memory t t1"
proof -
  obtain n t1 where n: "with_common (cc_notify lo sid) t = (n, t1)" by fastforce
  note m1 = memory_common [OF n]
  show ?thesis
  proof (cases n)
    case (Some e)
    then show ?thesis using n m1 by (auto simp: await_answer_def)
  next
    case None
    obtain ret c2 where w: "cc_waitNotification lo sid (-1) (te_common t1) = Some (ret, c2)" using assms(2) [of sid "-1" "te_common t1"] by auto
    let ?t = "t1\<lparr>te_common := c2, te_answers := tl (te_answers t1)\<rparr>" let ?f = "case te_answers t1 of [] \<Rightarrow> id | f # _ \<Rightarrow> f"
    have m: "same_memory t ?t" using m1 by (simp add: same_memory_def)
    obtain t2 where t2: "write_page a ?f ?t = Some t2" using write_returns [OF memory_has [OF m assms(1)]] by blast
    have m2: "same_memory t t2" by (rule memory_trans [OF m memory_write [OF t2]])
    obtain q t3 where q: "with_common (cc_getError lo sid) t2 = (q, t3)" by fastforce
    have m3: "same_memory t t3" by (rule memory_trans [OF m2 memory_common [OF q]])
    show ?thesis using None n w t2 q m2 m3
      by (cases q) (auto simp: await_answer_def Let_def split: option.split)
  qed
qed

text \<open>After a call of the application the session is as before, or it is closed and its page is gone.\<close>

definition page_gone :: "tee_session \<Rightarrow> 's tee \<Rightarrow> tee_session \<Rightarrow> 's tee \<Rightarrow> bool" where
  "page_gone s t s1 t1 \<longleftrightarrow> s1 = s\<lparr>ts_active := False, ts_tci := 0\<rparr> \<and> te_shared t1 = te_shared t \<and> dom (te_pages t1) = dom (te_pages t) - {ts_tci s}"

lemma close_and_delete:
  assumes "ts_tci s \<noteq> 0" and "TEEC_CloseSession_imp lo s t = (s1, t1)" and "TEEC_DeleteTci s1 t1 = (s2, t2)"
  shows "page_gone s t s2 t2"
  using assms by (auto simp: TEEC_CloseSession_imp_def TEEC_DeleteTci_def page_gone_def with_common_def split: prod.splits if_splits)

lemma page_gone_same: "same_memory t t1 \<Longrightarrow> page_gone s t1 s2 t2 \<Longrightarrow> page_gone s t s2 t2"
  by (simp add: page_gone_def same_memory_def)

lemma call_returns:
  assumes "te_pages t (ts_tci s) \<noteq> None" and "ts_tci s \<noteq> 0" and "good_operation (te_shared t) ope" and wr: "\<And>sid tm c. cc_waitNotification lo sid tm c \<noteq> None"
  shows "\<exists>r org s1 o1 t1. TEEC_CallTA lo s ope origin t = Some ((r, org, s1, o1), t1) \<and>
    (s1 = s \<and> same_memory t t1 \<or> r \<noteq> TEEC_SUCCESS \<and> page_gone s t s1 t1)"
proof -
  obtain r org o1 t1 where a: "TEEC_SetupOperation lo (ts_sid s) (ts_tci s) ope t = Some ((r, org, o1), t1)" "same_memory t t1"
    "r = TEEC_SUCCESS \<longrightarrow> good_operation (te_shared t) o1"
    using setup_returns [OF assms(1,3)] by blast
  show ?thesis
  proof (cases "r = TEEC_SUCCESS")
    case False
    then show ?thesis using a by (simp add: TEEC_CallTA_def Let_def)
  next
    case True
    obtain err dead t2 where b: "await_answer lo (ts_sid s) (ts_tci s) t1 = Some ((err, dead), t2)" "same_memory t1 t2"
      using await_returns [where lo = lo, OF memory_has [OF a(2) assms(1)] wr] by blast
    have m2: "same_memory t t2" by (rule memory_trans [OF a(2) b(2)])
    have "good_operation (te_shared t2) o1" using a(3) True m2 by (simp add: same_memory_def)
    then obtain x t3 where c: "TEEC_UnwindOperation lo (ts_sid s) (ts_tci s) o1 (err = TEEC_SUCCESS) t2 = Some (x, t3)" "same_memory t2 t3"
      using unwind_returns [OF memory_has [OF m2 assms(1)]] by blast
    have m3: "same_memory t t3" by (rule memory_trans [OF m2 c(2)])
    obtain x1 org2 o2 where x: "x = (x1, org2, o2)" by (cases x)
    obtain s1 t4 where d: "TEEC_CloseSession_imp lo s t3 = (s1, t4)" by fastforce
    obtain s2 t5 where e: "TEEC_DeleteTci s1 t4 = (s2, t5)" by fastforce
    have g: "page_gone s t s2 t5" by (rule page_gone_same [OF m3 close_and_delete [OF assms(2) d e]])
    show ?thesis using a b c x d e True m3 g by (cases "err = TEEC_SUCCESS") (simp_all add: TEEC_CallTA_def Let_def)
  qed
qed

subsection \<open>Sessions\<close>

definition session_live :: "'s tee \<Rightarrow> tee_session \<Rightarrow> bool" where
  "session_live t s \<longleftrightarrow> ts_active s \<and> ts_mutex s = Unlocked \<and> ts_tci s \<noteq> 0 \<and> te_pages t (ts_tci s) \<noteq> None"

text \<open>A session that broke: it is not closed yet, but has no page.\<close>

definition session_broken :: "tee_session \<Rightarrow> bool" where
  "session_broken s \<longleftrightarrow> \<not> ts_active s \<and> ts_mutex s = Unlocked \<and> ts_tci s = 0"

lemma invoke_live:
  assumes "session_live t s" and "good_operation (te_shared t) ope" and "\<And>sid tm c. cc_waitNotification lo sid tm c \<noteq> None"
  shows "\<exists>r org s1 o1 t1. TEEC_InvokeCommand lo (Some s) cmd ope t = Some ((r, org, Some s1, o1), t1) \<and> te_shared t1 = te_shared t \<and>
    (s1 = s \<and> same_memory t t1 \<and> session_live t1 s1 \<or> session_broken s1 \<and> dom (te_pages t1) = dom (te_pages t) - {ts_tci s})"
proof -
  let ?s = "s\<lparr>ts_mutex := Locked\<rparr>"
  have l: "te_pages t (ts_tci s) \<noteq> None" "ts_tci s \<noteq> 0" "ts_active s" "ts_mutex s = Unlocked" using assms(1) by (auto simp: session_live_def)
  obtain t1 where w: "write_page (ts_tci s) (\<lambda>p. p\<lparr>op_commandId := cmd, op_type := 2\<rparr>) t = Some t1" using write_returns [OF l(1)] by blast
  have m1: "same_memory t t1" by (rule memory_write [OF w])
  have "te_pages t1 (ts_tci ?s) \<noteq> None" "ts_tci ?s \<noteq> 0" "good_operation (te_shared t1) ope"
    using memory_has [OF m1 l(1)] l(2) m1 assms(2) by (auto simp: same_memory_def)
  from call_returns [where lo = lo, OF this assms(3)] obtain r org s2 o2 t2 where c: "TEEC_CallTA lo ?s ope TEEC_ORIGIN_API t1 = Some ((r, org, s2, o2), t2)"
    "s2 = ?s \<and> same_memory t1 t2 \<or> r \<noteq> TEEC_SUCCESS \<and> page_gone ?s t1 s2 t2" by blast
  from c(2) show ?thesis
  proof (elim disjE conjE)
    assume s2: "s2 = ?s" and m: "same_memory t1 t2"
    have m2: "same_memory t t2" by (rule memory_trans [OF m1 m])
    obtain p where "te_pages t2 (ts_tci s) = Some p" using memory_has [OF m2 l(1)] by blast
    moreover have "s\<lparr>ts_mutex := Unlocked\<rparr> = s" using l(4) by simp
    ultimately show ?thesis using s2 m2 l w c(1) by (simp add: TEEC_InvokeCommand_def lock_def session_live_def same_memory_def)
  next
    assume "r \<noteq> TEEC_SUCCESS" "page_gone ?s t1 s2 t2"
    then show ?thesis using l w c(1) m1
      by (simp add: TEEC_InvokeCommand_def lock_def page_gone_def session_broken_def same_memory_def)
  qed
qed

lemma invoke_broken: "session_broken s \<Longrightarrow> TEEC_InvokeCommand lo (Some s) cmd ope t = Some ((TEEC_ERROR_BAD_STATE, TEEC_ORIGIN_API, Some s, ope), t)"
  by (simp add: TEEC_InvokeCommand_def session_broken_def)

lemma close_returns:
  assumes "session_live t s \<or> session_broken s" and "\<And>sid tm c. cc_waitNotification lo sid tm c \<noteq> None"
  shows "\<exists>s1 t1. TEEC_CloseSession lo (Some s) t = Some (Some s1, t1) \<and> \<not> ts_active s1 \<and> ts_mutex s1 = No_mutex \<and>
    dom (te_pages t1) = (if ts_active s then dom (te_pages t) - {ts_tci s} else dom (te_pages t))"
proof (cases "ts_active s")
  case False
  then have "session_broken s" using assms(1) by (simp add: session_live_def)
  then show ?thesis by (simp add: TEEC_CloseSession_def destroy_mutex_def TEEC_DeleteTci_def session_broken_def)
next
  case True
  then have l: "te_pages t (ts_tci s) \<noteq> None" "ts_tci s \<noteq> 0" "ts_mutex s = Unlocked"
    using assms(1) by (auto simp: session_live_def session_broken_def)
  let ?s = "s\<lparr>ts_mutex := Locked\<rparr>"
  obtain t1 where w: "write_page (ts_tci s) (\<lambda>p. p\<lparr>op_type := 3\<rparr>) t = Some t1" using write_returns [OF l(1)] by blast
  have m1: "same_memory t t1" by (rule memory_write [OF w])
  have "te_pages t1 (ts_tci ?s) \<noteq> None" "ts_tci ?s \<noteq> 0" "good_operation (te_shared t1) None"
    using memory_has [OF m1 l(1)] l(2) by (auto simp: good_operation_def)
  from call_returns [where lo = lo, OF this assms(2)] obtain r org s2 o2 t2 where c: "TEEC_CallTA lo ?s None TEEC_ORIGIN_API t1 = Some ((r, org, s2, o2), t2)"
    "s2 = ?s \<and> same_memory t1 t2 \<or> r \<noteq> TEEC_SUCCESS \<and> page_gone ?s t1 s2 t2" by blast
  from c(2) show ?thesis
  proof (elim disjE conjE)
    assume s2: "s2 = ?s" and m: "same_memory t1 t2"
    have d: "dom (te_pages t2) = dom (te_pages t)" using m1 m by (simp add: same_memory_def)
    show ?thesis using s2 d l w c(1) True
      by (simp add: TEEC_CloseSession_def lock_def TEEC_CloseSession_imp_def destroy_mutex_def TEEC_DeleteTci_def with_common_def split: prod.split)
  next
    assume "page_gone ?s t1 s2 t2"
    then show ?thesis using l w c(1) m1 True
      by (simp add: TEEC_CloseSession_def lock_def destroy_mutex_def TEEC_DeleteTci_def page_gone_def same_memory_def)
  qed
qed

lemma abandon_live:
  assumes "ts_tci s \<noteq> 0" and "abandon_session lo s t = (s1, t1)"
  shows "\<not> ts_active s1 \<and> te_shared t1 = te_shared t \<and> dom (te_pages t1) = dom (te_pages t) - {ts_tci s}"
  using assms by (auto simp: abandon_session_def TEEC_CloseSession_imp_def TEEC_DeleteTci_def with_common_def split: prod.splits if_splits)

lemma abandon_gone:
  assumes "page_gone s t s1 t1" and "abandon_session lo s1 t1 = (s2, t2)"
  shows "\<not> ts_active s2 \<and> te_shared t2 = te_shared t \<and> dom (te_pages t2) = dom (te_pages t) - {ts_tci s}"
  using assms by (auto simp: abandon_session_def TEEC_CloseSession_imp_def TEEC_DeleteTci_def page_gone_def)

lemma open_on_page_returns:
  assumes "te_pages t (ts_tci s) \<noteq> None" and "ts_tci s \<noteq> 0" and "good_operation (te_shared t) ope" and "\<And>sid tm c. cc_waitNotification lo sid tm c \<noteq> None"
  shows "\<exists>r org s1 o1 t1. open_on_page lo uuid login data s ope t = Some ((r, org, s1, o1), t1) \<and> te_shared t1 = te_shared t \<and>
    (if r = TEEC_SUCCESS then session_live t1 s1 \<and> ts_tci s1 = ts_tci s \<and> dom (te_pages t1) = dom (te_pages t)
     else \<not> ts_active s1 \<and> dom (te_pages t1) = dom (te_pages t) - {ts_tci s})"
proof -
  let ?se = "\<lparr>se_uuid = libUuidToArray uuid, se_is_gp_uuid = True, se_tci = ts_tci s, se_tcilen = 100, se_login_type = login, se_login_data = data\<rparr>"
  obtain e sid t1 where o: "with_common (cc_openSession lo ?se) t = ((e, sid), t1)" by (metis surj_pair)
  note m1 = memory_common [OF o]
  show ?thesis
  proof (cases e)
    case (Some e)
    obtain s1 t2 where a: "abandon_session lo s t1 = (s1, t2)" by fastforce
    have "open_session_error e \<noteq> TEEC_SUCCESS" by (cases e) (simp_all add: open_session_error_def)
    then show ?thesis using o Some a abandon_live [OF assms(2) a] m1 by (simp add: open_on_page_def same_memory_def)
  next
    case None
    let ?s = "s\<lparr>ts_sid := (case sid of None \<Rightarrow> 0 | Some i \<Rightarrow> i), ts_active := True\<rparr>"
    obtain t2 where w: "write_page (ts_tci s) (\<lambda>p. p\<lparr>op_type := 1\<rparr>) t1 = Some t2" using write_returns [OF memory_has [OF m1 assms(1)]] by blast
    have m2: "same_memory t t2" by (rule memory_trans [OF m1 memory_write [OF w]])
    have "te_pages t2 (ts_tci ?s) \<noteq> None" "ts_tci ?s \<noteq> 0" "good_operation (te_shared t2) ope"
      using memory_has [OF m2 assms(1)] assms(2,3) m2 by (auto simp: same_memory_def)
    from call_returns [where lo = lo, OF this assms(4)] obtain r org s2 o2 t3 where c: "TEEC_CallTA lo ?s ope TEEC_ORIGIN_API t2 = Some ((r, org, s2, o2), t3)"
      "s2 = ?s \<and> same_memory t2 t3 \<or> r \<noteq> TEEC_SUCCESS \<and> page_gone ?s t2 s2 t3" by blast
    obtain s3 t4 where a: "abandon_session lo s2 t3 = (s3, t4)" by fastforce
    from c(2) show ?thesis
    proof (elim disjE conjE)
      assume s2: "s2 = ?s" and m: "same_memory t2 t3"
      have m3: "same_memory t t3" by (rule memory_trans [OF m2 m])
      obtain p where p: "te_pages t3 (ts_tci s) = Some p" using memory_has [OF m3 assms(1)] by blast
      have "ts_tci s2 \<noteq> 0" using s2 assms(2) by simp
      note ab = abandon_live [OF this a]
      show ?thesis using o None w c(1) s2 p a ab m3 assms(2)
        by (cases "r = TEEC_SUCCESS"; cases "tci_returnStatus p = TEEC_SUCCESS") (auto simp: open_on_page_def Let_def same_memory_def session_live_def)
    next
      assume r: "r \<noteq> TEEC_SUCCESS" and g: "page_gone ?s t2 s2 t3"
      show ?thesis using o None w c(1) r a abandon_gone [OF g a] m2 by (simp add: open_on_page_def Let_def same_memory_def)
    qed
  qed
qed

text \<open>Commands one after the other on a session.\<close>

fun invoke_all :: "(lower \<Rightarrow> 's iclient) \<Rightarrow> tee_session \<Rightarrow> (u32 \<times> operation option) list \<Rightarrow> 's tee \<Rightarrow> (tee_session \<times> 's tee) option" where
  "invoke_all lo s [] t = Some (s, t)"
| "invoke_all lo s ((cmd, ope) # cs) t = (case TEEC_InvokeCommand lo (Some s) cmd ope t of
     Some ((_, _, Some s1, _), t1) \<Rightarrow> invoke_all lo s1 cs t1 | _ \<Rightarrow> None)"

lemma invoke_all_broken: "session_broken s \<Longrightarrow> invoke_all lo s cs t = Some (s, t)"
  by (induction cs) (auto simp: invoke_broken)

lemma invoke_all_live:
  assumes "session_live t s" and "\<forall>(cmd, ope)\<in>set cs. good_operation (te_shared t) ope" and "\<And>sid tm c. cc_waitNotification lo sid tm c \<noteq> None"
  shows "\<exists>s1 t1. invoke_all lo s cs t = Some (s1, t1) \<and>
    (session_live t1 s1 \<and> ts_tci s1 = ts_tci s \<and> dom (te_pages t1) = dom (te_pages t) \<or> session_broken s1 \<and> dom (te_pages t1) = dom (te_pages t) - {ts_tci s})"
  using assms(1,2)
proof (induction cs arbitrary: s t)
  case (Cons c cs)
  obtain cmd ope where c: "c = (cmd, ope)" by (cases c)
  have g: "good_operation (te_shared t) ope" using Cons.prems(2) c by simp
  obtain r org s1 o1 t1 where i: "TEEC_InvokeCommand lo (Some s) cmd ope t = Some ((r, org, Some s1, o1), t1)" "te_shared t1 = te_shared t"
    "s1 = s \<and> same_memory t t1 \<and> session_live t1 s1 \<or> session_broken s1 \<and> dom (te_pages t1) = dom (te_pages t) - {ts_tci s}"
    using invoke_live [where lo = lo and cmd = cmd, OF Cons.prems(1) g assms(3)] by (elim exE conjE) (rule that)
  from i(3) show ?case
  proof (elim disjE conjE)
    assume s1: "s1 = s" "same_memory t t1" "session_live t1 s1"
    have l: "session_live t1 s" using s1 by simp
    have g1: "\<forall>(cmd, ope)\<in>set cs. good_operation (te_shared t1) ope" using Cons.prems(2) i(2) by simp
    show ?thesis using Cons.IH [OF l g1] c i(1) s1 by (simp add: same_memory_def)
  next
    assume "session_broken s1" "dom (te_pages t1) = dom (te_pages t) - {ts_tci s}"
    then show ?thesis using c i(1) by (simp add: invoke_all_broken)
  qed
qed simp

text \<open>C7. Opening a session, any commands on it, and closing it always return when waiting does: no call leaves the shared memory of its session, locks a mutex twice or uses one
  that was destroyed, whatever the lower layers answer and whatever the trusted application writes. A session that could not be opened, and one that was closed, has
  left no page of shared memory behind, also when it broke in between.\<close>

theorem session_leaves_no_page:
  assumes "open_refused context (Some s) login data = None" and "te_mmap t = Some a # later" and "a \<noteq> 0" and "te_pages t a = None"
    and "good_operation (te_shared t) ope" and "\<forall>(cmd, o2)\<in>set cs. good_operation (te_shared t) o2"
    and "\<And>sid tm c. cc_waitNotification lo sid tm c \<noteq> None"
  shows "\<exists>r org s1 o1 t1. TEEC_OpenSession lo context (Some s) uuid login data ope t = Some ((r, org, Some s1, o1), t1) \<and>
    (if r = TEEC_SUCCESS
     then ts_active s1 \<and> ts_tci s1 = a \<and> (\<exists>s2 t2 s3 t3. invoke_all lo s1 cs t1 = Some (s2, t2) \<and> TEEC_CloseSession lo (Some s2) t2 = Some (Some s3, t3) \<and>
       \<not> ts_active s3 \<and> ts_mutex s3 = No_mutex \<and> dom (te_pages t3) = dom (te_pages t))
     else \<not> ts_active s1 \<and> dom (te_pages t1) = dom (te_pages t))"
proof -
  let ?s = "s\<lparr>ts_active := False, ts_tci := a, ts_mutex := Locked\<rparr>"
  let ?t = "t\<lparr>te_mmap := later, te_pages := (te_pages t)(a \<mapsto> zero_tci\<lparr>tci_destination := uuid\<rparr>)\<rparr>"
  have "te_pages ?t (ts_tci ?s) \<noteq> None" "ts_tci ?s \<noteq> 0" "good_operation (te_shared ?t) ope" using assms(3,5) by simp_all
  note ret = open_on_page_returns [where lo = lo and uuid = uuid and login = login and data = data, OF this assms(7)]
  obtain r org s1 o1 t1 where
    o: "open_on_page lo uuid login data ?s ope ?t = Some ((r, org, s1, o1), t1)" "te_shared t1 = te_shared ?t"
      "if r = TEEC_SUCCESS then session_live t1 s1 \<and> ts_tci s1 = ts_tci ?s \<and> dom (te_pages t1) = dom (te_pages ?t)
       else \<not> ts_active s1 \<and> dom (te_pages t1) = dom (te_pages ?t) - {ts_tci ?s}" using ret by (elim exE conjE) (rule that)
  have opened: "TEEC_OpenSession lo context (Some s) uuid login data ope t = Some ((r, org, Some s1, o1), t1)"
    using assms(1,2) o(1) by (simp add: TEEC_OpenSession_def Let_def)
  have d: "dom (te_pages ?t) - {a} = dom (te_pages t)" using assms(4) by auto
  show ?thesis
  proof (cases "r = TEEC_SUCCESS")
    case False
    then show ?thesis using opened o(3) d by simp
  next
    case True
    then have l: "session_live t1 s1" "ts_tci s1 = a" "dom (te_pages t1) = dom (te_pages ?t)" using o(3) by simp_all
    have g: "\<forall>(cmd, o2)\<in>set cs. good_operation (te_shared t1) o2" using assms(6) o(2) by simp
    obtain s2 t2 where i: "invoke_all lo s1 cs t1 = Some (s2, t2)"
      "session_live t2 s2 \<and> ts_tci s2 = ts_tci s1 \<and> dom (te_pages t2) = dom (te_pages t1) \<or> session_broken s2 \<and> dom (te_pages t2) = dom (te_pages t1) - {ts_tci s1}"
      using invoke_all_live [OF l(1) g assms(7)] by blast
    have lb: "session_live t2 s2 \<or> session_broken s2" using i(2) by blast
    obtain s3 t3 where c: "TEEC_CloseSession lo (Some s2) t2 = Some (Some s3, t3)" "\<not> ts_active s3" "ts_mutex s3 = No_mutex"
      "dom (te_pages t3) = (if ts_active s2 then dom (te_pages t2) - {ts_tci s2} else dom (te_pages t2))"
      using close_returns [where lo = lo, OF lb assms(7)] by blast
    have "dom (te_pages t3) = dom (te_pages t)" using i(2) c(4) l(2,3) d by (auto simp: session_live_def session_broken_def)
    then show ?thesis using True opened l i(1) c by (auto simp: session_live_def)
  qed
qed

text \<open>A lower layer that agrees to everything, and a process over it with an application that answers each command.\<close>

definition willing_client :: "unit iclient" where
  "willing_client = \<lparr>ic_open = \<lambda>s. (None, s), ic_close = \<lambda>s. (None, s), ic_isOpen = \<lambda>_. True, ic_hasOpenSessions = \<lambda>s. Some (None, s),
     ic_openSession = \<lambda>_ s. ((None, Some 0x301), s), ic_openTrustlet = \<lambda>_ s. ((None, Some 0x301), s),
     ic_closeSession = \<lambda>_ s. (None, s), ic_notify = \<lambda>_ s. (None, s), ic_waitNotification = \<lambda>_ _ s. Some (None, s),
     ic_malloc = \<lambda>_ s. ((Some ENOMEM, None), s), ic_free = \<lambda>_ _ s. (None, s),
     ic_map = \<lambda>_ bufs s. ((None, map (\<lambda>b. b\<lparr>mb_sva := 0x100000\<rparr>) bufs), s),
     ic_unmap = \<lambda>_ _ s. (None, s), ic_getError = \<lambda>_ s. ((None, Some 0), s), ic_getVersion = \<lambda>s. ((Inr 0, None), s),
     ic_gpRequestCancellation = \<lambda>_ m s. Some (None, m, s)\<rparr>"

definition agrees :: "tci \<Rightarrow> tci" where "agrees p = p\<lparr>tci_returnOrigin := TEEC_ORIGIN_TRUSTED_APP, tci_returnStatus := TEEC_SUCCESS\<rparr>"

definition sample_tee :: "unit tee" where
  "sample_tee = \<lparr>te_common = \<lparr>open_count = 1, cc_client = Some Lower_driver, open_mode = Open_auto, cc_lower = ()\<rparr>,
     te_pages = \<lambda>_. None, te_shared = \<lambda>_. None, te_mmap = [Some 0x9000], te_malloc = [], te_freed = [], te_cancels = [],
     te_answers = [agrees, agrees, agrees], te_junk = \<lambda>_. \<lparr>mb_va = 0, mb_len = 0, mb_sva = 0, mb_flags = 0\<rparr>, te_word = 0\<rparr>"

definition no_session :: tee_session where "no_session = \<lparr>ts_sid = 0, ts_tci = 0, ts_active = False, ts_mutex = No_mutex\<rparr>"

lemma willing_waits: "cc_waitNotification (\<lambda>_. willing_client) sid tm c \<noteq> None"
  by (simp add: cc_waitNotification_def willing_client_def split: option.split)

lemma sample_open:
  "\<exists>s1 t1. TEEC_OpenSession (\<lambda>_. willing_client) (Some 0) (Some no_session) (replicate 16 7) 0 None None sample_tee = Some ((TEEC_SUCCESS, TEEC_ORIGIN_TRUSTED_APP, Some s1, None), t1)"
  by (simp add: TEEC_OpenSession_def open_refused_def login_supported_def no_session_def sample_tee_def open_on_page_def with_common_def cc_openSession_def
      pass_on_def willing_client_def write_page_def TEEC_CallTA_def TEEC_SetupOperation_def await_answer_def cc_notify_def cc_waitNotification_def
      TEEC_UnwindOperation_def agrees_def Let_def)

lemma session_leaves_no_page_witness:
  "\<exists>s1 t1 s2 t2 s3 t3. TEEC_OpenSession (\<lambda>_. willing_client) (Some 0) (Some no_session) (replicate 16 7) 0 None None sample_tee =
      Some ((TEEC_SUCCESS, TEEC_ORIGIN_TRUSTED_APP, Some s1, None), t1) \<and>
    invoke_all (\<lambda>_. willing_client) s1 [(5, None)] t1 = Some (s2, t2) \<and> TEEC_CloseSession (\<lambda>_. willing_client) (Some s2) t2 = Some (Some s3, t3) \<and>
    dom (te_pages t3) = {}"
proof -
  have r: "open_refused (Some 0) (Some no_session) 0 None = None" by (simp add: open_refused_def login_supported_def)
  have m: "te_mmap sample_tee = Some 0x9000 # []" "te_pages sample_tee 0x9000 = None" "dom (te_pages sample_tee) = {}" by (simp_all add: sample_tee_def)
  obtain s1 t1 where o: "TEEC_OpenSession (\<lambda>_. willing_client) (Some 0) (Some no_session) (replicate 16 7) 0 None None sample_tee =
      Some ((TEEC_SUCCESS, TEEC_ORIGIN_TRUSTED_APP, Some s1, None), t1)" using sample_open by blast
  show ?thesis
    using session_leaves_no_page [where lo = "\<lambda>_. willing_client" and ope = None and cs = "[(5, None)]" and uuid = "replicate 16 7", OF r m(1) _ m(2) _ _ willing_waits] o m(3)
    by (auto simp: good_operation_def)
qed

end
