(* ===== verification/TeeOperationFacts.thy ===== *)
theory TeeOperationFacts
  imports TeeClientFacts
begin

text \<open>
  The parameters of operations of the GlobalPlatform interface: which buffers are mapped for them, that the same ones are
  unmapped, where references may reach, and what an application learns about one that died.
\<close>

subsection \<open>The buffers of an operation\<close>

text \<open>What buffer a parameter stands for, by its address and its length at 32 bits.\<close>

definition param_buffer :: "(addr \<Rightarrow> sharedMem option) \<Rightarrow> u32 \<Rightarrow> param \<Rightarrow> (u64 \<times> u32) option" where
  "param_buffer sh ty p =
     (if ty \<in> {TEEC_MEMREF_TEMP_INPUT, TEEC_MEMREF_TEMP_OUTPUT, TEEC_MEMREF_TEMP_INOUT} then
        if pa_size p \<noteq> 0 \<and> pa_word p \<noteq> 0 then Some (pa_word p, ucast (pa_size p)) else None
      else if ty = TEEC_MEMREF_WHOLE then
        (case sh (pa_word p) of None \<Rightarrow> None | Some m \<Rightarrow> if sm_size m \<noteq> 0 then Some (sm_buffer m, ucast (sm_size m)) else None)
      else if ty \<in> {TEEC_MEMREF_PARTIAL_INPUT, TEEC_MEMREF_PARTIAL_OUTPUT, TEEC_MEMREF_PARTIAL_INOUT} then
        (case sh (pa_word p) of None \<Rightarrow> None | Some m \<Rightarrow> if pa_size p \<noteq> 0 then Some (sm_buffer m + pa_offset p, ucast (pa_size p)) else None)
      else None)"

function buffers_from :: "(addr \<Rightarrow> sharedMem option) \<Rightarrow> operation \<Rightarrow> nat \<Rightarrow> (nat \<times> u64 \<times> u32) list" where
  "buffers_from sh ope i =
     (if i \<ge> 4 then []
      else (case param_buffer sh (TEEC_GET_PARAM_TYPE (ope_paramTypes ope) i) (ope_params ope ! i) of None \<Rightarrow> [] | Some b \<Rightarrow> [(i, b)]) @
        buffers_from sh ope (Suc i))"
  by pat_completeness auto
termination by (relation "measure (\<lambda>(_, _, i). 4 - i)") auto

declare buffers_from.simps [simp del]

lemma buffers_from_same:
  assumes "ope_paramTypes o2 = ope_paramTypes ope" and "\<And>j. i \<le> j \<Longrightarrow> j < 4 \<Longrightarrow> ope_params o2 ! j = ope_params ope ! j"
  shows "buffers_from sh o2 i = buffers_from sh ope i"
  using assms
proof (induction sh ope i rule: buffers_from.induct)
  case (1 sh ope i)
  then show ?case by (cases "4 \<le> i") (simp_all add: buffers_from.simps [of sh _ i])
qed

lemma buffers_from_index: "(j, b) \<in> set (buffers_from sh ope i) \<Longrightarrow> i \<le> j \<and> j < 4 \<and>
    param_buffer sh (TEEC_GET_PARAM_TYPE (ope_paramTypes ope) j) (ope_params ope ! j) = Some b"
proof (induction sh ope i rule: buffers_from.induct)
  case (1 sh ope i)
  then show ?case by (subst (asm) (2) buffers_from.simps) (fastforce split: if_splits option.splits)
qed

lemma buffers_from_distinct: "distinct (map fst (buffers_from sh ope i))"
proof (induction sh ope i rule: buffers_from.induct)
  case (1 sh ope i)
  have "i \<notin> fst ` set (buffers_from sh ope (Suc i))" by (auto dest: buffers_from_index)
  then show ?case using 1 by (subst buffers_from.simps) (simp split: option.split)
qed

lemma buffers_from_complete:
  "i \<le> j \<Longrightarrow> j < 4 \<Longrightarrow> param_buffer sh (TEEC_GET_PARAM_TYPE (ope_paramTypes ope) j) (ope_params ope ! j) = Some b \<Longrightarrow> (j, b) \<in> set (buffers_from sh ope i)"
proof (induction sh ope i rule: buffers_from.induct)
  case (1 sh ope i)
  then show ?case by (cases "i = j") (subst buffers_from.simps, auto)+
qed

subsection \<open>Setting up\<close>

definition seen :: "nat \<times> mc_buffer \<Rightarrow> nat \<times> u64 \<times> u32" where "seen = (\<lambda>(i, b). (i, mb_va b, mb_len b))"

lemma setup_param_buffer:
  assumes "setup_param sh ty p imp junk = Some (Inr (ty1, imp1, b))"
  shows "map_option (\<lambda>b. (mb_va b, mb_len b)) b = param_buffer sh ty p \<and> (ty \<noteq> TEEC_VALUE_INPUT \<and> ty \<noteq> TEEC_VALUE_INOUT \<longrightarrow> imp1 = imp) \<and>
    (reference ty \<longrightarrow> sh (pa_word p) \<noteq> None)"
proof -
  consider "ty \<in> {5, 6, 7}" | "ty = 0xC" | "ty \<in> {0xD, 0xE, 0xF}" | "ty \<in> {1, 3}" | "ty \<notin> {5, 6, 7, 0xC, 0xD, 0xE, 0xF, 1, 3}" by blast
  then show ?thesis
  proof cases
    case 1
    then show ?thesis using assms by (elim insertE emptyE) (auto simp: setup_param_def param_buffer_def temp_buffer_def reference_def)
  next
    case 2
    then show ?thesis using assms by (cases "sh (pa_word p)") (auto simp: setup_param_def param_buffer_def whole_buffer_def reference_def)
  next
    case 3
    then obtain m where m: "sh (pa_word p) = Some m" using assms by (cases "sh (pa_word p)") (auto simp: setup_param_def)
    have "partial_buffer ty p m junk = Inr (ty1, b) \<and> imp1 = imp"
      using 3 assms m by (cases "partial_buffer ty p m junk") (auto simp: setup_param_def)
    then show ?thesis using 3 m by (auto simp: partial_buffer_def param_buffer_def Let_def split: if_splits)
  next
    case 4
    then show ?thesis using assms by (elim insertE emptyE) (auto simp: setup_param_def param_buffer_def reference_def)
  next
    case 5
    then have "b = None \<and> imp1 = imp" using assms by (simp add: setup_param_def split: if_splits)
    then show ?thesis using 5 by (simp add: param_buffer_def reference_def)
  qed
qed

text \<open>The types of parameters that hold a value.\<close>

definition value_type :: "u32 \<Rightarrow> bool" where
  "value_type ty \<longleftrightarrow> ty = TEEC_VALUE_INPUT \<or> ty = TEEC_VALUE_OUTPUT \<or> ty = TEEC_VALUE_INOUT"

lemma setup_params_buffers:
  assumes "setup_params sh ope junk i p bs = Some (True, p1, bs1)" and "length (op_params p) = 4"
  shows "map seen bs1 = map seen bs @ buffers_from sh ope i \<and> length (op_params p1) = 4 \<and>
    (\<forall>j<4. \<not> value_type (TEEC_GET_PARAM_TYPE (ope_paramTypes ope) j) \<longrightarrow> op_params p1 ! j = op_params p ! j) \<and>
    (\<forall>j\<in>{i..<4}. reference (TEEC_GET_PARAM_TYPE (ope_paramTypes ope) j) \<longrightarrow> sh (pa_word (ope_params ope ! j)) \<noteq> None)"
  using assms
proof (induction sh ope junk i p bs rule: setup_params.induct)
  case (1 sh ope junk i p bs)
  show ?case
  proof (cases "4 \<le> i")
    case True
    then show ?thesis using 1(2,3) by (simp add: setup_params.simps [of sh ope junk i] buffers_from.simps [of sh ope i])
  next
    case False
    let ?ty = "TEEC_GET_PARAM_TYPE (ope_paramTypes ope) i"
    obtain ty imp b where r: "setup_param sh ?ty (ope_params ope ! i) (op_params p ! i) (junk (length bs)) = Some (Inr (ty, imp, b))"
      using 1(2) False by (auto simp: setup_params.simps [of sh ope junk i] split: option.splits sum.splits)
    let ?p = "p\<lparr>op_params := (op_params p)[i := imp], op_paramTypes := op_paramTypes p OR push_bit (i * 4) ty\<rparr>"
    let ?bs = "case b of None \<Rightarrow> bs | Some b \<Rightarrow> bs @ [(i, b)]"
    have n: "setup_params sh ope junk (Suc i) ?p ?bs = Some (True, p1, bs1)" using 1(2) False r by (simp add: setup_params.simps [of sh ope junk i])
    note sp = setup_param_buffer [OF r]
    have "map seen bs1 = map seen ?bs @ buffers_from sh ope (Suc i) \<and> length (op_params p1) = 4 \<and>
      (\<forall>j<4. \<not> value_type (TEEC_GET_PARAM_TYPE (ope_paramTypes ope) j) \<longrightarrow> op_params p1 ! j = op_params ?p ! j) \<and>
      (\<forall>j\<in>{Suc i..<4}. reference (TEEC_GET_PARAM_TYPE (ope_paramTypes ope) j) \<longrightarrow> sh (pa_word (ope_params ope ! j)) \<noteq> None)"
      using 1(1) [OF False r refl refl refl n] 1(3) by simp
    moreover have "map seen ?bs @ buffers_from sh ope (Suc i) = map seen bs @ buffers_from sh ope i"
      using sp [THEN conjunct1, symmetric] False by (cases b) (simp_all add: buffers_from.simps [of sh ope i] seen_def)
    moreover have "op_params ?p ! j = op_params p ! j" if "\<not> value_type (TEEC_GET_PARAM_TYPE (ope_paramTypes ope) j)" "j < 4" for j
      using that sp 1(3) by (cases "j = i") (auto simp: value_type_def)
    moreover have "reference ?ty \<longrightarrow> sh (pa_word (ope_params ope ! i)) \<noteq> None" using sp by blast
    moreover have "\<And>j. j \<in> {i..<4} \<Longrightarrow> j = i \<or> j \<in> {Suc i..<4}" by auto
    ultimately show ?thesis by (metis (no_types, lifting))
  qed
qed

subsection \<open>Finishing\<close>

lemma note_addresses_at:
  assumes "length bufs = length bs" and "distinct (map fst bs)" and "\<forall>x\<in>set bs. fst x < length ps" and "\<forall>b\<in>set bufs. mb_va b \<noteq> 0"
  shows "(\<forall>k<length bs. note_addresses bs bufs ps ! fst (bs ! k) = (ps ! fst (bs ! k))\<lparr>pi_a := ucast (mb_sva (bufs ! k)), pi_b := mb_len (bufs ! k)\<rparr>) \<and>
    (\<forall>j. j \<notin> fst ` set bs \<longrightarrow> note_addresses bs bufs ps ! j = ps ! j)"
  using assms
proof (induction bs bufs ps rule: note_addresses.induct)
  case (1 i x "is" b bs ps)
  let ?ps = "ps[i := (ps ! i)\<lparr>pi_a := ucast (mb_sva b), pi_b := mb_len b\<rparr>]"
  have n: "note_addresses ((i, x) # is) (b # bs) ps = note_addresses is bs ?ps" using 1(5) by simp
  have IH: "(\<forall>k<length is. note_addresses is bs ?ps ! fst (is ! k) = (?ps ! fst (is ! k))\<lparr>pi_a := ucast (mb_sva (bs ! k)), pi_b := mb_len (bs ! k)\<rparr>) \<and>
    (\<forall>j. j \<notin> fst ` set is \<longrightarrow> note_addresses is bs ?ps ! j = ?ps ! j)"
    using 1 by simp
  have i: "i \<notin> fst ` set is" "i < length ps" using 1(3,4) by auto
  show ?case
  proof (intro conjI allI impI)
    fix k assume k: "k < length ((i, x) # is)"
    show "note_addresses ((i, x) # is) (b # bs) ps ! fst (((i, x) # is) ! k) =
        (ps ! fst (((i, x) # is) ! k))\<lparr>pi_a := ucast (mb_sva ((b # bs) ! k)), pi_b := mb_len ((b # bs) ! k)\<rparr>"
    proof (cases k)
      case 0
      then show ?thesis using n IH i by simp
    next
      case (Suc m)
      then have "fst (is ! m) \<noteq> i" using i(1) k by (metis Suc_less_eq image_eqI length_Cons nth_mem)
      then show ?thesis using n IH Suc k by simp
    qed
  next
    fix j assume "j \<notin> fst ` set ((i, x) # is)"
    then show "note_addresses ((i, x) # is) (b # bs) ps ! j = ps ! j" using n IH by simp
  qed
qed simp_all

lemma unwind_param_buffer:
  assumes "\<not> value_type ty \<longrightarrow> pi_b imp = (case param_buffer sh ty p of None \<Rightarrow> 0 | Some (va, len) \<Rightarrow> len)"
    and "\<And>va len. param_buffer sh ty p = Some (va, len) \<Longrightarrow> len \<noteq> 0" and "reference ty \<longrightarrow> sh (pa_word p) \<noteq> None"
  shows "\<exists>p1. unwind_param sh copy ty imp p = Some (p1, map_option (\<lambda>(va, len). (va, ucast (pi_a imp), len)) (param_buffer sh ty p))"
proof -
  consider "ty \<in> {5, 6, 7}" | "ty = 0xC" | "ty \<in> {0xD, 0xE, 0xF}" | "ty \<notin> {5, 6, 7, 0xC, 0xD, 0xE, 0xF}" by blast
  then show ?thesis
  proof cases
    case 1
    then have v: "\<not> value_type ty" by (auto simp: value_type_def)
    show ?thesis
    proof (cases "pa_size p \<noteq> 0 \<and> pa_word p \<noteq> 0")
      case True
      then have "param_buffer sh ty p = Some (pa_word p, ucast (pa_size p))" using 1 by (simp add: param_buffer_def)
      then show ?thesis using 1 v assms(1,2) by (auto simp: unwind_param_def Let_def word_gt_0)
    next
      case False
      then have "param_buffer sh ty p = None" using 1 by (simp add: param_buffer_def)
      then show ?thesis using 1 v assms(1) by (auto simp: unwind_param_def Let_def)
    qed
  next
    case 2
    then obtain m where m: "sh (pa_word p) = Some m" using assms(3) by (auto simp: reference_def)
    have v: "\<not> value_type ty" using 2 by (auto simp: value_type_def)
    show ?thesis
    proof (cases "sm_size m = 0")
      case True
      then have "param_buffer sh ty p = None" using 2 m by (simp add: param_buffer_def)
      then show ?thesis using 2 v m assms(1) by (auto simp: unwind_param_def Let_def)
    next
      case False
      then have "param_buffer sh ty p = Some (sm_buffer m, ucast (sm_size m))" using 2 m by (simp add: param_buffer_def)
      then show ?thesis using 2 v m assms(1,2) by (auto simp: unwind_param_def Let_def word_gt_0)
    qed
  next
    case 3
    then obtain m where m: "sh (pa_word p) = Some m" using assms(3) by (auto simp: reference_def)
    have v: "\<not> value_type ty" using 3 by (auto simp: value_type_def)
    show ?thesis
    proof (cases "pa_size p = 0")
      case True
      then have "param_buffer sh ty p = None" using 3 m by (auto simp: param_buffer_def)
      then show ?thesis using 3 v m assms(1) by (auto simp: unwind_param_def Let_def)
    next
      case False
      then have "param_buffer sh ty p = Some (sm_buffer m + pa_offset p, ucast (pa_size p))" using 3 m by (auto simp: param_buffer_def)
      then show ?thesis using 3 v m assms(1,2) by (auto simp: unwind_param_def Let_def word_gt_0)
    qed
  next
    case 4
    then show ?thesis by (simp add: unwind_param_def Let_def param_buffer_def)
  qed
qed

text \<open>What is told about a buffer that is unmapped.\<close>

definition told :: "mc_buffer \<Rightarrow> u64 \<times> u64 \<times> u32" where "told b = (mb_va b, mb_sva b, mb_len b)"

lemma unwind_params_buffers:
  assumes "\<And>j. i \<le> j \<Longrightarrow> j < 4 \<Longrightarrow> \<not> value_type (TEEC_GET_PARAM_TYPE (ope_paramTypes ope) j) \<Longrightarrow>
      pi_b (imps ! j) = (case param_buffer sh (TEEC_GET_PARAM_TYPE (ope_paramTypes ope) j) (ope_params ope ! j) of None \<Rightarrow> 0 | Some (va, len) \<Rightarrow> len)"
    and "\<forall>x\<in>set (buffers_from sh ope i). snd (snd x) \<noteq> 0" and "parents_from i sh ope"
  shows "\<exists>o2 bs2. unwind_params sh copy i imps ope junk bs = Some (o2, bs2) \<and>
    map told bs2 = map told bs @ map (\<lambda>(j, va, len). (va, ucast (pi_a (imps ! j)), len)) (buffers_from sh ope i)"
  using assms
proof (induction sh copy i imps ope junk bs rule: unwind_params.induct)
  case (1 sh copy i imps ope junk bs)
  show ?case
  proof (cases "4 \<le> i")
    case True
    then show ?thesis by (simp add: unwind_params.simps [of sh copy i] buffers_from.simps [of sh ope i])
  next
    case False
    let ?ty = "TEEC_GET_PARAM_TYPE (ope_paramTypes ope) i" let ?p = "ope_params ope ! i"
    have f: "buffers_from sh ope i = (case param_buffer sh ?ty ?p of None \<Rightarrow> [] | Some b \<Rightarrow> [(i, b)]) @ buffers_from sh ope (Suc i)"
      using False by (simp add: buffers_from.simps [of sh ope i])
    have l: "len \<noteq> 0" if "param_buffer sh ?ty ?p = Some (va, len)" for va len using 1(3) that f by auto
    have b: "\<not> value_type ?ty \<longrightarrow> pi_b (imps ! i) = (case param_buffer sh ?ty ?p of None \<Rightarrow> 0 | Some (va, len) \<Rightarrow> len)" using 1(2) False by simp
    have r: "reference ?ty \<longrightarrow> sh (pa_word ?p) \<noteq> None" using 1(4) False by (simp add: parents_from_def)
    obtain p1 where u: "unwind_param sh copy ?ty (imps ! i) ?p = Some (p1, map_option (\<lambda>(va, len). (va, ucast (pi_a (imps ! i)), len)) (param_buffer sh ?ty ?p))"
      using unwind_param_buffer [where copy = copy, OF b _ r] l by blast
    let ?b = "map_option (\<lambda>(va, len). (va, ucast (pi_a (imps ! i)) :: u64, len)) (param_buffer sh ?ty ?p)"
    let ?o = "ope\<lparr>ope_params := (ope_params ope)[i := p1]\<rparr>"
    let ?bs = "case ?b of None \<Rightarrow> bs | Some (va, sva, len) \<Rightarrow> bs @ [(junk (length bs))\<lparr>mb_va := va, mb_sva := sva, mb_len := len\<rparr>]"
    have same: "buffers_from sh ?o (Suc i) = buffers_from sh ope (Suc i)" by (rule buffers_from_same) auto
    have p: "parents_from (Suc i) sh ?o" using 1(4) by (auto simp: parents_from_def)
    have h1: "pi_b (imps ! j) = (case param_buffer sh (TEEC_GET_PARAM_TYPE (ope_paramTypes ?o) j) (ope_params ?o ! j) of None \<Rightarrow> 0 | Some (va, len) \<Rightarrow> len)"
      if "Suc i \<le> j" "j < 4" "\<not> value_type (TEEC_GET_PARAM_TYPE (ope_paramTypes ?o) j)" for j
      using 1(2) [of j] that by simp
    have h2: "\<forall>x\<in>set (buffers_from sh ?o (Suc i)). snd (snd x) \<noteq> 0" using 1(3) f same by auto
    obtain o2 bs2 where n: "unwind_params sh copy (Suc i) imps ?o junk ?bs = Some (o2, bs2)"
      "map told bs2 = map told ?bs @ map (\<lambda>(j, va, len). (va, ucast (pi_a (imps ! j)), len)) (buffers_from sh ?o (Suc i))"
      using 1(1) [OF False u refl h1 h2 p] by blast
    have "map told ?bs = map told bs @ map (\<lambda>(j, va, len). (va, ucast (pi_a (imps ! j)), len)) (case param_buffer sh ?ty ?p of None \<Rightarrow> [] | Some b \<Rightarrow> [(i, b)])"
      by (auto simp: told_def split: option.split)
    then show ?thesis using n False u f same by (simp add: unwind_params.simps [of sh copy i imps ope])
  qed
qed

lemma params_unmapped_as_mapped:
  assumes "setup_params sh ope junk 0 p [] = Some (True, p1, bs)" and "length (op_params p) = 4" and "length (ope_params ope) = 4"
    and "\<forall>i<4. pi_b (op_params p ! i) = 0"
    and "map (\<lambda>b. (mb_va b, mb_len b)) bufs = map (\<lambda>x. (mb_va (snd x), mb_len (snd x))) bs" and "\<forall>b\<in>set bufs. mb_va b \<noteq> 0 \<and> mb_len b \<noteq> 0"
    and "\<And>i. i < 4 \<Longrightarrow> \<not> value_type (TEEC_GET_PARAM_TYPE (ope_paramTypes ope) i) \<Longrightarrow>
      pi_a (imps ! i) = pi_a (note_addresses bs bufs (op_params p1) ! i) \<and> pi_b (imps ! i) = pi_b (note_addresses bs bufs (op_params p1) ! i)"
  shows "\<exists>o2 bs2. unwind_params sh copy 0 imps ope junk2 [] = Some (o2, bs2) \<and>
    map (\<lambda>b. (mb_va b, mb_sva b, mb_len b)) bs2 = map (\<lambda>b. (mb_va b, ucast (ucast (mb_sva b) :: u32), mb_len b)) bufs \<and> length bs2 \<le> MC_MAP_MAX"
proof -
  let ?B = "buffers_from sh ope 0" let ?ps = "note_addresses bs bufs (op_params p1)"
  note sp = setup_params_buffers [OF assms(1,2), simplified]
  have seen: "map seen bs = ?B" using sp by simp
  have fsts: "map fst bs = map fst ?B" using arg_cong [OF seen, of "map fst"] by (simp add: seen_def case_prod_unfold comp_def)
  have len: "length bufs = length bs" using arg_cong [OF assms(5), of length] by simp
  have bnd: "\<forall>x\<in>set bs. fst x < length (op_params p1)"
  proof
    fix x assume "x \<in> set bs"
    then have "seen x \<in> set ?B" using seen by (metis image_eqI set_map)
    then have "fst (seen x) < 4" by (metis buffers_from_index prod.collapse)
    then show "fst x < length (op_params p1)" using sp by (simp add: seen_def case_prod_unfold)
  qed
  have dis: "distinct (map fst bs)" using fsts buffers_from_distinct by simp
  have nz: "\<forall>b\<in>set bufs. mb_va b \<noteq> 0" using assms(6) by blast
  note at = note_addresses_at [OF len dis bnd nz]
  have el: "?B ! k = (fst (bs ! k), mb_va (bufs ! k), mb_len (bufs ! k))" if "k < length bs" for k
  proof -
    have "(mb_va (bufs ! k), mb_len (bufs ! k)) = (mb_va (snd (bs ! k)), mb_len (snd (bs ! k)))"
      using arg_cong [OF assms(5), of "\<lambda>l. l ! k"] that len by simp
    then show ?thesis using that seen [symmetric] by (simp add: seen_def case_prod_unfold)
  qed
  have lenB: "length ?B = length bs" using arg_cong [OF seen, of length] by simp
  have nv: "\<not> value_type (TEEC_GET_PARAM_TYPE (ope_paramTypes ope) (fst (bs ! k)))" if "k < length bs" for k
  proof -
    have "?B ! k \<in> set ?B" using that lenB by simp
    then have "param_buffer sh (TEEC_GET_PARAM_TYPE (ope_paramTypes ope) (fst (bs ! k))) (ope_params ope ! fst (bs ! k)) \<noteq> None"
      unfolding el [OF that] by (auto dest: buffers_from_index)
    then show ?thesis by (auto simp: param_buffer_def value_type_def split: if_splits)
  qed
  have lt: "fst (bs ! k) < 4" if "k < length bs" for k using bnd that sp by simp
  have par: "parents_from 0 sh ope" using assms(3) sp by (auto simp: parents_from_def)
  have h1: "pi_b (imps ! j) = (case param_buffer sh (TEEC_GET_PARAM_TYPE (ope_paramTypes ope) j) (ope_params ope ! j) of None \<Rightarrow> 0 | Some (va, len) \<Rightarrow> len)"
    if "0 \<le> j" "j < 4" "\<not> value_type (TEEC_GET_PARAM_TYPE (ope_paramTypes ope) j)" for j
  proof (cases "param_buffer sh (TEEC_GET_PARAM_TYPE (ope_paramTypes ope) j) (ope_params ope ! j)")
    case None
    then have "j \<notin> fst ` set bs" using fsts buffers_from_index by (metis (no_types, lifting) imageE list.set_map option.distinct(1) prod.collapse)
    then show ?thesis using None at assms(7) [OF that(2,3)] sp that assms(4) by simp
  next
    case (Some b)
    then have "(j, b) \<in> set ?B" using buffers_from_complete that by blast
    then obtain k where k: "k < length bs" "?B ! k = (j, b)" by (metis in_set_conv_nth lenB)
    then have jb: "j = fst (bs ! k)" "b = (mb_va (bufs ! k), mb_len (bufs ! k))" using el [OF k(1)] by simp_all
    have "pi_b (?ps ! j) = mb_len (bufs ! k)" using at k(1) jb(1) by simp
    then show ?thesis using Some jb(2) assms(7) [OF that(2,3)] by simp
  qed
  have h2: "\<forall>x\<in>set ?B. snd (snd x) \<noteq> 0"
  proof
    fix x assume "x \<in> set ?B"
    then obtain k where "k < length bs" "x = ?B ! k" by (metis in_set_conv_nth lenB)
    then show "snd (snd x) \<noteq> 0" using el assms(6) len by simp
  qed
  obtain o2 bs2 where u: "unwind_params sh copy 0 imps ope junk2 [] = Some (o2, bs2)"
    "map told bs2 = map (\<lambda>(j, va, len). (va, ucast (pi_a (imps ! j)), len)) ?B"
    using unwind_params_buffers [OF h1 h2 par, of copy junk2 "[]"] by auto
  have "map (\<lambda>(j, va, len). (va, ucast (pi_a (imps ! j)) :: u64, len)) ?B = map (\<lambda>b. (mb_va b, ucast (ucast (mb_sva b) :: u32), mb_len b)) bufs"
  proof (rule nth_equalityI)
    fix k assume "k < length (map (\<lambda>(j, va, len). (va, ucast (pi_a (imps ! j)) :: u64, len)) ?B)"
    then have k: "k < length bs" using lenB by simp
    have "pi_a (imps ! fst (bs ! k)) = ucast (mb_sva (bufs ! k))" using assms(7) [OF lt [OF k] nv [OF k]] at k by simp
    then show "map (\<lambda>(j, va, len). (va, ucast (pi_a (imps ! j)) :: u64, len)) ?B ! k = map (\<lambda>b. (mb_va b, ucast (ucast (mb_sva b) :: u32), mb_len b)) bufs ! k"
      using k lenB len el [OF k] by simp
  qed (use lenB len in simp)
  moreover have "told = (\<lambda>b. (mb_va b, mb_sva b, mb_len b))" by (rule ext) (simp add: told_def)
  moreover have "length bs2 \<le> MC_MAP_MAX"
  proof -
    have "set (map fst ?B) \<subseteq> {..<4}" using buffers_from_index by fastforce
    then have "card (set (map fst ?B)) \<le> 4" using card_mono [of "{..<4 :: nat}"] by simp
    moreover have "length bs2 = length ?B" using arg_cong [OF u(2), of length] by simp
    ultimately show ?thesis using distinct_card [OF buffers_from_distinct, of sh ope 0] by (simp add: MC_MAP_MAX_def)
  qed
  ultimately show ?thesis using u by auto
qed

text \<open>Marking the operation as finished changes nothing of this.\<close>

lemma unwind_params_started:
  "unwind_params sh copy i imps (ope\<lparr>ope_started := k\<rparr>) junk bs =
     map_option (\<lambda>(o2, bs2). (o2\<lparr>ope_started := k\<rparr>, bs2)) (unwind_params sh copy i imps ope junk bs)"
proof (induction sh copy i imps ope junk bs rule: unwind_params.induct)
  case (1 sh copy i imps ope junk bs)
  show ?case
  proof (cases "i \<ge> 4")
    case True
    then show ?thesis by (simp add: unwind_params.simps)
  next
    case False
    show ?thesis
    proof (cases "unwind_param sh copy (TEEC_GET_PARAM_TYPE (ope_paramTypes ope) i) (imps ! i) (ope_params ope ! i)")
      case None
      then show ?thesis using False by (simp add: unwind_params.simps [of sh copy i])
    next
      case (Some x)
      obtain p b where x: "x = (p, b)" by (cases x)
      have u: "ope\<lparr>ope_started := k, ope_params := (ope_params ope)[i := p]\<rparr> = (ope\<lparr>ope_params := (ope_params ope)[i := p]\<rparr>)\<lparr>ope_started := k\<rparr>" by simp
      show ?thesis using 1 [OF False Some x [symmetric]] Some x False by (simp add: unwind_params.simps [of sh copy i] u)
    qed
  qed
qed

text \<open>C12. The buffers of an operation are unmapped as they were mapped. Let the parameters have been set up in a page without lengths of an earlier operation, the lower
  layer have given each buffer its address in the secure world, and the application have answered, with any values and sizes, but left addresses and
  lengths of buffers alone. Then finishing the operation asks the lower layer to unmap exactly the buffers that were mapped, in their order, none of them null or empty, with their addresses,
  the 32 bits the page keeps of their addresses in the secure world, and their lengths. (With a length of an earlier operation in the page more is unmapped, see \<open>stale_length_unmapped\<close>; without an answer nothing is.)\<close>

theorem buffers_unmapped_as_mapped:
  assumes "setup_params (te_shared t) ope junk 0 p [] = Some (True, p1, bs)" and "length (op_params p) = 4" and "length (ope_params ope) = 4"
    and "\<forall>i<4. pi_b (op_params p ! i) = 0"
    and "map (\<lambda>b. (mb_va b, mb_len b)) bufs = map (\<lambda>x. (mb_va (snd x), mb_len (snd x))) bs" and "\<forall>b\<in>set bufs. mb_va b \<noteq> 0 \<and> mb_len b \<noteq> 0"
    and "\<And>i. i < 4 \<Longrightarrow> \<not> value_type (TEEC_GET_PARAM_TYPE (ope_paramTypes ope) i) \<Longrightarrow>
      pi_a (op_params q ! i) = pi_a (note_addresses bs bufs (op_params p1) ! i) \<and> pi_b (op_params q ! i) = pi_b (note_addresses bs bufs (op_params p1) ! i)"
    and "te_pages t a = Some q" and "tci_returnOrigin q \<noteq> 0" and "tci_returnOrigin q = TEEC_ORIGIN_TRUSTED_APP \<or> tci_returnStatus q = TEEC_SUCCESS"
  shows "\<exists>o2 bs2. TEEC_UnwindOperation lo sid a (Some ope) copy t = Some ((tci_returnStatus q, Some (tci_returnOrigin q), Some o2),
      if bs2 = [] then t else snd (with_common (cc_unmap lo sid (buffer_array (te_junk t) bs2)) t)) \<and>
    map (\<lambda>b. (mb_va b, mb_sva b, mb_len b)) bs2 = map (\<lambda>b. (mb_va b, ucast (ucast (mb_sva b) :: u32), mb_len b)) bufs"
proof -
  obtain o2 bs2 where u: "unwind_params (te_shared t) copy 0 (op_params q) ope (te_junk t) [] = Some (o2, bs2)" "length bs2 \<le> MC_MAP_MAX"
    "map (\<lambda>b. (mb_va b, mb_sva b, mb_len b)) bs2 = map (\<lambda>b. (mb_va b, ucast (ucast (mb_sva b) :: u32), mb_len b)) bufs"
    using params_unmapped_as_mapped [OF assms(1-7), of copy "te_junk t"] by blast
  have "unwind_params (te_shared t) copy 0 (op_params q) (ope\<lparr>ope_started := 2\<rparr>) (te_junk t) [] = Some (o2\<lparr>ope_started := 2\<rparr>, bs2)"
    by (simp add: unwind_params_started u(1))
  moreover have "\<not> (tci_returnOrigin q = 0 \<or> tci_returnOrigin q \<noteq> TEEC_ORIGIN_TRUSTED_APP \<and> tci_returnStatus q \<noteq> TEEC_SUCCESS)" using assms(9,10) by blast
  moreover have "\<not> MC_MAP_MAX < length bs2" using u(2) by simp
  ultimately have "TEEC_UnwindOperation lo sid a (Some ope) copy t = Some ((tci_returnStatus q, Some (tci_returnOrigin q), Some (o2\<lparr>ope_started := 2\<rparr>)),
      if bs2 = [] then t else snd (with_common (cc_unmap lo sid (buffer_array (te_junk t) bs2)) t))"
    using assms(8) by (simp only: TEEC_UnwindOperation_def Let_def option.case prod.case if_False)
  then show ?thesis using u(3) by blast
qed

text \<open>An operation with a buffer of sixteen bytes for input and output, mapped at an address of the secure world.\<close>

definition temp_operation :: operation where
  "temp_operation = \<lparr>ope_started = 1, ope_paramTypes = 7,
     ope_params = \<lparr>pa_word = 0x4000, pa_size = 16, pa_offset = 0\<rparr> # replicate 3 \<lparr>pa_word = 0, pa_size = 0, pa_offset = 0\<rparr>\<rparr>"

definition temp_mapped :: mc_buffer where "temp_mapped = \<lparr>mb_va = 0x4000, mb_len = 16, mb_sva = 0x100000, mb_flags = 3\<rparr>"

definition no_junk :: "nat \<Rightarrow> mc_buffer" where "no_junk i = \<lparr>mb_va = 0, mb_len = 0, mb_sva = 0, mb_flags = 0\<rparr>"

lemma temp_types: "TEEC_GET_PARAM_TYPE 7 0 = 7" "TEEC_GET_PARAM_TYPE 7 (Suc 0) = 0" "TEEC_GET_PARAM_TYPE 7 2 = 0" "TEEC_GET_PARAM_TYPE 7 3 = 0"
  by (simp_all add: TEEC_GET_PARAM_TYPE_def)

lemma temp_setup:
  "setup_params (\<lambda>_. None) temp_operation no_junk 0 zero_tci [] = Some (True, zero_tci\<lparr>op_paramTypes := 7\<rparr>, [(0, temp_mapped\<lparr>mb_sva := 0\<rparr>)])"
  by code_simp

text \<open>The page when the application has answered, and what the client holds then.\<close>

definition answered_page :: tci where
  "answered_page = zero_tci\<lparr>op_paramTypes := 7, tci_returnOrigin := TEEC_ORIGIN_TRUSTED_APP,
     op_params := \<lparr>pi_a = 0x100000, pi_b = 16, pi_outputSize = 12\<rparr> # replicate 3 \<lparr>pi_a = 0, pi_b = 0, pi_outputSize = 0\<rparr>\<rparr>"

definition answered_tee :: "unit tee" where
  "answered_tee = sample_tee\<lparr>te_pages := [0x9000 \<mapsto> answered_page], te_junk := no_junk\<rparr>"

lemma buffers_unmapped_as_mapped_witness:
  "\<exists>o2 b. TEEC_UnwindOperation (\<lambda>_. willing_client) 0x301 0x9000 (Some temp_operation) True answered_tee =
      Some ((TEEC_SUCCESS, Some TEEC_ORIGIN_TRUSTED_APP, Some o2),
        snd (with_common (cc_unmap (\<lambda>_. willing_client) 0x301 (buffer_array no_junk [b])) answered_tee)) \<and>
    mb_va b = 0x4000 \<and> mb_sva b = 0x100000 \<and> mb_len b = 16"
proof -
  let ?imps = "\<lparr>pi_a = 0x100000, pi_b = 16, pi_outputSize = 12\<rparr> # replicate 3 \<lparr>pi_a = 0, pi_b = 0, pi_outputSize = 0\<rparr>"
  have z: "length (op_params zero_tci) = 4" "length (ope_params temp_operation) = 4" "\<forall>i<4. pi_b (op_params zero_tci ! i) = 0"
    by (simp_all add: zero_tci_def temp_operation_def)
  have sh: "te_shared answered_tee = (\<lambda>_. None)" "te_junk answered_tee = no_junk" "te_pages answered_tee 0x9000 = Some answered_page"
    by (simp_all add: answered_tee_def sample_tee_def)
  have q: "op_params answered_page = ?imps" "tci_returnOrigin answered_page = TEEC_ORIGIN_TRUSTED_APP" "tci_returnStatus answered_page = TEEC_SUCCESS"
    by (simp_all add: answered_page_def zero_tci_def)
  have n: "note_addresses [(0, temp_mapped\<lparr>mb_sva := 0\<rparr>)] [temp_mapped] (op_params (zero_tci\<lparr>op_paramTypes := 7\<rparr>)) =
      \<lparr>pi_a = 0x100000, pi_b = 16, pi_outputSize = 0\<rparr> # replicate 3 \<lparr>pi_a = 0, pi_b = 0, pi_outputSize = 0\<rparr>"
    by code_simp
  have i: "pi_a (?imps ! i) = pi_a (note_addresses [(0, temp_mapped\<lparr>mb_sva := 0\<rparr>)] [temp_mapped] (op_params (zero_tci\<lparr>op_paramTypes := 7\<rparr>)) ! i) \<and>
      pi_b (?imps ! i) = pi_b (note_addresses [(0, temp_mapped\<lparr>mb_sva := 0\<rparr>)] [temp_mapped] (op_params (zero_tci\<lparr>op_paramTypes := 7\<rparr>)) ! i)" for i
    unfolding n by (cases i) simp_all
  show ?thesis
    using buffers_unmapped_as_mapped [where t = answered_tee and bufs = "[temp_mapped]" and q = answered_page and a = "0x9000" and copy = True and sid = "0x301"
        and lo = "\<lambda>_. willing_client", unfolded sh q, OF temp_setup z] i
    by (auto simp: temp_mapped_def)
qed

subsection \<open>Where references reach\<close>

text \<open>A reference to a part of shared memory that is accepted lies inside of it, unless the sum of its offset and its size wraps.\<close>

lemma reference_inside_parent:
  assumes "partial_buffer ty p m junk = Inr (ty1, Some b)" and "unat (pa_offset p) + unat (pa_size p) < 2 ^ 64"
    and "unat (sm_buffer m) + unat (sm_size m) < 2 ^ 64"
  shows "unat (sm_buffer m) \<le> unat (mb_va b) \<and> unat (mb_va b) + unat (pa_size p) \<le> unat (sm_buffer m) + unat (sm_size m)"
proof -
  have b: "mb_va b = sm_buffer m + pa_offset p" and le: "\<not> pa_offset p + pa_size p > sm_size m"
    using assms(1) by (auto simp: partial_buffer_def Let_def split: if_splits)
  have s: "unat (pa_offset p + pa_size p) = unat (pa_offset p) + unat (pa_size p)" by (rule unat_add_lem [THEN iffD1]) (use assms(2) in simp)
  then have in_parent: "unat (pa_offset p) + unat (pa_size p) \<le> unat (sm_size m)" using le by (simp add: word_less_nat_alt)
  have "unat (sm_buffer m + pa_offset p) = unat (sm_buffer m) + unat (pa_offset p)" by (rule unat_add_lem [THEN iffD1]) (use assms(3) in_parent in simp)
  then show ?thesis using b in_parent by simp
qed

text \<open>When the sum wraps the reference is accepted all the same, and the buffer begins before the shared memory.\<close>

lemma wrapped_reference_accepted:
  assumes "sm_flags m = TEEC_MEM_INOUT" and "sm_size m = 64" and "pa_offset p = - 16" and "pa_size p = 32"
  shows "\<exists>b. partial_buffer TEEC_MEMREF_PARTIAL_INOUT p m junk = Inr (TEEC_MEMREF_TEMP_INOUT, Some b) \<and> mb_va b = sm_buffer m - 16 \<and> mb_len b = 32"
  using assms by (simp add: partial_buffer_def Let_def)

text \<open>A buffer without size is not mapped, but it is unmapped when an earlier operation of the session left a length in its parameter.\<close>

lemma stale_length_unmapped:
  assumes "pa_size p = 0" and "pa_word p \<noteq> 0" and "pi_b imp > 0"
  shows "setup_param sh TEEC_MEMREF_TEMP_INPUT p imp junk = Some (Inr (TEEC_MEMREF_TEMP_INPUT, imp, None)) \<and>
    unwind_param sh copy TEEC_MEMREF_TEMP_INPUT imp p = Some (p, Some (pa_word p, ucast (pi_a imp), pi_b imp))"
  using assms by (simp add: setup_param_def temp_buffer_def unwind_param_def Let_def)

subsection \<open>Applications that died\<close>

text \<open>When the trusted application dies before it has answered anything, the caller is told that the target is dead and the session is closed. The origin that goes
  with the code is meant to be the secure world, but an operation with parameters overwrites it with the communication layer, and then its buffers are
  not unmapped; only without an operation the origin is right.\<close>

lemma dead_application_origin:
  assumes "TEEC_SetupOperation lo (ts_sid s) (ts_tci s) ope t = Some ((TEEC_SUCCESS, org, o1), t1)"
    and "await_answer lo (ts_sid s) (ts_tci s) t1 = Some ((TEEC_ERROR_TARGET_DEAD, True), t2)"
    and "te_pages t2 (ts_tci s) = Some p" and "tci_returnOrigin p = 0" and "ts_tci s \<noteq> 0"
  shows "\<exists>o2. TEEC_CallTA lo s ope origin t =
      Some ((TEEC_ERROR_TARGET_DEAD, if o1 = None then TEEC_ORIGIN_TEE else TEEC_ORIGIN_COMMS, s\<lparr>ts_active := False, ts_tci := 0\<rparr>, o2),
        (snd (with_common (cc_closeSession lo (ts_sid s)) t2))\<lparr>te_pages := (te_pages t2)(ts_tci s := None)\<rparr>)"
  using assms by (cases o1) (auto simp: TEEC_CallTA_def Let_def TEEC_UnwindOperation_def TEEC_CloseSession_imp_def TEEC_DeleteTci_def with_common_def split: prod.split)

text \<open>A lower layer whose trusted application panics.\<close>

definition panicking :: "unit iclient" where
  "panicking = willing_client\<lparr>ic_waitNotification := \<lambda>_ _ s. Some (Some ECOMM, s), ic_getError := \<lambda>_ s. ((None, Some 300), s)\<rparr>"

definition live_session :: tee_session where "live_session = \<lparr>ts_sid = 0x301, ts_tci = 0x9000, ts_active = True, ts_mutex = Locked\<rparr>"

definition live_tee :: "unit tee" where
  "live_tee = sample_tee\<lparr>te_pages := [0x9000 \<mapsto> zero_tci], te_answers := []\<rparr>"

definition none_operation :: operation where
  "none_operation = \<lparr>ope_started = 0, ope_paramTypes = 0, ope_params = replicate 4 \<lparr>pa_word = 0, pa_size = 0, pa_offset = 0\<rparr>\<rparr>"

lemma dead_application_origin_witness:
  "\<exists>o2 t3. TEEC_CallTA (\<lambda>_. panicking) live_session (Some none_operation) TEEC_ORIGIN_API live_tee =
     Some ((TEEC_ERROR_TARGET_DEAD, TEEC_ORIGIN_COMMS, live_session\<lparr>ts_active := False, ts_tci := 0\<rparr>, o2), t3)"
proof -
  have p: "te_pages live_tee 0x9000 \<noteq> None" "parents_from 0 (te_shared live_tee) none_operation"
    by (simp_all add: live_tee_def parents_from_def none_operation_def TEEC_GET_PARAM_TYPE_def reference_def)
  have sp: "setup_params (\<lambda>_. None) (none_operation\<lparr>ope_started := 1\<rparr>) no_junk 0 zero_tci [] = Some (True, zero_tci, [])"
    by code_simp
  obtain t1 where a: "TEEC_SetupOperation (\<lambda>_. panicking) 0x301 0x9000 (Some none_operation) live_tee = Some ((TEEC_SUCCESS, None, Some (none_operation\<lparr>ope_started := 1\<rparr>)), t1)"
    "te_pages t1 0x9000 = Some (request_ready zero_tci)" "te_common t1 = te_common live_tee" "te_answers t1 = []"
  proof
    have z: "zero_tci\<lparr>op_isCancelled := False, op_paramTypes := 0\<rparr> = zero_tci" "zero_tci\<lparr>op_isCancelled := False\<rparr> = zero_tci" "zero_tci\<lparr>op_params := op_params zero_tci\<rparr> = zero_tci"
      "zero_tci\<lparr>op_paramTypes := 0\<rparr> = zero_tci"
      by (simp_all add: zero_tci_def)
    have j: "(\<lambda>_. \<lparr>mb_va = 0, mb_len = 0, mb_sva = 0, mb_flags = 0\<rparr>) = no_junk" by (rule ext) (simp add: no_junk_def)
    show "TEEC_SetupOperation (\<lambda>_. panicking) 0x301 0x9000 (Some none_operation) live_tee = Some ((TEEC_SUCCESS, None, Some (none_operation\<lparr>ope_started := 1\<rparr>)),
        live_tee\<lparr>te_pages := [0x9000 \<mapsto> request_ready zero_tci]\<rparr>)"
      by (simp add: TEEC_SetupOperation_def setup_buffers_def live_tee_def sample_tee_def Let_def z j sp map_params_def write_page_def MC_MAP_MAX_def)
  qed (simp_all add: live_tee_def)
  have b: "\<exists>t2. await_answer (\<lambda>_. panicking) 0x301 0x9000 t1 = Some ((TEEC_ERROR_TARGET_DEAD, True), t2) \<and> te_pages t2 0x9000 = Some (request_ready zero_tci)"
    using a(2-4)
    by (simp add: await_answer_def with_common_def cc_notify_def pass_on_def cc_waitNotification_def cc_getError_def write_page_def panicking_def willing_client_def
        live_tee_def sample_tee_def Let_def)
  then obtain t2 where b: "await_answer (\<lambda>_. panicking) 0x301 0x9000 t1 = Some ((TEEC_ERROR_TARGET_DEAD, True), t2)" "te_pages t2 0x9000 = Some (request_ready zero_tci)"
    by blast
  have "te_pages t2 (ts_tci live_session) = Some (request_ready zero_tci)" "tci_returnOrigin (request_ready zero_tci) = 0" "ts_tci live_session \<noteq> 0"
    using b(2) by (simp_all add: live_session_def request_ready_def zero_tci_def)
  moreover have "ts_sid live_session = 0x301" "ts_tci live_session = 0x9000" by (simp_all add: live_session_def)
  ultimately show ?thesis
    using dead_application_origin [of "\<lambda>_. panicking" live_session "Some none_operation" live_tee None "Some (none_operation\<lparr>ope_started := 1\<rparr>)" t1 t2 "request_ready zero_tci" TEEC_ORIGIN_API]
      a(1) b(1) by auto
qed

end
