(* ===== verification/ProxyCommon.thy ===== *)
theory ProxyCommon
  imports CommonClient
begin

text \<open>
  What the proxy client and the proxy server share (src/MobiCoreDriverLib/ClientLib/Contrib/proxy_common.h): the methods
  and their messages, the headers, and the classes \<open>Session\<close> and \<open>Buffer\<close>. A message of the protobuf library is a constructor with
  its fields, each of which may be missing; bytes that are no message are \<open>Unparsable\<close>.
\<close>

subsection \<open>Messages\<close>

datatype rpc_method = OPEN_SESSION | OPEN_TRUSTLET | CLOSE_SESSION | NOTIFY | WAIT | MAP | UNMAP | GET_ERROR | GET_VERSION
  | GP_REQUESTCANCELLATION | Other_method

type_synonym sent_buffer = "u64 option \<times> bytes option"

text \<open>A request to open a session has the UUID, whether it is one of GlobalPlatform, the shared memory, and the login with its
  data; one to open a trustlet the provider, the code and the shared memory. The numbers of a version are in the order of the fields.\<close>

datatype message =
    OpenSessionRequest "bytes option" "bool option" "bytes option" "u32 option" "bytes option"
  | OpenTrustletRequest "u32 option" "bytes option" "bytes option"
  | OpenResponse "u32 option"
  | CloseSessionRequest "u32 option"
  | NotifyRequest "u32 option" "bytes option" "sent_buffer list"
  | WaitRequest "u32 option" "int option" "bool option"
  | WaitResponse "bytes option" "sent_buffer list"
  | MapRequest "u32 option" "(u32 option \<times> u32 option) list"
  | MapResponse "u64 option list"
  | UnmapRequest "u32 option" "u64 option list"
  | GetErrorRequest "u32 option"
  | GetErrorResponse "u32 option"
  | GetVersionRequest
  | GetVersionResponse "bytes option" "u32 option list"
  | GpRequestCancellationRequest "u32 option"
  | Empty_response
  | Unparsable

text \<open>Whether bytes are a response of a method: a message without fields has no bytes and is one of all.\<close>

definition response_of :: "rpc_method \<Rightarrow> message \<Rightarrow> bool" where
  "response_of me msg = (case msg of
       OpenResponse _ \<Rightarrow> me = OPEN_SESSION \<or> me = OPEN_TRUSTLET
     | WaitResponse _ _ \<Rightarrow> me = WAIT
     | MapResponse _ \<Rightarrow> me = MAP
     | GetErrorResponse _ \<Rightarrow> me = GET_ERROR
     | GetVersionResponse _ _ \<Rightarrow> me = GET_VERSION
     | Empty_response \<Rightarrow> True
     | _ \<Rightarrow> False)"

definition PROTOCOL_MAGIC :: bytes where "PROTOCOL_MAGIC = ascii ''T7e3''"
definition PROTOCOL_VERSION :: nat where "PROTOCOL_VERSION = 1"

text \<open>The header of a response: an error of the protocol, or whether data follows, and the error of the method.\<close>

record response_header =
  rh_magic :: bytes
  rh_version :: nat
  rh_proto_rc :: "errno + bool"
  rh_method_rc :: "errno option"

definition timeout_max :: int where "timeout_max = 1000"

abbreviation (input) BUFFER_LENGTH_MAX :: u32 where "BUFFER_LENGTH_MAX \<equiv> 0x100000"
abbreviation (input) MC_IO_MAP_INPUT :: u32 where "MC_IO_MAP_INPUT \<equiv> 1"
abbreviation (input) MC_IO_MAP_OUTPUT :: u32 where "MC_IO_MAP_OUTPUT \<equiv> 2"
abbreviation (input) MC_IO_MAP_INOUT :: u32 where "MC_IO_MAP_INOUT \<equiv> 3"

subsection \<open>Buffers and sessions\<close>

datatype buffer_type = No_buffer | Client_buffer | Server_buffer

text \<open>A buffer of the server has memory of its own, \<open>pb_data\<close>; one of the client is at its address in the memory of
  the application.\<close>

record proxy_buffer =
  pb_info :: mc_buffer
  pb_address :: addr
  pb_type :: buffer_type
  pb_data :: bytes

record proxy_session =
  ps_id :: u32
  ps_tci :: "proxy_buffer option"
  ps_buffers :: "proxy_buffer list"

definition client_tci_buffer :: "addr \<Rightarrow> u32 \<Rightarrow> proxy_buffer" where
  "client_tci_buffer address len =
     (if address \<noteq> 0 then \<lparr>pb_info = \<lparr>mb_va = address, mb_len = len, mb_sva = 0, mb_flags = MC_IO_MAP_INOUT\<rparr>,
        pb_address = address, pb_type = Client_buffer, pb_data = []\<rparr>
      else \<lparr>pb_info = \<lparr>mb_va = 0, mb_len = 0, mb_sva = 0, mb_flags = 0\<rparr>, pb_address = 0, pb_type = No_buffer, pb_data = []\<rparr>)"

definition client_buffer :: "mc_buffer \<Rightarrow> proxy_buffer" where
  "client_buffer info = \<lparr>pb_info = info, pb_address = mb_va info, pb_type = Client_buffer, pb_data = []\<rparr>"

definition setSva :: "u64 \<Rightarrow> proxy_buffer \<Rightarrow> proxy_buffer" where
  "setSva sva b = b\<lparr>pb_info := (pb_info b)\<lparr>mb_sva := sva\<rparr>\<rparr>"

abbreviation pb_sva :: "proxy_buffer \<Rightarrow> u64" where "pb_sva b \<equiv> mb_sva (pb_info b)"
abbreviation pb_len :: "proxy_buffer \<Rightarrow> nat" where "pb_len b \<equiv> unat (mb_len (pb_info b))"

definition Session_new :: "u32 \<Rightarrow> proxy_buffer option \<Rightarrow> proxy_session" where
  "Session_new sid tci = \<lparr>ps_id = sid, ps_tci = tci, ps_buffers = []\<rparr>"

definition hasTci :: "proxy_session \<Rightarrow> bool" where "hasTci s \<longleftrightarrow> ps_tci s \<noteq> None"

definition addBuffer :: "proxy_buffer \<Rightarrow> proxy_session \<Rightarrow> proxy_session" where
  "addBuffer b s = s\<lparr>ps_buffers := ps_buffers s @ [b]\<rparr>"

definition findBuffer :: "u64 \<Rightarrow> proxy_session \<Rightarrow> proxy_buffer option" where
  "findBuffer sva s = find (\<lambda>b. pb_sva b = sva) (ps_buffers s)"

definition removeBuffer :: "u64 \<Rightarrow> proxy_session \<Rightarrow> proxy_session option" where
  "removeBuffer sva s = (if findBuffer sva s = None then None
     else Some (s\<lparr>ps_buffers := remove_first (\<lambda>b. pb_sva b = sva) (ps_buffers s)\<rparr>))"

subsection \<open>The memory of an application\<close>

type_synonym memory = "addr \<Rightarrow> u8"

definition read_memory :: "memory \<Rightarrow> addr \<Rightarrow> nat \<Rightarrow> bytes" where
  "read_memory m a n = map (\<lambda>i. m (a + of_nat i)) [0..<n]"

definition write_memory :: "addr \<Rightarrow> bytes \<Rightarrow> memory \<Rightarrow> memory" where
  "write_memory a d m = (\<lambda>x. if unat (x - a) < length d then d ! unat (x - a) else m x)"

lemma length_read [simp]: "length (read_memory m a n) = n"
  by (simp add: read_memory_def)

lemma read_write_memory: "length d \<le> 2 ^ 64 \<Longrightarrow> read_memory (write_memory a d m) a (length d) = d"
  by (rule nth_equalityI) (auto simp: read_memory_def write_memory_def unsigned_of_nat take_bit_nat_eq_self)

text \<open>Memory at some distance is not changed.\<close>

definition disjoint_regions :: "addr \<Rightarrow> nat \<Rightarrow> addr \<Rightarrow> nat \<Rightarrow> bool" where
  "disjoint_regions a n b k \<longleftrightarrow> (\<forall>i<n. k \<le> unat (a + of_nat i - b))"

lemma read_other_memory: "disjoint_regions a n b (length d) \<Longrightarrow> read_memory (write_memory b d m) a n = read_memory m a n"
  by (force simp: read_memory_def write_memory_def disjoint_regions_def)

end
