(* ===== verification/ProxyClient.thy ===== *)
theory ProxyClient
  imports ProxyCommon
begin

text \<open>
  The proxy client (src/MobiCoreDriverLib/ClientLib/Contrib/proxy_client.cpp), the other implementation of \<open>IClient\<close>: it keeps a connection
  to the proxy server for each session and carries the shared memory and the mapped buffers to the server
  with each notification, and back with each wait.
\<close>

subsection \<open>Connections\<close>

text \<open>The sockets. Sending all of a request, or receiving all of a header or of its data, succeeds or fails; it fails with an error number, or
  without one when the peer has closed. Data that is no message is received as \<open>Unparsable\<close>.\<close>

record 's transport =
  tp_connect :: "'s \<Rightarrow> (errno + nat) \<times> 's"
  tp_send :: "nat \<Rightarrow> rpc_method \<Rightarrow> message \<Rightarrow> 's \<Rightarrow> errno option option \<times> 's"
  tp_recv_header :: "nat \<Rightarrow> 's \<Rightarrow> (errno option + response_header) \<times> 's"
  tp_recv_data :: "nat \<Rightarrow> 's \<Rightarrow> (errno option + message) \<times> 's"
  tp_close :: "nat \<Rightarrow> 's \<Rightarrow> 's"

text \<open>A failed call has an error number if it sets one, breaks the connection or not, and may have come with a response.\<close>

datatype call_result = Call_ok "message option" | Call_failed "errno option" bool "message option"

definition proxy_call :: "'s transport \<Rightarrow> nat \<Rightarrow> rpc_method \<Rightarrow> message \<Rightarrow> 's \<Rightarrow> call_result \<times> 's" where
  "proxy_call tp fd me req s = (case tp_send tp fd me req s of
       (Some e, s1) \<Rightarrow> (Call_failed e True None, s1)
     | (None, s1) \<Rightarrow> (case tp_recv_header tp fd s1 of
         (Inl e, s2) \<Rightarrow> (Call_failed e True None, s2)
       | (Inr h, s2) \<Rightarrow>
         if rh_magic h \<noteq> PROTOCOL_MAGIC \<or> rh_version h \<noteq> PROTOCOL_VERSION then (Call_failed None True None, s2)
         else (case rh_proto_rc h of
             Inl e \<Rightarrow> (Call_failed (Some e) True None, s2)
           | Inr False \<Rightarrow> (case rh_method_rc h of None \<Rightarrow> Call_ok None | Some e \<Rightarrow> Call_failed (Some e) False None, s2)
           | Inr True \<Rightarrow> (case tp_recv_data tp fd s2 of
               (Inl e, s3) \<Rightarrow> (Call_failed e True None, s3)
             | (Inr msg, s3) \<Rightarrow>
               (if \<not> response_of me msg then Call_failed None True None
                else case rh_method_rc h of None \<Rightarrow> Call_ok (Some msg) | Some e \<Rightarrow> Call_failed (Some e) False (Some msg), s3)))))"

subsection \<open>The client\<close>

record client_connection =
  co_socket :: nat
  co_broken :: bool
  co_session :: proxy_session

record proxy_version =
  pv_product :: bytes
  pv_numbers :: "u32 list"

text \<open>The client with the memory of its application; \<open>pc_errno\<close> is the error number before a call, \<open>pc_mmap\<close> are the results of \<open>mmap\<close> to
  come, and \<open>pc_junk\<close> is what a structure holds where the caller has written no login data.\<close>

record 's proxyClient =
  pc_net :: 's
  pc_open :: bool
  pc_version :: proxy_version
  pc_connections :: "client_connection list"
  pc_memory :: memory
  pc_errno :: errno
  pc_mmap :: "nat \<Rightarrow> addr option"
  pc_unmapped :: "(addr \<times> u32) list"
  pc_junk :: bytes

definition connection_of :: "u32 \<Rightarrow> client_connection \<Rightarrow> bool" where
  "connection_of sid co \<longleftrightarrow> ps_id (co_session co) = sid"

definition find_connection :: "u32 \<Rightarrow> 's proxyClient \<Rightarrow> client_connection option" where
  "find_connection sid c = find (connection_of sid) (pc_connections c)"

text \<open>Deleting a connection closes its socket.\<close>

definition deleteConnection :: "'s transport \<Rightarrow> u32 \<Rightarrow> 's proxyClient \<Rightarrow> bool \<times> 's proxyClient" where
  "deleteConnection tp sid c = (case find_connection sid c of None \<Rightarrow> (False, c)
     | Some co \<Rightarrow> (True, c\<lparr>pc_net := tp_close tp (co_socket co) (pc_net c), pc_connections := remove_first (connection_of sid) (pc_connections c)\<rparr>))"

fun update_first :: "('a \<Rightarrow> bool) \<Rightarrow> ('a \<Rightarrow> 'a) \<Rightarrow> 'a list \<Rightarrow> 'a list" where
  "update_first P f [] = []"
| "update_first P f (x # xs) = (if P x then f x # xs else x # update_first P f xs)"

definition change_connection :: "u32 \<Rightarrow> (client_connection \<Rightarrow> client_connection) \<Rightarrow> 's proxyClient \<Rightarrow> 's proxyClient" where
  "change_connection sid f c = c\<lparr>pc_connections := update_first (connection_of sid) f (pc_connections c)\<rparr>"

definition change_session :: "u32 \<Rightarrow> (proxy_session \<Rightarrow> proxy_session) \<Rightarrow> 's proxyClient \<Rightarrow> 's proxyClient" where
  "change_session sid f = change_connection sid (\<lambda>co. co\<lparr>co_session := f (co_session co)\<rparr>)"

text \<open>The error number is set to \<open>EHOSTUNREACH\<close> before a call, so it is that one when nothing else sets it.\<close>

definition default_errno :: "errno \<Rightarrow> errno option \<Rightarrow> errno" where
  "default_errno d e = (case e of None \<Rightarrow> d | Some e \<Rightarrow> e)"

text \<open>A call for a session: a connection that broke is deleted.\<close>

definition session_call :: "'s transport \<Rightarrow> u32 \<Rightarrow> rpc_method \<Rightarrow> message \<Rightarrow> 's proxyClient \<Rightarrow> (errno + message option) \<times> 's proxyClient" where
  "session_call tp sid me req c = (case find_connection sid c of None \<Rightarrow> (Inl ENXIO, c)
     | Some co \<Rightarrow> (case proxy_call tp (co_socket co) me req (pc_net c) of
         (Call_ok msg, s) \<Rightarrow> (Inr msg, c\<lparr>pc_net := s\<rparr>)
       | (Call_failed e broke msg, s) \<Rightarrow>
         (Inl (default_errno EHOSTUNREACH e),
          if co_broken co \<or> broke then snd (deleteConnection tp sid (c\<lparr>pc_net := s\<rparr>)) else c\<lparr>pc_net := s\<rparr>)))"

subsection \<open>Opening and closing the client\<close>

definition product_id :: "bytes \<Rightarrow> bytes" where
  "product_id b = (let t = takeWhile (\<lambda>x. x \<noteq> 0) (take 63 b) in t @ replicate (64 - length t) 0)"

definition px_open :: "'s transport \<Rightarrow> 's proxyClient \<Rightarrow> errno option \<times> 's proxyClient" where
  "px_open tp c = (case tp_connect tp (pc_net c) of
       (Inl e, s) \<Rightarrow> (Some e, c\<lparr>pc_net := s\<rparr>)
     | (Inr fd, s) \<Rightarrow> (case proxy_call tp fd GET_VERSION GetVersionRequest s of
         (Call_failed e _ _, s1) \<Rightarrow> (Some (default_errno EHOSTUNREACH e), c\<lparr>pc_net := tp_close tp fd s1\<rparr>)
       | (Call_ok msg, s1) \<Rightarrow>
         (case msg of
            Some (GetVersionResponse (Some product) numbers) \<Rightarrow>
              if length numbers = 8 \<and> None \<notin> set numbers then
                (None, c\<lparr>pc_net := tp_close tp fd s1, pc_open := True, pc_version := \<lparr>pv_product = product_id product, pv_numbers = map the numbers\<rparr>\<rparr>)
              else (Some EHOSTUNREACH, c\<lparr>pc_net := tp_close tp fd s1\<rparr>)
          | _ \<Rightarrow> (Some EHOSTUNREACH, c\<lparr>pc_net := tp_close tp fd s1\<rparr>))))"

text \<open>The connections of sessions stay.\<close>

definition px_close :: "'s proxyClient \<Rightarrow> errno option \<times> 's proxyClient" where
  "px_close c = (None, c\<lparr>pc_open := False\<rparr>)"

definition px_hasOpenSessions :: "'s proxyClient \<Rightarrow> errno option" where
  "px_hasOpenSessions c = (if pc_connections c \<noteq> [] then Some ENOTEMPTY else None)"

subsection \<open>Sessions\<close>

text \<open>The exchange both ways to open a session make over a connection of its own. A socket that could not be connected is not closed.\<close>

definition open_over :: "'s transport \<Rightarrow> rpc_method \<Rightarrow> message \<Rightarrow> addr \<Rightarrow> u32 \<Rightarrow> 's proxyClient \<Rightarrow> (errno option \<times> u32 option) \<times> 's proxyClient" where
  "open_over tp me req tci len c = (case tp_connect tp (pc_net c) of
       (Inl e, s) \<Rightarrow> ((Some e, None), c\<lparr>pc_net := s\<rparr>)
     | (Inr fd, s) \<Rightarrow> (case proxy_call tp fd me req s of
         (Call_failed e _ _, s1) \<Rightarrow> ((Some (default_errno EHOSTUNREACH e), None), c\<lparr>pc_net := tp_close tp fd s1\<rparr>)
       | (Call_ok msg, s1) \<Rightarrow>
         (case msg of
            Some (OpenResponse (Some sid)) \<Rightarrow>
              ((None, Some sid), c\<lparr>pc_net := s1, pc_connections := pc_connections c @ [\<lparr>co_socket = fd, co_broken = False,
                 co_session = Session_new sid (if tci \<noteq> 0 then Some (client_tci_buffer tci len) else None)\<rparr>]\<rparr>)
          | _ \<Rightarrow> ((Some EHOSTUNREACH, None), c\<lparr>pc_net := tp_close tp fd s1\<rparr>))))"

definition sent_tci :: "'s proxyClient \<Rightarrow> addr \<Rightarrow> u32 \<Rightarrow> bytes option" where
  "sent_tci c tci len = (if tci \<noteq> 0 then Some (read_memory (pc_memory c) tci (unat len)) else None)"

definition px_openSession :: "'s transport \<Rightarrow> mc_uuid_session \<Rightarrow> 's proxyClient \<Rightarrow> (errno option \<times> u32 option) \<times> 's proxyClient" where
  "px_openSession tp se c =
     (if (se_tci se \<noteq> 0) = (se_tcilen se = 0) then ((Some EINVAL, None), c)
      else if se_tcilen se > BUFFER_LENGTH_MAX then ((Some EINVAL, None), c)
      else open_over tp OPEN_SESSION
        (OpenSessionRequest (Some (se_uuid se)) (Some (se_is_gp_uuid se)) (sent_tci c (se_tci se) (se_tcilen se)) (Some (se_login_type se))
          (Some (case se_login_data se of None \<Rightarrow> pc_junk c | Some d \<Rightarrow> d)))
        (se_tci se) (se_tcilen se) c)"

text \<open>The error number is not set when the shared memory and its length do not fit. A null pointer is taken to be an empty trustlet.\<close>

definition px_openTrustlet :: "'s transport \<Rightarrow> mc_trustlet \<Rightarrow> 's proxyClient \<Rightarrow> (errno option \<times> u32 option) \<times> 's proxyClient" where
  "px_openTrustlet tp tr c =
     (if (tr_tci tr \<noteq> 0) = (tr_tcilen tr = 0) then ((Some (pc_errno c), None), c)
      else if tr_tcilen tr > BUFFER_LENGTH_MAX then ((Some EINVAL, None), c)
      else open_over tp OPEN_TRUSTLET
        (OpenTrustletRequest (Some (tr_spid tr)) (Some (case tr_buffer tr of None \<Rightarrow> [] | Some b \<Rightarrow> b)) (sent_tci c (tr_tci tr) (tr_tcilen tr)))
        (tr_tci tr) (tr_tcilen tr) c)"

definition px_closeSession :: "'s transport \<Rightarrow> u32 \<Rightarrow> 's proxyClient \<Rightarrow> errno option \<times> 's proxyClient" where
  "px_closeSession tp sid c = (case session_call tp sid CLOSE_SESSION (CloseSessionRequest (Some sid)) c of
       (Inl e, c1) \<Rightarrow> (Some e, c1)
     | (Inr _, c1) \<Rightarrow> (case deleteConnection tp sid c1 of (found, c2) \<Rightarrow> (if found then None else Some ENXIO, c2)))"

text \<open>What goes along with a notification: the shared memory, and the buffers the application lets the trusted side read.\<close>

definition sent_inputs :: "memory \<Rightarrow> proxy_session \<Rightarrow> sent_buffer list" where
  "sent_inputs m s = map (\<lambda>b. (Some (pb_sva b), Some (read_memory m (pb_address b) (pb_len b))))
     (filter (\<lambda>b. mb_flags (pb_info b) AND MC_IO_MAP_INPUT \<noteq> 0) (ps_buffers s))"

definition notify_request :: "u32 \<Rightarrow> memory \<Rightarrow> proxy_session \<Rightarrow> message" where
  "notify_request sid m s = NotifyRequest (Some sid) (map_option (\<lambda>b. read_memory m (pb_address b) (pb_len b)) (ps_tci s)) (sent_inputs m s)"

definition px_notify :: "'s transport \<Rightarrow> u32 \<Rightarrow> 's proxyClient \<Rightarrow> errno option \<times> 's proxyClient" where
  "px_notify tp sid c = (case find_connection sid c of None \<Rightarrow> (Some ENXIO, c)
     | Some co \<Rightarrow> (case session_call tp sid NOTIFY (notify_request sid (pc_memory c) (co_session co)) c of
         (Inl e, c1) \<Rightarrow> (Some e, c1) | (Inr _, c1) \<Rightarrow> (None, c1)))"

subsection \<open>Waiting\<close>

text \<open>The rounds of a wait: the timeout asked for in this round, whether it is a partial one, and what is left.\<close>

definition wait_round :: "int \<Rightarrow> int \<Rightarrow> int \<times> bool \<times> int" where
  "wait_round timeout left =
     (if timeout < 0 then (timeout_max, True, left)
      else if left > timeout_max then (timeout_max, True, left - timeout_max)
      else (left, False, 0))"

text \<open>The outcome of the rounds: whether the last one failed, the response, the error number and whether the connection is broken. A wait without a timeout need not
  end.\<close>

record wait_outcome =
  wo_failed :: bool
  wo_response :: "message option"
  wo_errno :: errno
  wo_broken :: bool

definition newer_response :: "message option \<Rightarrow> message option \<Rightarrow> message option" where
  "newer_response old new = (if new = None then old else new)"

partial_function (option) wait_rounds ::
    "'s transport \<Rightarrow> nat \<Rightarrow> u32 \<Rightarrow> int \<Rightarrow> int \<Rightarrow> message option \<Rightarrow> errno \<Rightarrow> bool \<Rightarrow> 's \<Rightarrow> (wait_outcome \<times> 's) option" where
  "wait_rounds tp fd sid timeout left resp e broken s =
     (case wait_round timeout left of (t, partial, left1) \<Rightarrow>
        (case proxy_call tp fd WAIT (WaitRequest (Some sid) (Some t) (Some partial)) s of
           (Call_ok msg, s1) \<Rightarrow> Some (\<lparr>wo_failed = False, wo_response = newer_response resp msg, wo_errno = e, wo_broken = broken\<rparr>, s1)
         | (Call_failed e1 broke msg, s1) \<Rightarrow>
           if default_errno e e1 \<noteq> ETIME \<or> \<not> partial then
             Some (\<lparr>wo_failed = True, wo_response = newer_response resp msg, wo_errno = default_errno e e1, wo_broken = broken \<or> broke\<rparr>, s1)
           else wait_rounds tp fd sid timeout left1 (newer_response resp msg) (default_errno e e1) (broken \<or> broke) s1))"

text \<open>What came back is copied into the memory of the application, up to the first buffer that does not fit.\<close>

fun update_outputs :: "sent_buffer list \<Rightarrow> proxy_session \<Rightarrow> memory \<Rightarrow> bool \<times> memory" where
  "update_outputs [] s m = (True, m)"
| "update_outputs ((sva, data) # bs) s m =
     (case (sva, data) of
        (Some v, Some d) \<Rightarrow> (case findBuffer v s of
            Some b \<Rightarrow> if length d \<noteq> pb_len b then (False, m) else update_outputs bs s (write_memory (pb_address b) d m)
          | None \<Rightarrow> (False, m))
      | _ \<Rightarrow> (False, m))"

text \<open>A response with shared memory for a session that has none is the outer \<open>None\<close>: a null pointer is used.\<close>

definition update_memory :: "message option \<Rightarrow> proxy_session \<Rightarrow> memory \<Rightarrow> (bool \<times> memory) option" where
  "update_memory resp s m = (case resp of
       Some (WaitResponse tci bs) \<Rightarrow>
         (case tci of
            None \<Rightarrow> Some (update_outputs bs s m)
          | Some d \<Rightarrow> (case ps_tci s of None \<Rightarrow> None
              | Some b \<Rightarrow> Some (if length d \<noteq> pb_len b then (False, m) else update_outputs bs s (write_memory (pb_address b) d m))))
     | _ \<Rightarrow> Some (True, m))"

definition px_waitNotification :: "'s transport \<Rightarrow> u32 \<Rightarrow> int \<Rightarrow> 's proxyClient \<Rightarrow> (errno option \<times> 's proxyClient) option" where
  "px_waitNotification tp sid timeout c = (case find_connection sid c of None \<Rightarrow> Some (Some ENXIO, c)
     | Some co \<Rightarrow> (case wait_rounds tp (co_socket co) sid timeout timeout None EHOSTUNREACH (co_broken co) (pc_net c) of None \<Rightarrow> None
       | Some (w, s) \<Rightarrow>
         let c1 = change_connection sid (\<lambda>co. co\<lparr>co_broken := wo_broken w\<rparr>) (c\<lparr>pc_net := s\<rparr>) in
         if wo_failed w \<and> wo_broken w then Some (Some (wo_errno w), snd (deleteConnection tp sid c1))
         else (case update_memory (wo_response w) (co_session co) (pc_memory c) of None \<Rightarrow> None
           | Some (ok, m) \<Rightarrow> Some (if \<not> ok \<or> wo_failed w then Some (wo_errno w) else None, c1\<lparr>pc_memory := m\<rparr>))))"

subsection \<open>Memory\<close>

definition px_malloc :: "u32 \<Rightarrow> 's proxyClient \<Rightarrow> (errno option \<times> addr option) \<times> 's proxyClient" where
  "px_malloc len c =
     (if len = 0 then ((Some (if last (pv_numbers (pc_version c)) < 0x20000 then ENOMEM else EINVAL), None), c)
      else ((case pc_mmap c 0 of None \<Rightarrow> (Some ENOMEM, None) | Some a \<Rightarrow> (None, Some a)), c\<lparr>pc_mmap := (\<lambda>i. pc_mmap c (Suc i))\<rparr>))"

definition px_free :: "addr \<Rightarrow> u32 \<Rightarrow> 's proxyClient \<Rightarrow> errno option \<times> 's proxyClient" where
  "px_free buffer len c = (None, c\<lparr>pc_unmapped := (buffer, len) # pc_unmapped c\<rparr>)"

abbreviation (input) given_buffers :: "mc_buffer list \<Rightarrow> mc_buffer list" where "given_buffers \<equiv> filter (\<lambda>b. mb_va b \<noteq> 0)"

text \<open>The addresses of the response go to the buffers in turn, up to one that is missing.\<close>

fun take_svas :: "mc_buffer list \<Rightarrow> u64 option list \<Rightarrow> bool \<times> mc_buffer list" where
  "take_svas [] svas = (True, [])"
| "take_svas (b # bs) svas =
     (if mb_va b = 0 then map_prod id (Cons b) (take_svas bs svas)
      else case svas of
          Some v # vs \<Rightarrow> map_prod id (Cons (b\<lparr>mb_sva := v\<rparr>)) (take_svas bs vs)
        | _ \<Rightarrow> (False, b # bs))"

text \<open>The error number for a buffer that is too long is negative.\<close>

definition px_map :: "'s transport \<Rightarrow> u32 \<Rightarrow> mc_buffer list \<Rightarrow> 's proxyClient \<Rightarrow> (errno option \<times> mc_buffer list) \<times> 's proxyClient" where
  "px_map tp sid bufs c = (case find_connection sid c of None \<Rightarrow> ((Some ENXIO, bufs), c)
     | Some co \<Rightarrow>
       if \<exists>b\<in>set (given_buffers bufs). mb_len b > BUFFER_LENGTH_MAX then ((Some Other_errno, bufs), c)
       else (case session_call tp sid MAP (MapRequest (Some sid) (map (\<lambda>b. (Some (mb_len b), Some (mb_flags b))) (given_buffers bufs))) c of
           (Inl e, c1) \<Rightarrow> ((Some e, bufs), c1)
         | (Inr msg, c1) \<Rightarrow>
           (case (case msg of Some (MapResponse svas) \<Rightarrow> svas | _ \<Rightarrow> []) of svas \<Rightarrow>
              if length svas \<noteq> length (given_buffers bufs) then ((Some EHOSTUNREACH, bufs), c1)
              else (case take_svas bufs svas of
                  (False, bufs1) \<Rightarrow> ((Some EHOSTUNREACH, bufs1), c1)
                | (True, bufs1) \<Rightarrow> ((None, bufs1),
                    change_session sid (\<lambda>s. fold (\<lambda>b. addBuffer (client_buffer b)) (given_buffers bufs1) s) c1)))))"

text \<open>Forgetting the buffers stops at one that is not known.\<close>

fun forget_buffers :: "u64 list \<Rightarrow> proxy_session \<Rightarrow> bool \<times> proxy_session" where
  "forget_buffers [] s = (True, s)"
| "forget_buffers (v # vs) s = (case removeBuffer v s of None \<Rightarrow> (False, s) | Some s1 \<Rightarrow> forget_buffers vs s1)"

definition px_unmap :: "'s transport \<Rightarrow> u32 \<Rightarrow> mc_buffer list \<Rightarrow> 's proxyClient \<Rightarrow> errno option \<times> 's proxyClient" where
  "px_unmap tp sid bufs c = (case find_connection sid c of None \<Rightarrow> (Some ENXIO, c)
     | Some co \<Rightarrow>
       if \<exists>b\<in>set (given_buffers bufs). mb_sva b = 0 then (Some EINVAL, c)
       else (case session_call tp sid UNMAP (UnmapRequest (Some sid) (map (\<lambda>b. Some (mb_sva b)) (given_buffers bufs))) c of
           (Inl e, c1) \<Rightarrow> (Some e, c1)
         | (Inr _, c1) \<Rightarrow>
           (if fst (forget_buffers (map mb_sva (given_buffers bufs)) (co_session co)) then None else Some (pc_errno c),
            change_session sid (\<lambda>s. snd (forget_buffers (map mb_sva (given_buffers bufs)) s)) c1)))"

subsection \<open>Errors, versions and cancellation\<close>

definition px_getError :: "'s transport \<Rightarrow> u32 \<Rightarrow> 's proxyClient \<Rightarrow> (errno option \<times> u32 option) \<times> 's proxyClient" where
  "px_getError tp sid c = (case session_call tp sid GET_ERROR (GetErrorRequest (Some sid)) c of
       (Inl e, c1) \<Rightarrow> ((Some e, None), c1)
     | (Inr msg, c1) \<Rightarrow> (case msg of Some (GetErrorResponse (Some v)) \<Rightarrow> (None, Some v) | _ \<Rightarrow> (Some EHOSTUNREACH, None), c1))"

definition version_bytes :: "proxy_version \<Rightarrow> bytes" where
  "version_bytes v = pv_product v @ concat (map enc32 (pv_numbers v))"

definition px_getVersion :: "'s proxyClient \<Rightarrow> (errno + u32) \<times> bytes option" where
  "px_getVersion c = (if \<not> pc_open c then (Inl EBADF, None) else (Inr 0, Some (version_bytes (pc_version c))))"

definition px_gpRequestCancellation :: "'s transport \<Rightarrow> u32 \<Rightarrow> 's proxyClient \<Rightarrow> errno option \<times> 's proxyClient" where
  "px_gpRequestCancellation tp sid c = (case session_call tp sid GP_REQUESTCANCELLATION (GpRequestCancellationRequest (Some sid)) c of
       (Inl e, c1) \<Rightarrow> (Some e, c1) | (Inr _, c1) \<Rightarrow> (None, c1))"

text \<open>The proxy client as the interface that the common client uses. A cancellation leaves the pages of the caller as they are.\<close>

definition proxy_iclient :: "'s transport \<Rightarrow> 's proxyClient iclient" where
  "proxy_iclient tp =
     \<lparr>ic_open = px_open tp, ic_close = px_close, ic_isOpen = pc_open, ic_hasOpenSessions = (\<lambda>c. Some (px_hasOpenSessions c, c)),
      ic_openSession = px_openSession tp, ic_openTrustlet = px_openTrustlet tp, ic_closeSession = px_closeSession tp,
      ic_notify = px_notify tp, ic_waitNotification = px_waitNotification tp, ic_malloc = px_malloc, ic_free = px_free,
      ic_map = px_map tp, ic_unmap = px_unmap tp, ic_getError = px_getError tp, ic_getVersion = (\<lambda>c. (px_getVersion c, c)),
      ic_gpRequestCancellation = (\<lambda>sid m c. case px_gpRequestCancellation tp sid c of (e, c1) \<Rightarrow> Some (e, m, c1))\<rparr>"

end
