(* ===== verification/ProxyServer.thy ===== *)
theory ProxyServer
  imports ProxyClient
begin

text \<open>
  The proxy server (src/MobiCoreDriverLib/ClientLib/Contrib/proxy_server.cpp): a thread for each connection runs the calls of one proxy client
  on a driver client of its own, with copies of the shared memory and the mapped buffers in memory of the
  server. A call that comes to \<open>None\<close> uses memory it must not use, or waits for ever in the driver.
\<close>

subsection \<open>A connection of the server\<close>

text \<open>The driver may be any implementation of the interface. What comes from outside: the results of \<open>mmap\<close> and \<open>malloc\<close>, and what the secure
  world writes into the memory of the server while the server waits. \<open>sv_regions\<close> are the addresses mapped for buffers; \<open>sv_junk\<close> is what an object holds
  whose constructor could not map memory, \<open>sv_errno\<close> the error number that calls leave.\<close>

record 's server_connection =
  sv_driver :: 's
  sv_session :: "proxy_session option"
  sv_mmap :: "nat \<Rightarrow> addr option"
  sv_malloc :: "nat \<Rightarrow> bool"
  sv_regions :: "addr list"
  sv_junk :: proxy_buffer
  sv_errno :: "errno option"
  sv_writes :: "nat \<Rightarrow> addr \<Rightarrow> bytes \<Rightarrow> bytes"

type_synonym answer = "(errno + message option) \<times> errno option"

text \<open>Allocation of a buffer; mapping no bytes fails.\<close>

definition server_buffer :: "nat \<Rightarrow> u32 \<Rightarrow> 's server_connection \<Rightarrow> proxy_buffer \<times> 's server_connection" where
  "server_buffer len flags sv =
     (let sv1 = sv\<lparr>sv_mmap := (\<lambda>i. sv_mmap sv (Suc i))\<rparr>
      in case (if len = 0 then None else sv_mmap sv 0) of
          None \<Rightarrow> ((sv_junk sv)\<lparr>pb_address := 0\<rparr>, sv1)
        | Some a \<Rightarrow> (\<lparr>pb_info = \<lparr>mb_va = a, mb_len = of_nat len, mb_sva = pb_sva (sv_junk sv), mb_flags = flags\<rparr>,
            pb_address = a, pb_type = Server_buffer, pb_data = replicate len 0\<rparr>, sv1\<lparr>sv_regions := a # sv_regions sv\<rparr>))"

definition release_buffer :: "proxy_buffer \<Rightarrow> 's server_connection \<Rightarrow> 's server_connection" where
  "release_buffer b sv = (if pb_type b = Server_buffer then sv\<lparr>sv_regions := remove1 (pb_address b) (sv_regions sv)\<rparr> else sv)"

definition release_buffers :: "proxy_buffer list \<Rightarrow> 's server_connection \<Rightarrow> 's server_connection" where
  "release_buffers bs sv = fold release_buffer bs sv"

definition release_tci :: "proxy_buffer option \<Rightarrow> 's server_connection \<Rightarrow> 's server_connection" where
  "release_tci b sv = (case b of None \<Rightarrow> sv | Some b \<Rightarrow> release_buffer b sv)"

definition end_session :: "'s server_connection \<Rightarrow> 's server_connection" where
  "end_session sv = (case sv_session sv of None \<Rightarrow> sv
     | Some s \<Rightarrow> (release_buffers (ps_buffers s) (release_tci (ps_tci s) sv))\<lparr>sv_session := None\<rparr>)"

text \<open>Writing to and reading from a buffer; \<open>None\<close> is an access through a null pointer.\<close>

definition update_buffer :: "bytes \<Rightarrow> proxy_buffer \<Rightarrow> (bool \<times> proxy_buffer) option" where
  "update_buffer d b =
     (if length d \<noteq> pb_len b then Some (False, b)
      else if pb_type b = No_buffer \<or> d = [] then Some (True, b)
      else if pb_address b = 0 then None else Some (True, b\<lparr>pb_data := d\<rparr>))"

definition read_buffer :: "proxy_buffer \<Rightarrow> bytes option" where
  "read_buffer b = (if pb_address b = 0 then if pb_len b = 0 then Some [] else None else Some (pb_data b))"

text \<open>A buffer made from a string.\<close>

definition string_buffer :: "bytes \<Rightarrow> 's server_connection \<Rightarrow> proxy_buffer \<times> 's server_connection" where
  "string_buffer d sv = (case server_buffer (length d) MC_IO_MAP_INOUT sv of (b, sv1) \<Rightarrow>
     (if pb_address b = 0 then b else b\<lparr>pb_data := d\<rparr>, sv1))"

definition server_tci :: "bytes option \<Rightarrow> 's server_connection \<Rightarrow> proxy_buffer option \<times> 's server_connection" where
  "server_tci d sv = (case d of None \<Rightarrow> (None, sv) | Some d \<Rightarrow> (case string_buffer d sv of (b, sv1) \<Rightarrow> (Some b, sv1)))"

definition tci_address :: "proxy_buffer option \<Rightarrow> addr" where "tci_address b = (case b of None \<Rightarrow> 0 | Some b \<Rightarrow> mb_va (pb_info b))"
definition tci_length :: "proxy_buffer option \<Rightarrow> u32" where "tci_length b = (case b of None \<Rightarrow> 0 | Some b \<Rightarrow> mb_len (pb_info b))"

text \<open>A response without fields has no bytes.\<close>

definition data_of :: "message \<Rightarrow> message option" where
  "data_of msg = (if msg \<in> {WaitResponse None [], MapResponse [], Empty_response} then None else Some msg)"

definition refuse :: "errno \<Rightarrow> 's server_connection \<Rightarrow> answer \<times> 's server_connection" where
  "refuse e sv = ((Inl e, None), sv)"

definition method_error :: "errno \<Rightarrow> 's server_connection \<Rightarrow> answer \<times> 's server_connection" where
  "method_error e sv = ((Inr None, Some e), sv)"

definition answer_with :: "message \<Rightarrow> 's server_connection \<Rightarrow> answer \<times> 's server_connection" where
  "answer_with msg sv = ((Inr (data_of msg), None), sv)"

subsection \<open>Sessions\<close>

text \<open>Opening on a driver call \<open>f\<close>, after the shared memory was copied.\<close>

definition server_opens :: "('s \<Rightarrow> (errno option \<times> u32 option) \<times> 's) \<Rightarrow> proxy_buffer option \<Rightarrow> 's server_connection \<Rightarrow> answer \<times> 's server_connection" where
  "server_opens f tci sv = (case f (sv_driver sv) of
       ((Some e, _), d) \<Rightarrow> method_error e (release_tci tci (sv\<lparr>sv_driver := d\<rparr>))
     | ((None, sid), d) \<Rightarrow>
       (case (case sid of None \<Rightarrow> 0 | Some i \<Rightarrow> i) of sid \<Rightarrow>
          answer_with (OpenResponse (Some sid)) (sv\<lparr>sv_driver := d, sv_session := Some (Session_new sid tci)\<rparr>)))"

definition server_openSession :: "'s iclient \<Rightarrow> message \<Rightarrow> 's server_connection \<Rightarrow> answer \<times> 's server_connection" where
  "server_openSession lo msg sv =
     (if sv_session sv \<noteq> None then refuse EBUSY sv
      else case msg of
          OpenSessionRequest uuid gp tci login data \<Rightarrow>
            if uuid = None \<or> gp = None \<or> login = None \<or> data = None then refuse EINVAL sv
            else if length (the uuid) \<noteq> 16 then refuse EINVAL sv
            else (case server_tci tci sv of (b, sv1) \<Rightarrow>
              if length (the data) \<noteq> 16 then refuse EINVAL (release_tci b sv1)
              else server_opens (ic_openSession lo \<lparr>se_uuid = the uuid, se_is_gp_uuid = the gp, se_tci = tci_address b, se_tcilen = tci_length b,
                se_login_type = the login, se_login_data = data\<rparr>) b sv1)
        | _ \<Rightarrow> refuse EPIPE sv)"

definition server_openTrustlet :: "'s iclient \<Rightarrow> message \<Rightarrow> 's server_connection \<Rightarrow> answer \<times> 's server_connection" where
  "server_openTrustlet lo msg sv =
     (if sv_session sv \<noteq> None then refuse EBUSY sv
      else case msg of
          OpenTrustletRequest spid app tci \<Rightarrow>
            if spid = None \<or> app = None then refuse EINVAL sv
            else let sv0 = sv\<lparr>sv_malloc := (\<lambda>i. sv_malloc sv (Suc i))\<rparr> in
              if \<not> sv_malloc sv 0 then refuse ENOMEM sv0
              else (case server_tci tci sv0 of (b, sv1) \<Rightarrow>
                server_opens (ic_openTrustlet lo \<lparr>tr_spid = the spid, tr_buffer = app, tr_tci = tci_address b, tr_tcilen = tci_length b\<rparr>) b sv1)
        | _ \<Rightarrow> refuse EPIPE sv)"

text \<open>The session of the request is given to the driver, that of the connection is deleted.\<close>

definition server_closeSession :: "'s iclient \<Rightarrow> message \<Rightarrow> 's server_connection \<Rightarrow> answer \<times> 's server_connection" where
  "server_closeSession lo msg sv = (case msg of
       CloseSessionRequest sid \<Rightarrow>
         if sid = None then refuse EINVAL sv
         else if sv_session sv = None then refuse ENOENT sv
         else (case ic_closeSession lo (the sid) (sv_driver sv) of
             (Some e, d) \<Rightarrow> method_error e (sv\<lparr>sv_driver := d\<rparr>)
           | (None, d) \<Rightarrow> answer_with Empty_response (end_session (sv\<lparr>sv_driver := d\<rparr>)))
     | _ \<Rightarrow> refuse EPIPE sv)"

subsection \<open>Notifications\<close>

text \<open>The buffers are updated in turn: an error stops after those before it. Data of another length is ignored.\<close>

fun update_inputs :: "sent_buffer list \<Rightarrow> proxy_session \<Rightarrow> (errno option \<times> proxy_session) option" where
  "update_inputs [] s = Some (None, s)"
| "update_inputs ((sva, data) # bs) s =
     (case sva of None \<Rightarrow> Some (Some EINVAL, s)
      | Some v \<Rightarrow> (case data of None \<Rightarrow> Some (Some EINVAL, s)
        | Some d \<Rightarrow> (case findBuffer v s of None \<Rightarrow> Some (Some EPIPE, s)
          | Some b \<Rightarrow> (case update_buffer d b of None \<Rightarrow> None
            | Some (_, b1) \<Rightarrow> update_inputs bs (s\<lparr>ps_buffers := update_first (\<lambda>b. pb_sva b = v) (\<lambda>_. b1) (ps_buffers s)\<rparr>)))))"

definition update_tci :: "bytes option \<Rightarrow> proxy_session \<Rightarrow> (bool \<times> proxy_session) option" where
  "update_tci d s = (case ps_tci s of None \<Rightarrow> Some (True, s)
     | Some b \<Rightarrow> map_option (\<lambda>(ok, b1). (ok, s\<lparr>ps_tci := Some b1\<rparr>)) (update_buffer (the d) b))"

definition server_notify :: "'s iclient \<Rightarrow> message \<Rightarrow> 's server_connection \<Rightarrow> (answer \<times> 's server_connection) option" where
  "server_notify lo msg sv = (case msg of
       NotifyRequest sid tci bs \<Rightarrow>
         (case sv_session sv of None \<Rightarrow> Some (refuse ENOENT sv)
          | Some s \<Rightarrow>
            if sid = None \<or> hasTci s \<and> tci = None then Some (refuse EINVAL sv)
            else (case update_tci tci s of None \<Rightarrow> None
              | Some (ok, s1) \<Rightarrow>
                let sv1 = sv\<lparr>sv_session := Some s1\<rparr> in
                if \<not> ok \<or> length bs > length (ps_buffers s1) then Some (refuse EINVAL sv1)
                else (case update_inputs bs s1 of None \<Rightarrow> None
                  | Some (Some e, s2) \<Rightarrow> Some (refuse e (sv\<lparr>sv_session := Some s2\<rparr>))
                  | Some (None, s2) \<Rightarrow>
                    Some (case ic_notify lo (the sid) (sv_driver sv) of
                        (Some e, d) \<Rightarrow> method_error e (sv\<lparr>sv_session := Some s2, sv_driver := d\<rparr>)
                      | (None, d) \<Rightarrow> answer_with Empty_response (sv\<lparr>sv_session := Some s2, sv_driver := d\<rparr>)))))
     | _ \<Rightarrow> Some (refuse EPIPE sv))"

text \<open>The secure world writes into the buffers, within their length.\<close>

definition overwrite :: "bytes \<Rightarrow> bytes \<Rightarrow> bytes" where
  "overwrite new old = take (length old) (new @ drop (length new) old)"

definition buffer_written :: "(addr \<Rightarrow> bytes \<Rightarrow> bytes) \<Rightarrow> proxy_buffer \<Rightarrow> proxy_buffer" where
  "buffer_written f b = b\<lparr>pb_data := overwrite (f (pb_address b) (pb_data b)) (pb_data b)\<rparr>"

definition session_written :: "(addr \<Rightarrow> bytes \<Rightarrow> bytes) \<Rightarrow> proxy_session \<Rightarrow> proxy_session" where
  "session_written f s = s\<lparr>ps_tci := map_option (buffer_written f) (ps_tci s), ps_buffers := map (buffer_written f) (ps_buffers s)\<rparr>"

fun read_outputs :: "proxy_buffer list \<Rightarrow> sent_buffer list option" where
  "read_outputs [] = Some []"
| "read_outputs (b # bs) =
     (if mb_flags (pb_info b) AND MC_IO_MAP_OUTPUT = 0 then read_outputs bs
      else case read_buffer b of None \<Rightarrow> None | Some d \<Rightarrow> map_option (Cons (Some (pb_sva b), Some d)) (read_outputs bs))"

definition wait_response :: "proxy_session \<Rightarrow> message option" where
  "wait_response s = (case ps_tci s of
       None \<Rightarrow> map_option (WaitResponse None) (read_outputs (ps_buffers s))
     | Some b \<Rightarrow> (case read_buffer b of None \<Rightarrow> None | Some d \<Rightarrow> map_option (WaitResponse (Some d)) (read_outputs (ps_buffers s))))"

definition server_waitNotification :: "'s iclient \<Rightarrow> message \<Rightarrow> 's server_connection \<Rightarrow> (answer \<times> 's server_connection) option" where
  "server_waitNotification lo msg sv = (case msg of
       WaitRequest sid timeout partial \<Rightarrow>
         if sid = None \<or> timeout = None \<or> partial = None then Some (refuse EINVAL sv)
         else if the timeout < 0 \<or> the timeout > timeout_max then Some (refuse ENOENT sv)
         else (case sv_session sv of None \<Rightarrow> Some (refuse ENOENT sv)
           | Some s0 \<Rightarrow> (case ic_waitNotification lo (the sid) (the timeout) (sv_driver sv) of None \<Rightarrow> None
             | Some (e, d) \<Rightarrow>
               let s = session_written (sv_writes sv 0) s0;
                   sv1 = sv\<lparr>sv_driver := d, sv_session := Some s, sv_writes := (\<lambda>i. sv_writes sv (Suc i))\<rparr>
               in if e = Some ETIME \<and> the partial then Some (method_error ETIME sv1)
                  else (case wait_response s of None \<Rightarrow> None | Some r \<Rightarrow> Some ((Inr (data_of r), e), sv1))))
     | _ \<Rightarrow> Some (refuse EPIPE sv))"

subsection \<open>Mapping\<close>

text \<open>The local buffers: when one is refused those before it are released.\<close>

fun prepare_buffers :: "(u32 option \<times> u32 option) list \<Rightarrow> 's server_connection \<Rightarrow> proxy_buffer list option \<times> 's server_connection" where
  "prepare_buffers [] sv = (Some [], sv)"
| "prepare_buffers ((len, flags) # bs) sv =
     (if len = None \<or> flags = None then (None, sv)
      else if the flags AND MC_IO_MAP_INOUT = 0 \<or> the flags AND NOT MC_IO_MAP_INOUT \<noteq> 0 then (None, sv)
      else case server_buffer (unat (the len)) (the flags) sv of (b, sv1) \<Rightarrow>
        (case prepare_buffers bs sv1 of
           (None, sv2) \<Rightarrow> (None, release_buffer b sv2)
         | (Some bs1, sv2) \<Rightarrow> (Some (b # bs1), sv2)))"

definition map_array :: "mc_buffer \<Rightarrow> proxy_buffer list \<Rightarrow> mc_buffer list" where
  "map_array junk bs = map pb_info bs @ replicate (MC_MAP_MAX - length bs) (no_buffer junk)"

definition server_map :: "'s iclient \<Rightarrow> message \<Rightarrow> 's server_connection \<Rightarrow> answer \<times> 's server_connection" where
  "server_map lo msg sv = (case msg of
       MapRequest sid bs \<Rightarrow>
         if sid = None then refuse EINVAL sv
         else (case sv_session sv of None \<Rightarrow> refuse ENOENT sv
           | Some s \<Rightarrow>
             if length bs > MC_MAP_MAX then refuse EINVAL sv
             else (case prepare_buffers bs sv of
                 (None, sv1) \<Rightarrow> refuse EINVAL sv1
               | (Some pbs, sv1) \<Rightarrow>
                 (case ic_map lo (the sid) (map_array (pb_info (sv_junk sv)) pbs) (sv_driver sv1) of
                    ((Some e, _), d) \<Rightarrow> method_error e (release_buffers pbs (sv1\<lparr>sv_driver := d\<rparr>))
                  | ((None, mapped), d) \<Rightarrow>
                    (case map2 (\<lambda>b i. setSva (mb_sva i) b) pbs mapped of pbs1 \<Rightarrow>
                       answer_with (MapResponse (map (\<lambda>b. Some (pb_sva b)) pbs1))
                         (sv1\<lparr>sv_driver := d, sv_session := Some (fold addBuffer pbs1 s)\<rparr>)))))
     | _ \<Rightarrow> refuse EPIPE sv)"

text \<open>The buffers of the request: \<open>Inl None\<close> when one has no address, \<open>Inl (Some ())\<close> when one is not known.\<close>

fun find_buffers :: "u64 option list \<Rightarrow> proxy_session \<Rightarrow> unit option + proxy_buffer list" where
  "find_buffers [] s = Inr []"
| "find_buffers (v # vs) s =
     (case v of None \<Rightarrow> Inl None
      | Some v \<Rightarrow> (case findBuffer v s of None \<Rightarrow> Inl (Some ())
        | Some b \<Rightarrow> (case find_buffers vs s of Inl e \<Rightarrow> Inl e | Inr bs \<Rightarrow> Inr (b # bs))))"

text \<open>The buffers are deleted in turn. One that appears twice is read after it was deleted.\<close>

fun delete_buffers :: "proxy_buffer list \<Rightarrow> u64 list \<Rightarrow> proxy_session \<Rightarrow> (bool \<times> proxy_session) option" where
  "delete_buffers [] gone s = Some (True, s)"
| "delete_buffers (b # bs) gone s =
     (if pb_sva b \<in> set gone then None
      else case removeBuffer (pb_sva b) s of None \<Rightarrow> Some (False, s) | Some s1 \<Rightarrow> delete_buffers bs (pb_sva b # gone) s1)"

definition server_unmap :: "'s iclient \<Rightarrow> message \<Rightarrow> 's server_connection \<Rightarrow> (answer \<times> 's server_connection) option" where
  "server_unmap lo msg sv = (case msg of
       UnmapRequest sid vs \<Rightarrow>
         if sid = None \<or> length vs > MC_MAP_MAX then Some (refuse EINVAL sv)
         else (case sv_session sv of None \<Rightarrow> Some (refuse ENOENT sv)
           | Some s \<Rightarrow>
             if length vs > length (ps_buffers s) then Some (refuse EINVAL sv)
             else (case find_buffers vs s of
                 Inl None \<Rightarrow> Some (refuse EINVAL sv)
               | Inl (Some _) \<Rightarrow> Some (method_error EINVAL sv)
               | Inr bs \<Rightarrow>
                 (case ic_unmap lo (the sid) (map_array (pb_info (sv_junk sv)) bs) (sv_driver sv) of
                    (Some e, d) \<Rightarrow> Some (method_error e (sv\<lparr>sv_driver := d\<rparr>))
                  | (None, d) \<Rightarrow> (case delete_buffers bs [] s of None \<Rightarrow> None
                      | Some (ok, s1) \<Rightarrow>
                        (case release_buffers bs (sv\<lparr>sv_driver := d, sv_session := Some s1\<rparr>) of sv1 \<Rightarrow>
                          Some (if ok then answer_with Empty_response sv1 else refuse EPIPE sv1))))))
     | _ \<Rightarrow> Some (refuse EPIPE sv))"

subsection \<open>The other methods\<close>

definition server_getError :: "'s iclient \<Rightarrow> message \<Rightarrow> 's server_connection \<Rightarrow> answer \<times> 's server_connection" where
  "server_getError lo msg sv = (case msg of
       GetErrorRequest sid \<Rightarrow>
         if sid = None then refuse EINVAL sv
         else (case ic_getError lo (the sid) (sv_driver sv) of
             ((Some e, _), d) \<Rightarrow> method_error e (sv\<lparr>sv_driver := d\<rparr>)
           | ((None, v), d) \<Rightarrow>
             answer_with (GetErrorResponse (Some (case v of None \<Rightarrow> mb_len (pb_info (sv_junk sv)) | Some v \<Rightarrow> v))) (sv\<lparr>sv_driver := d\<rparr>))
     | _ \<Rightarrow> refuse EPIPE sv)"

text \<open>The fields of a version: the product is a string of at most 64 bytes, eight numbers follow.\<close>

definition version_fields :: "bytes \<Rightarrow> message" where
  "version_fields v = GetVersionResponse (Some (takeWhile (\<lambda>x. x \<noteq> 0) (take 64 v))) (map (\<lambda>i. Some (dec32 (drop (64 + 4 * i) v))) [0..<8])"

text \<open>The driver returns a result code instead of setting the error number: what is reported then is what was left there, and no error when nothing was.\<close>

definition server_getVersion :: "'s iclient \<Rightarrow> message \<Rightarrow> 's server_connection \<Rightarrow> answer \<times> 's server_connection" where
  "server_getVersion lo msg sv =
     (if msg \<noteq> GetVersionRequest then refuse EPIPE sv
      else case ic_getVersion lo (sv_driver sv) of ((r, v), d) \<Rightarrow>
        (if r \<noteq> Inr 0 then ((Inr None, case r of Inl e \<Rightarrow> Some e | Inr _ \<Rightarrow> sv_errno sv), sv\<lparr>sv_driver := d\<rparr>)
         else answer_with (version_fields (case v of None \<Rightarrow> pb_data (sv_junk sv) | Some v \<Rightarrow> v)) (sv\<lparr>sv_driver := d\<rparr>)))"

text \<open>How the compiler lays out the shared memory of an application of the GlobalPlatform interface.\<close>

record tci_layout =
  la_read :: "bytes \<Rightarrow> tci"
  la_write :: "tci \<Rightarrow> bytes \<Rightarrow> bytes"

definition server_page :: "tci_layout \<Rightarrow> proxy_session option \<Rightarrow> addr \<Rightarrow> tci option" where
  "server_page la s a = (case s of None \<Rightarrow> None
     | Some s \<Rightarrow> (case ps_tci s of None \<Rightarrow> None | Some b \<Rightarrow> if pb_address b = a \<and> a \<noteq> 0 then Some (la_read la (pb_data b)) else None))"

definition page_written :: "tci_layout \<Rightarrow> (addr \<Rightarrow> tci option) \<Rightarrow> proxy_session \<Rightarrow> proxy_session" where
  "page_written la m s = s\<lparr>ps_tci := map_option (\<lambda>b. case m (pb_address b) of None \<Rightarrow> b
     | Some t \<Rightarrow> b\<lparr>pb_data := overwrite (la_write la t (pb_data b)) (pb_data b)\<rparr>) (ps_tci s)\<rparr>"

text \<open>It is parsed as a request for an error: both have one field, with the same number and type.\<close>

definition server_gpRequestCancellation :: "tci_layout \<Rightarrow> 's iclient \<Rightarrow> message \<Rightarrow> 's server_connection \<Rightarrow> (answer \<times> 's server_connection) option" where
  "server_gpRequestCancellation la lo msg sv =
     (case (case msg of GpRequestCancellationRequest sid \<Rightarrow> Some sid | GetErrorRequest sid \<Rightarrow> Some sid | _ \<Rightarrow> None) of
        None \<Rightarrow> Some (refuse EPIPE sv)
      | Some None \<Rightarrow> Some (refuse EINVAL sv)
      | Some (Some sid) \<Rightarrow> (case ic_gpRequestCancellation lo sid (server_page la (sv_session sv)) (sv_driver sv) of None \<Rightarrow> None
          | Some (e, m, d) \<Rightarrow>
            (case sv\<lparr>sv_driver := d, sv_session := map_option (page_written la m) (sv_session sv)\<rparr> of sv1 \<Rightarrow>
              Some (case e of Some e \<Rightarrow> method_error e sv1 | None \<Rightarrow> answer_with Empty_response sv1))))"

definition server_call :: "tci_layout \<Rightarrow> 's iclient \<Rightarrow> rpc_method \<Rightarrow> message \<Rightarrow> 's server_connection \<Rightarrow> (answer \<times> 's server_connection) option" where
  "server_call la lo me msg sv = (case me of
       OPEN_SESSION \<Rightarrow> Some (server_openSession lo msg sv)
     | OPEN_TRUSTLET \<Rightarrow> Some (server_openTrustlet lo msg sv)
     | CLOSE_SESSION \<Rightarrow> Some (server_closeSession lo msg sv)
     | NOTIFY \<Rightarrow> server_notify lo msg sv
     | WAIT \<Rightarrow> server_waitNotification lo msg sv
     | MAP \<Rightarrow> Some (server_map lo msg sv)
     | UNMAP \<Rightarrow> server_unmap lo msg sv
     | GET_ERROR \<Rightarrow> Some (server_getError lo msg sv)
     | GET_VERSION \<Rightarrow> Some (server_getVersion lo msg sv)
     | GP_REQUESTCANCELLATION \<Rightarrow> server_gpRequestCancellation la lo msg sv
     | Other_method \<Rightarrow> Some (refuse EPERM sv))"

text \<open>The end of a connection: the driver is closed, the thread ends, and the object of the connection is deleted with its session.\<close>

definition server_ends :: "'s iclient \<Rightarrow> 's server_connection \<Rightarrow> 's server_connection" where
  "server_ends lo sv = end_session (sv\<lparr>sv_driver := snd (ic_close lo (sv_driver sv))\<rparr>)"

text \<open>Accepting a connection opens a driver for it.\<close>

definition server_accepts :: "'s iclient \<Rightarrow> 's server_connection \<Rightarrow> 's server_connection option" where
  "server_accepts lo sv = (case ic_open lo (sv_driver sv) of (Some _, _) \<Rightarrow> None | (None, d) \<Rightarrow> Some (sv\<lparr>sv_driver := d\<rparr>))"

text \<open>One round of the thread: the answer with its header, and the connection unless the driver is not open any more.\<close>

definition response_to :: "answer \<Rightarrow> response_header" where
  "response_to a = \<lparr>rh_magic = PROTOCOL_MAGIC, rh_version = PROTOCOL_VERSION,
     rh_proto_rc = (case fst a of Inl e \<Rightarrow> Inl e | Inr d \<Rightarrow> Inr (d \<noteq> None)), rh_method_rc = snd a\<rparr>"

definition server_round :: "tci_layout \<Rightarrow> 's iclient \<Rightarrow> rpc_method \<Rightarrow> message \<Rightarrow> 's server_connection \<Rightarrow>
    (answer \<times> 's server_connection \<times> bool) option" where
  "server_round la lo me msg sv = (case server_call la lo me msg sv of None \<Rightarrow> None
     | Some (a, sv1) \<Rightarrow> Some (if ic_isOpen lo (sv_driver sv1) then (a, sv1, True) else (a, server_ends lo sv1, False)))"

end
