(* ===== verification/ProxyLink.thy ===== *)
theory ProxyLink
  imports ProxyServer
begin

text \<open>
  The proxy client and the proxy server joined: a socket of the client leads to a connection of the server, which answers a request when the
  client receives. What a session of the client holds is compared with the session of the server.
\<close>

named_theorems keeps_session

subsection \<open>The server behind the sockets\<close>

text \<open>The connections of the server by socket, the objects new connections start from, the requests sent and the data to be received. A call
  that comes to nothing takes the server away.\<close>

record 's proxy_link =
  pk_conns :: "nat \<Rightarrow> 's server_connection option"
  pk_next :: nat
  pk_fresh :: "nat \<Rightarrow> 's server_connection"
  pk_request :: "nat \<Rightarrow> (rpc_method \<times> message) option"
  pk_data :: "nat \<Rightarrow> message option"
  pk_alive :: bool

definition wire_connect :: "'s iclient \<Rightarrow> 's proxy_link \<Rightarrow> (errno + nat) \<times> 's proxy_link" where
  "wire_connect lo k =
     (if \<not> pk_alive k then (Inl ECONNREFUSED, k)
      else (Inr (pk_next k), k\<lparr>pk_next := Suc (pk_next k), pk_conns := (pk_conns k)(pk_next k := server_accepts lo (pk_fresh k (pk_next k)))\<rparr>))"

definition wire_send :: "nat \<Rightarrow> rpc_method \<Rightarrow> message \<Rightarrow> 's proxy_link \<Rightarrow> errno option option \<times> 's proxy_link" where
  "wire_send fd me msg k = (case pk_conns k fd of None \<Rightarrow> (Some (Some EPIPE), k)
     | Some _ \<Rightarrow> (None, k\<lparr>pk_request := (pk_request k)(fd \<mapsto> (me, msg))\<rparr>))"

definition wire_recv_header :: "tci_layout \<Rightarrow> 's iclient \<Rightarrow> nat \<Rightarrow> 's proxy_link \<Rightarrow> (errno option + response_header) \<times> 's proxy_link" where
  "wire_recv_header la lo fd k = (case (pk_conns k fd, pk_request k fd) of
       (Some sv, Some (me, msg)) \<Rightarrow>
         (case server_round la lo me msg sv of
            None \<Rightarrow> (Inl None, k\<lparr>pk_alive := False, pk_conns := Map.empty\<rparr>)
          | Some (a, sv1, stays) \<Rightarrow> (Inr (response_to a), k\<lparr>pk_request := (pk_request k)(fd := None),
              pk_data := (pk_data k)(fd := (case fst a of Inl _ \<Rightarrow> None | Inr d \<Rightarrow> d)),
              pk_conns := (pk_conns k)(fd := if stays then Some sv1 else None)\<rparr>))
     | _ \<Rightarrow> (Inl None, k))"

definition wire_recv_data :: "nat \<Rightarrow> 's proxy_link \<Rightarrow> (errno option + message) \<times> 's proxy_link" where
  "wire_recv_data fd k = (case pk_data k fd of None \<Rightarrow> (Inl None, k) | Some msg \<Rightarrow> (Inr msg, k\<lparr>pk_data := (pk_data k)(fd := None)\<rparr>))"

definition wire_close :: "nat \<Rightarrow> 's proxy_link \<Rightarrow> 's proxy_link" where
  "wire_close fd k = k\<lparr>pk_conns := (pk_conns k)(fd := None)\<rparr>"

definition wire_transport :: "tci_layout \<Rightarrow> 's iclient \<Rightarrow> 's proxy_link transport" where
  "wire_transport la lo = \<lparr>tp_connect = wire_connect lo, tp_send = wire_send, tp_recv_header = wire_recv_header la lo,
     tp_recv_data = wire_recv_data, tp_close = wire_close\<rparr>"

lemma wire_transport_simps [simp]:
  "tp_connect (wire_transport la lo) = wire_connect lo" "tp_send (wire_transport la lo) = wire_send"
  "tp_recv_header (wire_transport la lo) = wire_recv_header la lo" "tp_recv_data (wire_transport la lo) = wire_recv_data"
  "tp_close (wire_transport la lo) = wire_close"
  by (simp_all add: wire_transport_def)

subsection \<open>A call over the link\<close>

text \<open>What the client gets for an answer.\<close>

definition result_of :: "answer \<Rightarrow> call_result" where
  "result_of a = (case fst a of
       Inl e \<Rightarrow> Call_failed (Some e) True None
     | Inr d \<Rightarrow> (case snd a of None \<Rightarrow> Call_ok d | Some e \<Rightarrow> Call_failed (Some e) False d))"

text \<open>The answers of the server are responses of the method.\<close>

lemma data_fits: "data_of msg = Some r \<Longrightarrow> r = msg"
  by (simp add: data_of_def split: if_splits)

definition fitting :: "rpc_method \<Rightarrow> answer \<Rightarrow> bool" where
  "fitting me a \<longleftrightarrow> (\<forall>r. fst a = Inr (Some r) \<longrightarrow> response_of me r)"

lemma fitting_simps [simp]:
  "fitting me (fst (refuse e sv))" "fitting me (fst (method_error e sv))" "response_of me msg \<Longrightarrow> fitting me (fst (answer_with msg sv))"
  by (auto simp: fitting_def refuse_def method_error_def answer_with_def dest: data_fits)

lemma fitting_opens: "me \<in> {OPEN_SESSION, OPEN_TRUSTLET} \<Longrightarrow> fitting me (fst (server_opens f tci sv))"
  by (auto simp: server_opens_def response_of_def split: prod.split option.split)

lemma response_kinds [simp]: "response_of me Empty_response" "response_of WAIT (WaitResponse t bs)" "response_of MAP (MapResponse vs)"
  "response_of GET_ERROR (GetErrorResponse v)" "response_of GET_VERSION (version_fields w)"
  by (simp_all add: response_of_def version_fields_def)

lemma fitting_wait: "fitting WAIT (Inr (data_of r), e)" if "wait_response s = Some r"
proof -
  have "response_of WAIT r" using that by (auto simp: wait_response_def split: option.splits)
  then show ?thesis by (auto simp: fitting_def dest: data_fits)
qed

lemma fitting_none [simp]: "fitting me (Inr None, e)"
  by (simp add: fitting_def)

lemma answers_fit: "server_call la lo me msg sv = Some (a, sv1) \<Longrightarrow> fitting me a"
proof (cases me)
  case OPEN_SESSION
  assume *: "server_call la lo me msg sv = Some (a, sv1)"
  then have "a = fst (server_openSession lo msg sv)" by (simp add: OPEN_SESSION server_call_def)
  then show ?thesis
    by (simp add: OPEN_SESSION server_openSession_def fitting_opens split: message.split prod.split if_split)
next
  case OPEN_TRUSTLET
  assume *: "server_call la lo me msg sv = Some (a, sv1)"
  then have "a = fst (server_openTrustlet lo msg sv)" by (simp add: OPEN_TRUSTLET server_call_def)
  then show ?thesis
    by (simp add: OPEN_TRUSTLET server_openTrustlet_def fitting_opens Let_def split: message.split prod.split if_split)
next
  case CLOSE_SESSION
  assume *: "server_call la lo me msg sv = Some (a, sv1)"
  then have "a = fst (server_closeSession lo msg sv)" by (simp add: CLOSE_SESSION server_call_def)
  then show ?thesis by (simp add: CLOSE_SESSION server_closeSession_def split: message.split prod.split option.split if_split)
next
  case NOTIFY
  assume "server_call la lo me msg sv = Some (a, sv1)"
  then have "server_notify lo msg sv = Some (a, sv1)" by (simp add: NOTIFY server_call_def)
  then show ?thesis
    by (auto simp: NOTIFY server_notify_def fitting_def refuse_def method_error_def answer_with_def data_of_def Let_def split: message.splits option.splits prod.splits if_splits)
next
  case WAIT
  assume "server_call la lo me msg sv = Some (a, sv1)"
  then have "server_waitNotification lo msg sv = Some (a, sv1)" by (simp add: WAIT server_call_def)
  then show ?thesis
    by (auto simp: WAIT server_waitNotification_def refuse_def method_error_def Let_def fitting_wait split: message.splits option.splits prod.splits if_splits)
      (simp_all add: fitting_def)
next
  case MAP
  assume *: "server_call la lo me msg sv = Some (a, sv1)"
  then have "a = fst (server_map lo msg sv)" by (simp add: MAP server_call_def)
  then show ?thesis by (simp add: MAP server_map_def split: message.split prod.split option.split if_split)
next
  case UNMAP
  assume "server_call la lo me msg sv = Some (a, sv1)"
  then have "server_unmap lo msg sv = Some (a, sv1)" by (simp add: UNMAP server_call_def)
  then show ?thesis
    by (auto simp: UNMAP server_unmap_def fitting_def refuse_def method_error_def answer_with_def data_of_def split: message.splits option.splits prod.splits sum.splits if_splits)
next
  case GET_ERROR
  assume *: "server_call la lo me msg sv = Some (a, sv1)"
  then have "a = fst (server_getError lo msg sv)" by (simp add: GET_ERROR server_call_def)
  then show ?thesis by (simp add: GET_ERROR server_getError_def split: message.split prod.split option.split if_split)
next
  case GET_VERSION
  assume *: "server_call la lo me msg sv = Some (a, sv1)"
  then have "a = fst (server_getVersion lo msg sv)" by (simp add: GET_VERSION server_call_def)
  then show ?thesis by (simp add: GET_VERSION server_getVersion_def split: prod.split)
next
  case GP_REQUESTCANCELLATION
  assume "server_call la lo me msg sv = Some (a, sv1)"
  then have "server_gpRequestCancellation la lo msg sv = Some (a, sv1)" by (simp add: GP_REQUESTCANCELLATION server_call_def)
  then show ?thesis
    by (auto simp: GP_REQUESTCANCELLATION server_gpRequestCancellation_def fitting_def refuse_def method_error_def answer_with_def data_of_def split: option.splits prod.splits)
next
  case Other_method
  assume "server_call la lo me msg sv = Some (a, sv1)"
  then show ?thesis by (auto simp: Other_method server_call_def refuse_def fitting_def)
qed

text \<open>A call over the link is a round of the server.\<close>

lemma wire_call:
  "proxy_call (wire_transport la lo) fd me req k =
     (case pk_conns k fd of None \<Rightarrow> (Call_failed (Some EPIPE) True None, k)
      | Some sv \<Rightarrow> (case server_round la lo me req sv of
          None \<Rightarrow> (Call_failed None True None, k\<lparr>pk_request := (pk_request k)(fd \<mapsto> (me, req)), pk_alive := False, pk_conns := Map.empty\<rparr>)
        | Some (a, sv1, stays) \<Rightarrow> (result_of a, k\<lparr>pk_request := (pk_request k)(fd := None), pk_data := (pk_data k)(fd := None),
            pk_conns := (pk_conns k)(fd := if stays then Some sv1 else None)\<rparr>)))"
proof (cases "pk_conns k fd")
  case None
  then show ?thesis by (simp add: proxy_call_def wire_send_def)
next
  case (Some sv)
  let ?k = "k\<lparr>pk_request := (pk_request k)(fd \<mapsto> (me, req))\<rparr>"
  have s: "proxy_call (wire_transport la lo) fd me req k = (case wire_recv_header la lo fd ?k of
       (Inl e, s2) \<Rightarrow> (Call_failed e True None, s2)
     | (Inr h, s2) \<Rightarrow>
         if rh_magic h \<noteq> PROTOCOL_MAGIC \<or> rh_version h \<noteq> PROTOCOL_VERSION then (Call_failed None True None, s2)
         else (case rh_proto_rc h of
             Inl e \<Rightarrow> (Call_failed (Some e) True None, s2)
           | Inr False \<Rightarrow> (case rh_method_rc h of None \<Rightarrow> Call_ok None | Some e \<Rightarrow> Call_failed (Some e) False None, s2)
           | Inr True \<Rightarrow> (case wire_recv_data fd s2 of
               (Inl e, s3) \<Rightarrow> (Call_failed e True None, s3)
             | (Inr msg, s3) \<Rightarrow>
               (if \<not> response_of me msg then Call_failed None True None
                else case rh_method_rc h of None \<Rightarrow> Call_ok (Some msg) | Some e \<Rightarrow> Call_failed (Some e) False (Some msg), s3))))"
    unfolding proxy_call_def wire_transport_simps by (simp add: wire_send_def Some)
  show ?thesis
  proof (cases "server_round la lo me req sv")
    case None
    then show ?thesis using Some s by (simp add: wire_recv_header_def)
  next
    fix r assume r: "server_round la lo me req sv = Some r"
    obtain a sv1 stays where r3: "r = (a, sv1, stays)" by (cases r)
    obtain sv2 where c: "server_call la lo me req sv = Some (a, sv2)"
      using r r3 by (auto simp: server_round_def split: option.splits if_splits)
    let ?k2 = "k\<lparr>pk_request := (pk_request k)(fd := None), pk_data := (pk_data k)(fd := (case fst a of Inl _ \<Rightarrow> None | Inr d \<Rightarrow> d)),
       pk_conns := (pk_conns k)(fd := if stays then Some sv1 else None)\<rparr>"
    have h: "wire_recv_header la lo fd ?k = (Inr (response_to a), ?k2)"
      using Some r r3 by (simp add: wire_recv_header_def)
    obtain p e where a: "a = (p, e)" by (cases a)
    show ?thesis
    proof (cases p)
      case (Inl x)
      then show ?thesis using Some r r3 s h by (simp add: a response_to_def result_of_def)
    next
      case (Inr d)
      show ?thesis
      proof (cases d)
        case None
        then show ?thesis using Some r r3 s h Inr by (simp add: a response_to_def result_of_def)
      next
        fix m assume d: "d = Some m"
        have "response_of me m" using answers_fit [OF c] by (simp add: a Inr d fitting_def)
        then show ?thesis using Some r r3 s h Inr d by (cases e) (simp_all add: a response_to_def result_of_def wire_recv_data_def)
      qed
    qed
  qed
qed

end
