(* ===== verification/ProxySessions.thy ===== *)
theory ProxySessions
  imports ProxyLink
begin

text \<open>
  The session of the client and the session of the server have the same shape: the same id, the same length of shared memory, and the
  same buffers in the same order. Every method of the server keeps the shape or changes it the way the client does.
\<close>

subsection \<open>Shapes\<close>

definition buffer_shape :: "proxy_buffer \<Rightarrow> u64 \<times> u32 \<times> u32" where
  "buffer_shape b = (pb_sva b, mb_len (pb_info b), mb_flags (pb_info b))"

definition session_shape :: "proxy_session \<Rightarrow> u32 \<times> u32 option \<times> (u64 \<times> u32 \<times> u32) list" where
  "session_shape s = (ps_id s, map_option (\<lambda>b. mb_len (pb_info b)) (ps_tci s), map buffer_shape (ps_buffers s))"

text \<open>A buffer of the server has the memory its length says.\<close>

definition server_ok :: "proxy_buffer \<Rightarrow> bool" where
  "server_ok b \<longleftrightarrow> pb_type b = Server_buffer \<and> pb_address b \<noteq> 0 \<and> length (pb_data b) = pb_len b"

definition server_session_ok :: "proxy_session \<Rightarrow> bool" where
  "server_session_ok s \<longleftrightarrow> (\<forall>b\<in>set (ps_buffers s). server_ok b) \<and> (\<forall>b. ps_tci s = Some b \<longrightarrow> server_ok b)"

text \<open>A machine that has memory.\<close>

definition server_memory_ok :: "'s server_connection \<Rightarrow> bool" where
  "server_memory_ok sv \<longleftrightarrow> (\<forall>i. \<exists>a. sv_mmap sv i = Some a \<and> a \<noteq> 0)"

lemma memory_shift [simp]: "server_memory_ok sv \<Longrightarrow> server_memory_ok (sv\<lparr>sv_mmap := \<lambda>i. sv_mmap sv (Suc i)\<rparr>)"
  by (simp add: server_memory_ok_def)

lemma memory_updates [simp]:
  "server_memory_ok (sv\<lparr>sv_driver := d\<rparr>) = server_memory_ok sv" "server_memory_ok (sv\<lparr>sv_session := s\<rparr>) = server_memory_ok sv" "server_memory_ok (sv\<lparr>sv_regions := r\<rparr>) = server_memory_ok sv"
  "server_memory_ok (sv\<lparr>sv_writes := w\<rparr>) = server_memory_ok sv" "server_memory_ok (sv\<lparr>sv_malloc := a\<rparr>) = server_memory_ok sv"
  by (simp_all add: server_memory_ok_def)

lemma release_keeps [simp]:
  "server_memory_ok (release_buffer b sv) = server_memory_ok sv" "sv_session (release_buffer b sv) = sv_session sv" "sv_driver (release_buffer b sv) = sv_driver sv"
  by (simp_all add: release_buffer_def)

lemma releases_keep [simp]:
  "server_memory_ok (release_buffers bs sv) = server_memory_ok sv" "sv_session (release_buffers bs sv) = sv_session sv" "sv_driver (release_buffers bs sv) = sv_driver sv"
  by (induction bs arbitrary: sv) (simp_all add: release_buffers_def)

definition keeps :: "'s server_connection \<Rightarrow> 's server_connection \<Rightarrow> bool" where
  "keeps sv sv1 \<longleftrightarrow> (server_memory_ok sv \<longrightarrow> server_memory_ok sv1) \<and>
     (\<forall>s. sv_session sv = Some s \<and> server_session_ok s \<longrightarrow> (\<exists>s1. sv_session sv1 = Some s1 \<and> session_shape s1 = session_shape s \<and> server_session_ok s1))"

lemma server_keeps_refl [simp]: "keeps sv sv"
  by (simp add: keeps_def)

lemma keeps_driver [simp]: "keeps sv (sv1\<lparr>sv_driver := d\<rparr>) = keeps sv sv1"
  by (simp add: keeps_def)

subsection \<open>Writing into buffers\<close>

lemma update_buffer_shape:
  assumes "update_buffer d b = Some (ok, b1)"
  shows "buffer_shape b1 = buffer_shape b \<and> mb_len (pb_info b1) = mb_len (pb_info b) \<and> (server_ok b \<longrightarrow> server_ok b1)"
  using assms by (auto simp: update_buffer_def buffer_shape_def server_ok_def split: if_splits)

lemma update_tci_shape: "update_tci d s = Some (ok, s1) \<Longrightarrow> session_shape s1 = session_shape s \<and> (server_session_ok s \<longrightarrow> server_session_ok s1)"
  using update_buffer_shape by (fastforce simp: update_tci_def session_shape_def server_session_ok_def split: option.splits)

lemma find_in: "find P xs = Some x \<Longrightarrow> x \<in> set xs \<and> P x"
  by (auto simp: find_Some_iff)

lemma update_first_shape:
  assumes "find P bs = Some b" and "buffer_shape b1 = buffer_shape b"
  shows "map buffer_shape (update_first P (\<lambda>_. b1) bs) = map buffer_shape bs"
  using assms by (induction bs) auto

lemma update_first_all: "\<forall>x\<in>set xs. Q x \<Longrightarrow> Q y \<Longrightarrow> \<forall>x\<in>set (update_first P (\<lambda>_. y) xs). Q x"
  by (induction xs) auto

lemma update_inputs_shape: "update_inputs bs s = Some (e, s1) \<Longrightarrow> session_shape s1 = session_shape s \<and> (server_session_ok s \<longrightarrow> server_session_ok s1)"
proof (induction bs s arbitrary: e s1 rule: update_inputs.induct)
  case (2 sva data bs s)
  show ?case
  proof (cases "sva = None \<or> data = None \<or> findBuffer (the sva) s = None")
    case True
    then show ?thesis using 2(2) by (auto split: option.splits)
  next
    case False
    then obtain v d b where v: "sva = Some v" "data = Some d" "findBuffer v s = Some b" by auto
    then obtain ok b1 where u: "update_buffer d b = Some (ok, b1)"
      "update_inputs bs (s\<lparr>ps_buffers := update_first (\<lambda>b. pb_sva b = v) (\<lambda>_. b1) (ps_buffers s)\<rparr>) = Some (e, s1)"
      using 2(2) by (auto split: option.splits)
    have b: "find (\<lambda>b. pb_sva b = v) (ps_buffers s) = Some b" using v(3) by (simp add: findBuffer_def)
    let ?s = "s\<lparr>ps_buffers := update_first (\<lambda>b. pb_sva b = v) (\<lambda>_. b1) (ps_buffers s)\<rparr>"
    have "session_shape s1 = session_shape ?s \<and> (server_session_ok ?s \<longrightarrow> server_session_ok s1)"
      by (rule 2(1) [OF v(1,2,3) u(1) refl u(2)])
    moreover have "session_shape ?s = session_shape s"
      using update_first_shape [OF b] update_buffer_shape [OF u(1)] by (simp add: session_shape_def)
    moreover have "server_session_ok s \<longrightarrow> server_session_ok ?s"
    proof
      assume ok: "server_session_ok s"
      then have all: "\<forall>b\<in>set (ps_buffers s). server_ok b" by (simp add: server_session_ok_def)
      then have "server_ok b1" using update_buffer_shape [OF u(1)] find_in [OF b] by blast
      then have "\<forall>b\<in>set (ps_buffers ?s). server_ok b" using update_first_all [OF all] by simp
      then show "server_session_ok ?s" using ok by (simp add: server_session_ok_def)
    qed
    ultimately show ?thesis by simp
  qed
qed auto

lemma written_shape [simp]: "buffer_shape (buffer_written f b) = buffer_shape b" "mb_len (pb_info (buffer_written f b)) = mb_len (pb_info b)" "server_ok (buffer_written f b) = server_ok b"
  by (auto simp: buffer_written_def buffer_shape_def server_ok_def overwrite_def)

lemma session_written_shape [simp]: "session_shape (session_written f s) = session_shape s" "server_session_ok (session_written f s) = server_session_ok s"
  by (auto simp: session_written_def session_shape_def server_session_ok_def option.map_comp comp_def)

lemma page_written_shape [simp]: "session_shape (page_written la m s) = session_shape s" "server_session_ok s \<Longrightarrow> server_session_ok (page_written la m s)"
  by (auto simp: page_written_def session_shape_def server_session_ok_def server_ok_def overwrite_def option.map_comp comp_def split: option.splits intro: option.map_cong)

subsection \<open>Methods that keep the session\<close>

lemma notify_keeps: "server_notify lo msg sv = Some ((Inr d, e), sv1) \<Longrightarrow> keeps sv sv1"
  by (auto simp: server_notify_def refuse_def method_error_def answer_with_def Let_def keeps_def
      dest!: update_tci_shape update_inputs_shape split: message.splits option.splits prod.splits if_splits)

lemma wait_keeps: "server_waitNotification lo msg sv = Some (a, sv1) \<Longrightarrow> keeps sv sv1"
  by (auto simp: server_waitNotification_def refuse_def method_error_def Let_def keeps_def split: message.splits option.splits prod.splits if_splits)

lemma keeps_trans: "keeps sv sv1 \<Longrightarrow> keeps sv1 sv2 \<Longrightarrow> keeps sv sv2"
  unfolding keeps_def by metis

text \<open>A wait that succeeds answers with what the session holds then, and a partial one that times out with nothing.\<close>

lemma server_wait_answer:
  "server_waitNotification lo msg sv = Some ((Inr d, None), sv1) \<Longrightarrow> \<exists>s1 r. sv_session sv1 = Some s1 \<and> wait_response s1 = Some r \<and> d = data_of r"
  "server_waitNotification lo (WaitRequest sid t (Some True)) sv = Some ((Inr d, Some ETIME), sv1) \<Longrightarrow> d = None"
  by (auto simp: server_waitNotification_def refuse_def method_error_def Let_def split: message.splits option.splits prod.splits if_splits)

lemma getError_keeps: "server_getError lo msg sv = ((Inr d, e), sv1) \<Longrightarrow> keeps sv sv1"
  by (auto simp: server_getError_def refuse_def method_error_def answer_with_def split: message.splits option.splits prod.splits if_splits)

lemma cancel_keeps: "server_gpRequestCancellation la lo msg sv = Some ((Inr d, e), sv1) \<Longrightarrow> keeps sv sv1"
  by (auto simp: server_gpRequestCancellation_def refuse_def method_error_def answer_with_def keeps_def split: message.splits option.splits prod.splits if_splits)

lemma close_keeps: "server_closeSession lo msg sv = ((Inr d, Some e), sv1) \<Longrightarrow> keeps sv sv1"
  by (auto simp: server_closeSession_def refuse_def method_error_def answer_with_def split: message.splits option.splits prod.splits if_splits)

subsection \<open>Mapping\<close>

lemma server_buffer_ok:
  assumes "server_buffer (unat len) flags sv = (b, sv1)" and "server_memory_ok sv" and "len \<noteq> 0"
  shows "server_ok b \<and> mb_len (pb_info b) = len \<and> mb_flags (pb_info b) = flags \<and> server_memory_ok sv1 \<and> sv_session sv1 = sv_session sv \<and> sv_driver sv1 = sv_driver sv"
proof -
  obtain a where a: "sv_mmap sv 0 = Some a" "a \<noteq> 0" using assms(2) by (auto simp: server_memory_ok_def)
  have "unat len \<noteq> 0" using assms(3) by (simp add: unat_eq_0)
  then show ?thesis using a assms(1,2) by (auto simp: server_buffer_def Let_def server_ok_def)
qed

lemma prepare_ok:
  "prepare_buffers (map (\<lambda>b. (Some (mb_len b), Some (mb_flags b))) bs) sv = (Some pbs, sv1) \<Longrightarrow> server_memory_ok sv \<Longrightarrow> \<forall>b\<in>set bs. mb_len b \<noteq> 0 \<Longrightarrow>
    (\<forall>b\<in>set pbs. server_ok b) \<and> map (\<lambda>b. (mb_len (pb_info b), mb_flags (pb_info b))) pbs = map (\<lambda>b. (mb_len b, mb_flags b)) bs \<and>
    server_memory_ok sv1 \<and> sv_session sv1 = sv_session sv"
proof (induction bs arbitrary: sv pbs sv1)
  case (Cons b bs)
  obtain x sv0 where x: "server_buffer (unat (mb_len b)) (mb_flags b) sv = (x, sv0)" by fastforce
  obtain r sv2 where r: "prepare_buffers (map (\<lambda>b. (Some (mb_len b), Some (mb_flags b))) bs) sv0 = (r, sv2)" by fastforce
  have p: "pbs = x # the r" "r \<noteq> None" "sv1 = sv2"
    using Cons.prems(1) by (auto simp: x r split: if_splits option.splits)
  have s: "server_ok x \<and> mb_len (pb_info x) = mb_len b \<and> mb_flags (pb_info x) = mb_flags b \<and> server_memory_ok sv0 \<and> sv_session sv0 = sv_session sv \<and> sv_driver sv0 = sv_driver sv"
    by (rule server_buffer_ok [OF x]) (use Cons.prems in auto)
  have "r = Some (the r)" using p(2) by simp
  then have "(\<forall>b\<in>set (the r). server_ok b) \<and> map (\<lambda>b. (mb_len (pb_info b), mb_flags (pb_info b))) (the r) = map (\<lambda>b. (mb_len b, mb_flags b)) bs \<and>
    server_memory_ok sv2 \<and> sv_session sv2 = sv_session sv0"
    using Cons.IH [of sv0 "the r" sv2] r s Cons.prems(3) by simp
  then show ?case using s p by simp
qed simp

lemma fold_addBuffer: "fold addBuffer bs s = s\<lparr>ps_buffers := ps_buffers s @ bs\<rparr>"
  by (induction bs arbitrary: s) (simp_all add: addBuffer_def)

lemma setSva_simps [simp]: "pb_sva (setSva v b) = v" "mb_len (pb_info (setSva v b)) = mb_len (pb_info b)" "mb_flags (pb_info (setSva v b)) = mb_flags (pb_info b)"
  "server_ok (setSva v b) = server_ok b"
  by (simp_all add: setSva_def server_ok_def)

text \<open>Every lower layer updates the buffers of a mapping in place.\<close>

definition maps_in_place :: "'s iclient \<Rightarrow> bool" where
  "maps_in_place lo \<longleftrightarrow> (\<forall>sid bufs s. length (snd (fst (ic_map lo sid bufs s))) = length bufs)"

lemma map2_setSva:
  assumes "length is \<ge> length pbs"
  shows "map buffer_shape (map2 (\<lambda>b i. setSva (mb_sva i) b) pbs is) =
    map2 (\<lambda>(len, flags) i. (mb_sva i, len, flags)) (map (\<lambda>b. (mb_len (pb_info b), mb_flags (pb_info b))) pbs) is"
    and "length (map2 (\<lambda>b i. setSva (mb_sva i) b) pbs is) = length pbs"
    and "\<forall>b\<in>set pbs. server_ok b \<Longrightarrow> \<forall>b\<in>set (map2 (\<lambda>b i. setSva (mb_sva i) b) pbs is). server_ok b"
proof -
  show "map buffer_shape (map2 (\<lambda>b i. setSva (mb_sva i) b) pbs is) =
    map2 (\<lambda>(len, flags) i. (mb_sva i, len, flags)) (map (\<lambda>b. (mb_len (pb_info b), mb_flags (pb_info b))) pbs) is"
    by (simp add: zip_map1 buffer_shape_def) (auto simp: comp_def split: prod.split)
  show "length (map2 (\<lambda>b i. setSva (mb_sva i) b) pbs is) = length pbs" using assms by simp
  show "\<forall>b\<in>set pbs. server_ok b \<Longrightarrow> \<forall>b\<in>set (map2 (\<lambda>b i. setSva (mb_sva i) b) pbs is). server_ok b"
    by (auto dest: set_zip_leftD)
qed

text \<open>Mapping at the server: an error keeps the session, success adds the buffers that were asked for, with the addresses of the response.\<close>

lemma map_server:
  assumes m: "server_map lo (MapRequest (Some sid) (map (\<lambda>b. (Some (mb_len b), Some (mb_flags b))) bs)) sv = ((Inr d, e), sv1)"
    and ok: "server_memory_ok sv" "sv_session sv = Some s" "server_session_ok s" "\<forall>b\<in>set bs. mb_len b \<noteq> 0" and lo: "maps_in_place lo"
  shows "server_memory_ok sv1 \<and> (e \<noteq> None \<longrightarrow> sv_session sv1 = Some s) \<and>
    (e = None \<longrightarrow> (\<exists>svas s1. d = data_of (MapResponse (map Some svas)) \<and> length svas = length bs \<and> sv_session sv1 = Some s1 \<and> server_session_ok s1 \<and>
       session_shape s1 = (ps_id s, map_option (\<lambda>b. mb_len (pb_info b)) (ps_tci s),
         map buffer_shape (ps_buffers s) @ map2 (\<lambda>b v. (v, mb_len b, mb_flags b)) bs svas)))"
proof -
  let ?req = "map (\<lambda>b. (Some (mb_len b), Some (mb_flags b))) bs"
  have len: "length bs \<le> MC_MAP_MAX" using m ok(2) by (auto simp: server_map_def refuse_def split: if_splits)
  obtain r sv0 where p: "prepare_buffers ?req sv = (r, sv0)" by fastforce
  then obtain pbs where r: "r = Some pbs" using m ok(2) len by (cases r) (auto simp: server_map_def refuse_def)
  note q = prepare_ok [OF p [unfolded r] ok(1,4)]
  obtain x mapped d1 where y: "ic_map lo sid (map_array (pb_info (sv_junk sv)) pbs) (sv_driver sv0) = ((x, mapped), d1)" by (metis prod.collapse)
  have lens: "length pbs = length bs" using arg_cong [where f = length, OF q [THEN conjunct2, THEN conjunct1]] by simp
  have "length (snd (fst (ic_map lo sid (map_array (pb_info (sv_junk sv)) pbs) (sv_driver sv0)))) = length (map_array (pb_info (sv_junk sv)) pbs)"
    using lo unfolding maps_in_place_def by blast
  then have "length mapped = length (map_array (pb_info (sv_junk sv)) pbs)" by (simp only: y fst_conv snd_conv)
  then have lm: "length mapped \<ge> length pbs" by (simp add: map_array_def)
  show ?thesis
  proof (cases x)
    case (Some e1)
    then show ?thesis using m ok(2) len p r y q by (auto simp: server_map_def method_error_def)
  next
    case None
    let ?pbs = "map2 (\<lambda>b i. setSva (mb_sva i) b) pbs mapped"
    let ?svas = "map pb_sva ?pbs"
    have sv1: "sv1 = sv0\<lparr>sv_driver := d1, sv_session := Some (fold addBuffer ?pbs s)\<rparr>" and d: "d = data_of (MapResponse (map Some ?svas))" and e: "e = None"
      using m ok(2) len p r y None by (auto simp: server_map_def answer_with_def comp_def)
    have "map buffer_shape ?pbs = map2 (\<lambda>b v. (v, mb_len b, mb_flags b)) bs ?svas"
    proof (rule nth_equalityI)
      show "length (map buffer_shape ?pbs) = length (map2 (\<lambda>b v. (v, mb_len b, mb_flags b)) bs ?svas)" using lm lens by simp
      fix i assume "i < length (map buffer_shape ?pbs)"
      then have i: "i < length pbs" "i < length bs" "i < length mapped" using lm lens by simp_all
      have "map (\<lambda>b. (mb_len (pb_info b), mb_flags (pb_info b))) pbs ! i = map (\<lambda>b. (mb_len b, mb_flags b)) bs ! i"
        by (simp only: q [THEN conjunct2, THEN conjunct1])
      then have same: "mb_len (pb_info (pbs ! i)) = mb_len (bs ! i)" "mb_flags (pb_info (pbs ! i)) = mb_flags (bs ! i)"
        unfolding nth_map [OF i(1)] nth_map [OF i(2)] prod.inject by blast+
      show "map buffer_shape ?pbs ! i = map2 (\<lambda>b v. (v, mb_len b, mb_flags b)) bs ?svas ! i" using i by (simp add: buffer_shape_def same)
    qed
    moreover have "\<forall>b\<in>set ?pbs. server_ok b" using map2_setSva(3) [OF lm] q by blast
    ultimately show ?thesis using sv1 d e q ok(3) lm lens
      by (auto simp: fold_addBuffer session_shape_def server_session_ok_def intro!: exI [of _ ?svas])
  qed
qed

subsection \<open>Unmapping\<close>

text \<open>Forgetting buffers by their address, on shapes.\<close>

fun forget_shapes :: "u64 list \<Rightarrow> (u64 \<times> u32 \<times> u32) list \<Rightarrow> (u64 \<times> u32 \<times> u32) list" where
  "forget_shapes [] bs = bs"
| "forget_shapes (v # vs) bs = (if v \<in> fst ` set bs then forget_shapes vs (remove_first (\<lambda>b. fst b = v) bs) else bs)"

lemma map_remove_first: "map buffer_shape (remove_first (\<lambda>b. pb_sva b = v) bs) = remove_first (\<lambda>b. fst b = v) (map buffer_shape bs)"
  by (induction bs) (simp_all add: buffer_shape_def)

lemma remove_subset: "set (remove_first P xs) \<subseteq> set xs"
  by (induction xs) auto

lemma find_none_shape: "findBuffer v s = None \<longleftrightarrow> v \<notin> fst ` set (map buffer_shape (ps_buffers s))"
  by (auto simp: findBuffer_def find_None_iff buffer_shape_def image_image)

lemma forget_shape:
  "session_shape (snd (forget_buffers vs s)) =
     (ps_id s, map_option (\<lambda>b. mb_len (pb_info b)) (ps_tci s), forget_shapes vs (map buffer_shape (ps_buffers s)))"
proof (induction vs arbitrary: s)
  case (Cons v vs)
  show ?case
  proof (cases "findBuffer v s")
    case None
    then have "v \<notin> fst ` set (map buffer_shape (ps_buffers s))" using find_none_shape by blast
    then show ?thesis using None by (simp add: removeBuffer_def session_shape_def)
  next
    case (Some b)
    then have "v \<in> fst ` set (map buffer_shape (ps_buffers s))" using find_none_shape [of v s] by (metis option.distinct(1))
    then show ?thesis using Some Cons.IH [of "s\<lparr>ps_buffers := remove_first (\<lambda>b. pb_sva b = v) (ps_buffers s)\<rparr>"]
      by (simp add: removeBuffer_def map_remove_first del: set_map)
  qed
qed (simp add: session_shape_def)

lemma delete_shape:
  "delete_buffers bs gone s = Some (ok, s1) \<Longrightarrow>
     session_shape s1 = (ps_id s, map_option (\<lambda>b. mb_len (pb_info b)) (ps_tci s), forget_shapes (map pb_sva bs) (map buffer_shape (ps_buffers s))) \<and>
     (server_session_ok s \<longrightarrow> server_session_ok s1)"
proof (induction bs gone s arbitrary: ok s1 rule: delete_buffers.induct)
  case (2 b bs gone s)
  let ?v = "pb_sva b"
  have g: "?v \<notin> set gone" using 2(2) by (auto split: if_splits)
  show ?case
  proof (cases "findBuffer ?v s")
    case None
    then have "?v \<notin> fst ` set (map buffer_shape (ps_buffers s))" using find_none_shape by blast
    then show ?thesis using None 2(2) g by (auto simp: removeBuffer_def session_shape_def)
  next
    case (Some x)
    let ?s = "s\<lparr>ps_buffers := remove_first (\<lambda>b. pb_sva b = ?v) (ps_buffers s)\<rparr>"
    have "?v \<in> fst ` set (map buffer_shape (ps_buffers s))" using Some find_none_shape [of ?v s] by (metis option.distinct(1))
    moreover have r: "removeBuffer ?v s = Some ?s" using Some by (simp add: removeBuffer_def)
    moreover have "delete_buffers bs (?v # gone) ?s = Some (ok, s1)" using 2(2) g r by simp
    moreover have "server_session_ok s \<longrightarrow> server_session_ok ?s" using remove_subset [of _ "ps_buffers s"] by (auto simp: server_session_ok_def)
    ultimately show ?thesis using 2(1) [OF g r] by (auto simp: map_remove_first)
  qed
qed (simp add: session_shape_def)

lemma find_buffers_svas: "find_buffers (map Some vs) s = Inr bs \<Longrightarrow> map pb_sva bs = vs"
  by (induction vs arbitrary: bs) (auto simp: findBuffer_def dest!: find_in split: option.splits sum.splits)

lemma unmap_server:
  assumes u: "server_unmap lo (UnmapRequest (Some sid) (map Some vs)) sv = Some ((Inr d, e), sv1)"
    and ok: "server_memory_ok sv" "sv_session sv = Some s" "server_session_ok s"
  shows "server_memory_ok sv1 \<and> (e \<noteq> None \<longrightarrow> sv_session sv1 = Some s) \<and>
    (e = None \<longrightarrow> (\<exists>s1. sv_session sv1 = Some s1 \<and> server_session_ok s1 \<and>
       session_shape s1 = (ps_id s, map_option (\<lambda>b. mb_len (pb_info b)) (ps_tci s), forget_shapes vs (map buffer_shape (ps_buffers s)))))"
proof -
  have len: "\<not> length vs > MC_MAP_MAX" "\<not> length vs > length (ps_buffers s)" using u ok(2) by (auto simp: server_unmap_def refuse_def split: if_splits)
  show ?thesis
  proof (cases "find_buffers (map Some vs) s")
    case (Inl x)
    then show ?thesis using u ok len by (cases x) (auto simp: server_unmap_def refuse_def method_error_def)
  next
    case (Inr bs)
    obtain x d1 where x: "ic_unmap lo sid (map_array (pb_info (sv_junk sv)) bs) (sv_driver sv) = (x, d1)" by fastforce
    show ?thesis
    proof (cases x)
      case (Some y)
      then show ?thesis using u ok len x Inr by (auto simp: server_unmap_def method_error_def)
    next
      case None
      then obtain dok s1 where db: "delete_buffers bs [] s = Some (dok, s1)" using u ok len x Inr by (auto simp: server_unmap_def split: option.splits)
      have "dok" using u ok len x Inr None db by (auto simp: server_unmap_def refuse_def split: if_splits)
      then have "sv1 = release_buffers bs (sv\<lparr>sv_driver := d1, sv_session := Some s1\<rparr>)" "e = None"
        using u ok len x Inr None db by (auto simp: server_unmap_def answer_with_def)
      then show ?thesis using delete_shape [OF db] find_buffers_svas [OF Inr] ok by simp
    qed
  qed
qed

end
