(* ===== verification/ProxyFacts.thy ===== *)
theory ProxyFacts
  imports ProxySessions
begin

text \<open>
  The proxy client and server keep their sessions alike: whatever an application does, each connection of the client leads to a session of the
  server of the same shape, unless the server has ended it.
\<close>

subsection \<open>First elements\<close>

lemma find_split: "find P xs = Some x \<Longrightarrow> \<exists>ys zs. xs = ys @ x # zs \<and> (\<forall>y\<in>set ys. \<not> P y) \<and> P x"
proof (induction xs)
  case (Cons a xs)
  show ?case
  proof (cases "P a")
    case True
    then have "a # xs = [] @ x # xs \<and> (\<forall>y\<in>set []. \<not> P y) \<and> P x" using Cons.prems by simp
    then show ?thesis by blast
  next
    case False
    then obtain ys zs where "xs = ys @ x # zs" "\<forall>y\<in>set ys. \<not> P y" "P x" using Cons by auto
    then have "a # xs = (a # ys) @ x # zs \<and> (\<forall>y\<in>set (a # ys). \<not> P y) \<and> P x" using False by simp
    then show ?thesis by blast
  qed
qed simp

lemma first_split [simp]:
  "\<forall>y\<in>set ys. \<not> P y \<Longrightarrow> P x \<Longrightarrow> remove_first P (ys @ x # zs) = ys @ zs"
  "\<forall>y\<in>set ys. \<not> P y \<Longrightarrow> P x \<Longrightarrow> update_first P f (ys @ x # zs) = ys @ f x # zs"
  by (induction ys) simp_all

lemma update_first_id [simp]: "update_first P (\<lambda>x. x) xs = xs"
  by (induction xs) simp_all

subsection \<open>The invariant\<close>

definition mirrors :: "'s proxy_link \<Rightarrow> client_connection \<Rightarrow> bool" where
  "mirrors k co \<longleftrightarrow> (\<forall>sv. pk_conns k (co_socket co) = Some sv \<longrightarrow>
     (\<exists>s. sv_session sv = Some s \<and> server_session_ok s \<and> session_shape s = session_shape (co_session co)))"

definition fresh_server :: "'s server_connection \<Rightarrow> bool" where
  "fresh_server sv \<longleftrightarrow> server_memory_ok sv \<and> sv_session sv = None"

definition mirrored :: "'s proxy_link proxyClient \<Rightarrow> bool" where
  "mirrored c \<longleftrightarrow> (\<forall>i. fresh_server (pk_fresh (pc_net c) i)) \<and>
     (\<forall>fd sv. pk_conns (pc_net c) fd = Some sv \<longrightarrow> server_memory_ok sv \<and> fd < pk_next (pc_net c)) \<and>
     distinct (map co_socket (pc_connections c)) \<and>
     (\<forall>co\<in>set (pc_connections c). co_socket co < pk_next (pc_net c) \<and> mirrors (pc_net c) co)"

definition proxied_ok :: "'s proxy_link proxyClient \<Rightarrow> bool" where
  "proxied_ok c \<longleftrightarrow> (pk_alive (pc_net c) \<longrightarrow> mirrored c)"

text \<open>Connections the server ends do no harm, and neither do those the client forgets.\<close>

lemma mirrored_less:
  assumes "mirrored c" and "set (pc_connections c1) \<subseteq> set (pc_connections c)" and "distinct (map co_socket (pc_connections c1))"
    and "\<And>fd. pk_conns (pc_net c1) fd = None \<or> pk_conns (pc_net c1) fd = pk_conns (pc_net c) fd"
    and "pk_next (pc_net c) \<le> pk_next (pc_net c1)" and "pk_fresh (pc_net c1) = pk_fresh (pc_net c)"
  shows "mirrored c1"
proof -
  have k: "pk_conns (pc_net c1) fd = Some sv \<Longrightarrow> pk_conns (pc_net c) fd = Some sv" for fd sv using assms(4) [of fd] by auto
  show ?thesis
    unfolding mirrored_def mirrors_def
  proof (intro conjI allI impI ballI)
    show "distinct (map co_socket (pc_connections c1))" by (rule assms(3))
    fix fd sv assume "pk_conns (pc_net c1) fd = Some sv"
    then show "server_memory_ok sv" "fd < pk_next (pc_net c1)" using k [of fd sv] assms(1,5) unfolding mirrored_def by fastforce+
  next
    fix i show "fresh_server (pk_fresh (pc_net c1) i)" using assms(1,6) by (simp add: mirrored_def)
  next
    fix co assume "co \<in> set (pc_connections c1)"
    then have co: "co \<in> set (pc_connections c)" using assms(2) by blast
    then show "co_socket co < pk_next (pc_net c1)" using assms(1,5) unfolding mirrored_def by fastforce
    fix sv assume "pk_conns (pc_net c1) (co_socket co) = Some sv"
    then show "\<exists>s. sv_session sv = Some s \<and> server_session_ok s \<and> session_shape s = session_shape (co_session co)"
      using k [of "co_socket co" sv] co assms(1) unfolding mirrored_def mirrors_def by blast
  qed
qed

lemma mirrored_remove:
  assumes "mirrored c" and "find_connection sid c = Some co" and "pc_connections c1 = remove_first (connection_of sid) (pc_connections c)"
    and "pk_conns (pc_net c1) = (pk_conns (pc_net c))(co_socket co := None)" and "pk_next (pc_net c1) = pk_next (pc_net c)"
    and "pk_fresh (pc_net c1) = pk_fresh (pc_net c)"
  shows "mirrored c1"
proof -
  obtain ys zs where l: "pc_connections c = ys @ co # zs" "\<forall>y\<in>set ys. \<not> connection_of sid y" "connection_of sid co"
    using find_split [OF assms(2) [unfolded find_connection_def]] by blast
  then have r: "pc_connections c1 = ys @ zs" using assms(3) by simp
  have d: "distinct (map co_socket (ys @ co # zs))" using assms(1) l(1) by (simp add: mirrored_def)
  show ?thesis
    by (rule mirrored_less [OF assms(1)]) (use l r d assms(4-6) in \<open>auto simp: fun_upd_def\<close>)
qed

lemma mirrored_update:
  assumes "mirrored c" and "find_connection sid c = Some co" and "pc_connections c1 = update_first (connection_of sid) f (pc_connections c)"
    and "pk_conns (pc_net c1) = (pk_conns (pc_net c))(co_socket co := x)" and "pk_next (pc_net c1) = pk_next (pc_net c)"
    and "pk_fresh (pc_net c1) = pk_fresh (pc_net c)" and "co_socket (f co) = co_socket co"
    and "\<And>sv. x = Some sv \<Longrightarrow> server_memory_ok sv \<and> (\<exists>s. sv_session sv = Some s \<and> server_session_ok s \<and> session_shape s = session_shape (co_session (f co)))"
  shows "mirrored c1"
proof -
  obtain ys zs where l: "pc_connections c = ys @ co # zs" "\<forall>y\<in>set ys. \<not> connection_of sid y" "connection_of sid co"
    using find_split [OF assms(2) [unfolded find_connection_def]] by blast
  then have r: "pc_connections c1 = ys @ f co # zs" using assms(3) by simp
  have d: "distinct (map co_socket (ys @ co # zs))" using assms(1) l(1) by (simp add: mirrored_def)
  have less: "co_socket o1 < pk_next (pc_net c)" and m: "mirrors (pc_net c) o1" if "o1 \<in> set (ys @ co # zs)" for o1
    using assms(1) that unfolding mirrored_def l(1) by blast+
  show ?thesis
    unfolding mirrored_def mirrors_def
  proof (intro conjI allI impI ballI)
    fix i show "fresh_server (pk_fresh (pc_net c1) i)" using assms(1,6) by (simp add: mirrored_def)
  next
    fix fd sv assume s: "pk_conns (pc_net c1) fd = Some sv"
    have old: "pk_conns (pc_net c) fd = Some sv \<Longrightarrow> server_memory_ok sv \<and> fd < pk_next (pc_net c)" using assms(1) by (simp add: mirrored_def)
    show "server_memory_ok sv" using s assms(8) [of sv] old by (cases "fd = co_socket co") (auto simp: assms(4))
    show "fd < pk_next (pc_net c1)" using s less [of co] old by (cases "fd = co_socket co") (auto simp: assms(4,5))
  next
    show "distinct (map co_socket (pc_connections c1))" using d by (simp add: r assms(7))
  next
    fix o1 assume o1: "o1 \<in> set (pc_connections c1)"
    then show "co_socket o1 < pk_next (pc_net c1)" using less by (auto simp: r assms(5,7))
    fix sv assume sv: "pk_conns (pc_net c1) (co_socket o1) = Some sv"
    show "\<exists>s. sv_session sv = Some s \<and> server_session_ok s \<and> session_shape s = session_shape (co_session o1)"
    proof (cases "o1 = f co")
      case True
      then show ?thesis using sv assms(8) [of sv] by (simp add: assms(4,7))
    next
      case False
      then have "o1 \<in> set (ys @ co # zs)" "co_socket o1 \<noteq> co_socket co" using o1 d by (auto simp: r) (metis imageI)+
      then show ?thesis using sv m [of o1] by (auto simp: assms(4) mirrors_def)
    qed
  qed
qed

subsection \<open>Calls for a session\<close>

definition same_rest :: "'s proxy_link proxyClient \<Rightarrow> 's proxy_link proxyClient \<Rightarrow> bool" where
  "same_rest c c1 \<longleftrightarrow> pk_next (pc_net c1) = pk_next (pc_net c) \<and> pk_fresh (pc_net c1) = pk_fresh (pc_net c) \<and>
     pk_alive (pc_net c1) = pk_alive (pc_net c) \<and> pc_memory c1 = pc_memory c"

lemma round_answer:
  assumes "server_round la lo me req sv = Some (a, sv1, stays)"
  obtains sv2 where "server_call la lo me req sv = Some (a, sv2)" and "stays \<longrightarrow> sv1 = sv2"
  using assms by (auto simp: server_round_def split: option.splits if_splits)

lemma session_call_link:
  assumes f: "find_connection sid c = Some co" and sc: "session_call (wire_transport la lo) sid me req c = (r, c1)"
  obtains (dead) e where "r = Inl e" "\<not> pk_alive (pc_net c1)"
  | (lost) e where "r = Inl e" "pc_connections c1 = remove_first (connection_of sid) (pc_connections c)"
      "pk_conns (pc_net c1) = (pk_conns (pc_net c))(co_socket co := None)" "same_rest c c1"
  | (answered) sv d e sv1 x where "pk_conns (pc_net c) (co_socket co) = Some sv" "server_call la lo me req sv = Some ((Inr d, e), sv1)"
      "r = (case e of None \<Rightarrow> Inr d | Some y \<Rightarrow> Inl y)" "pc_connections c1 = pc_connections c"
      "pk_conns (pc_net c1) = (pk_conns (pc_net c))(co_socket co := x)" "x = None \<or> x = Some sv1" "same_rest c c1"
proof (cases "pk_conns (pc_net c) (co_socket co)")
  case None
  then have "r = Inl EPIPE \<and> c1 = snd (deleteConnection (wire_transport la lo) sid c)"
    using sc f by (simp add: session_call_def wire_call default_errno_def)
  then show ?thesis using f None by (intro lost [of EPIPE]) (auto simp: deleteConnection_def wire_close_def same_rest_def)
next
  case (Some sv)
  show ?thesis
  proof (cases "server_round la lo me req sv")
    case None
    then have "\<exists>e. r = Inl e \<and> \<not> pk_alive (pc_net c1)"
      using sc f Some by (auto simp: session_call_def wire_call deleteConnection_def find_connection_def wire_close_def)
    then show ?thesis using dead by blast
  next
    fix rr assume "server_round la lo me req sv = Some rr"
    then obtain p e sv1 stays where rr: "server_round la lo me req sv = Some ((p, e), sv1, stays)" by (metis prod.collapse)
    then obtain sv2 where c2: "server_call la lo me req sv = Some ((p, e), sv2)" "stays \<longrightarrow> sv1 = sv2" by (rule round_answer)
    let ?x = "if stays then Some sv1 else None"
    show ?thesis
    proof (cases "(\<exists>y. p = Inl y) \<or> co_broken co \<and> e \<noteq> None")
      case True
      then have "\<exists>y. r = Inl y \<and> pc_connections c1 = remove_first (connection_of sid) (pc_connections c) \<and>
          pk_conns (pc_net c1) = (pk_conns (pc_net c))(co_socket co := None) \<and> same_rest c c1"
        using sc f Some rr
        by (auto simp: session_call_def wire_call result_of_def deleteConnection_def find_connection_def wire_close_def same_rest_def default_errno_def split: sum.splits option.splits)
      then show ?thesis using lost by blast
    next
      case False
      then obtain d where d: "p = Inr d" by (cases p) auto
      have "r = (case e of None \<Rightarrow> Inr d | Some y \<Rightarrow> Inl y) \<and> pc_connections c1 = pc_connections c \<and>
          pk_conns (pc_net c1) = (pk_conns (pc_net c))(co_socket co := ?x) \<and> same_rest c c1"
        using sc f Some rr d False
        by (cases e) (auto simp: session_call_def wire_call result_of_def same_rest_def default_errno_def)
      then show ?thesis using answered [of sv d e sv2 ?x] Some c2 d by auto
    qed
  qed
qed

lemma same_rest_alive: "same_rest c c1 \<Longrightarrow> pk_alive (pc_net c1) = pk_alive (pc_net c)"
  by (simp add: same_rest_def)

text \<open>A call whose answer keeps the session keeps the invariant.\<close>

lemma keeping_call:
  assumes sc: "session_call (wire_transport la lo) sid me req c = (r, c1)" and ok: "proxied_ok c"
    and keep: "\<And>sv d e sv1. server_call la lo me req sv = Some ((Inr d, e), sv1) \<Longrightarrow> e \<noteq> None \<or> all \<Longrightarrow> keeps sv sv1"
    and r: "(\<exists>e. r = Inl e) \<or> all"
  shows "proxied_ok c1"
proof (cases "find_connection sid c")
  case None
  then show ?thesis using sc ok by (simp add: session_call_def)
next
  case (Some co)
  show ?thesis
    using Some sc
  proof (cases rule: session_call_link)
    case (dead e)
    then show ?thesis by (simp add: proxied_ok_def)
  next
    case (lost e)
    then show ?thesis using ok mirrored_remove [OF _ Some, of c1] by (simp add: proxied_ok_def same_rest_def)
  next
    case (answered sv d e sv1 x)
    have co: "co \<in> set (pc_connections c)" using Some by (simp add: find_connection_def find_Some_iff) (metis nth_mem)
    have k: "keeps sv sv1" by (rule keep [OF answered(2)]) (use r answered(3) in \<open>auto split: option.splits\<close>)
    show ?thesis
      unfolding proxied_ok_def
    proof
      assume "pk_alive (pc_net c1)"
      then have m: "mirrored c" using ok answered(7) by (simp add: proxied_ok_def same_rest_def)
      then have ms: "mirrors (pc_net c) co" "server_memory_ok sv" using co answered(1) by (auto simp: mirrored_def)
      show "mirrored c1"
        by (rule mirrored_update [OF m Some, of _ "\<lambda>x. x" x])
          (use answered ms k in \<open>auto simp: same_rest_def mirrors_def keeps_def\<close>)
    qed
  qed
qed

subsection \<open>The operations\<close>

lemma method_keeps:
  "server_call la lo NOTIFY msg sv = Some ((Inr d, e), sv1) \<Longrightarrow> keeps sv sv1"
  "server_call la lo WAIT msg sv = Some (a, sv1) \<Longrightarrow> keeps sv sv1"
  "server_call la lo GET_ERROR msg sv = Some ((Inr d, e), sv1) \<Longrightarrow> keeps sv sv1"
  "server_call la lo GP_REQUESTCANCELLATION msg sv = Some ((Inr d, e), sv1) \<Longrightarrow> keeps sv sv1"
  by (simp_all add: server_call_def notify_keeps wait_keeps getError_keeps cancel_keeps)

lemma px_notify_ok:
  assumes "px_notify (wire_transport la lo) sid c = (e, c1)" and "proxied_ok c"
  shows "proxied_ok c1"
proof (cases "find_connection sid c")
  case None
  then show ?thesis using assms by (simp add: px_notify_def)
next
  case (Some co)
  obtain r c2 where s: "session_call (wire_transport la lo) sid NOTIFY (notify_request sid (pc_memory c) (co_session co)) c = (r, c2)" by fastforce
  then have "c1 = c2" using assms(1) Some by (auto simp: px_notify_def split: sum.splits)
  then show ?thesis using keeping_call [OF s assms(2), where all = True] method_keeps(1) by blast
qed

lemma getError_ok:
  assumes "px_getError (wire_transport la lo) sid c = (e, c1)" and "proxied_ok c"
  shows "proxied_ok c1"
proof -
  obtain r c2 where s: "session_call (wire_transport la lo) sid GET_ERROR (GetErrorRequest (Some sid)) c = (r, c2)" by fastforce
  then have "c1 = c2" using assms(1) by (auto simp: px_getError_def split: sum.splits)
  then show ?thesis using keeping_call [OF s assms(2), where all = True] method_keeps(3) by blast
qed

lemma cancel_ok:
  assumes "px_gpRequestCancellation (wire_transport la lo) sid c = (e, c1)" and "proxied_ok c"
  shows "proxied_ok c1"
proof -
  obtain r c2 where s: "session_call (wire_transport la lo) sid GP_REQUESTCANCELLATION (GpRequestCancellationRequest (Some sid)) c = (r, c2)" by fastforce
  then have "c1 = c2" using assms(1) by (auto simp: px_gpRequestCancellation_def split: sum.splits)
  then show ?thesis using keeping_call [OF s assms(2), where all = True] method_keeps(4) by blast
qed

lemma session_call_none: "find_connection sid c = None \<Longrightarrow> session_call tp sid me req c = (Inl ENXIO, c)"
  by (simp add: session_call_def)

lemma close_ok:
  assumes "px_closeSession (wire_transport la lo) sid c = (e, c2)" and ok: "proxied_ok c"
  shows "proxied_ok c2"
proof -
  obtain r c1 where s: "session_call (wire_transport la lo) sid CLOSE_SESSION (CloseSessionRequest (Some sid)) c = (r, c1)" by fastforce
  show ?thesis
  proof (cases r)
    case (Inl x)
    then have "proxied_ok c1"
      using keeping_call [OF s ok, where all = False] by (auto simp: server_call_def intro: close_keeps)
    then show ?thesis using assms(1) s Inl by (simp add: px_closeSession_def)
  next
    case (Inr d)
    then obtain co where f: "find_connection sid c = Some co" using s by (cases "find_connection sid c") (auto simp: session_call_none)
    have c2: "c2 = snd (deleteConnection (wire_transport la lo) sid c1)" using assms(1) s Inr by (auto simp: px_closeSession_def split: prod.splits)
    show ?thesis
      using f s
    proof (cases rule: session_call_link)
      case (answered sv d1 e1 sv1 x)
      have f1: "find_connection sid c1 = Some co" using f answered(4) by (simp add: find_connection_def)
      have "mirrored c \<Longrightarrow> mirrored c2"
        by (rule mirrored_remove [OF _ f]) (use answered c2 f1 in \<open>simp_all add: deleteConnection_def wire_close_def same_rest_def\<close>)
      moreover have "pk_alive (pc_net c2) = pk_alive (pc_net c)" using answered(7) c2 f1 by (simp add: deleteConnection_def wire_close_def same_rest_def)
      ultimately show ?thesis using ok by (simp add: proxied_ok_def)
    qed (use Inr in auto)
  qed
qed

lemma take_svas_given:
  "length svas = length (given_buffers bufs) \<Longrightarrow> \<exists>bufs1. take_svas bufs (map Some svas) = (True, bufs1) \<and>
     given_buffers bufs1 = map2 (\<lambda>b v. b\<lparr>mb_sva := v\<rparr>) (given_buffers bufs) svas"
proof (induction bufs arbitrary: svas)
  case (Cons b bufs)
  show ?case
  proof (cases "mb_va b = 0")
    case True
    then show ?thesis using Cons.IH [of svas] Cons.prems by auto
  next
    case False
    then obtain v vs where "svas = v # vs" using Cons.prems by (cases svas) auto
    then show ?thesis using False Cons.IH [of vs] Cons.prems by auto
  qed
qed simp

lemma fold_addClient: "fold (\<lambda>b. addBuffer (client_buffer b)) bs s = s\<lparr>ps_buffers := ps_buffers s @ map client_buffer bs\<rparr>"
  by (induction bs arbitrary: s) (simp_all add: addBuffer_def)

lemma client_shapes:
  "length svas = length bs \<Longrightarrow>
   map buffer_shape (map client_buffer (map2 (\<lambda>b v. b\<lparr>mb_sva := v\<rparr>) bs svas)) = map2 (\<lambda>b v. (v, mb_len b, mb_flags b)) bs svas"
  by (induction bs svas rule: list_induct2') (simp_all add: client_buffer_def buffer_shape_def)

lemma px_map_ok:
  assumes m: "px_map (wire_transport la lo) sid bufs c = (r, c2)" and ok: "proxied_ok c" and lo: "maps_in_place lo"
    and len: "\<forall>b\<in>set (given_buffers bufs). mb_len b \<noteq> 0"
  shows "proxied_ok c2"
proof -
  let ?req = "MapRequest (Some sid) (map (\<lambda>b. (Some (mb_len b), Some (mb_flags b))) (given_buffers bufs))"
  obtain x c1 where s: "session_call (wire_transport la lo) sid MAP ?req c = (x, c1)" by fastforce
  show ?thesis
  proof (cases "find_connection sid c = None \<or> (\<exists>b\<in>set (given_buffers bufs). mb_len b > BUFFER_LENGTH_MAX)")
    case True
    then have "c2 = c" using m unfolding px_map_def by (cases "find_connection sid c") auto
    then show ?thesis using ok by simp
  next
    case False
    then obtain co where f: "find_connection sid c = Some co" by auto
    have nb: "(\<exists>b\<in>set (given_buffers bufs). mb_len b > BUFFER_LENGTH_MAX) = False" using False by blast
    have m2: "px_map (wire_transport la lo) sid bufs c = (case (x, c1) of
           (Inl e, c1) \<Rightarrow> ((Some e, bufs), c1)
         | (Inr msg, c1) \<Rightarrow>
           (case (case msg of Some (MapResponse svas) \<Rightarrow> svas | _ \<Rightarrow> []) of svas \<Rightarrow>
              if length svas \<noteq> length (given_buffers bufs) then ((Some EHOSTUNREACH, bufs), c1)
              else (case take_svas bufs svas of
                  (False, bufs1) \<Rightarrow> ((Some EHOSTUNREACH, bufs1), c1)
                | (True, bufs1) \<Rightarrow> ((None, bufs1),
                    change_session sid (\<lambda>s. fold (\<lambda>b. addBuffer (client_buffer b)) (given_buffers bufs1) s) c1))))"
      unfolding s [symmetric] px_map_def by (simp only: f option.case nb if_False)
    show ?thesis
      using f s
    proof (cases rule: session_call_link)
      case (dead e)
      then show ?thesis using m m2 by (simp add: proxied_ok_def)
    next
      case (lost e)
      then have "c2 = c1" using m m2 by simp
      then show ?thesis using lost ok mirrored_remove [OF _ f, of c1] by (simp add: proxied_ok_def same_rest_def)
    next
      case (answered sv d e sv1 y)
      have call: "server_map lo ?req sv = ((Inr d, e), sv1)" using answered(2) by (simp add: server_call_def)
      have co: "co \<in> set (pc_connections c)" using f by (simp add: find_connection_def find_in)
      show ?thesis
        unfolding proxied_ok_def
      proof
        assume a2: "pk_alive (pc_net c2)"
        have net: "pc_net c2 = pc_net c1" using m m2
          by (auto simp: change_session_def change_connection_def split: sum.splits option.splits if_splits prod.splits bool.splits)
        then have mi: "mirrored c" using a2 answered(7) ok by (simp add: proxied_ok_def same_rest_def)
        then obtain s0 where s0: "sv_session sv = Some s0" "server_session_ok s0" "session_shape s0 = session_shape (co_session co)" and mem: "server_memory_ok sv"
          using answered(1) co unfolding mirrored_def mirrors_def by blast
        note ms = map_server [OF call mem s0(1,2) len lo]
        show "mirrored c2"
        proof (cases e)
          case (Some e1)
          then have "c2 = c1" using m m2 answered(3) by simp
          then show ?thesis
            by (intro mirrored_update [OF mi f, of _ "\<lambda>x. x" y]) (use answered ms s0 Some in \<open>auto simp: same_rest_def\<close>)
        next
          case None
          obtain svas s1 where sv: "d = data_of (MapResponse (map Some svas))" "length svas = length (given_buffers bufs)" "sv_session sv1 = Some s1" "server_session_ok s1"
            "session_shape s1 = (ps_id s0, map_option (\<lambda>b. mb_len (pb_info b)) (ps_tci s0),
               map buffer_shape (ps_buffers s0) @ map2 (\<lambda>b v. (v, mb_len b, mb_flags b)) (given_buffers bufs) svas)"
            using ms None by blast
          have resp: "(case d of Some (MapResponse svas) \<Rightarrow> svas | _ \<Rightarrow> []) = map Some svas" by (simp add: sv(1) data_of_def)
          obtain bufs1 where t: "take_svas bufs (map Some svas) = (True, bufs1)" "given_buffers bufs1 = map2 (\<lambda>b v. b\<lparr>mb_sva := v\<rparr>) (given_buffers bufs) svas"
            using take_svas_given [OF sv(2)] by blast
          let ?f = "\<lambda>s. fold (\<lambda>b. addBuffer (client_buffer b)) (given_buffers bufs1) s"
          have c2: "c2 = change_session sid ?f c1" using m [unfolded m2] answered(3) None by (simp add: resp sv(2) t(1))
          have "session_shape (?f (co_session co)) = session_shape s1"
            using s0(3) sv(5) client_shapes [OF sv(2)] by (simp add: fold_addClient t(2) session_shape_def del: map_map)
          then show ?thesis
            by (intro mirrored_update [OF mi f, of _ "\<lambda>co. co\<lparr>co_session := ?f (co_session co)\<rparr>" y])
              (use answered c2 ms sv in \<open>auto simp: same_rest_def change_session_def change_connection_def\<close>)
        qed
      qed
    qed
  qed
qed

lemma px_unmap_ok:
  assumes m: "px_unmap (wire_transport la lo) sid bufs c = (r, c2)" and ok: "proxied_ok c"
  shows "proxied_ok c2"
proof -
  let ?vs = "map mb_sva (given_buffers bufs)"
  let ?req = "UnmapRequest (Some sid) (map (\<lambda>b. Some (mb_sva b)) (given_buffers bufs))"
  have req: "?req = UnmapRequest (Some sid) (map Some ?vs)" by simp
  obtain x c1 where s: "session_call (wire_transport la lo) sid UNMAP ?req c = (x, c1)" by fastforce
  show ?thesis
  proof (cases "find_connection sid c = None \<or> (\<exists>b\<in>set (given_buffers bufs). mb_sva b = 0)")
    case True
    then have "c2 = c" using m unfolding px_unmap_def by (cases "find_connection sid c") auto
    then show ?thesis using ok by simp
  next
    case False
    then obtain co where f: "find_connection sid c = Some co" by auto
    have nb: "(\<exists>b\<in>set (given_buffers bufs). mb_sva b = 0) = False" using False by blast
    have m2: "px_unmap (wire_transport la lo) sid bufs c = (case (x, c1) of
           (Inl e, c1) \<Rightarrow> (Some e, c1)
         | (Inr _, c1) \<Rightarrow>
           (if fst (forget_buffers ?vs (co_session co)) then None else Some (pc_errno c),
            change_session sid (\<lambda>s. snd (forget_buffers ?vs s)) c1))"
      unfolding s [symmetric] px_unmap_def by (simp only: f option.case nb if_False)
    show ?thesis
      using f s
    proof (cases rule: session_call_link)
      case (dead e)
      then show ?thesis using m m2 by (simp add: proxied_ok_def)
    next
      case (lost e)
      then have "c2 = c1" using m m2 by simp
      then show ?thesis using lost ok mirrored_remove [OF _ f, of c1] by (simp add: proxied_ok_def same_rest_def)
    next
      case (answered sv d e sv1 y)
      have call: "server_unmap lo (UnmapRequest (Some sid) (map Some ?vs)) sv = Some ((Inr d, e), sv1)"
        using answered(2) unfolding req by (simp add: server_call_def)
      have co: "co \<in> set (pc_connections c)" using f by (simp add: find_connection_def find_in)
      show ?thesis
        unfolding proxied_ok_def
      proof
        assume a2: "pk_alive (pc_net c2)"
        have net: "pc_net c2 = pc_net c1" using m m2
          by (auto simp: change_session_def change_connection_def split: sum.splits)
        then have mi: "mirrored c" using a2 answered(7) ok by (simp add: proxied_ok_def same_rest_def)
        then obtain s0 where s0: "sv_session sv = Some s0" "server_session_ok s0" "session_shape s0 = session_shape (co_session co)" and mem: "server_memory_ok sv"
          using answered(1) co unfolding mirrored_def mirrors_def by blast
        note us = unmap_server [OF call mem s0(1,2)]
        show "mirrored c2"
        proof (cases e)
          case (Some e1)
          then have "c2 = c1" using m m2 answered(3) by simp
          then show ?thesis
            by (intro mirrored_update [OF mi f, of _ "\<lambda>x. x" y]) (use answered us s0 Some in \<open>auto simp: same_rest_def\<close>)
        next
          case None
          then have c2: "c2 = change_session sid (\<lambda>s. snd (forget_buffers ?vs s)) c1" using m [unfolded m2] answered(3) by simp
          obtain s1 where s1: "sv_session sv1 = Some s1" "server_session_ok s1"
            "session_shape s1 = (ps_id s0, map_option (\<lambda>b. mb_len (pb_info b)) (ps_tci s0), forget_shapes ?vs (map buffer_shape (ps_buffers s0)))"
            using us None by blast
          have "session_shape (snd (forget_buffers ?vs (co_session co))) = session_shape s1"
            using s0(3) unfolding forget_shape s1(3) by (simp add: session_shape_def)
          then show ?thesis
            by (intro mirrored_update [OF mi f, of _ "\<lambda>co. co\<lparr>co_session := snd (forget_buffers ?vs (co_session co))\<rparr>" y])
              (use answered c2 us s1 in \<open>auto simp: same_rest_def change_session_def change_connection_def\<close>)
        qed
      qed
    qed
  qed
qed

subsection \<open>Waiting\<close>

lemmas wait_rounds_induct = wait_rounds.raw_induct [rotated, consumes 1, case_names loop]

text \<open>What the rounds of a wait do to the link, from \<open>k\<close> to \<open>k1\<close>.\<close>

definition waited :: "nat \<Rightarrow> 's proxy_link \<Rightarrow> 's proxy_link \<Rightarrow> message option \<Rightarrow> wait_outcome \<Rightarrow> bool" where
  "waited fd k k1 resp w \<longleftrightarrow> \<not> pk_alive k1 \<or>
     (pk_next k1 = pk_next k \<and> pk_fresh k1 = pk_fresh k \<and> pk_alive k1 = pk_alive k \<and>
      (\<exists>x. pk_conns k1 = (pk_conns k)(fd := x) \<and> (\<forall>sv1. x = Some sv1 \<longrightarrow> (\<exists>sv. pk_conns k fd = Some sv \<and> keeps sv sv1)) \<and>
         (\<not> wo_failed w \<longrightarrow> (\<exists>sv1 s1 r. (x = None \<or> x = Some sv1) \<and> sv_session sv1 = Some s1 \<and> wait_response s1 = Some r \<and>
            wo_response w = newer_response resp (data_of r)))))"

lemma wait_rounds_link:
  "wait_rounds (wire_transport la lo) fd sid timeout left resp e broken k = Some (w, k1) \<Longrightarrow> waited fd k k1 resp w"
proof (induction "wire_transport la lo" fd sid timeout left resp e broken k "(w, k1)" arbitrary: w k1 rule: wait_rounds_induct)
  case (loop rec fd sid timeout left resp e broken k)
  obtain t partial left1 where wr: "wait_round timeout left = (t, partial, left1)" by (cases "wait_round timeout left")
  let ?req = "WaitRequest (Some sid) (Some t) (Some partial)"
  obtain cr k0 where pc: "proxy_call (wire_transport la lo) fd WAIT ?req k = (cr, k0)" by fastforce
  note body = loop(2) [unfolded wr prod.case pc]
  show ?case
  proof (cases "pk_conns k fd")
    case None
    then have "cr = Call_failed (Some EPIPE) True None" "k0 = k" using pc by (simp_all add: wire_call)
    then have "k1 = k" "wo_failed w" using body by (auto simp: default_errno_def)
    then show ?thesis using None by (auto simp: waited_def fun_upd_idem)
  next
    case (Some sv)
    show ?thesis
    proof (cases "server_round la lo WAIT ?req sv")
      case None
      then have d: "cr = Call_failed None True None" "\<not> pk_alive k0" using pc Some by (auto simp: wire_call)
      show ?thesis
      proof (cases "e \<noteq> ETIME \<or> \<not> partial")
        case True
        then show ?thesis using body d by (auto simp: default_errno_def waited_def)
      next
        case False
        then have "rec (wire_transport la lo) fd sid timeout left1 (newer_response resp None) (default_errno e None) (broken \<or> True) k0 = Some (w, k1)"
          using body d by (simp add: default_errno_def)
        then have "waited fd k0 k1 (newer_response resp None) w" by (rule loop(1))
        then show ?thesis using d by (auto simp: waited_def)
      qed
    next
      fix rr assume "server_round la lo WAIT ?req sv = Some rr"
      then obtain p x sv1 stays where rr: "server_round la lo WAIT ?req sv = Some ((p, x), sv1, stays)" by (metis prod.collapse)
      then obtain sv2 where c2: "server_call la lo WAIT ?req sv = Some ((p, x), sv2)" "stays \<longrightarrow> sv1 = sv2" by (rule round_answer)
      let ?x = "if stays then Some sv1 else None"
      have k0: "cr = result_of (p, x)" "pk_next k0 = pk_next k" "pk_fresh k0 = pk_fresh k" "pk_alive k0 = pk_alive k" "pk_conns k0 = (pk_conns k)(fd := ?x)"
        using pc Some rr by (auto simp: wire_call)
      have kp: "keeps sv sv2" by (rule method_keeps(2) [OF c2(1)])
      have sw: "server_waitNotification lo ?req sv = Some ((p, x), sv2)" using c2(1) by (simp add: server_call_def)
      show ?thesis
      proof (cases cr)
        case (Call_ok msg)
        then have px: "p = Inr msg" "x = None" using k0(1) by (auto simp: result_of_def split: sum.splits option.splits)
        obtain s1 r where sr: "sv_session sv2 = Some s1" "wait_response s1 = Some r" "msg = data_of r" using server_wait_answer(1) [OF sw [unfolded px]] by blast
        have "k1 = k0" "wo_response w = newer_response resp msg" using body Call_ok by auto
        then show ?thesis using k0 Some c2(2) kp sr unfolding waited_def by auto
      next
        case (Call_failed e1 broke msg)
        show ?thesis
        proof (cases "default_errno e e1 \<noteq> ETIME \<or> \<not> partial")
          case True
          then have "k1 = k0" "wo_failed w" using body Call_failed by auto
          then show ?thesis using k0 Some c2(2) kp unfolding waited_def by auto
        next
          case False
          have e1: "e1 \<noteq> None" using k0(1) Call_failed by (auto simp: result_of_def split: sum.splits option.splits)
          have m: "msg = None"
          proof (cases p)
            case (Inl y)
            then show ?thesis using k0(1) Call_failed by (simp add: result_of_def)
          next
            case (Inr d)
            then have "x = Some ETIME" "msg = d" using k0(1) Call_failed False e1 by (auto simp: result_of_def default_errno_def split: option.splits)
            then show ?thesis using server_wait_answer(2) [of lo "Some sid" "Some t" sv d sv2] sw False Inr by simp
          qed
          have "rec (wire_transport la lo) fd sid timeout left1 (newer_response resp msg) (default_errno e e1) (broken \<or> broke) k0 = Some (w, k1)"
            using body Call_failed False by simp
          then have "waited fd k0 k1 (newer_response resp msg) w" by (rule loop(1))
          then have "waited fd k0 k1 resp w" by (simp add: m newer_response_def)
          then show ?thesis
            unfolding waited_def
          proof (elim disjE conjE exE, goal_cases)
            case (2 y)
            have "\<forall>sv3. y = Some sv3 \<longrightarrow> (\<exists>sv. pk_conns k fd = Some sv \<and> keeps sv sv3)"
              using 2(5) k0(5) c2(2) kp Some keeps_trans by (auto split: if_splits)
            then show ?case using 2 k0 by (intro disjI2) (auto intro!: exI [of _ y])
          qed simp
        qed
      qed
    qed
  qed
qed

lemma deleted_ok: "mirrored c \<Longrightarrow> mirrored (snd (deleteConnection (wire_transport la lo) sid c))"
proof (cases "find_connection sid c")
  case (Some co)
  assume "mirrored c"
  then show ?thesis by (rule mirrored_remove [OF _ Some]) (simp_all add: deleteConnection_def Some wire_close_def)
qed (simp add: deleteConnection_def)

lemma deleted_alive [simp]: "pk_alive (pc_net (snd (deleteConnection (wire_transport la lo) sid c))) = pk_alive (pc_net c)"
  by (simp add: deleteConnection_def wire_close_def split: option.split)

lemma px_wait_ok:
  assumes w: "px_waitNotification (wire_transport la lo) sid timeout c = Some (e, c2)" and ok: "proxied_ok c"
  shows "proxied_ok c2"
proof (cases "find_connection sid c")
  case None
  then show ?thesis using w ok by (simp add: px_waitNotification_def)
next
  case (Some co)
  obtain o1 k1 where wr: "wait_rounds (wire_transport la lo) (co_socket co) sid timeout timeout None EHOSTUNREACH (co_broken co) (pc_net c) = Some (o1, k1)"
    using w Some by (auto simp: px_waitNotification_def split: option.splits)
  let ?c1 = "change_connection sid (\<lambda>co. co\<lparr>co_broken := wo_broken o1\<rparr>) (c\<lparr>pc_net := k1\<rparr>)"
  have c2: "pc_net c2 = pc_net ?c1 \<and> pc_connections c2 = pc_connections ?c1 \<or> c2 = snd (deleteConnection (wire_transport la lo) sid ?c1)"
    using w Some wr by (auto simp: px_waitNotification_def Let_def split: if_splits option.splits)
  have al: "pk_alive (pc_net c2) = pk_alive k1" using c2 by (auto simp: change_connection_def)
  show ?thesis
    unfolding proxied_ok_def
  proof
    assume "pk_alive (pc_net c2)"
    then have a: "pk_alive k1" using al by simp
    then obtain x where x: "pk_next k1 = pk_next (pc_net c)" "pk_fresh k1 = pk_fresh (pc_net c)" "pk_alive k1 = pk_alive (pc_net c)"
      "pk_conns k1 = (pk_conns (pc_net c))(co_socket co := x)" "\<forall>sv1. x = Some sv1 \<longrightarrow> (\<exists>sv. pk_conns (pc_net c) (co_socket co) = Some sv \<and> keeps sv sv1)"
      using wait_rounds_link [OF wr] unfolding waited_def by blast
    have m: "mirrored c" using a x(3) ok by (simp add: proxied_ok_def)
    have co: "co \<in> set (pc_connections c)" using Some by (simp add: find_connection_def find_in)
    have "mirrored ?c1"
    proof (rule mirrored_update [OF m Some, of _ "\<lambda>co. co\<lparr>co_broken := wo_broken o1\<rparr>" x], goal_cases)
      case (6 sv1)
      then obtain sv where "pk_conns (pc_net c) (co_socket co) = Some sv" "keeps sv sv1" using x(5) by blast
      then show ?case using m co unfolding mirrored_def mirrors_def keeps_def by fastforce
    qed (simp_all add: change_connection_def x)
    then have "mirrored ?c1 \<and> mirrored (snd (deleteConnection (wire_transport la lo) sid ?c1))" by (simp add: deleted_ok)
    then show "mirrored c2" using c2 by (auto simp: mirrored_def)
  qed
qed

subsection \<open>Opening\<close>

lemma mirrored_connect: "proxied_ok c \<Longrightarrow> wire_connect lo (pc_net c) = (r, k) \<Longrightarrow> proxied_ok (c\<lparr>pc_net := k\<rparr>)"
proof -
  assume ok: "proxied_ok c" and l: "wire_connect lo (pc_net c) = (r, k)"
  show "proxied_ok (c\<lparr>pc_net := k\<rparr>)"
  proof (cases "pk_alive (pc_net c)")
    case False
    then show ?thesis using l by (auto simp: wire_connect_def proxied_ok_def)
  next
    case True
    then have m: "mirrored c" using ok by (simp add: proxied_ok_def)
    have k: "k = (pc_net c)\<lparr>pk_next := Suc (pk_next (pc_net c)),
        pk_conns := (pk_conns (pc_net c))(pk_next (pc_net c) := server_accepts lo (pk_fresh (pc_net c) (pk_next (pc_net c))))\<rparr>"
      using l True by (simp add: wire_connect_def)
    have acc: "server_accepts lo (pk_fresh (pc_net c) i) = Some sv \<Longrightarrow> server_memory_ok sv" for i sv
      using m by (auto simp: server_accepts_def mirrored_def fresh_server_def split: prod.splits option.splits)
    have "mirrored (c\<lparr>pc_net := k\<rparr>)"
      unfolding mirrored_def mirrors_def
    proof (intro conjI allI impI ballI)
      fix i show "fresh_server (pk_fresh (pc_net (c\<lparr>pc_net := k\<rparr>)) i)" using m by (simp add: k mirrored_def)
    next
      show "distinct (map co_socket (pc_connections (c\<lparr>pc_net := k\<rparr>)))" using m by (simp add: mirrored_def)
    next
      fix fd sv assume s: "pk_conns (pc_net (c\<lparr>pc_net := k\<rparr>)) fd = Some sv"
      have old: "pk_conns (pc_net c) fd = Some sv \<Longrightarrow> server_memory_ok sv \<and> fd < pk_next (pc_net c)" using m by (simp add: mirrored_def)
      show "server_memory_ok sv" "fd < pk_next (pc_net (c\<lparr>pc_net := k\<rparr>))"
        using s old acc by (auto simp: k split: if_splits)
    next
      fix co assume co: "co \<in> set (pc_connections (c\<lparr>pc_net := k\<rparr>))"
      then have less: "co_socket co < pk_next (pc_net c)" and mi: "mirrors (pc_net c) co" using m by (simp_all add: mirrored_def)
      show "co_socket co < pk_next (pc_net (c\<lparr>pc_net := k\<rparr>))" using less by (simp add: k)
      fix sv assume "pk_conns (pc_net (c\<lparr>pc_net := k\<rparr>)) (co_socket co) = Some sv"
      then show "\<exists>s. sv_session sv = Some s \<and> server_session_ok s \<and> session_shape s = session_shape (co_session co)"
        using less mi by (simp add: k mirrors_def)
    qed
    then show ?thesis by (simp add: proxied_ok_def)
  qed
qed

text \<open>The new connection of the server, and what a call on it leaves.\<close>

lemma connect_fresh:
  "wire_connect lo k = (Inr fd, k1) \<Longrightarrow> pk_alive k \<and> fd = pk_next k \<and> pk_next k1 = Suc fd \<and> pk_fresh k1 = pk_fresh k \<and>
     pk_alive k1 \<and> pk_conns k1 = (pk_conns k)(fd := server_accepts lo (pk_fresh k fd))"
  by (auto simp: wire_connect_def split: if_splits)

lemma call_conns:
  "proxy_call (wire_transport la lo) fd me req k = (r, k1) \<Longrightarrow>
     \<not> pk_alive k1 \<or> pk_next k1 = pk_next k \<and> pk_fresh k1 = pk_fresh k \<and> pk_alive k1 = pk_alive k \<and>
       (\<exists>x. pk_conns k1 = (pk_conns k)(fd := x) \<and>
         (\<forall>d. r = Call_ok d \<longrightarrow> (\<exists>sv sv1. pk_conns k fd = Some sv \<and> server_call la lo me req sv = Some ((Inr d, None), sv1) \<and> (x = None \<or> x = Some sv1))))"
proof (cases "pk_conns k fd")
  case None
  assume "proxy_call (wire_transport la lo) fd me req k = (r, k1)"
  then have "r = Call_failed (Some EPIPE) True None" "k1 = k" using None by (simp_all add: wire_call)
  then show ?thesis by (intro disjI2) (auto intro!: exI [of _ None] simp: None fun_upd_idem)
next
  case (Some sv)
  assume c: "proxy_call (wire_transport la lo) fd me req k = (r, k1)"
  show ?thesis
  proof (cases "server_round la lo me req sv")
    case None
    then show ?thesis using c Some by (auto simp: wire_call)
  next
    fix rr assume "server_round la lo me req sv = Some rr"
    then obtain p e sv1 stays where rr: "server_round la lo me req sv = Some ((p, e), sv1, stays)" by (metis prod.collapse)
    then obtain sv2 where c2: "server_call la lo me req sv = Some ((p, e), sv2)" "stays \<longrightarrow> sv1 = sv2" by (rule round_answer)
    have r: "r = result_of (p, e)" "pk_conns k1 = (pk_conns k)(fd := if stays then Some sv1 else None)" and rest: "pk_next k1 = pk_next k" "pk_fresh k1 = pk_fresh k" "pk_alive k1 = pk_alive k"
      using c Some rr by (auto simp: wire_call)
    have "\<forall>d. r = Call_ok d \<longrightarrow> p = Inr d \<and> e = None" using r(1) by (auto simp: result_of_def split: sum.splits option.splits)
    then show ?thesis using r(2) rest c2 Some by (intro disjI2) (auto intro!: exI [of _ "if stays then Some sv1 else None"])
  qed
qed

lemma server_opens_session:
  assumes "server_opens f tci sv = ((Inr r, None), sv1)"
  shows "\<exists>sid. r = Some (OpenResponse (Some sid)) \<and> sv_session sv1 = Some (Session_new sid tci) \<and> (server_memory_ok sv \<longrightarrow> server_memory_ok sv1)"
  using assms by (auto simp: server_opens_def method_error_def answer_with_def data_of_def split: prod.splits option.splits)

lemma tci_buffer_ok:
  assumes "server_tci (if a \<noteq> 0 then Some (read_memory m a (unat len)) else None) sv = (b, sv1)" and "server_memory_ok sv" and "a \<noteq> 0 \<Longrightarrow> len \<noteq> 0"
  shows "server_memory_ok sv1 \<and> map_option (\<lambda>b. mb_len (pb_info b)) b = (if a \<noteq> 0 then Some len else None) \<and> (\<forall>x. b = Some x \<longrightarrow> server_ok x)"
proof (cases "a = 0")
  case True
  then show ?thesis using assms(1,2) by (simp add: server_tci_def)
next
  case False
  obtain x sv2 where x: "server_buffer (unat len) MC_IO_MAP_INOUT sv = (x, sv2)" by fastforce
  note s = server_buffer_ok [OF x assms(2) assms(3) [OF False]]
  then show ?thesis using assms(1) False x by (auto simp: server_tci_def string_buffer_def server_ok_def)
qed

lemma open_session_server:
  assumes "server_openSession lo (OpenSessionRequest u g (if a \<noteq> 0 then Some (read_memory m a (unat len)) else None) l d) sv = ((Inr r, None), sv1)"
    and "server_memory_ok sv" and "a \<noteq> 0 \<Longrightarrow> len \<noteq> 0"
  shows "\<exists>sid b. r = Some (OpenResponse (Some sid)) \<and> sv_session sv1 = Some (Session_new sid b) \<and> server_memory_ok sv1 \<and>
    map_option (\<lambda>b. mb_len (pb_info b)) b = (if a \<noteq> 0 then Some len else None) \<and> (\<forall>x. b = Some x \<longrightarrow> server_ok x)"
proof -
  obtain b sv2 where b: "server_tci (if a \<noteq> 0 then Some (read_memory m a (unat len)) else None) sv = (b, sv2)" by fastforce
  note t = tci_buffer_ok [OF b assms(2,3)]
  obtain f where "server_opens f b sv2 = ((Inr r, None), sv1)"
    using assms(1) b by (auto simp: server_openSession_def refuse_def split: if_splits)
  then show ?thesis using server_opens_session [of f b sv2 r sv1] t by blast
qed

lemma open_trustlet_server:
  assumes "server_openTrustlet lo (OpenTrustletRequest p d (if a \<noteq> 0 then Some (read_memory m a (unat len)) else None)) sv = ((Inr r, None), sv1)"
    and "server_memory_ok sv" and "a \<noteq> 0 \<Longrightarrow> len \<noteq> 0"
  shows "\<exists>sid b. r = Some (OpenResponse (Some sid)) \<and> sv_session sv1 = Some (Session_new sid b) \<and> server_memory_ok sv1 \<and>
    map_option (\<lambda>b. mb_len (pb_info b)) b = (if a \<noteq> 0 then Some len else None) \<and> (\<forall>x. b = Some x \<longrightarrow> server_ok x)"
proof -
  let ?sv = "sv\<lparr>sv_malloc := \<lambda>i. sv_malloc sv (Suc i)\<rparr>"
  obtain b sv2 where b: "server_tci (if a \<noteq> 0 then Some (read_memory m a (unat len)) else None) ?sv = (b, sv2)" by fastforce
  have t: "server_memory_ok sv2 \<and> map_option (\<lambda>b. mb_len (pb_info b)) b = (if a \<noteq> 0 then Some len else None) \<and> (\<forall>x. b = Some x \<longrightarrow> server_ok x)"
    by (rule tci_buffer_ok [OF b]) (use assms(2,3) in auto)
  obtain f where "server_opens f b sv2 = ((Inr r, None), sv1)"
    using assms(1) b by (auto simp: server_openTrustlet_def refuse_def Let_def split: if_splits)
  then show ?thesis using server_opens_session [of f b sv2 r sv1] t by blast
qed

text \<open>Both ways to open go through \<open>open_over\<close>.\<close>

lemma open_over_ok:
  assumes o: "open_over (wire_transport la lo) me req a len c = (r, c2)" and ok: "proxied_ok c" and len: "a \<noteq> 0 \<Longrightarrow> len \<noteq> 0"
    and srv: "\<And>sv d sv1. server_call la lo me req sv = Some ((Inr d, None), sv1) \<Longrightarrow> server_memory_ok sv \<Longrightarrow>
      \<exists>sid b. d = Some (OpenResponse (Some sid)) \<and> sv_session sv1 = Some (Session_new sid b) \<and> server_memory_ok sv1 \<and>
        map_option (\<lambda>b. mb_len (pb_info b)) b = (if a \<noteq> 0 then Some len else None) \<and> (\<forall>x. b = Some x \<longrightarrow> server_ok x)"
  shows "proxied_ok c2"
proof -
  obtain f k where f: "wire_connect lo (pc_net c) = (f, k)" by fastforce
  note ck = mirrored_connect [OF ok f]
  show ?thesis
  proof (cases f)
    case (Inl e)
    then show ?thesis using o f ck by (simp add: open_over_def)
  next
    case (Inr fd)
    note k = connect_fresh [OF f [unfolded Inr]]
    obtain cr k1 where pc: "proxy_call (wire_transport la lo) fd me req k = (cr, k1)" by fastforce
    have o2: "(r, c2) = (case (cr, k1) of
         (Call_failed e _ _, s1) \<Rightarrow> ((Some (default_errno EHOSTUNREACH e), None), c\<lparr>pc_net := wire_close fd s1\<rparr>)
       | (Call_ok msg, s1) \<Rightarrow>
         (case msg of
            Some (OpenResponse (Some sid)) \<Rightarrow>
              ((None, Some sid), c\<lparr>pc_net := s1, pc_connections := pc_connections c @ [\<lparr>co_socket = fd, co_broken = False,
                 co_session = Session_new sid (if a \<noteq> 0 then Some (client_tci_buffer a len) else None)\<rparr>]\<rparr>)
          | _ \<Rightarrow> ((Some EHOSTUNREACH, None), c\<lparr>pc_net := wire_close fd s1\<rparr>)))"
      using o unfolding open_over_def wire_transport_simps f Inr sum.case prod.case pc by simp
    note cc = call_conns [OF pc]
    show ?thesis
      unfolding proxied_ok_def
    proof
      assume al: "pk_alive (pc_net c2)"
      have "pk_alive (pc_net c2) = pk_alive k1"
        using o2 by (auto simp: wire_close_def split: call_result.splits option.splits message.splits)
      then have a1: "pk_alive k1" using al by simp
      then obtain x where x: "pk_next k1 = pk_next k" "pk_fresh k1 = pk_fresh k" "pk_conns k1 = (pk_conns k)(fd := x)"
        "\<forall>d. cr = Call_ok d \<longrightarrow> (\<exists>sv sv1. pk_conns k fd = Some sv \<and> server_call la lo me req sv = Some ((Inr d, None), sv1) \<and> (x = None \<or> x = Some sv1))"
        using cc by (elim disjE conjE exE) (use a1 in simp, rule that)
      have m: "mirrored (c\<lparr>pc_net := k\<rparr>)" using ck k by (simp add: proxied_ok_def)
      have closed: "mirrored (c\<lparr>pc_net := wire_close fd k1\<rparr>)"
        by (rule mirrored_less [OF m]) (use x m in \<open>auto simp: wire_close_def mirrored_def\<close>)
      show "mirrored c2"
      proof (cases "\<exists>sid. cr = Call_ok (Some (OpenResponse (Some sid)))")
        case False
        then have "c2 = c\<lparr>pc_net := wire_close fd k1\<rparr>" using o2 by (auto split: call_result.splits option.splits message.splits)
        then show ?thesis using closed by simp
      next
        case True
        then obtain sid where cr: "cr = Call_ok (Some (OpenResponse (Some sid)))" by blast
        then obtain sv sv1 where sv: "pk_conns k fd = Some sv" "server_call la lo me req sv = Some ((Inr (Some (OpenResponse (Some sid))), None), sv1)" "x = None \<or> x = Some sv1"
          using x(4) by blast
        have "server_memory_ok sv" using m sv(1) unfolding mirrored_def by simp
        then obtain b where b: "sv_session sv1 = Some (Session_new sid b)" "server_memory_ok sv1"
          "map_option (\<lambda>b. mb_len (pb_info b)) b = (if a \<noteq> 0 then Some len else None)" "\<forall>x. b = Some x \<longrightarrow> server_ok x"
          using srv [OF sv(2)] by blast
        let ?co = "\<lparr>co_socket = fd, co_broken = False, co_session = Session_new sid (if a \<noteq> 0 then Some (client_tci_buffer a len) else None)\<rparr>"
        have c2: "c2 = c\<lparr>pc_net := k1, pc_connections := pc_connections c @ [?co]\<rparr>" using o2 cr by simp
        have old: "co \<in> set (pc_connections c) \<Longrightarrow> co_socket co < pk_next (pc_net c)" for co
        proof -
          have "mirrored c" using ok k by (simp add: proxied_ok_def)
          then show "co \<in> set (pc_connections c) \<Longrightarrow> co_socket co < pk_next (pc_net c)" by (simp add: mirrored_def)
        qed
        have sh: "session_shape (Session_new sid b) = session_shape (co_session ?co)" "server_session_ok (Session_new sid b)"
          using b(3,4) by (auto simp: session_shape_def Session_new_def server_session_ok_def client_tci_buffer_def)
        show ?thesis
          unfolding mirrored_def mirrors_def
        proof (intro conjI allI impI ballI)
          fix i show "fresh_server (pk_fresh (pc_net c2) i)" using m x(2) by (simp add: c2 mirrored_def)
        next
          fix g sv3 assume s: "pk_conns (pc_net c2) g = Some sv3"
          have o3: "pk_conns k g = Some sv3 \<Longrightarrow> server_memory_ok sv3 \<and> g < pk_next k" using m by (simp add: mirrored_def)
          show "server_memory_ok sv3" "g < pk_next (pc_net c2)" using s o3 b(2) sv(3) x(1,3) k by (auto simp: c2 split: if_splits)
        next
          have "distinct (map co_socket (pc_connections c))" using m by (simp add: mirrored_def)
          then show "distinct (map co_socket (pc_connections c2))" using old k by (fastforce simp: c2)
        next
          fix co assume co: "co \<in> set (pc_connections c2)"
          show "co_socket co < pk_next (pc_net c2)" using co old k x(1) by (fastforce simp: c2)
          fix sv3 assume s: "pk_conns (pc_net c2) (co_socket co) = Some sv3"
          show "\<exists>s. sv_session sv3 = Some s \<and> server_session_ok s \<and> session_shape s = session_shape (co_session co)"
          proof (cases "co = ?co")
            case True
            then show ?thesis using s sv(3) b(1) sh x(3) by (auto simp: c2)
          next
            case False
            then have c: "co \<in> set (pc_connections c)" using co by (simp add: c2)
            then have "co_socket co \<noteq> fd" using old k by fastforce
            then show ?thesis using s x(3) m c by (auto simp: c2 mirrored_def mirrors_def)
          qed
        qed
      qed
    qed
  qed
qed

lemma open_session_ok:
  assumes o: "px_openSession (wire_transport la lo) se c = (r, c2)" and ok: "proxied_ok c"
  shows "proxied_ok c2"
proof (cases "(se_tci se \<noteq> 0) = (se_tcilen se = 0) \<or> se_tcilen se > BUFFER_LENGTH_MAX")
  case True
  then have "c2 = c" using o unfolding px_openSession_def by (auto split: if_splits)
  then show ?thesis using ok by simp
next
  case False
  let ?tci = "if se_tci se \<noteq> 0 then Some (read_memory (pc_memory c) (se_tci se) (unat (se_tcilen se))) else None"
  obtain d where "open_over (wire_transport la lo) OPEN_SESSION
      (OpenSessionRequest (Some (se_uuid se)) (Some (se_is_gp_uuid se)) ?tci (Some (se_login_type se)) d) (se_tci se) (se_tcilen se) c = (r, c2)"
    using o False unfolding px_openSession_def sent_tci_def by (metis (no_types, lifting))
  then show ?thesis
  proof (rule open_over_ok [OF _ ok])
    show len: "se_tci se \<noteq> 0 \<Longrightarrow> se_tcilen se \<noteq> 0" using False by blast
    fix sv d1 sv1
    assume a: "server_call la lo OPEN_SESSION (OpenSessionRequest (Some (se_uuid se)) (Some (se_is_gp_uuid se)) ?tci (Some (se_login_type se)) d) sv = Some ((Inr d1, None), sv1)" and mem: "server_memory_ok sv"
    have "server_openSession lo (OpenSessionRequest (Some (se_uuid se)) (Some (se_is_gp_uuid se)) ?tci (Some (se_login_type se)) d) sv = ((Inr d1, None), sv1)" using a by (simp only: server_call_def rpc_method.case option.inject)
    from open_session_server [OF this mem len]
    show "\<exists>sid b. d1 = Some (OpenResponse (Some sid)) \<and> sv_session sv1 = Some (Session_new sid b) \<and> server_memory_ok sv1 \<and>
        map_option (\<lambda>b. mb_len (pb_info b)) b = (if se_tci se \<noteq> 0 then Some (se_tcilen se) else None) \<and> (\<forall>x. b = Some x \<longrightarrow> server_ok x)" .
  qed
qed

lemma px_trustlet_ok:
  assumes o: "px_openTrustlet (wire_transport la lo) tr c = (r, c2)" and ok: "proxied_ok c"
  shows "proxied_ok c2"
proof (cases "(tr_tci tr \<noteq> 0) = (tr_tcilen tr = 0) \<or> tr_tcilen tr > BUFFER_LENGTH_MAX")
  case True
  then have "c2 = c" using o unfolding px_openTrustlet_def by (auto split: if_splits)
  then show ?thesis using ok by simp
next
  case False
  let ?tci = "if tr_tci tr \<noteq> 0 then Some (read_memory (pc_memory c) (tr_tci tr) (unat (tr_tcilen tr))) else None"
  obtain d where "open_over (wire_transport la lo) OPEN_TRUSTLET (OpenTrustletRequest (Some (tr_spid tr)) d ?tci) (tr_tci tr) (tr_tcilen tr) c = (r, c2)"
    using o False unfolding px_openTrustlet_def sent_tci_def by (metis (no_types, lifting))
  then show ?thesis
  proof (rule open_over_ok [OF _ ok])
    show len: "tr_tci tr \<noteq> 0 \<Longrightarrow> tr_tcilen tr \<noteq> 0" using False by blast
    fix sv d1 sv1
    assume a: "server_call la lo OPEN_TRUSTLET (OpenTrustletRequest (Some (tr_spid tr)) d ?tci) sv = Some ((Inr d1, None), sv1)" and mem: "server_memory_ok sv"
    have "server_openTrustlet lo (OpenTrustletRequest (Some (tr_spid tr)) d ?tci) sv = ((Inr d1, None), sv1)" using a by (simp only: server_call_def rpc_method.case option.inject)
    from open_trustlet_server [OF this mem len]
    show "\<exists>sid b. d1 = Some (OpenResponse (Some sid)) \<and> sv_session sv1 = Some (Session_new sid b) \<and> server_memory_ok sv1 \<and>
        map_option (\<lambda>b. mb_len (pb_info b)) b = (if tr_tci tr \<noteq> 0 then Some (tr_tcilen tr) else None) \<and> (\<forall>x. b = Some x \<longrightarrow> server_ok x)" .
  qed
qed

lemma px_open_ok:
  assumes o: "px_open (wire_transport la lo) c = (r, c2)" and ok: "proxied_ok c"
  shows "proxied_ok c2"
proof -
  obtain f k where f: "wire_connect lo (pc_net c) = (f, k)" by fastforce
  note ck = mirrored_connect [OF ok f]
  show ?thesis
  proof (cases f)
    case (Inl e)
    then show ?thesis using o f ck by (simp add: px_open_def)
  next
    case (Inr fd)
    obtain cr k1 where pc: "proxy_call (wire_transport la lo) fd GET_VERSION GetVersionRequest k = (cr, k1)" by fastforce
    have "pc_net c2 = wire_close fd k1 \<and> pc_connections c2 = pc_connections c"
      using o unfolding px_open_def wire_transport_simps f Inr sum.case prod.case pc
      by (auto split: call_result.splits option.splits message.splits if_splits)
    then have c2: "pc_net c2 = wire_close fd k1" "pc_connections c2 = pc_connections c" by blast+
    show ?thesis
      unfolding proxied_ok_def
    proof
      assume "pk_alive (pc_net c2)"
      then have a1: "pk_alive k1" by (simp add: c2 wire_close_def)
      then have x: "pk_next k1 = pk_next k" "pk_fresh k1 = pk_fresh k" "pk_alive k1 = pk_alive k" "\<exists>x. pk_conns k1 = (pk_conns k)(fd := x)"
        using call_conns [OF pc] by auto
      have m: "mirrored (c\<lparr>pc_net := k\<rparr>)" using ck x(3) a1 by (simp add: proxied_ok_def)
      show "mirrored c2"
        by (rule mirrored_less [OF m]) (use c2 x m in \<open>auto simp: wire_close_def mirrored_def\<close>)
    qed
  qed
qed

subsection \<open>Everything an application does\<close>

datatype proxy_op = X_open | X_close | X_open_session mc_uuid_session | X_open_trustlet mc_trustlet | X_close_session u32 | X_notify u32 | X_wait u32 int
  | X_malloc u32 | X_free addr u32 | X_map u32 "mc_buffer list" | X_unmap u32 "mc_buffer list" | X_get_error u32 | X_cancel u32 | X_write memory

fun proxy_step :: "'s transport \<Rightarrow> proxy_op \<Rightarrow> 's proxyClient \<Rightarrow> 's proxyClient option" where
  "proxy_step tp X_open c = Some (snd (px_open tp c))"
| "proxy_step tp X_close c = Some (snd (px_close c))"
| "proxy_step tp (X_open_session se) c = Some (snd (px_openSession tp se c))"
| "proxy_step tp (X_open_trustlet tr) c = Some (snd (px_openTrustlet tp tr c))"
| "proxy_step tp (X_close_session sid) c = Some (snd (px_closeSession tp sid c))"
| "proxy_step tp (X_notify sid) c = Some (snd (px_notify tp sid c))"
| "proxy_step tp (X_wait sid timeout) c = map_option snd (px_waitNotification tp sid timeout c)"
| "proxy_step tp (X_malloc len) c = Some (snd (px_malloc len c))"
| "proxy_step tp (X_free a len) c = Some (snd (px_free a len c))"
| "proxy_step tp (X_map sid bufs) c = Some (snd (px_map tp sid bufs c))"
| "proxy_step tp (X_unmap sid bufs) c = Some (snd (px_unmap tp sid bufs c))"
| "proxy_step tp (X_get_error sid) c = Some (snd (px_getError tp sid c))"
| "proxy_step tp (X_cancel sid) c = Some (snd (px_gpRequestCancellation tp sid c))"
| "proxy_step tp (X_write m) c = Some (c\<lparr>pc_memory := m\<rparr>)"

text \<open>Buffers that are mapped are not empty: the server cannot make a copy of none.\<close>

definition sensible :: "proxy_op \<Rightarrow> bool" where
  "sensible x = (case x of X_map sid bufs \<Rightarrow> (\<forall>b\<in>set (given_buffers bufs). mb_len b \<noteq> 0) | _ \<Rightarrow> True)"

definition wire_init :: "(nat \<Rightarrow> 's server_connection) \<Rightarrow> 's proxy_link" where
  "wire_init fresh = \<lparr>pk_conns = Map.empty, pk_next = 0, pk_fresh = fresh, pk_request = Map.empty, pk_data = Map.empty, pk_alive = True\<rparr>"

definition ProxyClient_init :: "'s \<Rightarrow> memory \<Rightarrow> errno \<Rightarrow> (nat \<Rightarrow> addr option) \<Rightarrow> bytes \<Rightarrow> 's proxyClient" where
  "ProxyClient_init net m e maps junk = \<lparr>pc_net = net, pc_open = False, pc_version = \<lparr>pv_product = replicate 64 0, pv_numbers = replicate 8 0\<rparr>,
     pc_connections = [], pc_memory = m, pc_errno = e, pc_mmap = maps, pc_unmapped = [], pc_junk = junk\<rparr>"

inductive proxy_reach :: "tci_layout \<Rightarrow> 's iclient \<Rightarrow> 's proxy_link proxyClient \<Rightarrow> bool" for la lo where
  start: "(\<And>i. fresh_server (fresh i)) \<Longrightarrow> proxy_reach la lo (ProxyClient_init (wire_init fresh) m e maps junk)"
| step: "proxy_reach la lo c \<Longrightarrow> sensible x \<Longrightarrow> proxy_step (wire_transport la lo) x c = Some c1 \<Longrightarrow> proxy_reach la lo c1"

lemma proxied_other: "proxied_ok c \<Longrightarrow> pc_net c1 = pc_net c \<Longrightarrow> pc_connections c1 = pc_connections c \<Longrightarrow> proxied_ok c1"
  by (simp add: proxied_ok_def mirrored_def)

lemma proxy_step_ok:
  assumes lo: "maps_in_place lo" and x: "sensible x" and s: "proxy_step (wire_transport la lo) x c = Some c1" and ok: "proxied_ok c"
  shows "proxied_ok c1"
proof (cases x)
  case X_close then show ?thesis using s proxied_other [OF ok, of c1] by (auto simp: px_close_def)
next
  case (X_malloc len) then show ?thesis using s proxied_other [OF ok, of c1] by (auto simp: px_malloc_def split: if_splits)
next
  case (X_free a len) then show ?thesis using s proxied_other [OF ok, of c1] by (auto simp: px_free_def)
next
  case (X_write m) then show ?thesis using s proxied_other [OF ok, of c1] by auto
next
  case X_open then show ?thesis using s px_open_ok [where la = la and lo = lo, OF prod.collapse [symmetric] ok] by auto
next
  case (X_open_session se) then show ?thesis using s open_session_ok [where la = la and lo = lo, OF prod.collapse [symmetric] ok] by auto
next
  case (X_open_trustlet tr) then show ?thesis using s px_trustlet_ok [where la = la and lo = lo, OF prod.collapse [symmetric] ok] by auto
next
  case (X_close_session sid) then show ?thesis using s close_ok [where la = la and lo = lo, OF prod.collapse [symmetric] ok] by auto
next
  case (X_notify sid) then show ?thesis using s px_notify_ok [where la = la and lo = lo, OF prod.collapse [symmetric] ok] by auto
next
  case (X_wait sid timeout) then show ?thesis using s px_wait_ok [OF _ ok] by auto
next
  case (X_map sid bufs) then show ?thesis using s x px_map_ok [where la = la and lo = lo, OF prod.collapse [symmetric] ok lo] by (auto simp: sensible_def)
next
  case (X_unmap sid bufs) then show ?thesis using s px_unmap_ok [where la = la and lo = lo, OF prod.collapse [symmetric] ok] by auto
next
  case (X_get_error sid) then show ?thesis using s getError_ok [where la = la and lo = lo, OF prod.collapse [symmetric] ok] by auto
next
  case (X_cancel sid) then show ?thesis using s cancel_ok [where la = la and lo = lo, OF prod.collapse [symmetric] ok] by auto
qed

text \<open>The contract of a lower layer the server relies on: the array of buffers is updated in place.\<close>

locale mapping_layer =
  fixes lo :: "'s iclient"
  assumes in_place: "length (snd (fst (ic_map lo sid bufs s))) = length bufs"
begin

lemma proxied_reach: "proxy_reach la lo c \<Longrightarrow> proxied_ok c"
proof (induction rule: proxy_reach.induct)
  case (start fresh m e maps junk)
  then show ?case by (simp add: proxied_ok_def mirrored_def ProxyClient_init_def wire_init_def)
next
  case (step c x c1)
  have "maps_in_place lo" using in_place by (simp add: maps_in_place_def)
  then show ?case using proxy_step_ok step by blast
qed

lemma sessions_alike:
  assumes "proxy_reach la lo c" and "pk_alive (pc_net c)" and "co \<in> set (pc_connections c)" and "pk_conns (pc_net c) (co_socket co) = Some sv"
  shows "\<exists>s. sv_session sv = Some s \<and> session_shape s = session_shape (co_session co) \<and> server_session_ok s"
  using proxied_reach [OF assms(1)] assms(2-4) unfolding proxied_ok_def mirrored_def mirrors_def by blast

end

text \<open>Both implementations of the interface keep it.\<close>

lemma map_buffers_length: "map_buffers so sid bufs ret m d = ((bs, x), d1) \<Longrightarrow> length bs = length bufs"
proof (induction bufs arbitrary: ret m d bs x d1)
  case (Cons b bufs)
  obtain r info cl where m: "mcMap_lib so sid (mb_va b) (mb_len b) True (dc_client d) = ((r, info), cl)" by (metis prod.collapse)
  show ?case using Cons.prems by (auto simp: m Let_def dest!: Cons.IH split: if_splits option.splits prod.splits)
qed simp

lemma dc_map_length: "length (snd (fst (dc_map so sid bufs d))) = length bufs"
proof -
  obtain bs ret mapped d1 where m: "map_buffers so sid bufs None False d = ((bs, ret, mapped), d1)" by (metis prod.collapse)
  have "snd (fst (dc_map so sid bufs d)) = bs" by (simp add: dc_map_def m split: option.split prod.split)
  then show ?thesis using map_buffers_length [OF m] by simp
qed

lemma take_svas_length: "length (snd (take_svas bufs svas)) = length bufs"
  by (induction bufs svas rule: take_svas.induct) (auto split: list.split option.split)

lemma px_map_length: "length (snd (fst (px_map tp sid bufs c))) = length bufs"
proof -
  have t: "take_svas bufs svas = (b, bufs1) \<Longrightarrow> length bufs1 = length bufs" for svas b bufs1 using take_svas_length [of bufs svas] by simp
  obtain x c1 where s: "session_call tp sid MAP (MapRequest (Some sid) (map (\<lambda>b. (Some (mb_len b), Some (mb_flags b))) (given_buffers bufs))) c = (x, c1)" by fastforce
  show ?thesis
  proof (cases "find_connection sid c")
    case None
    then show ?thesis by (simp add: px_map_def)
  next
    case (Some co)
    show ?thesis
    proof (cases x)
      case (Inl e)
      then show ?thesis using Some s by (simp add: px_map_def)
    next
      case (Inr msg)
      define svas where "svas = (case msg of Some (MapResponse svas) \<Rightarrow> svas | _ \<Rightarrow> [])"
      obtain ok bufs1 where tk: "take_svas bufs svas = (ok, bufs1)" by fastforce
      show ?thesis using Some s Inr tk t [OF tk] unfolding px_map_def by (cases ok) (simp_all add: svas_def [symmetric])
    qed
  qed
qed

interpretation driver_layer: mapping_layer "driver_iclient so"
  by unfold_locales (simp add: driver_iclient_def dc_map_length)

interpretation proxy_layer: mapping_layer "proxy_iclient tp"
  by unfold_locales (simp add: proxy_iclient_def px_map_length)

end
