(* ===== verification/ProxyMemory.thy ===== *)
theory ProxyMemory
  imports ProxyFacts TeeClientFacts
begin

text \<open>
  What the proxy is for: the memory an application shares with a trusted application is the same on both sides when it is notified and when it
  is answered. Then what the proxy makes of waits and of refused calls.
\<close>

subsection \<open>Notifications\<close>

definition with_data :: "(u64 \<times> bytes) list \<Rightarrow> proxy_buffer \<Rightarrow> proxy_buffer" where
  "with_data es b = (case map_of es (pb_sva b) of None \<Rightarrow> b | Some d \<Rightarrow> b\<lparr>pb_data := d\<rparr>)"

lemma update_first_unique:
  "distinct (map f xs) \<Longrightarrow> find (\<lambda>x. f x = v) xs = Some x \<Longrightarrow> update_first (\<lambda>x. f x = v) (\<lambda>_. y) xs = map (\<lambda>z. if f z = v then y else z) xs"
proof (induction xs)
  case (Cons a xs)
  show ?case
  proof (cases "f a = v")
    case True
    then have "v \<notin> f ` set xs" using Cons.prems(1) by simp
    then have none: "\<forall>z\<in>set xs. f z \<noteq> v" by blast
    have "(if f z = v then y else z) = z" if "z \<in> set xs" for z using that none by simp
    then have "map (\<lambda>z. if f z = v then y else z) xs = xs" by (rule map_idI)
    then show ?thesis using True by simp
  next
    case False
    then show ?thesis using Cons by simp
  qed
qed simp

lemma find_unique: "distinct (map f xs) \<Longrightarrow> x \<in> set xs \<Longrightarrow> find (\<lambda>z. f z = f x) xs = Some x"
  by (induction xs) (auto simp: image_iff)

lemma distinct_same: "distinct (map f xs) \<Longrightarrow> x \<in> set xs \<Longrightarrow> y \<in> set xs \<Longrightarrow> f x = f y \<Longrightarrow> x = y"
  by (simp add: distinct_map inj_on_def)

lemma update_buffer_ok: "server_ok b \<Longrightarrow> length d = pb_len b \<Longrightarrow> update_buffer d b = Some (True, b\<lparr>pb_data := d\<rparr>)"
  by (auto simp: update_buffer_def server_ok_def)

text \<open>The server puts the data of each buffer where it belongs.\<close>

lemma update_inputs_data:
  "distinct (map fst es) \<Longrightarrow> distinct (map pb_sva (ps_buffers s)) \<Longrightarrow> \<forall>b\<in>set (ps_buffers s). server_ok b \<Longrightarrow>
   \<forall>(v, d)\<in>set es. \<exists>b\<in>set (ps_buffers s). pb_sva b = v \<and> length d = pb_len b \<Longrightarrow>
   update_inputs (map (\<lambda>(v, d). (Some v, Some d)) es) s = Some (None, s\<lparr>ps_buffers := map (with_data es) (ps_buffers s)\<rparr>)"
proof (induction es arbitrary: s)
  case Nil
  then show ?case by (simp add: with_data_def)
next
  case (Cons e es)
  obtain v d where e: "e = (v, d)" by (cases e)
  obtain b where b: "b \<in> set (ps_buffers s)" "pb_sva b = v" "length d = pb_len b" using Cons.prems(4) e by auto
  have f: "findBuffer v s = Some b" using find_unique [OF Cons.prems(2) b(1)] b(2) by (simp add: findBuffer_def)
  have u: "update_buffer d b = Some (True, b\<lparr>pb_data := d\<rparr>)" using update_buffer_ok Cons.prems(3) b by blast
  let ?g = "\<lambda>z. if pb_sva z = v then b\<lparr>pb_data := d\<rparr> else z"
  let ?s = "s\<lparr>ps_buffers := map ?g (ps_buffers s)\<rparr>"
  have uf: "update_first (\<lambda>b. pb_sva b = v) (\<lambda>_. b\<lparr>pb_data := d\<rparr>) (ps_buffers s) = map ?g (ps_buffers s)"
    by (rule update_first_unique [OF Cons.prems(2)]) (use f in \<open>simp add: findBuffer_def\<close>)
  have keep: "pb_sva (?g z) = pb_sva z \<and> pb_len (?g z) = pb_len z \<and> server_ok (?g z)" if "z \<in> set (ps_buffers s)" for z
  proof (cases "pb_sva z = v")
    case True
    then have "z = b" using distinct_same [OF Cons.prems(2) that b(1)] b(2) by simp
    then show ?thesis using True b Cons.prems(3) by (simp add: server_ok_def)
  next
    case False
    then show ?thesis using that Cons.prems(3) by simp
  qed
  have g: "?g z = (if pb_sva z = v then z\<lparr>pb_data := d\<rparr> else z)" if "z \<in> set (ps_buffers s)" for z
    using distinct_same [OF Cons.prems(2) that b(1)] b(2) by (cases "pb_sva z = v") simp_all
  have svas: "map pb_sva (map ?g (ps_buffers s)) = map pb_sva (ps_buffers s)"
    unfolding map_map by (rule map_cong [OF refl]) (use keep in simp)
  have "update_inputs (map (\<lambda>(v, d). (Some v, Some d)) es) ?s = Some (None, ?s\<lparr>ps_buffers := map (with_data es) (ps_buffers ?s)\<rparr>)"
  proof (rule Cons.IH)
    show "distinct (map fst es)" using Cons.prems(1) by simp
    show "distinct (map pb_sva (ps_buffers ?s))" using Cons.prems(2) svas by (simp del: map_map)
    show "\<forall>b\<in>set (ps_buffers ?s). server_ok b"
    proof
      fix b2 assume "b2 \<in> set (ps_buffers ?s)"
      moreover have "set (ps_buffers ?s) = ?g ` set (ps_buffers s)" by simp
      ultimately obtain z where z: "z \<in> set (ps_buffers s)" "b2 = ?g z" by blast
      then show "server_ok b2" using keep [OF z(1)] by (simp only:)
    qed
    show "\<forall>(v, d)\<in>set es. \<exists>b\<in>set (ps_buffers ?s). pb_sva b = v \<and> length d = pb_len b"
    proof (clarify)
      fix v1 d1 assume "(v1, d1) \<in> set es"
      then obtain z where z: "z \<in> set (ps_buffers s)" "pb_sva z = v1" "length d1 = pb_len z" using Cons.prems(4) by fastforce
      then show "\<exists>b\<in>set (ps_buffers ?s). pb_sva b = v1 \<and> length d1 = pb_len b" using keep [OF z(1)] by (intro bexI [of _ "?g z"]) auto
    qed
  qed
  moreover have "map (with_data es) (map ?g (ps_buffers s)) = map (with_data (e # es)) (ps_buffers s)"
  proof -
    have "v \<notin> fst ` set es" using Cons.prems(1) e by simp
    then have "map_of es v = None" by (simp add: map_of_eq_None_iff)
    then have "with_data es (?g z) = with_data (e # es) z" if "z \<in> set (ps_buffers s)" for z
      unfolding g [OF that] e by (cases "pb_sva z = v") (auto simp: with_data_def)
    then show ?thesis by simp
  qed
  ultimately show ?case using f u uf by (simp add: e)
qed

text \<open>What the memory of an application says about a session.\<close>

abbreviation region_read :: "memory \<Rightarrow> proxy_buffer \<Rightarrow> bytes" where
  "region_read m b \<equiv> read_memory m (pb_address b) (pb_len b)"

definition same_tci :: "memory \<Rightarrow> proxy_session \<Rightarrow> proxy_session \<Rightarrow> bool" where
  "same_tci m cs s \<longleftrightarrow> map_option pb_data (ps_tci s) = map_option (region_read m) (ps_tci cs)"

definition same_buffers :: "u32 \<Rightarrow> memory \<Rightarrow> proxy_session \<Rightarrow> proxy_session \<Rightarrow> bool" where
  "same_buffers flag m cs s \<longleftrightarrow>
     list_all2 (\<lambda>b b1. mb_flags (pb_info b) AND flag \<noteq> 0 \<longrightarrow> pb_data b1 = region_read m b) (ps_buffers cs) (ps_buffers s)"

lemma shape_nth:
  assumes "session_shape s = session_shape cs"
  shows "length (ps_buffers s) = length (ps_buffers cs)" and "i < length (ps_buffers cs) \<Longrightarrow> buffer_shape (ps_buffers s ! i) = buffer_shape (ps_buffers cs ! i)"
    and "map pb_sva (ps_buffers s) = map pb_sva (ps_buffers cs)"
proof -
  have m: "map buffer_shape (ps_buffers s) = map buffer_shape (ps_buffers cs)" using assms by (simp add: session_shape_def)
  show l: "length (ps_buffers s) = length (ps_buffers cs)" using arg_cong [where f = length, OF m] by simp
  show n: "i < length (ps_buffers cs) \<Longrightarrow> buffer_shape (ps_buffers s ! i) = buffer_shape (ps_buffers cs ! i)" for i
    using arg_cong [where f = "\<lambda>l. l ! i", OF m] l by simp
  show "map pb_sva (ps_buffers s) = map pb_sva (ps_buffers cs)"
    by (rule nth_equalityI) (use l n in \<open>auto simp: buffer_shape_def\<close>)
qed

lemma notify_answered:
  assumes n: "server_notify lo (NotifyRequest (Some sid) tci bs) sv = Some ((Inr d, None), sv1)" and s: "sv_session sv = Some s"
    and t: "hasTci s \<longrightarrow> tci \<noteq> None" and u: "update_tci tci s = Some (True, s1)" and i: "update_inputs bs s1 = Some (None, s2)"
  shows "sv_session sv1 = Some s2"
proof -
  obtain e k where k: "ic_notify lo sid (sv_driver sv) = (e, k)" by (cases "ic_notify lo sid (sv_driver sv)")
  have nt: "\<not> (hasTci s \<and> tci = None)" using t by blast
  show ?thesis using n by (cases e; cases "length bs > length (ps_buffers s1)")
    (auto simp: server_notify_def s u i k nt Let_def refuse_def method_error_def answer_with_def cong: if_cong)
qed

definition input_data :: "memory \<Rightarrow> proxy_session \<Rightarrow> (u64 \<times> bytes) list" where
  "input_data m cs = map (\<lambda>b. (pb_sva b, region_read m b)) (filter (\<lambda>b. mb_flags (pb_info b) AND MC_IO_MAP_INPUT \<noteq> 0) (ps_buffers cs))"

lemma sent_input_data: "sent_inputs m cs = map (\<lambda>(v, d). (Some v, Some d)) (input_data m cs)"
  by (simp add: sent_inputs_def input_data_def)

lemma input_data_distinct: "distinct (map pb_sva (ps_buffers cs)) \<Longrightarrow> distinct (map fst (input_data m cs))"
proof -
  have "map fst (input_data m cs) = map pb_sva (filter (\<lambda>b. mb_flags (pb_info b) AND MC_IO_MAP_INPUT \<noteq> 0) (ps_buffers cs))" by (simp add: input_data_def)
  then show "distinct (map pb_sva (ps_buffers cs)) \<Longrightarrow> ?thesis" using distinct_map_filter by metis
qed

lemma input_data_of:
  assumes "distinct (map pb_sva (ps_buffers cs))" and "b \<in> set (ps_buffers cs)" and "mb_flags (pb_info b) AND MC_IO_MAP_INPUT \<noteq> 0"
  shows "map_of (input_data m cs) (pb_sva b) = Some (region_read m b)"
proof (rule map_of_is_SomeI [OF input_data_distinct [OF assms(1)]])
  show "(pb_sva b, region_read m b) \<in> set (input_data m cs)" using assms(2,3) by (simp add: input_data_def image_iff) blast
qed

lemma inputs_arrive:
  assumes ok: "\<forall>b\<in>set (ps_buffers s). server_ok b" and sh: "session_shape s = session_shape cs" and dist: "distinct (map pb_sva (ps_buffers cs))"
    and bs: "ps_buffers s1 = ps_buffers s"
  shows "update_inputs (sent_inputs m cs) s1 = Some (None, s1\<lparr>ps_buffers := map (with_data (input_data m cs)) (ps_buffers s)\<rparr>)"
  unfolding sent_input_data bs [symmetric]
proof (rule update_inputs_data [OF input_data_distinct [OF dist]])
  show "distinct (map pb_sva (ps_buffers s1))" using dist shape_nth(3) [OF sh] bs by simp
  show "\<forall>b\<in>set (ps_buffers s1). server_ok b" using ok bs by simp
  show "\<forall>(v, d)\<in>set (input_data m cs). \<exists>b\<in>set (ps_buffers s1). pb_sva b = v \<and> length d = pb_len b"
  proof (clarify)
    fix v d assume "(v, d) \<in> set (input_data m cs)"
    then obtain bc where bc: "bc \<in> set (ps_buffers cs)" "v = pb_sva bc" "d = region_read m bc" unfolding input_data_def by auto
    then obtain k where k: "k < length (ps_buffers cs)" "bc = ps_buffers cs ! k" by (metis in_set_conv_nth)
    then have "buffer_shape (ps_buffers s ! k) = buffer_shape bc" "ps_buffers s ! k \<in> set (ps_buffers s1)"
      using shape_nth(1) [OF sh] shape_nth(2) [OF sh, of k] bs by simp_all
    then show "\<exists>b\<in>set (ps_buffers s1). pb_sva b = v \<and> length d = pb_len b"
      using bc by (intro bexI [of _ "ps_buffers s ! k"]) (simp_all add: buffer_shape_def)
  qed
qed

lemma inputs_same:
  assumes sh: "session_shape s = session_shape cs" and dist: "distinct (map pb_sva (ps_buffers cs))"
    and bs: "ps_buffers s2 = map (with_data (input_data m cs)) (ps_buffers s)"
  shows "same_buffers MC_IO_MAP_INPUT m cs s2"
  unfolding same_buffers_def
proof (rule list_all2_all_nthI)
  show l: "length (ps_buffers cs) = length (ps_buffers s2)" using shape_nth(1) [OF sh] bs by simp
  fix k assume k: "k < length (ps_buffers cs)"
  have sv: "pb_sva (ps_buffers s ! k) = pb_sva (ps_buffers cs ! k)" using shape_nth(2) [OF sh k] by (simp add: buffer_shape_def)
  have b1: "ps_buffers s2 ! k = with_data (input_data m cs) (ps_buffers s ! k)" using k shape_nth(1) [OF sh] bs by simp
  show "mb_flags (pb_info (ps_buffers cs ! k)) AND MC_IO_MAP_INPUT \<noteq> 0 \<longrightarrow> pb_data (ps_buffers s2 ! k) = region_read m (ps_buffers cs ! k)"
  proof
    assume "mb_flags (pb_info (ps_buffers cs ! k)) AND MC_IO_MAP_INPUT \<noteq> 0"
    then have "map_of (input_data m cs) (pb_sva (ps_buffers cs ! k)) = Some (region_read m (ps_buffers cs ! k))"
      by (rule input_data_of [OF dist nth_mem [OF k]])
    then show "pb_data (ps_buffers s2 ! k) = region_read m (ps_buffers cs ! k)" unfolding b1 with_data_def sv by simp
  qed
qed

lemma server_notify_memory:
  assumes n: "server_notify lo (notify_request sid m cs) sv = Some ((Inr d, None), sv1)"
    and s: "sv_session sv = Some s" "server_session_ok s" "session_shape s = session_shape cs" and dist: "distinct (map pb_sva (ps_buffers cs))"
  shows "\<exists>s1. sv_session sv1 = Some s1 \<and> same_tci m cs s1 \<and> same_buffers MC_IO_MAP_INPUT m cs s1"
proof -
  have tcis: "map_option (\<lambda>b. mb_len (pb_info b)) (ps_tci s) = map_option (\<lambda>b. mb_len (pb_info b)) (ps_tci cs)" using s(3) by (simp add: session_shape_def)
  define s1 where "s1 = s\<lparr>ps_tci := map_option (\<lambda>b. b\<lparr>pb_data := region_read m (the (ps_tci cs))\<rparr>) (ps_tci s)\<rparr>"
  define s2 where "s2 = s1\<lparr>ps_buffers := map (with_data (input_data m cs)) (ps_buffers s)\<rparr>"
  have u: "update_tci (map_option (region_read m) (ps_tci cs)) s = Some (True, s1)"
  proof (cases "ps_tci s")
    case None
    then have "s1 = s" by (simp add: s1_def)
    then show ?thesis using None by (simp add: update_tci_def)
  next
    case (Some b)
    then obtain bc where bc: "ps_tci cs = Some bc" "mb_len (pb_info bc) = mb_len (pb_info b)" using tcis by (cases "ps_tci cs") auto
    have "server_ok b" using s(2) Some by (simp add: server_session_ok_def)
    then have "update_buffer (region_read m bc) b = Some (True, b\<lparr>pb_data := region_read m bc\<rparr>)" by (rule update_buffer_ok) (simp add: bc(2))
    then show ?thesis using Some bc(1) by (simp add: update_tci_def s1_def)
  qed
  have i: "update_inputs (sent_inputs m cs) s1 = Some (None, s2)"
    unfolding s2_def by (rule inputs_arrive [OF _ s(3) dist]) (use s(2) in \<open>simp_all add: server_session_ok_def s1_def\<close>)
  have t: "hasTci s \<longrightarrow> map_option (region_read m) (ps_tci cs) \<noteq> None" using tcis by (cases "ps_tci cs") (auto simp: hasTci_def)
  have "sv_session sv1 = Some s2" by (rule notify_answered [OF n [unfolded notify_request_def] s(1) t u i])
  moreover have "same_tci m cs s2"
  proof (cases "ps_tci s")
    case None
    then show ?thesis using tcis by (simp add: same_tci_def s2_def s1_def)
  next
    case (Some b)
    then obtain bc where "ps_tci cs = Some bc" using tcis by (cases "ps_tci cs") auto
    then show ?thesis using Some by (simp add: same_tci_def s2_def s1_def)
  qed
  moreover have "same_buffers MC_IO_MAP_INPUT m cs s2" by (rule inputs_same [OF s(3) dist]) (simp add: s2_def)
  ultimately show ?thesis by blast
qed

lemma reached: "maps_in_place lo \<Longrightarrow> proxy_reach la lo c \<Longrightarrow> pk_alive (pc_net c) \<Longrightarrow> mirrored c"
proof -
  assume "maps_in_place lo" "proxy_reach la lo c" "pk_alive (pc_net c)"
  moreover have "mapping_layer lo" using \<open>maps_in_place lo\<close> by unfold_locales (simp add: maps_in_place_def)
  ultimately show ?thesis using mapping_layer.proxied_reach [of lo la c] by (simp add: proxied_ok_def)
qed

text \<open>The session of the server behind a connection.\<close>

lemma mirror_session:
  assumes "mirrored c" and "find_connection sid c = Some co" and "pk_conns (pc_net c) (co_socket co) = Some sv"
  obtains s where "sv_session sv = Some s" "server_session_ok s" "session_shape s = session_shape (co_session co)" "server_memory_ok sv"
  using assms find_in [of "connection_of sid" "pc_connections c" co] unfolding mirrored_def mirrors_def find_connection_def by blast

text \<open>C13. When a client in a state it can reach notifies a session and succeeds, and the server and the connection are still there, the memory of
  the server as it was when its driver was told is the memory of the application byte for byte: the shared page, and every mapped buffer the trusted
  application may read. The secure world must have given the buffers of the session different addresses, the client must not have mapped a buffer of length zero, and the server must have
  had the memory it asked for.\<close>

theorem notify_carries_memory:
  assumes "maps_in_place lo" and "proxy_reach la lo c" and "find_connection sid c = Some co" and "distinct (map pb_sva (ps_buffers (co_session co)))"
    and "px_notify (wire_transport la lo) sid c = (None, c1)" and "pk_conns (pc_net c1) (co_socket co) = Some sv" and "pk_alive (pc_net c1)"
  shows "\<exists>s. sv_session sv = Some s \<and> same_tci (pc_memory c) (co_session co) s \<and> same_buffers MC_IO_MAP_INPUT (pc_memory c) (co_session co) s"
proof -
  obtain r where s: "session_call (wire_transport la lo) sid NOTIFY (notify_request sid (pc_memory c) (co_session co)) c = (r, c1)" and r: "\<exists>d. r = Inr d"
    using assms(3,5) by (auto simp: px_notify_def split: prod.splits sum.splits)
  show ?thesis
    using assms(3) s
  proof (cases rule: session_call_link)
    case (answered sv0 d e sv1 x)
    have e: "e = None" using r answered(3) by (auto split: option.splits)
    have "mirrored c" using reached [OF assms(1,2)] answered(7) assms(7) by (simp add: same_rest_def)
    then obtain s where s: "sv_session sv0 = Some s" "server_session_ok s" "session_shape s = session_shape (co_session co)"
      using mirror_session [OF _ assms(3) answered(1)] by blast
    have "server_notify lo (notify_request sid (pc_memory c) (co_session co)) sv0 = Some ((Inr d, None), sv1)"
      using answered(2) by (simp add: e server_call_def)
    moreover have "sv = sv1" using answered(5,6) assms(6) by auto
    ultimately show ?thesis using server_notify_memory [OF _ s assms(4)] by blast
  qed (use r in auto)
qed

subsection \<open>Answers\<close>

text \<open>Regions of memory that do not overlap.\<close>

fun all_disjoint :: "(addr \<times> nat) list \<Rightarrow> bool" where
  "all_disjoint [] \<longleftrightarrow> True"
| "all_disjoint ((a, n) # rs) \<longleftrightarrow> (\<forall>(b, k)\<in>set rs. disjoint_regions a n b k \<and> disjoint_regions b k a n) \<and> all_disjoint rs"

abbreviation region :: "proxy_buffer \<Rightarrow> addr \<times> nat" where "region b \<equiv> (pb_address b, pb_len b)"

lemma read_written: "length d = pb_len b \<Longrightarrow> region_read (write_memory (pb_address b) d m) b = d"
  using read_write_memory [of d "pb_address b" m] unsigned_less [of "mb_len (pb_info b)", where ?'a = nat] by simp

lemma region_kept: "disjoint_regions (pb_address b) (pb_len b) (pb_address b2) (length d) \<Longrightarrow> region_read (write_memory (pb_address b2) d m) b = region_read m b"
  by (rule read_other_memory)

text \<open>The answer is written buffer by buffer; each write leaves the others alone.\<close>

lemma update_outputs_data:
  "update_outputs (map (\<lambda>(v, d). (Some v, Some d)) es) cs m = (True, m1) \<Longrightarrow> length bs = length es \<Longrightarrow>
   \<forall>i<length es. findBuffer (fst (es ! i)) cs = Some (bs ! i) \<Longrightarrow> all_disjoint (map region bs) \<Longrightarrow>
   (\<forall>i<length es. region_read m1 (bs ! i) = snd (es ! i)) \<and>
   (\<forall>b. (\<forall>b2\<in>set bs. disjoint_regions (pb_address b) (pb_len b) (pb_address b2) (pb_len b2)) \<longrightarrow> region_read m1 b = region_read m b)"
proof (induction es arbitrary: m bs)
  case Nil
  then show ?case by simp
next
  case (Cons e es)
  obtain v d where e: "e = (v, d)" by (cases e)
  obtain b bs1 where bs: "bs = b # bs1" "length bs1 = length es" using Cons.prems(2) by (cases bs) auto
  have f: "findBuffer v cs = Some b" using Cons.prems(3) [rule_format, of 0] by (simp add: e bs)
  have len: "length d = pb_len b" and rest: "update_outputs (map (\<lambda>(v, d). (Some v, Some d)) es) cs (write_memory (pb_address b) d m) = (True, m1)"
    using Cons.prems(1) f by (auto simp: e split: if_splits)
  have fs: "\<forall>i<length es. findBuffer (fst (es ! i)) cs = Some (bs1 ! i)" using Cons.prems(3) bs by fastforce
  have dj: "\<forall>b2\<in>set bs1. disjoint_regions (pb_address b) (pb_len b) (pb_address b2) (pb_len b2)" and dj2: "all_disjoint (map region bs1)"
    using Cons.prems(4) by (auto simp: bs(1))
  have ih1: "\<forall>i<length es. region_read m1 (bs1 ! i) = snd (es ! i)"
    and ih2: "\<And>b0. \<forall>b2\<in>set bs1. disjoint_regions (pb_address b0) (pb_len b0) (pb_address b2) (pb_len b2) \<Longrightarrow>
      region_read m1 b0 = region_read (write_memory (pb_address b) d m) b0"
    using Cons.IH [OF rest bs(2) fs dj2] by blast+
  have first: "region_read m1 b = d" using ih2 [OF dj] read_written [OF len] by simp
  show ?case
  proof (intro conjI allI impI)
    fix i assume "i < length (e # es)"
    then show "region_read m1 (bs ! i) = snd ((e # es) ! i)" using first ih1 by (cases i) (simp_all add: bs(1) e)
  next
    fix b0 assume a: "\<forall>b2\<in>set bs. disjoint_regions (pb_address b0) (pb_len b0) (pb_address b2) (pb_len b2)"
    then have "region_read m1 b0 = region_read (write_memory (pb_address b) d m) b0" by (intro ih2) (simp add: bs(1))
    also have "\<dots> = region_read m b0" by (rule region_kept) (use a in \<open>simp add: bs(1) len\<close>)
    finally show "region_read m1 b0 = region_read m b0" .
  qed
qed

text \<open>What the server sends back.\<close>

lemma read_outputs_all:
  "\<forall>b\<in>set bs. server_ok b \<Longrightarrow> read_outputs bs =
     Some (map (\<lambda>(v, d). (Some v, Some d)) (map (\<lambda>b. (pb_sva b, pb_data b)) (filter (\<lambda>b. mb_flags (pb_info b) AND MC_IO_MAP_OUTPUT \<noteq> 0) bs)))"
  by (induction bs) (auto simp: read_buffer_def server_ok_def)

lemma filter_shapes:
  "map buffer_shape xs = map buffer_shape ys \<Longrightarrow>
   map buffer_shape (filter (\<lambda>b. mb_flags (pb_info b) AND f \<noteq> 0) xs) = map buffer_shape (filter (\<lambda>b. mb_flags (pb_info b) AND f \<noteq> 0) ys)"
proof (induction xs arbitrary: ys)
  case (Cons x xs)
  then obtain y ys1 where "ys = y # ys1" by (cases ys) auto
  then show ?case using Cons by (auto simp: buffer_shape_def)
qed simp

definition client_outputs :: "proxy_session \<Rightarrow> proxy_buffer list" where
  "client_outputs cs = filter (\<lambda>b. mb_flags (pb_info b) AND MC_IO_MAP_OUTPUT \<noteq> 0) (ps_buffers cs)"

definition answered_regions :: "proxy_session \<Rightarrow> (addr \<times> nat) list" where
  "answered_regions cs = map region ((case ps_tci cs of None \<Rightarrow> [] | Some b \<Rightarrow> [b]) @ client_outputs cs)"

lemma answer_memory:
  assumes w: "wait_response s = Some r" and u: "update_memory (newer_response None (data_of r)) cs m = Some (True, m1)"
    and s: "server_session_ok s" "session_shape s = session_shape cs" and dist: "distinct (map pb_sva (ps_buffers cs))" and dj: "all_disjoint (answered_regions cs)"
  shows "same_tci m1 cs s \<and> same_buffers MC_IO_MAP_OUTPUT m1 cs s"
proof -
  let ?out = "filter (\<lambda>b. mb_flags (pb_info b) AND MC_IO_MAP_OUTPUT \<noteq> 0) (ps_buffers s)"
  let ?es = "map (\<lambda>b. (pb_sva b, pb_data b)) ?out" let ?bs = "client_outputs cs"
  have ro: "read_outputs (ps_buffers s) = Some (map (\<lambda>(v, d). (Some v, Some d)) ?es)" by (rule read_outputs_all) (use s(1) in \<open>simp add: server_session_ok_def\<close>)
  have tcis: "map_option (\<lambda>b. mb_len (pb_info b)) (ps_tci s) = map_option (\<lambda>b. mb_len (pb_info b)) (ps_tci cs)" using s(2) by (simp add: session_shape_def)
  have shapes: "map buffer_shape ?out = map buffer_shape ?bs"
    unfolding client_outputs_def by (rule filter_shapes) (use s(2) in \<open>simp add: session_shape_def\<close>)
  have len: "length ?bs = length ?es" using arg_cong [where f = length, OF shapes] by simp
  have nth: "buffer_shape (?out ! i) = buffer_shape (?bs ! i)" if "i < length ?bs" for i
    using arg_cong [where f = "\<lambda>l. l ! i", OF shapes] that len by simp
  have found: "\<forall>i<length ?es. findBuffer (fst (?es ! i)) cs = Some (?bs ! i)"
  proof (intro allI impI)
    fix i assume i: "i < length ?es"
    then have "?bs ! i \<in> set ?bs" using len by (metis nth_mem)
    then have b: "?bs ! i \<in> set (ps_buffers cs)" by (simp add: client_outputs_def)
    have "fst (?es ! i) = pb_sva (?bs ! i)" using nth [of i] i len by (simp add: buffer_shape_def)
    then show "findBuffer (fst (?es ! i)) cs = Some (?bs ! i)" using find_unique [OF dist b] by (simp add: findBuffer_def)
  qed
  obtain m0 where m0: "update_outputs (map (\<lambda>(v, d). (Some v, Some d)) ?es) cs m0 = (True, m1)"
    and t0: "\<And>b bc. ps_tci s = Some b \<Longrightarrow> ps_tci cs = Some bc \<Longrightarrow> region_read m0 bc = pb_data b"
  proof (cases "ps_tci s")
    case None
    have tc: "ps_tci cs = None" using tcis None by (cases "ps_tci cs") auto
    have r: "r = WaitResponse None (map (\<lambda>(v, d). (Some v, Some d)) ?es)" using w ro None by (simp add: wait_response_def)
    have "update_outputs (map (\<lambda>(v, d). (Some v, Some d)) ?es) cs m = (True, m1)"
      using u by (cases "?es = []") (auto simp: r data_of_def newer_response_def update_memory_def split: if_splits)
    then show ?thesis using that tc by simp
  next
    case (Some b)
    then obtain bc where bc: "ps_tci cs = Some bc" "mb_len (pb_info bc) = mb_len (pb_info b)" using tcis by (cases "ps_tci cs") auto
    have ok: "server_ok b" using s(1) Some by (simp add: server_session_ok_def)
    then have r: "r = WaitResponse (Some (pb_data b)) (map (\<lambda>(v, d). (Some v, Some d)) ?es)" using w ro Some by (simp add: wait_response_def read_buffer_def server_ok_def)
    have l: "length (pb_data b) = pb_len bc" using ok bc(2) by (simp add: server_ok_def)
    have upd: "update_outputs (map (\<lambda>(v, d). (Some v, Some d)) ?es) cs (write_memory (pb_address bc) (pb_data b) m) = (True, m1)"
      using u l bc(1) by (simp add: r data_of_def newer_response_def update_memory_def)
    have "region_read (write_memory (pb_address bc) (pb_data b) m) bc = pb_data b" by (rule read_written [OF l])
    then show ?thesis using Some bc(1) by (intro that [OF upd]) simp
  qed
  have dj1: "all_disjoint (map region ?bs)" using dj by (auto simp: answered_regions_def split: option.splits)
  note o = update_outputs_data [OF m0 len found dj1]
  have "same_tci m1 cs s"
  proof (cases "ps_tci s")
    case None
    then show ?thesis using tcis by (cases "ps_tci cs") (auto simp: same_tci_def)
  next
    case (Some b)
    then obtain bc where bc: "ps_tci cs = Some bc" using tcis by (cases "ps_tci cs") auto
    have "\<forall>b2\<in>set ?bs. disjoint_regions (pb_address bc) (pb_len bc) (pb_address b2) (pb_len b2)" using dj by (auto simp: answered_regions_def bc)
    then have "region_read m1 bc = region_read m0 bc" using o by blast
    then show ?thesis using t0 [OF Some bc] Some bc by (simp add: same_tci_def)
  qed
  moreover have "same_buffers MC_IO_MAP_OUTPUT m1 cs s"
    unfolding same_buffers_def
  proof (rule list_all2I, clarify)
    show "length (ps_buffers cs) = length (ps_buffers s)" using shape_nth(1) [OF s(2)] by simp
    fix b b1 assume z: "(b, b1) \<in> set (zip (ps_buffers cs) (ps_buffers s))" and fl: "mb_flags (pb_info b) AND MC_IO_MAP_OUTPUT \<noteq> 0"
    then obtain k where k: "k < length (ps_buffers cs)" "b = ps_buffers cs ! k" "b1 = ps_buffers s ! k" by (auto simp: in_set_zip)
    have sh: "buffer_shape b1 = buffer_shape b" using shape_nth(2) [OF s(2) k(1)] k by simp
    have kb: "b1 \<in> set (ps_buffers s)" using k shape_nth(1) [OF s(2)] by simp
    have "b1 \<in> set ?out" using kb sh fl by (simp add: buffer_shape_def)
    then obtain i where i: "i < length ?out" "?out ! i = b1" by (metis in_set_conv_nth)
    have "?bs ! i \<in> set ?bs" using i len by (metis length_map nth_mem)
    then have bi: "?bs ! i \<in> set (ps_buffers cs)" by (simp add: client_outputs_def)
    have "pb_sva (?bs ! i) = pb_sva b" using nth [of i] i len sh by (simp add: buffer_shape_def)
    then have "?bs ! i = b" using distinct_same [OF dist bi] k by simp
    then show "pb_data b1 = region_read m1 b" using o i by force
  qed
  ultimately show ?thesis by blast
qed

text \<open>C14. When a wait of a client in a state it can reach succeeds, and the server and the connection are still there, the memory of the application is
  afterwards the memory the server had when its driver returned: the shared page, and every mapped buffer the trusted application may write. These
  must not overlap in the application, their addresses in the secure world must differ, no buffer of length zero was mapped, and the server must have
  had the memory it asked for.\<close>

theorem wait_brings_memory:
  assumes "maps_in_place lo" and "proxy_reach la lo c" and "find_connection sid c = Some co" and "distinct (map pb_sva (ps_buffers (co_session co)))"
    and "all_disjoint (answered_regions (co_session co))"
    and "px_waitNotification (wire_transport la lo) sid timeout c = Some (None, c1)" and "pk_conns (pc_net c1) (co_socket co) = Some sv" and "pk_alive (pc_net c1)"
  shows "\<exists>s. sv_session sv = Some s \<and> same_tci (pc_memory c1) (co_session co) s \<and> same_buffers MC_IO_MAP_OUTPUT (pc_memory c1) (co_session co) s"
proof -
  obtain w k where w: "wait_rounds (wire_transport la lo) (co_socket co) sid timeout timeout None EHOSTUNREACH (co_broken co) (pc_net c) = Some (w, k)"
    "\<not> wo_failed w" "pc_net c1 = k" "update_memory (wo_response w) (co_session co) (pc_memory c) = Some (True, pc_memory c1)"
    using assms(3,6) by (auto simp: px_waitNotification_def Let_def change_connection_def split: option.splits if_splits)
  obtain x sv1 s r where x: "pk_conns k = (pk_conns (pc_net c))(co_socket co := x)" "\<forall>sv1. x = Some sv1 \<longrightarrow> (\<exists>sv. pk_conns (pc_net c) (co_socket co) = Some sv \<and> keeps sv sv1)"
    "x = None \<or> x = Some sv1" "sv_session sv1 = Some s" "wait_response s = Some r" "wo_response w = newer_response None (data_of r)" and al: "pk_alive k = pk_alive (pc_net c)"
    using wait_rounds_link [OF w(1)] w(2,3) assms(8) unfolding waited_def by blast
  have m: "mirrored c" using reached [OF assms(1,2)] al w(3) assms(8) by simp
  have x1: "x = Some sv1" "sv = sv1" using x(1,3) assms(7) w(3) by auto
  then obtain sv0 where sv0: "pk_conns (pc_net c) (co_socket co) = Some sv0" "keeps sv0 sv1" using x(2) by blast
  obtain s0 where s0: "sv_session sv0 = Some s0" "server_session_ok s0" "session_shape s0 = session_shape (co_session co)" by (rule mirror_session [OF m assms(3) sv0(1)])
  have "session_shape s = session_shape (co_session co)" "server_session_ok s" using sv0(2) s0 x(4) unfolding keeps_def by auto
  then show ?thesis using answer_memory [OF x(5) w(4) [unfolded x(6)] _ _ assms(4,5)] x(4) x1(2) by blast
qed

subsection \<open>Sessions and refusals\<close>

text \<open>C8. After any sequence of calls of a proxy client and any writes of its application into its memory, where no buffer of length zero was
  mapped, the server got the memory it asked for and has not come to a call that does not return: each session of the client is like the
  session of the server at the other end of its connection, if that is still open. It has the same identifier, shared memory of the same length,
  and the same buffers with the same lengths, flags and secure addresses in the same order; and every copy the server holds has memory of its length.\<close>

theorem proxy_sessions_alike:
  assumes "maps_in_place lo" and "proxy_reach la lo c" and "pk_alive (pc_net c)" and "co \<in> set (pc_connections c)"
    and "pk_conns (pc_net c) (co_socket co) = Some sv"
  shows "\<exists>s. sv_session sv = Some s \<and> session_shape s = session_shape (co_session co) \<and> server_session_ok s"
proof -
  have "mapping_layer lo" using assms(1) by unfold_locales (simp add: maps_in_place_def)
  then show ?thesis by (rule mapping_layer.sessions_alike [OF _ assms(2-5)])
qed

text \<open>In particular over the driver client, and over another proxy.\<close>

lemmas sessions_alike_driver = driver_layer.sessions_alike
lemmas sessions_alike_proxy = proxy_layer.sessions_alike

text \<open>A wait with a timeout returns whatever the server answers: the rounds end when the time is used up.\<close>

lemma proxy_wait_returns: "0 \<le> timeout \<Longrightarrow> \<exists>w s1. wait_rounds tp fd sid timeout timeout resp e broken s = Some (w, s1)"
proof -
  have "0 \<le> timeout \<Longrightarrow> nat left = n \<Longrightarrow> \<exists>w s1. wait_rounds tp fd sid timeout left resp e broken s = Some (w, s1)" for left n
  proof (induction n arbitrary: left resp e broken s rule: less_induct)
    case (less n)
    obtain cr s1 where pc: "proxy_call tp fd WAIT (WaitRequest (Some sid) (Some (fst (wait_round timeout left))) (Some (fst (snd (wait_round timeout left))))) s = (cr, s1)"
      by fastforce
    show ?case
    proof (cases cr)
      case (Call_ok msg)
      then show ?thesis using pc by (subst wait_rounds.simps) (simp add: case_prod_beta)
    next
      case (Call_failed e1 broke msg)
      show ?thesis
      proof (cases "left > timeout_max")
        case True
        then have "nat (left - timeout_max) < n" using less.prems(2) by (simp add: timeout_max_def)
        note ih = less.IH [OF this less.prems(1) refl]
        have "wait_round timeout left = (timeout_max, True, left - timeout_max)" using True less.prems(1) by (simp add: wait_round_def)
        then show ?thesis using pc Call_failed ih by (subst wait_rounds.simps) simp
      next
        case False
        then have "wait_round timeout left = (left, False, 0)" using less.prems(1) by (simp add: wait_round_def)
        then show ?thesis using pc Call_failed by (subst wait_rounds.simps) simp
      qed
    qed
  qed
  then show "0 \<le> timeout \<Longrightarrow> ?thesis" by blast
qed

text \<open>A request the server refuses ends the connection.\<close>

lemma refused_call:
  assumes "find_connection sid c = Some co" and "pk_conns (pc_net c) (co_socket co) = Some sv" and "server_call la lo me req sv = Some (refuse e sv)"
  shows "\<exists>c1. session_call (wire_transport la lo) sid me req c = (Inl e, c1) \<and> pc_connections c1 = remove_first (connection_of sid) (pc_connections c) \<and>
    pk_conns (pc_net c1) (co_socket co) = None"
  using assms by (simp add: session_call_def wire_call server_round_def refuse_def result_of_def default_errno_def deleteConnection_def find_connection_def wire_close_def)

text \<open>C37. In a state a client can reach without mapping a buffer of length zero, over a server that had the memory it asked for and is still there with
  the connection of the session, unmapping more buffers than an open session has mapped, all with addresses in both worlds, fails as an
  invalid argument and costs the session: the connection is closed and its session is off the list of the client.\<close>

theorem unknown_unmap_ends_session:
  assumes "maps_in_place lo" and "proxy_reach la lo c" and "pk_alive (pc_net c)" and "find_connection sid c = Some co"
    and "pk_conns (pc_net c) (co_socket co) = Some sv" and "length (given_buffers bufs) > length (ps_buffers (co_session co))"
    and "\<forall>b\<in>set (given_buffers bufs). mb_sva b \<noteq> 0"
  shows "\<exists>c1. px_unmap (wire_transport la lo) sid bufs c = (Some EINVAL, c1) \<and> pc_connections c1 = remove_first (connection_of sid) (pc_connections c) \<and>
    pk_conns (pc_net c1) (co_socket co) = None"
proof -
  let ?req = "UnmapRequest (Some sid) (map (\<lambda>b. Some (mb_sva b)) (given_buffers bufs))"
  obtain s where s: "sv_session sv = Some s" "session_shape s = session_shape (co_session co)"
    using mirror_session [OF reached [OF assms(1-3)] assms(4,5)] by blast
  have "server_call la lo UNMAP ?req sv = Some (refuse EINVAL sv)"
    using s(1) assms(6) shape_nth(1) [OF s(2)] by (simp add: server_call_def server_unmap_def)
  from refused_call [OF assms(4,5) this] show ?thesis using assms(4,7) by (auto simp: px_unmap_def)
qed

subsection \<open>A session over an example\<close>

text \<open>A server over a driver that agrees to everything, for which the secure world writes a byte into each buffer with every answer; a client that has opened
  a session with four bytes of shared memory, and has mapped two more bytes.\<close>

definition sample_server :: "unit server_connection" where
  "sample_server = \<lparr>sv_driver = (), sv_session = None, sv_mmap = \<lambda>i. Some 0x10000, sv_malloc = \<lambda>_. True, sv_regions = [],
     sv_junk = \<lparr>pb_info = \<lparr>mb_va = 0, mb_len = 0, mb_sva = 0, mb_flags = 0\<rparr>, pb_address = 0, pb_type = No_buffer, pb_data = []\<rparr>,
     sv_errno = None, sv_writes = \<lambda>_ _ _. [7]\<rparr>"

definition sample_layout :: tci_layout where "sample_layout = \<lparr>la_read = \<lambda>_. zero_tci, la_write = \<lambda>_ d. d\<rparr>"

abbreviation sample_link :: "unit proxy_link transport" where "sample_link \<equiv> wire_transport sample_layout willing_client"

definition sample_start :: "unit proxy_link proxyClient" where
  "sample_start = ProxyClient_init (wire_init (\<lambda>_. sample_server)) (\<lambda>_. 5) Other_errno (\<lambda>_. None) []"

definition sample_request :: mc_uuid_session where
  "sample_request = \<lparr>se_uuid = replicate 16 1, se_is_gp_uuid = True, se_tci = 0x2000, se_tcilen = 4, se_login_type = 0, se_login_data = Some (replicate 16 0)\<rparr>"

definition sample_opened :: "unit proxy_link proxyClient" where
  "sample_opened = snd (px_openSession sample_link sample_request sample_start)"

definition sample_buffers :: "mc_buffer list" where
  "sample_buffers = [\<lparr>mb_va = 0x3000, mb_len = 2, mb_sva = 0, mb_flags = MC_IO_MAP_INOUT\<rparr>]"

definition sample_mapped :: "unit proxy_link proxyClient" where
  "sample_mapped = snd (px_map sample_link 0x301 sample_buffers sample_opened)"

lemma sample_in_place: "maps_in_place willing_client"
  by (simp add: maps_in_place_def willing_client_def)

lemma sample_start_reach: "proxy_reach la lo sample_start"
  unfolding sample_start_def by (rule proxy_reach.start) (simp add: fresh_server_def server_memory_ok_def sample_server_def)

lemma sample_opened_reach: "proxy_reach sample_layout willing_client sample_opened"
  by (rule proxy_reach.step [OF sample_start_reach, of "X_open_session sample_request"]) (simp_all add: sensible_def sample_opened_def)

lemma sample_mapped_reach: "proxy_reach sample_layout willing_client sample_mapped"
  by (rule proxy_reach.step [OF sample_opened_reach, of "X_map 0x301 sample_buffers"]) (simp_all add: sensible_def sample_buffers_def sample_mapped_def)

definition sample_buffer :: "u32 \<Rightarrow> u64 \<Rightarrow> bytes \<Rightarrow> proxy_buffer" where
  "sample_buffer len sva d = \<lparr>pb_info = \<lparr>mb_va = 0x10000, mb_len = len, mb_sva = sva, mb_flags = MC_IO_MAP_INOUT\<rparr>, pb_address = 0x10000,
     pb_type = Server_buffer, pb_data = d\<rparr>"

text \<open>The connection of the server with a session of its shared memory and its buffers.\<close>

definition serving :: "bytes \<Rightarrow> proxy_buffer list \<Rightarrow> addr list \<Rightarrow> unit server_connection" where
  "serving d bs rs = sample_server\<lparr>sv_session := Some \<lparr>ps_id = 0x301, ps_tci = Some (sample_buffer 4 0 d), ps_buffers = bs\<rparr>, sv_regions := rs\<rparr>"

lemmas serve_defs = server_round_def server_call_def willing_client_def Let_def data_of_def answer_with_def sample_server_def serving_def sample_buffer_def

lemma serve_open:
  "server_round la willing_client OPEN_SESSION (OpenSessionRequest (Some (replicate 16 1)) (Some True) (Some [5, 5, 5, 5]) (Some 0) (Some (replicate 16 0))) sample_server =
     Some ((Inr (Some (OpenResponse (Some 0x301))), None), serving [5, 5, 5, 5] [] [0x10000], True)"
  by (simp add: serve_defs server_openSession_def server_opens_def server_tci_def string_buffer_def server_buffer_def Session_new_def)

lemma two_zeros: "replicate 2 (0 :: u8) = [0, 0]"
  by (simp add: numeral_2_eq_2)

lemma serve_map:
  "server_round la willing_client MAP (MapRequest (Some 0x301) [(Some 2, Some MC_IO_MAP_INOUT)]) (serving d [] rs) =
     Some ((Inr (Some (MapResponse [Some 0x100000])), None), serving d [sample_buffer 2 0x100000 [0, 0]] (0x10000 # rs), True)"
  by (simp add: serve_defs server_map_def server_buffer_def map_array_def setSva_def addBuffer_def MC_MAP_MAX_def two_zeros)

lemma serve_notify:
  "length d = 4 \<Longrightarrow> length e = 4 \<Longrightarrow> length f = 2 \<Longrightarrow> length g = 2 \<Longrightarrow>
   server_round la willing_client NOTIFY (NotifyRequest (Some 0x301) (Some e) [(Some 0x100000, Some g)]) (serving d [sample_buffer 2 0x100000 f] rs) =
     Some ((Inr None, None), serving e [sample_buffer 2 0x100000 g] rs, True)"
  by (auto simp: serve_defs server_notify_def hasTci_def update_tci_def update_buffer_def findBuffer_def)

lemma serve_wait:
  "server_round la willing_client WAIT (WaitRequest (Some 0x301) (Some 0) (Some False)) (serving [d0, d1, d2, d3] [sample_buffer 2 0x100000 [f0, f1]] rs) =
     Some ((Inr (Some (WaitResponse (Some [7, d1, d2, d3]) [(Some 0x100000, Some [7, f1])])), None), serving [7, d1, d2, d3] [sample_buffer 2 0x100000 [7, f1]] rs, True)"
  by (simp add: serve_defs server_waitNotification_def timeout_max_def session_written_def buffer_written_def overwrite_def wait_response_def read_buffer_def)

text \<open>The client after opening, and after mapping.\<close>

definition sample_connection :: "proxy_buffer list \<Rightarrow> client_connection" where
  "sample_connection bs = \<lparr>co_socket = 0, co_broken = False, co_session = \<lparr>ps_id = 0x301, ps_tci = Some (client_tci_buffer 0x2000 4), ps_buffers = bs\<rparr>\<rparr>"

definition sample_given :: proxy_buffer where
  "sample_given = client_buffer \<lparr>mb_va = 0x3000, mb_len = 2, mb_sva = 0x100000, mb_flags = MC_IO_MAP_INOUT\<rparr>"

definition in_state :: "client_connection \<Rightarrow> unit server_connection \<Rightarrow> unit proxy_link proxyClient \<Rightarrow> bool" where
  "in_state co sv c \<longleftrightarrow> pc_connections c = [co] \<and> pk_conns (pc_net c) 0 = Some sv \<and> pk_alive (pc_net c) \<and> pc_memory c = (\<lambda>_. 5)"

lemma sample_found: "in_state (sample_connection bs) sv c \<Longrightarrow> find_connection 0x301 c = Some (sample_connection bs)"
  by (simp add: in_state_def find_connection_def connection_of_def sample_connection_def)

lemma read_fives: "read_memory (\<lambda>_. 5) a 4 = [5, 5, 5, 5]" "read_memory (\<lambda>_. 5) a 2 = [5, 5]"
  by (simp_all add: read_memory_def upt_rec)

lemma sample_opened_state: "in_state (sample_connection []) (serving [5, 5, 5, 5] [] [0x10000]) sample_opened"
proof -
  have c: "wire_connect willing_client (pc_net sample_start) = (Inr 0, (pc_net sample_start)\<lparr>pk_next := 1, pk_conns := [0 \<mapsto> sample_server]\<rparr>)"
    by (simp add: wire_connect_def sample_start_def ProxyClient_init_def wire_init_def server_accepts_def willing_client_def sample_server_def)
  have p: "proxy_call sample_link 0 OPEN_SESSION
      (OpenSessionRequest (Some (replicate 16 1)) (Some True) (Some [5, 5, 5, 5]) (Some 0) (Some (replicate 16 0)))
      ((pc_net sample_start)\<lparr>pk_next := 1, pk_conns := [0 \<mapsto> sample_server]\<rparr>) =
    (Call_ok (Some (OpenResponse (Some 0x301))), (pc_net sample_start)\<lparr>pk_next := 1, pk_conns := [0 \<mapsto> serving [5, 5, 5, 5] [] [0x10000]],
       pk_request := (pk_request (pc_net sample_start))(0 := None), pk_data := (pk_data (pc_net sample_start))(0 := None)\<rparr>)"
    using serve_open [of sample_layout] by (simp add: wire_call result_of_def)
  have s: "pc_memory sample_start = (\<lambda>_. 5)" "pc_connections sample_start = []" "pk_alive (pc_net sample_start)"
    by (simp_all add: sample_start_def ProxyClient_init_def wire_init_def)
  show ?thesis
    using p by (simp add: sample_opened_def px_openSession_def sample_request_def sent_tci_def open_over_def c s read_fives in_state_def sample_connection_def Session_new_def)
qed

lemma sample_mapped_state: "in_state (sample_connection [sample_given]) (serving [5, 5, 5, 5] [sample_buffer 2 0x100000 [0, 0]] [0x10000, 0x10000]) sample_mapped"
proof -
  note st = sample_opened_state and f = sample_found [OF sample_opened_state]
  obtain k where s: "session_call sample_link 0x301 MAP (MapRequest (Some 0x301) [(Some 2, Some MC_IO_MAP_INOUT)]) sample_opened =
      (Inr (Some (MapResponse [Some 0x100000])), sample_opened\<lparr>pc_net := k\<rparr>)"
    "pk_conns k 0 = Some (serving [5, 5, 5, 5] [sample_buffer 2 0x100000 [0, 0]] [0x10000, 0x10000])" "pk_alive k"
    using st f by (simp add: session_call_def wire_call sample_connection_def in_state_def serve_map result_of_def)
  show ?thesis
    using st f s by (simp add: sample_mapped_def px_map_def sample_buffers_def in_state_def change_session_def change_connection_def connection_of_def
        sample_connection_def sample_given_def addBuffer_def)
qed

lemma sample_mapped_facts: "find_connection 0x301 sample_mapped = Some (sample_connection [sample_given])" "pk_alive (pc_net sample_mapped)"
  "pk_conns (pc_net sample_mapped) (co_socket (sample_connection [sample_given])) = Some (serving [5, 5, 5, 5] [sample_buffer 2 0x100000 [0, 0]] [0x10000, 0x10000])"
  "ps_buffers (co_session (sample_connection [sample_given])) = [sample_given]"
  using sample_found [OF sample_mapped_state] sample_mapped_state by (simp_all add: in_state_def sample_connection_def)

lemma proxy_sessions_alike_witness: "\<exists>s. sv_session (serving [5, 5, 5, 5] [sample_buffer 2 0x100000 [0, 0]] [0x10000, 0x10000]) = Some s \<and>
    session_shape s = session_shape (co_session (sample_connection [sample_given])) \<and> server_session_ok s"
  using proxy_sessions_alike [OF sample_in_place sample_mapped_reach sample_mapped_facts(2) _ sample_mapped_facts(3)] sample_mapped_state
  by (simp add: in_state_def)

lemma unknown_unmap_ends_session_witness:
  "\<exists>c1. px_unmap sample_link 0x301 [\<lparr>mb_va = 0x3000, mb_len = 2, mb_sva = 0x100000, mb_flags = 0\<rparr>, \<lparr>mb_va = 0x4000, mb_len = 2, mb_sva = 0x200000, mb_flags = 0\<rparr>]
      sample_mapped = (Some EINVAL, c1) \<and> pc_connections c1 = []"
  using unknown_unmap_ends_session [OF sample_in_place sample_mapped_reach sample_mapped_facts(2,1,3), of "[\<lparr>mb_va = 0x3000, mb_len = 2, mb_sva = 0x100000, mb_flags = 0\<rparr>,
      \<lparr>mb_va = 0x4000, mb_len = 2, mb_sva = 0x200000, mb_flags = 0\<rparr>]"] sample_mapped_state
  by (auto simp: sample_mapped_facts(4) in_state_def sample_connection_def connection_of_def)

text \<open>A notification and a wait of the example.\<close>

lemma sample_distinct: "distinct (map pb_sva (ps_buffers (co_session (sample_connection [sample_given]))))"
  by (simp add: sample_connection_def)

lemma sample_notified:
  "\<exists>c1. px_notify sample_link 0x301 sample_mapped = (None, c1) \<and> pk_alive (pc_net c1) \<and>
     pk_conns (pc_net c1) 0 = Some (serving [5, 5, 5, 5] [sample_buffer 2 0x100000 [5, 5]] [0x10000, 0x10000])"
proof -
  note st = sample_mapped_state
  have req: "notify_request 0x301 (\<lambda>_. 5) \<lparr>ps_id = 0x301, ps_tci = Some (client_tci_buffer 0x2000 4), ps_buffers = [sample_given]\<rparr> =
      NotifyRequest (Some 0x301) (Some [5, 5, 5, 5]) [(Some 0x100000, Some [5, 5])]"
    by (simp add: notify_request_def sent_inputs_def sample_given_def client_buffer_def client_tci_buffer_def read_fives)
  have n: "server_round sample_layout willing_client NOTIFY (NotifyRequest (Some 0x301) (Some [5, 5, 5, 5]) [(Some 0x100000, Some [5, 5])])
      (serving [5, 5, 5, 5] [sample_buffer 2 0x100000 [0, 0]] [0x10000, 0x10000]) =
      Some ((Inr None, None), serving [5, 5, 5, 5] [sample_buffer 2 0x100000 [5, 5]] [0x10000, 0x10000], True)"
    by (rule serve_notify) simp_all
  show ?thesis
    using st n by (simp add: px_notify_def sample_mapped_facts(1) req session_call_def wire_call in_state_def result_of_def sample_connection_def)
qed

lemma notify_carries_memory_witness:
  "\<exists>c1 s. px_notify sample_link 0x301 sample_mapped = (None, c1) \<and> map_option pb_data (ps_tci s) = Some [5, 5, 5, 5] \<and>
     same_buffers MC_IO_MAP_INPUT (\<lambda>_. 5) (co_session (sample_connection [sample_given])) s"
proof -
  obtain c1 where c1: "px_notify sample_link 0x301 sample_mapped = (None, c1)" "pk_alive (pc_net c1)"
    "pk_conns (pc_net c1) (co_socket (sample_connection [sample_given])) = Some (serving [5, 5, 5, 5] [sample_buffer 2 0x100000 [5, 5]] [0x10000, 0x10000])"
    using sample_notified by (auto simp: sample_connection_def)
  have m: "pc_memory sample_mapped = (\<lambda>_. 5)" using sample_mapped_state by (simp add: in_state_def)
  show ?thesis
    using notify_carries_memory [OF sample_in_place sample_mapped_reach sample_mapped_facts(1) sample_distinct c1(1,3,2)] c1(1)
    by (auto simp: m same_tci_def sample_connection_def client_tci_buffer_def read_fives)
qed

lemma sample_regions: "all_disjoint (answered_regions (co_session (sample_connection [sample_given])))"
proof -
  have less: "i = 0 \<or> i = 1 \<or> i = 2 \<or> i = 3" if "i < 4" for i :: nat using that by arith
  have less2: "i = 0 \<or> i = 1" if "i < 2" for i :: nat using that by arith
  have "disjoint_regions 0x2000 4 0x3000 2" unfolding disjoint_regions_def by (auto dest!: less)
  moreover have "disjoint_regions 0x3000 2 0x2000 4" unfolding disjoint_regions_def by (auto dest!: less2)
  ultimately show ?thesis
    by (simp add: answered_regions_def client_outputs_def sample_connection_def sample_given_def client_buffer_def client_tci_buffer_def)
qed

lemma sample_waited:
  "\<exists>c1. px_waitNotification sample_link 0x301 0 sample_mapped = Some (None, c1) \<and> pk_alive (pc_net c1) \<and>
     pk_conns (pc_net c1) 0 = Some (serving [7, 5, 5, 5] [sample_buffer 2 0x100000 [7, 0]] [0x10000, 0x10000])"
proof -
  note st = sample_mapped_state
  obtain k where k: "proxy_call sample_link 0 WAIT (WaitRequest (Some 0x301) (Some 0) (Some False)) (pc_net sample_mapped) =
      (Call_ok (Some (WaitResponse (Some [7, 5, 5, 5]) [(Some 0x100000, Some [7, 0])])), k)" "pk_alive k"
      "pk_conns k 0 = Some (serving [7, 5, 5, 5] [sample_buffer 2 0x100000 [7, 0]] [0x10000, 0x10000])"
    using st by (simp add: wire_call in_state_def serve_wait result_of_def)
  have w: "wait_rounds sample_link 0 0x301 0 0 None EHOSTUNREACH False (pc_net sample_mapped) =
      Some (\<lparr>wo_failed = False, wo_response = Some (WaitResponse (Some [7, 5, 5, 5]) [(Some 0x100000, Some [7, 0])]), wo_errno = EHOSTUNREACH, wo_broken = False\<rparr>, k)"
    by (subst wait_rounds.simps) (simp add: wait_round_def timeout_max_def k(1) newer_response_def)
  show ?thesis
    using st w k by (simp add: px_waitNotification_def sample_mapped_facts(1) sample_connection_def in_state_def Let_def update_memory_def change_connection_def
        client_tci_buffer_def findBuffer_def sample_given_def client_buffer_def)
qed

lemma wait_brings_memory_witness:
  "\<exists>c1 s. px_waitNotification sample_link 0x301 0 sample_mapped = Some (None, c1) \<and> map_option pb_data (ps_tci s) = Some [7, 5, 5, 5] \<and>
     same_tci (pc_memory c1) (co_session (sample_connection [sample_given])) s \<and>
     same_buffers MC_IO_MAP_OUTPUT (pc_memory c1) (co_session (sample_connection [sample_given])) s"
proof -
  obtain c1 where c1: "px_waitNotification sample_link 0x301 0 sample_mapped = Some (None, c1)" "pk_alive (pc_net c1)"
    "pk_conns (pc_net c1) (co_socket (sample_connection [sample_given])) = Some (serving [7, 5, 5, 5] [sample_buffer 2 0x100000 [7, 0]] [0x10000, 0x10000])"
    using sample_waited by (auto simp: sample_connection_def)
  have tci: "sv_session (serving [7, 5, 5, 5] bs rs) = Some s \<Longrightarrow> map_option pb_data (ps_tci s) = Some [7, 5, 5, 5]" for bs rs s
    by (auto simp: serving_def sample_buffer_def)
  show ?thesis
    using wait_brings_memory [OF sample_in_place sample_mapped_reach sample_mapped_facts(1) sample_distinct sample_regions c1(1,3,2)] c1(1) tci by blast
qed

end
